(* ===== verification/Prelude.thy ===== *)
theory Prelude
  imports Main "HOL-Library.Word"
begin

text \<open>
  Shared vocabulary of the development: the machine types of the C code, its error codes
  (apx/include/apx/error.h), the outcome of a C function that mutates a state, raw memory
  access, and the byte order lemmas every codec proof uses.

  A C function that returns an \<open>apx_error_t\<close> and mutates an object through a pointer is
  a function from the object's value to a pair of an error code and the new value; the new
  value is there on the error paths too, because C keeps the partial mutation. What ends
  a C program, or leaves it without a meaning, is no error code of the program: a failed \<open>assert\<close>, an access
  outside an object, to a freed one or through a null pointer, the read of a variable that was never set. They are the constructor \<open>FAULT\<close>, so that memory safety and the
  absence of assertion failures are statements about the model.
\<close>

unbundle bit_operations_syntax

type_synonym byte = "8 word"
type_synonym u16 = "16 word"
type_synonym u32 = "32 word"
type_synonym u64 = "64 word"

named_theorems apx_simps \<open>equations that run the modelled C code\<close>
named_theorems codec_simps \<open>facts about packed bytes\<close>

section \<open>Error codes and outcomes\<close>

datatype fault = ASSERT_FAILURE | OUT_OF_BOUNDS | USE_AFTER_FREE | UNINITIALIZED_READ | NULL_ACCESS

datatype apx_error =
    APX_NO_ERROR
  | APX_INVALID_ARGUMENT_ERROR
  | APX_MEM_ERROR
  | APX_PARSE_ERROR
  | APX_INTERNAL_ERROR
  | APX_LENGTH_ERROR
  | APX_ELEMENT_TYPE_ERROR
  | APX_UNSUPPORTED_ERROR
  | APX_NOT_IMPLEMENTED_ERROR
  | APX_NOT_FOUND_ERROR
  | APX_NAME_MISSING_ERROR
  | APX_NAME_TOO_LONG_ERROR
  | APX_NULL_PTR_ERROR
  | APX_MISSING_BUFFER_ERROR
  | APX_BUFFER_BOUNDARY_ERROR
  | APX_BUFFER_FULL_ERROR
  | APX_QUEUE_FULL_ERROR
  | APX_INVALID_PROGRAM_ERROR
  | APX_INVALID_INSTRUCTION_ERROR
  | APX_EMPTY_RECORD_ERROR
  | APX_INVALID_HEADER_ERROR
  | APX_UNEXPECTED_END_ERROR
  | APX_VALUE_TYPE_ERROR
  | APX_VALUE_RANGE_ERROR
  | APX_VALUE_CONVERSION_ERROR
  | APX_VALUE_LENGTH_ERROR
  | APX_INDEX_ERROR
  | APX_INVALID_TYPE_REF_ERROR
  | APX_TOO_MANY_REFERENCES_ERROR
  | APX_INVALID_FILE_ERROR
  | APX_FILE_ALREADY_EXISTS_ERROR
  | APX_INVALID_ADDRESS_ERROR
  | APX_GENERIC_ERROR
  | APX_UNMATCHED_BRACE_ERROR
  | APX_UNMATCHED_BRACKET_ERROR
  | APX_UNMATCHED_STRING_ERROR
  | APX_EXPECTED_BRACKET_ERROR
  | APX_INVALID_ATTRIBUTE_ERROR
  | APX_TYPE_ALREADY_EXIST_ERROR
  | APX_PORT_ALREADY_EXIST_ERROR
  | APX_FILE_NOT_FOUND_ERROR
  | APX_FILE_NOT_OPEN_ERROR
  | APX_FILE_CREATE_ERROR
  | APX_INVALID_WRITE_ERROR
  | APX_INVALID_MSG_ERROR
  | APX_INVALID_STATE_ERROR
  | APX_INIT_VALUE_ERROR
  | APX_STRAY_CHARACTERS_AFTER_PARSE_ERROR
  | APX_NUMBER_TOO_LARGE_ERROR
  | APX_VERSION_ERROR
  | APX_MSG_TOO_LARGE_ERROR
  | APX_DATA_SIGNATURE_ERROR
  | APX_PORT_SIGNATURE_ERROR
  | APX_TOO_MANY_NODES_ERROR
  | APX_NODE_MISSING_ERROR
  | APX_NODE_ALREADY_EXISTS_ERROR
  | APX_MISSING_FILE_ERROR
  | APX_FILE_TOO_LARGE_ERROR
  | APX_CONNECTION_ERROR
  | APX_TRANSMIT_ERROR
  | APX_DATA_NOT_PROCESSED_ERROR
  | APX_READ_ERROR
  | APX_UNEXPECTED_DATA_ERROR
  | APX_BUSY_ERROR
  | APX_DATA_NOT_COMPLETE_ERROR
  | APX_NOT_CONNECTED_ERROR
  | APX_INVALID_NAME_ERROR
  | APX_INVALID_PORT_HANDLE_ERROR
  | APX_TOO_MANY_PORTS_ERROR
  | APX_INVALID_OPEN_HANDLER_ERROR
  | APX_INVALID_WRITE_HANDLER_ERROR
  | FAULT fault

text \<open>A fault ends the program: no code after it runs.\<close>

fun is_fault :: "apx_error \<Rightarrow> bool" where
  "is_fault (FAULT f) = True"
| "is_fault _ = False"

text \<open>
  \<open>andThen r f\<close> is the idiom \<open>result = ...; if (result != APX_NO_ERROR) return result;\<close>
  followed by the rest of the function: an error ends the function with the state reached.
\<close>

definition andThen :: "apx_error \<times> 's \<Rightarrow> ('s \<Rightarrow> apx_error \<times> 's) \<Rightarrow> apx_error \<times> 's" where
  "andThen r f = (case r of (e, s) \<Rightarrow> if e = APX_NO_ERROR then f s else (e, s))"

text \<open>\<open>assert(c)\<close> before the rest of a function.\<close>

definition c_assert :: "bool \<Rightarrow> apx_error \<times> 's \<Rightarrow> 's \<Rightarrow> apx_error \<times> 's" where
  "c_assert c r s = (if c then r else (FAULT ASSERT_FAILURE, s))"

lemma andThen_ok [simp]: "andThen (APX_NO_ERROR, s) f = f s"
  by (simp add: andThen_def)

lemma andThen_err: "e \<noteq> APX_NO_ERROR \<Longrightarrow> andThen (e, s) f = (e, s)"
  by (simp add: andThen_def)

lemma andThen_eq_ok:
  "andThen r f = (APX_NO_ERROR, t) \<longleftrightarrow> (\<exists>s. r = (APX_NO_ERROR, s) \<and> f s = (APX_NO_ERROR, t))"
  by (cases r) (auto simp: andThen_def)

lemma andThen_split:
  "P (andThen r f) \<longleftrightarrow>
    (\<forall>e s. r = (e, s) \<longrightarrow> (if e = APX_NO_ERROR then P (f s) else P (e, s)))"
  by (cases r) (auto simp: andThen_def)

text \<open>
  The rule behind every invariant of a mutating function: what the first part establishes
  on every outcome, and the rest keeps, holds of the whole.
\<close>

lemma andThen_inv:
  assumes "I (snd r)" and "\<And>s. I s \<Longrightarrow> fst r = APX_NO_ERROR \<Longrightarrow> s = snd r \<Longrightarrow> I (snd (f s))"
  shows "I (snd (andThen r f))"
  using assms by (cases r) (auto simp: andThen_def)

lemma c_assert_true [simp]: "c_assert True r s = r"
  by (simp add: c_assert_def)

lemma c_assert_eq_ok:
  "c_assert c r s = (APX_NO_ERROR, t) \<longleftrightarrow> c \<and> r = (APX_NO_ERROR, t)"
  by (simp add: c_assert_def)

lemma c_assert_inv: "I (snd r) \<Longrightarrow> I s \<Longrightarrow> I (snd (c_assert c r s))"
  by (simp add: c_assert_def)

text \<open>The content of a pointer that is not null, and a value in its place otherwise.\<close>

fun the_default :: "'a \<Rightarrow> 'a option \<Rightarrow> 'a" where
  "the_default d None = d"
| "the_default d (Some x) = x"

section \<open>Raw memory\<close>

text \<open>
  An object of the heap is a list of bytes and a pointer into it an offset. A store or a
  load that leaves the object has no defined result: \<open>None\<close>.
\<close>

definition mem_write :: "nat \<Rightarrow> byte list \<Rightarrow> byte list \<Rightarrow> byte list option" where
  "mem_write off bs mem =
     (if off + length bs \<le> length mem
      then Some (take off mem @ bs @ drop (off + length bs) mem) else None)"

definition mem_read :: "nat \<Rightarrow> nat \<Rightarrow> byte list \<Rightarrow> byte list option" where
  "mem_read off n mem =
     (if off + n \<le> length mem then Some (take n (drop off mem)) else None)"

text \<open>\<open>memcpy(dst, src, n)\<close> between two objects.\<close>

definition memcpy :: "byte list \<Rightarrow> byte list \<Rightarrow> nat \<Rightarrow> byte list option" where
  "memcpy dst src n = (case mem_read 0 n src of None \<Rightarrow> None | Some bs \<Rightarrow> mem_write 0 bs dst)"

lemma memcpy_in_bounds:
  "n \<le> length src \<Longrightarrow> n \<le> length dst \<Longrightarrow> memcpy dst src n = Some (take n src @ drop n dst)"
  by (simp add: memcpy_def mem_read_def mem_write_def)

text \<open>The characters of a C string: the bytes in front of its terminator.\<close>

definition c_string :: "byte list \<Rightarrow> byte list" where
  "c_string bs = takeWhile (\<lambda>b. b \<noteq> 0) bs"

lemma c_string_plain [simp]: "0 \<notin> set bs \<Longrightarrow> c_string bs = bs"
  unfolding c_string_def by (rule takeWhile_eq_all_conv [THEN iffD2]) auto

lemma c_string_plain_append: "0 \<notin> set bs \<Longrightarrow> c_string (bs @ 0 # rest) = bs"
  unfolding c_string_def by (subst takeWhile_append2) auto

lemma mem_write_length: "mem_write off bs mem = Some mem' \<Longrightarrow> length mem' = length mem"
  by (auto simp: mem_write_def split: if_splits)

lemma mem_write_in_bounds:
  "off + length bs \<le> length mem \<Longrightarrow>
     mem_write off bs mem = Some (take off mem @ bs @ drop (off + length bs) mem)"
  by (simp add: mem_write_def)

lemma mem_read_in_bounds:
  "off + n \<le> length mem \<Longrightarrow> mem_read off n mem = Some (take n (drop off mem))"
  by (simp add: mem_read_def)

lemma mem_read_after_write:
  "mem_write off bs mem = Some mem' \<Longrightarrow> mem_read off (length bs) mem' = Some bs"
  by (auto simp: mem_write_def mem_read_def split: if_splits)

lemma mem_write_take:
  "mem_write off bs mem = Some mem' \<Longrightarrow> take off mem' = take off mem"
  by (auto simp: mem_write_def split: if_splits)

lemma mem_write_drop:
  "mem_write off bs mem = Some mem' \<Longrightarrow>
     drop (off + length bs) mem' = drop (off + length bs) mem"
  by (auto simp: mem_write_def split: if_splits)

section \<open>Byte order\<close>

fun le_bytes :: "nat \<Rightarrow> nat \<Rightarrow> byte list" where
  "le_bytes 0 x = []"
| "le_bytes (Suc n) x = word_of_nat x # le_bytes n (x div 256)"

fun le_val :: "byte list \<Rightarrow> nat" where
  "le_val [] = 0"
| "le_val (b # bs) = unat b + 256 * le_val bs"

definition be_bytes :: "nat \<Rightarrow> nat \<Rightarrow> byte list" where
  "be_bytes n x = rev (le_bytes n x)"

definition be_val :: "byte list \<Rightarrow> nat" where
  "be_val bs = le_val (rev bs)"

lemma unat_byte_less: "unat (b :: byte) < 256"
proof -
  have "unat b < 2 ^ LENGTH(8)"
    by (rule unsigned_less)
  then show ?thesis by simp
qed

lemma length_le_bytes [simp]: "length (le_bytes n x) = n"
  by (induction n arbitrary: x) auto

lemma length_be_bytes [simp]: "length (be_bytes n x) = n"
  by (simp add: be_bytes_def)

lemma le_val_le_bytes: "le_val (le_bytes n x) = x mod 256 ^ n"
proof (induction n arbitrary: x)
  case 0
  then show ?case by simp
next
  case (Suc n)
  have "x mod 256 ^ Suc n = x mod 256 + 256 * (x div 256 mod 256 ^ n)"
    by (simp add: mod_mult2_eq)
  then show ?case
    by (simp add: Suc unat_of_nat)
qed

lemma be_val_be_bytes: "be_val (be_bytes n x) = x mod 256 ^ n"
  by (simp add: be_val_def be_bytes_def le_val_le_bytes)

lemma le_val_le_bytes_small: "x < 256 ^ n \<Longrightarrow> le_val (le_bytes n x) = x"
  by (simp add: le_val_le_bytes)

lemma le_val_bound: "le_val bs < 256 ^ length bs"
proof (induction bs)
  case Nil
  then show ?case by simp
next
  case (Cons b bs)
  have "unat b < 256"
    by (rule unat_byte_less)
  with Cons show ?case by simp
qed

lemma le_bytes_le_val: "le_bytes (length bs) (le_val bs) = bs"
proof (induction bs)
  case Nil
  then show ?case by simp
next
  case (Cons b bs)
  have b: "unat b < 256"
    by (rule unat_byte_less)
  have z: "(256 :: byte) = 0"
    by simp
  have "(word_of_nat (unat b + 256 * le_val bs) :: byte) = word_of_nat (unat b)"
    by (simp only: of_nat_add of_nat_mult of_nat_numeral z mult_zero_left add_0_right)
  moreover have "(unat b + 256 * le_val bs) div 256 = le_val bs"
    using b by simp
  ultimately show ?case
    using Cons by simp
qed

lemma le_bytes_numeral [simp]:
  "le_bytes (numeral k) x = word_of_nat x # le_bytes (pred_numeral k) (x div 256)"
  by (subst numeral_eq_Suc [of k]) simp

lemma le_bytes_1 [codec_simps]: "le_bytes 1 x = [word_of_nat x]"
  by simp

lemma take_append_length: "length xs = n \<Longrightarrow> take n (xs @ ys) = xs"
  by simp

lemma drop_append_length: "length xs = n \<Longrightarrow> drop n (xs @ ys) = ys"
  by simp

section \<open>Bits of words\<close>

text \<open>
  Bit masks are decided bit by bit: \<open>bit_consts\<close> reads the bits of the constants the code
  uses, and \<open>word_bit_bound\<close> turns a bound on a word into the absence of its high bits.
\<close>

named_theorems bit_consts \<open>the bits of the masks of the code\<close>

lemma bit_exp_int: "w = 2 ^ k \<Longrightarrow> bit w n \<longleftrightarrow> n = k" for w :: int
  by (auto simp: bit_exp_iff)

lemma bit_mask_int: "w = mask k \<Longrightarrow> bit w n \<longleftrightarrow> n < k" for w :: int
  by (auto simp: bit_mask_iff)

lemma bit_const_powers [bit_consts]:
  "bit (8 :: int) n \<longleftrightarrow> n = 3" "bit (16 :: int) n \<longleftrightarrow> n = 4"
  "bit (32 :: int) n \<longleftrightarrow> n = 5" "bit (64 :: int) n \<longleftrightarrow> n = 6"
  "bit (128 :: int) n \<longleftrightarrow> n = 7" "bit (16384 :: int) n \<longleftrightarrow> n = 14"
  "bit (32768 :: int) n \<longleftrightarrow> n = 15" "bit (1073741824 :: int) n \<longleftrightarrow> n = 30"
  "bit (2147483648 :: int) n \<longleftrightarrow> n = 31"
  by (rule bit_exp_int; simp)+

lemma bit_const_masks [bit_consts]:
  "bit (7 :: int) n \<longleftrightarrow> n < 3" "bit (15 :: int) n \<longleftrightarrow> n < 4"
  "bit (16383 :: int) n \<longleftrightarrow> n < 14" "bit (32767 :: int) n \<longleftrightarrow> n < 15"
  "bit (1073741823 :: int) n \<longleftrightarrow> n < 30" "bit (2147483647 :: int) n \<longleftrightarrow> n < 31"
  by (rule bit_mask_int; simp add: mask_eq_exp_minus_1)+

lemma bit_120 [bit_consts]: "bit (120 :: int) n \<longleftrightarrow> 3 \<le> n \<and> n < 7"
proof -
  have "(120 :: int) = push_bit 3 15" by simp
  then have "bit (120 :: int) n \<longleftrightarrow> 3 \<le> n \<and> bit (15 :: int) (n - 3)"
    by (simp only: bit_push_bit_iff) simp
  then show ?thesis by (auto simp: bit_const_masks)
qed

lemma bit_high_half [bit_consts]:
  "bit (18446744069414584320 :: int) n \<longleftrightarrow> 32 \<le> n \<and> n < 64"
proof -
  have m: "bit (4294967295 :: int) k \<longleftrightarrow> k < 32" for k
    by (rule bit_mask_int) (simp add: mask_eq_exp_minus_1)
  have "(18446744069414584320 :: int) = push_bit 32 4294967295" by simp
  then have "bit (18446744069414584320 :: int) n \<longleftrightarrow> 32 \<le> n \<and> bit (4294967295 :: int) (n - 32)"
    by (simp only: bit_push_bit_iff) simp
  then show ?thesis unfolding m by auto
qed

lemma word_bit_bound: "w < 2 ^ n \<Longrightarrow> bit w m \<Longrightarrow> m < n" for w :: "'a::len word"
  by (metis bit_and_iff bit_mask_iff less_mask_eq)

lemma and_128_zero: "c AND 128 = 0 \<longleftrightarrow> \<not> bit c 7" for c :: byte
proof
  assume "c AND 128 = 0"
  then have "\<not> bit (c AND 128) 7"
    by simp
  then show "\<not> bit c 7"
    by (simp add: bit_simps bit_consts)
next
  assume "\<not> bit c 7"
  then show "c AND 128 = 0"
    by (auto intro!: bit_word_eqI simp: bit_simps bit_consts)
qed

lemma le_bytes_mod: "le_bytes n (m mod 256 ^ n) = le_bytes n m"
proof (induction n arbitrary: m)
  case (Suc n)
  have a: "m mod (256 * 256 ^ n) mod 256 = m mod 256" by (simp add: mod_mod_cancel)
  have "m mod (256 * 256 ^ n) = 256 * (m div 256 mod 256 ^ n) + m mod 256"
    by (simp add: mod_mult2_eq)
  then have b: "m mod (256 * 256 ^ n) div 256 = (m div 256) mod 256 ^ n" by simp
  have "(word_of_nat (m mod (256 * 256 ^ n)) :: byte) = word_of_nat m"
    using a by (simp add: word_unat_eq_iff unat_of_nat)
  then show ?case using Suc [of "m div 256"] by (simp add: b)
qed simp

lemma le_bytes_nth:
  "i < n \<Longrightarrow> le_bytes n x ! i = word_of_nat (x div 256 ^ i)"
proof (induction n arbitrary: i x)
  case 0
  then show ?case by simp
next
  case (Suc n)
  then show ?case
    by (cases i) (simp_all add: div_mult2_eq)
qed

lemma byte_of_word: "(word_of_nat (unat w div 256 ^ i) :: byte) = ucast (drop_bit (8 * i) w)"
proof -
  have "unat (drop_bit (8 * i) w) = unat w div 2 ^ (8 * i)"
    unfolding unat_drop_bit_eq by (simp only: drop_bit_eq_div)
  then have "unat w div 256 ^ i = unat (drop_bit (8 * i) w)"
    by (simp add: power_mult)
  then show ?thesis by (simp add: of_nat_unat)
qed

lemma bit_byte_of_word:
  "bit (word_of_nat (unat w div 256 ^ i) :: byte) m \<longleftrightarrow> m < 8 \<and> bit w (m + 8 * i)"
  by (auto simp: byte_of_word bit_simps ac_simps)

end
