(* ===== verification/Libs.thy ===== *)
theory Libs
  imports Prelude
begin

text \<open>
  The libraries the repository takes as git submodules (cutil, adt and dtl_type) have no
  source here. What the code calls of them is a parameter of the model: a record of
  functions, passed to every definition that uses it. What the code relies on is a named
  predicate over that record, which states the documented behaviour: packing an integer
  writes its bytes in the named order, an append to a byte array appends when memory
  suffices. No theorem assumes more, and each predicate is shown to hold of a concrete
  instance.
\<close>

section \<open>cutil: byte packing (pack.h)\<close>

text \<open>
  \<open>packLE(p, v, n)\<close> writes the bytes \<open>packLE C v n\<close> at \<open>p\<close>;
  \<open>unpackLE(p, n)\<close> reads the \<open>n\<close> bytes at \<open>p\<close>, given as a list.
\<close>

record cutil =
  packLE :: "u32 \<Rightarrow> nat \<Rightarrow> byte list"
  packBE :: "u32 \<Rightarrow> nat \<Rightarrow> byte list"
  packLE64 :: "u64 \<Rightarrow> nat \<Rightarrow> byte list"
  unpackLE :: "byte list \<Rightarrow> nat \<Rightarrow> u32"
  unpackBE :: "byte list \<Rightarrow> nat \<Rightarrow> u32"
  unpackLE64 :: "byte list \<Rightarrow> nat \<Rightarrow> u64"

definition packs_little_endian :: "cutil \<Rightarrow> bool" where
  "packs_little_endian C \<longleftrightarrow>
     (\<forall>n\<in>{1, 2, 4}. (\<forall>v. packLE C v n = le_bytes n (unat v)) \<and>
        (\<forall>bs. length bs = n \<longrightarrow> unpackLE C bs n = word_of_nat (le_val bs))) \<and>
     (\<forall>n\<in>{1, 2, 4, 8}. (\<forall>v. packLE64 C v n = le_bytes n (unat v)) \<and>
        (\<forall>bs. length bs = n \<longrightarrow> unpackLE64 C bs n = word_of_nat (le_val bs)))"

definition packs_big_endian :: "cutil \<Rightarrow> bool" where
  "packs_big_endian C \<longleftrightarrow>
     (\<forall>n\<in>{1, 2, 4}. (\<forall>v. packBE C v n = be_bytes n (unat v)) \<and>
        (\<forall>bs. length bs = n \<longrightarrow> unpackBE C bs n = word_of_nat (be_val bs)))"

definition cutil_bytes :: cutil where
  "cutil_bytes = \<lparr>
     packLE = (\<lambda>v n. le_bytes n (unat v)),
     packBE = (\<lambda>v n. be_bytes n (unat v)),
     packLE64 = (\<lambda>v n. le_bytes n (unat v)),
     unpackLE = (\<lambda>bs n. word_of_nat (le_val (take n bs))),
     unpackBE = (\<lambda>bs n. word_of_nat (be_val (take n bs))),
     unpackLE64 = (\<lambda>bs n. word_of_nat (le_val (take n bs)))\<rparr>"

lemma cutil_bytes_le: "packs_little_endian cutil_bytes"
  by (simp add: packs_little_endian_def cutil_bytes_def)

lemma cutil_bytes_be: "packs_big_endian cutil_bytes"
  by (simp add: packs_big_endian_def cutil_bytes_def)

lemma packLE_bytes:
  "packs_little_endian C \<Longrightarrow> n = 1 \<or> n = 2 \<or> n = 4 \<Longrightarrow> packLE C v n = le_bytes n (unat v)"
  by (auto simp: packs_little_endian_def)

lemma packLE64_bytes:
  "packs_little_endian C \<Longrightarrow> n = 1 \<or> n = 2 \<or> n = 4 \<or> n = 8 \<Longrightarrow>
     packLE64 C v n = le_bytes n (unat v)"
  by (auto simp: packs_little_endian_def)

lemma unpackLE_bytes:
  "packs_little_endian C \<Longrightarrow> n = 1 \<or> n = 2 \<or> n = 4 \<Longrightarrow> length bs = n \<Longrightarrow>
     unpackLE C bs n = word_of_nat (le_val bs)"
  by (auto simp: packs_little_endian_def)

lemma unpackLE64_bytes:
  "packs_little_endian C \<Longrightarrow> n = 1 \<or> n = 2 \<or> n = 4 \<or> n = 8 \<Longrightarrow> length bs = n \<Longrightarrow>
     unpackLE64 C bs n = word_of_nat (le_val bs)"
  by (auto simp: packs_little_endian_def)

lemma packBE_bytes:
  "packs_big_endian C \<Longrightarrow> n = 1 \<or> n = 2 \<or> n = 4 \<Longrightarrow> packBE C v n = be_bytes n (unat v)"
  by (auto simp: packs_big_endian_def)

lemma unpackBE_bytes:
  "packs_big_endian C \<Longrightarrow> n = 1 \<or> n = 2 \<or> n = 4 \<Longrightarrow> length bs = n \<Longrightarrow>
     unpackBE C bs n = word_of_nat (be_val bs)"
  by (auto simp: packs_big_endian_def)

text \<open>
  What the two sides give together: a number that fits in \<open>n\<close> bytes survives.
\<close>

lemma unpackLE_packLE:
  assumes "packs_little_endian C" and "n = 1 \<or> n = 2 \<or> n = 4" and "unat v < 256 ^ n"
  shows "unpackLE C (packLE C v n) n = v"
  using assms by (simp add: packLE_bytes unpackLE_bytes le_val_le_bytes_small)

lemma length_packLE [codec_simps]:
  "packs_little_endian C \<Longrightarrow> n = 1 \<or> n = 2 \<or> n = 4 \<Longrightarrow> length (packLE C v n) = n"
  by (simp add: packLE_bytes)

lemma length_packLE64 [codec_simps]:
  "packs_little_endian C \<Longrightarrow> n = 1 \<or> n = 2 \<or> n = 4 \<or> n = 8 \<Longrightarrow> length (packLE64 C v n) = n"
  by (simp add: packLE64_bytes)

lemma length_packBE [codec_simps]:
  "packs_big_endian C \<Longrightarrow> n = 1 \<or> n = 2 \<or> n = 4 \<Longrightarrow> length (packBE C v n) = n"
  by (simp add: packBE_bytes)

section \<open>adt: byte arrays (adt_bytearray.h)\<close>

text \<open>
  A byte array is the list of its bytes. An append may fail; the code maps the library's
  error codes to its own.
\<close>

datatype adt_error =
    ADT_NO_ERROR
  | ADT_INVALID_ARGUMENT_ERROR
  | ADT_MEM_ERROR
  | ADT_INDEX_OUT_OF_BOUNDS_ERROR
  | ADT_LENGTH_ERROR
  | ADT_NOT_IMPLEMENTED_ERROR
  | ADT_OTHER_ERROR

record adt =
  bytearray_push :: "byte list \<Rightarrow> byte \<Rightarrow> adt_error \<times> byte list"
  bytearray_append :: "byte list \<Rightarrow> byte list \<Rightarrow> adt_error \<times> byte list"

definition bytearray_appends :: "adt \<Rightarrow> bool" where
  "bytearray_appends A \<longleftrightarrow>
     (\<forall>p b. bytearray_push A p b = (ADT_NO_ERROR, p @ [b])) \<and>
     (\<forall>p bs. bytearray_append A p bs = (ADT_NO_ERROR, p @ bs))"

definition adt_lists :: adt where
  "adt_lists = \<lparr>bytearray_push = (\<lambda>p b. (ADT_NO_ERROR, p @ [b])),
                bytearray_append = (\<lambda>p bs. (ADT_NO_ERROR, p @ bs))\<rparr>"

lemma adt_lists_append: "bytearray_appends adt_lists"
  by (simp add: bytearray_appends_def adt_lists_def)

lemma bytearray_push_ok [codec_simps]:
  "bytearray_appends A \<Longrightarrow> bytearray_push A p b = (ADT_NO_ERROR, p @ [b])"
  by (simp add: bytearray_appends_def)

lemma bytearray_append_ok [codec_simps]:
  "bytearray_appends A \<Longrightarrow> bytearray_append A p bs = (ADT_NO_ERROR, p @ bs)"
  by (simp add: bytearray_appends_def)

text \<open>\<open>convert_from_adt_to_apx_error\<close> of apx/src/util.c.\<close>

fun convert_from_adt_to_apx_error :: "adt_error \<Rightarrow> apx_error" where
  "convert_from_adt_to_apx_error ADT_NO_ERROR = APX_NO_ERROR"
| "convert_from_adt_to_apx_error ADT_INVALID_ARGUMENT_ERROR = APX_INVALID_ARGUMENT_ERROR"
| "convert_from_adt_to_apx_error ADT_MEM_ERROR = APX_MEM_ERROR"
| "convert_from_adt_to_apx_error ADT_INDEX_OUT_OF_BOUNDS_ERROR = APX_INVALID_ARGUMENT_ERROR"
| "convert_from_adt_to_apx_error ADT_LENGTH_ERROR = APX_LENGTH_ERROR"
| "convert_from_adt_to_apx_error ADT_NOT_IMPLEMENTED_ERROR = APX_NOT_IMPLEMENTED_ERROR"
| "convert_from_adt_to_apx_error ADT_OTHER_ERROR = APX_INTERNAL_ERROR"

lemma convert_from_adt_ok [simp]:
  "convert_from_adt_to_apx_error e = APX_NO_ERROR \<longleftrightarrow> e = ADT_NO_ERROR"
  by (cases e) auto

section \<open>bstr and adt: scanning and storing text (bstr.h, adt_str.h)\<close>

text \<open>
  \<open>while_predicate p bs\<close> is how far \<open>bstr_while_predicate\<close> runs over the bytes. A string object
  is the list of its bytes; \<open>str_set_bstr\<close>, \<open>str_set_cstr\<close>, \<open>str_set\<close> and \<open>str_push\<close> give the
  content of the object after the call, from the old content and the argument. \<open>str_cstr\<close> is
  the C string of an object, \<open>str_size\<close> and \<open>str_length\<close> are its two measures, which are the
  number of its bytes when the text is ASCII.
\<close>

record text_lib =
  while_predicate :: "(byte \<Rightarrow> bool) \<Rightarrow> byte list \<Rightarrow> nat"
  str_set_bstr :: "byte list \<Rightarrow> byte list \<Rightarrow> byte list"
  str_set_cstr :: "byte list \<Rightarrow> byte list \<Rightarrow> adt_error \<times> byte list"
  str_set :: "byte list \<Rightarrow> byte list \<Rightarrow> adt_error \<times> byte list"
  str_push :: "byte list \<Rightarrow> byte \<Rightarrow> byte list"
  str_cstr :: "byte list \<Rightarrow> byte list"
  str_size :: "byte list \<Rightarrow> nat"
  str_length :: "byte list \<Rightarrow> nat"
  make_cstr :: "byte list \<Rightarrow> byte list option"

definition scans :: "text_lib \<Rightarrow> bool" where
  "scans T \<longleftrightarrow> (\<forall>p bs. while_predicate T p bs = length (takeWhile p bs))"

definition stores_text :: "text_lib \<Rightarrow> bool" where
  "stores_text T \<longleftrightarrow>
     (\<forall>old bs. 0 \<notin> set bs \<longrightarrow> str_set_bstr T old bs = bs \<and> str_set_cstr T old bs = (ADT_NO_ERROR, bs)) \<and>
     (\<forall>s c. c \<noteq> 0 \<longrightarrow> str_push T s c = s @ [c])"

definition measures_text :: "text_lib \<Rightarrow> bool" where
  "measures_text T \<longleftrightarrow>
     (\<forall>bs. 0 \<notin> set bs \<longrightarrow> str_cstr T bs = bs \<and> make_cstr T bs = Some bs \<and>
        (\<forall>old. str_set T old bs = (ADT_NO_ERROR, bs))) \<and>
     (\<forall>bs. (\<forall>b\<in>set bs. b \<noteq> 0 \<and> b < 128) \<longrightarrow> str_size T bs = length bs \<and> str_length T bs = length bs)"

definition text_bytes :: text_lib where
  "text_bytes = \<lparr>while_predicate = (\<lambda>p bs. length (takeWhile p bs)), str_set_bstr = (\<lambda>old bs. bs),
     str_set_cstr = (\<lambda>old bs. (ADT_NO_ERROR, bs)), str_set = (\<lambda>old bs. (ADT_NO_ERROR, bs)),
     str_push = (\<lambda>s c. s @ [c]), str_cstr = (\<lambda>bs. bs), str_size = length, str_length = length,
     make_cstr = Some\<rparr>"

lemma text_bytes_scans: "scans text_bytes" and text_bytes_stores: "stores_text text_bytes"
  and text_bytes_measures: "measures_text text_bytes"
  by (simp_all add: scans_def stores_text_def measures_text_def text_bytes_def)

lemma while_predicate_scan: "scans T \<Longrightarrow> while_predicate T p bs = length (takeWhile p bs)"
  by (simp add: scans_def)

lemma str_set_stores:
  "stores_text T \<Longrightarrow> 0 \<notin> set bs \<Longrightarrow> str_set_bstr T old bs = bs"
  "stores_text T \<Longrightarrow> 0 \<notin> set bs \<Longrightarrow> str_set_cstr T old bs = (ADT_NO_ERROR, bs)"
  "stores_text T \<Longrightarrow> c \<noteq> 0 \<Longrightarrow> str_push T s c = s @ [c]"
  by (simp_all add: stores_text_def)

lemma text_measures:
  "measures_text T \<Longrightarrow> 0 \<notin> set bs \<Longrightarrow> str_cstr T bs = bs"
  "measures_text T \<Longrightarrow> 0 \<notin> set bs \<Longrightarrow> make_cstr T bs = Some bs"
  "measures_text T \<Longrightarrow> 0 \<notin> set bs \<Longrightarrow> str_set T old bs = (ADT_NO_ERROR, bs)"
  "measures_text T \<Longrightarrow> \<forall>b\<in>set bs. b \<noteq> 0 \<and> b < 128 \<Longrightarrow> str_size T bs = length bs"
  "measures_text T \<Longrightarrow> \<forall>b\<in>set bs. b \<noteq> 0 \<and> b < 128 \<Longrightarrow> str_length T bs = length bs"
  by (auto simp: measures_text_def)

end
