(* ===== verification/VmCommon.thy ===== *)
theory VmCommon
  imports Libs
begin

text \<open>
  apx/src/vm_common.c with the constants of apx/include/apx/vm_defs.h and types.h it rests
  on: data variants, type codes and size types, reading a number of a given variant, and the
  range checks. A pair of pointers \<open>begin\<close>, \<open>end\<close> is the list of bytes between them; the
  advanced pointer the C code returns is the number of bytes taken, its null result
  is \<open>None\<close>. Signed C integers are words, read by \<open>sint\<close>.
\<close>

section \<open>Constants and types\<close>

abbreviation (input) APX_VM_VARIANT_UINT8 :: byte where "APX_VM_VARIANT_UINT8 \<equiv> 0"
abbreviation (input) APX_VM_VARIANT_UINT16 :: byte where "APX_VM_VARIANT_UINT16 \<equiv> 1"
abbreviation (input) APX_VM_VARIANT_UINT32 :: byte where "APX_VM_VARIANT_UINT32 \<equiv> 2"
abbreviation (input) APX_VM_VARIANT_UINT64 :: byte where "APX_VM_VARIANT_UINT64 \<equiv> 3"
abbreviation (input) APX_VM_VARIANT_INT8 :: byte where "APX_VM_VARIANT_INT8 \<equiv> 4"
abbreviation (input) APX_VM_VARIANT_INT16 :: byte where "APX_VM_VARIANT_INT16 \<equiv> 5"
abbreviation (input) APX_VM_VARIANT_INT32 :: byte where "APX_VM_VARIANT_INT32 \<equiv> 6"
abbreviation (input) APX_VM_VARIANT_INT64 :: byte where "APX_VM_VARIANT_INT64 \<equiv> 7"
abbreviation (input) APX_VM_VARIANT_BOOL :: byte where "APX_VM_VARIANT_BOOL \<equiv> 8"
abbreviation (input) APX_VM_VARIANT_BYTE :: byte where "APX_VM_VARIANT_BYTE \<equiv> 9"
abbreviation (input) APX_VM_VARIANT_RECORD :: byte where "APX_VM_VARIANT_RECORD \<equiv> 10"
abbreviation (input) APX_VM_VARIANT_ARRAY :: byte where "APX_VM_VARIANT_ARRAY \<equiv> 11"
abbreviation (input) APX_VM_VARIANT_CHAR :: byte where "APX_VM_VARIANT_CHAR \<equiv> 12"
abbreviation (input) APX_VM_VARIANT_CHAR8 :: byte where "APX_VM_VARIANT_CHAR8 \<equiv> 13"
abbreviation (input) APX_VM_VARIANT_CHAR16 :: byte where "APX_VM_VARIANT_CHAR16 \<equiv> 14"
abbreviation (input) APX_VM_VARIANT_CHAR32 :: byte where "APX_VM_VARIANT_CHAR32 \<equiv> 15"
abbreviation (input) APX_VM_VARIANT_LAST :: byte where "APX_VM_VARIANT_LAST \<equiv> 15"
abbreviation (input) APX_VM_VARIANT_INVALID :: byte where "APX_VM_VARIANT_INVALID \<equiv> 255"

datatype apx_typeCode =
    APX_TYPE_CODE_NONE
  | APX_TYPE_CODE_UINT8 | APX_TYPE_CODE_UINT16 | APX_TYPE_CODE_UINT32 | APX_TYPE_CODE_UINT64
  | APX_TYPE_CODE_INT8 | APX_TYPE_CODE_INT16 | APX_TYPE_CODE_INT32 | APX_TYPE_CODE_INT64
  | APX_TYPE_CODE_CHAR | APX_TYPE_CODE_CHAR8 | APX_TYPE_CODE_CHAR16 | APX_TYPE_CODE_CHAR32
  | APX_TYPE_CODE_BOOL | APX_TYPE_CODE_BYTE | APX_TYPE_CODE_RECORD
  | APX_TYPE_CODE_REF_ID | APX_TYPE_CODE_REF_NAME | APX_TYPE_CODE_REF_PTR

datatype apx_sizeType =
  APX_SIZE_TYPE_NONE | APX_SIZE_TYPE_UINT8 | APX_SIZE_TYPE_UINT16 | APX_SIZE_TYPE_UINT32

text \<open>The comparison \<open>UINT8 \<le> type_code \<le> INT64\<close> of the code, on the C constants.\<close>

fun is_integer_type_code :: "apx_typeCode \<Rightarrow> bool" where
  "is_integer_type_code APX_TYPE_CODE_UINT8 = True"
| "is_integer_type_code APX_TYPE_CODE_UINT16 = True"
| "is_integer_type_code APX_TYPE_CODE_UINT32 = True"
| "is_integer_type_code APX_TYPE_CODE_UINT64 = True"
| "is_integer_type_code APX_TYPE_CODE_INT8 = True"
| "is_integer_type_code APX_TYPE_CODE_INT16 = True"
| "is_integer_type_code APX_TYPE_CODE_INT32 = True"
| "is_integer_type_code APX_TYPE_CODE_INT64 = True"
| "is_integer_type_code _ = False"

abbreviation (input) UINT8_SIZE :: nat where "UINT8_SIZE \<equiv> 1"
abbreviation (input) UINT16_SIZE :: nat where "UINT16_SIZE \<equiv> 2"
abbreviation (input) UINT32_SIZE :: nat where "UINT32_SIZE \<equiv> 4"
abbreviation (input) UINT64_SIZE :: nat where "UINT64_SIZE \<equiv> 8"

abbreviation (input) INT32_MIN :: u32 where "INT32_MIN \<equiv> 0x80000000"
abbreviation (input) INT32_MAX :: u32 where "INT32_MAX \<equiv> 0x7FFFFFFF"
abbreviation (input) INT64_MIN :: u64 where "INT64_MIN \<equiv> 0x8000000000000000"
abbreviation (input) INT64_MAX :: u64 where "INT64_MAX \<equiv> 0x7FFFFFFFFFFFFFFF"
abbreviation (input) UINT32_MAX :: u32 where "UINT32_MAX \<equiv> 0xFFFFFFFF"
abbreviation (input) UINT64_MAX :: u64 where "UINT64_MAX \<equiv> 0xFFFFFFFFFFFFFFFF"

section \<open>Sizes, variants and type codes\<close>

definition apx_vm_variant_to_size :: "byte \<Rightarrow> nat" where
  "apx_vm_variant_to_size variant =
     (if variant = APX_VM_VARIANT_UINT8 \<or> variant = APX_VM_VARIANT_BOOL \<or>
         variant = APX_VM_VARIANT_BYTE \<or> variant = APX_VM_VARIANT_CHAR \<or>
         variant = APX_VM_VARIANT_CHAR8 then 1
      else if variant = APX_VM_VARIANT_UINT16 \<or> variant = APX_VM_VARIANT_CHAR16 then 2
      else if variant = APX_VM_VARIANT_UINT32 \<or> variant = APX_VM_VARIANT_CHAR32 then 4
      else if variant = APX_VM_VARIANT_UINT64 then 8
      else if variant = APX_VM_VARIANT_INT8 then 1
      else if variant = APX_VM_VARIANT_INT16 then 2
      else if variant = APX_VM_VARIANT_INT32 then 4
      else if variant = APX_VM_VARIANT_INT64 then 8
      else 0)"

definition apx_vm_variant_to_type_code :: "byte \<Rightarrow> apx_typeCode" where
  "apx_vm_variant_to_type_code variant =
     (if variant = APX_VM_VARIANT_UINT8 then APX_TYPE_CODE_UINT8
      else if variant = APX_VM_VARIANT_UINT16 then APX_TYPE_CODE_UINT16
      else if variant = APX_VM_VARIANT_UINT32 then APX_TYPE_CODE_UINT32
      else if variant = APX_VM_VARIANT_UINT64 then APX_TYPE_CODE_UINT64
      else if variant = APX_VM_VARIANT_INT8 then APX_TYPE_CODE_INT8
      else if variant = APX_VM_VARIANT_INT16 then APX_TYPE_CODE_INT16
      else if variant = APX_VM_VARIANT_INT32 then APX_TYPE_CODE_INT32
      else if variant = APX_VM_VARIANT_INT64 then APX_TYPE_CODE_INT64
      else if variant = APX_VM_VARIANT_BOOL then APX_TYPE_CODE_BOOL
      else if variant = APX_VM_VARIANT_BYTE then APX_TYPE_CODE_BYTE
      else if variant = APX_VM_VARIANT_RECORD then APX_TYPE_CODE_RECORD
      else if variant = APX_VM_VARIANT_CHAR then APX_TYPE_CODE_CHAR
      else if variant = APX_VM_VARIANT_CHAR8 then APX_TYPE_CODE_CHAR8
      else if variant = APX_VM_VARIANT_CHAR16 then APX_TYPE_CODE_CHAR16
      else if variant = APX_VM_VARIANT_CHAR32 then APX_TYPE_CODE_CHAR32
      else APX_TYPE_CODE_NONE)"

fun apx_vm_size_type_to_size :: "apx_sizeType \<Rightarrow> nat" where
  "apx_vm_size_type_to_size APX_SIZE_TYPE_UINT8 = 1"
| "apx_vm_size_type_to_size APX_SIZE_TYPE_UINT16 = 2"
| "apx_vm_size_type_to_size APX_SIZE_TYPE_UINT32 = 4"
| "apx_vm_size_type_to_size APX_SIZE_TYPE_NONE = 0"

definition apx_vm_size_to_size_type :: "u32 \<Rightarrow> apx_sizeType" where
  "apx_vm_size_to_size_type sz =
     (if sz > 0 then
        (if sz \<le> 0xFF then APX_SIZE_TYPE_UINT8
         else if sz \<le> 0xFFFF then APX_SIZE_TYPE_UINT16
         else APX_SIZE_TYPE_UINT32)
      else APX_SIZE_TYPE_NONE)"

fun apx_vm_size_type_to_variant :: "apx_sizeType \<Rightarrow> byte" where
  "apx_vm_size_type_to_variant APX_SIZE_TYPE_UINT8 = APX_VM_VARIANT_UINT8"
| "apx_vm_size_type_to_variant APX_SIZE_TYPE_UINT16 = APX_VM_VARIANT_UINT16"
| "apx_vm_size_type_to_variant APX_SIZE_TYPE_UINT32 = APX_VM_VARIANT_UINT32"
| "apx_vm_size_type_to_variant APX_SIZE_TYPE_NONE = APX_VM_VARIANT_INVALID"

section \<open>Reading a number of a given variant\<close>

definition apx_vm_parse_uint32_by_variant :: "cutil \<Rightarrow> byte list \<Rightarrow> byte \<Rightarrow> (u32 \<times> nat) option" where
  "apx_vm_parse_uint32_by_variant C bs variant =
     (let n = apx_vm_variant_to_size variant
      in if n = 0 \<or> n > length bs then None else Some (unpackLE C (take n bs) n, n))"

definition apx_vm_parse_uint64_by_variant :: "cutil \<Rightarrow> byte list \<Rightarrow> byte \<Rightarrow> (u64 \<times> nat) option" where
  "apx_vm_parse_uint64_by_variant C bs variant =
     (let n = apx_vm_variant_to_size variant
      in if n = 0 \<or> n > length bs then None else Some (unpackLE64 C (take n bs) n, n))"

definition apx_vm_parse_int32_by_variant :: "cutil \<Rightarrow> byte list \<Rightarrow> byte \<Rightarrow> (u32 \<times> nat) option" where
  "apx_vm_parse_int32_by_variant C bs variant =
     (let n = apx_vm_variant_to_size variant; x = unpackLE C (take n bs) n
      in if n = 0 \<or> n > length bs then None
         else if variant = APX_VM_VARIANT_INT8 then Some (scast (ucast x :: 8 word), n)
         else if variant = APX_VM_VARIANT_INT16 then Some (scast (ucast x :: 16 word), n)
         else if variant = APX_VM_VARIANT_INT32 then Some (x, n)
         else None)"

definition apx_vm_parse_int64_by_variant :: "cutil \<Rightarrow> byte list \<Rightarrow> byte \<Rightarrow> (u64 \<times> nat) option" where
  "apx_vm_parse_int64_by_variant C bs variant =
     (let n = apx_vm_variant_to_size variant
      in if n = 0 \<or> n > length bs then None else Some (unpackLE64 C (take n bs) n, n))"

definition apx_vm_parse_uint32_by_size_type ::
  "cutil \<Rightarrow> byte list \<Rightarrow> apx_sizeType \<Rightarrow> (u32 \<times> nat) option" where
  "apx_vm_parse_uint32_by_size_type C bs size_type =
     (let variant = apx_vm_size_type_to_variant size_type
      in if variant = APX_VM_VARIANT_INVALID then None
         else apx_vm_parse_uint32_by_variant C bs variant)"

section \<open>Range checks\<close>

definition apx_vm_value_in_range_i32 :: "u32 \<Rightarrow> u32 \<Rightarrow> u32 \<Rightarrow> apx_error" where
  "apx_vm_value_in_range_i32 value lower_limit upper_limit =
     (if (INT32_MIN <s lower_limit \<and> value <s lower_limit) \<or>
         (upper_limit <s INT32_MAX \<and> upper_limit <s value)
      then APX_VALUE_RANGE_ERROR else APX_NO_ERROR)"

definition apx_vm_value_in_range_u32 :: "u32 \<Rightarrow> u32 \<Rightarrow> u32 \<Rightarrow> apx_error" where
  "apx_vm_value_in_range_u32 value lower_limit upper_limit =
     (if (lower_limit > 0 \<and> value < lower_limit) \<or>
         (upper_limit < UINT32_MAX \<and> value > upper_limit)
      then APX_VALUE_RANGE_ERROR else APX_NO_ERROR)"

definition apx_vm_value_in_range_i64 :: "u64 \<Rightarrow> u64 \<Rightarrow> u64 \<Rightarrow> apx_error" where
  "apx_vm_value_in_range_i64 value lower_limit upper_limit =
     (if (INT64_MIN <s lower_limit \<and> value <s lower_limit) \<or>
         (upper_limit <s INT64_MAX \<and> upper_limit <s value)
      then APX_VALUE_RANGE_ERROR else APX_NO_ERROR)"

definition apx_vm_value_in_range_u64 :: "u64 \<Rightarrow> u64 \<Rightarrow> u64 \<Rightarrow> apx_error" where
  "apx_vm_value_in_range_u64 value lower_limit upper_limit =
     (if (lower_limit > 0 \<and> value < lower_limit) \<or>
         (upper_limit < UINT64_MAX \<and> value > upper_limit)
      then APX_VALUE_RANGE_ERROR else APX_NO_ERROR)"

section \<open>Lemmas\<close>

lemma range_i32_spec:
  "apx_vm_value_in_range_i32 v lo hi = APX_NO_ERROR \<longleftrightarrow> sint lo \<le> sint v \<and> sint v \<le> sint hi"
proof -
  have "sint v \<ge> - (2 ^ 31)" "sint v < 2 ^ 31"
    using sint_ge [of v] sint_lt [of v] by simp_all
  then show ?thesis
    by (auto simp: apx_vm_value_in_range_i32_def word_sless_alt)
qed

lemma range_i64_spec:
  "apx_vm_value_in_range_i64 v lo hi = APX_NO_ERROR \<longleftrightarrow> sint lo \<le> sint v \<and> sint v \<le> sint hi"
proof -
  have "sint v \<ge> - (2 ^ 63)" "sint v < 2 ^ 63"
    using sint_ge [of v] sint_lt [of v] by simp_all
  then show ?thesis
    by (auto simp: apx_vm_value_in_range_i64_def word_sless_alt)
qed

lemma range_u32_spec:
  "apx_vm_value_in_range_u32 v lo hi = APX_NO_ERROR \<longleftrightarrow> lo \<le> v \<and> v \<le> hi"
proof -
  have "v \<le> UINT32_MAX" using unsigned_less [of v, where ?'a = nat] by (simp add: word_le_nat_alt)
  then show ?thesis
    by (auto simp: apx_vm_value_in_range_u32_def not_less intro: order_trans)
qed

lemma range_u64_spec:
  "apx_vm_value_in_range_u64 v lo hi = APX_NO_ERROR \<longleftrightarrow> lo \<le> v \<and> v \<le> hi"
proof -
  have "v \<le> UINT64_MAX" using unsigned_less [of v, where ?'a = nat] by (simp add: word_le_nat_alt)
  then show ?thesis
    by (auto simp: apx_vm_value_in_range_u64_def not_less intro: order_trans)
qed

lemma parse_uint32_packed:
  assumes "packs_little_endian C" and "n = apx_vm_variant_to_size variant"
    and "n = 1 \<or> n = 2 \<or> n = 4" and "unat v < 256 ^ n"
  shows "apx_vm_parse_uint32_by_variant C (packLE C v n @ rest) variant = Some (v, n)"
proof -
  have len: "length (packLE C v n) = n" using assms by (simp add: length_packLE)
  moreover have "unpackLE C (packLE C v n) n = v"
    using assms by (intro unpackLE_packLE)
  ultimately show ?thesis
    using assms(2,3) by (auto simp: apx_vm_parse_uint32_by_variant_def Let_def)
qed


lemma size_type_to_size_variant:
  "t \<noteq> APX_SIZE_TYPE_NONE \<Longrightarrow>
     apx_vm_variant_to_size (apx_vm_size_type_to_variant t) = apx_vm_size_type_to_size t"
  by (cases t) (auto simp: apx_vm_variant_to_size_def)

lemma size_type_to_size_cases:
  "t \<noteq> APX_SIZE_TYPE_NONE \<Longrightarrow> apx_vm_size_type_to_size t = 1 \<or>
     apx_vm_size_type_to_size t = 2 \<or> apx_vm_size_type_to_size t = 4"
  by (cases t) auto

lemma size_to_size_type_none: "apx_vm_size_to_size_type n = APX_SIZE_TYPE_NONE \<longleftrightarrow> n = 0"
  by (simp add: apx_vm_size_to_size_type_def word_gt_0)

lemma size_to_size_type_fits:
  "n \<noteq> 0 \<Longrightarrow> unat n < 256 ^ apx_vm_size_type_to_size (apx_vm_size_to_size_type n)"
  using unsigned_less [of n, where ?'a = nat]
  by (auto simp: apx_vm_size_to_size_type_def word_gt_0 word_le_nat_alt)

lemma parse_uint32_shorter:
  "apx_vm_parse_uint32_by_variant C bs variant = Some (v, n) \<Longrightarrow> 0 < n \<and> n \<le> length bs"
  by (auto simp: apx_vm_parse_uint32_by_variant_def Let_def split: if_splits)

lemma parse_uint64_shorter:
  "apx_vm_parse_uint64_by_variant C bs variant = Some (v, n) \<Longrightarrow> 0 < n \<and> n \<le> length bs"
  by (auto simp: apx_vm_parse_uint64_by_variant_def Let_def split: if_splits)

lemma parse_int32_shorter:
  "apx_vm_parse_int32_by_variant C bs variant = Some (v, n) \<Longrightarrow> 0 < n \<and> n \<le> length bs"
  by (auto simp: apx_vm_parse_int32_by_variant_def Let_def split: if_splits)

lemma parse_int64_shorter:
  "apx_vm_parse_int64_by_variant C bs variant = Some (v, n) \<Longrightarrow> 0 < n \<and> n \<le> length bs"
  by (auto simp: apx_vm_parse_int64_by_variant_def Let_def split: if_splits)

section \<open>Properties\<close>

text \<open>
  A range check accepts exactly the closed interval of its limits, signed and unsigned, at
  both widths; the tests against the extreme limits in the code change nothing.
\<close>

theorem value_in_range_exact:
  "(apx_vm_value_in_range_i32 v lo hi = APX_NO_ERROR \<longleftrightarrow> sint v \<in> {sint lo..sint hi}) \<and>
   (apx_vm_value_in_range_u32 v lo hi = APX_NO_ERROR \<longleftrightarrow> v \<in> {lo..hi}) \<and>
   (apx_vm_value_in_range_i64 x l h = APX_NO_ERROR \<longleftrightarrow> sint x \<in> {sint l..sint h}) \<and>
   (apx_vm_value_in_range_u64 x l h = APX_NO_ERROR \<longleftrightarrow> x \<in> {l..h})"
  by (simp add: range_i32_spec range_u32_spec range_i64_spec range_u64_spec)

end
