(* ===== verification/Codec.thy ===== *)
theory Codec
  imports Libs
begin

text \<open>
  The contract of a wire format, stated once. Every length prefix, address and header of
  the protocol is written by an encoder and read by a decoder that finds the end of the item by
  itself: \<open>enc a\<close> are the bytes of a value, \<open>dec\<close> reads a value off the front of
  the bytes it is given and reports how many it took. The component that owns a format
  interprets the locale on its model and gets that the format is unambiguous.
\<close>

locale prefix_codec =
  fixes enc :: "'a \<Rightarrow> byte list"
    and dec :: "byte list \<Rightarrow> ('a \<times> nat) option"
    and valid :: "'a \<Rightarrow> bool"
  assumes dec_enc: "valid a \<Longrightarrow> dec (enc a @ rest) = Some (a, length (enc a))"
    and enc_nonempty: "valid a \<Longrightarrow> enc a \<noteq> []"
begin

lemma enc_unambiguous:
  assumes "valid a" and "valid b" and "enc a @ r = enc b @ s"
  shows "a = b \<and> r = s"
proof -
  have "Some (a, length (enc a)) = Some (b, length (enc b))"
    using assms dec_enc by metis
  then have "a = b" by simp
  with assms(3) show ?thesis by simp
qed

lemma enc_injective: "inj_on enc {a. valid a}"
  using enc_unambiguous [where r = "[]" and s = "[]"] by (auto simp: inj_on_def)

text \<open>A concatenation of items has one reading only.\<close>

lemma concat_unambiguous:
  assumes "\<forall>a\<in>set as. valid a" and "\<forall>b\<in>set bs. valid b"
    and "concat (map enc as) = concat (map enc bs)"
  shows "as = bs"
  using assms
proof (induction "as" arbitrary: bs)
  case Nil
  then show ?case
    using enc_nonempty by (cases bs) auto
next
  case (Cons a as')
  then have a: "valid a" and ne: "enc a \<noteq> []"
    using enc_nonempty by auto
  with Cons.prems(3) obtain b bs' where bs: "bs = b # bs'"
    by (cases bs) auto
  with Cons.prems(2) have b: "valid b" by simp
  from Cons.prems(3) have "enc a @ concat (map enc as') = enc b @ concat (map enc bs')"
    by (simp add: bs)
  from enc_unambiguous [OF a b this] have "a = b"
    and "concat (map enc as') = concat (map enc bs')" by simp_all
  with Cons.IH [of bs'] Cons.prems bs show ?case by simp
qed

end

text \<open>
  The byte order of cutil as a contract of its own: a provider of big-endian packing gives
  every format that rests on it.
\<close>

locale big_endian =
  fixes C :: cutil
  assumes packs: "packs_big_endian C"

locale little_endian =
  fixes C :: cutil
  assumes packs: "packs_little_endian C"

interpretation bytes_be: big_endian cutil_bytes
  by unfold_locales (rule cutil_bytes_be)

interpretation bytes_le: little_endian cutil_bytes
  by unfold_locales (rule cutil_bytes_le)

end
