(* ===== verification/Program.thy ===== *)
theory Program
  imports VmCommon Codec
begin

text \<open>
  apx/src/program.c: the header of a byte code program and the one-byte instruction. A
  program under construction is the list of its bytes; a program being read is
  \<open>None\<close> for the null pointer or the bytes between \<open>begin\<close> and \<open>end\<close>.
\<close>

abbreviation (input) APX_VM_OPCODE_UNPACK :: byte where "APX_VM_OPCODE_UNPACK \<equiv> 0"
abbreviation (input) APX_VM_OPCODE_PACK :: byte where "APX_VM_OPCODE_PACK \<equiv> 1"
abbreviation (input) APX_VM_OPCODE_DATA_SIZE :: byte where "APX_VM_OPCODE_DATA_SIZE \<equiv> 2"
abbreviation (input) APX_VM_OPCODE_DATA_CTRL :: byte where "APX_VM_OPCODE_DATA_CTRL \<equiv> 3"
abbreviation (input) APX_VM_OPCODE_FLOW_CTRL :: byte where "APX_VM_OPCODE_FLOW_CTRL \<equiv> 4"

abbreviation (input) APX_VM_VARIANT_ARRAY_SIZE_U8 :: byte where "APX_VM_VARIANT_ARRAY_SIZE_U8 \<equiv> 0"
abbreviation (input) APX_VM_VARIANT_ARRAY_SIZE_U16 :: byte where "APX_VM_VARIANT_ARRAY_SIZE_U16 \<equiv> 1"
abbreviation (input) APX_VM_VARIANT_ARRAY_SIZE_U32 :: byte where "APX_VM_VARIANT_ARRAY_SIZE_U32 \<equiv> 2"
abbreviation (input) APX_VM_VARIANT_ARRAY_SIZE_LAST :: byte where "APX_VM_VARIANT_ARRAY_SIZE_LAST \<equiv> 2"
abbreviation (input) APX_VM_VARIANT_ELEMENT_SIZE_U8_BASE :: byte where
  "APX_VM_VARIANT_ELEMENT_SIZE_U8_BASE \<equiv> 3"
abbreviation (input) APX_VM_VARIANT_ELEMENT_SIZE_U16_BASE :: byte where
  "APX_VM_VARIANT_ELEMENT_SIZE_U16_BASE \<equiv> 6"
abbreviation (input) APX_VM_VARIANT_ELEMENT_SIZE_U32_BASE :: byte where
  "APX_VM_VARIANT_ELEMENT_SIZE_U32_BASE \<equiv> 9"
abbreviation (input) APX_VM_VARIANT_ELEMENT_SIZE_LAST :: byte where
  "APX_VM_VARIANT_ELEMENT_SIZE_LAST \<equiv> 11"

abbreviation (input) APX_VM_HEADER_DATA_VARIANT_MASK :: byte where "APX_VM_HEADER_DATA_VARIANT_MASK \<equiv> 0x07"
abbreviation (input) APX_VM_HEADER_PROG_TYPE_UNPACK :: byte where "APX_VM_HEADER_PROG_TYPE_UNPACK \<equiv> 0x00"
abbreviation (input) APX_VM_HEADER_PROG_TYPE_PACK :: byte where "APX_VM_HEADER_PROG_TYPE_PACK \<equiv> 0x08"
abbreviation (input) APX_VM_HEADER_FLAG_DYNAMIC_DATA :: byte where "APX_VM_HEADER_FLAG_DYNAMIC_DATA \<equiv> 0x10"
abbreviation (input) APX_VM_HEADER_FLAG_QUEUED_DATA :: byte where "APX_VM_HEADER_FLAG_QUEUED_DATA \<equiv> 0x20"

abbreviation (input) APX_VM_INST_OPCODE_MASK :: byte where "APX_VM_INST_OPCODE_MASK \<equiv> 7"
abbreviation (input) APX_VM_INST_VARIANT_SHIFT :: nat where "APX_VM_INST_VARIANT_SHIFT \<equiv> 3"
abbreviation (input) APX_VM_INST_VARIANT_MASK :: byte where "APX_VM_INST_VARIANT_MASK \<equiv> 0xf"
abbreviation (input) APX_VM_INST_FLAG :: byte where "APX_VM_INST_FLAG \<equiv> 0x80"

datatype apx_programType = APX_UNPACK_PROGRAM | APX_PACK_PROGRAM

record apx_programHeader =
  ph_program_type :: apx_programType
  ph_data_size :: u32
  ph_element_size :: u32
  ph_queue_length :: u32
  ph_has_dynamic_data :: bool

section \<open>Instructions\<close>

definition apx_program_encode_instruction :: "byte \<Rightarrow> byte \<Rightarrow> bool \<Rightarrow> byte" where
  "apx_program_encode_instruction opcode variant flag =
     (let result = (opcode AND APX_VM_INST_OPCODE_MASK) OR
            push_bit APX_VM_INST_VARIANT_SHIFT (variant AND APX_VM_INST_VARIANT_MASK)
      in if flag then result OR APX_VM_INST_FLAG else result)"

definition apx_program_decode_instruction :: "byte \<Rightarrow> byte \<times> byte \<times> bool" where
  "apx_program_decode_instruction instruction =
     (instruction AND APX_VM_INST_OPCODE_MASK,
      drop_bit APX_VM_INST_VARIANT_SHIFT instruction AND APX_VM_INST_VARIANT_MASK,
      (instruction AND APX_VM_INST_FLAG) = APX_VM_INST_FLAG)"

section \<open>Encoding the header\<close>

definition encode_program_byte :: "apx_programType \<Rightarrow> bool \<Rightarrow> bool \<Rightarrow> byte \<Rightarrow> byte" where
  "encode_program_byte program_type is_dynamic is_queued data_size_variant =
     (let retval = (if program_type = APX_PACK_PROGRAM then APX_VM_HEADER_PROG_TYPE_PACK
                    else APX_VM_HEADER_PROG_TYPE_UNPACK);
          retval = retval OR (data_size_variant AND APX_VM_HEADER_DATA_VARIANT_MASK);
          retval = (if is_dynamic then retval OR APX_VM_HEADER_FLAG_DYNAMIC_DATA else retval)
      in if is_queued then retval OR APX_VM_HEADER_FLAG_QUEUED_DATA else retval)"

definition calc_data_size_variant :: "byte \<Rightarrow> byte \<Rightarrow> byte" where
  "calc_data_size_variant element_variant queue_variant =
     (if element_variant = APX_VM_VARIANT_UINT8 then APX_VM_VARIANT_ELEMENT_SIZE_U8_BASE
      else if element_variant = APX_VM_VARIANT_UINT16 then APX_VM_VARIANT_ELEMENT_SIZE_U16_BASE
      else APX_VM_VARIANT_ELEMENT_SIZE_U32_BASE) + queue_variant"

text \<open>The smallest unsigned variant that holds a size: the two conditional chains of the code.\<close>

definition size_variant :: "u32 \<Rightarrow> byte" where
  "size_variant sz = (if sz \<le> 0xFF then APX_VM_VARIANT_UINT8
     else if sz \<le> 0xFFFF then APX_VM_VARIANT_UINT16 else APX_VM_VARIANT_UINT32)"

text \<open>
  \<open>apx_program_encode_header\<close>. The sizes are packed at the width of their variant; the
  library's byte array takes the program byte, the data size, and for queued data the
  DATA_SIZE instruction and the element size. Its error codes other than a memory error
  become an internal error.
\<close>

definition header_result :: "adt_error \<times> byte list \<Rightarrow> apx_error \<times> byte list" where
  "header_result r = (case r of (rc, p) \<Rightarrow>
     (if rc = ADT_NO_ERROR then APX_NO_ERROR
      else if rc = ADT_MEM_ERROR then APX_MEM_ERROR else APX_INTERNAL_ERROR, p))"

definition push_then ::
  "adt_error \<times> byte list \<Rightarrow> (byte list \<Rightarrow> adt_error \<times> byte list) \<Rightarrow> adt_error \<times> byte list" where
  "push_then r f = (case r of (rc, p) \<Rightarrow> if rc = ADT_NO_ERROR then f p else (rc, p))"

definition apx_program_encode_header ::
  "adt \<Rightarrow> cutil \<Rightarrow> byte list \<Rightarrow> apx_programType \<Rightarrow> u32 \<Rightarrow> u32 \<Rightarrow> bool \<Rightarrow> apx_error \<times> byte list" where
  "apx_program_encode_header A C program program_type element_size queue_size is_dynamic =
     (let is_queued = queue_size > 0;
          queue_variant = size_variant queue_size;
          element_variant = size_variant element_size;
          tmp = apx_vm_variant_to_size queue_variant + unat element_size * unat queue_size
      in if is_queued \<and> tmp > unat UINT32_MAX then (APX_LENGTH_ERROR, program)
         else
           let data_size = (if is_queued then word_of_nat tmp else element_size);
               data_size_variant = size_variant data_size;
               packed = packLE C data_size (apx_vm_variant_to_size data_size_variant);
               program_byte = encode_program_byte program_type is_dynamic is_queued data_size_variant
           in header_result
                (push_then (bytearray_push A program program_byte) (\<lambda>p.
                 push_then (bytearray_append A p packed) (\<lambda>p.
                 if is_queued then
                   push_then (bytearray_push A p
                     (apx_program_encode_instruction APX_VM_OPCODE_DATA_SIZE
                        (calc_data_size_variant element_variant queue_variant) False)) (\<lambda>p.
                   bytearray_append A p
                     (packLE C element_size (apx_vm_variant_to_size element_variant)))
                 else (ADT_NO_ERROR, p)))))"

section \<open>Decoding the header\<close>

definition decode_queued_header ::
  "cutil \<Rightarrow> byte list \<Rightarrow> nat \<Rightarrow> apx_programHeader \<Rightarrow> apx_error \<times> nat option \<times> apx_programHeader" where
  "decode_queued_header C bs next header =
     (if next \<ge> length bs then (APX_PARSE_ERROR, Some next, header)
      else case apx_program_decode_instruction (bs ! next) of (opcode, variant, flag) \<Rightarrow>
        if opcode \<noteq> APX_VM_OPCODE_DATA_SIZE \<or> variant < APX_VM_VARIANT_ELEMENT_SIZE_U8_BASE \<or>
           variant > APX_VM_VARIANT_ELEMENT_SIZE_LAST
        then (APX_PARSE_ERROR, Some next, header)
        else
          let next = Suc next;
              (element_variant, queued_variant) =
                (if variant < APX_VM_VARIANT_ELEMENT_SIZE_U16_BASE
                 then (APX_VM_VARIANT_UINT8, variant - APX_VM_VARIANT_ELEMENT_SIZE_U8_BASE)
                 else if variant < APX_VM_VARIANT_ELEMENT_SIZE_U32_BASE
                 then (APX_VM_VARIANT_UINT16, variant - APX_VM_VARIANT_ELEMENT_SIZE_U16_BASE)
                 else (APX_VM_VARIANT_UINT32, variant - APX_VM_VARIANT_ELEMENT_SIZE_U32_BASE));
              queued_elem_size = (word_of_nat (apx_vm_variant_to_size queued_variant) :: u32)
          in if queued_elem_size = 0 \<or> queued_elem_size > ph_data_size header
             then (APX_PARSE_ERROR, Some next, header)
             else case apx_vm_parse_uint32_by_variant C (drop next bs) element_variant of
               None \<Rightarrow> (APX_PARSE_ERROR, Some next, header)
             | Some (element_size, n) \<Rightarrow>
                 let header = header\<lparr>ph_element_size := element_size\<rparr>; next = next + n;
                     tmp = ph_data_size header - queued_elem_size
                 in if element_size = 0 then (APX_PARSE_ERROR, Some next, header)
                    else if tmp mod element_size \<noteq> 0 then (APX_INVALID_HEADER_ERROR, Some next, header)
                    else (APX_NO_ERROR, Some next, header\<lparr>ph_queue_length := tmp div element_size\<rparr>))"

definition apx_program_decode_header ::
  "cutil \<Rightarrow> byte list option \<Rightarrow> nat option \<times> apx_programHeader \<Rightarrow>
     apx_error \<times> nat option \<times> apx_programHeader" where
  "apx_program_decode_header C program st = (case st of (next, header) \<Rightarrow>
     (case program of
        None \<Rightarrow> (APX_INVALID_ARGUMENT_ERROR, next, header)
      | Some bs \<Rightarrow>
          if \<not> UINT8_SIZE < length bs then (APX_INVALID_ARGUMENT_ERROR, next, header)
          else
            let b = bs ! 0;
                data_variant = b AND APX_VM_HEADER_DATA_VARIANT_MASK;
                header = header\<lparr>ph_element_size := 0, ph_queue_length := 0,
                  ph_program_type :=
                    (if b AND APX_VM_HEADER_PROG_TYPE_PACK = APX_VM_HEADER_PROG_TYPE_PACK
                     then APX_PACK_PROGRAM else APX_UNPACK_PROGRAM),
                  ph_has_dynamic_data :=
                    (b AND APX_VM_HEADER_FLAG_DYNAMIC_DATA = APX_VM_HEADER_FLAG_DYNAMIC_DATA)\<rparr>;
                is_queued_data = (b AND APX_VM_HEADER_FLAG_QUEUED_DATA = APX_VM_HEADER_FLAG_QUEUED_DATA)
            in case apx_vm_parse_uint32_by_variant C (drop 1 bs) data_variant of
                 None \<Rightarrow> (APX_PARSE_ERROR, Some 1, header)
               | Some (data_size, n) \<Rightarrow>
                   let header = header\<lparr>ph_data_size := data_size\<rparr>
                   in if is_queued_data then decode_queued_header C bs (1 + n) header
                      else (APX_NO_ERROR, Some (1 + n), header)))"

section \<open>Lemmas\<close>

lemma bit_instruction:
  "bit (apx_program_encode_instruction opcode variant flag) m \<longleftrightarrow>
     m < 3 \<and> bit opcode m \<or> 3 \<le> m \<and> m < 7 \<and> bit variant (m - 3) \<or> m = 7 \<and> flag"
  by (auto simp: apx_program_encode_instruction_def bit_simps bit_consts bit_120 Let_def)

lemma flag_128: "i AND 128 = 128 \<longleftrightarrow> bit i 7" for i :: byte
proof
  assume "i AND 128 = 128"
  then have "bit (i AND 128) 7" by (simp add: bit_simps bit_consts)
  then show "bit i 7" by (simp add: bit_simps)
next
  assume "bit i 7"
  then show "i AND 128 = 128"
    by (auto intro!: bit_word_eqI simp: bit_simps bit_consts)
qed

lemma decode_encode_instruction:
  assumes "opcode < 8" and "variant < 16"
  shows "apx_program_decode_instruction (apx_program_encode_instruction opcode variant flag) = (opcode, variant, flag)"
proof -
  have o: "bit opcode m \<Longrightarrow> m < 3" and v: "bit variant m \<Longrightarrow> m < 4" for m
    using word_bit_bound [of opcode 3] word_bit_bound [of variant 4] assms by simp_all
  show ?thesis
    by (auto intro!: bit_word_eqI dest: o v
        simp: apx_program_decode_instruction_def flag_128 bit_instruction bit_simps bit_consts)
qed

lemma encode_decode_instruction:
  "(case apx_program_decode_instruction i of (opcode, variant, flag) \<Rightarrow>
      apx_program_encode_instruction opcode variant flag) = i"
proof (rule bit_word_eqI)
  fix n assume "n < LENGTH(8)"
  then show "bit (case apx_program_decode_instruction i of (opcode, variant, flag) \<Rightarrow>
      apx_program_encode_instruction opcode variant flag) n \<longleftrightarrow> bit i n"
    by (auto simp: apx_program_decode_instruction_def bit_instruction flag_128 bit_simps bit_consts
      less_Suc_eq numeral_eq_Suc)
qed


lemma flag_bit: "i AND c = c \<longleftrightarrow> bit i k" if c: "\<And>n. n < 8 \<Longrightarrow> bit c n \<longleftrightarrow> n = k" and k: "k < 8" for i c :: byte
proof
  assume "i AND c = c"
  then have "bit (i AND c) k" using c [of k] k by simp
  then show "bit i k" by (simp add: bit_and_iff)
next
  assume "bit i k"
  then show "i AND c = c"
    by (intro bit_word_eqI) (auto simp: bit_and_iff c)
qed

lemma flags: "i AND 8 = 8 \<longleftrightarrow> bit i 3" "i AND 16 = 16 \<longleftrightarrow> bit i 4" "i AND 32 = 32 \<longleftrightarrow> bit i 5" 
 "i AND 128 = 128 \<longleftrightarrow> bit i 7" for i :: byte
  by (rule flag_bit; simp add: bit_simps bit_consts)+

lemma bit_program_byte:
  "m < 8 \<Longrightarrow> bit (encode_program_byte pt dyn queued dv) m \<longleftrightarrow>
     m < 3 \<and> bit dv m \<or> m = 3 \<and> pt = APX_PACK_PROGRAM \<or> m = 4 \<and> dyn \<or> m = 5 \<and> queued"
  by (auto simp: encode_program_byte_def Let_def bit_simps bit_consts)

lemma program_byte_fields:
  assumes "dv < 8"
  shows "encode_program_byte pt dyn queued dv AND 7 = dv"
    and "encode_program_byte pt dyn queued dv AND 8 = 8 \<longleftrightarrow> pt = APX_PACK_PROGRAM"
    and "encode_program_byte pt dyn queued dv AND 16 = 16 \<longleftrightarrow> dyn"
    and "encode_program_byte pt dyn queued dv AND 32 = 32 \<longleftrightarrow> queued"
proof -
  show "encode_program_byte pt dyn queued dv AND 7 = dv"
    using word_bit_bound [of dv 3] assms
    by (intro bit_word_eqI) (auto simp: bit_and_iff bit_program_byte bit_simps bit_consts)
qed (simp_all add: flags bit_program_byte)

lemma size_variant_cases:
  "size_variant sz = 0 \<or> size_variant sz = 1 \<or> size_variant sz = 2"
  by (simp add: size_variant_def)

lemma size_variant_size:
  "apx_vm_variant_to_size (size_variant sz) = 1 \<or> apx_vm_variant_to_size (size_variant sz) = 2 \<or>
     apx_vm_variant_to_size (size_variant sz) = 4"
  by (auto simp: size_variant_def apx_vm_variant_to_size_def)

lemma size_variant_fits: "unat sz < 256 ^ apx_vm_variant_to_size (size_variant sz)"
  using unsigned_less [of sz, where ?'a = nat]
  by (auto simp: size_variant_def apx_vm_variant_to_size_def word_le_nat_alt)

definition header_data_size :: "u32 \<Rightarrow> u32 \<Rightarrow> nat" where
  "header_data_size es qs = (if qs > 0
     then apx_vm_variant_to_size (size_variant qs) + unat es * unat qs else unat es)"

definition header_bytes :: "cutil \<Rightarrow> apx_programType \<Rightarrow> u32 \<Rightarrow> u32 \<Rightarrow> bool \<Rightarrow> byte list" where
  "header_bytes C pt es qs dyn =
     (let ds = word_of_nat (header_data_size es qs); dv = size_variant ds
      in [encode_program_byte pt dyn (qs > 0) dv] @ packLE C ds (apx_vm_variant_to_size dv) @
         (if qs > 0 then apx_program_encode_instruction APX_VM_OPCODE_DATA_SIZE
              (calc_data_size_variant (size_variant es) (size_variant qs)) False #
            packLE C es (apx_vm_variant_to_size (size_variant es)) else []))"

lemma encode_header_bytes:
  assumes "bytearray_appends A" and "header_data_size es qs \<le> unat UINT32_MAX"
  shows "apx_program_encode_header A C p pt es qs dyn = (APX_NO_ERROR, p @ header_bytes C pt es qs dyn)"
  using assms
  by (auto simp: apx_program_encode_header_def header_bytes_def header_data_size_def Let_def
      push_then_def header_result_def bytearray_push_ok bytearray_append_ok)

lemma calc_variant_split:
  assumes "v = calc_data_size_variant (size_variant es) (size_variant qs)"
  shows "v < 16" "\<not> v < 3" "\<not> v > 11" 
    "(if v < 6 then (0, v - 3) else if v < 9 then (1, v - 6) else (2, v - 9)) = (size_variant es, size_variant qs)"
  using size_variant_cases [of es] size_variant_cases [of qs]
  by (auto simp: assms calc_data_size_variant_def)


lemma word_mult_div:
  assumes t: "unat (t :: u32) = unat es * unat qs" and es: "es > 0"
  shows "t mod es = 0" and "t div es = qs"
proof -
  have "unat es > 0" using es by (simp add: word_less_nat_alt)
  then show "t mod es = 0" and "t div es = qs"
    using t by (simp_all add: word_unat_eq_iff unat_mod_distrib unat_div_distrib)
qed

lemma decode_queued_bytes:
  assumes C: "packs_little_endian C" and es: "es > 0" 
    and bs: "bs = pre @ apx_program_encode_instruction APX_VM_OPCODE_DATA_SIZE
              (calc_data_size_variant (size_variant es) (size_variant qs)) False #
            packLE C es (apx_vm_variant_to_size (size_variant es)) @ body"
    and ds: "unat (ph_data_size h) = apx_vm_variant_to_size (size_variant qs) + unat es * unat qs"
  shows "decode_queued_header C bs (length pre) h =
     (APX_NO_ERROR, Some (length pre + 1 + apx_vm_variant_to_size (size_variant es)),
      h\<lparr>ph_element_size := es, ph_queue_length := qs\<rparr>)"
proof -
  define v where "v = calc_data_size_variant (size_variant es) (size_variant qs)"
  define q where "q = (word_of_nat (apx_vm_variant_to_size (size_variant qs)) :: u32)"
  have uq: "unat q = apx_vm_variant_to_size (size_variant qs)" and q0: "q \<noteq> 0"
    using size_variant_size [of qs] by (auto simp: q_def unat_of_nat)
  note v = calc_variant_split [OF v_def]
  have dec: "apx_program_decode_instruction (bs ! length pre) = (2, v, False)"
    using v(1) by (simp add: bs v_def [symmetric] nth_append decode_encode_instruction)
  have ql: "\<not> q > ph_data_size h"
    by (simp add: word_less_nat_alt ds uq)
  have "unat (ph_data_size h - q) = unat es * unat qs"
    using ql by (simp add: unat_sub word_le_nat_alt not_less ds uq)
  note md = word_mult_div [OF this es]
  have parse: "apx_vm_parse_uint32_by_variant C (drop (Suc (length pre)) bs) (size_variant es) =
      Some (es, apx_vm_variant_to_size (size_variant es))"
    using parse_uint32_packed [OF C refl size_variant_size size_variant_fits, of es body]
    by (simp add: bs)
  show ?thesis
    unfolding decode_queued_header_def dec v(4) Let_def prod.case q_def [symmetric]
    using v es q0 ql md by (simp add: bs [symmetric] parse) (simp add: bs)
qed

lemma decode_header_bytes:
  assumes C: "packs_little_endian C" and ds: "header_data_size es qs \<le> unat UINT32_MAX"
    and es: "qs > 0 \<Longrightarrow> es > 0"
  shows "apx_program_decode_header C (Some (header_bytes C pt es qs dyn @ body)) (n, h) =
    (APX_NO_ERROR, Some (length (header_bytes C pt es qs dyn)),
     \<lparr>ph_program_type = pt, ph_data_size = word_of_nat (header_data_size es qs),
      ph_element_size = (if qs > 0 then es else 0), ph_queue_length = qs,
      ph_has_dynamic_data = dyn\<rparr>)"

proof -
  let ?ds = "word_of_nat (header_data_size es qs) :: u32"
  let ?dv = "size_variant ?ds" and ?n = "apx_vm_variant_to_size (size_variant ?ds)"
  have u: "unat ?ds = header_data_size es qs"
    using ds by (simp add: unat_of_nat)
  have dv: "?dv < 8" using size_variant_cases [of ?ds] by auto
  note pb = program_byte_fields [OF dv]
  have len: "length (packLE C ?ds ?n) = ?n"
    by (rule length_packLE [OF C size_variant_size])
  note parse = parse_uint32_packed [OF C refl size_variant_size size_variant_fits, of ?ds]
  show ?thesis
  proof (cases "qs > 0")
    case False
    then have "qs = 0" by (simp add: word_gt_0)
    let ?bs = "header_bytes C pt es qs dyn @ body"
    have hb: "header_bytes C pt es qs dyn = encode_program_byte pt dyn False ?dv # packLE C ?ds ?n"
      using \<open>qs = 0\<close> by (simp add: header_bytes_def Let_def)
    have hd: "?bs ! 0 = encode_program_byte pt dyn False ?dv" and len1: "1 < length ?bs"
      and rest: "drop 1 ?bs = packLE C ?ds ?n @ body" and lb: "length (header_bytes C pt es qs dyn) = Suc ?n"
      unfolding hb using len size_variant_size [of ?ds] by auto
    show ?thesis
      unfolding apx_program_decode_header_def prod.case option.case hd rest parse Let_def pb lb
      using len1 \<open>qs = 0\<close> by (cases pt; cases h) simp_all
  next
    case True
    let ?pre = "encode_program_byte pt dyn True ?dv # packLE C ?ds ?n"
    let ?bs = "header_bytes C pt es qs dyn @ body"
    have bs: "?bs = ?pre @ apx_program_encode_instruction APX_VM_OPCODE_DATA_SIZE
              (calc_data_size_variant (size_variant es) (size_variant qs)) False #
            packLE C es (apx_vm_variant_to_size (size_variant es)) @ body"
      using True by (simp add: header_bytes_def Let_def)
    have u2: "unat ?ds = apx_vm_variant_to_size (size_variant qs) + unat es * unat qs"
      using True u by (simp add: header_data_size_def)
    note q = decode_queued_bytes [OF C es [OF True] bs, where h = "h\<lparr>ph_element_size := 0, ph_queue_length := 0,
      ph_program_type := pt, ph_has_dynamic_data := dyn, ph_data_size := ?ds\<rparr>"]
    have hd: "?bs ! 0 = encode_program_byte pt dyn True ?dv" and len1: "1 < length ?bs"
      and rest: "drop 1 ?bs = packLE C ?ds ?n @ drop (Suc ?n) ?bs"
      unfolding bs using len by simp_all
    have lb: "length (header_bytes C pt es qs dyn) =
        length ?pre + 1 + apx_vm_variant_to_size (size_variant es)"
      using True by (simp add: header_bytes_def Let_def length_packLE [OF C size_variant_size])
    show ?thesis
      unfolding apx_program_decode_header_def prod.case option.case hd rest parse Let_def pb lb
      using len1 q u2 len True by (cases pt; cases h) simp_all
  qed
qed

lemma decode_queued_next:
  assumes "n \<le> length bs"
  shows "\<exists>m. fst (snd (decode_queued_header C bs n h)) = Some m \<and> n \<le> m \<and> m \<le> length bs"
proof (cases "n \<ge> length bs")
  case True
  with assms show ?thesis by (simp add: decode_queued_header_def)
next
  case False
  have *: "Suc n + k \<le> length bs"
    if "apx_vm_parse_uint32_by_variant C (drop (Suc n) bs) v = Some (x, k)" for v x k
    using parse_uint32_shorter [OF that] False by auto
  obtain opc v f where d: "apx_program_decode_instruction (bs ! n) = (opc, v, f)"
    by (metis prod_cases3)
  obtain ev qv where w: "(if v < APX_VM_VARIANT_ELEMENT_SIZE_U16_BASE
      then (APX_VM_VARIANT_UINT8, v - APX_VM_VARIANT_ELEMENT_SIZE_U8_BASE)
      else if v < APX_VM_VARIANT_ELEMENT_SIZE_U32_BASE
      then (APX_VM_VARIANT_UINT16, v - APX_VM_VARIANT_ELEMENT_SIZE_U16_BASE)
      else (APX_VM_VARIANT_UINT32, v - APX_VM_VARIANT_ELEMENT_SIZE_U32_BASE)) = (ev, qv)"
    by fastforce
  note unf = decode_queued_header_def d prod.case Let_def w
  show ?thesis
  proof (cases "apx_vm_parse_uint32_by_variant C (drop (Suc n) bs) ev")
    case None
    with False show ?thesis unfolding unf by simp
  next
    case (Some r)
    obtain x k where "r = (x, k)" by (cases r)
    with Some False * [of ev x k] show ?thesis unfolding unf by simp
  qed
qed

lemma decode_header_next:
  assumes "apx_program_decode_header C (Some bs) (next, h) = (e, next', h')"
  shows "next' = next \<or> (\<exists>n. next' = Some n \<and> 0 < n \<and> n \<le> length bs)"
proof -
  note q = decode_queued_next [of _ bs C]
  show ?thesis
  proof (cases "Suc 0 < length bs")
    case False
    with assms show ?thesis by (simp add: apx_program_decode_header_def)
  next
    case True
    show ?thesis
    proof (cases "apx_vm_parse_uint32_by_variant C (drop 1 bs) (bs ! 0 AND 7)")
      case None
      with True assms show ?thesis
        by (auto simp: apx_program_decode_header_def Let_def)
    next
      case (Some r)
      then obtain ds n where r: "r = (ds, n)" by (cases r)
      with Some have "1 + n \<le> length bs"
        using parse_uint32_shorter [of C "drop 1 bs" _ ds n] True by force
      have "next' = Some (1 + n) \<or> (\<exists>hh. decode_queued_header C bs (1 + n) hh = (e, next', h'))"
        using Some r True assms
        by (auto simp: apx_program_decode_header_def Let_def split: if_splits)
      moreover from q [OF \<open>1 + n \<le> length bs\<close>]
      have "decode_queued_header C bs (1 + n) hh = (e, next', h') \<Longrightarrow>
          \<exists>m. next' = Some m \<and> 1 + n \<le> m \<and> m \<le> length bs" for hh
        by (metis fst_conv snd_conv)
      ultimately show ?thesis
        using \<open>1 + n \<le> length bs\<close> by fastforce
    qed
  qed
qed

section \<open>Properties\<close>

text \<open>
  C39: A program header survives: what the encoder appends for any program type, dynamic
  flag, element size and queue length (data that fits 32 bits, a queue of non-empty
  elements) is decoded to those values from in front of any program body, and the decoder
  stops exactly at the body.
\<close>

theorem program_header_roundtrip:
  assumes "packs_little_endian C" and "bytearray_appends A"
    and "header_data_size es qs \<le> unat UINT32_MAX" and "qs > 0 \<Longrightarrow> es > 0"
  shows "\<exists>hdr. apx_program_encode_header A C [] pt es qs dyn = (APX_NO_ERROR, hdr) \<and>
     apx_program_decode_header C (Some (hdr @ body)) (n, h) =
       (APX_NO_ERROR, Some (length hdr),
        \<lparr>ph_program_type = pt, ph_data_size = word_of_nat (header_data_size es qs),
         ph_element_size = (if qs > 0 then es else 0), ph_queue_length = qs,
         ph_has_dynamic_data = dyn\<rparr>)"
  using encode_header_bytes [OF assms(2,3), where p = "[]"] decode_header_bytes [OF assms(1,3,4)] by simp

theorem program_header_roundtrip_witness:
  "\<exists>hdr. apx_program_encode_header adt_lists cutil_bytes [] APX_PACK_PROGRAM 300 10 True = (APX_NO_ERROR, hdr) \<and>
     apx_program_decode_header cutil_bytes (Some (hdr @ [1, 2])) (None, \<lparr>ph_program_type = APX_UNPACK_PROGRAM,
        ph_data_size = 0, ph_element_size = 0, ph_queue_length = 0, ph_has_dynamic_data = False\<rparr>) =
       (APX_NO_ERROR, Some (length hdr),
        \<lparr>ph_program_type = APX_PACK_PROGRAM, ph_data_size = word_of_nat (header_data_size 300 10),
         ph_element_size = (if (10 :: u32) > 0 then 300 else 0), ph_queue_length = 10,
         ph_has_dynamic_data = True\<rparr>)"
  by (rule program_header_roundtrip [OF cutil_bytes_le adt_lists_append])
    (simp_all add: header_data_size_def size_variant_def apx_vm_variant_to_size_def)

text \<open>
  The one-byte instruction is a bijection between bytes and triples of a 3-bit opcode, a
  4-bit variant and a flag: every triple survives encoding, and every byte is the encoding
  of what it decodes to.
\<close>

theorem instruction_bijective:
  "(opcode < 8 \<and> variant < 16 \<longrightarrow>
      apx_program_decode_instruction (apx_program_encode_instruction opcode variant flag) = (opcode, variant, flag)) \<and>
   (case apx_program_decode_instruction i of (opcode, variant, flag) \<Rightarrow>
      apx_program_encode_instruction opcode variant flag) = i"
  using decode_encode_instruction encode_decode_instruction by blast

theorem instruction_bijective_witness:
  "apx_program_decode_instruction (apx_program_encode_instruction 3 8 True) = (3, 8, True) \<and>
   (case apx_program_decode_instruction 0xC3 of (opcode, variant, flag) \<Rightarrow>
      apx_program_encode_instruction opcode variant flag) = 0xC3"
  using instruction_bijective [of 3 8 True "0xC3"] by simp

text \<open>
  Reading a header never takes the read pointer out of the program: it stays where it was
  or lies strictly behind the first byte and not behind the end, on every outcome.
\<close>

theorem program_header_in_bounds:
  "apx_program_decode_header C (Some bs) (next, h) = (e, next', h') \<Longrightarrow>
     next' = next \<or> (\<exists>n. next' = Some n \<and> 0 < n \<and> n \<le> length bs)"
  by (rule decode_header_next)

theorem program_header_in_bounds_witness:
  "Some 2 = (None :: nat option) \<or> (\<exists>n. Some 2 = Some n \<and> 0 < n \<and> n \<le> length [0x08, 1 :: byte])"
  by (rule program_header_in_bounds [where C = cutil_bytes and h = "\<lparr>ph_program_type = APX_UNPACK_PROGRAM,
        ph_data_size = 0, ph_element_size = 0, ph_queue_length = 0, ph_has_dynamic_data = False\<rparr>"])
    (simp add: apx_program_decode_header_def apx_vm_parse_uint32_by_variant_def
      apx_vm_variant_to_size_def cutil_bytes_def Let_def)

end
