(* ===== verification/Decoder.thy ===== *)
theory Decoder
  imports Program
begin

text \<open>
  apx/src/decoder.c: reading one operation after another from a program. The program is the
  list of bytes from \<open>program_begin\<close> to \<open>program_end\<close>; \<open>program_next\<close> and \<open>program_mark\<close> are
  offsets into it, \<open>None\<close> for a null pointer. Reading a byte at or behind the end
  is the fault \<open>OUT_OF_BOUNDS\<close>. The decoder's out-parameters are its state: a parse that fails
  half way leaves what it has written.
\<close>

abbreviation (input) APX_VM_VARIANT_RECORD_SELECT :: byte where "APX_VM_VARIANT_RECORD_SELECT \<equiv> 0"
abbreviation (input) APX_VM_VARIANT_LIMIT_CHECK_NONE :: byte where "APX_VM_VARIANT_LIMIT_CHECK_NONE \<equiv> 0"
abbreviation (input) APX_VM_VARIANT_LIMIT_CHECK_U8 :: byte where "APX_VM_VARIANT_LIMIT_CHECK_U8 \<equiv> 1"
abbreviation (input) APX_VM_VARIANT_LIMIT_CHECK_U16 :: byte where "APX_VM_VARIANT_LIMIT_CHECK_U16 \<equiv> 2"
abbreviation (input) APX_VM_VARIANT_LIMIT_CHECK_U32 :: byte where "APX_VM_VARIANT_LIMIT_CHECK_U32 \<equiv> 3"
abbreviation (input) APX_VM_VARIANT_LIMIT_CHECK_U64 :: byte where "APX_VM_VARIANT_LIMIT_CHECK_U64 \<equiv> 4"
abbreviation (input) APX_VM_VARIANT_LIMIT_CHECK_S8 :: byte where "APX_VM_VARIANT_LIMIT_CHECK_S8 \<equiv> 5"
abbreviation (input) APX_VM_VARIANT_LIMIT_CHECK_S16 :: byte where "APX_VM_VARIANT_LIMIT_CHECK_S16 \<equiv> 6"
abbreviation (input) APX_VM_VARIANT_LIMIT_CHECK_S32 :: byte where "APX_VM_VARIANT_LIMIT_CHECK_S32 \<equiv> 8"
abbreviation (input) APX_VM_VARIANT_LIMIT_CHECK_S64 :: byte where "APX_VM_VARIANT_LIMIT_CHECK_S64 \<equiv> 9"
abbreviation (input) APX_VM_VARIANT_LIMIT_CHECK_LAST :: byte where "APX_VM_VARIANT_LIMIT_CHECK_LAST \<equiv> 9"
abbreviation (input) APX_VM_VARIANT_ARRAY_NEXT :: byte where "APX_VM_VARIANT_ARRAY_NEXT \<equiv> 0"

section \<open>State\<close>

datatype apx_operationType =
    APX_OPERATION_TYPE_PROGRAM_END
  | APX_OPERATION_TYPE_UNPACK
  | APX_OPERATION_TYPE_PACK
  | APX_OPERATION_TYPE_RANGE_CHECK_INT32
  | APX_OPERATION_TYPE_RANGE_CHECK_UINT32
  | APX_OPERATION_TYPE_RANGE_CHECK_INT64
  | APX_OPERATION_TYPE_RANGE_CHECK_UINT64
  | APX_OPERATION_TYPE_RECORD_SELECT
  | APX_OPERATION_TYPE_ARRAY_NEXT

record apx_packUnpackOperationInfo =
  info_type_code :: apx_typeCode
  info_array_length :: u32
  info_is_dynamic_array :: bool

record apx_rangeCheck32OperationInfo =
  lower_limit32 :: u32
  upper_limit32 :: u32

record apx_rangeCheck64OperationInfo =
  lower_limit64 :: u64
  upper_limit64 :: u64

record apx_vm_decoder =
  program :: "byte list option"
  program_next :: "nat option"
  program_mark :: "nat option"
  operation_type :: apx_operationType
  pack_unpack_info :: apx_packUnpackOperationInfo
  range_check_uint32_info :: apx_rangeCheck32OperationInfo
  range_check_uint64_info :: apx_rangeCheck64OperationInfo
  range_check_int32_info :: apx_rangeCheck32OperationInfo
  range_check_int64_info :: apx_rangeCheck64OperationInfo
  dec_field_name :: "byte list"
  dec_is_last_field :: bool

section \<open>Operations\<close>

definition apx_vm_decoder_create :: apx_vm_decoder where
  "apx_vm_decoder_create =
     \<lparr>program = None, program_next = None, program_mark = None,
      operation_type = APX_OPERATION_TYPE_PROGRAM_END,
      pack_unpack_info = \<lparr>info_type_code = APX_TYPE_CODE_NONE, info_array_length = 0,
        info_is_dynamic_array = False\<rparr>,
      range_check_uint32_info = \<lparr>lower_limit32 = 0, upper_limit32 = 0\<rparr>,
      range_check_uint64_info = \<lparr>lower_limit64 = 0, upper_limit64 = 0\<rparr>,
      range_check_int32_info = \<lparr>lower_limit32 = 0, upper_limit32 = 0\<rparr>,
      range_check_int64_info = \<lparr>lower_limit64 = 0, upper_limit64 = 0\<rparr>,
      dec_field_name = [], dec_is_last_field = False\<rparr>"

definition apx_vm_decoder_select_program ::
  "apx_vm_decoder \<Rightarrow> byte list option \<Rightarrow> apx_error \<times> apx_vm_decoder" where
  "apx_vm_decoder_select_program self data =
     (case data of
        None \<Rightarrow> (APX_INVALID_ARGUMENT_ERROR, self)
      | Some bs \<Rightarrow> (APX_NO_ERROR,
          self\<lparr>program := Some bs, program_next := Some 0, program_mark := None\<rparr>))"

definition apx_vm_decoder_parse_program_header ::
  "cutil \<Rightarrow> apx_vm_decoder \<Rightarrow> apx_programHeader \<Rightarrow> apx_error \<times> apx_programHeader \<times> apx_vm_decoder" where
  "apx_vm_decoder_parse_program_header C self header =
     (case apx_program_decode_header C (program self) (program_next self, header) of
        (e, next, header) \<Rightarrow> (e, header, self\<lparr>program_next := next\<rparr>))"

definition apx_vm_decoder_get_pack_unpack_info :: "apx_vm_decoder \<Rightarrow> apx_packUnpackOperationInfo" where
  "apx_vm_decoder_get_pack_unpack_info self = pack_unpack_info self"

definition apx_vm_decoder_range_check_info_int32 :: "apx_vm_decoder \<Rightarrow> apx_rangeCheck32OperationInfo" where
  "apx_vm_decoder_range_check_info_int32 self = range_check_int32_info self"

definition apx_vm_decoder_range_check_info_uint32 :: "apx_vm_decoder \<Rightarrow> apx_rangeCheck32OperationInfo" where
  "apx_vm_decoder_range_check_info_uint32 self = range_check_uint32_info self"

definition apx_vm_decoder_range_check_info_int64 :: "apx_vm_decoder \<Rightarrow> apx_rangeCheck64OperationInfo" where
  "apx_vm_decoder_range_check_info_int64 self = range_check_int64_info self"

definition apx_vm_decoder_range_check_info_uint64 :: "apx_vm_decoder \<Rightarrow> apx_rangeCheck64OperationInfo" where
  "apx_vm_decoder_range_check_info_uint64 self = range_check_uint64_info self"

definition apx_vm_decoder_get_field_name :: "apx_vm_decoder \<Rightarrow> byte list" where
  "apx_vm_decoder_get_field_name self = dec_field_name self"

definition apx_vm_decoder_save_program_position :: "apx_vm_decoder \<Rightarrow> apx_vm_decoder" where
  "apx_vm_decoder_save_program_position self =
     (if program_next self \<noteq> None then self\<lparr>program_mark := program_next self\<rparr> else self)"

definition apx_vm_decoder_recall_program_position :: "apx_vm_decoder \<Rightarrow> apx_vm_decoder" where
  "apx_vm_decoder_recall_program_position self =
     (if program_mark self \<noteq> None then self\<lparr>program_next := program_mark self\<rparr> else self)"

definition apx_vm_decoder_has_saved_program_position :: "apx_vm_decoder \<Rightarrow> bool" where
  "apx_vm_decoder_has_saved_program_position self = (program_mark self \<noteq> None)"

definition apx_vm_decoder_is_last_field :: "apx_vm_decoder \<Rightarrow> bool" where
  "apx_vm_decoder_is_last_field self = dec_is_last_field self"

section \<open>Parsing one operation\<close>

text \<open>
  The private parts of the parser are given the bytes \<open>bs\<close> of the program and the value \<open>n\<close> of
  \<open>program_next\<close>, which are not null when they are called.
\<close>

definition reset_pack_unpack_info :: "apx_vm_decoder \<Rightarrow> apx_typeCode \<Rightarrow> apx_vm_decoder" where
  "reset_pack_unpack_info self type_code =
     self\<lparr>pack_unpack_info := \<lparr>info_type_code = type_code, info_array_length = 0,
        info_is_dynamic_array = False\<rparr>\<rparr>"

definition decode_array_size ::
  "cutil \<Rightarrow> byte list \<Rightarrow> nat \<Rightarrow> apx_vm_decoder \<Rightarrow> apx_error \<times> apx_vm_decoder" where
  "decode_array_size C bs n self =
     (if n < length bs then
        case apx_program_decode_instruction (bs ! n) of (opcode, variant, flag) \<Rightarrow>
          let n = Suc n;
              self = self\<lparr>program_next := Some n,
                pack_unpack_info := pack_unpack_info self\<lparr>info_is_dynamic_array := flag\<rparr>\<rparr>
          in if opcode = APX_VM_OPCODE_DATA_SIZE then
               (if variant > APX_VM_VARIANT_ARRAY_SIZE_LAST then (APX_INVALID_INSTRUCTION_ERROR, self)
                else case apx_vm_parse_uint32_by_variant C (drop n bs) variant of
                  None \<Rightarrow> (APX_INVALID_INSTRUCTION_ERROR, self)
                | Some (len, k) \<Rightarrow> (APX_NO_ERROR, self\<lparr>program_next := Some (n + k),
                    pack_unpack_info := pack_unpack_info self\<lparr>info_array_length := len\<rparr>\<rparr>))
             else (APX_NO_ERROR, self)
      else (APX_UNEXPECTED_END_ERROR, self))"

definition decode_range_check_uint32 ::
  "cutil \<Rightarrow> byte list \<Rightarrow> nat \<Rightarrow> apx_vm_decoder \<Rightarrow> byte \<Rightarrow> apx_error \<times> apx_vm_decoder" where
  "decode_range_check_uint32 C bs n self variant =
     (if n + apx_vm_variant_to_size variant * 2 \<le> length bs then
        case apx_vm_parse_uint32_by_variant C (drop n bs) variant of
          None \<Rightarrow> (APX_INVALID_INSTRUCTION_ERROR, self)
        | Some (lo, k) \<Rightarrow>
            let n = n + k; self = self\<lparr>program_next := Some n, range_check_uint32_info :=
                  (range_check_uint32_info self)\<lparr>lower_limit32 := lo\<rparr>\<rparr>
            in case apx_vm_parse_uint32_by_variant C (drop n bs) variant of
                 None \<Rightarrow> (APX_INVALID_INSTRUCTION_ERROR, self)
               | Some (hi, k) \<Rightarrow> (APX_NO_ERROR, self\<lparr>program_next := Some (n + k),
                   range_check_uint32_info := (range_check_uint32_info self)\<lparr>upper_limit32 := hi\<rparr>\<rparr>)
      else (APX_UNEXPECTED_END_ERROR, self))"

definition decode_range_check_uint64 ::
  "cutil \<Rightarrow> byte list \<Rightarrow> nat \<Rightarrow> apx_vm_decoder \<Rightarrow> byte \<Rightarrow> apx_error \<times> apx_vm_decoder" where
  "decode_range_check_uint64 C bs n self variant =
     (if n + apx_vm_variant_to_size variant * 2 \<le> length bs then
        case apx_vm_parse_uint64_by_variant C (drop n bs) variant of
          None \<Rightarrow> (APX_INVALID_INSTRUCTION_ERROR, self)
        | Some (lo, k) \<Rightarrow>
            let n = n + k; self = self\<lparr>program_next := Some n, range_check_uint64_info :=
                  (range_check_uint64_info self)\<lparr>lower_limit64 := lo\<rparr>\<rparr>
            in case apx_vm_parse_uint64_by_variant C (drop n bs) variant of
                 None \<Rightarrow> (APX_INVALID_INSTRUCTION_ERROR, self)
               | Some (hi, k) \<Rightarrow> (APX_NO_ERROR, self\<lparr>program_next := Some (n + k),
                   range_check_uint64_info := (range_check_uint64_info self)\<lparr>upper_limit64 := hi\<rparr>\<rparr>)
      else (APX_UNEXPECTED_END_ERROR, self))"

definition decode_range_check_int32 ::
  "cutil \<Rightarrow> byte list \<Rightarrow> nat \<Rightarrow> apx_vm_decoder \<Rightarrow> byte \<Rightarrow> apx_error \<times> apx_vm_decoder" where
  "decode_range_check_int32 C bs n self variant =
     (if n + apx_vm_variant_to_size variant * 2 \<le> length bs then
        case apx_vm_parse_int32_by_variant C (drop n bs) variant of
          None \<Rightarrow> (APX_INVALID_INSTRUCTION_ERROR, self)
        | Some (lo, k) \<Rightarrow>
            let n = n + k; self = self\<lparr>program_next := Some n, range_check_int32_info :=
                  (range_check_int32_info self)\<lparr>lower_limit32 := lo\<rparr>\<rparr>
            in case apx_vm_parse_int32_by_variant C (drop n bs) variant of
                 None \<Rightarrow> (APX_INVALID_INSTRUCTION_ERROR, self)
               | Some (hi, k) \<Rightarrow> (APX_NO_ERROR, self\<lparr>program_next := Some (n + k),
                   range_check_int32_info := (range_check_int32_info self)\<lparr>upper_limit32 := hi\<rparr>\<rparr>)
      else (APX_UNEXPECTED_END_ERROR, self))"

definition decode_range_check_int64 ::
  "cutil \<Rightarrow> byte list \<Rightarrow> nat \<Rightarrow> apx_vm_decoder \<Rightarrow> byte \<Rightarrow> apx_error \<times> apx_vm_decoder" where
  "decode_range_check_int64 C bs n self variant =
     (if n + apx_vm_variant_to_size variant * 2 \<le> length bs then
        case apx_vm_parse_int64_by_variant C (drop n bs) variant of
          None \<Rightarrow> (APX_INVALID_INSTRUCTION_ERROR, self)
        | Some (lo, k) \<Rightarrow>
            let n = n + k; self = self\<lparr>program_next := Some n, range_check_int64_info :=
                  (range_check_int64_info self)\<lparr>lower_limit64 := lo\<rparr>\<rparr>
            in case apx_vm_parse_int64_by_variant C (drop n bs) variant of
                 None \<Rightarrow> (APX_INVALID_INSTRUCTION_ERROR, self)
               | Some (hi, k) \<Rightarrow> (APX_NO_ERROR, self\<lparr>program_next := Some (n + k),
                   range_check_int64_info := (range_check_int64_info self)\<lparr>upper_limit64 := hi\<rparr>\<rparr>)
      else (APX_UNEXPECTED_END_ERROR, self))"

definition decode_record_select ::
  "text_lib \<Rightarrow> byte list \<Rightarrow> nat \<Rightarrow> apx_vm_decoder \<Rightarrow> bool \<Rightarrow> apx_error \<times> apx_vm_decoder" where
  "decode_record_select T bs n self is_last_field =
     (let self = self\<lparr>operation_type := APX_OPERATION_TYPE_RECORD_SELECT\<rparr>;
          k = while_predicate T (\<lambda>b. b \<noteq> 0) (drop n bs)
      in if k > 0 then
           (APX_NO_ERROR, self\<lparr>dec_field_name := str_set_bstr T (dec_field_name self) (take k (drop n bs)),
              program_next := Some (n + k + UINT8_SIZE), dec_is_last_field := is_last_field\<rparr>)
         else (APX_INVALID_INSTRUCTION_ERROR, self))"

text \<open>
  \<open>decode_next_instruction_internal\<close>: the two switches of the code are joined, the operation
  type being set before the operands are read. Variant 7 of the opcode DATA_CTRL passes both
  switches untouched, so the operation type of the previous instruction stays.
\<close>

definition decode_pack_unpack ::
  "cutil \<Rightarrow> byte list \<Rightarrow> nat \<Rightarrow> apx_vm_decoder \<Rightarrow> byte \<Rightarrow> bool \<Rightarrow> apx_error \<times> apx_vm_decoder" where
  "decode_pack_unpack C bs n self variant flag =
     (if variant > APX_VM_VARIANT_LAST then (APX_INVALID_INSTRUCTION_ERROR, self)
      else
        let type_code = apx_vm_variant_to_type_code variant
        in if type_code = APX_TYPE_CODE_NONE then (APX_INVALID_INSTRUCTION_ERROR, self)
           else
             let self = reset_pack_unpack_info self type_code
             in if flag then decode_array_size C bs n self else (APX_NO_ERROR, self))"

definition decode_data_ctrl ::
  "cutil \<Rightarrow> text_lib \<Rightarrow> byte list \<Rightarrow> nat \<Rightarrow> apx_vm_decoder \<Rightarrow> byte \<Rightarrow> bool \<Rightarrow> apx_error \<times> apx_vm_decoder" where
  "decode_data_ctrl C T bs n self variant flag =
     (if variant = APX_VM_VARIANT_RECORD_SELECT then decode_record_select T bs n self flag
      else if variant \<le> APX_VM_VARIANT_LIMIT_CHECK_LAST then
        (let u32 = self\<lparr>operation_type := APX_OPERATION_TYPE_RANGE_CHECK_UINT32\<rparr>;
             u64 = self\<lparr>operation_type := APX_OPERATION_TYPE_RANGE_CHECK_UINT64\<rparr>;
             i32 = self\<lparr>operation_type := APX_OPERATION_TYPE_RANGE_CHECK_INT32\<rparr>;
             i64 = self\<lparr>operation_type := APX_OPERATION_TYPE_RANGE_CHECK_INT64\<rparr>
         in if variant = APX_VM_VARIANT_LIMIT_CHECK_U8
            then decode_range_check_uint32 C bs n u32 APX_VM_VARIANT_UINT8
            else if variant = APX_VM_VARIANT_LIMIT_CHECK_U16
            then decode_range_check_uint32 C bs n u32 APX_VM_VARIANT_UINT16
            else if variant = APX_VM_VARIANT_LIMIT_CHECK_U32
            then decode_range_check_uint32 C bs n u32 APX_VM_VARIANT_UINT32
            else if variant = APX_VM_VARIANT_LIMIT_CHECK_U64
            then decode_range_check_uint64 C bs n u64 APX_VM_VARIANT_UINT64
            else if variant = APX_VM_VARIANT_LIMIT_CHECK_S8
            then decode_range_check_int32 C bs n i32 APX_VM_VARIANT_INT8
            else if variant = APX_VM_VARIANT_LIMIT_CHECK_S16
            then decode_range_check_int32 C bs n i32 APX_VM_VARIANT_INT16
            else if variant = APX_VM_VARIANT_LIMIT_CHECK_S32
            then decode_range_check_int32 C bs n i32 APX_VM_VARIANT_INT32
            else if variant = APX_VM_VARIANT_LIMIT_CHECK_S64
            then decode_range_check_int64 C bs n i64 APX_VM_VARIANT_INT64
            else (APX_NO_ERROR, self))
      else (APX_INVALID_INSTRUCTION_ERROR, self))"

definition decode_next_instruction_internal ::
  "cutil \<Rightarrow> text_lib \<Rightarrow> byte list \<Rightarrow> nat \<Rightarrow> apx_vm_decoder \<Rightarrow> apx_error \<times> apx_vm_decoder" where
  "decode_next_instruction_internal C T bs n self =
     (if \<not> n < length bs then (FAULT OUT_OF_BOUNDS, self)
      else case apx_program_decode_instruction (bs ! n) of (opcode, variant, flag) \<Rightarrow>
        let n = Suc n; self = self\<lparr>program_next := Some n\<rparr>
        in if opcode = APX_VM_OPCODE_UNPACK then
             decode_pack_unpack C bs n (self\<lparr>operation_type := APX_OPERATION_TYPE_UNPACK\<rparr>) variant flag
           else if opcode = APX_VM_OPCODE_PACK then
             decode_pack_unpack C bs n (self\<lparr>operation_type := APX_OPERATION_TYPE_PACK\<rparr>) variant flag
           else if opcode = APX_VM_OPCODE_DATA_CTRL then decode_data_ctrl C T bs n self variant flag
           else if opcode = APX_VM_OPCODE_FLOW_CTRL then
             (if variant = APX_VM_VARIANT_ARRAY_NEXT
              then (APX_NO_ERROR, self\<lparr>operation_type := APX_OPERATION_TYPE_ARRAY_NEXT\<rparr>)
              else (APX_INVALID_INSTRUCTION_ERROR, self))
           else (APX_INVALID_INSTRUCTION_ERROR, self))"

text \<open>
  \<open>apx_vm_decoder_parse_next_operation\<close> writes the operation type to its caller only when it
  succeeds.
\<close>

definition apx_vm_decoder_parse_next_operation ::
  "cutil \<Rightarrow> text_lib \<Rightarrow> apx_vm_decoder \<Rightarrow> apx_error \<times> apx_operationType option \<times> apx_vm_decoder" where
  "apx_vm_decoder_parse_next_operation C T self =
     (case (program self, program_next self) of
        (Some bs, Some n) \<Rightarrow>
          if n = length bs then (APX_NO_ERROR, Some APX_OPERATION_TYPE_PROGRAM_END, self)
          else (case decode_next_instruction_internal C T bs n self of (result, self) \<Rightarrow>
            if result = APX_NO_ERROR then (APX_NO_ERROR, Some (operation_type self), self)
            else (result, None, self))
      | _ \<Rightarrow> (APX_NULL_PTR_ERROR, None, self))"

section \<open>Packed numbers\<close>

lemma ucast_mod_word:
  fixes v :: u32
  shows "(ucast (word_of_nat (unat v mod 256) :: u32) :: byte) = ucast v"
    and "(ucast (word_of_nat (unat v mod 65536) :: u32) :: u16) = ucast v"
  by (simp_all add: word_unat_eq_iff unsigned_ucast_eq take_bit_eq_mod unat_of_nat)

lemma unpackLE_packLE_mod:
  assumes "packs_little_endian C" and "n = 1 \<or> n = 2 \<or> n = 4"
  shows "unpackLE C (packLE C v n) n = word_of_nat (unat v mod 256 ^ n)"
  using assms by (simp add: packLE_bytes unpackLE_bytes le_val_le_bytes)

lemma parse_int32_packed:
  assumes C: "packs_little_endian C"
    and n: "n = apx_vm_variant_to_size variant"
    and fits: "variant = APX_VM_VARIANT_INT8 \<and> scast (ucast v :: 8 word) = v \<or>
      variant = APX_VM_VARIANT_INT16 \<and> scast (ucast v :: 16 word) = v \<or> variant = APX_VM_VARIANT_INT32"
  shows "apx_vm_parse_int32_by_variant C (packLE C v n @ rest) variant = Some (v, n)"
proof -
  have n': "n = 1 \<or> n = 2 \<or> n = 4" using fits n by (auto simp: apx_vm_variant_to_size_def)
  have len: "length (packLE C v n) = n" using n' by (simp add: length_packLE [OF C])
  show ?thesis
    using fits n' len n unpackLE_packLE_mod [OF C n', of v] unsigned_less [of v, where ?'a = nat]
    by (auto simp: apx_vm_parse_int32_by_variant_def Let_def apx_vm_variant_to_size_def ucast_mod_word)
qed

lemma parse_int64_packed:
  assumes C: "packs_little_endian C"
  shows "apx_vm_parse_int64_by_variant C (packLE64 C v 8 @ rest) APX_VM_VARIANT_INT64 = Some (v, 8)"
    and "apx_vm_parse_uint64_by_variant C (packLE64 C v 8 @ rest) APX_VM_VARIANT_UINT64 = Some (v, 8)"
proof -
  have "length (packLE64 C v 8) = 8" by (simp add: length_packLE64 [OF C])
  moreover have "unpackLE64 C (packLE64 C v 8) 8 = v"
    using unsigned_less [of v, where ?'a = nat]
    by (simp add: packLE64_bytes [OF C] unpackLE64_bytes [OF C] le_val_le_bytes_small
        del: le_bytes_numeral)
  ultimately show "apx_vm_parse_int64_by_variant C (packLE64 C v 8 @ rest) APX_VM_VARIANT_INT64 = Some (v, 8)"
    and "apx_vm_parse_uint64_by_variant C (packLE64 C v 8 @ rest) APX_VM_VARIANT_UINT64 = Some (v, 8)"
    by (simp_all add: apx_vm_parse_int64_by_variant_def apx_vm_parse_uint64_by_variant_def
        apx_vm_variant_to_size_def)
qed


section \<open>Decoding what the compiler emits\<close>

definition at_bytes :: "byte list \<Rightarrow> byte list \<Rightarrow> apx_vm_decoder \<Rightarrow> bool" where
  "at_bytes pre rest d \<longleftrightarrow> program d = Some (pre @ rest) \<and> program_next d = Some (length pre)"

definition array_size_bytes :: "cutil \<Rightarrow> u32 \<Rightarrow> bool \<Rightarrow> byte list" where
  "array_size_bytes C array_size is_dynamic_array =
     apx_program_encode_instruction APX_VM_OPCODE_DATA_SIZE (size_variant array_size) is_dynamic_array #
     packLE C array_size (apx_vm_variant_to_size (size_variant array_size))"

definition element_bytes :: "cutil \<Rightarrow> byte \<Rightarrow> byte \<Rightarrow> u32 \<Rightarrow> bool \<Rightarrow> byte list" where
  "element_bytes C opcode variant array_length is_dynamic_array =
     apx_program_encode_instruction opcode variant (array_length > 0) #
     (if array_length > 0 then array_size_bytes C array_length is_dynamic_array else [])"

lemma size_variant_le: "size_variant n < 16" "\<not> 2 < size_variant n"
  using size_variant_cases [of n] by auto

lemma element_decoded:
  assumes C: "packs_little_endian C" and at: "at_bytes pre (element_bytes C opcode variant len dyn @ rest) d"
    and op: "opcode = APX_VM_OPCODE_PACK \<and> ty = APX_OPERATION_TYPE_PACK \<or>
      opcode = APX_VM_OPCODE_UNPACK \<and> ty = APX_OPERATION_TYPE_UNPACK"
    and v: "variant < 16" and tc: "apx_vm_variant_to_type_code variant \<noteq> APX_TYPE_CODE_NONE"
  shows "apx_vm_decoder_parse_next_operation C T d =
    (APX_NO_ERROR, Some ty, d\<lparr>program_next := Some (length pre + length (element_bytes C opcode variant len dyn)),
      operation_type := ty, pack_unpack_info := \<lparr>info_type_code = apx_vm_variant_to_type_code variant,
        info_array_length = len, info_is_dynamic_array = (len > 0 \<and> dyn)\<rparr>\<rparr>)"
proof -
  let ?n = "apx_vm_variant_to_size (size_variant len)"
  have lv: "\<not> variant > APX_VM_VARIANT_LAST" using v by (simp add: word_less_nat_alt)
  have oc: "opcode < 8" using op by auto
  note dec = decode_encode_instruction [OF _ v] decode_encode_instruction [OF _ size_variant_le(1)]
  have parse: "apx_vm_parse_uint32_by_variant C (packLE C len ?n @ rest) (size_variant len) = Some (len, ?n)"
    by (rule parse_uint32_packed [OF C refl size_variant_size size_variant_fits])
  have pl: "length (packLE C len ?n) = ?n" by (rule length_packLE [OF C size_variant_size])
  from op show ?thesis
  proof
    assume "opcode = APX_VM_OPCODE_PACK \<and> ty = APX_OPERATION_TYPE_PACK"
    then show ?thesis using at lv tc
      by (cases "len = 0")
       (simp_all add: apx_vm_decoder_parse_next_operation_def at_bytes_def decode_next_instruction_internal_def
        element_bytes_def array_size_bytes_def nth_append dec decode_pack_unpack_def decode_array_size_def Let_def
        reset_pack_unpack_info_def size_variant_le parse pl word_gt_0)
  next
    assume "opcode = APX_VM_OPCODE_UNPACK \<and> ty = APX_OPERATION_TYPE_UNPACK"
    then show ?thesis using at lv tc
      by (cases "len = 0")
       (simp_all add: apx_vm_decoder_parse_next_operation_def at_bytes_def decode_next_instruction_internal_def
        element_bytes_def array_size_bytes_def nth_append dec decode_pack_unpack_def decode_array_size_def Let_def
        reset_pack_unpack_info_def size_variant_le parse pl word_gt_0)
  qed
qed

definition select_bytes :: "byte list \<Rightarrow> bool \<Rightarrow> byte list" where
  "select_bytes name last_field =
     apx_program_encode_instruction APX_VM_OPCODE_DATA_CTRL APX_VM_VARIANT_RECORD_SELECT last_field # name @ [0]"

lemma select_decoded:
  assumes T: "scans T" "stores_text T" and at: "at_bytes pre (select_bytes name lst @ rest) d"
    and name: "name \<noteq> []" "0 \<notin> set name"
  shows "apx_vm_decoder_parse_next_operation C T d =
    (APX_NO_ERROR, Some APX_OPERATION_TYPE_RECORD_SELECT,
     d\<lparr>program_next := Some (length pre + length (select_bytes name lst)),
       operation_type := APX_OPERATION_TYPE_RECORD_SELECT, dec_field_name := name, dec_is_last_field := lst\<rparr>)"
proof -
  have "takeWhile (\<lambda>b. b \<noteq> 0) (name @ 0 # rest) = name"
    using name(2) by (subst takeWhile_append2) auto
  then show ?thesis using at name
    by (simp add: apx_vm_decoder_parse_next_operation_def at_bytes_def decode_next_instruction_internal_def
        select_bytes_def nth_append decode_encode_instruction decode_data_ctrl_def decode_record_select_def
        while_predicate_scan [OF T(1)] str_set_stores [OF T(2)] Let_def)
qed

lemma array_next_decoded:
  assumes "at_bytes pre (apx_program_encode_instruction APX_VM_OPCODE_FLOW_CTRL APX_VM_VARIANT_ARRAY_NEXT False # rest) d"
  shows "apx_vm_decoder_parse_next_operation C T d =
    (APX_NO_ERROR, Some APX_OPERATION_TYPE_ARRAY_NEXT,
     d\<lparr>program_next := Some (length pre + 1), operation_type := APX_OPERATION_TYPE_ARRAY_NEXT\<rparr>)"
  using assms
  by (simp add: apx_vm_decoder_parse_next_operation_def at_bytes_def decode_next_instruction_internal_def
      nth_append decode_encode_instruction Let_def)

lemma end_decoded:
  "at_bytes pre [] d \<Longrightarrow>
     apx_vm_decoder_parse_next_operation C T d = (APX_NO_ERROR, Some APX_OPERATION_TYPE_PROGRAM_END, d)"
  by (simp add: apx_vm_decoder_parse_next_operation_def at_bytes_def)


definition limit_bytes :: "byte \<Rightarrow> bool \<Rightarrow> byte list \<Rightarrow> byte list \<Rightarrow> byte list" where
  "limit_bytes limit_variant is_array lo hi =
     apx_program_encode_instruction APX_VM_OPCODE_DATA_CTRL limit_variant is_array # lo @ hi"

definition unsigned_limit :: "byte \<Rightarrow> byte \<Rightarrow> bool" where
  "unsigned_limit limit_variant variant \<longleftrightarrow>
     limit_variant = APX_VM_VARIANT_LIMIT_CHECK_U8 \<and> variant = APX_VM_VARIANT_UINT8 \<or>
     limit_variant = APX_VM_VARIANT_LIMIT_CHECK_U16 \<and> variant = APX_VM_VARIANT_UINT16 \<or>
     limit_variant = APX_VM_VARIANT_LIMIT_CHECK_U32 \<and> variant = APX_VM_VARIANT_UINT32"

definition signed_limit :: "byte \<Rightarrow> byte \<Rightarrow> bool" where
  "signed_limit limit_variant variant \<longleftrightarrow>
     limit_variant = APX_VM_VARIANT_LIMIT_CHECK_S8 \<and> variant = APX_VM_VARIANT_INT8 \<or>
     limit_variant = APX_VM_VARIANT_LIMIT_CHECK_S16 \<and> variant = APX_VM_VARIANT_INT16 \<or>
     limit_variant = APX_VM_VARIANT_LIMIT_CHECK_S32 \<and> variant = APX_VM_VARIANT_INT32"

definition signed_fits :: "byte \<Rightarrow> u32 \<Rightarrow> bool" where
  "signed_fits variant v \<longleftrightarrow>
     variant = APX_VM_VARIANT_INT8 \<and> scast (ucast v :: 8 word) = v \<or>
     variant = APX_VM_VARIANT_INT16 \<and> scast (ucast v :: 16 word) = v \<or> variant = APX_VM_VARIANT_INT32"

lemma data_ctrl_parsed:
  assumes "at_bytes pre (apx_program_encode_instruction APX_VM_OPCODE_DATA_CTRL variant flag # rest) d"
    and "variant < 16"
  shows "apx_vm_decoder_parse_next_operation C T d =
    (case decode_data_ctrl C T (pre @ apx_program_encode_instruction APX_VM_OPCODE_DATA_CTRL variant flag # rest)
       (Suc (length pre)) (d\<lparr>program_next := Some (Suc (length pre))\<rparr>) variant flag of
      (e, d) \<Rightarrow> (e, if e = APX_NO_ERROR then Some (operation_type d) else None, d))"
  using assms
  by (auto simp: apx_vm_decoder_parse_next_operation_def at_bytes_def decode_next_instruction_internal_def
      nth_append decode_encode_instruction Let_def split: prod.split)

lemma uint32_limits_decoded:
  assumes C: "packs_little_endian C" and lv: "unsigned_limit limit_variant variant"
    and n: "n = apx_vm_variant_to_size variant"
    and fits: "unat lo < 256 ^ n" "unat hi < 256 ^ n"
    and at: "at_bytes pre (limit_bytes limit_variant arr (packLE C lo n) (packLE C hi n) @ rest) d"
  shows "apx_vm_decoder_parse_next_operation C T d =
    (APX_NO_ERROR, Some APX_OPERATION_TYPE_RANGE_CHECK_UINT32,
     d\<lparr>program_next := Some (length pre + length (limit_bytes limit_variant arr (packLE C lo n) (packLE C hi n))),
       operation_type := APX_OPERATION_TYPE_RANGE_CHECK_UINT32,
       range_check_uint32_info := \<lparr>lower_limit32 = lo, upper_limit32 = hi\<rparr>\<rparr>)"
proof -
  have n': "n = 1 \<or> n = 2 \<or> n = 4"
    using lv n by (auto simp: unsigned_limit_def apx_vm_variant_to_size_def)
  have pl: "length (packLE C x n) = n" for x by (rule length_packLE [OF C n'])
  have parse: "apx_vm_parse_uint32_by_variant C (packLE C x n @ r) variant = Some (x, n)"
    if "unat x < 256 ^ n" for x r by (rule parse_uint32_packed [OF C n n' that])
  let ?bs = "pre @ limit_bytes limit_variant arr (packLE C lo n) (packLE C hi n) @ rest"
  have rc: "decode_range_check_uint32 C ?bs (Suc (length pre)) d' variant =
      (APX_NO_ERROR, d'\<lparr>program_next := Some (Suc (length pre) + n + n),
         range_check_uint32_info := \<lparr>lower_limit32 = lo, upper_limit32 = hi\<rparr>\<rparr>)" for d'
    using fits by (simp add: decode_range_check_uint32_def limit_bytes_def n [symmetric] parse pl Let_def)
  note u = data_ctrl_parsed [OF at [unfolded limit_bytes_def append_Cons]]
  show ?thesis
    using lv rc
    by (auto simp: unsigned_limit_def u decode_data_ctrl_def Let_def limit_bytes_def pl)
qed

lemma int32_limits_decoded:
  assumes C: "packs_little_endian C" and lv: "signed_limit limit_variant variant"
    and n: "n = apx_vm_variant_to_size variant"
    and fits: "signed_fits variant lo" "signed_fits variant hi"
    and at: "at_bytes pre (limit_bytes limit_variant arr (packLE C lo n) (packLE C hi n) @ rest) d"
  shows "apx_vm_decoder_parse_next_operation C T d =
    (APX_NO_ERROR, Some APX_OPERATION_TYPE_RANGE_CHECK_INT32,
     d\<lparr>program_next := Some (length pre + length (limit_bytes limit_variant arr (packLE C lo n) (packLE C hi n))),
       operation_type := APX_OPERATION_TYPE_RANGE_CHECK_INT32,
       range_check_int32_info := \<lparr>lower_limit32 = lo, upper_limit32 = hi\<rparr>\<rparr>)"
proof -
  have n': "n = 1 \<or> n = 2 \<or> n = 4"
    using lv n by (auto simp: signed_limit_def apx_vm_variant_to_size_def)
  have pl: "length (packLE C x n) = n" for x by (rule length_packLE [OF C n'])
  have parse: "apx_vm_parse_int32_by_variant C (packLE C x n @ r) variant = Some (x, n)"
    if "signed_fits variant x" for x r by (rule parse_int32_packed [OF C n that [unfolded signed_fits_def]])
  let ?bs = "pre @ limit_bytes limit_variant arr (packLE C lo n) (packLE C hi n) @ rest"
  have rc: "decode_range_check_int32 C ?bs (Suc (length pre)) d' variant =
      (APX_NO_ERROR, d'\<lparr>program_next := Some (Suc (length pre) + n + n),
         range_check_int32_info := \<lparr>lower_limit32 = lo, upper_limit32 = hi\<rparr>\<rparr>)" for d'
    using fits by (simp add: decode_range_check_int32_def limit_bytes_def n [symmetric] parse pl Let_def)
  note u = data_ctrl_parsed [OF at [unfolded limit_bytes_def append_Cons]]
  show ?thesis
    using lv rc
    by (auto simp: signed_limit_def u decode_data_ctrl_def Let_def limit_bytes_def pl)
qed

lemma uint64_limits_decoded:
  assumes C: "packs_little_endian C"
    and at: "at_bytes pre (limit_bytes APX_VM_VARIANT_LIMIT_CHECK_U64 arr (packLE64 C lo 8) (packLE64 C hi 8) @ rest) d"
  shows "apx_vm_decoder_parse_next_operation C T d =
    (APX_NO_ERROR, Some APX_OPERATION_TYPE_RANGE_CHECK_UINT64,
     d\<lparr>program_next := Some (length pre + length
         (limit_bytes APX_VM_VARIANT_LIMIT_CHECK_U64 arr (packLE64 C lo 8) (packLE64 C hi 8))),
       operation_type := APX_OPERATION_TYPE_RANGE_CHECK_UINT64,
       range_check_uint64_info := \<lparr>lower_limit64 = lo, upper_limit64 = hi\<rparr>\<rparr>)"
proof -
  have pl: "length (packLE64 C x 8) = 8" for x by (rule length_packLE64 [OF C]) simp
  have n: "apx_vm_variant_to_size APX_VM_VARIANT_UINT64 = 8" by (simp add: apx_vm_variant_to_size_def)
  note u = data_ctrl_parsed [OF at [unfolded limit_bytes_def append_Cons]]
  show ?thesis
    using parse_int64_packed(2) [OF C]
    by (simp add: u decode_data_ctrl_def Let_def limit_bytes_def pl decode_range_check_uint64_def n)
qed

lemma int64_limits_decoded:
  assumes C: "packs_little_endian C"
    and at: "at_bytes pre (limit_bytes APX_VM_VARIANT_LIMIT_CHECK_S64 arr (packLE64 C lo 8) (packLE64 C hi 8) @ rest) d"
  shows "apx_vm_decoder_parse_next_operation C T d =
    (APX_NO_ERROR, Some APX_OPERATION_TYPE_RANGE_CHECK_INT64,
     d\<lparr>program_next := Some (length pre + length
         (limit_bytes APX_VM_VARIANT_LIMIT_CHECK_S64 arr (packLE64 C lo 8) (packLE64 C hi 8))),
       operation_type := APX_OPERATION_TYPE_RANGE_CHECK_INT64,
       range_check_int64_info := \<lparr>lower_limit64 = lo, upper_limit64 = hi\<rparr>\<rparr>)"
proof -
  have pl: "length (packLE64 C x 8) = 8" for x by (rule length_packLE64 [OF C]) simp
  have n: "apx_vm_variant_to_size APX_VM_VARIANT_INT64 = 8" by (simp add: apx_vm_variant_to_size_def)
  note u = data_ctrl_parsed [OF at [unfolded limit_bytes_def append_Cons]]
  show ?thesis
    using parse_int64_packed(1) [OF C]
    by (simp add: u decode_data_ctrl_def Let_def limit_bytes_def pl decode_range_check_int64_def n)
qed

section \<open>The decoder stays in the program\<close>

text \<open>
  A part of the parser that starts at offset \<open>n\<close> stays in the program, moves forward only and keeps
  the program and the mark.
\<close>

definition advanced :: "byte list \<Rightarrow> nat \<Rightarrow> apx_vm_decoder \<Rightarrow> apx_error \<times> apx_vm_decoder \<Rightarrow> bool" where
  "advanced bs n d r \<longleftrightarrow> \<not> is_fault (fst r) \<and> program (snd r) = program d \<and>
     program_mark (snd r) = program_mark d \<and>
     (\<exists>n'. program_next (snd r) = Some n' \<and> n \<le> n' \<and> n' \<le> length bs)"

lemma parse_uint32_inside:
  "apx_vm_parse_uint32_by_variant C (drop n bs) v = Some (x, k) \<Longrightarrow> n \<le> length bs \<Longrightarrow> n + k \<le> length bs"
  using parse_uint32_shorter [of C "drop n bs" v x k] by auto

lemma parse_int32_inside:
  "apx_vm_parse_int32_by_variant C (drop n bs) v = Some (x, k) \<Longrightarrow> n \<le> length bs \<Longrightarrow> n + k \<le> length bs"
  using parse_int32_shorter [of C "drop n bs" v x k] by auto

lemma parse_uint64_inside:
  "apx_vm_parse_uint64_by_variant C (drop n bs) v = Some (x, k) \<Longrightarrow> n \<le> length bs \<Longrightarrow> n + k \<le> length bs"
  using parse_uint64_shorter [of C "drop n bs" v x k] by auto

lemma parse_int64_inside:
  "apx_vm_parse_int64_by_variant C (drop n bs) v = Some (x, k) \<Longrightarrow> n \<le> length bs \<Longrightarrow> n + k \<le> length bs"
  using parse_int64_shorter [of C "drop n bs" v x k] by auto

lemmas parse_inside = parse_uint32_inside parse_int32_inside parse_uint64_inside parse_int64_inside

lemma array_size_advanced:
  assumes "program_next d = Some n" and n: "n \<le> length bs"
  shows "advanced bs n d (decode_array_size C bs n d)"
proof (cases "n < length bs")
  case False
  with assms show ?thesis by (simp add: decode_array_size_def advanced_def)
next
  case True
  obtain opc v f where dec: "apx_program_decode_instruction (bs ! n) = (opc, v, f)" by (metis prod_cases3)
  have "Suc n + k \<le> length bs" if "apx_vm_parse_uint32_by_variant C (drop (Suc n) bs) v = Some (x, k)" for x k
    using parse_uint32_inside [OF that] True by auto
  then show ?thesis
    using True by (auto simp: decode_array_size_def dec Let_def advanced_def split: option.split)
qed

lemma range_check_advanced:
  assumes "program_next d = Some n" and n: "n \<le> length bs"
  shows "advanced bs n d (decode_range_check_uint32 C bs n d v)"
    and "advanced bs n d (decode_range_check_int32 C bs n d v)"
    and "advanced bs n d (decode_range_check_uint64 C bs n d v)"
    and "advanced bs n d (decode_range_check_int64 C bs n d v)"
  using assms
  by (auto simp: decode_range_check_uint32_def decode_range_check_int32_def decode_range_check_uint64_def
      decode_range_check_int64_def Let_def advanced_def split: option.split dest: parse_inside)

lemma pack_unpack_advanced:
  assumes "program_next d = Some n" and n: "n \<le> length bs"
  shows "advanced bs n d (decode_pack_unpack C bs n d v f)"
  using assms array_size_advanced [of "reset_pack_unpack_info d (apx_vm_variant_to_type_code v)" n bs C]
  by (simp add: decode_pack_unpack_def Let_def advanced_def reset_pack_unpack_info_def)

text \<open>Selecting a record field is the one operation that can step over the end of the program.\<close>

lemma record_select_advanced:
  assumes T: "scans T" and "program_next d = Some n" and n: "n \<le> length bs"
    and r: "decode_record_select T bs n d f = (e, d')"
  shows "\<not> is_fault e \<and> program d' = program d \<and> program_mark d' = program_mark d \<and>
    (\<exists>n'. program_next d' = Some n' \<and> n \<le> n' \<and> n' \<le> Suc (length bs) \<and>
      (e \<noteq> APX_NO_ERROR \<longrightarrow> n' \<le> length bs)) \<and> operation_type d' = APX_OPERATION_TYPE_RECORD_SELECT"
proof -
  have "length (takeWhile (\<lambda>b. b \<noteq> 0) (drop n bs)) \<le> length bs - n"
    using length_takeWhile_le [of "\<lambda>b. b \<noteq> 0" "drop n bs"] by simp
  with assms show ?thesis
    by (auto simp: decode_record_select_def Let_def while_predicate_scan [OF T] split: if_splits)
qed

lemma data_ctrl_advanced:
  assumes T: "scans T" and nx: "program_next d = Some n" and n: "n \<le> length bs"
    and r: "decode_data_ctrl C T bs n d v f = (e, d')"
  shows "\<not> is_fault e \<and> program d' = program d \<and> program_mark d' = program_mark d \<and>
    (\<exists>n'. program_next d' = Some n' \<and> n \<le> n' \<and> n' \<le> Suc (length bs) \<and>
      (n' = Suc (length bs) \<longrightarrow> e = APX_NO_ERROR \<and> operation_type d' = APX_OPERATION_TYPE_RECORD_SELECT))"
proof (cases "v = APX_VM_VARIANT_RECORD_SELECT")
  case True
  with r have "decode_record_select T bs n d f = (e, d')" by (simp add: decode_data_ctrl_def)
  from record_select_advanced [OF T nx n this] show ?thesis by (metis Suc_n_not_le_n)
next
  case False
  note a = range_check_advanced [OF _ n, of "d\<lparr>operation_type := ty\<rparr>" for ty]
  have "advanced bs n d (decode_data_ctrl C T bs n d v f)"
    using False nx n a
    by (simp add: decode_data_ctrl_def Let_def advanced_def)
  then show ?thesis by (auto simp: r advanced_def)
qed

lemma next_instruction_advanced:
  assumes T: "scans T" and nx: "program_next d = Some n" and n: "n < length bs"
    and r: "decode_next_instruction_internal C T bs n d = (e, d')"
  shows "\<not> is_fault e \<and> program d' = program d \<and> program_mark d' = program_mark d \<and>
    (\<exists>n'. program_next d' = Some n' \<and> n < n' \<and> n' \<le> Suc (length bs) \<and>
      (n' = Suc (length bs) \<longrightarrow> e = APX_NO_ERROR \<and> operation_type d' = APX_OPERATION_TYPE_RECORD_SELECT))"
proof -
  obtain opc v f where dec: "apx_program_decode_instruction (bs ! n) = (opc, v, f)" by (metis prod_cases3)
  let ?d = "d\<lparr>program_next := Some (Suc n)\<rparr>"
  note r' = r [unfolded decode_next_instruction_internal_def dec prod.case Let_def]
  have sn: "Suc n \<le> length bs" using n by simp
  note a = pack_unpack_advanced [OF _ sn, of "?d\<lparr>operation_type := ty\<rparr>" C v f for ty]
  show ?thesis
  proof (cases "opc = APX_VM_OPCODE_UNPACK \<or> opc = APX_VM_OPCODE_PACK")
    case True
    then obtain ty where "decode_pack_unpack C bs (Suc n) (?d\<lparr>operation_type := ty\<rparr>) v f = (e, d')"
      using r' n by (auto split: if_splits)
    with a [of ty] show ?thesis by (auto simp: advanced_def)
  next
    case False
    show ?thesis
    proof (cases "opc = APX_VM_OPCODE_DATA_CTRL")
      case True
      with r' n have "decode_data_ctrl C T bs (Suc n) ?d v f = (e, d')" by simp
      from data_ctrl_advanced [OF T _ sn this] show ?thesis by (auto simp: Suc_le_eq)
    next
      case no_ctrl: False
      with False r' n show ?thesis by (auto split: if_splits)
    qed
  qed
qed

section \<open>Properties\<close>

text \<open>
  C36: Memory safety and progress of the decoder: parsing an operation anywhere in a program,
  whatever its bytes, never reads outside it; unless the end is reached the read pointer
  moves forward, program and mark stay, and the pointer passes the end only by
  one and only after the selection of a record field.
\<close>

theorem decoder_in_bounds:
  assumes "scans T" and "program d = Some bs" and "program_next d = Some n" and "n \<le> length bs"
    and "apx_vm_decoder_parse_next_operation C T d = (e, op, d')"
  shows "\<not> is_fault e \<and> program d' = Some bs \<and> program_mark d' = program_mark d \<and>
    (\<exists>n'. program_next d' = Some n' \<and> n \<le> n' \<and> n' \<le> Suc (length bs) \<and>
       (n' = Suc (length bs) \<longrightarrow> op = Some APX_OPERATION_TYPE_RECORD_SELECT) \<and>
       (n < length bs \<longrightarrow> n < n'))"
proof (cases "n = length bs")
  case True
  with assms show ?thesis by (auto simp: apx_vm_decoder_parse_next_operation_def)
next
  case False
  with assms have n: "n < length bs" by simp
  obtain e1 d1 where i: "decode_next_instruction_internal C T bs n d = (e1, d1)" by fastforce
  with assms False have "d' = d1" "e = e1" "e1 = APX_NO_ERROR \<Longrightarrow> op = Some (operation_type d1)"
    by (auto simp: apx_vm_decoder_parse_next_operation_def split: if_splits)
  with next_instruction_advanced [OF assms(1,3) n i] assms(2) n show ?thesis by auto
qed

theorem decoder_in_bounds_witness:
  "\<exists>e op d'. apx_vm_decoder_parse_next_operation cutil_bytes text_bytes
       (apx_vm_decoder_create\<lparr>program := Some [0x81, 2], program_next := Some 0\<rparr>) = (e, op, d') \<and>
     \<not> is_fault e \<and> program d' = Some [0x81, 2] \<and> program_mark d' = None"
proof -
  let ?d = "apx_vm_decoder_create\<lparr>program := Some [0x81, 2], program_next := Some 0\<rparr>"
  obtain e op d' where r: "apx_vm_decoder_parse_next_operation cutil_bytes text_bytes ?d = (e, op, d')"
    by (metis prod_cases3)
  from decoder_in_bounds [OF text_bytes_scans _ _ _ r, of "[0x81, 2]" 0] r show ?thesis
    by (simp add: apx_vm_decoder_create_def)
qed

text \<open>
  The exception is real: a record field whose name lacks its null terminator at the end of
  a program is accepted, the read pointer is left one behind the end, and the next parse
  reads outside the program, where the end test \<open>program_next == program_end\<close> no longer holds.
\<close>

theorem unterminated_name_overruns:
  assumes "scans T" and "name \<noteq> []" and "0 \<notin> set name"
    and "program d = Some (pre @ apx_program_encode_instruction APX_VM_OPCODE_DATA_CTRL
           APX_VM_VARIANT_RECORD_SELECT lst # name)"
    and "program_next d = Some (length pre)"
  shows "\<exists>d'. apx_vm_decoder_parse_next_operation C T d =
      (APX_NO_ERROR, Some APX_OPERATION_TYPE_RECORD_SELECT, d') \<and>
    program_next d' = Some (Suc (length pre + 1 + length name)) \<and>
    fst (apx_vm_decoder_parse_next_operation C T d') = FAULT OUT_OF_BOUNDS"
proof -
  have tw: "takeWhile (\<lambda>b. b \<noteq> 0) name = name" using assms(3) by (subst takeWhile_eq_all_conv) auto
  show ?thesis
    using assms by (simp add: tw apx_vm_decoder_parse_next_operation_def decode_next_instruction_internal_def
        nth_append decode_encode_instruction decode_data_ctrl_def decode_record_select_def
        while_predicate_scan Let_def)
qed

theorem unterminated_name_overruns_witness:
  "\<exists>d'. apx_vm_decoder_parse_next_operation cutil_bytes text_bytes
        (apx_vm_decoder_create\<lparr>program := Some ([] @ apx_program_encode_instruction APX_VM_OPCODE_DATA_CTRL
           APX_VM_VARIANT_RECORD_SELECT True # [65]), program_next := Some (length ([] :: byte list))\<rparr>) =
      (APX_NO_ERROR, Some APX_OPERATION_TYPE_RECORD_SELECT, d') \<and>
    program_next d' = Some (Suc (length ([] :: byte list) + 1 + length [65 :: byte])) \<and>
    fst (apx_vm_decoder_parse_next_operation cutil_bytes text_bytes d') = FAULT OUT_OF_BOUNDS"
  by (rule unterminated_name_overruns [OF text_bytes_scans]) simp_all

text \<open>
  The unassigned limit check variant 7 (the numbering jumps from 6 to 8) is not rejected: the
  byte decodes without an error to the operation that came before it, which is then run
  again.
\<close>

theorem unassigned_limit_variant_repeats:
  assumes "program d = Some (pre @ apx_program_encode_instruction APX_VM_OPCODE_DATA_CTRL 7 flag # rest)"
    and "program_next d = Some (length pre)"
  shows "apx_vm_decoder_parse_next_operation C T d =
    (APX_NO_ERROR, Some (operation_type d), d\<lparr>program_next := Some (length pre + 1)\<rparr>)"
  using assms
  by (simp add: apx_vm_decoder_parse_next_operation_def decode_next_instruction_internal_def
      nth_append decode_encode_instruction decode_data_ctrl_def Let_def)
theorem unassigned_limit_variant_repeats_witness:
  "apx_vm_decoder_parse_next_operation cutil_bytes text_bytes
     (apx_vm_decoder_create\<lparr>program := Some ([] @ apx_program_encode_instruction APX_VM_OPCODE_DATA_CTRL 7 False # [1]),
        program_next := Some (length ([] :: byte list)), operation_type := APX_OPERATION_TYPE_PACK\<rparr>) =
    (APX_NO_ERROR, Some APX_OPERATION_TYPE_PACK,
     apx_vm_decoder_create\<lparr>program := Some ([] @ apx_program_encode_instruction APX_VM_OPCODE_DATA_CTRL 7 False # [1]),
        program_next := Some (length ([] :: byte list) + 1), operation_type := APX_OPERATION_TYPE_PACK\<rparr>)"
  by (subst unassigned_limit_variant_repeats [where pre = "[]" and flag = False and rest = "[1]"]) simp_all

end
