(* ===== verification/Dtl.thy ===== *)
theory Dtl
  imports VmCommon "HOL-Library.AList"
begin

text \<open>
  The dynamic type library (dtl_type, a git submodule): the values a program packs and
  unpacks. Its functions are a parameter, a record over an abstract type of values; a pointer
  to a value that may be null is an option, and the value behind an object is replaced when
  the C code changes the object. Integers come back as the bits of their C type, beside the
  success flag of the conversion.

  What the library documents is stated against a reference type \<open>dv\<close>: a function from values
  to \<open>dv\<close> under which each operation does what its name says. The reference type itself is
  the instance used in the witnesses.
\<close>

section \<open>The interface\<close>

datatype dtl_dv_type_id = DTL_DV_INVALID | DTL_DV_NULL | DTL_DV_SCALAR | DTL_DV_ARRAY | DTL_DV_HASH

datatype dtl_sv_type_id = DTL_SV_STR | DTL_SV_BYTEARRAY | DTL_SV_OTHER

record 'v dtl =
  dv_type :: "'v option \<Rightarrow> dtl_dv_type_id"
  sv_type :: "'v option \<Rightarrow> dtl_sv_type_id"
  sv_to_i32 :: "'v option \<Rightarrow> u32 \<times> bool"
  sv_to_u32 :: "'v option \<Rightarrow> u32 \<times> bool"
  sv_to_i64 :: "'v option \<Rightarrow> u64 \<times> bool"
  sv_to_u64 :: "'v option \<Rightarrow> u64 \<times> bool"
  sv_to_bool :: "'v option \<Rightarrow> bool \<times> bool"
  sv_to_str :: "'v option \<Rightarrow> byte list \<times> bool"
  sv_get_bytearray :: "'v option \<Rightarrow> byte list option"
  av_length :: "'v option \<Rightarrow> int"
  av_value :: "'v option \<Rightarrow> int \<Rightarrow> 'v option"
  hv_get_cstr :: "'v option \<Rightarrow> byte list \<Rightarrow> 'v option"
  sv_new :: "'v option"
  av_new :: "'v option"
  hv_new :: "'v option"
  sv_set_i32 :: "'v option \<Rightarrow> u32 \<Rightarrow> 'v option"
  sv_set_u32 :: "'v option \<Rightarrow> u32 \<Rightarrow> 'v option"
  sv_set_i64 :: "'v option \<Rightarrow> u64 \<Rightarrow> 'v option"
  sv_set_u64 :: "'v option \<Rightarrow> u64 \<Rightarrow> 'v option"
  sv_set_bool :: "'v option \<Rightarrow> bool \<Rightarrow> 'v option"
  sv_set_char :: "'v option \<Rightarrow> byte \<Rightarrow> 'v option"
  sv_set_str :: "'v option \<Rightarrow> byte list \<Rightarrow> 'v option"
  sv_set_bytearray_raw :: "'v option \<Rightarrow> byte list \<Rightarrow> 'v option"
  av_push :: "'v option \<Rightarrow> 'v option \<Rightarrow> 'v option"
  hv_set_cstr :: "'v option \<Rightarrow> byte list \<Rightarrow> 'v option \<Rightarrow> 'v option"

section \<open>The reference values\<close>

datatype dv =
    DvNull
  | DvInt int
  | DvBool bool
  | DvChar byte
  | DvStr "byte list"
  | DvBytes "byte list"
  | DvArray "dv list"
  | DvHash "(byte list \<times> dv) list"

fun dv_kind :: "dv \<Rightarrow> dtl_dv_type_id" where
  "dv_kind DvNull = DTL_DV_NULL"
| "dv_kind (DvArray xs) = DTL_DV_ARRAY"
| "dv_kind (DvHash kvs) = DTL_DV_HASH"
| "dv_kind _ = DTL_DV_SCALAR"

fun sv_kind :: "dv \<Rightarrow> dtl_sv_type_id" where
  "sv_kind (DvStr s) = DTL_SV_STR"
| "sv_kind (DvBytes b) = DTL_SV_BYTEARRAY"
| "sv_kind _ = DTL_SV_OTHER"

section \<open>What the library documents\<close>

definition reads_kinds :: "'v dtl \<Rightarrow> ('v \<Rightarrow> dv) \<Rightarrow> bool" where
  "reads_kinds D \<alpha> \<longleftrightarrow> (\<forall>v. dv_type D (Some v) = dv_kind (\<alpha> v)) \<and>
     (\<forall>v. dv_kind (\<alpha> v) = DTL_DV_SCALAR \<longrightarrow> sv_type D (Some v) = sv_kind (\<alpha> v))"

definition converts_numbers :: "'v dtl \<Rightarrow> ('v \<Rightarrow> dv) \<Rightarrow> bool" where
  "converts_numbers D \<alpha> \<longleftrightarrow>
     (\<forall>v x. \<alpha> v = DvInt (sint x) \<longrightarrow> sv_to_i32 D (Some v) = (x, True)) \<and>
     (\<forall>v x. \<alpha> v = DvInt (uint x) \<longrightarrow> sv_to_u32 D (Some v) = (x, True)) \<and>
     (\<forall>v x. \<alpha> v = DvInt (sint x) \<longrightarrow> sv_to_i64 D (Some v) = (x, True)) \<and>
     (\<forall>v x. \<alpha> v = DvInt (uint x) \<longrightarrow> sv_to_u64 D (Some v) = (x, True)) \<and>
     (\<forall>v b. \<alpha> v = DvBool b \<longrightarrow> sv_to_bool D (Some v) = (b, True))"

definition converts_text :: "'v dtl \<Rightarrow> ('v \<Rightarrow> dv) \<Rightarrow> bool" where
  "converts_text D \<alpha> \<longleftrightarrow>
     (\<forall>v s. \<alpha> v = DvStr s \<longrightarrow> sv_to_str D (Some v) = (s, True)) \<and>
     (\<forall>v b. \<alpha> v = DvBytes b \<longrightarrow> sv_get_bytearray D (Some v) = Some b)"

definition reads_containers :: "'v dtl \<Rightarrow> ('v \<Rightarrow> dv) \<Rightarrow> bool" where
  "reads_containers D \<alpha> \<longleftrightarrow>
     (\<forall>v xs. \<alpha> v = DvArray xs \<longrightarrow> av_length D (Some v) = int (length xs) \<and>
        (\<forall>i < length xs. map_option \<alpha> (av_value D (Some v) (int i)) = Some (xs ! i))) \<and>
     (\<forall>v kvs k. \<alpha> v = DvHash kvs \<longrightarrow>
        map_option \<alpha> (hv_get_cstr D (Some v) k) = map_of kvs k)"

definition builds_scalars :: "'v dtl \<Rightarrow> ('v \<Rightarrow> dv) \<Rightarrow> bool" where
  "builds_scalars D \<alpha> \<longleftrightarrow>
     sv_new D \<noteq> None \<and>
     (\<forall>v x. map_option \<alpha> (sv_set_i32 D (Some v) x) = Some (DvInt (sint x))) \<and>
     (\<forall>v x. map_option \<alpha> (sv_set_u32 D (Some v) x) = Some (DvInt (uint x))) \<and>
     (\<forall>v x. map_option \<alpha> (sv_set_i64 D (Some v) x) = Some (DvInt (sint x))) \<and>
     (\<forall>v x. map_option \<alpha> (sv_set_u64 D (Some v) x) = Some (DvInt (uint x))) \<and>
     (\<forall>v x. map_option \<alpha> (sv_set_bool D (Some v) x) = Some (DvBool x)) \<and>
     (\<forall>v x. map_option \<alpha> (sv_set_char D (Some v) x) = Some (DvChar x)) \<and>
     (\<forall>v x. map_option \<alpha> (sv_set_str D (Some v) x) = Some (DvStr x)) \<and>
     (\<forall>v x. map_option \<alpha> (sv_set_bytearray_raw D (Some v) x) = Some (DvBytes x))"

definition builds_containers :: "'v dtl \<Rightarrow> ('v \<Rightarrow> dv) \<Rightarrow> bool" where
  "builds_containers D \<alpha> \<longleftrightarrow>
     map_option \<alpha> (av_new D) = Some (DvArray []) \<and>
     map_option \<alpha> (hv_new D) = Some (DvHash []) \<and>
     (\<forall>v w xs. \<alpha> v = DvArray xs \<longrightarrow>
        map_option \<alpha> (av_push D (Some v) (Some w)) = Some (DvArray (xs @ [\<alpha> w]))) \<and>
     (\<forall>v w k kvs. \<alpha> v = DvHash kvs \<longrightarrow>
        map_option \<alpha> (hv_set_cstr D (Some v) k (Some w)) = Some (DvHash (AList.update k (\<alpha> w) kvs)))"

definition dtl_documented :: "'v dtl \<Rightarrow> ('v \<Rightarrow> dv) \<Rightarrow> bool" where
  "dtl_documented D \<alpha> \<longleftrightarrow> reads_kinds D \<alpha> \<and> converts_numbers D \<alpha> \<and> converts_text D \<alpha> \<and>
     reads_containers D \<alpha> \<and> builds_scalars D \<alpha> \<and> builds_containers D \<alpha>"

section \<open>The reference instance\<close>

definition dtl_ref :: "dv dtl" where
  "dtl_ref =
     \<lparr>dv_type = (\<lambda>p. case p of None \<Rightarrow> DTL_DV_NULL | Some v \<Rightarrow> dv_kind v),
      sv_type = (\<lambda>p. case p of None \<Rightarrow> DTL_SV_OTHER | Some v \<Rightarrow> sv_kind v),
      sv_to_i32 = (\<lambda>p. case p of Some (DvInt i) \<Rightarrow> (word_of_int i, sint (word_of_int i :: u32) = i)
        | _ \<Rightarrow> (0, False)),
      sv_to_u32 = (\<lambda>p. case p of Some (DvInt i) \<Rightarrow> (word_of_int i, uint (word_of_int i :: u32) = i)
        | _ \<Rightarrow> (0, False)),
      sv_to_i64 = (\<lambda>p. case p of Some (DvInt i) \<Rightarrow> (word_of_int i, sint (word_of_int i :: u64) = i)
        | _ \<Rightarrow> (0, False)),
      sv_to_u64 = (\<lambda>p. case p of Some (DvInt i) \<Rightarrow> (word_of_int i, uint (word_of_int i :: u64) = i)
        | _ \<Rightarrow> (0, False)),
      sv_to_bool = (\<lambda>p. case p of Some (DvBool b) \<Rightarrow> (b, True) | _ \<Rightarrow> (False, False)),
      sv_to_str = (\<lambda>p. case p of Some (DvStr s) \<Rightarrow> (s, True) | _ \<Rightarrow> ([], False)),
      sv_get_bytearray = (\<lambda>p. case p of Some (DvBytes b) \<Rightarrow> Some b | _ \<Rightarrow> None),
      av_length = (\<lambda>p. case p of Some (DvArray xs) \<Rightarrow> int (length xs) | _ \<Rightarrow> -1),
      av_value = (\<lambda>p i. case p of
          Some (DvArray xs) \<Rightarrow> if 0 \<le> i \<and> i < int (length xs) then Some (xs ! nat i) else None
        | _ \<Rightarrow> None),
      hv_get_cstr = (\<lambda>p k. case p of Some (DvHash kvs) \<Rightarrow> map_of kvs k | _ \<Rightarrow> None),
      sv_new = Some DvNull, av_new = Some (DvArray []), hv_new = Some (DvHash []),
      sv_set_i32 = (\<lambda>p x. map_option (\<lambda>_. DvInt (sint x)) p),
      sv_set_u32 = (\<lambda>p x. map_option (\<lambda>_. DvInt (uint x)) p),
      sv_set_i64 = (\<lambda>p x. map_option (\<lambda>_. DvInt (sint x)) p),
      sv_set_u64 = (\<lambda>p x. map_option (\<lambda>_. DvInt (uint x)) p),
      sv_set_bool = (\<lambda>p x. map_option (\<lambda>_. DvBool x) p),
      sv_set_char = (\<lambda>p x. map_option (\<lambda>_. DvChar x) p),
      sv_set_str = (\<lambda>p x. map_option (\<lambda>_. DvStr x) p),
      sv_set_bytearray_raw = (\<lambda>p x. map_option (\<lambda>_. DvBytes x) p),
      av_push = (\<lambda>p w. case (p, w) of (Some (DvArray xs), Some x) \<Rightarrow> Some (DvArray (xs @ [x])) | _ \<Rightarrow> p),
      hv_set_cstr = (\<lambda>p k w. case (p, w) of
          (Some (DvHash kvs), Some x) \<Rightarrow> Some (DvHash (AList.update k x kvs)) | _ \<Rightarrow> p)\<rparr>"

lemma dtl_ref_documented: "dtl_documented dtl_ref (\<lambda>v. v)"
  unfolding dtl_documented_def reads_kinds_def converts_numbers_def converts_text_def
    reads_containers_def builds_scalars_def builds_containers_def
  by (auto simp: dtl_ref_def option.map_ident)

section \<open>Consequences\<close>

lemma dtl_kind [apx_simps]:
  "dtl_documented D \<alpha> \<Longrightarrow> dv_type D (Some v) = dv_kind (\<alpha> v)"
  "dtl_documented D \<alpha> \<Longrightarrow> dv_kind (\<alpha> v) = DTL_DV_SCALAR \<Longrightarrow> sv_type D (Some v) = sv_kind (\<alpha> v)"
  by (simp_all add: dtl_documented_def reads_kinds_def)

lemma dtl_numbers:
  "dtl_documented D \<alpha> \<Longrightarrow> \<alpha> v = DvInt (sint x) \<Longrightarrow> sv_to_i32 D (Some v) = (x, True)"
  "dtl_documented D \<alpha> \<Longrightarrow> \<alpha> v = DvInt (uint x) \<Longrightarrow> sv_to_u32 D (Some v) = (x, True)"
  "dtl_documented D \<alpha> \<Longrightarrow> \<alpha> v = DvInt (sint y) \<Longrightarrow> sv_to_i64 D (Some v) = (y, True)"
  "dtl_documented D \<alpha> \<Longrightarrow> \<alpha> v = DvInt (uint y) \<Longrightarrow> sv_to_u64 D (Some v) = (y, True)"
  "dtl_documented D \<alpha> \<Longrightarrow> \<alpha> v = DvBool b \<Longrightarrow> sv_to_bool D (Some v) = (b, True)"
  by (simp_all add: dtl_documented_def converts_numbers_def)

lemma dtl_text:
  "dtl_documented D \<alpha> \<Longrightarrow> \<alpha> v = DvStr s \<Longrightarrow> sv_to_str D (Some v) = (s, True)"
  "dtl_documented D \<alpha> \<Longrightarrow> \<alpha> v = DvBytes s \<Longrightarrow> sv_get_bytearray D (Some v) = Some s"
  by (simp_all add: dtl_documented_def converts_text_def)

lemma dtl_array:
  assumes "dtl_documented D \<alpha>" and "\<alpha> v = DvArray xs"
  shows "av_length D (Some v) = int (length xs)"
    and "i < length xs \<Longrightarrow> \<exists>w. av_value D (Some v) (int i) = Some w \<and> \<alpha> w = xs ! i"
  using assms by (auto simp: dtl_documented_def reads_containers_def)

lemma dtl_hash:
  assumes "dtl_documented D \<alpha>" and "\<alpha> v = DvHash kvs" and "map_of kvs k = Some x"
  shows "\<exists>w. hv_get_cstr D (Some v) k = Some w \<and> \<alpha> w = x"
proof -
  have "map_option \<alpha> (hv_get_cstr D (Some v) k) = map_of kvs k"
    using assms(1,2) by (simp add: dtl_documented_def reads_containers_def)
  with assms(3) show ?thesis by auto
qed

section \<open>All libraries\<close>

record 'v lib =
  lib_c :: cutil
  lib_t :: text_lib
  lib_d :: "'v dtl"

definition lib_documented :: "'v lib \<Rightarrow> ('v \<Rightarrow> dv) \<Rightarrow> bool" where
  "lib_documented L \<alpha> \<longleftrightarrow> packs_little_endian (lib_c L) \<and> scans (lib_t L) \<and> stores_text (lib_t L) \<and>
     dtl_documented (lib_d L) \<alpha>"

definition lib_ref :: "dv lib" where
  "lib_ref = \<lparr>lib_c = cutil_bytes, lib_t = text_bytes, lib_d = dtl_ref\<rparr>"

lemma lib_ref_documented: "lib_documented lib_ref (\<lambda>v. v)"
  by (simp add: lib_documented_def lib_ref_def cutil_bytes_le text_bytes_scans text_bytes_stores
      dtl_ref_documented)

lemma lib_documentedD:
  assumes "lib_documented L \<alpha>"
  shows "packs_little_endian (lib_c L)" "scans (lib_t L)" "stores_text (lib_t L)"
    "dtl_documented (lib_d L) \<alpha>"
  using assms by (simp_all add: lib_documented_def)

end
