(* ===== verification/Serializer.thy ===== *)
theory Serializer
  imports Dtl
begin

text \<open>
  apx/src/serializer.c: packing values into a buffer. The write state of the value being
  packed is a record with the fields of \<open>apx_vm_writeState_t\<close>; the scalar union is a 64 bit word
  whose low half the 32 bit members share (little-endian host). The states of the enclosing
  values are the list \<open>sr_stack\<close>, innermost first (adt_stack; \<open>parent\<close>, never read, is its
  head). The buffer is the list of its bytes with offsets for \<open>next\<close> and \<open>padded_next\<close>;
  \<open>wb_next\<close> is \<open>None\<close> as long as all its pointers are null. \<open>sr_free\<close> is the number of write states
  that \<open>malloc\<close> can still provide: creating a state takes one, deleting it gives it back.

  A function is a map from the state to an error code and the new state; what a failing call
  has changed stays changed. Failed assertions and accesses outside the buffer are faults.
\<close>

section \<open>State\<close>

datatype scalar_storage_type =
    APX_VM_SCALAR_STORAGE_TYPE_NONE
  | APX_VM_SCALAR_STORAGE_TYPE_INT32
  | APX_VM_SCALAR_STORAGE_TYPE_UINT32
  | APX_VM_SCALAR_STORAGE_TYPE_INT64
  | APX_VM_SCALAR_STORAGE_TYPE_UINT64
  | APX_VM_SCALAR_STORAGE_TYPE_BOOL
  | APX_VM_SCALAR_STORAGE_TYPE_CHAR
  | APX_VM_SCALAR_STORAGE_TYPE_BYTE

datatype apx_rangeCheckState =
    APX_RANGE_CHECK_STATE_NOT_CHECKED
  | APX_RANGE_CHECK_STATE_OK
  | APX_RANGE_CHECK_STATE_FAIL

record 'v apx_vm_writeState =
  ws_value :: "'v option"
  ws_scalar_value :: u64
  ws_field_name :: "byte list"
  ws_index :: u32
  ws_array_len :: u32
  ws_max_array_len :: u32
  ws_element_size :: u32
  ws_value_type :: dtl_dv_type_id
  ws_scalar_storage_type :: scalar_storage_type
  ws_type_code :: apx_typeCode
  ws_is_last_field :: bool
  ws_dynamic_size_type :: apx_sizeType
  ws_range_check_state :: apx_rangeCheckState

record apx_vm_writeBuffer =
  wb_data :: "byte list"
  wb_next :: "nat option"
  wb_padded_next :: "nat option"

record apx_vm_queuedWriteState =
  qw_max_length :: u32
  qw_current_length :: u32
  qw_element_size :: u32
  qw_length_ptr :: "nat option"
  qw_size_type :: apx_sizeType
  qw_is_active :: bool

record 'v apx_vm_serializer =
  sr_stack :: "'v apx_vm_writeState list"
  sr_state :: "'v apx_vm_writeState"
  sr_buffer :: apx_vm_writeBuffer
  sr_queue :: apx_vm_queuedWriteState
  sr_free :: nat

abbreviation (input) UINT8_MAX :: u32 where "UINT8_MAX \<equiv> 0xFF"
abbreviation (input) UINT16_MAX :: u32 where "UINT16_MAX \<equiv> 0xFFFF"
abbreviation (input) INT8_MIN :: u32 where "INT8_MIN \<equiv> 0xFFFFFF80"
abbreviation (input) INT8_MAX :: u32 where "INT8_MAX \<equiv> 0x7F"
abbreviation (input) INT16_MIN :: u32 where "INT16_MIN \<equiv> 0xFFFF8000"
abbreviation (input) INT16_MAX :: u32 where "INT16_MAX \<equiv> 0x7FFF"

section \<open>The scalar union\<close>

definition get32 :: "u64 \<Rightarrow> u32" where
  "get32 u = ucast u"

definition set32 :: "u64 \<Rightarrow> u32 \<Rightarrow> u64" where
  "set32 u x = (u AND 0xFFFFFFFF00000000) OR ucast x"

definition get_bool :: "u64 \<Rightarrow> bool" where
  "get_bool u = ((ucast u :: byte) \<noteq> 0)"

definition of_bool64 :: "bool \<Rightarrow> u64" where
  "of_bool64 b = (if b then 1 else 0)"

lemma get32_set32 [simp]: "get32 (set32 u x) = x"
  unfolding get32_def set32_def
  by (intro bit_word_eqI) (auto simp: bit_simps bit_consts)

lemma get_bool_of_bool64 [simp]: "get_bool (of_bool64 b) = b"
  by (simp add: get_bool_def of_bool64_def)

section \<open>Write states\<close>

definition apx_vm_writeState_create :: "'v apx_vm_writeState" where
  "apx_vm_writeState_create =
     \<lparr>ws_value = None, ws_scalar_value = 0, ws_field_name = [], ws_index = 0, ws_array_len = 0,
      ws_max_array_len = 0, ws_element_size = 0, ws_value_type = DTL_DV_NULL,
      ws_scalar_storage_type = APX_VM_SCALAR_STORAGE_TYPE_NONE, ws_type_code = APX_TYPE_CODE_NONE,
      ws_is_last_field = False, ws_dynamic_size_type = APX_SIZE_TYPE_NONE,
      ws_range_check_state = APX_RANGE_CHECK_STATE_NOT_CHECKED\<rparr>"

definition state_clear_value :: "'v apx_vm_writeState \<Rightarrow> 'v apx_vm_writeState" where
  "state_clear_value self = self\<lparr>ws_value_type := DTL_DV_NULL, ws_value := None\<rparr>"

definition state_reset :: "'v apx_vm_writeState \<Rightarrow> dtl_dv_type_id \<Rightarrow> 'v apx_vm_writeState" where
  "state_reset self type_id = self\<lparr>ws_value_type := type_id, ws_field_name := [], ws_index := 0,
     ws_array_len := 0, ws_max_array_len := 0, ws_element_size := 0, ws_is_last_field := False,
     ws_type_code := APX_TYPE_CODE_NONE, ws_scalar_storage_type := APX_VM_SCALAR_STORAGE_TYPE_NONE,
     ws_range_check_state := APX_RANGE_CHECK_STATE_NOT_CHECKED,
     ws_dynamic_size_type := APX_SIZE_TYPE_NONE, ws_scalar_value := set32 (ws_scalar_value self) 0\<rparr>"

definition state_set_value :: "'v dtl \<Rightarrow> 'v apx_vm_writeState \<Rightarrow> 'v option \<Rightarrow> 'v apx_vm_writeState" where
  "state_set_value D self dv =
     (let self = state_reset self (dv_type D dv)
      in self\<lparr>ws_value := (if ws_value_type self = DTL_DV_INVALID \<or> ws_value_type self = DTL_DV_NULL
                           then None else dv)\<rparr>)"

definition state_determine_array_length_from_value ::
  "'v dtl \<Rightarrow> 'v apx_vm_writeState \<Rightarrow> apx_error \<times> 'v apx_vm_writeState" where
  "state_determine_array_length_from_value D self =
     (case ws_value_type self of
        DTL_DV_SCALAR \<Rightarrow>
          (case sv_type D (ws_value self) of
             DTL_SV_STR \<Rightarrow>
               (case sv_to_str D (ws_value self) of (tmp, ok) \<Rightarrow>
                  if ok then (APX_NO_ERROR, self\<lparr>ws_array_len := word_of_nat (length tmp)\<rparr>)
                  else (APX_VALUE_CONVERSION_ERROR, self))
           | DTL_SV_BYTEARRAY \<Rightarrow>
               (case sv_get_bytearray D (ws_value self) of
                  Some tmp \<Rightarrow> (APX_NO_ERROR, self\<lparr>ws_array_len := word_of_nat (length tmp)\<rparr>)
                | None \<Rightarrow> (FAULT OUT_OF_BOUNDS, self))
           | DTL_SV_OTHER \<Rightarrow> (APX_NO_ERROR, self))
      | DTL_DV_ARRAY \<Rightarrow>
          (APX_NO_ERROR, self\<lparr>ws_array_len := word_of_int (av_length D (ws_value self))\<rparr>)
      | _ \<Rightarrow> (APX_VALUE_TYPE_ERROR, self))"

definition state_is_num_or_bool_type :: "'v apx_vm_writeState \<Rightarrow> bool" where
  "state_is_num_or_bool_type self =
     (is_integer_type_code (ws_type_code self) \<or> ws_type_code self = APX_TYPE_CODE_BOOL)"

definition state_is_record_type :: "'v apx_vm_writeState \<Rightarrow> bool" where
  "state_is_record_type self = (ws_type_code self = APX_TYPE_CODE_RECORD)"

definition state_is_char_type :: "'v apx_vm_writeState \<Rightarrow> bool" where
  "state_is_char_type self =
     (ws_type_code self = APX_TYPE_CODE_CHAR \<or> ws_type_code self = APX_TYPE_CODE_CHAR8 \<or>
      ws_type_code self = APX_TYPE_CODE_CHAR16 \<or> ws_type_code self = APX_TYPE_CODE_CHAR32)"

definition state_is_bytes_type :: "'v apx_vm_writeState \<Rightarrow> bool" where
  "state_is_bytes_type self = (ws_type_code self = APX_TYPE_CODE_BYTE)"

text \<open>The end of each conversion: the value is stored in any case, its kind when it is good.\<close>

definition converted ::
  "bool \<Rightarrow> scalar_storage_type \<Rightarrow> 'v apx_vm_writeState \<Rightarrow> apx_error \<times> 'v apx_vm_writeState" where
  "converted ok st self =
     (if ok then (APX_NO_ERROR, self\<lparr>ws_scalar_storage_type := st\<rparr>)
      else (APX_VALUE_CONVERSION_ERROR, self))"

definition state_read_scalar_value_internal ::
  "'v dtl \<Rightarrow> 'v apx_vm_writeState \<Rightarrow> 'v option \<Rightarrow> apx_typeCode \<Rightarrow> apx_error \<times> 'v apx_vm_writeState" where
  "state_read_scalar_value_internal D self sv type_code =
     c_assert (sv \<noteq> None)
       (if type_code \<in> {APX_TYPE_CODE_UINT8, APX_TYPE_CODE_UINT16, APX_TYPE_CODE_UINT32} then
          (case sv_to_u32 D sv of (x, ok) \<Rightarrow> converted ok APX_VM_SCALAR_STORAGE_TYPE_UINT32
             (self\<lparr>ws_scalar_value := set32 (ws_scalar_value self) x\<rparr>))
        else if type_code = APX_TYPE_CODE_UINT64 then
          (case sv_to_u64 D sv of (x, ok) \<Rightarrow> converted ok APX_VM_SCALAR_STORAGE_TYPE_UINT64
             (self\<lparr>ws_scalar_value := x\<rparr>))
        else if type_code \<in> {APX_TYPE_CODE_INT8, APX_TYPE_CODE_INT16, APX_TYPE_CODE_INT32} then
          (case sv_to_i32 D sv of (x, ok) \<Rightarrow> converted ok APX_VM_SCALAR_STORAGE_TYPE_INT32
             (self\<lparr>ws_scalar_value := set32 (ws_scalar_value self) x\<rparr>))
        else if type_code = APX_TYPE_CODE_INT64 then
          (case sv_to_i64 D sv of (x, ok) \<Rightarrow> converted ok APX_VM_SCALAR_STORAGE_TYPE_INT64
             (self\<lparr>ws_scalar_value := x\<rparr>))
        else if type_code = APX_TYPE_CODE_BOOL then
          (case sv_to_bool D sv of (x, ok) \<Rightarrow> converted ok APX_VM_SCALAR_STORAGE_TYPE_BOOL
             (self\<lparr>ws_scalar_value := of_bool64 x\<rparr>))
        else (APX_UNSUPPORTED_ERROR, self))
       self"

definition state_read_scalar_value ::
  "'v dtl \<Rightarrow> 'v apx_vm_writeState \<Rightarrow> apx_typeCode \<Rightarrow> apx_error \<times> 'v apx_vm_writeState" where
  "state_read_scalar_value D self type_code =
     (if ws_value_type self \<noteq> DTL_DV_SCALAR then (APX_VALUE_TYPE_ERROR, self)
      else state_read_scalar_value_internal D self (ws_value self) type_code)"

definition state_read_scalar_array_value ::
  "'v dtl \<Rightarrow> 'v apx_vm_writeState \<Rightarrow> int \<Rightarrow> apx_typeCode \<Rightarrow> apx_error \<times> 'v apx_vm_writeState" where
  "state_read_scalar_array_value D self index type_code =
     (if ws_value_type self \<noteq> DTL_DV_ARRAY then (APX_VALUE_TYPE_ERROR, self)
      else
        let dv = av_value D (ws_value self) index
        in if dv_type D dv \<noteq> DTL_DV_SCALAR then (APX_VALUE_TYPE_ERROR, self)
           else if dv = None then (APX_NULL_PTR_ERROR, self)
           else state_read_scalar_value_internal D self dv type_code)"

text \<open>
  \<open>state_default_range_check_scalar\<close>: the range of the type code, checked on the union member
  its width and sign select; a value read as another kind is a type error.
\<close>

definition state_default_range_check_scalar :: "'v apx_vm_writeState \<Rightarrow> apx_error" where
  "state_default_range_check_scalar self =
     (let u32_check = (\<lambda>lo hi. if ws_scalar_storage_type self = APX_VM_SCALAR_STORAGE_TYPE_UINT32
            then apx_vm_value_in_range_u32 (get32 (ws_scalar_value self)) lo hi else APX_VALUE_TYPE_ERROR);
          i32_check = (\<lambda>lo hi. if ws_scalar_storage_type self = APX_VM_SCALAR_STORAGE_TYPE_INT32
            then apx_vm_value_in_range_i32 (get32 (ws_scalar_value self)) lo hi else APX_VALUE_TYPE_ERROR)
      in case ws_type_code self of
           APX_TYPE_CODE_BOOL \<Rightarrow> APX_NO_ERROR
         | APX_TYPE_CODE_UINT8 \<Rightarrow> u32_check 0 UINT8_MAX
         | APX_TYPE_CODE_UINT16 \<Rightarrow> u32_check 0 UINT16_MAX
         | APX_TYPE_CODE_UINT32 \<Rightarrow> u32_check 0 UINT32_MAX
         | APX_TYPE_CODE_UINT64 \<Rightarrow>
             (if ws_scalar_storage_type self = APX_VM_SCALAR_STORAGE_TYPE_UINT64
              then apx_vm_value_in_range_u64 (ws_scalar_value self) 0 UINT64_MAX else APX_VALUE_TYPE_ERROR)
         | APX_TYPE_CODE_INT8 \<Rightarrow> i32_check INT8_MIN INT8_MAX
         | APX_TYPE_CODE_INT16 \<Rightarrow> i32_check INT16_MIN INT16_MAX
         | APX_TYPE_CODE_INT32 \<Rightarrow> i32_check INT32_MIN INT32_MAX
         | APX_TYPE_CODE_INT64 \<Rightarrow>
             (if ws_scalar_storage_type self = APX_VM_SCALAR_STORAGE_TYPE_INT64
              then apx_vm_value_in_range_i64 (ws_scalar_value self) INT64_MIN INT64_MAX
              else APX_VALUE_TYPE_ERROR)
         | _ \<Rightarrow> APX_VALUE_TYPE_ERROR)"

text \<open>
  The loop of \<open>state_default_range_check_value\<close> over the elements from \<open>i\<close> on, \<open>k\<close> of them left:
  a value out of range ends it, a value that cannot be read does not.
\<close>

fun default_range_check_elements ::
  "'v dtl \<Rightarrow> 'v apx_vm_writeState \<Rightarrow> nat \<Rightarrow> nat \<Rightarrow> apx_error \<Rightarrow> apx_error \<times> 'v apx_vm_writeState" where
  "default_range_check_elements D self i 0 retval = (retval, self)"
| "default_range_check_elements D self i (Suc k) retval =
     (case state_read_scalar_array_value D self (int i) (ws_type_code self) of (retval, self) \<Rightarrow>
        if retval = APX_NO_ERROR then
          (let retval = state_default_range_check_scalar self
           in if retval \<noteq> APX_NO_ERROR then (retval, self)
              else default_range_check_elements D self (Suc i) k retval)
        else if is_fault retval then (retval, self)
        else default_range_check_elements D self (Suc i) k retval)"

definition state_default_range_check_value ::
  "'v dtl \<Rightarrow> 'v apx_vm_writeState \<Rightarrow> apx_error \<times> 'v apx_vm_writeState" where
  "state_default_range_check_value D self =
     (case ws_value_type self of
        DTL_DV_SCALAR \<Rightarrow>
          andThen (state_read_scalar_value D self (ws_type_code self))
            (\<lambda>self. (state_default_range_check_scalar self, self))
      | DTL_DV_ARRAY \<Rightarrow>
          default_range_check_elements D self 0 (nat (av_length D (ws_value self))) APX_NO_ERROR
      | _ \<Rightarrow> (APX_UNSUPPORTED_ERROR, self))"

definition state_get_child_value :: "'v dtl \<Rightarrow> 'v apx_vm_writeState \<Rightarrow> byte list \<Rightarrow> 'v option" where
  "state_get_child_value D self key =
     (if ws_value_type self = DTL_DV_HASH then hv_get_cstr D (ws_value self) key else None)"

definition state_set_field_name ::
  "text_lib \<Rightarrow> 'v apx_vm_writeState \<Rightarrow> byte list \<Rightarrow> bool \<Rightarrow> apx_error \<times> 'v apx_vm_writeState" where
  "state_set_field_name T self name is_last_field =
     (case str_set_cstr T (ws_field_name self) name of (rc, s) \<Rightarrow>
        (convert_from_adt_to_apx_error rc, self\<lparr>ws_is_last_field := is_last_field, ws_field_name := s\<rparr>))"

section \<open>Buffer and queue\<close>

definition write_buffer_init :: apx_vm_writeBuffer where
  "write_buffer_init = \<lparr>wb_data = [], wb_next = None, wb_padded_next = None\<rparr>"

definition write_buffer_reset :: "byte list \<Rightarrow> apx_vm_writeBuffer" where
  "write_buffer_reset data = \<lparr>wb_data = data, wb_next = Some 0, wb_padded_next = None\<rparr>"

definition write_buffer_is_valid :: "apx_vm_writeBuffer \<Rightarrow> bool" where
  "write_buffer_is_valid self =
     (case wb_next self of None \<Rightarrow> False | Some n \<Rightarrow> n \<le> length (wb_data self))"

definition queued_write_state_init :: apx_vm_queuedWriteState where
  "queued_write_state_init = \<lparr>qw_max_length = 0, qw_current_length = 0, qw_element_size = 0,
     qw_length_ptr = None, qw_size_type = APX_SIZE_TYPE_NONE, qw_is_active = False\<rparr>"

definition queued_write_state_is_active :: "apx_vm_queuedWriteState \<Rightarrow> bool" where
  "queued_write_state_is_active self = qw_is_active self"

section \<open>The serializer object\<close>

definition apx_vm_serializer_create :: "nat \<Rightarrow> 'v apx_vm_serializer option" where
  "apx_vm_serializer_create heap =
     (case heap of
        0 \<Rightarrow> None
      | Suc free \<Rightarrow> Some \<lparr>sr_stack = [], sr_state = apx_vm_writeState_create,
          sr_buffer = write_buffer_init, sr_queue = queued_write_state_init, sr_free = free\<rparr>)"

definition apx_vm_serializer_reset :: "'v apx_vm_serializer \<Rightarrow> 'v apx_vm_serializer" where
  "apx_vm_serializer_reset self =
     self\<lparr>sr_stack := [], sr_free := sr_free self + length (sr_stack self),
       sr_state := state_clear_value (last (sr_state self # sr_stack self))\<rparr>"

definition apx_vm_serializer_set_write_buffer ::
  "'v apx_vm_serializer \<Rightarrow> byte list option \<Rightarrow> apx_error \<times> 'v apx_vm_serializer" where
  "apx_vm_serializer_set_write_buffer self data =
     (case data of
        Some (b # bs) \<Rightarrow> (APX_NO_ERROR, self\<lparr>sr_buffer := write_buffer_reset (b # bs)\<rparr>)
      | _ \<Rightarrow> (APX_INVALID_ARGUMENT_ERROR, self))"

definition apx_vm_serializer_bytes_written :: "'v apx_vm_serializer \<Rightarrow> nat" where
  "apx_vm_serializer_bytes_written self =
     (case wb_next (sr_buffer self) of None \<Rightarrow> 0 | Some n \<Rightarrow> n)"

text \<open>A function on the current write state, and one on the read-write position of the buffer.\<close>

definition on_state ::
  "('v apx_vm_writeState \<Rightarrow> apx_error \<times> 'v apx_vm_writeState) \<Rightarrow>
     'v apx_vm_serializer \<Rightarrow> apx_error \<times> 'v apx_vm_serializer" where
  "on_state f self = (case f (sr_state self) of (e, s) \<Rightarrow> (e, self\<lparr>sr_state := s\<rparr>))"

definition at_next ::
  "(nat \<Rightarrow> apx_error \<times> 'v apx_vm_serializer) \<Rightarrow> 'v apx_vm_serializer \<Rightarrow>
     apx_error \<times> 'v apx_vm_serializer" where
  "at_next f self = (case wb_next (sr_buffer self) of
     None \<Rightarrow> (FAULT OUT_OF_BOUNDS, self) | Some n \<Rightarrow> f n)"

definition set_next :: "nat \<Rightarrow> 'v apx_vm_serializer \<Rightarrow> 'v apx_vm_serializer" where
  "set_next n self = self\<lparr>sr_buffer := (sr_buffer self)\<lparr>wb_next := Some n\<rparr>\<rparr>"

definition write_bytes ::
  "nat \<Rightarrow> byte list \<Rightarrow> 'v apx_vm_serializer \<Rightarrow> apx_error \<times> 'v apx_vm_serializer" where
  "write_bytes n bs self =
     (case mem_write n bs (wb_data (sr_buffer self)) of
        None \<Rightarrow> (FAULT OUT_OF_BOUNDS, self)
      | Some d \<Rightarrow> (APX_NO_ERROR, self\<lparr>sr_buffer := (sr_buffer self)\<lparr>wb_data := d\<rparr>\<rparr>))"

definition apx_vm_serializer_set_value_dv ::
  "'v lib \<Rightarrow> 'v apx_vm_serializer \<Rightarrow> 'v option \<Rightarrow> apx_error \<times> 'v apx_vm_serializer" where
  "apx_vm_serializer_set_value_dv L self dv =
     (APX_NO_ERROR, self\<lparr>sr_state := state_set_value (lib_d L) (sr_state self) dv\<rparr>)"

definition serializer_enter_new_child_state :: "'v apx_vm_serializer \<Rightarrow> apx_error \<times> 'v apx_vm_serializer" where
  "serializer_enter_new_child_state self =
     (case sr_free self of
        0 \<Rightarrow> (APX_MEM_ERROR, self)
      | Suc free \<Rightarrow> (APX_NO_ERROR, self\<lparr>sr_stack := sr_state self # sr_stack self,
          sr_state := apx_vm_writeState_create, sr_free := free\<rparr>))"

text \<open>
  \<open>serializer_pop_state\<close>: the finished state is deleted and its parent becomes the current one,
  and so on as long as the parent was at its last field.
\<close>

fun pop_states ::
  "'v apx_vm_writeState list \<Rightarrow> 'v apx_vm_writeState \<Rightarrow> nat \<Rightarrow>
     'v apx_vm_writeState list \<times> 'v apx_vm_writeState \<times> nat" where
  "pop_states [] st free = ([], st, free)"
| "pop_states (p # ps) st free =
     (if \<not> ws_is_last_field p then (ps, p, Suc free) else pop_states ps p (Suc free))"

definition serializer_pop_state :: "'v apx_vm_serializer \<Rightarrow> 'v apx_vm_serializer" where
  "serializer_pop_state self =
     (case pop_states (sr_stack self) (sr_state self) (sr_free self) of
        (ps, st, free) \<Rightarrow> self\<lparr>sr_stack := ps, sr_state := st, sr_free := free\<rparr>)"

section \<open>Writing\<close>

text \<open>
  \<open>write_dynamic_value_to_buffer begin end\<close>: the pointer comparison \<open>begin + value_size \<le> end\<close> is
  made on the offset \<open>end\<close> the caller gives; the store itself on the buffer.
\<close>

definition write_dynamic_value_to_buffer ::
  "cutil \<Rightarrow> nat \<Rightarrow> nat \<Rightarrow> u32 \<Rightarrow> nat \<Rightarrow> 'v apx_vm_serializer \<Rightarrow> apx_error \<times> 'v apx_vm_serializer" where
  "write_dynamic_value_to_buffer C begin end' value value_size self =
     (if value_size = UINT8_SIZE \<and> value > UINT8_MAX then (APX_LENGTH_ERROR, self)
      else if value_size = UINT16_SIZE \<and> value > UINT16_MAX then (APX_LENGTH_ERROR, self)
      else if value_size \<notin> {UINT8_SIZE, UINT16_SIZE, UINT32_SIZE} then (APX_INTERNAL_ERROR, self)
      else if begin + value_size \<le> end' then write_bytes begin (packLE C value value_size) self
      else (APX_BUFFER_FULL_ERROR, self))"

definition serializer_write_dynamic_value_to_buffer ::
  "cutil \<Rightarrow> u32 \<Rightarrow> nat \<Rightarrow> 'v apx_vm_serializer \<Rightarrow> apx_error \<times> 'v apx_vm_serializer" where
  "serializer_write_dynamic_value_to_buffer C value value_size self =
     at_next (\<lambda>n. andThen
       (write_dynamic_value_to_buffer C n (length (wb_data (sr_buffer self))) value value_size self)
       (\<lambda>self. (APX_NO_ERROR, set_next (n + value_size) self))) self"

text \<open>
  The bytes of a scalar: the assertions of each case of \<open>serializer_pack_scalar_value_internal\<close> and the
  packed value; an unsupported type code is an error.
\<close>

definition scalar_bytes :: "cutil \<Rightarrow> 'v apx_vm_writeState \<Rightarrow> apx_error \<times> byte list" where
  "scalar_bytes C self =
     (let size = unat (ws_element_size self);
          pack = (\<lambda>storage expected bytes.
            if ws_scalar_storage_type self = storage \<and> size = expected then (APX_NO_ERROR, bytes)
            else (FAULT ASSERT_FAILURE, []));
          x32 = packLE C (get32 (ws_scalar_value self)) size;
          x64 = packLE64 C (ws_scalar_value self) size
      in case ws_type_code self of
           APX_TYPE_CODE_UINT8 \<Rightarrow> pack APX_VM_SCALAR_STORAGE_TYPE_UINT32 UINT8_SIZE x32
         | APX_TYPE_CODE_UINT16 \<Rightarrow> pack APX_VM_SCALAR_STORAGE_TYPE_UINT32 UINT16_SIZE x32
         | APX_TYPE_CODE_UINT32 \<Rightarrow> pack APX_VM_SCALAR_STORAGE_TYPE_UINT32 UINT32_SIZE x32
         | APX_TYPE_CODE_UINT64 \<Rightarrow> pack APX_VM_SCALAR_STORAGE_TYPE_UINT64 UINT64_SIZE x64
         | APX_TYPE_CODE_INT8 \<Rightarrow> pack APX_VM_SCALAR_STORAGE_TYPE_INT32 UINT8_SIZE x32
         | APX_TYPE_CODE_INT16 \<Rightarrow> pack APX_VM_SCALAR_STORAGE_TYPE_INT32 UINT16_SIZE x32
         | APX_TYPE_CODE_INT32 \<Rightarrow> pack APX_VM_SCALAR_STORAGE_TYPE_INT32 UINT32_SIZE x32
         | APX_TYPE_CODE_INT64 \<Rightarrow> pack APX_VM_SCALAR_STORAGE_TYPE_INT64 UINT64_SIZE x64
         | APX_TYPE_CODE_BOOL \<Rightarrow> pack APX_VM_SCALAR_STORAGE_TYPE_BOOL UINT8_SIZE
             (packLE64 C (if get_bool (ws_scalar_value self) then 1 else 0) size)
         | _ \<Rightarrow> (APX_UNSUPPORTED_ERROR, []))"

definition serializer_pack_scalar_value_internal ::
  "cutil \<Rightarrow> 'v apx_vm_serializer \<Rightarrow> apx_error \<times> 'v apx_vm_serializer" where
  "serializer_pack_scalar_value_internal C self =
     at_next (\<lambda>n.
       let size = unat (ws_element_size (sr_state self))
       in if n + size \<le> length (wb_data (sr_buffer self)) then
            (case scalar_bytes C (sr_state self) of (e, bs) \<Rightarrow>
               if is_fault e then (e, self)
               else if e = APX_NO_ERROR then
                 andThen (write_bytes n bs self) (\<lambda>self. (APX_NO_ERROR, set_next (n + size) self))
               else (e, set_next (n + size) self))
          else (APX_BUFFER_BOUNDARY_ERROR, self)) self"

definition serializer_pack_scalar_value ::
  "'v lib \<Rightarrow> 'v apx_vm_serializer \<Rightarrow> apx_error \<times> 'v apx_vm_serializer" where
  "serializer_pack_scalar_value L self =
     (if ws_value_type (sr_state self) \<noteq> DTL_DV_SCALAR then (APX_VALUE_TYPE_ERROR, self)
      else c_assert (ws_value (sr_state self) \<noteq> None)
        (andThen
          (case ws_range_check_state (sr_state self) of
             APX_RANGE_CHECK_STATE_NOT_CHECKED \<Rightarrow> on_state (state_default_range_check_value (lib_d L)) self
           | APX_RANGE_CHECK_STATE_FAIL \<Rightarrow> (APX_VALUE_RANGE_ERROR, self)
           | APX_RANGE_CHECK_STATE_OK \<Rightarrow> (APX_NO_ERROR, self))
          (serializer_pack_scalar_value_internal (lib_c L)))
        self)"

definition serializer_pack_record_value ::
  "'v lib \<Rightarrow> 'v apx_vm_serializer \<Rightarrow> apx_error \<times> 'v apx_vm_serializer" where
  "serializer_pack_record_value L self =
     andThen
       (let st = sr_state self; expected_array_len = ws_array_len st
        in if expected_array_len > 0 then
             (if ws_value_type st = DTL_DV_ARRAY then
                (if ws_dynamic_size_type st = APX_SIZE_TYPE_NONE \<and>
                    expected_array_len \<noteq> word_of_int (av_length (lib_d L) (ws_value st))
                 then (APX_VALUE_LENGTH_ERROR, self)
                 else c_assert (ws_index st = 0)
                   (case av_value (lib_d L) (ws_value st) (sint (ws_index st)) of
                      None \<Rightarrow> (APX_NULL_PTR_ERROR, self)
                    | Some child_value \<Rightarrow>
                        andThen (serializer_enter_new_child_state self) (\<lambda>self.
                          (APX_NO_ERROR, self\<lparr>sr_state :=
                             state_set_value (lib_d L) (sr_state self) (Some child_value)\<rparr>)))
                   self)
              else (APX_VALUE_TYPE_ERROR, self))
           else (APX_NO_ERROR, self))
       (\<lambda>self. if ws_value_type (sr_state self) \<noteq> DTL_DV_HASH then (APX_VALUE_TYPE_ERROR, self)
               else (APX_NO_ERROR, self))"

text \<open>The loop over the elements of an array of scalars: from \<open>i\<close> on, \<open>k\<close> left.\<close>

fun pack_scalar_elements ::
  "'v lib \<Rightarrow> nat \<Rightarrow> nat \<Rightarrow> 'v apx_vm_serializer \<Rightarrow> apx_error \<times> 'v apx_vm_serializer" where
  "pack_scalar_elements L i 0 self = (APX_NO_ERROR, self)"
| "pack_scalar_elements L i (Suc k) self =
     andThen (on_state (\<lambda>st. state_read_scalar_array_value (lib_d L) st
         (sint (word_of_nat i :: u32)) (ws_type_code st)) self)
       (\<lambda>self. andThen (serializer_pack_scalar_value_internal (lib_c L) self)
         (pack_scalar_elements L (Suc i) k))"

definition serializer_pack_array_of_scalar ::
  "'v lib \<Rightarrow> 'v apx_vm_serializer \<Rightarrow> apx_error \<times> 'v apx_vm_serializer" where
  "serializer_pack_array_of_scalar L self =
     (let st = sr_state self
      in if ws_value_type st \<noteq> DTL_DV_ARRAY then (APX_VALUE_TYPE_ERROR, self)
         else c_assert (ws_value st \<noteq> None)
           (let value_length = (word_of_int (av_length (lib_d L) (ws_value st)) :: u32)
            in if ws_dynamic_size_type st = APX_SIZE_TYPE_NONE \<and> value_length \<noteq> ws_array_len st
               then (APX_VALUE_LENGTH_ERROR, self)
               else andThen
                 (case ws_range_check_state st of
                    APX_RANGE_CHECK_STATE_NOT_CHECKED \<Rightarrow>
                      on_state (state_default_range_check_value (lib_d L)) self
                  | APX_RANGE_CHECK_STATE_FAIL \<Rightarrow> (APX_VALUE_RANGE_ERROR, self)
                  | APX_RANGE_CHECK_STATE_OK \<Rightarrow> (APX_NO_ERROR, self))
                 (pack_scalar_elements L 0 (unat value_length)))
           self)"

definition serializer_pack_char_string ::
  "byte list \<Rightarrow> u32 \<Rightarrow> nat \<Rightarrow> 'v apx_vm_serializer \<Rightarrow> apx_error \<times> 'v apx_vm_serializer" where
  "serializer_pack_char_string str max_target_size n self =
     (let required_string_size = (word_of_nat (length str) :: u32)
      in if required_string_size > max_target_size then (APX_BUFFER_BOUNDARY_ERROR, self)
         else write_bytes n (take (unat required_string_size) str) self)"

definition serializer_pack_string ::
  "'v lib \<Rightarrow> 'v apx_vm_serializer \<Rightarrow> apx_error \<times> 'v apx_vm_serializer" where
  "serializer_pack_string L self =
     (let st = sr_state self
      in if ws_value_type st \<noteq> DTL_DV_SCALAR then (APX_VALUE_TYPE_ERROR, self)
         else case sv_to_str (lib_d L) (ws_value st) of (value, ok) \<Rightarrow>
           if \<not> ok then (APX_VALUE_CONVERSION_ERROR, self)
           else at_next (\<lambda>n.
             let target_string_size = ws_element_size st * ws_array_len st; target = unat target_string_size
             in if n + target \<le> length (wb_data (sr_buffer self)) then
                  andThen (write_bytes n (replicate target 0) self) (\<lambda>self.
                    andThen
                      (if ws_type_code st = APX_TYPE_CODE_CHAR \<or> ws_type_code st = APX_TYPE_CODE_CHAR8
                       then serializer_pack_char_string value target_string_size n self
                       else (APX_NOT_IMPLEMENTED_ERROR, self))
                      (\<lambda>self. (APX_NO_ERROR, set_next (n + target) self)))
                else (APX_BUFFER_BOUNDARY_ERROR, self)) self)"

definition serializer_pack_byte_array_internal ::
  "'v lib \<Rightarrow> 'v apx_vm_serializer \<Rightarrow> apx_error \<times> 'v apx_vm_serializer" where
  "serializer_pack_byte_array_internal L self =
     (let st = sr_state self
      in if ws_value_type st \<noteq> DTL_DV_SCALAR \<or> sv_type (lib_d L) (ws_value st) \<noteq> DTL_SV_BYTEARRAY
         then (APX_VALUE_TYPE_ERROR, self)
         else case sv_get_bytearray (lib_d L) (ws_value st) of
           None \<Rightarrow> (FAULT ASSERT_FAILURE, self)
         | Some byte_array \<Rightarrow>
             let array_len = ws_array_len st
             in if ws_dynamic_size_type st = APX_SIZE_TYPE_NONE \<and> array_len > 0 \<and>
                   array_len \<noteq> word_of_nat (length byte_array)
                then (APX_VALUE_LENGTH_ERROR, self)
                else at_next (\<lambda>n.
                  if n + unat array_len \<le> length (wb_data (sr_buffer self)) then
                    (case mem_read 0 (unat array_len) byte_array of
                       None \<Rightarrow> (FAULT OUT_OF_BOUNDS, self)
                     | Some bs \<Rightarrow> andThen (write_bytes n bs self)
                         (\<lambda>self. (APX_NO_ERROR, set_next (n + unat array_len) self)))
                  else (APX_BUFFER_BOUNDARY_ERROR, self)) self)"

section \<open>The pack operations\<close>

definition serializer_prepare_for_buffer_write ::
  "'v apx_vm_serializer \<Rightarrow> apx_typeCode \<Rightarrow> u32 \<Rightarrow> apx_error \<times> 'v apx_vm_serializer" where
  "serializer_prepare_for_buffer_write self type_code element_size =
     (if \<not> write_buffer_is_valid (sr_buffer self) then (APX_MISSING_BUFFER_ERROR, self)
      else andThen
        (case wb_padded_next (sr_buffer self) of
           None \<Rightarrow> (APX_NO_ERROR, self)
         | Some p \<Rightarrow>
             if p > length (wb_data (sr_buffer self)) then (APX_BUFFER_BOUNDARY_ERROR, self)
             else (APX_NO_ERROR, self\<lparr>sr_buffer :=
               (sr_buffer self)\<lparr>wb_next := Some p, wb_padded_next := None\<rparr>\<rparr>))
        (\<lambda>self. (APX_NO_ERROR, self\<lparr>sr_state :=
           (sr_state self)\<lparr>ws_type_code := type_code, ws_element_size := element_size\<rparr>\<rparr>)))"

definition serializer_prepare_for_array ::
  "'v lib \<Rightarrow> 'v apx_vm_serializer \<Rightarrow> u32 \<Rightarrow> apx_sizeType \<Rightarrow> apx_error \<times> 'v apx_vm_serializer" where
  "serializer_prepare_for_array L self array_length dynamic_size_type =
     (if array_length > 0 then
        (if dynamic_size_type \<noteq> APX_SIZE_TYPE_NONE then
           (let length_size = apx_vm_size_type_to_size dynamic_size_type
            in andThen
              (on_state (\<lambda>st. state_determine_array_length_from_value (lib_d L)
                 (st\<lparr>ws_max_array_len := array_length\<rparr>)) self)
              (\<lambda>self. if ws_array_len (sr_state self) > ws_max_array_len (sr_state self)
                 then (APX_VALUE_LENGTH_ERROR, self)
                 else
                   let self = self\<lparr>sr_state := (sr_state self)\<lparr>ws_dynamic_size_type := dynamic_size_type\<rparr>\<rparr>
                   in c_assert (ws_element_size (sr_state self) \<noteq> 0)
                     (at_next (\<lambda>n.
                        let padded = n + length_size +
                              unat (ws_max_array_len (sr_state self) * ws_element_size (sr_state self));
                            self = self\<lparr>sr_buffer := (sr_buffer self)\<lparr>wb_padded_next := Some padded\<rparr>\<rparr>
                        in if padded > length (wb_data (sr_buffer self))
                           then (APX_BUFFER_BOUNDARY_ERROR, self) else (APX_NO_ERROR, self)) self)
                     self))
         else (APX_NO_ERROR, self\<lparr>sr_state := (sr_state self)\<lparr>ws_array_len := array_length\<rparr>\<rparr>))
      else (APX_NO_ERROR, self))"

text \<open>
  \<open>serializer_pack_value\<close>: the empty array, the scalar and the record of the branch
  \<open>array_len = 0\<close>, and the arrays of the other one. Records leave their state on the stack.
\<close>

definition pack_without_elements ::
  "'v lib \<Rightarrow> 'v apx_vm_serializer \<Rightarrow> apx_error \<times> 'v apx_vm_serializer" where
  "pack_without_elements L self =
     (let st = sr_state self
      in if ws_dynamic_size_type st \<noteq> APX_SIZE_TYPE_NONE then
           serializer_write_dynamic_value_to_buffer (lib_c L) (ws_array_len st)
             (apx_vm_size_type_to_size (ws_dynamic_size_type st)) self
         else if state_is_num_or_bool_type st then serializer_pack_scalar_value L self
         else if state_is_record_type st then serializer_pack_record_value L self
         else (APX_NOT_IMPLEMENTED_ERROR, self))"

definition pack_elements ::
  "'v lib \<Rightarrow> 'v apx_vm_serializer \<Rightarrow> apx_error \<times> 'v apx_vm_serializer" where
  "pack_elements L self =
     (let st = sr_state self
      in andThen
        (if ws_dynamic_size_type st \<noteq> APX_SIZE_TYPE_NONE then
           serializer_write_dynamic_value_to_buffer (lib_c L) (ws_array_len st)
             (apx_vm_size_type_to_size (ws_dynamic_size_type st)) self
         else (APX_NO_ERROR, self))
        (\<lambda>self.
           if state_is_num_or_bool_type st then serializer_pack_array_of_scalar L self
           else if state_is_char_type st then serializer_pack_string L self
           else if state_is_bytes_type st then serializer_pack_byte_array_internal L self
           else if state_is_record_type st then serializer_pack_record_value L self
           else (APX_NOT_IMPLEMENTED_ERROR, self)))"

definition serializer_pack_value :: "'v lib \<Rightarrow> 'v apx_vm_serializer \<Rightarrow> apx_error \<times> 'v apx_vm_serializer" where
  "serializer_pack_value L self =
     (if queued_write_state_is_active (sr_queue self) \<and>
         qw_current_length (sr_queue self) \<ge> qw_max_length (sr_queue self)
      then (APX_QUEUE_FULL_ERROR, self)
      else
        let st = sr_state self;
            do_pop_state = \<not> (state_is_record_type st \<and>
              (ws_array_len st = 0 \<longrightarrow> ws_dynamic_size_type st = APX_SIZE_TYPE_NONE))
        in andThen
          (if ws_array_len st = 0 then pack_without_elements L self else pack_elements L self)
          (\<lambda>self.
             let self = (if queued_write_state_is_active (sr_queue self)
                   then self\<lparr>sr_queue := (sr_queue self)
                     \<lparr>qw_current_length := qw_current_length (sr_queue self) + 1\<rparr>\<rparr>
                   else self)
             in (APX_NO_ERROR, if do_pop_state then serializer_pop_state self else self)))"

text \<open>The body that the pack functions share, with the type code and size each passes.\<close>

definition pack_as ::
  "'v lib \<Rightarrow> apx_typeCode \<Rightarrow> nat \<Rightarrow> 'v apx_vm_serializer \<Rightarrow> u32 \<Rightarrow> apx_sizeType \<Rightarrow>
     apx_error \<times> 'v apx_vm_serializer" where
  "pack_as L type_code element_size self array_length dynamic_size_type =
     andThen (serializer_prepare_for_buffer_write self type_code (word_of_nat element_size)) (\<lambda>self.
     andThen (serializer_prepare_for_array L self array_length dynamic_size_type) (\<lambda>self.
     serializer_pack_value L self))"

definition apx_vm_serializer_pack_uint8 ::
  "'v lib \<Rightarrow> 'v apx_vm_serializer \<Rightarrow> u32 \<Rightarrow> apx_sizeType \<Rightarrow> apx_error \<times> 'v apx_vm_serializer" where
  "apx_vm_serializer_pack_uint8 L = pack_as L APX_TYPE_CODE_UINT8 UINT8_SIZE"

definition apx_vm_serializer_pack_uint16 ::
  "'v lib \<Rightarrow> 'v apx_vm_serializer \<Rightarrow> u32 \<Rightarrow> apx_sizeType \<Rightarrow> apx_error \<times> 'v apx_vm_serializer" where
  "apx_vm_serializer_pack_uint16 L = pack_as L APX_TYPE_CODE_UINT16 UINT16_SIZE"

definition apx_vm_serializer_pack_uint32 ::
  "'v lib \<Rightarrow> 'v apx_vm_serializer \<Rightarrow> u32 \<Rightarrow> apx_sizeType \<Rightarrow> apx_error \<times> 'v apx_vm_serializer" where
  "apx_vm_serializer_pack_uint32 L = pack_as L APX_TYPE_CODE_UINT32 UINT32_SIZE"

definition apx_vm_serializer_pack_uint64 ::
  "'v lib \<Rightarrow> 'v apx_vm_serializer \<Rightarrow> u32 \<Rightarrow> apx_sizeType \<Rightarrow> apx_error \<times> 'v apx_vm_serializer" where
  "apx_vm_serializer_pack_uint64 L = pack_as L APX_TYPE_CODE_UINT64 UINT64_SIZE"

definition apx_vm_serializer_pack_int8 ::
  "'v lib \<Rightarrow> 'v apx_vm_serializer \<Rightarrow> u32 \<Rightarrow> apx_sizeType \<Rightarrow> apx_error \<times> 'v apx_vm_serializer" where
  "apx_vm_serializer_pack_int8 L = pack_as L APX_TYPE_CODE_INT8 UINT8_SIZE"

definition apx_vm_serializer_pack_int16 ::
  "'v lib \<Rightarrow> 'v apx_vm_serializer \<Rightarrow> u32 \<Rightarrow> apx_sizeType \<Rightarrow> apx_error \<times> 'v apx_vm_serializer" where
  "apx_vm_serializer_pack_int16 L = pack_as L APX_TYPE_CODE_INT16 UINT16_SIZE"

definition apx_vm_serializer_pack_int32 ::
  "'v lib \<Rightarrow> 'v apx_vm_serializer \<Rightarrow> u32 \<Rightarrow> apx_sizeType \<Rightarrow> apx_error \<times> 'v apx_vm_serializer" where
  "apx_vm_serializer_pack_int32 L = pack_as L APX_TYPE_CODE_INT32 UINT32_SIZE"

definition apx_vm_serializer_pack_int64 ::
  "'v lib \<Rightarrow> 'v apx_vm_serializer \<Rightarrow> u32 \<Rightarrow> apx_sizeType \<Rightarrow> apx_error \<times> 'v apx_vm_serializer" where
  "apx_vm_serializer_pack_int64 L = pack_as L APX_TYPE_CODE_INT64 UINT64_SIZE"

definition apx_vm_serializer_pack_char ::
  "'v lib \<Rightarrow> 'v apx_vm_serializer \<Rightarrow> u32 \<Rightarrow> apx_sizeType \<Rightarrow> apx_error \<times> 'v apx_vm_serializer" where
  "apx_vm_serializer_pack_char L = pack_as L APX_TYPE_CODE_CHAR UINT8_SIZE"

definition apx_vm_serializer_pack_char8 ::
  "'v lib \<Rightarrow> 'v apx_vm_serializer \<Rightarrow> u32 \<Rightarrow> apx_sizeType \<Rightarrow> apx_error \<times> 'v apx_vm_serializer" where
  "apx_vm_serializer_pack_char8 L = pack_as L APX_TYPE_CODE_CHAR8 UINT8_SIZE"

definition apx_vm_serializer_pack_bool ::
  "'v lib \<Rightarrow> 'v apx_vm_serializer \<Rightarrow> u32 \<Rightarrow> apx_sizeType \<Rightarrow> apx_error \<times> 'v apx_vm_serializer" where
  "apx_vm_serializer_pack_bool L = pack_as L APX_TYPE_CODE_BOOL UINT8_SIZE"

definition apx_vm_serializer_pack_byte ::
  "'v lib \<Rightarrow> 'v apx_vm_serializer \<Rightarrow> u32 \<Rightarrow> apx_sizeType \<Rightarrow> apx_error \<times> 'v apx_vm_serializer" where
  "apx_vm_serializer_pack_byte L self array_length =
     pack_as L APX_TYPE_CODE_BYTE UINT8_SIZE self (if array_length = 0 then 1 else array_length)"

definition apx_vm_serializer_pack_record ::
  "'v lib \<Rightarrow> 'v apx_vm_serializer \<Rightarrow> u32 \<Rightarrow> apx_sizeType \<Rightarrow> apx_error \<times> 'v apx_vm_serializer" where
  "apx_vm_serializer_pack_record L = pack_as L APX_TYPE_CODE_RECORD 0"

section \<open>Records, arrays of records and range checks\<close>

text \<open>
  The results of \<open>state_set_field_name\<close> and \<open>serializer_enter_new_child_state\<close> are not looked at.
\<close>

definition apx_vm_serializer_record_select ::
  "'v lib \<Rightarrow> 'v apx_vm_serializer \<Rightarrow> byte list \<Rightarrow> bool \<Rightarrow> apx_error \<times> 'v apx_vm_serializer" where
  "apx_vm_serializer_record_select L self key is_last_field =
     (if ws_value_type (sr_state self) = DTL_DV_HASH then
        (case state_get_child_value (lib_d L) (sr_state self) key of
           None \<Rightarrow> (APX_NOT_FOUND_ERROR, self)
         | Some child_value \<Rightarrow>
             let self = snd (on_state (\<lambda>st. state_set_field_name (lib_t L) st key is_last_field) self);
                 self = snd (serializer_enter_new_child_state self)
             in (APX_NO_ERROR, self\<lparr>sr_state :=
                   state_set_value (lib_d L) (sr_state self) (Some child_value)\<rparr>))
      else (APX_VALUE_TYPE_ERROR, self))"

text \<open>
  The four range check functions differ in the type code they read, the storage they expect and
  the check: \<open>check_value_range\<close> is their common text.
\<close>

definition checked ::
  "scalar_storage_type \<Rightarrow> (u64 \<Rightarrow> apx_error) \<Rightarrow> 'v apx_vm_writeState \<Rightarrow> apx_error" where
  "checked storage in_range st =
     (if ws_scalar_storage_type st = storage then in_range (ws_scalar_value st) else FAULT ASSERT_FAILURE)"

fun check_range_elements ::
  "'v dtl \<Rightarrow> apx_typeCode \<Rightarrow> scalar_storage_type \<Rightarrow> (u64 \<Rightarrow> apx_error) \<Rightarrow> nat \<Rightarrow> nat \<Rightarrow>
     'v apx_vm_writeState \<Rightarrow> apx_error \<times> 'v apx_vm_writeState" where
  "check_range_elements D tc storage in_range i 0 st = (APX_NO_ERROR, st)"
| "check_range_elements D tc storage in_range i (Suc k) st =
     (case state_read_scalar_array_value D st (sint (word_of_nat i :: u32)) tc of (retval, st) \<Rightarrow>
        let retval = (if retval = APX_NO_ERROR then checked storage in_range st else retval)
        in if retval \<noteq> APX_NO_ERROR
           then (retval, st\<lparr>ws_range_check_state := APX_RANGE_CHECK_STATE_FAIL\<rparr>)
           else check_range_elements D tc storage in_range (Suc i) k st)"

definition check_value_range ::
  "'v dtl \<Rightarrow> apx_typeCode \<Rightarrow> scalar_storage_type \<Rightarrow> (u64 \<Rightarrow> apx_error) \<Rightarrow>
     'v apx_vm_writeState \<Rightarrow> apx_error \<times> 'v apx_vm_writeState" where
  "check_value_range D tc storage in_range st =
     (if ws_value_type st = DTL_DV_SCALAR then
        (case state_read_scalar_value D st tc of (retval, st) \<Rightarrow>
           let retval = (if retval = APX_NO_ERROR then checked storage in_range st else retval)
           in (retval, st\<lparr>ws_range_check_state :=
                (if retval = APX_NO_ERROR then APX_RANGE_CHECK_STATE_OK else APX_RANGE_CHECK_STATE_FAIL)\<rparr>))
      else if ws_value_type st = DTL_DV_ARRAY then
        check_range_elements D tc storage in_range 0
          (unat (word_of_int (av_length D (ws_value st)) :: u32))
          (st\<lparr>ws_range_check_state := APX_RANGE_CHECK_STATE_OK\<rparr>)
      else (APX_UNSUPPORTED_ERROR, st))"

definition apx_vm_serializer_check_value_range_int32 ::
  "'v lib \<Rightarrow> 'v apx_vm_serializer \<Rightarrow> u32 \<Rightarrow> u32 \<Rightarrow> apx_error \<times> 'v apx_vm_serializer" where
  "apx_vm_serializer_check_value_range_int32 L self lower_limit upper_limit =
     on_state (check_value_range (lib_d L) APX_TYPE_CODE_INT32 APX_VM_SCALAR_STORAGE_TYPE_INT32
       (\<lambda>u. apx_vm_value_in_range_i32 (get32 u) lower_limit upper_limit)) self"

definition apx_vm_serializer_check_value_range_uint32 ::
  "'v lib \<Rightarrow> 'v apx_vm_serializer \<Rightarrow> u32 \<Rightarrow> u32 \<Rightarrow> apx_error \<times> 'v apx_vm_serializer" where
  "apx_vm_serializer_check_value_range_uint32 L self lower_limit upper_limit =
     on_state (check_value_range (lib_d L) APX_TYPE_CODE_UINT32 APX_VM_SCALAR_STORAGE_TYPE_UINT32
       (\<lambda>u. apx_vm_value_in_range_u32 (get32 u) lower_limit upper_limit)) self"

definition apx_vm_serializer_check_value_range_int64 ::
  "'v lib \<Rightarrow> 'v apx_vm_serializer \<Rightarrow> u64 \<Rightarrow> u64 \<Rightarrow> apx_error \<times> 'v apx_vm_serializer" where
  "apx_vm_serializer_check_value_range_int64 L self lower_limit upper_limit =
     on_state (check_value_range (lib_d L) APX_TYPE_CODE_INT64 APX_VM_SCALAR_STORAGE_TYPE_INT64
       (\<lambda>u. apx_vm_value_in_range_i64 u lower_limit upper_limit)) self"

definition apx_vm_serializer_check_value_range_uint64 ::
  "'v lib \<Rightarrow> 'v apx_vm_serializer \<Rightarrow> u64 \<Rightarrow> u64 \<Rightarrow> apx_error \<times> 'v apx_vm_serializer" where
  "apx_vm_serializer_check_value_range_uint64 L self lower_limit upper_limit =
     on_state (check_value_range (lib_d L) APX_TYPE_CODE_UINT64 APX_VM_SCALAR_STORAGE_TYPE_UINT64
       (\<lambda>u. apx_vm_value_in_range_u64 u lower_limit upper_limit)) self"

definition apx_vm_serializer_array_next ::
  "'v lib \<Rightarrow> 'v apx_vm_serializer \<Rightarrow> apx_error \<times> bool \<times> 'v apx_vm_serializer" where
  "apx_vm_serializer_array_next L self =
     (let st = sr_state self
      in if ws_value_type st \<noteq> DTL_DV_ARRAY then (APX_VALUE_TYPE_ERROR, False, self)
         else if \<not> ws_array_len st > 0 then (APX_INTERNAL_ERROR, False, self)
         else
           let index = ws_index st + 1; self = self\<lparr>sr_state := st\<lparr>ws_index := index\<rparr>\<rparr>
           in if index = ws_array_len st then (APX_NO_ERROR, True, self)
              else if ws_type_code st \<noteq> APX_TYPE_CODE_RECORD then (APX_NOT_IMPLEMENTED_ERROR, False, self)
              else case av_value (lib_d L) (ws_value st) (sint index) of
                None \<Rightarrow> (APX_NULL_PTR_ERROR, False, self)
              | Some child_value \<Rightarrow>
                  let self = snd (serializer_enter_new_child_state self)
                  in (APX_NO_ERROR, False, self\<lparr>sr_state :=
                        state_set_value (lib_d L) (sr_state self) (Some child_value)\<rparr>))"

section \<open>Queues\<close>

text \<open>
  \<open>read_dynamic_value_from_buffer\<close> as it is: there is no return of success, so after the read it
  falls through to the error. Its end pointer is computed by the caller as \<open>begin + value_size\<close>.
\<close>

definition read_dynamic_value_from_buffer ::
  "cutil \<Rightarrow> byte list \<Rightarrow> nat option \<Rightarrow> nat \<Rightarrow> nat \<Rightarrow> apx_error \<times> u32 option" where
  "read_dynamic_value_from_buffer C data begin end' value_size =
     (case begin of
        None \<Rightarrow> (APX_INVALID_ARGUMENT_ERROR, None)
      | Some n \<Rightarrow>
          if value_size \<le> UINT32_SIZE then
            (if n + value_size \<le> end' then
               (case mem_read n value_size data of
                  None \<Rightarrow> (FAULT OUT_OF_BOUNDS, None)
                | Some bs \<Rightarrow> (APX_INVALID_ARGUMENT_ERROR, Some (unpackLE C bs value_size)))
             else (APX_BUFFER_BOUNDARY_ERROR, None))
          else (APX_INVALID_ARGUMENT_ERROR, None))"

definition apx_vm_serializer_queued_write_begin ::
  "'v lib \<Rightarrow> 'v apx_vm_serializer \<Rightarrow> u32 \<Rightarrow> u32 \<Rightarrow> bool \<Rightarrow> apx_error \<times> 'v apx_vm_serializer" where
  "apx_vm_serializer_queued_write_begin L self element_size max_length clear_queue =
     (let next = wb_next (sr_buffer self);
          self = self\<lparr>sr_queue := (sr_queue self)\<lparr>qw_element_size := element_size, qw_length_ptr := next,
            qw_max_length := max_length, qw_is_active := True,
            qw_size_type := apx_vm_size_to_size_type max_length\<rparr>\<rparr>;
          value_size = apx_vm_size_type_to_size (qw_size_type (sr_queue self))
      in andThen
        (if clear_queue then
           (APX_NO_ERROR, self\<lparr>sr_queue := (sr_queue self)\<lparr>qw_current_length := 0\<rparr>\<rparr>)
         else
           case read_dynamic_value_from_buffer (lib_c L) (wb_data (sr_buffer self)) next
               (the_default 0 next + value_size) value_size of
             (result, tmp) \<Rightarrow>
               if result \<noteq> APX_NO_ERROR then (result, self)
               else (APX_NO_ERROR, self\<lparr>sr_queue := (sr_queue self)
                 \<lparr>qw_current_length := the_default 0 tmp\<rparr>\<rparr>))
        (\<lambda>self. at_next (\<lambda>n. (APX_NO_ERROR, set_next (n + value_size) self)) self))"

definition apx_vm_serializer_queued_write_end ::
  "'v lib \<Rightarrow> 'v apx_vm_serializer \<Rightarrow> apx_error \<times> 'v apx_vm_serializer" where
  "apx_vm_serializer_queued_write_end L self =
     (if \<not> qw_is_active (sr_queue self) then (APX_INTERNAL_ERROR, self)
      else
        let self = self\<lparr>sr_queue := (sr_queue self)\<lparr>qw_is_active := False\<rparr>\<rparr>;
            value_size = apx_vm_size_type_to_size (qw_size_type (sr_queue self))
        in case qw_length_ptr (sr_queue self) of
             None \<Rightarrow> (FAULT OUT_OF_BOUNDS, self)
           | Some n \<Rightarrow> write_dynamic_value_to_buffer (lib_c L) n (n + value_size)
               (qw_current_length (sr_queue self)) value_size self)"

end
