(* ===== verification/Deserializer.thy ===== *)
theory Deserializer
  imports Serializer
begin

text \<open>
  apx/src/deserializer.c: unpacking a buffer into values. The read state has the fields of
  \<open>apx_vm_readState_t\<close>; the stack, the scalar union, the buffer pointers and the store of states
  are modelled as in the serializer. The value a state builds is replaced when the C code
  changes it in place; reference counts are not part of the model. A private function of
  the C file whose name the serializer also uses gets the suffix \<open>_rd\<close>.
\<close>

section \<open>State\<close>

record 'v apx_vm_readState =
  rs_value :: "'v option"
  rs_scalar_value :: u64
  rs_field_name :: "byte list"
  rs_index :: u32
  rs_array_len :: u32
  rs_max_array_len :: u32
  rs_element_size :: u32
  rs_value_type :: dtl_dv_type_id
  rs_scalar_storage_type :: scalar_storage_type
  rs_type_code :: apx_typeCode
  rs_is_last_field :: bool
  rs_dynamic_size_type :: apx_sizeType
  rs_range_check_state :: apx_rangeCheckState

record apx_vm_readBuffer =
  rb_data :: "byte list"
  rb_next :: "nat option"
  rb_padded_next :: "nat option"

record apx_vm_queuedReadState =
  qr_max_length :: u32
  qr_current_length :: u32
  qr_element_size :: u32
  qr_index :: u32
  qr_size_type :: apx_sizeType
  qr_is_active :: bool

record 'v apx_vm_deserializer =
  ds_stack :: "'v apx_vm_readState list"
  ds_buffer :: apx_vm_readBuffer
  ds_queue :: apx_vm_queuedReadState
  ds_state :: "'v apx_vm_readState"
  ds_free :: nat

section \<open>Read states\<close>

definition set8 :: "u64 \<Rightarrow> byte \<Rightarrow> u64" where
  "set8 u x = (u AND 0xFFFFFFFFFFFFFF00) OR ucast x"

definition state_create :: "'v apx_vm_readState" where
  "state_create =
     \<lparr>rs_value = None, rs_scalar_value = 0, rs_field_name = [], rs_index = 0, rs_array_len = 0,
      rs_max_array_len = 0, rs_element_size = 0, rs_value_type = DTL_DV_NULL,
      rs_scalar_storage_type = APX_VM_SCALAR_STORAGE_TYPE_NONE, rs_type_code = APX_TYPE_CODE_NONE,
      rs_is_last_field = False, rs_dynamic_size_type = APX_SIZE_TYPE_NONE,
      rs_range_check_state = APX_RANGE_CHECK_STATE_NOT_CHECKED\<rparr>"

definition state_clear_value_rd :: "'v apx_vm_readState \<Rightarrow> 'v apx_vm_readState" where
  "state_clear_value_rd self = self\<lparr>rs_value_type := DTL_DV_NULL, rs_value := None\<rparr>"

definition state_reset_rd :: "'v apx_vm_readState \<Rightarrow> 'v apx_vm_readState" where
  "state_reset_rd self = (state_clear_value_rd self)\<lparr>rs_field_name := [], rs_index := 0,
     rs_array_len := 0, rs_max_array_len := 0, rs_element_size := 0, rs_is_last_field := False,
     rs_type_code := APX_TYPE_CODE_NONE, rs_scalar_storage_type := APX_VM_SCALAR_STORAGE_TYPE_NONE,
     rs_range_check_state := APX_RANGE_CHECK_STATE_NOT_CHECKED,
     rs_dynamic_size_type := APX_SIZE_TYPE_NONE, rs_scalar_value := set32 (rs_scalar_value self) 0\<rparr>"

definition state_set_type_and_size :: "'v apx_vm_readState \<Rightarrow> apx_typeCode \<Rightarrow> u32 \<Rightarrow> 'v apx_vm_readState" where
  "state_set_type_and_size self type_code element_size =
     self\<lparr>rs_type_code := type_code, rs_element_size := element_size\<rparr>"

definition state_is_num_or_bool_type_rd :: "'v apx_vm_readState \<Rightarrow> bool" where
  "state_is_num_or_bool_type_rd self =
     (is_integer_type_code (rs_type_code self) \<or> rs_type_code self = APX_TYPE_CODE_BOOL \<or>
      rs_type_code self = APX_TYPE_CODE_CHAR \<and> rs_array_len self = 0)"

definition state_is_record_type_rd :: "'v apx_vm_readState \<Rightarrow> bool" where
  "state_is_record_type_rd self = (rs_type_code self = APX_TYPE_CODE_RECORD)"

definition state_is_char_type_rd :: "'v apx_vm_readState \<Rightarrow> bool" where
  "state_is_char_type_rd self =
     (rs_type_code self = APX_TYPE_CODE_CHAR \<or> rs_type_code self = APX_TYPE_CODE_CHAR8 \<or>
      rs_type_code self = APX_TYPE_CODE_CHAR16 \<or> rs_type_code self = APX_TYPE_CODE_CHAR32)"

definition state_is_byte_type :: "'v apx_vm_readState \<Rightarrow> bool" where
  "state_is_byte_type self = (rs_type_code self = APX_TYPE_CODE_BYTE)"

text \<open>The three initialisers differ in the library's constructor and the value type.\<close>

definition init_value ::
  "'v option \<Rightarrow> dtl_dv_type_id \<Rightarrow> 'v apx_vm_readState \<Rightarrow> apx_error \<times> 'v apx_vm_readState" where
  "init_value new kind self =
     c_assert (rs_value_type self = DTL_DV_NULL)
       (if new \<noteq> None then (APX_NO_ERROR, self\<lparr>rs_value := new, rs_value_type := kind\<rparr>)
        else (APX_MEM_ERROR, self\<lparr>rs_value := new\<rparr>))
       self"

definition state_init_scalar_value :: "'v dtl \<Rightarrow> 'v apx_vm_readState \<Rightarrow> apx_error \<times> 'v apx_vm_readState" where
  "state_init_scalar_value D self = init_value (sv_new D) DTL_DV_SCALAR self"

definition state_init_array_value :: "'v dtl \<Rightarrow> 'v apx_vm_readState \<Rightarrow> apx_error \<times> 'v apx_vm_readState" where
  "state_init_array_value D self = init_value (av_new D) DTL_DV_ARRAY self"

definition state_init_hash_value :: "'v dtl \<Rightarrow> 'v apx_vm_readState \<Rightarrow> apx_error \<times> 'v apx_vm_readState" where
  "state_init_hash_value D self = init_value (hv_new D) DTL_DV_HASH self"

text \<open>
  \<open>state_read_scalar_value\<close> of the deserializer: the scalar at offset \<open>n\<close> of the buffer goes to the
  union; the new offset comes back. Every load from the buffer is a \<open>mem_read\<close>: one byte for
  \<open>*buffer->next\<close>, the element's bytes for \<open>unpackLE\<close>. A load that leaves the buffer is a fault.
\<close>

definition load ::
  "byte list \<Rightarrow> nat \<Rightarrow> nat \<Rightarrow> 's \<Rightarrow> (byte list \<Rightarrow> apx_error \<times> nat \<times> 's) \<Rightarrow> apx_error \<times> nat \<times> 's" where
  "load data n k self f = (case mem_read n k data of
     None \<Rightarrow> (FAULT OUT_OF_BOUNDS, n, self) | Some bs \<Rightarrow> f bs)"

definition state_read_scalar_value_rd ::
  "cutil \<Rightarrow> byte list \<Rightarrow> nat \<Rightarrow> 'v apx_vm_readState \<Rightarrow> apx_error \<times> nat \<times> 'v apx_vm_readState" where
  "state_read_scalar_value_rd C data n self =
     (let size = unat (rs_element_size self); u = rs_scalar_value self;
          store = (\<lambda>v storage. (APX_NO_ERROR, n + size,
            self\<lparr>rs_scalar_value := v, rs_scalar_storage_type := storage\<rparr>));
          byte_as = (\<lambda>f storage. load data n 1 self (\<lambda>bs. store (f (bs ! 0)) storage));
          word_as = (\<lambda>f storage. load data n size self (\<lambda>bs. store (f bs) storage))
      in if rs_element_size self = 0 then (FAULT ASSERT_FAILURE, n, self)
         else if size > length data - n then (APX_BUFFER_BOUNDARY_ERROR, n, self)
         else case rs_type_code self of
           APX_TYPE_CODE_UINT8 \<Rightarrow> byte_as (\<lambda>b. set32 u (ucast b)) APX_VM_SCALAR_STORAGE_TYPE_UINT32
         | APX_TYPE_CODE_UINT16 \<Rightarrow> word_as (\<lambda>bs. set32 u (unpackLE C bs size)) APX_VM_SCALAR_STORAGE_TYPE_UINT32
         | APX_TYPE_CODE_UINT32 \<Rightarrow> word_as (\<lambda>bs. set32 u (unpackLE C bs size)) APX_VM_SCALAR_STORAGE_TYPE_UINT32
         | APX_TYPE_CODE_UINT64 \<Rightarrow>
             if size = UINT64_SIZE then word_as (\<lambda>bs. unpackLE64 C bs size) APX_VM_SCALAR_STORAGE_TYPE_UINT64
             else (FAULT ASSERT_FAILURE, n, self)
         | APX_TYPE_CODE_INT8 \<Rightarrow> byte_as (\<lambda>b. set32 u (scast b)) APX_VM_SCALAR_STORAGE_TYPE_INT32
         | APX_TYPE_CODE_INT16 \<Rightarrow>
             word_as (\<lambda>bs. set32 u (scast (ucast (unpackLE C bs size) :: u16))) APX_VM_SCALAR_STORAGE_TYPE_INT32
         | APX_TYPE_CODE_INT32 \<Rightarrow> word_as (\<lambda>bs. set32 u (unpackLE C bs size)) APX_VM_SCALAR_STORAGE_TYPE_INT32
         | APX_TYPE_CODE_INT64 \<Rightarrow>
             if size = UINT64_SIZE then word_as (\<lambda>bs. unpackLE64 C bs size) APX_VM_SCALAR_STORAGE_TYPE_INT64
             else (FAULT ASSERT_FAILURE, n, self)
         | APX_TYPE_CODE_CHAR \<Rightarrow> byte_as (\<lambda>b. set8 u b) APX_VM_SCALAR_STORAGE_TYPE_CHAR
         | APX_TYPE_CODE_CHAR8 \<Rightarrow> byte_as (\<lambda>b. set32 u (ucast b)) APX_VM_SCALAR_STORAGE_TYPE_UINT32
         | APX_TYPE_CODE_CHAR16 \<Rightarrow> byte_as (\<lambda>b. set32 u (ucast b)) APX_VM_SCALAR_STORAGE_TYPE_UINT32
         | APX_TYPE_CODE_CHAR32 \<Rightarrow> byte_as (\<lambda>b. set32 u (ucast b)) APX_VM_SCALAR_STORAGE_TYPE_UINT32
         | APX_TYPE_CODE_BOOL \<Rightarrow> byte_as (\<lambda>b. set8 u (if b = 0 then 0 else 1)) APX_VM_SCALAR_STORAGE_TYPE_BOOL
         | APX_TYPE_CODE_BYTE \<Rightarrow> byte_as (\<lambda>b. set8 u b) APX_VM_SCALAR_STORAGE_TYPE_BYTE
         | _ \<Rightarrow> (APX_UNSUPPORTED_ERROR, n, self))"

lemma load_in_bounds [simp]: "n + k \<le> length data \<Longrightarrow> load data n k self f = f (take k (drop n data))"
  by (simp add: load_def mem_read_def)

lemma load_checked [simp]: "k \<le> length data - n \<Longrightarrow> 0 < k \<Longrightarrow> load data n k self f = f (take k (drop n data))"
  by (rule load_in_bounds) linarith

lemma load_out_of_bounds: "\<not> n + k \<le> length data \<Longrightarrow> load data n k self f = (FAULT OUT_OF_BOUNDS, n, self)"
  by (simp add: load_def mem_read_def)

definition state_set_scalar_value_from_storage ::
  "'v dtl \<Rightarrow> 'v apx_vm_readState \<Rightarrow> apx_error \<times> 'v apx_vm_readState" where
  "state_set_scalar_value_from_storage D self =
     (let u = rs_scalar_value self; v = rs_value self;
          set_to = (\<lambda>w. (APX_NO_ERROR, self\<lparr>rs_value := w\<rparr>))
      in c_assert (rs_value_type self = DTL_DV_SCALAR)
        (case rs_scalar_storage_type self of
           APX_VM_SCALAR_STORAGE_TYPE_NONE \<Rightarrow> (APX_INTERNAL_ERROR, self)
         | APX_VM_SCALAR_STORAGE_TYPE_INT32 \<Rightarrow> set_to (sv_set_i32 D v (get32 u))
         | APX_VM_SCALAR_STORAGE_TYPE_UINT32 \<Rightarrow> set_to (sv_set_u32 D v (get32 u))
         | APX_VM_SCALAR_STORAGE_TYPE_INT64 \<Rightarrow> set_to (sv_set_i64 D v u)
         | APX_VM_SCALAR_STORAGE_TYPE_UINT64 \<Rightarrow> set_to (sv_set_u64 D v u)
         | APX_VM_SCALAR_STORAGE_TYPE_BOOL \<Rightarrow> set_to (sv_set_bool D v (get_bool u))
         | APX_VM_SCALAR_STORAGE_TYPE_CHAR \<Rightarrow> set_to (sv_set_char D v (ucast u))
         | APX_VM_SCALAR_STORAGE_TYPE_BYTE \<Rightarrow> set_to (sv_set_bytearray_raw D v [ucast u]))
        self)"

definition state_determine_array_length_from_read_buffer ::
  "cutil \<Rightarrow> byte list \<Rightarrow> nat \<Rightarrow> 'v apx_vm_readState \<Rightarrow> apx_error \<times> nat \<times> 'v apx_vm_readState" where
  "state_determine_array_length_from_read_buffer C data n self =
     (if rs_dynamic_size_type self = APX_SIZE_TYPE_NONE then (APX_INVALID_ARGUMENT_ERROR, n, self)
      else case apx_vm_parse_uint32_by_size_type C (drop n data) (rs_dynamic_size_type self) of
        None \<Rightarrow> (APX_BUFFER_BOUNDARY_ERROR, n, self)
      | Some (len, k) \<Rightarrow> load data n k self (\<lambda>_. (APX_NO_ERROR, n + k, self\<lparr>rs_array_len := len\<rparr>)))"

definition state_take_sv :: "'v apx_vm_readState \<Rightarrow> 'v option \<times> 'v apx_vm_readState" where
  "state_take_sv self =
     (if rs_value_type self = DTL_DV_SCALAR then (rs_value self, state_clear_value_rd self)
      else (None, self))"

definition state_push_array_value ::
  "'v dtl \<Rightarrow> 'v apx_vm_readState \<Rightarrow> 'v option \<Rightarrow> apx_error \<times> 'v apx_vm_readState" where
  "state_push_array_value D self dv =
     (if dv \<noteq> None \<and> rs_value_type self = DTL_DV_ARRAY
      then (APX_NO_ERROR, self\<lparr>rs_value := av_push D (rs_value self) dv\<rparr>)
      else (APX_INVALID_ARGUMENT_ERROR, self))"

definition converted_rd ::
  "bool \<Rightarrow> scalar_storage_type \<Rightarrow> 'v apx_vm_readState \<Rightarrow> apx_error \<times> 'v apx_vm_readState" where
  "converted_rd ok st self =
     (if ok then (APX_NO_ERROR, self\<lparr>rs_scalar_storage_type := st\<rparr>)
      else (APX_VALUE_CONVERSION_ERROR, self))"

definition state_store_scalar_value ::
  "'v dtl \<Rightarrow> 'v apx_vm_readState \<Rightarrow> 'v option \<Rightarrow> apx_typeCode \<Rightarrow> apx_error \<times> 'v apx_vm_readState" where
  "state_store_scalar_value D self sv type_code =
     c_assert (sv \<noteq> None)
       (if type_code \<in> {APX_TYPE_CODE_UINT8, APX_TYPE_CODE_UINT16, APX_TYPE_CODE_UINT32} then
          (case sv_to_u32 D sv of (x, ok) \<Rightarrow> converted_rd ok APX_VM_SCALAR_STORAGE_TYPE_UINT32
             (self\<lparr>rs_scalar_value := set32 (rs_scalar_value self) x\<rparr>))
        else if type_code = APX_TYPE_CODE_UINT64 then
          (case sv_to_u64 D sv of (x, ok) \<Rightarrow> converted_rd ok APX_VM_SCALAR_STORAGE_TYPE_UINT64
             (self\<lparr>rs_scalar_value := x\<rparr>))
        else if type_code \<in> {APX_TYPE_CODE_INT8, APX_TYPE_CODE_INT16, APX_TYPE_CODE_INT32} then
          (case sv_to_i32 D sv of (x, ok) \<Rightarrow> converted_rd ok APX_VM_SCALAR_STORAGE_TYPE_INT32
             (self\<lparr>rs_scalar_value := set32 (rs_scalar_value self) x\<rparr>))
        else if type_code = APX_TYPE_CODE_INT64 then
          (case sv_to_i64 D sv of (x, ok) \<Rightarrow> converted_rd ok APX_VM_SCALAR_STORAGE_TYPE_INT64
             (self\<lparr>rs_scalar_value := x\<rparr>))
        else if type_code = APX_TYPE_CODE_BOOL then
          (case sv_to_bool D sv of (x, ok) \<Rightarrow> converted_rd ok APX_VM_SCALAR_STORAGE_TYPE_BOOL
             (self\<lparr>rs_scalar_value := of_bool64 x\<rparr>))
        else (APX_UNSUPPORTED_ERROR, self))
       self"

definition state_store_scalar_array_value ::
  "'v dtl \<Rightarrow> 'v apx_vm_readState \<Rightarrow> int \<Rightarrow> apx_typeCode \<Rightarrow> apx_error \<times> 'v apx_vm_readState" where
  "state_store_scalar_array_value D self index type_code =
     (if rs_value_type self \<noteq> DTL_DV_ARRAY then (APX_VALUE_TYPE_ERROR, self)
      else
        let dv = av_value D (rs_value self) index
        in if dv_type D dv \<noteq> DTL_DV_SCALAR then (APX_VALUE_TYPE_ERROR, self)
           else if dv = None then (APX_NULL_PTR_ERROR, self)
           else state_store_scalar_value D self dv type_code)"

definition state_read_byte_array ::
  "'v dtl \<Rightarrow> byte list \<Rightarrow> nat \<Rightarrow> 'v apx_vm_readState \<Rightarrow> apx_error \<times> nat \<times> 'v apx_vm_readState" where
  "state_read_byte_array D data n self =
     (let len = unat (rs_array_len self)
      in if n + len \<le> length data then
           load data n len self (\<lambda>bs. (APX_NO_ERROR, n + len,
             self\<lparr>rs_value := sv_set_bytearray_raw D (rs_value self) bs\<rparr>))
         else (APX_BUFFER_BOUNDARY_ERROR, n, self))"

definition state_set_field_name_rd ::
  "text_lib \<Rightarrow> 'v apx_vm_readState \<Rightarrow> byte list \<Rightarrow> bool \<Rightarrow> apx_error \<times> 'v apx_vm_readState" where
  "state_set_field_name_rd T self name is_last_field =
     (case str_set_cstr T (rs_field_name self) name of (rc, s) \<Rightarrow>
        (convert_from_adt_to_apx_error rc, self\<lparr>rs_is_last_field := is_last_field, rs_field_name := s\<rparr>))"

definition state_create_child_value_from_child_state ::
  "'v dtl \<Rightarrow> 'v apx_vm_readState \<Rightarrow> 'v apx_vm_readState \<Rightarrow> apx_error \<times> 'v apx_vm_readState" where
  "state_create_child_value_from_child_state D self child_state =
     c_assert (rs_value_type self = DTL_DV_HASH)
       (if rs_field_name self = [] then (APX_NAME_MISSING_ERROR, self)
        else if rs_value_type child_state \<in> {DTL_DV_INVALID, DTL_DV_NULL} then (APX_VALUE_TYPE_ERROR, self)
        else (APX_NO_ERROR,
          self\<lparr>rs_value := hv_set_cstr D (rs_value self) (rs_field_name self) (rs_value child_state)\<rparr>))
       self"

definition state_push_value_from_child_state ::
  "'v dtl \<Rightarrow> 'v apx_vm_readState \<Rightarrow> 'v apx_vm_readState \<Rightarrow> apx_error \<times> 'v apx_vm_readState" where
  "state_push_value_from_child_state D self child_state =
     c_assert (rs_value_type self = DTL_DV_ARRAY)
       (if rs_value_type child_state \<in> {DTL_DV_INVALID, DTL_DV_NULL} then (APX_VALUE_TYPE_ERROR, self)
        else (APX_NO_ERROR, self\<lparr>rs_value := av_push D (rs_value self) (rs_value child_state)\<rparr>))
       self"

section \<open>Buffer and queue\<close>

definition read_buffer_init :: apx_vm_readBuffer where
  "read_buffer_init = \<lparr>rb_data = [], rb_next = None, rb_padded_next = None\<rparr>"

definition read_buffer_reset :: "byte list \<Rightarrow> apx_vm_readBuffer" where
  "read_buffer_reset data = \<lparr>rb_data = data, rb_next = Some 0, rb_padded_next = None\<rparr>"

definition read_buffer_is_valid :: "apx_vm_readBuffer \<Rightarrow> bool" where
  "read_buffer_is_valid self =
     (case rb_next self of None \<Rightarrow> False | Some n \<Rightarrow> n \<le> length (rb_data self))"

definition queued_read_state_init :: apx_vm_queuedReadState where
  "queued_read_state_init = \<lparr>qr_max_length = 0, qr_current_length = 0, qr_element_size = 0,
     qr_index = 0, qr_size_type = APX_SIZE_TYPE_NONE, qr_is_active = False\<rparr>"

definition queued_read_state_is_active :: "apx_vm_queuedReadState \<Rightarrow> bool" where
  "queued_read_state_is_active self = qr_is_active self"

section \<open>The deserializer object\<close>

definition apx_vm_deserializer_create :: "nat \<Rightarrow> 'v apx_vm_deserializer option" where
  "apx_vm_deserializer_create heap =
     (case heap of
        0 \<Rightarrow> None
      | Suc free \<Rightarrow> Some \<lparr>ds_stack = [], ds_buffer = read_buffer_init,
          ds_queue = queued_read_state_init, ds_state = state_create, ds_free = free\<rparr>)"

definition apx_vm_deserializer_set_read_buffer ::
  "'v apx_vm_deserializer \<Rightarrow> byte list option \<Rightarrow> apx_error \<times> 'v apx_vm_deserializer" where
  "apx_vm_deserializer_set_read_buffer self data =
     (case data of
        Some (b # bs) \<Rightarrow> (APX_NO_ERROR, self\<lparr>ds_buffer := read_buffer_reset (b # bs)\<rparr>)
      | _ \<Rightarrow> (APX_INVALID_ARGUMENT_ERROR, self))"

definition apx_vm_deserializer_bytes_read :: "'v apx_vm_deserializer \<Rightarrow> nat" where
  "apx_vm_deserializer_bytes_read self =
     (case rb_next (ds_buffer self) of None \<Rightarrow> 0 | Some n \<Rightarrow> n)"

definition apx_vm_deserializer_value_type :: "'v apx_vm_deserializer \<Rightarrow> dtl_dv_type_id" where
  "apx_vm_deserializer_value_type self = rs_value_type (ds_state self)"

text \<open>The value is handed over and the state forgets it, when it has the type asked for.\<close>

definition take_value ::
  "dtl_dv_type_id \<Rightarrow> 'v apx_vm_deserializer \<Rightarrow> 'v option \<times> 'v apx_vm_deserializer" where
  "take_value kind self =
     (if rs_value_type (ds_state self) = kind
      then (rs_value (ds_state self), self\<lparr>ds_state := state_clear_value_rd (ds_state self)\<rparr>)
      else (None, self))"

definition apx_vm_deserializer_take_sv ::
  "'v apx_vm_deserializer \<Rightarrow> 'v option \<times> 'v apx_vm_deserializer" where
  "apx_vm_deserializer_take_sv self =
     (case state_take_sv (ds_state self) of (v, st) \<Rightarrow> (v, self\<lparr>ds_state := st\<rparr>))"

definition apx_vm_deserializer_take_av ::
  "'v apx_vm_deserializer \<Rightarrow> 'v option \<times> 'v apx_vm_deserializer" where
  "apx_vm_deserializer_take_av self = take_value DTL_DV_ARRAY self"

definition apx_vm_deserializer_take_hv ::
  "'v apx_vm_deserializer \<Rightarrow> 'v option \<times> 'v apx_vm_deserializer" where
  "apx_vm_deserializer_take_hv self = take_value DTL_DV_HASH self"

definition on_state_rd ::
  "('v apx_vm_readState \<Rightarrow> apx_error \<times> 'v apx_vm_readState) \<Rightarrow>
     'v apx_vm_deserializer \<Rightarrow> apx_error \<times> 'v apx_vm_deserializer" where
  "on_state_rd f self = (case f (ds_state self) of (e, s) \<Rightarrow> (e, self\<lparr>ds_state := s\<rparr>))"

definition set_next_rd :: "nat \<Rightarrow> 'v apx_vm_deserializer \<Rightarrow> 'v apx_vm_deserializer" where
  "set_next_rd n self = self\<lparr>ds_buffer := (ds_buffer self)\<lparr>rb_next := Some n\<rparr>\<rparr>"

definition at_next_rd ::
  "(nat \<Rightarrow> apx_error \<times> 'v apx_vm_deserializer) \<Rightarrow> 'v apx_vm_deserializer \<Rightarrow>
     apx_error \<times> 'v apx_vm_deserializer" where
  "at_next_rd f self = (case rb_next (ds_buffer self) of
     None \<Rightarrow> (FAULT OUT_OF_BOUNDS, self) | Some n \<Rightarrow> f n)"

text \<open>A function that reads the buffer: it gets the bytes and the offset and returns the new offset.\<close>

definition reading ::
  "(byte list \<Rightarrow> nat \<Rightarrow> 'v apx_vm_readState \<Rightarrow> apx_error \<times> nat \<times> 'v apx_vm_readState) \<Rightarrow>
     'v apx_vm_deserializer \<Rightarrow> apx_error \<times> 'v apx_vm_deserializer" where
  "reading f self = at_next_rd (\<lambda>n.
     case f (rb_data (ds_buffer self)) n (ds_state self) of
       (e, n, st) \<Rightarrow> (e, set_next_rd n (self\<lparr>ds_state := st\<rparr>))) self"

definition deserializer_enter_new_child_state ::
  "'v apx_vm_deserializer \<Rightarrow> apx_error \<times> 'v apx_vm_deserializer" where
  "deserializer_enter_new_child_state self =
     (case ds_free self of
        0 \<Rightarrow> (APX_MEM_ERROR, self)
      | Suc free \<Rightarrow> (APX_NO_ERROR, self\<lparr>ds_stack := ds_state self # ds_stack self,
          ds_state := state_create, ds_free := free\<rparr>))"

text \<open>
  \<open>deserializer_pop_state\<close>: the finished child value goes into the parent's hash or array, and so on
  while the parent is at its last field. The last branch of the C code deletes the child
  state and then deletes it again.
\<close>

fun merge_states ::
  "'v dtl \<Rightarrow> 'v apx_vm_readState list \<Rightarrow> 'v apx_vm_readState \<Rightarrow> nat \<Rightarrow>
     apx_error \<times> 'v apx_vm_readState list \<times> 'v apx_vm_readState \<times> nat" where
  "merge_states D [] child free = (APX_NO_ERROR, [], child, free)"
| "merge_states D (p # ps) child free =
     (if rs_type_code p = APX_TYPE_CODE_RECORD then
        (case (if rs_value_type p = DTL_DV_HASH then state_create_child_value_from_child_state D p child
               else if rs_value_type p = DTL_DV_ARRAY then state_push_value_from_child_state D p child
               else (FAULT USE_AFTER_FREE, p)) of
           (result, p) \<Rightarrow>
             if result \<noteq> APX_NO_ERROR then (result, ps, p, Suc free)
             else if \<not> rs_is_last_field p then (APX_NO_ERROR, ps, p, Suc free)
             else merge_states D ps p (Suc free))
      else (APX_NOT_IMPLEMENTED_ERROR, ps, p, Suc free))"

definition deserializer_pop_state ::
  "'v lib \<Rightarrow> 'v apx_vm_deserializer \<Rightarrow> apx_error \<times> 'v apx_vm_deserializer" where
  "deserializer_pop_state L self =
     (case merge_states (lib_d L) (ds_stack self) (ds_state self) (ds_free self) of
        (e, ps, st, free) \<Rightarrow> (e, self\<lparr>ds_stack := ps, ds_state := st, ds_free := free\<rparr>))"

section \<open>Reading\<close>

definition deserializer_prepare_for_buffer_read ::
  "'v apx_vm_deserializer \<Rightarrow> apx_typeCode \<Rightarrow> u32 \<Rightarrow> apx_error \<times> 'v apx_vm_deserializer" where
  "deserializer_prepare_for_buffer_read self type_code element_size =
     (if \<not> read_buffer_is_valid (ds_buffer self) then (APX_MISSING_BUFFER_ERROR, self)
      else andThen
        (case rb_padded_next (ds_buffer self) of
           None \<Rightarrow> (APX_NO_ERROR, self)
         | Some p \<Rightarrow>
             if p > length (rb_data (ds_buffer self)) then (APX_BUFFER_BOUNDARY_ERROR, self)
             else (APX_NO_ERROR, self\<lparr>ds_buffer :=
               (ds_buffer self)\<lparr>rb_next := Some p, rb_padded_next := None\<rparr>\<rparr>))
        (\<lambda>self. (APX_NO_ERROR, self\<lparr>ds_state :=
           state_set_type_and_size (state_reset_rd (ds_state self)) type_code element_size\<rparr>)))"

definition deserializer_prepare_for_array ::
  "'v lib \<Rightarrow> 'v apx_vm_deserializer \<Rightarrow> u32 \<Rightarrow> apx_sizeType \<Rightarrow> apx_error \<times> 'v apx_vm_deserializer" where
  "deserializer_prepare_for_array L self array_length dynamic_size_type =
     (if array_length > 0 then
        (if dynamic_size_type \<noteq> APX_SIZE_TYPE_NONE then
           andThen
             (reading (\<lambda>data n st. state_determine_array_length_from_read_buffer (lib_c L) data n
                (st\<lparr>rs_dynamic_size_type := dynamic_size_type, rs_max_array_len := array_length\<rparr>)) self)
             (\<lambda>self. if rs_array_len (ds_state self) > rs_max_array_len (ds_state self)
                then (APX_VALUE_LENGTH_ERROR, self)
                else c_assert (rs_element_size (ds_state self) \<noteq> 0)
                  (at_next_rd (\<lambda>n. (APX_NO_ERROR, self\<lparr>ds_buffer := (ds_buffer self)\<lparr>rb_padded_next :=
                     Some (n + unat (rs_max_array_len (ds_state self)) *
                       unat (rs_element_size (ds_state self)))\<rparr>\<rparr>)) self)
                  self)
         else (APX_NO_ERROR, self\<lparr>ds_state := (ds_state self)\<lparr>rs_array_len := array_length\<rparr>\<rparr>))
      else (APX_NO_ERROR, self))"

definition deserializer_unpack_scalar_value ::
  "'v lib \<Rightarrow> 'v apx_vm_deserializer \<Rightarrow> apx_error \<times> 'v apx_vm_deserializer" where
  "deserializer_unpack_scalar_value L self =
     andThen (reading (state_read_scalar_value_rd (lib_c L)) self)
       (on_state_rd (state_set_scalar_value_from_storage (lib_d L)))"

text \<open>
  The code's return value is \<open>APX_NO_ERROR\<close> whatever the initialisation gave; a failed assertion
  still ends the program.
\<close>

definition deserializer_unpack_record_value ::
  "'v lib \<Rightarrow> 'v apx_vm_deserializer \<Rightarrow> apx_error \<times> 'v apx_vm_deserializer" where
  "deserializer_unpack_record_value L self =
     (case (if rs_array_len (ds_state self) > 0 then
              andThen (on_state_rd (state_init_array_value (lib_d L)) self) (\<lambda>self.
              andThen (deserializer_enter_new_child_state self) (\<lambda>self.
                case state_init_hash_value (lib_d L) (ds_state self) of (e, st) \<Rightarrow>
                  (e, self\<lparr>ds_state := state_set_type_and_size st APX_TYPE_CODE_RECORD 0\<rparr>)))
            else on_state_rd (state_init_hash_value (lib_d L)) self) of
        (retval, self) \<Rightarrow> (if is_fault retval then retval else APX_NO_ERROR, self))"

text \<open>
  The loop of \<open>deserializer_unpack_array_of_scalar\<close> with its local child state: from \<open>k\<close> elements
  left. A failed allocation does not end it, a failed read does.
\<close>

fun unpack_scalar_elements ::
  "'v lib \<Rightarrow> byte list \<Rightarrow> nat \<Rightarrow> nat \<Rightarrow> 'v apx_vm_readState \<Rightarrow> 'v apx_vm_readState \<Rightarrow> apx_error \<Rightarrow>
     apx_error \<times> nat \<times> 'v apx_vm_readState" where
  "unpack_scalar_elements L data 0 n child self retval = (retval, n, self)"
| "unpack_scalar_elements L data (Suc k) n child self retval =
     (case state_init_scalar_value (lib_d L) child of (e, child) \<Rightarrow>
        if is_fault e then (e, n, self)
        else if e \<noteq> APX_NO_ERROR then unpack_scalar_elements L data k n child self e
        else case state_read_scalar_value_rd (lib_c L) data n child of (e, n, child) \<Rightarrow>
          if e \<noteq> APX_NO_ERROR then (e, n, self)
          else case state_set_scalar_value_from_storage (lib_d L) child of (e, child) \<Rightarrow>
            if e \<noteq> APX_NO_ERROR then (e, n, self)
            else case state_take_sv child of (sv, child) \<Rightarrow>
              case state_push_array_value (lib_d L) self sv of (e, self) \<Rightarrow>
                if e \<noteq> APX_NO_ERROR then (e, n, self)
                else unpack_scalar_elements L data k n child self APX_NO_ERROR)"

definition deserializer_unpack_array_of_scalar ::
  "'v lib \<Rightarrow> 'v apx_vm_deserializer \<Rightarrow> apx_error \<times> 'v apx_vm_deserializer" where
  "deserializer_unpack_array_of_scalar L self =
     andThen (on_state_rd (state_init_array_value (lib_d L)) self)
       (reading (\<lambda>data n st. unpack_scalar_elements L data (unat (rs_array_len st)) n
          (state_set_type_and_size state_create (rs_type_code st) (rs_element_size st)) st APX_NO_ERROR))"

text \<open>
  The loop of \<open>deserializer_unpack_string\<close>: a null character ends a string of fixed size, and the
  offset is set behind the string without a look at the end of the buffer; at the end of the
  buffer the error is noted and the loop goes on.
\<close>

fun unpack_chars ::
  "text_lib \<Rightarrow> byte list \<Rightarrow> bool \<Rightarrow> nat \<Rightarrow> nat \<Rightarrow> nat \<Rightarrow> byte list \<Rightarrow> apx_error \<Rightarrow>
     apx_error \<times> nat \<times> byte list" where
  "unpack_chars T data is_dynamic adjusted_next 0 n s retval = (retval, n, s)"
| "unpack_chars T data is_dynamic adjusted_next (Suc k) n s retval =
     (if n + UINT8_SIZE \<le> length data then
        load data n UINT8_SIZE s (\<lambda>cs. let c = cs ! 0 in
          if \<not> is_dynamic \<and> c = 0 then (retval, adjusted_next, s)
          else unpack_chars T data is_dynamic adjusted_next k (Suc n) (str_push T s c) retval)
      else unpack_chars T data is_dynamic adjusted_next k n s APX_BUFFER_BOUNDARY_ERROR)"

definition deserializer_unpack_string ::
  "'v lib \<Rightarrow> 'v apx_vm_deserializer \<Rightarrow> apx_error \<times> 'v apx_vm_deserializer" where
  "deserializer_unpack_string L self =
     andThen (on_state_rd (state_init_scalar_value (lib_d L)) self)
       (reading (\<lambda>data n st.
          let len = unat (rs_array_len st)
          in case unpack_chars (lib_t L) data (rs_dynamic_size_type st \<noteq> APX_SIZE_TYPE_NONE)
                 (n + len) len n [] APX_NO_ERROR of
               (retval, n, s) \<Rightarrow> (retval, n,
                  if retval = APX_NO_ERROR then st\<lparr>rs_value := sv_set_str (lib_d L) (rs_value st) s\<rparr> else st)))"

definition deserializer_unpack_byte_array_internal ::
  "'v lib \<Rightarrow> 'v apx_vm_deserializer \<Rightarrow> apx_error \<times> 'v apx_vm_deserializer" where
  "deserializer_unpack_byte_array_internal L self =
     c_assert (rs_array_len (ds_state self) > 0)
       (andThen (on_state_rd (state_init_scalar_value (lib_d L)) self)
          (reading (state_read_byte_array (lib_d L))))
       self"

section \<open>The unpack operations\<close>

definition unpack_without_elements ::
  "'v lib \<Rightarrow> 'v apx_vm_deserializer \<Rightarrow> apx_error \<times> 'v apx_vm_deserializer" where
  "unpack_without_elements L self =
     (let st = ds_state self
      in if state_is_num_or_bool_type_rd st \<or> state_is_byte_type st then
           andThen (on_state_rd (state_init_scalar_value (lib_d L)) self)
             (deserializer_unpack_scalar_value L)
         else if state_is_record_type_rd st then deserializer_unpack_record_value L self
         else (APX_NOT_IMPLEMENTED_ERROR, self))"

definition unpack_elements ::
  "'v lib \<Rightarrow> 'v apx_vm_deserializer \<Rightarrow> apx_error \<times> 'v apx_vm_deserializer" where
  "unpack_elements L self =
     (let st = ds_state self
      in if state_is_num_or_bool_type_rd st then deserializer_unpack_array_of_scalar L self
         else if state_is_char_type_rd st then deserializer_unpack_string L self
         else if state_is_byte_type st then deserializer_unpack_byte_array_internal L self
         else if state_is_record_type_rd st then deserializer_unpack_record_value L self
         else (APX_NOT_IMPLEMENTED_ERROR, self))"

definition deserializer_unpack_value ::
  "'v lib \<Rightarrow> 'v apx_vm_deserializer \<Rightarrow> u32 \<Rightarrow> apx_sizeType \<Rightarrow> apx_error \<times> 'v apx_vm_deserializer" where
  "deserializer_unpack_value L self array_length dynamic_size_type =
     andThen (deserializer_prepare_for_array L self array_length dynamic_size_type) (\<lambda>self.
       let st = ds_state self
       in if queued_read_state_is_active (ds_queue self) \<and>
             qr_index (ds_queue self) \<ge> qr_current_length (ds_queue self)
          then (APX_INDEX_ERROR, self)
          else if rs_array_len st = 0 \<and> rs_dynamic_size_type st \<noteq> APX_SIZE_TYPE_NONE
          then (APX_INVALID_ARGUMENT_ERROR, self)
          else andThen
            (if rs_array_len st = 0 then unpack_without_elements L self else unpack_elements L self)
            (\<lambda>self. if state_is_record_type_rd st then (APX_NO_ERROR, self)
                    else deserializer_pop_state L self))"

definition unpack_as ::
  "'v lib \<Rightarrow> apx_typeCode \<Rightarrow> nat \<Rightarrow> 'v apx_vm_deserializer \<Rightarrow> u32 \<Rightarrow> apx_sizeType \<Rightarrow>
     apx_error \<times> 'v apx_vm_deserializer" where
  "unpack_as L type_code element_size self array_length dynamic_size_type =
     andThen (deserializer_prepare_for_buffer_read self type_code (word_of_nat element_size)) (\<lambda>self.
     deserializer_unpack_value L self array_length dynamic_size_type)"

definition apx_vm_deserializer_unpack_uint8 ::
  "'v lib \<Rightarrow> 'v apx_vm_deserializer \<Rightarrow> u32 \<Rightarrow> apx_sizeType \<Rightarrow> apx_error \<times> 'v apx_vm_deserializer" where
  "apx_vm_deserializer_unpack_uint8 L = unpack_as L APX_TYPE_CODE_UINT8 UINT8_SIZE"

definition apx_vm_deserializer_unpack_uint16 ::
  "'v lib \<Rightarrow> 'v apx_vm_deserializer \<Rightarrow> u32 \<Rightarrow> apx_sizeType \<Rightarrow> apx_error \<times> 'v apx_vm_deserializer" where
  "apx_vm_deserializer_unpack_uint16 L = unpack_as L APX_TYPE_CODE_UINT16 UINT16_SIZE"

definition apx_vm_deserializer_unpack_uint32 ::
  "'v lib \<Rightarrow> 'v apx_vm_deserializer \<Rightarrow> u32 \<Rightarrow> apx_sizeType \<Rightarrow> apx_error \<times> 'v apx_vm_deserializer" where
  "apx_vm_deserializer_unpack_uint32 L = unpack_as L APX_TYPE_CODE_UINT32 UINT32_SIZE"

definition apx_vm_deserializer_unpack_uint64 ::
  "'v lib \<Rightarrow> 'v apx_vm_deserializer \<Rightarrow> u32 \<Rightarrow> apx_sizeType \<Rightarrow> apx_error \<times> 'v apx_vm_deserializer" where
  "apx_vm_deserializer_unpack_uint64 L = unpack_as L APX_TYPE_CODE_UINT64 UINT64_SIZE"

definition apx_vm_deserializer_unpack_int8 ::
  "'v lib \<Rightarrow> 'v apx_vm_deserializer \<Rightarrow> u32 \<Rightarrow> apx_sizeType \<Rightarrow> apx_error \<times> 'v apx_vm_deserializer" where
  "apx_vm_deserializer_unpack_int8 L = unpack_as L APX_TYPE_CODE_INT8 UINT8_SIZE"

definition apx_vm_deserializer_unpack_int16 ::
  "'v lib \<Rightarrow> 'v apx_vm_deserializer \<Rightarrow> u32 \<Rightarrow> apx_sizeType \<Rightarrow> apx_error \<times> 'v apx_vm_deserializer" where
  "apx_vm_deserializer_unpack_int16 L = unpack_as L APX_TYPE_CODE_INT16 UINT16_SIZE"

definition apx_vm_deserializer_unpack_int32 ::
  "'v lib \<Rightarrow> 'v apx_vm_deserializer \<Rightarrow> u32 \<Rightarrow> apx_sizeType \<Rightarrow> apx_error \<times> 'v apx_vm_deserializer" where
  "apx_vm_deserializer_unpack_int32 L = unpack_as L APX_TYPE_CODE_INT32 UINT32_SIZE"

definition apx_vm_deserializer_unpack_int64 ::
  "'v lib \<Rightarrow> 'v apx_vm_deserializer \<Rightarrow> u32 \<Rightarrow> apx_sizeType \<Rightarrow> apx_error \<times> 'v apx_vm_deserializer" where
  "apx_vm_deserializer_unpack_int64 L = unpack_as L APX_TYPE_CODE_INT64 UINT64_SIZE"

definition apx_vm_deserializer_unpack_char ::
  "'v lib \<Rightarrow> 'v apx_vm_deserializer \<Rightarrow> u32 \<Rightarrow> apx_sizeType \<Rightarrow> apx_error \<times> 'v apx_vm_deserializer" where
  "apx_vm_deserializer_unpack_char L = unpack_as L APX_TYPE_CODE_CHAR UINT8_SIZE"

definition apx_vm_deserializer_unpack_char8 ::
  "'v lib \<Rightarrow> 'v apx_vm_deserializer \<Rightarrow> u32 \<Rightarrow> apx_sizeType \<Rightarrow> apx_error \<times> 'v apx_vm_deserializer" where
  "apx_vm_deserializer_unpack_char8 L = apx_vm_deserializer_unpack_char L"

definition apx_vm_deserializer_unpack_bool ::
  "'v lib \<Rightarrow> 'v apx_vm_deserializer \<Rightarrow> u32 \<Rightarrow> apx_sizeType \<Rightarrow> apx_error \<times> 'v apx_vm_deserializer" where
  "apx_vm_deserializer_unpack_bool L = unpack_as L APX_TYPE_CODE_BOOL UINT8_SIZE"

definition apx_vm_deserializer_unpack_byte ::
  "'v lib \<Rightarrow> 'v apx_vm_deserializer \<Rightarrow> u32 \<Rightarrow> apx_sizeType \<Rightarrow> apx_error \<times> 'v apx_vm_deserializer" where
  "apx_vm_deserializer_unpack_byte L = unpack_as L APX_TYPE_CODE_BYTE UINT8_SIZE"

definition apx_vm_deserializer_unpack_record ::
  "'v lib \<Rightarrow> 'v apx_vm_deserializer \<Rightarrow> u32 \<Rightarrow> apx_sizeType \<Rightarrow> apx_error \<times> 'v apx_vm_deserializer" where
  "apx_vm_deserializer_unpack_record L = unpack_as L APX_TYPE_CODE_RECORD 0"

section \<open>Records, arrays of records and range checks\<close>

definition apx_vm_deserializer_record_select ::
  "'v lib \<Rightarrow> 'v apx_vm_deserializer \<Rightarrow> byte list \<Rightarrow> bool \<Rightarrow> apx_error \<times> 'v apx_vm_deserializer" where
  "apx_vm_deserializer_record_select L self key is_last_field =
     (if rs_value_type (ds_state self) = DTL_DV_HASH then
        let self = snd (on_state_rd (\<lambda>st. state_set_field_name_rd (lib_t L) st key is_last_field) self)
        in (APX_NO_ERROR, snd (deserializer_enter_new_child_state self))
      else (APX_VALUE_TYPE_ERROR, self))"

text \<open>
  The common text of the four range checks. They differ in the type code and the storage of a
  scalar (\<open>tc\<close>, \<open>storage\<close>), those used for array elements (\<open>atc\<close>, \<open>astorage\<close>) and the check on the
  union, which are given as the C code has them: the unsigned 32 bit check compares signed,
  and the 64 bit checks read array elements as 32 bit values into the low half of the union.
\<close>

definition checked_rd ::
  "scalar_storage_type \<Rightarrow> (u64 \<Rightarrow> apx_error) \<Rightarrow> 'v apx_vm_readState \<Rightarrow> apx_error" where
  "checked_rd storage in_range st =
     (if rs_scalar_storage_type st = storage then in_range (rs_scalar_value st) else FAULT ASSERT_FAILURE)"

fun check_range_elements_rd ::
  "'v dtl \<Rightarrow> apx_typeCode \<Rightarrow> scalar_storage_type \<Rightarrow> (u64 \<Rightarrow> apx_error) \<Rightarrow> nat \<Rightarrow> nat \<Rightarrow>
     'v apx_vm_readState \<Rightarrow> apx_error \<times> 'v apx_vm_readState" where
  "check_range_elements_rd D tc storage in_range i 0 st = (APX_NO_ERROR, st)"
| "check_range_elements_rd D tc storage in_range i (Suc k) st =
     (case state_store_scalar_array_value D st (sint (word_of_nat i :: u32)) tc of (retval, st) \<Rightarrow>
        let retval = (if retval = APX_NO_ERROR then checked_rd storage in_range st else retval)
        in if retval \<noteq> APX_NO_ERROR
           then (retval, st\<lparr>rs_range_check_state := APX_RANGE_CHECK_STATE_FAIL\<rparr>)
           else check_range_elements_rd D tc storage in_range (Suc i) k st)"

definition check_value_range_rd ::
  "'v dtl \<Rightarrow> apx_typeCode \<Rightarrow> scalar_storage_type \<Rightarrow> apx_typeCode \<Rightarrow> scalar_storage_type \<Rightarrow>
     (u64 \<Rightarrow> apx_error) \<Rightarrow> 'v apx_vm_readState \<Rightarrow> apx_error \<times> 'v apx_vm_readState" where
  "check_value_range_rd D tc storage atc astorage in_range st =
     (if rs_value_type st = DTL_DV_SCALAR then
        (case state_store_scalar_value D st (rs_value st) tc of (retval, st) \<Rightarrow>
           let retval = (if retval = APX_NO_ERROR then checked_rd storage in_range st else retval)
           in (retval, st\<lparr>rs_range_check_state :=
                (if retval = APX_NO_ERROR then APX_RANGE_CHECK_STATE_OK else APX_RANGE_CHECK_STATE_FAIL)\<rparr>))
      else if rs_value_type st = DTL_DV_ARRAY then
        check_range_elements_rd D atc astorage in_range 0
          (unat (word_of_int (av_length D (rs_value st)) :: u32))
          (st\<lparr>rs_range_check_state := APX_RANGE_CHECK_STATE_OK\<rparr>)
      else (APX_UNSUPPORTED_ERROR, st))"

definition apx_vm_deserializer_check_value_range_int32 ::
  "'v lib \<Rightarrow> 'v apx_vm_deserializer \<Rightarrow> u32 \<Rightarrow> u32 \<Rightarrow> apx_error \<times> 'v apx_vm_deserializer" where
  "apx_vm_deserializer_check_value_range_int32 L self lower_limit upper_limit =
     on_state_rd (check_value_range_rd (lib_d L)
       APX_TYPE_CODE_INT32 APX_VM_SCALAR_STORAGE_TYPE_INT32 APX_TYPE_CODE_INT32 APX_VM_SCALAR_STORAGE_TYPE_INT32
       (\<lambda>u. apx_vm_value_in_range_i32 (get32 u) lower_limit upper_limit)) self"

definition apx_vm_deserializer_check_value_range_uint32 ::
  "'v lib \<Rightarrow> 'v apx_vm_deserializer \<Rightarrow> u32 \<Rightarrow> u32 \<Rightarrow> apx_error \<times> 'v apx_vm_deserializer" where
  "apx_vm_deserializer_check_value_range_uint32 L self lower_limit upper_limit =
     on_state_rd (check_value_range_rd (lib_d L)
       APX_TYPE_CODE_UINT32 APX_VM_SCALAR_STORAGE_TYPE_UINT32 APX_TYPE_CODE_UINT32 APX_VM_SCALAR_STORAGE_TYPE_UINT32
       (\<lambda>u. apx_vm_value_in_range_i32 (get32 u) lower_limit upper_limit)) self"

definition apx_vm_deserializer_check_value_range_int64 ::
  "'v lib \<Rightarrow> 'v apx_vm_deserializer \<Rightarrow> u64 \<Rightarrow> u64 \<Rightarrow> apx_error \<times> 'v apx_vm_deserializer" where
  "apx_vm_deserializer_check_value_range_int64 L self lower_limit upper_limit =
     on_state_rd (check_value_range_rd (lib_d L)
       APX_TYPE_CODE_INT64 APX_VM_SCALAR_STORAGE_TYPE_INT64 APX_TYPE_CODE_INT32 APX_VM_SCALAR_STORAGE_TYPE_INT32
       (\<lambda>u. apx_vm_value_in_range_i64 u lower_limit upper_limit)) self"

definition apx_vm_deserializer_check_value_range_uint64 ::
  "'v lib \<Rightarrow> 'v apx_vm_deserializer \<Rightarrow> u64 \<Rightarrow> u64 \<Rightarrow> apx_error \<times> 'v apx_vm_deserializer" where
  "apx_vm_deserializer_check_value_range_uint64 L self lower_limit upper_limit =
     on_state_rd (check_value_range_rd (lib_d L)
       APX_TYPE_CODE_INT64 APX_VM_SCALAR_STORAGE_TYPE_INT64 APX_TYPE_CODE_INT32 APX_VM_SCALAR_STORAGE_TYPE_INT32
       (\<lambda>u. apx_vm_value_in_range_u64 u lower_limit upper_limit)) self"

definition apx_vm_deserializer_array_next ::
  "'v lib \<Rightarrow> 'v apx_vm_deserializer \<Rightarrow> apx_error \<times> bool \<times> 'v apx_vm_deserializer" where
  "apx_vm_deserializer_array_next L self =
     (let st = ds_state self
      in if rs_value_type st \<noteq> DTL_DV_ARRAY then (APX_VALUE_TYPE_ERROR, False, self)
         else if \<not> rs_array_len st > 0 then (APX_INTERNAL_ERROR, False, self)
         else
           let index = rs_index st + 1; self = self\<lparr>ds_state := st\<lparr>rs_index := index\<rparr>\<rparr>
           in if index = rs_array_len st then (APX_NO_ERROR, True, self)
              else if rs_type_code st \<noteq> APX_TYPE_CODE_RECORD then (APX_NOT_IMPLEMENTED_ERROR, False, self)
              else
                case andThen (deserializer_enter_new_child_state self) (\<lambda>self.
                     andThen (on_state_rd (state_init_hash_value (lib_d L)) self) (\<lambda>self.
                       (APX_NO_ERROR, self\<lparr>ds_state :=
                          state_set_type_and_size (ds_state self) APX_TYPE_CODE_RECORD 0\<rparr>))) of
                  (result, self) \<Rightarrow> (if is_fault result then result else APX_NO_ERROR, False, self))"

section \<open>Queues\<close>

definition apx_vm_deserializer_queued_read_begin ::
  "'v lib \<Rightarrow> 'v apx_vm_deserializer \<Rightarrow> u32 \<Rightarrow> u32 \<Rightarrow> apx_error \<times> 'v apx_vm_deserializer" where
  "apx_vm_deserializer_queued_read_begin L self element_size max_length =
     (if element_size > 0 \<and> max_length > 0 then
        let size_type = apx_vm_size_to_size_type max_length;
            self = self\<lparr>ds_queue := (ds_queue self)\<lparr>qr_element_size := element_size,
              qr_max_length := max_length, qr_is_active := True, qr_index := 0,
              qr_size_type := size_type\<rparr>\<rparr>
        in case rb_next (ds_buffer self) of
             None \<Rightarrow> (APX_NO_ERROR, self)
           | Some n \<Rightarrow>
               (case apx_vm_parse_uint32_by_size_type (lib_c L) (drop n (rb_data (ds_buffer self))) size_type of
                  None \<Rightarrow> (APX_BUFFER_BOUNDARY_ERROR, self)
                | Some (len, k) \<Rightarrow>
                    (case mem_read n k (rb_data (ds_buffer self)) of
                       None \<Rightarrow> (FAULT OUT_OF_BOUNDS, self)
                     | Some _ \<Rightarrow> (APX_NO_ERROR, set_next_rd (n + k)
                         (self\<lparr>ds_queue := (ds_queue self)\<lparr>qr_current_length := len\<rparr>\<rparr>))))
      else (APX_INVALID_ARGUMENT_ERROR, self))"

definition apx_vm_deserializer_queued_read_next ::
  "'v apx_vm_deserializer \<Rightarrow> apx_error \<times> bool option \<times> 'v apx_vm_deserializer" where
  "apx_vm_deserializer_queued_read_next self =
     (if qr_is_active (ds_queue self) then
        let self = self\<lparr>ds_queue := (ds_queue self)\<lparr>qr_index := qr_index (ds_queue self) + 1\<rparr>\<rparr>
        in if qr_index (ds_queue self) \<ge> qr_current_length (ds_queue self)
           then (APX_NO_ERROR, Some True, self\<lparr>ds_queue := (ds_queue self)\<lparr>qr_is_active := False\<rparr>\<rparr>)
           else (APX_NO_ERROR, Some False, self)
      else (APX_INTERNAL_ERROR, None, self))"

end
