(* ===== verification/Vm.thy ===== *)
theory Vm
  imports Decoder Deserializer
begin

text \<open>
  apx/src/vm.c: the interpreter of byte code programs. One iteration of the two interpreter
  loops is a step on the machine: it decodes an operation and performs it on the serializer or
  the deserializer. The loop itself may in principle go on for ever, so it is a partial function: \<open>None\<close>
  is a run that does not return.
\<close>

section \<open>State\<close>

record 'v apx_vm =
  vm_serializer :: "'v apx_vm_serializer"
  vm_deserializer :: "'v apx_vm_deserializer"
  vm_decoder :: apx_vm_decoder
  vm_program_header :: apx_programHeader

definition apx_vm_create :: "nat \<Rightarrow> nat \<Rightarrow> 'v apx_vm option" where
  "apx_vm_create write_heap read_heap =
     (case (apx_vm_serializer_create write_heap, apx_vm_deserializer_create read_heap) of
        (Some s, Some d) \<Rightarrow> Some \<lparr>vm_serializer = s, vm_deserializer = d,
          vm_decoder = apx_vm_decoder_create,
          vm_program_header = \<lparr>ph_program_type = APX_UNPACK_PROGRAM, ph_data_size = 0,
            ph_element_size = 0, ph_queue_length = 0, ph_has_dynamic_data = False\<rparr>\<rparr>
      | _ \<Rightarrow> None)"

text \<open>The byte array of a program has a data pointer when it is not empty.\<close>

definition apx_vm_select_program ::
  "'v lib \<Rightarrow> 'v apx_vm \<Rightarrow> byte list option \<Rightarrow> apx_error \<times> 'v apx_vm" where
  "apx_vm_select_program L self prog =
     (case prog of
        None \<Rightarrow> (APX_INVALID_ARGUMENT_ERROR, self)
      | Some bs \<Rightarrow>
          (case apx_vm_decoder_select_program (vm_decoder self) (if bs = [] then None else Some bs) of
             (result, d) \<Rightarrow>
               if result \<noteq> APX_NO_ERROR then (result, self\<lparr>vm_decoder := d\<rparr>)
               else case apx_vm_decoder_parse_program_header (lib_c L) d (vm_program_header self) of
                 (result, header, d) \<Rightarrow>
                   (result, self\<lparr>vm_decoder := d, vm_program_header := header\<rparr>)))"

definition on_serializer ::
  "('v apx_vm_serializer \<Rightarrow> apx_error \<times> 'v apx_vm_serializer) \<Rightarrow> 'v apx_vm \<Rightarrow> apx_error \<times> 'v apx_vm" where
  "on_serializer f self = (case f (vm_serializer self) of (e, s) \<Rightarrow> (e, self\<lparr>vm_serializer := s\<rparr>))"

definition on_deserializer ::
  "('v apx_vm_deserializer \<Rightarrow> apx_error \<times> 'v apx_vm_deserializer) \<Rightarrow> 'v apx_vm \<Rightarrow>
     apx_error \<times> 'v apx_vm" where
  "on_deserializer f self =
     (case f (vm_deserializer self) of (e, s) \<Rightarrow> (e, self\<lparr>vm_deserializer := s\<rparr>))"

definition apx_vm_set_write_buffer :: "'v apx_vm \<Rightarrow> byte list option \<Rightarrow> apx_error \<times> 'v apx_vm" where
  "apx_vm_set_write_buffer self data =
     on_serializer (\<lambda>s. apx_vm_serializer_set_write_buffer s data) self"

definition apx_vm_set_read_buffer :: "'v apx_vm \<Rightarrow> byte list option \<Rightarrow> apx_error \<times> 'v apx_vm" where
  "apx_vm_set_read_buffer self data =
     on_deserializer (\<lambda>s. apx_vm_deserializer_set_read_buffer s data) self"

definition apx_vm_get_bytes_written :: "'v apx_vm \<Rightarrow> nat" where
  "apx_vm_get_bytes_written self = apx_vm_serializer_bytes_written (vm_serializer self)"

definition apx_vm_get_bytes_read :: "'v apx_vm \<Rightarrow> nat" where
  "apx_vm_get_bytes_read self = apx_vm_deserializer_bytes_read (vm_deserializer self)"

definition is_pack_prog :: "'v apx_vm \<Rightarrow> bool" where
  "is_pack_prog self = (ph_program_type (vm_program_header self) = APX_PACK_PROGRAM)"

section \<open>Instructions\<close>

definition dynamic_size_type_of :: "apx_packUnpackOperationInfo \<Rightarrow> apx_sizeType" where
  "dynamic_size_type_of operation =
     (if info_is_dynamic_array operation then apx_vm_size_to_size_type (info_array_length operation)
      else APX_SIZE_TYPE_NONE)"

definition save_position_of_array :: "apx_packUnpackOperationInfo \<Rightarrow> 'v apx_vm \<Rightarrow> 'v apx_vm" where
  "save_position_of_array operation self =
     (if info_array_length operation > 0
      then self\<lparr>vm_decoder := apx_vm_decoder_save_program_position (vm_decoder self)\<rparr> else self)"

definition run_pack_instruction :: "'v lib \<Rightarrow> 'v apx_vm \<Rightarrow> apx_error \<times> 'v apx_vm" where
  "run_pack_instruction L self =
     (let operation = apx_vm_decoder_get_pack_unpack_info (vm_decoder self);
          dynamic_size_type = dynamic_size_type_of operation;
          pack = (\<lambda>f. on_serializer (\<lambda>s. f L s (info_array_length operation) dynamic_size_type) self)
      in case info_type_code operation of
           APX_TYPE_CODE_UINT8 \<Rightarrow> pack apx_vm_serializer_pack_uint8
         | APX_TYPE_CODE_UINT16 \<Rightarrow> pack apx_vm_serializer_pack_uint16
         | APX_TYPE_CODE_UINT32 \<Rightarrow> pack apx_vm_serializer_pack_uint32
         | APX_TYPE_CODE_UINT64 \<Rightarrow> pack apx_vm_serializer_pack_uint64
         | APX_TYPE_CODE_INT8 \<Rightarrow> pack apx_vm_serializer_pack_int8
         | APX_TYPE_CODE_INT16 \<Rightarrow> pack apx_vm_serializer_pack_int16
         | APX_TYPE_CODE_INT32 \<Rightarrow> pack apx_vm_serializer_pack_int32
         | APX_TYPE_CODE_INT64 \<Rightarrow> pack apx_vm_serializer_pack_int64
         | APX_TYPE_CODE_CHAR \<Rightarrow> pack apx_vm_serializer_pack_char
         | APX_TYPE_CODE_CHAR8 \<Rightarrow> pack apx_vm_serializer_pack_char8
         | APX_TYPE_CODE_BOOL \<Rightarrow> pack apx_vm_serializer_pack_bool
         | APX_TYPE_CODE_BYTE \<Rightarrow> pack apx_vm_serializer_pack_byte
         | APX_TYPE_CODE_RECORD \<Rightarrow>
             (case pack apx_vm_serializer_pack_record of
                (retval, self) \<Rightarrow> (retval, save_position_of_array operation self))
         | _ \<Rightarrow> (APX_NOT_IMPLEMENTED_ERROR, self))"

definition run_unpack_instruction :: "'v lib \<Rightarrow> 'v apx_vm \<Rightarrow> apx_error \<times> 'v apx_vm" where
  "run_unpack_instruction L self =
     (let operation = apx_vm_decoder_get_pack_unpack_info (vm_decoder self);
          dynamic_size_type = dynamic_size_type_of operation;
          unpack = (\<lambda>f. on_deserializer (\<lambda>s. f L s (info_array_length operation) dynamic_size_type) self)
      in case info_type_code operation of
           APX_TYPE_CODE_UINT8 \<Rightarrow> unpack apx_vm_deserializer_unpack_uint8
         | APX_TYPE_CODE_UINT16 \<Rightarrow> unpack apx_vm_deserializer_unpack_uint16
         | APX_TYPE_CODE_UINT32 \<Rightarrow> unpack apx_vm_deserializer_unpack_uint32
         | APX_TYPE_CODE_UINT64 \<Rightarrow> unpack apx_vm_deserializer_unpack_uint64
         | APX_TYPE_CODE_INT8 \<Rightarrow> unpack apx_vm_deserializer_unpack_int8
         | APX_TYPE_CODE_INT16 \<Rightarrow> unpack apx_vm_deserializer_unpack_int16
         | APX_TYPE_CODE_INT32 \<Rightarrow> unpack apx_vm_deserializer_unpack_int32
         | APX_TYPE_CODE_INT64 \<Rightarrow> unpack apx_vm_deserializer_unpack_int64
         | APX_TYPE_CODE_CHAR \<Rightarrow> unpack apx_vm_deserializer_unpack_char
         | APX_TYPE_CODE_CHAR8 \<Rightarrow> unpack apx_vm_deserializer_unpack_char8
         | APX_TYPE_CODE_BOOL \<Rightarrow> unpack apx_vm_deserializer_unpack_bool
         | APX_TYPE_CODE_BYTE \<Rightarrow> unpack apx_vm_deserializer_unpack_byte
         | APX_TYPE_CODE_RECORD \<Rightarrow>
             (case unpack apx_vm_deserializer_unpack_record of
                (retval, self) \<Rightarrow> (retval, save_position_of_array operation self))
         | _ \<Rightarrow> (APX_NOT_IMPLEMENTED_ERROR, self))"

definition run_range_check_pack_int32 :: "'v lib \<Rightarrow> 'v apx_vm \<Rightarrow> apx_error \<times> 'v apx_vm" where
  "run_range_check_pack_int32 L self =
     (let info = apx_vm_decoder_range_check_info_int32 (vm_decoder self)
      in on_serializer (\<lambda>s. apx_vm_serializer_check_value_range_int32 L s
           (lower_limit32 info) (upper_limit32 info)) self)"

definition run_range_check_pack_uint32 :: "'v lib \<Rightarrow> 'v apx_vm \<Rightarrow> apx_error \<times> 'v apx_vm" where
  "run_range_check_pack_uint32 L self =
     (let info = apx_vm_decoder_range_check_info_uint32 (vm_decoder self)
      in on_serializer (\<lambda>s. apx_vm_serializer_check_value_range_uint32 L s
           (lower_limit32 info) (upper_limit32 info)) self)"

definition run_range_check_pack_int64 :: "'v lib \<Rightarrow> 'v apx_vm \<Rightarrow> apx_error \<times> 'v apx_vm" where
  "run_range_check_pack_int64 L self =
     (let info = apx_vm_decoder_range_check_info_int64 (vm_decoder self)
      in on_serializer (\<lambda>s. apx_vm_serializer_check_value_range_int64 L s
           (lower_limit64 info) (upper_limit64 info)) self)"

definition run_range_check_pack_uint64 :: "'v lib \<Rightarrow> 'v apx_vm \<Rightarrow> apx_error \<times> 'v apx_vm" where
  "run_range_check_pack_uint64 L self =
     (let info = apx_vm_decoder_range_check_info_uint64 (vm_decoder self)
      in on_serializer (\<lambda>s. apx_vm_serializer_check_value_range_uint64 L s
           (lower_limit64 info) (upper_limit64 info)) self)"

definition run_range_check_unpack_int32 :: "'v lib \<Rightarrow> 'v apx_vm \<Rightarrow> apx_error \<times> 'v apx_vm" where
  "run_range_check_unpack_int32 L self =
     (let info = apx_vm_decoder_range_check_info_int32 (vm_decoder self)
      in on_deserializer (\<lambda>s. apx_vm_deserializer_check_value_range_int32 L s
           (lower_limit32 info) (upper_limit32 info)) self)"

definition run_range_check_unpack_uint32 :: "'v lib \<Rightarrow> 'v apx_vm \<Rightarrow> apx_error \<times> 'v apx_vm" where
  "run_range_check_unpack_uint32 L self =
     (let info = apx_vm_decoder_range_check_info_uint32 (vm_decoder self)
      in on_deserializer (\<lambda>s. apx_vm_deserializer_check_value_range_uint32 L s
           (lower_limit32 info) (upper_limit32 info)) self)"

definition run_range_check_unpack_int64 :: "'v lib \<Rightarrow> 'v apx_vm \<Rightarrow> apx_error \<times> 'v apx_vm" where
  "run_range_check_unpack_int64 L self =
     (let info = apx_vm_decoder_range_check_info_int64 (vm_decoder self)
      in on_deserializer (\<lambda>s. apx_vm_deserializer_check_value_range_int64 L s
           (lower_limit64 info) (upper_limit64 info)) self)"

definition run_range_check_unpack_uint64 :: "'v lib \<Rightarrow> 'v apx_vm \<Rightarrow> apx_error \<times> 'v apx_vm" where
  "run_range_check_unpack_uint64 L self =
     (let info = apx_vm_decoder_range_check_info_uint64 (vm_decoder self)
      in on_deserializer (\<lambda>s. apx_vm_deserializer_check_value_range_uint64 L s
           (lower_limit64 info) (upper_limit64 info)) self)"

definition run_pack_record_select :: "'v lib \<Rightarrow> 'v apx_vm \<Rightarrow> apx_error \<times> 'v apx_vm" where
  "run_pack_record_select L self =
     on_serializer (\<lambda>s. apx_vm_serializer_record_select L s
       (apx_vm_decoder_get_field_name (vm_decoder self))
       (apx_vm_decoder_is_last_field (vm_decoder self))) self"

definition run_unpack_record_select :: "'v lib \<Rightarrow> 'v apx_vm \<Rightarrow> apx_error \<times> 'v apx_vm" where
  "run_unpack_record_select L self =
     on_deserializer (\<lambda>s. apx_vm_deserializer_record_select L s
       (apx_vm_decoder_get_field_name (vm_decoder self))
       (apx_vm_decoder_is_last_field (vm_decoder self))) self"

definition run_array_next :: "'v lib \<Rightarrow> 'v apx_vm \<Rightarrow> apx_error \<times> 'v apx_vm" where
  "run_array_next L self =
     (case (if is_pack_prog self then
              (case apx_vm_serializer_array_next L (vm_serializer self) of
                 (result, is_last_index, s) \<Rightarrow> (result, is_last_index, self\<lparr>vm_serializer := s\<rparr>))
            else
              (case apx_vm_deserializer_array_next L (vm_deserializer self) of
                 (result, is_last_index, s) \<Rightarrow> (result, is_last_index, self\<lparr>vm_deserializer := s\<rparr>))) of
        (result, is_last_index, self) \<Rightarrow>
          if result \<noteq> APX_NO_ERROR then (result, self)
          else if is_last_index then (APX_NO_ERROR, self)
          else if apx_vm_decoder_has_saved_program_position (vm_decoder self) then
            (APX_NO_ERROR, self\<lparr>vm_decoder := apx_vm_decoder_recall_program_position (vm_decoder self)\<rparr>)
          else (APX_INVALID_INSTRUCTION_ERROR, self))"

section \<open>The interpreter loops\<close>

text \<open>
  One iteration: the result, whether the loop goes on when there is no error, and the machine
  afterwards.
\<close>

definition step_pack_program :: "'v lib \<Rightarrow> 'v apx_vm \<Rightarrow> apx_error \<times> bool \<times> 'v apx_vm" where
  "step_pack_program L self =
     (case apx_vm_decoder_parse_next_operation (lib_c L) (lib_t L) (vm_decoder self) of
        (result, op, d) \<Rightarrow>
          let self = self\<lparr>vm_decoder := d\<rparr>;
              going = (\<lambda>r. case r of (e, self) \<Rightarrow> (e, True, self))
          in case op of
               None \<Rightarrow> (result, True, self)
             | Some APX_OPERATION_TYPE_UNPACK \<Rightarrow> (APX_INVALID_INSTRUCTION_ERROR, True, self)
             | Some APX_OPERATION_TYPE_PACK \<Rightarrow> going (run_pack_instruction L self)
             | Some APX_OPERATION_TYPE_RANGE_CHECK_INT32 \<Rightarrow> going (run_range_check_pack_int32 L self)
             | Some APX_OPERATION_TYPE_RANGE_CHECK_UINT32 \<Rightarrow> going (run_range_check_pack_uint32 L self)
             | Some APX_OPERATION_TYPE_RANGE_CHECK_INT64 \<Rightarrow> going (run_range_check_pack_int64 L self)
             | Some APX_OPERATION_TYPE_RANGE_CHECK_UINT64 \<Rightarrow> going (run_range_check_pack_uint64 L self)
             | Some APX_OPERATION_TYPE_RECORD_SELECT \<Rightarrow> going (run_pack_record_select L self)
             | Some APX_OPERATION_TYPE_ARRAY_NEXT \<Rightarrow> going (run_array_next L self)
             | Some APX_OPERATION_TYPE_PROGRAM_END \<Rightarrow> (APX_NO_ERROR, False, self))"

definition step_unpack_program :: "'v lib \<Rightarrow> 'v apx_vm \<Rightarrow> apx_error \<times> bool \<times> 'v apx_vm" where
  "step_unpack_program L self =
     (case apx_vm_decoder_parse_next_operation (lib_c L) (lib_t L) (vm_decoder self) of
        (result, op, d) \<Rightarrow>
          let self = self\<lparr>vm_decoder := d\<rparr>;
              going = (\<lambda>r. case r of (e, self) \<Rightarrow> (e, True, self))
          in case op of
               None \<Rightarrow> (result, True, self)
             | Some APX_OPERATION_TYPE_UNPACK \<Rightarrow> going (run_unpack_instruction L self)
             | Some APX_OPERATION_TYPE_PACK \<Rightarrow> (APX_INVALID_INSTRUCTION_ERROR, True, self)
             | Some APX_OPERATION_TYPE_RANGE_CHECK_INT32 \<Rightarrow> going (run_range_check_unpack_int32 L self)
             | Some APX_OPERATION_TYPE_RANGE_CHECK_UINT32 \<Rightarrow> going (run_range_check_unpack_uint32 L self)
             | Some APX_OPERATION_TYPE_RANGE_CHECK_INT64 \<Rightarrow> going (run_range_check_unpack_int64 L self)
             | Some APX_OPERATION_TYPE_RANGE_CHECK_UINT64 \<Rightarrow> going (run_range_check_unpack_uint64 L self)
             | Some APX_OPERATION_TYPE_RECORD_SELECT \<Rightarrow> going (run_unpack_record_select L self)
             | Some APX_OPERATION_TYPE_ARRAY_NEXT \<Rightarrow> going (run_array_next L self)
             | Some APX_OPERATION_TYPE_PROGRAM_END \<Rightarrow> (APX_NO_ERROR, False, self))"

partial_function (option) run_loop ::
  "('s \<Rightarrow> apx_error \<times> bool \<times> 's) \<Rightarrow> 's \<Rightarrow> (apx_error \<times> 's) option" where
  "run_loop step s =
     (case step s of (e, going, s') \<Rightarrow>
        if e = APX_NO_ERROR \<and> going then run_loop step s' else Some (e, s'))"

definition run_pack_program :: "'v lib \<Rightarrow> 'v apx_vm \<Rightarrow> (apx_error \<times> 'v apx_vm) option" where
  "run_pack_program L = run_loop (step_pack_program L)"

definition run_unpack_program :: "'v lib \<Rightarrow> 'v apx_vm \<Rightarrow> (apx_error \<times> 'v apx_vm) option" where
  "run_unpack_program L = run_loop (step_unpack_program L)"

section \<open>Packing and unpacking a value\<close>

definition apx_vm_pack_value ::
  "'v lib \<Rightarrow> 'v apx_vm \<Rightarrow> 'v option \<Rightarrow> (apx_error \<times> 'v apx_vm) option" where
  "apx_vm_pack_value L self dv =
     (if ph_program_type (vm_program_header self) \<noteq> APX_PACK_PROGRAM
      then Some (APX_INVALID_PROGRAM_ERROR, self)
      else case on_serializer (\<lambda>s. apx_vm_serializer_set_value_dv L s dv) self of
        (retval, self) \<Rightarrow>
          if retval = APX_NO_ERROR then run_pack_program L self else Some (retval, self))"

definition take_result :: "'v apx_vm \<Rightarrow> apx_error \<times> 'v option \<times> 'v apx_vm" where
  "take_result self =
     (let taken = (\<lambda>r. case r of (v, d) \<Rightarrow> (APX_NO_ERROR, v, self\<lparr>vm_deserializer := d\<rparr>))
      in case apx_vm_deserializer_value_type (vm_deserializer self) of
           DTL_DV_SCALAR \<Rightarrow> taken (apx_vm_deserializer_take_sv (vm_deserializer self))
         | DTL_DV_ARRAY \<Rightarrow> taken (apx_vm_deserializer_take_av (vm_deserializer self))
         | DTL_DV_HASH \<Rightarrow> taken (apx_vm_deserializer_take_hv (vm_deserializer self))
         | _ \<Rightarrow> (APX_VALUE_TYPE_ERROR, None, self))"

definition apx_vm_unpack_value ::
  "'v lib \<Rightarrow> 'v apx_vm \<Rightarrow> (apx_error \<times> 'v option \<times> 'v apx_vm) option" where
  "apx_vm_unpack_value L self =
     (if ph_program_type (vm_program_header self) \<noteq> APX_UNPACK_PROGRAM
      then Some (APX_INVALID_PROGRAM_ERROR, None, self)
      else case run_unpack_program L self of
        None \<Rightarrow> None
      | Some (retval, self) \<Rightarrow>
          Some (if retval = APX_NO_ERROR then take_result self else (retval, None, self)))"

end
