(* ===== verification/DataElement.thy ===== *)
theory DataElement
  imports VmCommon
begin

text \<open>
  apx/src/data_element.c and the part of data_type.c that follows type references: the tree
  that describes the data of a port. The C structures point to each other, so the model is
  a datatype: a data element has an optional list of child elements, and a type reference
  may point to a data type with a data element of its own. The limits are unions; their
  32 bit members are the low half of the word (little-endian host).
\<close>

abbreviation (input) APX_INVALID_ELEMENT_ID :: u32 where "APX_INVALID_ELEMENT_ID \<equiv> 0xFFFFFFFF"
abbreviation (input) APX_INVALID_TYPE_ID :: u32 where "APX_INVALID_TYPE_ID \<equiv> 0xFFFFFFFF"
abbreviation (input) MAX_TYPE_REF_FOLLOW_COUNT :: nat where "MAX_TYPE_REF_FOLLOW_COUNT \<equiv> 255"

section \<open>Data\<close>

datatype apx_dataElement =
  DataElement
    (de_name: "byte list option")
    (de_elements: "apx_dataElement list option")
    (de_array_len: u32)
    (de_element_id: u32)
    (de_type_code: apx_typeCode)
    (de_is_dynamic_array: bool)
    (de_has_limits: bool)
    (de_lower_limit: u64)
    (de_upper_limit: u64)
    (de_type_ref: apx_typeRef)
and apx_typeRef =
    TypeRefId u32
  | TypeRefName "byte list option"
  | TypeRefPtr "apx_dataType option"
and apx_dataType =
  DataType
    (dt_name: "byte list option")
    (dt_data_element: "apx_dataElement option")
    (dt_type_id: u32)

section \<open>Construction and access\<close>

definition apx_dataElement_create :: "apx_typeCode \<Rightarrow> apx_dataElement" where
  "apx_dataElement_create type_code =
     DataElement None (if type_code = APX_TYPE_CODE_RECORD then Some [] else None) 0
       APX_INVALID_ELEMENT_ID type_code False False 0 0
       (if type_code = APX_TYPE_CODE_REF_NAME then TypeRefName None else TypeRefId APX_INVALID_TYPE_ID)"

fun apx_dataElement_set_name_cstr :: "apx_dataElement \<Rightarrow> byte list \<Rightarrow> apx_dataElement" where
  "apx_dataElement_set_name_cstr (DataElement nm es al ei tc dy hl lo up tr) name =
     DataElement (Some name) es al ei tc dy hl lo up tr"

definition apx_dataElement_get_name :: "apx_dataElement \<Rightarrow> byte list option" where
  "apx_dataElement_get_name self = de_name self"

definition apx_dataElement_get_type_code :: "apx_dataElement option \<Rightarrow> apx_typeCode" where
  "apx_dataElement_get_type_code self =
     (case self of None \<Rightarrow> APX_TYPE_CODE_NONE | Some de \<Rightarrow> de_type_code de)"

definition apx_dataElement_has_limits :: "apx_dataElement \<Rightarrow> bool" where
  "apx_dataElement_has_limits self = de_has_limits self"

fun apx_dataElement_init_record_type :: "apx_dataElement \<Rightarrow> apx_dataElement" where
  "apx_dataElement_init_record_type (DataElement nm es al ei tc dy hl lo up tr) =
     DataElement nm (Some []) al ei APX_TYPE_CODE_RECORD dy hl lo up tr"

fun apx_dataElement_set_array_length :: "apx_dataElement \<Rightarrow> u32 \<Rightarrow> apx_dataElement" where
  "apx_dataElement_set_array_length (DataElement nm es al ei tc dy hl lo up tr) array_len =
     DataElement nm es array_len ei tc dy hl lo up tr"

definition apx_dataElement_get_array_length :: "apx_dataElement \<Rightarrow> u32" where
  "apx_dataElement_get_array_length self = de_array_len self"

definition apx_dataElement_is_array :: "apx_dataElement \<Rightarrow> bool" where
  "apx_dataElement_is_array self = (de_array_len self > 0)"

fun apx_dataElement_set_dynamic_array :: "apx_dataElement \<Rightarrow> apx_dataElement" where
  "apx_dataElement_set_dynamic_array (DataElement nm es al ei tc dy hl lo up tr) =
     DataElement nm es al ei tc True hl lo up tr"

definition apx_dataElement_is_dynamic_array :: "apx_dataElement \<Rightarrow> bool" where
  "apx_dataElement_is_dynamic_array self = de_is_dynamic_array self"

fun apx_dataElement_set_type_ref_id :: "apx_dataElement \<Rightarrow> u32 \<Rightarrow> apx_dataElement" where
  "apx_dataElement_set_type_ref_id (DataElement nm es al ei tc dy hl lo up tr) type_id =
     DataElement nm es al ei APX_TYPE_CODE_REF_ID dy hl lo up (TypeRefId type_id)"

definition apx_dataElement_get_type_ref_id :: "apx_dataElement \<Rightarrow> u32" where
  "apx_dataElement_get_type_ref_id self =
     (if de_type_code self = APX_TYPE_CODE_REF_ID
      then (case de_type_ref self of TypeRefId i \<Rightarrow> i | _ \<Rightarrow> APX_INVALID_TYPE_ID)
      else APX_INVALID_TYPE_ID)"

definition apx_dataElement_get_type_ref_name :: "apx_dataElement \<Rightarrow> byte list option" where
  "apx_dataElement_get_type_ref_name self =
     (if de_type_code self = APX_TYPE_CODE_REF_NAME
      then (case de_type_ref self of TypeRefName n \<Rightarrow> n | _ \<Rightarrow> None) else None)"

fun apx_dataElement_set_type_ref_ptr :: "apx_dataElement \<Rightarrow> apx_dataType option \<Rightarrow> apx_dataElement" where
  "apx_dataElement_set_type_ref_ptr (DataElement nm es al ei tc dy hl lo up tr) ptr =
     DataElement nm es al ei APX_TYPE_CODE_REF_PTR dy hl lo up (TypeRefPtr ptr)"

definition apx_dataElement_get_type_ref_ptr :: "apx_dataElement \<Rightarrow> apx_dataType option" where
  "apx_dataElement_get_type_ref_ptr self =
     (if de_type_code self = APX_TYPE_CODE_REF_PTR
      then (case de_type_ref self of TypeRefPtr p \<Rightarrow> p | _ \<Rightarrow> None) else None)"

fun apx_dataElement_append_child :: "apx_dataElement \<Rightarrow> apx_dataElement \<Rightarrow> apx_dataElement" where
  "apx_dataElement_append_child (DataElement nm es al ei tc dy hl lo up tr) child =
     (if tc = APX_TYPE_CODE_RECORD
      then DataElement nm (Some (the_default [] es @ [child])) al ei tc dy hl lo up tr
      else DataElement nm es al ei tc dy hl lo up tr)"

definition apx_dataElement_get_num_child_elements :: "apx_dataElement \<Rightarrow> int" where
  "apx_dataElement_get_num_child_elements self =
     (case de_elements self of None \<Rightarrow> -1 | Some es \<Rightarrow> int (length es))"

section \<open>Limits\<close>

text \<open>The setters of 32 bits leave the high half of the union as it is.\<close>

definition low32 :: "u64 \<Rightarrow> u32 \<Rightarrow> u64" where
  "low32 u x = (u AND 0xFFFFFFFF00000000) OR ucast x"

fun set_limits :: "apx_dataElement \<Rightarrow> (u64 \<Rightarrow> u64) \<Rightarrow> (u64 \<Rightarrow> u64) \<Rightarrow> apx_dataElement" where
  "set_limits (DataElement nm es al ei tc dy hl lo up tr) f g =
     DataElement nm es al ei tc dy True (f lo) (g up) tr"

definition apx_dataElement_set_limits_int32 :: "apx_dataElement \<Rightarrow> u32 \<Rightarrow> u32 \<Rightarrow> apx_dataElement" where
  "apx_dataElement_set_limits_int32 self lower upper =
     set_limits self (\<lambda>u. low32 u lower) (\<lambda>u. low32 u upper)"

definition apx_dataElement_set_limits_int64 :: "apx_dataElement \<Rightarrow> u64 \<Rightarrow> u64 \<Rightarrow> apx_dataElement" where
  "apx_dataElement_set_limits_int64 self lower upper = set_limits self (\<lambda>_. lower) (\<lambda>_. upper)"

definition apx_dataElement_set_limits_uint32 :: "apx_dataElement \<Rightarrow> u32 \<Rightarrow> u32 \<Rightarrow> apx_dataElement" where
  "apx_dataElement_set_limits_uint32 self lower upper =
     set_limits self (\<lambda>u. low32 u lower) (\<lambda>u. low32 u upper)"

definition apx_dataElement_set_limits_uint64 :: "apx_dataElement \<Rightarrow> u64 \<Rightarrow> u64 \<Rightarrow> apx_dataElement" where
  "apx_dataElement_set_limits_uint64 self lower upper = set_limits self (\<lambda>_. lower) (\<lambda>_. upper)"

definition apx_dataElement_get_limits_int32 :: "apx_dataElement \<Rightarrow> (u32 \<times> u32) option" where
  "apx_dataElement_get_limits_int32 self =
     (if de_has_limits self then Some (ucast (de_lower_limit self), ucast (de_upper_limit self)) else None)"

definition apx_dataElement_get_limits_int64 :: "apx_dataElement \<Rightarrow> (u64 \<times> u64) option" where
  "apx_dataElement_get_limits_int64 self =
     (if de_has_limits self then Some (de_lower_limit self, de_upper_limit self) else None)"

definition apx_dataElement_get_limits_uint32 :: "apx_dataElement \<Rightarrow> (u32 \<times> u32) option" where
  "apx_dataElement_get_limits_uint32 self =
     (if de_has_limits self then Some (ucast (de_lower_limit self), ucast (de_upper_limit self)) else None)"

definition apx_dataElement_get_limits_uint64 :: "apx_dataElement \<Rightarrow> (u64 \<times> u64) option" where
  "apx_dataElement_get_limits_uint64 self =
     (if de_has_limits self then Some (de_lower_limit self, de_upper_limit self) else None)"

section \<open>Following type references\<close>

text \<open>
  The loop of \<open>apx_dataType_derive_data_element\<close>: the current element, the parent found so far and
  the number of references followed. It stops at the first element that is no reference,
  at a null pointer, or after one reference too many.
\<close>

lemma size_type_ref_ptr:
  "apx_dataElement_get_type_ref_ptr de = Some dt \<Longrightarrow> dt_data_element dt = Some d \<Longrightarrow> size d < size de"
  by (cases de; cases dt)
    (auto simp: apx_dataElement_get_type_ref_ptr_def split: if_splits apx_typeRef.splits)

function (sequential) follow_references ::
  "apx_dataElement option \<Rightarrow> apx_dataElement option \<Rightarrow> nat \<Rightarrow>
     apx_error \<times> apx_dataElement option \<times> apx_dataElement option \<times> nat" where
  "follow_references None parent count = (APX_NO_ERROR, None, parent, count)"
| "follow_references (Some de) parent count =
     (if de_type_code de = APX_TYPE_CODE_REF_ID \<or> de_type_code de = APX_TYPE_CODE_REF_NAME
      then (FAULT ASSERT_FAILURE, Some de, parent, count)
      else if de_type_code de = APX_TYPE_CODE_REF_PTR then
        (case apx_dataElement_get_type_ref_ptr de of
           None \<Rightarrow> (APX_NULL_PTR_ERROR, Some de, parent, count)
         | Some dt \<Rightarrow>
             (case dt_data_element dt of
                None \<Rightarrow> (APX_NULL_PTR_ERROR, None, Some de, Suc count)
              | Some d \<Rightarrow>
                  if Suc count \<le> MAX_TYPE_REF_FOLLOW_COUNT
                  then follow_references (Some d) (Some de) (Suc count)
                  else (APX_NO_ERROR, Some d, Some de, Suc count)))
      else (APX_NO_ERROR, Some de, parent, count))"
  by pat_completeness auto

termination
  by (relation "measure (\<lambda>(d, _, _). size_option size d)") (auto dest: size_type_ref_ptr)

declare follow_references.simps(2) [simp del]

definition apx_dataType_derive_data_element ::
  "apx_dataType \<Rightarrow> apx_error \<times> apx_dataElement option \<times> apx_dataElement option" where
  "apx_dataType_derive_data_element self =
     (case follow_references (dt_data_element self) None 0 of
        (retval, data_element, parent, count) \<Rightarrow>
          (if is_fault retval then retval
           else if count > MAX_TYPE_REF_FOLLOW_COUNT then APX_TOO_MANY_REFERENCES_ERROR else retval,
           data_element, parent))"

definition apx_dataElement_derive_data_element ::
  "apx_dataElement \<Rightarrow> apx_error \<times> apx_dataElement option \<times> apx_dataElement option" where
  "apx_dataElement_derive_data_element self =
     (if de_type_code self = APX_TYPE_CODE_REF_ID \<or> de_type_code self = APX_TYPE_CODE_REF_NAME
      then (APX_UNSUPPORTED_ERROR, Some self, None)
      else if de_type_code self = APX_TYPE_CODE_REF_PTR then
        (case apx_dataElement_get_type_ref_ptr self of
           None \<Rightarrow> (APX_NULL_PTR_ERROR, Some self, None)
         | Some data_type \<Rightarrow>
             (case apx_dataType_derive_data_element data_type of
                (retval, None, parent) \<Rightarrow> (FAULT ASSERT_FAILURE, None, parent)
              | (retval, Some de, parent) \<Rightarrow> (retval, Some de, parent)))
      else (APX_NO_ERROR, Some self, None))"

section \<open>Lemmas\<close>

lemma follow_references_size:
  "follow_references d parent count = (e, Some d', parent', count') \<Longrightarrow>
     size d' \<le> size_option size d - 1 \<and> d \<noteq> None"
proof (induction d parent count rule: follow_references.induct)
  case (1 parent count)
  then show ?case by simp
next
  case (2 de parent count)
  note r = trans [OF follow_references.simps(2) [symmetric] "2.prems"]
  show ?case
  proof (cases "de_type_code de = APX_TYPE_CODE_REF_PTR")
    case False
    with r show ?thesis by (auto split: if_splits)
  next
    case tc: True
    show ?thesis
    proof (cases "apx_dataElement_get_type_ref_ptr de")
      case None
      with r tc show ?thesis by simp
    next
      case ptr: (Some dt)
      with r tc obtain dd where dd: "dt_data_element dt = Some dd"
        by (cases "dt_data_element dt") auto
      note smaller = size_type_ref_ptr [OF ptr dd]
      show ?thesis
      proof (cases "Suc count \<le> MAX_TYPE_REF_FOLLOW_COUNT")
        case False
        with r tc ptr dd smaller show ?thesis by auto
      next
        case True
        with r tc ptr dd have "follow_references (Some dd) (Some de) (Suc count) = (e, Some d', parent', count')"
          by simp
        from "2.IH" [OF _ tc ptr dd True this] tc smaller show ?thesis by simp
      qed
    qed
  qed
qed

lemma derive_data_element_size:
  assumes "apx_dataElement_derive_data_element de = (e, Some d, parent)"
  shows "size d \<le> size de"
proof (cases "de_type_code de = APX_TYPE_CODE_REF_PTR")
  case False
  with assms show ?thesis by (auto simp: apx_dataElement_derive_data_element_def split: if_splits)
next
  case True
  show ?thesis
  proof (cases "apx_dataElement_get_type_ref_ptr de")
    case None
    with True assms show ?thesis by (simp add: apx_dataElement_derive_data_element_def)
  next
    case (Some dt)
    obtain e' d' p' c' where f: "follow_references (dt_data_element dt) None 0 = (e', d', p', c')"
      by (metis prod_cases4)
    from True Some assms f have "d' = Some d"
      by (auto simp: apx_dataElement_derive_data_element_def apx_dataType_derive_data_element_def
          split: option.splits)
    with f have "size d \<le> size_option size (dt_data_element dt) - 1 \<and> dt_data_element dt \<noteq> None"
      using follow_references_size by blast
    then obtain d0 where "dt_data_element dt = Some d0" "size d \<le> size d0" by auto
    with size_type_ref_ptr [OF Some] show ?thesis by simp
  qed
qed

end
