(* ===== verification/Compiler.thy ===== *)
theory Compiler
  imports Program Decoder DataElement
begin

text \<open>
  apx/src/compiler.c: the compiler from data elements to byte code. The compiler object holds
  the program under construction (\<open>None\<close> for the null pointer); the private functions are only
  called when there is one and work on its bytes. The size a C function stores through its
  out-parameter is threaded as a \<open>u32\<close>, with the wrap-around of its arithmetic. Memory for a
  program object is taken to be available; what can fail is the byte array of the library.
\<close>

abbreviation (input) APX_MAX_NAME_LEN :: nat where "APX_MAX_NAME_LEN \<equiv> 256"

section \<open>State\<close>

record apx_compiler =
  cc_program :: "byte list option"
  cc_last_error :: apx_error
  cc_has_dynamic_data :: bool

definition apx_compiler_create :: apx_compiler where
  "apx_compiler_create = \<lparr>cc_program = None, cc_last_error = APX_NO_ERROR, cc_has_dynamic_data = False\<rparr>"

definition reset_internal_state :: "apx_compiler \<Rightarrow> apx_compiler" where
  "reset_internal_state self =
     self\<lparr>cc_last_error := APX_NO_ERROR, cc_has_dynamic_data := False, cc_program := None\<rparr>"

text \<open>A byte array operation of the library on the program, its error code converted.\<close>

definition on_program ::
  "(byte list \<Rightarrow> adt_error \<times> byte list) \<Rightarrow> apx_compiler \<Rightarrow> apx_error \<times> apx_compiler" where
  "on_program f self =
     (case cc_program self of
        None \<Rightarrow> (FAULT OUT_OF_BOUNDS, self)
      | Some p \<Rightarrow> (case f p of (rc, p) \<Rightarrow>
          (convert_from_adt_to_apx_error rc, self\<lparr>cc_program := Some p\<rparr>)))"

definition push_byte :: "adt \<Rightarrow> byte \<Rightarrow> apx_compiler \<Rightarrow> apx_error \<times> apx_compiler" where
  "push_byte A b = on_program (\<lambda>p. bytearray_push A p b)"

definition append_bytes :: "adt \<Rightarrow> byte list \<Rightarrow> apx_compiler \<Rightarrow> apx_error \<times> apx_compiler" where
  "append_bytes A bs = on_program (\<lambda>p. bytearray_append A p bs)"

section \<open>Limits, array sizes, record fields\<close>

definition compile_limit_values_int32 ::
  "adt \<Rightarrow> cutil \<Rightarrow> apx_compiler \<Rightarrow> byte \<Rightarrow> u32 \<Rightarrow> u32 \<Rightarrow> apx_error \<times> apx_compiler" where
  "compile_limit_values_int32 A C self limit_variant lower_limit upper_limit =
     (let pack = (\<lambda>n. append_bytes A (packLE C lower_limit n @ packLE C upper_limit n) self)
      in if limit_variant = APX_VM_VARIANT_LIMIT_CHECK_S8 then pack UINT8_SIZE
         else if limit_variant = APX_VM_VARIANT_LIMIT_CHECK_S16 then pack UINT16_SIZE
         else if limit_variant = APX_VM_VARIANT_LIMIT_CHECK_S32 then pack UINT32_SIZE
         else (APX_UNSUPPORTED_ERROR, self))"

definition compile_limit_values_uint32 ::
  "adt \<Rightarrow> cutil \<Rightarrow> apx_compiler \<Rightarrow> byte \<Rightarrow> u32 \<Rightarrow> u32 \<Rightarrow> apx_error \<times> apx_compiler" where
  "compile_limit_values_uint32 A C self limit_variant lower_limit upper_limit =
     (let pack = (\<lambda>n. append_bytes A (packLE C lower_limit n @ packLE C upper_limit n) self)
      in if limit_variant = APX_VM_VARIANT_LIMIT_CHECK_U8 then pack UINT8_SIZE
         else if limit_variant = APX_VM_VARIANT_LIMIT_CHECK_U16 then pack UINT16_SIZE
         else if limit_variant = APX_VM_VARIANT_LIMIT_CHECK_U32 then pack UINT32_SIZE
         else (APX_UNSUPPORTED_ERROR, self))"

definition compile_limit_values_int64 ::
  "adt \<Rightarrow> cutil \<Rightarrow> apx_compiler \<Rightarrow> byte \<Rightarrow> u64 \<Rightarrow> u64 \<Rightarrow> apx_error \<times> apx_compiler" where
  "compile_limit_values_int64 A C self limit_variant lower_limit upper_limit =
     (if limit_variant = APX_VM_VARIANT_LIMIT_CHECK_S64
      then append_bytes A (packLE64 C lower_limit UINT64_SIZE @ packLE64 C upper_limit UINT64_SIZE) self
      else (APX_UNSUPPORTED_ERROR, self))"

definition compile_limit_values_uint64 ::
  "adt \<Rightarrow> cutil \<Rightarrow> apx_compiler \<Rightarrow> byte \<Rightarrow> u64 \<Rightarrow> u64 \<Rightarrow> apx_error \<times> apx_compiler" where
  "compile_limit_values_uint64 A C self limit_variant lower_limit upper_limit =
     (if limit_variant = APX_VM_VARIANT_LIMIT_CHECK_U64
      then append_bytes A (packLE64 C lower_limit UINT64_SIZE @ packLE64 C upper_limit UINT64_SIZE) self
      else (APX_UNSUPPORTED_ERROR, self))"

definition compile_limit_instruction ::
  "adt \<Rightarrow> cutil \<Rightarrow> apx_compiler \<Rightarrow> apx_dataElement \<Rightarrow> bool \<Rightarrow> bool \<Rightarrow> bool \<Rightarrow> byte \<Rightarrow>
     apx_error \<times> apx_compiler" where
  "compile_limit_instruction A C self data_element is_signed_type is_64_bit_type is_array limit_variant =
     (if limit_variant \<noteq> APX_VM_VARIANT_LIMIT_CHECK_NONE then
        andThen (push_byte A (apx_program_encode_instruction APX_VM_OPCODE_DATA_CTRL limit_variant is_array) self)
          (\<lambda>self.
             let values = (\<lambda>limits compile. case limits of
                   Some (lower_limit, upper_limit) \<Rightarrow> compile lower_limit upper_limit
                 | None \<Rightarrow> (APX_VALUE_CONVERSION_ERROR, self));
                 values64 = (\<lambda>limits compile. case limits of
                   Some (lower_limit, upper_limit) \<Rightarrow> compile lower_limit upper_limit
                 | None \<Rightarrow> (APX_VALUE_CONVERSION_ERROR, self))
             in if is_64_bit_type then
                  (if is_signed_type then values64 (apx_dataElement_get_limits_int64 data_element)
                     (compile_limit_values_int64 A C self limit_variant)
                   else values64 (apx_dataElement_get_limits_uint64 data_element)
                     (compile_limit_values_uint64 A C self limit_variant))
                else
                  (if is_signed_type then values (apx_dataElement_get_limits_int32 data_element)
                     (compile_limit_values_int32 A C self limit_variant)
                   else values (apx_dataElement_get_limits_uint32 data_element)
                     (compile_limit_values_uint32 A C self limit_variant)))
      else (APX_UNSUPPORTED_ERROR, self))"

definition compile_array_size_instruction ::
  "adt \<Rightarrow> cutil \<Rightarrow> apx_compiler \<Rightarrow> u32 \<Rightarrow> bool \<Rightarrow> apx_error \<times> apx_compiler" where
  "compile_array_size_instruction A C self array_size is_dynamic_array =
     (let (variant, encoded_size) =
            (if array_size > 0xFFFF then (APX_VM_VARIANT_ARRAY_SIZE_U32, UINT32_SIZE)
             else if array_size > 0xFF then (APX_VM_VARIANT_ARRAY_SIZE_U16, UINT16_SIZE)
             else (APX_VM_VARIANT_ARRAY_SIZE_U8, UINT8_SIZE))
      in andThen
        (push_byte A (apx_program_encode_instruction APX_VM_OPCODE_DATA_SIZE variant is_dynamic_array) self)
        (append_bytes A (packLE C array_size encoded_size)))"

definition compile_record_select_instruction ::
  "adt \<Rightarrow> apx_compiler \<Rightarrow> apx_dataElement \<Rightarrow> bool \<Rightarrow> apx_error \<times> apx_compiler" where
  "compile_record_select_instruction A self data_element is_last_field =
     (case apx_dataElement_get_name data_element of
        None \<Rightarrow> (APX_NAME_MISSING_ERROR, self)
      | Some name \<Rightarrow>
          let text = takeWhile (\<lambda>c. c \<noteq> 0) name; name_size = length text
          in if name_size = 0 then (APX_NAME_MISSING_ERROR, self)
             else if name_size > APX_MAX_NAME_LEN then (APX_NAME_TOO_LONG_ERROR, self)
             else
               andThen (push_byte A (apx_program_encode_instruction APX_VM_OPCODE_DATA_CTRL
                   APX_VM_VARIANT_RECORD_SELECT is_last_field) self) (\<lambda>self.
               andThen (append_bytes A text self) (\<lambda>self.
               push_byte A 0 self)))"

definition compile_array_next_instruction :: "adt \<Rightarrow> apx_compiler \<Rightarrow> apx_error \<times> apx_compiler" where
  "compile_array_next_instruction A self =
     push_byte A (apx_program_encode_instruction APX_VM_OPCODE_FLOW_CTRL APX_VM_VARIANT_ARRAY_NEXT False) self"

section \<open>Data elements\<close>

text \<open>
  The first switch of \<open>compile_data_element\<close>: data variant, limit check variant, size in bytes,
  and whether the type is signed and has 64 bits. Records are apart; other types have none.
\<close>

record type_case =
  tc_data_variant :: byte
  tc_limit_variant :: byte
  tc_size :: nat
  tc_signed :: bool
  tc_64_bit :: bool

fun type_case_of :: "apx_typeCode \<Rightarrow> type_case option" where
  "type_case_of APX_TYPE_CODE_UINT8 =
     Some \<lparr>tc_data_variant = APX_VM_VARIANT_UINT8, tc_limit_variant = APX_VM_VARIANT_LIMIT_CHECK_U8,
       tc_size = UINT8_SIZE, tc_signed = False, tc_64_bit = False\<rparr>"
| "type_case_of APX_TYPE_CODE_UINT16 =
     Some \<lparr>tc_data_variant = APX_VM_VARIANT_UINT16, tc_limit_variant = APX_VM_VARIANT_LIMIT_CHECK_U16,
       tc_size = UINT16_SIZE, tc_signed = False, tc_64_bit = False\<rparr>"
| "type_case_of APX_TYPE_CODE_UINT32 =
     Some \<lparr>tc_data_variant = APX_VM_VARIANT_UINT32, tc_limit_variant = APX_VM_VARIANT_LIMIT_CHECK_U32,
       tc_size = UINT32_SIZE, tc_signed = False, tc_64_bit = False\<rparr>"
| "type_case_of APX_TYPE_CODE_UINT64 =
     Some \<lparr>tc_data_variant = APX_VM_VARIANT_UINT64, tc_limit_variant = APX_VM_VARIANT_LIMIT_CHECK_U64,
       tc_size = UINT64_SIZE, tc_signed = False, tc_64_bit = True\<rparr>"
| "type_case_of APX_TYPE_CODE_INT8 =
     Some \<lparr>tc_data_variant = APX_VM_VARIANT_INT8, tc_limit_variant = APX_VM_VARIANT_LIMIT_CHECK_S8,
       tc_size = UINT8_SIZE, tc_signed = True, tc_64_bit = False\<rparr>"
| "type_case_of APX_TYPE_CODE_INT16 =
     Some \<lparr>tc_data_variant = APX_VM_VARIANT_INT16, tc_limit_variant = APX_VM_VARIANT_LIMIT_CHECK_S16,
       tc_size = UINT16_SIZE, tc_signed = True, tc_64_bit = False\<rparr>"
| "type_case_of APX_TYPE_CODE_INT32 =
     Some \<lparr>tc_data_variant = APX_VM_VARIANT_INT32, tc_limit_variant = APX_VM_VARIANT_LIMIT_CHECK_S32,
       tc_size = UINT32_SIZE, tc_signed = True, tc_64_bit = False\<rparr>"
| "type_case_of APX_TYPE_CODE_INT64 =
     Some \<lparr>tc_data_variant = APX_VM_VARIANT_INT64, tc_limit_variant = APX_VM_VARIANT_LIMIT_CHECK_S64,
       tc_size = UINT64_SIZE, tc_signed = True, tc_64_bit = True\<rparr>"
| "type_case_of APX_TYPE_CODE_BOOL =
     Some \<lparr>tc_data_variant = APX_VM_VARIANT_BOOL, tc_limit_variant = APX_VM_VARIANT_LIMIT_CHECK_NONE,
       tc_size = UINT8_SIZE, tc_signed = False, tc_64_bit = False\<rparr>"
| "type_case_of APX_TYPE_CODE_BYTE =
     Some \<lparr>tc_data_variant = APX_VM_VARIANT_BYTE, tc_limit_variant = APX_VM_VARIANT_LIMIT_CHECK_U8,
       tc_size = UINT8_SIZE, tc_signed = False, tc_64_bit = False\<rparr>"
| "type_case_of APX_TYPE_CODE_CHAR =
     Some \<lparr>tc_data_variant = APX_VM_VARIANT_CHAR, tc_limit_variant = APX_VM_VARIANT_LIMIT_CHECK_NONE,
       tc_size = UINT8_SIZE, tc_signed = False, tc_64_bit = False\<rparr>"
| "type_case_of APX_TYPE_CODE_CHAR8 =
     Some \<lparr>tc_data_variant = APX_VM_VARIANT_CHAR8, tc_limit_variant = APX_VM_VARIANT_LIMIT_CHECK_NONE,
       tc_size = UINT8_SIZE, tc_signed = False, tc_64_bit = False\<rparr>"
| "type_case_of _ = None"

definition pack_opcode :: "apx_programType \<Rightarrow> byte" where
  "pack_opcode program_type =
     (if program_type = APX_PACK_PROGRAM then APX_VM_OPCODE_PACK else APX_VM_OPCODE_UNPACK)"

text \<open>The instruction of an element with its array size, which marks the data as dynamic.\<close>

definition compile_element_instruction ::
  "adt \<Rightarrow> cutil \<Rightarrow> apx_compiler \<Rightarrow> apx_dataElement \<Rightarrow> byte \<Rightarrow> byte \<Rightarrow> apx_error \<times> apx_compiler" where
  "compile_element_instruction A C self data_element opcode data_variant =
     (let array_length = apx_dataElement_get_array_length data_element;
          is_array = array_length > 0;
          is_dynamic_array = apx_dataElement_is_dynamic_array data_element
      in andThen (push_byte A (apx_program_encode_instruction opcode data_variant is_array) self) (\<lambda>self.
         if is_array then
           andThen (compile_array_size_instruction A C self array_length is_dynamic_array) (\<lambda>self.
             (APX_NO_ERROR, if is_dynamic_array then self\<lparr>cc_has_dynamic_data := True\<rparr> else self))
         else (APX_NO_ERROR, self)))"

definition compile_scalar_element ::
  "adt \<Rightarrow> cutil \<Rightarrow> apx_compiler \<Rightarrow> apx_dataElement \<Rightarrow> apx_programType \<Rightarrow> type_case \<Rightarrow>
     apx_error \<times> apx_compiler" where
  "compile_scalar_element A C self data_element program_type tc =
     (let limit = (\<lambda>self. compile_limit_instruction A C self data_element (tc_signed tc) (tc_64_bit tc)
            (apx_dataElement_get_array_length data_element > 0) (tc_limit_variant tc));
          has_limits = apx_dataElement_has_limits data_element;
          is_pack_prog = (program_type = APX_PACK_PROGRAM)
      in andThen (if has_limits \<and> is_pack_prog then limit self else (APX_NO_ERROR, self)) (\<lambda>self.
         andThen (compile_element_instruction A C self data_element (pack_opcode program_type)
           (tc_data_variant tc)) (\<lambda>self.
         if has_limits \<and> \<not> is_pack_prog then limit self else (APX_NO_ERROR, self))))"

text \<open>The last part of \<open>compile_data_element\<close>: the size of the whole element.\<close>

definition element_data_size :: "apx_dataElement \<Rightarrow> u32 \<Rightarrow> apx_error \<times> u32" where
  "element_data_size data_element data_size =
     (let array_length = apx_dataElement_get_array_length data_element
      in if data_size > 0 then
           (APX_NO_ERROR,
            if array_length > 0 then
              data_size * array_length +
                (if apx_dataElement_is_dynamic_array data_element
                 then word_of_nat (apx_vm_size_type_to_size (apx_vm_size_to_size_type array_length)) else 0)
            else data_size)
         else (APX_ELEMENT_TYPE_ERROR, data_size))"

lemma size_elements: "de_elements de = Some cs \<Longrightarrow> size_list size cs < size de"
  by (cases de) auto

text \<open>
  \<open>compile_data_element\<close> and \<open>compile_record_fields\<close>. The state of both is the size stored so far and the
  compiler; the loop over the fields is the recursion on the list of children.
\<close>

function (sequential) compile_data_element ::
  "adt \<Rightarrow> cutil \<Rightarrow> apx_programType \<Rightarrow> apx_dataElement \<Rightarrow> u32 \<times> apx_compiler \<Rightarrow>
     apx_error \<times> u32 \<times> apx_compiler"
and compile_record_fields ::
  "adt \<Rightarrow> cutil \<Rightarrow> apx_programType \<Rightarrow> apx_dataElement list \<Rightarrow> u32 \<times> apx_compiler \<Rightarrow>
     apx_error \<times> u32 \<times> apx_compiler" where
  "compile_data_element A C program_type data_element (data_size, self) =
     andThen
       (if de_type_code data_element = APX_TYPE_CODE_RECORD then
          (case compile_element_instruction A C self data_element (pack_opcode program_type)
               APX_VM_VARIANT_RECORD of (e, self) \<Rightarrow>
             andThen (e, data_size, self) (\<lambda>st.
             andThen
               (case de_elements data_element of
                  Some [] \<Rightarrow> (APX_EMPTY_RECORD_ERROR, st)
                | Some children \<Rightarrow> compile_record_fields A C program_type children st
                | None \<Rightarrow> (APX_NO_ERROR, st)) (\<lambda>(data_size, self).
             if apx_dataElement_get_array_length data_element > 0 then
               (case compile_array_next_instruction A self of (e, self) \<Rightarrow> (e, data_size, self))
             else (APX_NO_ERROR, data_size, self))))
        else
          (case type_case_of (de_type_code data_element) of
             None \<Rightarrow> (APX_ELEMENT_TYPE_ERROR, data_size, self)
           | Some tc \<Rightarrow>
               (case compile_scalar_element A C self data_element program_type tc of
                  (e, self) \<Rightarrow> (e, word_of_nat (tc_size tc), self))))
       (\<lambda>(data_size, self). case element_data_size data_element data_size of
          (e, data_size) \<Rightarrow> (e, data_size, self))"
| "compile_record_fields A C program_type [] st = (APX_NO_ERROR, st)"
| "compile_record_fields A C program_type (child_element # children) (record_size, self) =
     (case compile_record_select_instruction A self child_element (children = []) of (e, self) \<Rightarrow>
        andThen (e, record_size, self) (\<lambda>(record_size, self).
          case apx_dataElement_derive_data_element child_element of
            (e, derived_element, parent) \<Rightarrow>
              if e \<noteq> APX_NO_ERROR then (e, record_size, self)
              else (case derived_element of
                None \<Rightarrow> (FAULT ASSERT_FAILURE, record_size, self)
              | Some de \<Rightarrow>
                  (case compile_data_element A C program_type de (0, self) of
                     (e, child_size, self) \<Rightarrow>
                       andThen (e, record_size, self) (\<lambda>(record_size, self).
                         if child_size = 0 then (APX_LENGTH_ERROR, record_size, self)
                         else compile_record_fields A C program_type children
                           (record_size + child_size, self))))))"
  by pat_completeness auto

termination
proof (relation "measure (\<lambda>x. case x of Inl (_, _, _, de, _) \<Rightarrow> size de | Inr (_, _, _, cs, _) \<Rightarrow> size_list size cs)",
    goal_cases)
  case 1
  then show ?case by simp
next
  case 2
  then show ?case by (auto dest: size_elements)
next
  case 3
  then show ?case by (auto dest!: derive_data_element_size [OF sym])
next
  case 4
  then show ?case by simp
qed

section \<open>Ports\<close>

text \<open>Of a port, the compiler reads the effective data element and the queue length.\<close>

record apx_port =
  port_effective_data_element :: "apx_dataElement option"
  port_queue_length :: u32

definition set_error :: "apx_compiler \<Rightarrow> apx_error \<Rightarrow> apx_error \<times> byte list option \<times> apx_compiler" where
  "set_error self error = (error, None, self\<lparr>cc_last_error := error\<rparr>)"

text \<open>
  \<open>apx_compiler_compile_port\<close>: the error code, the program returned and the compiler afterwards. When the
  header cannot be encoded the code still returns the program object, together with the
  error.
\<close>

definition apx_compiler_compile_port ::
  "adt \<Rightarrow> cutil \<Rightarrow> apx_compiler \<Rightarrow> apx_port option \<Rightarrow> apx_programType \<Rightarrow>
     apx_error \<times> byte list option \<times> apx_compiler" where
  "apx_compiler_compile_port A C self port program_type =
     (let self = (reset_internal_state self)\<lparr>cc_program := Some []\<rparr>
      in case port of
           None \<Rightarrow> set_error self APX_INVALID_ARGUMENT_ERROR
         | Some port \<Rightarrow>
             (case port_effective_data_element port of
                None \<Rightarrow> set_error self APX_NULL_PTR_ERROR
              | Some data_element \<Rightarrow>
                  (case compile_data_element A C program_type data_element (0, self) of
                     (e, element_size, self) \<Rightarrow>
                       if e \<noteq> APX_NO_ERROR then set_error self e
                       else
                         case apx_program_encode_header A C [] program_type element_size
                             (port_queue_length port) (cc_has_dynamic_data self) of
                           (e, program_with_header) \<Rightarrow>
                             let self = self\<lparr>cc_last_error := e\<rparr>;
                                 body = the_default [] (cc_program self);
                                 done = self\<lparr>cc_program := None\<rparr>
                             in if e \<noteq> APX_NO_ERROR then (e, Some program_with_header, done)
                                else if body = [] then (FAULT ASSERT_FAILURE, None, self)
                                else (case bytearray_append A program_with_header body of
                                  (rc, program_with_header) \<Rightarrow>
                                    if rc \<noteq> ADT_NO_ERROR
                                    then set_error self (convert_from_adt_to_apx_error rc)
                                    else (APX_NO_ERROR, Some program_with_header, done)))))"

end
