(* ===== verification/Layout.thy ===== *)
theory Layout
  imports Dtl DataElement
begin

text \<open>
  The specification of packing: what the bytes of a value of a given shape are. A shape is
  what a data element describes once its type references are followed; a layout is a list
  of bytes in which \<open>None\<close> marks a byte that packing leaves as it was (the unused room of a
  dynamic array). Nothing here follows the C code: the theories that prove the compiler, the
  interpreter, the serializer and the deserializer correct relate the code to these definitions.
\<close>

section \<open>Numbers\<close>

text \<open>Size in bytes and sign of the integer types.\<close>

fun int_type :: "apx_typeCode \<Rightarrow> (nat \<times> bool) option" where
  "int_type APX_TYPE_CODE_UINT8 = Some (1, False)"
| "int_type APX_TYPE_CODE_UINT16 = Some (2, False)"
| "int_type APX_TYPE_CODE_UINT32 = Some (4, False)"
| "int_type APX_TYPE_CODE_UINT64 = Some (8, False)"
| "int_type APX_TYPE_CODE_INT8 = Some (1, True)"
| "int_type APX_TYPE_CODE_INT16 = Some (2, True)"
| "int_type APX_TYPE_CODE_INT32 = Some (4, True)"
| "int_type APX_TYPE_CODE_INT64 = Some (8, True)"
| "int_type _ = None"

definition int_fits :: "nat \<Rightarrow> bool \<Rightarrow> int \<Rightarrow> bool" where
  "int_fits n sg i = (if sg then - (2 ^ (8 * n - 1)) \<le> i \<and> i < 2 ^ (8 * n - 1)
                          else 0 \<le> i \<and> i < 2 ^ (8 * n))"

definition int_bytes :: "nat \<Rightarrow> int \<Rightarrow> byte list" where
  "int_bytes n i = le_bytes n (nat (i mod 2 ^ (8 * n)))"

type_synonym limits = "(int \<times> int) option"

definition in_limits :: "limits \<Rightarrow> int \<Rightarrow> bool" where
  "in_limits lim i = (case lim of None \<Rightarrow> True | Some (lo, hi) \<Rightarrow> lo \<le> i \<and> i \<le> hi)"

fun num_bytes :: "apx_typeCode \<Rightarrow> limits \<Rightarrow> dv \<Rightarrow> byte list option" where
  "num_bytes tc lim (DvInt i) =
     (case int_type tc of
        Some (n, sg) \<Rightarrow> if int_fits n sg i \<and> in_limits lim i then Some (int_bytes n i) else None
      | None \<Rightarrow> None)"
| "num_bytes tc lim (DvBool b) =
     (if tc = APX_TYPE_CODE_BOOL then Some [if b then 1 else 0] else None)"
| "num_bytes tc lim _ = None"

definition num_size :: "apx_typeCode \<Rightarrow> nat" where
  "num_size tc = (case int_type tc of Some (n, sg) \<Rightarrow> n | None \<Rightarrow> 1)"

section \<open>Shapes and layouts\<close>

datatype shape =
    Num apx_typeCode limits
  | NumArray apx_typeCode limits nat bool
  | Chars apx_typeCode nat bool
  | Bytes nat bool
  | Rec "(byte list \<times> shape) list"

type_synonym layout = "byte option list"

text \<open>The bytes of the length of a dynamic array, at the width that its maximum needs.\<close>

definition length_size :: "nat \<Rightarrow> nat" where
  "length_size n = (if n \<le> 0xFF then 1 else if n \<le> 0xFFFF then 2 else 4)"

definition array_layout :: "nat \<Rightarrow> bool \<Rightarrow> nat \<Rightarrow> nat \<Rightarrow> byte list \<Rightarrow> layout option" where
  "array_layout n dynamic sz len bs =
     (if dynamic then
        (if len \<le> n then Some (map Some (le_bytes (length_size n) len @ bs) @ replicate ((n - len) * sz) None)
         else None)
      else if len = n then Some (map Some bs) else None)"

fun collect :: "'a option list \<Rightarrow> 'a list option" where
  "collect [] = Some []"
| "collect (None # xs) = None"
| "collect (Some x # xs) = map_option ((#) x) (collect xs)"

fun array_items :: "dv \<Rightarrow> dv list option" where
  "array_items (DvArray xs) = Some xs"
| "array_items _ = None"

fun hash_items :: "dv \<Rightarrow> (byte list \<times> dv) list option" where
  "hash_items (DvHash kvs) = Some kvs"
| "hash_items _ = None"

fun chars_layout :: "nat \<Rightarrow> bool \<Rightarrow> dv \<Rightarrow> layout option" where
  "chars_layout n dynamic (DvStr s) =
     (if dynamic then array_layout n True 1 (length s) s
      else if length s \<le> n then Some (map Some (s @ replicate (n - length s) 0)) else None)"
| "chars_layout n dynamic _ = None"

fun bytes_layout :: "nat \<Rightarrow> bool \<Rightarrow> dv \<Rightarrow> layout option" where
  "bytes_layout n dynamic (DvBytes b) = array_layout (max 1 n) dynamic 1 (length b) b"
| "bytes_layout n dynamic _ = None"

fun layout :: "shape \<Rightarrow> dv \<Rightarrow> layout option"
and fields_layout :: "(byte list \<times> shape) list \<Rightarrow> (byte list \<times> dv) list \<Rightarrow> layout option" where
  "layout (Num tc lim) v = map_option (map Some) (num_bytes tc lim v)"
| "layout (NumArray tc lim n dynamic) v =
     (case array_items v of
        None \<Rightarrow> None
      | Some xs \<Rightarrow>
          (case collect (map (num_bytes tc lim) xs) of
             None \<Rightarrow> None
           | Some bss \<Rightarrow> array_layout n dynamic (num_size tc) (length xs) (concat bss)))"
| "layout (Chars tc n dynamic) v = chars_layout n dynamic v"
| "layout (Bytes n dynamic) v = bytes_layout n dynamic v"
| "layout (Rec fs) v =
     (case hash_items v of None \<Rightarrow> None | Some kvs \<Rightarrow> fields_layout fs kvs)"
| "fields_layout [] kvs = Some []"
| "fields_layout ((name, s) # fs) kvs =
     (case map_of kvs name of
        None \<Rightarrow> None
      | Some v \<Rightarrow>
          (case (layout s v, fields_layout fs kvs) of (Some a, Some b) \<Rightarrow> Some (a @ b) | _ \<Rightarrow> None))"

text \<open>The room a shape takes, and the number of states that nested records need.\<close>

fun shape_size :: "shape \<Rightarrow> nat"
and fields_size :: "(byte list \<times> shape) list \<Rightarrow> nat" where
  "shape_size (Num tc lim) = num_size tc"
| "shape_size (NumArray tc lim n dynamic) = n * num_size tc + (if dynamic then length_size n else 0)"
| "shape_size (Chars tc n dynamic) = n + (if dynamic then length_size n else 0)"
| "shape_size (Bytes n dynamic) = max 1 n + (if dynamic then length_size n else 0)"
| "shape_size (Rec fs) = fields_size fs"
| "fields_size [] = 0"
| "fields_size ((name, s) # fs) = shape_size s + fields_size fs"

fun depth :: "shape \<Rightarrow> nat"
and fields_depth :: "(byte list \<times> shape) list \<Rightarrow> nat" where
  "depth (Rec fs) = Suc (fields_depth fs)"
| "depth _ = 0"
| "fields_depth [] = 0"
| "fields_depth ((name, s) # fs) = max (depth s) (fields_depth fs)"

section \<open>Writing a layout\<close>

fun overlay :: "nat \<Rightarrow> layout \<Rightarrow> byte list \<Rightarrow> byte list" where
  "overlay p [] d = d"
| "overlay p (Some x # ly) d = overlay (Suc p) ly (d[p := x])"
| "overlay p (None # ly) d = overlay (Suc p) ly d"

definition agrees :: "nat \<Rightarrow> layout \<Rightarrow> byte list \<Rightarrow> bool" where
  "agrees p ly d \<longleftrightarrow> p + length ly \<le> length d \<and>
     (\<forall>i < length ly. \<forall>x. ly ! i = Some x \<longrightarrow> d ! (p + i) = x)"

lemma length_overlay [simp]: "length (overlay p ly d) = length d"
  by (induction p ly d rule: overlay.induct) auto

lemma overlay_append: "overlay p (a @ b) d = overlay (p + length a) b (overlay p a d)"
  by (induction p a d rule: overlay.induct) auto

lemma overlay_none [simp]: "overlay p (replicate k None) d = d"
  by (induction k arbitrary: p) auto

lemma overlay_before: "i < p \<Longrightarrow> overlay p ly d ! i = d ! i"
  by (induction p ly d rule: overlay.induct) auto

lemma overlay_outside: "i < p \<or> p + length ly \<le> i \<Longrightarrow> overlay p ly d ! i = d ! i"
  by (induction p ly d rule: overlay.induct) auto

lemma overlay_agrees: "p + length ly \<le> length d \<Longrightarrow> agrees p ly (overlay p ly d)"
proof (induction p ly d rule: overlay.induct)
  case (2 p x ly d)
  then have IH: "agrees (Suc p) ly (overlay (Suc p) ly (d[p := x]))" by simp
  have "overlay (Suc p) ly (d[p := x]) ! p = x"
    using "2.prems" by (simp add: overlay_before)
  with IH show ?case
    by (auto simp: agrees_def nth_Cons split: nat.splits)
next
  case (3 p ly d)
  then show ?case by (auto simp: agrees_def nth_Cons split: nat.splits)
qed (simp add: agrees_def)

lemma mem_write_overlay:
  "p + length bs \<le> length d \<Longrightarrow> mem_write p bs d = Some (overlay p (map Some bs) d)"
proof (induction bs arbitrary: p d)
  case Nil
  then show ?case by (simp add: mem_write_def)
next
  case (Cons b bs)
  from Cons.prems Cons.IH [of "Suc p" "d[p := b]"]
  have "overlay p (map Some (b # bs)) d = take (Suc p) (d[p := b]) @ bs @ drop (Suc p + length bs) (d[p := b])"
    by (simp add: mem_write_def)
  also have "\<dots> = take p d @ (b # bs) @ drop (p + length (b # bs)) d"
    using Cons.prems by (simp add: take_Suc_conv_app_nth drop_update_cancel)
  finally show ?case using Cons.prems by (simp add: mem_write_def)
qed

lemma overlay_nth:
  "p + length ly \<le> length d \<Longrightarrow> i < length d \<Longrightarrow>
     overlay p ly d ! i = (if p \<le> i \<and> i < p + length ly then the_default (d ! i) (ly ! (i - p)) else d ! i)"
proof (induction p ly d rule: overlay.induct)
  case (2 p x ly d)
  then show ?case by (cases "p < i") (auto simp: overlay_before dest!: less_imp_Suc_add)
next
  case (3 p ly d)
  then show ?case by (cases "p < i") (auto simp: overlay_before dest!: less_imp_Suc_add)
qed auto

lemma overlay_twice:
  "length a \<le> m \<Longrightarrow> p + m \<le> length d \<Longrightarrow>
     overlay p (map Some a) (overlay p (map Some (replicate m c)) d) =
       overlay p (map Some (a @ replicate (m - length a) c)) d"
  by (intro nth_equalityI) (auto simp: overlay_nth nth_append)

section \<open>Facts about layouts\<close>

lemma collect_length: "collect xs = Some ys \<Longrightarrow> length ys = length xs"
  by (induction xs arbitrary: ys rule: collect.induct) auto

lemma collect_nth: "collect xs = Some ys \<Longrightarrow> i < length xs \<Longrightarrow> xs ! i = Some (ys ! i)"
  by (induction xs arbitrary: ys i rule: collect.induct) (auto simp: nth_Cons split: nat.splits)

lemma collect_item: "collect (map f xs) = Some ys \<Longrightarrow> x \<in> set xs \<Longrightarrow> \<exists>y. f x = Some y"
proof (induction xs arbitrary: ys)
  case (Cons a xs)
  then show ?case by (cases "f a") auto
qed simp

lemma num_bytes_length: "num_bytes tc lim v = Some bs \<Longrightarrow> length bs = num_size tc"
  by (cases v) (auto simp: num_size_def int_bytes_def split: option.splits if_splits prod.splits)

lemma length_concat_num:
  "collect (map (num_bytes tc lim) xs) = Some bss \<Longrightarrow> length (concat bss) = length xs * num_size tc"
proof (induction xs arbitrary: bss)
  case (Cons x xs)
  then obtain b bs where "num_bytes tc lim x = Some b" "collect (map (num_bytes tc lim) xs) = Some bs" "bss = b # bs"
    by (cases "num_bytes tc lim x") auto
  with Cons.IH num_bytes_length show ?case by simp
qed simp

lemma array_layout_length:
  assumes "array_layout n dynamic sz len bs = Some ly" and "length bs = len * sz"
  shows "length ly = n * sz + (if dynamic then length_size n else 0)"
  using assms by (auto simp: array_layout_def split: if_splits) (simp flip: add_mult_distrib)

lemma layout_length:
  "layout s v = Some ly \<Longrightarrow> length ly = shape_size s"
  "fields_layout fs kvs = Some ly \<Longrightarrow> length ly = fields_size fs"
proof (induction s v and fs kvs arbitrary: ly and ly rule: layout_fields_layout.induct)
  case (2 tc lim n dynamic v)
  then show ?case
    using array_layout_length length_concat_num by (fastforce split: option.splits)
next
  case (3 tc n dynamic v)
  then show ?case using array_layout_length [of n True 1] by (cases v) (auto split: if_splits)
next
  case (4 n dynamic v)
  then show ?case using array_layout_length [of "max 1 n" dynamic 1]
    by (cases v) (auto simp: length_size_def)
qed (auto simp: num_bytes_length split: option.splits)

section \<open>Numbers as words\<close>

lemma int_bytes_uint: "n = 1 \<or> n = 2 \<or> n = 4 \<or> n = 8 \<Longrightarrow> int_bytes n (uint x) = le_bytes n (unat x)"
proof -
  have "nat (uint x mod 2 ^ (8 * n)) = unat x mod 256 ^ n"
    by (simp add: nat_mod_distrib power_mult nat_power_eq)
  then show ?thesis unfolding int_bytes_def by (simp only: le_bytes_mod)
qed

lemma int_bytes_sint:
  fixes x :: "'a::len word"
  assumes "8 * n \<le> LENGTH('a)"
  shows "int_bytes n (sint x) = le_bytes n (unat x)"
proof -
  have "sint x mod 2 ^ (8 * n) = uint x mod 2 ^ (8 * n)"
    using assms by (simp add: uint_sint flip: take_bit_eq_mod)
  then have "nat (sint x mod 2 ^ (8 * n)) = unat x mod 256 ^ n"
    by (simp add: nat_mod_distrib power_mult nat_power_eq)
  then show ?thesis unfolding int_bytes_def by (simp only: le_bytes_mod)
qed

lemma int_type_cases:
  assumes "int_type tc = Some (n, sg)"
  obtains (u32) "tc \<in> {APX_TYPE_CODE_UINT8, APX_TYPE_CODE_UINT16, APX_TYPE_CODE_UINT32}" "\<not> sg" "n = 1 \<or> n = 2 \<or> n = 4"
  | (i32) "tc \<in> {APX_TYPE_CODE_INT8, APX_TYPE_CODE_INT16, APX_TYPE_CODE_INT32}" "sg" "n = 1 \<or> n = 2 \<or> n = 4"
  | (u64) "tc = APX_TYPE_CODE_UINT64" "\<not> sg" "n = 8"
  | (i64) "tc = APX_TYPE_CODE_INT64" "sg" "n = 8"
  using assms by (cases tc) auto

lemma fits_u32: "int_fits n False i \<Longrightarrow> n = 1 \<or> n = 2 \<or> n = 4 \<Longrightarrow> uint (word_of_int i :: u32) = i"
  by (auto simp: int_fits_def uint_word_of_int)

lemma fits_i32: "int_fits n True i \<Longrightarrow> n = 1 \<or> n = 2 \<or> n = 4 \<Longrightarrow> sint (word_of_int i :: u32) = i"
  by (auto simp: int_fits_def sint_word_ariths sint_sbintrunc' signed_take_bit_int_eq_self)

lemma fits_u64: "int_fits 8 False i \<Longrightarrow> uint (word_of_int i :: u64) = i"
  by (auto simp: int_fits_def uint_word_of_int)

lemma fits_i64: "int_fits 8 True i \<Longrightarrow> sint (word_of_int i :: u64) = i"
  by (auto simp: int_fits_def sint_sbintrunc' signed_take_bit_int_eq_self)

lemma num_type: "num_bytes tc lim v = Some bs \<Longrightarrow> int_type tc \<noteq> None \<or> tc = APX_TYPE_CODE_BOOL"
  by (cases v) (auto split: option.splits if_splits)

lemma num_kind: "num_bytes tc lim v = Some bs \<Longrightarrow> dv_kind v = DTL_DV_SCALAR"
  by (cases v) auto


lemma num_size_cases: "num_size tc = 1 \<or> num_size tc = 2 \<or> num_size tc = 4 \<or> num_size tc = 8"
  by (cases tc) (auto simp: num_size_def)

lemma unat_num_size [simp]: "unat (word_of_nat (num_size tc) :: u32) = num_size tc"
  using num_size_cases [of tc] by (auto simp: unat_of_nat)

lemma size_type_length_size:
  "n \<noteq> 0 \<Longrightarrow> apx_vm_size_type_to_size (apx_vm_size_to_size_type n) = length_size (unat n)"
  by (auto simp: apx_vm_size_to_size_type_def length_size_def word_le_nat_alt word_gt_0)

lemma length_size_cases: "length_size n = 1 \<or> length_size n = 2 \<or> length_size n = 4"
  by (simp add: length_size_def)

lemma length_size_fits: "len \<le> n \<Longrightarrow> n < 2 ^ 32 \<Longrightarrow> len < 256 ^ length_size n"
  by (auto simp: length_size_def)

end
