(* ===== verification/CompileShape.thy ===== *)
theory CompileShape
  imports Compiler Layout
begin

text \<open>
  What the compiler emits, by shape. \<open>shape_of\<close> reads the shape off a data element, following
  its type references as the compiler does; \<open>code\<close> is the byte code of a shape. The lemma
  \<open>compile_shape\<close> says that compiling an element appends the code of its shape and computes its
  size; the theories on the interpreter then only speak of shapes.
\<close>

section \<open>The shape of a data element\<close>

definition limits_of :: "apx_dataElement \<Rightarrow> limits" where
  "limits_of de = (if \<not> de_has_limits de then None
     else case int_type (de_type_code de) of
       Some (n, sg) \<Rightarrow> Some (if n = 8
         then (if sg then (sint (de_lower_limit de), sint (de_upper_limit de))
               else (uint (de_lower_limit de), uint (de_upper_limit de)))
         else (if sg then (sint (ucast (de_lower_limit de) :: u32), sint (ucast (de_upper_limit de) :: u32))
               else (uint (ucast (de_lower_limit de) :: u32), uint (ucast (de_upper_limit de) :: u32))))
     | None \<Rightarrow> None)"

definition leaf_shape :: "apx_dataElement \<Rightarrow> shape option" where
  "leaf_shape de =
     (let tc = de_type_code de; n = unat (de_array_len de); dynamic = (n > 0 \<and> de_is_dynamic_array de)
      in if int_type tc \<noteq> None \<or> (tc = APX_TYPE_CODE_BOOL \<and> \<not> de_has_limits de) then
           Some (if n = 0 then Num tc (limits_of de) else NumArray tc (limits_of de) n dynamic)
         else if de_has_limits de then None
         else if (tc = APX_TYPE_CODE_CHAR \<or> tc = APX_TYPE_CODE_CHAR8) \<and> n > 0 then Some (Chars tc n dynamic)
         else if tc = APX_TYPE_CODE_BYTE then Some (Bytes n dynamic)
         else None)"

definition field_name :: "apx_dataElement \<Rightarrow> byte list option" where
  "field_name de = map_option (takeWhile (\<lambda>c. c \<noteq> 0)) (de_name de)"

definition derived :: "apx_dataElement \<Rightarrow> apx_dataElement option" where
  "derived de = (case apx_dataElement_derive_data_element de of
     (APX_NO_ERROR, Some d, parent) \<Rightarrow> Some d | _ \<Rightarrow> None)"

lemma derived_size: "derived de = Some d \<Longrightarrow> size d \<le> size de"
  by (auto simp: derived_def split: prod.splits apx_error.splits option.splits
      dest: derive_data_element_size)

function (sequential) shape_of :: "apx_dataElement \<Rightarrow> shape option"
and fields_of :: "apx_dataElement list \<Rightarrow> (byte list \<times> shape) list option" where
  "shape_of de =
     (if de_type_code de = APX_TYPE_CODE_RECORD then
        (if de_array_len de > 0 then None
         else case de_elements de of
           None \<Rightarrow> None
         | Some children \<Rightarrow> if children = [] then None else map_option Rec (fields_of children))
      else leaf_shape de)"
| "fields_of [] = Some []"
| "fields_of (child # children) =
     (case (field_name child, derived child) of
        (Some name, Some d) \<Rightarrow>
          (case (shape_of d, fields_of children) of
             (Some sh, Some fs) \<Rightarrow> Some ((name, sh) # fs)
           | _ \<Rightarrow> None)
      | _ \<Rightarrow> None)"
  by pat_completeness auto

termination
  by (relation "measure (\<lambda>x. case x of Inl de \<Rightarrow> size de | Inr cs \<Rightarrow> size_list size cs)")
    (auto dest: size_elements dest!: derived_size [OF sym])

declare shape_of.simps [simp del]

section \<open>Well-formed shapes\<close>

definition wf_limits :: "apx_typeCode \<Rightarrow> limits \<Rightarrow> bool" where
  "wf_limits tc lim = (case lim of None \<Rightarrow> True | Some (lo, hi) \<Rightarrow>
     (case int_type tc of None \<Rightarrow> False | Some (n, sg) \<Rightarrow> int_fits n sg lo \<and> int_fits n sg hi))"

text \<open>
  The shapes whose code can be run: limits that fit their type, character data with a
  length, array lengths that a C \<open>int\<close> holds, records with fields that have names the compiler accepts.
\<close>

fun wf_shape :: "shape \<Rightarrow> bool"
and wf_fields :: "(byte list \<times> shape) list \<Rightarrow> bool" where
  "wf_shape (Num tc lim) = ((int_type tc \<noteq> None \<or> tc = APX_TYPE_CODE_BOOL) \<and> wf_limits tc lim)"
| "wf_shape (NumArray tc lim n dynamic) =
     ((int_type tc \<noteq> None \<or> tc = APX_TYPE_CODE_BOOL) \<and> wf_limits tc lim \<and> 0 < n \<and> n < 2 ^ 31)"
| "wf_shape (Chars tc n dynamic) =
     ((tc = APX_TYPE_CODE_CHAR \<or> tc = APX_TYPE_CODE_CHAR8) \<and> 0 < n \<and> n < 2 ^ 31)"
| "wf_shape (Bytes n dynamic) = (n < 2 ^ 31 \<and> (dynamic \<longrightarrow> 0 < n))"
| "wf_shape (Rec fs) = (fs \<noteq> [] \<and> wf_fields fs)"
| "wf_fields [] = True"
| "wf_fields ((name, sh) # fs) =
     (name \<noteq> [] \<and> 0 \<notin> set name \<and> length name \<le> APX_MAX_NAME_LEN \<and> wf_shape sh \<and> wf_fields fs)"

section \<open>The code of a shape\<close>

fun limits_code :: "cutil \<Rightarrow> apx_typeCode \<Rightarrow> bool \<Rightarrow> limits \<Rightarrow> byte list" where
  "limits_code C tc arr None = []"
| "limits_code C tc arr (Some (lo, hi)) =
     (case type_case_of tc of
        None \<Rightarrow> []
      | Some c \<Rightarrow> limit_bytes (tc_limit_variant c) arr
          (if tc_64_bit c then packLE64 C (word_of_int lo) 8 else packLE C (word_of_int lo) (tc_size c))
          (if tc_64_bit c then packLE64 C (word_of_int hi) 8 else packLE C (word_of_int hi) (tc_size c)))"

definition variant_of :: "apx_typeCode \<Rightarrow> byte" where
  "variant_of tc = (case type_case_of tc of None \<Rightarrow> 0 | Some c \<Rightarrow> tc_data_variant c)"

definition element_code :: "cutil \<Rightarrow> apx_programType \<Rightarrow> apx_typeCode \<Rightarrow> nat \<Rightarrow> bool \<Rightarrow> byte list" where
  "element_code C pt tc n dynamic = element_bytes C (pack_opcode pt) (variant_of tc) (word_of_nat n) dynamic"

definition with_limits :: "apx_programType \<Rightarrow> byte list \<Rightarrow> byte list \<Rightarrow> byte list" where
  "with_limits pt l e = (if pt = APX_PACK_PROGRAM then l @ e else e @ l)"

fun code :: "cutil \<Rightarrow> apx_programType \<Rightarrow> shape \<Rightarrow> byte list"
and fields_code :: "cutil \<Rightarrow> apx_programType \<Rightarrow> (byte list \<times> shape) list \<Rightarrow> byte list" where
  "code C pt (Num tc lim) = with_limits pt (limits_code C tc False lim) (element_code C pt tc 0 False)"
| "code C pt (NumArray tc lim n dynamic) =
     with_limits pt (limits_code C tc True lim) (element_code C pt tc n dynamic)"
| "code C pt (Chars tc n dynamic) = element_code C pt tc n dynamic"
| "code C pt (Bytes n dynamic) = element_code C pt APX_TYPE_CODE_BYTE n dynamic"
| "code C pt (Rec fs) = element_bytes C (pack_opcode pt) APX_VM_VARIANT_RECORD 0 False @ fields_code C pt fs"
| "fields_code C pt [] = []"
| "fields_code C pt ((name, sh) # fs) = select_bytes name (fs = []) @ code C pt sh @ fields_code C pt fs"

fun has_dynamic :: "shape \<Rightarrow> bool"
and fields_dynamic :: "(byte list \<times> shape) list \<Rightarrow> bool" where
  "has_dynamic (Num tc lim) = False"
| "has_dynamic (NumArray tc lim n dynamic) = dynamic"
| "has_dynamic (Chars tc n dynamic) = dynamic"
| "has_dynamic (Bytes n dynamic) = dynamic"
| "has_dynamic (Rec fs) = fields_dynamic fs"
| "fields_dynamic [] = False"
| "fields_dynamic ((name, sh) # fs) = (has_dynamic sh \<or> fields_dynamic fs)"

section \<open>Compiling an element\<close>

definition emit :: "apx_compiler \<Rightarrow> byte list \<Rightarrow> bool \<Rightarrow> apx_compiler" where
  "emit c bs dynamic = c\<lparr>cc_program := Some (the_default [] (cc_program c) @ bs),
     cc_has_dynamic_data := cc_has_dynamic_data c \<or> dynamic\<rparr>"

lemma emit_emit [simp]: "emit (emit c a x) b y = emit c (a @ b) (x \<or> y)"
  by (simp add: emit_def)

lemma emit_program [simp]: "cc_program (emit c a x) = Some (the_default [] (cc_program c) @ a)"
  by (simp add: emit_def)

lemma emit_nil [simp]: "cc_program c \<noteq> None \<Longrightarrow> emit c [] False = c"
  by (cases c) (auto simp: emit_def)

lemma push_byte_emits:
  "bytearray_appends A \<Longrightarrow> cc_program c \<noteq> None \<Longrightarrow> push_byte A b c = (APX_NO_ERROR, emit c [b] False)"
  by (auto simp: push_byte_def on_program_def emit_def bytearray_push_ok)

lemma append_bytes_emits:
  "bytearray_appends A \<Longrightarrow> cc_program c \<noteq> None \<Longrightarrow> append_bytes A bs c = (APX_NO_ERROR, emit c bs False)"
  by (auto simp: append_bytes_def on_program_def emit_def bytearray_append_ok)

lemma element_instruction_emits:
  assumes A: "bytearray_appends A" and c: "cc_program c \<noteq> None"
  shows "compile_element_instruction A C c de opcode variant =
    (APX_NO_ERROR, emit c (element_bytes C opcode variant (de_array_len de) (de_is_dynamic_array de))
       (de_array_len de > 0 \<and> de_is_dynamic_array de))"
proof -
  note emits = push_byte_emits [OF A] append_bytes_emits [OF A]
  have sz: "compile_array_size_instruction A C c' n dy = (APX_NO_ERROR, emit c' (array_size_bytes C n dy) False)"
    if "cc_program c' \<noteq> None" for c' n dy
    using that
    by (auto simp: compile_array_size_instruction_def array_size_bytes_def emits size_variant_def
        apx_vm_variant_to_size_def word_le_nat_alt word_less_nat_alt)
  show ?thesis
    using c by (auto simp: compile_element_instruction_def emits sz element_bytes_def Let_def
        apx_dataElement_get_array_length_def apx_dataElement_is_dynamic_array_def emit_def)
qed

lemma record_select_emits:
  assumes A: "bytearray_appends A" and c: "cc_program c \<noteq> None" and nm: "field_name de = Some name"
    and ok: "name \<noteq> []" "length name \<le> APX_MAX_NAME_LEN"
  shows "compile_record_select_instruction A c de lst = (APX_NO_ERROR, emit c (select_bytes name lst) False)"
  using assms
  by (auto simp: compile_record_select_instruction_def field_name_def apx_dataElement_get_name_def
      push_byte_emits append_bytes_emits select_bytes_def Let_def)


lemma limit_instruction_emits:
  assumes A: "bytearray_appends A" and c: "cc_program self \<noteq> None" and t: "type_case_of (de_type_code de) = Some c"
    and i: "int_type (de_type_code de) \<noteq> None" and l: "de_has_limits de"
  shows "compile_limit_instruction A C self de (tc_signed c) (tc_64_bit c) arr (tc_limit_variant c) =
    (APX_NO_ERROR, emit self (limits_code C (de_type_code de) arr (limits_of de)) False)"
  using assms
  by (cases "de_type_code de")
    (auto simp: compile_limit_instruction_def push_byte_emits append_bytes_emits limits_of_def limit_bytes_def
      apx_dataElement_get_limits_int32_def apx_dataElement_get_limits_uint32_def
      apx_dataElement_get_limits_int64_def apx_dataElement_get_limits_uint64_def
      compile_limit_values_int32_def compile_limit_values_uint32_def
      compile_limit_values_int64_def compile_limit_values_uint64_def)

lemma array_data_size:
  assumes "0 < k" "k \<le> 8"
  shows "element_data_size de (word_of_nat k) = (APX_NO_ERROR,
    if de_array_len de = 0 then word_of_nat k
    else word_of_nat (unat (de_array_len de) * k +
      (if de_is_dynamic_array de then length_size (unat (de_array_len de)) else 0)))"
proof -
  have "(word_of_nat k :: u32) > 0" using assms by (simp add: word_less_nat_alt unat_of_nat)
  then show ?thesis
    by (auto simp: element_data_size_def apx_dataElement_get_array_length_def apx_dataElement_is_dynamic_array_def
        size_type_length_size word_gt_0 mult.commute Let_def)
qed

text \<open>Everything about a leaf in terms of the element it is the shape of.\<close>

lemma leaf_facts:
  assumes "leaf_shape de = Some sh"
  shows "code C pt sh = with_limits pt
      (if de_has_limits de then limits_code C (de_type_code de) (de_array_len de > 0) (limits_of de) else [])
      (element_bytes C (pack_opcode pt) (variant_of (de_type_code de)) (de_array_len de) (de_is_dynamic_array de))"
    and "has_dynamic sh = (de_array_len de > 0 \<and> de_is_dynamic_array de)"
    and "shape_size sh = (if de_array_len de = 0 then num_size (de_type_code de)
      else unat (de_array_len de) * num_size (de_type_code de) +
        (if de_is_dynamic_array de then length_size (unat (de_array_len de)) else 0))"
    and "type_case_of (de_type_code de) \<noteq> None"
    and "de_has_limits de \<Longrightarrow> int_type (de_type_code de) \<noteq> None"
proof -
  have dyn0: "element_bytes C oc v 0 dy = [apx_program_encode_instruction oc v False]" for oc v dy
    by (simp add: element_bytes_def)
  have u: "unat (de_array_len de) = 0 \<longleftrightarrow> de_array_len de = 0" "(0 < unat (de_array_len de)) = (de_array_len de \<noteq> 0)"
    by (auto simp: unat_eq_0 unat_gt_0)
  have no: "\<not> de_has_limits de \<Longrightarrow> limits_of de = None" by (simp add: limits_of_def)
  have nm: "de_array_len de \<noteq> 0 \<Longrightarrow> max (Suc 0) (unat (de_array_len de)) = unat (de_array_len de)"
    using u by (simp add: max_def)
  note facts = leaf_shape_def Let_def element_code_def with_limits_def u word_gt_0
  show "code C pt sh = with_limits pt
      (if de_has_limits de then limits_code C (de_type_code de) (de_array_len de > 0) (limits_of de) else [])
      (element_bytes C (pack_opcode pt) (variant_of (de_type_code de)) (de_array_len de) (de_is_dynamic_array de))"
    using assms no dyn0 by (cases "de_array_len de = 0") (auto simp: facts split: if_splits)
  show "has_dynamic sh = (de_array_len de > 0 \<and> de_is_dynamic_array de)"
    using assms by (auto simp: facts split: if_splits)
  show "shape_size sh = (if de_array_len de = 0 then num_size (de_type_code de)
      else unat (de_array_len de) * num_size (de_type_code de) +
        (if de_is_dynamic_array de then length_size (unat (de_array_len de)) else 0))"
    using assms nm by (auto simp: facts num_size_def split: if_splits)
  show "type_case_of (de_type_code de) \<noteq> None"
    using assms by (cases "de_type_code de") (auto simp: facts split: if_splits)
  show "de_has_limits de \<Longrightarrow> int_type (de_type_code de) \<noteq> None"
    using assms by (auto simp: facts split: if_splits)
qed

lemma leaf_emits:
  assumes A: "bytearray_appends A" and p: "cc_program self \<noteq> None" and sh: "leaf_shape de = Some sh"
    and t: "type_case_of (de_type_code de) = Some c"
  shows "compile_scalar_element A C self de pt c = (APX_NO_ERROR, emit self (code C pt sh) (has_dynamic sh))"
    and "element_data_size de (word_of_nat (tc_size c)) = (APX_NO_ERROR, word_of_nat (shape_size sh))"
proof -
  note el = element_instruction_emits [OF A] and leaf = leaf_facts [OF sh]
  have v: "variant_of (de_type_code de) = tc_data_variant c" using t by (simp add: variant_of_def)
  show "compile_scalar_element A C self de pt c = (APX_NO_ERROR, emit self (code C pt sh) (has_dynamic sh))"
  proof (cases "de_has_limits de")
    case True
    then show ?thesis
      using limit_instruction_emits [OF A _ t leaf(5) True] p
      by (simp add: compile_scalar_element_def el leaf(1,2) v with_limits_def Let_def
          apx_dataElement_has_limits_def apx_dataElement_get_array_length_def)
  next
    case False
    then show ?thesis using p
      by (simp add: compile_scalar_element_def el leaf(1,2) v with_limits_def Let_def
          apx_dataElement_has_limits_def apx_dataElement_get_array_length_def)
  qed
  have "tc_size c = num_size (de_type_code de)"
    using t by (cases "de_type_code de"; auto simp: num_size_def)
  then show "element_data_size de (word_of_nat (tc_size c)) = (APX_NO_ERROR, word_of_nat (shape_size sh))"
    using array_data_size [of "tc_size c" de] num_size_cases [of "de_type_code de"]
    by (auto simp: leaf(3))
qed

text \<open>
  Compiling an element appends the code of its shape and yields its size, as long as the size
  can be counted in 32 bits.
\<close>

lemma shape_size_pos: "wf_shape sh \<Longrightarrow> 0 < shape_size sh"
  and fields_size_pos: "wf_fields fs \<Longrightarrow> fs \<noteq> [] \<Longrightarrow> 0 < fields_size fs"
proof (induction sh and fs rule: wf_shape_wf_fields.induct)
  case (1 tc lim)
  then show ?case using num_size_cases [of tc] by auto
next
  case (2 tc lim n dynamic)
  then show ?case using num_size_cases [of tc] by auto
qed auto

lemma compile_shape:
  assumes A: "bytearray_appends A"
  shows "shape_of de = Some sh \<Longrightarrow> wf_shape sh \<Longrightarrow> shape_size sh < 2 ^ 32 \<Longrightarrow> cc_program self \<noteq> None \<Longrightarrow>
      compile_data_element A C pt de (0, self) =
        (APX_NO_ERROR, word_of_nat (shape_size sh), emit self (code C pt sh) (has_dynamic sh))"
    and "fields_of cs = Some fs \<Longrightarrow> wf_fields fs \<Longrightarrow> k + fields_size fs < 2 ^ 32 \<Longrightarrow> cc_program self \<noteq> None \<Longrightarrow>
      compile_record_fields A C pt cs (word_of_nat k, self) =
        (APX_NO_ERROR, word_of_nat (k + fields_size fs), emit self (fields_code C pt fs) (fields_dynamic fs))"
proof (induction de and cs arbitrary: sh self and fs k self rule: shape_of_fields_of.induct)
  case (1 de)
  show ?case
  proof (cases "de_type_code de = APX_TYPE_CODE_RECORD")
    case False
    with 1 have leaf: "leaf_shape de = Some sh" by (simp add: shape_of.simps)
    then obtain c where c: "type_case_of (de_type_code de) = Some c" using leaf_facts(4) by blast
    from leaf_emits [OF A "1.prems"(4) leaf c] False c show ?thesis by simp
  next
    case rec: True
    with "1.prems"(1) obtain children fs where ch: "de_elements de = Some children" "children \<noteq> []"
      and fs: "fields_of children = Some fs" "sh = Rec fs" and al: "de_array_len de = 0"
      by (auto simp: shape_of.simps word_gt_0 split: if_splits option.splits)
    let ?self = "emit self (element_bytes C (pack_opcode pt) APX_VM_VARIANT_RECORD 0 False) False"
    have el: "compile_element_instruction A C self de (pack_opcode pt) APX_VM_VARIANT_RECORD = (APX_NO_ERROR, ?self)"
      using "1.prems"(4) al by (simp add: element_instruction_emits [OF A]) (simp add: element_bytes_def)
    have "compile_record_fields A C pt children (word_of_nat 0, ?self) =
        (APX_NO_ERROR, word_of_nat (0 + fields_size fs), emit ?self (fields_code C pt fs) (fields_dynamic fs))"
      using "1.prems" fs by (intro "1.IH" [OF rec _ ch(1) ch(2)]) (auto simp: al)
    moreover have "(word_of_nat (fields_size fs) :: u32) > 0"
      using "1.prems" fs shape_size_pos [of sh] by (simp add: word_less_nat_alt unat_of_nat)
    ultimately show ?thesis
      using rec el ch fs al
      by (cases children) (auto simp: apx_dataElement_get_array_length_def element_data_size_def)
  qed
next
  case 2
  then show ?case by simp
next
  case (3 child children)
  from "3.prems"(1) obtain name d sh fs' where nm: "field_name child = Some name" and d: "derived child = Some d"
    and sh: "shape_of d = Some sh" and fs': "fields_of children = Some fs'" and fs: "fs = (name, sh) # fs'"
    by (auto split: option.splits)
  let ?s1 = "emit self (select_bytes name (fs' = [])) False"
  let ?s2 = "emit ?s1 (code C pt sh) (has_dynamic sh)"
  have nil: "(children = []) = (fs' = [])"
    using fs' by (cases children) (auto split: option.splits)
  have sel: "compile_record_select_instruction A self child (children = []) = (APX_NO_ERROR, ?s1)"
    using "3.prems" nm fs nil by (simp add: record_select_emits [OF A])
  from d obtain parent where dd: "apx_dataElement_derive_data_element child = (APX_NO_ERROR, Some d, parent)"
    by (auto simp: derived_def split: prod.splits apx_error.splits option.splits)
  have el: "compile_data_element A C pt d (0, ?s1) = (APX_NO_ERROR, word_of_nat (shape_size sh), ?s2)"
    using "3.prems" fs by (intro "3.IH"(1) [OF refl nm d sh]) auto
  have rest: "compile_record_fields A C pt children (word_of_nat (k + shape_size sh), ?s2) =
      (APX_NO_ERROR, word_of_nat (k + shape_size sh + fields_size fs'), emit ?s2 (fields_code C pt fs') (fields_dynamic fs'))"
    using "3.prems" fs by (intro "3.IH"(2) [OF refl nm d fs']) auto
  have "(word_of_nat (shape_size sh) :: u32) \<noteq> 0"
  proof -
    have "unat (word_of_nat (shape_size sh) :: u32) = shape_size sh"
      using "3.prems" fs by (simp add: unat_of_nat)
    moreover have "0 < shape_size sh" using "3.prems" fs shape_size_pos [of sh] by simp
    ultimately show ?thesis by (metis less_numeral_extra(3) unat_0)
  qed
  then show ?case using sel dd el rest fs by (simp add: add.assoc)
qed

section \<open>Compiling a port\<close>

lemma code_nonempty: "code C pt sh \<noteq> []"
  by (cases sh) (auto simp: with_limits_def element_code_def element_bytes_def)

lemma compile_port_shape:
  assumes A: "bytearray_appends A" and de: "port_effective_data_element port = Some de"
    and sh: "shape_of de = Some sh" "wf_shape sh" "shape_size sh < 2 ^ 32"
    and q: "header_data_size (word_of_nat (shape_size sh)) (port_queue_length port) \<le> unat UINT32_MAX"
  shows "apx_compiler_compile_port A C cc (Some port) pt =
    (APX_NO_ERROR, Some (header_bytes C pt (word_of_nat (shape_size sh)) (port_queue_length port) (has_dynamic sh) @ code C pt sh),
     \<lparr>cc_program = None, cc_last_error = APX_NO_ERROR, cc_has_dynamic_data = has_dynamic sh\<rparr>)"
proof -
  let ?cc = "(reset_internal_state cc)\<lparr>cc_program := Some []\<rparr>"
  have "compile_data_element A C pt de (0, ?cc) =
      (APX_NO_ERROR, word_of_nat (shape_size sh), emit ?cc (code C pt sh) (has_dynamic sh))"
    by (rule compile_shape(1) [OF A sh]) simp
  then show ?thesis
    using code_nonempty [of C pt sh] encode_header_bytes [OF A q, where p = "[]"] de
    by (simp add: apx_compiler_compile_port_def Let_def emit_def bytearray_append_ok [OF A] reset_internal_state_def)
qed

end
