(* ===== verification/PackValues.thy ===== *)
theory PackValues
  imports Serializer Layout
begin

text \<open>
  The serializer writes what the layouts specify: for every shape without fields, a pack
  operation on a state that holds a value with a layout succeeds, writes the layout at the
  position of the buffer and hands the stack of states back. These lemmas carry the proof of
  the interpreter in the theory PackRun.
\<close>

section \<open>Numbers\<close>

text \<open>The value that the union and its storage type hold.\<close>

definition holds_num :: "apx_typeCode \<Rightarrow> dv \<Rightarrow> u64 \<Rightarrow> scalar_storage_type \<Rightarrow> bool" where
  "holds_num tc v u k \<longleftrightarrow> (case v of
      DvInt i \<Rightarrow>
        tc \<in> {APX_TYPE_CODE_UINT8, APX_TYPE_CODE_UINT16, APX_TYPE_CODE_UINT32} \<and>
          k = APX_VM_SCALAR_STORAGE_TYPE_UINT32 \<and> uint (get32 u) = i \<or>
        tc = APX_TYPE_CODE_UINT64 \<and> k = APX_VM_SCALAR_STORAGE_TYPE_UINT64 \<and> uint u = i \<or>
        tc \<in> {APX_TYPE_CODE_INT8, APX_TYPE_CODE_INT16, APX_TYPE_CODE_INT32} \<and>
          k = APX_VM_SCALAR_STORAGE_TYPE_INT32 \<and> sint (get32 u) = i \<or>
        tc = APX_TYPE_CODE_INT64 \<and> k = APX_VM_SCALAR_STORAGE_TYPE_INT64 \<and> sint u = i
    | DvBool b \<Rightarrow> tc = APX_TYPE_CODE_BOOL \<and> k = APX_VM_SCALAR_STORAGE_TYPE_BOOL \<and> get_bool u = b
    | _ \<Rightarrow> False)"

lemma read_num:
  assumes D: "dtl_documented D \<alpha>" and v: "num_bytes tc lim (\<alpha> w) = Some bs"
  shows "\<exists>u k. state_read_scalar_value_internal D st (Some w) tc =
      (APX_NO_ERROR, st\<lparr>ws_scalar_value := u, ws_scalar_storage_type := k\<rparr>) \<and> holds_num tc (\<alpha> w) u k"
proof (cases "\<alpha> w")
  case (DvInt i)
  with v obtain n sg where t: "int_type tc = Some (n, sg)" and f: "int_fits n sg i"
    by (auto split: option.splits if_splits)
  from t show ?thesis
  proof (cases rule: int_type_cases)
    case u32
    have "uint (word_of_int i :: u32) = i" using fits_u32 f u32 by simp
    with DvInt have "sv_to_u32 D (Some w) = (word_of_int i, True)" by (intro dtl_numbers(2) [OF D]) simp
    with u32 fits_u32 [of n i] f DvInt show ?thesis
      by (intro exI [of _ "set32 (ws_scalar_value st) (word_of_int i)"]
            exI [of _ APX_VM_SCALAR_STORAGE_TYPE_UINT32])
        (auto simp: state_read_scalar_value_internal_def converted_def holds_num_def)
  next
    case i32
    have "sint (word_of_int i :: u32) = i" using fits_i32 f i32 by simp
    with DvInt have "sv_to_i32 D (Some w) = (word_of_int i, True)" by (intro dtl_numbers(1) [OF D]) simp
    with i32 fits_i32 [of n i] f DvInt show ?thesis
      by (intro exI [of _ "set32 (ws_scalar_value st) (word_of_int i)"]
            exI [of _ APX_VM_SCALAR_STORAGE_TYPE_INT32])
        (auto simp: state_read_scalar_value_internal_def converted_def holds_num_def)
  next
    case u64
    have "uint (word_of_int i :: u64) = i" using fits_u64 f u64 by simp
    with DvInt have "sv_to_u64 D (Some w) = (word_of_int i, True)" by (intro dtl_numbers(4) [OF D]) simp
    with u64 fits_u64 [of i] f DvInt show ?thesis
      by (intro exI [of _ "word_of_int i"]
            exI [of _ APX_VM_SCALAR_STORAGE_TYPE_UINT64])
        (auto simp: state_read_scalar_value_internal_def converted_def holds_num_def)
  next
    case i64
    have "sint (word_of_int i :: u64) = i" using fits_i64 f i64 by simp
    with DvInt have "sv_to_i64 D (Some w) = (word_of_int i, True)" by (intro dtl_numbers(3) [OF D]) simp
    with i64 fits_i64 [of i] f DvInt show ?thesis
      by (intro exI [of _ "word_of_int i"]
            exI [of _ APX_VM_SCALAR_STORAGE_TYPE_INT64])
        (auto simp: state_read_scalar_value_internal_def converted_def holds_num_def)
  qed
next
  case (DvBool b)
  with v have "tc = APX_TYPE_CODE_BOOL" by (simp split: if_splits)
  with DvBool dtl_numbers(5) [OF D DvBool] show ?thesis
    by (intro exI [of _ "of_bool64 b"] exI [of _ APX_VM_SCALAR_STORAGE_TYPE_BOOL]) (auto simp: state_read_scalar_value_internal_def converted_def holds_num_def)
qed (use v in auto)


lemma num_range:
  assumes v: "num_bytes tc lim v = Some bs" and h: "holds_num tc v u k"
    and st: "ws_type_code st = tc" "ws_scalar_storage_type st = k" "ws_scalar_value st = u"
  shows "state_default_range_check_scalar st = APX_NO_ERROR"
proof (cases v)
  case (DvInt i)
  with v obtain n sg where t: "int_type tc = Some (n, sg)" and f: "int_fits n sg i"
    by (auto split: option.splits if_splits)
  then show ?thesis using DvInt h st
    by (cases tc) (auto simp: state_default_range_check_scalar_def holds_num_def int_fits_def
        range_u32_spec range_u64_spec range_i32_spec range_i64_spec word_le_def)
next
  case (DvBool b)
  with h st show ?thesis by (auto simp: holds_num_def state_default_range_check_scalar_def)
qed (use v in auto)

lemma num_packed:
  assumes C: "packs_little_endian C" and v: "num_bytes tc lim v = Some bs" and h: "holds_num tc v u k"
    and st: "ws_type_code st = tc" "ws_scalar_storage_type st = k" "ws_scalar_value st = u"
      "ws_element_size st = word_of_nat (num_size tc)"
  shows "scalar_bytes C st = (APX_NO_ERROR, bs)"
proof (cases v)
  case (DvInt i)
  with v obtain n sg where t: "int_type tc = Some (n, sg)" and bs: "bs = int_bytes n i"
    by (auto split: option.splits if_splits)
  from t DvInt h st show ?thesis
    by (cases tc) (auto simp: bs scalar_bytes_def holds_num_def num_size_def packLE_bytes [OF C]
      packLE64_bytes [OF C] int_bytes_uint int_bytes_sint simp del: le_bytes_numeral le_bytes.simps)
next
  case (DvBool b)
  with v h st show ?thesis
    by (auto simp: scalar_bytes_def holds_num_def num_size_def packLE64_bytes [OF C] split: if_splits)
qed (use v in auto)

lemma num_type_flags:
  "int_type tc \<noteq> None \<or> tc = APX_TYPE_CODE_BOOL \<Longrightarrow> ws_type_code st = tc \<Longrightarrow>
     state_is_num_or_bool_type st \<and> \<not> state_is_record_type st"
  by (cases tc) (auto simp: state_is_num_or_bool_type_def state_is_record_type_def)

section \<open>Positions and what a packed value leaves behind\<close>

definition at_pos :: "'v apx_vm_serializer \<Rightarrow> nat \<Rightarrow> bool" where
  "at_pos s p \<longleftrightarrow> (\<exists>n. wb_next (sr_buffer s) = Some n \<and> n \<le> length (wb_data (sr_buffer s)) \<and>
     p = the_default n (wb_padded_next (sr_buffer s)) \<and> p \<le> length (wb_data (sr_buffer s)))"

definition packed :: "nat \<Rightarrow> layout \<Rightarrow> 'v apx_vm_serializer \<Rightarrow> 'v apx_vm_serializer \<Rightarrow> bool" where
  "packed p ly s s' \<longleftrightarrow> wb_data (sr_buffer s') = overlay p ly (wb_data (sr_buffer s)) \<and>
     at_pos s' (p + length ly) \<and> sr_queue s' = sr_queue s \<and>
     (\<exists>st. (sr_stack s', sr_state s', sr_free s') = pop_states (sr_stack s) st (sr_free s))"

definition ready :: "('v \<Rightarrow> dv) \<Rightarrow> 'v apx_vm_serializer \<Rightarrow> dv \<Rightarrow> bool" where
  "ready \<alpha> s v \<longleftrightarrow> (let st = sr_state s in
     (\<exists>w. ws_value st = Some w \<and> \<alpha> w = v) \<and> ws_value_type st = dv_kind v \<and> ws_array_len st = 0 \<and>
     ws_index st = 0 \<and> ws_dynamic_size_type st = APX_SIZE_TYPE_NONE \<and>
     ws_range_check_state st \<noteq> APX_RANGE_CHECK_STATE_FAIL \<and> \<not> qw_is_active (sr_queue s))"

text \<open>The state that a preparation leaves: the position is taken, type and size are noted.\<close>

definition prepared :: "'v apx_vm_serializer \<Rightarrow> nat \<Rightarrow> apx_typeCode \<Rightarrow> nat \<Rightarrow> 'v apx_vm_serializer" where
  "prepared s p tc es = s\<lparr>sr_buffer := (sr_buffer s)\<lparr>wb_next := Some p, wb_padded_next := None\<rparr>,
     sr_state := (sr_state s)\<lparr>ws_type_code := tc, ws_element_size := word_of_nat es\<rparr>\<rparr>"

lemma prepare_write:
  "at_pos s p \<Longrightarrow> serializer_prepare_for_buffer_write s tc (word_of_nat es) = (APX_NO_ERROR, prepared s p tc es)"
  by (auto simp: at_pos_def serializer_prepare_for_buffer_write_def write_buffer_is_valid_def prepared_def
      split: option.split)

lemma pop_packed:
  assumes "wb_data (sr_buffer t) = overlay p ly (wb_data (sr_buffer s))" "at_pos t (p + length ly)"
    "sr_queue t = sr_queue s" "sr_stack t = sr_stack s" "sr_free t = sr_free s"
  shows "packed p ly s (serializer_pop_state t)"
  using assms by (auto simp: packed_def serializer_pop_state_def at_pos_def split: prod.split intro: sym)

lemma write_num:
  assumes C: "packs_little_endian C" and v: "num_bytes tc lim v = Some bs"
    and h: "holds_num tc v (ws_scalar_value (sr_state s)) (ws_scalar_storage_type (sr_state s))"
    and st: "ws_type_code (sr_state s) = tc" "ws_element_size (sr_state s) = word_of_nat (num_size tc)"
    and p: "wb_next (sr_buffer s) = Some p" "p + length bs \<le> length (wb_data (sr_buffer s))"
  shows "serializer_pack_scalar_value_internal C s =
    (APX_NO_ERROR, s\<lparr>sr_buffer := (sr_buffer s)\<lparr>wb_data := overlay p (map Some bs) (wb_data (sr_buffer s)),
       wb_next := Some (p + length bs)\<rparr>\<rparr>)"
  using num_packed [OF C v h st(1) refl refl st(2)] st p num_bytes_length [OF v]
  by (simp add: serializer_pack_scalar_value_internal_def at_next_def Let_def write_bytes_def
      mem_write_overlay set_next_def)

section \<open>Single numbers\<close>

lemma pack_num:
  assumes L: "lib_documented L \<alpha>" and r: "ready \<alpha> s v" and v: "num_bytes tc lim v = Some bs"
    and checked: "ws_range_check_state (sr_state s) = APX_RANGE_CHECK_STATE_OK \<Longrightarrow>
      holds_num tc v (ws_scalar_value (sr_state s)) (ws_scalar_storage_type (sr_state s))"
    and p: "at_pos s p" "p + length bs \<le> length (wb_data (sr_buffer s))"
  shows "\<exists>s'. pack_as L tc (num_size tc) s 0 APX_SIZE_TYPE_NONE = (APX_NO_ERROR, s') \<and>
    packed p (map Some bs) s s'"
proof -
  note D = lib_documentedD(4) [OF L] and C = lib_documentedD(1) [OF L]
  let ?s = "prepared s p tc (num_size tc)"
  note flags = num_type_flags [OF num_type [OF v], of "sr_state ?s"]
  obtain w where w: "ws_value (sr_state s) = Some w" "\<alpha> w = v" and
    k: "ws_value_type (sr_state s) = DTL_DV_SCALAR" and
    z: "ws_array_len (sr_state s) = 0" "ws_dynamic_size_type (sr_state s) = APX_SIZE_TYPE_NONE"
      "ws_range_check_state (sr_state s) \<noteq> APX_RANGE_CHECK_STATE_FAIL" "\<not> qw_is_active (sr_queue s)"
    using r num_kind [OF v] by (auto simp: ready_def Let_def)
  from read_num [OF D, of tc lim w bs "sr_state ?s"] v w obtain u kk where
    rd: "state_read_scalar_value_internal (lib_d L) (sr_state ?s) (Some w) tc =
      (APX_NO_ERROR, (sr_state ?s)\<lparr>ws_scalar_value := u, ws_scalar_storage_type := kk\<rparr>)"
    and h: "holds_num tc v u kk" by auto
  define t where "t = (if ws_range_check_state (sr_state s) = APX_RANGE_CHECK_STATE_OK then ?s
    else ?s\<lparr>sr_state := (sr_state ?s)\<lparr>ws_scalar_value := u, ws_scalar_storage_type := kk\<rparr>\<rparr>)"
  have t: "holds_num tc v (ws_scalar_value (sr_state t)) (ws_scalar_storage_type (sr_state t))"
    "ws_type_code (sr_state t) = tc" "ws_element_size (sr_state t) = word_of_nat (num_size tc)"
    "wb_next (sr_buffer t) = Some p" "wb_data (sr_buffer t) = wb_data (sr_buffer s)"
    "wb_padded_next (sr_buffer t) = None" "sr_queue t = sr_queue s" "sr_stack t = sr_stack s" "sr_free t = sr_free s"
    using h checked by (auto simp: t_def prepared_def)
  define t' where "t' = t\<lparr>sr_buffer := (sr_buffer t)\<lparr>wb_data := overlay p (map Some bs) (wb_data (sr_buffer t)),
       wb_next := Some (p + length bs)\<rparr>\<rparr>"
  have wr: "serializer_pack_scalar_value_internal (lib_c L) t = (APX_NO_ERROR, t')"
    unfolding t'_def using p t by (intro write_num [OF C v]) auto
  have check: "(case ws_range_check_state (sr_state ?s) of
             APX_RANGE_CHECK_STATE_NOT_CHECKED \<Rightarrow> on_state (state_default_range_check_value (lib_d L)) ?s
           | APX_RANGE_CHECK_STATE_FAIL \<Rightarrow> (APX_VALUE_RANGE_ERROR, ?s)
           | APX_RANGE_CHECK_STATE_OK \<Rightarrow> (APX_NO_ERROR, ?s)) = (APX_NO_ERROR, t)"
    using rd k w z num_range [OF v h, of "(sr_state ?s)\<lparr>ws_scalar_value := u, ws_scalar_storage_type := kk\<rparr>"]
    by (cases "ws_range_check_state (sr_state s)")
      (auto simp: t_def prepared_def on_state_def state_default_range_check_value_def state_read_scalar_value_def)
  have "serializer_pack_scalar_value L ?s = (APX_NO_ERROR, t')"
    unfolding serializer_pack_scalar_value_def check using k w wr by (simp add: prepared_def)
  then have "serializer_pack_value L ?s = (APX_NO_ERROR, serializer_pop_state t')"
    using z flags t by (simp add: serializer_pack_value_def prepared_def queued_write_state_is_active_def
        pack_without_elements_def Let_def t'_def)
  moreover have "packed p (map Some bs) s (serializer_pop_state t')"
    using t p by (intro pop_packed) (auto simp: t'_def at_pos_def)
  ultimately show ?thesis
    by (simp add: pack_as_def prepare_write [OF p(1)] serializer_prepare_for_array_def)
qed


section \<open>Arrays\<close>

text \<open>The part of \<open>serializer_pack_value\<close> that writes the elements of an array of non-records.\<close>

definition write_elements :: "'v lib \<Rightarrow> 'v apx_vm_serializer \<Rightarrow> apx_error \<times> 'v apx_vm_serializer" where
  "write_elements L t = (let st = sr_state t in
     if state_is_num_or_bool_type st then serializer_pack_array_of_scalar L t
     else if state_is_char_type st then serializer_pack_string L t
     else serializer_pack_byte_array_internal L t)"

definition data_type :: "apx_typeCode \<Rightarrow> bool" where
  "data_type tc \<longleftrightarrow> int_type tc \<noteq> None \<or>
     tc \<in> {APX_TYPE_CODE_BOOL, APX_TYPE_CODE_CHAR, APX_TYPE_CODE_CHAR8, APX_TYPE_CODE_BYTE}"

text \<open>The state in which the elements are written, and the effect of writing them.\<close>

definition array_state :: "'v apx_vm_serializer \<Rightarrow> apx_typeCode \<Rightarrow> nat \<Rightarrow> u32 \<Rightarrow> bool \<Rightarrow> nat \<Rightarrow>
    'v apx_vm_writeState" where
  "array_state s tc es n dynamic len =
     (let st = (sr_state s)\<lparr>ws_type_code := tc, ws_element_size := word_of_nat es\<rparr>
      in if dynamic then st\<lparr>ws_max_array_len := n, ws_array_len := word_of_nat len,
           ws_dynamic_size_type := apx_vm_size_to_size_type n\<rparr>
         else st\<lparr>ws_array_len := n\<rparr>)"

definition wrote :: "nat \<Rightarrow> byte list \<Rightarrow> 'v apx_vm_serializer \<Rightarrow> 'v apx_vm_serializer \<Rightarrow> bool" where
  "wrote q bs t t' \<longleftrightarrow> (\<exists>st. t' = t\<lparr>sr_state := st,
     sr_buffer := (sr_buffer t)\<lparr>wb_data := overlay q (map Some bs) (wb_data (sr_buffer t)),
       wb_next := Some (q + length bs)\<rparr>\<rparr>)"

lemma write_length:
  assumes C: "packs_little_endian C" and n: "n \<noteq> 0" and len: "len \<le> unat n"
    and q: "wb_next (sr_buffer t) = Some q" "q + length_size (unat n) \<le> length (wb_data (sr_buffer t))"
  shows "serializer_write_dynamic_value_to_buffer C (word_of_nat len)
      (apx_vm_size_type_to_size (apx_vm_size_to_size_type n)) t =
    (APX_NO_ERROR, t\<lparr>sr_buffer := (sr_buffer t)\<lparr>
       wb_data := overlay q (map Some (le_bytes (length_size (unat n)) len)) (wb_data (sr_buffer t)),
       wb_next := Some (q + length_size (unat n))\<rparr>\<rparr>)"
proof -
  have nb: "unat n < 2 ^ 32" using unsigned_less [of n, where ?'a = nat] by simp
  with len have u: "unat (word_of_nat len :: u32) = len" by (simp add: unat_of_nat)
  let ?k = "length_size (unat n)"
  have "write_dynamic_value_to_buffer C q (length (wb_data (sr_buffer t))) (word_of_nat len) ?k t =
      write_bytes q (le_bytes ?k len) t"
    using length_size_cases [of "unat n"] length_size_fits [OF len nb] q(2) u
    by (auto simp: write_dynamic_value_to_buffer_def packLE_bytes [OF C] word_less_nat_alt
        simp del: le_bytes_numeral le_bytes.simps)
  then show ?thesis
    using q by (simp add: serializer_write_dynamic_value_to_buffer_def at_next_def write_bytes_def
        mem_write_overlay set_next_def size_type_length_size [OF n])
qed



lemma pack_array:
  assumes L: "packs_little_endian (lib_c L)" and r: "ready \<alpha> s v" and n: "n \<noteq> 0" and tc: "data_type tc"
    and dyn: "dynamic \<Longrightarrow> len \<le> unat n \<and>
      state_determine_array_length_from_value (lib_d L)
        ((sr_state s)\<lparr>ws_type_code := tc, ws_element_size := word_of_nat es, ws_max_array_len := n\<rparr>) =
      (APX_NO_ERROR, (sr_state s)\<lparr>ws_type_code := tc, ws_element_size := word_of_nat es,
         ws_max_array_len := n, ws_array_len := word_of_nat len\<rparr>)"
    and es: "0 < es" "es \<le> 8" "unat n * es < 2 ^ 32"
    and ly: "array_layout (unat n) dynamic es len bs = Some ly" and bs: "length bs = len * es"
    and elems: "\<And>t q. \<lbrakk>sr_state t = array_state s tc es n dynamic len; wb_next (sr_buffer t) = Some q;
        q + length bs \<le> length (wb_data (sr_buffer t)); len \<noteq> 0; sr_queue t = sr_queue s\<rbrakk> \<Longrightarrow>
      \<exists>t'. write_elements L t = (APX_NO_ERROR, t') \<and> wrote q bs t t'"
    and p: "at_pos s p" "p + length ly \<le> length (wb_data (sr_buffer s))"
  shows "\<exists>s'. pack_as L tc es s n (if dynamic then apx_vm_size_to_size_type n else APX_SIZE_TYPE_NONE) =
      (APX_NO_ERROR, s') \<and> packed p ly s s'"
proof -
  let ?s = "prepared s p tc es" and ?d = "wb_data (sr_buffer s)"
  have z: "ws_array_len (sr_state s) = 0" "ws_dynamic_size_type (sr_state s) = APX_SIZE_TYPE_NONE"
    "\<not> qw_is_active (sr_queue s)"
    using r by (auto simp: ready_def Let_def)
  have nb: "unat n < 2 ^ 32" using unsigned_less [of n, where ?'a = nat] by simp
  have unes: "unat (word_of_nat es :: u32) = es" using es by (simp add: unat_of_nat)
  have esnz: "(word_of_nat es :: u32) \<noteq> 0" using es unes by (metis less_numeral_extra(3) unat_0)
  have prod: "unat (n * word_of_nat es) = unat n * es"
    using es unes by (simp add: unat_word_ariths)
  have flags: "\<And>st. ws_type_code st = tc \<Longrightarrow> \<not> state_is_record_type st \<and>
      (state_is_num_or_bool_type st \<or> state_is_char_type st \<or> state_is_bytes_type st)" for st :: "'a apx_vm_writeState"
    using tc by (cases tc) (auto simp: data_type_def state_is_record_type_def state_is_num_or_bool_type_def
        state_is_char_type_def state_is_bytes_type_def)
  show ?thesis
  proof (cases dynamic)
    case False
    with ly have len: "len = unat n" "ly = map Some bs" by (auto simp: array_layout_def split: if_splits)
    let ?t = "?s\<lparr>sr_state := array_state s tc es n dynamic len\<rparr>"
    obtain t' where t': "write_elements L ?t = (APX_NO_ERROR, t')" "wrote p bs ?t t'"
      using elems [of ?t p] p len n by (auto simp: prepared_def unat_eq_0)
    have "serializer_pack_value L ?t = (APX_NO_ERROR, serializer_pop_state t')"
      using t' False n z flags [of "sr_state ?t"]
      by (auto simp: serializer_pack_value_def pack_elements_def write_elements_def Let_def array_state_def
          queued_write_state_is_active_def prepared_def wrote_def)
    moreover have "packed p ly s (serializer_pop_state t')"
      using t'(2) p len by (intro pop_packed) (auto simp: wrote_def prepared_def at_pos_def)
    ultimately show ?thesis using False n
      by (simp add: pack_as_def prepare_write [OF p(1)] serializer_prepare_for_array_def word_gt_0
          array_state_def prepared_def)
  next
    case True
    let ?k = "length_size (unat n)"
    from True ly have len: "len \<le> unat n"
      and lyeq: "ly = map Some (le_bytes ?k len @ bs) @ replicate ((unat n - len) * es) None"
      by (auto simp: array_layout_def split: if_splits)
    then have lyl: "length ly = ?k + unat n * es"
      using bs by (simp flip: add_mult_distrib)
    note det = dyn [OF True, THEN conjunct2]
    let ?st = "array_state s tc es n dynamic len"
    let ?t = "?s\<lparr>sr_state := ?st, sr_buffer := (sr_buffer ?s)\<lparr>wb_padded_next := Some (p + ?k + unat n * es)\<rparr>\<rparr>"
    have ul: "unat (word_of_nat len :: u32) = len" using len nb by (simp add: unat_of_nat)
    have prep: "serializer_prepare_for_array L ?s n (apx_vm_size_to_size_type n) = (APX_NO_ERROR, ?t)"
      using n det True p lyl prod esnz len ul
      by (simp add: serializer_prepare_for_array_def word_gt_0 on_state_def prepared_def at_next_def Let_def
          size_to_size_type_none size_type_length_size [OF n] array_state_def word_less_nat_alt not_less unat_eq_0)
    let ?u = "?t\<lparr>sr_buffer := (sr_buffer ?t)\<lparr>wb_data := overlay p (map Some (le_bytes ?k len)) ?d,
        wb_next := Some (p + ?k)\<rparr>\<rparr>"
    have lenw: "serializer_write_dynamic_value_to_buffer (lib_c L) (word_of_nat len)
        (apx_vm_size_type_to_size (apx_vm_size_to_size_type n)) ?t = (APX_NO_ERROR, ?u)"
      using p lyl by (subst write_length [OF L n len, of _ p]) (auto simp: prepared_def)
    show ?thesis
    proof (cases "len = 0")
      case l0: True
      have "serializer_pack_value L ?t = (APX_NO_ERROR, serializer_pop_state ?u)"
        using lenw l0 True n z flags [of ?st]
        by (simp add: serializer_pack_value_def pack_without_elements_def Let_def array_state_def
            queued_write_state_is_active_def prepared_def size_to_size_type_none)
      moreover have "packed p ly s (serializer_pop_state ?u)"
        using l0 p lyl lyeq bs by (intro pop_packed) (auto simp: prepared_def at_pos_def overlay_append)
      ultimately show ?thesis
        by (auto simp: pack_as_def prepare_write [OF p(1)] True prep)
    next
      case l0: False
      have "len * es \<le> unat n * es" using len by simp
      then have room: "p + ?k + length bs \<le> length ?d" using p(2) unfolding lyl bs by linarith
      obtain t' where t': "write_elements L ?u = (APX_NO_ERROR, t')" "wrote (p + ?k) bs ?u t'"
        using elems [of ?u "p + ?k"] room l0 by (auto simp: prepared_def)
      have wl: "(word_of_nat len :: u32) \<noteq> 0" using ul l0 by (metis unat_0)
      have "serializer_pack_value L ?t = (APX_NO_ERROR, serializer_pop_state t')"
        using lenw t' True n z wl flags [of ?st]
        by (auto simp: serializer_pack_value_def pack_elements_def write_elements_def Let_def array_state_def
            queued_write_state_is_active_def prepared_def wrote_def size_to_size_type_none)
      moreover have "packed p ly s (serializer_pop_state t')"
        using t'(2) p lyl lyeq by (intro pop_packed) (auto simp: wrote_def prepared_def at_pos_def overlay_append)
      ultimately show ?thesis
        by (auto simp: pack_as_def prepare_write [OF p(1)] True prep)
    qed
  qed
qed


subsection \<open>Arrays of numbers\<close>

lemma wrote_nil: "wb_next (sr_buffer t) = Some q \<Longrightarrow> wrote q [] t t"
  unfolding wrote_def by (intro exI [of _ "sr_state t"]) simp

lemma wrote_append: "wrote q a t t1 \<Longrightarrow> wrote (q + length a) b t1 t2 \<Longrightarrow> wrote q (a @ b) t t2"
  by (auto simp: wrote_def overlay_append add.assoc)

lemma read_elem:
  assumes D: "dtl_documented D \<alpha>" and w: "\<alpha> w = DvArray xs" "ws_value st = Some w" "ws_value_type st = DTL_DV_ARRAY"
    and i: "i < length xs" and b: "num_bytes tc lim (xs ! i) = Some b"
  shows "\<exists>u k. state_read_scalar_array_value D st (int i) tc =
      (APX_NO_ERROR, st\<lparr>ws_scalar_value := u, ws_scalar_storage_type := k\<rparr>) \<and> holds_num tc (xs ! i) u k"
proof -
  obtain e where e: "av_value D (Some w) (int i) = Some e" "\<alpha> e = xs ! i"
    using dtl_array(2) [OF D w(1) i] by auto
  have k: "dv_type D (Some e) = DTL_DV_SCALAR" using dtl_kind(1) [OF D] e num_kind [OF b] by simp
  from e b have "num_bytes tc lim (\<alpha> e) = Some b" by simp
  from read_num [OF D this, of st] e k w show ?thesis
    by (simp add: state_read_scalar_array_value_def Let_def)
qed

lemma check_elems:
  assumes D: "dtl_documented D \<alpha>" and w: "\<alpha> w = DvArray xs"
    and b: "\<And>x. x \<in> set xs \<Longrightarrow> \<exists>b. num_bytes tc lim x = Some b"
  shows "i + k = length xs \<Longrightarrow> ws_value st = Some w \<Longrightarrow> ws_value_type st = DTL_DV_ARRAY \<Longrightarrow>
    ws_type_code st = tc \<Longrightarrow> \<exists>u kk. default_range_check_elements D st i k APX_NO_ERROR =
      (APX_NO_ERROR, st\<lparr>ws_scalar_value := u, ws_scalar_storage_type := kk\<rparr>)"
proof (induction k arbitrary: i st)
  case 0
  show ?case
    by (intro exI [of _ "ws_scalar_value st"] exI [of _ "ws_scalar_storage_type st"]) simp
next
  case (Suc k)
  then have i: "i < length xs" by simp
  with b obtain bi where bi: "num_bytes tc lim (xs ! i) = Some bi" by (meson nth_mem)
  obtain u kk where rd: "state_read_scalar_array_value D st (int i) tc =
      (APX_NO_ERROR, st\<lparr>ws_scalar_value := u, ws_scalar_storage_type := kk\<rparr>)" "holds_num tc (xs ! i) u kk"
    using read_elem [OF D w Suc.prems(2,3) i bi] by blast
  let ?st = "st\<lparr>ws_scalar_value := u, ws_scalar_storage_type := kk\<rparr>"
  have "state_default_range_check_scalar ?st = APX_NO_ERROR"
    using num_range [OF bi rd(2), of ?st] Suc.prems by simp
  with Suc.IH [of "Suc i" ?st] rd Suc.prems show ?case by simp
qed

lemma write_elems:
  assumes L: "lib_documented L \<alpha>" and w: "\<alpha> w = DvArray xs" and small: "length xs \<le> 2 ^ 31"
    and b: "collect (map (num_bytes tc lim) xs) = Some bss"
  shows "i + k = length xs \<Longrightarrow> ws_value (sr_state t) = Some w \<Longrightarrow> ws_value_type (sr_state t) = DTL_DV_ARRAY \<Longrightarrow>
    ws_type_code (sr_state t) = tc \<Longrightarrow> ws_element_size (sr_state t) = word_of_nat (num_size tc) \<Longrightarrow>
    wb_next (sr_buffer t) = Some q \<Longrightarrow> q + length (concat (drop i bss)) \<le> length (wb_data (sr_buffer t)) \<Longrightarrow>
    \<exists>t'. pack_scalar_elements L i k t = (APX_NO_ERROR, t') \<and> wrote q (concat (drop i bss)) t t'"
proof (induction k arbitrary: i t q)
  case 0
  then show ?case using collect_length [OF b] wrote_nil by auto
next
  case (Suc k)
  note D = lib_documentedD(4) [OF L] and C = lib_documentedD(1) [OF L]
  from Suc.prems have i: "i < length xs" by simp
  then have bi: "num_bytes tc lim (xs ! i) = Some (bss ! i)" using collect_nth [OF b, of i] by simp
  have dr: "drop i bss = bss ! i # drop (Suc i) bss"
    using i collect_length [OF b] by (simp add: Cons_nth_drop_Suc)
  have si: "sint (word_of_nat i :: u32) = int i"
    using i small by (simp add: signed_of_nat signed_take_bit_int_eq_self)
  obtain u kk where rd: "state_read_scalar_array_value (lib_d L) (sr_state t) (int i) tc =
      (APX_NO_ERROR, (sr_state t)\<lparr>ws_scalar_value := u, ws_scalar_storage_type := kk\<rparr>)" "holds_num tc (xs ! i) u kk"
    using read_elem [OF D w Suc.prems(2,3) i bi] by blast
  let ?t = "t\<lparr>sr_state := (sr_state t)\<lparr>ws_scalar_value := u, ws_scalar_storage_type := kk\<rparr>\<rparr>"
  let ?t1 = "?t\<lparr>sr_buffer := (sr_buffer ?t)\<lparr>wb_data := overlay q (map Some (bss ! i)) (wb_data (sr_buffer ?t)),
       wb_next := Some (q + length (bss ! i))\<rparr>\<rparr>"
  have "serializer_pack_scalar_value_internal (lib_c L) ?t = (APX_NO_ERROR, ?t1)"
    using Suc.prems rd(2) dr by (intro write_num [OF C bi]) auto
  moreover have "wrote q (bss ! i) t ?t1"
    unfolding wrote_def by (intro exI [of _ "sr_state ?t"]) simp
  moreover have "\<exists>t'. pack_scalar_elements L (Suc i) k ?t1 = (APX_NO_ERROR, t') \<and>
      wrote (q + length (bss ! i)) (concat (drop (Suc i) bss)) ?t1 t'"
    using Suc.prems dr by (intro Suc.IH) auto
  ultimately show ?case
    using rd(1) Suc.prems(4) si dr wrote_append by (fastforce simp: on_state_def)
qed

lemma pack_num_array:
  assumes L: "lib_documented L \<alpha>" and r: "ready \<alpha> s v" and tc: "int_type tc \<noteq> None \<or> tc = APX_TYPE_CODE_BOOL"
    and n: "n \<noteq> 0" "unat n * num_size tc < 2 ^ 32" "unat n < 2 ^ 31"
    and ly: "layout (NumArray tc lim (unat n) dynamic) v = Some ly"
    and p: "at_pos s p" "p + length ly \<le> length (wb_data (sr_buffer s))"
  shows "\<exists>s'. pack_as L tc (num_size tc) s n (if dynamic then apx_vm_size_to_size_type n else APX_SIZE_TYPE_NONE) =
      (APX_NO_ERROR, s') \<and> packed p ly s s'"
proof -
  note D = lib_documentedD(4) [OF L] and C = lib_documentedD(1) [OF L]
  from ly obtain xs bss where v: "v = DvArray xs" and b: "collect (map (num_bytes tc lim) xs) = Some bss"
    and al: "array_layout (unat n) dynamic (num_size tc) (length xs) (concat bss) = Some ly"
    by (cases v) (auto split: option.splits)
  obtain w where w: "ws_value (sr_state s) = Some w" "\<alpha> w = DvArray xs" and
    k: "ws_value_type (sr_state s) = DTL_DV_ARRAY" and
    z: "ws_array_len (sr_state s) = 0" "ws_dynamic_size_type (sr_state s) = APX_SIZE_TYPE_NONE"
      "ws_range_check_state (sr_state s) \<noteq> APX_RANGE_CHECK_STATE_FAIL"
    using r v by (auto simp: ready_def Let_def)
  have len: "length xs \<le> unat n" using al by (auto simp: array_layout_def split: if_splits)
  with n have lu: "length xs \<le> 2 ^ 31" "nat (av_length (lib_d L) (Some w)) = length xs"
    "unat (word_of_int (av_length (lib_d L) (Some w)) :: u32) = length xs"
    "(word_of_int (av_length (lib_d L) (Some w)) :: u32) = word_of_nat (length xs)"
    by (simp_all add: dtl_array(1) [OF D w(2)] unat_of_nat)
  have fixed: "\<not> dynamic \<Longrightarrow> word_of_nat (length xs) = n"
    using al by (auto simp: array_layout_def split: if_splits)
  have items: "\<exists>b. num_bytes tc lim x = Some b" if "x \<in> set xs" for x
    using collect_item [OF b that] by blast
  show ?thesis
  proof (rule pack_array [where bs = "concat bss" and len = "length xs", OF C r n(1) _ _ _ _ n(2) al _ _ p])
    show "data_type tc" using tc by (auto simp: data_type_def)
    show "length (concat bss) = length xs * num_size tc" using b by (rule length_concat_num)
    show "0 < num_size tc" "num_size tc \<le> 8" using num_size_cases [of tc] by auto
  next
    assume dynamic
    then show "length xs \<le> unat n \<and> state_determine_array_length_from_value (lib_d L)
        ((sr_state s)\<lparr>ws_type_code := tc, ws_element_size := word_of_nat (num_size tc), ws_max_array_len := n\<rparr>) =
      (APX_NO_ERROR, (sr_state s)\<lparr>ws_type_code := tc, ws_element_size := word_of_nat (num_size tc),
         ws_max_array_len := n, ws_array_len := word_of_nat (length xs)\<rparr>)"
      using len k w lu by (simp add: state_determine_array_length_from_value_def)
  next
    fix t :: "'a apx_vm_serializer" and q
    assume t: "sr_state t = array_state s tc (num_size tc) n dynamic (length xs)" "wb_next (sr_buffer t) = Some q"
      "q + length (concat bss) \<le> length (wb_data (sr_buffer t))" "length xs \<noteq> 0"
    have st: "ws_value (sr_state t) = Some w" "ws_value_type (sr_state t) = DTL_DV_ARRAY"
      "ws_type_code (sr_state t) = tc" "ws_element_size (sr_state t) = word_of_nat (num_size tc)"
      "ws_range_check_state (sr_state t) \<noteq> APX_RANGE_CHECK_STATE_FAIL"
      "ws_dynamic_size_type (sr_state t) = APX_SIZE_TYPE_NONE \<Longrightarrow> ws_array_len (sr_state t) = word_of_nat (length xs)"
      using t(1) w k z fixed n(1) by (auto simp: array_state_def Let_def size_to_size_type_none split: if_splits)
    obtain u kk where ch: "default_range_check_elements (lib_d L) (sr_state t) 0 (length xs) APX_NO_ERROR =
        (APX_NO_ERROR, (sr_state t)\<lparr>ws_scalar_value := u, ws_scalar_storage_type := kk\<rparr>)"
      using check_elems [OF D w(2) items, of 0 "length xs" "sr_state t"] st by auto
    define t1 where "t1 = (if ws_range_check_state (sr_state t) = APX_RANGE_CHECK_STATE_OK then t
      else t\<lparr>sr_state := (sr_state t)\<lparr>ws_scalar_value := u, ws_scalar_storage_type := kk\<rparr>\<rparr>)"
    have "\<exists>t'. pack_scalar_elements L 0 (length xs) t1 = (APX_NO_ERROR, t') \<and> wrote q (concat (drop 0 bss)) t1 t'"
      using st t by (intro write_elems [OF L w(2) lu(1) b]) (auto simp: t1_def)
    then obtain t' where t': "pack_scalar_elements L 0 (length xs) t1 = (APX_NO_ERROR, t')" "wrote q (concat bss) t1 t'"
      by auto
    have "wrote q (concat bss) t t'" using t'(2) by (auto simp: wrote_def t1_def split: if_splits)
    moreover have "write_elements L t = (APX_NO_ERROR, t')"
      using num_type_flags [OF tc st(3)] st ch t'(1) lu
      by (cases "ws_range_check_state (sr_state t)")
        (auto simp: write_elements_def serializer_pack_array_of_scalar_def Let_def on_state_def
          state_default_range_check_value_def t1_def)
    ultimately show "\<exists>t'. write_elements L t = (APX_NO_ERROR, t') \<and> wrote q (concat bss) t t'" by blast
  qed
qed


subsection \<open>Strings and byte strings\<close>

lemma write_string:
  assumes L: "lib_documented L \<alpha>" and tc: "ws_type_code (sr_state t) = APX_TYPE_CODE_CHAR \<or> ws_type_code (sr_state t) = APX_TYPE_CODE_CHAR8"
    and t: "ws_value (sr_state t) = Some w" "\<alpha> w = DvStr str" "ws_value_type (sr_state t) = DTL_DV_SCALAR"
      "ws_element_size (sr_state t) = 1" "ws_array_len (sr_state t) = m" "length str \<le> unat m"
    and q: "wb_next (sr_buffer t) = Some q" "q + unat m \<le> length (wb_data (sr_buffer t))"
  shows "\<exists>t'. write_elements L t = (APX_NO_ERROR, t') \<and> wrote q (str @ replicate (unat m - length str) 0) t t'"
proof -
  note D = lib_documentedD(4) [OF L]
  have "unat m < 2 ^ 32" using unsigned_less [of m, where ?'a = nat] by simp
  with t(6) have u: "unat (word_of_nat (length str) :: u32) = length str" by (simp add: unat_of_nat)
  let ?d = "overlay q (map Some (str @ replicate (unat m - length str) 0)) (wb_data (sr_buffer t))"
  let ?t = "t\<lparr>sr_state := sr_state t, sr_buffer := (sr_buffer t)\<lparr>wb_data := ?d, wb_next := Some (q + unat m)\<rparr>\<rparr>"
  note mw = mem_write_overlay [of q "replicate (unat m) 0", simplified length_replicate]
  have "write_elements L t = (APX_NO_ERROR, ?t)"
    using tc t q u overlay_twice [OF t(6) q(2), of 0]
    by (auto simp: write_elements_def Let_def state_is_num_or_bool_type_def state_is_char_type_def
        serializer_pack_string_def dtl_text(1) [OF D t(2)] at_next_def write_bytes_def mw mem_write_overlay
        serializer_pack_char_string_def word_less_nat_alt set_next_def)
  moreover have "wrote q (str @ replicate (unat m - length str) 0) t ?t"
    unfolding wrote_def using t(6) by (intro exI [of _ "sr_state t"]) simp
  ultimately show ?thesis by blast
qed

lemma pack_chars:
  assumes L: "lib_documented L \<alpha>" and r: "ready \<alpha> s v" and tc: "tc = APX_TYPE_CODE_CHAR \<or> tc = APX_TYPE_CODE_CHAR8"
    and n: "n \<noteq> 0"
    and ly: "layout (Chars tc (unat n) dynamic) v = Some ly"
    and p: "at_pos s p" "p + length ly \<le> length (wb_data (sr_buffer s))"
  shows "\<exists>s'. pack_as L tc 1 s n (if dynamic then apx_vm_size_to_size_type n else APX_SIZE_TYPE_NONE) =
      (APX_NO_ERROR, s') \<and> packed p ly s s'"
proof -
  note D = lib_documentedD(4) [OF L] and C = lib_documentedD(1) [OF L]
  from ly obtain str where v: "v = DvStr str" by (cases v) auto
  obtain w where w: "ws_value (sr_state s) = Some w" "\<alpha> w = DvStr str" and
    k: "ws_value_type (sr_state s) = DTL_DV_SCALAR"
    using r v by (auto simp: ready_def Let_def)
  define len where "len = (if dynamic then length str else unat n)"
  define bs where "bs = str @ replicate (len - length str) 0"
  have sl: "length str \<le> unat n" using ly v by (auto simp: array_layout_def split: if_splits)
  have al: "array_layout (unat n) dynamic 1 len bs = Some ly"
    using ly v sl by (auto simp: array_layout_def len_def bs_def)
  have nb: "unat n < 2 ^ 32" using unsigned_less [of n, where ?'a = nat] by simp
  have ul: "unat (word_of_nat (length str) :: u32) = length str" using sl nb by (simp add: unat_of_nat)
  show ?thesis
  proof (rule pack_array [where bs = bs and len = len, OF C r n _ _ _ _ _ al _ _ p])
    show "data_type tc" using tc by (auto simp: data_type_def)
    show "length bs = len * 1" using sl by (auto simp: bs_def len_def)
    show "unat n * 1 < 2 ^ 32" using nb by simp
  next
    assume dynamic
    then show "len \<le> unat n \<and> state_determine_array_length_from_value (lib_d L)
        ((sr_state s)\<lparr>ws_type_code := tc, ws_element_size := word_of_nat 1, ws_max_array_len := n\<rparr>) =
      (APX_NO_ERROR, (sr_state s)\<lparr>ws_type_code := tc, ws_element_size := word_of_nat 1,
         ws_max_array_len := n, ws_array_len := word_of_nat len\<rparr>)"
      using k w sl dtl_kind(2) [OF D, of w] dtl_text(1) [OF D w(2)]
      by (simp add: state_determine_array_length_from_value_def len_def)
  next
    fix t :: "'a apx_vm_serializer" and q
    assume t: "sr_state t = array_state s tc 1 n dynamic len" "wb_next (sr_buffer t) = Some q"
      "q + length bs \<le> length (wb_data (sr_buffer t))"
    have m: "unat (ws_array_len (sr_state t)) = len"
      using t(1) ul by (auto simp: array_state_def Let_def len_def)
    have "\<exists>t'. write_elements L t = (APX_NO_ERROR, t') \<and>
        wrote q (str @ replicate (unat (ws_array_len (sr_state t)) - length str) 0) t t'"
      using t tc w k sl m
      by (intro write_string [OF L, of _ w]) (auto simp: array_state_def Let_def bs_def len_def)
    then show "\<exists>t'. write_elements L t = (APX_NO_ERROR, t') \<and> wrote q bs t t'"
      unfolding m bs_def .
  qed simp_all
qed

lemma pack_bytes:
  assumes L: "lib_documented L \<alpha>" and r: "ready \<alpha> s v" and n: "n \<noteq> 0"
    and ly: "layout (Bytes (unat n) dynamic) v = Some ly"
    and p: "at_pos s p" "p + length ly \<le> length (wb_data (sr_buffer s))"
  shows "\<exists>s'. pack_as L APX_TYPE_CODE_BYTE 1 s n (if dynamic then apx_vm_size_to_size_type n else APX_SIZE_TYPE_NONE) =
      (APX_NO_ERROR, s') \<and> packed p ly s s'"
proof -
  note D = lib_documentedD(4) [OF L] and C = lib_documentedD(1) [OF L]
  from ly obtain bs where v: "v = DvBytes bs" by (cases v) auto
  obtain w where w: "ws_value (sr_state s) = Some w" "\<alpha> w = DvBytes bs" and
    k: "ws_value_type (sr_state s) = DTL_DV_SCALAR"
    using r v by (auto simp: ready_def Let_def)
  have n1: "max 1 (unat n) = unat n" using n by (auto simp: max_def unat_eq_0 not_le)
  then have al: "array_layout (unat n) dynamic 1 (length bs) bs = Some ly" using ly v by simp
  have nb: "unat n < 2 ^ 32" using unsigned_less [of n, where ?'a = nat] by simp
  have sl: "length bs \<le> unat n" and fixed: "\<not> dynamic \<Longrightarrow> length bs = unat n"
    using al by (auto simp: array_layout_def split: if_splits)
  have ul: "unat (word_of_nat (length bs) :: u32) = length bs" using sl nb by (simp add: unat_of_nat)
  show ?thesis
  proof (rule pack_array [where bs = bs and len = "length bs", OF C r n _ _ _ _ _ al _ _ p])
    show "data_type APX_TYPE_CODE_BYTE" by (simp add: data_type_def)
    show "unat n * 1 < 2 ^ 32" using nb by simp
  next
    assume dynamic
    then show "length bs \<le> unat n \<and> state_determine_array_length_from_value (lib_d L)
        ((sr_state s)\<lparr>ws_type_code := APX_TYPE_CODE_BYTE, ws_element_size := word_of_nat 1, ws_max_array_len := n\<rparr>) =
      (APX_NO_ERROR, (sr_state s)\<lparr>ws_type_code := APX_TYPE_CODE_BYTE, ws_element_size := word_of_nat 1,
         ws_max_array_len := n, ws_array_len := word_of_nat (length bs)\<rparr>)"
      using k w sl dtl_kind(2) [OF D, of w] dtl_text(2) [OF D w(2)]
      by (simp add: state_determine_array_length_from_value_def)
  next
    fix t :: "'a apx_vm_serializer" and q
    assume t: "sr_state t = array_state s APX_TYPE_CODE_BYTE 1 n dynamic (length bs)" "wb_next (sr_buffer t) = Some q"
      "q + length bs \<le> length (wb_data (sr_buffer t))"
    have m: "ws_array_len (sr_state t) = word_of_nat (length bs)"
      using t(1) fixed by (auto simp: array_state_def Let_def)
    have st: "ws_value (sr_state t) = Some w" "ws_value_type (sr_state t) = DTL_DV_SCALAR"
      "ws_type_code (sr_state t) = APX_TYPE_CODE_BYTE"
      using t(1) w k by (simp_all add: array_state_def Let_def)
    let ?t = "t\<lparr>sr_state := sr_state t, sr_buffer := (sr_buffer t)\<lparr>wb_data := overlay q (map Some bs) (wb_data (sr_buffer t)),
       wb_next := Some (q + length bs)\<rparr>\<rparr>"
    have "write_elements L t = (APX_NO_ERROR, ?t)"
      using t(2,3) m st w(2) ul dtl_kind(2) [OF D, of w] dtl_text(2) [OF D w(2)]
      by (simp add: write_elements_def Let_def state_is_num_or_bool_type_def state_is_char_type_def
          serializer_pack_byte_array_internal_def at_next_def mem_read_def write_bytes_def
          mem_write_overlay set_next_def)
    moreover have "wrote q bs t ?t" unfolding wrote_def by blast
    ultimately show "\<exists>t'. write_elements L t = (APX_NO_ERROR, t') \<and> wrote q bs t t'" by blast
  qed simp_all
qed

end
