(* ===== verification/PackRun.thy ===== *)
theory PackRun
  imports Vm CompileShape PackValues
begin

text \<open>
  The interpreter on the code of a shape. \<open>reaches\<close> says that a machine comes to a point of its
  program with a given serializer, whatever the loop does from there. One lemma per instruction
  (\<open>element_step\<close>, \<open>limits_step\<close>, \<open>select_step\<close>, \<open>record_step\<close>) takes the machine over it;
  \<open>pack_runs\<close> is the induction over shapes that puts them together.
\<close>

section \<open>Steps\<close>

abbreviation run_pack :: "'v lib \<Rightarrow> 'v apx_vm \<Rightarrow> (apx_error \<times> 'v apx_vm) option" where
  "run_pack L \<equiv> run_loop (step_pack_program L)"

lemma run_loop_step:
  "step s = (APX_NO_ERROR, True, s') \<Longrightarrow> run_loop step s = run_loop step s'"
  by (subst run_loop.simps) simp

lemma run_loop_stop:
  "step s = (e, going, s') \<Longrightarrow> e \<noteq> APX_NO_ERROR \<or> \<not> going \<Longrightarrow> run_loop step s = Some (e, s')"
  by (subst run_loop.simps) auto

text \<open>The machine has come to a point of its program, with the serializer \<open>s\<close>.\<close>

definition reaches :: "'v lib \<Rightarrow> 'v apx_vm \<Rightarrow> byte list \<Rightarrow> byte list \<Rightarrow> 'v apx_vm_serializer \<Rightarrow> 'v apx_vm \<Rightarrow> bool" where
  "reaches L m pre rest s m' \<longleftrightarrow> run_pack L m = run_pack L m' \<and> at_bytes pre rest (vm_decoder m') \<and>
     vm_serializer m' = s \<and> vm_program_header m' = vm_program_header m"

lemma reaches_refl: "at_bytes pre rest (vm_decoder m) \<Longrightarrow> reaches L m pre rest (vm_serializer m) m"
  by (simp add: reaches_def)

lemma reaches_trans:
  "reaches L m p r s m' \<Longrightarrow> reaches L m' p' r' s' m'' \<Longrightarrow> reaches L m p' r' s' m''"
  by (simp add: reaches_def)

lemma pack_opcode_pack [simp]: "pack_opcode APX_PACK_PROGRAM = APX_VM_OPCODE_PACK"
  by (simp add: pack_opcode_def)

lemma select_step:
  assumes L: "lib_documented L \<alpha>" and at: "at_bytes pre (select_bytes name lst @ rest) (vm_decoder m)"
    and name: "name \<noteq> []" "0 \<notin> set name"
    and sel: "apx_vm_serializer_record_select L (vm_serializer m) name lst = (APX_NO_ERROR, s)"
  shows "\<exists>m'. reaches L m (pre @ select_bytes name lst) rest s m'"
proof -
  note dec = select_decoded [OF lib_documentedD(2,3) [OF L] at name, of "lib_c L"]
  let ?d = "(vm_decoder m)\<lparr>program_next := Some (length pre + length (select_bytes name lst)),
       operation_type := APX_OPERATION_TYPE_RECORD_SELECT, dec_field_name := name, dec_is_last_field := lst\<rparr>"
  let ?m = "m\<lparr>vm_decoder := ?d, vm_serializer := s\<rparr>"
  have "step_pack_program L m = (APX_NO_ERROR, True, ?m)"
    by (simp add: step_pack_program_def dec run_pack_record_select_def on_serializer_def sel
        apx_vm_decoder_get_field_name_def apx_vm_decoder_is_last_field_def)
  from run_loop_step [of "step_pack_program L", OF this] at show ?thesis
    by (intro exI [of _ ?m]) (simp add: reaches_def at_bytes_def)
qed

lemma variant_values:
  "variant_of APX_TYPE_CODE_UINT8 = 0"
  "variant_of APX_TYPE_CODE_UINT16 = 1"
  "variant_of APX_TYPE_CODE_UINT32 = 2"
  "variant_of APX_TYPE_CODE_UINT64 = 3"
  "variant_of APX_TYPE_CODE_INT8 = 4"
  "variant_of APX_TYPE_CODE_INT16 = 5"
  "variant_of APX_TYPE_CODE_INT32 = 6"
  "variant_of APX_TYPE_CODE_INT64 = 7"
  "variant_of APX_TYPE_CODE_BOOL = 8"
  "variant_of APX_TYPE_CODE_BYTE = 9"
  "variant_of APX_TYPE_CODE_CHAR = 12"
  "variant_of APX_TYPE_CODE_CHAR8 = 13"
  by (simp_all add: variant_of_def)

lemma type_code_values:
  "apx_vm_variant_to_type_code 0 = APX_TYPE_CODE_UINT8"
  "apx_vm_variant_to_type_code 1 = APX_TYPE_CODE_UINT16"
  "apx_vm_variant_to_type_code 2 = APX_TYPE_CODE_UINT32"
  "apx_vm_variant_to_type_code 3 = APX_TYPE_CODE_UINT64"
  "apx_vm_variant_to_type_code 4 = APX_TYPE_CODE_INT8"
  "apx_vm_variant_to_type_code 5 = APX_TYPE_CODE_INT16"
  "apx_vm_variant_to_type_code 6 = APX_TYPE_CODE_INT32"
  "apx_vm_variant_to_type_code 7 = APX_TYPE_CODE_INT64"
  "apx_vm_variant_to_type_code 8 = APX_TYPE_CODE_BOOL"
  "apx_vm_variant_to_type_code 9 = APX_TYPE_CODE_BYTE"
  "apx_vm_variant_to_type_code 12 = APX_TYPE_CODE_CHAR"
  "apx_vm_variant_to_type_code 13 = APX_TYPE_CODE_CHAR8"
  by (simp_all add: apx_vm_variant_to_type_code_def)

lemma type_of_variant:
  "type_case_of tc \<noteq> None \<Longrightarrow>
     variant_of tc < 16 \<and> apx_vm_variant_to_type_code (variant_of tc) = tc \<and> tc \<noteq> APX_TYPE_CODE_NONE"
  by (cases tc) (simp_all add: variant_values type_code_values)

lemma unat_length: "n < 2 ^ 32 \<Longrightarrow> unat (word_of_nat n :: u32) = n"
  by (simp add: unat_of_nat)

lemma length_nonzero: "0 < n \<Longrightarrow> n < 2 ^ 32 \<Longrightarrow> (word_of_nat n :: u32) \<noteq> 0"
  using unat_length [of n] by (metis less_numeral_extra(3) unat_0)

text \<open>The pack instruction of a leaf runs the pack operation of its type code.\<close>

lemma element_step:
  assumes L: "lib_documented L \<alpha>" and at: "at_bytes pre (element_code (lib_c L) APX_PACK_PROGRAM tc n dynamic @ rest) (vm_decoder m)"
    and tc: "type_case_of tc \<noteq> None"
    and pk: "pack_as L tc (num_size tc) (vm_serializer m)
        (if tc = APX_TYPE_CODE_BYTE \<and> (word_of_nat n :: u32) = 0 then 1 else word_of_nat n)
        (if (word_of_nat n :: u32) > 0 \<and> dynamic then apx_vm_size_to_size_type (word_of_nat n) else APX_SIZE_TYPE_NONE) =
      (APX_NO_ERROR, s)"
  shows "\<exists>m'. reaches L m (pre @ element_code (lib_c L) APX_PACK_PROGRAM tc n dynamic) rest s m'"
proof -
  note C = lib_documentedD(1) [OF L]
  from tc obtain c where c: "type_case_of tc = Some c" by blast
  note v = type_of_variant [OF tc]
  let ?code = "element_code (lib_c L) APX_PACK_PROGRAM tc n dynamic"
  let ?d = "(vm_decoder m)\<lparr>program_next := Some (length pre + length ?code), operation_type := APX_OPERATION_TYPE_PACK,
      pack_unpack_info := \<lparr>info_type_code = tc, info_array_length = word_of_nat n,
        info_is_dynamic_array = ((word_of_nat n :: u32) > 0 \<and> dynamic)\<rparr>\<rparr>"
  have dec: "apx_vm_decoder_parse_next_operation (lib_c L) (lib_t L) (vm_decoder m) =
      (APX_NO_ERROR, Some APX_OPERATION_TYPE_PACK, ?d)"
    using element_decoded [OF C at [unfolded element_code_def], where ty = APX_OPERATION_TYPE_PACK and T = "lib_t L"] v
    by (simp add: element_code_def)
  let ?m = "m\<lparr>vm_decoder := ?d, vm_serializer := s\<rparr>"
  have "run_pack_instruction L (m\<lparr>vm_decoder := ?d\<rparr>) = (APX_NO_ERROR, ?m)"
    using c pk
    by (cases tc) (auto simp: run_pack_instruction_def apx_vm_decoder_get_pack_unpack_info_def dynamic_size_type_of_def
      on_serializer_def num_size_def Let_def apx_vm_serializer_pack_uint8_def apx_vm_serializer_pack_uint16_def
      apx_vm_serializer_pack_uint32_def apx_vm_serializer_pack_uint64_def apx_vm_serializer_pack_int8_def
      apx_vm_serializer_pack_int16_def apx_vm_serializer_pack_int32_def apx_vm_serializer_pack_int64_def
      apx_vm_serializer_pack_char_def apx_vm_serializer_pack_char8_def apx_vm_serializer_pack_bool_def
      apx_vm_serializer_pack_byte_def)
  then have "step_pack_program L m = (APX_NO_ERROR, True, ?m)"
    by (simp add: step_pack_program_def dec)
  from run_loop_step [of "step_pack_program L", OF this] at show ?thesis
    by (intro exI [of _ ?m]) (simp add: reaches_def at_bytes_def)
qed

section \<open>Limits\<close>

text \<open>What a limit instruction checks: the type it reads, its storage and the interval.\<close>

definition wide :: "apx_typeCode \<Rightarrow> apx_typeCode" where
  "wide tc = (case int_type tc of
     Some (n, sg) \<Rightarrow> if n = 8 then tc else if sg then APX_TYPE_CODE_INT32 else APX_TYPE_CODE_UINT32
   | None \<Rightarrow> tc)"

definition storage_of :: "apx_typeCode \<Rightarrow> scalar_storage_type" where
  "storage_of tc = (case int_type tc of
     Some (n, sg) \<Rightarrow>
       if n = 8 then (if sg then APX_VM_SCALAR_STORAGE_TYPE_INT64 else APX_VM_SCALAR_STORAGE_TYPE_UINT64)
       else (if sg then APX_VM_SCALAR_STORAGE_TYPE_INT32 else APX_VM_SCALAR_STORAGE_TYPE_UINT32)
   | None \<Rightarrow> APX_VM_SCALAR_STORAGE_TYPE_BOOL)"

definition in_range_of :: "apx_typeCode \<Rightarrow> int \<Rightarrow> int \<Rightarrow> u64 \<Rightarrow> apx_error" where
  "in_range_of tc lo hi = (case int_type tc of
     Some (n, sg) \<Rightarrow>
       if n = 8 then (if sg then (\<lambda>u. apx_vm_value_in_range_i64 u (word_of_int lo) (word_of_int hi))
                      else (\<lambda>u. apx_vm_value_in_range_u64 u (word_of_int lo) (word_of_int hi)))
       else (if sg then (\<lambda>u. apx_vm_value_in_range_i32 (get32 u) (word_of_int lo) (word_of_int hi))
             else (\<lambda>u. apx_vm_value_in_range_u32 (get32 u) (word_of_int lo) (word_of_int hi)))
   | None \<Rightarrow> (\<lambda>u. APX_NO_ERROR))"

lemma fits_unat: "int_fits n False i \<Longrightarrow> n = 1 \<or> n = 2 \<or> n = 4 \<Longrightarrow> unat (word_of_int i :: u32) < 256 ^ n"
proof -
  assume f: "int_fits n False i" and n: "n = 1 \<or> n = 2 \<or> n = 4"
  have "int (unat (word_of_int i :: u32)) = i" using fits_u32 [OF f n] by simp
  also have "i < int (256 ^ n)" using f n by (auto simp: int_fits_def)
  finally show ?thesis by (simp only: of_nat_less_iff)
qed

lemma fits_signed:
  "int_fits 1 True i \<Longrightarrow> scast (ucast (word_of_int i :: u32) :: 8 word) = (word_of_int i :: u32)"
  "int_fits 2 True i \<Longrightarrow> scast (ucast (word_of_int i :: u32) :: 16 word) = (word_of_int i :: u32)"
proof -
  have b: "bit i m \<longleftrightarrow> bit i (min k m)" if "- (2 ^ k) \<le> i" "i < 2 ^ k" for k m
    using signed_take_bit_int_eq_self [OF that] bit_signed_take_bit_iff [of k i m] by simp
  show "int_fits 1 True i \<Longrightarrow> scast (ucast (word_of_int i :: u32) :: 8 word) = (word_of_int i :: u32)"
    using b [of 7] by (intro bit_word_eqI) (auto simp: int_fits_def bit_simps)
  show "int_fits 2 True i \<Longrightarrow> scast (ucast (word_of_int i :: u32) :: 16 word) = (word_of_int i :: u32)"
    using b [of 15] by (intro bit_word_eqI) (auto simp: int_fits_def bit_simps)
qed

lemma limits_step:
  assumes L: "lib_documented L \<alpha>" and tc: "int_type tc \<noteq> None" and lim: "wf_limits tc (Some (lo, hi))"
    and at: "at_bytes pre (limits_code (lib_c L) tc arr (Some (lo, hi)) @ rest) (vm_decoder m)"
    and ok: "check_value_range (lib_d L) (wide tc) (storage_of tc) (in_range_of tc lo hi) (sr_state (vm_serializer m)) =
      (APX_NO_ERROR, st)"
  shows "\<exists>m'. reaches L m (pre @ limits_code (lib_c L) tc arr (Some (lo, hi))) rest
    ((vm_serializer m)\<lparr>sr_state := st\<rparr>) m'"
proof -
  note C = lib_documentedD(1) [OF L]
  obtain n sg where t: "int_type tc = Some (n, sg)" using tc by auto
  with lim have fit: "int_fits n sg lo" "int_fits n sg hi" by (auto simp: wf_limits_def)
  let ?c = "limits_code (lib_c L) tc arr (Some (lo, hi))"
  define d where "d = snd (snd (apx_vm_decoder_parse_next_operation (lib_c L) (lib_t L) (vm_decoder m)))"
  let ?m = "m\<lparr>vm_decoder := d, vm_serializer := (vm_serializer m)\<lparr>sr_state := st\<rparr>\<rparr>"
  have goal: ?thesis
    if "step_pack_program L m = (APX_NO_ERROR, True, ?m)" "at_bytes (pre @ ?c) rest d"
    using run_loop_step [of "step_pack_program L", OF that(1)] that(2)
    by (intro exI [of _ ?m]) (simp add: reaches_def)
  from t show ?thesis
  proof (cases rule: int_type_cases)
    case u32
    define lv v where "lv = tc_limit_variant (the (type_case_of tc))" and "v = variant_of tc"
    with u32 t have lv: "unsigned_limit lv v" "n = apx_vm_variant_to_size v"
      and c: "?c = limit_bytes lv arr (packLE (lib_c L) (word_of_int lo) n) (packLE (lib_c L) (word_of_int hi) n)"
      by (auto simp: unsigned_limit_def apx_vm_variant_to_size_def variant_values)
    have chk: "apx_vm_serializer_check_value_range_uint32 L (vm_serializer m) (word_of_int lo) (word_of_int hi) =
        (APX_NO_ERROR, (vm_serializer m)\<lparr>sr_state := st\<rparr>)"
      using ok t u32 by (auto simp: apx_vm_serializer_check_value_range_uint32_def on_state_def wide_def storage_of_def
          in_range_of_def)
    have "int_fits n False lo" "int_fits n False hi" using fit u32(2) by auto
    then have f: "unat (word_of_int lo :: u32) < 256 ^ n" "unat (word_of_int hi :: u32) < 256 ^ n"
      using u32(3) by (auto intro: fits_unat)
    note dec = uint32_limits_decoded [OF C lv f at [unfolded c], of "lib_t L"]
    show ?thesis
      by (rule goal; use at chk c in \<open>simp add: d_def step_pack_program_def dec run_range_check_pack_uint32_def on_serializer_def
          apx_vm_decoder_range_check_info_uint32_def at_bytes_def\<close>)
  next
    case i32
    define lv v where "lv = tc_limit_variant (the (type_case_of tc))" and "v = variant_of tc"
    with i32 t have lv: "signed_limit lv v" "n = apx_vm_variant_to_size v"
      and c: "?c = limit_bytes lv arr (packLE (lib_c L) (word_of_int lo) n) (packLE (lib_c L) (word_of_int hi) n)"
      by (auto simp: signed_limit_def apx_vm_variant_to_size_def variant_values)
    have chk: "apx_vm_serializer_check_value_range_int32 L (vm_serializer m) (word_of_int lo) (word_of_int hi) =
        (APX_NO_ERROR, (vm_serializer m)\<lparr>sr_state := st\<rparr>)"
      using ok t i32 by (auto simp: apx_vm_serializer_check_value_range_int32_def on_state_def wide_def storage_of_def
          in_range_of_def)
    have f: "signed_fits v (word_of_int lo)" "signed_fits v (word_of_int hi)"
      using fit i32 t fits_signed by (auto simp: signed_fits_def v_def variant_values)
    note dec = int32_limits_decoded [OF C lv f at [unfolded c], of "lib_t L"]
    show ?thesis
      by (rule goal; use at chk c in \<open>simp add: d_def step_pack_program_def dec run_range_check_pack_int32_def on_serializer_def
          apx_vm_decoder_range_check_info_int32_def at_bytes_def\<close>)
  next
    case u64
    then have c: "?c = limit_bytes APX_VM_VARIANT_LIMIT_CHECK_U64 arr (packLE64 (lib_c L) (word_of_int lo) 8) (packLE64 (lib_c L) (word_of_int hi) 8)"
      by simp
    have chk: "apx_vm_serializer_check_value_range_uint64 L (vm_serializer m) (word_of_int lo) (word_of_int hi) =
        (APX_NO_ERROR, (vm_serializer m)\<lparr>sr_state := st\<rparr>)"
      using ok u64 by (auto simp: apx_vm_serializer_check_value_range_uint64_def on_state_def wide_def storage_of_def
          in_range_of_def)
    note dec = uint64_limits_decoded [OF C at [unfolded c], of "lib_t L"]
    show ?thesis
      by (rule goal; use at chk c in \<open>simp add: d_def step_pack_program_def dec run_range_check_pack_uint64_def on_serializer_def
          apx_vm_decoder_range_check_info_uint64_def at_bytes_def\<close>)
  next
    case i64
    then have c: "?c = limit_bytes APX_VM_VARIANT_LIMIT_CHECK_S64 arr (packLE64 (lib_c L) (word_of_int lo) 8) (packLE64 (lib_c L) (word_of_int hi) 8)"
      by simp
    have chk: "apx_vm_serializer_check_value_range_int64 L (vm_serializer m) (word_of_int lo) (word_of_int hi) =
        (APX_NO_ERROR, (vm_serializer m)\<lparr>sr_state := st\<rparr>)"
      using ok i64 by (auto simp: apx_vm_serializer_check_value_range_int64_def on_state_def wide_def storage_of_def
          in_range_of_def)
    note dec = int64_limits_decoded [OF C at [unfolded c], of "lib_t L"]
    show ?thesis
      by (rule goal; use at chk c in \<open>simp add: d_def step_pack_program_def dec run_range_check_pack_int64_def on_serializer_def
          apx_vm_decoder_range_check_info_int64_def at_bytes_def\<close>)
  qed
qed

lemma num_wide:
  assumes "num_bytes tc lim v = Some bs" "int_type tc \<noteq> None"
  shows "\<exists>b. num_bytes (wide tc) None v = Some b"
  using assms
  by (cases v; cases tc) (auto simp: wide_def int_fits_def in_limits_def split: if_splits)

lemma holds_wide:
  "holds_num (wide tc) v u k \<Longrightarrow> int_type tc \<noteq> None \<Longrightarrow> holds_num tc v u k \<and> k = storage_of tc"
  by (cases v; cases tc) (auto simp: holds_num_def wide_def storage_of_def)

lemma in_range_ok:
  assumes v: "num_bytes tc (Some (lo, hi)) v = Some bs" and tc: "int_type tc \<noteq> None"
    and lim: "wf_limits tc (Some (lo, hi))" and h: "holds_num tc v u k"
  shows "in_range_of tc lo hi u = APX_NO_ERROR"
proof -
  obtain n sg where t: "int_type tc = Some (n, sg)" using tc by auto
  with lim have fit: "int_fits n sg lo" "int_fits n sg hi" by (auto simp: wf_limits_def)
  from v t obtain i where i: "v = DvInt i" and r: "lo \<le> i" "i \<le> hi"
    by (cases v) (auto simp: in_limits_def split: if_splits)
  from t show ?thesis
  proof (cases rule: int_type_cases)
    case u32
    with fit have "uint (word_of_int lo :: u32) = lo" "uint (word_of_int hi :: u32) = hi"
      using fits_u32 by auto
    then show ?thesis using h i r t u32
      by (auto simp: in_range_of_def holds_num_def range_u32_spec word_le_def)
  next
    case i32
    with fit have "sint (word_of_int lo :: u32) = lo" "sint (word_of_int hi :: u32) = hi"
      using fits_i32 by auto
    then show ?thesis using h i r t i32
      by (auto simp: in_range_of_def holds_num_def range_i32_spec)
  next
    case u64
    with fit have "uint (word_of_int lo :: u64) = lo" "uint (word_of_int hi :: u64) = hi"
      using fits_u64 by auto
    then show ?thesis using h i r t u64
      by (auto simp: in_range_of_def holds_num_def range_u64_spec word_le_def)
  next
    case i64
    with fit have "sint (word_of_int lo :: u64) = lo" "sint (word_of_int hi :: u64) = hi"
      using fits_i64 by auto
    then show ?thesis using h i r t i64
      by (auto simp: in_range_of_def holds_num_def range_i64_spec)
  qed
qed

lemma check_scalar:
  assumes D: "dtl_documented D \<alpha>" and v: "num_bytes tc (Some (lo, hi)) (\<alpha> w) = Some bs"
    and tc: "int_type tc \<noteq> None" and lim: "wf_limits tc (Some (lo, hi))"
    and st: "ws_value st = Some w" "ws_value_type st = DTL_DV_SCALAR"
  shows "\<exists>u k. check_value_range D (wide tc) (storage_of tc) (in_range_of tc lo hi) st =
      (APX_NO_ERROR, st\<lparr>ws_scalar_value := u, ws_scalar_storage_type := k,
         ws_range_check_state := APX_RANGE_CHECK_STATE_OK\<rparr>) \<and> holds_num tc (\<alpha> w) u k"
proof -
  obtain b where b: "num_bytes (wide tc) None (\<alpha> w) = Some b" using num_wide [OF v tc] by blast
  obtain u k where rd: "state_read_scalar_value_internal D st (Some w) (wide tc) =
      (APX_NO_ERROR, st\<lparr>ws_scalar_value := u, ws_scalar_storage_type := k\<rparr>)" and h: "holds_num (wide tc) (\<alpha> w) u k"
    using read_num [OF D b, of st] by blast
  from holds_wide [OF h tc] have h': "holds_num tc (\<alpha> w) u k" and k: "k = storage_of tc" by auto
  from in_range_ok [OF v tc lim h'] have "in_range_of tc lo hi u = APX_NO_ERROR" .
  then show ?thesis using rd st h' k
    by (intro exI [of _ u] exI [of _ k])
      (simp add: check_value_range_def state_read_scalar_value_def checked_def Let_def)
qed

lemma check_array_elems:
  assumes D: "dtl_documented D \<alpha>" and w: "\<alpha> w = DvArray xs" and small: "length xs \<le> 2 ^ 31"
    and b: "\<And>x. x \<in> set xs \<Longrightarrow> \<exists>b. num_bytes tc (Some (lo, hi)) x = Some b"
    and tc: "int_type tc \<noteq> None" and lim: "wf_limits tc (Some (lo, hi))"
  shows "i + k = length xs \<Longrightarrow> ws_value st = Some w \<Longrightarrow> ws_value_type st = DTL_DV_ARRAY \<Longrightarrow>
    \<exists>u kk. check_range_elements D (wide tc) (storage_of tc) (in_range_of tc lo hi) i k st =
      (APX_NO_ERROR, st\<lparr>ws_scalar_value := u, ws_scalar_storage_type := kk\<rparr>)"
proof (induction k arbitrary: i st)
  case 0
  show ?case
    by (intro exI [of _ "ws_scalar_value st"] exI [of _ "ws_scalar_storage_type st"]) simp
next
  case (Suc k)
  then have i: "i < length xs" by simp
  with b obtain bi where bi: "num_bytes tc (Some (lo, hi)) (xs ! i) = Some bi" by (meson nth_mem)
  obtain bw where bw: "num_bytes (wide tc) None (xs ! i) = Some bw" using num_wide [OF bi tc] by blast
  obtain u kk where rd: "state_read_scalar_array_value D st (int i) (wide tc) =
      (APX_NO_ERROR, st\<lparr>ws_scalar_value := u, ws_scalar_storage_type := kk\<rparr>)" and h: "holds_num (wide tc) (xs ! i) u kk"
    using read_elem [OF D w Suc.prems(2,3) i bw] by blast
  from holds_wide [OF h tc] have h': "holds_num tc (xs ! i) u kk" and kk: "kk = storage_of tc" by auto
  let ?st = "st\<lparr>ws_scalar_value := u, ws_scalar_storage_type := kk\<rparr>"
  have si: "sint (word_of_nat i :: u32) = int i"
    using i small by (simp add: signed_of_nat signed_take_bit_int_eq_self)
  have "in_range_of tc lo hi u = APX_NO_ERROR" by (rule in_range_ok [OF bi tc lim h'])
  with Suc.IH [of "Suc i" ?st] rd si kk Suc.prems show ?case by (simp add: checked_def Let_def)
qed

lemma check_array:
  assumes D: "dtl_documented D \<alpha>" and w: "\<alpha> w = DvArray xs" and small: "length xs < 2 ^ 31"
    and b: "collect (map (num_bytes tc (Some (lo, hi))) xs) = Some bss"
    and tc: "int_type tc \<noteq> None" and lim: "wf_limits tc (Some (lo, hi))"
    and st: "ws_value st = Some w" "ws_value_type st = DTL_DV_ARRAY"
  shows "\<exists>u k. check_value_range D (wide tc) (storage_of tc) (in_range_of tc lo hi) st =
      (APX_NO_ERROR, st\<lparr>ws_scalar_value := u, ws_scalar_storage_type := k,
         ws_range_check_state := APX_RANGE_CHECK_STATE_OK\<rparr>)"
proof -
  have items: "\<exists>b. num_bytes tc (Some (lo, hi)) x = Some b" if "x \<in> set xs" for x
    using collect_item [OF b that] by blast
  have n: "unat (word_of_int (av_length D (Some w)) :: u32) = length xs"
    using small by (simp add: dtl_array(1) [OF D w] unat_of_nat)
  have "\<exists>u kk. check_range_elements D (wide tc) (storage_of tc) (in_range_of tc lo hi) 0 (length xs)
        (st\<lparr>ws_range_check_state := APX_RANGE_CHECK_STATE_OK\<rparr>) =
      (APX_NO_ERROR, (st\<lparr>ws_range_check_state := APX_RANGE_CHECK_STATE_OK\<rparr>)\<lparr>ws_scalar_value := u, ws_scalar_storage_type := kk\<rparr>)"
    using small st by (intro check_array_elems [OF D w _ items tc lim]) auto
  then obtain u kk where "check_range_elements D (wide tc) (storage_of tc) (in_range_of tc lo hi) 0 (length xs)
        (st\<lparr>ws_range_check_state := APX_RANGE_CHECK_STATE_OK\<rparr>) =
      (APX_NO_ERROR, (st\<lparr>ws_range_check_state := APX_RANGE_CHECK_STATE_OK\<rparr>)\<lparr>ws_scalar_value := u, ws_scalar_storage_type := kk\<rparr>)"
    by blast
  with st n show ?thesis
    by (intro exI [of _ u] exI [of _ kk]) (simp add: check_value_range_def)
qed

section \<open>Running the code of a shape\<close>

lemma layout_kind: "layout sh v = Some ly \<Longrightarrow> dv_kind v \<noteq> DTL_DV_NULL \<and> dv_kind v \<noteq> DTL_DV_INVALID"
proof (cases sh)
  case (Num tc lim)
  then show "layout sh v = Some ly \<Longrightarrow> ?thesis" using num_kind [of tc lim v] by auto
qed (cases v; auto)+

lemma ready_set_value:
  assumes "dtl_documented D \<alpha>" "dv_kind (\<alpha> w) \<noteq> DTL_DV_NULL \<and> dv_kind (\<alpha> w) \<noteq> DTL_DV_INVALID"
    "\<not> qw_is_active (sr_queue s)" "sr_state s = state_set_value D st (Some w)"
  shows "ready \<alpha> s (\<alpha> w) \<and> ws_range_check_state (sr_state s) = APX_RANGE_CHECK_STATE_NOT_CHECKED"
  using assms by (simp add: ready_def state_set_value_def state_reset_def dtl_kind(1) Let_def)

lemma packed_same:
  "packed p ly s1 s' \<Longrightarrow> sr_buffer s1 = sr_buffer s \<Longrightarrow> sr_queue s1 = sr_queue s \<Longrightarrow>
     sr_stack s1 = sr_stack s \<Longrightarrow> sr_free s1 = sr_free s \<Longrightarrow> packed p ly s s'"
  by (simp add: packed_def)

text \<open>The limit instruction in front of a number or an array of numbers, if there is one.\<close>

lemma limits_run:
  assumes L: "lib_documented L \<alpha>" and wf: "wf_limits tc lim"
    and ly: "layout sh v = Some ly" "sh = Num tc lim \<or> sh = NumArray tc lim n dynamic \<and> n < 2 ^ 31"
    and at: "at_bytes pre (limits_code (lib_c L) tc arr lim @ rest) (vm_decoder m)"
    and r: "ready \<alpha> (vm_serializer m) v" "ws_range_check_state (sr_state (vm_serializer m)) = APX_RANGE_CHECK_STATE_NOT_CHECKED"
  shows "\<exists>st m'. reaches L m (pre @ limits_code (lib_c L) tc arr lim) rest ((vm_serializer m)\<lparr>sr_state := st\<rparr>) m' \<and>
    ready \<alpha> ((vm_serializer m)\<lparr>sr_state := st\<rparr>) v \<and>
    (sh = Num tc lim \<longrightarrow> ws_range_check_state st = APX_RANGE_CHECK_STATE_OK \<longrightarrow>
       holds_num tc v (ws_scalar_value st) (ws_scalar_storage_type st))"
proof (cases lim)
  case None
  with at r show ?thesis
    by (intro exI [of _ "sr_state (vm_serializer m)"] exI [of _ m]) (simp add: reaches_def)
next
  case (Some lh)
  then obtain lo hi where lim: "lim = Some (lo, hi)" by (cases lh) auto
  with wf have tc: "int_type tc \<noteq> None" by (auto simp: wf_limits_def split: option.splits)
  note D = lib_documentedD(4) [OF L]
  obtain w where w: "ws_value (sr_state (vm_serializer m)) = Some w" "\<alpha> w = v"
    and k: "ws_value_type (sr_state (vm_serializer m)) = dv_kind v"
    using r by (auto simp: ready_def Let_def)
  let ?st = "sr_state (vm_serializer m)"
  have "\<exists>u kk. check_value_range (lib_d L) (wide tc) (storage_of tc) (in_range_of tc lo hi) ?st =
      (APX_NO_ERROR, ?st\<lparr>ws_scalar_value := u, ws_scalar_storage_type := kk,
         ws_range_check_state := APX_RANGE_CHECK_STATE_OK\<rparr>) \<and> (sh = Num tc lim \<longrightarrow> holds_num tc v u kk)"
  proof (cases "sh = Num tc lim")
    case True
    with ly lim obtain bs where bs: "num_bytes tc (Some (lo, hi)) (\<alpha> w) = Some bs" using w by auto
    from check_scalar [OF D bs tc _ w(1)] wf lim k w num_kind [OF bs] True show ?thesis by simp
  next
    case False
    with ly have sh: "sh = NumArray tc lim n dynamic" "n < 2 ^ 31" by auto
    with ly obtain xs bss where v: "v = DvArray xs" and b: "collect (map (num_bytes tc lim) xs) = Some bss"
      and al: "array_layout n dynamic (num_size tc) (length xs) (concat bss) = Some ly"
      by (cases v) (auto split: option.splits)
    have len: "length xs < 2 ^ 31" using al sh(2) by (auto simp: array_layout_def split: if_splits)
    have "\<alpha> w = DvArray xs" using w v by simp
    from check_array [OF D this len b [unfolded lim] tc _ w(1)] wf lim k v False show ?thesis by auto
  qed
  then obtain u kk where ck: "check_value_range (lib_d L) (wide tc) (storage_of tc) (in_range_of tc lo hi) ?st =
      (APX_NO_ERROR, ?st\<lparr>ws_scalar_value := u, ws_scalar_storage_type := kk,
         ws_range_check_state := APX_RANGE_CHECK_STATE_OK\<rparr>)" and h: "sh = Num tc lim \<longrightarrow> holds_num tc v u kk"
    by blast
  from limits_step [OF L tc wf [unfolded lim] at [unfolded lim] ck] h r lim show ?thesis
    by (fastforce simp: ready_def Let_def)
qed

lemma fields_nonempty: "(fields_code C pt fs = []) = (fs = [])"
  by (cases fs) (auto simp: select_bytes_def)

lemma element_type:
  "int_type tc \<noteq> None \<or> tc = APX_TYPE_CODE_BOOL \<or> tc = APX_TYPE_CODE_CHAR \<or> tc = APX_TYPE_CODE_CHAR8 \<or> tc = APX_TYPE_CODE_BYTE \<Longrightarrow>
     type_case_of tc \<noteq> None"
  by (cases tc) auto

lemma packed_num:
  assumes L: "lib_documented L \<alpha>" and wf: "wf_shape (Num tc lim)" and ly: "layout (Num tc lim) v = Some ly"
    and at: "at_bytes pre (code (lib_c L) APX_PACK_PROGRAM (Num tc lim) @ rest) (vm_decoder m)"
    and r: "ready \<alpha> (vm_serializer m) v" "ws_range_check_state (sr_state (vm_serializer m)) = APX_RANGE_CHECK_STATE_NOT_CHECKED"
    and p: "at_pos (vm_serializer m) p" "p + length ly \<le> length (wb_data (sr_buffer (vm_serializer m)))"
  shows "\<exists>s' m'. reaches L m (pre @ code (lib_c L) APX_PACK_PROGRAM (Num tc lim)) rest s' m' \<and>
    packed p ly (vm_serializer m) s'"
proof -
  let ?s = "vm_serializer m" and ?l = "limits_code (lib_c L) tc False lim"
    and ?e = "element_code (lib_c L) APX_PACK_PROGRAM tc 0 False"
  from ly obtain bs where bs: "num_bytes tc lim v = Some bs" "ly = map Some bs" by auto
  have tc: "int_type tc \<noteq> None \<or> tc = APX_TYPE_CODE_BOOL" and lim: "wf_limits tc lim" using wf by auto
  have at': "at_bytes pre (?l @ ?e @ rest) (vm_decoder m)" using at by (simp add: with_limits_def)
  obtain st m1 where m1: "reaches L m (pre @ ?l) (?e @ rest) (?s\<lparr>sr_state := st\<rparr>) m1"
    and r1: "ready \<alpha> (?s\<lparr>sr_state := st\<rparr>) v"
    and h: "ws_range_check_state st = APX_RANGE_CHECK_STATE_OK \<Longrightarrow>
       holds_num tc v (ws_scalar_value st) (ws_scalar_storage_type st)"
    using limits_run [OF L lim ly disjI1 [OF refl] at' r] by blast
  let ?s1 = "?s\<lparr>sr_state := st\<rparr>"
  have p1: "at_pos ?s1 p" "p + length bs \<le> length (wb_data (sr_buffer ?s1))"
    using p bs by (simp_all add: at_pos_def)
  from pack_num [OF L r1 bs(1) _ p1] h obtain s' where
    s': "pack_as L tc (num_size tc) ?s1 0 APX_SIZE_TYPE_NONE = (APX_NO_ERROR, s')" "packed p (map Some bs) ?s1 s'"
    by auto
  have at1: "at_bytes (pre @ ?l) (?e @ rest) (vm_decoder m1)" and ser1: "vm_serializer m1 = ?s1"
    using m1 by (auto simp: reaches_def)
  have "tc \<noteq> APX_TYPE_CODE_BYTE" using tc by auto
  then have "\<exists>m'. reaches L m1 ((pre @ ?l) @ ?e) rest s' m'"
    using s'(1) ser1 tc by (intro element_step [OF L at1 element_type]) auto
  then obtain m' where "reaches L m1 ((pre @ ?l) @ ?e) rest s' m'" by blast
  from reaches_trans [OF m1 this] packed_same [OF s'(2), of ?s] bs(2) show ?thesis
    by (auto simp: with_limits_def)
qed

lemma packed_num_array:
  assumes L: "lib_documented L \<alpha>" and wf: "wf_shape (NumArray tc lim n dynamic)"
    and ly: "layout (NumArray tc lim n dynamic) v = Some ly" and sz: "shape_size (NumArray tc lim n dynamic) < 2 ^ 32"
    and at: "at_bytes pre (code (lib_c L) APX_PACK_PROGRAM (NumArray tc lim n dynamic) @ rest) (vm_decoder m)"
    and r: "ready \<alpha> (vm_serializer m) v" "ws_range_check_state (sr_state (vm_serializer m)) = APX_RANGE_CHECK_STATE_NOT_CHECKED"
    and p: "at_pos (vm_serializer m) p" "p + length ly \<le> length (wb_data (sr_buffer (vm_serializer m)))"
  shows "\<exists>s' m'. reaches L m (pre @ code (lib_c L) APX_PACK_PROGRAM (NumArray tc lim n dynamic)) rest s' m' \<and>
    packed p ly (vm_serializer m) s'"
proof -
  let ?s = "vm_serializer m" and ?l = "limits_code (lib_c L) tc True lim" and ?n = "word_of_nat n :: u32"
    and ?e = "element_code (lib_c L) APX_PACK_PROGRAM tc n dynamic"
  have tc: "int_type tc \<noteq> None \<or> tc = APX_TYPE_CODE_BOOL" and lim: "wf_limits tc lim" and n: "0 < n" "n < 2 ^ 31"
    using wf by auto
  have n32: "n < 2 ^ 32" using n by simp
  have nn: "?n \<noteq> 0" and un: "unat ?n = n" using length_nonzero [OF n(1) n32] unat_length [OF n32] by auto
  have at': "at_bytes pre (?l @ ?e @ rest) (vm_decoder m)" using at by (simp add: with_limits_def)
  obtain st m1 where m1: "reaches L m (pre @ ?l) (?e @ rest) (?s\<lparr>sr_state := st\<rparr>) m1"
    and r1: "ready \<alpha> (?s\<lparr>sr_state := st\<rparr>) v"
    using limits_run [OF L lim ly disjI2 [OF conjI [OF refl n(2)]] at' r] by blast
  let ?s1 = "?s\<lparr>sr_state := st\<rparr>"
  have p1: "at_pos ?s1 p" "p + length ly \<le> length (wb_data (sr_buffer ?s1))"
    using p by (simp_all add: at_pos_def)
  have szn: "unat ?n * num_size tc < 2 ^ 32" and n31: "unat ?n < 2 ^ 31"
    using sz un n by auto
  from pack_num_array [OF L r1 tc nn szn n31 _ p1, of lim dynamic] ly un obtain s' where
    s': "pack_as L tc (num_size tc) ?s1 ?n (if dynamic then apx_vm_size_to_size_type ?n else APX_SIZE_TYPE_NONE) =
      (APX_NO_ERROR, s')" "packed p ly ?s1 s'"
    by auto
  have at1: "at_bytes (pre @ ?l) (?e @ rest) (vm_decoder m1)" and ser1: "vm_serializer m1 = ?s1"
    using m1 by (auto simp: reaches_def)
  have "\<exists>m'. reaches L m1 ((pre @ ?l) @ ?e) rest s' m'"
    using s'(1) ser1 tc nn by (intro element_step [OF L at1 element_type]) (auto simp: word_gt_0)
  then obtain m' where "reaches L m1 ((pre @ ?l) @ ?e) rest s' m'" by blast
  from reaches_trans [OF m1 this] packed_same [OF s'(2), of ?s] show ?thesis
    by (auto simp: with_limits_def)
qed

lemma packed_text:
  assumes L: "lib_documented L \<alpha>" and wf: "wf_shape sh" and sh: "sh = Chars tc n dynamic \<or> sh = Bytes n dynamic \<and> tc = APX_TYPE_CODE_BYTE"
    and ly: "layout sh v = Some ly"
    and at: "at_bytes pre (code (lib_c L) APX_PACK_PROGRAM sh @ rest) (vm_decoder m)"
    and r: "ready \<alpha> (vm_serializer m) v"
    and p: "at_pos (vm_serializer m) p" "p + length ly \<le> length (wb_data (sr_buffer (vm_serializer m)))"
  shows "\<exists>s' m'. reaches L m (pre @ code (lib_c L) APX_PACK_PROGRAM sh) rest s' m' \<and> packed p ly (vm_serializer m) s'"
proof -
  let ?s = "vm_serializer m" and ?e = "element_code (lib_c L) APX_PACK_PROGRAM tc n dynamic"
  let ?n = "if tc = APX_TYPE_CODE_BYTE \<and> (word_of_nat n :: u32) = 0 then 1 else word_of_nat n"
  have code: "code (lib_c L) APX_PACK_PROGRAM sh = ?e" using sh by auto
  have n: "n < 2 ^ 32" using wf sh by auto
  note un = unat_length [OF n]
  have "\<exists>s'. pack_as L tc (num_size tc) ?s ?n (if (word_of_nat n :: u32) > 0 \<and> dynamic
      then apx_vm_size_to_size_type (word_of_nat n) else APX_SIZE_TYPE_NONE) = (APX_NO_ERROR, s') \<and> packed p ly ?s s'"
  proof (cases "sh = Chars tc n dynamic")
    case True
    with wf have tc: "tc = APX_TYPE_CODE_CHAR \<or> tc = APX_TYPE_CODE_CHAR8" and "0 < n" by auto
    note nn = length_nonzero [OF \<open>0 < n\<close> n]
    from pack_chars [OF L r tc nn _ p, of dynamic] ly True un tc nn show ?thesis
      by (auto simp: num_size_def word_gt_0)
  next
    case False
    with sh have b: "sh = Bytes n dynamic" "tc = APX_TYPE_CODE_BYTE" by auto
    show ?thesis
    proof (cases "n = 0")
      case True
      with wf b have "\<not> dynamic" by simp
      with pack_bytes [OF L r _ _ p, of 1 False] ly b True show ?thesis
        by (cases v) (auto simp: num_size_def array_layout_def split: if_splits)
    next
      case False
      note nn = length_nonzero [OF _ n] 
      from pack_bytes [OF L r nn _ p, of dynamic] ly un b False nn show ?thesis
        by (auto simp: num_size_def word_gt_0)
    qed
  qed
  then obtain s' where s': "pack_as L tc (num_size tc) ?s ?n (if (word_of_nat n :: u32) > 0 \<and> dynamic
      then apx_vm_size_to_size_type (word_of_nat n) else APX_SIZE_TYPE_NONE) = (APX_NO_ERROR, s')" "packed p ly ?s s'"
    by blast
  have "type_case_of tc \<noteq> None" using wf sh by (intro element_type) auto
  from element_step [OF L at [unfolded code] this s'(1)] s'(2) code show ?thesis by auto
qed

section \<open>Records\<close>

text \<open>A serializer whose current value is a hash.\<close>

definition holds_hash :: "('v \<Rightarrow> dv) \<Rightarrow> 'v apx_vm_serializer \<Rightarrow> (byte list \<times> dv) list \<Rightarrow> bool" where
  "holds_hash \<alpha> s kvs \<longleftrightarrow> (\<exists>w. ws_value (sr_state s) = Some w \<and> \<alpha> w = DvHash kvs) \<and>
     ws_value_type (sr_state s) = DTL_DV_HASH \<and> \<not> qw_is_active (sr_queue s)"

lemma record_step:
  assumes L: "lib_documented L \<alpha>"
    and at: "at_bytes pre (element_bytes (lib_c L) (pack_opcode APX_PACK_PROGRAM) APX_VM_VARIANT_RECORD 0 False @ rest) (vm_decoder m)"
    and r: "ready \<alpha> (vm_serializer m) (DvHash kvs)" and p: "at_pos (vm_serializer m) p"
  shows "\<exists>m'. reaches L m (pre @ element_bytes (lib_c L) (pack_opcode APX_PACK_PROGRAM) APX_VM_VARIANT_RECORD 0 False) rest
    (prepared (vm_serializer m) p APX_TYPE_CODE_RECORD 0) m'"
proof -
  note C = lib_documentedD(1) [OF L]
  let ?s = "vm_serializer m" and ?c = "element_bytes (lib_c L) APX_VM_OPCODE_PACK APX_VM_VARIANT_RECORD 0 False"
  let ?s' = "prepared ?s p APX_TYPE_CODE_RECORD 0"
  have pk: "pack_as L APX_TYPE_CODE_RECORD 0 ?s 0 APX_SIZE_TYPE_NONE = (APX_NO_ERROR, ?s')"
    using r by (auto simp: pack_as_def prepare_write [OF p, where es = 0, simplified] serializer_prepare_for_array_def
        serializer_pack_value_def queued_write_state_is_active_def prepared_def ready_def Let_def
        pack_without_elements_def state_is_num_or_bool_type_def state_is_record_type_def
        serializer_pack_record_value_def)
  let ?d = "(vm_decoder m)\<lparr>program_next := Some (length pre + length ?c), operation_type := APX_OPERATION_TYPE_PACK,
      pack_unpack_info := \<lparr>info_type_code = APX_TYPE_CODE_RECORD, info_array_length = 0, info_is_dynamic_array = False\<rparr>\<rparr>"
  have tc: "apx_vm_variant_to_type_code APX_VM_VARIANT_RECORD = APX_TYPE_CODE_RECORD"
    by (simp add: apx_vm_variant_to_type_code_def)
  have dec: "apx_vm_decoder_parse_next_operation (lib_c L) (lib_t L) (vm_decoder m) =
      (APX_NO_ERROR, Some APX_OPERATION_TYPE_PACK, ?d)"
    using element_decoded [OF C at [simplified], where ty = APX_OPERATION_TYPE_PACK and T = "lib_t L"] tc by simp
  let ?m = "m\<lparr>vm_decoder := ?d, vm_serializer := ?s'\<rparr>"
  have "step_pack_program L m = (APX_NO_ERROR, True, ?m)"
    using pk by (simp add: step_pack_program_def dec run_pack_instruction_def apx_vm_decoder_get_pack_unpack_info_def
        dynamic_size_type_of_def on_serializer_def apx_vm_serializer_pack_record_def save_position_of_array_def)
  from run_loop_step [of "step_pack_program L", OF this] at show ?thesis
    by (intro exI [of _ ?m]) (simp add: reaches_def at_bytes_def)
qed

lemma field_selected:
  assumes L: "lib_documented L \<alpha>" and h: "holds_hash \<alpha> s kvs" and x: "map_of kvs name = Some x"
    and k: "dv_kind x \<noteq> DTL_DV_NULL \<and> dv_kind x \<noteq> DTL_DV_INVALID" and name: "0 \<notin> set name" and free: "sr_free s = Suc f"
  shows "\<exists>s' st. apx_vm_serializer_record_select L s name lst = (APX_NO_ERROR, s') \<and>
    ready \<alpha> s' x \<and> ws_range_check_state (sr_state s') = APX_RANGE_CHECK_STATE_NOT_CHECKED \<and>
    sr_buffer s' = sr_buffer s \<and> sr_queue s' = sr_queue s \<and> sr_free s' = f \<and> sr_stack s' = st # sr_stack s \<and>
    ws_is_last_field st = lst \<and> ws_value st = ws_value (sr_state s) \<and> ws_value_type st = DTL_DV_HASH"
proof -
  note D = lib_documentedD(4) [OF L]
  obtain w where w: "ws_value (sr_state s) = Some w" "\<alpha> w = DvHash kvs" and t: "ws_value_type (sr_state s) = DTL_DV_HASH"
    and q: "\<not> qw_is_active (sr_queue s)"
    using h by (auto simp: holds_hash_def)
  obtain c where c: "hv_get_cstr (lib_d L) (Some w) name = Some c" "\<alpha> c = x" using dtl_hash [OF D w(2) x] by blast
  let ?st = "(sr_state s)\<lparr>ws_is_last_field := lst, ws_field_name := name\<rparr>"
  let ?s = "s\<lparr>sr_stack := ?st # sr_stack s, sr_state := state_set_value (lib_d L) apx_vm_writeState_create (Some c), sr_free := f\<rparr>"
  have "apx_vm_serializer_record_select L s name lst = (APX_NO_ERROR, ?s)"
    using w t c free name
    by (simp add: apx_vm_serializer_record_select_def state_get_child_value_def on_state_def state_set_field_name_def
        str_set_stores(2) [OF lib_documentedD(3) [OF L]] serializer_enter_new_child_state_def Let_def)
  moreover have "ready \<alpha> ?s x \<and> ws_range_check_state (sr_state ?s) = APX_RANGE_CHECK_STATE_NOT_CHECKED"
    using ready_set_value [OF D, of c ?s apx_vm_writeState_create] c(2) k q by simp
  ultimately show ?thesis using t by (intro exI [of _ ?s] exI [of _ ?st]) simp
qed

lemma pack_runs:
  assumes L: "lib_documented L \<alpha>"
  shows "wf_shape sh \<Longrightarrow> layout sh v = Some ly \<Longrightarrow> shape_size sh < 2 ^ 32 \<Longrightarrow>
      at_bytes pre (code (lib_c L) APX_PACK_PROGRAM sh @ rest) (vm_decoder m) \<Longrightarrow>
      ready \<alpha> (vm_serializer m) v \<Longrightarrow> ws_range_check_state (sr_state (vm_serializer m)) = APX_RANGE_CHECK_STATE_NOT_CHECKED \<Longrightarrow>
      at_pos (vm_serializer m) p \<Longrightarrow> p + length ly \<le> length (wb_data (sr_buffer (vm_serializer m))) \<Longrightarrow>
      depth sh \<le> sr_free (vm_serializer m) \<Longrightarrow>
      \<exists>s' m'. reaches L m (pre @ code (lib_c L) APX_PACK_PROGRAM sh) rest s' m' \<and> packed p ly (vm_serializer m) s'"
    and "wf_fields fs \<Longrightarrow> fs \<noteq> [] \<Longrightarrow> fields_layout fs kvs = Some ly \<Longrightarrow> fields_size fs < 2 ^ 32 \<Longrightarrow>
      at_bytes pre (fields_code (lib_c L) APX_PACK_PROGRAM fs @ rest) (vm_decoder m) \<Longrightarrow>
      holds_hash \<alpha> (vm_serializer m) kvs \<Longrightarrow>
      at_pos (vm_serializer m) p \<Longrightarrow> p + length ly \<le> length (wb_data (sr_buffer (vm_serializer m))) \<Longrightarrow>
      fields_depth fs < sr_free (vm_serializer m) \<Longrightarrow>
      \<exists>s' m'. reaches L m (pre @ fields_code (lib_c L) APX_PACK_PROGRAM fs) rest s' m' \<and> packed p ly (vm_serializer m) s'"
proof (induction sh and fs arbitrary: v ly pre rest m p and kvs ly pre rest m p rule: wf_shape_wf_fields.induct)
  case (1 tc lim)
  then show ?case by (intro packed_num [OF L])
next
  case (2 tc lim n dynamic)
  then show ?case by (intro packed_num_array [OF L])
next
  case (3 tc n dynamic)
  then show ?case by (intro packed_text [OF L, of _ tc n dynamic]) auto
next
  case (4 n dynamic)
  then show ?case by (intro packed_text [OF L, of _ APX_TYPE_CODE_BYTE n dynamic]) auto
next
  case (5 fs)
  let ?s = "vm_serializer m" and ?r = "element_bytes (lib_c L) (pack_opcode APX_PACK_PROGRAM) APX_VM_VARIANT_RECORD 0 False"
    and ?f = "fields_code (lib_c L) APX_PACK_PROGRAM fs"
  obtain kvs where v: "v = DvHash kvs" and ly: "fields_layout fs kvs = Some ly"
    using "5.prems"(2) by (cases v) auto
  let ?s1 = "prepared ?s p APX_TYPE_CODE_RECORD 0"
  obtain m1 where m1: "reaches L m (pre @ ?r) (?f @ rest) ?s1 m1"
    using record_step [OF L _ "5.prems"(5)[unfolded v] "5.prems"(7), of pre "?f @ rest"] "5.prems"(4) by auto
  then have at1: "at_bytes (pre @ ?r) (?f @ rest) (vm_decoder m1)" and s1: "vm_serializer m1 = ?s1"
    by (auto simp: reaches_def)
  have p1: "at_pos ?s1 p" and same: "wb_data (sr_buffer ?s1) = wb_data (sr_buffer ?s)" "sr_queue ?s1 = sr_queue ?s"
      "sr_stack ?s1 = sr_stack ?s" "sr_free ?s1 = sr_free ?s" and h1: "holds_hash \<alpha> ?s1 kvs"
    using "5.prems"(5,7,8) v by (auto simp: prepared_def at_pos_def holds_hash_def ready_def Let_def)
  have "\<exists>s' m'. reaches L m1 ((pre @ ?r) @ ?f) rest s' m' \<and> packed p ly (vm_serializer m1) s'"
    using "5.prems" at1 p1 h1 ly same unfolding s1 [symmetric]
    by (intro "5.IH") (auto simp: s1)
  then obtain s' m' where m': "reaches L m1 ((pre @ ?r) @ ?f) rest s' m'" and "packed p ly ?s1 s'" using s1 by auto
  then have "packed p ly ?s s'" using same by (simp add: packed_def)
  with reaches_trans [OF m1 m'] show ?case by auto
next
  case 6
  then show ?case by simp
next
  case (7 name sh fs)
  let ?s = "vm_serializer m" and ?sel = "select_bytes name (fs = [])" and ?c = "code (lib_c L) APX_PACK_PROGRAM sh"
    and ?f = "fields_code (lib_c L) APX_PACK_PROGRAM fs"
  obtain x a b where x: "map_of kvs name = Some x" and a: "layout sh x = Some a" and b: "fields_layout fs kvs = Some b"
    and ly: "ly = a @ b"
    using "7.prems"(3) by (auto split: option.splits)
  obtain f where f: "sr_free ?s = Suc f" using "7.prems"(9) by (cases "sr_free ?s") auto
  have name: "name \<noteq> []" "0 \<notin> set name" using "7.prems"(1) by auto
  obtain s1 st where s1: "apx_vm_serializer_record_select L ?s name (fs = []) = (APX_NO_ERROR, s1)"
    and r1: "ready \<alpha> s1 x" "ws_range_check_state (sr_state s1) = APX_RANGE_CHECK_STATE_NOT_CHECKED"
    and same: "sr_buffer s1 = sr_buffer ?s" "sr_queue s1 = sr_queue ?s" "sr_free s1 = f" "sr_stack s1 = st # sr_stack ?s"
    and st: "ws_is_last_field st = (fs = [])" "ws_value st = ws_value (sr_state ?s)" "ws_value_type st = DTL_DV_HASH"
    using field_selected [OF L "7.prems"(6) x layout_kind [OF a] name(2) f] by blast
  have "at_bytes pre (?sel @ ?c @ ?f @ rest) (vm_decoder m)" using "7.prems"(5) by simp
  from select_step [OF L this name s1] obtain m1 where m1: "reaches L m (pre @ ?sel) (?c @ ?f @ rest) s1 m1" by blast
  then have at1: "at_bytes (pre @ ?sel) (?c @ ?f @ rest) (vm_decoder m1)" and e1: "vm_serializer m1 = s1"
    by (auto simp: reaches_def)
  have "\<exists>s' m'. reaches L m1 ((pre @ ?sel) @ ?c) (?f @ rest) s' m' \<and> packed p a (vm_serializer m1) s'"
    using "7.prems" a at1 r1 same f ly by (intro "7.IH"(1)) (auto simp: e1 at_pos_def)
  then obtain s2 m2 where m2: "reaches L m1 ((pre @ ?sel) @ ?c) (?f @ rest) s2 m2" and pk: "packed p a s1 s2"
    using e1 by auto
  note m2' = reaches_trans [OF m1 m2]
  show ?case
  proof (cases "fs = []")
    case True
    with pk same st ly b f have "packed p ly ?s s2" by (auto simp: packed_def)
    with m2' True show ?thesis by auto
  next
    case False
    from m2 have at2: "at_bytes ((pre @ ?sel) @ ?c) (?f @ rest) (vm_decoder m2)" and e2: "vm_serializer m2 = s2"
      by (auto simp: reaches_def)
    from pk same st False f have s2: "sr_stack s2 = sr_stack ?s" "sr_state s2 = st" "sr_free s2 = sr_free ?s"
      "wb_data (sr_buffer s2) = overlay p a (wb_data (sr_buffer ?s))" "sr_queue s2 = sr_queue ?s" "at_pos s2 (p + length a)"
      by (auto simp: packed_def)
    have "holds_hash \<alpha> s2 kvs" using "7.prems"(6) s2 st by (simp add: holds_hash_def)
    then have "\<exists>s' m'. reaches L m2 (((pre @ ?sel) @ ?c) @ ?f) rest s' m' \<and> packed (p + length a) b (vm_serializer m2) s'"
      using "7.prems" False b at2 s2 ly by (intro "7.IH"(2)) (auto simp: e2)
    then obtain s3 m3 where "reaches L m2 (((pre @ ?sel) @ ?c) @ ?f) rest s3 m3" and pk3: "packed (p + length a) b s2 s3"
      using e2 by auto
    from reaches_trans [OF m2' this(1)] have "reaches L m (pre @ fields_code (lib_c L) APX_PACK_PROGRAM ((name, sh) # fs)) rest s3 m3"
      by simp
    moreover have "packed p ly ?s s3"
      using pk3 s2 ly by (auto simp: packed_def overlay_append add.assoc)
    ultimately show ?thesis by blast
  qed
qed

end
