(* ===== verification/Loops.thy ===== *)
theory Loops
  imports PackRun
begin

text \<open>
  What the interpreter loop promises, whatever it runs: the contracts of a step function as
  locales and what follows for the loop. The theory VmSafety interprets them on the steps of the two
  interpreters.
\<close>

section \<open>Contracts of a step\<close>

lemma run_loop_keeps:
  assumes "run_loop f s = Some r" and "\<And>s e g t. I s \<Longrightarrow> f s = (e, g, t) \<Longrightarrow> I t \<and> J (e, t)" and "I s"
  shows "I (snd r) \<and> J r"
  using assms
proof (induction rule: run_loop.raw_induct [rotated, consumes 1, case_names iterate])
  case (iterate run f s r)
  obtain e g t where st: "f s = (e, g, t)" by (metis prod_cases3)
  then have t: "I t" "J (e, t)" using iterate(3) [OF iterate(4)] by auto
  show ?case
  proof (cases "e = APX_NO_ERROR \<and> g")
    case True
    with iterate(2) st have "run f t = Some r" by simp
    from iterate(1) [OF this iterate(3) t(1)] show ?thesis .
  next
    case False
    with iterate(2) st have "r = (e, t)" by auto
    with t show ?thesis by simp
  qed
qed

locale loop_invariant =
  fixes step :: "'s \<Rightarrow> apx_error \<times> bool \<times> 's" and holds :: "'s \<Rightarrow> bool"
  assumes keeps: "holds s \<Longrightarrow> holds (snd (snd (step s)))"
begin

lemma step_keeps: "holds s \<Longrightarrow> step s = (e, going, t) \<Longrightarrow> holds t"
  using keeps [of s] by simp

lemma run_keeps:
  assumes "run_loop step s = Some (e, s')" and "holds s"
  shows "holds s'"
  using run_loop_keeps [where I = holds and J = "\<lambda>r. True", OF assms(1) _ assms(2)] step_keeps by simp

end

text \<open>A loop that in addition ends only in outcomes that are allowed.\<close>

locale guarded_loop = loop_invariant step holds
  for step :: "'s \<Rightarrow> apx_error \<times> bool \<times> 's" and holds :: "'s \<Rightarrow> bool" +
  fixes allowed :: "apx_error \<Rightarrow> 's \<Rightarrow> bool"
  assumes outcome: "holds s \<Longrightarrow> step s = (e, going, s') \<Longrightarrow> allowed e s'"
begin

lemma run_allowed:
  assumes "run_loop step s = Some (e, s')" and "holds s"
  shows "allowed e s'"
  using run_loop_keeps [where I = holds and J = "\<lambda>(e, s). allowed e s", OF assms(1) _ assms(2)] step_keeps outcome by simp

end

text \<open>The states an iteration goes through, and a loop in which a measure decreases as long as they are quiet.\<close>

inductive iterates :: "('s \<Rightarrow> apx_error \<times> bool \<times> 's) \<Rightarrow> 's \<Rightarrow> 's \<Rightarrow> bool" for step where
  start: "iterates step s s"
| onward: "step s = (APX_NO_ERROR, True, t) \<Longrightarrow> iterates step t u \<Longrightarrow> iterates step s u"

locale progressing_loop = loop_invariant step holds
  for step :: "'s \<Rightarrow> apx_error \<times> bool \<times> 's" and holds :: "'s \<Rightarrow> bool" +
  fixes quiet :: "'s \<Rightarrow> bool" and size_left :: "'s \<Rightarrow> nat"
  assumes progress: "holds s \<Longrightarrow> quiet s \<Longrightarrow> quiet t \<Longrightarrow> step s = (APX_NO_ERROR, True, t) \<Longrightarrow> size_left t < size_left s"
begin

lemma run_returns:
  "holds s \<Longrightarrow> (\<And>t. iterates step s t \<Longrightarrow> quiet t) \<Longrightarrow> \<exists>r. run_loop step s = Some r"
proof (induction "size_left s" arbitrary: s rule: less_induct)
  case less
  obtain e g t where st: "step s = (e, g, t)" by (metis prod_cases3)
  show ?case
  proof (cases "e = APX_NO_ERROR \<and> g")
    case True
    with st have st': "step s = (APX_NO_ERROR, True, t)" by simp
    have q: "quiet s" "quiet t" using less.prems(2) st' iterates.intros by metis+
    from progress [OF less.prems(1) q st'] have "size_left t < size_left s" .
    moreover have "holds t" using keeps [OF less.prems(1)] st' by simp
    moreover have "quiet u" if "iterates step t u" for u using less.prems(2) st' that iterates.onward by metis
    ultimately have "\<exists>r. run_loop step t = Some r" by (rule less.hyps)
    then show ?thesis using run_loop_step [of step, OF st'] by simp
  next
    case False
    then show ?thesis using run_loop_stop [of step, OF st] by blast
  qed
qed

end

inductive_simps iterates_unfold: "iterates step s u"

end
