(* ===== verification/UnpackValues.thy ===== *)
theory UnpackValues
  imports PackValues Deserializer
begin

text \<open>
  What one unpack operation of the deserializer does to a buffer that holds the layout of a
  value: the value is built from the bytes and merged into the states of the enclosing records.
  One lemma per kind of leaf: \<open>unpack_num\<close>, \<open>unpack_byte\<close>, \<open>unpack_num_array\<close>,
  \<open>unpack_text\<close> and \<open>unpack_byte_array\<close>.
\<close>

section \<open>Layouts in memory\<close>

lemma agrees_append: "agrees p (a @ b) d \<longleftrightarrow> agrees p a d \<and> agrees (p + length a) b d"
proof -
  have "(\<forall>i < length a + length b. \<forall>x. (a @ b) ! i = Some x \<longrightarrow> d ! (p + i) = x) \<longleftrightarrow>
      (\<forall>i < length a. \<forall>x. a ! i = Some x \<longrightarrow> d ! (p + i) = x) \<and>
      (\<forall>i < length b. \<forall>x. b ! i = Some x \<longrightarrow> d ! (p + length a + i) = x)" (is "?l = (?a \<and> ?b)")
  proof (intro iffI conjI allI impI)
    fix i x assume ?l "i < length a" "a ! i = Some x"
    then show "d ! (p + i) = x" by (auto simp: nth_append dest: spec [of _ i])
  next
    fix i x assume ?l "i < length b" "b ! i = Some x"
    then show "d ! (p + length a + i) = x"
      by (auto simp: nth_append add.assoc dest: spec [of _ "length a + i"])
  next
    fix i x assume *: "?a \<and> ?b" "i < length a + length b" "(a @ b) ! i = Some x"
    show "d ! (p + i) = x"
    proof (cases "i < length a")
      case False
      with * have "b ! (i - length a) = Some x" "i - length a < length b" by (auto simp: nth_append)
      with * have "d ! (p + length a + (i - length a)) = x" by blast
      with False show ?thesis by simp
    qed (use * in \<open>simp add: nth_append\<close>)
  qed
  then show ?thesis by (auto simp: agrees_def add.assoc)
qed

lemma agrees_bytes: "agrees p (map Some bs) d \<longleftrightarrow> p + length bs \<le> length d \<and> take (length bs) (drop p d) = bs"
proof (cases "p + length bs \<le> length d")
  case True
  then have "take (length bs) (drop p d) = bs \<longleftrightarrow> (\<forall>i < length bs. d ! (p + i) = bs ! i)"
    by (auto simp: list_eq_iff_nth_eq)
  with True show ?thesis by (auto simp: agrees_def)
qed (simp add: agrees_def)

section \<open>Numbers\<close>

lemma le_val_int_bytes: "le_val (int_bytes n i) = nat (i mod 2 ^ (8 * n))"
proof -
  have "i mod 2 ^ (8 * n) < int (256 ^ n)" by (simp add: power_mult)
  then have "nat (i mod 2 ^ (8 * n)) < 256 ^ n" by (simp add: nat_less_iff)
  then show ?thesis unfolding int_bytes_def by (rule le_val_le_bytes_small)
qed

lemma unpack_int_bytes:
  assumes C: "packs_little_endian C"
  shows "n = 1 \<or> n = 2 \<or> n = 4 \<Longrightarrow> unpackLE C (int_bytes n i) n = word_of_int (i mod 2 ^ (8 * n))"
    and "unpackLE64 C (int_bytes 8 i) 8 = word_of_int i"
proof -
  show "n = 1 \<or> n = 2 \<or> n = 4 \<Longrightarrow> unpackLE C (int_bytes n i) n = word_of_int (i mod 2 ^ (8 * n))"
    by (subst unpackLE_bytes [OF C]) (auto simp: le_val_int_bytes int_bytes_def [of _ i, THEN arg_cong, of length])
  have "unpackLE64 C (int_bytes 8 i) 8 = word_of_int (i mod 2 ^ 64)"
    by (subst unpackLE64_bytes [OF C]) (auto simp: le_val_int_bytes int_bytes_def [of _ i, THEN arg_cong, of length])
  also have "\<dots> = word_of_int i"
    by (simp add: word_uint_eq_iff uint_word_of_int)
  finally show "unpackLE64 C (int_bytes 8 i) 8 = word_of_int i" .
qed

lemma narrow_signed:
  "int_fits 1 True i \<Longrightarrow> sint (scast (word_of_nat (nat (i mod 256)) :: byte) :: u32) = i"
  "int_fits 2 True i \<Longrightarrow> sint (scast (ucast (word_of_int (i mod 65536) :: u32) :: u16) :: u32) = i"
  "int_fits 4 True i \<Longrightarrow> sint (word_of_int (i mod 4294967296) :: u32) = i"
proof -
  have w8: "(word_of_int (i mod 256) :: byte) = word_of_int i" for i
    by (simp add: word_uint_eq_iff uint_word_of_int)
  have w16: "(ucast (word_of_int (i mod 65536) :: u32) :: u16) = word_of_int i" for i
    by (simp add: word_uint_eq_iff uint_word_of_int unsigned_ucast_eq take_bit_eq_mod mod_mod_cancel)
  have w32: "(word_of_int (i mod 4294967296) :: u32) = word_of_int i" for i
    by (simp add: word_uint_eq_iff uint_word_of_int)
  show "int_fits 1 True i \<Longrightarrow> sint (scast (word_of_nat (nat (i mod 256)) :: byte) :: u32) = i"
    by (simp add: w8 sint_up_scast is_up int_fits_def sint_sbintrunc' signed_take_bit_int_eq_self)
  show "int_fits 2 True i \<Longrightarrow> sint (scast (ucast (word_of_int (i mod 65536) :: u32) :: u16) :: u32) = i"
    by (simp add: w16 sint_up_scast is_up int_fits_def sint_sbintrunc' signed_take_bit_int_eq_self)
  show "int_fits 4 True i \<Longrightarrow> sint (word_of_int (i mod 4294967296) :: u32) = i"
    by (simp add: w32 int_fits_def sint_sbintrunc' signed_take_bit_int_eq_self)
qed

lemma bit_low_byte_clear: "bit (18446744073709551360 :: int) n \<longleftrightarrow> 8 \<le> n \<and> n < 64"
proof -
  have m: "bit (72057594037927935 :: int) k \<longleftrightarrow> k < 56" for k
    by (rule bit_mask_int) (simp add: mask_eq_exp_minus_1)
  have "(18446744073709551360 :: int) = push_bit 8 72057594037927935" by simp
  then have "bit (18446744073709551360 :: int) n \<longleftrightarrow> 8 \<le> n \<and> bit (72057594037927935 :: int) (n - 8)"
    by (simp only: bit_push_bit_iff) simp
  then show ?thesis unfolding m by auto
qed

lemma ucast_set8 [simp]: "(ucast (set8 u x) :: byte) = x"
  unfolding set8_def by (intro bit_word_eqI) (auto simp: bit_simps bit_low_byte_clear)

lemma take_num:
  assumes "num_bytes tc lim v = Some bs" and "agrees n (map Some bs) data"
  shows "take (num_size tc) (drop n data) = bs" "n + num_size tc \<le> length data" "\<not> length data - n < num_size tc"
  using assms num_bytes_length [OF assms(1)] by (auto simp: agrees_bytes)

lemma read_num_rd:
  assumes C: "packs_little_endian C" and v: "num_bytes tc lim v = Some bs" and at: "agrees n (map Some bs) data"
    and st: "rs_type_code st = tc" "rs_element_size st = word_of_nat (num_size tc)"
  shows "\<exists>u k. state_read_scalar_value_rd C data n st =
      (APX_NO_ERROR, n + num_size tc, st\<lparr>rs_scalar_value := u, rs_scalar_storage_type := k\<rparr>) \<and> holds_num tc v u k"
proof -
  note tk = take_num [OF v at]
  have nz: "(word_of_nat (num_size tc) :: u32) \<noteq> 0"
    using num_size_cases [of tc] by auto
  show ?thesis
  proof (cases v)
    case (DvInt i)
    with v obtain m sg where t: "int_type tc = Some (m, sg)" and f: "int_fits m sg i" and bs: "bs = int_bytes m i"
      by (auto split: option.splits if_splits)
    have m: "num_size tc = m" using t by (simp add: num_size_def)
    note un = unpack_int_bytes [OF C]
    let ?u = "rs_scalar_value st"
    have rd: "state_read_scalar_value_rd C data n st = (APX_NO_ERROR, n + num_size tc,
        st\<lparr>rs_scalar_value := u, rs_scalar_storage_type := k\<rparr>)"
      if "tc = APX_TYPE_CODE_UINT8 \<and> u = set32 ?u (ucast (bs ! 0)) \<and> k = APX_VM_SCALAR_STORAGE_TYPE_UINT32 \<or>
        tc = APX_TYPE_CODE_UINT16 \<and> u = set32 ?u (unpackLE C bs 2) \<and> k = APX_VM_SCALAR_STORAGE_TYPE_UINT32 \<or>
        tc = APX_TYPE_CODE_UINT32 \<and> u = set32 ?u (unpackLE C bs 4) \<and> k = APX_VM_SCALAR_STORAGE_TYPE_UINT32 \<or>
        tc = APX_TYPE_CODE_UINT64 \<and> u = unpackLE64 C bs 8 \<and> k = APX_VM_SCALAR_STORAGE_TYPE_UINT64 \<or>
        tc = APX_TYPE_CODE_INT8 \<and> u = set32 ?u (scast (bs ! 0)) \<and> k = APX_VM_SCALAR_STORAGE_TYPE_INT32 \<or>
        tc = APX_TYPE_CODE_INT16 \<and> u = set32 ?u (scast (ucast (unpackLE C bs 2) :: u16)) \<and> k = APX_VM_SCALAR_STORAGE_TYPE_INT32 \<or>
        tc = APX_TYPE_CODE_INT32 \<and> u = set32 ?u (unpackLE C bs 4) \<and> k = APX_VM_SCALAR_STORAGE_TYPE_INT32 \<or>
        tc = APX_TYPE_CODE_INT64 \<and> u = unpackLE64 C bs 8 \<and> k = APX_VM_SCALAR_STORAGE_TYPE_INT64" for u k
      using that st tk nz m t
      by (elim disjE) (simp_all add: state_read_scalar_value_rd_def Let_def num_size_def)
    have b0: "m = 1 \<Longrightarrow> bs ! 0 = word_of_nat (nat (i mod 256))" by (simp add: bs int_bytes_def)
    have pos: "\<not> sg \<Longrightarrow> i mod 2 ^ (8 * m) = i" using f by (simp add: int_fits_def)
    have small: "m = 1 \<Longrightarrow> \<not> sg \<Longrightarrow> uint (ucast (bs ! 0) :: u32) = i"
      using pos b0 by (auto simp: uint_word_of_int unsigned_ucast_eq take_bit_eq_mod)
    show ?thesis
    proof (cases tc)
      case APX_TYPE_CODE_UINT8
      with t small DvInt show ?thesis
        by (intro exI [of _ "set32 ?u (ucast (bs ! 0))"] exI [of _ APX_VM_SCALAR_STORAGE_TYPE_UINT32])
          (subst rd, auto simp: holds_num_def)
    next
      case APX_TYPE_CODE_UINT16
      with t pos un(1) [of 2 i] DvInt bs f show ?thesis
        by (intro exI [of _ "set32 ?u (unpackLE C bs 2)"] exI [of _ APX_VM_SCALAR_STORAGE_TYPE_UINT32])
          (subst rd, auto simp: holds_num_def fits_u32)
    next
      case APX_TYPE_CODE_UINT32
      with t pos un(1) [of 4 i] DvInt bs f show ?thesis
        by (intro exI [of _ "set32 ?u (unpackLE C bs 4)"] exI [of _ APX_VM_SCALAR_STORAGE_TYPE_UINT32])
          (subst rd, auto simp: holds_num_def fits_u32)
    next
      case APX_TYPE_CODE_UINT64
      with t un(2) [of i] DvInt bs f show ?thesis
        by (intro exI [of _ "unpackLE64 C bs 8"] exI [of _ APX_VM_SCALAR_STORAGE_TYPE_UINT64])
          (subst rd, auto simp: holds_num_def fits_u64)
    next
      case APX_TYPE_CODE_INT8
      with t b0 narrow_signed(1) [of i] DvInt f show ?thesis
        by (intro exI [of _ "set32 ?u (scast (bs ! 0))"] exI [of _ APX_VM_SCALAR_STORAGE_TYPE_INT32])
          (subst rd, auto simp: holds_num_def)
    next
      case APX_TYPE_CODE_INT16
      with t un(1) [of 2 i] narrow_signed(2) [of i] DvInt bs f show ?thesis
        by (intro exI [of _ "set32 ?u (scast (ucast (unpackLE C bs 2) :: u16))"] exI [of _ APX_VM_SCALAR_STORAGE_TYPE_INT32])
          (subst rd, auto simp: holds_num_def)
    next
      case APX_TYPE_CODE_INT32
      with t un(1) [of 4 i] narrow_signed(3) [of i] DvInt bs f show ?thesis
        by (intro exI [of _ "set32 ?u (unpackLE C bs 4)"] exI [of _ APX_VM_SCALAR_STORAGE_TYPE_INT32])
          (subst rd, auto simp: holds_num_def)
    next
      case APX_TYPE_CODE_INT64
      with t un(2) [of i] DvInt bs f show ?thesis
        by (intro exI [of _ "unpackLE64 C bs 8"] exI [of _ APX_VM_SCALAR_STORAGE_TYPE_INT64])
          (subst rd, auto simp: holds_num_def fits_i64)
    qed (use t in auto)
  next
    case (DvBool b)
    with v have "tc = APX_TYPE_CODE_BOOL" "bs = [if b then 1 else 0]" by (auto split: if_splits)
    with DvBool st tk nz show ?thesis
      by (auto simp: state_read_scalar_value_rd_def Let_def holds_num_def num_size_def get_bool_def)
  qed (use v in auto)
qed

lemma dtl_new:
  assumes "dtl_documented D \<alpha>"
  shows "\<exists>w. sv_new D = Some w" "\<exists>w. av_new D = Some w \<and> \<alpha> w = DvArray []" "\<exists>w. hv_new D = Some w \<and> \<alpha> w = DvHash []"
  using assms by (auto simp: dtl_documented_def builds_scalars_def builds_containers_def)

lemma dtl_set_text:
  assumes "dtl_documented D \<alpha>"
  shows "\<exists>w'. sv_set_str D (Some w) s = Some w' \<and> \<alpha> w' = DvStr s"
    "\<exists>w'. sv_set_bytearray_raw D (Some w) s = Some w' \<and> \<alpha> w' = DvBytes s"
  using assms by (auto simp: dtl_documented_def builds_scalars_def)

lemma dtl_set_num:
  assumes "dtl_documented D \<alpha>"
  shows "\<exists>w'. sv_set_i32 D (Some w) x = Some w' \<and> \<alpha> w' = DvInt (sint x)"
    "\<exists>w'. sv_set_u32 D (Some w) x = Some w' \<and> \<alpha> w' = DvInt (uint x)"
    "\<exists>w'. sv_set_i64 D (Some w) y = Some w' \<and> \<alpha> w' = DvInt (sint y)"
    "\<exists>w'. sv_set_u64 D (Some w) y = Some w' \<and> \<alpha> w' = DvInt (uint y)"
    "\<exists>w'. sv_set_bool D (Some w) b = Some w' \<and> \<alpha> w' = DvBool b"
  using assms by (auto simp: dtl_documented_def builds_scalars_def)

lemma dtl_push:
  "dtl_documented D \<alpha> \<Longrightarrow> \<alpha> w = DvArray xs \<Longrightarrow> \<exists>w'. av_push D (Some w) (Some x) = Some w' \<and> \<alpha> w' = DvArray (xs @ [\<alpha> x])"
  by (fastforce simp: dtl_documented_def builds_containers_def)

lemma dtl_put:
  "dtl_documented D \<alpha> \<Longrightarrow> \<alpha> w = DvHash kvs \<Longrightarrow>
     \<exists>w'. hv_set_cstr D (Some w) k (Some x) = Some w' \<and> \<alpha> w' = DvHash (AList.update k (\<alpha> x) kvs)"
  by (fastforce simp: dtl_documented_def builds_containers_def)

lemma store_num:
  assumes D: "dtl_documented D \<alpha>" and h: "holds_num tc v (rs_scalar_value st) (rs_scalar_storage_type st)"
    and st: "rs_value st = Some w" "rs_value_type st = DTL_DV_SCALAR"
  shows "\<exists>w'. state_set_scalar_value_from_storage D st = (APX_NO_ERROR, st\<lparr>rs_value := Some w'\<rparr>) \<and> \<alpha> w' = v"
  using h st dtl_set_num(1,2) [OF D, of w "get32 (rs_scalar_value st)"]
    dtl_set_num(3,4) [OF D, of w "rs_scalar_value st"] dtl_set_num(5) [OF D, of w "get_bool (rs_scalar_value st)"]
  by (cases v; cases "rs_scalar_storage_type st")
    (auto simp: state_set_scalar_value_from_storage_def holds_num_def Let_def)

section \<open>Positions, prepared states, finished values\<close>

definition at_pos_rd :: "'v apx_vm_deserializer \<Rightarrow> nat \<Rightarrow> bool" where
  "at_pos_rd d p \<longleftrightarrow> (\<exists>n. rb_next (ds_buffer d) = Some n \<and> n \<le> length (rb_data (ds_buffer d)) \<and>
     p = the_default n (rb_padded_next (ds_buffer d)) \<and> p \<le> length (rb_data (ds_buffer d)))"

definition holds_value :: "('v \<Rightarrow> dv) \<Rightarrow> 'v apx_vm_readState \<Rightarrow> dv \<Rightarrow> bool" where
  "holds_value \<alpha> st v \<longleftrightarrow> (\<exists>w. rs_value st = Some w \<and> \<alpha> w = v) \<and> rs_value_type st = dv_kind v \<and>
     dv_kind v \<noteq> DTL_DV_NULL \<and> dv_kind v \<noteq> DTL_DV_INVALID"

text \<open>The states of the enclosing values: records under construction with a field selected.\<close>

definition open_record :: "('v \<Rightarrow> dv) \<Rightarrow> 'v apx_vm_readState \<Rightarrow> bool" where
  "open_record \<alpha> p \<longleftrightarrow> rs_type_code p = APX_TYPE_CODE_RECORD \<and> rs_field_name p \<noteq> [] \<and>
     (\<exists>kvs. holds_value \<alpha> p (DvHash kvs))"

definition unpacked :: "'v lib \<Rightarrow> ('v \<Rightarrow> dv) \<Rightarrow> nat \<Rightarrow> dv \<Rightarrow> 'v apx_vm_deserializer \<Rightarrow> 'v apx_vm_deserializer \<Rightarrow> bool" where
  "unpacked L \<alpha> p v d d' \<longleftrightarrow> rb_data (ds_buffer d') = rb_data (ds_buffer d) \<and> at_pos_rd d' p \<and>
     ds_queue d' = ds_queue d \<and> (\<exists>st. holds_value \<alpha> st v \<and>
       (APX_NO_ERROR, ds_stack d', ds_state d', ds_free d') = merge_states (lib_d L) (ds_stack d) st (ds_free d))"

lemma child_merged:
  assumes D: "dtl_documented D \<alpha>" and p: "open_record \<alpha> p" and c: "holds_value \<alpha> child v"
  shows "\<exists>w kvs. state_create_child_value_from_child_state D p child = (APX_NO_ERROR, p\<lparr>rs_value := Some w\<rparr>) \<and>
    holds_value \<alpha> p (DvHash kvs) \<and> \<alpha> w = DvHash (AList.update (rs_field_name p) v kvs)"
proof -
  obtain w kvs where w: "rs_value p = Some w" "\<alpha> w = DvHash kvs" and h: "holds_value \<alpha> p (DvHash kvs)"
    using p by (auto simp: open_record_def holds_value_def)
  obtain x where x: "rs_value child = Some x" "\<alpha> x = v" using c by (auto simp: holds_value_def)
  obtain w' where "hv_set_cstr D (Some w) (rs_field_name p) (Some x) = Some w'"
    "\<alpha> w' = DvHash (AList.update (rs_field_name p) v kvs)"
    using dtl_put [OF D w(2)] x(2) by blast
  with w x h c p show ?thesis
    by (intro exI [of _ w'] exI [of _ kvs])
      (auto simp: state_create_child_value_from_child_state_def open_record_def holds_value_def)
qed

lemma merge_ok:
  assumes D: "dtl_documented D \<alpha>"
  shows "\<forall>p\<in>set ps. open_record \<alpha> p \<Longrightarrow> holds_value \<alpha> st v \<Longrightarrow> fst (merge_states D ps st free) = APX_NO_ERROR"
proof (induction ps arbitrary: st v free)
  case (Cons p ps)
  from child_merged [OF D _ Cons.prems(2), of p] Cons.prems(1) obtain w kvs where
    c: "state_create_child_value_from_child_state D p st = (APX_NO_ERROR, p\<lparr>rs_value := Some w\<rparr>)"
    "holds_value \<alpha> p (DvHash kvs)" "\<alpha> w = DvHash (AList.update (rs_field_name p) v kvs)" by auto
  have "rs_type_code p = APX_TYPE_CODE_RECORD" "rs_value_type p = DTL_DV_HASH"
    using Cons.prems(1) c(2) by (auto simp: open_record_def holds_value_def)
  moreover have "holds_value \<alpha> (p\<lparr>rs_value := Some w\<rparr>) (DvHash (AList.update (rs_field_name p) v kvs))"
    using c(2,3) by (simp add: holds_value_def)
  ultimately show ?case using c(1) Cons by simp
qed simp

lemma pop_unpacked:
  assumes L: "lib_documented L \<alpha>" and ok: "\<forall>q\<in>set (ds_stack d). open_record \<alpha> q" and v: "holds_value \<alpha> (ds_state t) v"
    and t: "rb_data (ds_buffer t) = rb_data (ds_buffer d)" "at_pos_rd t p" "ds_queue t = ds_queue d"
      "ds_stack t = ds_stack d" "ds_free t = ds_free d"
  shows "\<exists>d'. deserializer_pop_state L t = (APX_NO_ERROR, d') \<and> unpacked L \<alpha> p v d d'"
proof -
  obtain ps st free where m: "merge_states (lib_d L) (ds_stack d) (ds_state t) (ds_free d) = (APX_NO_ERROR, ps, st, free)"
    using merge_ok [OF lib_documentedD(4) [OF L] ok v] by (metis prod.collapse)
  let ?d = "t\<lparr>ds_stack := ps, ds_state := st, ds_free := free\<rparr>"
  have "unpacked L \<alpha> p v d ?d"
    using t v m unfolding unpacked_def by (auto simp: at_pos_rd_def intro!: exI [of _ "ds_state t"])
  then show ?thesis using m t by (auto simp: deserializer_pop_state_def)
qed

definition prepared_rd :: "'v apx_vm_deserializer \<Rightarrow> nat \<Rightarrow> apx_typeCode \<Rightarrow> nat \<Rightarrow> 'v apx_vm_deserializer" where
  "prepared_rd d p tc es = d\<lparr>ds_buffer := (ds_buffer d)\<lparr>rb_next := Some p, rb_padded_next := None\<rparr>,
     ds_state := state_set_type_and_size (state_reset_rd (ds_state d)) tc (word_of_nat es)\<rparr>"

lemma prepare_read:
  "at_pos_rd d p \<Longrightarrow> deserializer_prepare_for_buffer_read d tc (word_of_nat es) = (APX_NO_ERROR, prepared_rd d p tc es)"
  by (auto simp: at_pos_rd_def deserializer_prepare_for_buffer_read_def read_buffer_is_valid_def prepared_rd_def
      split: option.split)

lemma num_type_flags_rd:
  "int_type tc \<noteq> None \<or> tc = APX_TYPE_CODE_BOOL \<Longrightarrow> rs_type_code st = tc \<Longrightarrow>
     state_is_num_or_bool_type_rd st \<and> \<not> state_is_record_type_rd st"
  by (cases tc) (auto simp: state_is_num_or_bool_type_rd_def state_is_record_type_rd_def)

section \<open>Single numbers and bytes\<close>

text \<open>A value that is not an array: it is read into the union of the state and stored from there.\<close>

lemma unpack_single:
  assumes L: "lib_documented L \<alpha>" and ok: "\<forall>q\<in>set (ds_stack d). open_record \<alpha> q" and q: "\<not> qr_is_active (ds_queue d)"
    and p: "at_pos_rd d p" and sz: "p + es \<le> length (rb_data (ds_buffer d))"
    and tc: "int_type tc \<noteq> None \<or> tc = APX_TYPE_CODE_BOOL \<or> tc = APX_TYPE_CODE_BYTE" and v: "dv_kind v = DTL_DV_SCALAR"
    and rd: "\<And>st. rs_type_code st = tc \<Longrightarrow> rs_element_size st = word_of_nat es \<Longrightarrow>
      \<exists>u k. state_read_scalar_value_rd (lib_c L) (rb_data (ds_buffer d)) p st =
        (APX_NO_ERROR, p + es, st\<lparr>rs_scalar_value := u, rs_scalar_storage_type := k\<rparr>) \<and>
        (\<forall>w0. rs_value st = Some w0 \<longrightarrow> rs_value_type st = DTL_DV_SCALAR \<longrightarrow>
          (\<exists>w. state_set_scalar_value_from_storage (lib_d L) (st\<lparr>rs_scalar_value := u, rs_scalar_storage_type := k\<rparr>) =
             (APX_NO_ERROR, st\<lparr>rs_scalar_value := u, rs_scalar_storage_type := k, rs_value := Some w\<rparr>) \<and> \<alpha> w = v))"
  shows "\<exists>d'. unpack_as L tc es d 0 APX_SIZE_TYPE_NONE = (APX_NO_ERROR, d') \<and> unpacked L \<alpha> (p + es) v d d'"
proof -
  note D = lib_documentedD(4) [OF L]
  let ?d = "prepared_rd d p tc es"
  have st: "rs_type_code (ds_state ?d) = tc" "rs_element_size (ds_state ?d) = word_of_nat es"
    "rs_value_type (ds_state ?d) = DTL_DV_NULL" "rs_array_len (ds_state ?d) = 0"
    "rs_dynamic_size_type (ds_state ?d) = APX_SIZE_TYPE_NONE"
    by (simp_all add: prepared_rd_def state_set_type_and_size_def state_reset_rd_def state_clear_value_rd_def)
  have flags: "state_is_num_or_bool_type_rd (ds_state ?d) \<or> state_is_byte_type (ds_state ?d)"
    "\<not> state_is_record_type_rd (ds_state ?d)"
    using tc st(1) num_type_flags_rd [of tc "ds_state ?d"]
    by (auto simp: state_is_byte_type_def state_is_record_type_rd_def)
  obtain w0 where w0: "sv_new (lib_d L) = Some w0" using dtl_new(1) [OF D] by blast
  let ?st = "(ds_state ?d)\<lparr>rs_value := Some w0, rs_value_type := DTL_DV_SCALAR\<rparr>"
  obtain u k w where r: "state_read_scalar_value_rd (lib_c L) (rb_data (ds_buffer d)) p ?st =
      (APX_NO_ERROR, p + es, ?st\<lparr>rs_scalar_value := u, rs_scalar_storage_type := k\<rparr>)" and
    w: "state_set_scalar_value_from_storage (lib_d L) (?st\<lparr>rs_scalar_value := u, rs_scalar_storage_type := k\<rparr>) =
      (APX_NO_ERROR, ?st\<lparr>rs_scalar_value := u, rs_scalar_storage_type := k, rs_value := Some w\<rparr>)" and aw: "\<alpha> w = v"
    using rd [of ?st] st by auto
  let ?t = "set_next_rd (p + es) (?d\<lparr>ds_state := ?st\<lparr>rs_scalar_value := u, rs_scalar_storage_type := k, rs_value := Some w\<rparr>\<rparr>)"
  have "\<exists>d'. deserializer_pop_state L ?t = (APX_NO_ERROR, d') \<and> unpacked L \<alpha> (p + es) v d d'"
    using aw v sz
    by (intro pop_unpacked [OF L ok]) (auto simp: holds_value_def prepared_rd_def set_next_rd_def at_pos_rd_def)
  moreover have "unpack_as L tc es d 0 APX_SIZE_TYPE_NONE = deserializer_pop_state L ?t"
  proof -
    have "deserializer_unpack_scalar_value L (?d\<lparr>ds_state := ?st\<rparr>) = (APX_NO_ERROR, ?t)"
      using r w by (simp add: deserializer_unpack_scalar_value_def reading_def at_next_rd_def prepared_rd_def
          on_state_rd_def set_next_rd_def)
    then have "unpack_without_elements L ?d = (APX_NO_ERROR, ?t)"
      using flags st w0 by (simp add: unpack_without_elements_def Let_def on_state_rd_def state_init_scalar_value_def
          init_value_def)
    then show ?thesis
      using st flags q by (simp add: unpack_as_def prepare_read [OF p] deserializer_unpack_value_def
          deserializer_prepare_for_array_def Let_def queued_read_state_is_active_def prepared_rd_def)
  qed
  ultimately show ?thesis by simp
qed

lemma unpack_num:
  assumes L: "lib_documented L \<alpha>" and ok: "\<forall>q\<in>set (ds_stack d). open_record \<alpha> q" and q: "\<not> qr_is_active (ds_queue d)"
    and v: "num_bytes tc lim v = Some bs" and p: "at_pos_rd d p" and at: "agrees p (map Some bs) (rb_data (ds_buffer d))"
  shows "\<exists>d'. unpack_as L tc (num_size tc) d 0 APX_SIZE_TYPE_NONE = (APX_NO_ERROR, d') \<and>
    unpacked L \<alpha> (p + length bs) v d d'"
proof -
  note D = lib_documentedD(4) [OF L] and C = lib_documentedD(1) [OF L]
  have "\<exists>u k. state_read_scalar_value_rd (lib_c L) (rb_data (ds_buffer d)) p st =
        (APX_NO_ERROR, p + num_size tc, st\<lparr>rs_scalar_value := u, rs_scalar_storage_type := k\<rparr>) \<and>
        (\<forall>w0. rs_value st = Some w0 \<longrightarrow> rs_value_type st = DTL_DV_SCALAR \<longrightarrow>
          (\<exists>w. state_set_scalar_value_from_storage (lib_d L) (st\<lparr>rs_scalar_value := u, rs_scalar_storage_type := k\<rparr>) =
             (APX_NO_ERROR, st\<lparr>rs_scalar_value := u, rs_scalar_storage_type := k, rs_value := Some w\<rparr>) \<and> \<alpha> w = v))"
    if st: "rs_type_code st = tc" "rs_element_size st = word_of_nat (num_size tc)" for st
  proof -
    obtain u k where rd: "state_read_scalar_value_rd (lib_c L) (rb_data (ds_buffer d)) p st =
        (APX_NO_ERROR, p + num_size tc, st\<lparr>rs_scalar_value := u, rs_scalar_storage_type := k\<rparr>)" "holds_num tc v u k"
      using read_num_rd [OF C v at st] by blast
    then show ?thesis
      using store_num [OF D, of tc v "st\<lparr>rs_scalar_value := u, rs_scalar_storage_type := k\<rparr>"]
      by (intro exI [of _ u] exI [of _ k]) auto
  qed
  from unpack_single [OF L ok q p take_num(2) [OF v at] _ num_kind [OF v] this] num_type [OF v]
  show ?thesis unfolding num_bytes_length [OF v] by blast
qed

lemma unpack_byte:
  assumes L: "lib_documented L \<alpha>" and ok: "\<forall>q\<in>set (ds_stack d). open_record \<alpha> q" and q: "\<not> qr_is_active (ds_queue d)"
    and p: "at_pos_rd d p" and at: "agrees p [Some b] (rb_data (ds_buffer d))"
  shows "\<exists>d'. unpack_as L APX_TYPE_CODE_BYTE 1 d 0 APX_SIZE_TYPE_NONE = (APX_NO_ERROR, d') \<and>
    unpacked L \<alpha> (p + 1) (DvBytes [b]) d d'"
proof (rule unpack_single [OF L ok q p])
  show "p + 1 \<le> length (rb_data (ds_buffer d))" using at by (simp add: agrees_def)
next
  fix st :: "'a apx_vm_readState"
  assume st: "rs_type_code st = APX_TYPE_CODE_BYTE" "rs_element_size st = word_of_nat 1"
  have "state_read_scalar_value_rd (lib_c L) (rb_data (ds_buffer d)) p st = (APX_NO_ERROR, p + 1,
      st\<lparr>rs_scalar_value := set8 (rs_scalar_value st) b, rs_scalar_storage_type := APX_VM_SCALAR_STORAGE_TYPE_BYTE\<rparr>)"
    using st agrees_bytes [of p "[b]" "rb_data (ds_buffer d)"] at by (auto simp: state_read_scalar_value_rd_def Let_def)
  then show "\<exists>u k. state_read_scalar_value_rd (lib_c L) (rb_data (ds_buffer d)) p st =
        (APX_NO_ERROR, p + 1, st\<lparr>rs_scalar_value := u, rs_scalar_storage_type := k\<rparr>) \<and>
        (\<forall>w0. rs_value st = Some w0 \<longrightarrow> rs_value_type st = DTL_DV_SCALAR \<longrightarrow>
          (\<exists>w. state_set_scalar_value_from_storage (lib_d L) (st\<lparr>rs_scalar_value := u, rs_scalar_storage_type := k\<rparr>) =
             (APX_NO_ERROR, st\<lparr>rs_scalar_value := u, rs_scalar_storage_type := k, rs_value := Some w\<rparr>) \<and>
           \<alpha> w = DvBytes [b]))"
    using dtl_set_text(2) [OF lib_documentedD(4) [OF L]]
    by (intro exI [of _ "set8 (rs_scalar_value st) b"] exI [of _ APX_VM_SCALAR_STORAGE_TYPE_BYTE] conjI allI impI)
      (simp_all add: state_set_scalar_value_from_storage_def, metis)
qed simp_all

section \<open>Arrays\<close>

text \<open>The part of \<open>deserializer_unpack_value\<close> that reads the elements of an array of non-records.\<close>

definition read_elements :: "'v lib \<Rightarrow> 'v apx_vm_deserializer \<Rightarrow> apx_error \<times> 'v apx_vm_deserializer" where
  "read_elements L t = (let st = ds_state t in
     if state_is_num_or_bool_type_rd st then deserializer_unpack_array_of_scalar L t
     else if state_is_char_type_rd st then deserializer_unpack_string L t
     else deserializer_unpack_byte_array_internal L t)"

definition array_state_rd :: "'v apx_vm_deserializer \<Rightarrow> apx_typeCode \<Rightarrow> nat \<Rightarrow> u32 \<Rightarrow> bool \<Rightarrow> nat \<Rightarrow>
    'v apx_vm_readState" where
  "array_state_rd d tc es n dynamic len =
     (let st = state_set_type_and_size (state_reset_rd (ds_state d)) tc (word_of_nat es)
      in if dynamic then st\<lparr>rs_max_array_len := n, rs_array_len := word_of_nat len,
           rs_dynamic_size_type := apx_vm_size_to_size_type n\<rparr>
         else st\<lparr>rs_array_len := n\<rparr>)"

lemma array_state_rd_fields:
  "rs_type_code (array_state_rd d tc es n dynamic len) = tc"
  "rs_element_size (array_state_rd d tc es n dynamic len) = word_of_nat es"
  "rs_value_type (array_state_rd d tc es n dynamic len) = DTL_DV_NULL"
  "rs_array_len (array_state_rd d tc es n dynamic len) = (if dynamic then word_of_nat len else n)"
  "rs_dynamic_size_type (array_state_rd d tc es n dynamic len) =
     (if dynamic then apx_vm_size_to_size_type n else APX_SIZE_TYPE_NONE)"
  by (simp_all add: array_state_rd_def state_set_type_and_size_def state_reset_rd_def state_clear_value_rd_def Let_def)

definition have_read :: "('v \<Rightarrow> dv) \<Rightarrow> nat \<Rightarrow> dv \<Rightarrow> 'v apx_vm_deserializer \<Rightarrow> 'v apx_vm_deserializer \<Rightarrow> bool" where
  "have_read \<alpha> q v t t' \<longleftrightarrow> (\<exists>st. t' = set_next_rd q (t\<lparr>ds_state := st\<rparr>) \<and> holds_value \<alpha> st v)"

lemma parse_length:
  assumes C: "packs_little_endian C" and n: "n \<noteq> 0" and len: "len \<le> unat n"
    and at: "agrees p (map Some (le_bytes (length_size (unat n)) len)) data"
  shows "apx_vm_parse_uint32_by_size_type C (drop p data) (apx_vm_size_to_size_type n) =
    Some (word_of_nat len, length_size (unat n))"
proof -
  let ?k = "length_size (unat n)" and ?t = "apx_vm_size_to_size_type n"
  have nb: "unat n < 2 ^ 32" using unsigned_less [of n, where ?'a = nat] by simp
  with len have u: "unat (word_of_nat len :: u32) = len" by (simp add: unat_of_nat)
  have t: "?t \<noteq> APX_SIZE_TYPE_NONE" using n by (simp add: size_to_size_type_none)
  have k: "?k = apx_vm_variant_to_size (apx_vm_size_type_to_variant ?t)"
    using size_type_to_size_variant [OF t] size_type_length_size [OF n] by simp
  have d: "drop p data = packLE C (word_of_nat len) ?k @ drop ?k (drop p data)"
    using at length_size_cases [of "unat n"] u
    by (simp add: agrees_bytes packLE_bytes [OF C] del: drop_drop) (metis append_take_drop_id)
  have "apx_vm_parse_uint32_by_variant C (drop p data) (apx_vm_size_type_to_variant ?t) = Some (word_of_nat len, ?k)"
    using length_size_fits [OF len nb] u
    by (subst d, intro parse_uint32_packed [OF C k length_size_cases]) simp
  moreover have "apx_vm_size_type_to_variant ?t \<noteq> APX_VM_VARIANT_INVALID" using t by (cases ?t) auto
  ultimately show ?thesis by (simp add: apx_vm_parse_uint32_by_size_type_def)
qed

lemma unpack_array:
  assumes L: "lib_documented L \<alpha>" and ok: "\<forall>q\<in>set (ds_stack d). open_record \<alpha> q" and q: "\<not> qr_is_active (ds_queue d)"
    and n: "n \<noteq> 0" and tc: "data_type tc" and es: "0 < es" "es \<le> 8"
    and ly: "array_layout (unat n) dynamic es len bs = Some ly" and bs: "length bs = len * es" and len0: "len \<noteq> 0"
    and elems: "\<And>t q. \<lbrakk>ds_state t = array_state_rd d tc es n dynamic len; rb_next (ds_buffer t) = Some q;
        agrees q (map Some bs) (rb_data (ds_buffer t))\<rbrakk> \<Longrightarrow>
      \<exists>t'. read_elements L t = (APX_NO_ERROR, t') \<and> have_read \<alpha> (q + length bs) v t t'"
    and p: "at_pos_rd d p" and at: "agrees p ly (rb_data (ds_buffer d))"
  shows "\<exists>d'. unpack_as L tc es d n (if dynamic then apx_vm_size_to_size_type n else APX_SIZE_TYPE_NONE) =
      (APX_NO_ERROR, d') \<and> unpacked L \<alpha> (p + length ly) v d d'"
proof -
  note C = lib_documentedD(1) [OF L]
  let ?d = "prepared_rd d p tc es" and ?data = "rb_data (ds_buffer d)" and ?st = "array_state_rd d tc es n dynamic len"
  have nb: "unat n < 2 ^ 32" using unsigned_less [of n, where ?'a = nat] by simp
  have unes: "unat (word_of_nat es :: u32) = es" using es by (simp add: unat_of_nat)
  have esnz: "(word_of_nat es :: u32) \<noteq> 0" using es unes by (metis less_numeral_extra(3) unat_0)
  have flags: "\<not> state_is_record_type_rd ?st \<and>
      (state_is_num_or_bool_type_rd ?st \<or> state_is_char_type_rd ?st \<or> state_is_byte_type ?st)"
    using tc by (cases tc) (auto simp: data_type_def state_is_record_type_rd_def state_is_num_or_bool_type_rd_def
        state_is_char_type_rd_def state_is_byte_type_def array_state_rd_fields)
  have len: "len \<le> unat n" and lenf: "\<not> dynamic \<Longrightarrow> len = unat n"
    using ly by (auto simp: array_layout_def split: if_splits)
  have ul: "unat (word_of_nat len :: u32) = len" using len nb by (simp add: unat_of_nat)
  then have al: "rs_array_len ?st \<noteq> 0" using len0 n by (auto simp: array_state_rd_fields)
  obtain t q where prep: "deserializer_prepare_for_array L ?d n (if dynamic then apx_vm_size_to_size_type n else APX_SIZE_TYPE_NONE) =
      (APX_NO_ERROR, t)" and st: "ds_state t = ?st" and nx: "rb_next (ds_buffer t) = Some q"
    and ag: "agrees q (map Some bs) ?data"
    and t: "rb_data (ds_buffer t) = ?data" "ds_queue t = ds_queue d" "ds_stack t = ds_stack d" "ds_free t = ds_free d"
    and pad: "rb_padded_next (ds_buffer t) = (if dynamic then Some (p + length ly) else None)"
      "\<not> dynamic \<Longrightarrow> q + length bs = p + length ly"
  proof (cases dynamic)
    case False
    then have lye: "ly = map Some bs" using ly by (auto simp: array_layout_def split: if_splits)
    show ?thesis
      by (rule that [of "?d\<lparr>ds_state := ?st\<rparr>" p])
        (use False n at lye in \<open>auto simp: deserializer_prepare_for_array_def word_gt_0 array_state_rd_def prepared_rd_def\<close>)
  next
    case True
    let ?k = "length_size (unat n)"
    have lye: "ly = map Some (le_bytes ?k len) @ map Some bs @ replicate ((unat n - len) * es) None"
      using ly True by (auto simp: array_layout_def split: if_splits)
    then have lyl: "length ly = ?k + unat n * es" using bs len by (simp flip: add_mult_distrib)
    have a1: "agrees p (map Some (le_bytes ?k len)) ?data" and a2: "agrees (p + ?k) (map Some bs) ?data"
      using at unfolding lye agrees_append by auto
    note par = parse_length [OF C n len a1]
    have inside: "p + ?k \<le> length ?data" using a1 agrees_bytes by simp
    show ?thesis
      by (rule that [of "?d\<lparr>ds_state := ?st, ds_buffer := (ds_buffer ?d)\<lparr>rb_next := Some (p + ?k),
            rb_padded_next := Some (p + ?k + unat n * es)\<rparr>\<rparr>" "p + ?k"])
        (use True n a2 par inside lyl esnz unes ul len in \<open>auto simp: deserializer_prepare_for_array_def word_gt_0 array_state_rd_def
          prepared_rd_def size_to_size_type_none reading_def at_next_rd_def set_next_rd_def Let_def
          state_determine_array_length_from_read_buffer_def state_set_type_and_size_def word_less_nat_alt unat_eq_0\<close>)
  qed
  obtain t' where t': "read_elements L t = (APX_NO_ERROR, t')" "have_read \<alpha> (q + length bs) v t t'"
    using elems [OF st nx] ag t(1) by auto
  have "\<exists>d'. deserializer_pop_state L t' = (APX_NO_ERROR, d') \<and> unpacked L \<alpha> (p + length ly) v d d'"
    using t'(2) t pad at ag nx
    by (intro pop_unpacked [OF L ok]) (auto simp: have_read_def set_next_rd_def at_pos_rd_def agrees_def)
  moreover have "unpack_as L tc es d n (if dynamic then apx_vm_size_to_size_type n else APX_SIZE_TYPE_NONE) =
      deserializer_pop_state L t'"
    using t'(1) q al flags t st
    by (auto simp: unpack_as_def prepare_read [OF p] deserializer_unpack_value_def prep Let_def queued_read_state_is_active_def
        unpack_elements_def read_elements_def)
  ultimately show ?thesis by simp
qed


subsection \<open>Arrays of numbers\<close>

lemma unpack_elems:
  assumes L: "lib_documented L \<alpha>"
  shows "collect (map (num_bytes tc lim) ys) = Some bss \<Longrightarrow> agrees q (map Some (concat bss)) data \<Longrightarrow>
    rs_value self = Some w \<Longrightarrow> \<alpha> w = DvArray zs \<Longrightarrow> rs_value_type self = DTL_DV_ARRAY \<Longrightarrow>
    rs_type_code child = tc \<Longrightarrow> rs_element_size child = word_of_nat (num_size tc) \<Longrightarrow> rs_value_type child = DTL_DV_NULL \<Longrightarrow>
    \<exists>w'. unpack_scalar_elements L data (length ys) q child self APX_NO_ERROR =
      (APX_NO_ERROR, q + length (concat bss), self\<lparr>rs_value := Some w'\<rparr>) \<and> \<alpha> w' = DvArray (zs @ ys)"
proof (induction ys arbitrary: bss q child self w zs)
  case Nil
  then show ?case by (intro exI [of _ w]) auto
next
  case (Cons y ys)
  note D = lib_documentedD(4) [OF L] and C = lib_documentedD(1) [OF L]
  from Cons.prems(1) obtain b bs where b: "num_bytes tc lim y = Some b" and bs: "collect (map (num_bytes tc lim) ys) = Some bs"
    and bss: "bss = b # bs" by (cases "num_bytes tc lim y") auto
  from Cons.prems(2) have a1: "agrees q (map Some b) data" and a2: "agrees (q + length b) (map Some (concat bs)) data"
    by (auto simp: bss agrees_append)
  note len = num_bytes_length [OF b]
  obtain w0 where w0: "sv_new (lib_d L) = Some w0" using dtl_new(1) [OF D] by blast
  let ?c = "child\<lparr>rs_value := Some w0, rs_value_type := DTL_DV_SCALAR\<rparr>"
  obtain u k where rd: "state_read_scalar_value_rd (lib_c L) data q ?c =
      (APX_NO_ERROR, q + num_size tc, ?c\<lparr>rs_scalar_value := u, rs_scalar_storage_type := k\<rparr>)" and h: "holds_num tc y u k"
    using read_num_rd [OF C b a1, of ?c] Cons.prems by auto
  let ?c1 = "?c\<lparr>rs_scalar_value := u, rs_scalar_storage_type := k\<rparr>"
  obtain x where x: "state_set_scalar_value_from_storage (lib_d L) ?c1 = (APX_NO_ERROR, ?c1\<lparr>rs_value := Some x\<rparr>)"
    and ax: "\<alpha> x = y"
    using store_num [OF D, of tc y ?c1 w0] h by auto
  obtain w1 where w1: "av_push (lib_d L) (Some w) (Some x) = Some w1" "\<alpha> w1 = DvArray (zs @ [y])"
    using dtl_push [OF D Cons.prems(4), of x] ax by blast
  have "\<exists>w'. unpack_scalar_elements L data (length ys) (q + length b) (state_clear_value_rd (?c1\<lparr>rs_value := Some x\<rparr>))
        (self\<lparr>rs_value := Some w1\<rparr>) APX_NO_ERROR =
      (APX_NO_ERROR, q + length b + length (concat bs), (self\<lparr>rs_value := Some w1\<rparr>)\<lparr>rs_value := Some w'\<rparr>) \<and>
      \<alpha> w' = DvArray ((zs @ [y]) @ ys)"
    using Cons.prems by (intro Cons.IH [OF bs a2, of _ w1]) (auto simp: state_clear_value_rd_def w1)
  then show ?case
    using Cons.prems rd x w1(1) w0 len
    by (auto simp: state_init_scalar_value_def init_value_def state_take_sv_def state_push_array_value_def bss add.assoc)
qed

lemma unpack_num_array:
  assumes L: "lib_documented L \<alpha>" and ok: "\<forall>q\<in>set (ds_stack d). open_record \<alpha> q" and q: "\<not> qr_is_active (ds_queue d)"
    and tc: "int_type tc \<noteq> None \<or> tc = APX_TYPE_CODE_BOOL" and n: "n \<noteq> 0"
    and ly: "layout (NumArray tc lim (unat n) dynamic) v = Some ly" and ne: "v \<noteq> DvArray []"
    and p: "at_pos_rd d p" and at: "agrees p ly (rb_data (ds_buffer d))"
  shows "\<exists>d'. unpack_as L tc (num_size tc) d n (if dynamic then apx_vm_size_to_size_type n else APX_SIZE_TYPE_NONE) =
      (APX_NO_ERROR, d') \<and> unpacked L \<alpha> (p + length ly) v d d'"
proof -
  note D = lib_documentedD(4) [OF L]
  from ly obtain xs bss where v: "v = DvArray xs" and b: "collect (map (num_bytes tc lim) xs) = Some bss"
    and al: "array_layout (unat n) dynamic (num_size tc) (length xs) (concat bss) = Some ly"
    by (cases v) (auto split: option.splits)
  have nb: "unat n < 2 ^ 32" using unsigned_less [of n, where ?'a = nat] by simp
  have len: "length xs \<le> unat n" and lenf: "\<not> dynamic \<Longrightarrow> unat n = length xs"
    using al by (auto simp: array_layout_def split: if_splits)
  have ul: "unat (word_of_nat (length xs) :: u32) = length xs" using len nb by (simp add: unat_of_nat)
  show ?thesis
  proof (rule unpack_array [where bs = "concat bss" and len = "length xs", OF L ok q n _ _ _ al _ _ _ p at])
    show "data_type tc" using tc by (auto simp: data_type_def)
    show "length (concat bss) = length xs * num_size tc" using b by (rule length_concat_num)
    show "0 < num_size tc" "num_size tc \<le> 8" using num_size_cases [of tc] by auto
    show "length xs \<noteq> 0" using ne v by simp
  next
    fix t :: "'a apx_vm_deserializer" and q
    assume t: "ds_state t = array_state_rd d tc (num_size tc) n dynamic (length xs)" "rb_next (ds_buffer t) = Some q"
      "agrees q (map Some (concat bss)) (rb_data (ds_buffer t))"
    note f = array_state_rd_fields [of d tc "num_size tc" n dynamic "length xs", folded t(1)]
    have "unat (rs_array_len (ds_state t)) = length xs" using f(4) ul lenf by auto
    obtain w0 where w0: "av_new (lib_d L) = Some w0" "\<alpha> w0 = DvArray []" using dtl_new(2) [OF D] by blast
    let ?st = "(ds_state t)\<lparr>rs_value := Some w0, rs_value_type := DTL_DV_ARRAY\<rparr>"
    let ?child = "state_set_type_and_size state_create tc (word_of_nat (num_size tc))"
    have "\<exists>w'. unpack_scalar_elements L (rb_data (ds_buffer t)) (length xs) q ?child ?st APX_NO_ERROR =
        (APX_NO_ERROR, q + length (concat bss), ?st\<lparr>rs_value := Some w'\<rparr>) \<and> \<alpha> w' = DvArray ([] @ xs)"
      using w0 by (intro unpack_elems [OF L b t(3), of _ w0]) (auto simp: state_set_type_and_size_def state_create_def)
    then obtain w' where w': "unpack_scalar_elements L (rb_data (ds_buffer t)) (length xs) q ?child ?st APX_NO_ERROR =
        (APX_NO_ERROR, q + length (concat bss), ?st\<lparr>rs_value := Some w'\<rparr>)" "\<alpha> w' = DvArray xs" by auto
    let ?t' = "set_next_rd (q + length (concat bss)) (t\<lparr>ds_state := ?st\<lparr>rs_value := Some w'\<rparr>\<rparr>)"
    have "read_elements L t = (APX_NO_ERROR, ?t')"
      using num_type_flags_rd [OF tc f(1)] f w0 w' t(2) \<open>unat (rs_array_len (ds_state t)) = length xs\<close>
      by (simp add: read_elements_def Let_def deserializer_unpack_array_of_scalar_def on_state_rd_def
          state_init_array_value_def init_value_def reading_def at_next_rd_def)
    moreover have "have_read \<alpha> (q + length (concat bss)) v t ?t'"
      using w'(2) v by (auto simp: have_read_def holds_value_def intro!: exI [of _ "?st\<lparr>rs_value := Some w'\<rparr>"])
    ultimately show "\<exists>t'. read_elements L t = (APX_NO_ERROR, t') \<and> have_read \<alpha> (q + length (concat bss)) v t t'"
      by blast
  qed
qed

subsection \<open>Strings and byte strings\<close>

lemma unpack_chars_dynamic:
  assumes T: "stores_text T"
  shows "agrees q (map Some s) data \<Longrightarrow> 0 \<notin> set s \<Longrightarrow>
    unpack_chars T data True adj (length s) q acc APX_NO_ERROR = (APX_NO_ERROR, q + length s, acc @ s)"
proof (induction s arbitrary: q acc)
  case (Cons c s)
  then have a: "agrees q (map Some [c]) data" and b: "agrees (Suc q) (map Some s) data"
    using agrees_append [of q "[Some c]" "map Some s" data] by auto
  from a have "data ! q = c" "q < length data" by (auto simp: agrees_def)
  with Cons.IH [OF b] Cons.prems show ?case by (simp add: str_set_stores(3) [OF T])
qed simp

lemma unpack_chars_fixed:
  assumes T: "stores_text T"
  shows "agrees q (map Some (s @ replicate k 0)) data \<Longrightarrow> 0 \<notin> set s \<Longrightarrow> adj = q + length s + k \<Longrightarrow>
    unpack_chars T data False adj (length s + k) q acc APX_NO_ERROR = (APX_NO_ERROR, q + length s + k, acc @ s)"
proof (induction s arbitrary: q acc)
  case Nil
  show ?case
  proof (cases k)
    case (Suc m)
    with Nil(1) have "data ! q = 0" "q < length data" by (auto simp: agrees_def)
    with Suc Nil show ?thesis by simp
  qed simp
next
  case (Cons c s)
  then have a: "agrees q (map Some [c]) data" and b: "agrees (Suc q) (map Some (s @ replicate k 0)) data"
    using agrees_append [of q "[Some c]" "map Some (s @ replicate k 0)" data] by auto
  from a have "data ! q = c" "q < length data" by (auto simp: agrees_def)
  with Cons.IH [OF b] Cons.prems show ?case by (simp add: str_set_stores(3) [OF T])
qed

lemma unpack_text:
  assumes L: "lib_documented L \<alpha>" and ok: "\<forall>q\<in>set (ds_stack d). open_record \<alpha> q" and q: "\<not> qr_is_active (ds_queue d)"
    and n: "n \<noteq> 0" and ly: "layout (Chars tc (unat n) dynamic) (DvStr s) = Some ly" and s: "0 \<notin> set s" "dynamic \<Longrightarrow> s \<noteq> []"
    and p: "at_pos_rd d p" and at: "agrees p ly (rb_data (ds_buffer d))"
  shows "\<exists>d'. unpack_as L APX_TYPE_CODE_CHAR 1 d n (if dynamic then apx_vm_size_to_size_type n else APX_SIZE_TYPE_NONE) =
      (APX_NO_ERROR, d') \<and> unpacked L \<alpha> (p + length ly) (DvStr s) d d'"
proof -
  note D = lib_documentedD(4) [OF L] and T = lib_documentedD(3) [OF L]
  define len where "len = (if dynamic then length s else unat n)"
  define bs where "bs = s @ replicate (len - length s) 0"
  have sl: "length s \<le> unat n" using ly by (auto simp: array_layout_def split: if_splits)
  have al: "array_layout (unat n) dynamic 1 len bs = Some ly"
    using ly sl by (auto simp: array_layout_def len_def bs_def)
  have nb: "unat n < 2 ^ 32" using unsigned_less [of n, where ?'a = nat] by simp
  have ul: "unat (word_of_nat (length s) :: u32) = length s" using sl nb by (simp add: unat_of_nat)
  have len0: "len \<noteq> 0" using s n by (auto simp: len_def unat_gt_0)
  have lb: "length bs = len" using sl by (simp add: bs_def len_def)
  show ?thesis
  proof (rule unpack_array [where bs = bs and len = len, OF L ok q n _ _ _ al _ len0 _ p at])
    show "data_type APX_TYPE_CODE_CHAR" by (simp add: data_type_def)
    show "length bs = len * 1" using lb by simp
  next
    fix t :: "'a apx_vm_deserializer" and q
    assume t: "ds_state t = array_state_rd d APX_TYPE_CODE_CHAR 1 n dynamic len" "rb_next (ds_buffer t) = Some q"
      "agrees q (map Some bs) (rb_data (ds_buffer t))"
    note f = array_state_rd_fields [of d APX_TYPE_CODE_CHAR 1 n dynamic len, folded t(1)]
    have ua: "unat (rs_array_len (ds_state t)) = len" using f(4) ul by (auto simp: len_def)
    have dy: "(rs_dynamic_size_type (ds_state t) \<noteq> APX_SIZE_TYPE_NONE) = dynamic"
      using f(5) n by (simp add: size_to_size_type_none)
    have ch: "unpack_chars (lib_t L) (rb_data (ds_buffer t)) dynamic (q + len) len q [] APX_NO_ERROR =
        (APX_NO_ERROR, q + len, s)"
    proof (cases dynamic)
      case True
      then show ?thesis
        using unpack_chars_dynamic [OF T, of q s "rb_data (ds_buffer t)" "q + len" "[]"] t(3) s(1)
        by (simp add: bs_def len_def)
    next
      case False
      then show ?thesis
        using unpack_chars_fixed [OF T, of q s "len - length s" "rb_data (ds_buffer t)" "q + len" "[]"] t(3) s(1) sl
        by (simp add: bs_def len_def)
    qed
    obtain w0 where w0: "sv_new (lib_d L) = Some w0" using dtl_new(1) [OF D] by blast
    obtain w where w: "sv_set_str (lib_d L) (Some w0) s = Some w" "\<alpha> w = DvStr s" using dtl_set_text(1) [OF D] by blast
    let ?st = "(ds_state t)\<lparr>rs_value := Some w0, rs_value_type := DTL_DV_SCALAR\<rparr>"
    let ?t' = "set_next_rd (q + len) (t\<lparr>ds_state := ?st\<lparr>rs_value := Some w\<rparr>\<rparr>)"
    have "rs_array_len (ds_state t) \<noteq> 0" using ua len0 by auto
    then have "read_elements L t = (APX_NO_ERROR, ?t')"
      using f w0 w(1) t(2) ch ua dy
      by (simp add: read_elements_def Let_def deserializer_unpack_string_def on_state_rd_def state_is_num_or_bool_type_rd_def
          state_is_char_type_rd_def state_init_scalar_value_def init_value_def reading_def at_next_rd_def)
    moreover have "have_read \<alpha> (q + length bs) (DvStr s) t ?t'"
      using w(2) lb by (auto simp: have_read_def holds_value_def intro!: exI [of _ "?st\<lparr>rs_value := Some w\<rparr>"])
    ultimately show "\<exists>t'. read_elements L t = (APX_NO_ERROR, t') \<and> have_read \<alpha> (q + length bs) (DvStr s) t t'"
      by blast
  qed simp_all
qed

lemma unpack_byte_array:
  assumes L: "lib_documented L \<alpha>" and ok: "\<forall>q\<in>set (ds_stack d). open_record \<alpha> q" and q: "\<not> qr_is_active (ds_queue d)"
    and n: "n \<noteq> 0" and ly: "layout (Bytes (unat n) dynamic) (DvBytes bs) = Some ly" and ne: "bs \<noteq> []"
    and p: "at_pos_rd d p" and at: "agrees p ly (rb_data (ds_buffer d))"
  shows "\<exists>d'. unpack_as L APX_TYPE_CODE_BYTE 1 d n (if dynamic then apx_vm_size_to_size_type n else APX_SIZE_TYPE_NONE) =
      (APX_NO_ERROR, d') \<and> unpacked L \<alpha> (p + length ly) (DvBytes bs) d d'"
proof -
  note D = lib_documentedD(4) [OF L]
  have n1: "max (Suc 0) (unat n) = unat n" using n by (auto simp: max_def unat_eq_0 not_le)
  then have al: "array_layout (unat n) dynamic 1 (length bs) bs = Some ly" using ly by simp
  have nb: "unat n < 2 ^ 32" using unsigned_less [of n, where ?'a = nat] by simp
  have sl: "length bs \<le> unat n" and fixed: "\<not> dynamic \<Longrightarrow> length bs = unat n"
    using al by (auto simp: array_layout_def split: if_splits)
  have ul: "unat (word_of_nat (length bs) :: u32) = length bs" using sl nb by (simp add: unat_of_nat)
  show ?thesis
  proof (rule unpack_array [where bs = bs and len = "length bs", OF L ok q n _ _ _ al _ _ _ p at])
    show "data_type APX_TYPE_CODE_BYTE" by (simp add: data_type_def)
    show "length bs \<noteq> 0" using ne by simp
  next
    fix t :: "'a apx_vm_deserializer" and q
    assume t: "ds_state t = array_state_rd d APX_TYPE_CODE_BYTE 1 n dynamic (length bs)" "rb_next (ds_buffer t) = Some q"
      "agrees q (map Some bs) (rb_data (ds_buffer t))"
    note f = array_state_rd_fields [of d APX_TYPE_CODE_BYTE 1 n dynamic "length bs", folded t(1)]
    have ua: "unat (rs_array_len (ds_state t)) = length bs" using f(4) ul fixed by auto
    obtain w0 where w0: "sv_new (lib_d L) = Some w0" using dtl_new(1) [OF D] by blast
    obtain w where w: "sv_set_bytearray_raw (lib_d L) (Some w0) bs = Some w" "\<alpha> w = DvBytes bs"
      using dtl_set_text(2) [OF D] by blast
    let ?st = "(ds_state t)\<lparr>rs_value := Some w0, rs_value_type := DTL_DV_SCALAR\<rparr>"
    let ?t' = "set_next_rd (q + length bs) (t\<lparr>ds_state := ?st\<lparr>rs_value := Some w\<rparr>\<rparr>)"
    have "rs_array_len (ds_state t) \<noteq> 0" using ua ne by auto
    then have "read_elements L t = (APX_NO_ERROR, ?t')"
      using f w0 w(1) t(2,3) ua
      by (simp add: read_elements_def Let_def deserializer_unpack_byte_array_internal_def on_state_rd_def
          state_is_num_or_bool_type_rd_def state_is_char_type_rd_def state_init_scalar_value_def init_value_def reading_def
          at_next_rd_def state_read_byte_array_def agrees_bytes word_gt_0)
    moreover have "have_read \<alpha> (q + length bs) (DvBytes bs) t ?t'"
      using w(2) by (auto simp: have_read_def holds_value_def intro!: exI [of _ "?st\<lparr>rs_value := Some w\<rparr>"])
    ultimately show "\<exists>t'. read_elements L t = (APX_NO_ERROR, t') \<and> have_read \<alpha> (q + length bs) (DvBytes bs) t t'"
      by blast
  qed simp_all
qed

end
