(* ===== verification/UnpackRun.thy ===== *)
theory UnpackRun
  imports PackRun UnpackValues
begin

text \<open>
  The unpack interpreter on the code of a shape: \<open>readable\<close> says which values come back,
  \<open>canon\<close> what they come back as. As for packing there is one lemma per instruction and an
  induction over shapes, \<open>unpack_runs\<close>, that puts them together.
\<close>

section \<open>What can be read back\<close>

text \<open>
  Values that the deserializer reads back from their layout. Fields with limits are excluded
  because their range check runs on the enclosing record; arrays and dynamic texts of length zero
  because the deserializer refuses them.
\<close>

fun readable :: "shape \<Rightarrow> dv \<Rightarrow> bool"
and fields_readable :: "(byte list \<times> shape) list \<Rightarrow> (byte list \<times> dv) list \<Rightarrow> bool" where
  "readable (Num tc lim) v = (lim = None)"
| "readable (NumArray tc lim n dynamic) v = (lim = None \<and> v \<noteq> DvArray [])"
| "readable (Chars tc n dynamic) v = (\<exists>s. v = DvStr s \<and> 0 \<notin> set s \<and> (dynamic \<longrightarrow> s \<noteq> []))"
| "readable (Bytes n dynamic) v = (v \<noteq> DvBytes [])"
| "readable (Rec fs) v = fields_readable fs (the_default [] (hash_items v))"
| "fields_readable [] kvs = True"
| "fields_readable ((name, s) # fs) kvs =
     (readable s (the_default DvNull (map_of kvs name)) \<and> fields_readable fs kvs)"

text \<open>The value that is read back: a record holds its fields in the order of the shape.\<close>

fun canon :: "shape \<Rightarrow> dv \<Rightarrow> dv"
and canon_fields :: "(byte list \<times> shape) list \<Rightarrow> (byte list \<times> dv) list \<Rightarrow> (byte list \<times> dv) list \<Rightarrow> (byte list \<times> dv) list" where
  "canon (Rec fs) v = DvHash (canon_fields fs (the_default [] (hash_items v)) [])"
| "canon _ v = v"
| "canon_fields [] kvs acc = acc"
| "canon_fields ((name, s) # fs) kvs acc =
     canon_fields fs kvs (AList.update name (canon s (the_default DvNull (map_of kvs name))) acc)"

section \<open>Steps\<close>

definition reaches_rd :: "'v lib \<Rightarrow> 'v apx_vm \<Rightarrow> byte list \<Rightarrow> byte list \<Rightarrow> 'v apx_vm_deserializer \<Rightarrow> 'v apx_vm \<Rightarrow> bool" where
  "reaches_rd L m pre rest d m' \<longleftrightarrow>
     run_loop (step_unpack_program L) m = run_loop (step_unpack_program L) m' \<and> at_bytes pre rest (vm_decoder m') \<and>
     vm_deserializer m' = d \<and> vm_program_header m' = vm_program_header m"

lemma reaches_rd_trans:
  "reaches_rd L m p r d m' \<Longrightarrow> reaches_rd L m' p' r' d' m'' \<Longrightarrow> reaches_rd L m p' r' d' m''"
  by (simp add: reaches_rd_def)

lemma pack_opcode_unpack [simp]: "pack_opcode APX_UNPACK_PROGRAM = APX_VM_OPCODE_UNPACK"
  by (simp add: pack_opcode_def)

lemma select_step_rd:
  assumes L: "lib_documented L \<alpha>" and at: "at_bytes pre (select_bytes name lst @ rest) (vm_decoder m)"
    and name: "name \<noteq> []" "0 \<notin> set name"
    and sel: "apx_vm_deserializer_record_select L (vm_deserializer m) name lst = (APX_NO_ERROR, d)"
  shows "\<exists>m'. reaches_rd L m (pre @ select_bytes name lst) rest d m'"
proof -
  note dec = select_decoded [OF lib_documentedD(2,3) [OF L] at name, of "lib_c L"]
  let ?d = "(vm_decoder m)\<lparr>program_next := Some (length pre + length (select_bytes name lst)),
       operation_type := APX_OPERATION_TYPE_RECORD_SELECT, dec_field_name := name, dec_is_last_field := lst\<rparr>"
  let ?m = "m\<lparr>vm_decoder := ?d, vm_deserializer := d\<rparr>"
  have "step_unpack_program L m = (APX_NO_ERROR, True, ?m)"
    by (simp add: step_unpack_program_def dec run_unpack_record_select_def on_deserializer_def sel
        apx_vm_decoder_get_field_name_def apx_vm_decoder_is_last_field_def)
  from run_loop_step [of "step_unpack_program L", OF this] at show ?thesis
    by (intro exI [of _ ?m]) (simp add: reaches_rd_def at_bytes_def)
qed

text \<open>The type code that an unpack operation works with.\<close>

definition read_code :: "apx_typeCode \<Rightarrow> apx_typeCode" where
  "read_code tc = (if tc = APX_TYPE_CODE_CHAR8 then APX_TYPE_CODE_CHAR else tc)"

lemma element_step_rd:
  assumes L: "lib_documented L \<alpha>" and at: "at_bytes pre (element_code (lib_c L) APX_UNPACK_PROGRAM tc n dynamic @ rest) (vm_decoder m)"
    and tc: "type_case_of tc \<noteq> None"
    and pk: "unpack_as L (read_code tc) (num_size tc) (vm_deserializer m) (word_of_nat n)
        (if (word_of_nat n :: u32) > 0 \<and> dynamic then apx_vm_size_to_size_type (word_of_nat n) else APX_SIZE_TYPE_NONE) =
      (APX_NO_ERROR, d)"
  shows "\<exists>m'. reaches_rd L m (pre @ element_code (lib_c L) APX_UNPACK_PROGRAM tc n dynamic) rest d m'"
proof -
  note C = lib_documentedD(1) [OF L]
  from tc obtain c where c: "type_case_of tc = Some c" by blast
  note v = type_of_variant [OF tc]
  let ?code = "element_code (lib_c L) APX_UNPACK_PROGRAM tc n dynamic"
  let ?d = "(vm_decoder m)\<lparr>program_next := Some (length pre + length ?code), operation_type := APX_OPERATION_TYPE_UNPACK,
      pack_unpack_info := \<lparr>info_type_code = tc, info_array_length = word_of_nat n,
        info_is_dynamic_array = ((word_of_nat n :: u32) > 0 \<and> dynamic)\<rparr>\<rparr>"
  have dec: "apx_vm_decoder_parse_next_operation (lib_c L) (lib_t L) (vm_decoder m) =
      (APX_NO_ERROR, Some APX_OPERATION_TYPE_UNPACK, ?d)"
    using element_decoded [OF C at [unfolded element_code_def], where ty = APX_OPERATION_TYPE_UNPACK and T = "lib_t L"] v
    by (simp add: element_code_def)
  let ?m = "m\<lparr>vm_decoder := ?d, vm_deserializer := d\<rparr>"
  have "run_unpack_instruction L (m\<lparr>vm_decoder := ?d\<rparr>) = (APX_NO_ERROR, ?m)"
    using c pk
    by (cases tc) (auto simp: run_unpack_instruction_def apx_vm_decoder_get_pack_unpack_info_def dynamic_size_type_of_def
      on_deserializer_def num_size_def read_code_def Let_def apx_vm_deserializer_unpack_uint8_def apx_vm_deserializer_unpack_uint16_def
      apx_vm_deserializer_unpack_uint32_def apx_vm_deserializer_unpack_uint64_def apx_vm_deserializer_unpack_int8_def
      apx_vm_deserializer_unpack_int16_def apx_vm_deserializer_unpack_int32_def apx_vm_deserializer_unpack_int64_def
      apx_vm_deserializer_unpack_char_def apx_vm_deserializer_unpack_char8_def apx_vm_deserializer_unpack_bool_def
      apx_vm_deserializer_unpack_byte_def)
  then have "step_unpack_program L m = (APX_NO_ERROR, True, ?m)"
    by (simp add: step_unpack_program_def dec)
  from run_loop_step [of "step_unpack_program L", OF this] at show ?thesis
    by (intro exI [of _ ?m]) (simp add: reaches_rd_def at_bytes_def)
qed

section \<open>Leaves\<close>

text \<open>The situation in which an element is read.\<close>

definition reading_at :: "('v \<Rightarrow> dv) \<Rightarrow> 'v apx_vm_deserializer \<Rightarrow> nat \<Rightarrow> layout \<Rightarrow> bool" where
  "reading_at \<alpha> d p ly \<longleftrightarrow> (\<forall>q\<in>set (ds_stack d). open_record \<alpha> q) \<and> \<not> qr_is_active (ds_queue d) \<and>
     at_pos_rd d p \<and> agrees p ly (rb_data (ds_buffer d))"

lemma leaf_read:
  assumes L: "lib_documented L \<alpha>" and wf: "wf_shape sh" and leaf: "\<nexists>fs. sh = Rec fs"
    and ly: "layout sh v = Some ly" and rd: "readable sh v"
    and at: "at_bytes pre (code (lib_c L) APX_UNPACK_PROGRAM sh @ rest) (vm_decoder m)"
    and d: "reading_at \<alpha> (vm_deserializer m) p ly"
  shows "\<exists>d' m'. reaches_rd L m (pre @ code (lib_c L) APX_UNPACK_PROGRAM sh) rest d' m' \<and>
    unpacked L \<alpha> (p + length ly) (canon sh v) (vm_deserializer m) d'"
proof -
  let ?d = "vm_deserializer m"
  have d': "\<forall>q\<in>set (ds_stack ?d). open_record \<alpha> q" "\<not> qr_is_active (ds_queue ?d)" "at_pos_rd ?d p"
    "agrees p ly (rb_data (ds_buffer ?d))" using d by (auto simp: reading_at_def)
  have step: ?thesis
    if "code (lib_c L) APX_UNPACK_PROGRAM sh = element_code (lib_c L) APX_UNPACK_PROGRAM tc n dynamic"
      and "int_type tc \<noteq> None \<or> tc = APX_TYPE_CODE_BOOL \<or> tc = APX_TYPE_CODE_CHAR \<or> tc = APX_TYPE_CODE_CHAR8 \<or> tc = APX_TYPE_CODE_BYTE"
      and "canon sh v = v"
      and "\<exists>d'. unpack_as L (read_code tc) (num_size tc) ?d (word_of_nat n)
        (if (word_of_nat n :: u32) > 0 \<and> dynamic then apx_vm_size_to_size_type (word_of_nat n) else APX_SIZE_TYPE_NONE) =
        (APX_NO_ERROR, d') \<and> unpacked L \<alpha> (p + length ly) v ?d d'" for tc n dynamic
    using element_step_rd [OF L at [unfolded that(1)] element_type [OF that(2)]] that by metis
  have rc: "int_type tc \<noteq> None \<or> tc = APX_TYPE_CODE_BOOL \<Longrightarrow> read_code tc = tc" for tc
    by (auto simp: read_code_def)
  show ?thesis
  proof (cases sh)
    case (Num tc lim)
    with ly obtain bs where bs: "num_bytes tc lim v = Some bs" "ly = map Some bs" by auto
    with d' unpack_num [OF L d'(1,2) bs(1) d'(3)] Num wf rd rc [of tc] show ?thesis
      by (intro step [of tc 0 False]) (auto simp: with_limits_def)
  next
    case (NumArray tc lim n dynamic)
    with wf have n: "0 < n" "n < 2 ^ 32" and tc: "int_type tc \<noteq> None \<or> tc = APX_TYPE_CODE_BOOL" by auto
    have nn: "(word_of_nat n :: u32) \<noteq> 0" "unat (word_of_nat n :: u32) = n"
      using length_nonzero [OF n] unat_length [OF n(2)] by auto
    from unpack_num_array [OF L d'(1,2) tc nn(1) _ _ d'(3,4), of lim dynamic v] NumArray ly rd nn rc [OF tc] tc
    show ?thesis by (intro step [of tc n dynamic]) (auto simp: with_limits_def word_gt_0)
  next
    case (Chars tc n dynamic)
    with wf have n: "0 < n" "n < 2 ^ 32" and tc: "tc = APX_TYPE_CODE_CHAR \<or> tc = APX_TYPE_CODE_CHAR8" by auto
    have nn: "(word_of_nat n :: u32) \<noteq> 0" "unat (word_of_nat n :: u32) = n"
      using length_nonzero [OF n] unat_length [OF n(2)] by auto
    from rd Chars obtain s where s: "v = DvStr s" "0 \<notin> set s" "dynamic \<Longrightarrow> s \<noteq> []" by auto
    from unpack_text [OF L d'(1,2) nn(1) _ s(2,3) d'(3,4), of tc dynamic] Chars ly nn s(1) tc
    show ?thesis by (intro step [of tc n dynamic]) (auto simp: word_gt_0 read_code_def num_size_def)
  next
    case (Bytes n dynamic)
    with ly obtain b where v: "v = DvBytes b" by (cases v) auto
    show ?thesis
    proof (cases "n = 0")
      case True
      with Bytes wf ly v obtain c where "b = [c]" "ly = [Some c]"
        by (cases b) (auto simp: array_layout_def split: if_splits)
      with unpack_byte [OF L d'(1-3), of c] d'(4) Bytes True v show ?thesis
        by (intro step [of APX_TYPE_CODE_BYTE 0 dynamic]) (auto simp: read_code_def num_size_def)
    next
      case False
      with Bytes wf have n: "0 < n" "n < 2 ^ 32" by auto
      have nn: "(word_of_nat n :: u32) \<noteq> 0" "unat (word_of_nat n :: u32) = n"
        using length_nonzero [OF n] unat_length [OF n(2)] by auto
      from unpack_byte_array [OF L d'(1,2) nn(1) _ _ d'(3,4), of dynamic b] Bytes ly nn v rd show ?thesis
        by (intro step [of APX_TYPE_CODE_BYTE n dynamic]) (auto simp: word_gt_0 read_code_def num_size_def)
    qed
  qed (use leaf in auto)
qed

section \<open>Records\<close>

text \<open>A deserializer whose current state is a record under construction.\<close>

definition building :: "('v \<Rightarrow> dv) \<Rightarrow> 'v apx_vm_deserializer \<Rightarrow> (byte list \<times> dv) list \<Rightarrow> bool" where
  "building \<alpha> d kvs \<longleftrightarrow> rs_type_code (ds_state d) = APX_TYPE_CODE_RECORD \<and> holds_value \<alpha> (ds_state d) (DvHash kvs)"

lemma record_step_rd:
  assumes L: "lib_documented L \<alpha>"
    and at: "at_bytes pre (element_bytes (lib_c L) (pack_opcode APX_UNPACK_PROGRAM) APX_VM_VARIANT_RECORD 0 False @ rest) (vm_decoder m)"
    and d: "reading_at \<alpha> (vm_deserializer m) p ly"
  shows "\<exists>m' d'. reaches_rd L m (pre @ element_bytes (lib_c L) (pack_opcode APX_UNPACK_PROGRAM) APX_VM_VARIANT_RECORD 0 False) rest d' m' \<and>
    building \<alpha> d' [] \<and> reading_at \<alpha> d' p ly \<and> rb_data (ds_buffer d') = rb_data (ds_buffer (vm_deserializer m)) \<and>
    ds_queue d' = ds_queue (vm_deserializer m) \<and> ds_stack d' = ds_stack (vm_deserializer m) \<and>
    ds_free d' = ds_free (vm_deserializer m)"
proof -
  note C = lib_documentedD(1) [OF L] and D = lib_documentedD(4) [OF L]
  have p: "at_pos_rd (vm_deserializer m) p" and q: "\<not> qr_is_active (ds_queue (vm_deserializer m))"
    using d by (auto simp: reading_at_def)
  obtain w where w: "hv_new (lib_d L) = Some w" "\<alpha> w = DvHash []" using dtl_new(3) [OF D] by blast
  let ?c = "element_bytes (lib_c L) APX_VM_OPCODE_UNPACK APX_VM_VARIANT_RECORD 0 False"
  let ?d = "prepared_rd (vm_deserializer m) p APX_TYPE_CODE_RECORD 0"
  let ?d' = "?d\<lparr>ds_state := (ds_state ?d)\<lparr>rs_value := Some w, rs_value_type := DTL_DV_HASH\<rparr>\<rparr>"
  have st: "rs_type_code (ds_state ?d) = APX_TYPE_CODE_RECORD" "rs_value_type (ds_state ?d) = DTL_DV_NULL"
    "rs_array_len (ds_state ?d) = 0" "rs_dynamic_size_type (ds_state ?d) = APX_SIZE_TYPE_NONE" "ds_queue ?d = ds_queue (vm_deserializer m)"
    by (simp_all add: prepared_rd_def state_set_type_and_size_def state_reset_rd_def state_clear_value_rd_def)
  have pk: "unpack_as L APX_TYPE_CODE_RECORD 0 (vm_deserializer m) 0 APX_SIZE_TYPE_NONE = (APX_NO_ERROR, ?d')"
    using st w(1) q prepare_read [OF p, of APX_TYPE_CODE_RECORD 0]
    by (simp add: unpack_as_def deserializer_unpack_value_def deserializer_prepare_for_array_def Let_def
        queued_read_state_is_active_def unpack_without_elements_def state_is_num_or_bool_type_rd_def
        state_is_byte_type_def state_is_record_type_rd_def deserializer_unpack_record_value_def on_state_rd_def
        state_init_hash_value_def init_value_def)
  let ?dec = "(vm_decoder m)\<lparr>program_next := Some (length pre + length ?c), operation_type := APX_OPERATION_TYPE_UNPACK,
      pack_unpack_info := \<lparr>info_type_code = APX_TYPE_CODE_RECORD, info_array_length = 0, info_is_dynamic_array = False\<rparr>\<rparr>"
  have tc: "apx_vm_variant_to_type_code APX_VM_VARIANT_RECORD = APX_TYPE_CODE_RECORD"
    by (simp add: apx_vm_variant_to_type_code_def)
  have dec: "apx_vm_decoder_parse_next_operation (lib_c L) (lib_t L) (vm_decoder m) =
      (APX_NO_ERROR, Some APX_OPERATION_TYPE_UNPACK, ?dec)"
    using element_decoded [OF C at [simplified], where ty = APX_OPERATION_TYPE_UNPACK and T = "lib_t L"] tc by simp
  let ?m = "m\<lparr>vm_decoder := ?dec, vm_deserializer := ?d'\<rparr>"
  have "step_unpack_program L m = (APX_NO_ERROR, True, ?m)"
    using pk by (simp add: step_unpack_program_def dec run_unpack_instruction_def apx_vm_decoder_get_pack_unpack_info_def
        dynamic_size_type_of_def on_deserializer_def apx_vm_deserializer_unpack_record_def save_position_of_array_def)
  from run_loop_step [of "step_unpack_program L", OF this] at d p w st
  show ?thesis
    by (intro exI [of _ ?m] exI [of _ ?d'])
      (auto simp: reaches_rd_def at_bytes_def building_def holds_value_def reading_at_def prepared_rd_def at_pos_rd_def)
qed

lemma field_selected_rd:
  assumes L: "lib_documented L \<alpha>" and b: "building \<alpha> d kvs" and name: "name \<noteq> []" "0 \<notin> set name" and free: "ds_free d = Suc f"
  shows "\<exists>d' st. apx_vm_deserializer_record_select L d name lst = (APX_NO_ERROR, d') \<and>
    ds_buffer d' = ds_buffer d \<and> ds_queue d' = ds_queue d \<and> ds_stack d' = st # ds_stack d \<and> ds_free d' = f \<and>
    open_record \<alpha> st \<and> holds_value \<alpha> st (DvHash kvs) \<and> rs_field_name st = name \<and> rs_is_last_field st = lst"
proof -
  let ?st = "(ds_state d)\<lparr>rs_is_last_field := lst, rs_field_name := name\<rparr>"
  let ?d = "d\<lparr>ds_stack := ?st # ds_stack d, ds_state := state_create, ds_free := f\<rparr>"
  have k: "rs_value_type (ds_state d) = DTL_DV_HASH" using b by (auto simp: building_def holds_value_def)
  have "apx_vm_deserializer_record_select L d name lst = (APX_NO_ERROR, ?d)"
    using k name free
    by (simp add: apx_vm_deserializer_record_select_def on_state_rd_def state_set_field_name_rd_def Let_def
        str_set_stores(2) [OF lib_documentedD(3) [OF L]] deserializer_enter_new_child_state_def)
  moreover have "holds_value \<alpha> ?st (DvHash kvs)" using b by (auto simp: building_def holds_value_def)
  then have "open_record \<alpha> ?st" using b name(1) by (auto simp: open_record_def building_def)
  ultimately show ?thesis using \<open>holds_value \<alpha> ?st (DvHash kvs)\<close> by (intro exI [of _ ?d] exI [of _ ?st]) simp
qed

text \<open>A field that has been read goes into the record it was selected in.\<close>

lemma field_merged:
  assumes L: "lib_documented L \<alpha>" and st: "open_record \<alpha> st" "holds_value \<alpha> st (DvHash kvs)" "rs_field_name st = name"
    and d1: "ds_stack d1 = st # ds_stack d" "Suc (ds_free d1) = ds_free d" "ds_queue d1 = ds_queue d" "rb_data (ds_buffer d1) = rb_data (ds_buffer d)"
    and u: "unpacked L \<alpha> p v d1 d2"
  shows "rs_is_last_field st \<Longrightarrow> unpacked L \<alpha> p (DvHash (AList.update name v kvs)) d d2"
    and "\<not> rs_is_last_field st \<Longrightarrow> building \<alpha> d2 (AList.update name v kvs) \<and> ds_stack d2 = ds_stack d \<and>
      ds_free d2 = ds_free d \<and> ds_queue d2 = ds_queue d \<and> rb_data (ds_buffer d2) = rb_data (ds_buffer d) \<and> at_pos_rd d2 p"
proof -
  note D = lib_documentedD(4) [OF L]
  obtain c where c: "holds_value \<alpha> c v"
    "(APX_NO_ERROR, ds_stack d2, ds_state d2, ds_free d2) = merge_states (lib_d L) (st # ds_stack d) c (ds_free d1)"
    using u d1(1) by (auto simp: unpacked_def)
  obtain w kvs' where m: "state_create_child_value_from_child_state (lib_d L) st c = (APX_NO_ERROR, st\<lparr>rs_value := Some w\<rparr>)"
    "holds_value \<alpha> st (DvHash kvs')" "\<alpha> w = DvHash (AList.update name v kvs')"
    using child_merged [OF D st(1) c(1)] st(3) by blast
  have "kvs' = kvs" using st(2) m(2) by (auto simp: holds_value_def)
  with m have h: "holds_value \<alpha> (st\<lparr>rs_value := Some w\<rparr>) (DvHash (AList.update name v kvs))"
    by (simp add: holds_value_def)
  have t: "rs_type_code st = APX_TYPE_CODE_RECORD" "rs_value_type st = DTL_DV_HASH"
    using st(1,2) by (auto simp: open_record_def holds_value_def)
  have same: "rb_data (ds_buffer d2) = rb_data (ds_buffer d)" "at_pos_rd d2 p" "ds_queue d2 = ds_queue d"
    using u d1 by (auto simp: unpacked_def)
  show "unpacked L \<alpha> p (DvHash (AList.update name v kvs)) d d2" if "rs_is_last_field st"
    using that c(2) t m(1) same h d1(2) by (auto simp: unpacked_def)
  show "building \<alpha> d2 (AList.update name v kvs) \<and> ds_stack d2 = ds_stack d \<and>
      ds_free d2 = ds_free d \<and> ds_queue d2 = ds_queue d \<and> rb_data (ds_buffer d2) = rb_data (ds_buffer d) \<and> at_pos_rd d2 p"
    if "\<not> rs_is_last_field st"
    using that c(2) t m(1) same h d1(2) by (auto simp: building_def)
qed

lemma unpack_runs:
  assumes L: "lib_documented L \<alpha>"
  shows "wf_shape sh \<Longrightarrow> layout sh v = Some ly \<Longrightarrow> readable sh v \<Longrightarrow>
      at_bytes pre (code (lib_c L) APX_UNPACK_PROGRAM sh @ rest) (vm_decoder m) \<Longrightarrow>
      reading_at \<alpha> (vm_deserializer m) p ly \<Longrightarrow> depth sh \<le> ds_free (vm_deserializer m) \<Longrightarrow>
      \<exists>d' m'. reaches_rd L m (pre @ code (lib_c L) APX_UNPACK_PROGRAM sh) rest d' m' \<and>
        unpacked L \<alpha> (p + length ly) (canon sh v) (vm_deserializer m) d'"
    and "wf_fields fs \<Longrightarrow> fs \<noteq> [] \<Longrightarrow> fields_layout fs kvs = Some ly \<Longrightarrow> fields_readable fs kvs \<Longrightarrow>
      at_bytes pre (fields_code (lib_c L) APX_UNPACK_PROGRAM fs @ rest) (vm_decoder m) \<Longrightarrow>
      reading_at \<alpha> (vm_deserializer m) p ly \<Longrightarrow> building \<alpha> (vm_deserializer m) acc \<Longrightarrow>
      fields_depth fs < ds_free (vm_deserializer m) \<Longrightarrow>
      \<exists>d' m'. reaches_rd L m (pre @ fields_code (lib_c L) APX_UNPACK_PROGRAM fs) rest d' m' \<and>
        unpacked L \<alpha> (p + length ly) (DvHash (canon_fields fs kvs acc)) (vm_deserializer m) d'"
proof (induction sh and fs arbitrary: v ly pre rest m p and kvs ly pre rest m p acc rule: wf_shape_wf_fields.induct)
  case (5 fs)
  let ?d = "vm_deserializer m" and ?r = "element_bytes (lib_c L) (pack_opcode APX_UNPACK_PROGRAM) APX_VM_VARIANT_RECORD 0 False"
    and ?f = "fields_code (lib_c L) APX_UNPACK_PROGRAM fs"
  obtain kvs where v: "v = DvHash kvs" and ly: "fields_layout fs kvs = Some ly"
    using "5.prems"(2) by (cases v) auto
  obtain m1 d1 where m1: "reaches_rd L m (pre @ ?r) (?f @ rest) d1 m1" and b: "building \<alpha> d1 []" "reading_at \<alpha> d1 p ly"
    and same: "rb_data (ds_buffer d1) = rb_data (ds_buffer ?d)" "ds_queue d1 = ds_queue ?d" "ds_stack d1 = ds_stack ?d"
      "ds_free d1 = ds_free ?d"
    using record_step_rd [OF L _ "5.prems"(5), of pre "?f @ rest"] "5.prems"(4) by auto
  then have at1: "at_bytes (pre @ ?r) (?f @ rest) (vm_decoder m1)" and e1: "vm_deserializer m1 = d1"
    by (auto simp: reaches_rd_def)
  have "\<exists>d' m'. reaches_rd L m1 ((pre @ ?r) @ ?f) rest d' m' \<and>
      unpacked L \<alpha> (p + length ly) (DvHash (canon_fields fs kvs [])) (vm_deserializer m1) d'"
    using "5.prems" v ly at1 b same by (intro "5.IH") (auto simp: e1)
  then obtain d' m' where m': "reaches_rd L m1 ((pre @ ?r) @ ?f) rest d' m'"
    and u: "unpacked L \<alpha> (p + length ly) (DvHash (canon_fields fs kvs [])) d1 d'" using e1 by auto
  from u same have "unpacked L \<alpha> (p + length ly) (canon (Rec fs) v) ?d d'" by (simp add: unpacked_def v)
  with reaches_rd_trans [OF m1 m'] show ?case by auto
next
  case 6
  then show ?case by simp
next
  case (7 name sh fs)
  let ?d = "vm_deserializer m" and ?sel = "select_bytes name (fs = [])" and ?c = "code (lib_c L) APX_UNPACK_PROGRAM sh"
    and ?f = "fields_code (lib_c L) APX_UNPACK_PROGRAM fs"
  obtain x a b where x: "map_of kvs name = Some x" and a: "layout sh x = Some a" and b: "fields_layout fs kvs = Some b"
    and ly: "ly = a @ b"
    using "7.prems"(3) by (auto split: option.splits)
  obtain f where f: "ds_free ?d = Suc f" using "7.prems"(8) by (cases "ds_free ?d") auto
  have name: "name \<noteq> []" "0 \<notin> set name" using "7.prems"(1) by auto
  obtain d1 st where d1: "apx_vm_deserializer_record_select L ?d name (fs = []) = (APX_NO_ERROR, d1)"
    and same: "ds_buffer d1 = ds_buffer ?d" "ds_queue d1 = ds_queue ?d" "ds_stack d1 = st # ds_stack ?d" "ds_free d1 = f"
    and st: "open_record \<alpha> st" "holds_value \<alpha> st (DvHash acc)" "rs_field_name st = name" "rs_is_last_field st = (fs = [])"
    using field_selected_rd [OF L "7.prems"(7) name f] by blast
  have "at_bytes pre (?sel @ ?c @ ?f @ rest) (vm_decoder m)" using "7.prems"(5) by simp
  from select_step_rd [OF L this name d1] obtain m1 where m1: "reaches_rd L m (pre @ ?sel) (?c @ ?f @ rest) d1 m1" by blast
  then have at1: "at_bytes (pre @ ?sel) (?c @ ?f @ rest) (vm_decoder m1)" and e1: "vm_deserializer m1 = d1"
    by (auto simp: reaches_rd_def)
  have r1: "reading_at \<alpha> d1 p a" and ag: "agrees (p + length a) b (rb_data (ds_buffer ?d))"
    using "7.prems"(6) same st(1) ly by (auto simp: reading_at_def at_pos_rd_def agrees_append)
  have "\<exists>d' m'. reaches_rd L m1 ((pre @ ?sel) @ ?c) (?f @ rest) d' m' \<and>
      unpacked L \<alpha> (p + length a) (canon sh x) (vm_deserializer m1) d'"
    using "7.prems" a at1 r1 same f x by (intro "7.IH"(1)) (auto simp: e1)
  then obtain d2 m2 where m2: "reaches_rd L m1 ((pre @ ?sel) @ ?c) (?f @ rest) d2 m2"
    and u: "unpacked L \<alpha> (p + length a) (canon sh x) d1 d2" using e1 by auto
  note m2' = reaches_rd_trans [OF m1 m2]
  have "Suc (ds_free d1) = ds_free ?d" "rb_data (ds_buffer d1) = rb_data (ds_buffer ?d)" using same f by auto
  note merged = field_merged [OF L st(1-3) same(3) this(1) same(2) this(2) u]
  show ?case
  proof (cases "fs = []")
    case True
    with merged(1) st(4) ly b x have "unpacked L \<alpha> (p + length ly) (DvHash (canon_fields ((name, sh) # fs) kvs acc)) ?d d2"
      by simp
    with m2' True show ?thesis by auto
  next
    case False
    from m2 have at2: "at_bytes ((pre @ ?sel) @ ?c) (?f @ rest) (vm_decoder m2)" and e2: "vm_deserializer m2 = d2"
      by (auto simp: reaches_rd_def)
    let ?acc = "AList.update name (canon sh x) acc"
    from merged(2) st(4) False have d2: "building \<alpha> d2 ?acc" "ds_stack d2 = ds_stack ?d" "ds_free d2 = ds_free ?d"
      "ds_queue d2 = ds_queue ?d" "rb_data (ds_buffer d2) = rb_data (ds_buffer ?d)" "at_pos_rd d2 (p + length a)" by auto
    have r2: "reading_at \<alpha> d2 (p + length a) b" using "7.prems"(6) d2 ag by (auto simp: reading_at_def)
    have "\<exists>d' m'. reaches_rd L m2 (((pre @ ?sel) @ ?c) @ ?f) rest d' m' \<and>
        unpacked L \<alpha> (p + length a + length b) (DvHash (canon_fields fs kvs ?acc)) (vm_deserializer m2) d'"
      using "7.prems" False b at2 d2 r2 by (intro "7.IH"(2)) (auto simp: e2)
    then obtain d3 m3 where "reaches_rd L m2 (((pre @ ?sel) @ ?c) @ ?f) rest d3 m3"
      and u3: "unpacked L \<alpha> (p + length a + length b) (DvHash (canon_fields fs kvs ?acc)) d2 d3"
      using e2 by auto
    from reaches_rd_trans [OF m2' this(1)]
    have "reaches_rd L m (pre @ fields_code (lib_c L) APX_UNPACK_PROGRAM ((name, sh) # fs)) rest d3 m3" by simp
    moreover have "unpacked L \<alpha> (p + length ly) (DvHash (canon_fields ((name, sh) # fs) kvs acc)) ?d d3"
      using u3 d2 ly x by (simp add: unpacked_def add.assoc)
    ultimately show ?thesis by blast
  qed
qed (rule leaf_read [OF L]; auto)+

end
