(* ===== verification/UnpackLimits.thy ===== *)
theory UnpackLimits
  imports UnpackRun
begin

text \<open>
  The limit instruction of unpack programs, which runs after the value has been read, on the
  current state of the deserializer: \<open>limits_step_rd\<close> takes the machine over it,
  \<open>number_checked\<close> and \<open>numbers_checked\<close> say what the range checks decide.
\<close>

section \<open>The limit instruction\<close>

text \<open>The range check of the deserializer that a limit instruction for a type code runs.\<close>

definition range_check_rd :: "'v lib \<Rightarrow> apx_typeCode \<Rightarrow> int \<Rightarrow> int \<Rightarrow> 'v apx_vm_deserializer \<Rightarrow>
    apx_error \<times> 'v apx_vm_deserializer" where
  "range_check_rd L tc lo hi d = (case int_type tc of
     Some (n, sg) \<Rightarrow>
       if n = 8 then (if sg then apx_vm_deserializer_check_value_range_int64 L d (word_of_int lo) (word_of_int hi)
                      else apx_vm_deserializer_check_value_range_uint64 L d (word_of_int lo) (word_of_int hi))
       else (if sg then apx_vm_deserializer_check_value_range_int32 L d (word_of_int lo) (word_of_int hi)
             else apx_vm_deserializer_check_value_range_uint32 L d (word_of_int lo) (word_of_int hi))
   | None \<Rightarrow> (APX_NO_ERROR, d))"

lemma limits_step_rd:
  assumes L: "lib_documented L \<alpha>" and tc: "int_type tc \<noteq> None" and lim: "wf_limits tc (Some (lo, hi))"
    and at: "at_bytes pre (limits_code (lib_c L) tc arr (Some (lo, hi)) @ rest) (vm_decoder m)"
    and chk: "range_check_rd L tc lo hi (vm_deserializer m) = (e, d')"
  shows "\<exists>m'. step_unpack_program L m = (e, True, m') \<and> vm_deserializer m' = d' \<and>
    at_bytes (pre @ limits_code (lib_c L) tc arr (Some (lo, hi))) rest (vm_decoder m') \<and>
    vm_program_header m' = vm_program_header m"
proof -
  note C = lib_documentedD(1) [OF L]
  obtain n sg where t: "int_type tc = Some (n, sg)" using tc by auto
  with lim have fit: "int_fits n sg lo" "int_fits n sg hi" by (auto simp: wf_limits_def)
  let ?c = "limits_code (lib_c L) tc arr (Some (lo, hi))"
  define d where "d = snd (snd (apx_vm_decoder_parse_next_operation (lib_c L) (lib_t L) (vm_decoder m)))"
  let ?m = "m\<lparr>vm_decoder := d, vm_deserializer := d'\<rparr>"
  have goal: ?thesis
    if "step_unpack_program L m = (e, True, ?m)" "at_bytes (pre @ ?c) rest d"
    using that by (intro exI [of _ ?m]) simp
  from t show ?thesis
  proof (cases rule: int_type_cases)
    case u32
    define lv v where "lv = tc_limit_variant (the (type_case_of tc))" and "v = variant_of tc"
    with u32 t have lv: "unsigned_limit lv v" "n = apx_vm_variant_to_size v"
      and c: "?c = limit_bytes lv arr (packLE (lib_c L) (word_of_int lo) n) (packLE (lib_c L) (word_of_int hi) n)"
      by (auto simp: unsigned_limit_def apx_vm_variant_to_size_def variant_values)
    have "apx_vm_deserializer_check_value_range_uint32 L (vm_deserializer m) (word_of_int lo) (word_of_int hi) = (e, d')"
      using chk t u32 by (auto simp: range_check_rd_def)
    moreover have "int_fits n False lo" "int_fits n False hi" using fit u32(2) by auto
    then have f: "unat (word_of_int lo :: u32) < 256 ^ n" "unat (word_of_int hi :: u32) < 256 ^ n"
      using u32(3) by (auto intro: fits_unat)
    note dec = uint32_limits_decoded [OF C lv f at [unfolded c], of "lib_t L"]
    ultimately show ?thesis
      by (intro goal; use at c in \<open>simp add: d_def step_unpack_program_def dec run_range_check_unpack_uint32_def on_deserializer_def
          apx_vm_decoder_range_check_info_uint32_def at_bytes_def\<close>)
  next
    case i32
    define lv v where "lv = tc_limit_variant (the (type_case_of tc))" and "v = variant_of tc"
    with i32 t have lv: "signed_limit lv v" "n = apx_vm_variant_to_size v"
      and c: "?c = limit_bytes lv arr (packLE (lib_c L) (word_of_int lo) n) (packLE (lib_c L) (word_of_int hi) n)"
      by (auto simp: signed_limit_def apx_vm_variant_to_size_def variant_values)
    have "apx_vm_deserializer_check_value_range_int32 L (vm_deserializer m) (word_of_int lo) (word_of_int hi) = (e, d')"
      using chk t i32 by (auto simp: range_check_rd_def)
    moreover have f: "signed_fits v (word_of_int lo)" "signed_fits v (word_of_int hi)"
      using fit i32 t fits_signed by (auto simp: signed_fits_def v_def variant_values)
    note dec = int32_limits_decoded [OF C lv f at [unfolded c], of "lib_t L"]
    ultimately show ?thesis
      by (intro goal; use at c in \<open>simp add: d_def step_unpack_program_def dec run_range_check_unpack_int32_def on_deserializer_def
          apx_vm_decoder_range_check_info_int32_def at_bytes_def\<close>)
  next
    case u64
    then have c: "?c = limit_bytes APX_VM_VARIANT_LIMIT_CHECK_U64 arr (packLE64 (lib_c L) (word_of_int lo) 8) (packLE64 (lib_c L) (word_of_int hi) 8)"
      by simp
    note dec = uint64_limits_decoded [OF C at [unfolded c], of "lib_t L"]
    show ?thesis
      by (rule goal; use at chk c u64 in \<open>simp add: d_def step_unpack_program_def dec run_range_check_unpack_uint64_def
          on_deserializer_def apx_vm_decoder_range_check_info_uint64_def at_bytes_def range_check_rd_def\<close>)
  next
    case i64
    then have c: "?c = limit_bytes APX_VM_VARIANT_LIMIT_CHECK_S64 arr (packLE64 (lib_c L) (word_of_int lo) 8) (packLE64 (lib_c L) (word_of_int hi) 8)"
      by simp
    note dec = int64_limits_decoded [OF C at [unfolded c], of "lib_t L"]
    show ?thesis
      by (rule goal; use at chk c i64 in \<open>simp add: d_def step_unpack_program_def dec run_range_check_unpack_int64_def
          on_deserializer_def apx_vm_decoder_range_check_info_int64_def at_bytes_def range_check_rd_def\<close>)
  qed
qed

section \<open>What the range checks decide\<close>

text \<open>
  The limits for which the check of the deserializer decides membership in the interval: its 32 bit
  unsigned check compares signed numbers, its 64 bit unsigned check converts to a signed number, and its 64 bit
  checks read array elements as 32 bit numbers.
\<close>

definition check_exact :: "apx_typeCode \<Rightarrow> bool \<Rightarrow> int \<Rightarrow> int \<Rightarrow> bool" where
  "check_exact tc arr lo hi = (case int_type tc of
     Some (n, sg) \<Rightarrow> lo \<le> hi \<and> (if n = 8 then \<not> arr \<and> (sg \<or> hi < 2 ^ 63) else sg \<or> hi < 2 ^ 31)
   | None \<Rightarrow> False)"

definition range_result :: "bool \<Rightarrow> apx_error" where
  "range_result ok = (if ok then APX_NO_ERROR else APX_VALUE_RANGE_ERROR)"

lemma range_results:
  "apx_vm_value_in_range_i32 v lo hi = range_result (sint lo \<le> sint v \<and> sint v \<le> sint hi)"
  "apx_vm_value_in_range_i64 x l h = range_result (sint l \<le> sint x \<and> sint x \<le> sint h)"
  "apx_vm_value_in_range_u64 x l h = range_result (l \<le> x \<and> x \<le> h)"
  using range_i32_spec [of v lo hi] range_i64_spec [of x l h] range_u64_spec [of x l h]
  by (auto simp: range_result_def apx_vm_value_in_range_i32_def apx_vm_value_in_range_i64_def apx_vm_value_in_range_u64_def)

lemma u32_as_signed:
  assumes i: "int_fits n False i" "int_fits n False lo" "int_fits n False hi" "n = 1 \<or> n = 2 \<or> n = 4" and hi: "lo \<le> hi" "hi < 2 ^ 31"
  shows "sint (word_of_int lo :: u32) \<le> sint (word_of_int i :: u32) \<and> sint (word_of_int i :: u32) \<le> sint (word_of_int hi :: u32) \<longleftrightarrow>
    lo \<le> i \<and> i \<le> hi"
proof -
  have s: "sint (word_of_int k :: u32) = (if k < 2 ^ 31 then k else k - 2 ^ 32)" if "0 \<le> k" "k < 2 ^ 32" for k
  proof (cases "k < 2 ^ 31")
    case True
    with that show ?thesis by (simp add: sint_sbintrunc' signed_take_bit_int_eq_self)
  next
    case False
    have "sint (word_of_int k :: u32) = sint (word_of_int (k - 2 ^ 32) :: u32)"
      by (intro arg_cong [where f = sint]) (simp add: word_of_int_eq_iff)
    also have "\<dots> = k - 2 ^ 32" using False that unfolding sint_sbintrunc'
      by (intro signed_take_bit_int_eq_self) simp_all
    finally show ?thesis using False by simp
  qed
  have b: "0 \<le> k \<and> k < 2 ^ 32" if "int_fits n False k" for k using that i(4) by (auto simp: int_fits_def)
  show ?thesis using s [of i] s [of lo] s [of hi] b [OF i(1)] b [OF i(2)] b [OF i(3)] hi by (auto split: if_splits)
qed

text \<open>A number is converted to the union as the check of its type wants it.\<close>

lemma store_checked:
  assumes D: "dtl_documented D \<alpha>" and t: "int_type tc = Some (n, sg)" and i: "int_fits n sg i" "\<alpha> w = DvInt i"
    and fit: "int_fits n sg lo" "int_fits n sg hi" and ex: "check_exact tc False lo hi"
  shows "sg \<Longrightarrow> n \<noteq> 8 \<Longrightarrow> \<exists>u. state_store_scalar_value D st (Some w) APX_TYPE_CODE_INT32 =
      (APX_NO_ERROR, st\<lparr>rs_scalar_value := u, rs_scalar_storage_type := APX_VM_SCALAR_STORAGE_TYPE_INT32\<rparr>) \<and>
      apx_vm_value_in_range_i32 (get32 u) (word_of_int lo) (word_of_int hi) = range_result (lo \<le> i \<and> i \<le> hi)"
    and "\<not> sg \<Longrightarrow> n \<noteq> 8 \<Longrightarrow> \<exists>u. state_store_scalar_value D st (Some w) APX_TYPE_CODE_UINT32 =
      (APX_NO_ERROR, st\<lparr>rs_scalar_value := u, rs_scalar_storage_type := APX_VM_SCALAR_STORAGE_TYPE_UINT32\<rparr>) \<and>
      apx_vm_value_in_range_i32 (get32 u) (word_of_int lo) (word_of_int hi) = range_result (lo \<le> i \<and> i \<le> hi)"
    and "sg \<Longrightarrow> n = 8 \<Longrightarrow> \<exists>u. state_store_scalar_value D st (Some w) APX_TYPE_CODE_INT64 =
      (APX_NO_ERROR, st\<lparr>rs_scalar_value := u, rs_scalar_storage_type := APX_VM_SCALAR_STORAGE_TYPE_INT64\<rparr>) \<and>
      apx_vm_value_in_range_i64 u (word_of_int lo) (word_of_int hi) = range_result (lo \<le> i \<and> i \<le> hi)"
    and "\<not> sg \<Longrightarrow> n = 8 \<Longrightarrow> i < 2 ^ 63 \<Longrightarrow> \<exists>u. state_store_scalar_value D st (Some w) APX_TYPE_CODE_INT64 =
      (APX_NO_ERROR, st\<lparr>rs_scalar_value := u, rs_scalar_storage_type := APX_VM_SCALAR_STORAGE_TYPE_INT64\<rparr>) \<and>
      apx_vm_value_in_range_u64 u (word_of_int lo) (word_of_int hi) = range_result (lo \<le> i \<and> i \<le> hi)"
proof -
  have n: "n \<noteq> 8 \<Longrightarrow> n = 1 \<or> n = 2 \<or> n = 4" using t by (cases tc) auto
  show "\<exists>u. state_store_scalar_value D st (Some w) APX_TYPE_CODE_INT32 =
      (APX_NO_ERROR, st\<lparr>rs_scalar_value := u, rs_scalar_storage_type := APX_VM_SCALAR_STORAGE_TYPE_INT32\<rparr>) \<and>
      apx_vm_value_in_range_i32 (get32 u) (word_of_int lo) (word_of_int hi) = range_result (lo \<le> i \<and> i \<le> hi)"
    if "sg" "n \<noteq> 8"
  proof -
    have f: "sint (word_of_int i :: u32) = i" "sint (word_of_int lo :: u32) = lo" "sint (word_of_int hi :: u32) = hi"
      using fits_i32 [OF _ n] that i(1) fit by auto
    then have "sv_to_i32 D (Some w) = (word_of_int i, True)" using i(2) by (intro dtl_numbers(1) [OF D]) simp
    with f show ?thesis
      by (intro exI [of _ "set32 (rs_scalar_value st) (word_of_int i)"])
        (simp add: state_store_scalar_value_def converted_rd_def range_results)
  qed
  show "\<exists>u. state_store_scalar_value D st (Some w) APX_TYPE_CODE_UINT32 =
      (APX_NO_ERROR, st\<lparr>rs_scalar_value := u, rs_scalar_storage_type := APX_VM_SCALAR_STORAGE_TYPE_UINT32\<rparr>) \<and>
      apx_vm_value_in_range_i32 (get32 u) (word_of_int lo) (word_of_int hi) = range_result (lo \<le> i \<and> i \<le> hi)"
    if "\<not> sg" "n \<noteq> 8"
  proof -
    have "uint (word_of_int i :: u32) = i" using fits_u32 [OF _ n] that i(1) by auto
    then have s: "sv_to_u32 D (Some w) = (word_of_int i, True)" using i(2) by (intro dtl_numbers(2) [OF D]) simp
    have "lo \<le> hi" "hi < 2 ^ 31" using ex that t by (auto simp: check_exact_def)
    then have "apx_vm_value_in_range_i32 (word_of_int i) (word_of_int lo) (word_of_int hi) = range_result (lo \<le> i \<and> i \<le> hi)"
      unfolding range_results using that i(1) fit n
      by (subst u32_as_signed [where n = n]) auto
    with s show ?thesis
      by (intro exI [of _ "set32 (rs_scalar_value st) (word_of_int i)"])
        (simp add: state_store_scalar_value_def converted_rd_def)
  qed
  show "\<exists>u. state_store_scalar_value D st (Some w) APX_TYPE_CODE_INT64 =
      (APX_NO_ERROR, st\<lparr>rs_scalar_value := u, rs_scalar_storage_type := APX_VM_SCALAR_STORAGE_TYPE_INT64\<rparr>) \<and>
      apx_vm_value_in_range_i64 u (word_of_int lo) (word_of_int hi) = range_result (lo \<le> i \<and> i \<le> hi)"
    if "sg" "n = 8"
  proof -
    have f: "sint (word_of_int i :: u64) = i" "sint (word_of_int lo :: u64) = lo" "sint (word_of_int hi :: u64) = hi"
      using fits_i64 that i(1) fit by auto
    then have "sv_to_i64 D (Some w) = (word_of_int i, True)" using i(2) by (intro dtl_numbers(3) [OF D]) simp
    with f show ?thesis
      by (intro exI [of _ "word_of_int i"]) (simp add: state_store_scalar_value_def converted_rd_def range_results)
  qed
  show "\<exists>u. state_store_scalar_value D st (Some w) APX_TYPE_CODE_INT64 =
      (APX_NO_ERROR, st\<lparr>rs_scalar_value := u, rs_scalar_storage_type := APX_VM_SCALAR_STORAGE_TYPE_INT64\<rparr>) \<and>
      apx_vm_value_in_range_u64 u (word_of_int lo) (word_of_int hi) = range_result (lo \<le> i \<and> i \<le> hi)"
    if "\<not> sg" "n = 8" "i < 2 ^ 63"
  proof -
    have f: "uint (word_of_int i :: u64) = i" "uint (word_of_int lo :: u64) = lo" "uint (word_of_int hi :: u64) = hi"
      using fits_u64 that i(1) fit by auto
    have "sint (word_of_int i :: u64) = i" using that i(1)
      unfolding sint_sbintrunc' by (intro signed_take_bit_int_eq_self) (simp_all add: int_fits_def)
    then have "sv_to_i64 D (Some w) = (word_of_int i, True)" using i(2) by (intro dtl_numbers(3) [OF D]) simp
    with f show ?thesis
      by (intro exI [of _ "word_of_int i"]) (simp add: state_store_scalar_value_def converted_rd_def range_results word_le_def)
  qed
qed

definition dv_in_limits :: "int \<Rightarrow> int \<Rightarrow> dv \<Rightarrow> bool" where
  "dv_in_limits lo hi v = (case v of DvInt i \<Rightarrow> lo \<le> i \<and> i \<le> hi | _ \<Rightarrow> False)"

lemma number_checked:
  assumes L: "lib_documented L \<alpha>" and t: "int_type tc = Some (n, sg)" and i: "int_fits n sg i" "tc = APX_TYPE_CODE_UINT64 \<Longrightarrow> i < 2 ^ 63"
    and h: "holds_value \<alpha> (ds_state d) (DvInt i)" and lim: "wf_limits tc (Some (lo, hi))" and ex: "check_exact tc False lo hi"
  shows "\<exists>st. range_check_rd L tc lo hi d = (range_result (lo \<le> i \<and> i \<le> hi), d\<lparr>ds_state := st\<rparr>) \<and> holds_value \<alpha> st (DvInt i)"
proof -
  note D = lib_documentedD(4) [OF L]
  obtain w where w: "rs_value (ds_state d) = Some w" "\<alpha> w = DvInt i" and k: "rs_value_type (ds_state d) = DTL_DV_SCALAR"
    using h by (auto simp: holds_value_def)
  have fit: "int_fits n sg lo" "int_fits n sg hi" using lim t by (auto simp: wf_limits_def)
  note stored = store_checked [OF D t i(1) w(2) fit ex, of "ds_state d"]
  let ?ok = "lo \<le> i \<and> i \<le> hi"
  let ?st = "\<lambda>u s. (ds_state d)\<lparr>rs_scalar_value := u, rs_scalar_storage_type := s,
    rs_range_check_state := if ?ok then APX_RANGE_CHECK_STATE_OK else APX_RANGE_CHECK_STATE_FAIL\<rparr>"
  have hv: "holds_value \<alpha> (?st u s) (DvInt i)" for u s using h by (simp add: holds_value_def)
  note defs = range_check_rd_def check_value_range_rd_def on_state_rd_def checked_rd_def Let_def range_result_def
    apx_vm_deserializer_check_value_range_int32_def apx_vm_deserializer_check_value_range_uint32_def
    apx_vm_deserializer_check_value_range_int64_def apx_vm_deserializer_check_value_range_uint64_def
  show ?thesis
  proof (cases "n = 8"; cases sg)
    assume "n \<noteq> 8" sg
    with stored(1) t k w hv show ?thesis
      by (auto simp: defs intro!: exI [of _ "?st u APX_VM_SCALAR_STORAGE_TYPE_INT32" for u])
  next
    assume "n \<noteq> 8" "\<not> sg"
    with stored(2) t k w hv show ?thesis
      by (auto simp: defs intro!: exI [of _ "?st u APX_VM_SCALAR_STORAGE_TYPE_UINT32" for u])
  next
    assume "n = 8" sg
    with stored(3) t k w hv show ?thesis
      by (auto simp: defs intro!: exI [of _ "?st u APX_VM_SCALAR_STORAGE_TYPE_INT64" for u])
  next
    assume "n = 8" "\<not> sg"
    moreover from this have "i < 2 ^ 63" using t i(2) by (cases tc) auto
    ultimately show ?thesis using stored(4) t k w hv
      by (auto simp: defs intro!: exI [of _ "?st u APX_VM_SCALAR_STORAGE_TYPE_INT64" for u])
  qed
qed

lemma range_result_simps [simp]:
  "range_result True = APX_NO_ERROR" "range_result False = APX_VALUE_RANGE_ERROR"
  "(range_result b = APX_NO_ERROR) = b"
  by (simp_all add: range_result_def)

lemma elements_checked:
  assumes D: "dtl_documented D \<alpha>" and t: "int_type tc = Some (n, sg)" and n: "n \<noteq> 8"
    and w: "\<alpha> w = DvArray xs" and small: "length xs \<le> 2 ^ 31"
    and items: "\<And>x. x \<in> set xs \<Longrightarrow> \<exists>i. x = DvInt i \<and> int_fits n sg i"
    and fit: "int_fits n sg lo" "int_fits n sg hi" and ex: "check_exact tc False lo hi"
  defines "atc \<equiv> if sg then APX_TYPE_CODE_INT32 else APX_TYPE_CODE_UINT32"
    and "storage \<equiv> if sg then APX_VM_SCALAR_STORAGE_TYPE_INT32 else APX_VM_SCALAR_STORAGE_TYPE_UINT32"
  shows "i + k = length xs \<Longrightarrow> rs_value st = Some w \<Longrightarrow> rs_value_type st = DTL_DV_ARRAY \<Longrightarrow>
    \<exists>st'. check_range_elements_rd D atc storage (\<lambda>u. apx_vm_value_in_range_i32 (get32 u) (word_of_int lo) (word_of_int hi)) i k st =
      (range_result (\<forall>x\<in>set (drop i xs). dv_in_limits lo hi x), st') \<and> rs_value st' = Some w \<and> rs_value_type st' = DTL_DV_ARRAY"
proof (induction k arbitrary: i st)
  case 0
  then show ?case by simp
next
  case (Suc k)
  then have i: "i < length xs" by simp
  obtain y where y: "xs ! i = DvInt y" "int_fits n sg y" using items [of "xs ! i"] i by auto
  obtain e where e: "av_value D (Some w) (int i) = Some e" "\<alpha> e = DvInt y" using dtl_array(2) [OF D w i] y(1) by auto
  have si: "sint (word_of_nat i :: u32) = int i"
    using i small by (simp add: signed_of_nat signed_take_bit_int_eq_self)
  have dr: "drop i xs = DvInt y # drop (Suc i) xs" using i y(1) by (simp add: Cons_nth_drop_Suc [symmetric])
  let ?in = "\<lambda>u. apx_vm_value_in_range_i32 (get32 u) (word_of_int lo) (word_of_int hi)"
  obtain u where u: "state_store_scalar_value D st (Some e) atc =
      (APX_NO_ERROR, st\<lparr>rs_scalar_value := u, rs_scalar_storage_type := storage\<rparr>)" "?in u = range_result (lo \<le> y \<and> y \<le> hi)"
    using store_checked(1,2) [OF D t y(2) e(2) fit ex, of st] n by (cases sg) (auto simp: atc_def storage_def)
  let ?st = "st\<lparr>rs_scalar_value := u, rs_scalar_storage_type := storage\<rparr>"
  have rd: "state_store_scalar_array_value D st (sint (word_of_nat i :: u32)) atc = (APX_NO_ERROR, ?st)"
    using Suc.prems e u si by (simp add: state_store_scalar_array_value_def Let_def dtl_kind(1) [OF D])
  show ?case
  proof (cases "lo \<le> y \<and> y \<le> hi")
    case True
    then have "dv_in_limits lo hi (DvInt y)" by (simp add: dv_in_limits_def)
    with Suc.IH [of "Suc i" ?st] Suc.prems rd u True show ?thesis by (simp add: checked_rd_def Let_def dr)
  next
    case False
    then have "\<not> dv_in_limits lo hi (DvInt y)" by (simp add: dv_in_limits_def)
    with Suc.prems rd u False show ?thesis by (simp add: checked_rd_def Let_def dr range_result_def)
  qed
qed

lemma numbers_checked:
  assumes L: "lib_documented L \<alpha>" and t: "int_type tc = Some (n, sg)"
    and items: "\<And>x. x \<in> set xs \<Longrightarrow> \<exists>i. x = DvInt i \<and> int_fits n sg i" and small: "length xs < 2 ^ 31"
    and h: "holds_value \<alpha> (ds_state d) (DvArray xs)" and lim: "wf_limits tc (Some (lo, hi))" and ex: "check_exact tc True lo hi"
  shows "\<exists>st. range_check_rd L tc lo hi d = (range_result (\<forall>x\<in>set xs. dv_in_limits lo hi x), d\<lparr>ds_state := st\<rparr>) \<and>
    holds_value \<alpha> st (DvArray xs)"
proof -
  note D = lib_documentedD(4) [OF L]
  obtain w where w: "rs_value (ds_state d) = Some w" "\<alpha> w = DvArray xs" and k: "rs_value_type (ds_state d) = DTL_DV_ARRAY"
    using h by (auto simp: holds_value_def)
  have fit: "int_fits n sg lo" "int_fits n sg hi" using lim t by (auto simp: wf_limits_def)
  have n: "n \<noteq> 8" and ex': "check_exact tc False lo hi" using ex t by (auto simp: check_exact_def)
  let ?st = "(ds_state d)\<lparr>rs_range_check_state := APX_RANGE_CHECK_STATE_OK\<rparr>"
  let ?in = "\<lambda>u. apx_vm_value_in_range_i32 (get32 u) (word_of_int lo) (word_of_int hi)"
  define atc where "atc = (if sg then APX_TYPE_CODE_INT32 else APX_TYPE_CODE_UINT32)"
  define storage where "storage = (if sg then APX_VM_SCALAR_STORAGE_TYPE_INT32 else APX_VM_SCALAR_STORAGE_TYPE_UINT32)"
  have "\<exists>st'. check_range_elements_rd (lib_d L) atc storage ?in 0 (length xs) ?st =
      (range_result (\<forall>x\<in>set (drop 0 xs). dv_in_limits lo hi x), st') \<and> rs_value st' = Some w \<and> rs_value_type st' = DTL_DV_ARRAY"
    unfolding atc_def storage_def using small w(1) k
    by (intro elements_checked [OF D t n w(2) _ items fit ex']) auto
  then obtain st' where st': "check_range_elements_rd (lib_d L) atc storage ?in 0 (length xs) ?st =
      (range_result (\<forall>x\<in>set xs. dv_in_limits lo hi x), st')" "rs_value st' = Some w" "rs_value_type st' = DTL_DV_ARRAY"
    by auto
  have len: "unat (word_of_int (av_length (lib_d L) (Some w)) :: u32) = length xs"
    using small by (simp add: dtl_array(1) [OF D w(2)] unat_of_nat)
  have "range_check_rd L tc lo hi d = (range_result (\<forall>x\<in>set xs. dv_in_limits lo hi x), d\<lparr>ds_state := st'\<rparr>)"
    using st'(1) t n k w(1) len
    by (cases sg) (simp_all add: range_check_rd_def check_value_range_rd_def on_state_rd_def atc_def storage_def
        apx_vm_deserializer_check_value_range_int32_def apx_vm_deserializer_check_value_range_uint32_def)
  then show ?thesis using st' w(2) by (auto simp: holds_value_def)
qed

end
