(* ===== verification/PackCorrect.thy ===== *)
theory PackCorrect
  imports PackRun
begin

text \<open>
  The contract of packing: compiler, interpreter and serializer together write the layout that
  the theory Layout specifies.
\<close>

section \<open>Compiling and selecting a program\<close>

lemma program_selected:
  assumes L: "lib_documented L \<alpha>" and A: "bytearray_appends A"
    and de: "port_effective_data_element port = Some de" and sh: "shape_of de = Some sh" "wf_shape sh"
    and size: "header_data_size (word_of_nat (shape_size sh)) (port_queue_length port) \<le> unat UINT32_MAX"
      "shape_size sh < 2 ^ 32"
  shows "\<exists>hdr prog cc' vm1. apx_compiler_compile_port A (lib_c L) cc (Some port) pt = (APX_NO_ERROR, Some prog, cc') \<and>
     apx_vm_select_program L vm (Some prog) = (APX_NO_ERROR, vm1) \<and> at_bytes hdr (code (lib_c L) pt sh) (vm_decoder vm1) \<and>
     ph_program_type (vm_program_header vm1) = pt \<and> vm_serializer vm1 = vm_serializer vm \<and>
     vm_deserializer vm1 = vm_deserializer vm"
proof -
  note C = lib_documentedD(1) [OF L]
  let ?es = "word_of_nat (shape_size sh) :: u32"
  define hdr where "hdr = header_bytes (lib_c L) pt ?es (port_queue_length port) (has_dynamic sh)"
  define body where "body = code (lib_c L) pt sh"
  have esp: "?es > 0" using length_nonzero [OF shape_size_pos [OF sh(2)] size(2)] by (simp add: word_gt_0)
  obtain cc' where compiled: "apx_compiler_compile_port A (lib_c L) cc (Some port) pt =
      (APX_NO_ERROR, Some (hdr @ body), cc')"
    using compile_port_shape [OF A de sh size(2,1)] by (simp add: hdr_def body_def)
  obtain vm1 where "apx_vm_select_program L vm (Some (hdr @ body)) = (APX_NO_ERROR, vm1)"
    "at_bytes hdr body (vm_decoder vm1)" "ph_program_type (vm_program_header vm1) = pt"
    "vm_serializer vm1 = vm_serializer vm" "vm_deserializer vm1 = vm_deserializer vm"
    using decode_header_bytes [OF C size(1) esp, of pt "has_dynamic sh" body] code_nonempty
    by (auto simp: apx_vm_select_program_def apx_vm_decoder_select_program_def apx_vm_decoder_parse_program_header_def
        at_bytes_def hdr_def [symmetric] body_def)
  with compiled show ?thesis by (auto simp: body_def)
qed

lemma pack_selected:
  assumes L: "lib_documented L \<alpha>" and at: "at_bytes hdr (code (lib_c L) APX_PACK_PROGRAM sh) (vm_decoder vm1)"
    and pt: "ph_program_type (vm_program_header vm1) = APX_PACK_PROGRAM" and sh: "wf_shape sh"
    and size: "shape_size sh < 2 ^ 32" "shape_size sh \<le> length data" and val: "layout sh (\<alpha> w) = Some ly"
    and vm: "sr_stack (vm_serializer vm1) = []" "\<not> qw_is_active (sr_queue (vm_serializer vm1))"
      "depth sh \<le> sr_free (vm_serializer vm1)"
  shows "\<exists>vm2 vm3. apx_vm_set_write_buffer vm1 (Some data) = (APX_NO_ERROR, vm2) \<and>
     apx_vm_pack_value L vm2 (Some w) = Some (APX_NO_ERROR, vm3) \<and>
     wb_data (sr_buffer (vm_serializer vm3)) = overlay 0 ly data \<and>
     sr_stack (vm_serializer vm3) = [] \<and> sr_free (vm_serializer vm3) = sr_free (vm_serializer vm1) \<and>
     sr_queue (vm_serializer vm3) = sr_queue (vm_serializer vm1)"
proof -
  note D = lib_documentedD(4) [OF L]
  obtain b bs where data: "data = b # bs" using size(2) shape_size_pos [OF sh] by (cases data) auto
  let ?s2 = "(vm_serializer vm1)\<lparr>sr_buffer := write_buffer_reset data\<rparr>"
  let ?vm2 = "vm1\<lparr>vm_serializer := ?s2\<rparr>"
  have vm2: "apx_vm_set_write_buffer vm1 (Some data) = (APX_NO_ERROR, ?vm2)"
    by (simp add: apx_vm_set_write_buffer_def on_serializer_def apx_vm_serializer_set_write_buffer_def data)
  let ?s = "?s2\<lparr>sr_state := state_set_value (lib_d L) (sr_state ?s2) (Some w)\<rparr>"
  let ?m = "vm1\<lparr>vm_serializer := ?s\<rparr>"
  have r: "ready \<alpha> ?s (\<alpha> w) \<and> ws_range_check_state (sr_state ?s) = APX_RANGE_CHECK_STATE_NOT_CHECKED"
    using vm by (intro ready_set_value [OF D layout_kind [OF val]]) auto
  have "\<exists>s' m'. reaches L ?m (hdr @ code (lib_c L) APX_PACK_PROGRAM sh) [] s' m' \<and> packed 0 ly (vm_serializer ?m) s'"
    using sh val size r vm at layout_length(1) [OF val]
    by (intro pack_runs [OF L]) (auto simp: at_pos_def write_buffer_reset_def)
  then obtain s' m' where m': "reaches L ?m (hdr @ code (lib_c L) APX_PACK_PROGRAM sh) [] s' m'" and pk: "packed 0 ly ?s s'"
    by auto
  then have "at_bytes (hdr @ code (lib_c L) APX_PACK_PROGRAM sh) [] (vm_decoder m')" by (simp add: reaches_def)
  from end_decoded [OF this] have stop: "step_pack_program L m' = (APX_NO_ERROR, False, m')"
    by (simp add: step_pack_program_def)
  have "apx_vm_pack_value L ?vm2 (Some w) = Some (APX_NO_ERROR, m')"
    using m' run_loop_stop [of "step_pack_program L", OF stop] pt
    by (simp add: apx_vm_pack_value_def on_serializer_def apx_vm_serializer_set_value_dv_def run_pack_program_def
        reaches_def)
  with pk m' vm vm2 show ?thesis
    by (intro exI [of _ ?vm2] exI [of _ m']) (auto simp: packed_def reaches_def write_buffer_reset_def)
qed

section \<open>Properties\<close>

text \<open>
  C1: Packing is correct. For a port whose data element has a well-formed shape, the
  compiler succeeds, the interpreter accepts its program and a buffer that is large enough, and packing a
  value that has a layout of this shape returns without an error: the buffer holds the layout,
  bytes that the layout leaves open and bytes behind it are untouched, and every write state that
  was taken for nested records is given back. In particular the interpreter loop ends.
\<close>

theorem pack_value_correct:
  assumes L: "lib_documented L \<alpha>" and A: "bytearray_appends A"
    and de: "port_effective_data_element port = Some de" and sh: "shape_of de = Some sh" "wf_shape sh"
    and size: "header_data_size (word_of_nat (shape_size sh)) (port_queue_length port) \<le> unat UINT32_MAX"
      "shape_size sh < 2 ^ 32" "shape_size sh \<le> length data"
    and val: "layout sh (\<alpha> w) = Some ly"
    and vm: "sr_stack (vm_serializer vm) = []" "\<not> qw_is_active (sr_queue (vm_serializer vm))"
      "depth sh \<le> sr_free (vm_serializer vm)"
  shows "\<exists>prog cc' vm1 vm2 vm3.
     apx_compiler_compile_port A (lib_c L) cc (Some port) APX_PACK_PROGRAM = (APX_NO_ERROR, Some prog, cc') \<and>
     apx_vm_select_program L vm (Some prog) = (APX_NO_ERROR, vm1) \<and>
     apx_vm_set_write_buffer vm1 (Some data) = (APX_NO_ERROR, vm2) \<and>
     apx_vm_pack_value L vm2 (Some w) = Some (APX_NO_ERROR, vm3) \<and>
     wb_data (sr_buffer (vm_serializer vm3)) = overlay 0 ly data \<and>
     sr_stack (vm_serializer vm3) = [] \<and> sr_free (vm_serializer vm3) = sr_free (vm_serializer vm)"
proof -
  obtain hdr prog cc' vm1 where p: "apx_compiler_compile_port A (lib_c L) cc (Some port) APX_PACK_PROGRAM =
      (APX_NO_ERROR, Some prog, cc')" "apx_vm_select_program L vm (Some prog) = (APX_NO_ERROR, vm1)"
    and at: "at_bytes hdr (code (lib_c L) APX_PACK_PROGRAM sh) (vm_decoder vm1)"
    "ph_program_type (vm_program_header vm1) = APX_PACK_PROGRAM" and s: "vm_serializer vm1 = vm_serializer vm"
    using program_selected [OF L A de sh size(1,2), of cc APX_PACK_PROGRAM vm] by blast
  from pack_selected [OF L at sh(2) size(2,3) val] p s vm show ?thesis by auto
qed

text \<open>A record of a limited number, a dynamic array and a string, as an example.\<close>

definition demo_element :: apx_dataElement where
  "demo_element = DataElement None (Some
     [DataElement (Some [97]) None 0 0 APX_TYPE_CODE_UINT8 False True 0 7 (TypeRefId 0),
      DataElement (Some [98]) None 3 0 APX_TYPE_CODE_UINT16 True False 0 0 (TypeRefId 0),
      DataElement (Some [99]) None 4 0 APX_TYPE_CODE_CHAR False False 0 0 (TypeRefId 0)])
     0 0 APX_TYPE_CODE_RECORD False False 0 0 (TypeRefId 0)"

definition demo_shape :: shape where
  "demo_shape = Rec [([97], Num APX_TYPE_CODE_UINT8 (Some (0, 7))),
     ([98], NumArray APX_TYPE_CODE_UINT16 None 3 True), ([99], Chars APX_TYPE_CODE_CHAR 4 False)]"

definition demo_value :: dv where
  "demo_value = DvHash [([97], DvInt 5), ([98], DvArray [DvInt 300, DvInt 2]), ([99], DvStr [104, 105])]"

definition demo_layout :: layout where
  "demo_layout = [Some 5, Some 2, Some 44, Some 1, Some 2, Some 0, None, None, Some 104, Some 105, Some 0, Some 0]"

definition demo_vm :: "dv apx_vm" where
  "demo_vm = the (apx_vm_create 4 4)"

lemma demo_shape_of: "shape_of demo_element = Some demo_shape"
  by (auto simp: demo_element_def demo_shape_def shape_of.simps leaf_shape_def limits_of_def field_name_def derived_def
      apx_dataElement_derive_data_element_def Let_def)

lemma demo_facts:
  "wf_shape demo_shape" "shape_size demo_shape = 12" "depth demo_shape = 1"
  "layout demo_shape demo_value = Some demo_layout"
proof -
  have "replicate 2 x = [x, x]" for x :: "byte option" by (simp add: numeral_2_eq_2)
  then show "wf_shape demo_shape" "shape_size demo_shape = 12" "depth demo_shape = 1"
    "layout demo_shape demo_value = Some demo_layout"
    by (simp_all add: demo_shape_def demo_value_def demo_layout_def wf_limits_def int_fits_def in_limits_def
      num_size_def length_size_def array_layout_def int_bytes_def)
qed

lemma demo_vm_facts:
  "sr_stack (vm_serializer demo_vm) = []" "\<not> qw_is_active (sr_queue (vm_serializer demo_vm))"
  "sr_free (vm_serializer demo_vm) = 3"
  by (simp_all add: demo_vm_def apx_vm_create_def apx_vm_serializer_create_def apx_vm_deserializer_create_def
      queued_write_state_init_def numeral_eq_Suc)

theorem pack_value_correct_witness:
  "\<exists>prog cc' vm1 vm2 vm3.
     apx_compiler_compile_port adt_lists (lib_c lib_ref) apx_compiler_create
       (Some \<lparr>port_effective_data_element = Some demo_element, port_queue_length = 0\<rparr>) APX_PACK_PROGRAM =
         (APX_NO_ERROR, Some prog, cc') \<and>
     apx_vm_select_program lib_ref demo_vm (Some prog) = (APX_NO_ERROR, vm1) \<and>
     apx_vm_set_write_buffer vm1 (Some (replicate 14 255)) = (APX_NO_ERROR, vm2) \<and>
     apx_vm_pack_value lib_ref vm2 (Some demo_value) = Some (APX_NO_ERROR, vm3) \<and>
     wb_data (sr_buffer (vm_serializer vm3)) = [5, 2, 44, 1, 2, 0, 255, 255, 104, 105, 0, 0, 255, 255] \<and>
     sr_stack (vm_serializer vm3) = [] \<and> sr_free (vm_serializer vm3) = 3"
proof -
  have "overlay 0 demo_layout (replicate 14 255) = [5, 2, 44, 1, 2, 0, 255, 255, 104, 105, 0, 0, 255, 255]"
    by (simp add: demo_layout_def numeral_eq_Suc)
  with pack_value_correct [OF lib_ref_documented adt_lists_append _ demo_shape_of demo_facts(1) _ _ _ demo_facts(4)
      demo_vm_facts(1,2), of "\<lparr>port_effective_data_element = Some demo_element, port_queue_length = 0\<rparr>"
      "replicate 14 255" apx_compiler_create]
  show ?thesis by (simp add: demo_facts(2,3) demo_vm_facts(3) header_data_size_def)
qed

end
