(* ===== verification/UnpackCorrect.thy ===== *)
theory UnpackCorrect
  imports UnpackLimits PackCorrect
begin

text \<open>
  The contract of unpacking, the round trip from a value through the buffer and back, and what
  happens to values outside of their limits.
\<close>

section \<open>Limits of the whole value\<close>

text \<open>A shape without the limits of its number; limits of record fields stay.\<close>

fun without_limits :: "shape \<Rightarrow> shape" where
  "without_limits (Num tc lim) = Num tc None"
| "without_limits (NumArray tc lim n dynamic) = NumArray tc None n dynamic"
| "without_limits sh = sh"

fun within_limits :: "shape \<Rightarrow> dv \<Rightarrow> bool" where
  "within_limits (Num tc (Some (lo, hi))) v = dv_in_limits lo hi v"
| "within_limits (NumArray tc (Some (lo, hi)) n dynamic) v =
     (\<forall>x\<in>set (the_default [] (array_items v)). dv_in_limits lo hi x)"
| "within_limits sh v = True"

text \<open>The limits are ones that the deserializer's range checks decide.\<close>

fun limits_decided :: "shape \<Rightarrow> dv \<Rightarrow> bool" where
  "limits_decided (Num tc (Some (lo, hi))) v = (check_exact tc False lo hi \<and>
     (tc = APX_TYPE_CODE_UINT64 \<longrightarrow> dv_in_limits 0 (2 ^ 63 - 1) v))"
| "limits_decided (NumArray tc (Some (lo, hi)) n dynamic) v = check_exact tc True lo hi"
| "limits_decided sh v = True"

lemma unpacked_top:
  "unpacked L \<alpha> p v d d' \<Longrightarrow> ds_stack d = [] \<Longrightarrow> ds_stack d' = [] \<and> ds_free d' = ds_free d \<and> holds_value \<alpha> (ds_state d') v"
  by (auto simp: unpacked_def)

lemma wf_limits_none [simp]: "wf_limits tc None"
  by (simp add: wf_limits_def)

lemma without_limits_facts:
  shows "wf_shape sh \<Longrightarrow> wf_shape (without_limits sh)" and "depth (without_limits sh) = depth sh"
    and "canon (without_limits sh) v = canon sh v" and "shape_size (without_limits sh) = shape_size sh"
proof -
  show "wf_shape sh \<Longrightarrow> wf_shape (without_limits sh)" by (cases sh) auto
  show "depth (without_limits sh) = depth sh" by (cases sh) simp_all
  show "canon (without_limits sh) v = canon sh v" by (cases sh) simp_all
  show "shape_size (without_limits sh) = shape_size sh" by (cases sh) simp_all
qed

lemma num_items:
  assumes "layout (NumArray tc None n dynamic) v = Some ly" and t: "int_type tc = Some (k, sg)"
  shows "\<exists>xs. v = DvArray xs \<and> length xs \<le> n \<and> (\<forall>x\<in>set xs. \<exists>i. x = DvInt i \<and> int_fits k sg i)"
proof -
  from assms(1) obtain xs bss where v: "v = DvArray xs" and b: "collect (map (num_bytes tc None) xs) = Some bss"
    and al: "array_layout n dynamic (num_size tc) (length xs) (concat bss) = Some ly"
    by (cases v) (auto split: option.splits)
  have "\<exists>i. x = DvInt i \<and> int_fits k sg i" if x: "x \<in> set xs" for x
  proof -
    obtain b where "num_bytes tc None x = Some b"
      using collect_item [OF b x] by blast
    then show ?thesis using t by (cases x) (auto split: if_splits)
  qed
  with v al show ?thesis by (auto simp: array_layout_def split: if_splits)
qed

text \<open>The whole program of a shape, limits included.\<close>

lemma unpack_program_runs:
  assumes L: "lib_documented L \<alpha>" and wf: "wf_shape sh" and ly: "layout (without_limits sh) v = Some ly"
    and rd: "readable (without_limits sh) v" and lim: "limits_decided sh v"
    and at: "at_bytes pre (code (lib_c L) APX_UNPACK_PROGRAM sh) (vm_decoder m)"
    and d: "reading_at \<alpha> (vm_deserializer m) p ly" "depth sh \<le> ds_free (vm_deserializer m)" "ds_stack (vm_deserializer m) = []"
  shows "\<exists>m'. run_unpack_program L m = Some (range_result (within_limits sh v), m') \<and>
    vm_program_header m' = vm_program_header m \<and> ds_stack (vm_deserializer m') = [] \<and>
    ds_free (vm_deserializer m') = ds_free (vm_deserializer m) \<and> holds_value \<alpha> (ds_state (vm_deserializer m')) (canon sh v)"
proof -
  let ?sh = "without_limits sh"
  have ended: "run_unpack_program L m = Some (APX_NO_ERROR, m2)" if "run_unpack_program L m = run_loop (step_unpack_program L) m2"
    "at_bytes q [] (vm_decoder m2)" for m2 q
  proof -
    have "step_unpack_program L m2 = (APX_NO_ERROR, False, m2)"
      by (simp add: step_unpack_program_def end_decoded [OF that(2)])
    from run_loop_stop [of "step_unpack_program L", OF this] that(1) show ?thesis by simp
  qed
  have limited: ?thesis if c: "code (lib_c L) APX_UNPACK_PROGRAM sh =
      code (lib_c L) APX_UNPACK_PROGRAM ?sh @ limits_code (lib_c L) tc arr (Some (lo, hi))"
    and leaf: "\<nexists>fs. ?sh = Rec fs" and t: "int_type tc = Some (n, sg)" and wl: "wf_limits tc (Some (lo, hi))"
    and chk: "\<And>d. holds_value \<alpha> (ds_state d) (canon sh v) \<Longrightarrow> \<exists>st. range_check_rd L tc lo hi d =
      (range_result (within_limits sh v), d\<lparr>ds_state := st\<rparr>) \<and> holds_value \<alpha> st (canon sh v)" for tc arr lo hi n sg
  proof -
    obtain d1 m1 where m1: "reaches_rd L m (pre @ code (lib_c L) APX_UNPACK_PROGRAM ?sh) (limits_code (lib_c L) tc arr (Some (lo, hi)) @ []) d1 m1"
      and u: "unpacked L \<alpha> (p + length ly) (canon ?sh v) (vm_deserializer m) d1"
      using leaf_read [OF L without_limits_facts(1) [OF wf] leaf ly rd _ d(1), of pre] at c by fastforce
    from unpacked_top [OF u d(3)] have h1: "holds_value \<alpha> (ds_state d1) (canon sh v)" "ds_stack d1 = []"
      "ds_free d1 = ds_free (vm_deserializer m)" by (simp_all add: without_limits_facts(3))
    obtain st where st: "range_check_rd L tc lo hi d1 = (range_result (within_limits sh v), d1\<lparr>ds_state := st\<rparr>)"
      "holds_value \<alpha> st (canon sh v)" using chk [OF h1(1)] by blast
    from m1 have e1: "vm_deserializer m1 = d1" and at1: "at_bytes (pre @ code (lib_c L) APX_UNPACK_PROGRAM ?sh)
        (limits_code (lib_c L) tc arr (Some (lo, hi)) @ []) (vm_decoder m1)"
      and hd: "vm_program_header m1 = vm_program_header m"
      and run: "run_unpack_program L m = run_loop (step_unpack_program L) m1"
      by (auto simp: reaches_rd_def run_unpack_program_def)
    from t have "int_type tc \<noteq> None" by simp
    from limits_step_rd [OF L this wl at1, of "range_result (within_limits sh v)" "d1\<lparr>ds_state := st\<rparr>"] st(1) e1
    obtain m2 q where m2: "step_unpack_program L m1 = (range_result (within_limits sh v), True, m2)"
      "vm_deserializer m2 = d1\<lparr>ds_state := st\<rparr>" "at_bytes q [] (vm_decoder m2)" "vm_program_header m2 = vm_program_header m1"
      by auto
    have "run_unpack_program L m = Some (range_result (within_limits sh v), m2)"
    proof (cases "within_limits sh v")
      case True
      with m2(1) run_loop_step [of "step_unpack_program L" m1 m2] run have "run_unpack_program L m = run_loop (step_unpack_program L) m2"
        by simp
      from ended [OF this m2(3)] True show ?thesis by simp
    next
      case False
      with m2(1) run_loop_stop [of "step_unpack_program L" m1] run show ?thesis by (simp add: range_result_def)
    qed
    with m2 hd h1 st(2) show ?thesis by (intro exI [of _ m2]) simp
  qed
  have plain: ?thesis if e: "?sh = sh" "within_limits sh v"
  proof -
    obtain d1 m1 where m1: "reaches_rd L m (pre @ code (lib_c L) APX_UNPACK_PROGRAM sh) [] d1 m1"
      and u: "unpacked L \<alpha> (p + length ly) (canon sh v) (vm_deserializer m) d1"
      using unpack_runs(1) [OF L wf, of v ly pre "[]" m p] ly rd at d e(1) by auto
    from m1 have "run_unpack_program L m = Some (APX_NO_ERROR, m1)"
      by (intro ended) (auto simp: reaches_rd_def run_unpack_program_def)
    with m1 unpacked_top [OF u d(3)] e(2) show ?thesis by (intro exI [of _ m1]) (auto simp: reaches_rd_def)
  qed
  show ?thesis
  proof (cases sh)
    case (Num tc l)
    show ?thesis
    proof (cases l)
      case (Some lh)
      then obtain lo hi where l: "sh = Num tc (Some (lo, hi))" using Num by (cases lh) auto
      with wf obtain n sg where t: "int_type tc = Some (n, sg)" and wl: "wf_limits tc (Some (lo, hi))"
        by (auto simp: wf_limits_def split: option.splits)
      from ly l t obtain i where i: "v = DvInt i" "int_fits n sg i" by (cases v) (auto split: if_splits)
      show ?thesis
      proof (rule limited [where tc = tc and arr = False, OF _ _ t wl])
        fix d :: "'a apx_vm_deserializer"
        assume "holds_value \<alpha> (ds_state d) (canon sh v)"
        then show "\<exists>st. range_check_rd L tc lo hi d = (range_result (within_limits sh v), d\<lparr>ds_state := st\<rparr>) \<and>
            holds_value \<alpha> st (canon sh v)"
          using lim l i number_checked [OF L t i(2) _ _ wl, of d] by (auto simp: dv_in_limits_def)
      qed (use l in \<open>simp_all add: with_limits_def\<close>)
    qed (use plain Num in auto)
  next
    case (NumArray tc l n dynamic)
    show ?thesis
    proof (cases l)
      case (Some lh)
      then obtain lo hi where l: "sh = NumArray tc (Some (lo, hi)) n dynamic" using NumArray by (cases lh) auto
      with wf obtain k sg where t: "int_type tc = Some (k, sg)" and wl: "wf_limits tc (Some (lo, hi))" and n: "n < 2 ^ 31"
        by (auto simp: wf_limits_def split: option.splits)
      from num_items [OF _ t, of n dynamic v ly] ly l obtain xs where
        xs: "v = DvArray xs" "length xs \<le> n" "\<And>x. x \<in> set xs \<Longrightarrow> \<exists>i. x = DvInt i \<and> int_fits k sg i" by auto
      have small: "length xs < 2 ^ 31" using xs(2) n by simp
      show ?thesis
      proof (rule limited [where tc = tc and arr = True, OF _ _ t wl])
        fix d :: "'a apx_vm_deserializer"
        assume "holds_value \<alpha> (ds_state d) (canon sh v)"
        then show "\<exists>st. range_check_rd L tc lo hi d = (range_result (within_limits sh v), d\<lparr>ds_state := st\<rparr>) \<and>
            holds_value \<alpha> st (canon sh v)"
          using lim l xs(1) numbers_checked [OF L t xs(3) small _ wl, of d] by auto
      qed (use l in \<open>simp_all add: with_limits_def\<close>)
    qed (use plain NumArray in auto)
  qed (use plain in auto)
qed

lemma result_taken:
  "holds_value \<alpha> (ds_state (vm_deserializer m)) v \<Longrightarrow>
     \<exists>w d. take_result m = (APX_NO_ERROR, Some w, m\<lparr>vm_deserializer := d\<rparr>) \<and> \<alpha> w = v \<and>
       ds_stack d = ds_stack (vm_deserializer m) \<and> ds_free d = ds_free (vm_deserializer m)"
  by (intro exI [of _ "the (rs_value (ds_state (vm_deserializer m)))"]
      exI [of _ "(vm_deserializer m)\<lparr>ds_state := state_clear_value_rd (ds_state (vm_deserializer m))\<rparr>"], cases "dv_kind v")
    (auto simp: holds_value_def take_result_def apx_vm_deserializer_value_type_def apx_vm_deserializer_take_sv_def
      state_take_sv_def apx_vm_deserializer_take_av_def apx_vm_deserializer_take_hv_def take_value_def)

lemma unpack_selected:
  assumes L: "lib_documented L \<alpha>" and at: "at_bytes hdr (code (lib_c L) APX_UNPACK_PROGRAM sh) (vm_decoder vm1)"
    and pt: "ph_program_type (vm_program_header vm1) = APX_UNPACK_PROGRAM" and sh: "wf_shape sh"
    and val: "layout (without_limits sh) v = Some ly" "agrees 0 ly data"
    and rd: "readable (without_limits sh) v" "limits_decided sh v"
    and vm: "ds_stack (vm_deserializer vm1) = []" "\<not> qr_is_active (ds_queue (vm_deserializer vm1))"
      "depth sh \<le> ds_free (vm_deserializer vm1)"
  shows "\<exists>vm2 r vm3. apx_vm_set_read_buffer vm1 (Some data) = (APX_NO_ERROR, vm2) \<and>
     apx_vm_unpack_value L vm2 =
       Some (if within_limits sh v then APX_NO_ERROR else APX_VALUE_RANGE_ERROR, r, vm3) \<and>
     map_option \<alpha> r = (if within_limits sh v then Some (canon sh v) else None) \<and>
     ds_stack (vm_deserializer vm3) = [] \<and> ds_free (vm_deserializer vm3) = ds_free (vm_deserializer vm1)"
proof -
  have len: "shape_size sh \<le> length data"
    using val layout_length(1) [OF val(1)] by (simp add: agrees_def without_limits_facts)
  then obtain b bs where data: "data = b # bs" using shape_size_pos [OF sh] by (cases data) auto
  let ?d2 = "(vm_deserializer vm1)\<lparr>ds_buffer := read_buffer_reset data\<rparr>"
  let ?vm2 = "vm1\<lparr>vm_deserializer := ?d2\<rparr>"
  have vm2: "apx_vm_set_read_buffer vm1 (Some data) = (APX_NO_ERROR, ?vm2)"
    by (simp add: apx_vm_set_read_buffer_def on_deserializer_def apx_vm_deserializer_set_read_buffer_def data)
  have "reading_at \<alpha> ?d2 0 ly"
    using vm val(2) by (simp add: reading_at_def at_pos_rd_def read_buffer_reset_def)
  then obtain m where m: "run_unpack_program L ?vm2 = Some (range_result (within_limits sh v), m)"
    "ds_stack (vm_deserializer m) = []" "ds_free (vm_deserializer m) = ds_free (vm_deserializer vm1)"
    "holds_value \<alpha> (ds_state (vm_deserializer m)) (canon sh v)"
    using unpack_program_runs [OF L sh val(1) rd, of hdr ?vm2 0] vm at by auto
  obtain w d where w: "take_result m = (APX_NO_ERROR, Some w, m\<lparr>vm_deserializer := d\<rparr>)" "\<alpha> w = canon sh v"
    "ds_stack d = ds_stack (vm_deserializer m)" "ds_free d = ds_free (vm_deserializer m)" using result_taken [OF m(4)] by blast
  let ?r = "if within_limits sh v then Some w else None"
  let ?m = "if within_limits sh v then m\<lparr>vm_deserializer := d\<rparr> else m"
  have "apx_vm_unpack_value L ?vm2 = Some (if within_limits sh v then APX_NO_ERROR else APX_VALUE_RANGE_ERROR, ?r, ?m)"
    using m(1) w(1) pt by (simp add: apx_vm_unpack_value_def range_result_def)
  with vm2 m(2,3) w show ?thesis
    by (intro exI [of _ ?vm2] exI [of _ ?r] exI [of _ ?m]) auto
qed

lemma layout_within:
  assumes "layout sh v = Some ly" and "wf_shape sh"
  shows "layout (without_limits sh) v = Some ly \<and> within_limits sh v"
proof -
  have num: "num_bytes tc None x = Some b \<and> dv_in_limits lo hi x"
    if "num_bytes tc (Some (lo, hi)) x = Some b" "int_type tc \<noteq> None" for tc lo hi x b
    using that by (cases x) (auto simp: in_limits_def dv_in_limits_def split: if_splits)
  have nums: "collect (map (num_bytes tc None) xs) = Some bss \<and> (\<forall>x\<in>set xs. dv_in_limits lo hi x)"
    if "collect (map (num_bytes tc (Some (lo, hi))) xs) = Some bss" "int_type tc \<noteq> None" for tc lo hi xs bss
    using that(1)
  proof (induction xs arbitrary: bss)
    case (Cons x xs)
    then obtain b bs where b: "num_bytes tc (Some (lo, hi)) x = Some b" "collect (map (num_bytes tc (Some (lo, hi))) xs) = Some bs"
      "bss = b # bs" by (cases "num_bytes tc (Some (lo, hi)) x") auto
    with Cons.IH [OF b(2)] num [OF b(1) that(2)] show ?case by simp
  qed simp
  show ?thesis
  proof (cases sh)
    case (Num tc lim)
    with assms num show ?thesis by (cases lim) (auto simp: wf_limits_def split: option.splits)
  next
    case (NumArray tc lim n dynamic)
    then obtain xs bss where "v = DvArray xs" "collect (map (num_bytes tc lim) xs) = Some bss"
      "array_layout n dynamic (num_size tc) (length xs) (concat bss) = Some ly"
      using assms(1) by (cases v) (auto split: option.splits)
    with assms NumArray nums [of tc _ _ xs bss] show ?thesis
      by (cases lim) (auto simp: wf_limits_def split: option.splits)
  qed (use assms in auto)
qed

section \<open>Properties\<close>

text \<open>
  C2: Unpacking is correct. For a port whose data element has a well-formed shape, the compiler
  succeeds, the interpreter accepts its unpack program and a buffer that holds the layout of a
  value, and unpacking returns: without an error and with the value, its records with their fields in the order of
  the shape, when the value is within the limits of the shape; with a range error and no value
  when it is not. Either way every read state that was taken for nested records is given back. The
  hypotheses \<open>readable\<close> and \<open>limits_decided\<close> leave out what the deserializer is not able to read or check:
  limits on fields of records, empty dynamic arrays and texts, texts with null characters, and limits its signed
  checks do not decide.
\<close>

theorem unpack_value_correct:
  assumes L: "lib_documented L \<alpha>" and A: "bytearray_appends A"
    and de: "port_effective_data_element port = Some de" and sh: "shape_of de = Some sh" "wf_shape sh"
    and size: "header_data_size (word_of_nat (shape_size sh)) (port_queue_length port) \<le> unat UINT32_MAX"
      "shape_size sh < 2 ^ 32"
    and val: "layout (without_limits sh) v = Some ly" "agrees 0 ly data"
    and rd: "readable (without_limits sh) v" "limits_decided sh v"
    and vm: "ds_stack (vm_deserializer vm) = []" "\<not> qr_is_active (ds_queue (vm_deserializer vm))"
      "depth sh \<le> ds_free (vm_deserializer vm)"
  shows "\<exists>prog cc' vm1 vm2 r vm3.
     apx_compiler_compile_port A (lib_c L) cc (Some port) APX_UNPACK_PROGRAM = (APX_NO_ERROR, Some prog, cc') \<and>
     apx_vm_select_program L vm (Some prog) = (APX_NO_ERROR, vm1) \<and>
     apx_vm_set_read_buffer vm1 (Some data) = (APX_NO_ERROR, vm2) \<and>
     apx_vm_unpack_value L vm2 =
       Some (if within_limits sh v then APX_NO_ERROR else APX_VALUE_RANGE_ERROR, r, vm3) \<and>
     map_option \<alpha> r = (if within_limits sh v then Some (canon sh v) else None) \<and>
     ds_stack (vm_deserializer vm3) = [] \<and> ds_free (vm_deserializer vm3) = ds_free (vm_deserializer vm)"
proof -
  obtain hdr prog cc' vm1 where p: "apx_compiler_compile_port A (lib_c L) cc (Some port) APX_UNPACK_PROGRAM =
      (APX_NO_ERROR, Some prog, cc')" "apx_vm_select_program L vm (Some prog) = (APX_NO_ERROR, vm1)"
    and at: "at_bytes hdr (code (lib_c L) APX_UNPACK_PROGRAM sh) (vm_decoder vm1)"
    "ph_program_type (vm_program_header vm1) = APX_UNPACK_PROGRAM" and d: "vm_deserializer vm1 = vm_deserializer vm"
    using program_selected [OF L A de sh size, of cc APX_UNPACK_PROGRAM vm] by blast
  from unpack_selected [OF L at sh(2) val rd] p d vm show ?thesis by auto
qed

text \<open>An array of two numbers with limits, as an example of a value that is refused.\<close>

definition limited_element :: apx_dataElement where
  "limited_element = DataElement None None 2 0 APX_TYPE_CODE_UINT8 False True 0 7 (TypeRefId 0)"

definition limited_shape :: shape where
  "limited_shape = NumArray APX_TYPE_CODE_UINT8 (Some (0, 7)) 2 False"

lemma limited_facts:
  "shape_of limited_element = Some limited_shape" "wf_shape limited_shape" "shape_size limited_shape = 2" "depth limited_shape = 0"
  "layout (without_limits limited_shape) (DvArray [DvInt 3, DvInt 9]) = Some [Some 3, Some 9]"
  "\<not> within_limits limited_shape (DvArray [DvInt 3, DvInt 9])"
  "readable (without_limits limited_shape) (DvArray [DvInt 3, DvInt 9])"
  "limits_decided limited_shape (DvArray [DvInt 3, DvInt 9])"
proof -
  show "shape_of limited_element = Some limited_shape"
    using exI [of Not False] by (simp add: limited_element_def limited_shape_def shape_of.simps leaf_shape_def limits_of_def)
  show "layout (without_limits limited_shape) (DvArray [DvInt 3, DvInt 9]) = Some [Some 3, Some 9]"
    by (simp add: limited_shape_def int_fits_def in_limits_def num_size_def array_layout_def int_bytes_def)
  show "\<not> within_limits limited_shape (DvArray [DvInt 3, DvInt 9])" "limits_decided limited_shape (DvArray [DvInt 3, DvInt 9])"
    by (simp_all add: limited_shape_def dv_in_limits_def check_exact_def)
qed (simp_all add: limited_shape_def wf_limits_def int_fits_def num_size_def)

lemma demo_vm_reads:
  "ds_stack (vm_deserializer demo_vm) = []" "\<not> qr_is_active (ds_queue (vm_deserializer demo_vm))"
  "ds_free (vm_deserializer demo_vm) = 3"
  by (simp_all add: demo_vm_def apx_vm_create_def apx_vm_serializer_create_def apx_vm_deserializer_create_def
      queued_read_state_init_def numeral_eq_Suc)

theorem unpack_value_correct_witness:
  "\<exists>prog cc' vm1 vm2 vm3.
     apx_compiler_compile_port adt_lists (lib_c lib_ref) apx_compiler_create
       (Some \<lparr>port_effective_data_element = Some limited_element, port_queue_length = 0\<rparr>) APX_UNPACK_PROGRAM =
         (APX_NO_ERROR, Some prog, cc') \<and>
     apx_vm_select_program lib_ref demo_vm (Some prog) = (APX_NO_ERROR, vm1) \<and>
     apx_vm_set_read_buffer vm1 (Some [3, 9, 0]) = (APX_NO_ERROR, vm2) \<and>
     apx_vm_unpack_value lib_ref vm2 = Some (APX_VALUE_RANGE_ERROR, None, vm3)"
proof -
  have a: "agrees 0 [Some 3, Some 9] [3, 9, 0 :: byte]" by (auto simp: agrees_def nth_Cons split: nat.splits)
  from unpack_value_correct [OF lib_ref_documented adt_lists_append _ limited_facts(1,2) _ _ limited_facts(5) a
      limited_facts(7,8) demo_vm_reads(1,2), of "\<lparr>port_effective_data_element = Some limited_element, port_queue_length = 0\<rparr>"
      apx_compiler_create] limited_facts(6)
  show ?thesis by (auto simp: limited_facts(3,4) header_data_size_def)
qed

text \<open>
  C3: What one node packs another one unpacks, within what the deserializer is able to read. With the pack program
  and the unpack program that the compiler makes of the same port, the buffer that the first machine has written, read by the
  second, gives the value back (its records with their fields in the order of the shape), for every value that has a
  layout, is \<open>readable\<close> and has its limits decided (\<open>limits_decided\<close>). These leave out, as for C2: limits on
  fields of records, which pack and do not unpack (\<open>limited_field_never_unpacks\<close>); empty dynamic arrays and texts, empty
  arrays of numbers or bytes; texts with null characters; and limits that the signed range checks of the
  deserializer do not decide, such as an upper limit of \<open>2^31\<close> or more of an unsigned 32 bit number.
\<close>

theorem pack_unpack_roundtrip:
  assumes L: "lib_documented L \<alpha>" and A: "bytearray_appends A"
    and de: "port_effective_data_element port = Some de" and sh: "shape_of de = Some sh" "wf_shape sh"
    and size: "header_data_size (word_of_nat (shape_size sh)) (port_queue_length port) \<le> unat UINT32_MAX"
      "shape_size sh < 2 ^ 32" "shape_size sh \<le> length data"
    and val: "layout sh (\<alpha> w) = Some ly" and rd: "readable (without_limits sh) (\<alpha> w)" "limits_decided sh (\<alpha> w)"
    and sender: "sr_stack (vm_serializer s) = []" "\<not> qw_is_active (sr_queue (vm_serializer s))"
      "depth sh \<le> sr_free (vm_serializer s)"
    and receiver: "ds_stack (vm_deserializer r) = []" "\<not> qr_is_active (ds_queue (vm_deserializer r))"
      "depth sh \<le> ds_free (vm_deserializer r)"
  shows "\<exists>p q cc1 cc2 s1 s2 s3 r1 r2 u r3.
     apx_compiler_compile_port A (lib_c L) cc (Some port) APX_PACK_PROGRAM = (APX_NO_ERROR, Some p, cc1) \<and>
     apx_vm_select_program L s (Some p) = (APX_NO_ERROR, s1) \<and>
     apx_vm_set_write_buffer s1 (Some data) = (APX_NO_ERROR, s2) \<and>
     apx_vm_pack_value L s2 (Some w) = Some (APX_NO_ERROR, s3) \<and>
     apx_compiler_compile_port A (lib_c L) cc1 (Some port) APX_UNPACK_PROGRAM = (APX_NO_ERROR, Some q, cc2) \<and>
     apx_vm_select_program L r (Some q) = (APX_NO_ERROR, r1) \<and>
     apx_vm_set_read_buffer r1 (Some (wb_data (sr_buffer (vm_serializer s3)))) = (APX_NO_ERROR, r2) \<and>
     apx_vm_unpack_value L r2 = Some (APX_NO_ERROR, Some u, r3) \<and> \<alpha> u = canon sh (\<alpha> w)"
proof -
  obtain h1 p cc1 s1 where p: "apx_compiler_compile_port A (lib_c L) cc (Some port) APX_PACK_PROGRAM =
      (APX_NO_ERROR, Some p, cc1)" "apx_vm_select_program L s (Some p) = (APX_NO_ERROR, s1)"
    and at1: "at_bytes h1 (code (lib_c L) APX_PACK_PROGRAM sh) (vm_decoder s1)"
    "ph_program_type (vm_program_header s1) = APX_PACK_PROGRAM" and s1: "vm_serializer s1 = vm_serializer s"
    using program_selected [OF L A de sh size(1,2), of cc APX_PACK_PROGRAM s] by blast
  obtain s2 s3 where s: "apx_vm_set_write_buffer s1 (Some data) = (APX_NO_ERROR, s2)"
    "apx_vm_pack_value L s2 (Some w) = Some (APX_NO_ERROR, s3)" "wb_data (sr_buffer (vm_serializer s3)) = overlay 0 ly data"
    using pack_selected [OF L at1 sh(2) size(2,3) val] s1 sender by auto
  obtain h2 q cc2 r1 where q: "apx_compiler_compile_port A (lib_c L) cc1 (Some port) APX_UNPACK_PROGRAM =
      (APX_NO_ERROR, Some q, cc2)" "apx_vm_select_program L r (Some q) = (APX_NO_ERROR, r1)"
    and at2: "at_bytes h2 (code (lib_c L) APX_UNPACK_PROGRAM sh) (vm_decoder r1)"
    "ph_program_type (vm_program_header r1) = APX_UNPACK_PROGRAM" and r1: "vm_deserializer r1 = vm_deserializer r"
    using program_selected [OF L A de sh size(1,2), of cc1 APX_UNPACK_PROGRAM r] by blast
  have ag: "agrees 0 ly (wb_data (sr_buffer (vm_serializer s3)))"
    unfolding s(3) using size(3) layout_length(1) [OF val] by (intro overlay_agrees) simp
  note w = layout_within [OF val sh(2)]
  obtain r2 o3 r3 where "apx_vm_set_read_buffer r1 (Some (wb_data (sr_buffer (vm_serializer s3)))) = (APX_NO_ERROR, r2)"
    "apx_vm_unpack_value L r2 = Some (APX_NO_ERROR, o3, r3)" "map_option \<alpha> o3 = Some (canon sh (\<alpha> w))"
    using unpack_selected [OF L at2 sh(2) conjunct1 [OF w] ag rd] w r1 receiver by auto
  with p s(1,2) q show ?thesis by (cases o3) auto
qed

text \<open>The record of the packing example without the limits of its first field.\<close>

definition plain_element :: apx_dataElement where
  "plain_element = DataElement None (Some
     [DataElement (Some [97]) None 0 0 APX_TYPE_CODE_UINT8 False False 0 0 (TypeRefId 0),
      DataElement (Some [98]) None 3 0 APX_TYPE_CODE_UINT16 True False 0 0 (TypeRefId 0),
      DataElement (Some [99]) None 4 0 APX_TYPE_CODE_CHAR False False 0 0 (TypeRefId 0)])
     0 0 APX_TYPE_CODE_RECORD False False 0 0 (TypeRefId 0)"

definition plain_shape :: shape where
  "plain_shape = Rec [([97], Num APX_TYPE_CODE_UINT8 None),
     ([98], NumArray APX_TYPE_CODE_UINT16 None 3 True), ([99], Chars APX_TYPE_CODE_CHAR 4 False)]"

lemma plain_facts:
  "shape_of plain_element = Some plain_shape" "wf_shape plain_shape" "shape_size plain_shape = 12" "depth plain_shape = 1"
  "layout plain_shape demo_value = Some demo_layout" "readable (without_limits plain_shape) demo_value"
  "limits_decided plain_shape demo_value" "canon plain_shape demo_value = demo_value"
proof -
  have "replicate 2 x = [x, x]" for x :: "byte option" by (simp add: numeral_2_eq_2)
  then show "layout plain_shape demo_value = Some demo_layout"
    by (simp add: plain_shape_def demo_value_def demo_layout_def int_fits_def in_limits_def
      num_size_def length_size_def array_layout_def int_bytes_def)
  show "shape_of plain_element = Some plain_shape"
    by (auto simp: plain_element_def plain_shape_def shape_of.simps leaf_shape_def limits_of_def field_name_def derived_def
      apx_dataElement_derive_data_element_def Let_def)
qed (simp_all add: plain_shape_def demo_value_def num_size_def length_size_def)

theorem pack_unpack_roundtrip_witness:
  "\<exists>p q cc1 cc2 s1 s2 s3 r1 r2 r3.
     apx_compiler_compile_port adt_lists (lib_c lib_ref) apx_compiler_create
       (Some \<lparr>port_effective_data_element = Some plain_element, port_queue_length = 0\<rparr>) APX_PACK_PROGRAM =
         (APX_NO_ERROR, Some p, cc1) \<and>
     apx_vm_select_program lib_ref demo_vm (Some p) = (APX_NO_ERROR, s1) \<and>
     apx_vm_set_write_buffer s1 (Some (replicate 12 0)) = (APX_NO_ERROR, s2) \<and>
     apx_vm_pack_value lib_ref s2 (Some demo_value) = Some (APX_NO_ERROR, s3) \<and>
     apx_compiler_compile_port adt_lists (lib_c lib_ref) cc1
       (Some \<lparr>port_effective_data_element = Some plain_element, port_queue_length = 0\<rparr>) APX_UNPACK_PROGRAM =
         (APX_NO_ERROR, Some q, cc2) \<and>
     apx_vm_select_program lib_ref demo_vm (Some q) = (APX_NO_ERROR, r1) \<and>
     apx_vm_set_read_buffer r1 (Some (wb_data (sr_buffer (vm_serializer s3)))) = (APX_NO_ERROR, r2) \<and>
     apx_vm_unpack_value lib_ref r2 = Some (APX_NO_ERROR, Some demo_value, r3)"
  using pack_unpack_roundtrip [OF lib_ref_documented adt_lists_append _ plain_facts(1,2) _ _ _ plain_facts(5-7)
      demo_vm_facts(1,2) _ demo_vm_reads(1,2), of "\<lparr>port_effective_data_element = Some plain_element, port_queue_length = 0\<rparr>"
      "replicate 12 0" apx_compiler_create]
  by (auto simp: plain_facts(3,4,8) demo_vm_facts(3) demo_vm_reads(3) header_data_size_def)

end
