(* ===== verification/VmSafety.thy ===== *)
theory VmSafety
  imports Loops UnpackCorrect
begin

text \<open>
  The interpreters on arbitrary programs: what the operations of serializer and deserializer keep,
  that they make no memory fault, and that they get on. The invariants hold on every path, the
  errors included.
\<close>

section \<open>The serializer\<close>

text \<open>
  \<open>N\<close> states are in use or free, the buffer has \<open>M\<close> bytes and the write position lies in it.
\<close>

definition write_inv :: "nat \<Rightarrow> nat \<Rightarrow> 'v apx_vm_serializer \<Rightarrow> bool" where
  "write_inv N M s \<longleftrightarrow> sr_free s + length (sr_stack s) = N \<and> length (wb_data (sr_buffer s)) = M \<and>
     (\<forall>n. wb_next (sr_buffer s) = Some n \<longrightarrow> n \<le> M)"

named_theorems keeps_write

lemma on_state_keeps [keeps_write]: "write_inv N M s \<Longrightarrow> write_inv N M (snd (on_state f s))"
  by (auto simp: on_state_def write_inv_def split: prod.split)

lemma sr_state_keeps [keeps_write]: "write_inv N M s \<Longrightarrow> write_inv N M (s\<lparr>sr_state := st\<rparr>)"
  by (simp add: write_inv_def)

lemma sr_queue_keeps [keeps_write]: "write_inv N M s \<Longrightarrow> write_inv N M (s\<lparr>sr_queue := q\<rparr>)"
  by (simp add: write_inv_def)

lemma padded_keeps [keeps_write]: "write_inv N M s \<Longrightarrow> write_inv N M (s\<lparr>sr_buffer := (sr_buffer s)\<lparr>wb_padded_next := p\<rparr>\<rparr>)"
  by (simp add: write_inv_def)

lemma at_next_keeps:
  "write_inv N M s \<Longrightarrow> (\<And>n. n \<le> M \<Longrightarrow> write_inv N M (snd (f n))) \<Longrightarrow> write_inv N M (snd (at_next f s))"
  by (auto simp: at_next_def write_inv_def split: option.split)

lemma write_bytes_keeps [keeps_write]: "write_inv N M s \<Longrightarrow> write_inv N M (snd (write_bytes n bs s))"
  by (auto simp: write_bytes_def write_inv_def mem_write_length split: option.split)

lemma set_next_keeps: "write_inv N M s \<Longrightarrow> n \<le> M \<Longrightarrow> write_inv N M (set_next n s)"
  by (simp add: write_inv_def set_next_def)

lemma pop_states_length: "pop_states ps st free = (ps', st', free') \<Longrightarrow> free' + length ps' = free + length ps"
  by (induction ps st free rule: pop_states.induct) (auto split: if_splits)

lemma pop_keeps [keeps_write]: "write_inv N M s \<Longrightarrow> write_inv N M (serializer_pop_state s)"
  by (auto simp: serializer_pop_state_def write_inv_def dest: pop_states_length split: prod.split)

lemma enter_keeps [keeps_write]: "write_inv N M s \<Longrightarrow> write_inv N M (snd (serializer_enter_new_child_state s))"
  by (auto simp: serializer_enter_new_child_state_def write_inv_def split: nat.split)

lemma write_bytes_ok: "fst (write_bytes n bs s) = APX_NO_ERROR \<Longrightarrow> n + length bs \<le> length (wb_data (sr_buffer s))"
  by (auto simp: write_bytes_def mem_write_def split: if_splits)

lemma write_dynamic_keeps [keeps_write]:
  assumes s: "write_inv N M s"
  shows "write_inv N M (snd (serializer_write_dynamic_value_to_buffer C value k s))"
  unfolding serializer_write_dynamic_value_to_buffer_def
proof (rule at_next_keeps [OF s])
  fix n assume "n \<le> M"
  let ?w = "write_dynamic_value_to_buffer C n (length (wb_data (sr_buffer s))) value k s"
  have w: "write_inv N M (snd ?w)" using s write_bytes_keeps [OF s] by (simp add: write_dynamic_value_to_buffer_def)
  have "fst ?w = APX_NO_ERROR \<Longrightarrow> n + k \<le> M"
    using s by (simp add: write_dynamic_value_to_buffer_def write_inv_def split: if_splits)
  with w show "write_inv N M (snd (andThen ?w (\<lambda>self. (APX_NO_ERROR, set_next (n + k) self))))"
    by (cases ?w) (simp add: andThen_def set_next_keeps)
qed

lemma pack_scalar_internal_keeps [keeps_write]:
  assumes s: "write_inv N M s"
  shows "write_inv N M (snd (serializer_pack_scalar_value_internal C s))"
  unfolding serializer_pack_scalar_value_internal_def Let_def
proof (rule at_next_keeps [OF s])
  fix n
  let ?size = "unat (ws_element_size (sr_state s))"
  obtain e bs where b: "scalar_bytes C (sr_state s) = (e, bs)" by fastforce
  have M: "length (wb_data (sr_buffer s)) = M" using s by (simp add: write_inv_def)
  obtain e' t where w: "write_bytes n bs s = (e', t)" by fastforce
  then have "write_inv N M t" using write_bytes_keeps [OF s, of n bs] by simp
  then show "write_inv N M (snd (if n + ?size \<le> length (wb_data (sr_buffer s)) then
            (case scalar_bytes C (sr_state s) of (e, bs) \<Rightarrow>
               if is_fault e then (e, s)
               else if e = APX_NO_ERROR then
                 andThen (write_bytes n bs s) (\<lambda>self. (APX_NO_ERROR, set_next (n + ?size) self))
               else (e, set_next (n + ?size) s))
          else (APX_BUFFER_BOUNDARY_ERROR, s)))"
    using s by (simp add: b M w andThen_def set_next_keeps)
qed

text \<open>Conditionals, sequences and assertions of operations that keep the invariant.\<close>

lemma seq_keeps [keeps_write]: "write_inv N M (snd r) \<Longrightarrow> (\<And>s. write_inv N M s \<Longrightarrow> write_inv N M (snd (f s))) \<Longrightarrow> write_inv N M (snd (andThen r f))"
  by (rule andThen_inv)

lemma assert_keeps [keeps_write]: "write_inv N M (snd r) \<Longrightarrow> write_inv N M s \<Longrightarrow> write_inv N M (snd (c_assert c r s))"
  by (rule c_assert_inv)

lemma pack_scalar_keeps [keeps_write]: "write_inv N M s \<Longrightarrow> write_inv N M (snd (serializer_pack_scalar_value L s))"
  unfolding serializer_pack_scalar_value_def
  by (auto intro!: keeps_write split: apx_rangeCheckState.split)

lemma pack_record_keeps [keeps_write]: "write_inv N M s \<Longrightarrow> write_inv N M (snd (serializer_pack_record_value L s))"
  unfolding serializer_pack_record_value_def Let_def
  by (auto intro!: keeps_write split: option.split)

lemma pack_scalar_elements_keeps [keeps_write]: "write_inv N M s \<Longrightarrow> write_inv N M (snd (pack_scalar_elements L i k s))"
  by (induction k arbitrary: i s) (auto intro!: keeps_write)

lemma pack_array_keeps [keeps_write]: "write_inv N M s \<Longrightarrow> write_inv N M (snd (serializer_pack_array_of_scalar L s))"
  unfolding serializer_pack_array_of_scalar_def Let_def
  by (auto intro!: keeps_write split: apx_rangeCheckState.split)

lemma pack_char_string_keeps [keeps_write]: "write_inv N M s \<Longrightarrow> write_inv N M (snd (serializer_pack_char_string str k n s))"
  unfolding serializer_pack_char_string_def Let_def by (auto intro!: keeps_write)

lemma then_set_next_keeps [keeps_write]:
  "write_inv N M (snd r) \<Longrightarrow> n \<le> M \<Longrightarrow> write_inv N M (snd (andThen r (\<lambda>s. (APX_NO_ERROR, set_next n s))))"
  by (auto intro!: seq_keeps set_next_keeps)

lemma pack_string_keeps [keeps_write]:
  assumes s: "write_inv N M s"
  shows "write_inv N M (snd (serializer_pack_string L s))"
proof -
  have M: "length (wb_data (sr_buffer s)) = M" using s by (simp add: write_inv_def)
  show ?thesis
    unfolding serializer_pack_string_def Let_def
    by (auto simp: M s intro!: at_next_keeps [OF s] keeps_write split: prod.split)
qed

lemma pack_byte_array_keeps [keeps_write]:
  assumes s: "write_inv N M s"
  shows "write_inv N M (snd (serializer_pack_byte_array_internal L s))"
proof -
  have M: "length (wb_data (sr_buffer s)) = M" using s by (simp add: write_inv_def)
  show ?thesis
    unfolding serializer_pack_byte_array_internal_def Let_def
    by (auto simp: M s intro!: at_next_keeps [OF s] keeps_write split: option.split)
qed

lemma prepare_write_keeps [keeps_write]:
  assumes s: "write_inv N M s"
  shows "write_inv N M (snd (serializer_prepare_for_buffer_write s tc es))"
  using s unfolding serializer_prepare_for_buffer_write_def
  by (auto intro!: seq_keeps sr_state_keeps split: option.split) (simp add: write_inv_def)

lemma prepare_array_keeps [keeps_write]:
  assumes s: "write_inv N M s"
  shows "write_inv N M (snd (serializer_prepare_for_array L s n dst))"
  using s unfolding serializer_prepare_for_array_def Let_def
  by (auto intro!: keeps_write at_next_keeps) (simp add: write_inv_def)

lemma pack_value_keeps [keeps_write]: "write_inv N M s \<Longrightarrow> write_inv N M (snd (serializer_pack_value L s))"
  unfolding serializer_pack_value_def Let_def pack_without_elements_def pack_elements_def
  by (auto intro!: keeps_write)

lemma pack_as_keeps [keeps_write]: "write_inv N M s \<Longrightarrow> write_inv N M (snd (pack_as L tc es s n dst))"
  unfolding pack_as_def by (intro keeps_write)

lemma record_select_keeps [keeps_write]:
  "write_inv N M s \<Longrightarrow> write_inv N M (snd (apx_vm_serializer_record_select L s key lst))"
  unfolding apx_vm_serializer_record_select_def Let_def
  by (auto intro!: keeps_write split: option.split)

lemma array_next_keeps [keeps_write]:
  "write_inv N M s \<Longrightarrow> write_inv N M (snd (snd (apx_vm_serializer_array_next L s)))"
  unfolding apx_vm_serializer_array_next_def Let_def
  by (auto intro!: keeps_write split: option.split)

lemma range_checks_keep [keeps_write]:
  "write_inv N M s \<Longrightarrow> write_inv N M (snd (apx_vm_serializer_check_value_range_int32 L s a b))"
  "write_inv N M s \<Longrightarrow> write_inv N M (snd (apx_vm_serializer_check_value_range_uint32 L s a b))"
  "write_inv N M s \<Longrightarrow> write_inv N M (snd (apx_vm_serializer_check_value_range_int64 L s x y))"
  "write_inv N M s \<Longrightarrow> write_inv N M (snd (apx_vm_serializer_check_value_range_uint64 L s x y))"
  by (auto simp: apx_vm_serializer_check_value_range_int32_def apx_vm_serializer_check_value_range_uint32_def
      apx_vm_serializer_check_value_range_int64_def apx_vm_serializer_check_value_range_uint64_def intro!: keeps_write)

section \<open>The deserializer\<close>

text \<open>
  \<open>N\<close> states are in use or free and the buffer is not changed. The states on the stack are records under
  construction or arrays of records, so that a finished child always finds a parent that can take it. The
  read position is less than \<open>2^32\<close> behind the buffer: a terminated string of fixed size sets it behind
  its array without a look at the end. The loads themselves are inside: those outside are faults.
\<close>

definition in_reach :: "byte list \<Rightarrow> nat \<Rightarrow> bool" where
  "in_reach bs n \<longleftrightarrow> n < length bs + 2 ^ 32"

lemma in_reach_inside [simp]: "n \<le> length bs \<Longrightarrow> in_reach bs n"
  by (simp add: in_reach_def)

definition read_inv :: "nat \<Rightarrow> byte list \<Rightarrow> 'v apx_vm_deserializer \<Rightarrow> bool" where
  "read_inv N bs d \<longleftrightarrow> ds_free d + length (ds_stack d) = N \<and> rb_data (ds_buffer d) = bs \<and>
     (\<forall>p\<in>set (ds_stack d). rs_type_code p = APX_TYPE_CODE_RECORD \<and> rs_value_type p \<in> {DTL_DV_HASH, DTL_DV_ARRAY}) \<and>
     (rs_value_type (ds_state d) = DTL_DV_HASH \<longrightarrow> rs_type_code (ds_state d) = APX_TYPE_CODE_RECORD) \<and>
     (\<forall>n. rb_next (ds_buffer d) = Some n \<longrightarrow> in_reach bs n)"

definition memory_fault :: "apx_error \<Rightarrow> bool" where
  "memory_fault e \<longleftrightarrow> e = FAULT OUT_OF_BOUNDS \<or> e = FAULT USE_AFTER_FREE"

lemma memory_fault_simps [simp]:
  "memory_fault (FAULT OUT_OF_BOUNDS)" "memory_fault (FAULT USE_AFTER_FREE)" "\<not> memory_fault (FAULT ASSERT_FAILURE)"
  "\<not> is_fault e \<Longrightarrow> \<not> memory_fault e"
  by (auto simp: memory_fault_def)

text \<open>An operation that keeps the invariant and the position and makes no memory fault.\<close>

definition safe_rd :: "nat \<Rightarrow> byte list \<Rightarrow> apx_error \<times> 'v apx_vm_deserializer \<Rightarrow> bool" where
  "safe_rd N bs r \<longleftrightarrow> \<not> memory_fault (fst r) \<and> read_inv N bs (snd r) \<and> rb_next (ds_buffer (snd r)) \<noteq> None"

definition placed :: "nat \<Rightarrow> byte list \<Rightarrow> 'v apx_vm_deserializer \<Rightarrow> bool" where
  "placed N bs d \<longleftrightarrow> read_inv N bs d \<and> rb_next (ds_buffer d) \<noteq> None"

named_theorems safe_read

lemma placed_safe: "placed N bs d \<Longrightarrow> \<not> memory_fault e \<Longrightarrow> safe_rd N bs (e, d)"
  by (simp add: placed_def safe_rd_def)

lemma seq_safe [safe_read]:
  "safe_rd N bs r \<Longrightarrow> (\<And>d. placed N bs d \<Longrightarrow> safe_rd N bs (f d)) \<Longrightarrow> safe_rd N bs (andThen r f)"
  by (cases r) (auto simp: andThen_def safe_rd_def placed_def)

lemma assert_safe [safe_read]: "(c \<Longrightarrow> safe_rd N bs r) \<Longrightarrow> placed N bs d \<Longrightarrow> safe_rd N bs (c_assert c r d)"
  by (simp add: c_assert_def placed_safe)

lemma on_state_rd_safe:
  assumes d: "placed N bs d"
    and f: "f (ds_state d) = (e, st)" "\<not> memory_fault e" "rs_type_code st = rs_type_code (ds_state d)"
      "rs_value_type st = DTL_DV_HASH \<Longrightarrow> rs_type_code (ds_state d) = APX_TYPE_CODE_RECORD"
  shows "safe_rd N bs (on_state_rd f d)"
  using assms by (simp add: on_state_rd_def safe_rd_def placed_def read_inv_def)

lemma reading_safe:
  assumes d: "placed N bs d"
    and f: "\<And>n e m st. f bs n (ds_state d) = (e, m, st) \<Longrightarrow> \<not> memory_fault e \<and> rs_type_code st = rs_type_code (ds_state d) \<and>
      rs_value_type st = rs_value_type (ds_state d) \<and> (in_reach bs n \<longrightarrow> in_reach bs m)"
  shows "safe_rd N bs (reading f d)"
proof -
  obtain n where n: "rb_next (ds_buffer d) = Some n" using d by (auto simp: placed_def)
  have data: "rb_data (ds_buffer d) = bs" using d by (simp add: placed_def read_inv_def)
  obtain e m st where r: "f bs n (ds_state d) = (e, m, st)" by (metis prod_cases3)
  from f [OF r] d show ?thesis
    by (simp add: reading_def at_next_rd_def n data r safe_rd_def placed_def read_inv_def set_next_rd_def)
qed

text \<open>The functions on read states make no memory fault and leave type code and kind alone.\<close>

definition steady :: "'v apx_vm_readState \<Rightarrow> apx_error \<times> 'v apx_vm_readState \<Rightarrow> bool" where
  "steady st r \<longleftrightarrow> \<not> memory_fault (fst r) \<and> rs_type_code (snd r) = rs_type_code st \<and> rs_value_type (snd r) = rs_value_type st"

text \<open>The same for the functions that read the buffer \<open>bs\<close> at \<open>n\<close>: the position stays in reach, too.\<close>

definition steady_read ::
  "byte list \<Rightarrow> nat \<Rightarrow> 'v apx_vm_readState \<Rightarrow> apx_error \<times> nat \<times> 'v apx_vm_readState \<Rightarrow> bool" where
  "steady_read bs n st r \<longleftrightarrow> steady st (fst r, snd (snd r)) \<and> (in_reach bs n \<longrightarrow> in_reach bs (fst (snd r)))"

lemma steady_readD: "steady_read bs n st (e, m, st') \<Longrightarrow> steady st (e, st')"
  by (simp add: steady_read_def)

lemma init_value_cases:
  "init_value new kind st = (e, st') \<Longrightarrow> \<not> memory_fault e \<and> rs_type_code st' = rs_type_code st \<and>
     (rs_value_type st' = kind \<or> rs_value_type st' = rs_value_type st) \<and>
     (e = APX_NO_ERROR \<longrightarrow> rs_value_type st' = kind) \<and> (e \<noteq> APX_NO_ERROR \<longrightarrow> rs_value_type st' = rs_value_type st)"
  by (auto simp: init_value_def c_assert_def split: if_splits)

lemma steady_read_scalar: "steady_read bs n st (state_read_scalar_value_rd C bs n st)"
proof (cases "rs_element_size st = 0 \<or> unat (rs_element_size st) > length bs - n")
  case True
  then show ?thesis by (auto simp: state_read_scalar_value_rd_def steady_read_def steady_def Let_def)
next
  case False
  then have "0 < unat (rs_element_size st)" by (simp add: unat_gt_0)
  with False have "n + 1 \<le> length bs" "n + unat (rs_element_size st) \<le> length bs" by linarith+
  with False show ?thesis
    by (cases "rs_type_code st") (simp_all add: state_read_scalar_value_rd_def steady_read_def steady_def Let_def)
qed

lemma steady_set_scalar: "steady st (state_set_scalar_value_from_storage D st)"
  by (auto simp: state_set_scalar_value_from_storage_def steady_def Let_def c_assert_def split: scalar_storage_type.split)

text \<open>A number that was parsed lies in the buffer.\<close>

lemma parsed_inside:
  "apx_vm_parse_uint32_by_size_type C (drop n bs) t = Some (x, k) \<Longrightarrow> n + k \<le> length bs"
  by (auto simp: apx_vm_parse_uint32_by_size_type_def apx_vm_parse_uint32_by_variant_def Let_def split: if_splits)

lemma steady_length: "steady_read bs n st (state_determine_array_length_from_read_buffer C bs n st)"
  using parsed_inside [of C n bs "rs_dynamic_size_type st"]
  by (auto simp: state_determine_array_length_from_read_buffer_def steady_read_def steady_def split: option.split)

lemma steady_push: "steady st (state_push_array_value D st v)"
  by (auto simp: state_push_array_value_def steady_def)

lemma steady_byte_array: "steady_read bs n st (state_read_byte_array D bs n st)"
  by (auto simp: state_read_byte_array_def steady_read_def steady_def Let_def)

lemma steady_elements:
  "\<not> memory_fault r \<Longrightarrow> steady_read bs n st (unpack_scalar_elements L bs k n child st r)"
proof (induction k arbitrary: n child st r)
  case 0
  then show ?case by (simp add: steady_read_def steady_def)
next
  case (Suc k)
  obtain e1 c1 where i: "state_init_scalar_value (lib_d L) child = (e1, c1)" by fastforce
  then have n1: "\<not> memory_fault e1" using init_value_cases unfolding state_init_scalar_value_def by blast
  obtain e2 n2 c2 where rd: "state_read_scalar_value_rd (lib_c L) bs n c1 = (e2, n2, c2)" by (metis prod_cases3)
  have n2: "\<not> memory_fault e2" "in_reach bs n \<Longrightarrow> in_reach bs n2"
    using steady_read_scalar [of bs n c1 "lib_c L"] by (simp_all add: rd steady_read_def steady_def)
  obtain e3 c3 where se: "state_set_scalar_value_from_storage (lib_d L) c2 = (e3, c3)" by fastforce
  have n3: "\<not> memory_fault e3" using steady_set_scalar [of c2 "lib_d L"] se by (simp add: steady_def)
  obtain sv c4 where tk: "state_take_sv c3 = (sv, c4)" by fastforce
  obtain e5 s5 where pu: "state_push_array_value (lib_d L) st sv = (e5, s5)" by fastforce
  have n5: "steady st (e5, s5)" using steady_push [of st "lib_d L" sv] pu by simp
  note run = unpack_scalar_elements.simps(2) [of L bs k n child st r, unfolded i prod.case rd se tk pu]
  consider "is_fault e1" | "\<not> is_fault e1" "e1 \<noteq> APX_NO_ERROR" | "e1 = APX_NO_ERROR" "e2 \<noteq> APX_NO_ERROR"
    | "e1 = APX_NO_ERROR" "e2 = APX_NO_ERROR" "e3 \<noteq> APX_NO_ERROR"
    | "e1 = APX_NO_ERROR" "e2 = APX_NO_ERROR" "e3 = APX_NO_ERROR" "e5 \<noteq> APX_NO_ERROR"
    | "e1 = APX_NO_ERROR" "e2 = APX_NO_ERROR" "e3 = APX_NO_ERROR" "e5 = APX_NO_ERROR" by fastforce
  then show ?case
  proof cases
    case 2
    with run n1 Suc.IH [of e1 n st c1] show ?thesis by simp
  next
    case 6
    with run n2(2) n5 Suc.IH [of APX_NO_ERROR n2 s5 c4] show ?thesis by (simp add: steady_read_def steady_def)
  qed (use run n1 n2 n3 n5 in \<open>auto simp: steady_read_def steady_def\<close>)
qed

lemma on_state_steady [safe_read]:
  assumes "placed N bs d" and "steady (ds_state d) (f (ds_state d))"
  shows "safe_rd N bs (on_state_rd f d)"
  using assms by (cases "f (ds_state d)") (simp add: on_state_rd_def safe_rd_def placed_def read_inv_def steady_def)

lemma reading_steady [safe_read]:
  assumes "placed N bs d" and "\<And>n. steady_read bs n (ds_state d) (f bs n (ds_state d))"
  shows "safe_rd N bs (reading f d)"
  using assms(1) by (rule reading_safe) (metis assms(2) fst_conv snd_conv steady_def steady_read_def)

lemma init_safe [safe_read]:
  "placed N bs d \<Longrightarrow> safe_rd N bs (on_state_rd (state_init_scalar_value D) d)"
  "placed N bs d \<Longrightarrow> safe_rd N bs (on_state_rd (state_init_array_value D) d)"
  "placed N bs d \<Longrightarrow> rs_type_code (ds_state d) = APX_TYPE_CODE_RECORD \<Longrightarrow> safe_rd N bs (on_state_rd (state_init_hash_value D) d)"
  by (cases "init_value (sv_new D) DTL_DV_SCALAR (ds_state d)"; cases "init_value (av_new D) DTL_DV_ARRAY (ds_state d)";
      cases "init_value (hv_new D) DTL_DV_HASH (ds_state d)";
      use init_value_cases in \<open>fastforce simp: on_state_rd_def state_init_scalar_value_def state_init_array_value_def
        state_init_hash_value_def safe_rd_def placed_def read_inv_def\<close>)+

lemma steady_merge:
  "steady p (state_create_child_value_from_child_state D p child)" "steady p (state_push_value_from_child_state D p child)"
  by (auto simp: state_create_child_value_from_child_state_def state_push_value_from_child_state_def steady_def c_assert_def)

lemma merge_keeps:
  "merge_states D ps child free = (e, ps', st', free') \<Longrightarrow>
    \<forall>p\<in>set ps. rs_type_code p = APX_TYPE_CODE_RECORD \<and> rs_value_type p \<in> {DTL_DV_HASH, DTL_DV_ARRAY} \<Longrightarrow>
    (rs_value_type child = DTL_DV_HASH \<longrightarrow> rs_type_code child = APX_TYPE_CODE_RECORD) \<Longrightarrow>
    \<not> memory_fault e \<and> free' + length ps' = free + length ps \<and> set ps' \<subseteq> set ps \<and>
    (rs_value_type st' = DTL_DV_HASH \<longrightarrow> rs_type_code st' = APX_TYPE_CODE_RECORD)"
proof (induction ps arbitrary: child free)
  case (Cons p ps)
  define r where "r = (if rs_value_type p = DTL_DV_HASH then state_create_child_value_from_child_state D p child
               else if rs_value_type p = DTL_DV_ARRAY then state_push_value_from_child_state D p child
               else (FAULT USE_AFTER_FREE, p))"
  obtain e1 p1 where r1: "r = (e1, p1)" by fastforce
  have p: "rs_type_code p = APX_TYPE_CODE_RECORD" "rs_value_type p \<in> {DTL_DV_HASH, DTL_DV_ARRAY}" using Cons.prems(2) by auto
  then have "steady p r" by (auto simp: r_def steady_merge)
  then have st: "\<not> memory_fault e1" "rs_type_code p1 = APX_TYPE_CODE_RECORD" using r1 p by (simp_all add: steady_def)
  have run: "(e, ps', st', free') = (if e1 \<noteq> APX_NO_ERROR then (e1, ps, p1, Suc free)
      else if \<not> rs_is_last_field p1 then (APX_NO_ERROR, ps, p1, Suc free) else merge_states D ps p1 (Suc free))"
    using Cons.prems(1) p(1) r1 by (simp add: r_def split: if_splits)
  show ?case
  proof (cases "e1 \<noteq> APX_NO_ERROR \<or> \<not> rs_is_last_field p1")
    case True
    with run st show ?thesis by (auto split: if_splits)
  next
    case False
    with run have "merge_states D ps p1 (Suc free) = (e, ps', st', free')" by simp
    from Cons.IH [OF this] Cons.prems(2) st show ?thesis by auto
  qed
qed simp

lemma pop_safe [safe_read]:
  assumes d: "placed N bs d"
  shows "safe_rd N bs (deserializer_pop_state L d)"
proof -
  obtain e ps st free where m: "merge_states (lib_d L) (ds_stack d) (ds_state d) (ds_free d) = (e, ps, st, free)"
    by (metis prod_cases4)
  from merge_keeps [OF m] d show ?thesis
    by (auto simp: deserializer_pop_state_def m safe_rd_def placed_def read_inv_def)
qed

lemma enter_safe:
  assumes "placed N bs d" and "rs_type_code (ds_state d) = APX_TYPE_CODE_RECORD" and "rs_value_type (ds_state d) \<in> {DTL_DV_HASH, DTL_DV_ARRAY}"
  shows "safe_rd N bs (deserializer_enter_new_child_state d)"
  using assms
  by (auto simp: deserializer_enter_new_child_state_def safe_rd_def placed_def read_inv_def state_create_def split: nat.split)

lemma unpack_scalar_safe [safe_read]: "placed N bs d \<Longrightarrow> safe_rd N bs (deserializer_unpack_scalar_value L d)"
  unfolding deserializer_unpack_scalar_value_def
  by (intro safe_read steady_read_scalar steady_set_scalar)

lemma unpack_array_of_scalar_safe [safe_read]: "placed N bs d \<Longrightarrow> safe_rd N bs (deserializer_unpack_array_of_scalar L d)"
  unfolding deserializer_unpack_array_of_scalar_def
  by (intro safe_read) (auto intro: steady_elements)

text \<open>A null character that ends a string lies in the buffer, so the start of the string does.\<close>

lemma chars_inside:
  assumes "unpack_chars T bs dy (p + len) k n s r = (e, m, s')" and "\<not> memory_fault r" and "p \<le> n" and "len < 2 ^ 32"
  shows "\<not> memory_fault e \<and> (in_reach bs n \<longrightarrow> in_reach bs m)"
  using assms
proof (induction k arbitrary: n s r)
  case (Suc k)
  show ?case
  proof (cases "n + UINT8_SIZE \<le> length bs")
    case True
    with Suc.prems(3,4) have "in_reach bs (p + len)" "in_reach bs (Suc n)" by (auto simp: in_reach_def)
    with True Suc.prems Suc.IH [of "Suc n" "str_push T s (take UINT8_SIZE (drop n bs) ! 0)" r] show ?thesis
      by (auto simp: Let_def split: if_splits)
  next
    case False
    with Suc.prems Suc.IH [of n s APX_BUFFER_BOUNDARY_ERROR] show ?thesis by simp
  qed
qed simp

lemma steady_chars:
  "steady_read bs n st (case unpack_chars T bs dy (n + unat (rs_array_len st)) k n [] APX_NO_ERROR of
     (e, m, s) \<Rightarrow> (e, m, if e = APX_NO_ERROR then st\<lparr>rs_value := g s\<rparr> else st))"
proof -
  obtain e m s where r: "unpack_chars T bs dy (n + unat (rs_array_len st)) k n [] APX_NO_ERROR = (e, m, s)"
    by (metis prod_cases3)
  have "unat (rs_array_len st) < 2 ^ 32" using unsigned_less [of "rs_array_len st", where ?'a = nat] by simp
  with chars_inside [OF r] show ?thesis by (simp add: r steady_read_def steady_def)
qed

lemma unpack_string_safe [safe_read]: "placed N bs d \<Longrightarrow> safe_rd N bs (deserializer_unpack_string L d)"
  unfolding deserializer_unpack_string_def Let_def by (intro safe_read steady_chars)

lemma unpack_bytes_safe [safe_read]: "placed N bs d \<Longrightarrow> safe_rd N bs (deserializer_unpack_byte_array_internal L d)"
  unfolding deserializer_unpack_byte_array_internal_def
  by (intro safe_read) (auto intro: steady_byte_array)

lemma safe_relax: "safe_rd N bs r \<Longrightarrow> (\<not> memory_fault (fst r) \<longrightarrow> \<not> memory_fault e) \<Longrightarrow> safe_rd N bs (e, snd r)"
  by (auto simp: safe_rd_def)

lemma unpack_record_safe [safe_read]:
  assumes d: "placed N bs d" and tc: "rs_type_code (ds_state d) = APX_TYPE_CODE_RECORD"
  shows "safe_rd N bs (deserializer_unpack_record_value L d)"
proof -
  let ?child = "\<lambda>self. case state_init_hash_value (lib_d L) (ds_state self) of (e, st) \<Rightarrow>
      (e, self\<lparr>ds_state := state_set_type_and_size st APX_TYPE_CODE_RECORD 0\<rparr>)"
  let ?a = "on_state_rd (state_init_array_value (lib_d L)) d"
  have child: "safe_rd N bs (?child d)" if "placed N bs d" for d
  proof -
    obtain e st where "state_init_hash_value (lib_d L) (ds_state d) = (e, st)" by fastforce
    moreover from this have "\<not> memory_fault e" using init_value_cases unfolding state_init_hash_value_def by blast
    ultimately show ?thesis using that
      by (simp add: safe_rd_def placed_def read_inv_def state_set_type_and_size_def)
  qed
  have arr: "safe_rd N bs (andThen ?a (\<lambda>self. andThen (deserializer_enter_new_child_state self) ?child))"
  proof -
    obtain e st where i: "init_value (av_new (lib_d L)) DTL_DV_ARRAY (ds_state d) = (e, st)" by fastforce
    have a: "?a = (e, d\<lparr>ds_state := st\<rparr>)" by (simp add: on_state_rd_def state_init_array_value_def i)
    have sa: "safe_rd N bs ?a" using d by (intro safe_read)
    show ?thesis
    proof (cases "e = APX_NO_ERROR")
      case True
      with init_value_cases [OF i] tc have "rs_type_code st = APX_TYPE_CODE_RECORD" "rs_value_type st = DTL_DV_ARRAY" by auto
      then have "safe_rd N bs (deserializer_enter_new_child_state (d\<lparr>ds_state := st\<rparr>))"
        using sa a True by (intro enter_safe) (auto simp: safe_rd_def placed_def)
      then show ?thesis using True by (simp add: a) (intro seq_safe child)
    next
      case False
      then show ?thesis using sa by (simp add: a andThen_def)
    qed
  qed
  let ?r = "if rs_array_len (ds_state d) > 0 then andThen ?a (\<lambda>self. andThen (deserializer_enter_new_child_state self) ?child)
      else on_state_rd (state_init_hash_value (lib_d L)) d"
  have "safe_rd N bs ?r" using arr init_safe(3) [OF d tc] by simp
  then show ?thesis unfolding deserializer_unpack_record_value_def
    by (cases ?r) (auto simp: safe_rd_def)
qed

lemma prepare_read_array_safe [safe_read]:
  assumes d: "placed N bs d"
  shows "safe_rd N bs (deserializer_prepare_for_array L d n dst)"
proof -
  have next_safe: "safe_rd N bs (at_next_rd (\<lambda>n. (APX_NO_ERROR, d\<lparr>ds_buffer := (ds_buffer d)\<lparr>rb_padded_next := g n\<rparr>\<rparr>)) d)"
    if "placed N bs d" for d g
    using that by (auto simp: at_next_rd_def safe_rd_def placed_def read_inv_def)
  have length_read: "steady_read bs m st (state_determine_array_length_from_read_buffer C bs m
      (st\<lparr>rs_dynamic_size_type := t, rs_max_array_len := n\<rparr>))" for C m t n and st :: "'a apx_vm_readState"
    using steady_length [of bs m "st\<lparr>rs_dynamic_size_type := t, rs_max_array_len := n\<rparr>"]
    by (simp add: steady_read_def steady_def)
  show ?thesis
    unfolding deserializer_prepare_for_array_def
    using d by (auto intro!: safe_read next_safe placed_safe length_read)
      (auto simp: safe_rd_def placed_def read_inv_def)
qed

lemma unpack_value_safe [safe_read]:
  assumes d: "placed N bs d"
  shows "safe_rd N bs (deserializer_unpack_value L d n dst)"
proof -
  have pop: "safe_rd N bs (if c then (APX_NO_ERROR, d) else deserializer_pop_state L d)" if "placed N bs d" for c d
    using that by (auto intro!: safe_read placed_safe)
  show ?thesis
    unfolding deserializer_unpack_value_def Let_def unpack_without_elements_def unpack_elements_def
    using d by (intro seq_safe safe_read) (auto intro!: safe_read pop placed_safe simp: state_is_record_type_rd_def)
qed

text \<open>Without a position yet: the invariant and no memory fault.\<close>

definition sound_rd :: "nat \<Rightarrow> byte list \<Rightarrow> apx_error \<times> 'v apx_vm_deserializer \<Rightarrow> bool" where
  "sound_rd N bs r \<longleftrightarrow> \<not> memory_fault (fst r) \<and> read_inv N bs (snd r)"

lemma safe_sound: "safe_rd N bs r \<Longrightarrow> sound_rd N bs r"
  by (simp add: safe_rd_def sound_rd_def)

lemma unpack_as_sound:
  assumes d: "read_inv N bs d"
  shows "sound_rd N bs (unpack_as L tc es d n dst)"
proof (cases "deserializer_prepare_for_buffer_read d tc (word_of_nat es)")
  case (Pair e t)
  then have "\<not> memory_fault e \<and> read_inv N bs t \<and> (e = APX_NO_ERROR \<longrightarrow> placed N bs t)"
    using d by (auto simp: deserializer_prepare_for_buffer_read_def read_buffer_is_valid_def placed_def read_inv_def
        state_set_type_and_size_def state_reset_rd_def state_clear_value_rd_def andThen_def split: if_splits option.splits)
  then show ?thesis
    by (cases "e = APX_NO_ERROR") (auto simp: unpack_as_def Pair andThen_def sound_rd_def intro!: safe_sound [unfolded sound_rd_def] unpack_value_safe)
qed

lemma record_select_sound: 
  assumes d: "read_inv N bs d"
  shows "sound_rd N bs (apx_vm_deserializer_record_select L d key lst)"
proof (cases "rs_value_type (ds_state d) = DTL_DV_HASH")
  case True
  define d1 where "d1 = snd (on_state_rd (\<lambda>st. state_set_field_name_rd (lib_t L) st key lst) d)"
  have d1: "read_inv N bs d1" "rs_value_type (ds_state d1) = DTL_DV_HASH" "rs_type_code (ds_state d1) = APX_TYPE_CODE_RECORD"
    using d True by (auto simp: d1_def on_state_rd_def state_set_field_name_rd_def read_inv_def split: prod.split)
  have "read_inv N bs (snd (deserializer_enter_new_child_state d1))"
    using d1 by (auto simp: deserializer_enter_new_child_state_def read_inv_def state_create_def split: nat.split)
  with True show ?thesis
    by (simp add: apx_vm_deserializer_record_select_def Let_def d1_def sound_rd_def)
next
  case False
  with d show ?thesis by (simp add: apx_vm_deserializer_record_select_def sound_rd_def)
qed

lemma array_next_sound:
  assumes d: "read_inv N bs d" and r: "apx_vm_deserializer_array_next L d = (e, l, d')"
  shows "sound_rd N bs (e, d')"
proof -
  let ?st = "ds_state d" and ?d = "d\<lparr>ds_state := (ds_state d)\<lparr>rs_index := rs_index (ds_state d) + 1\<rparr>\<rparr>"
  have d1: "read_inv N bs ?d" using d by (simp add: read_inv_def)
  define q where "q = andThen (deserializer_enter_new_child_state ?d) (\<lambda>self.
                     andThen (on_state_rd (state_init_hash_value (lib_d L)) self) (\<lambda>self.
                       (APX_NO_ERROR, self\<lparr>ds_state :=
                          state_set_type_and_size (ds_state self) APX_TYPE_CODE_RECORD 0\<rparr>)))"
  have q: "sound_rd N bs q" if st: "rs_value_type ?st = DTL_DV_ARRAY" "rs_type_code ?st = APX_TYPE_CODE_RECORD"
  proof (cases "ds_free d")
    case 0
    then show ?thesis using d1 by (simp add: q_def deserializer_enter_new_child_state_def andThen_def sound_rd_def)
  next
    case (Suc f)
    obtain e2 t where i: "init_value (hv_new (lib_d L)) DTL_DV_HASH state_create = (e2, t)" by fastforce
    have "rs_value_type (state_create :: 'a apx_vm_readState) = DTL_DV_NULL" by (simp add: state_create_def)
    with init_value_cases [OF i] Suc d1 st show ?thesis
      by (cases "e2 = APX_NO_ERROR")
        (auto simp: q_def deserializer_enter_new_child_state_def on_state_rd_def state_init_hash_value_def i andThen_def
          sound_rd_def read_inv_def state_set_type_and_size_def)
  qed
  show ?thesis
    using r d1 d q
    by (cases q) (auto simp: apx_vm_deserializer_array_next_def Let_def q_def [symmetric] sound_rd_def split: if_splits)
qed

lemma check_range_elements_steady: "steady st (check_range_elements_rd D tc storage f i k st)"
  if "\<And>u. \<not> memory_fault (f u)"
proof (induction k arbitrary: i st)
  case (Suc k)
  have store: "steady st (state_store_scalar_array_value D st j tc)" for j
    by (auto simp: state_store_scalar_array_value_def state_store_scalar_value_def steady_def c_assert_def Let_def converted_rd_def
        split: prod.split)
  obtain e t where r: "state_store_scalar_array_value D st (sint (word_of_nat i :: u32)) tc = (e, t)" by fastforce
  have t: "steady st (e, t)" using store [of "sint (word_of_nat i :: u32)"] r by simp
  have c: "\<not> memory_fault (checked_rd storage f t)" using that by (simp add: checked_rd_def)
  from Suc.IH [where i = "Suc i" and st = t] t c show ?case by (simp add: r Let_def steady_def)
qed (simp add: steady_def)

lemma check_value_range_steady: "steady st (check_value_range_rd D tc storage atc astorage f st)"
  if f: "\<And>u. \<not> memory_fault (f u)"
proof -
  have store: "steady st (state_store_scalar_value D st v tc)" for v
    by (auto simp: state_store_scalar_value_def steady_def c_assert_def converted_rd_def split: prod.split)
  have c: "\<not> memory_fault (checked_rd storage f t)" for t using f by (simp add: checked_rd_def)
  note el = check_range_elements_steady [of f, OF f, of "st\<lparr>rs_range_check_state := APX_RANGE_CHECK_STATE_OK\<rparr>" D atc astorage]
  show ?thesis
    using store [of "rs_value st"] c el
    by (cases "state_store_scalar_value D st (rs_value st) tc")
      (auto simp: check_value_range_rd_def steady_def Let_def)
qed

lemma range_check_no_fault:
  "\<not> memory_fault (apx_vm_value_in_range_i32 a b c)" "\<not> memory_fault (apx_vm_value_in_range_i64 x y z)"
  "\<not> memory_fault (apx_vm_value_in_range_u64 x y z)"
  by (simp_all add: range_results range_result_def memory_fault_def)

lemma range_checks_sound:
  assumes d: "read_inv N bs d"
  shows "sound_rd N bs (apx_vm_deserializer_check_value_range_int32 L d a b)"
    and "sound_rd N bs (apx_vm_deserializer_check_value_range_uint32 L d a b)"
    and "sound_rd N bs (apx_vm_deserializer_check_value_range_int64 L d x y)"
    and "sound_rd N bs (apx_vm_deserializer_check_value_range_uint64 L d x y)"
proof -
  have "sound_rd N bs (on_state_rd f d)" if "steady (ds_state d) (f (ds_state d))" for f
    using that d by (cases "f (ds_state d)") (simp add: on_state_rd_def sound_rd_def read_inv_def steady_def)
  then show "sound_rd N bs (apx_vm_deserializer_check_value_range_int32 L d a b)"
    and "sound_rd N bs (apx_vm_deserializer_check_value_range_uint32 L d a b)"
    and "sound_rd N bs (apx_vm_deserializer_check_value_range_int64 L d x y)"
    and "sound_rd N bs (apx_vm_deserializer_check_value_range_uint64 L d x y)"
    unfolding apx_vm_deserializer_check_value_range_int32_def apx_vm_deserializer_check_value_range_uint32_def
      apx_vm_deserializer_check_value_range_int64_def apx_vm_deserializer_check_value_range_uint64_def
    by (simp_all add: check_value_range_steady range_check_no_fault)
qed

section \<open>The decoder\<close>

text \<open>
  A program is selected, and pointer and mark are at most one behind its end; being behind the end is an
  overrun.
\<close>

definition decoder_inv :: "apx_vm_decoder \<Rightarrow> bool" where
  "decoder_inv d \<longleftrightarrow> (\<exists>bs n. program d = Some bs \<and> program_next d = Some n \<and> n \<le> Suc (length bs) \<and>
     (\<forall>k. program_mark d = Some k \<longrightarrow> k \<le> Suc (length bs)))"

definition overrun :: "apx_vm_decoder \<Rightarrow> bool" where
  "overrun d \<longleftrightarrow> (\<exists>bs. program d = Some bs \<and> program_next d = Some (Suc (length bs)))"

definition left :: "apx_vm_decoder \<Rightarrow> nat" where
  "left d = (case (program d, program_next d) of (Some bs, Some n) \<Rightarrow> Suc (length bs) - n | _ \<Rightarrow> 0)"

lemma parse_keeps:
  assumes T: "scans T" and d: "decoder_inv d" and r: "apx_vm_decoder_parse_next_operation C T d = (e, op, d')"
  shows "decoder_inv d'" and "memory_fault e \<Longrightarrow> overrun d'" and "is_fault e \<Longrightarrow> memory_fault e"
    and "program_mark d' = program_mark d" and "op = None \<longleftrightarrow> e \<noteq> APX_NO_ERROR"
    and "e = APX_NO_ERROR \<Longrightarrow> left d' < left d \<or> op = Some APX_OPERATION_TYPE_PROGRAM_END"
proof -
  obtain bs n where b: "program d = Some bs" "program_next d = Some n" "n \<le> Suc (length bs)"
    "\<And>k. program_mark d = Some k \<Longrightarrow> k \<le> Suc (length bs)" using d by (auto simp: decoder_inv_def)
  have "decoder_inv d' \<and> (memory_fault e \<longrightarrow> overrun d') \<and> (is_fault e \<longrightarrow> memory_fault e) \<and>
    program_mark d' = program_mark d \<and> (op = None \<longleftrightarrow> e \<noteq> APX_NO_ERROR) \<and>
    (e = APX_NO_ERROR \<longrightarrow> left d' < left d \<or> op = Some APX_OPERATION_TYPE_PROGRAM_END)"
  proof -
    consider "n = length bs" | "n = Suc (length bs)" | "n < length bs" using b(3) by linarith
    then show ?thesis
    proof cases
      case 1
      with r b d show ?thesis by (auto simp: apx_vm_decoder_parse_next_operation_def memory_fault_def)
    next
      case 2
      with r b d show ?thesis
        by (auto simp: apx_vm_decoder_parse_next_operation_def decode_next_instruction_internal_def overrun_def)
    next
      case 3
      obtain e1 d1 where i: "decode_next_instruction_internal C T bs n d = (e1, d1)" by fastforce
      with r b 3 have e: "d' = d1" "e = e1" "op = (if e1 = APX_NO_ERROR then Some (operation_type d1) else None)"
        by (auto simp: apx_vm_decoder_parse_next_operation_def split: if_splits)
      from next_instruction_advanced [OF T b(2) 3 i] b e show ?thesis
        by (auto simp: decoder_inv_def left_def memory_fault_def)
    qed
  qed
  then show "decoder_inv d'" and "memory_fault e \<Longrightarrow> overrun d'" and "is_fault e \<Longrightarrow> memory_fault e"
    and "program_mark d' = program_mark d" and "op = None \<longleftrightarrow> e \<noteq> APX_NO_ERROR"
    and "e = APX_NO_ERROR \<Longrightarrow> left d' < left d \<or> op = Some APX_OPERATION_TYPE_PROGRAM_END" by auto
qed

lemma recall_keeps: "decoder_inv d \<Longrightarrow> decoder_inv (apx_vm_decoder_recall_program_position d)"
  by (auto simp: decoder_inv_def apx_vm_decoder_recall_program_position_def)

lemma save_keeps: "decoder_inv d \<Longrightarrow> decoder_inv (apx_vm_decoder_save_program_position d)"
  by (auto simp: decoder_inv_def apx_vm_decoder_save_program_position_def)

section \<open>The machine\<close>

definition pack_inv :: "nat \<Rightarrow> nat \<Rightarrow> 'v apx_vm \<Rightarrow> bool" where
  "pack_inv N M m \<longleftrightarrow> write_inv N M (vm_serializer m) \<and> is_pack_prog m"

lemma run_array_next_pack:
  "is_pack_prog m \<Longrightarrow> write_inv N M (vm_serializer m) \<Longrightarrow> run_array_next L m = (e, m') \<Longrightarrow>
     write_inv N M (vm_serializer m') \<and> is_pack_prog m'"
  using array_next_keeps [of N M "vm_serializer m" L]
  by (auto simp: run_array_next_def is_pack_prog_def split: prod.splits if_splits)

lemma on_serializer_pack:
  "(\<And>s. write_inv N M s \<Longrightarrow> write_inv N M (snd (f s))) \<Longrightarrow> pack_inv N M m \<Longrightarrow> pack_inv N M (snd (on_serializer f m))"
  by (simp add: on_serializer_def pack_inv_def is_pack_prog_def split_def)

lemma pack_instruction_keeps:
  assumes m: "pack_inv N M m"
  shows "pack_inv N M (snd (run_pack_instruction L m))"
proof -
  have pack: "pack_inv N M (snd (on_serializer (\<lambda>s. pack_as L tc es s n t) m))" for tc es n t
    by (intro on_serializer_pack m keeps_write)
  have save: "pack_inv N M (save_position_of_array i m')" if "pack_inv N M m'" for i m'
    using that by (simp add: pack_inv_def is_pack_prog_def save_position_of_array_def)
  show ?thesis
    by (cases "info_type_code (apx_vm_decoder_get_pack_unpack_info (vm_decoder m))")
      (simp_all add: m pack save run_pack_instruction_def Let_def apx_vm_serializer_pack_uint8_def apx_vm_serializer_pack_uint16_def
      apx_vm_serializer_pack_uint32_def apx_vm_serializer_pack_uint64_def apx_vm_serializer_pack_int8_def
      apx_vm_serializer_pack_int16_def apx_vm_serializer_pack_int32_def apx_vm_serializer_pack_int64_def
      apx_vm_serializer_pack_char_def apx_vm_serializer_pack_char8_def apx_vm_serializer_pack_bool_def
      apx_vm_serializer_pack_byte_def apx_vm_serializer_pack_record_def split_def)
qed

lemma pack_step_keeps:
  assumes m: "pack_inv N M m"
  shows "pack_inv N M (snd (snd (step_pack_program L m)))"
proof -
  obtain e op d where dec: "apx_vm_decoder_parse_next_operation (lib_c L) (lib_t L) (vm_decoder m) = (e, op, d)"
    by (metis prod_cases3)
  let ?m = "m\<lparr>vm_decoder := d\<rparr>"
  have m1: "pack_inv N M ?m" using m by (simp add: pack_inv_def is_pack_prog_def)
  have arr: "pack_inv N M (snd (run_array_next L ?m))"
    using run_array_next_pack [of ?m N M L] m1 by (cases "run_array_next L ?m") (auto simp: pack_inv_def)
  show ?thesis
  proof (cases op)
    case None
    with m1 show ?thesis by (simp add: step_pack_program_def dec Let_def)
  next
    case (Some ty)
    show ?thesis
      using m1 arr pack_instruction_keeps [OF m1, of L] keeps_write(22-)
      by (cases ty)
        (auto simp: step_pack_program_def dec Some Let_def split_def run_range_check_pack_int32_def
          run_range_check_pack_uint32_def run_range_check_pack_int64_def run_range_check_pack_uint64_def run_pack_record_select_def
          intro!: on_serializer_pack keeps_write)
  qed
qed

interpretation packing: loop_invariant "step_pack_program L" "pack_inv N M" for L N M
  by unfold_locales (rule pack_step_keeps)

definition unpack_inv :: "'v lib \<Rightarrow> nat \<Rightarrow> byte list \<Rightarrow> 'v apx_vm \<Rightarrow> bool" where
  "unpack_inv L N bs m \<longleftrightarrow> scans (lib_t L) \<and> read_inv N bs (vm_deserializer m) \<and> decoder_inv (vm_decoder m) \<and>
     \<not> is_pack_prog m"

definition unpack_sound :: "'v lib \<Rightarrow> nat \<Rightarrow> byte list \<Rightarrow> apx_error \<times> 'v apx_vm \<Rightarrow> bool" where
  "unpack_sound L N bs r \<longleftrightarrow> \<not> memory_fault (fst r) \<and> unpack_inv L N bs (snd r)"

lemma on_deserializer_sound:
  "(\<And>d. read_inv N bs d \<Longrightarrow> sound_rd N bs (f d)) \<Longrightarrow> unpack_inv L N bs m \<Longrightarrow> unpack_sound L N bs (on_deserializer f m)"
  by (simp add: on_deserializer_def unpack_sound_def unpack_inv_def is_pack_prog_def sound_rd_def split_def)

lemma unpack_instruction_sound:
  assumes m: "unpack_inv L N bs m"
  shows "unpack_sound L N bs (run_unpack_instruction L m)"
proof -
  have unpack: "unpack_sound L N bs (on_deserializer (\<lambda>s. unpack_as L tc es s n t) m)" for tc es n t
    by (intro on_deserializer_sound m unpack_as_sound)
  have save: "unpack_sound L N bs (fst r, save_position_of_array i (snd r))" if "unpack_sound L N bs r" for i r
    using that by (simp add: unpack_sound_def unpack_inv_def is_pack_prog_def save_position_of_array_def save_keeps)
  have other: "unpack_sound L N bs (APX_NOT_IMPLEMENTED_ERROR, m)" using m by (simp add: unpack_sound_def)
  show ?thesis
    by (cases "info_type_code (apx_vm_decoder_get_pack_unpack_info (vm_decoder m))")
      (simp_all add: other unpack save run_unpack_instruction_def Let_def apx_vm_deserializer_unpack_uint8_def
      apx_vm_deserializer_unpack_uint16_def apx_vm_deserializer_unpack_uint32_def apx_vm_deserializer_unpack_uint64_def
      apx_vm_deserializer_unpack_int8_def apx_vm_deserializer_unpack_int16_def apx_vm_deserializer_unpack_int32_def
      apx_vm_deserializer_unpack_int64_def apx_vm_deserializer_unpack_char_def apx_vm_deserializer_unpack_char8_def
      apx_vm_deserializer_unpack_bool_def apx_vm_deserializer_unpack_byte_def apx_vm_deserializer_unpack_record_def split_def)
qed

lemma run_array_next_sound:
  assumes m: "unpack_inv L N bs m"
  shows "unpack_sound L N bs (run_array_next L m)"
proof -
  obtain e l d where r: "apx_vm_deserializer_array_next L (vm_deserializer m) = (e, l, d)" by (metis prod_cases3)
  have "sound_rd N bs (e, d)" using m by (intro array_next_sound [OF _ r]) (simp add: unpack_inv_def)
  then show ?thesis using m
    by (auto simp: run_array_next_def r unpack_sound_def unpack_inv_def sound_rd_def is_pack_prog_def recall_keeps)
qed

text \<open>One iteration of the unpack loop.\<close>

lemma unpack_step_sound:
  assumes m: "unpack_inv L N bs m" and st: "step_unpack_program L m = (e, g, m')"
  shows "unpack_inv L N bs m' \<and> (memory_fault e \<longrightarrow> overrun (vm_decoder m'))"
proof -
  obtain e1 op d where dec: "apx_vm_decoder_parse_next_operation (lib_c L) (lib_t L) (vm_decoder m) = (e1, op, d)"
    by (metis prod_cases3)
  have inv: "scans (lib_t L)" "decoder_inv (vm_decoder m)" using m by (auto simp: unpack_inv_def)
  note p = parse_keeps [OF inv dec]
  let ?m = "m\<lparr>vm_decoder := d\<rparr>"
  have m1: "unpack_inv L N bs ?m" using m p(1) by (simp add: unpack_inv_def is_pack_prog_def)
  have ok: "unpack_inv L N bs m' \<and> (memory_fault e \<longrightarrow> overrun (vm_decoder m'))" if "unpack_sound L N bs (e, m')"
    using that by (simp add: unpack_sound_def)
  show ?thesis
  proof (cases op)
    case None
    with st m1 p(2) show ?thesis by (auto simp: step_unpack_program_def dec Let_def)
  next
    case (Some ty)
    note run = st [unfolded step_unpack_program_def dec prod.case Let_def Some option.case]
    show ?thesis
    proof (cases ty)
      case APX_OPERATION_TYPE_UNPACK
      with run unpack_instruction_sound [OF m1] show ?thesis by (intro ok) (auto split: prod.splits)
    next
      case APX_OPERATION_TYPE_ARRAY_NEXT
      with run run_array_next_sound [OF m1] show ?thesis by (intro ok) (auto split: prod.splits)
    next
      case APX_OPERATION_TYPE_RECORD_SELECT
      moreover have "unpack_sound L N bs (run_unpack_record_select L ?m)"
        unfolding run_unpack_record_select_def by (intro on_deserializer_sound m1 record_select_sound)
      ultimately show ?thesis using run by (intro ok) (auto split: prod.splits)
    next
      case APX_OPERATION_TYPE_RANGE_CHECK_INT32
      moreover have "unpack_sound L N bs (run_range_check_unpack_int32 L ?m)"
        unfolding run_range_check_unpack_int32_def Let_def by (intro on_deserializer_sound m1 range_checks_sound)
      ultimately show ?thesis using run by (intro ok) (auto split: prod.splits)
    next
      case APX_OPERATION_TYPE_RANGE_CHECK_UINT32
      moreover have "unpack_sound L N bs (run_range_check_unpack_uint32 L ?m)"
        unfolding run_range_check_unpack_uint32_def Let_def by (intro on_deserializer_sound m1 range_checks_sound)
      ultimately show ?thesis using run by (intro ok) (auto split: prod.splits)
    next
      case APX_OPERATION_TYPE_RANGE_CHECK_INT64
      moreover have "unpack_sound L N bs (run_range_check_unpack_int64 L ?m)"
        unfolding run_range_check_unpack_int64_def Let_def by (intro on_deserializer_sound m1 range_checks_sound)
      ultimately show ?thesis using run by (intro ok) (auto split: prod.splits)
    next
      case APX_OPERATION_TYPE_RANGE_CHECK_UINT64
      moreover have "unpack_sound L N bs (run_range_check_unpack_uint64 L ?m)"
        unfolding run_range_check_unpack_uint64_def Let_def by (intro on_deserializer_sound m1 range_checks_sound)
      ultimately show ?thesis using run by (intro ok) (auto split: prod.splits)
    qed (use run m1 in \<open>auto simp: memory_fault_def\<close>)
  qed
qed

interpretation unpacking: guarded_loop "step_unpack_program L" "unpack_inv L N bs" "\<lambda>e m. memory_fault e \<longrightarrow> overrun (vm_decoder m)"
  for L N bs
proof unfold_locales
  show "unpack_inv L N bs m \<Longrightarrow> unpack_inv L N bs (snd (snd (step_unpack_program L m)))" for m :: "'a apx_vm"
    using unpack_step_sound [of L N bs m] by (metis prod.collapse)
qed (use unpack_step_sound in blast)

section \<open>Progress\<close>

text \<open>
  The only jump is the one back to a saved position, and only an array of records saves one: without
  it the read pointer of the program moves forward with every iteration.
\<close>

definition running :: "'v lib \<Rightarrow> 'v apx_vm \<Rightarrow> bool" where
  "running L m \<longleftrightarrow> scans (lib_t L) \<and> decoder_inv (vm_decoder m)"

definition unmarked :: "'v apx_vm \<Rightarrow> bool" where
  "unmarked m \<longleftrightarrow> \<not> apx_vm_decoder_has_saved_program_position (vm_decoder m)"

lemma decoder_kept [simp]:
  "vm_decoder (snd (on_serializer f m)) = vm_decoder m" "vm_decoder (snd (on_deserializer g m)) = vm_decoder m"
  by (simp_all add: on_serializer_def on_deserializer_def split_def)

lemma decoder_after_instruction:
  "vm_decoder (snd (run_pack_instruction L m)) \<in> {vm_decoder m, apx_vm_decoder_save_program_position (vm_decoder m)}"
  "vm_decoder (snd (run_unpack_instruction L m)) \<in> {vm_decoder m, apx_vm_decoder_save_program_position (vm_decoder m)}"
  by (cases "info_type_code (apx_vm_decoder_get_pack_unpack_info (vm_decoder m))";
      simp add: run_pack_instruction_def run_unpack_instruction_def Let_def save_position_of_array_def split_def)+

lemma decoder_after_array_next:
  "vm_decoder (snd (run_array_next L m)) \<in> {vm_decoder m, apx_vm_decoder_recall_program_position (vm_decoder m)}"
  by (auto simp: run_array_next_def split: prod.split)

lemma left_save [simp]: "left (apx_vm_decoder_save_program_position d) = left d"
  by (simp add: left_def apx_vm_decoder_save_program_position_def split: option.split)

lemma recall_unmarked: "program_mark d = None \<Longrightarrow> apx_vm_decoder_recall_program_position d = d"
  by (simp add: apx_vm_decoder_recall_program_position_def)

text \<open>What one iteration of either loop does to the decoder.\<close>

lemma step_decoder:
  assumes step: "step = step_pack_program L \<or> step = step_unpack_program L"
    and dec: "apx_vm_decoder_parse_next_operation (lib_c L) (lib_t L) (vm_decoder m) = (e, op, d)"
  shows "vm_decoder (snd (snd (step m))) \<in>
      {d, apx_vm_decoder_save_program_position d, apx_vm_decoder_recall_program_position d}"
    and "op = None \<Longrightarrow> fst (step m) = e" and "op = Some APX_OPERATION_TYPE_PROGRAM_END \<Longrightarrow> \<not> fst (snd (step m))"
proof -
  note after = decoder_after_instruction [of L "m\<lparr>vm_decoder := d\<rparr>"] decoder_after_array_next [of L "m\<lparr>vm_decoder := d\<rparr>"]
  note defs = step_pack_program_def step_unpack_program_def dec Let_def split_def
    run_range_check_pack_int32_def run_range_check_pack_uint32_def run_range_check_pack_int64_def run_range_check_pack_uint64_def
    run_range_check_unpack_int32_def run_range_check_unpack_uint32_def run_range_check_unpack_int64_def
    run_range_check_unpack_uint64_def run_pack_record_select_def run_unpack_record_select_def
  show "vm_decoder (snd (snd (step m))) \<in>
      {d, apx_vm_decoder_save_program_position d, apx_vm_decoder_recall_program_position d}"
  proof (cases op)
    case None
    with step show ?thesis by (auto simp: defs)
  next
    case (Some ty)
    with step after show ?thesis by (cases ty) (auto simp: defs)
  qed
  show "op = None \<Longrightarrow> fst (step m) = e" "op = Some APX_OPERATION_TYPE_PROGRAM_END \<Longrightarrow> \<not> fst (snd (step m))"
    using step by (auto simp: defs)
qed

lemma step_running:
  assumes step: "step = step_pack_program L \<or> step = step_unpack_program L" and m: "running L m"
  shows "running L (snd (snd (step m)))"
    and "unmarked m \<Longrightarrow> step m = (APX_NO_ERROR, True, m') \<Longrightarrow> left (vm_decoder m') < left (vm_decoder m)"
proof -
  obtain e op d where dec: "apx_vm_decoder_parse_next_operation (lib_c L) (lib_t L) (vm_decoder m) = (e, op, d)"
    by (metis prod_cases3)
  have inv: "scans (lib_t L)" "decoder_inv (vm_decoder m)" using m by (auto simp: running_def)
  note p = parse_keeps [OF inv dec] and st = step_decoder [OF step dec]
  show "running L (snd (snd (step m)))"
    using st(1) inv(1) p(1) save_keeps recall_keeps by (auto simp: running_def)
  assume u: "unmarked m" and s: "step m = (APX_NO_ERROR, True, m')"
  then have "e = APX_NO_ERROR" using st(2) p(5) by (cases "op = None") auto
  moreover have "op \<noteq> Some APX_OPERATION_TYPE_PROGRAM_END" using st(3) s by auto
  ultimately have "left d < left (vm_decoder m)" using p(6) by blast
  moreover have "program_mark d = None"
    using p(4) u by (simp add: unmarked_def apx_vm_decoder_has_saved_program_position_def)
  then have "left (vm_decoder m') = left d" using st(1) s by (auto simp: recall_unmarked)
  ultimately show "left (vm_decoder m') < left (vm_decoder m)" by simp
qed

interpretation pack_progress: progressing_loop "step_pack_program L" "running L" unmarked "\<lambda>m. left (vm_decoder m)" for L
  by unfold_locales (use step_running [where step = "step_pack_program L"] in blast)+

interpretation unpack_progress: progressing_loop "step_unpack_program L" "running L" unmarked "\<lambda>m. left (vm_decoder m)" for L
  by unfold_locales (use step_running [where step = "step_unpack_program L"] in blast)+

section \<open>Properties\<close>

lemma set_value_keeps: "write_inv N M (s\<lparr>sr_state := st\<rparr>) \<longleftrightarrow> write_inv N M s"
  by (simp add: write_inv_def)


text \<open>A program that selects a record field, run on values that are not records.\<close>

definition select_vm :: "apx_programType \<Rightarrow> dv apx_vm" where
  "select_vm pt = demo_vm\<lparr>vm_decoder := apx_vm_decoder_create\<lparr>program := Some (select_bytes [97] True), program_next := Some 0\<rparr>,
     vm_program_header := (vm_program_header demo_vm)\<lparr>ph_program_type := pt\<rparr>,
     vm_serializer := (vm_serializer demo_vm)\<lparr>sr_buffer := write_buffer_reset [1, 2, 3]\<rparr>,
     vm_deserializer := (vm_deserializer demo_vm)\<lparr>ds_buffer := read_buffer_reset [1, 2, 3]\<rparr>\<rparr>"

lemma select_vm_facts:
  "at_bytes [] (select_bytes [97] True @ []) (vm_decoder (select_vm pt))"
  "sr_stack (vm_serializer (select_vm pt)) = []" "sr_free (vm_serializer (select_vm pt)) = 3"
  "ds_stack (vm_deserializer (select_vm pt)) = []" "ds_free (vm_deserializer (select_vm pt)) = 3"
  "wb_data (sr_buffer (vm_serializer (select_vm pt))) = [1, 2, 3]" "apx_vm_get_bytes_written (select_vm pt) = 0"
  "rb_data (ds_buffer (vm_deserializer (select_vm pt))) = [1, 2, 3]" "rs_value_type (ds_state (vm_deserializer (select_vm pt))) = DTL_DV_NULL"
  "decoder_inv (vm_decoder (select_vm pt))" "ph_program_type (vm_program_header (select_vm pt)) = pt"
  by (simp_all add: select_vm_def at_bytes_def demo_vm_facts demo_vm_reads write_buffer_reset_def read_buffer_reset_def
      apx_vm_get_bytes_written_def apx_vm_serializer_bytes_written_def decoder_inv_def apx_vm_decoder_create_def)
    (simp add: demo_vm_def apx_vm_create_def apx_vm_serializer_create_def apx_vm_deserializer_create_def state_create_def numeral_eq_Suc)

lemma select_vm_stops:
  "\<exists>m'. apx_vm_pack_value lib_ref (select_vm APX_PACK_PROGRAM) (Some (DvInt 5)) = Some (APX_VALUE_TYPE_ERROR, m')"
  "\<exists>m'. apx_vm_unpack_value lib_ref (select_vm APX_UNPACK_PROGRAM) = Some (APX_VALUE_TYPE_ERROR, None, m')"
proof -
  note dec = select_decoded [OF lib_documentedD(2,3) [OF lib_ref_documented] select_vm_facts(1), of "lib_c lib_ref"]
  have k: "dv_type (lib_d lib_ref) (Some (DvInt 5)) = DTL_DV_SCALAR" by (simp add: lib_ref_def dtl_ref_def)
  let ?m = "(select_vm APX_PACK_PROGRAM)\<lparr>vm_serializer := (vm_serializer (select_vm APX_PACK_PROGRAM))\<lparr>sr_state :=
      state_set_value (lib_d lib_ref) (sr_state (vm_serializer (select_vm APX_PACK_PROGRAM))) (Some (DvInt 5))\<rparr>\<rparr>"
  have "\<exists>m'. step_pack_program lib_ref ?m = (APX_VALUE_TYPE_ERROR, True, m')"
    by (simp add: step_pack_program_def dec run_pack_record_select_def on_serializer_def
        apx_vm_serializer_record_select_def state_set_value_def k state_reset_def Let_def)
  then obtain m' where "step_pack_program lib_ref ?m = (APX_VALUE_TYPE_ERROR, True, m')" by blast
  from run_loop_stop [of "step_pack_program lib_ref", OF this]
  show "\<exists>m'. apx_vm_pack_value lib_ref (select_vm APX_PACK_PROGRAM) (Some (DvInt 5)) = Some (APX_VALUE_TYPE_ERROR, m')"
    by (simp add: apx_vm_pack_value_def select_vm_facts on_serializer_def apx_vm_serializer_set_value_dv_def run_pack_program_def)
  let ?u = "select_vm APX_UNPACK_PROGRAM"
  have "\<exists>m'. step_unpack_program lib_ref ?u = (APX_VALUE_TYPE_ERROR, True, m')"
    by (simp add: step_unpack_program_def dec run_unpack_record_select_def on_deserializer_def
        apx_vm_deserializer_record_select_def select_vm_facts Let_def)
  then obtain u' where "step_unpack_program lib_ref ?u = (APX_VALUE_TYPE_ERROR, True, u')" by blast
  from run_loop_stop [of "step_unpack_program lib_ref", OF this]
  show "\<exists>m'. apx_vm_unpack_value lib_ref ?u = Some (APX_VALUE_TYPE_ERROR, None, m')"
    by (simp add: apx_vm_unpack_value_def select_vm_facts run_unpack_program_def)
qed


text \<open>
  C6: Unpacking is memory safe. Whatever the program and the data, a run of the unpacking
  interpreter that starts inside of the buffer makes no load from outside of it (each load is checked in the
  model and one that leaves the buffer is a fault) and uses no state after it was freed; the one way to a memory
  fault is a program whose last field name has no terminator, and then it is the program that is overrun. The
  buffer is not changed, no read state is lost, and the read position ends less than \<open>2^32\<close> behind
  the buffer: a terminated string of fixed size at the end of the buffer does move it out, unread.
\<close>

theorem unpack_memory_safe:
  assumes "scans (lib_t L)" and "decoder_inv (vm_decoder m)"
    and "ds_stack (vm_deserializer m) = []" and "rs_value_type (ds_state (vm_deserializer m)) \<noteq> DTL_DV_HASH"
    and "apx_vm_deserializer_bytes_read (vm_deserializer m) \<le> length (rb_data (ds_buffer (vm_deserializer m)))"
    and "apx_vm_unpack_value L m = Some (e, v, m')"
  shows "(e = FAULT OUT_OF_BOUNDS \<or> e = FAULT USE_AFTER_FREE \<longrightarrow> overrun (vm_decoder m')) \<and>
    apx_vm_deserializer_bytes_read (vm_deserializer m') < length (rb_data (ds_buffer (vm_deserializer m))) + 2 ^ 32 \<and>
    rb_data (ds_buffer (vm_deserializer m')) = rb_data (ds_buffer (vm_deserializer m)) \<and>
    ds_free (vm_deserializer m') + length (ds_stack (vm_deserializer m')) = ds_free (vm_deserializer m)"
proof (cases "ph_program_type (vm_program_header m) = APX_UNPACK_PROGRAM")
  case True
  let ?N = "ds_free (vm_deserializer m)" and ?bs = "rb_data (ds_buffer (vm_deserializer m))"
  have m: "unpack_inv L ?N ?bs m"
    using assms(1-5) True by (auto simp: unpack_inv_def read_inv_def is_pack_prog_def apx_vm_deserializer_bytes_read_def)
  from assms(6) True obtain r m1 where run: "run_loop (step_unpack_program L) m = Some (r, m1)"
    and res: "(e, v, m') = (if r = APX_NO_ERROR then take_result m1 else (r, None, m1))"
    by (auto simp: apx_vm_unpack_value_def run_unpack_program_def split: option.splits)
  have ok: "unpack_inv L ?N ?bs m1" "memory_fault r \<longrightarrow> overrun (vm_decoder m1)"
    using unpacking.run_keeps [OF run m] unpacking.run_allowed [OF run m] by auto
  have taken: "\<not> memory_fault e \<and> ds_free (vm_deserializer m') = ds_free (vm_deserializer m1) \<and>
      ds_stack (vm_deserializer m') = ds_stack (vm_deserializer m1) \<and> ds_buffer (vm_deserializer m') = ds_buffer (vm_deserializer m1)"
    if "(e, v, m') = take_result m1"
    using that by (auto simp: take_result_def memory_fault_def apx_vm_deserializer_take_sv_def state_take_sv_def
        apx_vm_deserializer_take_av_def apx_vm_deserializer_take_hv_def take_value_def Let_def
        split: dtl_dv_type_id.splits if_splits)
  have pos: "apx_vm_deserializer_bytes_read (vm_deserializer m1) < length ?bs + 2 ^ 32"
    using ok(1) by (auto simp: unpack_inv_def read_inv_def apx_vm_deserializer_bytes_read_def in_reach_def split: option.split)
  show ?thesis
  proof (cases "r = APX_NO_ERROR")
    case True
    with res taken ok(1) pos show ?thesis
      by (auto simp: unpack_inv_def read_inv_def memory_fault_def apx_vm_deserializer_bytes_read_def)
  next
    case False
    with res ok pos show ?thesis by (auto simp: unpack_inv_def read_inv_def memory_fault_def)
  qed
next
  case False
  with assms show ?thesis by (auto simp: apx_vm_unpack_value_def)
qed

theorem unpack_memory_safe_witness:
  "\<exists>m'. apx_vm_unpack_value lib_ref (select_vm APX_UNPACK_PROGRAM) = Some (APX_VALUE_TYPE_ERROR, None, m') \<and>
     rb_data (ds_buffer (vm_deserializer m')) = [1, 2, 3] \<and>
     ds_free (vm_deserializer m') + length (ds_stack (vm_deserializer m')) = 3"
proof -
  obtain m' where m': "apx_vm_unpack_value lib_ref (select_vm APX_UNPACK_PROGRAM) = Some (APX_VALUE_TYPE_ERROR, None, m')"
    using select_vm_stops(2) by blast
  have "apx_vm_deserializer_bytes_read (vm_deserializer (select_vm APX_UNPACK_PROGRAM)) \<le> 3"
    by (simp add: select_vm_def apx_vm_deserializer_bytes_read_def read_buffer_reset_def)
  with unpack_memory_safe [OF lib_documentedD(2) [OF lib_ref_documented] select_vm_facts(10,4) _ _ m'] m'
  show ?thesis by (auto simp: select_vm_facts)
qed

text \<open>
  C8: Interpretation ends. Whatever the program, a run of either interpreter that comes to no state with a saved
  program position returns, with a value or an error; only an array of records saves one.
\<close>

theorem interpreter_returns:
  assumes "scans (lib_t L)" and "decoder_inv (vm_decoder m)"
  shows "((\<forall>t. iterates (step_pack_program L) m t \<longrightarrow> \<not> apx_vm_decoder_has_saved_program_position (vm_decoder t)) \<longrightarrow>
      (\<exists>r. run_pack_program L m = Some r)) \<and>
    ((\<forall>t. iterates (step_unpack_program L) m t \<longrightarrow> \<not> apx_vm_decoder_has_saved_program_position (vm_decoder t)) \<longrightarrow>
      (\<exists>r. run_unpack_program L m = Some r))"
  using pack_progress.run_returns [of L m] unpack_progress.run_returns [of L m] assms
  by (auto simp: running_def unmarked_def run_pack_program_def run_unpack_program_def)

theorem interpreter_returns_witness:
  "(\<exists>r. run_pack_program lib_ref (select_vm APX_PACK_PROGRAM) = Some r) \<and>
   (\<exists>r. run_unpack_program lib_ref (select_vm APX_PACK_PROGRAM) = Some r)"
proof -
  let ?m = "select_vm APX_PACK_PROGRAM"
  note dec = select_decoded [OF lib_documentedD(2,3) [OF lib_ref_documented] select_vm_facts(1), of "lib_c lib_ref"]
  have "ws_value_type (sr_state (vm_serializer ?m)) \<noteq> DTL_DV_HASH"
    by (simp add: select_vm_def demo_vm_def apx_vm_create_def apx_vm_serializer_create_def apx_vm_deserializer_create_def
        apx_vm_writeState_create_def numeral_eq_Suc)
  then have e: "fst (step_pack_program lib_ref ?m) \<noteq> APX_NO_ERROR" "fst (step_unpack_program lib_ref ?m) \<noteq> APX_NO_ERROR"
    by (simp_all add: step_pack_program_def step_unpack_program_def dec run_pack_record_select_def run_unpack_record_select_def
        on_serializer_def on_deserializer_def apx_vm_serializer_record_select_def apx_vm_deserializer_record_select_def
        select_vm_facts Let_def)
  have "iterates step ?m t \<Longrightarrow> t = ?m" if "fst (step ?m) \<noteq> APX_NO_ERROR" for step t
    using that by (auto simp: iterates_unfold [of step ?m])
  moreover have "\<not> apx_vm_decoder_has_saved_program_position (vm_decoder ?m)"
    by (simp add: select_vm_def apx_vm_decoder_has_saved_program_position_def apx_vm_decoder_create_def)
  ultimately show ?thesis
    using interpreter_returns [OF lib_documentedD(2) [OF lib_ref_documented] select_vm_facts(10)] e by metis
qed

end
