(* ===== verification/VmErrors.thy ===== *)
theory VmErrors
  imports UnpackCorrect
begin

text \<open>
  Where serializer and deserializer do not do what they mean to: three defects, each stated and
  proved on the model of the code.
\<close>

text \<open>
  The unpack program reads the first field, which goes into the record, and then checks the range of the
  current value, which is now the record.
\<close>

lemma limited_field_refused:
  assumes L: "lib_documented L \<alpha>" and A: "bytearray_appends A"
    and de: "port_effective_data_element port = Some de" and sh: "shape_of de = Some sh" "wf_shape sh"
    and rec: "sh = Rec ((name, Num tc (Some (lo, hi))) # fs)"
    and size: "header_data_size (word_of_nat (shape_size sh)) (port_queue_length port) \<le> unat UINT32_MAX"
      "shape_size sh < 2 ^ 32"
    and val: "num_bytes tc None v = Some bs" "take (length bs) data = bs" "shape_size sh \<le> length data"
    and vm: "ds_stack (vm_deserializer vm) = []" "\<not> qr_is_active (ds_queue (vm_deserializer vm))"
      "0 < ds_free (vm_deserializer vm)"
  shows "\<exists>prog cc' vm1 vm2 vm3.
     apx_compiler_compile_port A (lib_c L) cc (Some port) APX_UNPACK_PROGRAM = (APX_NO_ERROR, Some prog, cc') \<and>
     apx_vm_select_program L vm (Some prog) = (APX_NO_ERROR, vm1) \<and>
     apx_vm_set_read_buffer vm1 (Some data) = (APX_NO_ERROR, vm2) \<and>
     apx_vm_unpack_value L vm2 = Some (APX_UNSUPPORTED_ERROR, None, vm3)"
proof -
  obtain hdr prog cc' vm1 where p: "apx_compiler_compile_port A (lib_c L) cc (Some port) APX_UNPACK_PROGRAM =
      (APX_NO_ERROR, Some prog, cc')" "apx_vm_select_program L vm (Some prog) = (APX_NO_ERROR, vm1)"
    and at: "at_bytes hdr (code (lib_c L) APX_UNPACK_PROGRAM sh) (vm_decoder vm1)"
    "ph_program_type (vm_program_header vm1) = APX_UNPACK_PROGRAM" and d: "vm_deserializer vm1 = vm_deserializer vm"
    using program_selected [OF L A de sh size, of cc APX_UNPACK_PROGRAM vm] by blast
  let ?r = "element_bytes (lib_c L) (pack_opcode APX_UNPACK_PROGRAM) APX_VM_VARIANT_RECORD 0 False"
    and ?sel = "select_bytes name (fs = [])" and ?e = "code (lib_c L) APX_UNPACK_PROGRAM (Num tc None)"
    and ?l = "limits_code (lib_c L) tc False (Some (lo, hi))" and ?f = "fields_code (lib_c L) APX_UNPACK_PROGRAM fs"
  have code: "code (lib_c L) APX_UNPACK_PROGRAM sh = ?r @ ?sel @ ?e @ ?l @ ?f" by (simp add: rec with_limits_def)
  have wl: "wf_limits tc (Some (lo, hi))" and tc: "int_type tc \<noteq> None" and name: "name \<noteq> []" "0 \<notin> set name"
    using sh(2) by (auto simp: rec wf_limits_def split: option.splits)
  obtain b rest where data: "data = b # rest" using val(3) shape_size_pos [OF sh(2)] by (cases data) auto
  let ?d2 = "(vm_deserializer vm)\<lparr>ds_buffer := read_buffer_reset data\<rparr>"
  let ?vm2 = "vm1\<lparr>vm_deserializer := ?d2\<rparr>"
  have vm2: "apx_vm_set_read_buffer vm1 (Some data) = (APX_NO_ERROR, ?vm2)"
    by (simp add: apx_vm_set_read_buffer_def on_deserializer_def apx_vm_deserializer_set_read_buffer_def d data)
  have "length bs \<le> length data" using val(2) by (metis length_take min.cobounded1)
  with val(2) have rd: "reading_at \<alpha> ?d2 0 (map Some bs)"
    using vm by (simp add: reading_at_def at_pos_rd_def read_buffer_reset_def agrees_bytes)
  have at0: "at_bytes hdr (?r @ ?sel @ ?e @ ?l @ ?f) (vm_decoder ?vm2)" using at(1) code by simp
  obtain m1 d1 where m1: "reaches_rd L ?vm2 (hdr @ ?r) (?sel @ ?e @ ?l @ ?f) d1 m1" and b1: "building \<alpha> d1 []"
    and r1: "reading_at \<alpha> d1 0 (map Some bs)" and same: "ds_stack d1 = []" "ds_free d1 = ds_free (vm_deserializer vm)"
    using record_step_rd [OF L at0, of 0 "map Some bs"] rd vm by auto
  obtain f where f: "ds_free d1 = Suc f" using vm(3) same(2) gr0_implies_Suc by metis
  obtain d2 st where d2: "apx_vm_deserializer_record_select L d1 name (fs = []) = (APX_NO_ERROR, d2)"
    and same2: "ds_buffer d2 = ds_buffer d1" "ds_queue d2 = ds_queue d1" "ds_stack d2 = st # ds_stack d1" "ds_free d2 = f"
    and st: "open_record \<alpha> st" "holds_value \<alpha> st (DvHash [])" "rs_field_name st = name" "rs_is_last_field st = (fs = [])"
    using field_selected_rd [OF L b1 name f] by blast
  have e1: "vm_deserializer m1 = d1" and at1: "at_bytes (hdr @ ?r) (?sel @ ?e @ ?l @ ?f) (vm_decoder m1)"
    using m1 by (auto simp: reaches_rd_def)
  obtain m2 where m2: "reaches_rd L m1 ((hdr @ ?r) @ ?sel) (?e @ ?l @ ?f) d2 m2"
    using select_step_rd [OF L at1 name] d2 e1 by auto
  have e2: "vm_deserializer m2 = d2" and at2: "at_bytes ((hdr @ ?r) @ ?sel) (?e @ ?l @ ?f) (vm_decoder m2)"
    using m2 by (auto simp: reaches_rd_def)
  have r2: "reading_at \<alpha> d2 0 (map Some bs)" using r1 same2 st(1) by (simp add: reading_at_def at_pos_rd_def)
  obtain d3 m3 where m3: "reaches_rd L m2 (((hdr @ ?r) @ ?sel) @ ?e) (?l @ ?f) d3 m3"
    and u: "unpacked L \<alpha> (0 + length (map Some bs)) (canon (Num tc None) v) d2 d3"
    using leaf_read [OF L _ _ _ _ at2 r2 [folded e2], of v] tc val(1) e2 by (auto simp: wf_limits_def)
  have "\<exists>kvs. holds_value \<alpha> (ds_state d3) (DvHash kvs)"
  proof (cases "fs = []")
    case True
    then show ?thesis
      using field_merged(1) [OF L st(1-3) same2(3) _ same2(2) _ u] f same2 st(4) unpacked_top same(1) by fastforce
  next
    case False
    then show ?thesis
      using field_merged(2) [OF L st(1-3) same2(3) _ same2(2) _ u] f same2 st(4) by (fastforce simp: building_def)
  qed
  then have hash: "rs_value_type (ds_state d3) = DTL_DV_HASH" by (auto simp: holds_value_def)
  have e3: "vm_deserializer m3 = d3" and at3: "at_bytes (((hdr @ ?r) @ ?sel) @ ?e) (?l @ ?f) (vm_decoder m3)"
    using m3 by (auto simp: reaches_rd_def)
  have "range_check_rd L tc lo hi (vm_deserializer m3) = (APX_UNSUPPORTED_ERROR, d3)"
    using hash e3 tc by (auto simp: range_check_rd_def check_value_range_rd_def on_state_rd_def
        apx_vm_deserializer_check_value_range_int32_def apx_vm_deserializer_check_value_range_uint32_def
        apx_vm_deserializer_check_value_range_int64_def apx_vm_deserializer_check_value_range_uint64_def)
  from limits_step_rd [OF L tc wl at3 this] obtain m4 where
    m4: "step_unpack_program L m3 = (APX_UNSUPPORTED_ERROR, True, m4)" by blast
  have "run_unpack_program L ?vm2 = run_loop (step_unpack_program L) m3"
    using m1 m2 m3 by (simp add: reaches_rd_def run_unpack_program_def)
  with run_loop_stop [of "step_unpack_program L", OF m4] at(2)
  have "apx_vm_unpack_value L ?vm2 = Some (APX_UNSUPPORTED_ERROR, None, m4)" by (simp add: apx_vm_unpack_value_def)
  with p vm2 show ?thesis by blast
qed

lemma num_without_limits: "num_bytes tc lim v = Some bs \<Longrightarrow> num_bytes tc None v = Some bs"
  by (cases v) (auto simp: in_limits_def split: option.splits if_splits)

lemma first_field_laid_out:
  assumes "layout (Rec ((name, Num tc lim) # fs)) v = Some ly"
  shows "\<exists>x bs rest. num_bytes tc None x = Some bs \<and> ly = map Some bs @ rest"
  using assms num_without_limits by (fastforce split: option.splits)

text \<open>
  C37: A record whose first field is a number with limits can be packed but not unpacked. Every value that
  has a layout, so that its number is inside of the limits, is packed without an error into exactly that layout;
  but the unpack program that the compiler makes of the same port, run on the bytes just written, ends with
  APX_UNSUPPORTED_ERROR and without a value: the field has gone into the record when its range is checked, and
  what is checked is the record.
\<close>

theorem limited_field_never_unpacks:
  assumes L: "lib_documented L \<alpha>" and A: "bytearray_appends A"
    and de: "port_effective_data_element port = Some de" and sh: "shape_of de = Some sh" "wf_shape sh"
    and rec: "sh = Rec ((name, Num tc (Some (lo, hi))) # fs)"
    and size: "header_data_size (word_of_nat (shape_size sh)) (port_queue_length port) \<le> unat UINT32_MAX"
      "shape_size sh < 2 ^ 32" "shape_size sh \<le> length data"
    and val: "layout sh (\<alpha> w) = Some ly"
    and sender: "sr_stack (vm_serializer s) = []" "\<not> qw_is_active (sr_queue (vm_serializer s))"
      "depth sh \<le> sr_free (vm_serializer s)"
    and receiver: "ds_stack (vm_deserializer r) = []" "\<not> qr_is_active (ds_queue (vm_deserializer r))"
      "0 < ds_free (vm_deserializer r)"
  shows "\<exists>p q cc1 cc2 s1 s2 s3 r1 r2 r3.
     apx_compiler_compile_port A (lib_c L) cc (Some port) APX_PACK_PROGRAM = (APX_NO_ERROR, Some p, cc1) \<and>
     apx_vm_select_program L s (Some p) = (APX_NO_ERROR, s1) \<and>
     apx_vm_set_write_buffer s1 (Some data) = (APX_NO_ERROR, s2) \<and>
     apx_vm_pack_value L s2 (Some w) = Some (APX_NO_ERROR, s3) \<and>
     wb_data (sr_buffer (vm_serializer s3)) = overlay 0 ly data \<and>
     apx_compiler_compile_port A (lib_c L) cc1 (Some port) APX_UNPACK_PROGRAM = (APX_NO_ERROR, Some q, cc2) \<and>
     apx_vm_select_program L r (Some q) = (APX_NO_ERROR, r1) \<and>
     apx_vm_set_read_buffer r1 (Some (wb_data (sr_buffer (vm_serializer s3)))) = (APX_NO_ERROR, r2) \<and>
     apx_vm_unpack_value L r2 = Some (APX_UNSUPPORTED_ERROR, None, r3)"
proof -
  obtain h1 p cc1 s1 where p: "apx_compiler_compile_port A (lib_c L) cc (Some port) APX_PACK_PROGRAM =
      (APX_NO_ERROR, Some p, cc1)" "apx_vm_select_program L s (Some p) = (APX_NO_ERROR, s1)"
    and at1: "at_bytes h1 (code (lib_c L) APX_PACK_PROGRAM sh) (vm_decoder s1)"
    "ph_program_type (vm_program_header s1) = APX_PACK_PROGRAM" and s1: "vm_serializer s1 = vm_serializer s"
    using program_selected [OF L A de sh size(1,2), of cc APX_PACK_PROGRAM s] by blast
  obtain s2 s3 where s: "apx_vm_set_write_buffer s1 (Some data) = (APX_NO_ERROR, s2)"
    "apx_vm_pack_value L s2 (Some w) = Some (APX_NO_ERROR, s3)" "wb_data (sr_buffer (vm_serializer s3)) = overlay 0 ly data"
    using pack_selected [OF L at1 sh(2) size(2,3) val] s1 sender by auto
  obtain x bs rest where x: "num_bytes tc None x = Some bs" and ly: "ly = map Some bs @ rest"
    using first_field_laid_out val rec by blast
  have "agrees 0 ly (overlay 0 ly data)"
    using size(3) layout_length(1) [OF val] by (intro overlay_agrees) simp
  then have "take (length bs) (overlay 0 ly data) = bs" by (simp add: ly agrees_append agrees_bytes)
  moreover have "shape_size sh \<le> length (overlay 0 ly data)" using size(3) by simp
  ultimately show ?thesis
    using p s limited_field_refused [OF L A de sh rec size(1,2) x _ _ receiver, of "overlay 0 ly data" cc1] by metis
qed

theorem limited_field_never_unpacks_witness:
  "\<exists>p q cc1 cc2 s1 s2 s3 r1 r2 r3.
     apx_compiler_compile_port adt_lists (lib_c lib_ref) apx_compiler_create
       (Some \<lparr>port_effective_data_element = Some demo_element, port_queue_length = 0\<rparr>) APX_PACK_PROGRAM =
         (APX_NO_ERROR, Some p, cc1) \<and>
     apx_vm_select_program lib_ref demo_vm (Some p) = (APX_NO_ERROR, s1) \<and>
     apx_vm_set_write_buffer s1 (Some (replicate 12 0)) = (APX_NO_ERROR, s2) \<and>
     apx_vm_pack_value lib_ref s2 (Some demo_value) = Some (APX_NO_ERROR, s3) \<and>
     apx_compiler_compile_port adt_lists (lib_c lib_ref) cc1
       (Some \<lparr>port_effective_data_element = Some demo_element, port_queue_length = 0\<rparr>) APX_UNPACK_PROGRAM =
         (APX_NO_ERROR, Some q, cc2) \<and>
     apx_vm_select_program lib_ref demo_vm (Some q) = (APX_NO_ERROR, r1) \<and>
     apx_vm_set_read_buffer r1 (Some (wb_data (sr_buffer (vm_serializer s3)))) = (APX_NO_ERROR, r2) \<and>
     apx_vm_unpack_value lib_ref r2 = Some (APX_UNSUPPORTED_ERROR, None, r3)"
  using limited_field_never_unpacks [OF lib_ref_documented adt_lists_append _ demo_shape_of demo_facts(1) demo_shape_def
      _ _ _ demo_facts(4) demo_vm_facts(1,2) _ demo_vm_reads(1,2), of "\<lparr>port_effective_data_element = Some demo_element, port_queue_length = 0\<rparr>"
      "replicate 12 0" apx_compiler_create]
  by (auto simp: demo_facts demo_vm_facts(3) demo_vm_reads(3) header_data_size_def)

text \<open>
  The deserializer's range check for unsigned 32 bit numbers compares signed: with an upper
  limit of 2147483648 or more it refuses every number below, although the limits allow them.
\<close>

theorem uint32_limits_compare_signed:
  assumes L: "lib_documented L \<alpha>" and v: "rs_value (ds_state d) = Some w" "rs_value_type (ds_state d) = DTL_DV_SCALAR"
    and i: "\<alpha> w = DvInt i" "0 \<le> lo" "lo \<le> i" "i < 2 ^ 31" and hi: "2 ^ 31 \<le> hi" "hi < 2 ^ 32"
  shows "fst (apx_vm_deserializer_check_value_range_uint32 L d (word_of_int lo) (word_of_int hi)) = APX_VALUE_RANGE_ERROR"
proof -
  note D = lib_documentedD(4) [OF L]
  have "uint (word_of_int i :: u32) = i" using i by (simp add: uint_word_of_int)
  then have c: "sv_to_u32 (lib_d L) (Some w) = (word_of_int i, True)" using i(1) by (intro dtl_numbers(2) [OF D]) simp
  have si: "sint (word_of_int i :: u32) = i"
    unfolding sint_sbintrunc' using i by (intro signed_take_bit_int_eq_self) simp_all
  have "(word_of_int hi :: u32) = word_of_int (hi - 2 ^ 32)" by (simp add: word_of_int_eq_iff)
  then have "sint (word_of_int hi :: u32) = sint (word_of_int (hi - 2 ^ 32) :: u32)" by (rule arg_cong)
  also have "\<dots> = hi - 2 ^ 32" unfolding sint_sbintrunc' using hi by (intro signed_take_bit_int_eq_self) simp_all
  finally have "sint (word_of_int hi :: u32) < i" using i hi by simp
  then have "apx_vm_value_in_range_i32 (word_of_int i) (word_of_int lo) (word_of_int hi) = APX_VALUE_RANGE_ERROR"
    by (simp add: range_results si range_result_def)
  with v c show ?thesis
    by (simp add: apx_vm_deserializer_check_value_range_uint32_def on_state_rd_def check_value_range_rd_def
        state_store_scalar_value_def converted_rd_def checked_rd_def Let_def)
qed

theorem uint32_limits_compare_signed_witness:
  "fst (apx_vm_deserializer_check_value_range_uint32 lib_ref
     ((vm_deserializer demo_vm)\<lparr>ds_state := state_create\<lparr>rs_value := Some (DvInt 5), rs_value_type := DTL_DV_SCALAR\<rparr>\<rparr>)
     (word_of_int 0) (word_of_int 3000000000)) = APX_VALUE_RANGE_ERROR"
  by (rule uint32_limits_compare_signed [OF lib_ref_documented, where w = "DvInt 5" and i = 5]) simp_all

text \<open>
  A queue that is not to be cleared can not be continued: with \<open>clear_queue\<close> false,
  \<open>queued_write_begin\<close> reads the current length out of the buffer and then reports
  APX_INVALID_ARGUMENT_ERROR all the same; with too few bytes left it reads behind the buffer, because
  its end pointer is computed from the number of bytes it wants.
\<close>

theorem queue_never_continued:
  assumes "wb_next (sr_buffer s) = Some n" and "max_length > 0"
  shows "fst (apx_vm_serializer_queued_write_begin L s element_size max_length False) =
    (if n + apx_vm_size_type_to_size (apx_vm_size_to_size_type max_length) \<le> length (wb_data (sr_buffer s))
     then APX_INVALID_ARGUMENT_ERROR else FAULT OUT_OF_BOUNDS)"
  using assms size_to_size_type_none [of max_length] size_type_to_size_cases [of "apx_vm_size_to_size_type max_length"]
  by (auto simp: apx_vm_serializer_queued_write_begin_def Let_def read_dynamic_value_from_buffer_def mem_read_def andThen_def)

theorem queue_never_continued_witness:
  "fst (apx_vm_serializer_queued_write_begin lib_ref
     ((vm_serializer demo_vm)\<lparr>sr_buffer := write_buffer_reset [3, 0, 0, 0]\<rparr>) 1 10 False) = APX_INVALID_ARGUMENT_ERROR"
  using queue_never_continued [of "(vm_serializer demo_vm)\<lparr>sr_buffer := write_buffer_reset [3, 0, 0, 0]\<rparr>" 0 10 lib_ref 1]
  by (simp add: write_buffer_reset_def apx_vm_size_to_size_type_def)

end
