(* ===== verification/NumHeader.thy ===== *)
theory NumHeader
  imports Codec
begin

text \<open>
  The length prefixes of the RemoteFile protocol, apx/src/numheader.c: a number below 128
  is one byte, a larger one sets the top bit and takes two (16-bit form) or four bytes.
  A C buffer is the list of its bytes, the null pointer is \<open>None\<close>. An encoder returns
  the C return value with the buffer it leaves, or \<open>None\<close> where it stores outside the
  buffer; a decoder returns how far it moved the read pointer and the number it stored, if
  it stored one (the C code leaves the target unchanged otherwise).
\<close>

abbreviation (input) NUMHEADER16_MAX_NUM_SHORT :: u16 where "NUMHEADER16_MAX_NUM_SHORT \<equiv> 127"
abbreviation (input) NUMHEADER16_MAX_NUM_LONG :: u16 where "NUMHEADER16_MAX_NUM_LONG \<equiv> 32895"
abbreviation (input) NUMHEADER32_MAX_NUM_SHORT :: u32 where "NUMHEADER32_MAX_NUM_SHORT \<equiv> 127"
abbreviation (input) NUMHEADER32_MAX_NUM_LONG :: u32 where "NUMHEADER32_MAX_NUM_LONG \<equiv> 2147483647"

definition store :: "nat \<Rightarrow> byte list \<Rightarrow> byte list \<Rightarrow> int \<Rightarrow> (int \<times> byte list option) option" where
  "store off bs mem ret = map_option (\<lambda>m. (ret, Some m)) (mem_write off bs mem)"

definition numheader_encode16 ::
  "byte list option \<Rightarrow> int \<Rightarrow> u16 \<Rightarrow> (int \<times> byte list option) option" where
  "numheader_encode16 buf maxBufLen value =
     (case buf of
        None \<Rightarrow> Some (-1, buf)
      | Some mem \<Rightarrow>
          if maxBufLen = 0 \<or> value > NUMHEADER16_MAX_NUM_LONG then Some (-1, buf)
          else if value \<le> NUMHEADER16_MAX_NUM_SHORT then store 0 [ucast value] mem 1
          else if maxBufLen < 2 then Some (-1, buf)
          else let v = (if value > 32767 then value - 32768 else value)
               in store 0 [0x80 OR ucast (drop_bit 8 v), ucast v] mem 2)"

definition numheader_decode16 :: "cutil \<Rightarrow> byte list \<Rightarrow> nat \<times> u16 option" where
  "numheader_decode16 C bs =
     (case bs of
        [] \<Rightarrow> (0, None)
      | c # rest \<Rightarrow>
          if c AND 0x80 \<noteq> 0 then
            (if rest \<noteq> [] then
               let tmp = (ucast (unpackBE C (take 2 bs) 2) :: u16) AND 0x7FFF;
                   tmp = (if tmp < 128 then tmp + 32768 else tmp)
               in (2, Some tmp)
             else (1, None))
          else (1, Some (ucast c)))"

definition numheader_encode32 ::
  "cutil \<Rightarrow> byte list option \<Rightarrow> int \<Rightarrow> u32 \<Rightarrow> (int \<times> byte list option) option" where
  "numheader_encode32 C buf maxBufLen value =
     (case buf of
        None \<Rightarrow> Some (-1, buf)
      | Some mem \<Rightarrow>
          if maxBufLen = 0 \<or> value > NUMHEADER32_MAX_NUM_LONG then Some (-1, buf)
          else if value \<le> NUMHEADER32_MAX_NUM_SHORT then store 0 [ucast value] mem 1
          else if maxBufLen < 4 then Some (-1, buf)
          else store 0 (packBE C (value OR 0x80000000) 4) mem 4)"

definition numheader_decode32 :: "cutil \<Rightarrow> byte list \<Rightarrow> nat \<times> u32 option" where
  "numheader_decode32 C bs =
     (case bs of
        [] \<Rightarrow> (0, None)
      | c # _ \<Rightarrow>
          if c AND 0x80 \<noteq> 0 then
            (if 4 \<le> length bs then (4, Some (unpackBE C (take 4 bs) 4 AND 0x7FFFFFFF))
             else (0, None))
          else (1, Some (ucast c)))"

section \<open>What the encoders write\<close>

text \<open>The bytes of a number, by its size: the specification both directions are held to.\<close>

definition num16_bytes :: "u16 \<Rightarrow> byte list" where
  "num16_bytes v = (if v \<le> 127 then [ucast v]
     else be_bytes 2 (unat (0x8000 OR (if v > 32767 then v - 32768 else v))))"

definition num32_bytes :: "u32 \<Rightarrow> byte list" where
  "num32_bytes v = (if v \<le> 127 then [ucast v] else be_bytes 4 (unat (v OR 0x80000000)))"


lemma num16_bytes_long:
  "[0x80 OR ucast (drop_bit 8 w), ucast w] = be_bytes 2 (unat (0x8000 OR w))" for w :: u16
proof -
  have "(0x80 :: byte) OR ucast (drop_bit 8 w) = ucast (drop_bit 8 (0x8000 OR w))"
    by (rule bit_word_eqI) (auto simp: bit_simps bit_consts simp del: drop_bit_or)
  moreover have "ucast w = (ucast (0x8000 OR w) :: byte)"
    by (rule bit_word_eqI) (auto simp: bit_simps bit_consts)
  ultimately show ?thesis
    using byte_of_word [of "0x8000 OR w" 1] byte_of_word [of "0x8000 OR w" 0]
    by (simp add: be_bytes_def)
qed

lemma num16_low_bound: "v \<le> 32895 \<Longrightarrow> (if v > 32767 then v - 32768 else v) < 2 ^ 15" for v :: u16
  by (auto simp: word_le_nat_alt word_less_nat_alt unat_sub)

lemma num16_masked:
  "w < 2 ^ 15 \<Longrightarrow> (0x8000 OR w) AND 0x7FFF = w" for w :: u16
  using word_bit_bound [of w 15] by (auto intro!: bit_word_eqI simp: bit_simps bit_consts)

lemma num16_restore:
  "v \<le> 32895 \<Longrightarrow> \<not> v \<le> 127 \<Longrightarrow>
     (let w = (if v > 32767 then v - 32768 else v) in if w < 128 then w + 32768 else w) = v"
  for v :: u16
  by (auto simp: Let_def word_le_nat_alt word_less_nat_alt unat_sub)

lemma short_no_long_bit: "v < 2 ^ 7 \<Longrightarrow> (ucast v :: byte) AND 0x80 = 0" for v :: "'a::len word"
  using word_bit_bound [of v 7] by (auto simp: and_128_zero bit_simps)

lemma long_bit16: "(0x80 OR c) AND 0x80 \<noteq> 0" for c :: byte
  by (simp add: and_128_zero bit_simps bit_consts)

lemma store_in_bounds:
  "length bs \<le> length mem \<Longrightarrow> store 0 bs mem r = Some (r, Some (bs @ drop (length bs) mem))"
  by (simp add: store_def mem_write_def)

lemma numheader_encode16_writes:
  assumes "v \<le> NUMHEADER16_MAX_NUM_LONG"
    and "int (length (num16_bytes v)) \<le> n" and "n \<le> int (length mem)"
  shows "numheader_encode16 (Some mem) n v =
     Some (int (length (num16_bytes v)), Some (num16_bytes v @ drop (length (num16_bytes v)) mem))"
proof (cases "v \<le> 127")
  case True
  with assms show ?thesis
    by (auto simp: numheader_encode16_def num16_bytes_def store_in_bounds not_less)
next
  case False
  with assms show ?thesis
    by (simp add: numheader_encode16_def num16_bytes_def store_in_bounds not_less num16_bytes_long Let_def del: le_bytes_numeral)
qed

lemma numheader_encode32_writes:
  assumes "packs_big_endian C" and "v \<le> NUMHEADER32_MAX_NUM_LONG"
    and "int (length (num32_bytes v)) \<le> n" and "n \<le> int (length mem)"
  shows "numheader_encode32 C (Some mem) n v =
     Some (int (length (num32_bytes v)), Some (num32_bytes v @ drop (length (num32_bytes v)) mem))"
  using assms
  by (auto simp: numheader_encode32_def num32_bytes_def store_in_bounds not_less packBE_bytes
      split: if_splits)

lemma be_bytes_2: "be_bytes 2 x = [word_of_nat (x div 256), word_of_nat x]"
  by (simp add: be_bytes_def)

lemma ucast_byte_short: "v < 2 ^ 7 \<Longrightarrow> ucast (ucast v :: byte) = v" for v :: "'a::len word"
proof (rule bit_word_eqI)
  fix n
  assume v: "v < 2 ^ 7" and n: "n < LENGTH('a)"
  have "bit v n \<Longrightarrow> n < 8"
    using word_bit_bound [OF v, of n] by simp
  then show "bit (ucast (ucast v :: byte) :: 'a word) n \<longleftrightarrow> bit v n"
    using n by (auto simp: bit_simps)
qed

lemma unpackBE_be_bytes:
  "packs_big_endian C \<Longrightarrow> n = 1 \<or> n = 2 \<or> n = 4 \<Longrightarrow>
     unpackBE C (be_bytes n x) n = word_of_nat (x mod 256 ^ n)"
  by (simp add: unpackBE_bytes be_val_be_bytes)

lemma ucast_u16_u32: "(ucast (ucast x :: u32) :: u16) = x"
  by (rule bit_word_eqI) (auto simp: bit_simps)

lemma numheader_decode16_bytes:
  assumes C: "packs_big_endian C" and v: "v \<le> NUMHEADER16_MAX_NUM_LONG"
  shows "numheader_decode16 C (num16_bytes v @ rest) = (length (num16_bytes v), Some v)"
proof (cases "v \<le> 127")
  case True
  then have "v < 2 ^ 7" by (simp add: word_le_nat_alt word_less_nat_alt)
  then have "(ucast v :: byte) AND 0x80 = 0" and "ucast (ucast v :: byte) = v"
    by (rule short_no_long_bit, rule ucast_byte_short)
  with True show ?thesis
    by (simp add: num16_bytes_def numheader_decode16_def)
next
  case False
  obtain w where w: "w < 2 ^ 15" and restore: "(if w < 128 then w + 32768 else w) = v"
    and bytes: "num16_bytes v = [0x80 OR ucast (drop_bit 8 w), ucast w]"
  proof
    show "(if v > 32767 then v - 32768 else v) < 2 ^ 15"
      by (rule num16_low_bound [OF v])
    show "(if (if v > 32767 then v - 32768 else v) < 128
           then (if v > 32767 then v - 32768 else v) + 32768
           else (if v > 32767 then v - 32768 else v)) = v"
      using num16_restore [OF v False] by (simp only: Let_def)
    show "num16_bytes v = [0x80 OR ucast (drop_bit 8 (if v > 32767 then v - 32768 else v)),
            ucast (if v > 32767 then v - 32768 else v)]"
      using False by (simp only: num16_bytes_def num16_bytes_long if_False)
  qed
  have be: "[0x80 OR ucast (drop_bit 8 w), ucast w] = be_bytes 2 (unat (0x8000 OR w))"
    by (rule num16_bytes_long)
  have "unat (0x8000 OR w) mod 65536 = unat (0x8000 OR w)"
    using unsigned_less [of "0x8000 OR w", where ?'a = nat] by simp
  then have "unpackBE C [0x80 OR ucast (drop_bit 8 w), ucast w] 2 = word_of_nat (unat (0x8000 OR w))"
    unfolding be using C by (simp add: unpackBE_be_bytes)
  then have "(ucast (unpackBE C [0x80 OR ucast (drop_bit 8 w), ucast w] 2) :: u16) = 0x8000 OR w"
    by (simp only: of_nat_unat ucast_u16_u32)
  then have "(ucast (unpackBE C (take 2 (num16_bytes v @ rest)) 2) :: u16) AND 0x7FFF = w"
    by (simp only: bytes num16_masked [OF w] append_Cons take_Suc_Cons numeral_2_eq_2 take0)
  then show ?thesis
    using restore by (simp add: numheader_decode16_def bytes long_bit16 Let_def)
qed

lemma numheader_decode32_bytes:
  assumes C: "packs_big_endian C" and v: "v \<le> NUMHEADER32_MAX_NUM_LONG"
  shows "numheader_decode32 C (num32_bytes v @ rest) = (length (num32_bytes v), Some v)"
proof (cases "v \<le> 127")
  case True
  then have "v < 2 ^ 7" by (simp add: word_le_nat_alt word_less_nat_alt)
  then have "(ucast v :: byte) AND 0x80 = 0" and "ucast (ucast v :: byte) = v"
    by (rule short_no_long_bit, rule ucast_byte_short)
  with True show ?thesis
    by (simp add: num32_bytes_def numheader_decode32_def)
next
  case False
  let ?w = "v OR 0x80000000"
  have v31: "v < 2 ^ 31" using v by (simp add: word_le_nat_alt word_less_nat_alt)
  have bytes: "num32_bytes v = be_bytes 4 (unat ?w)"
    using False by (simp add: num32_bytes_def)
  have bnd: "unat ?w mod 256 ^ 4 = unat ?w"
    using unsigned_less [of ?w, where ?'a = nat] by simp
  obtain c cs where cs: "be_bytes 4 (unat ?w) = c # cs" and c: "c = word_of_nat (unat ?w div 256 ^ 3)"
    by (simp add: be_bytes_def div_mult2_eq [symmetric])
  have "bit c 7"
    using bit_byte_of_word [of ?w 3 7] by (simp add: c bit_simps bit_consts)
  then have "c AND 0x80 \<noteq> 0" by (simp add: and_128_zero)
  moreover have "unpackBE C (be_bytes 4 (unat ?w)) 4 AND 0x7FFFFFFF = v"
    using C bnd word_bit_bound [OF v31]
    by (auto simp: unpackBE_be_bytes bit_simps bit_consts intro!: bit_word_eqI)
  moreover have "take 4 (be_bytes 4 (unat ?w) @ rest) = be_bytes 4 (unat ?w)"
    by (simp add: take_append_length)
  moreover have "length (be_bytes 4 (unat ?w)) = 4" by simp
  ultimately show ?thesis
    unfolding numheader_decode32_def bytes by (simp add: cs)
qed

lemma word16_of_bytes:
  fixes c d :: byte
  defines "w \<equiv> (word_of_nat (be_val [c, d]) :: u16)"
  shows "unat w = be_val [c, d]" and "be_bytes 2 (unat w) = [c, d]" and "bit w 15 \<longleftrightarrow> bit c 7"
proof -
  have "be_val [c, d] < 65536"
    using le_val_bound [of "[d, c]"] by (simp add: be_val_def)
  then show u: "unat w = be_val [c, d]"
    by (simp add: w_def unat_of_nat)
  show bb: "be_bytes 2 (unat w) = [c, d]"
    unfolding u using le_bytes_le_val [of "[d, c]"] 
    by (simp add: be_bytes_def be_val_def numeral_2_eq_2 del: le_bytes.simps le_val.simps)
  then have "c = word_of_nat (unat w div 256 ^ 1)"
    by (simp add: be_bytes_def)
  then show "bit w 15 \<longleftrightarrow> bit c 7"
    using bit_byte_of_word [of w 1 7] by simp
qed

lemma num16_word_of_bytes:
  assumes "bit c 7" and x: "x = (word_of_nat (be_val [c, d]) :: u32)"
  shows "0x8000 OR ((ucast x :: u16) AND 0x7FFF) = word_of_nat (be_val [c, d])"
proof -
  have "ucast x = (word_of_nat (be_val [c, d]) :: u16)"
    unfolding x by (rule bit_word_eqI) (auto simp: bit_simps)
  moreover have "bit (word_of_nat (be_val [c, d]) :: u16) 15"
    using assms word16_of_bytes(3) by blast
  ultimately show ?thesis
    by (intro bit_word_eqI) (auto simp: bit_simps bit_consts less_Suc_eq_le le_less)
qed

lemma num16_bytes_of_low:
  assumes "w < 2 ^ 15" and "v = (if w < 128 then w + 32768 else w)"
  shows "v \<le> NUMHEADER16_MAX_NUM_LONG \<and> num16_bytes v = be_bytes 2 (unat (0x8000 OR w))"
proof -
  have "\<not> v \<le> 127" and "(if v > 32767 then v - 32768 else v) = w" and "v \<le> 32895"
    using assms by (auto simp: word_le_nat_alt word_less_nat_alt unat_sub unat_word_ariths split: if_splits)
  then show ?thesis by (simp only: num16_bytes_def if_False simp_thms)
qed

lemma power_7_128: "(2 :: nat) ^ 7 = 128"
  by simp

lemma numheader_decode16_canonical:
  assumes C: "packs_big_endian C" and d: "numheader_decode16 C bs = (n, Some v)"
  shows "v \<le> NUMHEADER16_MAX_NUM_LONG \<and> take n bs = num16_bytes v"
proof -
  from d obtain c rest where bs: "bs = c # rest"
    by (cases bs) (auto simp: numheader_decode16_def)
  show ?thesis
  proof (cases "c AND 0x80 = 0")
    case True
    with d have "n = 1" and v: "v = ucast c"
      by (simp_all add: numheader_decode16_def bs)
    have "bit c m \<Longrightarrow> m < 7" for m
      using True bit_imp_possible_bit [of c m] by (cases "m = 7") (auto simp: and_128_zero)
    then have "c = take_bit 7 c"
      by (intro bit_word_eqI) (auto simp: bit_simps)
    then have "unat c = take_bit 7 (unat c)"
      by (metis unsigned_take_bit_eq)
    then have "unat c < 128"
      by (metis take_bit_nat_less_exp power_7_128)
    then have "v \<le> 127"
      using order_trans [OF take_bit_nat_less_eq_self, of "unat c" 127 16]
      by (simp add: v word_le_nat_alt unsigned_ucast_eq)
    moreover have "ucast v = c"
      unfolding v by (rule bit_word_eqI) (auto simp: bit_simps)
    ultimately show ?thesis
      using \<open>n = 1\<close> by (auto simp: num16_bytes_def bs intro: order_trans)
  next
    case False
    with d obtain e r where rest: "rest = e # r"
      by (cases rest) (auto simp: numheader_decode16_def bs)
    define x where "x = unpackBE C [c, e] 2"
    define t where "t = (ucast x :: u16) AND 0x7FFF"
    have x: "x = word_of_nat (be_val [c, e])"
      using C by (simp add: x_def unpackBE_bytes)
    from d False have n: "n = 2" and v: "v = (if t < 128 then t + 32768 else t)"
      by (auto simp: numheader_decode16_def bs rest Let_def x_def t_def)
    have t: "t < 2 ^ 15"
      unfolding t_def by (rule order_le_less_trans [OF word_and_le1]) simp
    have "num16_bytes v = be_bytes 2 (unat (0x8000 OR t))"
      using num16_bytes_of_low [OF t v] by simp
    also have "0x8000 OR t = word_of_nat (be_val [c, e])"
      unfolding t_def by (rule num16_word_of_bytes [OF _ x]) (use False in \<open>simp add: and_128_zero\<close>)
    also have "be_bytes 2 (unat (word_of_nat (be_val [c, e]) :: u16)) = [c, e]"
      by (rule word16_of_bytes(2))
    finally show ?thesis
      using num16_bytes_of_low [OF t v] by (simp add: n bs rest)
  qed
qed

section \<open>Properties\<close>

text \<open>
  C34: Every 16-bit length prefix up to 32895 is written inside the caller's buffer, takes one
  byte below 128 and two from there, leaves the rest of the buffer alone, and is read back
  as the same number whatever follows it.
\<close>

theorem numheader16_roundtrip:
  assumes "packs_big_endian C" and "v \<le> NUMHEADER16_MAX_NUM_LONG"
    and "2 \<le> maxBufLen" and "maxBufLen \<le> int (length mem)"
  shows "\<exists>n mem'. numheader_encode16 (Some mem) maxBufLen v = Some (int n, Some mem') \<and>
     n = (if v \<le> NUMHEADER16_MAX_NUM_SHORT then 1 else 2) \<and> drop n mem' = drop n mem \<and>
     numheader_decode16 C (take n mem' @ rest) = (n, Some v)"
proof (intro exI conjI)
  show "numheader_encode16 (Some mem) maxBufLen v = Some (int (length (num16_bytes v)),
      Some (num16_bytes v @ drop (length (num16_bytes v)) mem))"
    using assms by (intro numheader_encode16_writes) (auto simp: num16_bytes_def)
qed (use assms numheader_decode16_bytes in \<open>auto simp: num16_bytes_def\<close>)

theorem numheader16_roundtrip_witness:
  "\<exists>n mem'. numheader_encode16 (Some [0, 0, 7]) 3 32800 = Some (int n, Some mem') \<and>
     n = (if (32800 :: u16) \<le> NUMHEADER16_MAX_NUM_SHORT then 1 else 2) \<and>
     drop n mem' = drop n [0, 0, 7] \<and>
     numheader_decode16 cutil_bytes (take n mem' @ [1]) = (n, Some 32800)"
  by (rule numheader16_roundtrip [OF cutil_bytes_be]) simp_all

text \<open>
  C35: The same for the 32-bit prefix, up to 2147483647, in one or four bytes.
\<close>

theorem numheader32_roundtrip:
  assumes "packs_big_endian C" and "v \<le> NUMHEADER32_MAX_NUM_LONG"
    and "4 \<le> maxBufLen" and "maxBufLen \<le> int (length mem)"
  shows "\<exists>n mem'. numheader_encode32 C (Some mem) maxBufLen v = Some (int n, Some mem') \<and>
     n = (if v \<le> NUMHEADER32_MAX_NUM_SHORT then 1 else 4) \<and> drop n mem' = drop n mem \<and>
     numheader_decode32 C (take n mem' @ rest) = (n, Some v)"
proof (intro exI conjI)
  show "numheader_encode32 C (Some mem) maxBufLen v = Some (int (length (num32_bytes v)),
      Some (num32_bytes v @ drop (length (num32_bytes v)) mem))"
    using assms by (intro numheader_encode32_writes) (auto simp: num32_bytes_def)
qed (use assms numheader_decode32_bytes in \<open>auto simp: num32_bytes_def\<close>)

theorem numheader32_roundtrip_witness:
  "\<exists>n mem'. numheader_encode32 cutil_bytes (Some [9, 9, 9, 9, 9]) 5 1000000 = Some (int n, Some mem') \<and>
     n = (if (1000000 :: u32) \<le> NUMHEADER32_MAX_NUM_SHORT then 1 else 4) \<and>
     drop n mem' = drop n [9, 9, 9, 9, 9] \<and>
     numheader_decode32 cutil_bytes (take n mem' @ [3, 4]) = (n, Some 1000000)"
  by (rule numheader32_roundtrip [OF cutil_bytes_be]) simp_all

text \<open>
  The 16-bit prefix is a bijective code: what the decoder accepts is the encoding of the
  number it returns, so no number has two forms and no other number can be read.
\<close>

theorem numheader16_canonical:
  assumes "packs_big_endian C" and "numheader_decode16 C bs = (n, Some v)"
  shows "numheader_encode16 (Some (replicate 2 0)) 2 v =
     Some (int n, Some (take n bs @ drop n (replicate 2 0)))"
proof -
  have v: "v \<le> NUMHEADER16_MAX_NUM_LONG" and bytes: "take n bs = num16_bytes v"
    using numheader_decode16_canonical [OF assms] by simp_all
  have "n \<le> length bs"
    using assms(2) by (auto simp: numheader_decode16_def Let_def Suc_le_eq split: list.splits if_splits)
  with bytes have "n = length (num16_bytes v)" by (metis length_take min.absorb2)
  moreover have "int (length (num16_bytes v)) \<le> 2"
    by (simp add: num16_bytes_def)
  ultimately show ?thesis
    unfolding bytes using numheader_encode16_writes [OF v, of 2 "replicate 2 0"] by simp
qed

theorem numheader16_canonical_witness:
  "numheader_encode16 (Some (replicate 2 0)) 2 32768 =
     Some (int 2, Some (take 2 [0x80, 0, 5] @ drop 2 (replicate 2 0)))"
  by (rule numheader16_canonical [OF cutil_bytes_be])
    (simp add: numheader_decode16_def cutil_bytes_def be_val_def)

text \<open>
  A prefix cut off inside its long form yields no number. The 32-bit reader then does
  not move; the 16-bit reader moves past the first byte although it read nothing.
\<close>

theorem numheader_truncated:
  "c AND 0x80 \<noteq> 0 \<Longrightarrow> length rest < 3 \<Longrightarrow>
     numheader_decode16 C [c] = (1, None) \<and> numheader_decode32 C (c # rest) = (0, None)"
  by (simp add: numheader_decode16_def numheader_decode32_def)

theorem numheader_truncated_witness:
  "numheader_decode16 cutil_bytes [0x81] = (1, None) \<and>
   numheader_decode32 cutil_bytes (0x81 # [2]) = (0, None)"
  by (rule numheader_truncated) simp_all

section \<open>The prefixes as codecs\<close>

definition num16_dec :: "cutil \<Rightarrow> byte list \<Rightarrow> (u16 \<times> nat) option" where
  "num16_dec C bs = (case numheader_decode16 C bs of (n, v) \<Rightarrow> map_option (\<lambda>v. (v, n)) v)"

definition num32_dec :: "cutil \<Rightarrow> byte list \<Rightarrow> (u32 \<times> nat) option" where
  "num32_dec C bs = (case numheader_decode32 C bs of (n, v) \<Rightarrow> map_option (\<lambda>v. (v, n)) v)"

lemma num_bytes_nonempty: "num16_bytes v \<noteq> []" "num32_bytes w \<noteq> []"
  by (simp_all add: num16_bytes_def num32_bytes_def be_bytes_def)

sublocale big_endian \<subseteq> num16: prefix_codec num16_bytes "num16_dec C" "\<lambda>v. v \<le> 32895"
  by unfold_locales
    (simp_all add: num16_dec_def numheader_decode16_bytes [OF packs] num_bytes_nonempty)

sublocale big_endian \<subseteq> num32: prefix_codec num32_bytes "num32_dec C" "\<lambda>v. v \<le> 2147483647"
  by unfold_locales
    (simp_all add: num32_dec_def numheader_decode32_bytes [OF packs] num_bytes_nonempty)

end
