(* ===== verification/RemoteFile.thy ===== *)
theory RemoteFile
  imports NumHeader
begin

text \<open>
  The addressing and the commands of the RemoteFile protocol, apx/src/remotefile.c. An address
  has 30 bits and travels with one flag, the more bit: below 0x4000 in two bytes, from there in
  four with the top bit set. An encoder returns the number of bytes it wrote, 0 when it refuses,
  with the buffer it leaves; \<open>None\<close> stands for a store outside the buffer. A decoder takes the
  bytes from begin to end and returns how many it used with what it stored through its
  pointers, \<open>None\<close> where it left the target alone.
\<close>

abbreviation (input) RMF_LOW_ADDR_MASK :: u32 where "RMF_LOW_ADDR_MASK \<equiv> 0x3FFF"
abbreviation (input) RMF_HIGH_ADDR_MIN :: u32 where "RMF_HIGH_ADDR_MIN \<equiv> 0x4000"
abbreviation (input) RMF_HIGH_ADDR_MAX :: u32 where "RMF_HIGH_ADDR_MAX \<equiv> 0x3FFFFFFF"
abbreviation (input) RMF_HIGH_ADDR_MASK :: u32 where "RMF_HIGH_ADDR_MASK \<equiv> RMF_HIGH_ADDR_MAX"
abbreviation (input) RMF_MORE_BIT_LOW_ADDR :: u32 where "RMF_MORE_BIT_LOW_ADDR \<equiv> 0x4000"
abbreviation (input) RMF_MORE_BIT_HIGH_ADDR :: u32 where "RMF_MORE_BIT_HIGH_ADDR \<equiv> 0x40000000"
abbreviation (input) RMF_HIGH_ADDR_BIT :: u32 where "RMF_HIGH_ADDR_BIT \<equiv> 0x80000000"
abbreviation (input) RMF_U8_MORE_BIT :: byte where "RMF_U8_MORE_BIT \<equiv> 0x40"
abbreviation (input) RMF_U8_HIGH_ADDR_BIT :: byte where "RMF_U8_HIGH_ADDR_BIT \<equiv> 0x80"
abbreviation (input) RMF_REMOTE_ADDRESS_BIT :: u32 where "RMF_REMOTE_ADDRESS_BIT \<equiv> 0x80000000"
abbreviation (input) RMF_INVALID_ADDRESS :: u32 where "RMF_INVALID_ADDRESS \<equiv> 0x7FFFFFFF"
abbreviation (input) RMF_CMD_AREA_START_ADDRESS :: u32 where "RMF_CMD_AREA_START_ADDRESS \<equiv> 0x3FFFFC00"
abbreviation (input) RMF_CMD_ACK_MSG :: u32 where "RMF_CMD_ACK_MSG \<equiv> 0"
abbreviation (input) RMF_CMD_PUBLISH_FILE_MSG :: u32 where "RMF_CMD_PUBLISH_FILE_MSG \<equiv> 3"
abbreviation (input) RMF_CMD_REVOKE_FILE_MSG :: u32 where "RMF_CMD_REVOKE_FILE_MSG \<equiv> 4"
abbreviation (input) RMF_CMD_OPEN_FILE_MSG :: u32 where "RMF_CMD_OPEN_FILE_MSG \<equiv> 10"
abbreviation (input) RMF_CMD_CLOSE_FILE_MSG :: u32 where "RMF_CMD_CLOSE_FILE_MSG \<equiv> 11"
abbreviation (input) RMF_CMD_TYPE_SIZE :: nat where "RMF_CMD_TYPE_SIZE \<equiv> 4"
abbreviation (input) RMF_FILE_OPEN_CMD_SIZE :: nat where "RMF_FILE_OPEN_CMD_SIZE \<equiv> 4"

section \<open>Operations\<close>

definition put :: "byte list \<Rightarrow> byte list \<Rightarrow> (nat \<times> byte list option) option" where
  "put bs mem = map_option (\<lambda>m. (length bs, Some m)) (mem_write 0 bs mem)"

definition rmf_needed_encoding_size :: "u32 \<Rightarrow> nat" where
  "rmf_needed_encoding_size address = (if address < RMF_HIGH_ADDR_MIN then 2 else 4)"

definition rmf_address_encode ::
  "cutil \<Rightarrow> byte list option \<Rightarrow> nat \<Rightarrow> u32 \<Rightarrow> bool \<Rightarrow> (nat \<times> byte list option) option" where
  "rmf_address_encode C buf buf_size address more_bit =
     (case buf of
        None \<Rightarrow> Some (0, buf)
      | Some mem \<Rightarrow>
          if buf_size = 0 \<or> address > RMF_HIGH_ADDR_MAX then Some (0, buf)
          else let encoding_size = rmf_needed_encoding_size address in
            if encoding_size \<le> buf_size then
              (if encoding_size = 2 then
                 let v = (if more_bit then 0x4000 else 0 :: u16) OR ucast address
                 in put (packBE C (ucast v) 2) mem
               else
                 let v = (if more_bit then RMF_HIGH_ADDR_BIT OR RMF_MORE_BIT_HIGH_ADDR
                          else RMF_HIGH_ADDR_BIT) OR address
                 in put (packBE C v 4) mem)
            else Some (0, buf))"

definition rmf_address_decode ::
  "cutil \<Rightarrow> byte list \<Rightarrow> nat \<times> u32 option \<times> bool option" where
  "rmf_address_decode C bs =
     (case bs of
        [] \<Rightarrow> (0, None, None)
      | first_byte # _ \<Rightarrow>
          let more_bit = Some (first_byte AND RMF_U8_MORE_BIT \<noteq> 0) in
          if first_byte AND RMF_U8_HIGH_ADDR_BIT \<noteq> 0 then
            (if 4 \<le> length bs
             then (4, Some (unpackBE C (take 4 bs) 4 AND RMF_HIGH_ADDR_MASK), more_bit)
             else (0, None, more_bit))
          else
            (if 2 \<le> length bs
             then (2, Some (unpackBE C (take 2 bs) 2 AND RMF_LOW_ADDR_MASK), more_bit)
             else (0, None, more_bit)))"

definition rmf_encode_open_file_cmd ::
  "cutil \<Rightarrow> byte list \<Rightarrow> nat \<Rightarrow> u32 \<Rightarrow> (nat \<times> byte list option) option" where
  "rmf_encode_open_file_cmd C mem buf_size address =
     (let required_size = RMF_CMD_TYPE_SIZE + RMF_FILE_OPEN_CMD_SIZE in
      if address > RMF_HIGH_ADDR_MAX \<or> required_size > buf_size then Some (0, Some mem)
      else put (packLE C RMF_CMD_OPEN_FILE_MSG 4 @ packLE C address 4) mem)"

definition rmf_encode_acknowledge_cmd ::
  "cutil \<Rightarrow> byte list \<Rightarrow> nat \<Rightarrow> (nat \<times> byte list option) option" where
  "rmf_encode_acknowledge_cmd C mem buf_size =
     (if RMF_CMD_TYPE_SIZE > buf_size then Some (0, Some mem)
      else put (packLE C RMF_CMD_ACK_MSG 4) mem)"

definition rmf_decode_cmd_type :: "cutil \<Rightarrow> byte list \<Rightarrow> nat \<times> u32 option" where
  "rmf_decode_cmd_type C bs =
     (if RMF_CMD_TYPE_SIZE \<le> length bs then (RMF_CMD_TYPE_SIZE, Some (unpackLE C (take 4 bs) 4))
      else (0, None))"

section \<open>Addresses as a code\<close>

text \<open>The bytes of an address with its flag: what both directions are held to.\<close>

definition address_bytes :: "u32 \<times> bool \<Rightarrow> byte list" where
  "address_bytes am = (case am of (a, m) \<Rightarrow>
     if a < 0x4000 then be_bytes 2 (unat ((if m then 0x4000 else 0) OR a))
     else be_bytes 4 (unat ((if m then 0xC0000000 else 0x80000000) OR a)))"

lemma put_in_bounds:
  "length bs \<le> length mem \<Longrightarrow> put bs mem = Some (length bs, Some (bs @ drop (length bs) mem))"
  by (simp add: put_def mem_write_def)

lemma bit_address_flags [bit_consts]:
  "bit (64 :: int) n \<longleftrightarrow> n = 6" "bit (3221225472 :: int) n \<longleftrightarrow> n = 30 \<or> n = 31"
proof -
  have "(3221225472 :: int) = 1073741824 OR 2147483648" by simp
  show "bit (64 :: int) n \<longleftrightarrow> n = 6" by (simp add: bit_consts)
  show "bit (3221225472 :: int) n \<longleftrightarrow> n = 30 \<or> n = 31"
    unfolding \<open>3221225472 = _\<close> by (simp only: bit_or_iff bit_consts)
qed


lemma low_address_word:
  fixes a :: u32
  assumes "a < 0x4000"
  shows "ucast ((if m then 0x4000 else 0) OR ucast a :: u16) = (if m then 0x4000 else 0) OR a"
proof -
  have "a < 2 ^ 14" using assms by simp
  then have "bit a k \<Longrightarrow> k < 16" for k
    using word_bit_bound [of a 14 k] by simp
  then show ?thesis
    by (auto intro!: bit_word_eqI simp: bit_simps bit_consts)
qed

lemma address_encode_writes:
  assumes C: "packs_big_endian C" and a: "a \<le> RMF_HIGH_ADDR_MAX"
    and n: "length (address_bytes (a, m)) \<le> n" "n \<le> length mem"
  shows "rmf_address_encode C (Some mem) n a m =
    Some (length (address_bytes (a, m)),
      Some (address_bytes (a, m) @ drop (length (address_bytes (a, m))) mem))"
proof (cases "a < 0x4000")
  case True
  then show ?thesis
    using assms
    by (auto simp: rmf_address_encode_def rmf_needed_encoding_size_def address_bytes_def
        put_in_bounds packBE_bytes Let_def low_address_word [OF True])
next
  case False
  then show ?thesis
    using assms by (auto simp: rmf_address_encode_def rmf_needed_encoding_size_def address_bytes_def
        put_in_bounds packBE_bytes Let_def)
qed

lemma be_first_bit:
  assumes "n = 2 \<or> n = 4" and "k < 8"
  shows "\<exists>c cs. be_bytes n (unat (w :: u32)) = c # cs \<and> (bit c k \<longleftrightarrow> bit w (k + 8 * (n - 1)))"
proof -
  have "be_bytes n (unat w) = word_of_nat (unat w div 256 ^ (n - 1)) # tl (be_bytes n (unat w))"
    using assms(1) by (auto simp: be_bytes_def div_mult2_eq [symmetric])
  moreover have "bit (word_of_nat (unat w div 256 ^ (n - 1)) :: byte) k \<longleftrightarrow> bit w (k + 8 * (n - 1))"
    using assms(2) bit_byte_of_word by blast
  ultimately show ?thesis by blast
qed

lemma and_64_zero: "c AND 64 = 0 \<longleftrightarrow> \<not> bit c 6" for c :: byte
proof
  show "\<not> bit c 6 \<Longrightarrow> c AND 64 = 0"
    by (auto intro!: bit_word_eqI simp: bit_simps bit_consts)
  assume "c AND 64 = 0"
  then have "\<not> bit (c AND 64) 6" by simp
  then show "\<not> bit c 6" by (simp add: bit_simps bit_consts)
qed


lemma power_16_65536: "(2 :: nat) ^ 16 = 65536"
  by simp

lemma address_decode_low:
  assumes C: "packs_big_endian C" and a: "a < 0x4000"
  shows "rmf_address_decode C (address_bytes (a, m) @ rest) = (2, Some a, Some m)"
proof -
  define w where "w = (if m then 0x4000 else 0) OR a"
  have a14: "bit a k \<Longrightarrow> k < 14" for k
    using a word_bit_bound [of a 14 k] by simp
  then have bits: "bit w 15 = False" "bit w 14 = m" and masked: "w AND 0x3FFF = a"
    using a14 [of 15] a14 [of 14]
    by (auto simp: w_def intro!: bit_word_eqI simp: bit_simps bit_consts)
  have "bit w k \<Longrightarrow> k < 16" for k
    using a14 [of k] by (auto simp: w_def bit_simps bit_consts split: if_splits)
  then have "take_bit 16 w = w"
    by (auto intro!: bit_word_eqI simp: bit_simps)
  then have u: "unat w mod 65536 = unat w"
    by (metis take_bit_eq_mod unsigned_take_bit_eq power_16_65536)
  from be_first_bit [of 2 7 w] be_first_bit [of 2 6 w]
  obtain c cs where cs: "be_bytes 2 (unat w) = c # cs" and "bit c 7 = bit w 15" "bit c 6 = bit w 14"
    by auto
  moreover have "take 2 (be_bytes 2 (unat w) @ rest) = be_bytes 2 (unat w)"
    by (simp add: take_append_length)
  moreover have "length (be_bytes 2 (unat w)) = 2" by simp
  moreover have "unpackBE C (be_bytes 2 (unat w)) 2 = w"
    using C u by (simp add: unpackBE_be_bytes)
  moreover have "address_bytes (a, m) = be_bytes 2 (unat w)"
    using a by (simp add: address_bytes_def w_def)
  ultimately show ?thesis
    using bits masked by (simp add: rmf_address_decode_def and_128_zero and_64_zero Let_def)
qed

lemma address_decode_high:
  assumes C: "packs_big_endian C" and a: "\<not> a < 0x4000" "a \<le> RMF_HIGH_ADDR_MAX"
  shows "rmf_address_decode C (address_bytes (a, m) @ rest) = (4, Some a, Some m)"
proof -
  define w where "w = (if m then 0xC0000000 else 0x80000000) OR a"
  have "a < 2 ^ 30" using a(2) by (simp add: word_le_nat_alt word_less_nat_alt)
  then have a30: "bit a k \<Longrightarrow> k < 30" for k
    using word_bit_bound [of a 30 k] by simp
  then have bits: "bit w 31 = True" "bit w 30 = m" and masked: "w AND 0x3FFFFFFF = a"
    using a30 [of 31] a30 [of 30]
    by (auto simp: w_def intro!: bit_word_eqI simp: bit_simps bit_consts)
  have u: "unat w mod 4294967296 = unat w"
    using unsigned_less [of w, where ?'a = nat] by simp
  from be_first_bit [of 4 7 w] be_first_bit [of 4 6 w]
  obtain c cs where cs: "be_bytes 4 (unat w) = c # cs" and "bit c 7 = bit w 31" "bit c 6 = bit w 30"
    by auto
  moreover have "take 4 (be_bytes 4 (unat w) @ rest) = be_bytes 4 (unat w)"
    by (simp add: take_append_length)
  moreover have "length (be_bytes 4 (unat w)) = 4" by simp
  moreover have "unpackBE C (be_bytes 4 (unat w)) 4 = w"
    using C u by (simp add: unpackBE_be_bytes)
  moreover have "address_bytes (a, m) = be_bytes 4 (unat w)"
    using a by (simp add: address_bytes_def w_def)
  ultimately show ?thesis
    using bits masked by (simp add: rmf_address_decode_def and_128_zero and_64_zero Let_def)
qed


lemma address_decode_bytes:
  assumes "packs_big_endian C" and "a \<le> RMF_HIGH_ADDR_MAX"
  shows "rmf_address_decode C (address_bytes (a, m) @ rest) =
    (length (address_bytes (a, m)), Some a, Some m)"
proof -
  have "length (address_bytes (a, m)) = (if a < 0x4000 then 2 else 4)"
    by (simp add: address_bytes_def)
  then show ?thesis
    using assms by (simp add: address_decode_low address_decode_high)
qed

lemma address_bytes_nonempty: "address_bytes am \<noteq> []"
proof -
  have "length (address_bytes am) = (if fst am < 0x4000 then 2 else 4)"
    by (simp add: address_bytes_def split: prod.split)
  then show ?thesis by (auto split: if_splits)
qed

definition address_dec :: "cutil \<Rightarrow> byte list \<Rightarrow> ((u32 \<times> bool) \<times> nat) option" where
  "address_dec C bs = (case rmf_address_decode C bs of
     (n, Some a, Some m) \<Rightarrow> Some ((a, m), n) | _ \<Rightarrow> None)"

sublocale big_endian \<subseteq> address: prefix_codec address_bytes "address_dec C" "\<lambda>(a, m). a \<le> 0x3FFFFFFF"
  by unfold_locales
    (auto simp: address_dec_def address_decode_bytes [OF packs] address_bytes_nonempty)

section \<open>Properties\<close>

text \<open>
  C33: Every 30 bit address goes out with its more bit in the number of bytes that
  rmf_needed_encoding_size announces, leaves the rest of the buffer alone, and comes back
  with the same flag in front of whatever follows.
\<close>

theorem address_roundtrip:
  assumes "packs_big_endian C" and "address \<le> RMF_HIGH_ADDR_MAX"
    and "rmf_needed_encoding_size address \<le> buf_size" and "buf_size \<le> length mem"
  shows "\<exists>n mem'. rmf_address_encode C (Some mem) buf_size address flag = Some (n, Some mem') \<and>
     n = rmf_needed_encoding_size address \<and> drop n mem' = drop n mem \<and>
     rmf_address_decode C (take n mem' @ rest) = (n, Some address, Some flag)"
proof (intro exI conjI)
  let ?b = "address_bytes (address, flag)"
  have n: "length ?b = rmf_needed_encoding_size address"
    by (simp add: address_bytes_def rmf_needed_encoding_size_def)
  show "rmf_address_encode C (Some mem) buf_size address flag =
      Some (length ?b, Some (?b @ drop (length ?b) mem))"
    using assms n by (intro address_encode_writes) simp_all
  show "length ?b = rmf_needed_encoding_size address"
    by (rule n)
qed (use assms address_decode_bytes in \<open>auto simp: address_bytes_def\<close>)

theorem address_roundtrip_witness:
  "\<exists>n mem'. rmf_address_encode cutil_bytes (Some [0, 0, 0, 0, 7]) 5 0x4000 True = Some (n, Some mem') \<and>
     n = rmf_needed_encoding_size 0x4000 \<and> drop n mem' = drop n [0, 0, 0, 0, 7] \<and>
     rmf_address_decode cutil_bytes (take n mem' @ [1]) = (n, Some 0x4000, Some True)"
  by (rule address_roundtrip [OF cutil_bytes_be]) (simp_all add: rmf_needed_encoding_size_def)

text \<open>
  Whatever bytes arrive, a decoded address is in the 30 bit range, so it never carries the
  flag of a remote file and never is the invalid address, and the decoder used two or four
  bytes that are there; a header that is cut off is refused, but its more bit is stored.
\<close>

theorem address_decode_bounds:
  "case rmf_address_decode C bs of (n, address, flag) \<Rightarrow>
     (address \<noteq> None \<longleftrightarrow> n \<noteq> 0) \<and> n \<le> length bs \<and> n \<in> {0, 2, 4} \<and>
     (flag \<noteq> None \<longleftrightarrow> bs \<noteq> []) \<and> the_default 0 address \<le> RMF_HIGH_ADDR_MAX"
proof -
  have "x AND RMF_HIGH_ADDR_MASK \<le> RMF_HIGH_ADDR_MAX" for x
    by (rule word_and_le1)
  moreover have "x AND RMF_LOW_ADDR_MASK \<le> RMF_HIGH_ADDR_MAX" for x
    by (rule order_trans [OF word_and_le1]) simp
  ultimately show ?thesis
    by (auto simp: rmf_address_decode_def Let_def split: list.split)
qed

end
