(* ===== verification/FileInfo.thy ===== *)
theory FileInfo
  imports RemoteFile
begin

text \<open>
  What a RemoteFile peer says about a file, apx/src/file_info.c: address, size, kind, digest and
  name, and the publish command that carries them. The object is a record, the digest a field
  of 32 bytes of which a SHA-1 digest fills 20, the name the bytes of its string object. The
  operations on an existing object take its old value, because the C code keeps what it does
  not write; \<open>rmf_fileInfo_new\<close> takes the memory that malloc returned.
\<close>

abbreviation (input) RMF_FILE_TYPE_FIXED :: byte where "RMF_FILE_TYPE_FIXED \<equiv> 0"
abbreviation (input) RMF_FILE_TYPE_DYNAMIC8 :: byte where "RMF_FILE_TYPE_DYNAMIC8 \<equiv> 1"
abbreviation (input) RMF_FILE_TYPE_DYNAMIC16 :: byte where "RMF_FILE_TYPE_DYNAMIC16 \<equiv> 2"
abbreviation (input) RMF_FILE_TYPE_DYNAMIC32 :: byte where "RMF_FILE_TYPE_DYNAMIC32 \<equiv> 3"
abbreviation (input) RMF_FILE_TYPE_DEVICE :: byte where "RMF_FILE_TYPE_DEVICE \<equiv> 4"
abbreviation (input) RMF_FILE_TYPE_STREAM :: byte where "RMF_FILE_TYPE_STREAM \<equiv> 5"
abbreviation (input) RMF_DIGEST_TYPE_NONE :: byte where "RMF_DIGEST_TYPE_NONE \<equiv> 0"
abbreviation (input) RMF_DIGEST_TYPE_SHA1 :: byte where "RMF_DIGEST_TYPE_SHA1 \<equiv> 1"
abbreviation (input) RMF_DIGEST_TYPE_SHA256 :: byte where "RMF_DIGEST_TYPE_SHA256 \<equiv> 2"
abbreviation (input) RMF_SHA1_SIZE :: nat where "RMF_SHA1_SIZE \<equiv> 20"
abbreviation (input) RMF_SHA256_SIZE :: nat where "RMF_SHA256_SIZE \<equiv> 32"
abbreviation (input) RMF_FILE_INFO_HEADER_SIZE :: u32 where "RMF_FILE_INFO_HEADER_SIZE \<equiv> 48"
abbreviation (input) APX_ADDRESS_MASK_INTERNAL :: u32 where "APX_ADDRESS_MASK_INTERNAL \<equiv> 0x7FFFFFFF"

record rmf_fileInfo =
  fi_address :: u32
  fi_size :: u32
  fi_rmf_file_type :: byte
  fi_digest_type :: byte
  fi_digest_data :: "byte list"
  fi_name :: "byte list"

section \<open>Building and copying\<close>

definition rmf_fileInfo_set_digest_data ::
  "rmf_fileInfo \<Rightarrow> byte \<Rightarrow> byte list option \<Rightarrow> apx_error \<times> rmf_fileInfo" where
  "rmf_fileInfo_set_digest_data self digest_type digest_data =
     (if digest_type \<noteq> RMF_DIGEST_TYPE_NONE then
        (case digest_data of
           None \<Rightarrow> (APX_INVALID_ARGUMENT_ERROR, self)
         | Some src \<Rightarrow>
             (case memcpy (fi_digest_data self) src
                (if digest_type = RMF_DIGEST_TYPE_SHA1 then RMF_SHA1_SIZE else RMF_SHA256_SIZE) of
                None \<Rightarrow> (FAULT OUT_OF_BOUNDS, self)
              | Some bs \<Rightarrow> (APX_NO_ERROR, self\<lparr>fi_digest_data := bs\<rparr>)))
      else (APX_NO_ERROR, self\<lparr>fi_digest_data := replicate RMF_SHA256_SIZE 0\<rparr>))"

definition rmf_fileInfo_create ::
  "text_lib \<Rightarrow> rmf_fileInfo \<Rightarrow> u32 \<Rightarrow> u32 \<Rightarrow> byte list option \<Rightarrow> byte \<Rightarrow> byte \<Rightarrow> byte list option \<Rightarrow>
     apx_error \<times> rmf_fileInfo" where
  "rmf_fileInfo_create T self address sz name file_type digest_type digest_data =
     (let self = self\<lparr>fi_address := address, fi_size := sz, fi_rmf_file_type := file_type,
                      fi_digest_type := digest_type, fi_name := []\<rparr> in
      andThen
        (case name of
           None \<Rightarrow> (APX_NO_ERROR, self)
         | Some s \<Rightarrow> (case str_set_cstr T (fi_name self) s of
             (result, t) \<Rightarrow> (convert_from_adt_to_apx_error result, self\<lparr>fi_name := t\<rparr>)))
        (\<lambda>self. rmf_fileInfo_set_digest_data self digest_type digest_data))"

definition rmf_fileInfo_create_copy ::
  "text_lib \<Rightarrow> rmf_fileInfo \<Rightarrow> rmf_fileInfo \<Rightarrow> apx_error \<times> rmf_fileInfo" where
  "rmf_fileInfo_create_copy T self other =
     (let self = self\<lparr>fi_address := fi_address other, fi_size := fi_size other,
                      fi_rmf_file_type := fi_rmf_file_type other,
                      fi_digest_type := fi_digest_type other, fi_name := []\<rparr> in
      andThen
        (case str_set T (fi_name self) (fi_name other) of
           (result, t) \<Rightarrow> (convert_from_adt_to_apx_error result, self\<lparr>fi_name := t\<rparr>))
        (\<lambda>self. rmf_fileInfo_set_digest_data self (fi_digest_type other) (Some (fi_digest_data other))))"

definition rmf_fileInfo_assign ::
  "text_lib \<Rightarrow> rmf_fileInfo \<Rightarrow> rmf_fileInfo \<Rightarrow> apx_error \<times> rmf_fileInfo" where
  "rmf_fileInfo_assign T self other =
     (let self = self\<lparr>fi_address := fi_address other, fi_size := fi_size other,
                      fi_rmf_file_type := fi_rmf_file_type other,
                      fi_digest_type := fi_digest_type other\<rparr> in
      andThen
        (case str_set T (fi_name self) (fi_name other) of
           (result, t) \<Rightarrow> (convert_from_adt_to_apx_error result, self\<lparr>fi_name := t\<rparr>))
        (\<lambda>self. rmf_fileInfo_set_digest_data self (fi_digest_type other) (Some (fi_digest_data other))))"

definition rmf_fileInfo_new ::
  "text_lib \<Rightarrow> rmf_fileInfo option \<Rightarrow> u32 \<Rightarrow> u32 \<Rightarrow> byte list option \<Rightarrow> byte \<Rightarrow> byte \<Rightarrow>
     byte list option \<Rightarrow> rmf_fileInfo option" where
  "rmf_fileInfo_new T memory address sz name file_type digest_type digest_data =
     (case memory of
        None \<Rightarrow> None
      | Some self \<Rightarrow>
          (case rmf_fileInfo_create T self address sz name file_type digest_type digest_data of
             (rc, self) \<Rightarrow> if rc \<noteq> APX_NO_ERROR then None else Some self))"

definition rmf_fileInfo_make_empty :: "text_lib \<Rightarrow> rmf_fileInfo option \<Rightarrow> rmf_fileInfo option" where
  "rmf_fileInfo_make_empty T memory =
     rmf_fileInfo_new T memory RMF_INVALID_ADDRESS 0 None RMF_FILE_TYPE_FIXED RMF_DIGEST_TYPE_NONE None"

definition rmf_fileInfo_make_fixed ::
  "text_lib \<Rightarrow> rmf_fileInfo option \<Rightarrow> byte list option \<Rightarrow> u32 \<Rightarrow> u32 \<Rightarrow> rmf_fileInfo option" where
  "rmf_fileInfo_make_fixed T memory name sz address =
     rmf_fileInfo_new T memory address sz name RMF_FILE_TYPE_FIXED RMF_DIGEST_TYPE_NONE None"

definition rmf_fileInfo_make_fixed_with_digest ::
  "text_lib \<Rightarrow> rmf_fileInfo option \<Rightarrow> byte list option \<Rightarrow> u32 \<Rightarrow> u32 \<Rightarrow> byte \<Rightarrow> byte list option \<Rightarrow>
     rmf_fileInfo option" where
  "rmf_fileInfo_make_fixed_with_digest T memory name sz address digest_type digest_data =
     rmf_fileInfo_new T memory address sz name RMF_FILE_TYPE_FIXED digest_type digest_data"

definition rmf_fileInfo_clone ::
  "text_lib \<Rightarrow> rmf_fileInfo option \<Rightarrow> rmf_fileInfo \<Rightarrow> rmf_fileInfo option" where
  "rmf_fileInfo_clone T memory other =
     rmf_fileInfo_new T memory (fi_address other) (fi_size other) (Some (str_cstr T (fi_name other)))
       (fi_rmf_file_type other) (fi_digest_type other) (Some (fi_digest_data other))"

section \<open>Reading\<close>

definition rmf_fileInfo_name :: "text_lib \<Rightarrow> rmf_fileInfo \<Rightarrow> byte list" where
  "rmf_fileInfo_name T self = str_cstr T (fi_name self)"

definition rmf_fileInfo_set_address :: "rmf_fileInfo \<Rightarrow> u32 \<Rightarrow> rmf_fileInfo" where
  "rmf_fileInfo_set_address self address = self\<lparr>fi_address := address\<rparr>"

definition rmf_fileInfo_address_without_flags :: "rmf_fileInfo \<Rightarrow> u32" where
  "rmf_fileInfo_address_without_flags self = fi_address self AND APX_ADDRESS_MASK_INTERNAL"

definition rmf_fileInfo_is_remote_address :: "rmf_fileInfo \<Rightarrow> bool" where
  "rmf_fileInfo_is_remote_address self \<longleftrightarrow>
     fi_address self \<noteq> RMF_INVALID_ADDRESS \<and> fi_address self AND RMF_REMOTE_ADDRESS_BIT \<noteq> 0"

definition rmf_fileInfo_address_in_range :: "rmf_fileInfo \<Rightarrow> u32 \<Rightarrow> bool" where
  "rmf_fileInfo_address_in_range self address =
     (let address_without_flags = fi_address self AND APX_ADDRESS_MASK_INTERNAL
      in address_without_flags \<le> address \<and> address < address_without_flags + fi_size self)"

definition rmf_fileInfo_name_ends_with :: "text_lib \<Rightarrow> rmf_fileInfo \<Rightarrow> byte list \<Rightarrow> bool" where
  "rmf_fileInfo_name_ends_with T self suffix =
     (if str_size T (fi_name self) > 0 then
        let str_len = str_length T (fi_name self); suffix_len = length suffix
        in str_len \<ge> suffix_len \<and>
           c_string (drop (str_len - suffix_len) (str_cstr T (fi_name self))) = suffix
      else False)"

text \<open>\<open>strchr(s, c)\<close> as an offset.\<close>

definition strchr :: "byte list \<Rightarrow> byte \<Rightarrow> nat option" where
  "strchr s c = (let n = length (takeWhile (\<lambda>b. b \<noteq> c) (c_string s))
                 in if n < length (c_string s) then Some n else None)"

definition rmf_fileInfo_base_name :: "text_lib \<Rightarrow> rmf_fileInfo \<Rightarrow> byte list option" where
  "rmf_fileInfo_base_name T self =
     (let name = str_cstr T (fi_name self) in
      case strchr name 46 of
        None \<Rightarrow> None
      | Some dot \<Rightarrow> make_cstr T (take dot name))"

text \<open>The buffer dest after the call; \<open>None\<close> when the call stores outside it.\<close>

definition rmf_fileInfo_copy_base_name ::
  "text_lib \<Rightarrow> rmf_fileInfo \<Rightarrow> byte list \<Rightarrow> u32 \<Rightarrow> byte list option" where
  "rmf_fileInfo_copy_base_name T self dest max_dest_len =
     (if max_dest_len > 1 then
        let name = str_cstr T (fi_name self) in
        (case strchr name 46 of
           None \<Rightarrow> Some dest
         | Some dot \<Rightarrow>
             let len = (word_of_nat dot :: u32) in
             if max_dest_len < len then
               Option.bind (mem_write 0 (take (unat (max_dest_len - 1)) name) dest)
                 (mem_write (unat (max_dest_len - 1)) [0])
             else
               Option.bind (mem_write 0 (take (unat len) name) dest) (mem_write (unat len) [0]))
      else Some dest)"

section \<open>The publish command\<close>

definition rmf_value_to_file_type :: "u16 \<Rightarrow> byte \<Rightarrow> bool \<times> byte" where
  "rmf_value_to_file_type x file_type =
     (if x = 0 then (True, RMF_FILE_TYPE_FIXED)
      else if x = 1 then (True, RMF_FILE_TYPE_DYNAMIC8)
      else if x = 2 then (True, RMF_FILE_TYPE_DYNAMIC16)
      else if x = 3 then (True, RMF_FILE_TYPE_DYNAMIC32)
      else if x = 4 then (True, RMF_FILE_TYPE_DEVICE)
      else if x = 5 then (True, RMF_FILE_TYPE_STREAM)
      else (False, file_type))"

definition rmf_value_to_digest_type :: "u16 \<Rightarrow> byte \<Rightarrow> bool \<times> byte" where
  "rmf_value_to_digest_type x digest_type =
     (if x = 0 then (True, RMF_DIGEST_TYPE_NONE)
      else if x = 1 then (True, RMF_DIGEST_TYPE_SHA1)
      else if x = 2 then (True, RMF_DIGEST_TYPE_SHA256)
      else (False, digest_type))"

text \<open>
  The digest field of the command: a digest type that is none of the three leaves the bytes of
  the buffer as they are.
\<close>

definition digest_field :: "byte \<Rightarrow> byte list \<Rightarrow> byte list \<Rightarrow> byte list" where
  "digest_field digest_type digest_data old =
     (if digest_type = RMF_DIGEST_TYPE_NONE then replicate RMF_SHA256_SIZE 0
      else if digest_type = RMF_DIGEST_TYPE_SHA1
        then take RMF_SHA1_SIZE digest_data @ replicate (RMF_SHA256_SIZE - RMF_SHA1_SIZE) 0
      else if digest_type = RMF_DIGEST_TYPE_SHA256 then take RMF_SHA256_SIZE digest_data
      else old)"

definition rmf_encode_publish_file_cmd ::
  "cutil \<Rightarrow> text_lib \<Rightarrow> byte list \<Rightarrow> u32 \<Rightarrow> rmf_fileInfo \<Rightarrow> (u32 \<times> byte list) option" where
  "rmf_encode_publish_file_cmd C T mem buf_size file =
     (let name = c_string (rmf_fileInfo_name T file);
          name_size = (word_of_nat (length name) :: u32);
          required_size = RMF_FILE_INFO_HEADER_SIZE + name_size + 1
      in if required_size > buf_size then Some (0, mem)
         else map_option (Pair required_size)
           (mem_write 0
              (packLE C RMF_CMD_PUBLISH_FILE_MSG 4 @
               packLE C (rmf_fileInfo_address_without_flags file) 4 @
               packLE C (fi_size file) 4 @
               packLE C (ucast (fi_rmf_file_type file)) 2 @
               packLE C (ucast (fi_digest_type file)) 2 @
               digest_field (fi_digest_type file) (fi_digest_data file) (take 32 (drop 16 mem)) @
               take (unat name_size) name @ [0]) mem))"

definition rmf_decode_publish_file_cmd ::
  "cutil \<Rightarrow> text_lib \<Rightarrow> byte list \<Rightarrow> rmf_fileInfo \<Rightarrow> nat \<times> rmf_fileInfo" where
  "rmf_decode_publish_file_cmd C T bs file_info =
     (if 48 < length bs then
        if unpackLE C (take 4 bs) 4 \<noteq> RMF_CMD_PUBLISH_FILE_MSG then (0, file_info)
        else
          let value1 = (ucast (unpackLE C (take 2 (drop 12 bs)) 2) :: u16);
              value2 = (ucast (unpackLE C (take 2 (drop 14 bs)) 2) :: u16);
              file_info = file_info\<lparr>fi_address := unpackLE C (take 4 (drop 4 bs)) 4,
                            fi_size := unpackLE C (take 4 (drop 8 bs)) 4,
                            fi_digest_data := take 32 (drop 16 bs)\<rparr>
          in case rmf_value_to_file_type value1 (fi_rmf_file_type file_info) of
               (ok1, file_type) \<Rightarrow>
                 let file_info = file_info\<lparr>fi_rmf_file_type := file_type\<rparr> in
                 if \<not> ok1 then (0, file_info)
                 else case rmf_value_to_digest_type value2 (fi_digest_type file_info) of
                   (ok2, digest_type) \<Rightarrow>
                     let file_info = file_info\<lparr>fi_digest_type := digest_type\<rparr> in
                     if \<not> ok2 then (0, file_info)
                     else let result = while_predicate T (\<lambda>b. b \<noteq> 0) (drop 48 bs) in
                       if result > 0 \<and> 48 + result < length bs
                       then (48 + result, file_info\<lparr>fi_name :=
                               str_set_bstr T (fi_name file_info) (take result (drop 48 bs))\<rparr>)
                       else (0, file_info)
      else (0, file_info))"

section \<open>What the publish command carries\<close>

text \<open>
  A file description as the program makes it: a known kind, a digest field of full length, a
  name that is a C string and not empty, and a command that fits in 32 bits.
\<close>

definition file_info_ok :: "rmf_fileInfo \<Rightarrow> bool" where
  "file_info_ok f \<longleftrightarrow> fi_rmf_file_type f \<le> 5 \<and> fi_digest_type f \<le> 2 \<and>
     length (fi_digest_data f) = 32 \<and> fi_name f \<noteq> [] \<and> 0 \<notin> set (fi_name f) \<and>
     length (fi_name f) + 49 < 2 ^ 32"

definition publish_bytes :: "cutil \<Rightarrow> rmf_fileInfo \<Rightarrow> byte list" where
  "publish_bytes C f =
     packLE C 3 4 @ packLE C (rmf_fileInfo_address_without_flags f) 4 @ packLE C (fi_size f) 4 @
     packLE C (ucast (fi_rmf_file_type f)) 2 @ packLE C (ucast (fi_digest_type f)) 2 @
     digest_field (fi_digest_type f) (fi_digest_data f) [] @ fi_name f @ [0]"

definition published :: "rmf_fileInfo \<Rightarrow> rmf_fileInfo" where
  "published f = f\<lparr>fi_address := rmf_fileInfo_address_without_flags f,
     fi_digest_data := digest_field (fi_digest_type f) (fi_digest_data f) []\<rparr>"

lemma byte_upto:
  "b \<le> 2 \<Longrightarrow> b = 0 \<or> b = 1 \<or> b = 2" "b \<le> 5 \<Longrightarrow> b = 0 \<or> b = 1 \<or> b = 2 \<or> b = 3 \<or> b = 4 \<or> b = 5" for b :: byte
  by (auto simp: word_le_nat_alt word_unat_eq_iff)

lemma digest_field_length:
  "file_info_ok f \<Longrightarrow> length (digest_field (fi_digest_type f) (fi_digest_data f) x) = 32"
  using byte_upto(1) [of "fi_digest_type f"] by (auto simp: file_info_ok_def digest_field_def)

lemma digest_field_any:
  "file_info_ok f \<Longrightarrow> digest_field (fi_digest_type f) d x = digest_field (fi_digest_type f) d []"
  using byte_upto(1) [of "fi_digest_type f"] by (auto simp: file_info_ok_def digest_field_def)

lemma length_publish_bytes:
  "packs_little_endian C \<Longrightarrow> file_info_ok f \<Longrightarrow> length (publish_bytes C f) = 49 + length (fi_name f)"
  by (simp add: publish_bytes_def codec_simps digest_field_length)

lemma encode_publish_writes:
  assumes C: "packs_little_endian C" and T: "measures_text T" and f: "file_info_ok f"
    and n: "49 + length (fi_name f) \<le> unat n" "unat n \<le> length mem"
  shows "rmf_encode_publish_file_cmd C T mem n f =
    Some (word_of_nat (length (publish_bytes C f)),
      publish_bytes C f @ drop (length (publish_bytes C f)) mem)"
proof -
  have name: "0 \<notin> set (fi_name f)" and len: "length (fi_name f) < 4294967296" "length (fi_name f) + 49 < 4294967296"
    using f by (auto simp: file_info_ok_def)
  then have u: "unat (word_of_nat (length (fi_name f)) :: u32) = length (fi_name f)"
    by (simp add: unat_of_nat)
  have req: "48 + word_of_nat (length (fi_name f)) + 1 = (word_of_nat (length (fi_name f) + 49) :: u32)"
    by simp
  have "unat (word_of_nat (length (fi_name f) + 49) :: u32) = length (fi_name f) + 49"
    using len by (simp add: unat_of_nat del: of_nat_add)
  then have fits: "\<not> 48 + word_of_nat (length (fi_name f)) + 1 > n"
    using n unfolding req by (simp add: word_less_nat_alt del: of_nat_add)
  have l: "length (publish_bytes C f) = length (fi_name f) + 49"
    using length_publish_bytes [OF C f] by simp
  have cs: "c_string (rmf_fileInfo_name T f) = fi_name f"
    by (simp add: rmf_fileInfo_name_def text_measures(1) [OF T name] name)
  have "rmf_encode_publish_file_cmd C T mem n f =
     map_option (Pair (48 + word_of_nat (length (fi_name f)) + 1)) (mem_write 0 (publish_bytes C f) mem)"
    unfolding rmf_encode_publish_file_cmd_def Let_def cs u if_not_P [OF fits] publish_bytes_def
      digest_field_any [OF f, of _ "take 32 (drop 16 mem)"]
    by simp
  also have "mem_write 0 (publish_bytes C f) mem = Some (publish_bytes C f @ drop (length (publish_bytes C f)) mem)"
    using l n by (simp add: mem_write_def)
  finally show ?thesis
    unfolding req l by simp
qed

lemma unpack_packed:
  assumes "packs_little_endian C"
  shows "unpackLE C (packLE C v 4) 4 = v"
    and "unpackLE C (packLE C (ucast (b :: byte)) 2) 2 = ucast b"
proof -
  show "unpackLE C (packLE C v 4) 4 = v"
    using assms unsigned_less [of v, where ?'a = nat] by (simp add: unpackLE_packLE)
  have "unat (ucast b :: u32) < 256"
    using unsigned_less [of b, where ?'a = nat] by (simp add: unsigned_ucast_eq take_bit_nat_def)
  then show "unpackLE C (packLE C (ucast b) 2) 2 = ucast b"
    using assms by (simp add: unpackLE_packLE)
qed

lemma kind_back:
  assumes f: "file_info_ok f"
  shows "rmf_value_to_file_type (ucast (ucast (fi_rmf_file_type f) :: u32)) x = (True, fi_rmf_file_type f)"
    and "rmf_value_to_digest_type (ucast (ucast (fi_digest_type f) :: u32)) y = (True, fi_digest_type f)"
  using byte_upto(2) [of "fi_rmf_file_type f"] byte_upto(1) [of "fi_digest_type f"] f
  by (auto simp: file_info_ok_def rmf_value_to_file_type_def rmf_value_to_digest_type_def)

lemma decode_publish_bytes:
  assumes C: "packs_little_endian C" and T: "scans T" "stores_text T" and f: "file_info_ok f"
  shows "rmf_decode_publish_file_cmd C T (publish_bytes C f @ rest) old = (48 + length (fi_name f), published f)"
proof -
  have len: "length (packLE C v 4) = 4" "length (packLE C v 2) = 2" for v
    using C by (simp_all add: codec_simps)
  define bs where "bs = publish_bytes C f @ rest"
  have at: "take 4 bs = packLE C 3 4"
    "take 4 (drop 4 bs) = packLE C (rmf_fileInfo_address_without_flags f) 4"
    "take 4 (drop 8 bs) = packLE C (fi_size f) 4"
    "take 2 (drop 12 bs) = packLE C (ucast (fi_rmf_file_type f)) 2"
    "take 2 (drop 14 bs) = packLE C (ucast (fi_digest_type f)) 2"
    "take 32 (drop 16 bs) = digest_field (fi_digest_type f) (fi_digest_data f) []"
    "drop 48 bs = fi_name f @ 0 # rest"
    by (simp_all add: bs_def publish_bytes_def len digest_field_length [OF f])
  have name: "fi_name f \<noteq> []" "0 \<notin> set (fi_name f)"
    using f by (simp_all add: file_info_ok_def)
  then have scan: "while_predicate T (\<lambda>b. b \<noteq> 0) (fi_name f @ 0 # rest) = length (fi_name f)"
    using c_string_plain_append [OF name(2), of rest]
    by (simp add: while_predicate_scan [OF T(1)] c_string_def)
  have l: "length bs = 49 + length (fi_name f) + length rest"
    by (simp add: bs_def length_publish_bytes [OF C f])
  have "old\<lparr>fi_address := rmf_fileInfo_address_without_flags f, fi_size := fi_size f,
      fi_digest_data := digest_field (fi_digest_type f) (fi_digest_data f) [],
      fi_rmf_file_type := fi_rmf_file_type f, fi_digest_type := fi_digest_type f,
      fi_name := fi_name f\<rparr> = published f"
    by (cases old; cases f) (simp add: published_def)
  then show ?thesis
    using name unfolding bs_def [symmetric] rmf_decode_publish_file_cmd_def Let_def at unpack_packed [OF C]
      kind_back [OF f]
    by (simp add: l scan str_set_stores [OF T(2)])
qed

section \<open>Suffixes\<close>

lemma name_ends_with_exact:
  assumes T: "measures_text T" and name: "\<forall>b\<in>set (fi_name f). b \<noteq> 0 \<and> b < 128"
    and s: "suffix \<noteq> []"
  shows "rmf_fileInfo_name_ends_with T f suffix \<longleftrightarrow> (\<exists>base. fi_name f = base @ suffix)"
proof -
  have z: "0 \<notin> set (fi_name f)" using name by auto
  then have zd: "0 \<notin> set (drop n (fi_name f))" for n
    by (meson in_set_dropD)
  show ?thesis
    using s unfolding rmf_fileInfo_name_ends_with_def text_measures(4) [OF T name] Let_def
      text_measures(5) [OF T name] text_measures(1) [OF T z] c_string_plain [OF zd]
    by (auto intro: exI [of _ "take (length (fi_name f) - length suffix) (fi_name f)"])
      (metis append_take_drop_id)
qed


section \<open>Properties\<close>

text \<open>
  C32: A publish command is written inside the buffer when it fits, leaves the rest of it alone, and
  the receiver reads back the file it describes: the address without the flag of a remote
  file, the digest with the unused bytes of a short one cleared, everything else as it was. The
  size that the decoder reports is one less than what was written: the terminator stays.
\<close>

theorem publish_roundtrip:
  assumes "packs_little_endian C" and "scans T" and "stores_text T" and "measures_text T"
    and "file_info_ok f" and "49 + length (fi_name f) \<le> unat n" and "unat n \<le> length mem"
  shows "\<exists>k mem'. rmf_encode_publish_file_cmd C T mem n f = Some (k, mem') \<and>
     unat k = 49 + length (fi_name f) \<and> drop (unat k) mem' = drop (unat k) mem \<and>
     rmf_decode_publish_file_cmd C T (take (unat k) mem' @ rest) old =
       (unat k - 1, f\<lparr>fi_address := fi_address f AND 0x7FFFFFFF,
          fi_digest_data := digest_field (fi_digest_type f) (fi_digest_data f) []\<rparr>)"
proof -
  let ?b = "publish_bytes C f"
  have l: "length ?b = 49 + length (fi_name f)"
    using assms(1,5) by (rule length_publish_bytes)
  then have u: "unat (word_of_nat (length ?b) :: u32) = length ?b"
    using assms(5) unfolding l by (simp add: file_info_ok_def unat_of_nat del: of_nat_add)
  show ?thesis
  proof (intro exI conjI)
    show "rmf_encode_publish_file_cmd C T mem n f =
      Some (word_of_nat (length ?b), ?b @ drop (length ?b) mem)"
      using assms by (intro encode_publish_writes)
  qed (use u l decode_publish_bytes [OF assms(1,2,3,5), of rest old] in
      \<open>simp_all add: published_def rmf_fileInfo_address_without_flags_def\<close>)
qed

theorem publish_roundtrip_witness:
  "let f = \<lparr>fi_address = 0x80000400, fi_size = 100, fi_rmf_file_type = 0, fi_digest_type = 1,
       fi_digest_data = replicate 32 7, fi_name = [97, 46, 105, 110]\<rparr> in
   \<exists>k mem'. rmf_encode_publish_file_cmd cutil_bytes text_bytes (replicate 60 9) 60 f = Some (k, mem') \<and>
     unat k = 49 + length (fi_name f) \<and> drop (unat k) mem' = drop (unat k) (replicate 60 9) \<and>
     rmf_decode_publish_file_cmd cutil_bytes text_bytes (take (unat k) mem' @ []) f =
       (unat k - 1, f\<lparr>fi_address := fi_address f AND 0x7FFFFFFF,
          fi_digest_data := digest_field (fi_digest_type f) (fi_digest_data f) []\<rparr>)"
  unfolding Let_def
  by (rule publish_roundtrip [OF cutil_bytes_le text_bytes_scans text_bytes_stores text_bytes_measures])
    (simp_all add: file_info_ok_def)

lemma strchr_first:
  "0 \<notin> set base \<Longrightarrow> c \<notin> set base \<Longrightarrow> c \<noteq> 0 \<Longrightarrow> strchr (base @ c # ext) c = Some (length base)"
proof -
  assume a: "0 \<notin> set base" "c \<notin> set base" "c \<noteq> 0"
  have "c_string (base @ c # ext) = base @ c # c_string ext"
    unfolding c_string_def using a by (subst takeWhile_append2) auto
  moreover have "takeWhile (\<lambda>b. b \<noteq> c) (base @ c # c_string ext) = base"
    using a by (subst takeWhile_append2) auto
  ultimately show ?thesis by (simp add: strchr_def)
qed

text \<open>
  rmf_fileInfo_copy_base_name overruns its target by one byte exactly when the base name is
  as long as the target: it then writes the terminator behind the end. A shorter base name is
  copied whole and a longer one is cut to what fits, with the terminator in both cases.
\<close>

theorem copy_base_name_overruns:
  assumes "measures_text T" and "fi_name f = base @ 46 # ext" and "0 \<notin> set (fi_name f)" and "46 \<notin> set base"
    and "1 < n" and "length dest = unat n" and "length base < 2 ^ 32"
  shows "rmf_fileInfo_copy_base_name T f dest n =
    (if length base = unat n then None
     else Some (let k = min (length base) (unat n - 1) in take k base @ [0] @ drop (Suc k) dest))"
proof -
  have dot: "strchr (str_cstr T (fi_name f)) 46 = Some (length base)"
    using assms strchr_first [of base 46 ext] by (simp add: text_measures(1))
  have cs: "str_cstr T (fi_name f) = base @ 46 # ext"
    using assms by (simp add: text_measures(1))
  have u: "unat (word_of_nat (length base) :: u32) = length base"
    using assms(7) by (simp add: unat_of_nat)
  have n1: "unat (n - 1) = unat n - 1" "1 < unat n"
    using assms(5) by (auto simp: unat_sub word_less_nat_alt word_le_nat_alt)
  consider "length base < unat n" | "length base = unat n" | "unat n < length base" by linarith
  then show ?thesis
    by cases (use assms(5,6) n1 in \<open>auto simp: rmf_fileInfo_copy_base_name_def dot [unfolded cs] cs u Let_def
        word_less_nat_alt mem_write_def min_def\<close>)
qed

theorem copy_base_name_overruns_witness:
  "let f = \<lparr>fi_address = 0, fi_size = 0, fi_rmf_file_type = 0, fi_digest_type = 0,
       fi_digest_data = replicate 32 0, fi_name = [78, 111, 100, 101, 46, 105, 110]\<rparr> in
   rmf_fileInfo_copy_base_name text_bytes f [0, 0, 0, 0] 4 =
    (if length [78, 111, 100, 101 :: byte] = unat (4 :: u32) then None
     else Some (let k = min (length [78, 111, 100, 101 :: byte]) (unat (4 :: u32) - 1)
                in take k [78, 111, 100, 101] @ [0] @ drop (Suc k) [0, 0, 0, 0]))"
  unfolding Let_def
  by (rule copy_base_name_overruns [OF text_bytes_measures, unfolded Let_def, where ext = "[105, 110]"]) simp_all

end
