(* ===== verification/FileMap.thy ===== *)
theory FileMap
  imports FileInfo "HOL-Library.While_Combinator"
begin

text \<open>
  The files of one side of a connection, apx/src/file.c and apx/src/file_map.c. A file is a
  record; a pointer to it is a number. The map owns its files, so its list (an adt_list) is a
  list of pointers with the files they point to, and a pointer held elsewhere, like the
  cache of the last file found, is looked up there: a pointer that is not in the list dangles.
  An iterator of the list is a position. The mutex, the listeners and the notification callbacks
  of a file are not part of the model.
\<close>

abbreviation (input) APX_UNKNOWN_FILE_TYPE :: byte where "APX_UNKNOWN_FILE_TYPE \<equiv> 0"
abbreviation (input) APX_DEFINITION_FILE_TYPE :: byte where "APX_DEFINITION_FILE_TYPE \<equiv> 1"
abbreviation (input) APX_PROVIDE_PORT_DATA_FILE_TYPE :: byte where "APX_PROVIDE_PORT_DATA_FILE_TYPE \<equiv> 2"
abbreviation (input) APX_REQUIRE_PORT_DATA_FILE_TYPE :: byte where "APX_REQUIRE_PORT_DATA_FILE_TYPE \<equiv> 3"
abbreviation (input) APX_PROVIDE_PORT_COUNT_FILE_TYPE :: byte where "APX_PROVIDE_PORT_COUNT_FILE_TYPE \<equiv> 4"
abbreviation (input) APX_REQUIRE_PORT_COUNT_FILE_TYPE :: byte where "APX_REQUIRE_PORT_COUNT_FILE_TYPE \<equiv> 5"

text \<open>The file name extensions, .apx, .out, .in, .cout and .cin.\<close>

abbreviation (input) APX_DEFINITION_FILE_EXT :: "byte list" where "APX_DEFINITION_FILE_EXT \<equiv> [46, 97, 112, 120]"
abbreviation (input) APX_PROVIDE_PORT_DATA_EXT :: "byte list" where "APX_PROVIDE_PORT_DATA_EXT \<equiv> [46, 111, 117, 116]"
abbreviation (input) APX_REQUIRE_PORT_DATA_EXT :: "byte list" where "APX_REQUIRE_PORT_DATA_EXT \<equiv> [46, 105, 110]"
abbreviation (input) APX_PROVIDE_PORT_COUNT_EXT :: "byte list" where "APX_PROVIDE_PORT_COUNT_EXT \<equiv> [46, 99, 111, 117, 116]"
abbreviation (input) APX_REQUIRE_PORT_COUNT_EXT :: "byte list" where "APX_REQUIRE_PORT_COUNT_EXT \<equiv> [46, 99, 105, 110]"

section \<open>Files\<close>

record apx_file =
  is_file_open :: bool
  has_first_write :: bool
  apx_file_type :: byte
  file_info :: rmf_fileInfo

definition apx_file_calc_file_type :: "text_lib \<Rightarrow> apx_file \<Rightarrow> apx_file" where
  "apx_file_calc_file_type T self = self\<lparr>apx_file_type :=
     (if rmf_fileInfo_name_ends_with T (file_info self) APX_DEFINITION_FILE_EXT then APX_DEFINITION_FILE_TYPE
      else if rmf_fileInfo_name_ends_with T (file_info self) APX_PROVIDE_PORT_DATA_EXT then APX_PROVIDE_PORT_DATA_FILE_TYPE
      else if rmf_fileInfo_name_ends_with T (file_info self) APX_REQUIRE_PORT_DATA_EXT then APX_REQUIRE_PORT_DATA_FILE_TYPE
      else if rmf_fileInfo_name_ends_with T (file_info self) APX_PROVIDE_PORT_COUNT_EXT then APX_PROVIDE_PORT_COUNT_FILE_TYPE
      else if rmf_fileInfo_name_ends_with T (file_info self) APX_REQUIRE_PORT_COUNT_EXT then APX_REQUIRE_PORT_COUNT_FILE_TYPE
      else APX_UNKNOWN_FILE_TYPE)\<rparr>"

definition apx_file_create :: "text_lib \<Rightarrow> apx_file \<Rightarrow> rmf_fileInfo \<Rightarrow> apx_error \<times> apx_file" where
  "apx_file_create T self info =
     (let self = self\<lparr>is_file_open := False, has_first_write := False, apx_file_type := APX_UNKNOWN_FILE_TYPE\<rparr> in
      case rmf_fileInfo_create_copy T (file_info self) info of
        (retval, fi) \<Rightarrow>
          let self = self\<lparr>file_info := fi\<rparr> in
          if retval = APX_NO_ERROR then (retval, apx_file_calc_file_type T self) else (retval, self))"

text \<open>The file in the memory that malloc returned; the error code only tells a fault.\<close>

definition apx_file_new ::
  "text_lib \<Rightarrow> (nat \<times> apx_file) option \<Rightarrow> rmf_fileInfo \<Rightarrow> apx_error \<times> (nat \<times> apx_file) option" where
  "apx_file_new T memory info =
     (case memory of
        None \<Rightarrow> (APX_NO_ERROR, None)
      | Some (p, self) \<Rightarrow>
          (case apx_file_create T self info of
             (result, self) \<Rightarrow>
               if is_fault result then (result, None)
               else if result \<noteq> APX_NO_ERROR then (APX_NO_ERROR, None)
               else (APX_NO_ERROR, Some (p, self))))"

definition apx_file_open :: "apx_file \<Rightarrow> apx_file" where
  "apx_file_open self = self\<lparr>is_file_open := True\<rparr>"

definition apx_file_close :: "apx_file \<Rightarrow> apx_file" where
  "apx_file_close self = self\<lparr>is_file_open := False\<rparr>"

definition apx_file_set_first_write :: "apx_file \<Rightarrow> apx_file" where
  "apx_file_set_first_write self = self\<lparr>has_first_write := True\<rparr>"

definition apx_file_get_address :: "apx_file \<Rightarrow> u32" where
  "apx_file_get_address self = fi_address (file_info self)"

definition apx_file_get_address_without_flags :: "apx_file \<Rightarrow> u32" where
  "apx_file_get_address_without_flags self = rmf_fileInfo_address_without_flags (file_info self)"

definition apx_file_set_address :: "apx_file \<Rightarrow> u32 \<Rightarrow> apx_file" where
  "apx_file_set_address self address = self\<lparr>file_info := rmf_fileInfo_set_address (file_info self) address\<rparr>"

text \<open>The function has no return in front of the size it computes, and ends with \<open>return 0\<close>.\<close>

definition apx_file_get_size :: "apx_file \<Rightarrow> u32" where
  "apx_file_get_size self = 0"

definition apx_file_get_end_address :: "apx_file \<Rightarrow> u32" where
  "apx_file_get_end_address self = fi_address (file_info self) + fi_size (file_info self)"

definition apx_file_get_end_address_without_flags :: "apx_file \<Rightarrow> u32" where
  "apx_file_get_end_address_without_flags self =
     rmf_fileInfo_address_without_flags (file_info self) + fi_size (file_info self)"

definition apx_file_address_in_range :: "apx_file \<Rightarrow> u32 \<Rightarrow> bool" where
  "apx_file_address_in_range self address = rmf_fileInfo_address_in_range (file_info self) address"

definition apx_file_is_local :: "apx_file \<Rightarrow> bool" where
  "apx_file_is_local self \<longleftrightarrow>
     fi_address (file_info self) AND APX_ADDRESS_MASK_INTERNAL \<noteq> RMF_INVALID_ADDRESS \<and>
     fi_address (file_info self) AND RMF_REMOTE_ADDRESS_BIT = 0"

definition apx_file_is_remote :: "apx_file \<Rightarrow> bool" where
  "apx_file_is_remote self \<longleftrightarrow>
     fi_address (file_info self) AND APX_ADDRESS_MASK_INTERNAL \<noteq> RMF_INVALID_ADDRESS \<and>
     fi_address (file_info self) AND RMF_REMOTE_ADDRESS_BIT \<noteq> 0"

definition apx_file_has_valid_address :: "apx_file \<Rightarrow> bool" where
  "apx_file_has_valid_address self \<longleftrightarrow> rmf_fileInfo_address_without_flags (file_info self) \<noteq> RMF_INVALID_ADDRESS"

definition apx_file_less_than :: "apx_file \<Rightarrow> apx_file \<Rightarrow> bool" where
  "apx_file_less_than a b \<longleftrightarrow> apx_file_get_address_without_flags a < apx_file_get_address_without_flags b"

definition apx_file_type_to_extension :: "byte \<Rightarrow> byte list" where
  "apx_file_type_to_extension file_type =
     (if file_type = APX_DEFINITION_FILE_TYPE then APX_DEFINITION_FILE_EXT
      else if file_type = APX_PROVIDE_PORT_DATA_FILE_TYPE then APX_PROVIDE_PORT_DATA_EXT
      else if file_type = APX_REQUIRE_PORT_DATA_FILE_TYPE then APX_REQUIRE_PORT_DATA_EXT
      else if file_type = APX_PROVIDE_PORT_COUNT_FILE_TYPE then APX_PROVIDE_PORT_COUNT_EXT
      else if file_type = APX_REQUIRE_PORT_COUNT_FILE_TYPE then APX_REQUIRE_PORT_COUNT_EXT
      else [])"

section \<open>The map\<close>

record apx_fileMap =
  is_remote_map :: bool
  file_list :: "(nat \<times> apx_file) list"
  last_file :: "nat option"

definition apx_fileMap_create :: "bool \<Rightarrow> apx_fileMap" where
  "apx_fileMap_create is_remote = \<lparr>is_remote_map = is_remote, file_list = [], last_file = None\<rparr>"

text \<open>
  The two loops of \<open>find_last_element_of_type\<close>: the first position of the type, then the end of
  the run that starts there.
\<close>

fun last_of_run :: "byte \<Rightarrow> (nat \<times> apx_file) list \<Rightarrow> nat \<Rightarrow> nat" where
  "last_of_run ft [] candidate = candidate"
| "last_of_run ft ((p, f) # fs) candidate =
     (if apx_file_type f = ft then last_of_run ft fs (Suc candidate) else candidate)"

fun last_of_type :: "byte \<Rightarrow> (nat \<times> apx_file) list \<Rightarrow> nat \<Rightarrow> nat option" where
  "last_of_type ft [] i = None"
| "last_of_type ft ((p, f) # fs) i =
     (if apx_file_type f = ft then Some (last_of_run ft fs i) else last_of_type ft fs (Suc i))"

definition find_last_element_of_type :: "apx_fileMap \<Rightarrow> byte \<Rightarrow> nat option" where
  "find_last_element_of_type self file_type = last_of_type file_type (file_list self) 0"

fun position_below :: "u32 \<Rightarrow> (nat \<times> apx_file) list \<Rightarrow> nat \<Rightarrow> nat option \<Rightarrow> nat option" where
  "position_below address [] i prev = prev"
| "position_below address ((p, f) # fs) i prev =
     (if apx_file_get_address_without_flags f < address then position_below address fs (Suc i) (Some i)
      else prev)"

definition find_next_available_position :: "apx_fileMap \<Rightarrow> apx_file \<Rightarrow> nat option" where
  "find_next_available_position self file =
     position_below (apx_file_get_address_without_flags file) (file_list self) 0 None"

text \<open>Start address and alignment of the region of a file type.\<close>

definition address_region :: "byte \<Rightarrow> u32 \<times> u32" where
  "address_region file_type =
     (if file_type = APX_DEFINITION_FILE_TYPE then (0x4000000, 0x40000)
      else if file_type = APX_PROVIDE_PORT_DATA_FILE_TYPE \<or> file_type = APX_REQUIRE_PORT_DATA_FILE_TYPE then (0, 0x400)
      else if file_type = APX_PROVIDE_PORT_COUNT_FILE_TYPE \<or> file_type = APX_REQUIRE_PORT_COUNT_FILE_TYPE
        then (0x8000000, 0x400)
      else (0x20000000, 0x1000))"

text \<open>
  The position of the last file of the type and the file with its address; \<open>None\<close> if the
  slow loop that steps by the alignment does not end.
\<close>

definition auto_assign_address :: "apx_fileMap \<Rightarrow> apx_file \<Rightarrow> (nat option \<times> apx_file) option" where
  "auto_assign_address self file =
     (case address_region (apx_file_type file) of
        (start_address, alignment) \<Rightarrow>
          (case find_last_element_of_type self (apx_file_type file) of
             None \<Rightarrow> Some (None, apx_file_set_address file start_address)
           | Some left \<Rightarrow>
               let end_address = apx_file_get_end_address_without_flags (snd (file_list self ! left)) in
               map_option (\<lambda>address. (Some left, apx_file_set_address file address))
                 (if alignment AND (alignment - 1) = 0
                  then Some ((end_address + (alignment - 1)) AND NOT (alignment - 1))
                  else while_option (\<lambda>address. address < end_address) (\<lambda>address. address + alignment) start_address)))"

definition insert_item ::
  "apx_fileMap \<Rightarrow> nat \<Rightarrow> apx_file \<Rightarrow> nat option \<Rightarrow> apx_error \<times> bool \<times> apx_fileMap" where
  "insert_item self p file iterator_left =
     (let fs = file_list self;
          file_start_address = apx_file_get_address_without_flags file;
          file_end_address = apx_file_get_end_address_without_flags file;
          right = (case iterator_left of None \<Rightarrow> 0 | Some i \<Rightarrow> Suc i)
      in if fs = [] then (APX_NO_ERROR, True, self\<lparr>file_list := [(p, file)]\<rparr>)
         else if \<exists>i. iterator_left = Some i \<and>
              \<not> apx_file_get_end_address_without_flags (snd (fs ! i)) \<le> file_start_address
           then (FAULT ASSERT_FAILURE, False, self)
         else if right < length fs then
           (if file_end_address > apx_file_get_address_without_flags (snd (fs ! right)) \<or>
               file_end_address > RMF_CMD_AREA_START_ADDRESS
            then (APX_NO_ERROR, False, self)
            else (APX_NO_ERROR, True, self\<lparr>file_list := take right fs @ [(p, file)] @ drop right fs\<rparr>))
         else (APX_NO_ERROR, True, self\<lparr>file_list := fs @ [(p, file)]\<rparr>))"

text \<open>
  The pointer to the new file, if one was made; \<open>None\<close> around it all if the function does not
  return.
\<close>

definition apx_fileMap_create_file ::
  "text_lib \<Rightarrow> (nat \<times> apx_file) option \<Rightarrow> apx_fileMap \<Rightarrow> rmf_fileInfo \<Rightarrow>
     (apx_error \<times> nat option \<times> apx_fileMap) option" where
  "apx_fileMap_create_file T memory self info =
     (case apx_file_new T memory info of
        (e, None) \<Rightarrow> Some (e, None, self)
      | (e, Some (p, file)) \<Rightarrow>
          (case (if apx_file_get_address_without_flags file = RMF_INVALID_ADDRESS
                 then (case auto_assign_address self file of
                         None \<Rightarrow> None
                       | Some (None, file) \<Rightarrow> Some (find_next_available_position self file, file)
                       | Some (Some left, file) \<Rightarrow> Some (Some left, file))
                 else Some (find_next_available_position self file, file)) of
             None \<Rightarrow> None
           | Some (iterator_left, file) \<Rightarrow>
               let file = (if is_remote_map self
                           then apx_file_set_address file (apx_file_get_address file OR RMF_REMOTE_ADDRESS_BIT)
                           else file)
               in Some (case insert_item self p file iterator_left of
                          (e, result, self) \<Rightarrow> (e, if result then Some p else None, self))))"

text \<open>\<open>adt_list_remove\<close> takes out the first element that is the item.\<close>

fun remove_item :: "nat \<Rightarrow> (nat \<times> apx_file) list \<Rightarrow> (nat \<times> apx_file) list" where
  "remove_item p [] = []"
| "remove_item p (qf # fs) = (if fst qf = p then fs else qf # remove_item p fs)"

definition apx_fileMap_remove_file :: "apx_fileMap \<Rightarrow> nat \<Rightarrow> apx_error \<times> apx_fileMap" where
  "apx_fileMap_remove_file self p =
     (let self = self\<lparr>last_file := None\<rparr> in
      if p \<in> set (map fst (file_list self))
      then (APX_NO_ERROR, self\<lparr>file_list := remove_item p (file_list self)\<rparr>)
      else (APX_NOT_FOUND_ERROR, self))"

text \<open>Both searches ask the file found last before they walk the list.\<close>

definition find_file :: "(apx_file \<Rightarrow> bool) \<Rightarrow> apx_fileMap \<Rightarrow> apx_error \<times> nat option \<times> apx_fileMap" where
  "find_file P self =
     (let walk = (case find (\<lambda>pf. P (snd pf)) (file_list self) of
                    None \<Rightarrow> (APX_NO_ERROR, None, self)
                  | Some (p, f) \<Rightarrow> (APX_NO_ERROR, Some p, self\<lparr>last_file := Some p\<rparr>))
      in case last_file self of
           None \<Rightarrow> walk
         | Some q \<Rightarrow>
             (case map_of (file_list self) q of
                None \<Rightarrow> (FAULT USE_AFTER_FREE, None, self)
              | Some f \<Rightarrow> if P f then (APX_NO_ERROR, Some q, self) else walk))"

definition apx_fileMap_find_by_address :: "apx_fileMap \<Rightarrow> u32 \<Rightarrow> apx_error \<times> nat option \<times> apx_fileMap" where
  "apx_fileMap_find_by_address self address = find_file (\<lambda>f. apx_file_address_in_range f address) self"

definition apx_fileMap_find_by_name ::
  "text_lib \<Rightarrow> apx_fileMap \<Rightarrow> byte list \<Rightarrow> apx_error \<times> nat option \<times> apx_fileMap" where
  "apx_fileMap_find_by_name T self name =
     find_file (\<lambda>f. c_string (rmf_fileInfo_name T (file_info f)) = name) self"

definition apx_fileMap_length :: "apx_fileMap \<Rightarrow> int" where
  "apx_fileMap_length self = int (length (file_list self))"

definition apx_fileMap_exist :: "apx_fileMap \<Rightarrow> nat \<Rightarrow> bool" where
  "apx_fileMap_exist self p \<longleftrightarrow> p \<in> set (map fst (file_list self))"

section \<open>Sorted files that do not overlap\<close>

abbreviation start :: "apx_file \<Rightarrow> nat" where
  "start f \<equiv> unat (apx_file_get_address_without_flags f)"

text \<open>The first address behind a file, as a number that does not wrap.\<close>

definition behind :: "apx_file \<Rightarrow> nat" where
  "behind f = start f + unat (fi_size (file_info f))"

definition apart :: "nat \<times> apx_file \<Rightarrow> nat \<times> apx_file \<Rightarrow> bool" where
  "apart f g \<longleftrightarrow> behind (snd f) \<le> start (snd g)"

definition files_ok :: "apx_fileMap \<Rightarrow> bool" where
  "files_ok m \<longleftrightarrow> sorted_wrt apart (file_list m) \<and> distinct (map fst (file_list m)) \<and>
     (\<forall>pf\<in>set (file_list m). behind (snd pf) < 2 ^ 32 \<and>
        (is_remote_map m \<longrightarrow> fi_address (file_info (snd pf)) AND RMF_REMOTE_ADDRESS_BIT \<noteq> 0)) \<and>
     (\<forall>p. last_file m = Some p \<longrightarrow> p \<in> fst ` set (file_list m))"

lemma start_le_behind [simp]: "start f \<le> behind f"
  by (simp add: behind_def)

lemma end_address_behind:
  "behind f < 2 ^ 32 \<Longrightarrow> unat (apx_file_get_end_address_without_flags f) = behind f"
  by (simp add: behind_def apx_file_get_end_address_without_flags_def
      apx_file_get_address_without_flags_def unat_add_lem [THEN iffD1])

lemma in_range_iff:
  "behind f < 2 ^ 32 \<Longrightarrow> apx_file_address_in_range f a \<longleftrightarrow> start f \<le> unat a \<and> unat a < behind f"
  using end_address_behind [of f]
  by (simp add: apx_file_address_in_range_def rmf_fileInfo_address_in_range_def Let_def word_le_nat_alt
      word_less_nat_alt apx_file_get_end_address_without_flags_def apx_file_get_address_without_flags_def
      rmf_fileInfo_address_without_flags_def)

lemma apart_start: "apart f g \<Longrightarrow> start (snd f) \<le> start (snd g)"
  unfolding apart_def by (rule order_trans [OF start_le_behind])

lemma file_range:
  "files_ok m \<Longrightarrow> (p, f) \<in> set (file_list m) \<Longrightarrow>
     apx_file_address_in_range f a \<longleftrightarrow> start f \<le> unat a \<and> unat a < behind f"
  by (rule in_range_iff) (auto simp: files_ok_def)

lemma apart_trans: "apart f g \<Longrightarrow> apart g h \<Longrightarrow> apart f h"
  unfolding apart_def using start_le_behind le_trans by blast

text \<open>A file fits between two neighbours, and then between all.\<close>

lemma sorted_insert:
  assumes s: "sorted_wrt apart fs" and l: "i = 0 \<or> apart (fs ! (i - 1)) x"
    and r: "i < length fs \<longrightarrow> apart x (fs ! i)" and i: "i \<le> length fs"
  shows "sorted_wrt apart (take i fs @ x # drop i fs)"
proof -
  have "sorted_wrt apart (take i fs @ drop i fs)" using s by simp
  then have split: "sorted_wrt apart (take i fs)" "sorted_wrt apart (drop i fs)"
      "\<forall>f\<in>set (take i fs). \<forall>g\<in>set (drop i fs). apart f g"
    unfolding sorted_wrt_append by blast+
  have left: "apart f x" if "f \<in> set (take i fs)" for f
  proof (cases i)
    case (Suc j)
    with i have "take i fs = take j fs @ [fs ! j]"
      by (simp add: take_Suc_conv_app_nth)
    with split(1) that have "f = fs ! j \<or> apart f (fs ! j)"
      by (auto simp: sorted_wrt_append)
    with l Suc show ?thesis using apart_trans [of f "fs ! j" x] by auto
  qed (use that in simp)
  have right: "apart x g" if "g \<in> set (drop i fs)" for g
  proof -
    from that have "i < length fs" by (cases "i < length fs") auto
    then have "drop i fs = fs ! i # drop (Suc i) fs" by (simp add: Cons_nth_drop_Suc)
    with split(2) that have "g = fs ! i \<or> apart (fs ! i) g" by auto
    with r \<open>i < length fs\<close> show ?thesis using apart_trans [of x "fs ! i" g] by auto
  qed
  from split left right show ?thesis
    by (auto simp: sorted_wrt_append)
qed

text \<open>The walk of \<open>find_next_available_position\<close> ends in front of the first file that is not below.\<close>

definition count_below :: "u32 \<Rightarrow> (nat \<times> apx_file) list \<Rightarrow> nat" where
  "count_below a fs = length (takeWhile (\<lambda>pf. apx_file_get_address_without_flags (snd pf) < a) fs)"

lemma count_below_simps [simp]:
  "count_below a [] = 0"
  "count_below a (pf # fs) = (if apx_file_get_address_without_flags (snd pf) < a then Suc (count_below a fs) else 0)"
  by (simp_all add: count_below_def)

lemma position_below_count:
  "position_below a fs i prev = (if count_below a fs = 0 then prev else Some (i + count_below a fs - 1))"
  by (induction a fs i prev rule: position_below.induct) auto

lemma count_below_le: "count_below a fs \<le> length fs"
  by (simp add: count_below_def length_takeWhile_le)

lemma count_below_nth: "i < count_below a fs \<Longrightarrow> apx_file_get_address_without_flags (snd (fs ! i)) < a"
proof (induction fs arbitrary: i)
  case (Cons f fs)
  then show ?case by (cases i) (auto split: if_splits)
qed simp

lemma count_below_covers:
  assumes "sorted_wrt apart fs" and "j < length fs" and "apx_file_get_address_without_flags (snd (fs ! j)) < a"
  shows "j < count_below a fs"
proof (rule ccontr)
  assume "\<not> j < count_below a fs"
  then have k: "count_below a fs \<le> j" by simp
  then have "\<not> apx_file_get_address_without_flags (snd (fs ! count_below a fs)) < a"
    unfolding count_below_def
    by (intro nth_length_takeWhile le_less_trans [OF _ assms(2)]) (use k in \<open>simp add: count_below_def\<close>)
  moreover have "count_below a fs = j \<or> apart (fs ! count_below a fs) (fs ! j)"
    using k assms(1,2) by (auto simp: sorted_wrt_iff_nth_less le_less)
  ultimately show False
    using assms(3) apart_start [of "fs ! count_below a fs" "fs ! j"]
    by (auto simp: word_less_nat_alt)
qed

lemma last_of_run_bounds: "i \<le> last_of_run ft fs i \<and> last_of_run ft fs i \<le> i + length fs"
  by (induction ft fs i rule: last_of_run.induct) auto

lemma last_of_type_bounds: "last_of_type ft fs i = Some j \<Longrightarrow> i \<le> j \<and> j < i + length fs"
proof (induction ft fs i rule: last_of_type.induct)
  case (2 ft p f fs i)
  then show ?case
    using last_of_run_bounds [of i ft fs] by (fastforce split: if_splits)
qed simp

lemma set_insert_at: "set (take k xs @ x # drop k xs) = insert x (set xs)"
proof -
  have "set xs = set (take k xs) \<union> set (drop k xs)"
    by (metis append_take_drop_id set_append)
  then show ?thesis by auto
qed

lemma distinct_insert_at:
  assumes "distinct xs" and "p \<notin> set xs"
  shows "distinct (take k xs @ p # drop k xs)"
proof -
  have "distinct (take k xs @ drop k xs)" using assms(1) by simp
  then show ?thesis
    using assms(2) unfolding distinct_append by (auto dest: in_set_takeD in_set_dropD)
qed

lemma insert_item_ok:
  assumes m: "files_ok m" and left: "\<forall>i. left = Some i \<longrightarrow> i < length (file_list m)"
    and p: "p \<notin> fst ` set (file_list m)" and f: "behind f < 2 ^ 32"
    and flag: "is_remote_map m \<longrightarrow> fi_address (file_info f) AND RMF_REMOTE_ADDRESS_BIT \<noteq> 0"
    and r: "insert_item m p f left = (e, ok, m')"
  shows "files_ok m'"
proof -
  have ends: "unat (apx_file_get_end_address_without_flags (snd (file_list m ! i))) = behind (snd (file_list m ! i))"
    if "i < length (file_list m)" for i
    using m that nth_mem [OF that] by (intro end_address_behind) (auto simp: files_ok_def)
  define k where "k = (case left of None \<Rightarrow> 0 | Some i \<Rightarrow> Suc i)"
  have k: "k \<le> length (file_list m)"
    using left by (auto simp: k_def split: option.split)
  show ?thesis
  proof (cases "m' = m")
    case False
    with r have new: "m' = m\<lparr>file_list := take k (file_list m) @ (p, f) # drop k (file_list m)\<rparr>"
      and neighbour: "\<forall>i. left = Some i \<longrightarrow> apart (file_list m ! i) (p, f)"
      and rt: "k < length (file_list m) \<longrightarrow> apart (p, f) (file_list m ! k)"
      using left k ends
      by (auto simp: insert_item_def Let_def k_def apart_def word_le_nat_alt not_less end_address_behind [OF f]
          split: if_splits option.splits)
    have l: "k = 0 \<or> apart (file_list m ! (k - 1)) (p, f)"
      using neighbour by (auto simp: k_def split: option.split)
    have "sorted_wrt apart (file_list m')"
      unfolding new using sorted_insert [OF _ l rt k] m by (simp add: files_ok_def)
    moreover have "set (file_list m') = insert (p, f) (set (file_list m))"
      unfolding new by (simp add: set_insert_at del: set_append)
    moreover have "distinct (map fst (file_list m'))"
      using distinct_insert_at [of "map fst (file_list m)" p k] m p
      by (simp add: new files_ok_def take_map drop_map)
    ultimately show ?thesis
      using m f flag unfolding files_ok_def by (auto simp: new)
  qed (use m in simp)
qed

section \<open>Creating a file\<close>

lemma new_file_keeps_info:
  "apx_file_new T memory info = (e, Some (p, f)) \<Longrightarrow>
     e = APX_NO_ERROR \<and> map_option fst memory = Some p \<and> fi_size (file_info f) = fi_size info \<and>
     fi_address (file_info f) = fi_address info"
  by (auto simp: apx_file_new_def apx_file_create_def rmf_fileInfo_create_copy_def Let_def andThen_def
      rmf_fileInfo_set_digest_data_def apx_file_calc_file_type_def split: option.splits prod.splits if_splits)

lemma region_alignment: "address_region ft = (s, al) \<Longrightarrow> al AND (al - 1) = 0"
  by (auto simp: address_region_def split: if_splits)

lemma auto_assign_returns:
  obtains left f' where "auto_assign_address m f = Some (left, f')"
    and "left = find_last_element_of_type m (apx_file_type f)" and "\<exists>a. f' = apx_file_set_address f a"
proof (cases "address_region (apx_file_type f)")
  case (Pair s al)
  then have al: "al AND (al - 1) = 0" by (rule region_alignment)
  show thesis
    by (cases "find_last_element_of_type m (apx_file_type f)"; rule that)
      (auto simp: auto_assign_address_def Pair al Let_def)
qed

definition place :: "apx_fileMap \<Rightarrow> apx_file \<Rightarrow> (nat option \<times> apx_file) option" where
  "place m f =
     (if apx_file_get_address_without_flags f = RMF_INVALID_ADDRESS
      then (case auto_assign_address m f of
              None \<Rightarrow> None
            | Some (None, f) \<Rightarrow> Some (find_next_available_position m f, f)
            | Some (Some left, f) \<Rightarrow> Some (Some left, f))
      else Some (find_next_available_position m f, f))"

lemma place_spec:
  obtains left f' where "place m f = Some (left, f')" and "\<forall>i. left = Some i \<longrightarrow> i < length (file_list m)"
    and "fi_size (file_info f') = fi_size (file_info f)"
proof -
  have next_pos: "find_next_available_position m g = Some i \<Longrightarrow> i < length (file_list m)" for g i
    using count_below_le [of "apx_file_get_address_without_flags g" "file_list m"]
    by (auto simp: find_next_available_position_def position_below_count split: if_splits)
  have last_pos: "find_last_element_of_type m t = Some i \<Longrightarrow> i < length (file_list m)" for t i
    using last_of_type_bounds [of t "file_list m" 0 i] by (simp add: find_last_element_of_type_def)
  obtain left f' where a: "auto_assign_address m f = Some (left, f')"
      "left = find_last_element_of_type m (apx_file_type f)" "\<exists>a. f' = apx_file_set_address f a"
    by (rule auto_assign_returns)
  have sz: "fi_size (file_info f') = fi_size (file_info f)"
    using a(3) by (auto simp: apx_file_set_address_def rmf_fileInfo_set_address_def)
  consider "apx_file_get_address_without_flags f \<noteq> RMF_INVALID_ADDRESS"
    | "apx_file_get_address_without_flags f = RMF_INVALID_ADDRESS" "left = None"
    | i where "apx_file_get_address_without_flags f = RMF_INVALID_ADDRESS" "left = Some i" by blast
  then show thesis
  proof cases
    case 1
    then show ?thesis
      by (intro that [of "find_next_available_position m f" f]) (simp_all add: place_def next_pos)
  next
    case 2
    then show ?thesis
      using a sz by (intro that [of "find_next_available_position m f'" f']) (simp_all add: place_def next_pos)
  next
    case 3
    then show ?thesis
      using a sz last_pos by (intro that [of left f']) (simp_all add: place_def)
  qed
qed

lemma create_file_cases:
  assumes "apx_file_new T memory info = (e, Some (p, f))" and "place m f = Some (left, f')"
  shows "apx_fileMap_create_file T memory m info =
     Some (case insert_item m p (if is_remote_map m
        then apx_file_set_address f' (apx_file_get_address f' OR RMF_REMOTE_ADDRESS_BIT) else f') left of
        (e, ok, m') \<Rightarrow> (e, if ok then Some p else None, m'))"
  unfolding apx_fileMap_create_file_def assms(1) place_def [symmetric] prod.case option.case assms(2) Let_def ..

lemma start_bound: "start f < 2 ^ 31"
proof -
  have "apx_file_get_address_without_flags f \<le> 0x7FFFFFFF"
    unfolding apx_file_get_address_without_flags_def rmf_fileInfo_address_without_flags_def
    by (rule word_and_le1)
  then show ?thesis by (simp add: word_le_nat_alt)
qed

lemma remote_flag_set: "(a OR 0x80000000) AND 0x80000000 \<noteq> 0" for a :: u32
proof
  assume "(a OR 0x80000000) AND 0x80000000 = 0"
  then have "\<not> bit ((a OR 0x80000000) AND 0x80000000) 31" by simp
  then show False by (simp add: bit_simps bit_consts)
qed

lemma create_file_keeps_ok:
  assumes m: "files_ok m" and mem: "\<forall>p g. memory = Some (p, g) \<longrightarrow> p \<notin> fst ` set (file_list m)"
    and sz: "fi_size info \<le> 0x80000000"
    and r: "apx_fileMap_create_file T memory m info = Some (e, q, m')"
  shows "files_ok m'"
proof (cases "apx_file_new T memory info")
  case (Pair e0 new)
  show ?thesis
  proof (cases new)
    case None
    then show ?thesis using r m Pair by (simp add: apx_fileMap_create_file_def)
  next
    case (Some pf)
    then obtain p f where new: "apx_file_new T memory info = (e0, Some (p, f))"
      using Pair by (cases pf) auto
    note info = new_file_keeps_info [OF new]
    then have p: "p \<notin> fst ` set (file_list m)" using mem by (cases memory) auto
    obtain left f' where place: "place m f = Some (left, f')"
      and left: "\<forall>i. left = Some i \<longrightarrow> i < length (file_list m)"
      and fsz: "fi_size (file_info f') = fi_size (file_info f)" by (rule place_spec)
    define g where "g = (if is_remote_map m
        then apx_file_set_address f' (apx_file_get_address f' OR RMF_REMOTE_ADDRESS_BIT) else f')"
    have "fi_size (file_info g) = fi_size info"
      using fsz info by (simp add: g_def apx_file_set_address_def rmf_fileInfo_set_address_def)
    then have g: "behind g < 2 ^ 32"
      using sz start_bound [of g] by (simp add: behind_def word_le_nat_alt)
    have flag: "is_remote_map m \<longrightarrow> fi_address (file_info g) AND RMF_REMOTE_ADDRESS_BIT \<noteq> 0"
      by (simp add: g_def apx_file_set_address_def rmf_fileInfo_set_address_def remote_flag_set)
    obtain e' ok m'' where ins: "insert_item m p g left = (e', ok, m'')"
      by (metis prod_cases3)
    with r create_file_cases [OF new place] have "m' = m''"
      by (simp add: g_def)
    with insert_item_ok [OF m left p g flag ins] show ?thesis by simp
  qed
qed

lemma remove_item_sub:
  "set (remove_item p fs) \<subseteq> set fs" "sorted_wrt apart fs \<Longrightarrow> sorted_wrt apart (remove_item p fs)"
  "distinct (map fst fs) \<Longrightarrow> set (remove_item p fs) = {qf \<in> set fs. fst qf \<noteq> p} \<and> distinct (map fst (remove_item p fs))"
  by (induction fs) (auto simp: rev_image_eqI)

lemma find_file_walk:
  assumes m: "files_ok m"
    and one: "\<And>p f q g. (p, f) \<in> set (file_list m) \<Longrightarrow> (q, g) \<in> set (file_list m) \<Longrightarrow> P f \<Longrightarrow> P g \<Longrightarrow> p = q"
  shows "\<exists>r m'. find_file P m = (APX_NO_ERROR, r, m') \<and> files_ok m' \<and> file_list m' = file_list m \<and>
    (\<forall>p. r = Some p \<longleftrightarrow> (\<exists>f. (p, f) \<in> set (file_list m) \<and> P f))"
proof -
  let ?walk = "case find (\<lambda>pf. P (snd pf)) (file_list m) of
      None \<Rightarrow> (APX_NO_ERROR, None, m) | Some (p, f) \<Rightarrow> (APX_NO_ERROR, Some p, m\<lparr>last_file := Some p\<rparr>)"
  have walk: "\<exists>r m'. ?walk = (APX_NO_ERROR, r, m') \<and> files_ok m' \<and> file_list m' = file_list m \<and>
    (\<forall>p. r = Some p \<longleftrightarrow> (\<exists>f. (p, f) \<in> set (file_list m) \<and> P f))"
  proof (cases "find (\<lambda>pf. P (snd pf)) (file_list m)")
    case None
    then have "\<forall>pf\<in>set (file_list m). \<not> P (snd pf)" by (auto simp: find_None_iff)
    then show ?thesis using m None by auto
  next
    case (Some pf)
    obtain p f where pf: "pf = (p, f)" by (cases pf)
    have in_map: "(p, f) \<in> set (file_list m)"
      using Some by (auto simp: find_Some_iff pf in_set_conv_nth)
    have "P f"
      using Some by (auto simp: find_Some_iff pf) (metis snd_conv)
    have "(Some p = Some q) = (\<exists>g. (q, g) \<in> set (file_list m) \<and> P g)" for q
      using one in_map \<open>P f\<close> by blast
    moreover have "files_ok (m\<lparr>last_file := Some p\<rparr>)"
      using m in_map by (auto simp: files_ok_def intro: rev_image_eqI)
    ultimately show ?thesis
      unfolding Some pf by simp
  qed
  show ?thesis
  proof (cases "last_file m")
    case None
    with walk show ?thesis by (simp add: find_file_def Let_def)
  next
    case (Some q)
    with m obtain f where f: "(q, f) \<in> set (file_list m)"
      by (auto simp: files_ok_def)
    with m have "map_of (file_list m) q = Some f"
      by (simp add: files_ok_def)
    then have found: "find_file P m = (if P f then (APX_NO_ERROR, Some q, m) else ?walk)"
      by (simp add: find_file_def Let_def Some)
    show ?thesis
    proof (cases "P f")
      case True
      with f one have "(Some q = Some p) = (\<exists>f. (p, f) \<in> set (file_list m) \<and> P f)" for p
        by blast
      with True m show ?thesis unfolding found by simp
    qed (use walk found in simp)
  qed
qed

lemma in_one_file:
  assumes m: "files_ok m" and f: "(p, f) \<in> set (file_list m)" "start f \<le> a" "a < behind f"
    and g: "(q, g) \<in> set (file_list m)" "start g \<le> a" "a < behind g"
  shows "p = q"
proof -
  from f g obtain i j where i: "i < length (file_list m)" "file_list m ! i = (p, f)"
    and j: "j < length (file_list m)" "file_list m ! j = (q, g)" by (metis in_set_conv_nth)
  have "i < j \<Longrightarrow> apart (p, f) (q, g)" "j < i \<Longrightarrow> apart (q, g) (p, f)"
    using m i j sorted_wrt_nth_less [of apart "file_list m" i j] sorted_wrt_nth_less [of apart "file_list m" j i]
    by (simp_all add: files_ok_def)
  then have "i = j"
    using f g by (auto simp: apart_def not_less_iff_gr_or_eq dest: linorder_neqE_nat)
  with i j show ?thesis by simp
qed

text \<open>What the search by address does in a map whose files are apart.\<close>

lemma find_by_address_file:
  assumes "files_ok m"
  shows "\<exists>r m'. apx_fileMap_find_by_address m a = (APX_NO_ERROR, r, m') \<and> files_ok m' \<and>
    file_list m' = file_list m \<and>
    (\<forall>p. r = Some p \<longleftrightarrow> (\<exists>f. (p, f) \<in> set (file_list m) \<and> start f \<le> unat a \<and> unat a < behind f))"
proof -
  have "\<exists>r m'. find_file (\<lambda>f. apx_file_address_in_range f a) m = (APX_NO_ERROR, r, m') \<and> files_ok m' \<and>
    file_list m' = file_list m \<and>
    (\<forall>p. r = Some p \<longleftrightarrow> (\<exists>f. (p, f) \<in> set (file_list m) \<and> apx_file_address_in_range f a))"
    by (rule find_file_walk [OF assms])
      (use in_one_file [OF assms, of _ _ "unat a"] in \<open>simp add: file_range [OF assms]\<close>)
  then show ?thesis
    unfolding apx_fileMap_find_by_address_def using file_range [OF assms, of _ _ a] by metis
qed

lemma create_file_returns:
  "\<exists>e q m'. apx_fileMap_create_file T memory m info = Some (e, q, m')"
proof (cases "apx_file_new T memory info")
  case (Pair e new)
  show ?thesis
  proof (cases new)
    case (Some pf)
    obtain left f' where place: "place m (snd pf) = Some (left, f')" by (rule place_spec)
    have "apx_file_new T memory info = (e, Some (fst pf, snd pf))" using Pair Some by simp
    from create_file_cases [OF this place] show ?thesis
      by (simp split: prod.split)
  qed (simp add: Pair apx_fileMap_create_file_def)
qed

definition demo_file :: "u32 \<Rightarrow> u32 \<Rightarrow> byte \<Rightarrow> apx_file" where
  "demo_file address len ft = \<lparr>is_file_open = False, has_first_write = False, apx_file_type = ft,
     file_info = \<lparr>fi_address = address, fi_size = len, fi_rmf_file_type = 0, fi_digest_type = 0,
       fi_digest_data = replicate 32 0, fi_name = [65, 46, 105, 110]\<rparr>\<rparr>"

definition demo_map :: apx_fileMap where
  "demo_map = \<lparr>is_remote_map = True,
     file_list = [(1, demo_file 0x80000000 100 3), (2, demo_file 0x80000400 16 3)], last_file = Some 2\<rparr>"

lemma demo_map_ok: "files_ok demo_map"
  by (simp add: files_ok_def demo_map_def demo_file_def apart_def behind_def
      apx_file_get_address_without_flags_def rmf_fileInfo_address_without_flags_def)

section \<open>Properties\<close>

text \<open>
  C21: The files of a map stay sorted, apart from one another, inside the 32 bit addresses and,
  in a remote map, flagged; the cache always points to a file of the map. Creation returns and
  keeps this whatever the description it gets (refused, placed or stopped by an assertion) as
  long as the announced size is at most 2 GB, and so do removal and the searches.
\<close>

theorem file_map_invariant:
  assumes "files_ok m" and "\<forall>p g. memory = Some (p, g) \<longrightarrow> \<not> apx_fileMap_exist m p"
    and "fi_size info \<le> 0x80000000"
  shows "(\<exists>e q m'. apx_fileMap_create_file T memory m info = Some (e, q, m') \<and> files_ok m') \<and>
     files_ok (snd (apx_fileMap_remove_file m p)) \<and>
     files_ok (snd (snd (apx_fileMap_find_by_address m a)))"
proof (intro conjI)
  obtain e q m' where r: "apx_fileMap_create_file T memory m info = Some (e, q, m')"
    using create_file_returns by blast
  moreover from create_file_keeps_ok [OF assms(1) _ assms(3) this] have "files_ok m'"
    using assms(2) by (auto simp: apx_fileMap_exist_def)
  ultimately show "\<exists>e q m'. apx_fileMap_create_file T memory m info = Some (e, q, m') \<and> files_ok m'" by blast
  show "files_ok (snd (apx_fileMap_remove_file m p))"
    using assms(1) remove_item_sub [where fs = "file_list m" and p = p]
    by (auto simp: files_ok_def apx_fileMap_remove_file_def Let_def)
  show "files_ok (snd (snd (apx_fileMap_find_by_address m a)))"
    using find_by_address_file [OF assms(1), of a] by auto
qed

theorem file_map_invariant_witness:
  "(\<exists>e q m'. apx_fileMap_create_file text_bytes (Some (3, demo_file 0 0 0)) demo_map
       (file_info (demo_file 0x7FFFFFFF 40 0)) = Some (e, q, m') \<and> files_ok m') \<and>
     files_ok (snd (apx_fileMap_remove_file demo_map 2)) \<and>
     files_ok (snd (snd (apx_fileMap_find_by_address demo_map 0x404)))"
  by (rule file_map_invariant [OF demo_map_ok]) (simp_all add: apx_fileMap_exist_def demo_map_def demo_file_def)

text \<open>
  C31: The search by address gives the one file whose range holds the address, and nothing if
  there is none, whichever file the cache holds; it never touches a freed file.
\<close>

theorem find_by_address_exact:
  assumes "files_ok m"
  shows "\<exists>r m'. apx_fileMap_find_by_address m a = (APX_NO_ERROR, r, m') \<and> file_list m' = file_list m \<and>
    (\<forall>p. r = Some p \<longleftrightarrow> (\<exists>f. (p, f) \<in> set (file_list m) \<and>
       unat (apx_file_get_address_without_flags f) \<le> unat a \<and>
       unat a < unat (apx_file_get_address_without_flags f) + unat (fi_size (file_info f))))"
  using find_by_address_file [OF assms, of a] unfolding behind_def by blast

theorem find_by_address_exact_witness:
  "\<exists>r m'. apx_fileMap_find_by_address demo_map 0x20 = (APX_NO_ERROR, r, m') \<and> file_list m' = file_list demo_map \<and>
    (\<forall>p. r = Some p \<longleftrightarrow> (\<exists>f. (p, f) \<in> set (file_list demo_map) \<and>
       unat (apx_file_get_address_without_flags f) \<le> unat (0x20 :: u32) \<and>
       unat (0x20 :: u32) < unat (apx_file_get_address_without_flags f) + unat (fi_size (file_info f))))"
  by (rule find_by_address_exact [OF demo_map_ok])

text \<open>
  A description whose start address lies inside a file of the map is not refused: if memory
  is there and its strings can be copied, the assertion on the left neighbour ends the program. The
  address comes from the publish command of the other side.
\<close>

theorem overlapping_file_aborts:
  assumes "files_ok m" and "(q, g) \<in> set (file_list m)"
    and "apx_file_new T memory info = (APX_NO_ERROR, Some (p, f))"
    and "rmf_fileInfo_address_without_flags info \<noteq> RMF_INVALID_ADDRESS"
    and "apx_file_get_address_without_flags g < rmf_fileInfo_address_without_flags info"
    and "unat (rmf_fileInfo_address_without_flags info) <
       unat (apx_file_get_address_without_flags g) + unat (fi_size (file_info g))"
  shows "apx_fileMap_create_file T memory m info = Some (FAULT ASSERT_FAILURE, None, m)"
proof -
  let ?a = "rmf_fileInfo_address_without_flags info"
  have f: "apx_file_get_address_without_flags f = ?a"
    using new_file_keeps_info [OF assms(3)]
    by (simp add: apx_file_get_address_without_flags_def rmf_fileInfo_address_without_flags_def)
  define n where "n = count_below ?a (file_list m)"
  obtain j where j: "j < length (file_list m)" "file_list m ! j = (q, g)"
    using assms(2) by (metis in_set_conv_nth)
  have jn: "j < n"
    unfolding n_def using count_below_covers [of "file_list m" j ?a] assms(1,5) j by (simp add: files_ok_def)
  have n: "n \<le> length (file_list m)" by (simp add: n_def count_below_le)
  then have last: "n - 1 < length (file_list m)" "j \<le> n - 1" using jn by auto
  let ?left = "snd (file_list m ! (n - 1))"
  have "j = n - 1 \<or> apart (file_list m ! j) (file_list m ! (n - 1))"
    using last assms(1) sorted_wrt_nth_less [of apart "file_list m" j "n - 1"]
    by (cases "j < n - 1") (simp_all add: files_ok_def)
  moreover have "start ?left < unat ?a"
    using count_below_nth [of "n - 1" ?a "file_list m"] jn by (simp add: n_def word_less_nat_alt)
  ultimately have over: "unat ?a < behind ?left"
    using assms(6) j by (auto simp: apart_def behind_def)
  have "behind ?left < 2 ^ 32"
    using assms(1) nth_mem [OF last(1)] by (simp add: files_ok_def)
  with over have "\<not> apx_file_get_end_address_without_flags ?left \<le> ?a"
    by (simp add: word_le_nat_alt end_address_behind)
  moreover have "place m f = Some (Some (n - 1), f)"
    using assms(4) jn by (simp add: place_def f find_next_available_position_def position_below_count n_def)
  moreover have "file_list m \<noteq> []" using j by auto
  moreover have "apx_file_get_address_without_flags (apx_file_set_address f (apx_file_get_address f OR RMF_REMOTE_ADDRESS_BIT)) = ?a"
    unfolding f [symmetric]
    by (simp add: apx_file_get_address_without_flags_def apx_file_set_address_def apx_file_get_address_def
        rmf_fileInfo_address_without_flags_def rmf_fileInfo_set_address_def)
      (auto intro!: bit_word_eqI simp: bit_simps bit_consts)
  ultimately show ?thesis
    by (subst create_file_cases [OF assms(3)]) (auto simp: insert_item_def Let_def f)
qed


lemma demo_file_new:
  "apx_file_new text_bytes (Some (p, demo_file 0 0 0)) (file_info (demo_file address len ft)) =
     (APX_NO_ERROR, Some (p, demo_file address len 3))"
  by (simp add: apx_file_new_def apx_file_create_def rmf_fileInfo_create_copy_def demo_file_def text_bytes_def
      rmf_fileInfo_set_digest_data_def apx_file_calc_file_type_def rmf_fileInfo_name_ends_with_def c_string_def Let_def)

theorem overlapping_file_aborts_witness:
  "apx_fileMap_create_file text_bytes (Some (3, demo_file 0 0 0)) demo_map (file_info (demo_file 0x404 40 3)) =
     Some (FAULT ASSERT_FAILURE, None, demo_map)"
  by (rule overlapping_file_aborts [OF demo_map_ok, where q = 2 and g = "demo_file 0x80000400 16 3" and p = 3
        and f = "demo_file 0x404 40 3"])
    (simp_all only: demo_file_new, simp_all add: demo_map_def demo_file_def apx_file_get_address_without_flags_def
      rmf_fileInfo_address_without_flags_def)

text \<open>
  The check against the right neighbour is made on a sum that wraps: a description whose size
  goes past 2 ^ 32 is placed on the left of a file it covers, so the files of the map overlap.
\<close>

theorem wrapping_size_overlaps:
  assumes "files_ok m" and "file_list m = (q, g) # fs" and "q \<noteq> p"
    and "apx_file_new T memory info = (APX_NO_ERROR, Some (p, f))" and "\<not> is_remote_map m"
    and "rmf_fileInfo_address_without_flags info < apx_file_get_address_without_flags g"
    and "2 ^ 32 \<le> unat (rmf_fileInfo_address_without_flags info) + unat (fi_size info)"
    and "rmf_fileInfo_address_without_flags info + fi_size info \<le> apx_file_get_address_without_flags g"
    and "rmf_fileInfo_address_without_flags info + fi_size info \<le> RMF_CMD_AREA_START_ADDRESS"
  shows "apx_fileMap_create_file T memory m info =
      Some (APX_NO_ERROR, Some p, m\<lparr>file_list := (p, f) # (q, g) # fs\<rparr>) \<and>
    \<not> files_ok (m\<lparr>file_list := (p, f) # (q, g) # fs\<rparr>)"
proof
  note info = new_file_keeps_info [OF assms(4)]
  then have f: "apx_file_get_address_without_flags f = rmf_fileInfo_address_without_flags info"
    and e: "apx_file_get_end_address_without_flags f = rmf_fileInfo_address_without_flags info + fi_size info"
    by (simp_all add: apx_file_get_address_without_flags_def rmf_fileInfo_address_without_flags_def
        apx_file_get_end_address_without_flags_def)
  have "rmf_fileInfo_address_without_flags info < 0x7FFFFFFF"
    using assms(6) by (rule order_less_le_trans)
      (simp add: apx_file_get_address_without_flags_def rmf_fileInfo_address_without_flags_def word_and_le1)
  then have "place m f = Some (None, f)"
    using assms(2,6) by (auto simp: place_def f find_next_available_position_def)
  then show "apx_fileMap_create_file T memory m info =
      Some (APX_NO_ERROR, Some p, m\<lparr>file_list := (p, f) # (q, g) # fs\<rparr>)"
    using assms(2,5,8,9) by (subst create_file_cases [OF assms(4)]) (auto simp: insert_item_def Let_def f e)
  show "\<not> files_ok (m\<lparr>file_list := (p, f) # (q, g) # fs\<rparr>)"
    using assms(7) info by (simp add: files_ok_def behind_def f)
qed

theorem wrapping_size_overlaps_witness:
  "let m = \<lparr>is_remote_map = False, file_list = [(1, demo_file 0x400 16 3)], last_file = None\<rparr> in
   apx_fileMap_create_file text_bytes (Some (2, demo_file 0 0 0)) m (file_info (demo_file 0x100 0xFFFFFFF0 3)) =
      Some (APX_NO_ERROR, Some 2, m\<lparr>file_list := (2, demo_file 0x100 0xFFFFFFF0 3) # (1, demo_file 0x400 16 3) # []\<rparr>) \<and>
    \<not> files_ok (m\<lparr>file_list := (2, demo_file 0x100 0xFFFFFFF0 3) # (1, demo_file 0x400 16 3) # []\<rparr>)"
  unfolding Let_def
  by (rule wrapping_size_overlaps)
    (simp_all only: demo_file_new, simp_all add: files_ok_def demo_file_def apx_file_get_address_without_flags_def
      rmf_fileInfo_address_without_flags_def behind_def)

end
