(* ===== verification/Text.thy ===== *)
theory Text
  imports Libs
begin

text \<open>
  The text side of the libraries: the scanner bstr, a git submodule, as a parameter, and the
  decimal numbers of the C library's sprintf. A pointer into a text is a position;
  \<open>NULLP\<close> is the null pointer and \<open>ABORT\<close> the outcome of a failed assertion, after which no
  code runs.
\<close>

datatype pointer = NULLP | At nat | ABORT

text \<open>\<open>result > next\<close> for the pointer a scanner returned.\<close>

fun beyond :: "pointer \<Rightarrow> nat \<Rightarrow> bool" where
  "beyond (At r) next = (r > next)"
| "beyond _ next = False"

fun at :: "pointer \<Rightarrow> nat" where
  "at (At r) = r"
| "at _ = 0"

section \<open>Decimal numbers\<close>

text \<open>\<open>sprintf("%u")\<close> and \<open>sprintf("%d")\<close>.\<close>

fun decimal :: "nat \<Rightarrow> byte list" where
  "decimal n = (if n < 10 then [48 + word_of_nat n]
     else decimal (n div 10) @ [48 + word_of_nat (n mod 10)])"

declare decimal.simps [simp del]

definition signed_decimal :: "int \<Rightarrow> byte list" where
  "signed_decimal i = (if i < 0 then 45 # decimal (nat (- i)) else decimal (nat i))"

definition is_digit :: "byte \<Rightarrow> bool" where
  "is_digit c \<longleftrightarrow> 48 \<le> c \<and> c \<le> 57"

definition digits_val :: "byte list \<Rightarrow> nat" where
  "digits_val ds = foldl (\<lambda>v d. 10 * v + (unat d - 48)) 0 ds"

lemma digit_byte: "d < 10 \<Longrightarrow> is_digit (48 + word_of_nat d) \<and> unat (48 + word_of_nat d :: byte) = 48 + d"
  by (simp add: is_digit_def word_le_nat_alt unat_word_ariths unat_of_nat)

lemma decimal_digits: "\<forall>c\<in>set (decimal n). is_digit c"
  by (induction n rule: decimal.induct) (subst decimal.simps, auto simp: digit_byte)

lemma decimal_nonempty [simp]: "decimal n \<noteq> []"
  by (subst decimal.simps) simp

lemma digits_val_snoc: "digits_val (ds @ [d]) = 10 * digits_val ds + (unat d - 48)"
  by (simp add: digits_val_def)

lemma digits_val_decimal: "digits_val (decimal n) = n"
proof (induction n rule: decimal.induct)
  case (1 n)
  show ?case
  proof (cases "n < 10")
    case True
    then show ?thesis
      by (simp add: decimal.simps digits_val_def digit_byte)
  next
    case False
    then have "decimal n = decimal (n div 10) @ [48 + word_of_nat (n mod 10)]"
      by (subst decimal.simps) simp
    with 1 False show ?thesis
      by (simp add: digits_val_snoc digit_byte)
  qed
qed

section \<open>bstr\<close>

text \<open>
  Each function takes the bytes from begin to end and gives the pointer it returns as an offset
  from begin. \<open>to_unsigned_long\<close> and its kin also give the number they store.
\<close>

record bstr =
  lstrip :: "byte list \<Rightarrow> nat"
  match_pair :: "byte list \<Rightarrow> byte \<Rightarrow> byte \<Rightarrow> byte \<Rightarrow> pointer"
  to_long :: "byte list \<Rightarrow> pointer \<times> u64"
  to_unsigned_long :: "byte list \<Rightarrow> nat \<Rightarrow> pointer \<times> u64"
  to_long_long :: "byte list \<Rightarrow> pointer \<times> u64"
  to_unsigned_long_long :: "byte list \<Rightarrow> nat \<Rightarrow> pointer \<times> u64"

definition is_space :: "byte \<Rightarrow> bool" where
  "is_space c \<longleftrightarrow> c = 32 \<or> (9 \<le> c \<and> c \<le> 13)"

text \<open>
  What the parsers rely on: blanks are skipped, a quoted string without quotes and escapes
  inside ends at its closing quote, and a run of digits, with a minus sign in front for the
  signed readers, is read as the decimal number it is when that fits the type.
\<close>

definition ends_number :: "byte list \<Rightarrow> bool" where
  "ends_number rest \<longleftrightarrow> (case rest of [] \<Rightarrow> True | c # _ \<Rightarrow> \<not> is_digit c)"

definition reads_unsigned :: "(byte list \<Rightarrow> nat \<Rightarrow> pointer \<times> u64) \<Rightarrow> bool" where
  "reads_unsigned f \<longleftrightarrow> (\<forall>ds rest. ds \<noteq> [] \<longrightarrow> (\<forall>c\<in>set ds. is_digit c) \<longrightarrow> ends_number rest \<longrightarrow>
     digits_val ds < 2 ^ 64 \<longrightarrow> f (ds @ rest) 10 = (At (length ds), word_of_nat (digits_val ds)))"

definition reads_signed :: "(byte list \<Rightarrow> pointer \<times> u64) \<Rightarrow> bool" where
  "reads_signed f \<longleftrightarrow> (\<forall>ds rest. ds \<noteq> [] \<longrightarrow> (\<forall>c\<in>set ds. is_digit c) \<longrightarrow> ends_number rest \<longrightarrow>
     (digits_val ds < 2 ^ 63 \<longrightarrow> f (ds @ rest) = (At (length ds), word_of_nat (digits_val ds))) \<and>
     (digits_val ds \<le> 2 ^ 63 \<longrightarrow>
        f (45 # ds @ rest) = (At (Suc (length ds)), word_of_int (- int (digits_val ds)))))"

definition scans_tokens :: "bstr \<Rightarrow> bool" where
  "scans_tokens B \<longleftrightarrow> (\<forall>bs. lstrip B bs = length (takeWhile is_space bs)) \<and>
     (\<forall>body rest. {34, 92} \<inter> set body = {} \<longrightarrow>
        match_pair B (34 # body @ 34 # rest) 34 34 92 = At (Suc (length body))) \<and>
     reads_unsigned (to_unsigned_long B) \<and> reads_unsigned (to_unsigned_long_long B) \<and>
     reads_signed (to_long B) \<and> reads_signed (to_long_long B)"

definition read_unsigned :: "byte list \<Rightarrow> nat \<Rightarrow> pointer \<times> u64" where
  "read_unsigned bs base = (let ds = takeWhile is_digit bs in (At (length ds), word_of_nat (digits_val ds)))"

definition read_signed :: "byte list \<Rightarrow> pointer \<times> u64" where
  "read_signed bs =
     (case bs of
        c # cs \<Rightarrow> if c = 45
          then (let ds = takeWhile is_digit cs in
                if ds = [] then (At 0, 0) else (At (Suc (length ds)), word_of_int (- int (digits_val ds))))
          else read_unsigned bs 10
      | [] \<Rightarrow> read_unsigned bs 10)"

definition bstr_ref :: bstr where
  "bstr_ref = \<lparr>lstrip = (\<lambda>bs. length (takeWhile is_space bs)),
     match_pair = (\<lambda>bs l r e. case bs of c # cs \<Rightarrow>
        if c = l then (let n = length (takeWhile (\<lambda>c. c \<noteq> r) cs)
                       in if n < length cs then At (Suc n) else NULLP) else At 0
      | [] \<Rightarrow> At 0),
     to_long = read_signed, to_unsigned_long = read_unsigned,
     to_long_long = read_signed, to_unsigned_long_long = read_unsigned\<rparr>"

lemma end_run: "ends_number rest \<Longrightarrow> takeWhile is_digit rest = []"
  by (cases rest) (simp_all add: ends_number_def)

lemma digit_run:
  "\<forall>c\<in>set ds. is_digit c \<Longrightarrow> ends_number rest \<Longrightarrow> takeWhile is_digit (ds @ rest) = ds"
  by (induction ds) (auto simp: ends_number_def split: list.splits)

lemma minus_no_digit: "\<not> is_digit 45"
  by (simp add: is_digit_def)

lemma bstr_ref_scans: "scans_tokens bstr_ref"
proof -
  have "reads_unsigned read_unsigned"
    by (simp add: reads_unsigned_def read_unsigned_def end_run)
  moreover have "reads_signed read_signed"
  proof -
    have "read_signed (ds @ rest) = (At (length ds), word_of_nat (digits_val ds))"
      if "ds \<noteq> []" "\<forall>c\<in>set ds. is_digit c" "ends_number rest" for ds rest
      using that digit_run [of ds rest] minus_no_digit end_run
      by (cases ds) (auto simp: read_signed_def read_unsigned_def)
    then show ?thesis
      by (auto simp: reads_signed_def read_signed_def end_run)
  qed
  moreover have "takeWhile (\<lambda>c. c \<noteq> 34) (body @ 34 # rest) = body" if "34 \<notin> set body" for body and rest :: "byte list"
    using that by (subst takeWhile_append2) auto
  ultimately show ?thesis
    by (simp add: scans_tokens_def bstr_ref_def)
qed

section \<open>parser_base.c\<close>

text \<open>
  The number readers return the scanner's pointer, here as a position in the text, and the
  number cast to its width; where the scanner does not move the caller's variable keeps what
  it had, and no caller reads it.
\<close>

fun move :: "nat \<Rightarrow> pointer \<Rightarrow> pointer" where
  "move begin (At k) = At (begin + k)"
| "move begin p = p"

definition apx_parserBase_parse_i32 :: "bstr \<Rightarrow> byte list \<Rightarrow> nat \<Rightarrow> pointer \<times> u32" where
  "apx_parserBase_parse_i32 B txt begin =
     (case to_long B (drop begin txt) of (result, tmp) \<Rightarrow> (move begin result, ucast tmp))"

definition apx_parserBase_parse_u32 :: "bstr \<Rightarrow> byte list \<Rightarrow> nat \<Rightarrow> pointer \<times> u32" where
  "apx_parserBase_parse_u32 B txt begin =
     (case to_unsigned_long B (drop begin txt) 10 of (result, tmp) \<Rightarrow> (move begin result, ucast tmp))"

definition apx_parserBase_parse_i64 :: "bstr \<Rightarrow> byte list \<Rightarrow> nat \<Rightarrow> pointer \<times> u64" where
  "apx_parserBase_parse_i64 B txt begin =
     (case to_long_long B (drop begin txt) of (result, tmp) \<Rightarrow> (move begin result, tmp))"

definition apx_parserBase_parse_u64 :: "bstr \<Rightarrow> byte list \<Rightarrow> nat \<Rightarrow> pointer \<times> u64" where
  "apx_parserBase_parse_u64 B txt begin =
     (case to_unsigned_long_long B (drop begin txt) 10 of (result, tmp) \<Rightarrow> (move begin result, tmp))"

definition apx_parserBase_parse_string_literal :: "bstr \<Rightarrow> byte list \<Rightarrow> nat \<Rightarrow> pointer" where
  "apx_parserBase_parse_string_literal B txt begin =
     move begin (match_pair B (drop begin txt) 34 34 92)"

definition skip :: "bstr \<Rightarrow> byte list \<Rightarrow> nat \<Rightarrow> nat" where
  "skip B txt next = next + lstrip B (drop next txt)"

end
