(* ===== verification/SignatureParser.thy ===== *)
theory SignatureParser
  imports Text DataElement
begin

text \<open>
  Data signatures such as \<open>{"Name"A[8]"Count"C(0,3)}\<close>: apx/src/signature_parser.c reads one into a
  data element, \<open>apx_dataElement_to_string\<close> of data_element.c writes it. A text is a list of
  bytes and a pointer into it a position. The parser state in the C code is an object that the
  code replaces while it reads the fields of a record, and the object of the record waits in a
  local variable; here the two fields of the current object are fields of the parser. Memory is
  taken to be available.
\<close>

section \<open>Printing\<close>

definition type_letter :: "apx_typeCode \<Rightarrow> byte option" where
  "type_letter tc = (case tc of
     APX_TYPE_CODE_UINT8 \<Rightarrow> Some 67 | APX_TYPE_CODE_UINT16 \<Rightarrow> Some 83
   | APX_TYPE_CODE_UINT32 \<Rightarrow> Some 76 | APX_TYPE_CODE_UINT64 \<Rightarrow> Some 81
   | APX_TYPE_CODE_INT8 \<Rightarrow> Some 99 | APX_TYPE_CODE_INT16 \<Rightarrow> Some 115
   | APX_TYPE_CODE_INT32 \<Rightarrow> Some 108 | APX_TYPE_CODE_INT64 \<Rightarrow> Some 113
   | APX_TYPE_CODE_CHAR \<Rightarrow> Some 97 | APX_TYPE_CODE_CHAR8 \<Rightarrow> Some 65
   | APX_TYPE_CODE_CHAR16 \<Rightarrow> Some 117 | APX_TYPE_CODE_CHAR32 \<Rightarrow> Some 85
   | APX_TYPE_CODE_BOOL \<Rightarrow> Some 98 | APX_TYPE_CODE_BYTE \<Rightarrow> Some 66
   | _ \<Rightarrow> None)"

definition range_text :: "byte list \<Rightarrow> byte list \<Rightarrow> byte list" where
  "range_text lower upper = 40 # lower @ 44 # upper @ [41]"

definition limits_to_string :: "apx_dataElement \<Rightarrow> byte list option" where
  "limits_to_string self =
     (let lo = de_lower_limit self; up = de_upper_limit self;
          u32 = (\<lambda>x. decimal (unat (ucast x :: u32))); i32 = (\<lambda>x. signed_decimal (sint (ucast x :: u32))) in
      if de_type_code self \<in> {APX_TYPE_CODE_UINT8, APX_TYPE_CODE_UINT16, APX_TYPE_CODE_UINT32, APX_TYPE_CODE_BYTE}
        then Some (range_text (u32 lo) (u32 up))
      else if de_type_code self = APX_TYPE_CODE_UINT64
        then Some (range_text (decimal (unat lo)) (decimal (unat up)))
      else if de_type_code self \<in> {APX_TYPE_CODE_INT8, APX_TYPE_CODE_INT16, APX_TYPE_CODE_INT32}
        then Some (range_text (i32 lo) (i32 up))
      else if de_type_code self = APX_TYPE_CODE_INT64
        then Some (range_text (signed_decimal (sint lo)) (signed_decimal (sint up)))
      else None)"

definition array_to_string :: "apx_dataElement \<Rightarrow> bool \<Rightarrow> byte list" where
  "array_to_string self normalized =
     (if de_is_dynamic_array self \<and> normalized then [91, 42, 93]
      else if de_is_dynamic_array self then 91 # decimal (unat (de_array_len self)) @ [42, 93]
      else 91 # decimal (unat (de_array_len self)) @ [93])"

text \<open>
  The part in front of the array: letter and limits, or the fields in braces. A child without
  name is a null pointer to \<open>adt_str_append_cstr\<close>, which appends nothing.
\<close>

fun apx_dataElement_to_string :: "apx_dataElement \<Rightarrow> bool \<Rightarrow> byte list option"
  and children_to_string :: "apx_dataElement list \<Rightarrow> bool \<Rightarrow> byte list option" where
  "apx_dataElement_to_string (DataElement nm es al ei tc dy hl lo up tr) normalized =
     (let self = DataElement nm es al ei tc dy hl lo up tr;
          head = (if tc = APX_TYPE_CODE_RECORD
                  then (case es of
                          None \<Rightarrow> Some [123, 125]
                        | Some children \<Rightarrow>
                            map_option (\<lambda>s. 123 # s @ [125]) (children_to_string children normalized))
                  else (case type_letter tc of
                          None \<Rightarrow> None
                        | Some letter \<Rightarrow>
                            if hl then map_option (Cons letter) (limits_to_string self) else Some [letter]))
      in map_option (\<lambda>str. str @ (if apx_dataElement_is_array self then array_to_string self normalized else [])) head)"
| "children_to_string [] normalized = Some []"
| "children_to_string (child # rest) normalized =
     (case apx_dataElement_to_string child normalized of
        None \<Rightarrow> None
      | Some signature \<Rightarrow>
          map_option (\<lambda>s. 34 # the_default [] (de_name child) @ 34 # signature @ s) (children_to_string rest normalized))"

section \<open>The parser\<close>

datatype apx_tokenClass = APX_TOKEN_CLASS_DATA_ELEMENT | APX_TOKEN_GROUP_DECLARATION | APX_TOKEN_FUNCTION_DECLARATION

record apx_signatureParser =
  sp_is_record :: bool
  sp_data_element :: "apx_dataElement option"
  sp_error_code :: apx_error
  sp_error_pos :: "nat option"

definition apx_signatureParser_create :: apx_signatureParser where
  "apx_signatureParser_create =
     \<lparr>sp_is_record = False, sp_data_element = None, sp_error_code = APX_NO_ERROR, sp_error_pos = None\<rparr>"

definition apx_signatureParser_reset :: "apx_signatureParser \<Rightarrow> apx_signatureParser" where
  "apx_signatureParser_reset self = self\<lparr>sp_error_code := APX_NO_ERROR, sp_error_pos := None\<rparr>"

definition apx_signatureParser_set_error ::
  "apx_signatureParser \<Rightarrow> apx_error \<Rightarrow> nat \<Rightarrow> apx_signatureParser" where
  "apx_signatureParser_set_error self error_code error_pos =
     self\<lparr>sp_error_code := error_code, sp_error_pos := Some error_pos\<rparr>"

definition apx_signatureParser_get_last_error :: "apx_signatureParser \<Rightarrow> apx_error \<times> nat option" where
  "apx_signatureParser_get_last_error self = (sp_error_code self, sp_error_pos self)"

definition apx_signatureParser_take_data_element ::
  "apx_signatureParser \<Rightarrow> apx_dataElement option \<times> apx_signatureParser" where
  "apx_signatureParser_take_data_element self = (sp_data_element self, self\<lparr>sp_data_element := None\<rparr>)"

definition on_element :: "(apx_dataElement \<Rightarrow> apx_dataElement) \<Rightarrow> apx_signatureParser \<Rightarrow> apx_signatureParser" where
  "on_element f self = self\<lparr>sp_data_element := map_option f (sp_data_element self)\<rparr>"

text \<open>
  The four limit parsers differ in the number they read and the setter they call.
\<close>

definition parse_limits ::
  "(byte list \<Rightarrow> nat \<Rightarrow> pointer \<times> 'n) \<Rightarrow> (apx_dataElement \<Rightarrow> 'n \<Rightarrow> 'n \<Rightarrow> apx_dataElement) \<Rightarrow>
     bstr \<Rightarrow> byte list \<Rightarrow> nat \<Rightarrow> apx_signatureParser \<Rightarrow> pointer \<times> apx_signatureParser" where
  "parse_limits num set_limit B txt begin self =
     (if \<not> begin < length txt then (At begin, self)
      else if txt ! begin \<noteq> 40 then (At begin, self)
      else let next = skip B txt (Suc begin) in
      if next \<ge> length txt then (NULLP, self)
      else case num txt next of (result, lower_limit) \<Rightarrow>
        if \<not> beyond result next then (NULLP, self)
        else let next = skip B txt (at result) in
        if next \<ge> length txt then (NULLP, self)
        else if txt ! next \<noteq> 44 then (NULLP, self)
        else let next = skip B txt (Suc next) in
        if next \<ge> length txt then (NULLP, self)
        else case num txt next of (result, upper_limit) \<Rightarrow>
          if \<not> beyond result next then (NULLP, self)
          else let self = on_element (\<lambda>de. set_limit de lower_limit upper_limit) self;
                   next = skip B txt (at result) in
          if next \<ge> length txt then (NULLP, self)
          else if txt ! next \<noteq> 41 then (NULLP, self)
          else (At (Suc next), self))"

definition apx_signatureParser_parse_limits_i32 ::
  "bstr \<Rightarrow> byte list \<Rightarrow> nat \<Rightarrow> apx_signatureParser \<Rightarrow> pointer \<times> apx_signatureParser" where
  "apx_signatureParser_parse_limits_i32 B =
     parse_limits (apx_parserBase_parse_i32 B) apx_dataElement_set_limits_int32 B"

definition apx_signatureParser_parse_limits_u32 ::
  "bstr \<Rightarrow> byte list \<Rightarrow> nat \<Rightarrow> apx_signatureParser \<Rightarrow> pointer \<times> apx_signatureParser" where
  "apx_signatureParser_parse_limits_u32 B =
     parse_limits (apx_parserBase_parse_u32 B) apx_dataElement_set_limits_uint32 B"

definition apx_signatureParser_parse_limits_i64 ::
  "bstr \<Rightarrow> byte list \<Rightarrow> nat \<Rightarrow> apx_signatureParser \<Rightarrow> pointer \<times> apx_signatureParser" where
  "apx_signatureParser_parse_limits_i64 B =
     parse_limits (apx_parserBase_parse_i64 B) apx_dataElement_set_limits_int64 B"

definition apx_signatureParser_parse_limits_u64 ::
  "bstr \<Rightarrow> byte list \<Rightarrow> nat \<Rightarrow> apx_signatureParser \<Rightarrow> pointer \<times> apx_signatureParser" where
  "apx_signatureParser_parse_limits_u64 B =
     parse_limits (apx_parserBase_parse_u64 B) apx_dataElement_set_limits_uint64 B"

definition apx_signatureParser_parse_array ::
  "bstr \<Rightarrow> byte list \<Rightarrow> nat \<Rightarrow> apx_signatureParser \<Rightarrow> pointer \<times> apx_signatureParser" where
  "apx_signatureParser_parse_array B txt begin self =
     (if \<not> begin < length txt then (At begin, self)
      else if txt ! begin \<noteq> 91 then (At begin, self)
      else let next = skip B txt (Suc begin) in
      if next \<ge> length txt then (NULLP, self)
      else case apx_parserBase_parse_u32 B txt next of (result, array_len) \<Rightarrow>
        if \<not> beyond result next then (NULLP, self)
        else let self = on_element (\<lambda>de. apx_dataElement_set_array_length de array_len) self;
                 next = skip B txt (at result) in
        if next \<ge> length txt then (NULLP, self)
        else if txt ! next = 42 then
          (let self = on_element apx_dataElement_set_dynamic_array self;
               next = skip B txt (Suc next) in
           if next \<ge> length txt then (NULLP, self)
           else if txt ! next \<noteq> 93 then (NULLP, self) else (At (Suc next), self))
        else if txt ! next \<noteq> 93 then (NULLP, self)
        else (At (Suc next), self))"

text \<open>The setters that copy a name out of the text.\<close>

fun apx_dataElement_set_name_bstr :: "text_lib \<Rightarrow> apx_dataElement \<Rightarrow> byte list \<Rightarrow> apx_error \<times> apx_dataElement" where
  "apx_dataElement_set_name_bstr T (DataElement nm es al ei tc dy hl lo up tr) name =
     (if make_cstr T name = None then APX_MEM_ERROR else APX_NO_ERROR,
      DataElement (make_cstr T name) es al ei tc dy hl lo up tr)"

fun apx_dataElement_set_type_ref_name_bstr ::
  "text_lib \<Rightarrow> apx_dataElement \<Rightarrow> byte list \<Rightarrow> apx_error \<times> apx_dataElement" where
  "apx_dataElement_set_type_ref_name_bstr T (DataElement nm es al ei tc dy hl lo up tr) name =
     (if make_cstr T name = None then APX_MEM_ERROR else APX_NO_ERROR,
      DataElement nm es al ei APX_TYPE_CODE_REF_NAME dy hl lo up (TypeRefName (make_cstr T name)))"

definition with_element ::
  "(apx_dataElement \<Rightarrow> apx_error \<times> apx_dataElement) \<Rightarrow> apx_signatureParser \<Rightarrow> apx_error \<times> apx_signatureParser" where
  "with_element f self =
     (case sp_data_element self of
        None \<Rightarrow> (APX_INVALID_ARGUMENT_ERROR, self)
      | Some de \<Rightarrow> (case f de of (rc, de) \<Rightarrow> (rc, self\<lparr>sp_data_element := Some de\<rparr>)))"

definition between :: "nat \<Rightarrow> nat \<Rightarrow> byte list \<Rightarrow> byte list" where
  "between i j txt = take (j - i) (drop i txt)"

definition apx_signatureParser_parse_type_reference ::
  "bstr \<Rightarrow> text_lib \<Rightarrow> byte list \<Rightarrow> nat \<Rightarrow> apx_signatureParser \<Rightarrow> pointer \<times> apx_signatureParser" where
  "apx_signatureParser_parse_type_reference B T txt begin self =
     (if \<not> begin < length txt then (At begin, self)
      else if txt ! begin \<noteq> 91 then (At begin, self)
      else let next = skip B txt (Suc begin) in
      if next \<ge> length txt then (NULLP, self)
      else case
        (if txt ! next = 34 then
           (let result = apx_parserBase_parse_string_literal B txt next in
            if beyond result next
            then (case with_element (\<lambda>de. apx_dataElement_set_type_ref_name_bstr T de
                           (between (Suc next) (at result) txt)) self of
                    (rc, self) \<Rightarrow>
                      if rc \<noteq> APX_NO_ERROR then (NULLP, apx_signatureParser_set_error self rc next)
                      else (At (Suc (at result)), self))
            else (NULLP, self))
         else
           (case apx_parserBase_parse_u32 B txt next of (result, type_id) \<Rightarrow>
              if beyond result next
              then (result, on_element (\<lambda>de. apx_dataElement_set_type_ref_id de type_id) self)
              else (NULLP, self))) of
          (At next, self) \<Rightarrow>
            (let next = skip B txt next in
             if next \<ge> length txt then (NULLP, self)
             else if txt ! next \<noteq> 93 then (NULLP, self)
             else (At (Suc next), self))
        | (_, self) \<Rightarrow> (NULLP, self))"

text \<open>The switch over the first character: token, type code, limits allowed, signed, 64 bits.\<close>

definition signature_letter :: "byte \<Rightarrow> apx_tokenClass \<times> apx_typeCode \<times> bool \<times> bool \<times> bool" where
  "signature_letter c =
     (if c = 123 then (APX_TOKEN_CLASS_DATA_ELEMENT, APX_TYPE_CODE_RECORD, False, True, False)
      else if c = 91 then (APX_TOKEN_GROUP_DECLARATION, APX_TYPE_CODE_NONE, False, True, False)
      else if c = 40 then (APX_TOKEN_FUNCTION_DECLARATION, APX_TYPE_CODE_NONE, False, True, False)
      else if c = 97 then (APX_TOKEN_CLASS_DATA_ELEMENT, APX_TYPE_CODE_CHAR, False, True, False)
      else if c = 65 then (APX_TOKEN_CLASS_DATA_ELEMENT, APX_TYPE_CODE_CHAR8, False, True, False)
      else if c = 98 then (APX_TOKEN_CLASS_DATA_ELEMENT, APX_TYPE_CODE_BOOL, False, True, False)
      else if c = 66 then (APX_TOKEN_CLASS_DATA_ELEMENT, APX_TYPE_CODE_BYTE, True, False, False)
      else if c = 99 then (APX_TOKEN_CLASS_DATA_ELEMENT, APX_TYPE_CODE_INT8, True, True, False)
      else if c = 67 then (APX_TOKEN_CLASS_DATA_ELEMENT, APX_TYPE_CODE_UINT8, True, False, False)
      else if c = 108 then (APX_TOKEN_CLASS_DATA_ELEMENT, APX_TYPE_CODE_INT32, True, True, False)
      else if c = 76 then (APX_TOKEN_CLASS_DATA_ELEMENT, APX_TYPE_CODE_UINT32, True, False, False)
      else if c = 113 then (APX_TOKEN_CLASS_DATA_ELEMENT, APX_TYPE_CODE_INT64, True, True, True)
      else if c = 81 then (APX_TOKEN_CLASS_DATA_ELEMENT, APX_TYPE_CODE_UINT64, True, False, True)
      else if c = 115 then (APX_TOKEN_CLASS_DATA_ELEMENT, APX_TYPE_CODE_INT16, True, True, False)
      else if c = 83 then (APX_TOKEN_CLASS_DATA_ELEMENT, APX_TYPE_CODE_UINT16, True, False, False)
      else if c = 84 then (APX_TOKEN_CLASS_DATA_ELEMENT, APX_TYPE_CODE_REF_ID, False, True, False)
      else if c = 117 then (APX_TOKEN_CLASS_DATA_ELEMENT, APX_TYPE_CODE_CHAR16, False, True, False)
      else if c = 85 then (APX_TOKEN_CLASS_DATA_ELEMENT, APX_TYPE_CODE_CHAR32, False, True, False)
      else (APX_TOKEN_CLASS_DATA_ELEMENT, APX_TYPE_CODE_NONE, True, True, False))"

definition parse_element_limits ::
  "bool \<times> bool \<times> bool \<Rightarrow> bstr \<Rightarrow> byte list \<Rightarrow> nat \<Rightarrow> apx_signatureParser \<Rightarrow> pointer \<times> apx_signatureParser" where
  "parse_element_limits flags B txt next self =
     (case flags of (check_limits, is_signed_type, is_64_bit_type) \<Rightarrow>
        if check_limits then
          (if is_64_bit_type
           then (if is_signed_type then apx_signatureParser_parse_limits_i64 B txt next self
                 else apx_signatureParser_parse_limits_u64 B txt next self)
           else (if is_signed_type then apx_signatureParser_parse_limits_i32 B txt next self
                 else apx_signatureParser_parse_limits_u32 B txt next self))
        else (At next, self))"

text \<open>
  After the element itself: limits and array. Each part is optional and fails as \<open>NULLP\<close>.
\<close>

definition optional_part ::
  "(nat \<Rightarrow> apx_signatureParser \<Rightarrow> pointer \<times> apx_signatureParser) \<Rightarrow> nat \<Rightarrow> apx_signatureParser \<Rightarrow>
     pointer \<times> apx_signatureParser" where
  "optional_part part next self =
     (case part next self of (result, self) \<Rightarrow>
        if beyond result next then (result, self)
        else if result = NULLP then (NULLP, apx_signatureParser_set_error self APX_PARSE_ERROR next)
        else (At next, self))"

definition parse_suffix ::
  "bool \<times> bool \<times> bool \<Rightarrow> bstr \<Rightarrow> byte list \<Rightarrow> nat \<Rightarrow> apx_signatureParser \<Rightarrow> pointer \<times> apx_signatureParser" where
  "parse_suffix flags B txt next self =
     (case optional_part (parse_element_limits flags B txt) next self of
        (At next, self) \<Rightarrow> optional_part (apx_signatureParser_parse_array B txt) next self
      | (result, self) \<Rightarrow> (result, self))"


text \<open>
  The field name in front of an element of a record: the quoted name and the position behind it.
\<close>

definition parse_field_name ::
  "bstr \<Rightarrow> byte list \<Rightarrow> nat \<Rightarrow> apx_signatureParser \<Rightarrow> (byte list option \<times> nat) option" where
  "parse_field_name B txt next self =
     (if sp_is_record self then
        (let result = apx_parserBase_parse_string_literal B txt next in
         if beyond result next then Some (Some (between (Suc next) (at result) txt), Suc (at result)) else None)
      else Some (None, next))"

lemma parse_field_name_forward:
  "parse_field_name B txt begin self = Some (name, next) \<Longrightarrow> begin \<le> next"
  by (cases "apx_parserBase_parse_string_literal B txt begin")
    (auto simp: parse_field_name_def Let_def split: if_splits)

definition create_element ::
  "text_lib \<Rightarrow> apx_typeCode \<Rightarrow> byte list option \<Rightarrow> apx_signatureParser \<Rightarrow> apx_error \<times> apx_signatureParser" where
  "create_element T type_code name self =
     (let self = self\<lparr>sp_data_element := Some (apx_dataElement_create type_code)\<rparr> in
      case name of
        None \<Rightarrow> (APX_NO_ERROR, self)
      | Some nm \<Rightarrow> with_element (\<lambda>de. apx_dataElement_set_name_bstr T de nm) self)"

text \<open>
  An element, and the loop over the fields of a record. The loop gets the state object of the
  record itself as \<open>parent\<close> and puts it back at the closing brace and on every error; a
  record whose text ends behind its opening brace leaves without putting it back.
\<close>

function (sequential) apx_signatureParser_parse_data_element ::
    "bstr \<Rightarrow> text_lib \<Rightarrow> byte list \<Rightarrow> nat \<Rightarrow> apx_signatureParser \<Rightarrow> pointer \<times> apx_signatureParser"
  and parse_fields ::
    "bstr \<Rightarrow> text_lib \<Rightarrow> byte list \<Rightarrow> nat \<Rightarrow> bool \<times> apx_dataElement option \<Rightarrow> apx_signatureParser \<Rightarrow>
       pointer \<times> apx_signatureParser" where
  "apx_signatureParser_parse_data_element B T txt begin self =
     (case parse_field_name B txt begin self of
        None \<Rightarrow> (NULLP, apx_signatureParser_set_error self APX_PARSE_ERROR begin)
      | Some (name, next) \<Rightarrow>
          if next \<ge> length txt then (At begin, self)
          else case signature_letter (txt ! next) of (token_class, type_code, flags) \<Rightarrow>
            if token_class \<noteq> APX_TOKEN_CLASS_DATA_ELEMENT
              then (NULLP, apx_signatureParser_set_error self APX_NOT_IMPLEMENTED_ERROR next)
            else if type_code = APX_TYPE_CODE_NONE
              then (NULLP, apx_signatureParser_set_error self APX_PARSE_ERROR next)
            else case create_element T type_code name self of (rc, self) \<Rightarrow>
              if rc \<noteq> APX_NO_ERROR then (NULLP, apx_signatureParser_set_error self rc (Suc next))
              else
                (case (if type_code = APX_TYPE_CODE_REF_ID then
                         (case apx_signatureParser_parse_type_reference B T txt (Suc next) self of
                            (result, self) \<Rightarrow>
                              if beyond result (Suc next) then (result, self)
                              else (NULLP, apx_signatureParser_set_error self APX_PARSE_ERROR (Suc next)))
                       else if type_code = APX_TYPE_CODE_RECORD then
                         parse_fields B T txt (Suc next) (sp_is_record self, sp_data_element self)
                           (self\<lparr>sp_is_record := True, sp_data_element := None\<rparr>)
                       else (At (Suc next), self)) of
                   (At next, self) \<Rightarrow> parse_suffix flags B txt next self
                 | (result, self) \<Rightarrow> (result, self)))"
| "parse_fields B T txt next parent self =
     (if next < length txt then
        (case apx_signatureParser_parse_data_element B T txt next self of
           (ABORT, self) \<Rightarrow> (ABORT, self)
         | (result, self) \<Rightarrow>
             if beyond result next then
               (case (snd parent, sp_data_element self) of
                  (Some de, Some child) \<Rightarrow>
                    (let parent = (fst parent, Some (apx_dataElement_append_child de child));
                         back = self\<lparr>sp_is_record := fst parent, sp_data_element := snd parent\<rparr> in
                     if at result \<ge> length txt
                       then (NULLP, apx_signatureParser_set_error back APX_PARSE_ERROR (at result))
                     else if txt ! at result = 125 then (At (Suc (at result)), back)
                     else parse_fields B T txt (at result) parent (self\<lparr>sp_data_element := None\<rparr>))
                | _ \<Rightarrow> (ABORT, self))
             else (NULLP, apx_signatureParser_set_error
                     (self\<lparr>sp_is_record := fst parent, sp_data_element := snd parent\<rparr>) APX_PARSE_ERROR next))
      else (At next, self))"
  by pat_completeness auto

termination
  by (relation "measure (\<lambda>x. case x of Inl (B, T, txt, begin, self) \<Rightarrow> 2 * (length txt - begin)
      | Inr (B, T, txt, next, parent, self) \<Rightarrow> Suc (2 * (length txt - next)))")
    (auto dest!: parse_field_name_forward)

declare apx_signatureParser_parse_data_element.simps [simp del] parse_fields.simps [simp del]

definition apx_signatureParser_parse_data_signature ::
  "bstr \<Rightarrow> text_lib \<Rightarrow> byte list \<Rightarrow> apx_signatureParser \<Rightarrow> pointer \<times> apx_signatureParser" where
  "apx_signatureParser_parse_data_signature B T txt self =
     apx_signatureParser_parse_data_element B T txt 0
       ((apx_signatureParser_reset self)\<lparr>sp_is_record := False, sp_data_element := None\<rparr>)"

end
