(* ===== verification/SignatureRoundtrip.thy ===== *)
theory SignatureRoundtrip
  imports SignatureParser
begin

text \<open>
  The parser reads what the printer writes. The scanner is a contract: the locale \<open>tokens\<close>
  fixes it with what it promises, and gives the contract \<open>number_format\<close> to the four readers
  of numbers, under which the limit parser is proved once. The main lemma is an induction on
  the element along the printer; \<open>here txt n bs\<close> says that the text goes on with \<open>bs\<close> at
  position \<open>n\<close>.
\<close>

section \<open>Positions\<close>

definition here :: "byte list \<Rightarrow> nat \<Rightarrow> byte list \<Rightarrow> bool" where
  "here txt n bs \<longleftrightarrow> n \<le> length txt \<and> drop n txt = bs"

lemma here_cons:
  assumes "here txt n (c # bs)"
  shows "n < length txt" "txt ! n = c" "here txt (Suc n) bs"
proof -
  from assms have d: "drop n txt = c # bs" by (simp add: here_def)
  then show n: "n < length txt" by (metis drop_eq_Nil list.distinct(1) not_less)
  with d show "txt ! n = c" by (metis Cons_nth_drop_Suc list.inject)
  from n d show "here txt (Suc n) bs" by (simp add: here_def) (metis drop_Suc list.sel(3) tl_drop)
qed

lemma here_append: "here txt n (xs @ bs) \<Longrightarrow> here txt (n + length xs) bs"
proof (induction xs arbitrary: n)
  case (Cons x xs)
  then have "here txt (Suc n) (xs @ bs)" using here_cons(3) [of "txt" n x "xs @ bs"] by simp
  from Cons.IH [OF this] show ?case by simp
qed simp

lemma here_append_take: "here txt n (xs @ bs) \<Longrightarrow> take (length xs) (drop n txt) = xs"
  by (simp add: here_def)

lemma here_start: "here txt 0 txt"
  by (simp add: here_def)

text \<open>What may follow an element: no blank, no number and no further part of the element.\<close>

definition ends_element :: "byte list \<Rightarrow> bool" where
  "ends_element rest \<longleftrightarrow> (case rest of [] \<Rightarrow> True | c # _ \<Rightarrow> c \<noteq> 40 \<and> c \<noteq> 91)"

section \<open>The scanner as a contract\<close>

locale tokens =
  fixes B :: bstr
  assumes scans: "scans_tokens B"
begin

lemma skip_none: "here txt n (c # bs) \<Longrightarrow> \<not> is_space c \<Longrightarrow> skip B txt n = n"
  using scans by (simp add: skip_def scans_tokens_def here_def)

lemma string_literal:
  "here txt n (34 # body @ 34 # rest) \<Longrightarrow> {34, 92} \<inter> set body = {} \<Longrightarrow>
     apx_parserBase_parse_string_literal B txt n = At (n + Suc (length body))"
  using scans by (simp add: apx_parserBase_parse_string_literal_def scans_tokens_def here_def)

lemma field_name:
  assumes "here txt n (34 # body @ 34 # rest)" and "{34, 92} \<inter> set body = {}" and "sp_is_record self"
  shows "parse_field_name B txt n self = Some (Some body, n + length body + 2) \<and>
    here txt (n + length body + 2) rest"
proof -
  have h: "here txt (Suc n) (body @ 34 # rest)" using here_cons(3) [OF assms(1)] by simp
  from here_append [OF this] have "here txt (Suc (n + length body)) (34 # rest)" by simp
  from here_cons(3) [OF this] have "here txt (n + length body + 2) rest" by simp
  with here_append_take [OF h] string_literal [OF assms(1,2)] assms(3) show ?thesis
    by (simp add: parse_field_name_def between_def)
qed

end

interpretation reference_tokens: tokens bstr_ref
  by unfold_locales (rule bstr_ref_scans)

locale number_format =
  fixes enc :: "'n \<Rightarrow> byte list" and num :: "byte list \<Rightarrow> nat \<Rightarrow> pointer \<times> 'n"
  assumes reads: "here txt n (enc v @ rest) \<Longrightarrow> ends_number rest \<Longrightarrow> num txt n = (At (n + length (enc v)), v)"
    and visible: "\<exists>c cs. enc v = c # cs \<and> \<not> is_space c"

locale limit_format = tokens B + number_format enc num
  for B :: bstr and enc :: "'n \<Rightarrow> byte list" and num :: "byte list \<Rightarrow> nat \<Rightarrow> pointer \<times> 'n"
begin

lemma skip_number: "here txt n (enc v @ rest) \<Longrightarrow> skip B txt n = n \<and> n < length txt"
  using visible [of v] skip_none [of "txt" n] here_cons(1) [of "txt" n] by fastforce

lemma number_moves: "beyond (At (n + length (enc v))) n"
  using visible [of v] by auto

lemma limits_read:
  assumes h: "here txt n (range_text (enc lower) (enc upper) @ rest)"
  shows "parse_limits num set_limit B txt n self =
    (At (n + length (range_text (enc lower) (enc upper))), on_element (\<lambda>de. set_limit de lower upper) self) \<and>
    here txt (n + length (range_text (enc lower) (enc upper))) rest"
proof -
  have blank: "\<not> is_space 44" "\<not> is_space 41" by (simp_all add: is_space_def)
  have ends: "ends_number (44 # xs)" "ends_number (41 # xs)" for xs
    by (simp_all add: ends_number_def is_digit_def)
  define i where "i = Suc n + length (enc lower)"
  define j where "j = Suc i + length (enc upper)"
  from h have h0: "here txt n (40 # enc lower @ 44 # enc upper @ 41 # rest)"
    by (simp add: range_text_def)
  note h1 = here_cons [OF h0]
  from here_append [OF h1(3)] have h2: "here txt i (44 # enc upper @ 41 # rest)" by (simp add: i_def)
  note h3 = here_cons [OF h2]
  from here_append [OF h3(3)] have h4: "here txt j (41 # rest)" by (simp add: j_def)
  note h5 = here_cons [OF h4]
  note steps = skip_number [OF h1(3)] skip_number [OF h3(3)] skip_none [OF h2 blank(1)] skip_none [OF h4 blank(2)]
  have num: "num txt (Suc n) = (At i, lower)" "num txt (Suc i) = (At j, upper)"
    "beyond (At i) (Suc n)" "beyond (At j) (Suc i)"
    using reads [OF h1(3) ends(1)] reads [OF h3(3) ends(2)]
      number_moves [of "Suc n" lower] number_moves [of "Suc i" upper]
    by (simp_all add: i_def j_def)
  have "parse_limits num set_limit B txt n self = (At (Suc j), on_element (\<lambda>de. set_limit de lower upper) self)"
    unfolding parse_limits_def Let_def using h1 h3 h5 steps num by simp
  moreover have "Suc j = n + length (range_text (enc lower) (enc upper))"
    by (simp add: range_text_def i_def j_def)
  ultimately show ?thesis
    using h5(3) by simp
qed

end


section \<open>The four readers of numbers\<close>

lemma digit_not_space: "is_digit c \<Longrightarrow> \<not> is_space c"
  by (auto simp: is_digit_def is_space_def word_le_nat_alt)

lemma decimal_visible: "\<exists>c cs. decimal n = c # cs \<and> \<not> is_space c"
  using decimal_digits [of n] decimal_nonempty [of n] digit_not_space by (cases "decimal n") auto

lemma signed_decimal_visible: "\<exists>c cs. signed_decimal i = c # cs \<and> \<not> is_space c"
  using decimal_visible by (simp add: signed_decimal_def is_space_def)

lemma unsigned_reader:
  assumes "reads_unsigned f" and "m < 2 ^ 64" and "here txt n (decimal m @ rest)" and "ends_number rest"
  shows "f (drop n txt) 10 = (At (length (decimal m)), word_of_nat m)"
  using assms decimal_digits [of m] by (simp add: reads_unsigned_def here_def digits_val_decimal)

lemma signed_reader:
  assumes f: "reads_signed f" and i: "- (2 ^ 63) \<le> i" "i < 2 ^ 63"
    and h: "here txt n (signed_decimal i @ rest)" and e: "ends_number rest"
  shows "f (drop n txt) = (At (length (signed_decimal i)), word_of_int i)"
proof (cases "i < 0")
  case True
  then have "digits_val (decimal (nat (- i))) \<le> 2 ^ 63" and "drop n txt = 45 # decimal (nat (- i)) @ rest"
    using i h by (simp_all add: digits_val_decimal here_def signed_decimal_def)
  with f e decimal_digits [of "nat (- i)"] True show ?thesis
    by (simp add: reads_signed_def signed_decimal_def digits_val_decimal)
next
  case False
  then have "digits_val (decimal (nat i)) < 2 ^ 63" and "drop n txt = decimal (nat i) @ rest"
    using i h by (simp_all add: digits_val_decimal here_def signed_decimal_def)
  with f e decimal_digits [of "nat i"] False show ?thesis
    by (simp add: reads_signed_def signed_decimal_def digits_val_decimal)
qed

lemma u32_below: "unat (v :: u32) < 2 ^ 64" "unat (w :: u64) < 2 ^ 64"
  using unsigned_less [of v, where ?'a = nat] unsigned_less [of w, where ?'a = nat] by simp_all

lemma i32_between: "- (2 ^ 63) \<le> sint (v :: u32)" "sint (v :: u32) < 2 ^ 63"
  "- (2 ^ 63) \<le> sint (w :: u64)" "sint (w :: u64) < 2 ^ 63"
  using sint_ge [of v] sint_lt [of v] sint_ge [of w] sint_lt [of w] by simp_all

lemma ucast_half: "(ucast (word_of_nat (unat v) :: u64) :: u32) = v" "(ucast (word_of_int (sint v) :: u64) :: u32) = v"
  for v :: u32
  by (rule bit_word_eqI; simp add: bit_simps; auto)+

sublocale tokens \<subseteq> u32: limit_format B "\<lambda>v. decimal (unat v)" "apx_parserBase_parse_u32 B"
proof unfold_locales
  fix "txt" n rest and v :: u32
  assume "here txt n (decimal (unat v) @ rest)" and "ends_number rest"
  moreover have "reads_unsigned (to_unsigned_long B)" using scans by (simp add: scans_tokens_def)
  ultimately have "to_unsigned_long B (drop n txt) 10 = (At (length (decimal (unat v))), word_of_nat (unat v))"
    by (intro unsigned_reader u32_below)
  then show "apx_parserBase_parse_u32 B txt n = (At (n + length (decimal (unat v))), v)"
    by (simp add: apx_parserBase_parse_u32_def ucast_half del: of_nat_unat of_int_sint)
qed (rule decimal_visible)

sublocale tokens \<subseteq> u64: limit_format B "\<lambda>v. decimal (unat v)" "apx_parserBase_parse_u64 B"
proof unfold_locales
  fix "txt" n rest and v :: u64
  assume "here txt n (decimal (unat v) @ rest)" and "ends_number rest"
  moreover have "reads_unsigned (to_unsigned_long_long B)" using scans by (simp add: scans_tokens_def)
  ultimately have "to_unsigned_long_long B (drop n txt) 10 = (At (length (decimal (unat v))), word_of_nat (unat v))"
    by (intro unsigned_reader u32_below)
  then show "apx_parserBase_parse_u64 B txt n = (At (n + length (decimal (unat v))), v)"
    by (simp add: apx_parserBase_parse_u64_def)
qed (rule decimal_visible)

sublocale tokens \<subseteq> i32: limit_format B "\<lambda>v. signed_decimal (sint v)" "apx_parserBase_parse_i32 B"
proof unfold_locales
  fix "txt" n rest and v :: u32
  assume "here txt n (signed_decimal (sint v) @ rest)" and "ends_number rest"
  moreover have "reads_signed (to_long B)" using scans by (simp add: scans_tokens_def)
  ultimately have "to_long B (drop n txt) = (At (length (signed_decimal (sint v))), word_of_int (sint v))"
    by (intro signed_reader i32_between)
  then show "apx_parserBase_parse_i32 B txt n = (At (n + length (signed_decimal (sint v))), v)"
    by (simp add: apx_parserBase_parse_i32_def ucast_half del: of_nat_unat of_int_sint)
qed (rule signed_decimal_visible)

sublocale tokens \<subseteq> i64: limit_format B "\<lambda>v. signed_decimal (sint v)" "apx_parserBase_parse_i64 B"
proof unfold_locales
  fix "txt" n rest and v :: u64
  assume "here txt n (signed_decimal (sint v) @ rest)" and "ends_number rest"
  moreover have "reads_signed (to_long_long B)" using scans by (simp add: scans_tokens_def)
  ultimately have "to_long_long B (drop n txt) = (At (length (signed_decimal (sint v))), word_of_int (sint v))"
    by (intro signed_reader i32_between)
  then show "apx_parserBase_parse_i64 B txt n = (At (n + length (signed_decimal (sint v))), v)"
    by (simp add: apx_parserBase_parse_i64_def)
qed (rule signed_decimal_visible)

section \<open>Elements that the printer writes in full\<close>

text \<open>
  What a signature can carry: a letter type with limits only where the syntax has them, or a
  record of one or more named fields; a dynamic array has a length; the unused halves of 32 bit
  limits are zero, as the constructor leaves them.
\<close>

definition short_limits :: "apx_typeCode set" where
  "short_limits = {APX_TYPE_CODE_UINT8, APX_TYPE_CODE_UINT16, APX_TYPE_CODE_UINT32, APX_TYPE_CODE_BYTE,
     APX_TYPE_CODE_INT8, APX_TYPE_CODE_INT16, APX_TYPE_CODE_INT32}"

definition limits_printable :: "apx_typeCode \<Rightarrow> bool \<Rightarrow> u64 \<Rightarrow> u64 \<Rightarrow> bool" where
  "limits_printable tc hl lo up \<longleftrightarrow>
     (if hl then
        (tc \<in> short_limits \<and> lo = ucast (ucast lo :: u32) \<and> up = ucast (ucast up :: u32)) \<or>
        tc \<in> {APX_TYPE_CODE_UINT64, APX_TYPE_CODE_INT64}
      else lo = 0 \<and> up = 0)"

definition plain_name :: "byte list \<Rightarrow> bool" where
  "plain_name nm \<longleftrightarrow> {0, 34, 92} \<inter> set nm = {}"

fun printable :: "apx_dataElement \<Rightarrow> bool" and printable_fields :: "apx_dataElement list \<Rightarrow> bool" where
  "printable (DataElement nm es al ei tc dy hl lo up tr) \<longleftrightarrow>
     ei = APX_INVALID_ELEMENT_ID \<and> tr = TypeRefId APX_INVALID_TYPE_ID \<and> (dy \<longrightarrow> al \<noteq> 0) \<and>
     (if tc = APX_TYPE_CODE_RECORD
      then \<not> hl \<and> lo = 0 \<and> up = 0 \<and>
        (case es of None \<Rightarrow> False | Some cs \<Rightarrow> cs \<noteq> [] \<and> printable_fields cs)
      else es = None \<and> type_letter tc \<noteq> None \<and> limits_printable tc hl lo up)"
| "printable_fields [] \<longleftrightarrow> True"
| "printable_fields (c # cs) \<longleftrightarrow>
     (case de_name c of None \<Rightarrow> False | Some nm \<Rightarrow> plain_name nm) \<and> printable c \<and> printable_fields cs"

definition blank_element :: "byte list option \<Rightarrow> apx_dataElement list option \<Rightarrow> apx_typeCode \<Rightarrow> apx_dataElement" where
  "blank_element nm es tc =
     DataElement nm es 0 APX_INVALID_ELEMENT_ID tc False False 0 0 (TypeRefId APX_INVALID_TYPE_ID)"

text \<open>The flags of the switch for a type code.\<close>

definition letter_flags :: "apx_typeCode \<Rightarrow> bool \<times> bool \<times> bool" where
  "letter_flags tc =
     (tc \<in> short_limits \<union> {APX_TYPE_CODE_UINT64, APX_TYPE_CODE_INT64},
      tc \<notin> {APX_TYPE_CODE_UINT8, APX_TYPE_CODE_UINT16, APX_TYPE_CODE_UINT32, APX_TYPE_CODE_UINT64, APX_TYPE_CODE_BYTE},
      tc \<in> {APX_TYPE_CODE_UINT64, APX_TYPE_CODE_INT64})"

lemma letter_read:
  "type_letter tc = Some c \<Longrightarrow>
     signature_letter c = (APX_TOKEN_CLASS_DATA_ELEMENT, tc, letter_flags tc) \<and>
     tc \<notin> {APX_TYPE_CODE_NONE, APX_TYPE_CODE_REF_ID, APX_TYPE_CODE_REF_NAME, APX_TYPE_CODE_RECORD}"
  by (cases tc) (auto simp: type_letter_def signature_letter_def letter_flags_def short_limits_def)

lemma low32_zero: "lo = ucast (ucast lo :: u32) \<Longrightarrow> low32 0 (ucast lo) = lo"
  by (simp add: low32_def)

lemma no_limits: "\<not> (n < length txt \<and> txt ! n = 40) \<Longrightarrow> parse_limits num setl B txt n self = (At n, self)"
  by (auto simp: parse_limits_def)

definition array_text :: "u32 \<Rightarrow> bool \<Rightarrow> byte list" where
  "array_text al dy = (if al = 0 then [] else 91 # decimal (unat al) @ (if dy then [42, 93] else [93]))"

lemma array_text_printed:
  "(if apx_dataElement_is_array (DataElement nm es al ei tc dy hl lo up tr)
    then array_to_string (DataElement nm es al ei tc dy hl lo up tr) False else []) = array_text al dy"
  by (simp add: apx_dataElement_is_array_def array_to_string_def array_text_def word_greater_zero_iff)

text \<open>The text of an element with its name in front, when it is a field.\<close>

definition named :: "byte list option \<Rightarrow> byte list \<Rightarrow> byte list" where
  "named nm s = (case nm of None \<Rightarrow> s | Some b \<Rightarrow> 34 # b @ 34 # s)"

context tokens
begin

lemma array_read:
  assumes h: "here txt n (91 # decimal (unat al) @ (if dy then [42, 93] else [93]) @ rest)"
  shows "\<exists>e. n < e \<and> here txt e rest \<and> apx_signatureParser_parse_array B txt n self =
    (At e, on_element (\<lambda>de. (if dy then apx_dataElement_set_dynamic_array else id) (apx_dataElement_set_array_length de al)) self)"
proof -
  have ends: "ends_number ((if dy then [42, 93] else [93]) @ rest)"
    by (simp add: ends_number_def is_digit_def)
  note h1 = here_cons [OF h]
  define i where "i = Suc n + length (decimal (unat al))"
  have num: "apx_parserBase_parse_u32 B txt (Suc n) = (At i, al)" "Suc n < i"
    using u32.reads [OF h1(3) ends] by (simp_all add: i_def)
  have h2: "here txt i ((if dy then [42, 93] else [93]) @ rest)"
    using here_append [OF h1(3)] by (simp add: i_def)
  note start = u32.skip_number [OF h1(3)]
  show ?thesis
  proof (cases dy)
    case True
    then have h3: "here txt i (42 # 93 # rest)" using h2 by simp
    note h4 = here_cons [OF h3] and h5 = here_cons [OF here_cons(3) [OF h3]]
    have "skip B txt i = i" "skip B txt (Suc i) = Suc i"
      using skip_none [OF h3] skip_none [OF h4(3)] by (simp_all add: is_space_def)
    with h1 h4 h5 num start True show ?thesis
      by (intro exI [of _ "Suc (Suc i)"])
        (simp add: apx_signatureParser_parse_array_def Let_def on_element_def option.map_comp o_def)
  next
    case False
    then have h3: "here txt i (93 # rest)" using h2 by simp
    note h4 = here_cons [OF h3]
    have "skip B txt i = i"
      using skip_none [OF h3] by (simp add: is_space_def)
    with h1 h4 num start False show ?thesis
      by (intro exI [of _ "Suc i"]) (simp add: apx_signatureParser_parse_array_def Let_def)
  qed
qed

lemma array_part:
  assumes h: "here txt n (array_text al dy @ rest)" and e: "ends_element rest" and dy: "dy \<longrightarrow> al \<noteq> 0"
    and de: "sp_data_element self = Some (DataElement nm es 0 ei tc False hl lo up tr)"
  shows "\<exists>e. n \<le> e \<and> here txt e rest \<and> optional_part (apx_signatureParser_parse_array B txt) n self =
    (At e, self\<lparr>sp_data_element := Some (DataElement nm es al ei tc dy hl lo up tr)\<rparr>)"
proof (cases "al = 0")
  case True
  then have h: "here txt n rest" using h by (simp add: array_text_def)
  have "apx_signatureParser_parse_array B txt n self = (At n, self)"
    using e here_cons [of "txt" n] h
    by (cases rest) (auto simp: apx_signatureParser_parse_array_def ends_element_def here_def)
  with h True dy de show ?thesis
    by (auto simp: optional_part_def)
next
  case False
  then have "here txt n (91 # decimal (unat al) @ (if dy then [42, 93] else [93]) @ rest)"
    using h by (auto simp: array_text_def split: if_splits)
  from array_read [OF this, of self] False show ?thesis
    using de by (auto simp: optional_part_def on_element_def)
qed

lemma limits_part:
  assumes h: "here txt n ((if hl then ltext else []) @ more_text)"
    and no: "case more_text of [] \<Rightarrow> True | c # _ \<Rightarrow> c \<noteq> 40"
    and lim: "limits_printable tc hl lo up" and rec: "tc \<noteq> APX_TYPE_CODE_RECORD"
    and lt: "hl \<longrightarrow> limits_to_string (DataElement nm es al ei tc dy hl lo up tr) = Some ltext"
    and de: "sp_data_element self = Some (blank_element nm es tc)"
  shows "\<exists>e. n \<le> e \<and> here txt e more_text \<and> optional_part (parse_element_limits (letter_flags tc) B txt) n self =
    (At e, self\<lparr>sp_data_element := Some (DataElement nm es 0 APX_INVALID_ELEMENT_ID tc False hl lo up (TypeRefId APX_INVALID_TYPE_ID))\<rparr>)"
proof (cases hl)
  case False
  then have h: "here txt n more_text" using h by simp
  have "\<not> (n < length txt \<and> txt ! n = 40)"
    using no h here_cons(2) [of "txt" n] by (cases more_text) (auto simp: here_def)
  then have "parse_element_limits (letter_flags tc) B txt n self = (At n, self)"
    by (simp add: parse_element_limits_def letter_flags_def apx_signatureParser_parse_limits_i64_def
        apx_signatureParser_parse_limits_u64_def apx_signatureParser_parse_limits_i32_def
        apx_signatureParser_parse_limits_u32_def no_limits)
  with h False lim de show ?thesis
    by (auto simp: optional_part_def limits_printable_def blank_element_def)
next
  case True
  let ?goal = "\<lambda>e. n \<le> e \<and> here txt e more_text \<and> optional_part (parse_element_limits (letter_flags tc) B txt) n self =
    (At e, self\<lparr>sp_data_element := Some (DataElement nm es 0 APX_INVALID_ELEMENT_ID tc False hl lo up (TypeRefId APX_INVALID_TYPE_ID))\<rparr>)"
  have h: "here txt n (ltext @ more_text)" using h True by simp
  have fwd: "n < n + length (range_text a b)" for a b by (simp add: range_text_def)
  have lt: "limits_to_string (DataElement nm es al ei tc dy hl lo up tr) = Some ltext" using lt True by simp
  consider "tc \<in> {APX_TYPE_CODE_UINT8, APX_TYPE_CODE_UINT16, APX_TYPE_CODE_UINT32, APX_TYPE_CODE_BYTE}"
    | "tc \<in> {APX_TYPE_CODE_INT8, APX_TYPE_CODE_INT16, APX_TYPE_CODE_INT32}"
    | "tc = APX_TYPE_CODE_UINT64" | "tc = APX_TYPE_CODE_INT64"
    using lim True by (auto simp: limits_printable_def short_limits_def)
  then show "\<exists>e. ?goal e"
  proof cases
    case 1
    then have l: "ltext = range_text (decimal (unat (ucast lo :: u32))) (decimal (unat (ucast up :: u32)))"
      using lt by (auto simp: limits_to_string_def Let_def)
    show ?thesis
      using u32.limits_read [OF h [unfolded l], of apx_dataElement_set_limits_uint32 self] 1 lim True de fwd
      by (intro exI [of _ "n + length ltext"])
        (auto simp: l optional_part_def parse_element_limits_def letter_flags_def short_limits_def
          apx_signatureParser_parse_limits_u32_def on_element_def blank_element_def limits_printable_def
          apx_dataElement_set_limits_uint32_def low32_zero)
  next
    case 2
    then have l: "ltext = range_text (signed_decimal (sint (ucast lo :: u32))) (signed_decimal (sint (ucast up :: u32)))"
      using lt by (auto simp: limits_to_string_def Let_def)
    show ?thesis
      using i32.limits_read [OF h [unfolded l], of apx_dataElement_set_limits_int32 self] 2 lim True de fwd
      by (intro exI [of _ "n + length ltext"])
        (auto simp: l optional_part_def parse_element_limits_def letter_flags_def short_limits_def
          apx_signatureParser_parse_limits_i32_def on_element_def blank_element_def limits_printable_def
          apx_dataElement_set_limits_int32_def low32_zero)
  next
    case 3
    then have l: "ltext = range_text (decimal (unat lo)) (decimal (unat up))"
      using lt by (auto simp: limits_to_string_def Let_def)
    show ?thesis
      using u64.limits_read [OF h [unfolded l], of apx_dataElement_set_limits_uint64 self] 3 lim True de fwd
      by (intro exI [of _ "n + length ltext"])
        (auto simp: l optional_part_def parse_element_limits_def letter_flags_def short_limits_def
          apx_signatureParser_parse_limits_u64_def on_element_def blank_element_def
          apx_dataElement_set_limits_uint64_def)
  next
    case 4
    then have l: "ltext = range_text (signed_decimal (sint lo)) (signed_decimal (sint up))"
      using lt by (auto simp: limits_to_string_def Let_def)
    show ?thesis
      using i64.limits_read [OF h [unfolded l], of apx_dataElement_set_limits_int64 self] 4 lim True de fwd
      by (intro exI [of _ "n + length ltext"])
        (auto simp: l optional_part_def parse_element_limits_def letter_flags_def short_limits_def
          apx_signatureParser_parse_limits_i64_def on_element_def blank_element_def
          apx_dataElement_set_limits_int64_def)
  qed
qed

lemma suffix_read:
  assumes h: "here txt n ((if hl then ltext else []) @ array_text al dy @ rest)"
    and e: "ends_element rest" and dy: "dy \<longrightarrow> al \<noteq> 0"
    and lim: "limits_printable tc hl lo up" and rec: "tc \<noteq> APX_TYPE_CODE_RECORD"
    and lt: "hl \<longrightarrow> limits_to_string (DataElement nm es al APX_INVALID_ELEMENT_ID tc dy hl lo up tr) = Some ltext"
    and de: "sp_data_element self = Some (blank_element nm es tc)"
  shows "\<exists>e. n \<le> e \<and> here txt e rest \<and> parse_suffix (letter_flags tc) B txt n self =
    (At e, self\<lparr>sp_data_element := Some (DataElement nm es al APX_INVALID_ELEMENT_ID tc dy hl lo up (TypeRefId APX_INVALID_TYPE_ID))\<rparr>)"
proof -
  have no: "case array_text al dy @ rest of [] \<Rightarrow> True | c # _ \<Rightarrow> c \<noteq> 40"
    using e by (auto simp: array_text_def ends_element_def split: list.splits)
  obtain i where i: "n \<le> i" "here txt i (array_text al dy @ rest)"
    and l: "optional_part (parse_element_limits (letter_flags tc) B txt) n self =
    (At i, self\<lparr>sp_data_element := Some (DataElement nm es 0 APX_INVALID_ELEMENT_ID tc False hl lo up (TypeRefId APX_INVALID_TYPE_ID))\<rparr>)"
    using limits_part [OF h no lim rec lt de] by blast
  obtain j where "i \<le> j" "here txt j rest"
    and "optional_part (apx_signatureParser_parse_array B txt) i
      (self\<lparr>sp_data_element := Some (DataElement nm es 0 APX_INVALID_ELEMENT_ID tc False hl lo up (TypeRefId APX_INVALID_TYPE_ID))\<rparr>) =
    (At j, self\<lparr>sp_data_element := Some (DataElement nm es al APX_INVALID_ELEMENT_ID tc dy hl lo up (TypeRefId APX_INVALID_TYPE_ID))\<rparr>)"
    using array_part [OF i(2) e dy, of "self\<lparr>sp_data_element := Some (DataElement nm es 0 APX_INVALID_ELEMENT_ID tc False hl lo up (TypeRefId APX_INVALID_TYPE_ID))\<rparr>"]
    by auto
  with l i show ?thesis
    by (intro exI [of _ j]) (simp add: parse_suffix_def)
qed

lemma record_suffix_read:
  assumes h: "here txt n (array_text al dy @ rest)" and e: "ends_element rest" and dy: "dy \<longrightarrow> al \<noteq> 0"
    and de: "sp_data_element self = Some (blank_element nm es APX_TYPE_CODE_RECORD)"
  shows "\<exists>e. n \<le> e \<and> here txt e rest \<and> parse_suffix (False, True, False) B txt n self =
    (At e, self\<lparr>sp_data_element := Some (DataElement nm es al APX_INVALID_ELEMENT_ID APX_TYPE_CODE_RECORD dy False 0 0
       (TypeRefId APX_INVALID_TYPE_ID))\<rparr>)"
proof -
  have "optional_part (parse_element_limits (False, True, False) B txt) n self = (At n, self)"
    by (simp add: optional_part_def parse_element_limits_def)
  with array_part [OF h e dy de [unfolded blank_element_def]] show ?thesis
    by (auto simp: parse_suffix_def)
qed

lemma start_read:
  assumes T: "measures_text T" and h: "here txt n (named nm (c # more_text))"
    and nm: "case nm of None \<Rightarrow> \<not> sp_is_record self | Some b \<Rightarrow> sp_is_record self \<and> plain_name b"
    and c: "signature_letter c = (APX_TOKEN_CLASS_DATA_ELEMENT, tc, flags)" and tc: "tc \<noteq> APX_TYPE_CODE_REF_NAME"
  shows "\<exists>i. n \<le> i \<and> here txt i (c # more_text) \<and> parse_field_name B txt n self = Some (nm, i) \<and>
    create_element T tc nm self = (APX_NO_ERROR, self\<lparr>sp_data_element :=
      Some (blank_element nm (if tc = APX_TYPE_CODE_RECORD then Some [] else None) tc)\<rparr>)"
proof (cases nm)
  case None
  with h nm show ?thesis
    by (intro exI [of _ n])
      (simp add: named_def parse_field_name_def create_element_def apx_dataElement_create_def blank_element_def tc)
next
  case (Some b)
  with h nm have q: "here txt n (34 # b @ 34 # c # more_text)" and b: "plain_name b" "sp_is_record self"
    by (simp_all add: named_def)
  then have "{34, 92} \<inter> set b = {}" "0 \<notin> set b" by (auto simp: plain_name_def)
  with field_name [OF q _ b(2)] text_measures(2) [OF T, of b] Some show ?thesis
    by (intro exI [of _ "n + length b + 2"])
      (simp add: create_element_def with_element_def apx_dataElement_create_def blank_element_def tc)
qed

lemma leaf_text_read:
  assumes T: "measures_text T" and h: "here txt n (named nm (s @ rest))" and e: "ends_element rest"
    and nm: "case nm of None \<Rightarrow> \<not> sp_is_record self | Some b \<Rightarrow> sp_is_record self \<and> plain_name b"
    and p: "printable (DataElement nm es al ei tc dy hl lo up tr)" and rec: "tc \<noteq> APX_TYPE_CODE_RECORD"
    and s: "apx_dataElement_to_string (DataElement nm es al ei tc dy hl lo up tr) False = Some s"
  shows "\<exists>e. n < e \<and> here txt e rest \<and> apx_signatureParser_parse_data_element B T txt n self =
    (At e, self\<lparr>sp_data_element := Some (DataElement nm es al ei tc dy hl lo up tr)\<rparr>)"
proof -
  have fixed: "ei = APX_INVALID_ELEMENT_ID" "tr = TypeRefId APX_INVALID_TYPE_ID" "es = None" "dy \<longrightarrow> al \<noteq> 0"
    and lim: "limits_printable tc hl lo up"
    using p rec by simp_all
  from p rec obtain c where c: "type_letter tc = Some c" by auto
  note letter = letter_read [OF c]
  obtain ltext where lt: "hl \<longrightarrow> limits_to_string (DataElement nm es al ei tc dy hl lo up tr) = Some ltext"
    and st: "s = c # (if hl then ltext else []) @ array_text al dy"
    using s rec c by (auto simp: array_text_printed Let_def split: if_splits)
  have "here txt n (named nm (c # (if hl then ltext else []) @ array_text al dy @ rest))"
    using h by (simp add: st)
  from start_read [OF T this nm conjunct1 [OF letter]] obtain i where i: "n \<le> i"
      "here txt i (c # (if hl then ltext else []) @ array_text al dy @ rest)"
      "parse_field_name B txt n self = Some (nm, i)"
      "create_element T tc nm self = (APX_NO_ERROR, self\<lparr>sp_data_element := Some (blank_element nm None tc)\<rparr>)"
    using rec letter by auto
  note at = here_cons [OF i(2)]
  obtain j where "Suc i \<le> j" "here txt j rest"
    and "parse_suffix (letter_flags tc) B txt (Suc i) (self\<lparr>sp_data_element := Some (blank_element nm None tc)\<rparr>) =
      (At j, self\<lparr>sp_data_element := Some (DataElement nm None al APX_INVALID_ELEMENT_ID tc dy hl lo up (TypeRefId APX_INVALID_TYPE_ID))\<rparr>)"
    using suffix_read [OF at(3) e fixed(4) lim rec, where nm = nm and es = None
        and self = "self\<lparr>sp_data_element := Some (blank_element nm None tc)\<rparr>" and tr = tr] lt fixed by auto
  with i at letter rec fixed show ?thesis
    by (intro exI [of _ j]) (subst apx_signatureParser_parse_data_element.simps, simp)
qed

lemma record_read:
  assumes T: "measures_text T" and h: "here txt n (named nm (123 # s @ 125 # array_text al dy @ rest))"
    and e: "ends_element rest" and dy: "dy \<longrightarrow> al \<noteq> 0"
    and nm: "case nm of None \<Rightarrow> \<not> sp_is_record self | Some b \<Rightarrow> sp_is_record self \<and> plain_name b"
    and fields: "\<And>i self' rest'. here txt i (s @ 125 # rest') \<Longrightarrow> sp_is_record self' \<Longrightarrow>
      \<exists>e>i. here txt e rest' \<and> parse_fields B T txt i (sp_is_record self, Some (blank_element nm (Some []) APX_TYPE_CODE_RECORD)) self' =
        (At e, self'\<lparr>sp_is_record := sp_is_record self, sp_data_element := Some (blank_element nm (Some cs) APX_TYPE_CODE_RECORD)\<rparr>)"
  shows "\<exists>e. n < e \<and> here txt e rest \<and> apx_signatureParser_parse_data_element B T txt n self =
    (At e, self\<lparr>sp_data_element := Some (DataElement nm (Some cs) al APX_INVALID_ELEMENT_ID APX_TYPE_CODE_RECORD dy False 0 0
       (TypeRefId APX_INVALID_TYPE_ID))\<rparr>)"
proof -
  have letter: "signature_letter 123 = (APX_TOKEN_CLASS_DATA_ELEMENT, APX_TYPE_CODE_RECORD, False, True, False)"
    by (simp add: signature_letter_def)
  obtain i where i: "n \<le> i" "here txt i (123 # s @ 125 # array_text al dy @ rest)"
      "parse_field_name B txt n self = Some (nm, i)"
      "create_element T APX_TYPE_CODE_RECORD nm self =
         (APX_NO_ERROR, self\<lparr>sp_data_element := Some (blank_element nm (Some []) APX_TYPE_CODE_RECORD)\<rparr>)"
    using start_read [OF T h nm letter] by auto
  note at = here_cons [OF i(2)]
  obtain j where j: "Suc i < j" "here txt j (array_text al dy @ rest)"
    and f: "parse_fields B T txt (Suc i) (sp_is_record self, Some (blank_element nm (Some []) APX_TYPE_CODE_RECORD))
        (self\<lparr>sp_is_record := True, sp_data_element := None\<rparr>) =
      (At j, self\<lparr>sp_data_element := Some (blank_element nm (Some cs) APX_TYPE_CODE_RECORD)\<rparr>)"
    using fields [OF at(3), of "self\<lparr>sp_is_record := True, sp_data_element := None\<rparr>"] by auto
  obtain k where "j \<le> k" "here txt k rest"
    and "parse_suffix (False, True, False) B txt j (self\<lparr>sp_data_element := Some (blank_element nm (Some cs) APX_TYPE_CODE_RECORD)\<rparr>) =
      (At k, self\<lparr>sp_data_element := Some (DataElement nm (Some cs) al APX_INVALID_ELEMENT_ID APX_TYPE_CODE_RECORD dy False 0 0
       (TypeRefId APX_INVALID_TYPE_ID))\<rparr>)"
    using record_suffix_read [OF j(2) e dy, of "self\<lparr>sp_data_element := Some (blank_element nm (Some cs) APX_TYPE_CODE_RECORD)\<rparr>"]
    by auto
  with i at j f letter show ?thesis
    by (intro exI [of _ k]) (subst apx_signatureParser_parse_data_element.simps, simp)
qed

lemma printed_read:
  assumes T: "measures_text T"
  shows "normalized = False \<Longrightarrow> printable de \<Longrightarrow> apx_dataElement_to_string de normalized = Some s \<Longrightarrow>
      here txt n (named (de_name de) (s @ rest)) \<Longrightarrow> ends_element rest \<Longrightarrow>
      (case de_name de of None \<Rightarrow> \<not> sp_is_record self | Some b \<Rightarrow> sp_is_record self \<and> plain_name b) \<Longrightarrow>
      \<exists>e. n < e \<and> here txt e rest \<and> apx_signatureParser_parse_data_element B T txt n self =
        (At e, self\<lparr>sp_data_element := Some de\<rparr>)"
    and "normalized = False \<Longrightarrow> printable_fields cs \<Longrightarrow> cs \<noteq> [] \<Longrightarrow> children_to_string cs normalized = Some s' \<Longrightarrow>
      here txt n' (s' @ 125 # rest') \<Longrightarrow> sp_is_record self' \<Longrightarrow>
      \<exists>e>n'. here txt e rest' \<and> parse_fields B T txt n' (pr, Some (blank_element nm (Some acc) APX_TYPE_CODE_RECORD)) self' =
        (At e, self'\<lparr>sp_is_record := pr, sp_data_element := Some (blank_element nm (Some (acc @ cs)) APX_TYPE_CODE_RECORD)\<rparr>)"
proof (induction de normalized and cs normalized arbitrary: s n rest self and s' n' rest' self' acc pr nm
    rule: apx_dataElement_to_string_children_to_string.induct)
  case (1 nm0 es al ei tc dy hl lo up tr normalized)
  show ?case
  proof (cases "tc = APX_TYPE_CODE_RECORD")
    case False
    with leaf_text_read [OF T "1.prems"(4) [simplified] "1.prems"(5) "1.prems"(6) [simplified] "1.prems"(2)] "1.prems"(1,3)
    show ?thesis by blast
  next
    case True
    with "1.prems"(2) obtain cs where es: "es = Some cs" "cs \<noteq> []" "printable_fields cs"
      and fixed: "ei = APX_INVALID_ELEMENT_ID" "tr = TypeRefId APX_INVALID_TYPE_ID" "dy \<longrightarrow> al \<noteq> 0" "\<not> hl" "lo = 0" "up = 0"
      by (auto split: option.splits)
    with "1.prems"(1,3) True obtain s1 where s1: "children_to_string cs False = Some s1"
      and s: "s = 123 # s1 @ 125 # array_text al dy"
      by (auto simp: Let_def array_text_printed)
    have "here txt n (named nm0 (123 # s1 @ 125 # array_text al dy @ rest))"
      using "1.prems"(4) by (simp add: s)
    moreover have "\<exists>e>i. here txt e rest' \<and> parse_fields B T txt i
        (sp_is_record self, Some (blank_element nm0 (Some []) APX_TYPE_CODE_RECORD)) self' =
      (At e, self'\<lparr>sp_is_record := sp_is_record self, sp_data_element := Some (blank_element nm0 (Some cs) APX_TYPE_CODE_RECORD)\<rparr>)"
      if "here txt i (s1 @ 125 # rest')" "sp_is_record self'" for i self' rest'
      using "1.IH" [OF refl True es(1) "1.prems"(1) es(3,2) s1 [folded "1.prems"(1)] that, of "sp_is_record self" nm0 "[]"]
      by simp
    ultimately show ?thesis
      using record_read [OF T _ "1.prems"(5) fixed(3), where nm = nm0 and s = s1 and cs = cs and self = self and n = n] "1.prems"(6) fixed es(1) True by simp
  qed
next
  case (2 normalized)
  then show ?case by simp
next
  case (3 child rest0 normalized)
  from "3.prems"(2) obtain b where b: "de_name child = Some b" "plain_name b"
    and p: "printable child" "printable_fields rest0" by (auto split: option.splits)
  from "3.prems"(1,4) b obtain sc sr where sc: "apx_dataElement_to_string child normalized = Some sc"
    and sr: "children_to_string rest0 normalized = Some sr" and s': "s' = 34 # b @ 34 # sc @ sr"
    by (auto split: option.splits)
  have h: "here txt n' (named (de_name child) (sc @ sr @ 125 # rest'))"
    using "3.prems"(5) by (simp add: s' named_def b)
  have ends: "ends_element (sr @ 125 # rest')"
    using sr by (cases rest0) (auto simp: ends_element_def split: option.splits)
  obtain e where e: "n' < e" "here txt e (sr @ 125 # rest')"
    and one: "apx_signatureParser_parse_data_element B T txt n' self' = (At e, self'\<lparr>sp_data_element := Some child\<rparr>)"
    using "3.IH"(1) [OF "3.prems"(1) p(1) sc h ends] b "3.prems"(6) by auto
  have n': "n' < length txt" using here_cons(1) [of "txt" n'] h b by (simp add: named_def)
  have more: "apx_dataElement_append_child (blank_element nm (Some acc) APX_TYPE_CODE_RECORD) child =
      blank_element nm (Some (acc @ [child])) APX_TYPE_CODE_RECORD"
    by (simp add: blank_element_def)
  show ?case
  proof (cases rest0)
    case Nil
    with sr e have "here txt e (125 # rest')" by simp
    from here_cons [OF this] e(1) one n' more Nil show ?thesis
      by (intro exI [of _ "Suc e"]) (subst parse_fields.simps, simp add: Let_def)
  next
    case (Cons c1 cs1)
    with sr obtain sr' where sr': "sr = 34 # sr'" by (auto split: option.splits)
    with e have "here txt e (34 # sr' @ 125 # rest')" by simp
    note at = here_cons [OF this]
    obtain f where "e < f" "here txt f rest'" and "parse_fields B T txt e
        (pr, Some (blank_element nm (Some (acc @ [child])) APX_TYPE_CODE_RECORD)) (self'\<lparr>sp_data_element := None\<rparr>) =
      (At f, self'\<lparr>sp_is_record := pr, sp_data_element := Some (blank_element nm (Some (acc @ child # rest0)) APX_TYPE_CODE_RECORD)\<rparr>)"
      using "3.IH"(2) [OF sc "3.prems"(1) p(2) _ sr e(2), of "self'\<lparr>sp_data_element := None\<rparr>" pr nm "acc @ [child]"]
        "3.prems"(6) Cons by auto
    with at e(1) one n' more show ?thesis
      by (intro exI [of _ f]) (subst parse_fields.simps, simp add: Let_def)
  qed
qed

end

section \<open>Properties\<close>

text \<open>
  C19: What the printer writes of a data element the parser reads back as the same element, up to
  the last character and without an error: all letter types, limits of every width and sign,
  fixed and dynamic arrays, and records of named fields, nested to any depth.
\<close>

theorem signature_roundtrip:
  assumes "scans_tokens B" and "measures_text T" and "printable de" and "de_name de = None"
    and "apx_dataElement_to_string de False = Some signature"
  shows "\<exists>self'. apx_signatureParser_parse_data_signature B T signature self = (At (length signature), self') \<and>
    fst (apx_signatureParser_take_data_element self') = Some de \<and>
    apx_signatureParser_get_last_error self' = (APX_NO_ERROR, None)"
proof -
  let ?self = "(apx_signatureParser_reset self)\<lparr>sp_is_record := False, sp_data_element := None\<rparr>"
  have "here signature 0 (named (de_name de) (signature @ []))"
    using assms(4) by (simp add: here_start named_def)
  from tokens.printed_read(1) [OF tokens.intro [OF assms(1)] assms(2) refl assms(3,5) this, of ?self] assms(4)
  obtain e where "here signature e []"
    "apx_signatureParser_parse_data_element B T signature 0 ?self = (At e, ?self\<lparr>sp_data_element := Some de\<rparr>)"
    by (auto simp: ends_element_def)
  moreover from this(1) have "e = length signature" by (simp add: here_def)
  ultimately show ?thesis
    by (simp add: apx_signatureParser_parse_data_signature_def apx_signatureParser_take_data_element_def
        apx_signatureParser_get_last_error_def apx_signatureParser_reset_def)
qed

text \<open>An example with every feature: \<open>{"ab"C(0,7)[3]"c"{"x"q(-5,5)"y"a[4*]}[2]}\<close>.\<close>

definition signature_example :: apx_dataElement where
  "signature_example = DataElement None (Some
     [DataElement (Some [97, 98]) None 3 APX_INVALID_ELEMENT_ID APX_TYPE_CODE_UINT8 False True 0 7 (TypeRefId APX_INVALID_TYPE_ID),
      DataElement (Some [99]) (Some
        [DataElement (Some [120]) None 0 APX_INVALID_ELEMENT_ID APX_TYPE_CODE_INT64 False True (-5) 5 (TypeRefId APX_INVALID_TYPE_ID),
         DataElement (Some [121]) None 4 APX_INVALID_ELEMENT_ID APX_TYPE_CODE_CHAR True False 0 0 (TypeRefId APX_INVALID_TYPE_ID)])
        2 APX_INVALID_ELEMENT_ID APX_TYPE_CODE_RECORD False False 0 0 (TypeRefId APX_INVALID_TYPE_ID)])
     0 APX_INVALID_ELEMENT_ID APX_TYPE_CODE_RECORD False False 0 0 (TypeRefId APX_INVALID_TYPE_ID)"

definition signature_example_text :: "byte list" where
  "signature_example_text =
     [123, 34, 97, 98, 34, 67, 40, 48, 44, 55, 41, 91, 51, 93, 34, 99, 34, 123, 34, 120, 34, 113, 40, 45, 53, 44, 53,
      41, 34, 121, 34, 97, 91, 52, 42, 93, 125, 91, 50, 93, 125]"

lemma signature_example_facts:
  "printable signature_example" "de_name signature_example = None"
  "apx_dataElement_to_string signature_example False = Some signature_example_text"
  by (simp_all add: signature_example_def signature_example_text_def type_letter_def limits_printable_def short_limits_def
      plain_name_def limits_to_string_def range_text_def decimal.simps signed_decimal_def array_to_string_def
      apx_dataElement_is_array_def)

theorem signature_roundtrip_witness:
  "\<exists>self'. apx_signatureParser_parse_data_signature bstr_ref text_bytes signature_example_text apx_signatureParser_create =
      (At (length signature_example_text), self') \<and>
    fst (apx_signatureParser_take_data_element self') = Some signature_example \<and>
    apx_signatureParser_get_last_error self' = (APX_NO_ERROR, None)"
  by (rule signature_roundtrip [OF bstr_ref_scans text_bytes_measures signature_example_facts])

text \<open>
  A record that is not closed is not always an error. The text of a single opening brace is read
  to its end with no error, and no element comes out; with such a record as the first field of
  another one the parser stops the program with a failed assertion.
\<close>

theorem unclosed_record:
  assumes "scans_tokens B" and "measures_text T" and "plain_name nm"
  shows "(\<exists>self'. apx_signatureParser_parse_data_signature B T [123] self = (At 1, self') \<and>
      fst (apx_signatureParser_take_data_element self') = None \<and>
      apx_signatureParser_get_last_error self' = (APX_NO_ERROR, None)) \<and>
    fst (apx_signatureParser_parse_data_signature B T (123 # 34 # nm @ [34, 123]) self) = ABORT"
proof -
  have letter: "signature_letter 123 = (APX_TOKEN_CLASS_DATA_ELEMENT, APX_TYPE_CODE_RECORD, False, True, False)"
    by (simp add: signature_letter_def)
  define s0 where "s0 = (apx_signatureParser_reset self)\<lparr>sp_is_record := False, sp_data_element := None\<rparr>"
  have top: "parse_field_name B txt 0 s0 = Some (None, 0)" for "txt"
    by (simp add: parse_field_name_def s0_def)
  have one: "apx_signatureParser_parse_data_element B T [123] 0 s0 =
      (At 1, s0\<lparr>sp_is_record := True, sp_data_element := None\<rparr>)"
    by (subst apx_signatureParser_parse_data_element.simps, subst parse_fields.simps)
      (simp add: top letter create_element_def parse_suffix_def optional_part_def parse_element_limits_def
        apx_signatureParser_parse_array_def)
  let ?t = "123 # 34 # nm @ [34, 123]"
  have h: "here ?t 1 (34 # nm @ 34 # [123])" by (simp add: here_def)
  define s1 where "s1 = s0\<lparr>sp_is_record := True, sp_data_element := None\<rparr>"
  have name: "{34, 92} \<inter> set nm = {}" "0 \<notin> set nm" using assms(3) by (auto simp: plain_name_def)
  have field: "parse_field_name B ?t 1 s1 = Some (Some nm, Suc (length nm + 2))"
    using tokens.field_name [OF tokens.intro [OF assms(1)] h name(1), of s1] by (simp add: s1_def)
  have "fst (parse_fields B T ?t 1 (False, Some (apx_dataElement_create APX_TYPE_CODE_RECORD)) s1) = ABORT"
    using field text_measures(2) [OF assms(2) name(2)]
    by (subst parse_fields.simps, subst apx_signatureParser_parse_data_element.simps, subst parse_fields.simps)
      (simp add: letter create_element_def with_element_def apx_dataElement_create_def nth_append parse_suffix_def
        optional_part_def parse_element_limits_def apx_signatureParser_parse_array_def)
  then obtain s2 where "parse_fields B T ?t (Suc 0) (False, Some (apx_dataElement_create APX_TYPE_CODE_RECORD)) s1 = (ABORT, s2)"
    by (metis One_nat_def prod.collapse)
  moreover have "sp_is_record s0 = False" by (simp add: s0_def)
  ultimately have "fst (apx_signatureParser_parse_data_element B T ?t 0 s0) = ABORT"
    by (subst apx_signatureParser_parse_data_element.simps) (simp add: top letter create_element_def s1_def)
  with one show ?thesis
    by (simp add: apx_signatureParser_parse_data_signature_def s0_def [symmetric] apx_signatureParser_take_data_element_def
        apx_signatureParser_get_last_error_def) (simp add: s0_def apx_signatureParser_reset_def)
qed

theorem unclosed_record_witness:
  "(\<exists>self'. apx_signatureParser_parse_data_signature bstr_ref text_bytes [123] apx_signatureParser_create = (At 1, self') \<and>
      fst (apx_signatureParser_take_data_element self') = None \<and>
      apx_signatureParser_get_last_error self' = (APX_NO_ERROR, None)) \<and>
    fst (apx_signatureParser_parse_data_signature bstr_ref text_bytes (123 # 34 # [97] @ [34, 123]) apx_signatureParser_create) = ABORT"
  by (rule unclosed_record [OF bstr_ref_scans text_bytes_measures]) (simp add: plain_name_def)

end
