(* ===== verification/NodeData.thy ===== *)
theory NodeData
  imports FileInfo
begin

text \<open>
  The data of a node, apx/src/node_data.c: its definition text and the bytes of its provide ports
  and require ports, each a buffer with its size. A buffer is \<open>None\<close> for the null pointer. The
  functions that copy check their range against the stored size, so that what the sizes say of the
  buffers decides whether a copy stays inside: that is the invariant below. The mutex around each
  body is not modelled, and neither is the parent pointer, which nothing reads.
\<close>

section \<open>State\<close>

record apx_nodeData =
  definition_data :: "byte list option"
  require_port_data :: "byte list option"
  provide_port_data :: "byte list option"
  definition_data_size :: u32
  require_port_data_size :: u32
  provide_port_data_size :: u32
  nd_num_require_ports :: u32
  nd_num_provide_ports :: u32
  require_port_connection_count :: "byte list option"
  provide_port_connection_count :: "byte list option"
  checksum_data :: "byte list"
  checksum_type :: u16
  is_weak_ref :: bool

record apx_nodeDataBuffers =
  buf_definition_data :: "byte list option"
  buf_provide_port_data :: "byte list option"
  buf_require_port_data :: "byte list option"
  buf_definition_data_size :: u32
  buf_provide_port_data_size :: u32
  buf_require_port_data_size :: u32
  buf_num_provide_ports :: u32
  buf_num_require_ports :: u32
  buf_require_port_connection_count :: "byte list option"
  buf_provide_port_connection_count :: "byte list option"
  buf_checksum_data :: "byte list"
  buf_checksum_type :: u16

section \<open>Construction\<close>

definition apx_nodeData_set_checksum_data :: "apx_nodeData \<Rightarrow> u16 \<Rightarrow> byte list \<Rightarrow> apx_nodeData" where
  "apx_nodeData_set_checksum_data self ctype bytes =
     self\<lparr>checksum_type := ctype, checksum_data := take 32 bytes\<rparr>"

definition apx_nodeData_create :: "apx_nodeData \<Rightarrow> apx_nodeDataBuffers option \<Rightarrow> apx_nodeData" where
  "apx_nodeData_create self buffers =
     (case buffers of
        Some b \<Rightarrow>
          apx_nodeData_set_checksum_data
            (self\<lparr>is_weak_ref := True,
              definition_data := buf_definition_data b,
              require_port_data := buf_require_port_data b,
              provide_port_data := buf_provide_port_data b,
              definition_data_size := buf_definition_data_size b,
              require_port_data_size := buf_require_port_data_size b,
              provide_port_data_size := buf_provide_port_data_size b,
              require_port_connection_count := buf_require_port_connection_count b,
              provide_port_connection_count := buf_provide_port_connection_count b,
              nd_num_require_ports := buf_num_require_ports b,
              nd_num_provide_ports := buf_num_provide_ports b\<rparr>)
            (buf_checksum_type b) (buf_checksum_data b)
      | None \<Rightarrow>
          self\<lparr>is_weak_ref := False,
            definition_data := None, require_port_data := None, provide_port_data := None,
            definition_data_size := 0, require_port_data_size := 0, provide_port_data_size := 0,
            require_port_connection_count := None, provide_port_connection_count := None,
            nd_num_require_ports := 0, nd_num_provide_ports := 0,
            checksum_type := 0, checksum_data := replicate 32 0\<rparr>)"

text \<open>The object in the memory that malloc returned, if it did.\<close>

definition apx_nodeData_new :: "apx_nodeData option \<Rightarrow> apx_nodeData option" where
  "apx_nodeData_new memory = map_option (\<lambda>self. apx_nodeData_create self None) memory"

section \<open>Buffers\<close>

text \<open>
  The bytes a fresh buffer of \<open>n\<close> bytes gets: a copy of the initial data, or zeros. The copy reads
  \<open>n\<close> bytes from the data it is given.
\<close>

fun initial_bytes :: "byte list option \<Rightarrow> nat \<Rightarrow> byte list option" where
  "initial_bytes (Some init_data) n = mem_read 0 n init_data"
| "initial_bytes None n = Some (replicate n 0)"

definition apx_nodeData_create_definition_data ::
  "bool \<Rightarrow> apx_nodeData \<Rightarrow> byte list option \<Rightarrow> u32 \<Rightarrow> apx_error \<times> apx_nodeData" where
  "apx_nodeData_create_definition_data mem self init_data data_size =
     (if is_weak_ref self then (APX_UNSUPPORTED_ERROR, self)
      else if 0 < data_size then
        (if \<not> mem then (APX_MEM_ERROR, self\<lparr>definition_data := None\<rparr>)
         else let self = self\<lparr>definition_data_size := data_size\<rparr> in
           (case initial_bytes init_data (unat data_size) of
              None \<Rightarrow> (FAULT OUT_OF_BOUNDS, self)
            | Some bs \<Rightarrow> (APX_NO_ERROR, self\<lparr>definition_data := Some bs\<rparr>)))
      else (APX_INVALID_ARGUMENT_ERROR, self))"

definition apx_nodeData_create_provide_port_data ::
  "bool \<Rightarrow> apx_nodeData \<Rightarrow> u32 \<Rightarrow> byte list option \<Rightarrow> u32 \<Rightarrow> apx_error \<times> apx_nodeData" where
  "apx_nodeData_create_provide_port_data mem self num_ports init_data data_size =
     (if is_weak_ref self then (APX_UNSUPPORTED_ERROR, self)
      else if 0 < data_size then
        (if \<not> mem then (APX_MEM_ERROR, self\<lparr>provide_port_data := None\<rparr>)
         else let self = self\<lparr>nd_num_provide_ports := num_ports, provide_port_data_size := data_size\<rparr> in
           (case initial_bytes init_data (unat data_size) of
              None \<Rightarrow> (FAULT OUT_OF_BOUNDS, self)
            | Some bs \<Rightarrow> (APX_NO_ERROR, self\<lparr>provide_port_data := Some bs\<rparr>)))
      else (APX_INVALID_ARGUMENT_ERROR, self))"

definition apx_nodeData_create_require_port_data ::
  "bool \<Rightarrow> apx_nodeData \<Rightarrow> u32 \<Rightarrow> byte list option \<Rightarrow> u32 \<Rightarrow> apx_error \<times> apx_nodeData" where
  "apx_nodeData_create_require_port_data mem self num_ports init_data data_size =
     (if is_weak_ref self then (APX_UNSUPPORTED_ERROR, self)
      else if 0 < data_size then
        (if \<not> mem then (APX_MEM_ERROR, self\<lparr>require_port_data := None\<rparr>)
         else let self = self\<lparr>nd_num_require_ports := num_ports, require_port_data_size := data_size\<rparr> in
           (case initial_bytes init_data (unat data_size) of
              None \<Rightarrow> (FAULT OUT_OF_BOUNDS, self)
            | Some bs \<Rightarrow> (APX_NO_ERROR, self\<lparr>require_port_data := Some bs\<rparr>)))
      else (APX_INVALID_ARGUMENT_ERROR, self))"

section \<open>Copies into and out of a buffer\<close>

text \<open>
  \<open>memcpy(buffer + offset, src, n)\<close>, where the buffer or the source may be too short, and its
  mirror. A copy of nothing through a null pointer does nothing.
\<close>

fun copy_in :: "byte list option \<Rightarrow> nat \<Rightarrow> byte list \<Rightarrow> nat \<Rightarrow> byte list option option" where
  "copy_in (Some data) offset src n =
     (case mem_read 0 n src of None \<Rightarrow> None
      | Some bs \<Rightarrow> map_option Some (mem_write offset bs data))"
| "copy_in None offset src n = (if n = 0 then Some None else None)"

fun copy_out :: "byte list option \<Rightarrow> nat \<Rightarrow> byte list \<Rightarrow> nat \<Rightarrow> byte list option" where
  "copy_out (Some data) offset dest n =
     (case mem_read offset n data of None \<Rightarrow> None | Some bs \<Rightarrow> mem_write 0 bs dest)"
| "copy_out None offset dest n = (if n = 0 then Some dest else None)"

text \<open>The body of the write functions and of the read functions, on the buffer and the size each names.\<close>

definition buffer_write :: "byte list option \<Rightarrow> u32 \<Rightarrow> u32 \<Rightarrow> byte list \<Rightarrow> u32 \<Rightarrow> apx_error \<times> byte list option" where
  "buffer_write data data_size offset src n =
     (if unat offset + unat n > unat data_size then (APX_INVALID_ARGUMENT_ERROR, data)
      else case copy_in data (unat offset) src (unat n) of
        None \<Rightarrow> (FAULT OUT_OF_BOUNDS, data)
      | Some data \<Rightarrow> (APX_NO_ERROR, data))"

definition buffer_read :: "byte list option \<Rightarrow> u32 \<Rightarrow> u32 \<Rightarrow> byte list \<Rightarrow> u32 \<Rightarrow> apx_error \<times> byte list" where
  "buffer_read data data_size offset dest n =
     (if unat offset + unat n > unat data_size then (APX_INVALID_ARGUMENT_ERROR, dest)
      else case copy_out data (unat offset) dest (unat n) of
        None \<Rightarrow> (FAULT OUT_OF_BOUNDS, dest)
      | Some dest \<Rightarrow> (APX_NO_ERROR, dest))"

definition apx_nodeData_write_definition_data ::
  "apx_nodeData \<Rightarrow> u32 \<Rightarrow> byte list \<Rightarrow> u32 \<Rightarrow> apx_error \<times> apx_nodeData" where
  "apx_nodeData_write_definition_data self offset src n =
     (case buffer_write (definition_data self) (definition_data_size self) offset src n of
        (retval, data) \<Rightarrow> (retval, self\<lparr>definition_data := data\<rparr>))"

definition apx_nodeData_write_provide_port_data ::
  "apx_nodeData \<Rightarrow> u32 \<Rightarrow> byte list \<Rightarrow> u32 \<Rightarrow> apx_error \<times> apx_nodeData" where
  "apx_nodeData_write_provide_port_data self offset src n =
     (case buffer_write (provide_port_data self) (provide_port_data_size self) offset src n of
        (retval, data) \<Rightarrow> (retval, self\<lparr>provide_port_data := data\<rparr>))"

definition apx_nodeData_read_provide_port_data ::
  "apx_nodeData \<Rightarrow> u32 \<Rightarrow> byte list \<Rightarrow> u32 \<Rightarrow> apx_error \<times> byte list" where
  "apx_nodeData_read_provide_port_data self offset dest n =
     buffer_read (provide_port_data self) (provide_port_data_size self) offset dest n"

definition apx_nodeData_write_require_port_data ::
  "apx_nodeData \<Rightarrow> u32 \<Rightarrow> byte list \<Rightarrow> u32 \<Rightarrow> apx_error \<times> apx_nodeData" where
  "apx_nodeData_write_require_port_data self offset src n =
     (case buffer_write (require_port_data self) (require_port_data_size self) offset src n of
        (retval, data) \<Rightarrow> (retval, self\<lparr>require_port_data := data\<rparr>))"

definition apx_nodeData_read_require_port_data ::
  "apx_nodeData \<Rightarrow> u32 \<Rightarrow> byte list \<Rightarrow> u32 \<Rightarrow> apx_error \<times> byte list" where
  "apx_nodeData_read_require_port_data self offset dest n =
     buffer_read (require_port_data self) (require_port_data_size self) offset dest n"

text \<open>
  A snapshot is a copy of the whole buffer, or null: \<open>None\<close> outside is a copy past the end of the
  buffer.
\<close>

definition snapshot :: "bool \<Rightarrow> byte list option \<Rightarrow> u32 \<Rightarrow> byte list option option" where
  "snapshot mem data n =
     (case data of None \<Rightarrow> Some None
      | Some bytes \<Rightarrow> if mem then map_option Some (mem_read 0 (unat n) bytes) else Some None)"

definition apx_nodeData_take_definition_data_snapshot :: "bool \<Rightarrow> apx_nodeData \<Rightarrow> byte list option option" where
  "apx_nodeData_take_definition_data_snapshot mem self =
     snapshot mem (definition_data self) (definition_data_size self)"

definition apx_nodeData_take_provide_port_data_snapshot :: "bool \<Rightarrow> apx_nodeData \<Rightarrow> byte list option option" where
  "apx_nodeData_take_provide_port_data_snapshot mem self =
     snapshot mem (provide_port_data self) (provide_port_data_size self)"

definition apx_nodeData_take_require_port_data_snapshot :: "bool \<Rightarrow> apx_nodeData \<Rightarrow> byte list option option" where
  "apx_nodeData_take_require_port_data_snapshot mem self =
     snapshot mem (require_port_data self) (require_port_data_size self)"

section \<open>Invariant\<close>

text \<open>A size tells the length of its buffer; no buffer, no size.\<close>

definition sized :: "byte list option \<Rightarrow> u32 \<Rightarrow> bool" where
  "sized data n \<longleftrightarrow> unat n = (case data of None \<Rightarrow> 0 | Some bytes \<Rightarrow> length bytes)"

definition nodeData_ok :: "apx_nodeData \<Rightarrow> bool" where
  "nodeData_ok self \<longleftrightarrow>
     sized (definition_data self) (definition_data_size self) \<and>
     sized (provide_port_data self) (provide_port_data_size self) \<and>
     sized (require_port_data self) (require_port_data_size self)"

lemma copy_in_sized:
  assumes "sized data size'" and "n \<le> length src" and "offset + n \<le> unat size'"
  shows "\<exists>data'. copy_in data offset src n = Some data' \<and> sized data' size' \<and>
    (\<forall>bytes. data = Some bytes \<longrightarrow>
       data' = Some (take offset bytes @ take n src @ drop (offset + n) bytes))"
  using assms by (cases data) (auto simp: sized_def mem_read_def mem_write_def)

lemma copy_out_sized:
  assumes "sized (Some bytes) size'" and "n \<le> length dest" and "offset + n \<le> unat size'"
  shows "copy_out (Some bytes) offset dest n = Some (take n (drop offset bytes) @ drop n dest)"
  using assms by (simp add: sized_def mem_read_def mem_write_def)

lemma copy_out_nothing: "copy_out data offset dest 0 = Some dest" if "sized data size'" "offset \<le> unat size'"
  using that by (cases data) (auto simp: sized_def mem_read_def mem_write_def)

lemma copy_out_ok:
  assumes "sized data size'" and "n \<le> length dest" and "offset + n \<le> unat size'"
  shows "\<exists>dest'. copy_out data offset dest n = Some dest' \<and> length dest' = length dest"
  using assms by (cases data) (auto simp: sized_def mem_read_def mem_write_def)

lemma initial_bytes_sized:
  assumes "\<And>bytes. init_data = Some bytes \<Longrightarrow> n \<le> length bytes"
  shows "\<exists>bs. initial_bytes init_data n = Some bs \<and> length bs = n"
  using assms by (cases init_data) (auto simp: mem_read_def)

text \<open>
  The calls on a node's data, with what the allocation in them returns. A buffer that is created anew when
  memory runs out leaves the size of the old one; the code creates a buffer once. A load fills the caller's memory
  and a snapshot returns a copy: the object stays as it is, and a copy that leaves a buffer is a fault. The
  definition data have no function that loads a part of them.
\<close>

datatype node_buffer = DEFINITION | PROVIDE | REQUIRE

datatype nodeData_call =
    Create node_buffer bool u32 "byte list option" u32
  | Store node_buffer u32 "byte list" u32
  | Load node_buffer u32 "byte list" u32
  | Snapshot node_buffer bool
  | Checksum u16 "byte list"

definition snapshot_result :: "byte list option option \<Rightarrow> apx_error" where
  "snapshot_result r = (if r = None then FAULT OUT_OF_BOUNDS else APX_NO_ERROR)"

fun nodeData_run :: "nodeData_call \<Rightarrow> apx_nodeData \<Rightarrow> apx_error \<times> apx_nodeData" where
  "nodeData_run (Create DEFINITION mem k init_data n) self = apx_nodeData_create_definition_data mem self init_data n"
| "nodeData_run (Create PROVIDE mem k init_data n) self = apx_nodeData_create_provide_port_data mem self k init_data n"
| "nodeData_run (Create REQUIRE mem k init_data n) self = apx_nodeData_create_require_port_data mem self k init_data n"
| "nodeData_run (Store DEFINITION offset src n) self = apx_nodeData_write_definition_data self offset src n"
| "nodeData_run (Store PROVIDE offset src n) self = apx_nodeData_write_provide_port_data self offset src n"
| "nodeData_run (Store REQUIRE offset src n) self = apx_nodeData_write_require_port_data self offset src n"
| "nodeData_run (Load DEFINITION offset dest n) self = (APX_NO_ERROR, self)"
| "nodeData_run (Load PROVIDE offset dest n) self = (fst (apx_nodeData_read_provide_port_data self offset dest n), self)"
| "nodeData_run (Load REQUIRE offset dest n) self = (fst (apx_nodeData_read_require_port_data self offset dest n), self)"
| "nodeData_run (Snapshot DEFINITION mem) self = (snapshot_result (apx_nodeData_take_definition_data_snapshot mem self), self)"
| "nodeData_run (Snapshot PROVIDE mem) self = (snapshot_result (apx_nodeData_take_provide_port_data_snapshot mem self), self)"
| "nodeData_run (Snapshot REQUIRE mem) self = (snapshot_result (apx_nodeData_take_require_port_data_snapshot mem self), self)"
| "nodeData_run (Checksum t bytes) self = (APX_NO_ERROR, apx_nodeData_set_checksum_data self t bytes)"

fun buffer_of :: "node_buffer \<Rightarrow> apx_nodeData \<Rightarrow> byte list option" where
  "buffer_of DEFINITION self = definition_data self"
| "buffer_of PROVIDE self = provide_port_data self"
| "buffer_of REQUIRE self = require_port_data self"

text \<open>
  What a caller owes: the source holds the bytes it announces, the memory to be filled has room for the bytes
  asked for, and a buffer is not created twice once memory is short.
\<close>

fun call_ok :: "nodeData_call \<Rightarrow> apx_nodeData \<Rightarrow> bool" where
  "call_ok (Create b mem k init_data n) self \<longleftrightarrow>
     (mem \<or> buffer_of b self = None) \<and> (\<forall>bytes. init_data = Some bytes \<longrightarrow> unat n \<le> length bytes)"
| "call_ok (Store b offset src n) self \<longleftrightarrow> unat n \<le> length src"
| "call_ok (Load b offset dest n) self \<longleftrightarrow> b \<noteq> DEFINITION \<and> unat n \<le> length dest"
| "call_ok (Snapshot b mem) self \<longleftrightarrow> True"
| "call_ok (Checksum t bytes) self \<longleftrightarrow> True"

inductive nodeData_reachable :: "apx_nodeData \<Rightarrow> bool" where
  fresh: "apx_nodeData_new (Some memory) = Some self \<Longrightarrow> nodeData_reachable self"
| lent: "nodeData_ok (apx_nodeData_create memory (Some b)) \<Longrightarrow>
    nodeData_reachable (apx_nodeData_create memory (Some b))"
| call: "nodeData_reachable self \<Longrightarrow> call_ok c self \<Longrightarrow> nodeData_reachable (snd (nodeData_run c self))"

lemmas nodeData_create_defs = apx_nodeData_create_definition_data_def
  apx_nodeData_create_provide_port_data_def apx_nodeData_create_require_port_data_def

lemmas nodeData_write_defs = apx_nodeData_write_definition_data_def
  apx_nodeData_write_provide_port_data_def apx_nodeData_write_require_port_data_def

lemma created_ok:
  assumes "nodeData_ok self" and "call_ok (Create b mem k init_data n) self"
  shows "nodeData_ok (snd (nodeData_run (Create b mem k init_data n) self)) \<and>
    \<not> is_fault (fst (nodeData_run (Create b mem k init_data n) self))"
proof -
  obtain bs where "initial_bytes init_data (unat n) = Some bs" "length bs = unat n"
    using initial_bytes_sized [of init_data "unat n"] assms(2) by auto
  with assms show ?thesis
    by (cases b) (auto simp: nodeData_create_defs nodeData_ok_def sized_def Let_def)
qed

lemma buffer_write_sized:
  assumes "sized data data_size" and "unat n \<le> length src"
  shows "sized (snd (buffer_write data data_size offset src n)) data_size"
    and "\<not> is_fault (fst (buffer_write data data_size offset src n))"
proof -
  consider "unat data_size < unat offset + unat n"
    | data' where "\<not> unat data_size < unat offset + unat n"
        "copy_in data (unat offset) src (unat n) = Some data'" "sized data' data_size"
    using copy_in_sized [OF assms, of "unat offset"] by fastforce
  then have "sized (snd (buffer_write data data_size offset src n)) data_size \<and>
      \<not> is_fault (fst (buffer_write data data_size offset src n))"
    by cases (use assms in \<open>simp_all add: buffer_write_def\<close>)
  then show "sized (snd (buffer_write data data_size offset src n)) data_size"
    and "\<not> is_fault (fst (buffer_write data data_size offset src n))" by blast+
qed

lemma stored_ok:
  assumes "nodeData_ok self" and "call_ok (Store b offset src n) self"
  shows "nodeData_ok (snd (nodeData_run (Store b offset src n) self)) \<and>
    \<not> is_fault (fst (nodeData_run (Store b offset src n) self))"
  using assms buffer_write_sized
  by (cases b) (simp_all add: nodeData_write_defs nodeData_ok_def split_beta)

lemma buffer_read_sized:
  assumes "sized data data_size" and "unat n \<le> length dest"
  shows "\<not> is_fault (fst (buffer_read data data_size offset dest n))"
proof (cases "unat offset + unat n > unat data_size")
  case False
  then obtain dest' where "copy_out data (unat offset) dest (unat n) = Some dest'"
    using copy_out_ok [OF assms] by (metis not_less)
  with False show ?thesis by (simp add: buffer_read_def)
qed (simp add: buffer_read_def)

lemma snapshot_sized: "sized data n \<Longrightarrow> snapshot mem data n \<noteq> None"
  by (auto simp: snapshot_def sized_def mem_read_def split: option.split)

lemma loaded_ok:
  assumes "nodeData_ok self"
  shows "call_ok (Load b offset dest n) self \<Longrightarrow> \<not> is_fault (fst (nodeData_run (Load b offset dest n) self))"
    and "\<not> is_fault (fst (nodeData_run (Snapshot b mem) self))"
    and "snd (nodeData_run (Load b offset dest n) self) = self" "snd (nodeData_run (Snapshot b mem) self) = self"
  using assms buffer_read_sized snapshot_sized
  by (cases b; simp add: nodeData_ok_def apx_nodeData_read_provide_port_data_def apx_nodeData_read_require_port_data_def
      apx_nodeData_take_definition_data_snapshot_def apx_nodeData_take_provide_port_data_snapshot_def
      apx_nodeData_take_require_port_data_snapshot_def snapshot_result_def)+

lemma nodeData_reachable_ok: "nodeData_reachable self \<Longrightarrow> nodeData_ok self"
proof (induction rule: nodeData_reachable.induct)
  case (fresh memory self)
  then show ?case
    by (auto simp: apx_nodeData_new_def apx_nodeData_create_def nodeData_ok_def sized_def)
next
  case (lent memory b)
  then show ?case .
next
  case (call self c)
  then show ?case
    using created_ok stored_ok
    by (cases c) (auto simp: loaded_ok(3,4) apx_nodeData_set_checksum_data_def nodeData_ok_def)
qed


definition demo_nodeData :: apx_nodeData where
  "demo_nodeData = \<lparr>definition_data = None, require_port_data = None, provide_port_data = None,
     definition_data_size = 0, require_port_data_size = 0, provide_port_data_size = 0,
     nd_num_require_ports = 0, nd_num_provide_ports = 0, require_port_connection_count = None,
     provide_port_connection_count = None, checksum_data = [], checksum_type = 0, is_weak_ref = False\<rparr>"

lemma demo_nodeData_fresh: "apx_nodeData_new (Some demo_nodeData) = Some (apx_nodeData_create demo_nodeData None)"
  by (simp add: apx_nodeData_new_def)


section \<open>What a write does\<close>

lemma provide_written:
  assumes "nodeData_ok self" and "provide_port_data self = Some bytes" and "unat n \<le> length src"
    and "unat offset + unat n \<le> length bytes"
  shows "apx_nodeData_write_provide_port_data self offset src n = (APX_NO_ERROR,
    self\<lparr>provide_port_data := Some (take (unat offset) bytes @ take (unat n) src @ drop (unat offset + unat n) bytes)\<rparr>)"
  using assms copy_in_sized [of "provide_port_data self" "provide_port_data_size self" "unat n" src "unat offset"]
  by (auto simp: apx_nodeData_write_provide_port_data_def buffer_write_def nodeData_ok_def sized_def)

lemma require_written:
  assumes "nodeData_ok self" and "require_port_data self = Some bytes" and "unat n \<le> length src"
    and "unat offset + unat n \<le> length bytes"
  shows "apx_nodeData_write_require_port_data self offset src n = (APX_NO_ERROR,
    self\<lparr>require_port_data := Some (take (unat offset) bytes @ take (unat n) src @ drop (unat offset + unat n) bytes)\<rparr>)"
  using assms copy_in_sized [of "require_port_data self" "require_port_data_size self" "unat n" src "unat offset"]
  by (auto simp: apx_nodeData_write_require_port_data_def buffer_write_def nodeData_ok_def sized_def)

lemma provide_read:
  assumes "nodeData_ok self" and "provide_port_data self = Some bytes" and "unat n \<le> length dest"
    and "unat offset + unat n \<le> length bytes"
  shows "apx_nodeData_read_provide_port_data self offset dest n =
    (APX_NO_ERROR, take (unat n) (drop (unat offset) bytes) @ drop (unat n) dest)"
  using assms copy_out_sized [of bytes "provide_port_data_size self" "unat n" dest "unat offset"]
  by (auto simp: apx_nodeData_read_provide_port_data_def buffer_read_def nodeData_ok_def sized_def)

lemma require_read:
  assumes "nodeData_ok self" and "require_port_data self = Some bytes" and "unat n \<le> length dest"
    and "unat offset + unat n \<le> length bytes"
  shows "apx_nodeData_read_require_port_data self offset dest n =
    (APX_NO_ERROR, take (unat n) (drop (unat offset) bytes) @ drop (unat n) dest)"
  using assms copy_out_sized [of bytes "require_port_data_size self" "unat n" dest "unat offset"]
  by (auto simp: apx_nodeData_read_require_port_data_def buffer_read_def nodeData_ok_def sized_def)

end
