(* ===== verification/PortConnector.thy ===== *)
theory PortConnector
  imports Libs
begin

text \<open>
  What changes on the connections of ports: apx/src/port_connector_change_entry.c,
  apx/src/port_connector_change_table.c and apx/src/port_connector_list.c.

  A port instance lives in the array of provide ports or of require ports of its node, and
  \<open>apx_nodeInstance_create_provide_port\<close> (and its sibling) stores in it its node, its side and its
  position. A pointer to a port is these three: reading the fields \<open>parent\<close>, \<open>port_type\<close> and
  \<open>port_id\<close> through the pointer gives them back. Port identifiers are positions, natural numbers
  here; the entry's counter is an \<open>int32_t\<close> that counts pointers held in memory and cannot reach
  its bounds.

  The dynamic array (adt_ary) is not in the repository: pushing, removing and making an array are
  parameters, whose documented behaviour is a predicate.
\<close>

section \<open>Pointers and arrays\<close>

datatype apx_portType = APX_REQUIRE_PORT | APX_PROVIDE_PORT

datatype port_ptr = PORT (apx_portInstance_parent: nat) (apx_portInstance_port_type: apx_portType)
  (apx_portInstance_port_id: nat)

record array_lib =
  ary_new :: "port_ptr list option"
  ary_push :: "port_ptr list \<Rightarrow> port_ptr \<Rightarrow> adt_error \<times> port_ptr list"
  ary_remove :: "port_ptr list \<Rightarrow> port_ptr \<Rightarrow> port_ptr list"
  ports_insert :: "port_ptr list \<Rightarrow> port_ptr \<Rightarrow> port_ptr list"
  ports_remove :: "port_ptr list \<Rightarrow> port_ptr \<Rightarrow> port_ptr list"
  nodes_push_unique :: "nat list \<Rightarrow> nat \<Rightarrow> adt_error \<times> nat list"

text \<open>
  A new array is empty, a push appends, a removal takes out the first occurrence, an insertion into
  a linked list (adt_list) appends; memory suffices.
\<close>

definition arrays_documented :: "array_lib \<Rightarrow> bool" where
  "arrays_documented L \<longleftrightarrow>
     ary_new L = Some [] \<and>
     (\<forall>xs x. ary_push L xs x = (ADT_NO_ERROR, xs @ [x]) \<and> ary_remove L xs x = remove1 x xs \<and>
        ports_insert L xs x = xs @ [x] \<and> ports_remove L xs x = remove1 x xs) \<and>
     (\<forall>ns n. nodes_push_unique L ns n = (ADT_NO_ERROR, if n \<in> set ns then ns else ns @ [n]))"

definition arrays_ref :: array_lib where
  "arrays_ref = \<lparr>ary_new = Some [], ary_push = (\<lambda>xs x. (ADT_NO_ERROR, xs @ [x])),
     ary_remove = (\<lambda>xs x. remove1 x xs), ports_insert = (\<lambda>xs x. xs @ [x]),
     ports_remove = (\<lambda>xs x. remove1 x xs),
     nodes_push_unique = (\<lambda>ns n. (ADT_NO_ERROR, if n \<in> set ns then ns else ns @ [n]))\<rparr>"

lemma arrays_ref_documented: "arrays_documented arrays_ref"
  by (simp add: arrays_documented_def arrays_ref_def)

lemma array_ops:
  assumes "arrays_documented L"
  shows "ary_new L = Some []" "ary_push L xs x = (ADT_NO_ERROR, xs @ [x])"
    "ary_remove L xs x = remove1 x xs" "ports_insert L xs x = xs @ [x]" "ports_remove L xs x = remove1 x xs"
    "nodes_push_unique L ns n = (ADT_NO_ERROR, if n \<in> set ns then ns else ns @ [n])"
  using assms by (simp_all add: arrays_documented_def)

section \<open>Change entries\<close>

text \<open>
  The union \<open>data\<close> holds a port pointer, which may be null, or an array. Reading the other member
  than the one last stored yields no port and no array, except that a null array is a null pointer.
\<close>

datatype portref_union = PORT_INSTANCE "port_ptr option" | ARRAY "port_ptr list"

record apx_portConnectorChangeEntry =
  changes :: int
  change_data :: portref_union

definition apx_portConnectorChangeEntry_create :: apx_portConnectorChangeEntry where
  "apx_portConnectorChangeEntry_create = \<lparr>changes = 0, change_data = PORT_INSTANCE None\<rparr>"

text \<open>
  The single entry becomes an array of two. The member \<open>array\<close> is assigned before the result is
  tested, so a failing allocation overwrites the port of the entry with null.
\<close>

definition to_array ::
  "array_lib \<Rightarrow> apx_portConnectorChangeEntry \<Rightarrow> port_ptr \<Rightarrow> apx_error \<times> apx_portConnectorChangeEntry" where
  "to_array L self port_instance =
     (case change_data self of
        PORT_INSTANCE (Some tmp) \<Rightarrow>
          (case ary_new L of
             None \<Rightarrow> (APX_MEM_ERROR, self\<lparr>change_data := PORT_INSTANCE None\<rparr>)
           | Some array \<Rightarrow>
               (case ary_push L array tmp of (rc, array) \<Rightarrow>
                  let retval = convert_from_adt_to_apx_error rc in
                  if retval = APX_NO_ERROR then
                    (case ary_push L array port_instance of
                       (rc, array) \<Rightarrow> (convert_from_adt_to_apx_error rc, self\<lparr>change_data := ARRAY array\<rparr>))
                  else (retval, self\<lparr>change_data := ARRAY array\<rparr>)))
      | _ \<Rightarrow> (FAULT OUT_OF_BOUNDS, self))"

definition push_change ::
  "array_lib \<Rightarrow> apx_portConnectorChangeEntry \<Rightarrow> port_ptr \<Rightarrow> apx_error \<times> apx_portConnectorChangeEntry" where
  "push_change L self port_instance =
     (case change_data self of
        ARRAY array \<Rightarrow>
          (case ary_push L array port_instance of
             (rc, array) \<Rightarrow> (convert_from_adt_to_apx_error rc, self\<lparr>change_data := ARRAY array\<rparr>))
      | _ \<Rightarrow> (FAULT OUT_OF_BOUNDS, self))"

definition apx_portConnectorChangeEntry_add_connection ::
  "array_lib \<Rightarrow> apx_portConnectorChangeEntry \<Rightarrow> port_ptr \<Rightarrow> apx_error \<times> apx_portConnectorChangeEntry" where
  "apx_portConnectorChangeEntry_add_connection L self port_instance =
     (let (retval, self) =
        (if changes self < 0 then (APX_UNSUPPORTED_ERROR, self)
         else if changes self = 0 then (APX_NO_ERROR, self\<lparr>change_data := PORT_INSTANCE (Some port_instance)\<rparr>)
         else if changes self = 1 then to_array L self port_instance
         else push_change L self port_instance)
      in if retval = APX_NO_ERROR then (retval, self\<lparr>changes := changes self + 1\<rparr>) else (retval, self))"

definition apx_portConnectorChangeEntry_remove_connection ::
  "array_lib \<Rightarrow> apx_portConnectorChangeEntry \<Rightarrow> port_ptr \<Rightarrow> apx_error \<times> apx_portConnectorChangeEntry" where
  "apx_portConnectorChangeEntry_remove_connection L self port_instance =
     (let (retval, self) =
        (if changes self > 0 then (APX_UNSUPPORTED_ERROR, self)
         else if changes self = 0 then (APX_NO_ERROR, self\<lparr>change_data := PORT_INSTANCE (Some port_instance)\<rparr>)
         else if changes self = -1 then to_array L self port_instance
         else push_change L self port_instance)
      in if retval = APX_NO_ERROR then (retval, self\<lparr>changes := changes self - 1\<rparr>) else (retval, self))"

text \<open>\<open>None\<close> outside if the union does not hold the member that the counter announces.\<close>

definition apx_portConnectorChangeEntry_get :: "apx_portConnectorChangeEntry \<Rightarrow> int \<Rightarrow> port_ptr option option" where
  "apx_portConnectorChangeEntry_get self i =
     (if changes self \<noteq> 0 \<and> 0 \<le> i then
        (if changes self = 1 \<or> changes self = -1 then
           (if i = 0 then (case change_data self of PORT_INSTANCE p \<Rightarrow> Some p | ARRAY _ \<Rightarrow> None) else Some None)
         else if changes self < 0 \<and> i < - changes self \<or> changes self > 0 \<and> i < changes self then
           (case change_data self of
              ARRAY array \<Rightarrow> Some (if nat i < length array then Some (array ! nat i) else None)
            | PORT_INSTANCE _ \<Rightarrow> None)
         else Some None)
      else Some None)"

definition apx_portConnectorChangeEntry_count :: "apx_portConnectorChangeEntry \<Rightarrow> int" where
  "apx_portConnectorChangeEntry_count self = changes self"

section \<open>What an entry means\<close>

text \<open>
  The abstract entry: ports that were connected, or ports that were disconnected, in order. The
  union holds the member that the counter announces.
\<close>

definition entry_ok :: "apx_portConnectorChangeEntry \<Rightarrow> bool" where
  "entry_ok self \<longleftrightarrow>
     (if changes self = 0 then True
      else if changes self = 1 \<or> changes self = -1 then (\<exists>p. change_data self = PORT_INSTANCE (Some p))
      else (\<exists>ps. change_data self = ARRAY ps \<and> int (length ps) = \<bar>changes self\<bar>))"

definition entry_ports :: "apx_portConnectorChangeEntry \<Rightarrow> port_ptr list" where
  "entry_ports self =
     (if changes self = 0 then []
      else case change_data self of PORT_INSTANCE None \<Rightarrow> [] | PORT_INSTANCE (Some p) \<Rightarrow> [p] | ARRAY ps \<Rightarrow> ps)"

datatype change_set = Unchanged | Connected "port_ptr list" | Disconnected "port_ptr list"

definition entry_abs :: "apx_portConnectorChangeEntry \<Rightarrow> change_set" where
  "entry_abs self =
     (if changes self = 0 then Unchanged
      else if 0 < changes self then Connected (entry_ports self) else Disconnected (entry_ports self))"

fun connect :: "change_set \<Rightarrow> port_ptr \<Rightarrow> change_set option" where
  "connect Unchanged p = Some (Connected [p])"
| "connect (Connected ps) p = Some (Connected (ps @ [p]))"
| "connect (Disconnected ps) p = None"

fun disconnect :: "change_set \<Rightarrow> port_ptr \<Rightarrow> change_set option" where
  "disconnect Unchanged p = Some (Disconnected [p])"
| "disconnect (Disconnected ps) p = Some (Disconnected (ps @ [p]))"
| "disconnect (Connected ps) p = None"

fun listed :: "change_set \<Rightarrow> port_ptr list" where
  "listed Unchanged = []" | "listed (Connected ps) = ps" | "listed (Disconnected ps) = ps"

lemma entry_ports_length: "entry_ok self \<Longrightarrow> int (length (entry_ports self)) = \<bar>changes self\<bar>"
  by (auto simp: entry_ok_def entry_ports_def split: if_splits)

lemma created_entry [simp]:
  "entry_ok apx_portConnectorChangeEntry_create" "changes apx_portConnectorChangeEntry_create = 0"
  "entry_abs apx_portConnectorChangeEntry_create = Unchanged"
  by (simp_all add: apx_portConnectorChangeEntry_create_def entry_ok_def entry_abs_def)

lemma add_connection_cases:
  assumes "arrays_documented L" and "entry_ok self"
  shows "changes self < 0 \<Longrightarrow> apx_portConnectorChangeEntry_add_connection L self p = (APX_UNSUPPORTED_ERROR, self)"
    and "\<not> changes self < 0 \<Longrightarrow> \<exists>self'. apx_portConnectorChangeEntry_add_connection L self p = (APX_NO_ERROR, self') \<and>
      entry_ok self' \<and> changes self' = changes self + 1 \<and> entry_ports self' = entry_ports self @ [p]"
proof -
  show "apx_portConnectorChangeEntry_add_connection L self p = (APX_UNSUPPORTED_ERROR, self)" if "changes self < 0"
    using that by (simp add: apx_portConnectorChangeEntry_add_connection_def)
  assume "\<not> changes self < 0"
  then consider "changes self = 0" | "changes self = 1" | "changes self > 1" by linarith
  then show "\<exists>self'. apx_portConnectorChangeEntry_add_connection L self p = (APX_NO_ERROR, self') \<and>
      entry_ok self' \<and> changes self' = changes self + 1 \<and> entry_ports self' = entry_ports self @ [p]"
  proof cases
    case 1
    then show ?thesis
      by (simp add: apx_portConnectorChangeEntry_add_connection_def entry_ok_def entry_ports_def)
  next
    case 2
    then obtain q where "change_data self = PORT_INSTANCE (Some q)" using assms(2) by (auto simp: entry_ok_def)
    with 2 show ?thesis
      by (simp add: apx_portConnectorChangeEntry_add_connection_def to_array_def array_ops [OF assms(1)]
          entry_ok_def entry_ports_def)
  next
    case 3
    then obtain qs where "change_data self = ARRAY qs" "int (length qs) = \<bar>changes self\<bar>"
      using assms(2) by (auto simp: entry_ok_def split: if_splits)
    with 3 show ?thesis
      by (simp add: apx_portConnectorChangeEntry_add_connection_def push_change_def array_ops [OF assms(1)]
          entry_ok_def entry_ports_def)
  qed
qed

lemma remove_connection_cases:
  assumes "arrays_documented L" and "entry_ok self"
  shows "changes self > 0 \<Longrightarrow> apx_portConnectorChangeEntry_remove_connection L self p = (APX_UNSUPPORTED_ERROR, self)"
    and "\<not> changes self > 0 \<Longrightarrow> \<exists>self'. apx_portConnectorChangeEntry_remove_connection L self p = (APX_NO_ERROR, self') \<and>
      entry_ok self' \<and> changes self' = changes self - 1 \<and> entry_ports self' = entry_ports self @ [p]"
proof -
  show "apx_portConnectorChangeEntry_remove_connection L self p = (APX_UNSUPPORTED_ERROR, self)" if "changes self > 0"
    using that by (simp add: apx_portConnectorChangeEntry_remove_connection_def)
  assume "\<not> changes self > 0"
  then consider "changes self = 0" | "changes self = -1" | "changes self < -1" by linarith
  then show "\<exists>self'. apx_portConnectorChangeEntry_remove_connection L self p = (APX_NO_ERROR, self') \<and>
      entry_ok self' \<and> changes self' = changes self - 1 \<and> entry_ports self' = entry_ports self @ [p]"
  proof cases
    case 1
    then show ?thesis
      by (simp add: apx_portConnectorChangeEntry_remove_connection_def entry_ok_def entry_ports_def)
  next
    case 2
    then obtain q where "change_data self = PORT_INSTANCE (Some q)" using assms(2) by (auto simp: entry_ok_def)
    with 2 show ?thesis
      by (simp add: apx_portConnectorChangeEntry_remove_connection_def to_array_def array_ops [OF assms(1)]
          entry_ok_def entry_ports_def)
  next
    case 3
    then obtain qs where "change_data self = ARRAY qs" "int (length qs) = \<bar>changes self\<bar>"
      using assms(2) by (auto simp: entry_ok_def split: if_splits)
    with 3 show ?thesis
      by (simp add: apx_portConnectorChangeEntry_remove_connection_def push_change_def array_ops [OF assms(1)]
          entry_ok_def entry_ports_def)
  qed
qed

lemma add_connection_refines:
  assumes "arrays_documented L" and "entry_ok self"
  shows "case connect (entry_abs self) p of
      None \<Rightarrow> apx_portConnectorChangeEntry_add_connection L self p = (APX_UNSUPPORTED_ERROR, self)
    | Some c \<Rightarrow> \<exists>self'. apx_portConnectorChangeEntry_add_connection L self p = (APX_NO_ERROR, self') \<and>
        entry_ok self' \<and> entry_abs self' = c"
proof -
  consider (neg) "changes self < 0" | (zero) "changes self = 0" "entry_ports self = []" | (pos) "changes self > 0"
    by (cases "changes self < 0"; cases "changes self = 0") (auto simp: entry_ports_def)
  then show ?thesis
  proof cases
    case neg
    then show ?thesis using add_connection_cases(1) [OF assms] by (simp add: entry_abs_def)
  next
    case zero
    then show ?thesis using add_connection_cases(2) [OF assms, of p] by (auto simp: entry_abs_def)
  next
    case pos
    then show ?thesis using add_connection_cases(2) [OF assms, of p] by (auto simp: entry_abs_def)
  qed
qed

lemma remove_connection_refines:
  assumes "arrays_documented L" and "entry_ok self"
  shows "case disconnect (entry_abs self) p of
      None \<Rightarrow> apx_portConnectorChangeEntry_remove_connection L self p = (APX_UNSUPPORTED_ERROR, self)
    | Some c \<Rightarrow> \<exists>self'. apx_portConnectorChangeEntry_remove_connection L self p = (APX_NO_ERROR, self') \<and>
        entry_ok self' \<and> entry_abs self' = c"
proof -
  consider (neg) "changes self < 0" | (zero) "changes self = 0" "entry_ports self = []" | (pos) "changes self > 0"
    by (cases "changes self < 0"; cases "changes self = 0") (auto simp: entry_ports_def)
  then show ?thesis
  proof cases
    case pos
    then show ?thesis using remove_connection_cases(1) [OF assms] by (simp add: entry_abs_def)
  next
    case zero
    then obtain self' where r: "apx_portConnectorChangeEntry_remove_connection L self p = (APX_NO_ERROR, self')"
      "entry_ok self'" "changes self' = -1" "entry_ports self' = [p]"
      using remove_connection_cases(2) [OF assms, of p] by auto
    have "entry_abs self' = Disconnected [p]" "entry_abs self = Unchanged"
      using r zero by (simp_all add: entry_abs_def)
    with r show ?thesis by simp
  next
    case neg
    then obtain self' where r: "apx_portConnectorChangeEntry_remove_connection L self p = (APX_NO_ERROR, self')"
      "entry_ok self'" "changes self' = changes self - 1" "entry_ports self' = entry_ports self @ [p]"
      using remove_connection_cases(2) [OF assms, of p] by auto
    have "entry_abs self' = Disconnected (entry_ports self @ [p])" "entry_abs self = Disconnected (entry_ports self)"
      using r neg by (simp_all add: entry_abs_def)
    with r show ?thesis by simp
  qed
qed

lemma listed_ports: "listed (entry_abs self) = entry_ports self"
  by (simp add: entry_abs_def) (simp add: entry_ports_def)

text \<open> C26:
  A change entry implements a set of connections, or one of disconnections, in the order they came:
  adding a connection refines \<open>connect\<close>, adding a disconnection refines \<open>disconnect\<close>, an
  entry refuses the kind it does not hold with an unsupported error and stays as it is, and
  \<open>get\<close> and \<open>count\<close> enumerate exactly the listed ports.
\<close>

theorem change_entry_refines:
  assumes "arrays_documented L" and "entry_ok self"
  shows "(case connect (entry_abs self) p of
      None \<Rightarrow> apx_portConnectorChangeEntry_add_connection L self p = (APX_UNSUPPORTED_ERROR, self)
    | Some c \<Rightarrow> \<exists>self'. apx_portConnectorChangeEntry_add_connection L self p = (APX_NO_ERROR, self') \<and>
        entry_ok self' \<and> entry_abs self' = c) \<and>
    (case disconnect (entry_abs self) p of
      None \<Rightarrow> apx_portConnectorChangeEntry_remove_connection L self p = (APX_UNSUPPORTED_ERROR, self)
    | Some c \<Rightarrow> \<exists>self'. apx_portConnectorChangeEntry_remove_connection L self p = (APX_NO_ERROR, self') \<and>
        entry_ok self' \<and> entry_abs self' = c) \<and>
    \<bar>apx_portConnectorChangeEntry_count self\<bar> = int (length (listed (entry_abs self))) \<and>
    (\<forall>i. apx_portConnectorChangeEntry_get self i = Some
       (if 0 \<le> i \<and> i < int (length (listed (entry_abs self))) then Some (listed (entry_abs self) ! nat i) else None))"
proof (intro conjI add_connection_refines remove_connection_refines assms)
  show "\<bar>apx_portConnectorChangeEntry_count self\<bar> = int (length (listed (entry_abs self)))"
    by (simp add: listed_ports apx_portConnectorChangeEntry_count_def entry_ports_length [OF assms(2)])
  show "\<forall>i. apx_portConnectorChangeEntry_get self i = Some
       (if 0 \<le> i \<and> i < int (length (listed (entry_abs self))) then Some (listed (entry_abs self) ! nat i) else None)"
    using assms(2) unfolding listed_ports
    by (auto simp: apx_portConnectorChangeEntry_get_def entry_ok_def entry_ports_def split: if_splits)
qed

definition demo_port :: "nat \<Rightarrow> port_ptr" where
  "demo_port n = PORT n APX_REQUIRE_PORT 0"

definition demo_entry :: apx_portConnectorChangeEntry where
  "demo_entry = \<lparr>changes = 2, change_data = ARRAY [demo_port 0, demo_port 1]\<rparr>"

lemma demo_entry_facts: "entry_ok demo_entry" "entry_abs demo_entry = Connected [demo_port 0, demo_port 1]"
  by (simp_all add: demo_entry_def entry_ok_def entry_abs_def entry_ports_def)

theorem change_entry_refines_witness:
  "(\<exists>e'. apx_portConnectorChangeEntry_add_connection arrays_ref demo_entry (demo_port 2) = (APX_NO_ERROR, e') \<and>
      entry_abs e' = Connected [demo_port 0, demo_port 1, demo_port 2]) \<and>
   apx_portConnectorChangeEntry_remove_connection arrays_ref demo_entry (demo_port 2) = (APX_UNSUPPORTED_ERROR, demo_entry)"
  using change_entry_refines [OF arrays_ref_documented demo_entry_facts(1), of "demo_port 2"]
  by (auto simp: demo_entry_facts(2))

section \<open>Change tables\<close>

type_synonym change_table = "apx_portConnectorChangeEntry list"

text \<open>One entry per port; the number of ports is the length of the table.\<close>

definition apx_portConnectorChangeTable_create :: "bool \<Rightarrow> nat \<Rightarrow> apx_error \<times> change_table" where
  "apx_portConnectorChangeTable_create mem num_ports =
     (if 0 < num_ports then
        (if mem then (APX_NO_ERROR, replicate num_ports apx_portConnectorChangeEntry_create) else (APX_MEM_ERROR, []))
      else (APX_INVALID_ARGUMENT_ERROR, []))"

definition apx_portConnectorChangeTable_new :: "bool \<Rightarrow> nat \<Rightarrow> change_table option" where
  "apx_portConnectorChangeTable_new mem num_ports =
     (if mem then
        (case apx_portConnectorChangeTable_create mem num_ports of
           (errorCode, self) \<Rightarrow> if errorCode \<noteq> APX_NO_ERROR then None else Some self)
      else None)"

definition apx_portConnectorChangeTable_connect ::
  "array_lib \<Rightarrow> change_table \<Rightarrow> port_ptr \<Rightarrow> port_ptr \<Rightarrow> apx_error \<times> change_table" where
  "apx_portConnectorChangeTable_connect L self local_port remote_port =
     (let port_id = apx_portInstance_port_id local_port in
      if port_id < length self then
        (case apx_portConnectorChangeEntry_add_connection L (self ! port_id) remote_port of
           (rc, e) \<Rightarrow> (rc, self[port_id := e]))
      else (APX_INVALID_ARGUMENT_ERROR, self))"

definition apx_portConnectorChangeTable_disconnect ::
  "array_lib \<Rightarrow> change_table \<Rightarrow> port_ptr \<Rightarrow> port_ptr \<Rightarrow> apx_error \<times> change_table" where
  "apx_portConnectorChangeTable_disconnect L self local_port remote_port =
     (let port_id = apx_portInstance_port_id local_port in
      if port_id < length self then
        (case apx_portConnectorChangeEntry_remove_connection L (self ! port_id) remote_port of
           (rc, e) \<Rightarrow> (rc, self[port_id := e]))
      else (APX_INVALID_ARGUMENT_ERROR, self))"

definition apx_portConnectorChangeTable_get_entry :: "change_table \<Rightarrow> nat \<Rightarrow> apx_portConnectorChangeEntry option" where
  "apx_portConnectorChangeTable_get_entry self port_id =
     (if port_id < length self then Some (self ! port_id) else None)"

definition apx_portConnectorChangeTable_get_port :: "change_table \<Rightarrow> nat \<Rightarrow> int \<Rightarrow> port_ptr option option" where
  "apx_portConnectorChangeTable_get_port self port_id i =
     (if port_id < length self then apx_portConnectorChangeEntry_get (self ! port_id) i else Some None)"

definition apx_portConnectorChangeTable_count :: "change_table \<Rightarrow> nat \<Rightarrow> int" where
  "apx_portConnectorChangeTable_count self port_id =
     (if port_id < length self then apx_portConnectorChangeEntry_count (self ! port_id) else -1)"

section \<open>Connector lists\<close>

text \<open>The require ports that get the data of a provide port. No call reads at a negative index.\<close>

type_synonym connector_list = "port_ptr list"

definition apx_portConnectorList_insert ::
  "array_lib \<Rightarrow> connector_list \<Rightarrow> port_ptr \<Rightarrow> apx_error \<times> connector_list" where
  "apx_portConnectorList_insert L self port_instance =
     (case ary_push L self port_instance of
        (rc, self) \<Rightarrow>
          (if rc \<noteq> ADT_NO_ERROR then (if rc = ADT_MEM_ERROR then APX_MEM_ERROR else APX_GENERIC_ERROR)
           else APX_NO_ERROR, self))"

definition apx_portConnectorList_remove :: "array_lib \<Rightarrow> connector_list \<Rightarrow> port_ptr \<Rightarrow> connector_list" where
  "apx_portConnectorList_remove L self port_instance = ary_remove L self port_instance"

definition apx_portConnectorList_clear :: "connector_list \<Rightarrow> connector_list" where
  "apx_portConnectorList_clear self = []"

definition apx_portConnectorList_length :: "connector_list \<Rightarrow> int" where
  "apx_portConnectorList_length self = int (length self)"

definition apx_portConnectorList_get :: "connector_list \<Rightarrow> int \<Rightarrow> port_ptr option" where
  "apx_portConnectorList_get self i = (if 0 \<le> i \<and> nat i < length self then Some (self ! nat i) else None)"

end
