(* ===== verification/FileReceiver.thy ===== *)
theory FileReceiver
  imports RemoteFile
begin

text \<open>
  Reassembling the fragments of a message, apx/src/file_manager_receiver.c. A fragment carries its
  address, its bytes and the more bit; the receiver collects contiguous fragments in one buffer until
  one comes without the bit, and then hands out the whole with the address of the first. The
  memory malloc returns is a parameter: its bytes, or \<open>None\<close>.
\<close>

section \<open>State and operations\<close>

abbreviation (input) APX_MAX_FILE_SIZE :: u32 where "APX_MAX_FILE_SIZE \<equiv> 0x1000000"
abbreviation (input) RMF_CMD_AREA_SIZE :: u32 where "RMF_CMD_AREA_SIZE \<equiv> 1024"

record apx_fileManagerReceiver =
  rx_buf_data :: "byte list option"
  rx_buf_size :: u32
  rx_buf_pos :: u32
  rx_start_address :: u32

record apx_fileManagerReceptionResult =
  is_complete :: bool
  rr_address :: u32
  rr_data :: "byte list option"
  rr_size :: u32

definition apx_fileManagerReceiver_reset :: "apx_fileManagerReceiver \<Rightarrow> apx_fileManagerReceiver" where
  "apx_fileManagerReceiver_reset self = self\<lparr>rx_buf_pos := 0, rx_start_address := RMF_INVALID_ADDRESS\<rparr>"

definition apx_fileManagerReceiver_reserve ::
  "(nat \<Rightarrow> byte list option) \<Rightarrow> apx_fileManagerReceiver \<Rightarrow> u32 \<Rightarrow> apx_error \<times> apx_fileManagerReceiver" where
  "apx_fileManagerReceiver_reserve malloc self n =
     (if 0 < n then
        (if n > APX_MAX_FILE_SIZE then (APX_FILE_TOO_LARGE_ERROR, self)
         else if n > rx_buf_size self then
           (let self = self\<lparr>rx_buf_data := malloc (unat n)\<rparr> in
            if rx_buf_data self = None then (APX_MEM_ERROR, self)
            else (APX_NO_ERROR, self\<lparr>rx_buf_size := n\<rparr>))
         else (APX_NO_ERROR, self))
      else (APX_INVALID_ARGUMENT_ERROR, self))"

definition apx_fileManagerReceiver_create ::
  "(nat \<Rightarrow> byte list option) \<Rightarrow> apx_error \<times> apx_fileManagerReceiver" where
  "apx_fileManagerReceiver_create malloc =
     apx_fileManagerReceiver_reserve malloc
       \<lparr>rx_buf_data = None, rx_buf_size = 0, rx_buf_pos = 0, rx_start_address = RMF_INVALID_ADDRESS\<rparr>
       RMF_CMD_AREA_SIZE"

definition process_more_bit ::
  "apx_fileManagerReceiver \<Rightarrow> apx_fileManagerReceptionResult \<Rightarrow> bool \<Rightarrow>
     apx_fileManagerReceiver \<times> apx_fileManagerReceptionResult" where
  "process_more_bit self result more_bit =
     (if \<not> more_bit then
        (apx_fileManagerReceiver_reset self,
         \<lparr>is_complete = True, rr_address = rx_start_address self, rr_data = rx_buf_data self,
          rr_size = rx_buf_pos self\<rparr>)
      else (self, result))"

text \<open>\<open>memcpy(buf_data + offset, data, n)\<close>.\<close>

definition store_fragment :: "apx_fileManagerReceiver \<Rightarrow> nat \<Rightarrow> byte list \<Rightarrow> nat \<Rightarrow> apx_fileManagerReceiver option" where
  "store_fragment self offset data n =
     (case rx_buf_data self of
        None \<Rightarrow> None
      | Some buf \<Rightarrow>
          (case mem_read 0 n data of
             None \<Rightarrow> None
           | Some bs \<Rightarrow> map_option (\<lambda>buf. self\<lparr>rx_buf_data := Some buf\<rparr>) (mem_write offset bs buf)))"

definition start_new_reception ::
  "apx_fileManagerReceiver \<Rightarrow> apx_fileManagerReceptionResult \<Rightarrow> u32 \<Rightarrow> byte list \<Rightarrow> u32 \<Rightarrow> bool \<Rightarrow>
     apx_error \<times> apx_fileManagerReceiver \<times> apx_fileManagerReceptionResult" where
  "start_new_reception self result address data n more_bit =
     (if rx_buf_size self = 0 \<or> rx_buf_data self = None then (APX_MISSING_BUFFER_ERROR, self, result)
      else if n > rx_buf_size self then (APX_BUFFER_FULL_ERROR, self, result)
      else
        (case (if n > 0 then map_option (\<lambda>self. self\<lparr>rx_buf_pos := n\<rparr>) (store_fragment self 0 data (unat n))
               else Some self) of
           None \<Rightarrow> (FAULT OUT_OF_BOUNDS, self, result)
         | Some self \<Rightarrow> (APX_NO_ERROR, process_more_bit (self\<lparr>rx_start_address := address\<rparr>) result more_bit)))"

definition continue_reception ::
  "apx_fileManagerReceiver \<Rightarrow> apx_fileManagerReceptionResult \<Rightarrow> u32 \<Rightarrow> byte list \<Rightarrow> u32 \<Rightarrow> bool \<Rightarrow>
     apx_error \<times> apx_fileManagerReceiver \<times> apx_fileManagerReceptionResult" where
  "continue_reception self result address data n more_bit =
     (if rx_start_address self + rx_buf_pos self \<noteq> address then (APX_INVALID_ADDRESS_ERROR, self, result)
      else if rx_buf_size self = 0 \<or> rx_buf_data self = None then (APX_MISSING_BUFFER_ERROR, self, result)
      else if rx_buf_pos self + n > rx_buf_size self then (APX_BUFFER_FULL_ERROR, self, result)
      else
        (case (if n > 0 then map_option (\<lambda>self. self\<lparr>rx_buf_pos := rx_buf_pos self + n\<rparr>)
                               (store_fragment self (unat (rx_buf_pos self)) data (unat n))
               else Some self) of
           None \<Rightarrow> (FAULT OUT_OF_BOUNDS, self, result)
         | Some self \<Rightarrow> (APX_NO_ERROR, process_more_bit self result more_bit)))"

definition no_result :: apx_fileManagerReceptionResult where
  "no_result = \<lparr>is_complete = False, rr_address = RMF_INVALID_ADDRESS, rr_data = None, rr_size = 0\<rparr>"

definition apx_fileManagerReceiver_write ::
  "apx_fileManagerReceiver \<Rightarrow> apx_fileManagerReceptionResult \<Rightarrow> u32 \<Rightarrow> byte list \<Rightarrow> u32 \<Rightarrow> bool \<Rightarrow>
     apx_error \<times> apx_fileManagerReceiver \<times> apx_fileManagerReceptionResult" where
  "apx_fileManagerReceiver_write self result address data n more_bit =
     (if address < RMF_INVALID_ADDRESS then
        (if n > APX_MAX_FILE_SIZE then (APX_FILE_TOO_LARGE_ERROR, self, result)
         else if rx_start_address self = RMF_INVALID_ADDRESS
           then start_new_reception self no_result address data n more_bit
         else continue_reception self no_result address data n more_bit)
      else (APX_INVALID_ARGUMENT_ERROR, self, result))"

section \<open>Invariant\<close>

definition receiver_ok :: "apx_fileManagerReceiver \<Rightarrow> bool" where
  "receiver_ok self \<longleftrightarrow>
     (\<forall>buf. rx_buf_data self = Some buf \<longrightarrow> length buf = unat (rx_buf_size self)) \<and>
     rx_buf_size self \<le> APX_MAX_FILE_SIZE \<and> rx_buf_pos self \<le> rx_buf_size self \<and>
     (rx_start_address self = RMF_INVALID_ADDRESS \<longrightarrow> rx_buf_pos self = 0)"

definition reserves :: "(nat \<Rightarrow> byte list option) \<Rightarrow> bool" where
  "reserves malloc \<longleftrightarrow> (\<forall>n buf. malloc n = Some buf \<longrightarrow> length buf = n)"

lemma small_sum:
  fixes a b c :: u32
  assumes "a \<le> c" and "b \<le> APX_MAX_FILE_SIZE" and "c \<le> APX_MAX_FILE_SIZE"
  shows "unat (a + b) = unat a + unat b"
proof -
  have "unat a \<le> 0x1000000" "unat b \<le> 0x1000000"
    using assms by (auto simp: word_le_nat_alt)
  then show ?thesis by (simp add: unat_word_ariths)
qed

lemma store_fragment_ok:
  assumes "rx_buf_data self = Some buf" and "n \<le> length data" and "offset + n \<le> length buf"
  shows "store_fragment self offset data n =
    Some (self\<lparr>rx_buf_data := Some (take offset buf @ take n data @ drop (offset + n) buf)\<rparr>)"
  using assms by (simp add: store_fragment_def mem_read_def mem_write_def)

lemma process_more_bit_ok: "receiver_ok self \<Longrightarrow> receiver_ok (fst (process_more_bit self result more_bit))"
  by (simp add: process_more_bit_def receiver_ok_def apx_fileManagerReceiver_reset_def)

lemma start_ok:
  assumes "receiver_ok self" and "unat n \<le> length data" and "address \<noteq> RMF_INVALID_ADDRESS"
  shows "receiver_ok (fst (snd (start_new_reception self result address data n more_bit)))"
    and "\<not> is_fault (fst (start_new_reception self result address data n more_bit))"
proof -
  have "receiver_ok (fst (snd (start_new_reception self result address data n more_bit))) \<and>
      \<not> is_fault (fst (start_new_reception self result address data n more_bit))"
  proof (cases "rx_buf_size self = 0 \<or> rx_buf_data self = None \<or> n > rx_buf_size self")
    case True
    then show ?thesis using assms(1) by (auto simp: start_new_reception_def)
  next
    case False
    then obtain buf where buf: "rx_buf_data self = Some buf" "length buf = unat (rx_buf_size self)"
      using assms(1) by (auto simp: receiver_ok_def)
    with False have n: "unat n \<le> length buf" by (simp add: word_less_nat_alt)
    show ?thesis
      using False buf n assms store_fragment_ok [OF buf(1) assms(2), of 0]
      by (auto simp: start_new_reception_def receiver_ok_def split_beta intro!: process_more_bit_ok [unfolded receiver_ok_def])
  qed
  then show "receiver_ok (fst (snd (start_new_reception self result address data n more_bit)))"
    and "\<not> is_fault (fst (start_new_reception self result address data n more_bit))" by blast+
qed

lemma continue_ok:
  assumes "receiver_ok self" and "unat n \<le> length data" and "n \<le> APX_MAX_FILE_SIZE"
    and "rx_start_address self \<noteq> RMF_INVALID_ADDRESS"
  shows "receiver_ok (fst (snd (continue_reception self result address data n more_bit)))"
    and "\<not> is_fault (fst (continue_reception self result address data n more_bit))"
proof -
  have "receiver_ok (fst (snd (continue_reception self result address data n more_bit))) \<and>
      \<not> is_fault (fst (continue_reception self result address data n more_bit))"
  proof (cases "rx_start_address self + rx_buf_pos self \<noteq> address \<or> rx_buf_size self = 0 \<or>
      rx_buf_data self = None \<or> rx_buf_pos self + n > rx_buf_size self")
    case True
    then show ?thesis using assms(1) by (auto simp: continue_reception_def)
  next
    case False
    then obtain buf where buf: "rx_buf_data self = Some buf" "length buf = unat (rx_buf_size self)"
      using assms(1) by (auto simp: receiver_ok_def)
    have "unat (rx_buf_pos self + n) = unat (rx_buf_pos self) + unat n"
      using assms(1,3) by (auto intro: small_sum simp: receiver_ok_def)
    with False buf have n: "unat (rx_buf_pos self) + unat n \<le> length buf" by (simp add: word_less_nat_alt)
    show ?thesis
      using False buf assms n store_fragment_ok [OF buf(1) assms(2) n]
      by (auto simp: continue_reception_def receiver_ok_def split_beta intro!: process_more_bit_ok [unfolded receiver_ok_def])
  qed
  then show "receiver_ok (fst (snd (continue_reception self result address data n more_bit)))"
    and "\<not> is_fault (fst (continue_reception self result address data n more_bit))" by blast+
qed

lemma write_ok:
  assumes "receiver_ok self" and "unat n \<le> length data"
  shows "receiver_ok (fst (snd (apx_fileManagerReceiver_write self result address data n more_bit)))"
    and "\<not> is_fault (fst (apx_fileManagerReceiver_write self result address data n more_bit))"
  using assms start_ok [OF assms] continue_ok [OF assms]
  by (auto simp: apx_fileManagerReceiver_write_def)

lemma create_ok:
  assumes "reserves malloc"
  shows "receiver_ok (snd (apx_fileManagerReceiver_create malloc))"
  using assms by (auto simp: apx_fileManagerReceiver_create_def apx_fileManagerReceiver_reserve_def Let_def
      receiver_ok_def reserves_def)

section \<open>A sequence of fragments\<close>

fun receive_all ::
  "apx_fileManagerReceiver \<Rightarrow> (u32 \<times> byte list \<times> bool) list \<Rightarrow>
     (apx_error \<times> apx_fileManagerReceptionResult) list \<times> apx_fileManagerReceiver" where
  "receive_all self [] = ([], self)"
| "receive_all self ((address, data, more_bit) # frags) =
     (case apx_fileManagerReceiver_write self no_result address data (of_nat (length data)) more_bit of
        (e, self, result) \<Rightarrow>
          (case receive_all self frags of (results, self) \<Rightarrow> ((e, result) # results, self)))"

text \<open>The fragments of a message: contiguous, the more bit on all but the last.\<close>

fun fragments :: "u32 \<Rightarrow> byte list list \<Rightarrow> (u32 \<times> byte list \<times> bool) list" where
  "fragments a [] = []"
| "fragments a (d # ds) = (a, d, ds \<noteq> []) # fragments (a + of_nat (length d)) ds"

definition whole :: "u32 \<Rightarrow> byte list \<Rightarrow> nat \<Rightarrow> apx_fileManagerReceptionResult" where
  "whole a buf n = \<lparr>is_complete = True, rr_address = a, rr_data = Some buf, rr_size = of_nat n\<rparr>"

lemma rx_fits_u32:
  assumes "receiver_ok self" and "k \<le> unat (rx_buf_size self)"
  shows "unat (of_nat k :: u32) = k" and "(of_nat k :: u32) \<le> APX_MAX_FILE_SIZE"
proof -
  have "k \<le> 0x1000000" using assms by (simp add: receiver_ok_def word_le_nat_alt)
  then show "unat (of_nat k :: u32) = k" by (simp add: unat_of_nat)
  with \<open>k \<le> 0x1000000\<close> show "(of_nat k :: u32) \<le> APX_MAX_FILE_SIZE" by (simp add: word_le_nat_alt)
qed

lemma address_below:
  assumes "unat s + k < 0x7FFFFFFF"
  shows "(s + of_nat k :: u32) < RMF_INVALID_ADDRESS"
proof -
  have "unat (s + of_nat k :: u32) = unat s + k"
    using assms by (simp add: unat_word_ariths unat_of_nat)
  with assms show ?thesis by (simp add: word_less_nat_alt)
qed

text \<open>One fragment of a reception in progress.\<close>

lemma continue_fragment:
  assumes ok: "receiver_ok self" and buf: "rx_buf_data self = Some buf" and some: "rx_buf_size self \<noteq> 0"
    and start: "rx_start_address self = s"
    and room: "unat (rx_buf_pos self) + length d \<le> unat (rx_buf_size self)"
    and low: "unat s + unat (rx_buf_pos self) < 0x7FFFFFFF"
  shows "\<exists>buf'. take (unat (rx_buf_pos self) + length d) buf' = take (unat (rx_buf_pos self)) buf @ d \<and>
    length buf' = length buf \<and>
    apx_fileManagerReceiver_write self result (s + rx_buf_pos self) d (of_nat (length d)) more_bit =
      (APX_NO_ERROR, process_more_bit
         (self\<lparr>rx_buf_data := Some buf', rx_buf_pos := rx_buf_pos self + of_nat (length d)\<rparr>) no_result more_bit)"
proof -
  let ?n = "of_nat (length d) :: u32"
  let ?p = "unat (rx_buf_pos self)"
  have len: "length buf = unat (rx_buf_size self)" using ok buf by (simp add: receiver_ok_def)
  have d: "unat ?n = length d" "?n \<le> APX_MAX_FILE_SIZE"
    using rx_fits_u32 [OF ok, of "length d"] room by simp_all
  have "unat (rx_buf_pos self + ?n) = ?p + length d"
    using ok d by (subst small_sum [where c = "rx_buf_size self"]) (auto simp: receiver_ok_def)
  then have fits: "\<not> rx_buf_size self < rx_buf_pos self + ?n"
    using room by (simp add: word_less_nat_alt)
  have small: "(APX_MAX_FILE_SIZE < ?n) = False"
    using d(2) by (metis leD)
  have below: "s \<noteq> RMF_INVALID_ADDRESS" "s + rx_buf_pos self < RMF_INVALID_ADDRESS"
    using low address_below [of s ?p] by auto
  have "apx_fileManagerReceiver_write self result (s + rx_buf_pos self) d ?n more_bit =
      continue_reception self no_result (s + rx_buf_pos self) d ?n more_bit"
    using below start by (simp add: apx_fileManagerReceiver_write_def small)
  also have "\<dots> = (case (if ?n > 0 then map_option (\<lambda>self. self\<lparr>rx_buf_pos := rx_buf_pos self + ?n\<rparr>)
                               (store_fragment self ?p d (length d))
               else Some self) of
           None \<Rightarrow> (FAULT OUT_OF_BOUNDS, self, no_result)
         | Some self \<Rightarrow> (APX_NO_ERROR, process_more_bit self no_result more_bit))"
    using fits some buf start d(1) by (simp add: continue_reception_def)
  finally have w: "apx_fileManagerReceiver_write self result (s + rx_buf_pos self) d ?n more_bit = \<dots>" .
  show ?thesis
  proof (cases "d = []")
    case True
    have "self\<lparr>rx_buf_data := Some buf, rx_buf_pos := rx_buf_pos self + 0\<rparr> = self"
      using buf by (cases self) simp
    with True w show ?thesis by (intro exI [of _ buf]) simp
  next
    case False
    then have "0 < ?n" using d(1) by (simp add: word_less_nat_alt)
    with w store_fragment_ok [OF buf, of "length d" d ?p] room len show ?thesis
      by (intro exI [of _ "take ?p buf @ d @ drop (?p + length d) buf"]) simp
  qed
qed

lemma continue_fragments:
  assumes "receiver_ok self" and "rx_buf_data self = Some buf" and "rx_buf_size self \<noteq> 0"
    and "rx_start_address self = s" and "ds \<noteq> []"
    and "unat (rx_buf_pos self) + length (concat ds) \<le> unat (rx_buf_size self)"
    and "unat s + unat (rx_buf_pos self) + length (concat ds) < 0x7FFFFFFF"
  shows "\<exists>buf'. take (unat (rx_buf_pos self) + length (concat ds)) buf' = take (unat (rx_buf_pos self)) buf @ concat ds \<and>
    length buf' = length buf \<and>
    receive_all self (fragments (s + rx_buf_pos self) ds) =
      (map (\<lambda>d. (APX_NO_ERROR, no_result)) (butlast ds) @
         [(APX_NO_ERROR, whole s buf' (unat (rx_buf_pos self) + length (concat ds)))],
       apx_fileManagerReceiver_reset (self\<lparr>rx_buf_data := Some buf'\<rparr>))"
  using assms
proof (induction ds arbitrary: self buf)
  case Nil
  then show ?case by simp
next
  case (Cons d ds)
  let ?p = "unat (rx_buf_pos self)"
  let ?n = "of_nat (length d) :: u32"
  obtain buf1 where b1: "take (?p + length d) buf1 = take ?p buf @ d" "length buf1 = length buf"
    "apx_fileManagerReceiver_write self no_result (s + rx_buf_pos self) d ?n (ds \<noteq> []) =
      (APX_NO_ERROR, process_more_bit (self\<lparr>rx_buf_data := Some buf1, rx_buf_pos := rx_buf_pos self + ?n\<rparr>)
         no_result (ds \<noteq> []))"
    using continue_fragment [OF Cons.prems(1-4), of d no_result "ds \<noteq> []"] Cons.prems(6,7) by auto
  show ?case
  proof (cases "ds = []")
    case True
    then show ?thesis
      using b1 by (intro exI [of _ buf1])
        (simp add: process_more_bit_def whole_def apx_fileManagerReceiver_reset_def Cons.prems(4))
  next
    case False
    let ?self = "self\<lparr>rx_buf_data := Some buf1, rx_buf_pos := rx_buf_pos self + ?n\<rparr>"
    have "length d \<le> unat (rx_buf_size self)" using Cons.prems(6) by simp
    from rx_fits_u32 [OF Cons.prems(1) this] Cons.prems(1) have pos: "unat (rx_buf_pos ?self) = ?p + length d"
      by simp (subst small_sum [where c = "rx_buf_size self"], auto simp: receiver_ok_def)
    have ok: "receiver_ok ?self"
      using Cons.prems(1,2,4,6,7) b1(2) pos by (auto simp: receiver_ok_def word_le_nat_alt)
    obtain buf' where "take (unat (rx_buf_pos ?self) + length (concat ds)) buf' =
        take (unat (rx_buf_pos ?self)) buf1 @ concat ds" "length buf' = length buf1"
      "receive_all ?self (fragments (s + rx_buf_pos ?self) ds) =
        (map (\<lambda>d. (APX_NO_ERROR, no_result)) (butlast ds) @
         [(APX_NO_ERROR, whole s buf' (unat (rx_buf_pos ?self) + length (concat ds)))],
         apx_fileManagerReceiver_reset (?self\<lparr>rx_buf_data := Some buf'\<rparr>))"
      using Cons.IH [OF ok, of buf1] False Cons.prems(3,4,6,7) pos by auto
    with False b1 pos show ?thesis
      by (intro exI [of _ buf'])
         (simp add: process_more_bit_def apx_fileManagerReceiver_reset_def add.assoc)
  qed
qed

text \<open>The receiver waits for a new message.\<close>

definition idle :: "apx_fileManagerReceiver \<Rightarrow> bool" where
  "idle self \<longleftrightarrow> receiver_ok self \<and> rx_start_address self = RMF_INVALID_ADDRESS \<and>
     rx_buf_data self \<noteq> None \<and> rx_buf_size self \<noteq> 0"

lemma start_fragment:
  assumes "idle self" and "length d \<le> unat (rx_buf_size self)" and "a < RMF_INVALID_ADDRESS"
  shows "\<exists>buf. take (length d) buf = d \<and> length buf = unat (rx_buf_size self) \<and>
    apx_fileManagerReceiver_write self result a d (of_nat (length d)) more_bit =
      (APX_NO_ERROR, process_more_bit
         (self\<lparr>rx_buf_data := Some buf, rx_buf_pos := of_nat (length d), rx_start_address := a\<rparr>) no_result more_bit)"
proof -
  let ?n = "of_nat (length d) :: u32"
  obtain old where old: "rx_buf_data self = Some old" "length old = unat (rx_buf_size self)"
    using assms(1) by (auto simp: idle_def receiver_ok_def)
  have ok: "receiver_ok self" and pos: "rx_buf_pos self = 0" using assms(1) by (auto simp: idle_def receiver_ok_def)
  note n = rx_fits_u32 [OF ok assms(2)]
  have small: "(APX_MAX_FILE_SIZE < ?n) = False" "(rx_buf_size self < ?n) = False"
    using n assms(2) by (simp_all add: word_less_nat_alt word_le_nat_alt)
  have w: "apx_fileManagerReceiver_write self result a d ?n more_bit =
      (case (if ?n > 0 then map_option (\<lambda>self. self\<lparr>rx_buf_pos := ?n\<rparr>) (store_fragment self 0 d (length d))
               else Some self) of
           None \<Rightarrow> (FAULT OUT_OF_BOUNDS, self, no_result)
         | Some self \<Rightarrow> (APX_NO_ERROR, process_more_bit (self\<lparr>rx_start_address := a\<rparr>) no_result more_bit))"
    using assms(1,3) n(1) old by (simp add: apx_fileManagerReceiver_write_def start_new_reception_def idle_def small)
  show ?thesis
  proof (cases "d = []")
    case True
    have "self\<lparr>rx_start_address := a\<rparr> = self\<lparr>rx_buf_data := Some old, rx_buf_pos := 0, rx_start_address := a\<rparr>"
      using old(1) pos by simp
    with True w old show ?thesis by (intro exI [of _ old]) simp
  next
    case False
    then have "0 < ?n" using n(1) by (simp add: word_less_nat_alt)
    with w store_fragment_ok [OF old(1), of "length d" d 0] assms(2) old(2) show ?thesis
      by (intro exI [of _ "d @ drop (length d) old"]) simp
  qed
qed

text \<open> C22:
  A message that arrives in any number of contiguous fragments, the more bit on all but the last,
  is handed out once, complete, with the address of its first fragment and exactly the bytes of
  the fragments in order, as long as the whole fits in the buffer; the receiver is idle again
  afterwards. Cutting a message into fragments makes no difference.
\<close>

theorem fragments_reassembled:
  assumes "idle self" and "ds \<noteq> []" and "length (concat ds) \<le> unat (rx_buf_size self)"
    and "unat a + length (concat ds) < 0x7FFFFFFF"
  shows "\<exists>buf self'. receive_all self (fragments a ds) =
      (map (\<lambda>d. (APX_NO_ERROR, no_result)) (butlast ds) @ [(APX_NO_ERROR, whole a buf (length (concat ds)))], self') \<and>
    take (length (concat ds)) buf = concat ds \<and> idle self' \<and> rx_buf_size self' = rx_buf_size self"
proof -
  obtain d rest where ds: "ds = d # rest" using assms(2) by (cases ds) auto
  have a: "a < RMF_INVALID_ADDRESS" using assms(4) by (simp add: word_less_nat_alt)
  have d: "length d \<le> unat (rx_buf_size self)" using assms(3) ds by simp
  obtain buf where buf: "take (length d) buf = d" "length buf = unat (rx_buf_size self)"
    "apx_fileManagerReceiver_write self no_result a d (of_nat (length d)) (rest \<noteq> []) =
      (APX_NO_ERROR, process_more_bit
         (self\<lparr>rx_buf_data := Some buf, rx_buf_pos := of_nat (length d), rx_start_address := a\<rparr>) no_result (rest \<noteq> []))"
    using start_fragment [OF assms(1) d a, of no_result "rest \<noteq> []"] by auto
  show ?thesis
  proof (cases "rest = []")
    case True
    with buf ds assms(1) show ?thesis
      by (auto simp: process_more_bit_def whole_def idle_def apx_fileManagerReceiver_reset_def receiver_ok_def)
  next
    case False
    let ?self = "self\<lparr>rx_buf_data := Some buf, rx_buf_pos := of_nat (length d), rx_start_address := a\<rparr>"
    have ok: "receiver_ok self" using assms(1) by (simp add: idle_def)
    note pos = rx_fits_u32(1) [OF ok d]
    have "receiver_ok ?self"
      using ok buf(2) pos d a by (auto simp: receiver_ok_def word_le_nat_alt)
    from continue_fragments [OF this, of buf a rest] False assms(1,3,4) ds pos
    obtain buf' where b: "take (length d + length (concat rest)) buf' = take (length d) buf @ concat rest"
      "length buf' = length buf"
      "receive_all ?self (fragments (a + of_nat (length d)) rest) =
        (map (\<lambda>d. (APX_NO_ERROR, no_result)) (butlast rest) @ [(APX_NO_ERROR, whole a buf' (length d + length (concat rest)))],
         apx_fileManagerReceiver_reset (?self\<lparr>rx_buf_data := Some buf'\<rparr>))"
      by (auto simp: idle_def)
    have "idle (apx_fileManagerReceiver_reset (?self\<lparr>rx_buf_data := Some buf'\<rparr>))"
      using assms(1) b(2) buf(2) by (auto simp: idle_def receiver_ok_def apx_fileManagerReceiver_reset_def)
    with False ds buf b show ?thesis
      by (auto simp: process_more_bit_def apx_fileManagerReceiver_reset_def)
  qed
qed

definition demo_receiver :: apx_fileManagerReceiver where
  "demo_receiver = snd (apx_fileManagerReceiver_create (\<lambda>n. Some (replicate n 0)))"

lemma demo_receiver_idle: "idle demo_receiver" "rx_buf_size demo_receiver = 1024"
  by (simp_all add: demo_receiver_def apx_fileManagerReceiver_create_def apx_fileManagerReceiver_reserve_def
      idle_def receiver_ok_def)

theorem fragments_reassembled_witness:
  "\<exists>buf self'. receive_all demo_receiver (fragments 0x100 [[1, 2], [3], [4, 5]]) =
      ([(APX_NO_ERROR, no_result), (APX_NO_ERROR, no_result), (APX_NO_ERROR, whole 0x100 buf 5)], self') \<and>
    take 5 buf = [1, 2, 3, 4, 5] \<and> idle self'"
proof -
  have five: "length (concat [[1, 2], [3], [4, 5 :: byte]]) = 5" by simp
  show ?thesis
    using fragments_reassembled [OF demo_receiver_idle(1), where ds = "[[1, 2], [3], [4, 5]]" and a = "0x100",
        unfolded five demo_receiver_idle(2)]
    by (simp del: receive_all.simps fragments.simps) blast
qed

text \<open> C40:
  A receiver with a reception in progress that cannot take the rest of its message never recovers: an
  error leaves it as it is, so a fragment too large for the buffer is refused, and from then on
  so is every message, except one at the very address the missing fragment had.
\<close>

theorem receiver_never_recovers:
  assumes "receiver_ok self" and "rx_start_address self \<noteq> RMF_INVALID_ADDRESS"
    and "\<forall>(a, d, m) \<in> set frags. a < RMF_INVALID_ADDRESS \<and> length d \<le> 0x1000000 \<and>
      (a = rx_start_address self + rx_buf_pos self \<longrightarrow> unat (rx_buf_pos self) + length d > unat (rx_buf_size self))"
  shows "snd (receive_all self frags) = self \<and>
    (\<forall>(e, r) \<in> set (fst (receive_all self frags)). e \<noteq> APX_NO_ERROR \<and> \<not> is_complete r)"
  using assms(3)
proof (induction frags)
  case Nil
  then show ?case by simp
next
  case (Cons f frags)
  obtain a d m where f: "f = (a, d, m)" by (cases f)
  let ?n = "of_nat (length d) :: u32"
  have a: "a < RMF_INVALID_ADDRESS" "length d \<le> 0x1000000"
    and full: "a = rx_start_address self + rx_buf_pos self \<Longrightarrow> unat (rx_buf_pos self) + length d > unat (rx_buf_size self)"
    and rest: "\<forall>(a, d, m) \<in> set frags. a < RMF_INVALID_ADDRESS \<and> length d \<le> 0x1000000 \<and>
      (a = rx_start_address self + rx_buf_pos self \<longrightarrow> unat (rx_buf_pos self) + length d > unat (rx_buf_size self))"
    using Cons.prems f by auto
  have n: "unat ?n = length d" using a(2) by (simp add: unat_of_nat)
  then have m: "?n \<le> APX_MAX_FILE_SIZE" using a(2) by (simp add: word_le_nat_alt)
  then have small: "(APX_MAX_FILE_SIZE < ?n) = False" by (metis leD)
  have "unat (rx_buf_pos self + ?n) = unat (rx_buf_pos self) + length d"
    using assms(1) n m by (subst small_sum [where c = "rx_buf_size self"]) (auto simp: receiver_ok_def)
  with full have "a = rx_start_address self + rx_buf_pos self \<Longrightarrow> rx_buf_pos self + ?n > rx_buf_size self"
    by (simp add: word_less_nat_alt)
  then have "\<exists>e. apx_fileManagerReceiver_write self no_result a d ?n m = (e, self, no_result) \<and> e \<noteq> APX_NO_ERROR"
    using a(1) assms(2) by (auto simp: apx_fileManagerReceiver_write_def continue_reception_def small)
  then obtain e where "apx_fileManagerReceiver_write self no_result a d ?n m = (e, self, no_result)" "e \<noteq> APX_NO_ERROR"
    by blast
  with Cons.IH [OF rest] show ?case
    by (cases "receive_all self frags") (simp add: f no_result_def)
qed

definition stuck_receiver :: apx_fileManagerReceiver where
  "stuck_receiver = demo_receiver\<lparr>rx_buf_pos := 1020, rx_start_address := 0\<rparr>"

theorem receiver_never_recovers_witness:
  "snd (receive_all stuck_receiver [(1020, [1, 2, 3, 4, 5], False), (0x3FFFFC00, [0, 0, 0, 0], False)]) = stuck_receiver"
  using receiver_never_recovers [of stuck_receiver "[(1020, [1, 2, 3, 4, 5], False), (0x3FFFFC00, [0, 0, 0, 0], False)]"]
    demo_receiver_idle
  by (auto simp: stuck_receiver_def idle_def receiver_ok_def)

end
