(* ===== verification/FileManager.thy ===== *)
theory FileManager
  imports FileReceiver FileMap
begin

text \<open>
  The file manager of a connection: apx/src/file_manager.c with file_manager_shared.c (the local and
  the remote files), file_manager_worker.c (the queue of commands to transmit) and command.c. The
  receiver is in the theory FileReceiver.

  What the manager tells its connection through function pointers (a file was published, a file was
  written, a local file was opened) it tells in its last statement; the model returns it as a
  notification, to be delivered by the caller. What it transmits goes through the connection interface,
  a record of functions over the state of the connection. The worker is a thread that sleeps until
  commands are queued; \<open>apx_fileManagerWorker_run\<close> is what it does when it wakes up. Locks are not
  modelled. The ring buffer of commands (adt_rbfh) is not in the repository: its insertion is a
  parameter. Memory for new objects is a parameter of the functions that allocate.
\<close>

section \<open>Commands\<close>

abbreviation (input) APX_CMD_EXIT :: byte where "APX_CMD_EXIT \<equiv> 0"
abbreviation (input) APX_CMD_SEND_ACKNOWLEDGE :: byte where "APX_CMD_SEND_ACKNOWLEDGE \<equiv> 1"
abbreviation (input) APX_CMD_SEND_ERROR_CODE :: byte where "APX_CMD_SEND_ERROR_CODE \<equiv> 2"
abbreviation (input) APX_CMD_PUBLISH_LOCAL_FILE :: byte where "APX_CMD_PUBLISH_LOCAL_FILE \<equiv> 3"
abbreviation (input) APX_CMD_REVOKE_LOCAL_FILE :: byte where "APX_CMD_REVOKE_LOCAL_FILE \<equiv> 4"
abbreviation (input) APX_CMD_OPEN_REMOTE_FILE :: byte where "APX_CMD_OPEN_REMOTE_FILE \<equiv> 5"
abbreviation (input) APX_CMD_CLOSE_REMOTE_FILE :: byte where "APX_CMD_CLOSE_REMOTE_FILE \<equiv> 6"
abbreviation (input) APX_CMD_SEND_LOCAL_CONST_DATA :: byte where "APX_CMD_SEND_LOCAL_CONST_DATA \<equiv> 7"
abbreviation (input) APX_CMD_SEND_LOCAL_DATA :: byte where "APX_CMD_SEND_LOCAL_DATA \<equiv> 8"

text \<open>The generic pointer of a command: null, a file description, or bytes.\<close>

datatype command_ptr = NO_POINTER | FILE_INFO rmf_fileInfo | BYTES "byte list"

record apx_command =
  cmd_type :: byte
  data1 :: u32
  data2 :: u32
  data3 :: command_ptr

definition apx_build_command_with_ptr :: "byte \<Rightarrow> u32 \<Rightarrow> u32 \<Rightarrow> command_ptr \<Rightarrow> apx_command" where
  "apx_build_command_with_ptr ctype d1 d2 d3 = \<lparr>cmd_type = ctype, data1 = d1, data2 = d2, data3 = d3\<rparr>"

datatype adt_buf_err = BUF_E_OK | BUF_E_NOT_OK | BUF_E_OVERFLOW | BUF_E_UNDERFLOW

type_synonym ring_insert = "apx_command list \<Rightarrow> apx_command \<Rightarrow> adt_buf_err \<times> apx_command list"

definition ring_documented :: "ring_insert \<Rightarrow> bool" where
  "ring_documented R \<longleftrightarrow> (\<forall>q c. R q c = (BUF_E_OK, q @ [c]))"

definition ring_ref :: ring_insert where
  "ring_ref q c = (BUF_E_OK, q @ [c])"

lemma ring_ref_documented: "ring_documented ring_ref"
  by (simp add: ring_documented_def ring_ref_def)

section \<open>State\<close>

datatype apx_mode = APX_CLIENT_MODE | APX_SERVER_MODE

record apx_fileManagerShared =
  local_file_map :: apx_fileMap
  remote_file_map :: apx_fileMap
  connection_id :: u32
  is_connected :: bool

record apx_fileManager =
  fm_shared :: apx_fileManagerShared
  fm_queue :: "apx_command list"
  fm_receiver :: apx_fileManagerReceiver
  fm_mode :: apx_mode

text \<open>
  What the manager reports: the file a peer published, a write into a file (with the bytes at the
  pointer, of which the count says how many belong to the write), a local file that a peer opened.
\<close>

datatype notification =
    FILE_PUBLISHED nat
  | FILE_WRITTEN nat u32 "byte list" u32
  | FILE_OPENED nat

section \<open>Shared files\<close>

definition apx_fileManagerShared_create :: apx_fileManagerShared where
  "apx_fileManagerShared_create =
     \<lparr>local_file_map = apx_fileMap_create False, remote_file_map = apx_fileMap_create True,
      connection_id = 0xFFFFFFFF, is_connected = False\<rparr>"

definition apx_fileManagerShared_create_local_file ::
  "text_lib \<Rightarrow> (nat \<times> apx_file) option \<Rightarrow> apx_fileManagerShared \<Rightarrow> rmf_fileInfo \<Rightarrow>
     (apx_error \<times> nat option \<times> apx_fileManagerShared) option" where
  "apx_fileManagerShared_create_local_file T memory self info =
     map_option (\<lambda>(e, file, m). (e, file, self\<lparr>local_file_map := m\<rparr>))
       (apx_fileMap_create_file T memory (local_file_map self) info)"

definition apx_fileManagerShared_create_remote_file ::
  "text_lib \<Rightarrow> (nat \<times> apx_file) option \<Rightarrow> apx_fileManagerShared \<Rightarrow> rmf_fileInfo \<Rightarrow>
     (apx_error \<times> nat option \<times> apx_fileManagerShared) option" where
  "apx_fileManagerShared_create_remote_file T memory self info =
     map_option (\<lambda>(e, file, m). (e, file, self\<lparr>remote_file_map := m\<rparr>))
       (apx_fileMap_create_file T memory (remote_file_map self) info)"

definition apx_fileManagerShared_get_num_local_files :: "apx_fileManagerShared \<Rightarrow> int" where
  "apx_fileManagerShared_get_num_local_files self = apx_fileMap_length (local_file_map self)"

definition apx_fileManagerShared_get_num_remote_files :: "apx_fileManagerShared \<Rightarrow> int" where
  "apx_fileManagerShared_get_num_remote_files self = apx_fileMap_length (remote_file_map self)"

definition apx_fileManagerShared_find_local_file_by_name ::
  "text_lib \<Rightarrow> apx_fileManagerShared \<Rightarrow> byte list \<Rightarrow> apx_error \<times> nat option \<times> apx_fileManagerShared" where
  "apx_fileManagerShared_find_local_file_by_name T self name =
     (case apx_fileMap_find_by_name T (local_file_map self) name of
        (e, file, m) \<Rightarrow> (e, file, self\<lparr>local_file_map := m\<rparr>))"

definition apx_fileManagerShared_find_remote_file_by_name ::
  "text_lib \<Rightarrow> apx_fileManagerShared \<Rightarrow> byte list \<Rightarrow> apx_error \<times> nat option \<times> apx_fileManagerShared" where
  "apx_fileManagerShared_find_remote_file_by_name T self name =
     (case apx_fileMap_find_by_name T (remote_file_map self) name of
        (e, file, m) \<Rightarrow> (e, file, self\<lparr>remote_file_map := m\<rparr>))"

definition apx_fileManagerShared_find_file_by_address ::
  "apx_fileManagerShared \<Rightarrow> u32 \<Rightarrow> apx_error \<times> nat option \<times> apx_fileManagerShared" where
  "apx_fileManagerShared_find_file_by_address self address =
     (if address \<noteq> RMF_INVALID_ADDRESS then
        let address_without_flags = address AND APX_ADDRESS_MASK_INTERNAL in
        if address AND RMF_REMOTE_ADDRESS_BIT \<noteq> 0
        then (case apx_fileMap_find_by_address (remote_file_map self) address_without_flags of
                (e, file, m) \<Rightarrow> (e, file, self\<lparr>remote_file_map := m\<rparr>))
        else (case apx_fileMap_find_by_address (local_file_map self) address_without_flags of
                (e, file, m) \<Rightarrow> (e, file, self\<lparr>local_file_map := m\<rparr>))
      else (APX_NO_ERROR, None, self))"

definition apx_fileManagerShared_set_connection_id :: "apx_fileManagerShared \<Rightarrow> u32 \<Rightarrow> apx_fileManagerShared" where
  "apx_fileManagerShared_set_connection_id self cid = self\<lparr>connection_id := cid\<rparr>"

definition apx_fileManagerShared_disconnected :: "apx_fileManagerShared \<Rightarrow> apx_fileManagerShared" where
  "apx_fileManagerShared_disconnected self = self\<lparr>is_connected := False\<rparr>"

definition apx_fileManagerShared_connected :: "apx_fileManagerShared \<Rightarrow> apx_fileManagerShared" where
  "apx_fileManagerShared_connected self = self\<lparr>is_connected := True\<rparr>"

text \<open>Clones of all descriptions, in order, with the number copied, -1 when memory runs out.\<close>

fun copy_infos :: "text_lib \<Rightarrow> rmf_fileInfo option list \<Rightarrow> (nat \<times> apx_file) list \<Rightarrow> int \<Rightarrow> rmf_fileInfo list \<Rightarrow>
    int \<times> rmf_fileInfo list" where
  "copy_infos T memories [] num_items array = (num_items, array)"
| "copy_infos T [] (pf # fs) num_items array = (-1, array)"
| "copy_infos T (memory # memories) (pf # fs) num_items array =
     (case rmf_fileInfo_clone T memory (file_info (snd pf)) of
        None \<Rightarrow> (-1, array)
      | Some info \<Rightarrow> copy_infos T memories fs (num_items + 1) (array @ [info]))"

definition apx_fileManagerShared_copy_local_file_info ::
  "text_lib \<Rightarrow> rmf_fileInfo option list \<Rightarrow> apx_fileManagerShared \<Rightarrow> int \<times> rmf_fileInfo list" where
  "apx_fileManagerShared_copy_local_file_info T memories self =
     copy_infos T memories (file_list (local_file_map self)) 0 []"

text \<open>The file behind a pointer that one of the maps gave out, and a change of it.\<close>

definition the_file :: "apx_fileManagerShared \<Rightarrow> nat \<Rightarrow> apx_file option" where
  "the_file self p =
     (case map_of (file_list (remote_file_map self)) p of
        Some f \<Rightarrow> Some f | None \<Rightarrow> map_of (file_list (local_file_map self)) p)"

definition change_in :: "nat \<Rightarrow> (apx_file \<Rightarrow> apx_file) \<Rightarrow> apx_fileMap \<Rightarrow> apx_fileMap" where
  "change_in p f m = m\<lparr>file_list := map (\<lambda>(q, file). (q, if q = p then f file else file)) (file_list m)\<rparr>"

definition change_file :: "nat \<Rightarrow> (apx_file \<Rightarrow> apx_file) \<Rightarrow> apx_fileManagerShared \<Rightarrow> apx_fileManagerShared" where
  "change_file p f self =
     self\<lparr>local_file_map := change_in p f (local_file_map self),
       remote_file_map := change_in p f (remote_file_map self)\<rparr>"

section \<open>The worker's queue\<close>

definition apx_fileManagerWorker_process_ringbuffer_error :: "adt_buf_err \<Rightarrow> apx_error" where
  "apx_fileManagerWorker_process_ringbuffer_error error_code =
     (if error_code = BUF_E_OVERFLOW then APX_BUFFER_FULL_ERROR
      else if error_code = BUF_E_NOT_OK then APX_MEM_ERROR else APX_NO_ERROR)"

definition enqueue :: "ring_insert \<Rightarrow> apx_fileManager \<Rightarrow> apx_command \<Rightarrow> apx_error \<times> apx_fileManager" where
  "enqueue R self cmd =
     (case R (fm_queue self) cmd of
        (rc, queue) \<Rightarrow> (apx_fileManagerWorker_process_ringbuffer_error rc, self\<lparr>fm_queue := queue\<rparr>))"

definition apx_fileManagerWorker_preare_acknowledge ::
  "ring_insert \<Rightarrow> apx_fileManager \<Rightarrow> apx_error \<times> apx_fileManager" where
  "apx_fileManagerWorker_preare_acknowledge R self =
     enqueue R self \<lparr>cmd_type = APX_CMD_SEND_ACKNOWLEDGE, data1 = 0, data2 = 0, data3 = NO_POINTER\<rparr>"

definition apx_fileManagerWorker_prepare_publish_local_file ::
  "ring_insert \<Rightarrow> apx_fileManager \<Rightarrow> rmf_fileInfo \<Rightarrow> apx_error \<times> apx_fileManager" where
  "apx_fileManagerWorker_prepare_publish_local_file R self info =
     enqueue R self \<lparr>cmd_type = APX_CMD_PUBLISH_LOCAL_FILE, data1 = 0, data2 = 0, data3 = FILE_INFO info\<rparr>"

definition apx_fileManagerWorker_prepare_send_local_const_data ::
  "ring_insert \<Rightarrow> apx_fileManager \<Rightarrow> u32 \<Rightarrow> byte list \<Rightarrow> u32 \<Rightarrow> apx_error \<times> apx_fileManager" where
  "apx_fileManagerWorker_prepare_send_local_const_data R self address data n =
     enqueue R self (apx_build_command_with_ptr APX_CMD_SEND_LOCAL_CONST_DATA address n (BYTES data))"

definition apx_fileManagerWorker_prepare_send_local_data ::
  "ring_insert \<Rightarrow> apx_fileManager \<Rightarrow> u32 \<Rightarrow> byte list \<Rightarrow> u32 \<Rightarrow> apx_error \<times> apx_fileManager" where
  "apx_fileManagerWorker_prepare_send_local_data R self address data n =
     enqueue R self (apx_build_command_with_ptr APX_CMD_SEND_LOCAL_DATA address n (BYTES data))"

definition apx_fileManagerWorker_prepare_send_open_file_request ::
  "ring_insert \<Rightarrow> apx_fileManager \<Rightarrow> u32 \<Rightarrow> apx_error \<times> apx_fileManager" where
  "apx_fileManagerWorker_prepare_send_open_file_request R self address =
     enqueue R self \<lparr>cmd_type = APX_CMD_OPEN_REMOTE_FILE, data1 = address, data2 = 0, data3 = NO_POINTER\<rparr>"

section \<open>The worker\<close>

record 'c connection_interface =
  transmit_begin :: "'c \<Rightarrow> apx_error \<times> 'c"
  transmit_end :: "'c \<Rightarrow> apx_error \<times> 'c"
  transmit_data_message :: "'c \<Rightarrow> u32 \<Rightarrow> bool \<Rightarrow> byte list \<Rightarrow> u32 \<Rightarrow> apx_error \<times> 'c"

text \<open>Transmit the first bytes of a buffer that an encoder filled; a size of zero is a refusal.\<close>

definition transmit_command ::
  "'c connection_interface \<Rightarrow> (nat \<times> byte list option) option \<Rightarrow> 'c \<Rightarrow> apx_error \<times> 'c" where
  "transmit_command I encoded con =
     (case encoded of
        Some (encoded_size, Some buffer) \<Rightarrow>
          (if encoded_size = 0 then (APX_BUFFER_BOUNDARY_ERROR, con)
           else transmit_data_message I con RMF_CMD_AREA_START_ADDRESS False buffer (of_nat encoded_size))
      | Some (encoded_size, None) \<Rightarrow> (APX_BUFFER_BOUNDARY_ERROR, con)
      | None \<Rightarrow> (FAULT OUT_OF_BOUNDS, con))"

definition run_send_acknowledge :: "cutil \<Rightarrow> 'c connection_interface \<Rightarrow> 'c \<Rightarrow> apx_error \<times> 'c" where
  "run_send_acknowledge C I con =
     transmit_command I (rmf_encode_acknowledge_cmd C (replicate RMF_CMD_TYPE_SIZE 0) RMF_CMD_TYPE_SIZE) con"

text \<open>The buffer holds the longest name with its terminator: 48 + 255 + 1 bytes.\<close>

definition run_publish_local_file ::
  "cutil \<Rightarrow> text_lib \<Rightarrow> 'c connection_interface \<Rightarrow> rmf_fileInfo \<Rightarrow> 'c \<Rightarrow> apx_error \<times> 'c" where
  "run_publish_local_file C T I info con =
     transmit_command I
       (map_option (\<lambda>(n, buffer). (unat n, Some buffer)) (rmf_encode_publish_file_cmd C T (replicate 304 0) 304 info)) con"

definition run_send_local_const_data ::
  "'c connection_interface \<Rightarrow> u32 \<Rightarrow> byte list \<Rightarrow> u32 \<Rightarrow> 'c \<Rightarrow> apx_error \<times> 'c" where
  "run_send_local_const_data I address data n con = transmit_data_message I con address False data n"

definition run_send_local_data ::
  "'c connection_interface \<Rightarrow> u32 \<Rightarrow> byte list \<Rightarrow> u32 \<Rightarrow> 'c \<Rightarrow> apx_error \<times> 'c" where
  "run_send_local_data I address data n con = transmit_data_message I con address False data n"

definition run_open_remote_file :: "cutil \<Rightarrow> 'c connection_interface \<Rightarrow> u32 \<Rightarrow> 'c \<Rightarrow> apx_error \<times> 'c" where
  "run_open_remote_file C I address con =
     transmit_command I (rmf_encode_open_file_cmd C (replicate 8 0) 8 address) con"

text \<open>Whether the worker goes on. A pointer of the wrong kind cannot be followed.\<close>

definition process_single_command ::
  "cutil \<Rightarrow> text_lib \<Rightarrow> 'c connection_interface \<Rightarrow> apx_command \<Rightarrow> 'c \<Rightarrow> apx_error \<times> bool \<times> 'c" where
  "process_single_command C T I cmd con =
     (let proceed = (\<lambda>(result, con). (if is_fault result then result else APX_NO_ERROR, True, con)) in
      if cmd_type cmd = APX_CMD_EXIT then (APX_NO_ERROR, False, con)
      else if cmd_type cmd = APX_CMD_SEND_ACKNOWLEDGE then proceed (run_send_acknowledge C I con)
      else if cmd_type cmd = APX_CMD_SEND_ERROR_CODE then (APX_NO_ERROR, True, con)
      else if cmd_type cmd = APX_CMD_PUBLISH_LOCAL_FILE then
        (case data3 cmd of FILE_INFO info \<Rightarrow> proceed (run_publish_local_file C T I info con)
         | _ \<Rightarrow> (FAULT OUT_OF_BOUNDS, False, con))
      else if cmd_type cmd = APX_CMD_REVOKE_LOCAL_FILE then (APX_NO_ERROR, True, con)
      else if cmd_type cmd = APX_CMD_OPEN_REMOTE_FILE then proceed (run_open_remote_file C I (data1 cmd) con)
      else if cmd_type cmd = APX_CMD_CLOSE_REMOTE_FILE then (APX_NO_ERROR, True, con)
      else if cmd_type cmd = APX_CMD_SEND_LOCAL_CONST_DATA then
        (case data3 cmd of BYTES data \<Rightarrow> proceed (run_send_local_const_data I (data1 cmd) data (data2 cmd) con)
         | _ \<Rightarrow> (FAULT OUT_OF_BOUNDS, False, con))
      else if cmd_type cmd = APX_CMD_SEND_LOCAL_DATA then
        (case data3 cmd of BYTES data \<Rightarrow> proceed (run_send_local_data I (data1 cmd) data (data2 cmd) con)
         | _ \<Rightarrow> (FAULT OUT_OF_BOUNDS, False, con))
      else (APX_NO_ERROR, False, con))"

fun run_commands ::
  "cutil \<Rightarrow> text_lib \<Rightarrow> 'c connection_interface \<Rightarrow> apx_command list \<Rightarrow> 'c \<Rightarrow> apx_error \<times> bool \<times> apx_command list \<times> 'c" where
  "run_commands C T I [] con = (APX_NO_ERROR, True, [], con)"
| "run_commands C T I (cmd # queue) con =
     (case process_single_command C T I cmd con of
        (e, result, con) \<Rightarrow>
          if e \<noteq> APX_NO_ERROR \<or> \<not> result then (e, False, queue, con) else run_commands C T I queue con)"

definition apx_fileManagerWorker_run ::
  "cutil \<Rightarrow> text_lib \<Rightarrow> 'c connection_interface \<Rightarrow> apx_fileManager \<Rightarrow> 'c \<Rightarrow>
     apx_error \<times> bool \<times> apx_fileManager \<times> 'c" where
  "apx_fileManagerWorker_run C T I self con =
     (case transmit_begin I con of
        (e, con) \<Rightarrow>
          if is_fault e then (e, False, self, con)
          else
            (case run_commands C T I (fm_queue self) con of
               (e, result, queue, con) \<Rightarrow>
                 let self = self\<lparr>fm_queue := queue\<rparr> in
                 if is_fault e then (e, False, self, con)
                 else (case transmit_end I con of (e, con) \<Rightarrow> (e, result, self, con))))"

section \<open>The manager\<close>

definition apx_fileManager_create ::
  "(nat \<Rightarrow> byte list option) \<Rightarrow> bool \<Rightarrow> apx_mode \<Rightarrow> apx_error \<times> apx_fileManager option" where
  "apx_fileManager_create malloc ring_ok mode =
     (case apx_fileManagerReceiver_create malloc of
        (result, receiver) \<Rightarrow>
          if result = APX_NO_ERROR then
            (if ring_ok
             then (APX_NO_ERROR, Some \<lparr>fm_shared = apx_fileManagerShared_create, fm_queue = [],
                     fm_receiver = receiver, fm_mode = mode\<rparr>)
             else (APX_MEM_ERROR, None))
          else (result, None))"

text \<open>Queues a publish command for every description; the results are ignored.\<close>

definition publish_local_files ::
  "ring_insert \<Rightarrow> text_lib \<Rightarrow> rmf_fileInfo option list \<Rightarrow> apx_fileManager \<Rightarrow> apx_fileManager" where
  "publish_local_files R T memories self =
     (case apx_fileManagerShared_copy_local_file_info T memories (fm_shared self) of
        (num_files, infos) \<Rightarrow>
          foldl (\<lambda>self info. snd (apx_fileManagerWorker_prepare_publish_local_file R self info))
            self (take (nat num_files) infos))"

definition apx_fileManager_connected ::
  "ring_insert \<Rightarrow> text_lib \<Rightarrow> rmf_fileInfo option list \<Rightarrow> apx_fileManager \<Rightarrow> apx_fileManager" where
  "apx_fileManager_connected R T memories self =
     (if fm_mode self = APX_CLIENT_MODE then publish_local_files R T memories self
      else snd (apx_fileManagerWorker_preare_acknowledge R self))"

definition apx_fileManager_disconnected :: "apx_fileManager \<Rightarrow> apx_fileManager" where
  "apx_fileManager_disconnected self = self\<lparr>fm_shared := apx_fileManagerShared_disconnected (fm_shared self)\<rparr>"

definition with_shared ::
  "apx_fileManager \<Rightarrow> apx_error \<times> 'a \<times> apx_fileManagerShared \<Rightarrow> apx_error \<times> 'a \<times> apx_fileManager" where
  "with_shared self r = (case r of (e, x, shared) \<Rightarrow> (e, x, self\<lparr>fm_shared := shared\<rparr>))"

definition apx_fileManager_create_local_file ::
  "text_lib \<Rightarrow> (nat \<times> apx_file) option \<Rightarrow> apx_fileManager \<Rightarrow> rmf_fileInfo \<Rightarrow>
     (apx_error \<times> nat option \<times> apx_fileManager) option" where
  "apx_fileManager_create_local_file T memory self info =
     map_option (with_shared self) (apx_fileManagerShared_create_local_file T memory (fm_shared self) info)"

definition apx_fileManager_publish_local_file ::
  "ring_insert \<Rightarrow> text_lib \<Rightarrow> rmf_fileInfo option \<Rightarrow> apx_fileManager \<Rightarrow> rmf_fileInfo \<Rightarrow> apx_error \<times> apx_fileManager" where
  "apx_fileManager_publish_local_file R T memory self info =
     (case rmf_fileInfo_clone T memory info of
        None \<Rightarrow> (APX_MEM_ERROR, self)
      | Some cloned_info \<Rightarrow> apx_fileManagerWorker_prepare_publish_local_file R self cloned_info)"

definition apx_fileManager_find_file_by_address ::
  "apx_fileManager \<Rightarrow> u32 \<Rightarrow> apx_error \<times> nat option \<times> apx_fileManager" where
  "apx_fileManager_find_file_by_address self address =
     with_shared self (apx_fileManagerShared_find_file_by_address (fm_shared self) address)"

definition apx_fileManager_find_local_file_by_name ::
  "text_lib \<Rightarrow> apx_fileManager \<Rightarrow> byte list \<Rightarrow> apx_error \<times> nat option \<times> apx_fileManager" where
  "apx_fileManager_find_local_file_by_name T self name =
     with_shared self (apx_fileManagerShared_find_local_file_by_name T (fm_shared self) name)"

definition apx_fileManager_find_remote_file_by_name ::
  "text_lib \<Rightarrow> apx_fileManager \<Rightarrow> byte list \<Rightarrow> apx_error \<times> nat option \<times> apx_fileManager" where
  "apx_fileManager_find_remote_file_by_name T self name =
     with_shared self (apx_fileManagerShared_find_remote_file_by_name T (fm_shared self) name)"

text \<open>What both senders do first: the file must be there and open.\<close>

definition when_open ::
  "apx_fileManager \<Rightarrow> u32 \<Rightarrow> (apx_fileManager \<Rightarrow> apx_error \<times> apx_fileManager) \<Rightarrow> apx_error \<times> apx_fileManager" where
  "when_open self address send =
     (case apx_fileManager_find_file_by_address self address of
        (e, found, self) \<Rightarrow>
          if is_fault e then (e, self)
          else (case found of
                  None \<Rightarrow> (APX_FILE_NOT_FOUND_ERROR, self)
                | Some p \<Rightarrow>
                    (case the_file (fm_shared self) p of
                       None \<Rightarrow> (FAULT USE_AFTER_FREE, self)
                     | Some file \<Rightarrow>
                         if \<not> is_file_open file then (APX_FILE_NOT_OPEN_ERROR, self) else send self)))"

definition apx_fileManager_send_local_const_data ::
  "ring_insert \<Rightarrow> apx_fileManager \<Rightarrow> u32 \<Rightarrow> byte list \<Rightarrow> u32 \<Rightarrow> apx_error \<times> apx_fileManager" where
  "apx_fileManager_send_local_const_data R self address data n =
     when_open self address (\<lambda>self. apx_fileManagerWorker_prepare_send_local_const_data R self address data n)"

definition apx_fileManager_send_local_data ::
  "ring_insert \<Rightarrow> apx_fileManager \<Rightarrow> u32 \<Rightarrow> byte list \<Rightarrow> u32 \<Rightarrow> apx_error \<times> apx_fileManager" where
  "apx_fileManager_send_local_data R self address data n =
     when_open self address (\<lambda>self. apx_fileManagerWorker_prepare_send_local_data R self address data n)"

definition apx_fileManager_send_open_file_request ::
  "ring_insert \<Rightarrow> apx_fileManager \<Rightarrow> u32 \<Rightarrow> apx_error \<times> apx_fileManager" where
  "apx_fileManager_send_open_file_request R self address =
     apx_fileManagerWorker_prepare_send_open_file_request R self address"

definition apx_fileManager_send_error_code :: "apx_fileManager \<Rightarrow> apx_error \<Rightarrow> apx_error \<times> apx_fileManager" where
  "apx_fileManager_send_error_code self error_code = (APX_NO_ERROR, self)"

definition apx_fileManager_get_num_pending_worker_commands :: "apx_fileManager \<Rightarrow> u16" where
  "apx_fileManager_get_num_pending_worker_commands self = of_nat (length (fm_queue self))"

definition apx_fileManager_set_connection_id :: "apx_fileManager \<Rightarrow> u32 \<Rightarrow> apx_fileManager" where
  "apx_fileManager_set_connection_id self cid =
     self\<lparr>fm_shared := apx_fileManagerShared_set_connection_id (fm_shared self) cid\<rparr>"

section \<open>Messages\<close>

text \<open>The outcome of a message: an error code, what there is to notify, the manager.\<close>

type_synonym outcome = "apx_error \<times> notification option \<times> apx_fileManager"

definition process_file_write_message :: "apx_fileManager \<Rightarrow> u32 \<Rightarrow> byte list \<Rightarrow> u32 \<Rightarrow> outcome" where
  "process_file_write_message self address data n =
     (case apx_fileManager_find_file_by_address self (address OR RMF_HIGH_ADDR_BIT) of
        (e, found, self) \<Rightarrow>
          if is_fault e then (e, None, self)
          else (case found of
                  None \<Rightarrow> (APX_INVALID_WRITE_ERROR, None, self)
                | Some p \<Rightarrow>
                    (case the_file (fm_shared self) p of
                       None \<Rightarrow> (FAULT USE_AFTER_FREE, None, self)
                     | Some file \<Rightarrow>
                         if \<not> is_file_open file then (APX_NO_ERROR, None, self)
                         else let start_address = apx_file_get_address_without_flags file in
                           if start_address \<le> address
                           then (APX_NO_ERROR, Some (FILE_WRITTEN p (address - start_address) data n), self)
                           else (FAULT ASSERT_FAILURE, None, self))))"

definition process_open_file_request :: "apx_fileManager \<Rightarrow> u32 \<Rightarrow> outcome" where
  "process_open_file_request self start_address =
     (case apx_fileManager_find_file_by_address self start_address of
        (e, found, self) \<Rightarrow>
          if is_fault e then (e, None, self)
          else (case found of
                  None \<Rightarrow> (APX_FILE_NOT_FOUND_ERROR, None, self)
                | Some p \<Rightarrow> (APX_NO_ERROR, Some (FILE_OPENED p),
                    self\<lparr>fm_shared := change_file p apx_file_open (fm_shared self)\<rparr>)))"

definition process_close_file_request :: "apx_fileManager \<Rightarrow> u32 \<Rightarrow> outcome" where
  "process_close_file_request self start_address = (APX_NOT_IMPLEMENTED_ERROR, None, self)"

definition process_remote_file_published ::
  "text_lib \<Rightarrow> (nat \<times> apx_file) option \<Rightarrow> apx_fileManager \<Rightarrow> rmf_fileInfo \<Rightarrow> outcome option" where
  "process_remote_file_published T memory self info =
     map_option (\<lambda>(e, file, shared). let self = self\<lparr>fm_shared := shared\<rparr> in
         if is_fault e then (e, None, self)
         else (case file of
                 None \<Rightarrow> (APX_FILE_CREATE_ERROR, None, self)
               | Some p \<Rightarrow> (APX_NO_ERROR, Some (FILE_PUBLISHED p), self)))
       (apx_fileManagerShared_create_remote_file T memory (fm_shared self) info)"

text \<open>The memory for a description that arrives and for the file made of it.\<close>

record message_memory =
  mm_info :: "rmf_fileInfo option"
  mm_file :: "(nat \<times> apx_file) option"

definition process_command_message ::
  "cutil \<Rightarrow> text_lib \<Rightarrow> message_memory \<Rightarrow> apx_fileManager \<Rightarrow> byte list \<Rightarrow> outcome option" where
  "process_command_message C T M self data =
     (if length data < RMF_CMD_TYPE_SIZE then Some (APX_INVALID_MSG_ERROR, None, self)
      else
        let ctype = unpackLE C (take 4 data) 4;
            cmd_size = length data - RMF_CMD_TYPE_SIZE;
            rest = drop RMF_CMD_TYPE_SIZE data
        in if ctype = RMF_CMD_PUBLISH_FILE_MSG then
             (case rmf_fileInfo_make_empty T (mm_info M) of
                None \<Rightarrow> Some (APX_MEM_ERROR, None, self)
              | Some info \<Rightarrow>
                  (case rmf_decode_publish_file_cmd C T data info of
                     (decoded_size, info) \<Rightarrow>
                       if decoded_size > 0 then process_remote_file_published T (mm_file M) self info
                       else Some (APX_INVALID_MSG_ERROR, None, self)))
           else if ctype = RMF_CMD_REVOKE_FILE_MSG then Some (APX_NO_ERROR, None, self)
           else if ctype = RMF_CMD_OPEN_FILE_MSG then
             Some (if cmd_size = RMF_FILE_OPEN_CMD_SIZE then process_open_file_request self (unpackLE C (take 4 rest) 4)
                   else (APX_INVALID_MSG_ERROR, None, self))
           else if ctype = RMF_CMD_CLOSE_FILE_MSG then
             Some (if cmd_size = RMF_FILE_OPEN_CMD_SIZE then process_close_file_request self (unpackLE C (take 4 rest) 4)
                   else (APX_INVALID_MSG_ERROR, None, self))
           else Some (APX_UNSUPPORTED_ERROR, None, self))"

definition process_message ::
  "cutil \<Rightarrow> text_lib \<Rightarrow> message_memory \<Rightarrow> apx_fileManager \<Rightarrow> u32 \<Rightarrow> byte list \<Rightarrow> u32 \<Rightarrow> outcome option" where
  "process_message C T M self address data n =
     (if address = RMF_CMD_AREA_START_ADDRESS then process_command_message C T M self (take (unat n) data)
      else if address < RMF_CMD_AREA_START_ADDRESS then Some (process_file_write_message self address data n)
      else Some (APX_INVALID_ADDRESS_ERROR, None, self))"

definition apx_fileManager_message_received ::
  "cutil \<Rightarrow> text_lib \<Rightarrow> message_memory \<Rightarrow> apx_fileManager \<Rightarrow> byte list \<Rightarrow> outcome option" where
  "apx_fileManager_message_received C T M self msg_data =
     (case rmf_address_decode C msg_data of
        (header_size, address, more_bit) \<Rightarrow>
          if header_size > 0 then
            let data = drop header_size msg_data in
            (case apx_fileManagerReceiver_write (fm_receiver self) no_result (the_default RMF_INVALID_ADDRESS address)
                    data (of_nat (length data)) (the_default False more_bit) of
               (error_code, receiver, result) \<Rightarrow>
                 let self = self\<lparr>fm_receiver := receiver\<rparr> in
                 if error_code \<noteq> APX_NO_ERROR then Some (error_code, None, self)
                 else if is_complete result
                 then process_message C T M self (rr_address result) (the_default [] (rr_data result)) (rr_size result)
                 else Some (APX_NO_ERROR, None, self))
          else Some (APX_INVALID_MSG_ERROR, None, self))"

section \<open>Invariant\<close>

definition manager_ok :: "apx_fileManager \<Rightarrow> bool" where
  "manager_ok self \<longleftrightarrow> receiver_ok (fm_receiver self) \<and>
     files_ok (local_file_map (fm_shared self)) \<and> files_ok (remote_file_map (fm_shared self)) \<and>
     is_remote_map (remote_file_map (fm_shared self)) \<and>
     fst ` set (file_list (local_file_map (fm_shared self))) \<inter>
       fst ` set (file_list (remote_file_map (fm_shared self))) = {}"

lemma high_bit_address:
  fixes a :: u32
  assumes "a < 0x80000000"
  shows "(a OR 0x80000000) AND 0x7FFFFFFF = a" and "a OR 0x80000000 \<noteq> 0x7FFFFFFF"
proof -
  have a: "bit a k \<Longrightarrow> k < 31" for k
    using word_bit_bound [of a 31 k] assms by simp
  have mask: "(0x7FFFFFFF :: u32) = mask 31" by (simp add: mask_eq_exp_minus_1)
  show "(a OR 0x80000000) AND 0x7FFFFFFF = a"
    unfolding mask using a by (auto intro!: bit_word_eqI simp: bit_simps bit_consts)
  show "a OR 0x80000000 \<noteq> 0x7FFFFFFF"
  proof
    assume "a OR 0x80000000 = 0x7FFFFFFF"
    then have "bit (a OR 0x80000000) 31 = bit (0x7FFFFFFF :: u32) 31" by simp
    then show False by (simp add: bit_simps bit_consts)
  qed
qed

text \<open>The search in the remote files, and what a write to an open file reports.\<close>

lemma find_remote_file:
  assumes "manager_ok self" and "a < 0x80000000"
  shows "\<exists>r m. apx_fileManager_find_file_by_address self (a OR 0x80000000) =
      (APX_NO_ERROR, r, self\<lparr>fm_shared := fm_shared self\<lparr>remote_file_map := m\<rparr>\<rparr>) \<and>
    manager_ok (self\<lparr>fm_shared := fm_shared self\<lparr>remote_file_map := m\<rparr>\<rparr>) \<and>
    file_list m = file_list (remote_file_map (fm_shared self)) \<and>
    (\<forall>p. r = Some p \<longleftrightarrow> (\<exists>f. (p, f) \<in> set (file_list (remote_file_map (fm_shared self))) \<and>
       start f \<le> unat a \<and> unat a < behind f))"
proof -
  have ok: "files_ok (remote_file_map (fm_shared self))" using assms(1) by (simp add: manager_ok_def)
  from find_by_address_file [OF ok, of a]
  obtain r m where m: "apx_fileMap_find_by_address (remote_file_map (fm_shared self)) a = (APX_NO_ERROR, r, m)"
    "files_ok m" "file_list m = file_list (remote_file_map (fm_shared self))"
    "\<forall>p. r = Some p \<longleftrightarrow> (\<exists>f. (p, f) \<in> set (file_list (remote_file_map (fm_shared self))) \<and>
       start f \<le> unat a \<and> unat a < behind f)" by blast
  have "is_remote_map m = is_remote_map (remote_file_map (fm_shared self))"
    using m(1) by (auto simp: apx_fileMap_find_by_address_def find_file_def Let_def split: option.splits prod.splits if_splits)
  with m assms show ?thesis
    by (intro exI [of _ r] exI [of _ m])
       (simp add: apx_fileManager_find_file_by_address_def with_shared_def manager_ok_def
         apx_fileManagerShared_find_file_by_address_def high_bit_address remote_flag_set)
qed

lemma the_remote_file:
  assumes "files_ok (remote_file_map self)" and "(p, f) \<in> set (file_list (remote_file_map self))"
  shows "the_file self p = Some f"
  using assms by (simp add: the_file_def files_ok_def map_of_eq_Some_iff)

lemma file_write_reported:
  assumes ok: "manager_ok self" and f: "(p, f) \<in> set (file_list (remote_file_map (fm_shared self)))"
    and "is_file_open f" and range: "start f \<le> unat a" "unat a < behind f" and a: "a < 0x80000000"
  shows "\<exists>self'. process_file_write_message self a data n =
      (APX_NO_ERROR, Some (FILE_WRITTEN p (a - apx_file_get_address_without_flags f) data n), self') \<and>
    manager_ok self' \<and> fm_receiver self' = fm_receiver self \<and>
    file_list (remote_file_map (fm_shared self')) = file_list (remote_file_map (fm_shared self))"
proof -
  from find_remote_file [OF ok a]
  obtain r m where r: "apx_fileManager_find_file_by_address self (a OR 0x80000000) =
      (APX_NO_ERROR, r, self\<lparr>fm_shared := fm_shared self\<lparr>remote_file_map := m\<rparr>\<rparr>)"
    and m: "manager_ok (self\<lparr>fm_shared := fm_shared self\<lparr>remote_file_map := m\<rparr>\<rparr>)"
    "file_list m = file_list (remote_file_map (fm_shared self))"
    and found: "\<forall>p. r = Some p \<longleftrightarrow> (\<exists>f. (p, f) \<in> set (file_list (remote_file_map (fm_shared self))) \<and>
       start f \<le> unat a \<and> unat a < behind f)" by (elim exE conjE) (rule that)
  have "r = Some p" using found f range by blast
  have "the_file (fm_shared self\<lparr>remote_file_map := m\<rparr>) p = Some f"
    using m f by (intro the_remote_file) (simp_all add: manager_ok_def)
  with r m \<open>r = Some p\<close> assms show ?thesis
    by (simp add: process_file_write_message_def word_le_nat_alt)
qed

section \<open>Messages of fragments\<close>

fun receive_messages ::
  "cutil \<Rightarrow> text_lib \<Rightarrow> apx_fileManager \<Rightarrow> (message_memory \<times> byte list) list \<Rightarrow>
     ((apx_error \<times> notification option) list \<times> apx_fileManager) option" where
  "receive_messages C T self [] = Some ([], self)"
| "receive_messages C T self ((M, msg) # msgs) =
     (case apx_fileManager_message_received C T M self msg of
        None \<Rightarrow> None
      | Some (e, note, self) \<Rightarrow>
          map_option (\<lambda>(outcomes, self). ((e, note) # outcomes, self)) (receive_messages C T self msgs))"

definition fragment_message :: "u32 \<times> byte list \<times> bool \<Rightarrow> byte list" where
  "fragment_message f = (case f of (address, data, more_bit) \<Rightarrow> address_bytes (address, more_bit) @ data)"

lemma fragment_received:
  assumes "packs_big_endian C" and "address \<le> RMF_HIGH_ADDR_MAX"
  shows "apx_fileManager_message_received C T M self (fragment_message (address, data, more_bit)) =
    (case apx_fileManagerReceiver_write (fm_receiver self) no_result address data (of_nat (length data)) more_bit of
       (error_code, receiver, result) \<Rightarrow>
         let self = self\<lparr>fm_receiver := receiver\<rparr> in
         if error_code \<noteq> APX_NO_ERROR then Some (error_code, None, self)
         else if is_complete result
         then process_message C T M self (rr_address result) (the_default [] (rr_data result)) (rr_size result)
         else Some (APX_NO_ERROR, None, self))"
  using address_bytes_nonempty [of "(address, more_bit)"]
  by (simp add: apx_fileManager_message_received_def fragment_message_def address_decode_bytes [OF assms])

lemma no_result_incomplete: "\<not> is_complete no_result"
  by (simp add: no_result_def)

lemma messages_of_fragments:
  assumes "packs_big_endian C" and "\<forall>(a, d, b) \<in> set frags. a \<le> RMF_HIGH_ADDR_MAX"
    and "receive_all (fm_receiver self) frags = (replicate k (APX_NO_ERROR, no_result) @ [(APX_NO_ERROR, r)], rx)"
    and "is_complete r"
  shows "receive_messages C T self (map (\<lambda>f. (M, fragment_message f)) frags) =
    map_option (\<lambda>(e, note, self). (replicate k (APX_NO_ERROR, None) @ [(e, note)], self))
      (process_message C T M (self\<lparr>fm_receiver := rx\<rparr>) (rr_address r) (the_default [] (rr_data r)) (rr_size r))"
  using assms(2,3)
proof (induction frags arbitrary: self k)
  case Nil
  then show ?case by simp
next
  case (Cons f frags)
  obtain a d b where f: "f = (a, d, b)" by (cases f)
  obtain e rx1 r1 where w: "apx_fileManagerReceiver_write (fm_receiver self) no_result a d (of_nat (length d)) b = (e, rx1, r1)"
    by (cases "apx_fileManagerReceiver_write (fm_receiver self) no_result a d (of_nat (length d)) b") auto
  obtain rs rx2 where rest: "receive_all rx1 frags = (rs, rx2)"
    by (cases "receive_all rx1 frags") auto
  have eq: "(e, r1) # rs = replicate k (APX_NO_ERROR, no_result) @ [(APX_NO_ERROR, r)]" "rx2 = rx"
    using Cons.prems(2) by (simp_all add: f w rest)
  note rec = fragment_received [OF assms(1), of a T M self d b]
  have a: "a \<le> RMF_HIGH_ADDR_MAX" using Cons.prems(1) f by simp
  show ?case
  proof (cases k)
    case 0
    with eq have e: "e = APX_NO_ERROR" "r1 = r" "rs = []" by simp_all
    then have "frags = []" using rest by (cases frags) (auto split: prod.splits)
    with e rest eq(2) assms(4) show ?thesis
      by (cases "process_message C T M (self\<lparr>fm_receiver := rx\<rparr>) (rr_address r) (the_default [] (rr_data r)) (rr_size r)")
         (simp_all add: f rec [OF a] w 0 split: prod.split)
  next
    case (Suc j)
    with eq have e: "e = APX_NO_ERROR" "r1 = no_result"
      "rs = replicate j (APX_NO_ERROR, no_result) @ [(APX_NO_ERROR, r)]" by simp_all
    have "receive_all (fm_receiver (self\<lparr>fm_receiver := rx1\<rparr>)) frags =
        (replicate j (APX_NO_ERROR, no_result) @ [(APX_NO_ERROR, r)], rx)"
      using rest e eq(2) by simp
    from Cons.IH [OF _ this] Cons.prems(1) show ?thesis
      by (cases "process_message C T M (self\<lparr>fm_receiver := rx\<rparr>) (rr_address r) (the_default [] (rr_data r)) (rr_size r)")
         (simp_all add: f rec [OF a] w e Suc no_result_incomplete split: prod.split)
  qed
qed

lemma fragment_addresses:
  "unat a + length (concat ds) \<le> 0x3FFFFFFF \<Longrightarrow> \<forall>(b, d, m) \<in> set (fragments a ds). b \<le> RMF_HIGH_ADDR_MAX"
proof (induction ds arbitrary: a)
  case Nil
  then show ?case by simp
next
  case (Cons d ds)
  have "unat (a + of_nat (length d)) = unat a + length d"
    using Cons.prems by (simp add: unat_word_ariths unat_of_nat)
  with Cons.prems Cons.IH [of "a + of_nat (length d)"] show ?case
    by (simp add: word_le_nat_alt)
qed

text \<open> C20:
  What a peer writes into a file arrives: if the address lies in an open remote file, the message may
  come in any contiguous fragments, each behind its encoded address, and the manager reports exactly one
  write, for that file, at the offset of the address in the file, with the bytes of the
  fragments in order. The manager keeps its invariant and is ready for the next message.
\<close>

theorem file_write_delivered:
  assumes "packs_big_endian C" and "manager_ok self" and "idle (fm_receiver self)"
    and "(p, f) \<in> set (file_list (remote_file_map (fm_shared self)))" and "is_file_open f"
    and "unat (apx_file_get_address_without_flags f) \<le> unat a"
    and "unat a < unat (apx_file_get_address_without_flags f) + unat (fi_size (file_info f))"
    and "ds \<noteq> []" and "length (concat ds) \<le> unat (rx_buf_size (fm_receiver self))"
    and "unat a + length (concat ds) \<le> 0x3FFFFC00" and "a < RMF_CMD_AREA_START_ADDRESS"
  shows "\<exists>buf self'. receive_messages C T self (map (\<lambda>f. (M, fragment_message f)) (fragments a ds)) =
      Some (replicate (length ds - 1) (APX_NO_ERROR, None) @
        [(APX_NO_ERROR, Some (FILE_WRITTEN p (a - apx_file_get_address_without_flags f) buf (of_nat (length (concat ds)))))], self') \<and>
    take (length (concat ds)) buf = concat ds \<and> manager_ok self' \<and> idle (fm_receiver self')"
proof -
  have "unat a + length (concat ds) < 0x7FFFFFFF" using assms(10) by simp
  from fragments_reassembled [OF assms(3,8,9) this] obtain buf rx where
    r: "receive_all (fm_receiver self) (fragments a ds) =
      (replicate (length ds - 1) (APX_NO_ERROR, no_result) @ [(APX_NO_ERROR, whole a buf (length (concat ds)))], rx)"
    "take (length (concat ds)) buf = concat ds" "idle rx"
    by (auto simp: map_replicate_const)
  have "unat a + length (concat ds) \<le> 0x3FFFFFFF" using assms(10) by simp
  note msgs = messages_of_fragments [OF assms(1) fragment_addresses [OF this] r(1), of T M]
  let ?self = "self\<lparr>fm_receiver := rx\<rparr>"
  have ok: "manager_ok ?self" using assms(2) r(3) by (simp add: manager_ok_def idle_def)
  have a: "a < 0x80000000" using assms(11) by (simp add: word_less_nat_alt)
  obtain self' where w: "process_file_write_message ?self a buf (of_nat (length (concat ds))) =
      (APX_NO_ERROR, Some (FILE_WRITTEN p (a - apx_file_get_address_without_flags f) buf (of_nat (length (concat ds)))), self')"
    "manager_ok self'" "fm_receiver self' = fm_receiver ?self"
    using file_write_reported [OF ok _ assms(5) _ _ a, of p] assms(4,6,7) unfolding behind_def by fastforce
  have "process_message C T M ?self a buf (of_nat (length (concat ds))) =
      Some (process_file_write_message ?self a buf (of_nat (length (concat ds))))"
    using assms(11) by (auto simp: process_message_def)
  with msgs w r(2,3) show ?thesis by (simp add: whole_def)
qed

definition demo_manager :: apx_fileManager where
  "demo_manager = \<lparr>fm_shared = \<lparr>
       local_file_map = \<lparr>is_remote_map = False, file_list = [(5, demo_file 0x100 64 2)], last_file = None\<rparr>,
       remote_file_map = \<lparr>is_remote_map = True,
         file_list = [(1, (demo_file 0x80000000 100 3)\<lparr>is_file_open := True\<rparr>)], last_file = None\<rparr>,
       connection_id = 1, is_connected = True\<rparr>,
     fm_queue = [], fm_receiver = demo_receiver, fm_mode = APX_SERVER_MODE\<rparr>"

lemma demo_manager_ok: "manager_ok demo_manager"
  using demo_receiver_idle
  by (simp add: manager_ok_def demo_manager_def idle_def files_ok_def demo_file_def apart_def behind_def
      apx_file_get_address_without_flags_def rmf_fileInfo_address_without_flags_def)

theorem file_write_delivered_witness:
  "\<exists>buf self'. receive_messages cutil_bytes text_bytes demo_manager
      (map (\<lambda>f. (\<lparr>mm_info = None, mm_file = None\<rparr>, fragment_message f)) (fragments 0x10 [[1, 2], [3]])) =
      Some ([(APX_NO_ERROR, None), (APX_NO_ERROR, Some (FILE_WRITTEN 1 0x10 buf 3))], self') \<and>
    take 3 buf = [1, 2, 3] \<and> manager_ok self' \<and> idle (fm_receiver self')"
proof -
  let ?f = "(demo_file 0x80000000 100 3)\<lparr>is_file_open := True\<rparr>"
  have three: "length (concat [[1, 2], [3 :: byte]]) = 3" and bytes: "concat [[1, 2], [3 :: byte]] = [1, 2, 3]" by simp_all
  have start: "apx_file_get_address_without_flags ?f = 0" "unat (fi_size (file_info ?f)) = 100" "is_file_open ?f"
    by (simp_all add: demo_file_def apx_file_get_address_without_flags_def rmf_fileInfo_address_without_flags_def)
  have rx: "fm_receiver demo_manager = demo_receiver" "(1, ?f) \<in> set (file_list (remote_file_map (fm_shared demo_manager)))"
    by (simp_all add: demo_manager_def)
  show ?thesis
    using file_write_delivered [where C = cutil_bytes and self = demo_manager and p = 1 and a = "0x10"
        and T = text_bytes and M = "\<lparr>mm_info = None, mm_file = None\<rparr>" and ds = "[[1, 2], [3]]" and f = ?f,
        OF cutil_bytes_be demo_manager_ok, unfolded three bytes start rx(1) demo_receiver_idle(2)]
      rx(2) demo_receiver_idle(1)
    by (simp add: numeral_3_eq_3 del: receive_messages.simps fragments.simps)
qed

section \<open>What a worker sends and its peer receives\<close>

lemma change_in_fst: "fst ` set (file_list (change_in p g m)) = fst ` set (file_list m)"
  by (force simp: change_in_def)

lemma change_in_ok:
  assumes "files_ok m" and "\<And>f. file_info (g f) = file_info f"
  shows "files_ok (change_in p g m)"
proof -
  have same: "start (g f) = start f" "behind (g f) = behind f" "apx_file_get_address_without_flags (g f) = apx_file_get_address_without_flags f" for f
    using assms(2) by (simp_all add: behind_def apx_file_get_address_without_flags_def)
  have "map fst (file_list (change_in p g m)) = map fst (file_list m)"
    by (auto simp: change_in_def)
  then have "distinct (map fst (file_list (change_in p g m))) = distinct (map fst (file_list m))" by (rule arg_cong)
  moreover have "sorted_wrt apart fs \<Longrightarrow> sorted_wrt apart (map (\<lambda>(q, f). (q, if q = p then g f else f)) fs)" for fs
    by (induction fs) (auto simp: apart_def same)
  then have "sorted_wrt apart (file_list m) \<Longrightarrow> sorted_wrt apart (file_list (change_in p g m))"
    by (simp add: change_in_def)
  moreover have "pf \<in> set (file_list (change_in p g m)) \<Longrightarrow> \<exists>qf \<in> set (file_list m).
      behind (snd pf) = behind (snd qf) \<and> file_info (snd pf) = file_info (snd qf)" for pf
    by (force simp: change_in_def same assms(2))
  ultimately show ?thesis
    using assms(1) change_in_fst [of p g m] unfolding files_ok_def
    by (simp add: change_in_def [THEN arg_cong [where f = is_remote_map]]
        change_in_def [THEN arg_cong [where f = last_file]]) metis
qed

text \<open>A command that fits the buffer, in one message.\<close>

lemma command_received:
  assumes "packs_big_endian C" and "manager_ok self" and "idle (fm_receiver self)"
    and "length data \<le> unat (rx_buf_size (fm_receiver self))" and "length data \<le> 1024"
  shows "\<exists>rx. apx_fileManager_message_received C T M self
        (fragment_message (RMF_CMD_AREA_START_ADDRESS, data, False)) =
      process_command_message C T M (self\<lparr>fm_receiver := rx\<rparr>) data \<and>
    manager_ok (self\<lparr>fm_receiver := rx\<rparr>) \<and> idle rx"
proof -
  have n: "unat (of_nat (length data) :: u32) = length data" using assms(5) by (simp add: unat_of_nat)
  have "unat (0x3FFFFC00 :: u32) + length (concat [data]) < 0x7FFFFFFF" using assms(5) by simp
  from fragments_reassembled [OF assms(3) _ _ this] assms(4) obtain buf rx where
    "receive_all (fm_receiver self) (fragments RMF_CMD_AREA_START_ADDRESS [data]) =
      ([(APX_NO_ERROR, whole RMF_CMD_AREA_START_ADDRESS buf (length data))], rx)"
    "take (length data) buf = data" "idle rx" by auto
  then have "apx_fileManagerReceiver_write (fm_receiver self) no_result RMF_CMD_AREA_START_ADDRESS data (of_nat (length data)) False =
      (APX_NO_ERROR, rx, whole RMF_CMD_AREA_START_ADDRESS buf (length data))"
    by (auto split: prod.splits)
  with \<open>take (length data) buf = data\<close> have "apx_fileManager_message_received C T M self
        (fragment_message (RMF_CMD_AREA_START_ADDRESS, data, False)) =
      process_command_message C T M (self\<lparr>fm_receiver := rx\<rparr>) data"
    by (simp add: fragment_received [OF assms(1)] process_message_def whole_def n)
  moreover have "manager_ok (self\<lparr>fm_receiver := rx\<rparr>)"
    using assms(2) \<open>idle rx\<close> by (simp add: manager_ok_def idle_def)
  ultimately show ?thesis using \<open>idle rx\<close> by blast
qed

lemma find_local_file:
  assumes "manager_ok self" and "a < 0x40000000"
  shows "\<exists>r m. apx_fileManager_find_file_by_address self a =
      (APX_NO_ERROR, r, self\<lparr>fm_shared := fm_shared self\<lparr>local_file_map := m\<rparr>\<rparr>) \<and>
    files_ok m \<and> file_list m = file_list (local_file_map (fm_shared self)) \<and>
    (\<forall>p. r = Some p \<longleftrightarrow> (\<exists>f. (p, f) \<in> set (file_list (local_file_map (fm_shared self))) \<and>
       start f \<le> unat a \<and> unat a < behind f))"
proof -
  have ok: "files_ok (local_file_map (fm_shared self))" using assms(1) by (simp add: manager_ok_def)
  have "bit a k \<Longrightarrow> k < 30" for k using word_bit_bound [of a 30 k] assms(2) by simp
  then have low: "a AND 0x80000000 = 0" "a AND 0x7FFFFFFF = a" "a \<noteq> RMF_INVALID_ADDRESS"
    using assms(2) by (force intro!: bit_word_eqI simp: bit_simps bit_consts)+
  from find_by_address_file [OF ok, of a] low show ?thesis
    by (auto simp: apx_fileManager_find_file_by_address_def with_shared_def apx_fileManagerShared_find_file_by_address_def)
qed

text \<open> C28:
  An open request arrives: what the worker transmits for it is a message that makes the peer open the
  local file at the requested address, and only this file, and report it; the peer keeps its invariant.
\<close>

theorem open_request_opens:
  assumes "packs_big_endian C" and "packs_little_endian C"
    and "manager_ok peer" and "idle (fm_receiver peer)" and "8 \<le> unat (rx_buf_size (fm_receiver peer))"
    and "(p, f) \<in> set (file_list (local_file_map (fm_shared peer)))"
    and "unat (apx_file_get_address_without_flags f) \<le> unat a"
    and "unat a < unat (apx_file_get_address_without_flags f) + unat (fi_size (file_info f))"
    and "a \<le> RMF_HIGH_ADDR_MAX"
  shows "\<exists>buffer peer'. run_open_remote_file C I a con =
      transmit_data_message I con RMF_CMD_AREA_START_ADDRESS False buffer 8 \<and>
    apx_fileManager_message_received C T M peer
        (fragment_message (RMF_CMD_AREA_START_ADDRESS, take 8 buffer, False)) =
      Some (APX_NO_ERROR, Some (FILE_OPENED p), peer') \<and>
    file_list (local_file_map (fm_shared peer')) =
      map (\<lambda>(q, g). (q, if q = p then apx_file_open g else g)) (file_list (local_file_map (fm_shared peer))) \<and>
    manager_ok peer'"
proof -
  have len: "length (packLE C v 4) = 4" for v using assms(2) by (simp add: codec_simps)
  let ?data = "packLE C RMF_CMD_OPEN_FILE_MSG 4 @ packLE C (ucast a) 4"
  have high: "\<not> a > RMF_HIGH_ADDR_MAX" using assms(9) by (metis leD)
  have sent: "run_open_remote_file C I a con =
      transmit_data_message I con RMF_CMD_AREA_START_ADDRESS False ?data 8"
    using high by (simp add: run_open_remote_file_def rmf_encode_open_file_cmd_def transmit_command_def put_def
      mem_write_def len)
  obtain rx where rx: "apx_fileManager_message_received C T M peer
        (fragment_message (RMF_CMD_AREA_START_ADDRESS, ?data, False)) =
      process_command_message C T M (peer\<lparr>fm_receiver := rx\<rparr>) ?data"
    "manager_ok (peer\<lparr>fm_receiver := rx\<rparr>)" "idle rx"
    using command_received [OF assms(1,3,4), of ?data T M] assms(5) by (auto simp: len)
  let ?peer = "peer\<lparr>fm_receiver := rx\<rparr>"
  have "a < 0x40000000" using assms(9) by (simp add: word_less_nat_alt word_le_nat_alt)
  from find_local_file [OF rx(2) this] obtain r m where
    r: "apx_fileManager_find_file_by_address ?peer a =
      (APX_NO_ERROR, r, ?peer\<lparr>fm_shared := fm_shared ?peer\<lparr>local_file_map := m\<rparr>\<rparr>)"
    and m: "files_ok m" "file_list m = file_list (local_file_map (fm_shared peer))"
    and found: "\<forall>p. r = Some p \<longleftrightarrow> (\<exists>f. (p, f) \<in> set (file_list (local_file_map (fm_shared peer))) \<and>
       start f \<le> unat a \<and> unat a < behind f)" by auto
  have "r = Some p" using found assms(6,7,8) unfolding behind_def by blast
  let ?peer' = "?peer\<lparr>fm_shared := change_file p apx_file_open (fm_shared ?peer\<lparr>local_file_map := m\<rparr>)\<rparr>"
  have "process_command_message C T M ?peer ?data = Some (APX_NO_ERROR, Some (FILE_OPENED p), ?peer')"
    using r \<open>r = Some p\<close>
    by (simp add: process_command_message_def process_open_file_request_def len unpack_packed(1) [OF assms(2)])
  moreover have "manager_ok ?peer'"
    using rx(2) m(1) change_in_ok [of _ apx_file_open p]
    by (simp add: manager_ok_def change_file_def change_in_fst apx_file_open_def m(2)) (simp add: change_in_def)
  ultimately show ?thesis
    using sent rx(1) m(2)
    by (intro exI [of _ ?data] exI [of _ ?peer'])
      (simp add: len change_file_def change_in_def apx_file_open_def)
qed

definition demo_connection :: "(u32 \<times> byte list \<times> bool) list connection_interface" where
  "demo_connection = \<lparr>transmit_begin = (\<lambda>con. (APX_NO_ERROR, con)), transmit_end = (\<lambda>con. (APX_NO_ERROR, con)),
     transmit_data_message = (\<lambda>con a more_bit data n. (APX_NO_ERROR, con @ [(a, take (unat n) data, more_bit)]))\<rparr>"

theorem open_request_opens_witness:
  "\<exists>msg peer'. snd (run_open_remote_file cutil_bytes demo_connection 0x100 []) = [msg] \<and>
    apx_fileManager_message_received cutil_bytes text_bytes \<lparr>mm_info = None, mm_file = None\<rparr> demo_manager
        (fragment_message msg) =
      Some (APX_NO_ERROR, Some (FILE_OPENED 5), peer') \<and> manager_ok peer'"
proof -
  let ?f = "demo_file 0x100 64 2"
  have here: "(5, ?f) \<in> set (file_list (local_file_map (fm_shared demo_manager)))" "fm_receiver demo_manager = demo_receiver"
    by (simp_all add: demo_manager_def)
  have start: "unat (apx_file_get_address_without_flags ?f) = 0x100" "unat (fi_size (file_info ?f)) = 64"
    by (simp_all add: demo_file_def apx_file_get_address_without_flags_def rmf_fileInfo_address_without_flags_def)
  have "\<exists>buffer peer'. run_open_remote_file cutil_bytes demo_connection 0x100 [] =
      transmit_data_message demo_connection [] RMF_CMD_AREA_START_ADDRESS False buffer 8 \<and>
    apx_fileManager_message_received cutil_bytes text_bytes \<lparr>mm_info = None, mm_file = None\<rparr> demo_manager
        (fragment_message (RMF_CMD_AREA_START_ADDRESS, take 8 buffer, False)) =
      Some (APX_NO_ERROR, Some (FILE_OPENED 5), peer') \<and>
    file_list (local_file_map (fm_shared peer')) =
      map (\<lambda>(q, g). (q, if q = 5 then apx_file_open g else g)) (file_list (local_file_map (fm_shared demo_manager))) \<and>
    manager_ok peer'"
    by (rule open_request_opens [OF cutil_bytes_be cutil_bytes_le demo_manager_ok _ _ here(1)])
      (simp_all add: here(2) demo_receiver_idle start)
  then obtain buffer peer' where r: "run_open_remote_file cutil_bytes demo_connection 0x100 [] =
      transmit_data_message demo_connection [] RMF_CMD_AREA_START_ADDRESS False buffer 8"
    "apx_fileManager_message_received cutil_bytes text_bytes \<lparr>mm_info = None, mm_file = None\<rparr> demo_manager
        (fragment_message (RMF_CMD_AREA_START_ADDRESS, take 8 buffer, False)) =
      Some (APX_NO_ERROR, Some (FILE_OPENED 5), peer')" "manager_ok peer'" by blast
  show ?thesis
    by (intro exI [of _ "(RMF_CMD_AREA_START_ADDRESS, take 8 buffer, False)"] exI [of _ peer'])
      (unfold r, simp add: demo_connection_def r(3))
qed

end
