(* ===== verification/Transmit.thy ===== *)
theory Transmit
  imports FileManager NumHeader
begin

text \<open>
  The sending half of a socket connection, apx/src/socket_client_connection.c. The same functions
  are in apx/src/extension/socket_server_connection.c under other names, with the same bodies. Messages
  are collected in a send buffer, each behind its length and its address, and sent as one packet at
  the end of a transmission. The byte array (adt_bytearray) and the socket library are not in the
  repository: clearing and resizing a byte array are parameters, and a packet given to the socket is
  appended to a list.
\<close>

section \<open>State and operations\<close>

abbreviation (input) SEND_BUFFER_GROW_SIZE :: u32 where "SEND_BUFFER_GROW_SIZE \<equiv> 4096"
abbreviation (input) NUMHEADER32_LONG_SIZE :: nat where "NUMHEADER32_LONG_SIZE \<equiv> 4"
abbreviation (input) RMF_HIGH_ADDR_SIZE :: nat where "RMF_HIGH_ADDR_SIZE \<equiv> 4"

record bytearray_lib =
  bytearray_clear :: "byte list \<Rightarrow> byte list"
  bytearray_resize :: "byte list \<Rightarrow> nat \<Rightarrow> byte list"

text \<open>
  What is documented: a cleared byte array is empty, and resizing gives the new length and keeps what
  is in front of it.
\<close>

definition bytearray_documented :: "bytearray_lib \<Rightarrow> bool" where
  "bytearray_documented A \<longleftrightarrow> (\<forall>b. bytearray_clear A b = []) \<and>
     (\<forall>b n. length (bytearray_resize A b n) = n \<and> take (length b) (bytearray_resize A b n) = take n b)"

definition bytearray_ref :: bytearray_lib where
  "bytearray_ref = \<lparr>bytearray_clear = (\<lambda>b. []), bytearray_resize = (\<lambda>b n. take n b @ replicate (n - length b) 0)\<rparr>"

lemma bytearray_ref_documented: "bytearray_documented bytearray_ref"
  by (auto simp: bytearray_documented_def bytearray_ref_def min_def)

record apx_clientSocketConnection =
  default_buffer_size :: u32
  pending_bytes :: u32
  send_buffer :: "byte list"
  has_socket :: bool
  packets :: "byte list list"

definition apx_clientSocketConnection_create :: "bool \<Rightarrow> apx_clientSocketConnection" where
  "apx_clientSocketConnection_create socket_object =
     \<lparr>default_buffer_size = SEND_BUFFER_GROW_SIZE, pending_bytes = 0, send_buffer = [],
      has_socket = socket_object, packets = []\<rparr>"

definition apx_clientSocketConnection_transmit_max_bytes_avaiable :: "apx_clientSocketConnection \<Rightarrow> u32" where
  "apx_clientSocketConnection_transmit_max_bytes_avaiable self = default_buffer_size self"

definition apx_clientSocketConnection_transmit_current_bytes_avaiable :: "apx_clientSocketConnection \<Rightarrow> u32" where
  "apx_clientSocketConnection_transmit_current_bytes_avaiable self =
     of_nat (length (send_buffer self)) - pending_bytes self"

definition send_packet ::
  "bytearray_lib \<Rightarrow> apx_clientSocketConnection \<Rightarrow> apx_error \<times> apx_clientSocketConnection" where
  "send_packet A self =
     (if has_socket self \<and> pending_bytes self > 0 then
        (case mem_read 0 (unat (pending_bytes self)) (send_buffer self) of
           None \<Rightarrow> (FAULT OUT_OF_BOUNDS, self)
         | Some data \<Rightarrow> (APX_NO_ERROR,
             self\<lparr>packets := packets self @ [data], send_buffer := bytearray_clear A (send_buffer self),
               pending_bytes := 0\<rparr>))
      else (APX_NO_ERROR, self))"

definition apx_clientSocketConnection_transmit_begin ::
  "bytearray_lib \<Rightarrow> apx_clientSocketConnection \<Rightarrow> apx_error \<times> apx_clientSocketConnection" where
  "apx_clientSocketConnection_transmit_begin A self =
     (let self = (if of_nat (length (send_buffer self)) < default_buffer_size self
                  then self\<lparr>send_buffer := bytearray_resize A (send_buffer self) (unat (default_buffer_size self))\<rparr>
                  else self);
          self = self\<lparr>pending_bytes := 0\<rparr>
      in c_assert (of_nat (length (send_buffer self)) \<ge> default_buffer_size self) (APX_NO_ERROR, self) self)"

definition apx_clientSocketConnection_transmit_end ::
  "bytearray_lib \<Rightarrow> apx_clientSocketConnection \<Rightarrow> apx_error \<times> apx_clientSocketConnection" where
  "apx_clientSocketConnection_transmit_end A self =
     (if pending_bytes self > 0 then send_packet A self else (APX_NO_ERROR, self))"

text \<open>\<open>memcpy(send_buffer + offset, bs, n)\<close>, and then the pending bytes grow by \<open>n\<close>.\<close>

definition append_pending ::
  "nat \<Rightarrow> byte list \<Rightarrow> u32 \<Rightarrow> apx_clientSocketConnection \<Rightarrow> apx_error \<times> apx_clientSocketConnection" where
  "append_pending offset data n self =
     (case mem_read 0 (unat n) data of
        None \<Rightarrow> (FAULT OUT_OF_BOUNDS, self)
      | Some bs \<Rightarrow>
          (case mem_write offset bs (send_buffer self) of
             None \<Rightarrow> (FAULT OUT_OF_BOUNDS, self)
           | Some buffer \<Rightarrow> (APX_NO_ERROR, self\<lparr>send_buffer := buffer, pending_bytes := pending_bytes self + n\<rparr>)))"

text \<open>Room for a message: a packet is sent first when it does not fit behind the pending bytes.\<close>

definition make_room ::
  "bytearray_lib \<Rightarrow> u32 \<Rightarrow> apx_clientSocketConnection \<Rightarrow> apx_error \<times> apx_clientSocketConnection" where
  "make_room A bytes_to_send self =
     (if bytes_to_send > of_nat (length (send_buffer self)) - pending_bytes self
      then andThen (send_packet A self) (\<lambda>self. c_assert (pending_bytes self = 0) (APX_NO_ERROR, self) self)
      else (APX_NO_ERROR, self))"

text \<open>
  The number behind \<open>bytes_available\<close> that both functions also give is
  \<open>transmit_current_bytes_avaiable\<close> of the new state. The length that is encoded is \<open>payload_size\<close>;
  what counts as \<open>bytes_to_send\<close> has the size of the address twice. A length that cannot be encoded makes
  a negative number, used as an unsigned one.
\<close>

definition apx_clientSocketConnection_transmit_data_message ::
  "bytearray_lib \<Rightarrow> cutil \<Rightarrow> apx_clientSocketConnection \<Rightarrow> u32 \<Rightarrow> bool \<Rightarrow> byte list \<Rightarrow> u32 \<Rightarrow>
     apx_error \<times> apx_clientSocketConnection" where
  "apx_clientSocketConnection_transmit_data_message A C self write_address more_bit msg_data msg_size =
     (let address_size = of_nat (rmf_needed_encoding_size write_address);
          payload_size = address_size + msg_size
      in if payload_size > default_buffer_size self then (APX_MSG_TOO_LARGE_ERROR, self)
      else
        (case numheader_encode32 C (Some (replicate (NUMHEADER32_LONG_SIZE + RMF_HIGH_ADDR_SIZE) 0)) 8 payload_size of
           Some (header1_size, Some header) \<Rightarrow>
             if header1_size < 0 then (FAULT OUT_OF_BOUNDS, self)
             else c_assert (header1_size > 0)
              (case rmf_address_encode C (Some (drop (nat header1_size) header)) (8 - nat header1_size) write_address more_bit of
                 Some (header2_size, Some rest) \<Rightarrow>
                   c_assert (of_nat header2_size = address_size)
                    (let header = take (nat header1_size) header @ rest;
                         header_size = of_nat (nat header1_size + header2_size)
                     in andThen (make_room A (header_size + payload_size) self) (\<lambda>self.
                        andThen (append_pending (unat (pending_bytes self)) header header_size self) (\<lambda>self.
                        append_pending (unat (pending_bytes self)) msg_data msg_size self))) self
               | _ \<Rightarrow> (FAULT OUT_OF_BOUNDS, self)) self
         | _ \<Rightarrow> (FAULT OUT_OF_BOUNDS, self)))"

text \<open>Here the header goes to the start of the buffer, wherever the pending bytes end.\<close>

definition apx_clientSocketConnection_transmit_direct_message ::
  "bytearray_lib \<Rightarrow> cutil \<Rightarrow> apx_clientSocketConnection \<Rightarrow> byte list \<Rightarrow> u32 \<Rightarrow>
     apx_error \<times> apx_clientSocketConnection" where
  "apx_clientSocketConnection_transmit_direct_message A C self msg_data msg_size =
     (if sint msg_size > sint (default_buffer_size self) then (APX_MSG_TOO_LARGE_ERROR, self)
      else
        (case numheader_encode32 C (Some (replicate NUMHEADER32_LONG_SIZE 0)) 4 msg_size of
           Some (header_size, Some header) \<Rightarrow>
             let header_size = of_int header_size in
             andThen (make_room A (header_size + msg_size) self) (\<lambda>self.
             andThen (append_pending 0 header header_size self) (\<lambda>self.
             append_pending (unat (pending_bytes self)) msg_data msg_size self))
         | _ \<Rightarrow> (FAULT OUT_OF_BOUNDS, self)))"

text \<open>The functions of the server's sockets, whose bodies are the same.\<close>

definition connection_transmit_max_bytes_avaiable :: "apx_clientSocketConnection \<Rightarrow> u32" where
  "connection_transmit_max_bytes_avaiable = apx_clientSocketConnection_transmit_max_bytes_avaiable"

definition connection_transmit_current_bytes_avaiable :: "apx_clientSocketConnection \<Rightarrow> u32" where
  "connection_transmit_current_bytes_avaiable = apx_clientSocketConnection_transmit_current_bytes_avaiable"

definition connection_transmit_begin ::
  "bytearray_lib \<Rightarrow> apx_clientSocketConnection \<Rightarrow> apx_error \<times> apx_clientSocketConnection" where
  "connection_transmit_begin = apx_clientSocketConnection_transmit_begin"

definition connection_transmit_end ::
  "bytearray_lib \<Rightarrow> apx_clientSocketConnection \<Rightarrow> apx_error \<times> apx_clientSocketConnection" where
  "connection_transmit_end = apx_clientSocketConnection_transmit_end"

definition connection_transmit_data_message ::
  "bytearray_lib \<Rightarrow> cutil \<Rightarrow> apx_clientSocketConnection \<Rightarrow> u32 \<Rightarrow> bool \<Rightarrow> byte list \<Rightarrow> u32 \<Rightarrow>
     apx_error \<times> apx_clientSocketConnection" where
  "connection_transmit_data_message = apx_clientSocketConnection_transmit_data_message"

definition connection_transmit_direct_message ::
  "bytearray_lib \<Rightarrow> cutil \<Rightarrow> apx_clientSocketConnection \<Rightarrow> byte list \<Rightarrow> u32 \<Rightarrow>
     apx_error \<times> apx_clientSocketConnection" where
  "connection_transmit_direct_message = apx_clientSocketConnection_transmit_direct_message"

definition connection_send_packet ::
  "bytearray_lib \<Rightarrow> apx_clientSocketConnection \<Rightarrow> apx_error \<times> apx_clientSocketConnection" where
  "connection_send_packet = send_packet"

text \<open>The connection interface that a socket connection gives to its file manager.\<close>

definition create_connection_interface_vtable ::
  "bytearray_lib \<Rightarrow> cutil \<Rightarrow> apx_clientSocketConnection connection_interface" where
  "create_connection_interface_vtable A C =
     \<lparr>transmit_begin = apx_clientSocketConnection_transmit_begin A,
      transmit_end = apx_clientSocketConnection_transmit_end A,
      transmit_data_message = apx_clientSocketConnection_transmit_data_message A C\<rparr>"

section \<open>Messages in the buffer\<close>

definition frame :: "byte list \<Rightarrow> byte list" where
  "frame msg = num32_bytes (of_nat (length msg)) @ msg"

definition socket_ok :: "apx_clientSocketConnection \<Rightarrow> bool" where
  "socket_ok self \<longleftrightarrow> default_buffer_size self = 4096 \<and> length (send_buffer self) = 4096 \<and> pending_bytes self \<le> 4096"

definition written :: "apx_clientSocketConnection \<Rightarrow> byte list" where
  "written self = take (unat (pending_bytes self)) (send_buffer self)"

lemma append_pending_fits:
  assumes "unat n \<le> length data" and "offset + unat n \<le> length (send_buffer self)"
  shows "append_pending offset data n self = (APX_NO_ERROR,
    self\<lparr>send_buffer := take offset (send_buffer self) @ take (unat n) data @ drop (offset + unat n) (send_buffer self),
      pending_bytes := pending_bytes self + n\<rparr>)"
  using assms by (simp add: append_pending_def mem_read_def mem_write_def)

lemma append_pending_overruns:
  assumes "unat n \<le> length data" and "offset + unat n > length (send_buffer self)"
  shows "append_pending offset data n self = (FAULT OUT_OF_BOUNDS, self)"
  using assms by (simp add: append_pending_def mem_read_def mem_write_def)

lemma length_num32: "length (num32_bytes v) \<le> 4" "num32_bytes v \<noteq> []" "length (num32_bytes v) \<noteq> 0"
  by (auto simp: num32_bytes_def be_bytes_def)

lemma length_address: "length (address_bytes (a, m)) = rmf_needed_encoding_size a" "rmf_needed_encoding_size a \<le> 4"
  by (auto simp: address_bytes_def rmf_needed_encoding_size_def)

lemma small_u32: "k < 4294967296 \<Longrightarrow> unat (of_nat k :: u32) = k"
  by (simp add: unat_of_nat)

text \<open>A message that is not too large gets as far as the copying.\<close>

definition copy_message ::
  "byte list \<Rightarrow> byte list \<Rightarrow> apx_clientSocketConnection \<Rightarrow> apx_error \<times> apx_clientSocketConnection" where
  "copy_message header data self =
     andThen (append_pending (unat (pending_bytes self)) header (of_nat (length header)) self) (\<lambda>self.
       append_pending (unat (pending_bytes self)) data (of_nat (length data)) self)"

lemma append_pending_prefix:
  "unat n \<le> length data \<Longrightarrow> append_pending offset (data @ rest) n self = append_pending offset data n self"
  by (simp add: append_pending_def mem_read_def)

lemma transmit_copies:
  fixes a :: u32 and m :: bool and d :: "byte list"
  defines "header \<equiv> num32_bytes (of_nat (rmf_needed_encoding_size a + length d)) @ address_bytes (a, m)"
  assumes C: "packs_big_endian C" and a: "a \<le> RMF_HIGH_ADDR_MAX" and self: "default_buffer_size self = 4096"
    and size: "rmf_needed_encoding_size a + length d \<le> 4096"
  shows "apx_clientSocketConnection_transmit_data_message A C self a m d (of_nat (length d)) =
    andThen (make_room A (of_nat (length header + (rmf_needed_encoding_size a + length d))) self) (copy_message header d)"
proof -
  let ?w = "rmf_needed_encoding_size a"
  let ?p = "of_nat (?w + length d) :: u32"
  let ?k = "length (num32_bytes ?p)"
  let ?h1 = "num32_bytes ?p @ drop ?k (replicate 8 0)"
  have p: "unat ?p = ?w + length d" using size by (intro small_u32) simp
  then have small: "(4096 < ?p) = False" "?p \<le> NUMHEADER32_MAX_NUM_LONG"
    using size by (simp_all add: word_less_nat_alt word_le_nat_alt)
  have k: "?k \<le> 4" "0 < ?k" using length_num32 [of ?p] by auto
  have enc: "numheader_encode32 C (Some (replicate 8 0)) 8 ?p = Some (int ?k, Some ?h1)"
    using k by (intro numheader_encode32_writes [OF C small(2)]) auto
  have w: "length (address_bytes (a, m)) \<le> 8 - ?k"
    using k length_address(1) [of a m] length_address(2) [of a] by simp
  then have adr: "rmf_address_encode C (Some (drop ?k ?h1)) (8 - ?k) a m =
      Some (?w, Some (address_bytes (a, m) @ drop ?w (drop ?k ?h1)))"
    using address_encode_writes [OF C a w, of "drop ?k ?h1"] k by (simp add: length_address(1))
  have pay: "of_nat ?w + of_nat (length d) = ?p" by simp
  have hd: "take ?k ?h1 @ address_bytes (a, m) @ rest = header @ rest" "?k + ?w = length header" for rest
    by (simp_all add: header_def length_address(1))
  have "length header < 4294967296"
    unfolding hd(2) [symmetric] using k length_address(2) [of a] by simp
  then have copy: "append_pending q (header @ rest) (of_nat (length header)) s =
      append_pending q header (of_nat (length header)) s" for q rest s
    by (intro append_pending_prefix) (simp add: small_u32)
  have eight: "NUMHEADER32_LONG_SIZE + RMF_HIGH_ADDR_SIZE = 8" by simp
  have pos: "(int ?k < 0) = False" "(0 < int ?k) = True" "nat (int ?k) = ?k" using k by simp_all
  show ?thesis
    unfolding apx_clientSocketConnection_transmit_data_message_def Let_def pay self small eight if_False enc prod.case option.case pos adr
      c_assert_true hd copy of_nat_add [symmetric]
    by (simp add: copy_message_def [abs_def])
qed

lemma copy_message_fits:
  assumes ok: "socket_ok self" and room: "unat (pending_bytes self) + length header + length d \<le> 4096"
  shows "\<exists>self'. copy_message header d self = (APX_NO_ERROR, self') \<and> socket_ok self' \<and>
    written self' = written self @ header @ d \<and> packets self' = packets self \<and> has_socket self' = has_socket self \<and>
    unat (pending_bytes self') = unat (pending_bytes self) + length header + length d"
proof -
  let ?p = "unat (pending_bytes self)"
  let ?n = "of_nat (length header) :: u32" and ?m = "of_nat (length d) :: u32"
  have n: "unat ?n = length header" "unat ?m = length d" using room by (simp_all add: small_u32)
  have len: "length (send_buffer self) = 4096" using ok by (simp add: socket_ok_def)
  let ?s1 = "self\<lparr>send_buffer := take ?p (send_buffer self) @ header @ drop (?p + length header) (send_buffer self),
      pending_bytes := pending_bytes self + ?n\<rparr>"
  have first: "append_pending ?p header ?n self = (APX_NO_ERROR, ?s1)"
    using room len by (subst append_pending_fits) (simp_all add: n)
  have p1: "unat (pending_bytes ?s1) = ?p + length header"
    using room n by (simp add: unat_word_ariths)
  have len1: "length (send_buffer ?s1) = 4096" using len room by simp
  let ?s2 = "?s1\<lparr>send_buffer := take (?p + length header) (send_buffer ?s1) @ d @ drop (?p + length header + length d) (send_buffer ?s1),
      pending_bytes := pending_bytes ?s1 + ?m\<rparr>"
  have second: "append_pending (unat (pending_bytes ?s1)) d ?m ?s1 = (APX_NO_ERROR, ?s2)"
    using room len1 unfolding p1 by (subst append_pending_fits) (simp_all add: n)
  have p2: "unat (pending_bytes ?s2) = ?p + length header + length d"
    using room n by (simp add: unat_word_ariths)
  have "copy_message header d self = (APX_NO_ERROR, ?s2)"
    unfolding copy_message_def first andThen_ok using second by simp
  moreover have "socket_ok ?s2"
    using ok room len p2 by (simp add: socket_ok_def word_le_nat_alt)
  moreover have "written ?s2 = written self @ header @ d"
    unfolding written_def p2 using room len by (simp add: take_Cons')
  ultimately show ?thesis using p2 by (intro exI [of _ ?s2]) simp
qed

lemma copy_message_overruns:
  assumes "unat (pending_bytes self) \<le> length (send_buffer self)" and "length (send_buffer self) \<le> 4096"
    and "length header + length d \<le> 8192" and "header \<noteq> []"
    and room: "unat (pending_bytes self) + length header + length d > length (send_buffer self)"
  shows "fst (copy_message header d self) = FAULT OUT_OF_BOUNDS"
proof (cases "unat (pending_bytes self) + length header > length (send_buffer self)")
  case True
  then show ?thesis
    using assms(3) by (simp add: copy_message_def append_pending_overruns small_u32 andThen_def)
next
  case False
  have "unat (pending_bytes self + of_nat (length header)) = unat (pending_bytes self) + length header"
    using False assms(2) by (simp add: unat_word_ariths small_u32)
  with False show ?thesis
    using assms by (simp add: copy_message_def append_pending_fits append_pending_overruns small_u32)
qed

lemma frame_split:
  "frame (fragment_message (a, d, m)) =
     (num32_bytes (of_nat (rmf_needed_encoding_size a + length d)) @ address_bytes (a, m)) @ d"
  by (simp add: frame_def fragment_message_def length_address(1))

text \<open>What fits, with the size of the address counted twice, or goes into an empty buffer, is appended.\<close>

lemma transmit_fits:
  assumes C: "packs_big_endian C" and a: "a \<le> RMF_HIGH_ADDR_MAX" and ok: "socket_ok self"
    and size: "rmf_needed_encoding_size a + length d \<le> 4096"
    and room: "unat (pending_bytes self) + length (frame (fragment_message (a, d, m))) + rmf_needed_encoding_size a \<le> 4096 \<or>
      pending_bytes self = 0 \<and> length (frame (fragment_message (a, d, m))) \<le> 4096"
  shows "\<exists>self'. apx_clientSocketConnection_transmit_data_message A C self a m d (of_nat (length d)) = (APX_NO_ERROR, self') \<and>
    socket_ok self' \<and> written self' = written self @ frame (fragment_message (a, d, m)) \<and>
    packets self' = packets self \<and> has_socket self' = has_socket self \<and>
    unat (pending_bytes self') = unat (pending_bytes self) + length (frame (fragment_message (a, d, m)))"
proof -
  let ?h = "num32_bytes (of_nat (rmf_needed_encoding_size a + length d)) @ address_bytes (a, m)"
  let ?n = "length ?h + (rmf_needed_encoding_size a + length d)"
  have len: "length (frame (fragment_message (a, d, m))) = length ?h + length d" by (simp add: frame_split)
  have "make_room A (of_nat ?n) self = (APX_NO_ERROR, self)"
  proof (cases "unat (pending_bytes self) + ?n \<le> 4096")
    case True
    have "unat (of_nat (length (send_buffer self)) - pending_bytes self) = 4096 - unat (pending_bytes self)"
      using ok by (subst unat_sub) (simp_all add: socket_ok_def)
    moreover have "unat (of_nat ?n :: u32) = ?n" using True by (intro small_u32) linarith
    ultimately have "(of_nat (length (send_buffer self)) - pending_bytes self < of_nat ?n) = False"
      using True by (simp add: word_less_nat_alt del: of_nat_add)
    then show ?thesis by (simp add: make_room_def del: of_nat_add)
  next
    case False
    with room len have "pending_bytes self = 0" by (simp add: length_address(1) algebra_simps)
    then show ?thesis by (simp add: make_room_def send_packet_def)
  qed
  moreover have "unat (pending_bytes self) + length ?h + length d \<le> 4096"
    using room len by auto
  from copy_message_fits [OF ok this] obtain self' where "copy_message ?h d self = (APX_NO_ERROR, self')"
    "socket_ok self'" "written self' = written self @ ?h @ d" "packets self' = packets self"
    "has_socket self' = has_socket self" "unat (pending_bytes self') = unat (pending_bytes self) + length ?h + length d" by auto
  ultimately show ?thesis
    unfolding transmit_copies [OF C a _ size] using ok len by (simp add: socket_ok_def frame_split transmit_copies [OF C a _ size])
qed

section \<open>Properties\<close>

text \<open> C30:
  A message of at most 4096 bytes with its address is appended to the pending ones, framed by its
  length, when there is room for it; otherwise it is never transmitted in pieces or later, but
  written past the end of the send buffer: sending what is pending leaves an empty buffer behind, and
  a message whose frame is larger than the whole buffer passes the size check.
\<close>

theorem transmit_exact:
  assumes "packs_big_endian C" and "bytearray_documented A" and "socket_ok self" and "has_socket self"
    and "a \<le> RMF_HIGH_ADDR_MAX" and "rmf_needed_encoding_size a + length d \<le> 4096"
  shows "if unat (pending_bytes self) + length (frame (fragment_message (a, d, m))) + rmf_needed_encoding_size a \<le> 4096 \<or>
      pending_bytes self = 0 \<and> length (frame (fragment_message (a, d, m))) \<le> 4096
    then \<exists>self'. apx_clientSocketConnection_transmit_data_message A C self a m d (of_nat (length d)) = (APX_NO_ERROR, self') \<and>
      socket_ok self' \<and> written self' = written self @ frame (fragment_message (a, d, m)) \<and> packets self' = packets self
    else fst (apx_clientSocketConnection_transmit_data_message A C self a m d (of_nat (length d))) = FAULT OUT_OF_BOUNDS"
proof (cases "unat (pending_bytes self) + length (frame (fragment_message (a, d, m))) + rmf_needed_encoding_size a \<le> 4096 \<or>
      pending_bytes self = 0 \<and> length (frame (fragment_message (a, d, m))) \<le> 4096")
  case True
  with transmit_fits [OF assms(1,5,3,6) True, of A] show ?thesis by auto
next
  case False
  let ?h = "num32_bytes (of_nat (rmf_needed_encoding_size a + length d)) @ address_bytes (a, m)"
  let ?n = "length ?h + (rmf_needed_encoding_size a + length d)"
  have len: "length (frame (fragment_message (a, d, m))) = length ?h + length d" by (simp add: frame_split)
  have h: "?h \<noteq> []" "length ?h \<le> 8"
    using length_num32 [of "of_nat (rmf_needed_encoding_size a + length d)"] length_address(1) [of a m] length_address(2) [of a]
    by auto
  have buf: "length (send_buffer self) = 4096" "unat (pending_bytes self) \<le> 4096"
    using assms(3) by (simp_all add: socket_ok_def word_le_nat_alt)
  have room: "unat (of_nat (length (send_buffer self)) - pending_bytes self) = 4096 - unat (pending_bytes self)"
    using assms(3) by (subst unat_sub) (simp_all add: socket_ok_def)
  have n: "unat (of_nat ?n :: u32) = ?n" using h(2) assms(6) by (intro small_u32) linarith
  have "of_nat (length (send_buffer self)) - pending_bytes self < (of_nat ?n :: u32)"
  proof -
    have "4096 - unat (pending_bytes self) < ?n"
      using False len buf(2) by linarith
    then show ?thesis unfolding word_less_nat_alt room n .
  qed
  then have less: "(of_nat (length (send_buffer self)) - pending_bytes self < (of_nat ?n :: u32)) = True" by simp
  have "fst (andThen (make_room A (of_nat ?n) self) (copy_message ?h d)) = FAULT OUT_OF_BOUNDS"
  proof (cases "pending_bytes self = 0")
    case True
    have "make_room A (of_nat ?n) self = (APX_NO_ERROR, self)"
      using True by (simp add: make_room_def send_packet_def)
    then show ?thesis
      using copy_message_overruns [OF _ _ _ h(1), of self d] True False len h(2) assms(6) buf by simp
  next
    case pending: False
    let ?s = "self\<lparr>packets := packets self @ [written self], send_buffer := [], pending_bytes := 0\<rparr>"
    have "make_room A (of_nat ?n) self = (APX_NO_ERROR, ?s)"
      unfolding make_room_def less if_True send_packet_def
      using pending assms(2,4) buf by (simp add: mem_read_def written_def bytearray_documented_def word_gt_0)
    then show ?thesis
      using copy_message_overruns [OF _ _ _ h(1), of ?s d] h assms(6) by simp
  qed
  moreover have "default_buffer_size self = 4096" using assms(3) by (simp add: socket_ok_def)
  ultimately show ?thesis
    unfolding if_not_P [OF False] by (subst transmit_copies [OF assms(1,5) _ assms(6)])
qed

definition demo_socket :: apx_clientSocketConnection where
  "demo_socket = snd (apx_clientSocketConnection_transmit_begin bytearray_ref (apx_clientSocketConnection_create True))"

lemma demo_socket_ok: "socket_ok demo_socket" "has_socket demo_socket" "pending_bytes demo_socket = 0"
  by (simp_all add: demo_socket_def apx_clientSocketConnection_transmit_begin_def apx_clientSocketConnection_create_def
      bytearray_ref_def c_assert_def socket_ok_def Let_def)

theorem transmit_exact_witness:
  "fst (apx_clientSocketConnection_transmit_data_message bytearray_ref cutil_bytes demo_socket 0 False (replicate 4094 7) 4094) =
     FAULT OUT_OF_BOUNDS"
proof -
  have "length (frame (fragment_message (0, replicate 4094 7, False))) = 4100"
    by (simp add: frame_split num32_bytes_def address_bytes_def rmf_needed_encoding_size_def)
  then show ?thesis
    using transmit_exact [OF cutil_bytes_be bytearray_ref_documented demo_socket_ok(1,2), of 0 "replicate 4094 7" False]
    by (simp add: rmf_needed_encoding_size_def)
qed

section \<open>A whole transmission\<close>

lemma transmit_begin_ok:
  assumes "bytearray_documented A" and "default_buffer_size self = 4096" and "length (send_buffer self) \<le> 4096"
  shows "\<exists>self'. apx_clientSocketConnection_transmit_begin A self = (APX_NO_ERROR, self') \<and> socket_ok self' \<and>
    pending_bytes self' = 0 \<and> packets self' = packets self \<and> has_socket self' = has_socket self"
proof -
  have "unat (of_nat (length (send_buffer self)) :: u32) = length (send_buffer self)"
    using assms(3) by (intro small_u32) simp
  with assms show ?thesis
    by (auto simp: apx_clientSocketConnection_transmit_begin_def Let_def c_assert_def bytearray_documented_def socket_ok_def
        word_less_nat_alt word_le_nat_alt)
qed

text \<open>The writes that a file manager queues, and what they are on the wire.\<close>

definition write_command :: "u32 \<times> byte list \<Rightarrow> apx_command" where
  "write_command w = (case w of (a, d) \<Rightarrow>
     apx_build_command_with_ptr APX_CMD_SEND_LOCAL_DATA a (of_nat (length d)) (BYTES d))"

definition write_frame :: "u32 \<times> byte list \<Rightarrow> byte list" where
  "write_frame w = (case w of (a, d) \<Rightarrow> frame (fragment_message (a, d, False)))"

lemma run_writes:
  assumes C: "packs_big_endian C" and "\<forall>(a, d) \<in> set writes. a \<le> RMF_HIGH_ADDR_MAX"
    and "socket_ok con" and "unat (pending_bytes con) + length (concat (map write_frame writes)) + 4 \<le> 4096"
  shows "\<exists>con'. run_commands C T (create_connection_interface_vtable A C) (map write_command writes) con =
      (APX_NO_ERROR, True, [], con') \<and> socket_ok con' \<and> written con' = written con @ concat (map write_frame writes) \<and>
    packets con' = packets con \<and> has_socket con' = has_socket con \<and>
    unat (pending_bytes con') = unat (pending_bytes con) + length (concat (map write_frame writes))"
  using assms(2-4)
proof (induction writes arbitrary: con)
  case Nil
  then show ?case by simp
next
  case (Cons w writes)
  obtain a d where w: "w = (a, d)" by (cases w)
  have a: "a \<le> RMF_HIGH_ADDR_MAX" and rest: "\<forall>(a, d) \<in> set writes. a \<le> RMF_HIGH_ADDR_MAX"
    using Cons.prems(1) w by auto
  let ?f = "frame (fragment_message (a, d, False))"
  have len: "rmf_needed_encoding_size a + length d \<le> length ?f"
    by (simp add: frame_split length_address(1))
  have f: "write_frame w = ?f" by (simp add: write_frame_def w)
  have total: "unat (pending_bytes con) + length ?f + length (concat (map write_frame writes)) + 4 \<le> 4096"
    using Cons.prems(3) f by simp
  have "unat (pending_bytes con) + length ?f + rmf_needed_encoding_size a \<le> 4096"
    using total length_address(2) [of a] by linarith
  moreover have "rmf_needed_encoding_size a + length d \<le> 4096" using len total by linarith
  ultimately obtain con1 where t: "apx_clientSocketConnection_transmit_data_message A C con a False d (of_nat (length d)) = (APX_NO_ERROR, con1)"
    "socket_ok con1" "written con1 = written con @ ?f" "packets con1 = packets con" "has_socket con1 = has_socket con"
    "unat (pending_bytes con1) = unat (pending_bytes con) + length ?f"
    using transmit_fits [OF C a Cons.prems(2), of d False A] by auto
  have "unat (pending_bytes con1) + length (concat (map write_frame writes)) + 4 \<le> 4096" using total t(6) by simp
  from Cons.IH [OF rest t(2) this] obtain con2 where
    "run_commands C T (create_connection_interface_vtable A C) (map write_command writes) con1 = (APX_NO_ERROR, True, [], con2)"
    "socket_ok con2" "written con2 = written con1 @ concat (map write_frame writes)"
    "packets con2 = packets con1" "has_socket con2 = has_socket con1"
    "unat (pending_bytes con2) = unat (pending_bytes con1) + length (concat (map write_frame writes))" by auto
  moreover have "process_single_command C T (create_connection_interface_vtable A C) (write_command w) con = (APX_NO_ERROR, True, con1)"
    using t(1) by (simp add: w write_command_def apx_build_command_with_ptr_def process_single_command_def
        run_send_local_data_def create_connection_interface_vtable_def Let_def)
  ultimately show ?case
    using t f by simp
qed

text \<open> C29:
  The writes in the queue of a file manager, up to the size of the send buffer, leave in one packet:
  their frames in the order of the queue, which is empty afterwards.
\<close>

theorem worker_sends_queue:
  assumes "packs_big_endian C" and "bytearray_documented A" and "default_buffer_size con = 4096"
    and "length (send_buffer con) \<le> 4096" and "has_socket con"
    and "\<forall>(a, d) \<in> set writes. a \<le> RMF_HIGH_ADDR_MAX" and "length (concat (map write_frame writes)) \<le> 4092"
    and "fm_queue self = map write_command writes" and "writes \<noteq> []"
  shows "\<exists>con'. apx_fileManagerWorker_run C T (create_connection_interface_vtable A C) self con =
      (APX_NO_ERROR, True, self\<lparr>fm_queue := []\<rparr>, con') \<and>
    packets con' = packets con @ [concat (map write_frame writes)] \<and> send_buffer con' = []"
proof -
  obtain con1 where b: "apx_clientSocketConnection_transmit_begin A con = (APX_NO_ERROR, con1)" "socket_ok con1"
    "pending_bytes con1 = 0" "packets con1 = packets con" "has_socket con1 = has_socket con"
    using transmit_begin_ok [OF assms(2-4)] by auto
  have "unat (pending_bytes con1) + length (concat (map write_frame writes)) + 4 \<le> 4096" using b(3) assms(7) by simp
  from run_writes [OF assms(1,6) b(2) this, of T A] obtain con2 where
    r: "run_commands C T (create_connection_interface_vtable A C) (map write_command writes) con1 = (APX_NO_ERROR, True, [], con2)"
    "socket_ok con2" "written con2 = concat (map write_frame writes)" "packets con2 = packets con1" "has_socket con2 = has_socket con1"
    "unat (pending_bytes con2) = length (concat (map write_frame writes))" using b(3) by (auto simp: written_def)
  obtain a d where "(a, d) \<in> set writes" using assms(9) by (cases writes) auto
  moreover have "frame m \<noteq> []" for m using length_num32(2) by (simp add: frame_def)
  ultimately have "concat (map write_frame writes) \<noteq> []" by (force simp: write_frame_def)
  then have pos: "0 < pending_bytes con2" using r(6) by (auto simp: word_gt_0)
  have "mem_read 0 (unat (pending_bytes con2)) (send_buffer con2) = Some (written con2)"
    using r(2) by (simp add: mem_read_def written_def socket_ok_def word_le_nat_alt)
  with r pos b assms show ?thesis
    by (simp add: apx_fileManagerWorker_run_def create_connection_interface_vtable_def Let_def
        apx_clientSocketConnection_transmit_end_def send_packet_def bytearray_documented_def)
qed

theorem worker_sends_queue_witness:
  "\<exists>con'. apx_fileManagerWorker_run cutil_bytes text_bytes (create_connection_interface_vtable bytearray_ref cutil_bytes)
      (demo_manager\<lparr>fm_queue := [write_command (0x10, [1, 2]), write_command (0x4000, [3])]\<rparr>) demo_socket =
      (APX_NO_ERROR, True, demo_manager\<lparr>fm_queue := []\<rparr>, con') \<and>
    packets con' = packets demo_socket @ [[4, 0, 0x10, 1, 2, 5, 0x80, 0, 0x40, 0, 3]] \<and> send_buffer con' = []"
proof -
  have bytes: "concat (map write_frame [(0x10, [1, 2]), (0x4000, [3])]) = [4, 0, 0x10, 1, 2, 5, 0x80, 0, 0x40, 0, 3]"
    by (simp add: write_frame_def frame_split num32_bytes_def address_bytes_def rmf_needed_encoding_size_def be_bytes_def)
  show ?thesis
    using worker_sends_queue [OF cutil_bytes_be bytearray_ref_documented _ _ demo_socket_ok(2),
        where writes = "[(0x10, [1, 2]), (0x4000, [3])]" and T = text_bytes
          and self = "demo_manager\<lparr>fm_queue := [write_command (0x10, [1, 2]), write_command (0x4000, [3])]\<rparr>", unfolded bytes]
      demo_socket_ok(1)
    by (simp add: socket_ok_def)
qed

end
