(* ===== verification/Connection.thy ===== *)
theory Connection
  imports Transmit
begin

text \<open>
  The receiving half of a connection: apx/src/client_connection.c and apx/src/server_connection.c split
  the incoming bytes into messages. The first one is the greeting, everything behind it goes to the file
  manager. What a connection does when its file manager reports something belongs to the nodes and is a
  function pointer here: a record of callbacks over a state of its own. The callbacks also tell which
  memory malloc gives for the next message. The line scanner (bstr_line) is not in the repository.
\<close>

section \<open>State and callbacks\<close>

record 's connection_callbacks =
  memory_for :: "'s \<Rightarrow> message_memory"
  infos_for :: "'s \<Rightarrow> rmf_fileInfo option list"
  notify :: "notification \<Rightarrow> apx_fileManager \<Rightarrow> 's \<Rightarrow> apx_error \<times> apx_fileManager \<times> 's"
  commands_ring :: ring_insert

text \<open>Client and server connections have the same fields.\<close>

record 's connection =
  file_manager :: apx_fileManager
  is_greeting_accepted :: bool
  last_error :: apx_error
  user :: 's

definition apx_connectionBase_message_received ::
  "cutil \<Rightarrow> text_lib \<Rightarrow> 's connection_callbacks \<Rightarrow> 's connection \<Rightarrow> byte list \<Rightarrow>
     (apx_error \<times> 's connection) option" where
  "apx_connectionBase_message_received C T K self data =
     (case apx_fileManager_message_received C T (memory_for K (user self)) (file_manager self) data of
        None \<Rightarrow> None
      | Some (e, None, manager) \<Rightarrow> Some (e, self\<lparr>file_manager := manager\<rparr>)
      | Some (e, Some note, manager) \<Rightarrow>
          (case notify K note manager (user self) of
             (result, manager, s) \<Rightarrow>
               let self = self\<lparr>file_manager := manager, user := s\<rparr> in
               if is_fault result then Some (result, self)
               else Some (case note of FILE_OPENED p \<Rightarrow> e | _ \<Rightarrow> result, self)))"

section \<open>The greeting\<close>

text \<open>The offset of the first newline; what is documented for a line without one is its start.\<close>

type_synonym line_scanner = "byte list \<Rightarrow> nat"

definition finds_lines :: "line_scanner \<Rightarrow> bool" where
  "finds_lines L \<longleftrightarrow> (\<forall>bs. L bs = (if 10 \<in> set bs then length (takeWhile (\<lambda>b. b \<noteq> 10) bs) else 0))"

definition bstr_line_ref :: line_scanner where
  "bstr_line_ref bs = (if 10 \<in> set bs then length (takeWhile (\<lambda>b. b \<noteq> 10) bs) else 0)"

lemma bstr_line_ref_finds: "finds_lines bstr_line_ref"
  by (simp add: finds_lines_def bstr_line_ref_def)

text \<open>Whether the greeting is complete, and the error code. Lines that are not empty are skipped.\<close>

function process_greeting_message :: "line_scanner \<Rightarrow> byte list \<Rightarrow> bool \<times> apx_error" where
  "process_greeting_message L msg =
     (if msg = [] then (False, APX_NO_ERROR)
      else
        let length_of_line = L msg in
        if length_of_line > 0 \<or> hd msg = 10 then
          (if length_of_line = 0 then (True, APX_NO_ERROR)
           else process_greeting_message L (drop (length_of_line + 1) msg))
        else (False, APX_INTERNAL_ERROR))"
  by auto
termination
  by (relation "measure (\<lambda>(L, msg). length msg)") auto

text \<open>The client's greeting is an acknowledge command. The address is not set when there is none.\<close>

definition client_greeting_accepted :: "cutil \<Rightarrow> byte list \<Rightarrow> bool \<times> apx_error" where
  "client_greeting_accepted C msg =
     (case rmf_address_decode C msg of
        (header_size, None, more_bit) \<Rightarrow> (False, FAULT UNINITIALIZED_READ)
      | (header_size, Some address, more_bit) \<Rightarrow>
          if address = RMF_CMD_AREA_START_ADDRESS then
            (case rmf_decode_cmd_type C (drop header_size msg) of
               (decode_size, ctype) \<Rightarrow>
                 (decode_size = RMF_CMD_TYPE_SIZE \<and> ctype = Some RMF_CMD_ACK_MSG, APX_NO_ERROR))
          else (False, APX_INVALID_MSG_ERROR))"

definition greeting_header_accepted_notification ::
  "text_lib \<Rightarrow> 's connection_callbacks \<Rightarrow> 's connection \<Rightarrow> 's connection" where
  "greeting_header_accepted_notification T K self =
     self\<lparr>is_greeting_accepted := True,
       file_manager := apx_fileManager_connected (commands_ring K) T (infos_for K (user self)) (file_manager self)\<rparr>"

section \<open>Messages\<close>

text \<open>
  The message at the start of the buffer: how many bytes it takes (0 when it is not complete, \<open>None\<close>
  for a null pointer), the error code, the connection. Client and server differ in the greeting only.
\<close>

type_synonym 's parsed = "(nat option \<times> apx_error \<times> 's connection) option"

definition parse_message ::
  "(byte list \<Rightarrow> bool \<times> apx_error) \<Rightarrow> cutil \<Rightarrow> text_lib \<Rightarrow> 's connection_callbacks \<Rightarrow> 's connection \<Rightarrow> byte list \<Rightarrow>
     's parsed" where
  "parse_message greeting C T K self bs =
     (if bs \<noteq> [] then
        (case numheader_decode32 C bs of
           (header_size, value_of) \<Rightarrow>
             if header_size = 0 then Some (Some 0, APX_NO_ERROR, self)
             else let msg_size = unat (the_default 0 value_of) in
               if header_size + msg_size \<le> length bs then
                 let msg_data = take msg_size (drop header_size bs) in
                 if is_greeting_accepted self
                 then map_option (\<lambda>(e, self). (Some (header_size + msg_size), e, self))
                   (apx_connectionBase_message_received C T K self msg_data)
                 else (case greeting msg_data of
                         (True, e) \<Rightarrow> Some (Some (header_size + msg_size), e, greeting_header_accepted_notification T K self)
                       | (False, e) \<Rightarrow> Some (None, e, self))
               else Some (Some 0, APX_NO_ERROR, self))
      else Some (None, APX_PARSE_ERROR, self))"

definition client_parse_message ::
  "cutil \<Rightarrow> text_lib \<Rightarrow> 's connection_callbacks \<Rightarrow> 's connection \<Rightarrow> byte list \<Rightarrow> 's parsed" where
  "client_parse_message C = parse_message (client_greeting_accepted C) C"

definition server_parse_message ::
  "line_scanner \<Rightarrow> cutil \<Rightarrow> text_lib \<Rightarrow> 's connection_callbacks \<Rightarrow> 's connection \<Rightarrow> byte list \<Rightarrow> 's parsed" where
  "server_parse_message L = parse_message (process_greeting_message L)"

text \<open>
  The loop over the buffer, with the bytes parsed so far. The result is the return value, the number
  of bytes parsed and the connection; a fault ends the program.
\<close>

type_synonym 's received = "(apx_error \<times> int \<times> nat \<times> 's connection) option"

function receive_loop :: "('s connection \<Rightarrow> byte list \<Rightarrow> 's parsed) \<Rightarrow> 's connection \<Rightarrow> byte list \<Rightarrow> nat \<Rightarrow> 's received" where
  "receive_loop P self bs total_parse_len =
     (if bs = [] then Some (APX_NO_ERROR, 0, total_parse_len, self)
      else
        (case P self bs of
           None \<Rightarrow> None
         | Some (result, error_code, self) \<Rightarrow>
             if is_fault error_code then Some (error_code, 0, total_parse_len, self)
             else if error_code = APX_NO_ERROR then
               (case result of
                  None \<Rightarrow> Some (FAULT ASSERT_FAILURE, 0, total_parse_len, self)
                | Some n \<Rightarrow>
                    if n > length bs then Some (FAULT ASSERT_FAILURE, 0, total_parse_len, self)
                    else if n = 0 then Some (APX_NO_ERROR, 0, total_parse_len, self)
                    else receive_loop P self (drop n bs) (total_parse_len + n))
             else Some (APX_NO_ERROR, -1, total_parse_len, self\<lparr>last_error := error_code\<rparr>)))"
  by auto
termination
  by (relation "measure (\<lambda>(P, self, bs, total). length bs)") auto

definition on_data_received ::
  "('s connection \<Rightarrow> byte list \<Rightarrow> 's parsed) \<Rightarrow> 's connection \<Rightarrow> byte list \<Rightarrow> 's received" where
  "on_data_received P self data =
     (if data \<noteq> [] then receive_loop P self data 0 else Some (APX_NO_ERROR, -1, 0, self))"

definition apx_clientConnection_on_data_received ::
  "cutil \<Rightarrow> text_lib \<Rightarrow> 's connection_callbacks \<Rightarrow> 's connection \<Rightarrow> byte list \<Rightarrow> 's received" where
  "apx_clientConnection_on_data_received C T K = on_data_received (client_parse_message C T K)"

definition apx_serverConnection_on_data_received ::
  "line_scanner \<Rightarrow> cutil \<Rightarrow> text_lib \<Rightarrow> 's connection_callbacks \<Rightarrow> 's connection \<Rightarrow> byte list \<Rightarrow> 's received" where
  "apx_serverConnection_on_data_received L C T K = on_data_received (server_parse_message L C T K)"

text \<open>What the sockets make of a connection and its end.\<close>

definition apx_clientConnection_connected_notification ::
  "bytearray_lib \<Rightarrow> cutil \<Rightarrow> 's connection \<Rightarrow> apx_clientSocketConnection \<Rightarrow>
     apx_error \<times> 's connection \<times> apx_clientSocketConnection" where
  "apx_clientConnection_connected_notification A C self socket =
     (let self = self\<lparr>is_greeting_accepted := False\<rparr>;
          greeting = map (\<lambda>c. of_nat (of_char c)) (''RMFP/1.0'' @ [CHR 0x0A] @ ''NumHeader-Format:'' @ ''32'' @ [CHR 0x0A, CHR 0x0A])
      in case apx_clientSocketConnection_transmit_begin A socket of
           (e, socket) \<Rightarrow>
             if is_fault e then (e, self, socket)
             else
               (case apx_clientSocketConnection_transmit_direct_message A C socket greeting (of_nat (length greeting)) of
                  (e, socket) \<Rightarrow>
                    if is_fault e then (e, self, socket)
                    else (case apx_clientSocketConnection_transmit_end A socket of (e, socket) \<Rightarrow> (e, self, socket))))"

definition apx_serverConnection_connected_notification :: "'s connection \<Rightarrow> 's connection" where
  "apx_serverConnection_connected_notification self = self\<lparr>is_greeting_accepted := False\<rparr>"

declare process_greeting_message.simps [simp del] receive_loop.simps [simp del]

section \<open>Streams\<close>

text \<open>
  The buffer in front of a connection: new bytes go behind what was left, what was parsed is dropped.
\<close>

fun receive_chunks ::
  "('s connection \<Rightarrow> byte list \<Rightarrow> 's parsed) \<Rightarrow> 's connection \<Rightarrow> byte list \<Rightarrow> byte list list \<Rightarrow>
     (apx_error \<times> int \<times> byte list \<times> 's connection) option" where
  "receive_chunks P self left [] = Some (APX_NO_ERROR, 0, left, self)"
| "receive_chunks P self left (c # cs) =
     (case on_data_received P self (left @ c) of
        None \<Rightarrow> None
      | Some (e, result, n, self) \<Rightarrow>
          if e = APX_NO_ERROR \<and> result = 0 then receive_chunks P self (drop n (left @ c)) cs
          else Some (e, result, [], self))"

definition chunk_result ::
  "byte list \<Rightarrow> apx_error \<times> int \<times> nat \<times> 's connection \<Rightarrow> apx_error \<times> int \<times> byte list \<times> 's connection" where
  "chunk_result bs r = (case r of (e, result, n, self) \<Rightarrow>
     (e, result, if e = APX_NO_ERROR \<and> result = 0 then drop n bs else [], self))"

text \<open>
  What the loop needs of the parser of one message: a message that is not complete changes nothing, and
  what a complete message does (or a bad one) is settled by its own bytes, not by those behind it.
\<close>

locale stream_parser =
  fixes P :: "'s connection \<Rightarrow> byte list \<Rightarrow> 's parsed"
  assumes incomplete: "P self bs = Some (Some 0, e, self') \<Longrightarrow> e = APX_NO_ERROR \<and> self' = self"
    and settled: "bs \<noteq> [] \<Longrightarrow> P self bs \<noteq> Some (Some 0, APX_NO_ERROR, self) \<Longrightarrow> P self (bs @ ys) = P self bs"
    and bounded: "P self bs = Some (Some n, e, self') \<Longrightarrow> n \<le> length bs"
begin

lemma loop_shift:
  "receive_loop P self bs (t + k) = map_option (\<lambda>(e, r, n, self). (e, r, n + k, self)) (receive_loop P self bs t)"
proof (induction "length bs" arbitrary: self bs t rule: less_induct)
  case less
  show ?case
  proof (cases "P self bs")
    case None
    then show ?thesis by (simp add: receive_loop.simps [of P self bs])
  next
    case (Some r)
    obtain res e self' where r: "r = (res, e, self')" by (cases r)
    show ?thesis
    proof (cases "bs \<noteq> [] \<and> e = APX_NO_ERROR \<and> (\<exists>n. res = Some n \<and> 0 < n \<and> n \<le> length bs)")
      case True
      then obtain n where n: "res = Some n" "0 < n" "n \<le> length bs" by auto
      with True have "length (drop n bs) < length bs" by auto
      from less [OF this, of self' "t + n"] True n show ?thesis
        by (simp add: receive_loop.simps [of P self bs] Some r add.commute add.left_commute)
    next
      case False
      then show ?thesis
        by (auto simp: receive_loop.simps [of P self bs] Some r split: option.split)
    qed
  qed
qed

lemma loop_done:
  "bs = [] \<or> P self bs = Some (Some 0, APX_NO_ERROR, self) \<Longrightarrow> receive_loop P self bs t = Some (APX_NO_ERROR, 0, t, self)"
  by (subst receive_loop.simps) auto

text \<open>Bytes that come later are parsed from where the loop stopped.\<close>

lemma loop_append:
  "receive_loop P self (bs @ ys) 0 =
    (case receive_loop P self bs 0 of
       None \<Rightarrow> None
     | Some (e, r, n, self') \<Rightarrow>
         if e = APX_NO_ERROR \<and> r = 0 then receive_loop P self' (drop n bs @ ys) n else Some (e, r, n, self'))"
proof (induction "length bs" arbitrary: self bs rule: less_induct)
  case less
  show ?case
  proof (cases "bs = [] \<or> P self bs = Some (Some 0, APX_NO_ERROR, self)")
    case True
    then show ?thesis using loop_done [OF True, of 0] by simp
  next
    case False
    then have same: "P self (bs @ ys) = P self bs" by (intro settled) auto
    show ?thesis
    proof (cases "P self bs")
      case None
      with same False show ?thesis by (simp add: receive_loop.simps [of P self])
    next
      case (Some r)
      obtain res e self' where r: "r = (res, e, self')" by (cases r)
      show ?thesis
      proof (cases "e = APX_NO_ERROR \<and> res \<noteq> None")
        case True
        then obtain n where n: "res = Some n" "e = APX_NO_ERROR" by auto
        have le: "n \<le> length bs" using bounded [of self bs n e self'] Some r n by simp
        have pos: "0 < n" using incomplete [of self bs e self'] Some r n False by (cases n) auto
        have less': "length (drop n bs) < length bs" using pos le False by (cases bs) auto
        have sh: "receive_loop P s xs n = map_option (\<lambda>(e, r, k, self). (e, r, k + n, self)) (receive_loop P s xs 0)" for s xs
          using loop_shift [of s xs 0 n] by simp
        have "receive_loop P self (bs @ ys) 0 = receive_loop P self' (drop n bs @ ys) n"
          using same Some r n False le pos by (simp add: receive_loop.simps [of P self "bs @ ys"])
        moreover have "receive_loop P self bs 0 = receive_loop P self' (drop n bs) n"
          using Some r n False le pos by (simp add: receive_loop.simps [of P self bs])
        ultimately show ?thesis
          unfolding sh less [OF less']
          using loop_shift [of _ _ _ n]
          by (auto simp: split: option.split)
      next
        case bad: False
        with same Some r False show ?thesis
          by (auto simp: receive_loop.simps [of P self] split: option.split)
      qed
    qed
  qed
qed

lemma loop_stops:
  "receive_loop P self bs t = Some (APX_NO_ERROR, 0, n, self') \<Longrightarrow>
     t \<le> n \<and> n \<le> t + length bs \<and> receive_loop P self' (drop (n - t) bs) 0 = Some (APX_NO_ERROR, 0, 0, self')"
proof (induction "length bs" arbitrary: self bs t rule: less_induct)
  case less
  show ?case
  proof (cases "bs = [] \<or> P self bs = Some (Some 0, APX_NO_ERROR, self)")
    case True
    with less(2) loop_done [OF True, of t] loop_done [OF True, of 0] show ?thesis by simp
  next
    case False
    with less(2) obtain res self1 where r: "P self bs = Some (res, APX_NO_ERROR, self1)"
      by (auto simp: receive_loop.simps [of P self bs] split: option.splits prod.splits if_splits)
    with False less(2) obtain m where m: "res = Some m" "0 < m" "m \<le> length bs"
      "receive_loop P self1 (drop m bs) (t + m) = Some (APX_NO_ERROR, 0, n, self')"
      using incomplete [of self bs APX_NO_ERROR self1]
      by (auto simp: receive_loop.simps [of P self bs] split: option.splits if_splits)
    have "length (drop m bs) < length bs" using m(2,3) by auto
    from less(1) [OF this m(4)] m(3) show ?thesis by (auto simp: add.commute)
  qed
qed

lemma drop_into: "n \<le> length xs \<Longrightarrow> drop (k + n) (xs @ ys) = drop k (drop n xs @ ys)"
  by (simp only: drop_drop [symmetric] drop_append) simp

lemma chunk_result_shift:
  "n \<le> length xs \<Longrightarrow>
     chunk_result (xs @ ys) (case r of (e, r, k, self) \<Rightarrow> (e, r, k + n, self)) = chunk_result (drop n xs @ ys) r"
  by (cases r) (simp add: chunk_result_def drop_into del: drop_append)

lemma chunks_loop:
  assumes "\<forall>c\<in>set cs. c \<noteq> []" and "receive_loop P self left 0 = Some (APX_NO_ERROR, 0, 0, self)"
  shows "receive_chunks P self left cs =
    map_option (chunk_result (left @ concat cs)) (receive_loop P self (left @ concat cs) 0)"
  using assms
proof (induction cs arbitrary: self left)
  case Nil
  then show ?case by (simp add: chunk_result_def)
next
  case (Cons c cs)
  have ne: "left @ c \<noteq> []" using Cons.prems(1) by simp
  show ?case
  proof (cases "receive_loop P self (left @ c) 0")
    case None
    then show ?thesis
      using loop_append [of self "left @ c" "concat cs"] ne by (simp add: on_data_received_def)
  next
    case (Some r)
    obtain e res n self' where r: "r = (e, res, n, self')" by (cases r)
    show ?thesis
    proof (cases "e = APX_NO_ERROR \<and> res = 0")
      case True
      from loop_stops [of self "left @ c" 0 n self'] Some r True
      have n: "n \<le> length (left @ c)" "receive_loop P self' (drop n (left @ c)) 0 = Some (APX_NO_ERROR, 0, 0, self')" by auto
      let ?rest = "receive_loop P self' (drop n (left @ c) @ concat cs) 0"
      have "receive_loop P self ((left @ c) @ concat cs) 0 = map_option (\<lambda>(e, r, k, self). (e, r, k + n, self)) ?rest"
        using loop_append [of self "left @ c" "concat cs"] Some r True loop_shift [of self' _ 0 n] by simp
      then have "map_option (chunk_result ((left @ c) @ concat cs)) (receive_loop P self ((left @ c) @ concat cs) 0) =
          map_option (chunk_result (drop n (left @ c) @ concat cs)) ?rest"
        by (simp only: option.map_comp o_def chunk_result_shift [OF n(1)])
      moreover have "receive_chunks P self left (c # cs) = receive_chunks P self' (drop n (left @ c)) cs"
        using Some r True ne by (simp add: on_data_received_def)
      moreover have "receive_chunks P self' (drop n (left @ c)) cs = map_option (chunk_result (drop n (left @ c) @ concat cs)) ?rest"
        using Cons.prems(1) by (intro Cons.IH [OF _ n(2)]) simp
      ultimately show ?thesis by simp
    next
      case False
      then have bad: "(e = APX_NO_ERROR \<and> res = 0) = False" by simp
      have "receive_chunks P self left (c # cs) = Some (e, res, [], self')"
        using Some r ne False by (auto simp: on_data_received_def)
      moreover have "receive_loop P self ((left @ c) @ concat cs) 0 = Some (e, res, n, self')"
        using loop_append [of self "left @ c" "concat cs"] Some r by (simp only: bad option.case prod.case) simp
      ultimately show ?thesis
        by (simp only: chunk_result_def bad concat.simps append_assoc option.map prod.case) simp
    qed
  qed
qed

lemma chunks_whole:
  assumes "\<forall>c\<in>set cs. c \<noteq> []" and "cs \<noteq> []"
  shows "receive_chunks P self [] cs = map_option (chunk_result (concat cs)) (on_data_received P self (concat cs))"
proof -
  have "concat cs \<noteq> []" using assms by (cases cs) auto
  with chunks_loop [OF assms(1), of self "[]"] show ?thesis
    by (simp add: loop_done on_data_received_def)
qed

end

section \<open>The parsers of client and server\<close>

lemma numheader_decode32_used:
  assumes "fst (numheader_decode32 C bs) \<noteq> 0"
  shows "numheader_decode32 C (bs @ ys) = numheader_decode32 C bs \<and> fst (numheader_decode32 C bs) \<le> length bs"
  using assms by (auto simp: numheader_decode32_def split: list.splits if_splits)

lemma parse_message_stream: "stream_parser (parse_message greeting C T K)"
proof
  fix self self' :: "'a connection" and bs ys :: "byte list" and e n
  show "parse_message greeting C T K self bs = Some (Some 0, e, self') \<Longrightarrow> e = APX_NO_ERROR \<and> self' = self"
    by (auto simp: parse_message_def Let_def split: prod.splits if_splits bool.splits)
  show "parse_message greeting C T K self bs = Some (Some n, e, self') \<Longrightarrow> n \<le> length bs"
    by (auto simp: parse_message_def Let_def split: prod.splits if_splits bool.splits)
  show "bs \<noteq> [] \<Longrightarrow> parse_message greeting C T K self bs \<noteq> Some (Some 0, APX_NO_ERROR, self) \<Longrightarrow>
      parse_message greeting C T K self (bs @ ys) = parse_message greeting C T K self bs"
  proof -
    assume ne: "bs \<noteq> []" and more: "parse_message greeting C T K self bs \<noteq> Some (Some 0, APX_NO_ERROR, self)"
    obtain h v where d: "numheader_decode32 C bs = (h, v)" by (cases "numheader_decode32 C bs")
    from ne more d have h: "h \<noteq> 0" "h + unat (the_default 0 v) \<le> length bs"
      by (auto simp: parse_message_def Let_def split: if_splits)
    have "numheader_decode32 C (bs @ ys) = (h, v)"
      using numheader_decode32_used [of C bs ys] d h(1) by simp
    with d h ne show ?thesis
      by (simp add: parse_message_def)
  qed
qed

interpretation client: stream_parser "client_parse_message C T K"
  for C :: cutil and T :: text_lib and K :: "'s connection_callbacks"
  unfolding client_parse_message_def by (rule parse_message_stream)

interpretation server: stream_parser "server_parse_message L C T K"
  for L :: line_scanner and C :: cutil and T :: text_lib and K :: "'s connection_callbacks"
  unfolding server_parse_message_def by (rule parse_message_stream)

section \<open>Messages that are in the buffer\<close>

lemma store_fragment_size: "store_fragment self offset data n = Some self' \<Longrightarrow> rx_buf_size self' = rx_buf_size self"
  by (auto simp: store_fragment_def split: option.splits)

lemma receiver_size_kept:
  "rx_buf_size (fst (snd (apx_fileManagerReceiver_write self result address data n more_bit))) = rx_buf_size self"
  by (auto simp: apx_fileManagerReceiver_write_def start_new_reception_def continue_reception_def process_more_bit_def
      apx_fileManagerReceiver_reset_def split: option.split dest: store_fragment_size)

text \<open>A write in one message.\<close>

lemma write_message_delivered:
  assumes C: "packs_big_endian C" and ok: "manager_ok self" "idle (fm_receiver self)"
    and f: "(p, f) \<in> set (file_list (remote_file_map (fm_shared self)))" "is_file_open f"
    and range: "start f \<le> unat a" "unat a < behind f"
    and room: "length d \<le> unat (rx_buf_size (fm_receiver self))" and a: "a < RMF_CMD_AREA_START_ADDRESS"
    and sum: "unat a + length d \<le> 0x3FFFFC00"
  shows "\<exists>buf self'. apx_fileManager_message_received C T M self (fragment_message (a, d, False)) =
      Some (APX_NO_ERROR, Some (FILE_WRITTEN p (a - apx_file_get_address_without_flags f) buf (of_nat (length d))), self') \<and>
    take (length d) buf = d \<and> manager_ok self' \<and> idle (fm_receiver self') \<and>
    rx_buf_size (fm_receiver self') = rx_buf_size (fm_receiver self) \<and>
    file_list (remote_file_map (fm_shared self')) = file_list (remote_file_map (fm_shared self))"
proof -
  have "unat a + length (concat [d]) < 0x7FFFFFFF" using sum by simp
  from fragments_reassembled [OF ok(2) _ _ this] room obtain buf rx where
    "receive_all (fm_receiver self) (fragments a [d]) = ([(APX_NO_ERROR, whole a buf (length d))], rx)"
    and buf: "take (length d) buf = d" "idle rx" by auto
  then have w: "apx_fileManagerReceiver_write (fm_receiver self) no_result a d (of_nat (length d)) False =
      (APX_NO_ERROR, rx, whole a buf (length d))"
    by (auto split: prod.splits)
  let ?self = "self\<lparr>fm_receiver := rx\<rparr>"
  have "manager_ok ?self" using ok(1) buf(2) by (simp add: manager_ok_def idle_def)
  moreover have low: "a < 0x80000000" using a by (simp add: word_less_nat_alt)
  ultimately obtain self' where r: "process_file_write_message ?self a buf (of_nat (length d)) =
      (APX_NO_ERROR, Some (FILE_WRITTEN p (a - apx_file_get_address_without_flags f) buf (of_nat (length d))), self')"
    "manager_ok self'" "fm_receiver self' = rx"
    "file_list (remote_file_map (fm_shared self')) = file_list (remote_file_map (fm_shared self))"
    using file_write_reported [of ?self p f a buf "of_nat (length d)"] f range by auto
  have "a \<le> RMF_HIGH_ADDR_MAX" using a by (simp add: word_less_nat_alt word_le_nat_alt)
  from fragment_received [OF C this, of T M self d False] w
  have "apx_fileManager_message_received C T M self (fragment_message (a, d, False)) =
      process_message C T M ?self a buf (of_nat (length d))"
    by (simp add: whole_def)
  also have "\<dots> = Some (process_file_write_message ?self a buf (of_nat (length d)))"
    using a by (auto simp: process_message_def)
  finally show ?thesis
    using r buf receiver_size_kept [of "fm_receiver self" no_result a d "of_nat (length d)" False] w by simp
qed

lemma parse_frame:
  assumes "packs_big_endian C" and "is_greeting_accepted self" and "length msg \<le> 0x7FFFFFFF"
  shows "parse_message greeting C T K self (frame msg @ rest) =
    map_option (\<lambda>(e, self). (Some (length (frame msg)), e, self)) (apx_connectionBase_message_received C T K self msg)"
proof -
  let ?n = "of_nat (length msg) :: u32"
  have n: "unat ?n = length msg" using assms(3) by (intro small_u32) simp
  then have "?n \<le> NUMHEADER32_MAX_NUM_LONG" using assms(3) by (simp add: word_le_nat_alt)
  then have "numheader_decode32 C (num32_bytes ?n @ msg @ rest) = (length (num32_bytes ?n), Some ?n)"
    by (rule numheader_decode32_bytes [OF assms(1)])
  then show ?thesis
    using assms(2) n length_num32(2) [of ?n] by (simp add: parse_message_def frame_def Let_def)
qed

text \<open>Callbacks that keep what is reported.\<close>

definition recorder :: "ring_insert \<Rightarrow> notification list connection_callbacks" where
  "recorder R = \<lparr>memory_for = (\<lambda>s. \<lparr>mm_info = None, mm_file = None\<rparr>), infos_for = (\<lambda>s. []),
     notify = (\<lambda>note manager s. (APX_NO_ERROR, manager, s @ [note])), commands_ring = R\<rparr>"

text \<open>A write that can be taken by one of these files, and what is reported of it.\<close>

definition writable :: "(nat \<times> apx_file) list \<Rightarrow> u32 \<Rightarrow> u32 \<times> byte list \<Rightarrow> bool" where
  "writable files room w \<longleftrightarrow> (case w of (a, d) \<Rightarrow>
     (\<exists>(p, f) \<in> set files. is_file_open f \<and> start f \<le> unat a \<and> unat a < behind f) \<and>
     length d \<le> unat room \<and> unat a + length d \<le> 0x3FFFFC00 \<and> a < RMF_CMD_AREA_START_ADDRESS)"

definition reported :: "(nat \<times> apx_file) list \<Rightarrow> u32 \<times> byte list \<Rightarrow> notification \<Rightarrow> bool" where
  "reported files w note \<longleftrightarrow> (case (w, note) of
     ((a, d), FILE_WRITTEN p offset buf n) \<Rightarrow>
       (\<exists>f. (p, f) \<in> set files \<and> start f \<le> unat a \<and> unat a < behind f \<and> offset = a - apx_file_get_address_without_flags f) \<and>
       n = of_nat (length d) \<and> take (length d) buf = d
   | _ \<Rightarrow> False)"

lemma writes_received:
  assumes C: "packs_big_endian C" and "is_greeting_accepted self"
    and "manager_ok (file_manager self)" and "idle (fm_receiver (file_manager self))"
    and "\<forall>w \<in> set writes. writable (file_list (remote_file_map (fm_shared (file_manager self))))
      (rx_buf_size (fm_receiver (file_manager self))) w"
  shows "\<exists>self' ns. receive_loop (parse_message greeting C T (recorder R)) self (concat (map write_frame writes)) t =
      Some (APX_NO_ERROR, 0, t + length (concat (map write_frame writes)), self') \<and>
    user self' = user self @ ns \<and>
    list_all2 (reported (file_list (remote_file_map (fm_shared (file_manager self))))) writes ns"
  using assms(2-5)
proof (induction writes arbitrary: self t)
  case Nil
  then show ?case by (simp add: receive_loop.simps)
next
  case (Cons w writes)
  let ?files = "file_list (remote_file_map (fm_shared (file_manager self)))"
  obtain a d where w: "w = (a, d)" by (cases w)
  from Cons.prems(4) obtain p f where f: "(p, f) \<in> set ?files" "is_file_open f" "start f \<le> unat a" "unat a < behind f"
    and room: "length d \<le> unat (rx_buf_size (fm_receiver (file_manager self)))"
    and sum: "unat a + length d \<le> 0x3FFFFC00" and a: "a < RMF_CMD_AREA_START_ADDRESS"
    by (auto simp: w writable_def)
  from write_message_delivered [OF C Cons.prems(2,3) f room a sum, of T "\<lparr>mm_info = None, mm_file = None\<rparr>"]
  obtain buf manager where r: "apx_fileManager_message_received C T \<lparr>mm_info = None, mm_file = None\<rparr> (file_manager self)
        (fragment_message (a, d, False)) =
      Some (APX_NO_ERROR, Some (FILE_WRITTEN p (a - apx_file_get_address_without_flags f) buf (of_nat (length d))), manager)"
    "take (length d) buf = d" "manager_ok manager" "idle (fm_receiver manager)"
    "rx_buf_size (fm_receiver manager) = rx_buf_size (fm_receiver (file_manager self))"
    "file_list (remote_file_map (fm_shared manager)) = ?files" by blast
  let ?note = "FILE_WRITTEN p (a - apx_file_get_address_without_flags f) buf (of_nat (length d))"
  let ?self = "self\<lparr>file_manager := manager, user := user self @ [?note]\<rparr>"
  have "length (fragment_message (a, d, False)) \<le> 0x7FFFFFFF"
    using sum length_address(2) [of a] by (simp add: fragment_message_def length_address(1))
  from parse_frame [OF C Cons.prems(1) this, of greeting T "recorder R" "concat (map write_frame writes)"] r(1)
  have parse: "parse_message greeting C T (recorder R) self (concat (map write_frame (w # writes))) =
      Some (Some (length (write_frame w)), APX_NO_ERROR, ?self)"
    by (simp add: w write_frame_def apx_connectionBase_message_received_def recorder_def)
  have ne: "write_frame w \<noteq> []" using length_num32(2) by (simp add: w write_frame_def frame_def)
  have "is_greeting_accepted ?self" "manager_ok (file_manager ?self)" "idle (fm_receiver (file_manager ?self))"
    "\<forall>w \<in> set writes. writable (file_list (remote_file_map (fm_shared (file_manager ?self))))
      (rx_buf_size (fm_receiver (file_manager ?self))) w"
    using Cons.prems r by simp_all
  from Cons.IH [OF this, of "t + length (write_frame w)"] obtain self' ns where
    loop: "receive_loop (parse_message greeting C T (recorder R)) ?self (concat (map write_frame writes)) (t + length (write_frame w)) =
      Some (APX_NO_ERROR, 0, t + length (write_frame w) + length (concat (map write_frame writes)), self')"
    and ns: "user self' = user ?self @ ns" "list_all2 (reported ?files) writes ns"
    unfolding r(6) [symmetric] by auto
  have "reported ?files w ?note" using f r(2) by (auto simp: reported_def w)
  with ns have "user self' = user self @ ?note # ns" "list_all2 (reported ?files) (w # writes) (?note # ns)" by simp_all
  moreover have "receive_loop (parse_message greeting C T (recorder R)) self (concat (map write_frame (w # writes))) t =
      Some (APX_NO_ERROR, 0, t + length (concat (map write_frame (w # writes))), self')"
    using loop ne by (subst receive_loop.simps) (simp add: parse [simplified] add.assoc)
  ultimately show ?case by blast
qed

section \<open>Properties\<close>

text \<open> C13:
  How the network cuts the stream is irrelevant: bytes that arrive in any chunks, each put behind
  what was left of the ones before, have the effect of the whole stream at once, on a client and on a
  server, in the greeting and after it, on every result: the return value, the error kept, the state,
  what is left at the end.
\<close>

theorem chunking_irrelevant:
  assumes "chunks \<noteq> []" and "\<forall>c\<in>set chunks. c \<noteq> []"
  shows "receive_chunks (client_parse_message C T K) self [] chunks =
      map_option (chunk_result (concat chunks)) (apx_clientConnection_on_data_received C T K self (concat chunks)) \<and>
    receive_chunks (server_parse_message L C T K) self [] chunks =
      map_option (chunk_result (concat chunks)) (apx_serverConnection_on_data_received L C T K self (concat chunks))"
  unfolding apx_clientConnection_on_data_received_def apx_serverConnection_on_data_received_def
  by (intro conjI client.chunks_whole [OF assms(2,1)] server.chunks_whole [OF assms(2,1)])

theorem chunking_irrelevant_witness:
  "receive_chunks (client_parse_message cutil_bytes text_bytes (recorder ring_ref))
      \<lparr>file_manager = demo_manager, is_greeting_accepted = True, last_error = APX_NO_ERROR, user = []\<rparr> [] [[4, 0], [0x10, 1, 2, 9]] =
    map_option (chunk_result [4, 0, 0x10, 1, 2, 9])
      (apx_clientConnection_on_data_received cutil_bytes text_bytes (recorder ring_ref)
        \<lparr>file_manager = demo_manager, is_greeting_accepted = True, last_error = APX_NO_ERROR, user = []\<rparr> [4, 0, 0x10, 1, 2, 9])"
  using chunking_irrelevant [of "[[4, 0], [0x10, 1, 2, 9]]" cutil_bytes text_bytes "recorder ring_ref"
      "\<lparr>file_manager = demo_manager, is_greeting_accepted = True, last_error = APX_NO_ERROR, user = []\<rparr>"]
  by simp

text \<open> C11:
  Writes arrive: what the worker of one side transmits for the writes in its queue makes the connection of
  the other side, in one packet and completely parsed, report each of them, in order, for the open file
  it lies in, at its offset in the file, with its bytes.
\<close>

theorem writes_arrive:
  assumes "packs_big_endian C" and "bytearray_documented A" and "default_buffer_size con = 4096"
    and "length (send_buffer con) \<le> 4096" and "has_socket con"
    and "fm_queue sender = map write_command writes" and "writes \<noteq> []"
    and "length (concat (map write_frame writes)) \<le> 4092"
    and "is_greeting_accepted peer" and "manager_ok (file_manager peer)" and "idle (fm_receiver (file_manager peer))"
    and "\<forall>w \<in> set writes. writable (file_list (remote_file_map (fm_shared (file_manager peer))))
      (rx_buf_size (fm_receiver (file_manager peer))) w"
  shows "\<exists>con' packet peer' ns.
    apx_fileManagerWorker_run C T (create_connection_interface_vtable A C) sender con =
      (APX_NO_ERROR, True, sender\<lparr>fm_queue := []\<rparr>, con') \<and> packets con' = packets con @ [packet] \<and>
    apx_serverConnection_on_data_received L C T (recorder R) peer packet = Some (APX_NO_ERROR, 0, length packet, peer') \<and>
    user peer' = user peer @ ns \<and>
    list_all2 (reported (file_list (remote_file_map (fm_shared (file_manager peer))))) writes ns"
proof -
  have "a \<le> RMF_HIGH_ADDR_MAX" if "(a, d) \<in> set writes" for a d
    using assms(12) that by (auto simp: writable_def word_less_nat_alt word_le_nat_alt)
  then have "\<forall>(a, d) \<in> set writes. a \<le> RMF_HIGH_ADDR_MAX" by auto
  from worker_sends_queue [OF assms(1-5) this assms(8,6,7), of T] obtain con' where
    sent: "apx_fileManagerWorker_run C T (create_connection_interface_vtable A C) sender con =
      (APX_NO_ERROR, True, sender\<lparr>fm_queue := []\<rparr>, con')" "packets con' = packets con @ [concat (map write_frame writes)]" by blast
  have "concat (map write_frame writes) \<noteq> []"
    using assms(7) length_num32(2) by (cases writes) (auto simp: write_frame_def frame_def)
  with writes_received [OF assms(1,9-12), of "process_greeting_message L" T R 0] sent show ?thesis
    by (auto simp: apx_serverConnection_on_data_received_def on_data_received_def server_parse_message_def)
qed

definition demo_peer :: "notification list connection" where
  "demo_peer = \<lparr>file_manager = demo_manager, is_greeting_accepted = True, last_error = APX_NO_ERROR, user = []\<rparr>"

theorem writes_arrive_witness:
  "\<exists>con' packet peer' ns.
    apx_fileManagerWorker_run cutil_bytes text_bytes (create_connection_interface_vtable bytearray_ref cutil_bytes)
      (demo_manager\<lparr>fm_queue := map write_command [(0x10, [1, 2]), (0x20, [3])]\<rparr>) demo_socket =
      (APX_NO_ERROR, True, demo_manager\<lparr>fm_queue := []\<rparr>, con') \<and> packets con' = packets demo_socket @ [packet] \<and>
    apx_serverConnection_on_data_received bstr_line_ref cutil_bytes text_bytes (recorder ring_ref) demo_peer packet =
      Some (APX_NO_ERROR, 0, length packet, peer') \<and>
    user peer' = [] @ ns \<and>
    list_all2 (reported [(1, (demo_file 0x80000000 100 3)\<lparr>is_file_open := True\<rparr>)]) [(0x10, [1, 2]), (0x20, [3])] ns"
proof -
  let ?files = "[(1, (demo_file 0x80000000 100 3)\<lparr>is_file_open := True\<rparr>)]" and ?writes = "[(0x10, [1, 2]), (0x20, [3])]"
  have peer: "file_list (remote_file_map (fm_shared (file_manager demo_peer))) = ?files"
    "fm_receiver (file_manager demo_peer) = demo_receiver" "manager_ok (file_manager demo_peer)"
    "is_greeting_accepted demo_peer" "user demo_peer = []"
    using demo_manager_ok by (simp_all add: demo_peer_def, simp_all add: demo_manager_def)
  have w: "\<forall>w \<in> set ?writes. writable ?files 1024 w"
    by (simp add: writable_def demo_file_def behind_def apx_file_get_address_without_flags_def rmf_fileInfo_address_without_flags_def)
  have len: "length (concat (map write_frame ?writes)) \<le> 4092"
    by (simp add: write_frame_def frame_split num32_bytes_def address_bytes_def rmf_needed_encoding_size_def)
  have sender: "(demo_manager\<lparr>fm_queue := map write_command ?writes\<rparr>)\<lparr>fm_queue := []\<rparr> = demo_manager\<lparr>fm_queue := []\<rparr>" by simp
  show ?thesis
    using writes_arrive [OF cutil_bytes_be bytearray_ref_documented _ _ demo_socket_ok(2) _ _ len peer(4) peer(3), unfolded peer,
        OF _ _ _ _ demo_receiver_idle(1), unfolded demo_receiver_idle(2), OF _ _ _ _ w,
        where sender = "demo_manager\<lparr>fm_queue := map write_command ?writes\<rparr>", unfolded sender]
      demo_socket_ok(1)
    by (simp only: socket_ok_def) simp
qed

section \<open>Greetings\<close>

lemma process_greeting_lines:
  assumes L: "finds_lines L" and "\<forall>l \<in> set lines. l \<noteq> [] \<and> 10 \<notin> set l"
  shows "process_greeting_message L (concat (map (\<lambda>l. l @ [10]) lines) @ rest) = process_greeting_message L rest"
  using assms(2)
proof (induction lines)
  case Nil
  then show ?case by simp
next
  case (Cons l lines)
  let ?tail = "concat (map (\<lambda>l. l @ [10]) lines) @ rest"
  have "L (l @ 10 # ?tail) = length (takeWhile (\<lambda>b. b \<noteq> 10) (l @ 10 # ?tail))"
    using L by (simp add: finds_lines_def)
  also have "takeWhile (\<lambda>b. b \<noteq> 10) (l @ 10 # ?tail) = l"
    using Cons.prems by (subst takeWhile_append2) auto
  finally have "L (l @ 10 # ?tail) = length l" .
  with Cons show ?case
    by (subst process_greeting_message.simps) (simp add: Let_def)
qed

lemma process_greeting_end:
  assumes "finds_lines L"
  shows "process_greeting_message L (10 # rest) = (True, APX_NO_ERROR)" and "process_greeting_message L [] = (False, APX_NO_ERROR)"
proof -
  have "L (10 # rest) = 0" using assms by (simp add: finds_lines_def)
  then show "process_greeting_message L (10 # rest) = (True, APX_NO_ERROR)"
    by (subst process_greeting_message.simps) simp
qed (subst process_greeting_message.simps, simp)

lemma parse_greeting:
  assumes "packs_big_endian C" and "\<not> is_greeting_accepted self" and "length msg \<le> 0x7FFFFFFF"
  shows "parse_message greeting C T K self (frame msg @ rest) =
    (case greeting msg of
       (True, e) \<Rightarrow> Some (Some (length (frame msg)), e, greeting_header_accepted_notification T K self)
     | (False, e) \<Rightarrow> Some (None, e, self))"
proof -
  let ?n = "of_nat (length msg) :: u32"
  have n: "unat ?n = length msg" using assms(3) by (intro small_u32) simp
  then have "?n \<le> NUMHEADER32_MAX_NUM_LONG" using assms(3) by (simp add: word_le_nat_alt)
  then have "numheader_decode32 C (num32_bytes ?n @ msg @ rest) = (length (num32_bytes ?n), Some ?n)"
    by (rule numheader_decode32_bytes [OF assms(1)])
  then show ?thesis
    using assms(2) n length_num32(2) [of ?n]
    by (cases "greeting msg"; cases "fst (greeting msg)") (simp_all add: parse_message_def frame_def Let_def)
qed

text \<open> C38:
  The first message can stop the other side. A server that gets a greeting made of lines but without the
  empty line at its end goes on with a null pointer and no error, and fails an assertion; so does a client
  whose first message is a command that is not the acknowledge command.
\<close>

theorem unaccepted_greeting_aborts:
  assumes "packs_big_endian C" and "finds_lines L" and "\<not> is_greeting_accepted self"
    and "\<forall>l \<in> set lines. l \<noteq> [] \<and> 10 \<notin> set l" and "length (concat (map (\<lambda>l. l @ [10]) lines)) \<le> 0x7FFFFFFF"
    and "snd (rmf_decode_cmd_type C cmd) \<noteq> Some RMF_CMD_ACK_MSG" and "length cmd \<le> 0x7FFFFFF0"
  shows "apx_serverConnection_on_data_received L C T K self (frame (concat (map (\<lambda>l. l @ [10]) lines)) @ rest) =
      Some (FAULT ASSERT_FAILURE, 0, 0, self) \<and>
    apx_clientConnection_on_data_received C T K self
        (frame (fragment_message (RMF_CMD_AREA_START_ADDRESS, cmd, more_bit)) @ rest) =
      Some (FAULT ASSERT_FAILURE, 0, 0, self)"
proof -
  have ne: "frame m @ rest \<noteq> []" for m using length_num32(2) by (simp add: frame_def)
  have "process_greeting_message L (concat (map (\<lambda>l. l @ [10]) lines)) = (False, APX_NO_ERROR)"
    using process_greeting_lines [OF assms(2,4), of "[]"] process_greeting_end(2) [OF assms(2)] by simp
  with parse_greeting [OF assms(1,3,5), of "process_greeting_message L" T K rest] ne
  have server: "apx_serverConnection_on_data_received L C T K self (frame (concat (map (\<lambda>l. l @ [10]) lines)) @ rest) =
      Some (FAULT ASSERT_FAILURE, 0, 0, self)"
    by (simp add: apx_serverConnection_on_data_received_def on_data_received_def server_parse_message_def receive_loop.simps)
  let ?msg = "fragment_message (RMF_CMD_AREA_START_ADDRESS, cmd, more_bit)"
  have "RMF_CMD_AREA_START_ADDRESS \<le> RMF_HIGH_ADDR_MAX" by simp
  from address_decode_bytes [OF assms(1) this, of more_bit cmd] assms(6)
  have "client_greeting_accepted C ?msg = (False, APX_NO_ERROR)"
    by (cases "rmf_decode_cmd_type C cmd") (simp add: client_greeting_accepted_def fragment_message_def)
  moreover have "length ?msg \<le> 0x7FFFFFFF"
    using assms(7) length_address(2) [of RMF_CMD_AREA_START_ADDRESS] by (simp add: fragment_message_def length_address(1))
  ultimately have "apx_clientConnection_on_data_received C T K self (frame ?msg @ rest) = Some (FAULT ASSERT_FAILURE, 0, 0, self)"
    using parse_greeting [OF assms(1,3), of ?msg "client_greeting_accepted C" T K rest] ne
    by (simp add: apx_clientConnection_on_data_received_def on_data_received_def client_parse_message_def receive_loop.simps)
  with server show ?thesis by blast
qed

definition demo_unaccepted :: "notification list connection" where
  "demo_unaccepted = demo_peer\<lparr>is_greeting_accepted := False\<rparr>"

theorem unaccepted_greeting_aborts_witness:
  "apx_serverConnection_on_data_received bstr_line_ref cutil_bytes text_bytes (recorder ring_ref) demo_unaccepted [2, 65, 10] =
      Some (FAULT ASSERT_FAILURE, 0, 0, demo_unaccepted)"
proof -
  have "frame (concat (map (\<lambda>l. l @ [10]) [[65]])) = [2, 65, 10]" by (simp add: frame_def num32_bytes_def)
  then show ?thesis
    using unaccepted_greeting_aborts [OF cutil_bytes_be bstr_line_ref_finds, where lines = "[[65]]" and cmd = "[]" and self = demo_unaccepted
        and rest = "[]" and T = text_bytes and K = "recorder ring_ref"]
    by (simp add: demo_unaccepted_def rmf_decode_cmd_type_def)
qed

text \<open>The client's greeting in an empty buffer.\<close>

lemma direct_message_fits:
  assumes C: "packs_big_endian C" and ok: "socket_ok self" "pending_bytes self = 0" and len: "length msg \<le> 4000"
  shows "\<exists>self'. apx_clientSocketConnection_transmit_direct_message A C self msg (of_nat (length msg)) = (APX_NO_ERROR, self') \<and>
    socket_ok self' \<and> written self' = frame msg \<and> packets self' = packets self \<and> has_socket self' = has_socket self \<and>
    unat (pending_bytes self') = length (frame msg)"
proof -
  let ?n = "of_nat (length msg) :: u32"
  let ?h = "num32_bytes ?n"
  have n: "unat ?n = length msg" using len by (intro small_u32) simp
  have "sint ?n = int (length msg)" using len by (simp add: signed_of_nat signed_take_bit_int_eq_self)
  with n have small: "?n \<le> NUMHEADER32_MAX_NUM_LONG" "(4096 < sint ?n) = False"
    using len by (simp_all add: word_le_nat_alt)
  have h: "length ?h \<le> 4" "0 < length ?h" using length_num32 [of ?n] by auto
  have enc: "numheader_encode32 C (Some (replicate 4 0)) 4 ?n = Some (int (length ?h), Some (?h @ drop (length ?h) (replicate 4 0)))"
    using h by (intro numheader_encode32_writes [OF C small(1)]) auto
  have k: "unat (of_nat (length ?h) :: u32) = length ?h" using h by (intro small_u32) simp
  have sum: "unat (of_nat (length ?h) + ?n) = length ?h + length msg"
    using h len n k by (simp add: unat_word_ariths)
  have "make_room A (of_nat (length ?h) + ?n) self = (APX_NO_ERROR, self)"
    using ok len h sum by (simp add: make_room_def socket_ok_def word_less_nat_alt)
  moreover have "append_pending 0 (?h @ drop (length ?h) (replicate 4 0)) (of_nat (length ?h)) self =
      append_pending (unat (pending_bytes self)) ?h (of_nat (length ?h)) self"
    using ok(2) by (simp add: append_pending_prefix k)
  ultimately have "apx_clientSocketConnection_transmit_direct_message A C self msg ?n = copy_message ?h msg self"
    using ok unfolding apx_clientSocketConnection_transmit_direct_message_def socket_ok_def
    by (simp add: small enc copy_message_def Let_def)
  moreover have "written self = []" using ok(2) by (simp add: written_def)
  ultimately show ?thesis
    using copy_message_fits [OF ok(1), of ?h msg] ok(2) h len by (auto simp: frame_def)
qed

lemma transmit_end_ok:
  assumes "bytearray_documented A" and "socket_ok con" and "has_socket con" and "0 < unat (pending_bytes con)"
  shows "\<exists>con'. apx_clientSocketConnection_transmit_end A con = (APX_NO_ERROR, con') \<and> packets con' = packets con @ [written con]"
proof -
  have "mem_read 0 (unat (pending_bytes con)) (send_buffer con) = Some (written con)"
    using assms(2) by (simp add: mem_read_def written_def socket_ok_def word_le_nat_alt)
  moreover have "0 < pending_bytes con" using assms(4) by (simp add: word_less_nat_alt)
  ultimately show ?thesis
    using assms(1,3) by (simp add: apx_clientSocketConnection_transmit_end_def send_packet_def)
qed

definition greeting_lines :: "byte list list" where
  "greeting_lines = [[82, 77, 70, 80, 47, 49, 46, 48],
     [78, 117, 109, 72, 101, 97, 100, 101, 114, 45, 70, 111, 114, 109, 97, 116, 58, 51, 50]]"

lemma client_greets:
  assumes C: "packs_big_endian C" and A: "bytearray_documented A"
    and s: "default_buffer_size socket = 4096" "length (send_buffer socket) \<le> 4096" "has_socket socket"
  shows "\<exists>socket'. apx_clientConnection_connected_notification A C self socket =
      (APX_NO_ERROR, self\<lparr>is_greeting_accepted := False\<rparr>, socket') \<and>
    packets socket' = packets socket @ [frame (concat (map (\<lambda>l. l @ [10]) greeting_lines) @ [10])]"
proof -
  let ?g = "concat (map (\<lambda>l. l @ [10]) greeting_lines) @ [10]"
  have chars: "map (\<lambda>c. of_nat (of_char c)) (''RMFP/1.0'' @ [CHR 0x0A] @ ''NumHeader-Format:'' @ ''32'' @ [CHR 0x0A, CHR 0x0A]) = ?g"
    by (simp add: greeting_lines_def of_char_def)
  obtain s1 where b: "apx_clientSocketConnection_transmit_begin A socket = (APX_NO_ERROR, s1)" "socket_ok s1"
    "pending_bytes s1 = 0" "packets s1 = packets socket" "has_socket s1 = has_socket socket"
    using transmit_begin_ok [OF A s(1,2)] by auto
  have "length ?g \<le> 4000" by (simp add: greeting_lines_def)
  from direct_message_fits [OF C b(2,3) this, of A] obtain s2 where
    m: "apx_clientSocketConnection_transmit_direct_message A C s1 ?g (of_nat (length ?g)) = (APX_NO_ERROR, s2)"
    "socket_ok s2" "written s2 = frame ?g" "packets s2 = packets s1" "has_socket s2 = has_socket s1"
    "unat (pending_bytes s2) = length (frame ?g)" by auto
  have "0 < unat (pending_bytes s2)" using m(6) by (simp add: frame_def)
  from transmit_end_ok [OF A m(2) _ this] m(5) b(5) s(3) obtain s3 where
    "apx_clientSocketConnection_transmit_end A s2 = (APX_NO_ERROR, s3)" "packets s3 = packets s2 @ [written s2]" by auto
  with b m show ?thesis
    unfolding apx_clientConnection_connected_notification_def chars Let_def by simp
qed

lemma server_acknowledges:
  assumes C: "packs_big_endian C" "packs_little_endian C" and A: "bytearray_documented A"
    and s: "default_buffer_size socket = 4096" "length (send_buffer socket) \<le> 4096" "has_socket socket"
    and queue: "fm_queue manager = [\<lparr>cmd_type = APX_CMD_SEND_ACKNOWLEDGE, data1 = 0, data2 = 0, data3 = NO_POINTER\<rparr>]"
  shows "\<exists>socket'. apx_fileManagerWorker_run C T (create_connection_interface_vtable A C) manager socket =
      (APX_NO_ERROR, True, manager\<lparr>fm_queue := []\<rparr>, socket') \<and>
    packets socket' = packets socket @ [frame (fragment_message (RMF_CMD_AREA_START_ADDRESS, packLE C RMF_CMD_ACK_MSG 4, False))]"
proof -
  let ?ack = "packLE C RMF_CMD_ACK_MSG 4"
  have len: "length ?ack = 4" using C(2) by (simp add: codec_simps)
  obtain s1 where b: "apx_clientSocketConnection_transmit_begin A socket = (APX_NO_ERROR, s1)" "socket_ok s1"
    "pending_bytes s1 = 0" "packets s1 = packets socket" "has_socket s1 = has_socket socket"
    using transmit_begin_ok [OF A s(1,2)] by auto
  have addr: "rmf_needed_encoding_size RMF_CMD_AREA_START_ADDRESS + length ?ack \<le> 4096"
    "length (frame (fragment_message (RMF_CMD_AREA_START_ADDRESS, ?ack, False))) \<le> 4096"
    using len length_num32(1) [of "of_nat (rmf_needed_encoding_size RMF_CMD_AREA_START_ADDRESS + length ?ack)"]
    by (simp_all only: frame_split) (simp_all add: length_address(1) rmf_needed_encoding_size_def)
  obtain s2 where m: "apx_clientSocketConnection_transmit_data_message A C s1 RMF_CMD_AREA_START_ADDRESS False ?ack (of_nat (length ?ack)) =
      (APX_NO_ERROR, s2)" "socket_ok s2" "written s2 = written s1 @ frame (fragment_message (RMF_CMD_AREA_START_ADDRESS, ?ack, False))"
    "packets s2 = packets s1" "has_socket s2 = has_socket s1"
    "unat (pending_bytes s2) = length (frame (fragment_message (RMF_CMD_AREA_START_ADDRESS, ?ack, False)))"
    using transmit_fits [OF C(1) _ b(2) addr(1), of False A] b(3) addr(2) by auto
  have run: "run_send_acknowledge C (create_connection_interface_vtable A C) s1 = (APX_NO_ERROR, s2)"
    using m(1) len by (simp add: run_send_acknowledge_def rmf_encode_acknowledge_cmd_def transmit_command_def put_def
        mem_write_def create_connection_interface_vtable_def)
  have "0 < unat (pending_bytes s2)" unfolding m(6) by (simp add: frame_split len)
  from transmit_end_ok [OF A m(2) _ this] m(5) b(5) s(3) obtain s3 where
    "apx_clientSocketConnection_transmit_end A s2 = (APX_NO_ERROR, s3)" "packets s3 = packets s2 @ [written s2]" by auto
  with b m run queue show ?thesis
    by (simp add: apx_fileManagerWorker_run_def process_single_command_def Let_def written_def
        create_connection_interface_vtable_def)
qed

text \<open> C12:
  The handshake completes: the greeting that a client sends when its socket is connected is accepted
  by a server, whose worker then sends an acknowledge, which the client accepts, and the client queues the
  publication of all its local files.
\<close>

theorem handshake_completes:
  assumes "packs_big_endian C" and "packs_little_endian C" and "bytearray_documented A" and "finds_lines L"
    and "default_buffer_size csock = 4096" and "length (send_buffer csock) \<le> 4096" and "has_socket csock"
    and "default_buffer_size ssock = 4096" and "length (send_buffer ssock) \<le> 4096" and "has_socket ssock"
    and "ring_documented (commands_ring S)" and "fm_mode (file_manager server) = APX_SERVER_MODE"
    and "fm_queue (file_manager server) = []" and "\<not> is_greeting_accepted server" and "fm_mode (file_manager client) = APX_CLIENT_MODE"
  shows "\<exists>csock' greeting server' manager' ssock' ack client'.
    apx_clientConnection_connected_notification A C client csock =
      (APX_NO_ERROR, client\<lparr>is_greeting_accepted := False\<rparr>, csock') \<and> packets csock' = packets csock @ [greeting] \<and>
    apx_serverConnection_on_data_received L C T S server greeting = Some (APX_NO_ERROR, 0, length greeting, server') \<and>
    is_greeting_accepted server' \<and>
    apx_fileManagerWorker_run C T (create_connection_interface_vtable A C) (file_manager server') ssock =
      (APX_NO_ERROR, True, manager', ssock') \<and> packets ssock' = packets ssock @ [ack] \<and>
    apx_clientConnection_on_data_received C T K (client\<lparr>is_greeting_accepted := False\<rparr>) ack =
      Some (APX_NO_ERROR, 0, length ack, client') \<and> is_greeting_accepted client' \<and>
    file_manager client' = publish_local_files (commands_ring K) T (infos_for K (user client)) (file_manager client)"
proof -
  let ?greeting = "frame (concat (map (\<lambda>l. l @ [10]) greeting_lines) @ [10])"
  obtain csock' where sent: "apx_clientConnection_connected_notification A C client csock =
      (APX_NO_ERROR, client\<lparr>is_greeting_accepted := False\<rparr>, csock')" "packets csock' = packets csock @ [?greeting]"
    using client_greets [OF assms(1,3,5-7)] by blast
  have "\<forall>l \<in> set greeting_lines. l \<noteq> [] \<and> 10 \<notin> set l" by (simp add: greeting_lines_def)
  from process_greeting_lines [OF assms(4) this, of "[10]"] process_greeting_end(1) [OF assms(4), of "[]"]
  have "process_greeting_message L (concat (map (\<lambda>l. l @ [10]) greeting_lines) @ [10]) = (True, APX_NO_ERROR)" by simp
  moreover have "length (concat (map (\<lambda>l. l @ [10]) greeting_lines) @ [10]) \<le> 0x7FFFFFFF" by (simp add: greeting_lines_def)
  moreover have ne: "frame m \<noteq> []" for m using length_num32(2) by (simp add: frame_def)
  ultimately have server: "apx_serverConnection_on_data_received L C T S server ?greeting =
      Some (APX_NO_ERROR, 0, length ?greeting, greeting_header_accepted_notification T S server)"
    using parse_greeting [OF assms(1,14), of "concat (map (\<lambda>l. l @ [10]) greeting_lines) @ [10]" "process_greeting_message L" T S "[]"]
    by (simp add: apx_serverConnection_on_data_received_def on_data_received_def server_parse_message_def receive_loop.simps)
  let ?server = "greeting_header_accepted_notification T S server"
  have queue: "fm_queue (file_manager ?server) = [\<lparr>cmd_type = APX_CMD_SEND_ACKNOWLEDGE, data1 = 0, data2 = 0, data3 = NO_POINTER\<rparr>]"
    "is_greeting_accepted ?server"
    using assms(11-13) by (simp_all add: greeting_header_accepted_notification_def apx_fileManager_connected_def
        apx_fileManagerWorker_preare_acknowledge_def enqueue_def ring_documented_def)
  let ?msg = "fragment_message (RMF_CMD_AREA_START_ADDRESS, packLE C RMF_CMD_ACK_MSG 4, False)"
  obtain ssock' where ack: "apx_fileManagerWorker_run C T (create_connection_interface_vtable A C) (file_manager ?server) ssock =
      (APX_NO_ERROR, True, (file_manager ?server)\<lparr>fm_queue := []\<rparr>, ssock')" "packets ssock' = packets ssock @ [frame ?msg]"
    using server_acknowledges [OF assms(1-3,8-10) queue(1)] by blast
  have len: "length (packLE C RMF_CMD_ACK_MSG 4) = 4" using assms(2) by (simp add: codec_simps)
  have "client_greeting_accepted C ?msg = (True, APX_NO_ERROR)"
    using address_decode_bytes [OF assms(1), of RMF_CMD_AREA_START_ADDRESS False] len
    by (simp add: client_greeting_accepted_def fragment_message_def rmf_decode_cmd_type_def unpack_packed(1) [OF assms(2)])
  moreover have "length ?msg \<le> 0x7FFFFFFF"
    using len by (simp add: fragment_message_def length_address(1) rmf_needed_encoding_size_def)
  ultimately have "apx_clientConnection_on_data_received C T K (client\<lparr>is_greeting_accepted := False\<rparr>) (frame ?msg) =
      Some (APX_NO_ERROR, 0, length (frame ?msg),
        greeting_header_accepted_notification T K (client\<lparr>is_greeting_accepted := False\<rparr>))"
    using parse_greeting [OF assms(1), of "client\<lparr>is_greeting_accepted := False\<rparr>" ?msg "client_greeting_accepted C" T K "[]"] ne
    by (simp add: apx_clientConnection_on_data_received_def on_data_received_def client_parse_message_def receive_loop.simps)
  with sent server ack queue(2) assms(15) show ?thesis
    by (auto simp: greeting_header_accepted_notification_def apx_fileManager_connected_def)
qed

definition demo_client :: "notification list connection" where
  "demo_client = demo_unaccepted\<lparr>file_manager := demo_manager\<lparr>fm_mode := APX_CLIENT_MODE\<rparr>\<rparr>"

theorem handshake_completes_witness:
  "\<exists>csock' greeting server' manager' ssock' ack client'.
    apx_clientConnection_connected_notification bytearray_ref cutil_bytes demo_client demo_socket =
      (APX_NO_ERROR, demo_client\<lparr>is_greeting_accepted := False\<rparr>, csock') \<and> packets csock' = packets demo_socket @ [greeting] \<and>
    apx_serverConnection_on_data_received bstr_line_ref cutil_bytes text_bytes (recorder ring_ref) demo_unaccepted greeting =
      Some (APX_NO_ERROR, 0, length greeting, server') \<and>
    is_greeting_accepted server' \<and>
    apx_fileManagerWorker_run cutil_bytes text_bytes (create_connection_interface_vtable bytearray_ref cutil_bytes)
      (file_manager server') demo_socket = (APX_NO_ERROR, True, manager', ssock') \<and> packets ssock' = packets demo_socket @ [ack] \<and>
    apx_clientConnection_on_data_received cutil_bytes text_bytes (recorder ring_ref) (demo_client\<lparr>is_greeting_accepted := False\<rparr>) ack =
      Some (APX_NO_ERROR, 0, length ack, client') \<and> is_greeting_accepted client' \<and>
    file_manager client' = publish_local_files (commands_ring (recorder ring_ref)) text_bytes
      (infos_for (recorder ring_ref) (user demo_client)) (file_manager demo_client)"
proof -
  have d: "default_buffer_size demo_socket = 4096" "length (send_buffer demo_socket) \<le> 4096" "has_socket demo_socket"
    using demo_socket_ok by (simp_all add: socket_ok_def)
  have m: "fm_mode (file_manager demo_unaccepted) = APX_SERVER_MODE" "fm_queue (file_manager demo_unaccepted) = []"
    "\<not> is_greeting_accepted demo_unaccepted" "fm_mode (file_manager demo_client) = APX_CLIENT_MODE"
    "ring_documented (commands_ring (recorder ring_ref))"
    by (simp_all add: demo_client_def demo_unaccepted_def demo_peer_def recorder_def ring_ref_documented)
      (simp_all add: demo_manager_def)
  show ?thesis
    by (rule handshake_completes [OF cutil_bytes_be cutil_bytes_le bytearray_ref_documented bstr_line_ref_finds d d m(5,1,2,3,4)])
qed

end
