(* ===== verification/PortInstance.thy ===== *)
theory PortInstance
  imports Program SignatureParser PortConnector
begin

text \<open>
  The ports of a node, apx/src/port_instance.c: a port knows its node, its side and its position, its
  programs, and what their headers say of its data. The computation list of a port (its value
  tables and scalings, used by no code of the library's core) is not modelled.
\<close>

record apx_portInstance =
  pi_ptr :: port_ptr
  pi_pack_program :: "byte list option"
  pi_unpack_program :: "byte list option"
  pi_name :: "byte list option"
  effective_data_element :: "apx_dataElement option"
  pi_data_offset :: u32
  pi_data_size :: u32
  pi_queue_length :: u32
  pi_element_size :: u32
  pi_has_dynamic_data :: bool
  port_signature :: "byte list option"

abbreviation (input) APX_INVALID_PORT_ID :: u32 where "APX_INVALID_PORT_ID \<equiv> 0xFFFFFFFF"

text \<open>The boolean tells whether the name can be copied. A failing copy leaves a null name.\<close>

definition apx_portInstance_create ::
  "bool \<Rightarrow> apx_portInstance \<Rightarrow> port_ptr \<Rightarrow> byte list option \<Rightarrow> byte list option \<Rightarrow> byte list option \<Rightarrow>
     apx_error \<times> apx_portInstance" where
  "apx_portInstance_create mem self ptr name pack_program unpack_program =
     (let self = self\<lparr>pi_ptr := ptr, pi_pack_program := pack_program, pi_unpack_program := unpack_program,
            effective_data_element := None, pi_data_offset := 0, pi_data_size := 0, pi_queue_length := 0,
            pi_element_size := 0, pi_has_dynamic_data := False, port_signature := None\<rparr>
      in case name of
           None \<Rightarrow> (APX_NO_ERROR, self)
         | Some cs \<Rightarrow> if mem then (APX_NO_ERROR, self\<lparr>pi_name := Some (c_string cs)\<rparr>)
                      else (APX_MEM_ERROR, self\<lparr>pi_name := None\<rparr>))"

definition process_info_from_program_header ::
  "cutil \<Rightarrow> apx_portInstance \<Rightarrow> byte list option \<Rightarrow> apx_programHeader \<Rightarrow> apx_error \<times> apx_portInstance" where
  "process_info_from_program_header C self program header =
     (case program of
        None \<Rightarrow> (APX_NULL_PTR_ERROR, self)
      | Some bytes \<Rightarrow>
          (case apx_program_decode_header C (Some bytes) (None, header) of
             (result, next, header) \<Rightarrow>
               if result \<noteq> APX_NO_ERROR then (result, self)
               else (APX_NO_ERROR, self\<lparr>pi_data_size := ph_data_size header,
                  pi_has_dynamic_data := ph_has_dynamic_data header, pi_queue_length := ph_queue_length header,
                  pi_element_size := ph_element_size header\<rparr>)))"

text \<open>The last argument is the memory of the header on the stack.\<close>

definition apx_portInstance_derive_properties ::
  "cutil \<Rightarrow> apx_portInstance \<Rightarrow> u32 \<Rightarrow> apx_programHeader \<Rightarrow> apx_error \<times> u32 option \<times> apx_portInstance" where
  "apx_portInstance_derive_properties C self offset header =
     (case process_info_from_program_header C self
             (if apx_portInstance_port_type (pi_ptr self) = APX_PROVIDE_PORT then pi_pack_program self
              else pi_unpack_program self) header of
        (result, self) \<Rightarrow>
          if result \<noteq> APX_NO_ERROR then (result, None, self)
          else (APX_NO_ERROR, Some (pi_data_size self), self\<lparr>pi_data_offset := offset\<rparr>))"

definition apx_portInstance_set_effective_element ::
  "apx_portInstance \<Rightarrow> apx_dataElement option \<Rightarrow> apx_portInstance" where
  "apx_portInstance_set_effective_element self data_element = self\<lparr>effective_data_element := data_element\<rparr>"

text \<open>The name in quotes and the normalized signature of the data. The string library is taken to have memory.\<close>

definition apx_port_instance_create_port_signature :: "bool \<Rightarrow> apx_portInstance \<Rightarrow> apx_error \<times> apx_portInstance" where
  "apx_port_instance_create_port_signature mem self =
     (if port_signature self = None then
        (case pi_name self of
           None \<Rightarrow> (FAULT NULL_ACCESS, self)
         | Some name \<Rightarrow>
             (case effective_data_element self of
                None \<Rightarrow> (APX_NULL_PTR_ERROR, self)
              | Some data_element \<Rightarrow>
                  (case apx_dataElement_to_string data_element True of
                     None \<Rightarrow> (APX_NULL_PTR_ERROR, self)
                   | Some data_signature \<Rightarrow>
                       if mem then (APX_NO_ERROR, self\<lparr>port_signature := Some ([34] @ name @ [34] @ data_signature)\<rparr>)
                       else (APX_MEM_ERROR, self))))
      else (APX_NO_ERROR, self))"

definition apx_portInstance_get_port_signature :: "apx_portInstance \<Rightarrow> byte list option \<times> bool" where
  "apx_portInstance_get_port_signature self = (port_signature self, pi_has_dynamic_data self)"

end
