(* ===== verification/BytePortMap.thy ===== *)
theory BytePortMap
  imports PortInstance
begin

text \<open>
  Which port a byte of the port data belongs to: apx/src/byte_port_map.c, an array with a port
  identifier for every byte. The memory malloc returns is a parameter.
\<close>

record apx_bytePortMap =
  map_data :: "u32 list"
  map_len :: u32

text \<open>
  The inner loop writes the identifier once for each byte of the port and the pointer moves on behind
  them; the bound is asserted after the writes.
\<close>

fun store_ports :: "u32 list \<Rightarrow> nat \<Rightarrow> u32 \<Rightarrow> apx_portInstance list \<Rightarrow> apx_error \<times> nat \<times> u32 list" where
  "store_ports bytes next port_id [] = (APX_NO_ERROR, next, bytes)"
| "store_ports bytes next port_id (port_instance # ports) =
     (let pack_len = unat (pi_data_size port_instance) in
      if next + pack_len > length bytes
      then (FAULT (if pack_len = 0 then ASSERT_FAILURE else OUT_OF_BOUNDS), next, bytes)
      else store_ports (take next bytes @ replicate pack_len port_id @ drop (next + pack_len) bytes)
             (next + pack_len) (port_id + 1) ports)"

definition apx_bytePortMap_build ::
  "(nat \<Rightarrow> u32 list option) \<Rightarrow> apx_bytePortMap \<Rightarrow> apx_portInstance list \<Rightarrow> u32 \<Rightarrow> apx_error \<times> apx_bytePortMap" where
  "apx_bytePortMap_build malloc self port_instance_list len =
     (if port_instance_list \<noteq> [] \<and> len > 0 then
        (case malloc (unat len) of
           None \<Rightarrow> (APX_MEM_ERROR, self)
         | Some bytes \<Rightarrow>
             (case store_ports bytes 0 0 port_instance_list of
                (e, next, bytes) \<Rightarrow>
                  let self = self\<lparr>map_data := bytes, map_len := len\<rparr> in
                  if is_fault e then (e, self)
                  else c_assert (next = unat len) (APX_NO_ERROR, self) self))
      else (APX_INVALID_ARGUMENT_ERROR, self))"

definition apx_bytePortMap_create ::
  "(nat \<Rightarrow> u32 list option) \<Rightarrow> u32 \<Rightarrow> apx_portInstance list \<Rightarrow> apx_error \<times> apx_bytePortMap" where
  "apx_bytePortMap_create malloc total_size port_instance_list =
     (if port_instance_list \<noteq> [] \<and> total_size > 0
      then apx_bytePortMap_build malloc \<lparr>map_data = [], map_len = 0\<rparr> port_instance_list total_size
      else (APX_INVALID_ARGUMENT_ERROR, \<lparr>map_data = [], map_len = 0\<rparr>))"

definition apx_bytePortMap_new ::
  "bool \<Rightarrow> (nat \<Rightarrow> u32 list option) \<Rightarrow> u32 \<Rightarrow> apx_portInstance list \<Rightarrow> apx_error option \<times> apx_bytePortMap option" where
  "apx_bytePortMap_new mem malloc total_size port_instance_list =
     (if mem then
        (case apx_bytePortMap_create malloc total_size port_instance_list of
           (result, self) \<Rightarrow> (Some result, if result \<noteq> APX_NO_ERROR then None else Some self))
      else (None, None))"

text \<open>A null pointer has no identifier for any byte. Reading outside the array has no value.\<close>

definition apx_bytePortMap_lookup :: "apx_bytePortMap option \<Rightarrow> u32 \<Rightarrow> u32 option" where
  "apx_bytePortMap_lookup self offset =
     (case self of
        None \<Rightarrow> Some APX_INVALID_PORT_ID
      | Some m \<Rightarrow>
          if offset < map_len m
          then (if unat offset < length (map_data m) then Some (map_data m ! unat offset) else None)
          else Some APX_INVALID_PORT_ID)"

definition apx_bytePortMap_length :: "apx_bytePortMap option \<Rightarrow> u32" where
  "apx_bytePortMap_length self = (case self of None \<Rightarrow> 0 | Some m \<Rightarrow> map_len m)"

section \<open>The map of a list of ports\<close>

definition sizes :: "apx_portInstance list \<Rightarrow> nat" where
  "sizes ports = sum_list (map (\<lambda>p. unat (pi_data_size p)) ports)"

fun owners :: "u32 \<Rightarrow> apx_portInstance list \<Rightarrow> u32 list" where
  "owners port_id [] = []"
| "owners port_id (p # ps) = replicate (unat (pi_data_size p)) port_id @ owners (port_id + 1) ps"

lemma length_owners: "length (owners i ps) = sizes ps"
  by (induction ps arbitrary: i) (simp_all add: sizes_def)

lemma store_ports_fits:
  "next + sizes ps \<le> length bytes \<Longrightarrow>
     store_ports bytes next i ps =
       (APX_NO_ERROR, next + sizes ps, take next bytes @ owners i ps @ drop (next + sizes ps) bytes)"
proof (induction ps arbitrary: bytes "next" i)
  case Nil
  then show ?case by (simp add: sizes_def)
next
  case (Cons p ps)
  let ?n = "unat (pi_data_size p)"
  let ?bytes = "take next bytes @ replicate ?n i @ drop (next + ?n) bytes"
  have room: "next + ?n + sizes ps \<le> length bytes" using Cons.prems by (simp add: sizes_def)
  then have len: "length (take next bytes) = next" "length ?bytes = length bytes" by simp_all
  have split: "take (next + ?n) ?bytes = take next bytes @ replicate ?n i"
    "drop (next + ?n + sizes ps) ?bytes = drop (next + ?n + sizes ps) bytes"
    using len by (simp_all add: min_def add.commute)
  have "next + ?n + sizes ps \<le> length ?bytes" using room len(2) by simp
  from Cons.IH [OF this, of "i + 1"] room show ?case
    unfolding split by (simp add: sizes_def add.assoc Let_def)
qed

lemma store_ports_overruns:
  "next \<le> length bytes \<Longrightarrow> next + sizes ps > length bytes \<Longrightarrow> is_fault (fst (store_ports bytes next i ps))"
proof (induction ps arbitrary: bytes "next" i)
  case Nil
  then show ?case by (simp add: sizes_def)
next
  case (Cons p ps)
  let ?n = "unat (pi_data_size p)"
  show ?case
  proof (cases "next + ?n > length bytes")
    case False
    let ?bytes = "take next bytes @ replicate ?n i @ drop (next + ?n) bytes"
    have "length ?bytes = length bytes" using False by simp
    then have "next + ?n \<le> length ?bytes" "next + ?n + sizes ps > length ?bytes"
      using Cons.prems False unfolding sizes_def by auto
    from Cons.IH [OF this, of "i + 1"] False show ?thesis by (simp add: Let_def)
  qed simp
qed

text \<open>The first byte of a port.\<close>

definition first_byte :: "apx_portInstance list \<Rightarrow> nat \<Rightarrow> nat" where
  "first_byte ports k = sizes (take k ports)"

lemma owners_nth:
  "j < length ps \<Longrightarrow> first_byte ps j \<le> k \<Longrightarrow> k < first_byte ps (Suc j) \<Longrightarrow> owners i ps ! k = i + of_nat j"
proof (induction ps arbitrary: i j k)
  case Nil
  then show ?case by simp
next
  case (Cons p ps)
  let ?n = "unat (pi_data_size p)"
  show ?case
  proof (cases j)
    case 0
    with Cons.prems show ?thesis by (simp add: first_byte_def sizes_def nth_append)
  next
    case (Suc m)
    then have "m < length ps" "first_byte ps m \<le> k - ?n" "k - ?n < first_byte ps (Suc m)" "?n \<le> k"
      using Cons.prems by (auto simp: first_byte_def sizes_def)
    from Cons.IH [OF this(1-3), of "i + 1"] this(4) Suc show ?thesis
      by (simp add: nth_append)
  qed
qed

lemma first_byte_bound: "j < length ps \<Longrightarrow> first_byte ps (Suc j) \<le> sizes ps"
proof -
  have "sizes ps = sizes (take (Suc j) ps) + sizes (drop (Suc j) ps)"
    unfolding sizes_def by (metis append_take_drop_id map_append sum_list.append)
  then show ?thesis by (simp add: first_byte_def)
qed

definition map_of_ports :: "apx_portInstance list \<Rightarrow> apx_bytePortMap \<Rightarrow> bool" where
  "map_of_ports ports m \<longleftrightarrow> map_data m = owners 0 ports \<and> unat (map_len m) = sizes ports"

text \<open> C25:
  The map of a list of ports is built exactly when the size it is built for is the sum of the sizes of
  the ports, and then finds for every byte the port whose range holds it and no port behind the last; if the
  size is smaller the array is overrun or an assertion fails, if it is larger an assertion fails.
\<close>

theorem byte_port_map_exact:
  assumes "ports \<noteq> []" and "total_size > 0" and "malloc (unat total_size) = Some bytes" and "length bytes = unat total_size"
  shows "if unat total_size = sizes ports
    then \<exists>m. apx_bytePortMap_create malloc total_size ports = (APX_NO_ERROR, m) \<and>
      (\<forall>j k. j < length ports \<longrightarrow> first_byte ports j \<le> unat k \<longrightarrow> unat k < first_byte ports (Suc j) \<longrightarrow>
        apx_bytePortMap_lookup (Some m) k = Some (of_nat j)) \<and>
      (\<forall>k. sizes ports \<le> unat k \<longrightarrow> apx_bytePortMap_lookup (Some m) k = Some APX_INVALID_PORT_ID)
    else is_fault (fst (apx_bytePortMap_create malloc total_size ports))"
proof (cases "sizes ports \<le> unat total_size")
  case True
  have "apx_bytePortMap_create malloc total_size ports =
      c_assert (sizes ports = unat total_size)
        (APX_NO_ERROR, \<lparr>map_data = owners 0 ports @ drop (sizes ports) bytes, map_len = total_size\<rparr>)
        \<lparr>map_data = owners 0 ports @ drop (sizes ports) bytes, map_len = total_size\<rparr>"
    using assms store_ports_fits [of 0 ports bytes 0] True
    by (simp add: apx_bytePortMap_create_def apx_bytePortMap_build_def Let_def)
  moreover have "unat k < sizes ports" if "j < length ports" "unat k < first_byte ports (Suc j)" for j and k :: u32
    using first_byte_bound [OF that(1)] that(2) by simp
  ultimately show ?thesis
    using assms(4) owners_nth [where i = 0 and ps = ports]
    by (auto simp: c_assert_def apx_bytePortMap_lookup_def word_less_nat_alt length_owners)
next
  case False
  then show ?thesis
    using assms store_ports_overruns [of 0 bytes ports 0]
    by (auto simp: apx_bytePortMap_create_def apx_bytePortMap_build_def Let_def split: prod.split)
qed

definition demo_port_of :: "nat \<Rightarrow> apx_portType \<Rightarrow> nat \<Rightarrow> u32 \<Rightarrow> u32 \<Rightarrow> byte list \<Rightarrow> apx_portInstance" where
  "demo_port_of node side i offset n signature = \<lparr>pi_ptr = PORT node side i, pi_pack_program = None, pi_unpack_program = None,
     pi_name = Some [], effective_data_element = None, pi_data_offset = offset, pi_data_size = n, pi_queue_length = 0,
     pi_element_size = 0, pi_has_dynamic_data = False, port_signature = Some signature\<rparr>"

theorem byte_port_map_exact_witness:
  "\<exists>m. apx_bytePortMap_create (\<lambda>n. Some (replicate n 7)) 3
      [demo_port_of 0 APX_PROVIDE_PORT 0 0 2 [], demo_port_of 0 APX_PROVIDE_PORT 1 2 1 []] = (APX_NO_ERROR, m) \<and>
    apx_bytePortMap_lookup (Some m) 1 = Some 0 \<and> apx_bytePortMap_lookup (Some m) 2 = Some 1 \<and>
    apx_bytePortMap_lookup (Some m) 3 = Some APX_INVALID_PORT_ID"
proof -
  let ?ports = "[demo_port_of 0 APX_PROVIDE_PORT 0 0 2 [], demo_port_of 0 APX_PROVIDE_PORT 1 2 1 []]"
  have s: "sizes ?ports = 3" "first_byte ?ports 0 = 0" "first_byte ?ports 1 = 2" "first_byte ?ports 2 = 3"
    by (simp_all add: sizes_def first_byte_def demo_port_of_def)
  obtain m where m: "apx_bytePortMap_create (\<lambda>n. Some (replicate n 7)) 3 ?ports = (APX_NO_ERROR, m)"
    and found: "\<forall>j k. j < length ?ports \<longrightarrow> first_byte ?ports j \<le> unat k \<longrightarrow> unat k < first_byte ?ports (Suc j) \<longrightarrow>
      apx_bytePortMap_lookup (Some m) k = Some (of_nat j)"
    and behind: "\<forall>k. sizes ?ports \<le> unat k \<longrightarrow> apx_bytePortMap_lookup (Some m) k = Some APX_INVALID_PORT_ID"
    using byte_port_map_exact [of ?ports 3 "\<lambda>n. Some (replicate n 7)" "replicate 3 7"] s(1) by auto
  have "apx_bytePortMap_lookup (Some m) 1 = Some (of_nat 0)"
    by (rule found [rule_format]) (simp_all add: sizes_def first_byte_def demo_port_of_def)
  moreover have "apx_bytePortMap_lookup (Some m) 2 = Some (of_nat 1)"
    by (rule found [rule_format]) (simp_all add: sizes_def first_byte_def demo_port_of_def)
  moreover have "apx_bytePortMap_lookup (Some m) 3 = Some APX_INVALID_PORT_ID"
    by (rule behind [rule_format]) (simp add: sizes_def demo_port_of_def)
  ultimately show ?thesis using m by auto
qed

end
