(* ===== verification/NodeInstance.thy ===== *)
theory NodeInstance
  imports BytePortMap NodeData FileManager
begin

text \<open>
  A node, apx/src/node_instance.c: its ports, their initial data, its running data, the map from bytes
  to ports, on a server the connectors of its provide ports, and the states of its three files. This
  theory holds the operations on one node; what involves other nodes is in the theories
  \<open>SignatureMap\<close> and \<open>Routing\<close>.

  Numbers of ports are natural numbers, as port identifiers are. A file is named by its manager and
  its place there. The parent (node manager) and the server are one object each, so that the pointers
  to them say whether they are set. The computation lists and the pointer to the definition file,
  which nothing reads, are left out; the mutex is not modelled.
\<close>

section \<open>State\<close>

datatype apx_dataState = APX_DATA_STATE_INIT | APX_DATA_STATE_WAITING_FILE_INFO
  | APX_DATA_STATE_WAITING_FOR_FILE_OPEN_REQUEST | APX_DATA_STATE_WAITING_FOR_FILE_DATA
  | APX_DATA_STATE_CONNECTED | APX_DATA_STATE_DISCONNECTED

type_synonym file_ptr = "nat \<times> nat"

record apx_nodeInstance =
  node_mode :: apx_mode
  node_name :: "byte list option"
  num_provide_ports :: nat
  num_require_ports :: nat
  provide_ports :: "apx_portInstance list"
  require_ports :: "apx_portInstance list"
  data_elements :: "apx_dataElement list"
  provide_port_init_data :: "byte list option"
  require_port_init_data :: "byte list option"
  provide_port_init_data_size :: u32
  require_port_init_data_size :: u32
  node_data :: "apx_nodeData option"
  byte_port_map :: "apx_bytePortMap option"
  connector_table :: "connector_list list option"
  provide_port_changes :: "change_table option"
  require_port_changes :: "change_table option"
  definition_data_state :: apx_dataState
  provide_port_data_state :: apx_dataState
  require_port_data_state :: apx_dataState
  has_parent :: bool
  has_server :: bool
  provide_port_data_file :: "file_ptr option"
  require_port_data_file :: "file_ptr option"

section \<open>Construction\<close>

text \<open>The name is copied; it is null if the copy fails.\<close>

definition apx_nodeInstance_create :: "apx_mode \<Rightarrow> byte list option \<Rightarrow> apx_nodeInstance" where
  "apx_nodeInstance_create mode name =
     \<lparr>node_mode = mode, node_name = map_option c_string name, num_provide_ports = 0, num_require_ports = 0,
      provide_ports = [], require_ports = [], data_elements = [],
      provide_port_init_data = None, require_port_init_data = None,
      provide_port_init_data_size = 0, require_port_init_data_size = 0,
      node_data = None, byte_port_map = None, connector_table = None,
      provide_port_changes = None, require_port_changes = None,
      definition_data_state = APX_DATA_STATE_INIT, provide_port_data_state = APX_DATA_STATE_INIT,
      require_port_data_state = APX_DATA_STATE_INIT, has_parent = False, has_server = False,
      provide_port_data_file = None, require_port_data_file = None\<rparr>"

text \<open>Fresh port objects, as many as asked for, or none.\<close>

definition apx_nodeInstance_alloc_port_instance_memory ::
  "(nat \<Rightarrow> apx_portInstance list option) \<Rightarrow> apx_nodeInstance \<Rightarrow> nat \<Rightarrow> nat \<Rightarrow> apx_error \<times> apx_nodeInstance" where
  "apx_nodeInstance_alloc_port_instance_memory malloc self num_provide num_require =
     andThen
       (let self = self\<lparr>num_provide_ports := num_provide, num_require_ports := num_require\<rparr> in
        if num_provide > 0 then
          (case malloc num_provide of
             None \<Rightarrow> (APX_MEM_ERROR, self\<lparr>provide_ports := []\<rparr>)
           | Some ports \<Rightarrow> (APX_NO_ERROR, self\<lparr>provide_ports := ports\<rparr>))
        else (APX_NO_ERROR, self))
       (\<lambda>self.
        if num_require > 0 then
          (case malloc num_require of
             None \<Rightarrow> (APX_MEM_ERROR, self\<lparr>require_ports := []\<rparr>)
           | Some ports \<Rightarrow> (APX_NO_ERROR, self\<lparr>require_ports := ports\<rparr>))
        else (APX_NO_ERROR, self))"

text \<open>
  The node that the port belongs to is given by its number \<open>n\<close>. The result of creating the port is
  ignored, so that a port whose name cannot be copied is derived all the same. An array that could not be
  allocated is a null pointer.
\<close>

definition apx_nodeInstance_create_provide_port ::
  "cutil \<Rightarrow> bool \<Rightarrow> nat \<Rightarrow> apx_nodeInstance \<Rightarrow> nat \<Rightarrow> byte list option \<Rightarrow> byte list option \<Rightarrow> u32 \<Rightarrow>
     apx_programHeader \<Rightarrow> apx_error \<times> u32 option \<times> apx_nodeInstance" where
  "apx_nodeInstance_create_provide_port C mem n self port_id name pack_program data_offset header =
     (if port_id < num_provide_ports self then
        (if port_id < length (provide_ports self) then
           (case apx_portInstance_create mem (provide_ports self ! port_id) (PORT n APX_PROVIDE_PORT port_id)
                   name pack_program None of
              (_, port) \<Rightarrow>
                (case apx_portInstance_derive_properties C port data_offset header of
                   (result, data_size, port) \<Rightarrow>
                     (result, data_size, self\<lparr>provide_ports := (provide_ports self)[port_id := port]\<rparr>)))
         else (FAULT NULL_ACCESS, None, self))
      else (APX_INVALID_ARGUMENT_ERROR, None, self))"

definition apx_nodeInstance_create_require_port ::
  "cutil \<Rightarrow> bool \<Rightarrow> nat \<Rightarrow> apx_nodeInstance \<Rightarrow> nat \<Rightarrow> byte list option \<Rightarrow> byte list option \<Rightarrow> byte list option \<Rightarrow> u32 \<Rightarrow>
     apx_programHeader \<Rightarrow> apx_error \<times> u32 option \<times> apx_nodeInstance" where
  "apx_nodeInstance_create_require_port C mem n self port_id name pack_program unpack_program data_offset header =
     (if port_id < num_require_ports self then
        (if port_id < length (require_ports self) then
           (case apx_portInstance_create mem (require_ports self ! port_id) (PORT n APX_REQUIRE_PORT port_id)
                   name pack_program unpack_program of
              (_, port) \<Rightarrow>
                (case apx_portInstance_derive_properties C port data_offset header of
                   (result, data_size, port) \<Rightarrow>
                     (result, data_size, self\<lparr>require_ports := (require_ports self)[port_id := port]\<rparr>)))
         else (FAULT NULL_ACCESS, None, self))
      else (APX_INVALID_ARGUMENT_ERROR, None, self))"

text \<open>The sum of the sizes, as a 32 bit number that may wrap around.\<close>

fun sum_data_sizes :: "apx_portInstance list \<Rightarrow> u32 \<Rightarrow> apx_error \<times> u32" where
  "sum_data_sizes [] total_size = (APX_NO_ERROR, total_size)"
| "sum_data_sizes (p # ps) total_size =
     c_assert (pi_data_size p > 0) (sum_data_sizes ps (total_size + pi_data_size p)) total_size"

definition calc_init_data_size :: "apx_portInstance list \<Rightarrow> nat \<Rightarrow> apx_error \<times> u32" where
  "calc_init_data_size port_list num_ports =
     (if port_list = [] \<or> num_ports = 0 then (APX_INVALID_ARGUMENT_ERROR, 0)
      else if num_ports \<le> length port_list then sum_data_sizes (take num_ports port_list) 0
      else (FAULT OUT_OF_BOUNDS, 0))"

text \<open>
  The pointers that the function hands out point to the initial data of the node, so that the new node
  shows what is behind them.
\<close>

definition apx_nodeInstance_alloc_init_data_memory ::
  "bool \<Rightarrow> apx_nodeInstance \<Rightarrow> apx_error \<times> apx_nodeInstance" where
  "apx_nodeInstance_alloc_init_data_memory mem self =
     andThen
       (if num_provide_ports self > 0 then
          (case calc_init_data_size (provide_ports self) (num_provide_ports self) of
             (result, total_size) \<Rightarrow>
               if result \<noteq> APX_NO_ERROR then (result, self)
               else c_assert (total_size > 0)
                 (let self = self\<lparr>provide_port_init_data_size := total_size\<rparr> in
                  if mem then (APX_NO_ERROR, self\<lparr>provide_port_init_data := Some (replicate (unat total_size) 0)\<rparr>)
                  else (APX_MEM_ERROR, self\<lparr>provide_port_init_data := None\<rparr>)) self)
        else (APX_NO_ERROR, self))
       (\<lambda>self.
        if num_require_ports self > 0 then
          (case calc_init_data_size (require_ports self) (num_require_ports self) of
             (result, total_size) \<Rightarrow>
               if result \<noteq> APX_NO_ERROR then (result, self)
               else let self = self\<lparr>require_port_init_data_size := total_size\<rparr> in
                 if mem then (APX_NO_ERROR, self\<lparr>require_port_init_data := Some (replicate (unat total_size) 0)\<rparr>)
                 else (APX_MEM_ERROR, self\<lparr>require_port_init_data := None\<rparr>))
        else (APX_NO_ERROR, self))"

section \<open>Running data\<close>

definition apx_nodeInstance_has_provide_port_data :: "apx_nodeInstance \<Rightarrow> bool" where
  "apx_nodeInstance_has_provide_port_data self \<longleftrightarrow> provide_port_init_data self \<noteq> None"

definition apx_nodeInstance_has_require_port_data :: "apx_nodeInstance \<Rightarrow> bool" where
  "apx_nodeInstance_has_require_port_data self \<longleftrightarrow> require_port_init_data self \<noteq> None"

definition apx_nodeInstance_init_node_data ::
  "bool \<Rightarrow> apx_nodeData option \<Rightarrow> apx_nodeInstance \<Rightarrow> byte list option \<Rightarrow> u32 \<Rightarrow> apx_error \<times> apx_nodeInstance" where
  "apx_nodeInstance_init_node_data mem memory self definition_bytes definition_size =
     (case apx_nodeData_new memory of
        None \<Rightarrow> (APX_MEM_ERROR, self)
      | Some nd \<Rightarrow>
          (case apx_nodeData_create_definition_data mem nd definition_bytes definition_size of
             (retval, nd) \<Rightarrow> (retval, if retval = APX_NO_ERROR then self\<lparr>node_data := Some nd\<rparr> else self)))"

definition apx_nodeInstance_finalize_node_data :: "bool \<Rightarrow> apx_nodeInstance \<Rightarrow> apx_error \<times> apx_nodeInstance" where
  "apx_nodeInstance_finalize_node_data mem self =
     (case node_data self of
        None \<Rightarrow> (APX_NULL_PTR_ERROR, self)
      | Some nd \<Rightarrow>
          (case (if apx_nodeInstance_has_provide_port_data self
                 then apx_nodeData_create_provide_port_data mem nd (of_nat (num_provide_ports self))
                        (provide_port_init_data self) (provide_port_init_data_size self)
                 else (APX_NO_ERROR, nd)) of
             (retval, nd) \<Rightarrow>
               if retval = APX_NO_ERROR \<and> apx_nodeInstance_has_require_port_data self
               then (case apx_nodeData_create_require_port_data mem nd (of_nat (num_require_ports self))
                        (require_port_init_data self) (require_port_init_data_size self) of
                       (retval, nd) \<Rightarrow> (retval, self\<lparr>node_data := Some nd\<rparr>))
               else (retval, self\<lparr>node_data := Some nd\<rparr>)))"

definition apx_nodeInstance_get_definition_size :: "apx_nodeInstance \<Rightarrow> u32" where
  "apx_nodeInstance_get_definition_size self =
     (case node_data self of None \<Rightarrow> 0 | Some nd \<Rightarrow> definition_data_size nd)"

definition apx_nodeInstance_get_definition_data :: "apx_nodeInstance \<Rightarrow> byte list option" where
  "apx_nodeInstance_get_definition_data self =
     (case node_data self of None \<Rightarrow> None | Some nd \<Rightarrow> definition_data nd)"

definition apx_nodeInstance_create_data_element_list ::
  "bool \<Rightarrow> apx_nodeInstance \<Rightarrow> apx_dataElement list \<Rightarrow> apx_error \<times> apx_nodeInstance" where
  "apx_nodeInstance_create_data_element_list mem self data_element_list =
     (if data_element_list \<noteq> [] \<and> \<not> mem then (APX_MEM_ERROR, self)
      else (APX_NO_ERROR, if data_element_list \<noteq> [] then self\<lparr>data_elements := data_element_list\<rparr> else self))"

section \<open>Bytes and ports\<close>

text \<open>A map that cannot be allocated sets no error code: the node goes without.\<close>

definition apx_nodeInstance_create_byte_port_map ::
  "bool \<Rightarrow> (nat \<Rightarrow> u32 list option) \<Rightarrow> apx_nodeInstance \<Rightarrow> apx_error \<times> apx_nodeInstance" where
  "apx_nodeInstance_create_byte_port_map mem malloc self =
     (let make = (\<lambda>total_size ports.
        case apx_bytePortMap_new mem malloc total_size ports of
          (retval, m) \<Rightarrow> (case retval of None \<Rightarrow> APX_NO_ERROR | Some e \<Rightarrow> e, self\<lparr>byte_port_map := m\<rparr>))
      in if node_mode self = APX_CLIENT_MODE \<and> apx_nodeInstance_has_require_port_data self
         then make (require_port_init_data_size self) (require_ports self)
         else if node_mode self = APX_SERVER_MODE \<and> apx_nodeInstance_has_provide_port_data self
         then make (provide_port_init_data_size self) (provide_ports self)
         else (APX_NO_ERROR, self))"

definition apx_nodeInstance_lookup_require_port_id :: "apx_nodeInstance \<Rightarrow> u32 \<Rightarrow> u32 option" where
  "apx_nodeInstance_lookup_require_port_id self byte_offset =
     (if node_mode self = APX_CLIENT_MODE then apx_bytePortMap_lookup (byte_port_map self) byte_offset
      else Some APX_INVALID_PORT_ID)"

definition apx_nodeInstance_lookup_provide_port_id :: "apx_nodeInstance \<Rightarrow> u32 \<Rightarrow> u32 option" where
  "apx_nodeInstance_lookup_provide_port_id self byte_offset =
     (if node_mode self = APX_SERVER_MODE then apx_bytePortMap_lookup (byte_port_map self) byte_offset
      else Some APX_INVALID_PORT_ID)"

text \<open>
  The ports at a position. The number of ports is checked, the array is not: outside it there is no port,
  and reading there is an access out of bounds, which the callers below make a fault.
\<close>

definition apx_nodeInstance_get_provide_port :: "apx_nodeInstance \<Rightarrow> nat \<Rightarrow> apx_portInstance option" where
  "apx_nodeInstance_get_provide_port self port_id =
     (if port_id < num_provide_ports self \<and> port_id < length (provide_ports self)
      then Some (provide_ports self ! port_id) else None)"

definition apx_nodeInstance_get_require_port :: "apx_nodeInstance \<Rightarrow> nat \<Rightarrow> apx_portInstance option" where
  "apx_nodeInstance_get_require_port self port_id =
     (if port_id < num_require_ports self \<and> port_id < length (require_ports self)
      then Some (require_ports self ! port_id) else None)"

text \<open>The first port of a name, provide ports first. Comparing with a null name has no result.\<close>

fun find_named :: "byte list \<Rightarrow> apx_portInstance list \<Rightarrow> port_ptr option" where
  "find_named name [] = None"
| "find_named name (p # ps) = (if pi_name p = Some name then Some (pi_ptr p) else find_named name ps)"

definition apx_nodeInstance_find_port_by_name :: "apx_nodeInstance \<Rightarrow> byte list \<Rightarrow> port_ptr option" where
  "apx_nodeInstance_find_port_by_name self name =
     (case find_named (c_string name) (take (num_provide_ports self) (provide_ports self)) of
        Some p \<Rightarrow> Some p
      | None \<Rightarrow> find_named (c_string name) (take (num_require_ports self) (require_ports self)))"

section \<open>Connectors\<close>

definition apx_nodeInstance_build_connector_table :: "bool \<Rightarrow> apx_nodeInstance \<Rightarrow> apx_error \<times> apx_nodeInstance" where
  "apx_nodeInstance_build_connector_table mem self =
     (if num_provide_ports self > 0 then
        (if mem then (APX_NO_ERROR, self\<lparr>connector_table := Some (replicate (num_provide_ports self) [])\<rparr>)
         else (APX_MEM_ERROR, self\<lparr>connector_table := None\<rparr>))
      else (APX_NO_ERROR, self))"

definition apx_nodeInstance_get_provide_port_connectors ::
  "apx_nodeInstance \<Rightarrow> nat \<Rightarrow> apx_error \<times> connector_list option" where
  "apx_nodeInstance_get_provide_port_connectors self port_id =
     (if port_id < num_provide_ports self
      then (case connector_table self of
              None \<Rightarrow> (FAULT ASSERT_FAILURE, None)
            | Some table \<Rightarrow> if port_id < length table then (APX_NO_ERROR, Some (table ! port_id))
                else (FAULT OUT_OF_BOUNDS, None))
      else (APX_NO_ERROR, None))"

text \<open>
  The function clears the list that the pointer to the table points to, which is the first of the table;
  the other lists stay as they are. A null table is no list.
\<close>

definition apx_nodeInstance_clear_connector_table :: "apx_nodeInstance \<Rightarrow> apx_nodeInstance" where
  "apx_nodeInstance_clear_connector_table self =
     (case connector_table self of
        Some (first # rest) \<Rightarrow> self\<lparr>connector_table := Some (apx_portConnectorList_clear first # rest)\<rparr>
      | _ \<Rightarrow> self)"

definition remove_provide_port_connector ::
  "array_lib \<Rightarrow> apx_nodeInstance \<Rightarrow> nat \<Rightarrow> port_ptr \<Rightarrow> apx_error \<times> apx_nodeInstance" where
  "remove_provide_port_connector L self provide_port_id require_port =
     (case connector_table self of
        None \<Rightarrow> (FAULT ASSERT_FAILURE, self)
      | Some table \<Rightarrow>
          if provide_port_id < num_provide_ports self
          then (if provide_port_id < length table
                then (APX_NO_ERROR, self\<lparr>connector_table := Some (table[provide_port_id :=
                        apx_portConnectorList_remove L (table ! provide_port_id) require_port])\<rparr>)
                else (FAULT OUT_OF_BOUNDS, self))
          else (APX_INVALID_ARGUMENT_ERROR, self))"

definition apx_nodeInstance_clear_require_port_connector_changes :: "apx_nodeInstance \<Rightarrow> apx_nodeInstance" where
  "apx_nodeInstance_clear_require_port_connector_changes self = self\<lparr>require_port_changes := None\<rparr>"

definition apx_nodeInstance_clear_provide_port_connector_changes :: "apx_nodeInstance \<Rightarrow> apx_nodeInstance" where
  "apx_nodeInstance_clear_provide_port_connector_changes self = self\<lparr>provide_port_changes := None\<rparr>"

end
