(* ===== verification/SignatureMap.thy ===== *)
theory SignatureMap
  imports NodeInstance
begin

text \<open>
  Which ports belong together: apx/src/port_signature_map.c with port_signature_map_entry.c, and the
  lists of changes that apx/src/node_instance.c and apx/src/server.c keep for the nodes they touch.

  The server files every port of a connected node under its signature. Ports of one signature are
  connected; what a joining or leaving port changes is noted in the change tables of its own node and of
  the nodes on the other side, and the server remembers which nodes have such tables.

  A pointer to a node is the number of the node. The hash table (adt_hash) is not in the repository: its
  contents are a partial function, setting and removing a key are parameters.
\<close>

section \<open>State\<close>

record apx_portSignatureMapEntry =
  preferred_provider :: "port_ptr option"
  entry_require_ports :: "port_ptr list"
  entry_provide_ports :: "port_ptr list"

type_synonym signature_map = "byte list \<Rightarrow> apx_portSignatureMapEntry option"

record hash_lib =
  hash_set :: "signature_map \<Rightarrow> byte list \<Rightarrow> apx_portSignatureMapEntry \<Rightarrow> signature_map"
  hash_remove :: "signature_map \<Rightarrow> byte list \<Rightarrow> signature_map"

definition hash_documented :: "hash_lib \<Rightarrow> bool" where
  "hash_documented H \<longleftrightarrow>
     (\<forall>m k e. hash_set H m k e = m(k \<mapsto> e) \<and> hash_remove H m k = m(k := None))"

definition hash_ref :: hash_lib where
  "hash_ref = \<lparr>hash_set = (\<lambda>m k e. m(k \<mapsto> e)), hash_remove = (\<lambda>m k. m(k := None))\<rparr>"

text \<open>The libraries, and whether memory can be allocated.\<close>

record server_env =
  env_arrays :: array_lib
  env_hash :: hash_lib
  env_mem :: bool

definition env_documented :: "server_env \<Rightarrow> bool" where
  "env_documented E \<longleftrightarrow> arrays_documented (env_arrays E) \<and> hash_documented (env_hash E) \<and> env_mem E"

definition env_ref :: server_env where
  "env_ref = \<lparr>env_arrays = arrays_ref, env_hash = hash_ref, env_mem = True\<rparr>"

lemma env_ref_documented: "env_documented env_ref"
  by (simp add: env_documented_def env_ref_def arrays_ref_documented hash_documented_def hash_ref_def)

lemma env_laws:
  assumes "env_documented E"
  shows "arrays_documented (env_arrays E)" "env_mem E"
    "hash_set (env_hash E) m k e = m(k \<mapsto> e)" "hash_remove (env_hash E) m k = m(k := None)"
  using assms by (simp_all add: env_documented_def hash_documented_def)

record network =
  nodes :: "nat \<Rightarrow> apx_nodeInstance"
  managers :: "nat \<Rightarrow> apx_fileManager"
  handlers :: "file_ptr \<Rightarrow> nat option"
  port_signature_map :: signature_map
  modified_nodes :: "nat list"

definition change_node :: "nat \<Rightarrow> (apx_nodeInstance \<Rightarrow> apx_nodeInstance) \<Rightarrow> network \<Rightarrow> network" where
  "change_node n f net = net\<lparr>nodes := (nodes net)(n := f (nodes net n))\<rparr>"

section \<open>Change tables of nodes\<close>

definition apx_server_insert_modified_node_instance ::
  "server_env \<Rightarrow> network \<Rightarrow> nat \<Rightarrow> apx_error \<times> network" where
  "apx_server_insert_modified_node_instance E net n =
     (case nodes_push_unique (env_arrays E) (modified_nodes net) n of
        (rc, ns) \<Rightarrow>
          (if rc = ADT_MEM_ERROR then APX_MEM_ERROR
           else if rc \<noteq> ADT_NO_ERROR then APX_GENERIC_ERROR else APX_NO_ERROR,
           net\<lparr>modified_nodes := ns\<rparr>))"

definition apx_nodeInstance_get_require_port_connector_changes ::
  "server_env \<Rightarrow> network \<Rightarrow> nat \<Rightarrow> bool \<Rightarrow> change_table option \<times> network" where
  "apx_nodeInstance_get_require_port_connector_changes E net n auto_create =
     (let self = nodes net n in
      if num_require_ports self > 0 then
        (if require_port_changes self = None \<and> auto_create then
           (let table = apx_portConnectorChangeTable_new (env_mem E) (num_require_ports self);
                net = change_node n (\<lambda>self. self\<lparr>require_port_changes := table\<rparr>) net in
            (table, if table \<noteq> None \<and> has_server self
                    then snd (apx_server_insert_modified_node_instance E net n) else net))
         else (require_port_changes self, net))
      else (None, net))"

definition apx_nodeInstance_get_provide_port_connector_changes ::
  "server_env \<Rightarrow> network \<Rightarrow> nat \<Rightarrow> bool \<Rightarrow> change_table option \<times> network" where
  "apx_nodeInstance_get_provide_port_connector_changes E net n auto_create =
     (let self = nodes net n in
      if num_provide_ports self > 0 then
        (if provide_port_changes self = None \<and> auto_create then
           (let table = apx_portConnectorChangeTable_new (env_mem E) (num_provide_ports self);
                net = change_node n (\<lambda>self. self\<lparr>provide_port_changes := table\<rparr>) net in
            (table, if table \<noteq> None \<and> has_server self
                    then snd (apx_server_insert_modified_node_instance E net n) else net))
         else (provide_port_changes self, net))
      else (None, net))"

text \<open>Every node that has change tables loses them.\<close>

definition clear_node_changes :: "nat \<Rightarrow> network \<Rightarrow> network" where
  "clear_node_changes n net =
     change_node n apx_nodeInstance_clear_require_port_connector_changes
       (change_node n apx_nodeInstance_clear_provide_port_connector_changes net)"

definition apx_server_clear_port_connector_changes :: "network \<Rightarrow> network" where
  "apx_server_clear_port_connector_changes net =
     (foldl (\<lambda>net n. clear_node_changes n net) net (modified_nodes net))\<lparr>modified_nodes := []\<rparr>"

text \<open>
  The entry of a port in the table of its node and side. \<open>change_entry_of\<close> makes the table if it is not
  there; \<open>apply_change\<close> is the call of \<open>action_func\<close> on a pointer to the entry. Both assert
  that the table and the entry exist.
\<close>

definition change_table_of :: "network \<Rightarrow> port_ptr \<Rightarrow> change_table option" where
  "change_table_of net p =
     (case apx_portInstance_port_type p of
        APX_PROVIDE_PORT \<Rightarrow> provide_port_changes (nodes net (apx_portInstance_parent p))
      | APX_REQUIRE_PORT \<Rightarrow> require_port_changes (nodes net (apx_portInstance_parent p)))"

definition store_change_table :: "network \<Rightarrow> port_ptr \<Rightarrow> change_table \<Rightarrow> network" where
  "store_change_table net p table =
     change_node (apx_portInstance_parent p)
       (case apx_portInstance_port_type p of
          APX_PROVIDE_PORT \<Rightarrow> (\<lambda>self. self\<lparr>provide_port_changes := Some table\<rparr>)
        | APX_REQUIRE_PORT \<Rightarrow> (\<lambda>self. self\<lparr>require_port_changes := Some table\<rparr>)) net"

definition change_entry_of :: "server_env \<Rightarrow> network \<Rightarrow> port_ptr \<Rightarrow> apx_error \<times> network" where
  "change_entry_of E net p =
     (case (case apx_portInstance_port_type p of
              APX_PROVIDE_PORT \<Rightarrow>
                apx_nodeInstance_get_provide_port_connector_changes E net (apx_portInstance_parent p) True
            | APX_REQUIRE_PORT \<Rightarrow>
                apx_nodeInstance_get_require_port_connector_changes E net (apx_portInstance_parent p) True) of
        (table, net) \<Rightarrow>
          (case table of
             None \<Rightarrow> (FAULT ASSERT_FAILURE, net)
           | Some t \<Rightarrow>
               (case apx_portConnectorChangeTable_get_entry t (apx_portInstance_port_id p) of
                  None \<Rightarrow> (FAULT ASSERT_FAILURE, net) | Some e \<Rightarrow> (APX_NO_ERROR, net))))"

datatype apx_portConnectorEvent = APX_PORT_CONNECTED_EVENT | APX_PORT_DISCONNECTED_EVENT

definition action_func ::
  "server_env \<Rightarrow> apx_portConnectorEvent \<Rightarrow> apx_portConnectorChangeEntry \<Rightarrow> port_ptr \<Rightarrow>
     apx_error \<times> apx_portConnectorChangeEntry" where
  "action_func E event_type =
     (if event_type = APX_PORT_CONNECTED_EVENT then apx_portConnectorChangeEntry_add_connection (env_arrays E)
      else apx_portConnectorChangeEntry_remove_connection (env_arrays E))"

definition apply_change ::
  "server_env \<Rightarrow> apx_portConnectorEvent \<Rightarrow> network \<Rightarrow> port_ptr \<Rightarrow> port_ptr \<Rightarrow> apx_error \<times> network" where
  "apply_change E event_type net p other =
     (case change_table_of net p of
        None \<Rightarrow> (FAULT NULL_ACCESS, net)
      | Some table \<Rightarrow>
          if apx_portInstance_port_id p < length table then
            (case action_func E event_type (table ! apx_portInstance_port_id p) other of
               (rc, e) \<Rightarrow> (rc, store_change_table net p (table[apx_portInstance_port_id p := e])))
          else (FAULT OUT_OF_BOUNDS, net))"

section \<open>Entries\<close>

definition apx_portSignatureMapEntry_create :: apx_portSignatureMapEntry where
  "apx_portSignatureMapEntry_create =
     \<lparr>preferred_provider = None, entry_require_ports = [], entry_provide_ports = []\<rparr>"

definition apx_portSignatureMapEntry_set_preferred_provider ::
  "apx_portSignatureMapEntry \<Rightarrow> port_ptr \<Rightarrow> apx_portSignatureMapEntry" where
  "apx_portSignatureMapEntry_set_preferred_provider self p = self\<lparr>preferred_provider := Some p\<rparr>"

definition apx_portSignatureMapEntry_attach_require_port ::
  "server_env \<Rightarrow> apx_portSignatureMapEntry \<Rightarrow> port_ptr \<Rightarrow> apx_portSignatureMapEntry" where
  "apx_portSignatureMapEntry_attach_require_port E self p =
     self\<lparr>entry_require_ports := ports_insert (env_arrays E) (entry_require_ports self) p\<rparr>"

definition apx_portSignatureMapEntry_attach_provide_port ::
  "server_env \<Rightarrow> apx_portSignatureMapEntry \<Rightarrow> port_ptr \<Rightarrow> bool \<Rightarrow> apx_portSignatureMapEntry" where
  "apx_portSignatureMapEntry_attach_provide_port E self p is_preferred =
     (let self = self\<lparr>entry_provide_ports := ports_insert (env_arrays E) (entry_provide_ports self) p\<rparr> in
      if is_preferred then apx_portSignatureMapEntry_set_preferred_provider self p else self)"

definition apx_portSignatureMapEntry_detach_require_port ::
  "server_env \<Rightarrow> apx_portSignatureMapEntry \<Rightarrow> port_ptr \<Rightarrow> apx_portSignatureMapEntry" where
  "apx_portSignatureMapEntry_detach_require_port E self p =
     self\<lparr>entry_require_ports := ports_remove (env_arrays E) (entry_require_ports self) p\<rparr>"

definition apx_portSignatureMapEntry_detach_provide_port ::
  "server_env \<Rightarrow> apx_portSignatureMapEntry \<Rightarrow> port_ptr \<Rightarrow> apx_portSignatureMapEntry" where
  "apx_portSignatureMapEntry_detach_provide_port E self p =
     self\<lparr>entry_provide_ports := ports_remove (env_arrays E) (entry_provide_ports self) p\<rparr>"

definition apx_portSignatureMapEntry_is_empty :: "apx_portSignatureMapEntry \<Rightarrow> bool" where
  "apx_portSignatureMapEntry_is_empty self \<longleftrightarrow> entry_provide_ports self = [] \<and> entry_require_ports self = []"

text \<open>
  The loops: the require port's entry is changed first, then the provide port's. The first error ends
  the loop.
\<close>

fun notify_require_ports ::
  "server_env \<Rightarrow> apx_portConnectorEvent \<Rightarrow> network \<Rightarrow> port_ptr \<Rightarrow> port_ptr list \<Rightarrow> apx_error \<times> network" where
  "notify_require_ports E event_type net provide_port [] = (APX_NO_ERROR, net)"
| "notify_require_ports E event_type net provide_port (require_port # ports) =
     andThen (change_entry_of E net require_port) (\<lambda>net.
     andThen (apply_change E event_type net require_port provide_port) (\<lambda>net.
     andThen (apply_change E event_type net provide_port require_port) (\<lambda>net.
       notify_require_ports E event_type net provide_port ports)))"

definition apx_portSignatureMapEntry_notify_require_ports_about_provide_port_change ::
  "server_env \<Rightarrow> network \<Rightarrow> apx_portSignatureMapEntry \<Rightarrow> port_ptr \<Rightarrow> apx_portConnectorEvent \<Rightarrow> apx_error \<times> network" where
  "apx_portSignatureMapEntry_notify_require_ports_about_provide_port_change E net self provide_port event_type =
     (if entry_require_ports self \<noteq> [] then
        andThen (change_entry_of E net provide_port) (\<lambda>net.
          notify_require_ports E event_type net provide_port (entry_require_ports self))
      else (APX_NO_ERROR, net))"

fun notify_provide_ports ::
  "server_env \<Rightarrow> apx_portConnectorEvent \<Rightarrow> network \<Rightarrow> port_ptr \<Rightarrow> port_ptr list \<Rightarrow> apx_error \<times> network" where
  "notify_provide_ports E event_type net require_port [] = (APX_NO_ERROR, net)"
| "notify_provide_ports E event_type net require_port (provide_port # ports) =
     andThen (change_entry_of E net provide_port) (\<lambda>net.
     andThen (apply_change E event_type net require_port provide_port) (\<lambda>net.
     andThen (apply_change E event_type net provide_port require_port) (\<lambda>net.
       notify_provide_ports E event_type net require_port ports)))"

definition apx_portSignatureMapEntry_notify_provide_ports_about_require_port_change ::
  "server_env \<Rightarrow> network \<Rightarrow> apx_portSignatureMapEntry \<Rightarrow> port_ptr \<Rightarrow> apx_portConnectorEvent \<Rightarrow> apx_error \<times> network" where
  "apx_portSignatureMapEntry_notify_provide_ports_about_require_port_change E net self require_port event_type =
     (if entry_provide_ports self \<noteq> [] then
        andThen (change_entry_of E net require_port) (\<lambda>net.
          notify_provide_ports E event_type net require_port (entry_provide_ports self))
      else (APX_NO_ERROR, net))"

section \<open>The map\<close>

text \<open>An entry that is changed through the pointer that the table gave out.\<close>

definition store_entry :: "network \<Rightarrow> byte list \<Rightarrow> apx_portSignatureMapEntry \<Rightarrow> network" where
  "store_entry net key e = net\<lparr>port_signature_map := (port_signature_map net)(key \<mapsto> e)\<rparr>"

text \<open>A new entry, or \<open>None\<close> without memory.\<close>

definition apx_portSignatureMap_create_new_entry ::
  "server_env \<Rightarrow> network \<Rightarrow> byte list \<Rightarrow> apx_portSignatureMapEntry option \<times> network" where
  "apx_portSignatureMap_create_new_entry E net key =
     (if env_mem E
      then (Some apx_portSignatureMapEntry_create,
            net\<lparr>port_signature_map := hash_set (env_hash E) (port_signature_map net) key apx_portSignatureMapEntry_create\<rparr>)
      else (None, net))"

text \<open>What the notification returns is ignored, unless the program ended in it.\<close>

definition unless_fault :: "apx_error \<times> 's \<Rightarrow> apx_error \<times> 's" where
  "unless_fault r = (case r of (e, s) \<Rightarrow> (if is_fault e then e else APX_NO_ERROR, s))"

definition apx_portSignatureMap_insert ::
  "server_env \<Rightarrow> network \<Rightarrow> byte list option \<Rightarrow> port_ptr \<Rightarrow> apx_error \<times> network" where
  "apx_portSignatureMap_insert E net signature p =
     (case signature of
        None \<Rightarrow> (FAULT NULL_ACCESS, net)
      | Some cs \<Rightarrow>
          let key = c_string cs in
          if key = [] then (FAULT ASSERT_FAILURE, net)
          else
            (case (case port_signature_map net key of
                     None \<Rightarrow> apx_portSignatureMap_create_new_entry E net key
                   | Some entry \<Rightarrow> (Some entry, net)) of
               (None, net) \<Rightarrow> (APX_MEM_ERROR, net)
             | (Some entry, net) \<Rightarrow>
                 if apx_portInstance_port_type p = APX_PROVIDE_PORT then
                   (let entry = apx_portSignatureMapEntry_attach_provide_port E entry p True;
                        net = store_entry net key entry in
                    unless_fault (apx_portSignatureMapEntry_notify_require_ports_about_provide_port_change E net entry p
                      APX_PORT_CONNECTED_EVENT))
                 else
                   (let entry = apx_portSignatureMapEntry_attach_require_port E entry p;
                        net = store_entry net key entry in
                    unless_fault (apx_portSignatureMapEntry_notify_provide_ports_about_require_port_change E net entry p
                      APX_PORT_CONNECTED_EVENT))))"

definition apx_portSignatureMap_delete_entry :: "server_env \<Rightarrow> network \<Rightarrow> byte list \<Rightarrow> network" where
  "apx_portSignatureMap_delete_entry E net key =
     net\<lparr>port_signature_map := hash_remove (env_hash E) (port_signature_map net) key\<rparr>"

definition apx_portSignatureMap_remove ::
  "server_env \<Rightarrow> network \<Rightarrow> byte list option \<Rightarrow> port_ptr \<Rightarrow> apx_error \<times> network" where
  "apx_portSignatureMap_remove E net signature p =
     (case signature of
        None \<Rightarrow> (FAULT ASSERT_FAILURE, net)
      | Some cs \<Rightarrow>
          let key = c_string cs in
          if key = [] then (FAULT ASSERT_FAILURE, net)
          else
            (case port_signature_map net key of
               None \<Rightarrow> (APX_NOT_FOUND_ERROR, net)
             | Some entry \<Rightarrow>
                 let provides = apx_portInstance_port_type p = APX_PROVIDE_PORT;
                     entry = (if provides then apx_portSignatureMapEntry_detach_provide_port E entry p
                              else apx_portSignatureMapEntry_detach_require_port E entry p);
                     net = store_entry net key entry
                 in (case (if provides
                           then apx_portSignatureMapEntry_notify_require_ports_about_provide_port_change E net entry p
                                  APX_PORT_DISCONNECTED_EVENT
                           else apx_portSignatureMapEntry_notify_provide_ports_about_require_port_change E net entry p
                                  APX_PORT_DISCONNECTED_EVENT) of
                       (retval, net) \<Rightarrow>
                         if is_fault retval then (retval, net)
                         else if apx_portSignatureMapEntry_is_empty entry
                         then (retval, apx_portSignatureMap_delete_entry E net key)
                         else (retval, net))))"

text \<open>
  The loops over the ports of a node, from port \<open>i\<close> on, \<open>k\<close> ports. A port that is not there is
  passed over.
\<close>

fun for_ports ::
  "(network \<Rightarrow> nat \<Rightarrow> apx_portInstance option) \<Rightarrow> (network \<Rightarrow> byte list option \<Rightarrow> port_ptr \<Rightarrow> apx_error \<times> network) \<Rightarrow>
     nat \<Rightarrow> nat \<Rightarrow> network \<Rightarrow> apx_error \<times> network" where
  "for_ports port act i 0 net = (APX_NO_ERROR, net)"
| "for_ports port act i (Suc k) net =
     (case port net i of
        None \<Rightarrow> for_ports port act (Suc i) k net
      | Some port_instance \<Rightarrow>
          andThen (act net (fst (apx_portInstance_get_port_signature port_instance)) (pi_ptr port_instance))
            (for_ports port act (Suc i) k))"

definition require_port_of :: "nat \<Rightarrow> network \<Rightarrow> nat \<Rightarrow> apx_portInstance option" where
  "require_port_of n net i = apx_nodeInstance_get_require_port (nodes net n) i"

definition provide_port_of :: "nat \<Rightarrow> network \<Rightarrow> nat \<Rightarrow> apx_portInstance option" where
  "provide_port_of n net i = apx_nodeInstance_get_provide_port (nodes net n) i"

definition apx_portSignatureMap_connect_require_ports :: "server_env \<Rightarrow> network \<Rightarrow> nat \<Rightarrow> apx_error \<times> network" where
  "apx_portSignatureMap_connect_require_ports E net n =
     for_ports (require_port_of n) (apx_portSignatureMap_insert E) 0 (num_require_ports (nodes net n)) net"

definition apx_portSignatureMap_connect_provide_ports :: "server_env \<Rightarrow> network \<Rightarrow> nat \<Rightarrow> apx_error \<times> network" where
  "apx_portSignatureMap_connect_provide_ports E net n =
     for_ports (provide_port_of n) (apx_portSignatureMap_insert E) 0 (num_provide_ports (nodes net n)) net"

definition apx_portSignatureMap_disconnect_require_ports :: "server_env \<Rightarrow> network \<Rightarrow> nat \<Rightarrow> apx_error \<times> network" where
  "apx_portSignatureMap_disconnect_require_ports E net n =
     for_ports (require_port_of n) (apx_portSignatureMap_remove E) 0 (num_require_ports (nodes net n)) net"

definition apx_portSignatureMap_disconnect_provide_ports :: "server_env \<Rightarrow> network \<Rightarrow> nat \<Rightarrow> apx_error \<times> network" where
  "apx_portSignatureMap_disconnect_provide_ports E net n =
     for_ports (provide_port_of n) (apx_portSignatureMap_remove E) 0 (num_provide_ports (nodes net n)) net"

section \<open>Change tables, abstractly\<close>

text \<open>
  The change set of a port, the sets that accept an event, and a set with more ports in it.
\<close>

definition change_of :: "network \<Rightarrow> port_ptr \<Rightarrow> change_set" where
  "change_of net p =
     (case change_table_of net p of None \<Rightarrow> Unchanged | Some t \<Rightarrow> entry_abs (t ! apx_portInstance_port_id p))"

fun accepts :: "apx_portConnectorEvent \<Rightarrow> change_set \<Rightarrow> bool" where
  "accepts APX_PORT_CONNECTED_EVENT (Disconnected ps) = False"
| "accepts APX_PORT_DISCONNECTED_EVENT (Connected ps) = False"
| "accepts ev c = True"

fun grow :: "apx_portConnectorEvent \<Rightarrow> change_set \<Rightarrow> port_ptr list \<Rightarrow> change_set" where
  "grow ev c [] = c"
| "grow APX_PORT_CONNECTED_EVENT c (p # ps) = Connected (listed c @ p # ps)"
| "grow APX_PORT_DISCONNECTED_EVENT c (p # ps) = Disconnected (listed c @ p # ps)"

definition num_ports_of :: "apx_nodeInstance \<Rightarrow> apx_portType \<Rightarrow> nat" where
  "num_ports_of self side = (case side of APX_PROVIDE_PORT \<Rightarrow> num_provide_ports self | APX_REQUIRE_PORT \<Rightarrow> num_require_ports self)"

definition present :: "network \<Rightarrow> port_ptr \<Rightarrow> bool" where
  "present net p \<longleftrightarrow> apx_portInstance_port_id p < num_ports_of (nodes net (apx_portInstance_parent p)) (apx_portInstance_port_type p)"

definition table_ok :: "nat \<Rightarrow> change_table option \<Rightarrow> bool" where
  "table_ok n table \<longleftrightarrow> (\<forall>t. table = Some t \<longrightarrow> length t = n \<and> (\<forall>e\<in>set t. entry_ok e))"

text \<open>Tables have an entry per port, and the server knows the nodes that have tables.\<close>

definition changes_ok :: "network \<Rightarrow> bool" where
  "changes_ok net \<longleftrightarrow> (\<forall>n. let self = nodes net n in
     table_ok (num_provide_ports self) (provide_port_changes self) \<and>
     table_ok (num_require_ports self) (require_port_changes self) \<and>
     (has_server self \<and> (provide_port_changes self \<noteq> None \<or> require_port_changes self \<noteq> None) \<longrightarrow>
        n \<in> set (modified_nodes net)))"

text \<open>Two networks that differ in change tables only.\<close>

definition bare :: "apx_nodeInstance \<Rightarrow> apx_nodeInstance" where
  "bare self = self\<lparr>provide_port_changes := None, require_port_changes := None\<rparr>"

definition same_but_changes :: "network \<Rightarrow> network \<Rightarrow> bool" where
  "same_but_changes net net' \<longleftrightarrow>
     (\<forall>n. bare (nodes net' n) = bare (nodes net n)) \<and> managers net' = managers net \<and>
     handlers net' = handlers net \<and> port_signature_map net' = port_signature_map net"

lemma same_but_changes_refl [simp]: "same_but_changes net net"
  by (simp add: same_but_changes_def)

lemma same_but_changes_trans: "same_but_changes a b \<Longrightarrow> same_but_changes b c \<Longrightarrow> same_but_changes a c"
  by (simp add: same_but_changes_def)

lemma bare_fields:
  assumes "bare self' = bare self"
  shows "num_provide_ports self' = num_provide_ports self" "num_require_ports self' = num_require_ports self"
    "provide_ports self' = provide_ports self" "require_ports self' = require_ports self"
    "has_server self' = has_server self" "num_ports_of self' side = num_ports_of self side"
proof -
  have n: "num_provide_ports (bare self') = num_provide_ports (bare self)" "num_require_ports (bare self') = num_require_ports (bare self)"
    using assms by simp_all
  then show "num_provide_ports self' = num_provide_ports self" "num_require_ports self' = num_require_ports self"
    by (simp_all add: bare_def)
  then show "num_ports_of self' side = num_ports_of self side" by (cases side) (simp_all add: num_ports_of_def)
  have "provide_ports (bare self') = provide_ports (bare self)" "require_ports (bare self') = require_ports (bare self)"
    "has_server (bare self') = has_server (bare self)" using assms by simp_all
  then show "provide_ports self' = provide_ports self" "require_ports self' = require_ports self"
    "has_server self' = has_server self" by (simp_all add: bare_def)
qed

lemma same_but_changes_fields:
  assumes "same_but_changes net net'"
  shows "num_provide_ports (nodes net' n) = num_provide_ports (nodes net n)"
    "num_require_ports (nodes net' n) = num_require_ports (nodes net n)"
    "provide_ports (nodes net' n) = provide_ports (nodes net n)" "require_ports (nodes net' n) = require_ports (nodes net n)"
    "has_server (nodes net' n) = has_server (nodes net n)" "present net' p = present net p"
    "port_signature_map net' = port_signature_map net"
  using assms bare_fields [of "nodes net' n" "nodes net n"]
    bare_fields(6) [of "nodes net' (apx_portInstance_parent p)" "nodes net (apx_portInstance_parent p)"]
  by (auto simp: same_but_changes_def present_def)

text \<open>The table of a node and side, replaced.\<close>

definition same_table :: "port_ptr \<Rightarrow> port_ptr \<Rightarrow> bool" where
  "same_table p q \<longleftrightarrow> apx_portInstance_parent p = apx_portInstance_parent q \<and>
     apx_portInstance_port_type p = apx_portInstance_port_type q"

lemma change_table_same: "same_table p q \<Longrightarrow> change_table_of net p = change_table_of net q"
  by (cases "apx_portInstance_port_type q") (simp_all add: same_table_def change_table_of_def)

lemma change_table_modified: "change_table_of (net\<lparr>modified_nodes := ns\<rparr>) p = change_table_of net p"
  by (cases "apx_portInstance_port_type p") (simp_all add: change_table_of_def)

lemma store_change_table_simps:
  "change_table_of (store_change_table net p t) q =
     (if apx_portInstance_parent q = apx_portInstance_parent p \<and> apx_portInstance_port_type q = apx_portInstance_port_type p
      then Some t else change_table_of net q)"
  "modified_nodes (store_change_table net p t) = modified_nodes net"
  "same_but_changes net (store_change_table net p t)"
  by (cases "apx_portInstance_port_type p"; cases "apx_portInstance_port_type q";
      simp add: change_table_of_def store_change_table_def change_node_def same_but_changes_def bare_def)+

lemma changes_ok_table:
  "changes_ok net \<Longrightarrow> change_table_of net p = Some t \<Longrightarrow>
     length t = num_ports_of (nodes net (apx_portInstance_parent p)) (apx_portInstance_port_type p) \<and> (\<forall>e\<in>set t. entry_ok e)"
  by (cases "apx_portInstance_port_type p")
    (auto simp: changes_ok_def Let_def table_ok_def change_table_of_def num_ports_of_def)

lemma store_change_table_ok:
  assumes "changes_ok net" and "change_table_of net p \<noteq> None \<or> apx_portInstance_parent p \<in> set (modified_nodes net) \<or>
      \<not> has_server (nodes net (apx_portInstance_parent p))"
    and "length t = num_ports_of (nodes net (apx_portInstance_parent p)) (apx_portInstance_port_type p)"
    and "\<forall>e\<in>set t. entry_ok e"
  shows "changes_ok (store_change_table net p t)"
  using assms
  by (cases "apx_portInstance_port_type p")
    (auto simp: changes_ok_def Let_def table_ok_def change_table_of_def num_ports_of_def store_change_table_def change_node_def)

lemma action_refines:
  assumes "env_documented E" and "entry_ok e" and "accepts ev (entry_abs e)"
  shows "\<exists>e'. action_func E ev e p = (APX_NO_ERROR, e') \<and> entry_ok e' \<and> entry_abs e' = grow ev (entry_abs e) [p]"
proof (cases ev)
  case APX_PORT_CONNECTED_EVENT
  then show ?thesis
    using add_connection_refines [OF env_laws(1) [OF assms(1)] assms(2), of p] assms(3)
    by (cases "entry_abs e") (auto simp: action_func_def)
next
  case APX_PORT_DISCONNECTED_EVENT
  then show ?thesis
    using remove_connection_refines [OF env_laws(1) [OF assms(1)] assms(2), of p] assms(3)
    by (cases "entry_abs e") (auto simp: action_func_def)
qed

lemma apply_change_ok:
  assumes "env_documented E" and "changes_ok net" and "present net p" and "change_table_of net p \<noteq> None"
    and "accepts ev (change_of net p)"
  shows "\<exists>net'. apply_change E ev net p q = (APX_NO_ERROR, net') \<and> changes_ok net' \<and> same_but_changes net net' \<and>
    (\<forall>r. change_of net' r = (if r = p then grow ev (change_of net p) [q] else change_of net r)) \<and>
    (\<forall>r. change_table_of net r \<noteq> None \<longrightarrow> change_table_of net' r \<noteq> None)"
proof -
  obtain t where t: "change_table_of net p = Some t" using assms(4) by blast
  let ?i = "apx_portInstance_port_id p"
  have len: "length t = num_ports_of (nodes net (apx_portInstance_parent p)) (apx_portInstance_port_type p)"
    and ok: "\<forall>e\<in>set t. entry_ok e" using changes_ok_table [OF assms(2) t] by auto
  have i: "?i < length t" using assms(3) len by (simp add: present_def)
  then have e: "entry_ok (t ! ?i)" "accepts ev (entry_abs (t ! ?i))"
    using ok assms(5) t by (simp_all add: change_of_def)
  obtain e' where e': "action_func E ev (t ! ?i) q = (APX_NO_ERROR, e')" "entry_ok e'"
    "entry_abs e' = grow ev (entry_abs (t ! ?i)) [q]"
    using action_refines [OF assms(1) e, of q] by blast
  let ?t = "t[?i := e']" and ?net = "store_change_table net p (t[?i := e'])"
  have "\<forall>e\<in>set ?t. entry_ok e" using ok e'(2) by (auto dest: set_update_subset_insert [THEN subsetD])
  then have "changes_ok ?net" using store_change_table_ok [OF assms(2)] assms(4) len by simp
  moreover have "change_of ?net r = (if r = p then grow ev (change_of net p) [q] else change_of net r)" for r
  proof (cases "same_table r p")
    case True
    then show ?thesis
      using e'(3) i t change_table_same [OF True] by (auto simp: change_of_def store_change_table_simps same_table_def nth_list_update port_ptr.expand)
  next
    case False
    then show ?thesis by (auto simp: change_of_def store_change_table_simps same_table_def)
  qed
  ultimately show ?thesis
    using t i e'(1) by (auto simp: apply_change_def store_change_table_simps)
qed

lemma new_table:
  "table_ok n (Some (replicate n apx_portConnectorChangeEntry_create))"
  "0 < n \<Longrightarrow> apx_portConnectorChangeTable_new True n = Some (replicate n apx_portConnectorChangeEntry_create)"
  by (auto simp: table_ok_def apx_portConnectorChangeTable_new_def apx_portConnectorChangeTable_create_def)

lemma insert_modified:
  assumes "env_documented E"
  shows "apx_server_insert_modified_node_instance E net n =
    (APX_NO_ERROR, net\<lparr>modified_nodes := (if n \<in> set (modified_nodes net) then modified_nodes net else modified_nodes net @ [n])\<rparr>)"
  by (simp add: apx_server_insert_modified_node_instance_def array_ops [OF env_laws(1) [OF assms]])

text \<open>A table that is made changes nothing that the tables say.\<close>

lemma change_entry_of_ok:
  assumes "env_documented E" and "changes_ok net" and "present net p"
  shows "\<exists>net'. change_entry_of E net p = (APX_NO_ERROR, net') \<and> changes_ok net' \<and> same_but_changes net net' \<and>
    (\<forall>r. present net r \<longrightarrow> change_of net' r = change_of net r) \<and>
    change_table_of net' p \<noteq> None \<and> (\<forall>r. change_table_of net r \<noteq> None \<longrightarrow> change_table_of net' r \<noteq> None)"
proof (cases "change_table_of net p")
  case (Some t)
  have "apx_portInstance_port_id p < length t" using changes_ok_table [OF assms(2) Some] assms(3) by (simp add: present_def)
  then have "change_entry_of E net p = (APX_NO_ERROR, net)"
    using Some assms(3)
    by (cases "apx_portInstance_port_type p")
      (auto simp: change_entry_of_def change_table_of_def present_def num_ports_of_def Let_def
        apx_nodeInstance_get_provide_port_connector_changes_def apx_nodeInstance_get_require_port_connector_changes_def
        apx_portConnectorChangeTable_get_entry_def)
  with assms Some show ?thesis by simp
next
  case None
  let ?n = "apx_portInstance_parent p"
  let ?k = "num_ports_of (nodes net ?n) (apx_portInstance_port_type p)"
  let ?t = "replicate ?k apx_portConnectorChangeEntry_create"
  let ?ns = "if has_server (nodes net ?n) \<and> ?n \<notin> set (modified_nodes net) then modified_nodes net @ [?n] else modified_nodes net"
  let ?net = "store_change_table (net\<lparr>modified_nodes := ?ns\<rparr>) p ?t"
  have swap: "(store_change_table net p ?t)\<lparr>modified_nodes := ns\<rparr> = store_change_table (net\<lparr>modified_nodes := ns\<rparr>) p ?t" for ns
    by (simp add: store_change_table_def change_node_def)
  have k: "0 < ?k" "apx_portInstance_port_id p < ?k" using assms(3) by (auto simp: present_def)
  have "change_entry_of E net p = (APX_NO_ERROR, ?net)"
    unfolding swap [symmetric] using None k env_laws(2) [OF assms(1)]
    by (cases "apx_portInstance_port_type p"; cases "has_server (nodes net ?n)")
      (simp_all add: change_entry_of_def change_table_of_def num_ports_of_def Let_def store_change_table_def change_node_def
        apx_nodeInstance_get_provide_port_connector_changes_def apx_nodeInstance_get_require_port_connector_changes_def
        apx_portConnectorChangeTable_get_entry_def new_table(2) insert_modified [OF assms(1)])
  moreover have "changes_ok (net\<lparr>modified_nodes := ?ns\<rparr>)" using assms(2) by (auto simp: changes_ok_def Let_def)
  then have "changes_ok ?net"
    by (rule store_change_table_ok) auto
  moreover have "same_but_changes net ?net"
    using store_change_table_simps(3) [of "net\<lparr>modified_nodes := ?ns\<rparr>" p ?t] by (simp add: same_but_changes_def)
  moreover have table: "change_table_of ?net r =
      (if apx_portInstance_parent r = ?n \<and> apx_portInstance_port_type r = apx_portInstance_port_type p
       then Some ?t else change_table_of net r)" for r
    by (simp add: store_change_table_simps change_table_modified)
  moreover have "change_of ?net r = change_of net r" if "present net r" for r
    using that None change_table_same [of r p net] by (auto simp: change_of_def table present_def same_table_def)
  ultimately show ?thesis by auto
qed

text \<open>Two ports that note each other.\<close>

lemma both_noted:
  assumes "env_documented E" and "changes_ok net" and "present net p" "present net q" and "p \<noteq> q"
    and "change_table_of net p \<noteq> None" "change_table_of net q \<noteq> None"
    and "accepts ev (change_of net p)" "accepts ev (change_of net q)"
  shows "\<exists>net'. andThen (apply_change E ev net p q) (\<lambda>net. andThen (apply_change E ev net q p) K) = K net' \<and>
    changes_ok net' \<and> same_but_changes net net' \<and>
    (\<forall>r. change_of net' r = (if r = p then grow ev (change_of net p) [q]
       else if r = q then grow ev (change_of net q) [p] else change_of net r)) \<and>
    (\<forall>r. change_table_of net r \<noteq> None \<longrightarrow> change_table_of net' r \<noteq> None)"
proof -
  obtain net1 where n1: "apply_change E ev net p q = (APX_NO_ERROR, net1)" "changes_ok net1" "same_but_changes net net1"
    "\<forall>r. change_of net1 r = (if r = p then grow ev (change_of net p) [q] else change_of net r)"
    "\<forall>r. change_table_of net r \<noteq> None \<longrightarrow> change_table_of net1 r \<noteq> None"
    using apply_change_ok [OF assms(1-3,6,8), of q] by blast
  have "present net1 q" "change_table_of net1 q \<noteq> None" "accepts ev (change_of net1 q)"
    using n1(4,5) assms(4,5,7,9) same_but_changes_fields(6) [OF n1(3)] by auto
  from apply_change_ok [OF assms(1) n1(2) this, of p] obtain net2 where
    n2: "apply_change E ev net1 q p = (APX_NO_ERROR, net2)" "changes_ok net2" "same_but_changes net1 net2"
    "\<forall>r. change_of net2 r = (if r = q then grow ev (change_of net1 q) [p] else change_of net1 r)"
    "\<forall>r. change_table_of net1 r \<noteq> None \<longrightarrow> change_table_of net2 r \<noteq> None" by blast
  have "same_but_changes net net2" using same_but_changes_trans n1(3) n2(3) by blast
  with n1 n2 assms(5) show ?thesis by (intro exI [of _ net2]) auto
qed

lemma grow_grow: "grow ev (grow ev c ps) qs = grow ev c (ps @ qs)"
  by (cases ev; cases ps; cases qs; cases c) auto

lemma accepts_grow [simp]: "accepts ev c \<Longrightarrow> accepts ev (grow ev c ps)"
  by (cases ev; cases ps; cases c) auto

text \<open>The loop over the ports on the other side, whichever entry is changed first.\<close>

definition notify_ports ::
  "server_env \<Rightarrow> apx_portConnectorEvent \<Rightarrow> network \<Rightarrow> port_ptr \<Rightarrow> port_ptr list \<Rightarrow> apx_error \<times> network" where
  "notify_ports E ev net p qs =
     (case apx_portInstance_port_type p of APX_PROVIDE_PORT \<Rightarrow> notify_require_ports E ev net p qs
      | APX_REQUIRE_PORT \<Rightarrow> notify_provide_ports E ev net p qs)"

lemma notify_ports_ok:
  assumes "env_documented E"
  shows "changes_ok net \<Longrightarrow> present net p \<Longrightarrow> \<forall>q\<in>set qs. present net q \<and> accepts ev (change_of net q) \<Longrightarrow>
    distinct qs \<Longrightarrow> p \<notin> set qs \<Longrightarrow> change_table_of net p \<noteq> None \<Longrightarrow> accepts ev (change_of net p) \<Longrightarrow>
    \<exists>net'. notify_ports E ev net p qs = (APX_NO_ERROR, net') \<and> changes_ok net' \<and> same_but_changes net net' \<and>
      (\<forall>r. present net r \<longrightarrow> change_of net' r = (if r = p then grow ev (change_of net p) qs
         else if r \<in> set qs then grow ev (change_of net r) [p] else change_of net r))"
proof (induction qs arbitrary: net)
  case Nil
  then show ?case by (cases "apx_portInstance_port_type p") (auto simp: notify_ports_def)
next
  case (Cons q qs)
  have q: "present net q" "accepts ev (change_of net q)" "p \<noteq> q" "q \<notin> set qs" using Cons.prems by auto
  obtain net1 where n1: "change_entry_of E net q = (APX_NO_ERROR, net1)" "changes_ok net1" "same_but_changes net net1"
    "\<forall>r. present net r \<longrightarrow> change_of net1 r = change_of net r" "change_table_of net1 q \<noteq> None" "change_table_of net1 p \<noteq> None"
    using change_entry_of_ok [OF assms Cons.prems(1) q(1)] Cons.prems(6) by blast
  have here: "present net1 p" "present net1 q" "accepts ev (change_of net1 p)" "accepts ev (change_of net1 q)"
    using n1(4) Cons.prems(2,7) q same_but_changes_fields(6) [OF n1(3)] by auto
  have "\<exists>net2. notify_ports E ev net p (q # qs) = notify_ports E ev net2 p qs \<and> changes_ok net2 \<and>
    same_but_changes net1 net2 \<and>
    (\<forall>r. change_of net2 r = (if r = p then grow ev (change_of net1 p) [q]
       else if r = q then grow ev (change_of net1 q) [p] else change_of net1 r)) \<and>
    change_table_of net2 p \<noteq> None"
  proof (cases "apx_portInstance_port_type p")
    case APX_PROVIDE_PORT
    then show ?thesis
      using both_noted [OF assms n1(2) here(2,1) q(3) [symmetric] n1(5,6) here(4,3),
          of "\<lambda>net. notify_require_ports E ev net p qs"] n1(1,6)
      by (fastforce simp: notify_ports_def)
  next
    case APX_REQUIRE_PORT
    then show ?thesis
      using both_noted [OF assms n1(2) here(1,2) q(3) n1(6,5) here(3,4),
          of "\<lambda>net. notify_provide_ports E ev net p qs"] n1(1,6)
      by (fastforce simp: notify_ports_def)
  qed
  then obtain net2 where n2: "notify_ports E ev net p (q # qs) = notify_ports E ev net2 p qs" "changes_ok net2"
    "same_but_changes net1 net2" "\<forall>r. change_of net2 r = (if r = p then grow ev (change_of net1 p) [q]
       else if r = q then grow ev (change_of net1 q) [p] else change_of net1 r)" "change_table_of net2 p \<noteq> None"
    by (elim exE conjE) (rule that)
  have same: "same_but_changes net net2" using same_but_changes_trans n1(3) n2(3) by blast
  note there = same_but_changes_fields(6) [OF same]
  have change: "change_of net2 r = (if r = p then grow ev (change_of net p) [q]
       else if r = q then grow ev (change_of net q) [p] else change_of net r)" if "present net r" for r
    using n2(4) n1(4) that q(1) Cons.prems(2) by simp
  have "\<forall>r\<in>set qs. present net2 r \<and> accepts ev (change_of net2 r)" "present net2 p" "accepts ev (change_of net2 p)"
    using Cons.prems(2,3,7) there change by auto
  with Cons.IH [OF n2(2)] Cons.prems(4,5) n2(5) obtain net3 where n3:
    "notify_ports E ev net2 p qs = (APX_NO_ERROR, net3)" "changes_ok net3" "same_but_changes net2 net3"
    "\<forall>r. present net2 r \<longrightarrow> change_of net3 r = (if r = p then grow ev (change_of net2 p) qs
         else if r \<in> set qs then grow ev (change_of net2 r) [p] else change_of net2 r)" by auto
  have "change_of net3 r = (if r = p then grow ev (change_of net p) (q # qs)
         else if r \<in> set (q # qs) then grow ev (change_of net r) [p] else change_of net r)" if "present net r" for r
    using n3(4) that there change [OF that] change [OF Cons.prems(2)] q(3,4) grow_grow [of ev _ "[q]" qs] by auto
  moreover have "same_but_changes net net3" using same_but_changes_trans same n3(3) by blast
  ultimately show ?case using n2(1) n3(1,2) by auto
qed

end
