(* ===== verification/Matching.thy ===== *)
theory Matching
  imports SignatureMap
begin

text \<open>
  What the signature map achieves: a node that joins on one side is matched with exactly the ports on
  the other side that have its signatures, both sides note each other in their change tables, a node that
  leaves undoes it. The lemmas speak of both sides and of joining and leaving at once.
\<close>

section \<open>The ports under a signature\<close>

fun opposite :: "apx_portType \<Rightarrow> apx_portType" where
  "opposite APX_PROVIDE_PORT = APX_REQUIRE_PORT" | "opposite APX_REQUIRE_PORT = APX_PROVIDE_PORT"

fun entry_side :: "apx_portType \<Rightarrow> apx_portSignatureMapEntry \<Rightarrow> port_ptr list" where
  "entry_side APX_PROVIDE_PORT e = entry_provide_ports e"
| "entry_side APX_REQUIRE_PORT e = entry_require_ports e"

definition filed :: "network \<Rightarrow> byte list \<Rightarrow> apx_portType \<Rightarrow> port_ptr list" where
  "filed net key side = (case port_signature_map net key of None \<Rightarrow> [] | Some e \<Rightarrow> entry_side side e)"

text \<open>A port pointer leads to the port instance that carries it, and its signature is a key.\<close>

definition port_of :: "network \<Rightarrow> port_ptr \<Rightarrow> apx_portInstance option" where
  "port_of net p =
     (case apx_portInstance_port_type p of
        APX_PROVIDE_PORT \<Rightarrow> apx_nodeInstance_get_provide_port (nodes net (apx_portInstance_parent p)) (apx_portInstance_port_id p)
      | APX_REQUIRE_PORT \<Rightarrow> apx_nodeInstance_get_require_port (nodes net (apx_portInstance_parent p)) (apx_portInstance_port_id p))"

definition has_key :: "network \<Rightarrow> port_ptr \<Rightarrow> byte list \<Rightarrow> bool" where
  "has_key net p key \<longleftrightarrow> (\<exists>port cs. port_of net p = Some port \<and> pi_ptr port = p \<and> port_signature port = Some cs \<and>
     c_string cs = key) \<and> key \<noteq> []"

definition map_ok :: "network \<Rightarrow> bool" where
  "map_ok net \<longleftrightarrow>
     (\<forall>key side. distinct (filed net key side) \<and>
        (\<forall>p\<in>set (filed net key side). has_key net p key \<and> apx_portInstance_port_type p = side)) \<and>
     (\<forall>key e. port_signature_map net key = Some e \<longrightarrow> \<not> apx_portSignatureMapEntry_is_empty e)"

lemma has_key_present: "has_key net p key \<Longrightarrow> present net p"
  by (cases "apx_portInstance_port_type p")
    (auto simp: has_key_def port_of_def present_def num_ports_of_def apx_nodeInstance_get_provide_port_def
      apx_nodeInstance_get_require_port_def split: if_splits)

lemma has_key_unique: "has_key net p key \<Longrightarrow> has_key net p key' \<Longrightarrow> key = key'"
  by (auto simp: has_key_def)

lemma port_of_same:
  assumes "\<And>n. bare (nodes net' n) = bare (nodes net n)"
  shows "port_of net' p = port_of net p" "has_key net' p key = has_key net p key" "present net' p = present net p"
proof -
  note f = bare_fields [OF assms]
  show *: "port_of net' p = port_of net p" for p
    by (cases "apx_portInstance_port_type p")
      (simp_all add: port_of_def apx_nodeInstance_get_provide_port_def apx_nodeInstance_get_require_port_def f)
  show "has_key net' p key = has_key net p key" by (simp add: has_key_def *)
  show "present net' p = present net p" by (simp add: present_def f)
qed

section \<open>One port\<close>

fun refiled :: "apx_portConnectorEvent \<Rightarrow> port_ptr list \<Rightarrow> port_ptr \<Rightarrow> port_ptr list" where
  "refiled APX_PORT_CONNECTED_EVENT ps p = ps @ [p]"
| "refiled APX_PORT_DISCONNECTED_EVENT ps p = remove1 p ps"

fun port_event ::
  "server_env \<Rightarrow> apx_portConnectorEvent \<Rightarrow> network \<Rightarrow> byte list option \<Rightarrow> port_ptr \<Rightarrow> apx_error \<times> network" where
  "port_event E APX_PORT_CONNECTED_EVENT = apx_portSignatureMap_insert E"
| "port_event E APX_PORT_DISCONNECTED_EVENT = apx_portSignatureMap_remove E"

text \<open>The two notifications in one.\<close>

definition notify_others ::
  "server_env \<Rightarrow> apx_portConnectorEvent \<Rightarrow> network \<Rightarrow> port_ptr \<Rightarrow> port_ptr list \<Rightarrow> apx_error \<times> network" where
  "notify_others E ev net p qs =
     (if qs \<noteq> [] then andThen (change_entry_of E net p) (\<lambda>net. notify_ports E ev net p qs) else (APX_NO_ERROR, net))"

lemma notify_others_eq:
  "apx_portInstance_port_type p = APX_PROVIDE_PORT \<Longrightarrow>
     apx_portSignatureMapEntry_notify_require_ports_about_provide_port_change E net e p ev =
       notify_others E ev net p (entry_side APX_REQUIRE_PORT e)"
  "apx_portInstance_port_type p = APX_REQUIRE_PORT \<Longrightarrow>
     apx_portSignatureMapEntry_notify_provide_ports_about_require_port_change E net e p ev =
       notify_others E ev net p (entry_side APX_PROVIDE_PORT e)"
  by (simp_all add: notify_others_def notify_ports_def
      apx_portSignatureMapEntry_notify_require_ports_about_provide_port_change_def
      apx_portSignatureMapEntry_notify_provide_ports_about_require_port_change_def)

text \<open>Who changes by an event of port \<open>p\<close> that concerns the ports \<open>qs\<close>.\<close>

definition noted :: "apx_portConnectorEvent \<Rightarrow> port_ptr \<Rightarrow> port_ptr list \<Rightarrow> network \<Rightarrow> network \<Rightarrow> bool" where
  "noted ev p qs net net' \<longleftrightarrow>
     (\<forall>r. present net r \<longrightarrow> change_of net' r = (if r = p then grow ev (change_of net p) qs
        else if r \<in> set qs then grow ev (change_of net r) [p] else change_of net r))"

lemma notify_others_ok:
  assumes "env_documented E" and "changes_ok net" and "present net p"
    and "\<forall>q\<in>set qs. present net q \<and> accepts ev (change_of net q)" and "distinct qs" and "p \<notin> set qs"
    and "accepts ev (change_of net p)"
  shows "\<exists>net'. notify_others E ev net p qs = (APX_NO_ERROR, net') \<and> changes_ok net' \<and> same_but_changes net net' \<and>
    noted ev p qs net net'"
proof (cases "qs = []")
  case True
  with assms show ?thesis by (auto simp: notify_others_def noted_def)
next
  case False
  obtain net1 where n1: "change_entry_of E net p = (APX_NO_ERROR, net1)" "changes_ok net1" "same_but_changes net net1"
    "\<forall>r. present net r \<longrightarrow> change_of net1 r = change_of net r" "change_table_of net1 p \<noteq> None"
    using change_entry_of_ok [OF assms(1-3)] by blast
  note there = same_but_changes_fields(6) [OF n1(3)]
  have "\<forall>q\<in>set qs. present net1 q \<and> accepts ev (change_of net1 q)" "accepts ev (change_of net1 p)" "present net1 p"
    using assms(3,4,7) n1(4) there by auto
  with notify_ports_ok [OF assms(1) n1(2)] assms(5,6) n1(5) obtain net2 where n2:
    "notify_ports E ev net1 p qs = (APX_NO_ERROR, net2)" "changes_ok net2" "same_but_changes net1 net2"
    "\<forall>r. present net1 r \<longrightarrow> change_of net2 r = (if r = p then grow ev (change_of net1 p) qs
         else if r \<in> set qs then grow ev (change_of net1 r) [p] else change_of net1 r)" by blast
  have "noted ev p qs net net2" using n2(4) n1(4) there assms(3) by (auto simp: noted_def)
  moreover have "same_but_changes net net2" using same_but_changes_trans n1(3) n2(3) by blast
  ultimately show ?thesis using n1(1) n2(1,2) False by (auto simp: notify_others_def)
qed

text \<open>An entry for the port: the one there, or a new one; then with the port filed or taken out.\<close>

fun entry_with :: "apx_portConnectorEvent \<Rightarrow> port_ptr \<Rightarrow> apx_portSignatureMapEntry \<Rightarrow> apx_portSignatureMapEntry" where
  "entry_with APX_PORT_CONNECTED_EVENT p e =
     (case apx_portInstance_port_type p of
        APX_PROVIDE_PORT \<Rightarrow> e\<lparr>entry_provide_ports := entry_provide_ports e @ [p], preferred_provider := Some p\<rparr>
      | APX_REQUIRE_PORT \<Rightarrow> e\<lparr>entry_require_ports := entry_require_ports e @ [p]\<rparr>)"
| "entry_with APX_PORT_DISCONNECTED_EVENT p e =
     (case apx_portInstance_port_type p of
        APX_PROVIDE_PORT \<Rightarrow> e\<lparr>entry_provide_ports := remove1 p (entry_provide_ports e)\<rparr>
      | APX_REQUIRE_PORT \<Rightarrow> e\<lparr>entry_require_ports := remove1 p (entry_require_ports e)\<rparr>)"

definition entry_at :: "network \<Rightarrow> byte list \<Rightarrow> apx_portSignatureMapEntry" where
  "entry_at net key = (case port_signature_map net key of None \<Rightarrow> apx_portSignatureMapEntry_create | Some e \<Rightarrow> e)"

lemma entry_side_with:
  "entry_side side (entry_with ev p e) =
     (if side = apx_portInstance_port_type p then refiled ev (entry_side side e) p else entry_side side e)"
  by (cases ev; cases side; cases "apx_portInstance_port_type p") auto

lemma entry_at_side: "entry_side side (entry_at net key) = filed net key side"
  by (cases side) (auto simp: entry_at_def filed_def apx_portSignatureMapEntry_create_def split: option.splits)

text \<open>The preferred provider of a signature, and what an event of a port makes of it: nothing resets it.\<close>

definition preferred :: "network \<Rightarrow> byte list \<Rightarrow> port_ptr option" where
  "preferred net key = (case port_signature_map net key of None \<Rightarrow> None | Some e \<Rightarrow> preferred_provider e)"

fun prefer_port :: "apx_portConnectorEvent \<Rightarrow> port_ptr option \<Rightarrow> port_ptr \<Rightarrow> port_ptr option" where
  "prefer_port APX_PORT_CONNECTED_EVENT old p = (if apx_portInstance_port_type p = APX_PROVIDE_PORT then Some p else old)"
| "prefer_port APX_PORT_DISCONNECTED_EVENT old p = old"

lemma preferred_with: "preferred_provider (entry_with ev p (entry_at net key)) = prefer_port ev (preferred net key) p"
  by (cases ev; cases "apx_portInstance_port_type p")
    (simp_all add: preferred_def entry_at_def apx_portSignatureMapEntry_create_def split: option.split)

lemma store_entry_facts:
  "nodes (store_entry net key e) = nodes net" "modified_nodes (store_entry net key e) = modified_nodes net"
  "change_table_of (store_entry net key e) p = change_table_of net p" "change_of (store_entry net key e) p = change_of net p"
  "changes_ok (store_entry net key e) = changes_ok net" "present (store_entry net key e) p = present net p"
  by (cases "apx_portInstance_port_type p";
      simp add: store_entry_def change_of_def change_table_of_def changes_ok_def present_def)+

text \<open>The change of the map, and of the tables.\<close>

lemma port_event_runs:
  assumes E: "env_documented E" and "has_key net p key" and "port_signature port = Some cs" "c_string cs = key"
    and "ev = APX_PORT_DISCONNECTED_EVENT \<Longrightarrow> port_signature_map net key \<noteq> None"
  shows "port_event E ev net (port_signature port) p =
    (case notify_others E ev (store_entry net key (entry_with ev p (entry_at net key))) p
       (filed net key (opposite (apx_portInstance_port_type p))) of
       (e, net') \<Rightarrow>
         (if is_fault e then e else if ev = APX_PORT_CONNECTED_EVENT then APX_NO_ERROR else e,
          if \<not> is_fault e \<and> ev = APX_PORT_DISCONNECTED_EVENT \<and>
             apx_portSignatureMapEntry_is_empty (entry_with ev p (entry_at net key))
          then net'\<lparr>port_signature_map := (port_signature_map net')(key := None)\<rparr> else net'))"
proof -
  have key: "key \<noteq> []" using assms(2) by (simp add: has_key_def)
  note lists = array_ops [OF env_laws(1) [OF E]]
  obtain net1 where found: "(case port_signature_map net key of
      None \<Rightarrow> apx_portSignatureMap_create_new_entry E net key | Some entry \<Rightarrow> (Some entry, net)) = (Some (entry_at net key), net1)"
    and same: "store_entry net1 key e = store_entry net key e" for e
    by (cases "port_signature_map net key")
      (auto simp: apx_portSignatureMap_create_new_entry_def env_laws [OF E] entry_at_def store_entry_def)
  note side = entry_at_side [of _ net key] entry_side_with [of _ _ p "entry_at net key"]
  show ?thesis
  proof (cases ev)
    case APX_PORT_CONNECTED_EVENT
    have with_: "apx_portInstance_port_type p = APX_PROVIDE_PORT \<Longrightarrow>
        apx_portSignatureMapEntry_attach_provide_port E (entry_at net key) p True = entry_with APX_PORT_CONNECTED_EVENT p (entry_at net key)"
      "apx_portInstance_port_type p = APX_REQUIRE_PORT \<Longrightarrow>
        apx_portSignatureMapEntry_attach_require_port E (entry_at net key) p = entry_with APX_PORT_CONNECTED_EVENT p (entry_at net key)"
      by (simp_all add: APX_PORT_CONNECTED_EVENT lists apx_portSignatureMapEntry_attach_provide_port_def Let_def
          apx_portSignatureMapEntry_attach_require_port_def apx_portSignatureMapEntry_set_preferred_provider_def)
    show ?thesis
    proof (cases "apx_portInstance_port_type p")
      case APX_PROVIDE_PORT
      then show ?thesis
        using key APX_PORT_CONNECTED_EVENT side
        unfolding assms(3) APX_PORT_CONNECTED_EVENT port_event.simps apx_portSignatureMap_insert_def option.case assms(4) Let_def found
        by (simp add: with_ same notify_others_eq unless_fault_def split_beta del: entry_with.simps)
    next
      case APX_REQUIRE_PORT
      then show ?thesis
        using key APX_PORT_CONNECTED_EVENT side
        unfolding assms(3) APX_PORT_CONNECTED_EVENT port_event.simps apx_portSignatureMap_insert_def option.case assms(4) Let_def found
        by (simp add: with_ same notify_others_eq unless_fault_def split_beta del: entry_with.simps)
    qed
  next
    case APX_PORT_DISCONNECTED_EVENT
    then have found: "port_signature_map net key = Some (entry_at net key)" using assms(5) by (auto simp: entry_at_def)
    have with_: "apx_portInstance_port_type p = APX_PROVIDE_PORT \<Longrightarrow>
        apx_portSignatureMapEntry_detach_provide_port E (entry_at net key) p = entry_with APX_PORT_DISCONNECTED_EVENT p (entry_at net key)"
      "apx_portInstance_port_type p = APX_REQUIRE_PORT \<Longrightarrow>
        apx_portSignatureMapEntry_detach_require_port E (entry_at net key) p = entry_with APX_PORT_DISCONNECTED_EVENT p (entry_at net key)"
      using APX_PORT_DISCONNECTED_EVENT
      by (simp_all add: lists apx_portSignatureMapEntry_detach_provide_port_def apx_portSignatureMapEntry_detach_require_port_def)
    show ?thesis
    proof (cases "apx_portInstance_port_type p")
      case APX_PROVIDE_PORT
      then show ?thesis
        using key APX_PORT_DISCONNECTED_EVENT side
        unfolding assms(3) APX_PORT_DISCONNECTED_EVENT port_event.simps apx_portSignatureMap_remove_def option.case assms(4) Let_def found
        by (simp add: with_ notify_others_eq split_beta apx_portSignatureMap_delete_entry_def env_laws [OF E] del: entry_with.simps)
    next
      case APX_REQUIRE_PORT
      then show ?thesis
        using key APX_PORT_DISCONNECTED_EVENT side
        unfolding assms(3) APX_PORT_DISCONNECTED_EVENT port_event.simps apx_portSignatureMap_remove_def option.case assms(4) Let_def found
        by (simp add: with_ notify_others_eq split_beta apx_portSignatureMap_delete_entry_def env_laws [OF E] del: entry_with.simps)
    qed
  qed
qed

definition same_nodes :: "network \<Rightarrow> network \<Rightarrow> bool" where
  "same_nodes net net' \<longleftrightarrow> (\<forall>n. bare (nodes net' n) = bare (nodes net n)) \<and> managers net' = managers net \<and> handlers net' = handlers net"

lemma same_nodes_refl [simp]: "same_nodes net net"
  by (simp add: same_nodes_def)

lemma same_nodes_trans: "same_nodes a b \<Longrightarrow> same_nodes b c \<Longrightarrow> same_nodes a c"
  by (simp add: same_nodes_def)

lemma same_nodes_ports:
  assumes "same_nodes net net'"
  shows "port_of net' p = port_of net p" "has_key net' p key = has_key net p key" "present net' p = present net p"
  using port_of_same [of net' net] assms by (simp_all add: same_nodes_def)

text \<open>How the map changes, by its ports.\<close>

definition files :: "apx_portConnectorEvent \<Rightarrow> port_ptr \<Rightarrow> byte list \<Rightarrow> network \<Rightarrow> network \<Rightarrow> bool" where
  "files ev p key net net' \<longleftrightarrow> (\<forall>k side. filed net' k side =
     (if k = key \<and> side = apx_portInstance_port_type p then refiled ev (filed net k side) p else filed net k side))"

lemma map_ok_filed:
  assumes "map_ok net" and "files ev p key net net'" and "same_nodes net net'" and "has_key net p key"
    and "ev = APX_PORT_CONNECTED_EVENT \<Longrightarrow> p \<notin> set (filed net key (apx_portInstance_port_type p))"
    and "\<And>k e. port_signature_map net' k = Some e \<Longrightarrow> \<not> apx_portSignatureMapEntry_is_empty e"
  shows "map_ok net'"
proof -
  note ports = same_nodes_ports [OF assms(3)]
  have "distinct (filed net' k side) \<and> (\<forall>q\<in>set (filed net' k side). has_key net' q k \<and> apx_portInstance_port_type q = side)" for k side
  proof (cases "k = key \<and> side = apx_portInstance_port_type p")
    case False
    then have "filed net' k side = filed net k side" using assms(2) by (auto simp: files_def)
    then show ?thesis using assms(1) by (simp add: map_ok_def ports)
  next
    case True
    then have "filed net' k side = refiled ev (filed net key (apx_portInstance_port_type p)) p"
      using assms(2) by (auto simp: files_def)
    then show ?thesis
      using assms(1,4,5) True by (cases ev) (auto simp: map_ok_def ports dest: set_remove1_subset [THEN subsetD])
  qed
  with assms(6) show ?thesis by (simp add: map_ok_def)
qed

lemma is_empty_sides: "apx_portSignatureMapEntry_is_empty e \<longleftrightarrow> (\<forall>side. entry_side side e = [])"
proof -
  have "(\<forall>side. entry_side side e = []) \<longleftrightarrow> entry_side APX_PROVIDE_PORT e = [] \<and> entry_side APX_REQUIRE_PORT e = []"
    by (metis apx_portType.exhaust)
  then show ?thesis by (simp add: apx_portSignatureMapEntry_is_empty_def)
qed

lemma entry_iff_filed: "map_ok net \<Longrightarrow> port_signature_map net key = None \<longleftrightarrow> (\<forall>side. filed net key side = [])"
  using is_empty_sides by (cases "port_signature_map net key") (auto simp: map_ok_def filed_def)

definition prefers :: "apx_portConnectorEvent \<Rightarrow> port_ptr \<Rightarrow> byte list \<Rightarrow> network \<Rightarrow> network \<Rightarrow> bool" where
  "prefers ev p key net net' \<longleftrightarrow> (\<forall>k. port_signature_map net' k \<noteq> None \<longrightarrow>
     preferred net' k = (if k = key then prefer_port ev (preferred net k) p else preferred net k))"

lemma port_event_ok:
  assumes E: "env_documented E" and ok: "changes_ok net" "map_ok net" and p: "has_key net p key" "port_of net p = Some port"
    and new: "ev = APX_PORT_CONNECTED_EVENT \<Longrightarrow> p \<notin> set (filed net key (apx_portInstance_port_type p))"
    and old: "ev = APX_PORT_DISCONNECTED_EVENT \<Longrightarrow> p \<in> set (filed net key (apx_portInstance_port_type p))"
    and acc: "accepts ev (change_of net p)"
      "\<forall>q\<in>set (filed net key (opposite (apx_portInstance_port_type p))). accepts ev (change_of net q)"
  shows "\<exists>net'. port_event E ev net (port_signature port) p = (APX_NO_ERROR, net') \<and> changes_ok net' \<and> map_ok net' \<and>
    same_nodes net net' \<and> files ev p key net net' \<and> prefers ev p key net net' \<and>
    noted ev p (filed net key (opposite (apx_portInstance_port_type p))) net net'"
proof -
  let ?qs = "filed net key (opposite (apx_portInstance_port_type p))"
  let ?e = "entry_with ev p (entry_at net key)"
  let ?net = "store_entry net key ?e"
  obtain cs where cs: "port_signature port = Some cs" "c_string cs = key" using p by (auto simp: has_key_def)
  have there: "port_signature_map net key \<noteq> None" if "ev = APX_PORT_DISCONNECTED_EVENT"
    using old [OF that] by (cases "port_signature_map net key") (simp_all add: filed_def)
  have qs: "distinct ?qs" "\<forall>q\<in>set ?qs. has_key net q key \<and> apx_portInstance_port_type q \<noteq> apx_portInstance_port_type p"
    using ok(2) by (cases "apx_portInstance_port_type p"; auto simp: map_ok_def)+
  have "\<forall>q\<in>set ?qs. present ?net q \<and> accepts ev (change_of ?net q)" "p \<notin> set ?qs"
    using qs(2) acc(2) by (auto simp: store_entry_facts has_key_present)
  moreover have "changes_ok ?net" "present ?net p" "accepts ev (change_of ?net p)"
    using ok(1) has_key_present [OF p(1)] acc(1) by (simp_all add: store_entry_facts)
  ultimately obtain net2 where n2:
    "notify_others E ev ?net p ?qs = (APX_NO_ERROR, net2)" "changes_ok net2" "same_but_changes ?net net2" "noted ev p ?qs ?net net2"
    using notify_others_ok [OF E, of ?net p ?qs ev] qs(1) by blast
  define net3 where "net3 = (if ev = APX_PORT_DISCONNECTED_EVENT \<and> apx_portSignatureMapEntry_is_empty ?e
      then net2\<lparr>port_signature_map := (port_signature_map net2)(key := None)\<rparr> else net2)"
  have run: "port_event E ev net (port_signature port) p = (APX_NO_ERROR, net3)"
    using port_event_runs [OF E p(1) cs there] n2(1) by (simp add: net3_def)
  have map2: "port_signature_map net2 = (port_signature_map net)(key \<mapsto> ?e)"
    using n2(3) by (simp add: same_but_changes_def store_entry_def)
  have map3: "port_signature_map net3 = (port_signature_map net)(key := if ev = APX_PORT_DISCONNECTED_EVENT \<and>
      apx_portSignatureMapEntry_is_empty ?e then None else Some ?e)"
    by (auto simp: net3_def map2)
  have "files ev p key net net3"
    unfolding files_def
  proof (intro allI)
    fix k side
    have "entry_side side ?e = (if side = apx_portInstance_port_type p then refiled ev (filed net key side) p else filed net key side)"
      by (simp only: entry_side_with entry_at_side)
    then show "filed net3 k side = (if k = key \<and> side = apx_portInstance_port_type p
        then refiled ev (filed net k side) p else filed net k side)"
      using is_empty_sides [of ?e] by (auto simp: filed_def map3 simp del: entry_with.simps)
  qed
  moreover have "prefers ev p key net net3"
    using preferred_with [of ev p net key] by (auto simp: prefers_def preferred_def map3 simp del: entry_with.simps prefer_port.simps)
  moreover have "same_nodes net net3"
    using n2(3) by (auto simp: same_nodes_def net3_def same_but_changes_def store_entry_def)
  moreover have "changes_ok net3" using n2(2) by (auto simp: net3_def changes_ok_def)
  moreover have "change_of net3 r = change_of net2 r" for r
    by (cases "apx_portInstance_port_type r") (auto simp: net3_def change_of_def change_table_of_def)
  then have "noted ev p ?qs net net3" using n2(4) by (auto simp: noted_def store_entry_facts)
  moreover have "\<not> apx_portSignatureMapEntry_is_empty e" if "port_signature_map net3 k = Some e" for k e
  proof (cases "k = key")
    case False
    then show ?thesis using that ok(2) by (auto simp: map3 map_ok_def)
  next
    case True
    then have "e = ?e" using that by (auto simp: map3 simp del: entry_with.simps split: if_splits)
    moreover have "entry_side (apx_portInstance_port_type p) ?e \<noteq> []" if "ev = APX_PORT_CONNECTED_EVENT"
      using that by (simp add: entry_side_with del: entry_with.simps)
    ultimately show ?thesis
      using that True is_empty_sides [of ?e] by (cases ev) (auto simp: map3 simp del: entry_with.simps split: if_splits)
  qed
  moreover have "map_ok net3" by (rule map_ok_filed [OF ok(2)]) (use calculation p(1) new in auto)
  ultimately show ?thesis using run by blast
qed

section \<open>The ports of a node\<close>

definition key_of :: "network \<Rightarrow> port_ptr \<Rightarrow> byte list" where
  "key_of net p =
     (case port_of net p of None \<Rightarrow> []
      | Some port \<Rightarrow> (case port_signature port of None \<Rightarrow> [] | Some cs \<Rightarrow> c_string cs))"

lemma key_of_same: "same_nodes net net' \<Longrightarrow> key_of net' p = key_of net p"
  by (simp add: key_of_def same_nodes_ports)

lemma has_key_key: "has_key net p key \<Longrightarrow> key_of net p = key"
  by (auto simp: has_key_def key_of_def)

text \<open>The ports that port \<open>r\<close> is matched with when the ports \<open>ps\<close> come or go.\<close>

definition partners :: "network \<Rightarrow> port_ptr list \<Rightarrow> port_ptr \<Rightarrow> port_ptr list" where
  "partners net ps r =
     (if r \<in> set ps then filed net (key_of net r) (opposite (apx_portInstance_port_type r))
      else filter (\<lambda>p. r \<in> set (filed net (key_of net p) (opposite (apx_portInstance_port_type p)))) ps)"

definition node_side :: "nat \<Rightarrow> apx_portType \<Rightarrow> network \<Rightarrow> nat \<Rightarrow> apx_portInstance option" where
  "node_side n side = (case side of APX_PROVIDE_PORT \<Rightarrow> provide_port_of n | APX_REQUIRE_PORT \<Rightarrow> require_port_of n)"

lemma node_side_port: "node_side n side net i = port_of net (PORT n side i)"
  by (cases side) (simp_all add: node_side_def provide_port_of_def require_port_of_def port_of_def)

definition joining :: "network \<Rightarrow> apx_portConnectorEvent \<Rightarrow> port_ptr list \<Rightarrow> bool" where
  "joining net ev ps \<longleftrightarrow> (\<forall>p\<in>set ps. has_key net p (key_of net p) \<and>
     (p \<in> set (filed net (key_of net p) (apx_portInstance_port_type p)) \<longleftrightarrow> ev = APX_PORT_DISCONNECTED_EVENT))"

lemma partners_step:
  assumes "map_ok net" and "files ev p (key_of net p) net net1" and "same_nodes net net1"
    and "\<forall>q\<in>set ps. apx_portInstance_port_type q = apx_portInstance_port_type p" and "p \<notin> set ps"
  shows "(if r = p then filed net (key_of net p) (opposite (apx_portInstance_port_type p))
      else if r \<in> set (filed net (key_of net p) (opposite (apx_portInstance_port_type p))) then [p] else []) @ partners net1 ps r
    = partners net (p # ps) r"
proof -
  have opp: "opposite side \<noteq> side" for side by (cases side) auto
  have other: "filed net1 key (opposite (apx_portInstance_port_type p)) = filed net key (opposite (apx_portInstance_port_type p))" for key
    using assms(2) by (simp add: files_def opp)
  have kind: "apx_portInstance_port_type q = side" if "q \<in> set (filed net key side)" for q key side
    using assms(1) that by (auto simp: map_ok_def)
  note key = key_of_same [OF assms(3)]
  have none: "filter (\<lambda>q. r \<in> set (filed net (key_of net q) (opposite (apx_portInstance_port_type q)))) ps = []"
    if "apx_portInstance_port_type r = apx_portInstance_port_type p"
    using assms(4) kind opp that by (fastforce simp: filter_empty_conv)
  consider "r = p" | "r \<noteq> p" "r \<in> set ps" | "r \<noteq> p" "r \<notin> set ps" by blast
  then show ?thesis
  proof cases
    case 1
    with assms(4,5) none show ?thesis by (simp add: partners_def key other cong: filter_cong)
  next
    case 2
    then have "r \<notin> set (filed net (key_of net p) (opposite (apx_portInstance_port_type p)))"
      using kind opp assms(4) by metis
    with 2 assms(4) show ?thesis by (simp add: partners_def key other)
  next
    case 3
    with assms(4) show ?thesis by (simp add: partners_def key other cong: filter_cong)
  qed
qed

text \<open>No port files a signature that has no entry afterwards, and none that had none is preferred.\<close>

lemma preferred_step:
  assumes "map_ok net" and "map_ok net1" and "map_ok net2" and "files ev p key1 net net1" and "prefers ev p key1 net net1"
    and "\<forall>key s. filed net2 key s = (if s = side then foldl (refiled ev) (filed net1 key s) (ps key) else filed net1 key s)"
    and "port_signature_map net2 key \<noteq> None"
  shows "preferred net1 key = (if key1 = key then prefer_port ev (preferred net key) p else preferred net key)"
proof (cases "port_signature_map net1 key = None")
  case False
  with assms(5) show ?thesis by (auto simp: prefers_def)
next
  case True
  then have none: "filed net1 key s = []" for s by (simp add: filed_def)
  have gone: "foldl (refiled APX_PORT_DISCONNECTED_EVENT) [] qs = []" for qs by (induction qs) simp_all
  have ev: "ev = APX_PORT_CONNECTED_EVENT"
  proof (rule ccontr)
    assume "ev \<noteq> APX_PORT_CONNECTED_EVENT"
    then have "ev = APX_PORT_DISCONNECTED_EVENT" by (cases ev) auto
    with assms(6) none gone have "filed net2 key s = []" for s by simp
    with assms(3,7) show False by (simp add: entry_iff_filed)
  qed
  have other: "key1 \<noteq> key" using assms(4) none [of "apx_portInstance_port_type p"] ev by (auto simp: files_def)
  then have "filed net key s = []" for s using assms(4) none [of s] by (simp add: files_def)
  then have "port_signature_map net key = None" by (simp add: entry_iff_filed [OF assms(1)])
  with True other show ?thesis by (simp add: preferred_def)
qed

lemma node_ports_ok:
  assumes E: "env_documented E"
  shows "changes_ok net \<Longrightarrow> map_ok net \<Longrightarrow> joining net ev (map (PORT n side) [i..<i+k]) \<Longrightarrow>
    (\<forall>r. present net r \<longrightarrow> accepts ev (change_of net r)) \<Longrightarrow>
    \<exists>net'. for_ports (node_side n side) (port_event E ev) i k net = (APX_NO_ERROR, net') \<and>
      changes_ok net' \<and> map_ok net' \<and> same_nodes net net' \<and>
      (\<forall>key s. filed net' key s = (if s = side
         then foldl (refiled ev) (filed net key s) (filter (\<lambda>p. key_of net p = key) (map (PORT n side) [i..<i+k]))
         else filed net key s)) \<and>
      (\<forall>key. port_signature_map net' key \<noteq> None \<longrightarrow> preferred net' key =
         foldl (prefer_port ev) (preferred net key) (filter (\<lambda>p. key_of net p = key) (map (PORT n side) [i..<i+k]))) \<and>
      (\<forall>r. present net r \<longrightarrow>
         change_of net' r = grow ev (change_of net r) (partners net (map (PORT n side) [i..<i+k]) r))"
proof (induction k arbitrary: i net)
  case 0
  then show ?case by (intro exI [of _ net]) (simp add: partners_def)
next
  case (Suc k)
  let ?p = "PORT n side i" and ?ps = "map (PORT n side) [Suc i..<Suc i + k]"
  have upt: "map (PORT n side) [i..<i + Suc k] = ?p # ?ps"
    using upt_conv_Cons [of i "i + Suc k"] by simp
  have p: "has_key net ?p (key_of net ?p)"
    "?p \<in> set (filed net (key_of net ?p) side) \<longleftrightarrow> ev = APX_PORT_DISCONNECTED_EVENT"
    using Suc.prems(3) unfolding upt by (auto simp: joining_def)
  obtain port where port: "port_of net ?p = Some port" "pi_ptr port = ?p" using p(1) by (auto simp: has_key_def)
  have acc: "accepts ev (change_of net r)" if "present net r" for r using Suc.prems(4) that by blast
  have "\<forall>q\<in>set (filed net (key_of net ?p) (opposite side)). accepts ev (change_of net q)"
    using Suc.prems(2) acc has_key_present unfolding map_ok_def by blast
  with port_event_ok [OF E Suc.prems(1,2) p(1) port(1), of ev] p(2) acc [OF has_key_present [OF p(1)]]
  obtain net1 where n1: "port_event E ev net (port_signature port) ?p = (APX_NO_ERROR, net1)"
    "changes_ok net1" "map_ok net1" "same_nodes net net1" "files ev ?p (key_of net ?p) net net1"
    "prefers ev ?p (key_of net ?p) net net1"
    "noted ev ?p (filed net (key_of net ?p) (opposite side)) net net1" by auto
  note keep = same_nodes_ports [OF n1(4)] key_of_same [OF n1(4)]
  have filed1: "filed net1 key s = (if s = side then foldl (refiled ev) (filed net key s)
      (filter (\<lambda>p. key_of net p = key) [?p]) else filed net key s)" for key s
    using n1(5) by (auto simp: files_def)
  have "joining net1 ev ?ps"
    unfolding joining_def
  proof
    fix q assume q: "q \<in> set ?ps"
    then have "q \<noteq> ?p" "apx_portInstance_port_type q = side" by auto
    then have "q \<in> set (filed net1 (key_of net q) side) \<longleftrightarrow> q \<in> set (filed net (key_of net q) side)"
      by (cases ev) (auto simp: filed1 in_set_remove1)
    moreover have "q \<in> set (?p # ?ps)" using q by simp
    note Suc.prems(3) [unfolded upt joining_def, THEN bspec, OF this]
    ultimately show "has_key net1 q (key_of net1 q) \<and>
        (q \<in> set (filed net1 (key_of net1 q) (apx_portInstance_port_type q)) \<longleftrightarrow> ev = APX_PORT_DISCONNECTED_EVENT)"
      using \<open>apx_portInstance_port_type q = side\<close> by (simp add: keep)
  qed
  moreover have "accepts ev (change_of net1 r)" if "present net1 r" for r
    using n1(7) that acc by (auto simp: noted_def keep)
  ultimately obtain net2 where n2: "for_ports (node_side n side) (port_event E ev) (Suc i) k net1 = (APX_NO_ERROR, net2)"
    "changes_ok net2" "map_ok net2" "same_nodes net1 net2"
    "\<forall>key s. filed net2 key s = (if s = side then foldl (refiled ev) (filed net1 key s)
       (filter (\<lambda>p. key_of net1 p = key) ?ps) else filed net1 key s)"
    "\<forall>key. port_signature_map net2 key \<noteq> None \<longrightarrow> preferred net2 key =
       foldl (prefer_port ev) (preferred net1 key) (filter (\<lambda>p. key_of net1 p = key) ?ps)"
    "\<forall>r. present net1 r \<longrightarrow> change_of net2 r = grow ev (change_of net1 r) (partners net1 ?ps r)"
    using Suc.IH [OF n1(2,3), of "Suc i"] by auto
  have "for_ports (node_side n side) (port_event E ev) i (Suc k) net = (APX_NO_ERROR, net2)"
    using n1(1) n2(1) port by (simp add: node_side_port apx_portInstance_get_port_signature_def)
  moreover have "same_nodes net net2" using same_nodes_trans n1(4) n2(4) by blast
  moreover have "change_of net2 r = grow ev (change_of net r) (partners net (?p # ?ps) r)" if "present net r" for r
  proof -
    have "partners net (?p # ?ps) r = (if r = ?p then filed net (key_of net ?p) (opposite side)
        else if r \<in> set (filed net (key_of net ?p) (opposite side)) then [?p] else []) @ partners net1 ?ps r"
      by (subst partners_step [OF Suc.prems(2) n1(5,4), of ?ps r, symmetric]) (simp_all del: upt_Suc, auto)
    moreover have "change_of net2 r = grow ev (change_of net1 r) (partners net1 ?ps r)" using n2(7) that by (simp add: keep)
    ultimately show ?thesis using n1(7) that by (auto simp: noted_def grow_grow)
  qed
  moreover have "filed net2 key s = (if s = side then foldl (refiled ev) (filed net key s)
      (filter (\<lambda>p. key_of net p = key) (?p # ?ps)) else filed net key s)" for key s
    using n2(5) filed1 by (simp add: keep cong: filter_cong)
  moreover have "preferred net2 key = foldl (prefer_port ev) (preferred net key) (filter (\<lambda>p. key_of net p = key) (?p # ?ps))"
    if "port_signature_map net2 key \<noteq> None" for key
    using preferred_step [OF Suc.prems(2) n1(3) n2(3) n1(5,6) n2(5)] n2(6) that by (simp add: keep cong: filter_cong)
  ultimately show ?case unfolding upt using n2(2,3) by blast
qed

section \<open>Joining and leaving\<close>

definition ports_of_node :: "network \<Rightarrow> nat \<Rightarrow> apx_portType \<Rightarrow> port_ptr list" where
  "ports_of_node net n side = map (PORT n side) [0..<num_ports_of (nodes net n) side]"

fun connect_ports :: "apx_portType \<Rightarrow> server_env \<Rightarrow> network \<Rightarrow> nat \<Rightarrow> apx_error \<times> network" where
  "connect_ports APX_PROVIDE_PORT = apx_portSignatureMap_connect_provide_ports"
| "connect_ports APX_REQUIRE_PORT = apx_portSignatureMap_connect_require_ports"

fun disconnect_ports :: "apx_portType \<Rightarrow> server_env \<Rightarrow> network \<Rightarrow> nat \<Rightarrow> apx_error \<times> network" where
  "disconnect_ports APX_PROVIDE_PORT = apx_portSignatureMap_disconnect_provide_ports"
| "disconnect_ports APX_REQUIRE_PORT = apx_portSignatureMap_disconnect_require_ports"

lemma connect_ports_eq: "connect_ports side E net n =
    for_ports (node_side n side) (port_event E APX_PORT_CONNECTED_EVENT) 0 (num_ports_of (nodes net n) side) net"
  by (cases side) (simp_all add: apx_portSignatureMap_connect_provide_ports_def
      apx_portSignatureMap_connect_require_ports_def node_side_def num_ports_of_def)

lemma disconnect_ports_eq: "disconnect_ports side E net n =
    for_ports (node_side n side) (port_event E APX_PORT_DISCONNECTED_EVENT) 0 (num_ports_of (nodes net n) side) net"
  by (cases side) (simp_all add: apx_portSignatureMap_disconnect_provide_ports_def
      apx_portSignatureMap_disconnect_require_ports_def node_side_def num_ports_of_def)

definition quiet :: "network \<Rightarrow> bool" where
  "quiet net \<longleftrightarrow> (\<forall>r. present net r \<longrightarrow> change_of net r = Unchanged)"

lemma quiet_accepts: "quiet net \<Longrightarrow> \<forall>r. present net r \<longrightarrow> accepts ev (change_of net r)"
  by (cases ev) (simp_all add: quiet_def)

lemma foldl_filed: "foldl (refiled APX_PORT_CONNECTED_EVENT) xs ps = xs @ ps"
  by (induction ps arbitrary: xs) simp_all

lemma foldl_taken_out: "distinct (xs @ ps) \<Longrightarrow> foldl (refiled APX_PORT_DISCONNECTED_EVENT) (xs @ ps) ps = xs"
proof (induction ps)
  case (Cons p ps)
  then have "p \<notin> set xs" by simp
  then have "remove1 p (xs @ p # ps) = xs @ ps" by (simp add: remove1_append)
  with Cons show ?case by simp
qed simp

lemmas connect_ok = node_ports_ok [where i = 0 and ev = APX_PORT_CONNECTED_EVENT, unfolded add_0 foldl_filed]
lemmas disconnect_ok = node_ports_ok [where i = 0 and ev = APX_PORT_DISCONNECTED_EVENT, unfolded add_0]

text \<open> C10:
  A node that joins with its ports on one side is matched by signature: each of its ports is connected to
  exactly the ports on the other side that are filed under its signature, in their order, each of these to
  exactly the joining ports of its signature, and no other port of the network notes anything; its ports are
  filed behind the ports already there, and the map and the change tables stay consistent.
\<close>

theorem joining_matches_signatures:
  assumes "env_documented E" and "changes_ok net" and "map_ok net" and "quiet net"
    and "joining net APX_PORT_CONNECTED_EVENT (ports_of_node net n side)"
  shows "\<exists>net'. connect_ports side E net n = (APX_NO_ERROR, net') \<and> changes_ok net' \<and> map_ok net' \<and> same_nodes net net' \<and>
    (\<forall>key s. filed net' key s = filed net key s @
       (if s = side then filter (\<lambda>p. key_of net p = key) (ports_of_node net n side) else [])) \<and>
    (\<forall>r. present net r \<longrightarrow> change_of net' r = grow APX_PORT_CONNECTED_EVENT Unchanged
       (if r \<in> set (ports_of_node net n side) then filed net (key_of net r) (opposite side)
        else filter (\<lambda>p. r \<in> set (filed net (key_of net p) (opposite side))) (ports_of_node net n side)))"
proof -
  have "partners net (ports_of_node net n side) r =
      (if r \<in> set (ports_of_node net n side) then filed net (key_of net r) (opposite side)
       else filter (\<lambda>p. r \<in> set (filed net (key_of net p) (opposite side))) (ports_of_node net n side))" for r
    by (auto simp: partners_def ports_of_node_def intro!: filter_cong)
  then show ?thesis
    using connect_ok [OF assms(1-3) assms(5) [unfolded ports_of_node_def] quiet_accepts [OF assms(4)]] assms(4)
    unfolding connect_ports_eq ports_of_node_def quiet_def by fastforce
qed

section \<open>Example\<close>

text \<open>Node 0 provides a port of four bytes, every other node requires it; nodes 1 and 2 have joined.\<close>

definition demo_key :: "byte list" where
  "demo_key = [34, 86, 34, 67]"

definition demo_provider :: apx_nodeInstance where
  "demo_provider = (apx_nodeInstance_create APX_SERVER_MODE (Some [80]))\<lparr>num_provide_ports := 1,
     provide_ports := [demo_port_of 0 APX_PROVIDE_PORT 0 0 4 demo_key], has_server := True\<rparr>"

definition demo_requester :: "nat \<Rightarrow> apx_nodeInstance" where
  "demo_requester n = (apx_nodeInstance_create APX_SERVER_MODE (Some [82]))\<lparr>num_require_ports := 1,
     require_ports := [demo_port_of n APX_REQUIRE_PORT 0 0 4 demo_key], has_server := True\<rparr>"

definition demo_net :: network where
  "demo_net = \<lparr>nodes = (\<lambda>n. if n = 0 then demo_provider else demo_requester n), managers = (\<lambda>m. demo_manager),
     handlers = (\<lambda>p. None),
     port_signature_map = [demo_key \<mapsto> \<lparr>preferred_provider = None,
       entry_require_ports = [PORT 1 APX_REQUIRE_PORT 0, PORT 2 APX_REQUIRE_PORT 0], entry_provide_ports = []\<rparr>],
     modified_nodes = []\<rparr>"

lemmas demo_defs = demo_net_def demo_provider_def demo_requester_def apx_nodeInstance_create_def demo_port_of_def demo_key_def

lemma demo_filed: "filed demo_net key side =
    (if key = demo_key \<and> side = APX_REQUIRE_PORT then [PORT 1 APX_REQUIRE_PORT 0, PORT 2 APX_REQUIRE_PORT 0] else [])"
  by (cases side) (simp_all add: filed_def demo_net_def)

lemma demo_has_key:
  "has_key demo_net (PORT 0 APX_PROVIDE_PORT 0) demo_key" "n \<noteq> 0 \<Longrightarrow> has_key demo_net (PORT n APX_REQUIRE_PORT 0) demo_key"
  by (simp_all add: has_key_def port_of_def apx_nodeInstance_get_provide_port_def apx_nodeInstance_get_require_port_def demo_defs)

lemma demo_net_ok:
  "changes_ok demo_net" "map_ok demo_net" "quiet demo_net" "\<And>m. has_server (nodes demo_net m)"
  "joining demo_net APX_PORT_CONNECTED_EVENT (ports_of_node demo_net 0 APX_PROVIDE_PORT)"
  "ports_of_node demo_net 0 APX_PROVIDE_PORT = [PORT 0 APX_PROVIDE_PORT 0]"
proof -
  show "changes_ok demo_net" by (simp add: changes_ok_def table_ok_def Let_def demo_defs)
  show "map_ok demo_net"
    using demo_has_key by (auto simp: map_ok_def demo_filed) (auto simp: demo_net_def apx_portSignatureMapEntry_is_empty_def split: if_splits)
  have "change_table_of demo_net r = None" for r
    by (cases "apx_portInstance_port_type r") (simp_all add: change_table_of_def demo_defs)
  then show "quiet demo_net" by (simp add: quiet_def change_of_def)
  show "has_server (nodes demo_net m)" for m by (simp add: demo_defs)
  show *: "ports_of_node demo_net 0 APX_PROVIDE_PORT = [PORT 0 APX_PROVIDE_PORT 0]"
    by (simp add: ports_of_node_def num_ports_of_def demo_defs)
  show "joining demo_net APX_PORT_CONNECTED_EVENT (ports_of_node demo_net 0 APX_PROVIDE_PORT)"
    using demo_has_key(1) by (simp add: * joining_def has_key_key demo_filed)
qed

theorem joining_matches_signatures_witness:
  "\<exists>net. apx_portSignatureMap_connect_provide_ports env_ref demo_net 0 = (APX_NO_ERROR, net) \<and>
    change_of net (PORT 0 APX_PROVIDE_PORT 0) = Connected [PORT 1 APX_REQUIRE_PORT 0, PORT 2 APX_REQUIRE_PORT 0] \<and>
    change_of net (PORT 2 APX_REQUIRE_PORT 0) = Connected [PORT 0 APX_PROVIDE_PORT 0] \<and>
    change_of net (PORT 3 APX_REQUIRE_PORT 0) = Unchanged \<and>
    filed net demo_key APX_PROVIDE_PORT = [PORT 0 APX_PROVIDE_PORT 0]"
proof -
  have "present demo_net (PORT 0 APX_PROVIDE_PORT 0)" "n \<noteq> 0 \<Longrightarrow> present demo_net (PORT n APX_REQUIRE_PORT 0)" for n
    using demo_has_key has_key_present by blast+
  moreover note joining_matches_signatures [OF env_ref_documented demo_net_ok(1-3,5)]
  ultimately show ?thesis
    by (auto simp: demo_net_ok(6) demo_filed has_key_key [OF demo_has_key(1)])
qed

section \<open>Clearing the changes\<close>

lemma clear_all:
  "nodes (foldl (\<lambda>net n. clear_node_changes n net) net ns) =
     (\<lambda>n. if n \<in> set ns then bare (nodes net n) else nodes net n)"
  "port_signature_map (foldl (\<lambda>net n. clear_node_changes n net) net ns) = port_signature_map net"
  "managers (foldl (\<lambda>net n. clear_node_changes n net) net ns) = managers net"
  "handlers (foldl (\<lambda>net n. clear_node_changes n net) net ns) = handlers net"
  by (induction ns arbitrary: net)
    (auto simp: clear_node_changes_def change_node_def bare_def apx_nodeInstance_clear_require_port_connector_changes_def
      apx_nodeInstance_clear_provide_port_connector_changes_def)

lemma bare_id: "provide_port_changes self = None \<Longrightarrow> require_port_changes self = None \<Longrightarrow> bare self = self"
  by (cases self) (simp add: bare_def)

lemma cleared:
  assumes "changes_ok net" and "\<And>n. has_server (nodes net n)"
  defines "net' \<equiv> apx_server_clear_port_connector_changes net"
  shows "nodes net' n = bare (nodes net n)" "port_signature_map net' = port_signature_map net" "same_nodes net net'"
    "changes_ok net'" "quiet net'"
proof -
  have "bare (nodes net n) = nodes net n" if "n \<notin> set (modified_nodes net)" for n
    by (rule bare_id) (use assms(1,2) that in \<open>auto simp: changes_ok_def Let_def\<close>)
  then show *: "nodes net' n = bare (nodes net n)" for n
    by (simp add: net'_def apx_server_clear_port_connector_changes_def clear_all)
  show "port_signature_map net' = port_signature_map net"
    by (simp add: net'_def apx_server_clear_port_connector_changes_def clear_all)
  show "same_nodes net net'"
    unfolding same_nodes_def using *
    by (simp add: net'_def apx_server_clear_port_connector_changes_def clear_all bare_def)
  show "changes_ok net'" using * by (simp add: changes_ok_def Let_def bare_def table_ok_def)
  have "change_table_of net' r = None" for r
    by (cases "apx_portInstance_port_type r") (simp_all add: change_table_of_def * bare_def)
  then show "quiet net'" by (simp add: quiet_def change_of_def)
qed

lemma map_ok_same: "map_ok net \<Longrightarrow> same_nodes net net' \<Longrightarrow> port_signature_map net' = port_signature_map net \<Longrightarrow> map_ok net'"
  by (simp add: map_ok_def filed_def same_nodes_ports)

text \<open>What the ports of a node that came and went leave behind in an entry: the last provide port stays preferred.\<close>

definition last_preferred :: "port_ptr list \<Rightarrow> apx_portSignatureMapEntry \<Rightarrow> apx_portSignatureMapEntry" where
  "last_preferred ps e =
     (case rev (filter (\<lambda>p. apx_portInstance_port_type p = APX_PROVIDE_PORT) ps) of
        [] \<Rightarrow> e | p # _ \<Rightarrow> e\<lparr>preferred_provider := Some p\<rparr>)"

lemma preferred_last:
  "foldl (prefer_port APX_PORT_DISCONNECTED_EVENT) old ps = old"
  "foldl (prefer_port APX_PORT_CONNECTED_EVENT) (preferred_provider e) ps = preferred_provider (last_preferred ps e)"
proof -
  show "foldl (prefer_port APX_PORT_DISCONNECTED_EVENT) old ps = old" by (induction ps) simp_all
  show "foldl (prefer_port APX_PORT_CONNECTED_EVENT) (preferred_provider e) ps = preferred_provider (last_preferred ps e)"
    by (induction ps rule: rev_induct) (simp_all add: last_preferred_def)
qed

lemma last_preferred_side [simp]: "entry_side side (last_preferred ps e) = entry_side side e"
  by (cases side) (simp_all add: last_preferred_def split: list.split)

lemma entry_by_parts:
  "(\<And>side. entry_side side e = entry_side side e') \<Longrightarrow> preferred_provider e = preferred_provider e' \<Longrightarrow> e = e'"
  by (metis apx_portSignatureMapEntry.equality entry_side.simps old.unit.exhaust)

text \<open> C23:
  What is left of a node that joins with its ports on one side and, the changes of joining done, leaves again. The
  ports filed under every signature are those from before, in order; the signature map has entries for the same
  signatures, and each is the entry from before except for its preferred provider: that is not reset, and under a signature
  that the node provides it stays the last of the node's provide ports of that signature, although the node is gone. On
  leaving, the ports note as disconnected what they were matched with.
\<close>

theorem leaving_undoes_joining:
  assumes "env_documented E" and "changes_ok net" and "map_ok net" and "quiet net" and "\<And>m. has_server (nodes net m)"
    and "joining net APX_PORT_CONNECTED_EVENT (ports_of_node net n side)"
  shows "\<exists>net1 net2. connect_ports side E net n = (APX_NO_ERROR, net1) \<and>
    disconnect_ports side E (apx_server_clear_port_connector_changes net1) n = (APX_NO_ERROR, net2) \<and>
    map_ok net2 \<and> changes_ok net2 \<and>
    (\<forall>key s. filed net2 key s = filed net key s) \<and>
    (\<forall>key. port_signature_map net2 key =
       map_option (last_preferred (filter (\<lambda>p. key_of net p = key) (ports_of_node net n side))) (port_signature_map net key)) \<and>
    (\<forall>r\<in>set (ports_of_node net n side). change_of net2 r =
       grow APX_PORT_DISCONNECTED_EVENT Unchanged (filed net (key_of net r) (opposite side)))"
proof -
  let ?ps = "ports_of_node net n side"
  have ports: "?ps = map (PORT n side) [0..<num_ports_of (nodes net n) side]" by (simp add: ports_of_node_def)
  obtain net1 where n1: "connect_ports side E net n = (APX_NO_ERROR, net1)" "changes_ok net1" "map_ok net1" "same_nodes net net1"
    "\<forall>key s. filed net1 key s = (if s = side then filed net key s @ filter (\<lambda>p. key_of net p = key) ?ps else filed net key s)"
    "\<forall>key. port_signature_map net1 key \<noteq> None \<longrightarrow>
       preferred net1 key = foldl (prefer_port APX_PORT_CONNECTED_EVENT) (preferred net key) (filter (\<lambda>p. key_of net p = key) ?ps)"
    using connect_ok [OF assms(1-3) assms(6) [unfolded ports] quiet_accepts [OF assms(4)]]
    unfolding connect_ports_eq ports by auto
  have server: "has_server (nodes net1 m)" for m
    using n1(4) assms(5) bare_fields(5) [of "nodes net1 m" "nodes net m"] by (simp add: same_nodes_def)
  let ?net = "apx_server_clear_port_connector_changes net1"
  note cl = cleared [OF n1(2) server]
  have same: "same_nodes net ?net" using same_nodes_trans n1(4) cl(3) by blast
  note keep = same_nodes_ports [OF same] key_of_same [OF same]
  have filed1: "filed ?net key s = filed net1 key s" for key s by (simp add: filed_def cl(2))
  have "joining ?net APX_PORT_DISCONNECTED_EVENT ?ps"
    using assms(6) n1(5) by (auto simp: joining_def keep filed1 ports_of_node_def)
  moreover have "num_ports_of (nodes ?net n) side = num_ports_of (nodes net n) side"
    using same by (intro bare_fields(6)) (simp add: same_nodes_def)
  ultimately obtain net2 where n2: "disconnect_ports side E ?net n = (APX_NO_ERROR, net2)" "changes_ok net2" "map_ok net2"
    "\<forall>key s. filed net2 key s = (if s = side then foldl (refiled APX_PORT_DISCONNECTED_EVENT) (filed ?net key s)
       (filter (\<lambda>p. key_of ?net p = key) ?ps) else filed ?net key s)"
    "\<forall>key. port_signature_map net2 key \<noteq> None \<longrightarrow> preferred net2 key = preferred ?net key"
    "\<forall>r. present ?net r \<longrightarrow> change_of net2 r = grow APX_PORT_DISCONNECTED_EVENT (change_of ?net r) (partners ?net ?ps r)"
    using disconnect_ok [OF assms(1) cl(4) map_ok_same [OF n1(3) cl(3,2)] _ quiet_accepts [OF cl(5)], of n side
        "num_ports_of (nodes net n) side"]
    unfolding disconnect_ports_eq ports preferred_last(1) by fastforce
  have restored: "filed net2 key s = filed net key s" for key s
  proof -
    have "distinct (filed net1 key side)" using n1(3) by (simp add: map_ok_def)
    then show ?thesis using n2(4) n1(5) foldl_taken_out by (auto simp: filed1 keep cong: filter_cong)
  qed
  moreover have "opposite side \<noteq> side" by (cases side) auto
  then have "partners ?net ?ps r = filed net (key_of net r) (opposite side)" if "r \<in> set ?ps" for r
    using that n1(5) by (auto simp: partners_def filed1 keep ports_of_node_def)
  moreover have "present ?net r" if "r \<in> set ?ps" for r
    unfolding keep(3) using that by (auto simp: ports_of_node_def present_def)
  then have "change_of ?net r = Unchanged" "present ?net r" if "r \<in> set ?ps" for r using that cl(5) by (auto simp: quiet_def)
  ultimately have noted: "change_of net2 r = grow APX_PORT_DISCONNECTED_EVENT Unchanged (filed net (key_of net r) (opposite side))"
    if "r \<in> set ?ps" for r using that n2(6) by simp
  have entries: "port_signature_map net2 key =
      map_option (last_preferred (filter (\<lambda>p. key_of net p = key) ?ps)) (port_signature_map net key)" for key
  proof (cases "port_signature_map net key")
    case None
    then have "port_signature_map net2 key = None"
      using entry_iff_filed [OF n2(3), of key] entry_iff_filed [OF assms(3), of key] restored by simp
    with None show ?thesis by simp
  next
    case (Some e)
    then obtain e2 where e2: "port_signature_map net2 key = Some e2"
      using entry_iff_filed [OF n2(3), of key] entry_iff_filed [OF assms(3), of key] restored by auto
    then have "\<exists>s. filed net key s \<noteq> []" using entry_iff_filed [OF n2(3), of key] restored by auto
    then have "port_signature_map net1 key \<noteq> None" using entry_iff_filed [OF n1(3), of key] n1(5) by auto
    with n1(6) have "preferred net1 key = preferred_provider (last_preferred (filter (\<lambda>p. key_of net p = key) ?ps) e)"
      using Some by (simp only: preferred_last(2) [symmetric]) (simp add: preferred_def)
    moreover have "preferred_provider e2 = preferred net1 key"
      using n2(5) [rule_format, of key] e2 by (simp add: preferred_def cl(2))
    ultimately have "preferred_provider e2 = preferred_provider (last_preferred (filter (\<lambda>p. key_of net p = key) ?ps) e)" by simp
    moreover have "entry_side s e2 = entry_side s e" for s using restored [of key s] e2 Some by (simp add: filed_def)
    ultimately show ?thesis using Some e2 entry_by_parts [of e2] by simp
  qed
  show ?thesis
    by (intro exI [of _ net1] exI [of _ net2] conjI n1(1) n2(1,2,3) allI ballI restored entries noted)
qed

theorem leaving_undoes_joining_witness:
  "\<exists>net1 net2. apx_portSignatureMap_connect_provide_ports env_ref demo_net 0 = (APX_NO_ERROR, net1) \<and>
    apx_portSignatureMap_disconnect_provide_ports env_ref (apx_server_clear_port_connector_changes net1) 0 = (APX_NO_ERROR, net2) \<and>
    filed net2 demo_key APX_PROVIDE_PORT = [] \<and> preferred net2 demo_key = Some (PORT 0 APX_PROVIDE_PORT 0) \<and>
    change_of net2 (PORT 0 APX_PROVIDE_PORT 0) = Disconnected [PORT 1 APX_REQUIRE_PORT 0, PORT 2 APX_REQUIRE_PORT 0]"
proof -
  have "port_signature_map demo_net demo_key \<noteq> None" by (simp add: demo_net_def)
  with leaving_undoes_joining [OF env_ref_documented demo_net_ok(1-5)] show ?thesis
    by (auto simp: demo_net_ok(6) demo_filed has_key_key [OF demo_has_key(1)] preferred_def last_preferred_def)
qed

end
