(* ===== verification/Routing.thy ===== *)
theory Routing
  imports Matching
begin

text \<open>
  Port data on their way through the server: the functions of apx/src/node_instance.c that connect two
  ports, copy data from a provide port to require ports and on to the files of their nodes, what
  apx/src/server.c does with the change tables of a node that joined, and what
  apx/src/server_connection.c does when a connection and its nodes go.

  The ring buffer of the commands is the parameter \<open>R\<close>. A client's node reports the ports that a write
  touched to its node manager; the model returns these reports. The array of references to change tables
  is taken to grow when memory is there.
\<close>

section \<open>Data to a file\<close>

definition remote_route_data_to_file ::
  "server_env \<Rightarrow> ring_insert \<Rightarrow> network \<Rightarrow> file_ptr \<Rightarrow> u32 \<Rightarrow> byte list \<Rightarrow> u32 \<Rightarrow> apx_error \<times> network" where
  "remote_route_data_to_file E R net file offset data n =
     (case the_file (fm_shared (managers net (fst file))) (snd file) of
        None \<Rightarrow> (FAULT USE_AFTER_FREE, net)
      | Some f \<Rightarrow>
          if \<not> is_file_open f then (APX_FILE_NOT_OPEN_ERROR, net)
          else if \<not> env_mem E then (APX_MEM_ERROR, net)
          else
            (case mem_read 0 (unat n) data of
               None \<Rightarrow> (FAULT OUT_OF_BOUNDS, net)
             | Some allocated_buffer \<Rightarrow>
                 (case apx_fileManager_send_local_data R (managers net (fst file))
                         (apx_file_get_address_without_flags f + offset) allocated_buffer n of
                    (e, manager) \<Rightarrow> (e, net\<lparr>managers := (managers net)(fst file := manager)\<rparr>))))"

text \<open>What a write to the data of a node does, when there is no data: the functions refuse a null pointer.\<close>

definition write_node_data ::
  "(apx_nodeData \<Rightarrow> u32 \<Rightarrow> byte list \<Rightarrow> u32 \<Rightarrow> apx_error \<times> apx_nodeData) \<Rightarrow> network \<Rightarrow> nat \<Rightarrow> u32 \<Rightarrow> byte list \<Rightarrow> u32 \<Rightarrow>
     apx_error \<times> network" where
  "write_node_data f net n offset data k =
     (case node_data (nodes net n) of
        None \<Rightarrow> (APX_INVALID_ARGUMENT_ERROR, net)
      | Some nd \<Rightarrow> (case f nd offset data k of
          (e, nd) \<Rightarrow> (e, change_node n (\<lambda>self. self\<lparr>node_data := Some nd\<rparr>) net)))"

definition remote_route_require_port_data ::
  "server_env \<Rightarrow> ring_insert \<Rightarrow> network \<Rightarrow> nat \<Rightarrow> u32 \<Rightarrow> byte list \<Rightarrow> u32 \<Rightarrow> apx_error \<times> network" where
  "remote_route_require_port_data E R net n offset data k =
     andThen (write_node_data apx_nodeData_write_require_port_data net n offset data k) (\<lambda>net.
       case require_port_data_file (nodes net n) of
         None \<Rightarrow> (APX_NO_ERROR, net)
       | Some file \<Rightarrow> remote_route_data_to_file E R net file offset data k)"

definition remote_route_provide_port_data ::
  "server_env \<Rightarrow> ring_insert \<Rightarrow> network \<Rightarrow> nat \<Rightarrow> u32 \<Rightarrow> byte list \<Rightarrow> u32 \<Rightarrow> apx_error \<times> network" where
  "remote_route_provide_port_data E R net n offset data k =
     andThen (write_node_data apx_nodeData_write_provide_port_data net n offset data k) (\<lambda>net.
       case provide_port_data_file (nodes net n) of
         None \<Rightarrow> (APX_NO_ERROR, net)
       | Some file \<Rightarrow> remote_route_data_to_file E R net file offset data k)"

definition apx_nodeInstance_write_provide_port_data ::
  "server_env \<Rightarrow> ring_insert \<Rightarrow> network \<Rightarrow> nat \<Rightarrow> u32 \<Rightarrow> byte list \<Rightarrow> u32 \<Rightarrow> apx_error \<times> network" where
  "apx_nodeInstance_write_provide_port_data E R net n offset data k = remote_route_provide_port_data E R net n offset data k"

section \<open>Data from port to port\<close>

abbreviation (input) STACK_DATA_BUF_SIZE :: nat where "STACK_DATA_BUF_SIZE \<equiv> 256"

text \<open>
  The buffer is on the stack or, for long data, on the heap; its bytes are all overwritten when the
  read succeeds. A pointer to a port that is not there any more cannot be followed.
\<close>

definition route_provide_port_data_to_require_port ::
  "server_env \<Rightarrow> ring_insert \<Rightarrow> network \<Rightarrow> port_ptr \<Rightarrow> port_ptr \<Rightarrow> bool \<Rightarrow> apx_error \<times> network" where
  "route_provide_port_data_to_require_port E R net p r do_remote_routing =
     (case (port_of net p, port_of net r) of
        (Some provide_port, Some require_port) \<Rightarrow>
          if pi_queue_length provide_port = 0 then
            (let n = pi_data_size provide_port in
             if n = pi_data_size require_port then
               (let use_heap_data = unat n > STACK_DATA_BUF_SIZE;
                    buffer = replicate (if use_heap_data then unat n else STACK_DATA_BUF_SIZE) 0 in
                if use_heap_data \<and> \<not> env_mem E then (APX_MEM_ERROR, net)
                else
                  (case (node_data (nodes net (apx_portInstance_parent p)), node_data (nodes net (apx_portInstance_parent r))) of
                     (Some nd, Some _) \<Rightarrow>
                       (case apx_nodeData_read_provide_port_data nd (pi_data_offset provide_port) buffer n of
                          (retval, buffer) \<Rightarrow>
                            if retval \<noteq> APX_NO_ERROR then (retval, net)
                            else if do_remote_routing
                            then remote_route_require_port_data E R net (apx_portInstance_parent r) (pi_data_offset require_port) buffer n
                            else write_node_data apx_nodeData_write_require_port_data net (apx_portInstance_parent r)
                                   (pi_data_offset require_port) buffer n)
                   | _ \<Rightarrow> (FAULT ASSERT_FAILURE, net)))
             else (APX_VALUE_LENGTH_ERROR, net))
          else (APX_NOT_IMPLEMENTED_ERROR, net)
      | _ \<Rightarrow> (FAULT USE_AFTER_FREE, net))"

text \<open>A require port in the connector list of a provide port. A null table is \<open>no_table\<close>.\<close>

definition insert_connector ::
  "server_env \<Rightarrow> apx_error \<Rightarrow> network \<Rightarrow> port_ptr \<Rightarrow> port_ptr \<Rightarrow> apx_error \<times> network" where
  "insert_connector E no_table net p r =
     (let n = apx_portInstance_parent p; i = apx_portInstance_port_id p in
      if i < num_provide_ports (nodes net n) then
        (case connector_table (nodes net n) of
           None \<Rightarrow> (no_table, net)
         | Some table \<Rightarrow>
             if i < length table then
               (case apx_portConnectorList_insert (env_arrays E) (table ! i) r of
                  (e, connectors) \<Rightarrow>
                    (e, change_node n (\<lambda>self. self\<lparr>connector_table := Some (table[i := connectors])\<rparr>) net))
             else (FAULT OUT_OF_BOUNDS, net))
      else (FAULT ASSERT_FAILURE, net))"

definition apx_nodeInstance_handle_require_port_connected_to_provide_port ::
  "server_env \<Rightarrow> ring_insert \<Rightarrow> network \<Rightarrow> port_ptr \<Rightarrow> port_ptr \<Rightarrow> apx_error \<times> network" where
  "apx_nodeInstance_handle_require_port_connected_to_provide_port E R net require_port provide_port =
     andThen (insert_connector E APX_NULL_PTR_ERROR net provide_port require_port) (\<lambda>net.
       route_provide_port_data_to_require_port E R net provide_port require_port False)"

definition apx_nodeInstance_handle_provide_port_connected_to_require_port ::
  "server_env \<Rightarrow> ring_insert \<Rightarrow> network \<Rightarrow> port_ptr \<Rightarrow> port_ptr \<Rightarrow> apx_error \<times> network" where
  "apx_nodeInstance_handle_provide_port_connected_to_require_port E R net provide_port require_port =
     andThen (insert_connector E (FAULT ASSERT_FAILURE) net provide_port require_port) (\<lambda>net.
       route_provide_port_data_to_require_port E R net provide_port require_port True)"

section \<open>A node that joined\<close>

text \<open>
  The loops over a change table, from port \<open>i\<close> on. The pointers in an entry are read from its union; an
  entry that announces one port and holds none fails the assertion.
\<close>

fun require_changes ::
  "server_env \<Rightarrow> ring_insert \<Rightarrow> nat \<Rightarrow> nat \<Rightarrow> change_table \<Rightarrow> network \<Rightarrow> apx_error \<times> network" where
  "require_changes E R n i [] net = (APX_NO_ERROR, net)"
| "require_changes E R n i (entry # entries) net =
     andThen
       (if changes entry > 0 then
          (if changes entry = 1 then
             (case change_data entry of
                PORT_INSTANCE (Some provide_port) \<Rightarrow>
                  apx_nodeInstance_handle_require_port_connected_to_provide_port E R net (PORT n APX_REQUIRE_PORT i) provide_port
              | PORT_INSTANCE None \<Rightarrow> (FAULT ASSERT_FAILURE, net)
              | ARRAY ps \<Rightarrow> (FAULT OUT_OF_BOUNDS, net))
           else (APX_NOT_IMPLEMENTED_ERROR, net))
        else (APX_NO_ERROR, net))
       (require_changes E R n (Suc i) entries)"

definition apx_server_process_require_port_connector_changes ::
  "server_env \<Rightarrow> ring_insert \<Rightarrow> network \<Rightarrow> nat \<Rightarrow> change_table \<Rightarrow> apx_error \<times> network" where
  "apx_server_process_require_port_connector_changes E R net n connector_changes =
     (if length connector_changes = num_require_ports (nodes net n)
      then require_changes E R n 0 connector_changes net else (FAULT ASSERT_FAILURE, net))"

fun connect_to_all ::
  "server_env \<Rightarrow> ring_insert \<Rightarrow> port_ptr \<Rightarrow> port_ptr list \<Rightarrow> network \<Rightarrow> apx_error \<times> network" where
  "connect_to_all E R p [] net = (APX_NO_ERROR, net)"
| "connect_to_all E R p (r # rs) net =
     andThen (apx_nodeInstance_handle_provide_port_connected_to_require_port E R net p r) (connect_to_all E R p rs)"

fun provide_changes ::
  "server_env \<Rightarrow> ring_insert \<Rightarrow> nat \<Rightarrow> nat \<Rightarrow> change_table \<Rightarrow> network \<Rightarrow> apx_error \<times> network" where
  "provide_changes E R n i [] net = (APX_NO_ERROR, net)"
| "provide_changes E R n i (entry # entries) net =
     andThen
       (if changes entry > 0 then
          (if changes entry = 1 then
             (case change_data entry of
                PORT_INSTANCE (Some require_port) \<Rightarrow>
                  apx_nodeInstance_handle_provide_port_connected_to_require_port E R net (PORT n APX_PROVIDE_PORT i) require_port
              | PORT_INSTANCE None \<Rightarrow> (FAULT ASSERT_FAILURE, net)
              | ARRAY ps \<Rightarrow> (FAULT OUT_OF_BOUNDS, net))
           else
             (case change_data entry of
                ARRAY ps \<Rightarrow>
                  andThen (connect_to_all E R (PORT n APX_PROVIDE_PORT i) (take (nat (changes entry)) ps) net) (\<lambda>net.
                    c_assert (nat (changes entry) \<le> length ps) (APX_NO_ERROR, net) net)
              | PORT_INSTANCE q \<Rightarrow> (FAULT OUT_OF_BOUNDS, net)))
        else (APX_NO_ERROR, net))
       (provide_changes E R n (Suc i) entries)"

definition apx_server_process_provide_port_connector_changes ::
  "server_env \<Rightarrow> ring_insert \<Rightarrow> network \<Rightarrow> nat \<Rightarrow> change_table \<Rightarrow> apx_error \<times> network" where
  "apx_server_process_provide_port_connector_changes E R net n connector_changes =
     (if length connector_changes = num_provide_ports (nodes net n)
      then provide_changes E R n 0 connector_changes net else (FAULT ASSERT_FAILURE, net))"

definition apx_server_connect_node_instance_provide_ports :: "server_env \<Rightarrow> network \<Rightarrow> nat \<Rightarrow> apx_error \<times> network" where
  "apx_server_connect_node_instance_provide_ports E net n = apx_portSignatureMap_connect_provide_ports E net n"

definition apx_server_connect_node_instance_require_ports :: "server_env \<Rightarrow> network \<Rightarrow> nat \<Rightarrow> apx_error \<times> network" where
  "apx_server_connect_node_instance_require_ports E net n = apx_portSignatureMap_connect_require_ports E net n"

definition apx_server_disconnect_node_instance_provide_ports :: "server_env \<Rightarrow> network \<Rightarrow> nat \<Rightarrow> apx_error \<times> network" where
  "apx_server_disconnect_node_instance_provide_ports E net n = apx_portSignatureMap_disconnect_provide_ports E net n"

definition apx_server_disconnect_node_instance_require_ports :: "server_env \<Rightarrow> network \<Rightarrow> nat \<Rightarrow> apx_error \<times> network" where
  "apx_server_disconnect_node_instance_require_ports E net n = apx_portSignatureMap_disconnect_require_ports E net n"

text \<open>The tables are cleared whatever the connecting returned.\<close>

definition connect_require_ports_to_server ::
  "server_env \<Rightarrow> ring_insert \<Rightarrow> network \<Rightarrow> nat \<Rightarrow> apx_error \<times> network" where
  "connect_require_ports_to_server E R net n =
     (if \<not> has_server (nodes net n) then (FAULT ASSERT_FAILURE, net)
      else
        (case andThen (apx_server_connect_node_instance_require_ports E net n) (\<lambda>net.
             case apx_nodeInstance_get_require_port_connector_changes E net n False of
               (None, net) \<Rightarrow> (APX_NO_ERROR, net)
             | (Some table, net) \<Rightarrow> apx_server_process_require_port_connector_changes E R net n table) of
           (retval, net) \<Rightarrow>
             if is_fault retval then (retval, net)
             else (retval, apx_server_clear_port_connector_changes net)))"

section \<open>Changed data\<close>

text \<open>The result of the last receiver is the result of the loop.\<close>

fun route_to_all ::
  "server_env \<Rightarrow> ring_insert \<Rightarrow> apx_portInstance \<Rightarrow> port_ptr list \<Rightarrow> byte list \<Rightarrow> apx_error \<Rightarrow> network \<Rightarrow> apx_error \<times> network" where
  "route_to_all E R provide_port [] data retval net = (retval, net)"
| "route_to_all E R provide_port (r # rs) data retval net =
     (case port_of net r of
        None \<Rightarrow> (FAULT USE_AFTER_FREE, net)
      | Some require_port \<Rightarrow>
          if pi_queue_length provide_port = 0 then
            (if pi_data_size provide_port \<noteq> pi_data_size require_port
             then route_to_all E R provide_port rs data APX_VALUE_LENGTH_ERROR net
             else
               (case remote_route_require_port_data E R net (apx_portInstance_parent r) (pi_data_offset require_port) data
                       (pi_data_size provide_port) of
                  (retval, net) \<Rightarrow>
                    if is_fault retval then (retval, net) else route_to_all E R provide_port rs data retval net))
          else route_to_all E R provide_port rs data APX_NOT_IMPLEMENTED_ERROR net)"

text \<open>
  The loop over the ports in the range of a write. An identifier in the map that is no port's leaves the offset
  where it is: the loop does not end, and the function has no value.
\<close>

partial_function (option) route_loop ::
  "server_env \<Rightarrow> ring_insert \<Rightarrow> nat \<Rightarrow> u32 \<Rightarrow> u32 \<Rightarrow> byte list \<Rightarrow> apx_error \<Rightarrow> network \<Rightarrow> (apx_error \<times> network) option" where
  "route_loop E R n offset end_offset data retval net =
     (if offset < end_offset then
        (case apx_bytePortMap_lookup (byte_port_map (nodes net n)) offset of
           None \<Rightarrow> Some (FAULT OUT_OF_BOUNDS, net)
         | Some port_id \<Rightarrow>
             if port_id = APX_INVALID_PORT_ID then Some (APX_INVALID_WRITE_ERROR, net)
             else if \<not> unat port_id < num_provide_ports (nodes net n)
             then route_loop E R n offset end_offset data APX_INTERNAL_ERROR net
             else
               (case apx_nodeInstance_get_provide_port (nodes net n) (unat port_id) of
                  None \<Rightarrow> Some (FAULT OUT_OF_BOUNDS, net)
                | Some provide_port \<Rightarrow>
                    if pi_data_size provide_port = 0 then Some (FAULT ASSERT_FAILURE, net)
                    else
                      (case connector_table (nodes net n) of
                         None \<Rightarrow> Some (FAULT ASSERT_FAILURE, net)
                       | Some table \<Rightarrow>
                           if \<not> unat port_id < length table then Some (FAULT OUT_OF_BOUNDS, net)
                           else
                             (case route_to_all E R provide_port (table ! unat port_id) data retval net of
                                (retval, net) \<Rightarrow>
                                  if is_fault retval then Some (retval, net)
                                  else route_loop E R n (offset + pi_data_size provide_port) end_offset
                                         (drop (unat (pi_data_size provide_port)) data) retval net))))
      else Some (retval, net))"

definition route_provide_port_data_change_to_receivers ::
  "server_env \<Rightarrow> ring_insert \<Rightarrow> network \<Rightarrow> nat \<Rightarrow> u32 \<Rightarrow> byte list \<Rightarrow> u32 \<Rightarrow> (apx_error \<times> network) option" where
  "route_provide_port_data_change_to_receivers E R net n offset data k =
     (if connector_table (nodes net n) = None \<or> byte_port_map (nodes net n) = None then Some (FAULT ASSERT_FAILURE, net)
      else route_loop E R n offset (offset + k) data APX_NO_ERROR net)"

end
