(* ===== verification/NodeFiles.thy ===== *)
theory NodeFiles
  imports Routing
begin

text \<open>
  The files of a node and the states of its data: the rest of apx/src/node_instance.c (publishing the
  files, opening those of the peer, what an opened file is sent and what a write to a file does) with the
  notifications of apx/src/file.c that lead there, and the end of a connection in
  apx/src/server_connection.c.

  The node manager that builds a node from its definition is the parameter \<open>on_definition\<close>, the function
  called through the pointer to the parent of the node. Of the libraries, SHA-256 and two functions on
  strings are parameters, as are the memory of a file description and of new files.
\<close>

section \<open>File descriptions\<close>

record file_env =
  fe_text :: text_lib
  fe_sha256 :: "byte list \<Rightarrow> byte list"
  fe_new_cstr :: "byte list option \<Rightarrow> byte list option"
  fe_append_cstr :: "byte list \<Rightarrow> byte list \<Rightarrow> adt_error \<times> byte list"
  fe_info :: rmf_fileInfo

text \<open>
  The name of a file, built in a buffer of 256 bytes with \<open>strcpy\<close> and \<open>strcat\<close>: with its
  terminator it must fit.
\<close>

definition file_name :: "apx_nodeInstance \<Rightarrow> byte list \<Rightarrow> fault + byte list" where
  "file_name self ext =
     (case node_name self of
        None \<Rightarrow> Inl NULL_ACCESS
      | Some name \<Rightarrow> if length name + length ext + 1 \<le> 256 then Inr (name @ ext) else Inl OUT_OF_BOUNDS)"

definition create_definition_file_info :: "file_env \<Rightarrow> apx_nodeInstance \<Rightarrow> apx_error \<times> rmf_fileInfo" where
  "create_definition_file_info F self =
     (case node_data self of
        None \<Rightarrow> (FAULT ASSERT_FAILURE, fe_info F)
      | Some nd \<Rightarrow>
          (case file_name self APX_DEFINITION_FILE_EXT of
             Inl f \<Rightarrow> (FAULT f, fe_info F)
           | Inr name \<Rightarrow>
               (case mem_read 0 (unat (definition_data_size nd)) (the_default [] (definition_data nd)) of
                  None \<Rightarrow> (FAULT OUT_OF_BOUNDS, fe_info F)
                | Some bytes \<Rightarrow>
                    rmf_fileInfo_create (fe_text F) (fe_info F) RMF_INVALID_ADDRESS (definition_data_size nd) (Some name)
                      RMF_FILE_TYPE_FIXED RMF_DIGEST_TYPE_SHA256 (Some (fe_sha256 F bytes)))))"

definition create_provide_port_data_file_info :: "file_env \<Rightarrow> apx_nodeInstance \<Rightarrow> apx_error \<times> rmf_fileInfo" where
  "create_provide_port_data_file_info F self =
     (if provide_port_init_data_size self > 0 then
        (case file_name self APX_PROVIDE_PORT_DATA_EXT of
           Inl f \<Rightarrow> (FAULT f, fe_info F)
         | Inr name \<Rightarrow>
             rmf_fileInfo_create (fe_text F) (fe_info F) RMF_INVALID_ADDRESS (provide_port_init_data_size self) (Some name)
               RMF_FILE_TYPE_FIXED RMF_DIGEST_TYPE_NONE None)
      else (FAULT ASSERT_FAILURE, fe_info F))"

definition create_require_port_data_file_info :: "file_env \<Rightarrow> apx_nodeInstance \<Rightarrow> apx_error \<times> rmf_fileInfo" where
  "create_require_port_data_file_info F self =
     (if require_port_init_data_size self > 0 then
        (case file_name self APX_REQUIRE_PORT_DATA_EXT of
           Inl f \<Rightarrow> (FAULT f, fe_info F)
         | Inr name \<Rightarrow>
             rmf_fileInfo_create (fe_text F) (fe_info F) RMF_INVALID_ADDRESS (require_port_init_data_size self) (Some name)
               RMF_FILE_TYPE_FIXED RMF_DIGEST_TYPE_NONE None)
      else (FAULT ASSERT_FAILURE, fe_info F))"

section \<open>Files\<close>

definition set_file_notification_handler :: "network \<Rightarrow> nat \<Rightarrow> file_ptr \<Rightarrow> network" where
  "set_file_notification_handler net n file = net\<lparr>handlers := (handlers net)(file := Some n)\<rparr>"

definition set_manager :: "network \<Rightarrow> nat \<Rightarrow> apx_fileManager \<Rightarrow> network" where
  "set_manager net m manager = net\<lparr>managers := (managers net)(m := manager)\<rparr>"

definition file_at :: "network \<Rightarrow> file_ptr \<Rightarrow> apx_file option" where
  "file_at net file = the_file (fm_shared (managers net (fst file))) (snd file)"

definition open_file :: "network \<Rightarrow> file_ptr \<Rightarrow> network" where
  "open_file net file =
     (let manager = managers net (fst file) in
      set_manager net (fst file) (manager\<lparr>fm_shared := change_file (snd file) apx_file_open (fm_shared manager)\<rparr>))"

definition apx_nodeInstance_set_require_port_data_state :: "network \<Rightarrow> nat \<Rightarrow> apx_dataState \<Rightarrow> network" where
  "apx_nodeInstance_set_require_port_data_state net n state = change_node n (\<lambda>self. self\<lparr>require_port_data_state := state\<rparr>) net"

definition apx_nodeInstance_set_provide_port_data_state :: "network \<Rightarrow> nat \<Rightarrow> apx_dataState \<Rightarrow> network" where
  "apx_nodeInstance_set_provide_port_data_state net n state = change_node n (\<lambda>self. self\<lparr>provide_port_data_state := state\<rparr>) net"

definition apx_nodeInstance_set_definition_data_state :: "network \<Rightarrow> nat \<Rightarrow> apx_dataState \<Rightarrow> network" where
  "apx_nodeInstance_set_definition_data_state net n state = change_node n (\<lambda>self. self\<lparr>definition_data_state := state\<rparr>) net"

text \<open>A local file for a description; \<open>memory\<close> is the memory of the file. \<open>None\<close> if the manager does not return.\<close>

definition create_local_file ::
  "file_env \<Rightarrow> (nat \<times> apx_file) option \<Rightarrow> network \<Rightarrow> nat \<Rightarrow> rmf_fileInfo \<Rightarrow> (apx_error \<times> file_ptr option \<times> network) option" where
  "create_local_file F memory net m info =
     map_option (\<lambda>(e, file, manager). (e, map_option (Pair m) file, set_manager net m manager))
       (apx_fileManager_create_local_file (fe_text F) memory (managers net m) info)"

definition request_remote_provide_port_data ::
  "ring_insert \<Rightarrow> network \<Rightarrow> nat \<Rightarrow> file_ptr \<Rightarrow> apx_error \<times> network" where
  "request_remote_provide_port_data R net n file =
     (case file_at net file of
        None \<Rightarrow> (FAULT USE_AFTER_FREE, net)
      | Some f \<Rightarrow>
          let net = open_file (apx_nodeInstance_set_provide_port_data_state net n APX_DATA_STATE_WAITING_FOR_FILE_DATA) file in
          (case apx_fileManager_send_open_file_request R (managers net (fst file)) (apx_file_get_address_without_flags f) of
             (e, manager) \<Rightarrow> (e, set_manager net (fst file) manager)))"

definition request_remote_require_port_data ::
  "ring_insert \<Rightarrow> network \<Rightarrow> nat \<Rightarrow> file_ptr \<Rightarrow> apx_error \<times> network" where
  "request_remote_require_port_data R net n file =
     (case file_at net file of
        None \<Rightarrow> (FAULT USE_AFTER_FREE, net)
      | Some f \<Rightarrow>
          if require_port_data_state (nodes net n) \<noteq> APX_DATA_STATE_WAITING_FILE_INFO then (FAULT ASSERT_FAILURE, net)
          else
            let net = open_file (apx_nodeInstance_set_require_port_data_state net n APX_DATA_STATE_WAITING_FOR_FILE_DATA) file in
            (case apx_fileManager_send_open_file_request R (managers net (fst file)) (apx_file_get_address_without_flags f) of
               (e, manager) \<Rightarrow> (e, set_manager net (fst file) manager)))"

definition apx_nodeInstance_remote_file_published_notification ::
  "ring_insert \<Rightarrow> network \<Rightarrow> nat \<Rightarrow> file_ptr \<Rightarrow> apx_error \<times> network" where
  "apx_nodeInstance_remote_file_published_notification R net n file =
     (case file_at net file of
        None \<Rightarrow> (FAULT USE_AFTER_FREE, net)
      | Some f \<Rightarrow>
          if apx_file_type f = APX_DEFINITION_FILE_TYPE then (APX_NO_ERROR, set_file_notification_handler net n file)
          else if apx_file_type f = APX_REQUIRE_PORT_DATA_FILE_TYPE
          then request_remote_require_port_data R (set_file_notification_handler net n file) n file
          else (APX_NOT_IMPLEMENTED_ERROR, net))"

text \<open>Publishing the files of a client's node. The memory of the two files comes in order.\<close>

definition apx_nodeInstance_attach_to_file_manager_client_mode ::
  "file_env \<Rightarrow> (nat \<times> apx_file) option \<Rightarrow> (nat \<times> apx_file) option \<Rightarrow> network \<Rightarrow> nat \<Rightarrow> nat \<Rightarrow> (apx_error \<times> network) option" where
  "apx_nodeInstance_attach_to_file_manager_client_mode F memory1 memory2 net n m =
     (let definition = (\<lambda>net.
            let net = (if apx_nodeInstance_has_require_port_data (nodes net n)
                       then apx_nodeInstance_set_require_port_data_state net n APX_DATA_STATE_WAITING_FILE_INFO else net) in
            (case create_definition_file_info F (nodes net n) of
               (result, info) \<Rightarrow>
                 if result \<noteq> APX_NO_ERROR then Some (result, net)
                 else
                   (case create_local_file F memory2 net m info of
                      None \<Rightarrow> None
                    | Some (e, None, net) \<Rightarrow> Some (if is_fault e then e else APX_FILE_CREATE_ERROR, net)
                    | Some (e, Some file, net) \<Rightarrow>
                        Some (if is_fault e then e else APX_NO_ERROR, set_file_notification_handler net n file))))
      in
      if apx_nodeInstance_has_provide_port_data (nodes net n) then
        (let net = apx_nodeInstance_set_provide_port_data_state net n APX_DATA_STATE_WAITING_FOR_FILE_OPEN_REQUEST in
         (case create_provide_port_data_file_info F (nodes net n) of
            (result, info) \<Rightarrow>
              if result \<noteq> APX_NO_ERROR then Some (result, net)
              else
                (case create_local_file F memory1 net m info of
                   None \<Rightarrow> None
                 | Some (e, file, net) \<Rightarrow>
                     if is_fault e then Some (e, net)
                     else
                       let net = change_node n (\<lambda>self. self\<lparr>provide_port_data_file := file\<rparr>) net in
                       (case file of
                          None \<Rightarrow> Some (APX_FILE_CREATE_ERROR, net)
                        | Some file \<Rightarrow> definition (set_file_notification_handler net n file)))))
      else definition net)"

text \<open>An error is reported to the peer, which does nothing.\<close>

definition search_for_remote_provide_port_data_file ::
  "file_env \<Rightarrow> ring_insert \<Rightarrow> network \<Rightarrow> nat \<Rightarrow> nat \<Rightarrow> apx_error \<times> network" where
  "search_for_remote_provide_port_data_file F R net n m =
     (case fe_new_cstr F (node_name (nodes net n)) of
        None \<Rightarrow> (APX_NO_ERROR, net)
      | Some str \<Rightarrow>
          (case fe_append_cstr F str APX_PROVIDE_PORT_DATA_EXT of
             (rc, str) \<Rightarrow>
               if rc \<noteq> ADT_NO_ERROR then (convert_from_adt_to_apx_error rc, net)
               else
                 (case apx_fileManager_find_remote_file_by_name (fe_text F) (managers net m) (str_cstr (fe_text F) str) of
                    (e, found, manager) \<Rightarrow>
                      let net = set_manager net m manager in
                      if is_fault e then (e, net)
                      else
                        (case found of
                           None \<Rightarrow> (APX_NO_ERROR, net)
                         | Some p \<Rightarrow>
                             request_remote_provide_port_data R (set_file_notification_handler net n (m, p)) n (m, p)))))"

text \<open>
  The result of the search is overwritten when the node has require ports. \<open>memory2\<close> is the memory for the
  description that is queued.
\<close>

definition apx_nodeInstance_attach_to_file_manager_server_mode ::
  "file_env \<Rightarrow> ring_insert \<Rightarrow> (nat \<times> apx_file) option \<Rightarrow> rmf_fileInfo option \<Rightarrow> network \<Rightarrow> nat \<Rightarrow> nat \<Rightarrow>
     (apx_error \<times> network) option" where
  "apx_nodeInstance_attach_to_file_manager_server_mode F R memory1 memory2 net n m =
     (case (if apx_nodeInstance_has_provide_port_data (nodes net n)
            then search_for_remote_provide_port_data_file F R
                   (apx_nodeInstance_set_provide_port_data_state net n APX_DATA_STATE_WAITING_FILE_INFO) n m
            else (APX_NO_ERROR, net)) of
        (retval, net) \<Rightarrow>
          if is_fault retval then Some (retval, net)
          else if apx_nodeInstance_has_require_port_data (nodes net n) then
            (let net = apx_nodeInstance_set_require_port_data_state net n APX_DATA_STATE_WAITING_FOR_FILE_OPEN_REQUEST in
             (case create_require_port_data_file_info F (nodes net n) of
                (retval, info) \<Rightarrow>
                  if retval \<noteq> APX_NO_ERROR then Some (retval, net)
                  else
                    (case create_local_file F memory1 net m info of
                       None \<Rightarrow> None
                     | Some (e, file, net) \<Rightarrow>
                         if is_fault e then Some (e, net)
                         else
                           let net = change_node n (\<lambda>self. self\<lparr>require_port_data_file := file\<rparr>) net in
                           (case file of
                              None \<Rightarrow> Some (APX_FILE_CREATE_ERROR, net)
                            | Some file \<Rightarrow>
                                (case file_at net file of
                                   None \<Rightarrow> Some (FAULT USE_AFTER_FREE, net)
                                 | Some f \<Rightarrow>
                                     if apx_file_get_address_without_flags f = RMF_INVALID_ADDRESS
                                     then Some (FAULT ASSERT_FAILURE, net)
                                     else
                                       let net = set_file_notification_handler net n file in
                                       (case apx_fileManager_publish_local_file R (fe_text F) memory2 (managers net m) (file_info f) of
                                          (retval, manager) \<Rightarrow> Some (retval, set_manager net m manager)))))))
          else Some (retval, net))"

definition apx_nodeInstance_attach_to_file_manager ::
  "file_env \<Rightarrow> ring_insert \<Rightarrow> (nat \<times> apx_file) option \<Rightarrow> (nat \<times> apx_file) option \<Rightarrow> rmf_fileInfo option \<Rightarrow>
     network \<Rightarrow> nat \<Rightarrow> nat \<Rightarrow> (apx_error \<times> network) option" where
  "apx_nodeInstance_attach_to_file_manager F R memory1 memory2 memory3 net n m =
     (if node_mode (nodes net n) = APX_CLIENT_MODE
      then apx_nodeInstance_attach_to_file_manager_client_mode F memory1 memory2 net n m
      else apx_nodeInstance_attach_to_file_manager_server_mode F R memory1 memory3 net n m)"

section \<open>A file of the node was opened\<close>

definition send_definition_data_to_file_manager ::
  "ring_insert \<Rightarrow> network \<Rightarrow> apx_nodeData \<Rightarrow> nat \<Rightarrow> u32 \<Rightarrow> apx_error \<times> network" where
  "send_definition_data_to_file_manager R net nd m address =
     (case apx_fileManager_send_local_const_data R (managers net m) address (the_default [] (definition_data nd))
             (definition_data_size nd) of
        (e, manager) \<Rightarrow> (e, set_manager net m manager))"

text \<open>A snapshot is sent; without one, memory was short or there is no data.\<close>

definition send_snapshot ::
  "ring_insert \<Rightarrow> network \<Rightarrow> byte list option option \<Rightarrow> u32 \<Rightarrow> nat \<Rightarrow> u32 \<Rightarrow> apx_error \<times> network" where
  "send_snapshot R net copy n m address =
     (case copy of
        None \<Rightarrow> (FAULT OUT_OF_BOUNDS, net)
      | Some None \<Rightarrow> (APX_MEM_ERROR, net)
      | Some (Some bytes) \<Rightarrow>
          (case apx_fileManager_send_local_data R (managers net m) address bytes n of
             (e, manager) \<Rightarrow> (e, set_manager net m manager)))"

definition send_provide_port_data_to_file_manager ::
  "server_env \<Rightarrow> ring_insert \<Rightarrow> network \<Rightarrow> apx_nodeData \<Rightarrow> nat \<Rightarrow> u32 \<Rightarrow> apx_error \<times> network" where
  "send_provide_port_data_to_file_manager E R net nd m address =
     send_snapshot R net (apx_nodeData_take_provide_port_data_snapshot (env_mem E) nd) (provide_port_data_size nd) m address"

definition send_require_port_data_to_file_manager ::
  "server_env \<Rightarrow> ring_insert \<Rightarrow> network \<Rightarrow> nat \<Rightarrow> nat \<Rightarrow> u32 \<Rightarrow> apx_error \<times> network" where
  "send_require_port_data_to_file_manager E R net n m address =
     (case node_data (nodes net n) of
        None \<Rightarrow> (FAULT NULL_ACCESS, net)
      | Some nd \<Rightarrow>
          send_snapshot R net (apx_nodeData_take_require_port_data_snapshot (env_mem E) nd) (require_port_data_size nd) m address)"

text \<open>When the peer opens the file of the require port data on a server, the node is connected.\<close>

definition file_open_notify :: "server_env \<Rightarrow> ring_insert \<Rightarrow> network \<Rightarrow> nat \<Rightarrow> file_ptr \<Rightarrow> apx_error \<times> network" where
  "file_open_notify E R net n file =
     (case (node_data (nodes net n), file_at net file) of
        (Some nd, Some f) \<Rightarrow>
          (let address = apx_file_get_address_without_flags f; m = fst file in
           if apx_file_type f = APX_DEFINITION_FILE_TYPE then send_definition_data_to_file_manager R net nd m address
           else if apx_file_type f = APX_PROVIDE_PORT_DATA_FILE_TYPE
           then send_provide_port_data_to_file_manager E R net nd m address
           else if apx_file_type f = APX_REQUIRE_PORT_DATA_FILE_TYPE then
             (if node_mode (nodes net n) = APX_SERVER_MODE then
                (if has_server (nodes net n)
                 then andThen (connect_require_ports_to_server E R net n) (\<lambda>net.
                        send_require_port_data_to_file_manager E R
                          (apx_nodeInstance_set_require_port_data_state net n APX_DATA_STATE_CONNECTED) n m address)
                 else send_require_port_data_to_file_manager E R
                        (apx_nodeInstance_set_require_port_data_state net n APX_DATA_STATE_CONNECTED) n m address)
              else (APX_NO_ERROR, net))
           else (APX_UNSUPPORTED_ERROR, net))
      | (None, _) \<Rightarrow> (APX_NULL_PTR_ERROR, net)
      | (_, None) \<Rightarrow> (FAULT USE_AFTER_FREE, net))"

definition apx_file_open_notify :: "server_env \<Rightarrow> ring_insert \<Rightarrow> network \<Rightarrow> file_ptr \<Rightarrow> apx_error \<times> network" where
  "apx_file_open_notify E R net file =
     (case handlers net file of
        None \<Rightarrow> (APX_INVALID_OPEN_HANDLER_ERROR, net)
      | Some n \<Rightarrow> file_open_notify E R net n file)"

section \<open>A file of the node was written\<close>

type_synonym port_report = "port_ptr \<times> byte list \<times> u32"

text \<open>
  The ports in the range of a write, each with the bytes from its start and its size. A port of size zero
  would keep the loop from ending.
\<close>

partial_function (option) trigger_loop ::
  "apx_nodeInstance \<Rightarrow> u32 \<Rightarrow> u32 \<Rightarrow> byte list \<Rightarrow> port_report list \<Rightarrow> (apx_error \<times> port_report list) option" where
  "trigger_loop self offset end_offset data reports =
     (if offset < end_offset then
        (case apx_bytePortMap_lookup (byte_port_map self) offset of
           None \<Rightarrow> Some (FAULT OUT_OF_BOUNDS, reports)
         | Some port_id \<Rightarrow>
             if port_id = APX_INVALID_PORT_ID then Some (APX_INVALID_WRITE_ERROR, reports)
             else if \<not> unat port_id < num_require_ports self then Some (APX_INVALID_WRITE_ERROR, reports)
             else
               (case apx_nodeInstance_get_require_port self (unat port_id) of
                  None \<Rightarrow> Some (FAULT OUT_OF_BOUNDS, reports)
                | Some port \<Rightarrow>
                    trigger_loop self (offset + pi_data_size port) end_offset (drop (unat (pi_data_size port)) data)
                      (reports @ [(pi_ptr port, data, pi_data_size port)])))
      else Some (APX_NO_ERROR, reports))"

definition trigger_require_port_write_callbacks ::
  "apx_nodeInstance \<Rightarrow> u32 \<Rightarrow> byte list \<Rightarrow> u32 \<Rightarrow> (apx_error \<times> port_report list) option" where
  "trigger_require_port_write_callbacks self offset data n =
     (if byte_port_map self = None then Some (APX_NULL_PTR_ERROR, [])
      else trigger_loop self offset (offset + n) data [])"

type_synonym definition_callback = "network \<Rightarrow> nat \<Rightarrow> u32 \<Rightarrow> u32 \<Rightarrow> (apx_error \<times> network) option"

definition process_remote_write_definition_data ::
  "definition_callback \<Rightarrow> network \<Rightarrow> nat \<Rightarrow> u32 \<Rightarrow> byte list \<Rightarrow> u32 \<Rightarrow> (apx_error \<times> network) option" where
  "process_remote_write_definition_data on_definition net n offset data k =
     (let net = (if definition_data_state (nodes net n) = APX_DATA_STATE_WAITING_FOR_FILE_DATA
                 then apx_nodeInstance_set_definition_data_state net n APX_DATA_STATE_CONNECTED else net) in
      case write_node_data apx_nodeData_write_definition_data net n offset data k of
        (retval, net) \<Rightarrow>
          if retval \<noteq> APX_NO_ERROR then Some (retval, net)
          else if \<not> has_parent (nodes net n) then Some (FAULT ASSERT_FAILURE, net)
          else on_definition net n offset k)"

definition process_remote_write_require_port_data ::
  "network \<Rightarrow> nat \<Rightarrow> u32 \<Rightarrow> byte list \<Rightarrow> u32 \<Rightarrow> (apx_error \<times> port_report list \<times> network) option" where
  "process_remote_write_require_port_data net n offset data k =
     (let net = (if require_port_data_state (nodes net n) = APX_DATA_STATE_WAITING_FOR_FILE_DATA
                 then apx_nodeInstance_set_require_port_data_state net n APX_DATA_STATE_CONNECTED else net) in
      case write_node_data apx_nodeData_write_require_port_data net n offset data k of
        (retval, net) \<Rightarrow>
          if retval = APX_NO_ERROR \<and> node_mode (nodes net n) = APX_CLIENT_MODE then
            (if \<not> has_parent (nodes net n) then Some (FAULT ASSERT_FAILURE, [], net)
             else map_option (\<lambda>(e, reports). (e, reports, net))
                    (trigger_require_port_write_callbacks (nodes net n) offset data k))
          else Some (retval, [], net))"

text \<open>
  The first write connects the provide ports of the node; the changes are cleared whatever came of it. Later
  writes go to the receivers.
\<close>

definition connect_provide_ports_to_server ::
  "server_env \<Rightarrow> ring_insert \<Rightarrow> network \<Rightarrow> nat \<Rightarrow> apx_error \<times> network" where
  "connect_provide_ports_to_server E R net n =
     (case andThen
        (andThen (apx_server_connect_node_instance_provide_ports E net n) (\<lambda>net.
           case apx_nodeInstance_get_provide_port_connector_changes E
                  (apx_nodeInstance_set_provide_port_data_state net n APX_DATA_STATE_CONNECTED) n False of
             (None, net) \<Rightarrow> (APX_NO_ERROR, net)
           | (Some table, net) \<Rightarrow> apx_server_process_provide_port_connector_changes E R net n table))
        (\<lambda>net. (APX_NO_ERROR, change_node n apx_nodeInstance_clear_provide_port_connector_changes net)) of
        (retval, net) \<Rightarrow>
          if is_fault retval then (retval, net)
          else (retval, apx_server_clear_port_connector_changes net))"

definition process_remote_write_provide_port_data ::
  "server_env \<Rightarrow> ring_insert \<Rightarrow> network \<Rightarrow> nat \<Rightarrow> u32 \<Rightarrow> byte list \<Rightarrow> u32 \<Rightarrow> (apx_error \<times> network) option" where
  "process_remote_write_provide_port_data E R net n offset data k =
     (if node_data (nodes net n) = None then Some (FAULT ASSERT_FAILURE, net)
      else
        (case provide_port_data_state (nodes net n) of
           APX_DATA_STATE_INIT \<Rightarrow> Some (APX_INTERNAL_ERROR, net)
         | APX_DATA_STATE_WAITING_FILE_INFO \<Rightarrow> Some (APX_INTERNAL_ERROR, net)
         | APX_DATA_STATE_WAITING_FOR_FILE_OPEN_REQUEST \<Rightarrow> Some (APX_NO_ERROR, net)
         | APX_DATA_STATE_WAITING_FOR_FILE_DATA \<Rightarrow>
             Some (andThen (write_node_data apx_nodeData_write_provide_port_data net n offset data k) (\<lambda>net.
               if has_server (nodes net n) then connect_provide_ports_to_server E R net n
               else (APX_NO_ERROR, apx_nodeInstance_set_provide_port_data_state net n APX_DATA_STATE_CONNECTED)))
         | APX_DATA_STATE_CONNECTED \<Rightarrow>
             if has_server (nodes net n) then
               (case write_node_data apx_nodeData_write_provide_port_data net n offset data k of
                  (retval, net) \<Rightarrow>
                    if retval \<noteq> APX_NO_ERROR then Some (retval, net)
                    else route_provide_port_data_change_to_receivers E R net n offset data k)
             else Some (APX_NO_ERROR, net)
         | APX_DATA_STATE_DISCONNECTED \<Rightarrow> Some (APX_NO_ERROR, net)))"

definition file_write_notify ::
  "server_env \<Rightarrow> ring_insert \<Rightarrow> definition_callback \<Rightarrow> network \<Rightarrow> nat \<Rightarrow> file_ptr \<Rightarrow> u32 \<Rightarrow> byte list \<Rightarrow> u32 \<Rightarrow>
     (apx_error \<times> port_report list \<times> network) option" where
  "file_write_notify E R on_definition net n file offset data k =
     (case file_at net file of
        None \<Rightarrow> Some (FAULT USE_AFTER_FREE, [], net)
      | Some f \<Rightarrow>
          let silent = map_option (\<lambda>(e, net). (e, [], net)) in
          if apx_file_type f = APX_DEFINITION_FILE_TYPE
          then silent (process_remote_write_definition_data on_definition net n offset data k)
          else if apx_file_type f = APX_PROVIDE_PORT_DATA_FILE_TYPE then
            (if node_mode (nodes net n) = APX_SERVER_MODE
             then silent (process_remote_write_provide_port_data E R net n offset data k)
             else Some (APX_UNSUPPORTED_ERROR, [], net))
          else if apx_file_type f = APX_REQUIRE_PORT_DATA_FILE_TYPE
          then process_remote_write_require_port_data net n offset data k
          else Some (APX_NOT_IMPLEMENTED_ERROR, [], net))"

definition apx_file_write_notify ::
  "server_env \<Rightarrow> ring_insert \<Rightarrow> definition_callback \<Rightarrow> network \<Rightarrow> file_ptr \<Rightarrow> u32 \<Rightarrow> byte list \<Rightarrow> u32 \<Rightarrow>
     (apx_error \<times> port_report list \<times> network) option" where
  "apx_file_write_notify E R on_definition net file offset data k =
     (let manager = managers net (fst file);
          net = set_manager net (fst file) (manager\<lparr>fm_shared := change_file (snd file) apx_file_set_first_write (fm_shared manager)\<rparr>)
      in case handlers net file of
           None \<Rightarrow> Some (APX_INVALID_WRITE_HANDLER_ERROR, [], net)
         | Some n \<Rightarrow> file_write_notify E R on_definition net n file offset data k)"

end
