(* ===== verification/Disconnect.thy ===== *)
theory Disconnect
  imports NodeFiles
begin

text \<open>
  The end of a connection: \<open>detach_all_nodes\<close> of apx/src/server_connection.c and what
  apx/src/node_instance.c does with a require port that lost its provider. The nodes of the connection come as a
  list, in the order in which its node manager enumerates them. A reference to a change table is the node
  and the table (apx/src/port_connector_change_ref.c).
\<close>

section \<open>Require ports that are disconnected\<close>

fun require_ports_disconnected ::
  "server_env \<Rightarrow> nat \<Rightarrow> nat \<Rightarrow> change_table \<Rightarrow> network \<Rightarrow> apx_error \<times> network" where
  "require_ports_disconnected E n i [] net = (APX_NO_ERROR, net)"
| "require_ports_disconnected E n i (entry # entries) net =
     andThen
       (if changes entry > 0 then (FAULT ASSERT_FAILURE, net)
        else if changes entry = -1 then
          (case change_data entry of
             PORT_INSTANCE (Some provide_port) \<Rightarrow>
               (let m = apx_portInstance_parent provide_port in
                case remove_provide_port_connector (env_arrays E) (nodes net m) (apx_portInstance_port_id provide_port)
                       (PORT n APX_REQUIRE_PORT i) of
                  (result, self) \<Rightarrow> (result, change_node m (\<lambda>_. self) net))
           | PORT_INSTANCE None \<Rightarrow> (FAULT ASSERT_FAILURE, net)
           | ARRAY ps \<Rightarrow> (FAULT OUT_OF_BOUNDS, net))
        else if changes entry < -1 then (APX_NOT_IMPLEMENTED_ERROR, net)
        else (APX_NO_ERROR, net))
       (require_ports_disconnected E n (Suc i) entries)"

definition apx_nodeInstance_handle_require_ports_disconnected ::
  "server_env \<Rightarrow> network \<Rightarrow> nat \<Rightarrow> change_table \<Rightarrow> apx_error \<times> network" where
  "apx_nodeInstance_handle_require_ports_disconnected E net n connector_changes =
     (case require_ports_disconnected E n 0 (take (num_require_ports (nodes net n)) connector_changes) net of
        (result, net') \<Rightarrow>
          if result = APX_NO_ERROR \<and> length connector_changes < num_require_ports (nodes net n)
          then (FAULT ASSERT_FAILURE, net') else (result, net'))"

section \<open>The nodes of a connection\<close>

text \<open>A failure is printed and forgotten.\<close>

fun remove_nodes_from_signature_map :: "server_env \<Rightarrow> nat list \<Rightarrow> network \<Rightarrow> apx_error \<times> network" where
  "remove_nodes_from_signature_map E [] net = (APX_NO_ERROR, net)"
| "remove_nodes_from_signature_map E (n # ns) net =
     (let require_state = require_port_data_state (nodes net n); provide_state = provide_port_data_state (nodes net n) in
      andThen
        (if require_state = APX_DATA_STATE_CONNECTED
         then unless_fault (apx_server_disconnect_node_instance_require_ports E net n) else (APX_NO_ERROR, net)) (\<lambda>net.
      andThen
        (if provide_state = APX_DATA_STATE_CONNECTED
         then unless_fault (apx_server_disconnect_node_instance_provide_ports E net n) else (APX_NO_ERROR, net))
        (remove_nodes_from_signature_map E ns)))"

type_synonym change_ref = "nat \<times> change_table"

fun gather_provide_port_connector_changes ::
  "server_env \<Rightarrow> nat list \<Rightarrow> change_ref list \<Rightarrow> network \<Rightarrow> apx_error \<times> change_ref list \<times> network" where
  "gather_provide_port_connector_changes E [] refs net = (APX_NO_ERROR, refs, net)"
| "gather_provide_port_connector_changes E (n # ns) refs net =
     (if provide_port_data_state (nodes net n) = APX_DATA_STATE_CONNECTED then
        (case apx_nodeInstance_get_provide_port_connector_changes E net n False of
           (Some table, net) \<Rightarrow>
             if env_mem E
             then gather_provide_port_connector_changes E ns (refs @ [(n, table)])
                    (change_node n apx_nodeInstance_clear_provide_port_connector_changes net)
             else (APX_MEM_ERROR, refs, net)
         | (None, net) \<Rightarrow>
             gather_provide_port_connector_changes E ns refs
               (apx_nodeInstance_set_provide_port_data_state net n APX_DATA_STATE_DISCONNECTED))
      else gather_provide_port_connector_changes E ns refs net)"

fun gather_require_port_connector_changes ::
  "server_env \<Rightarrow> nat list \<Rightarrow> change_ref list \<Rightarrow> network \<Rightarrow> apx_error \<times> change_ref list \<times> network" where
  "gather_require_port_connector_changes E [] refs net = (APX_NO_ERROR, refs, net)"
| "gather_require_port_connector_changes E (n # ns) refs net =
     (if require_port_data_state (nodes net n) = APX_DATA_STATE_CONNECTED then
        (case apx_nodeInstance_get_require_port_connector_changes E net n False of
           (Some table, net) \<Rightarrow>
             if env_mem E
             then gather_require_port_connector_changes E ns (refs @ [(n, table)])
                    (change_node n apx_nodeInstance_clear_require_port_connector_changes net)
             else (APX_MEM_ERROR, refs, net)
         | (None, net) \<Rightarrow>
             gather_require_port_connector_changes E ns refs
               (apx_nodeInstance_set_require_port_data_state net n APX_DATA_STATE_DISCONNECTED))
      else gather_require_port_connector_changes E ns refs net)"

fun process_disconnected_provider_nodes :: "change_ref list \<Rightarrow> network \<Rightarrow> apx_error \<times> network" where
  "process_disconnected_provider_nodes [] net = (APX_NO_ERROR, net)"
| "process_disconnected_provider_nodes ((n, table) # refs) net =
     (if provide_port_data_state (nodes net n) = APX_DATA_STATE_CONNECTED \<and>
         length table = num_provide_ports (nodes net n)
      then process_disconnected_provider_nodes refs
             (apx_nodeInstance_set_provide_port_data_state
               (change_node n apx_nodeInstance_clear_connector_table net) n APX_DATA_STATE_DISCONNECTED)
      else (FAULT ASSERT_FAILURE, net))"

text \<open>What the handling of the require ports returns is dropped.\<close>

fun process_disconnected_requester_nodes :: "server_env \<Rightarrow> change_ref list \<Rightarrow> network \<Rightarrow> apx_error \<times> network" where
  "process_disconnected_requester_nodes E [] net = (APX_NO_ERROR, net)"
| "process_disconnected_requester_nodes E ((n, table) # refs) net =
     (if require_port_data_state (nodes net n) = APX_DATA_STATE_CONNECTED \<and>
         length table = num_require_ports (nodes net n)
      then
        andThen (unless_fault (apx_nodeInstance_handle_require_ports_disconnected E net n table)) (\<lambda>net.
          process_disconnected_requester_nodes E refs
            (apx_nodeInstance_set_require_port_data_state net n APX_DATA_STATE_DISCONNECTED))
      else (FAULT ASSERT_FAILURE, net))"

text \<open>\<open>attached\<close> tells whether the connection belongs to a server.\<close>

definition detach_all_nodes :: "server_env \<Rightarrow> bool \<Rightarrow> nat list \<Rightarrow> network \<Rightarrow> apx_error \<times> network" where
  "detach_all_nodes E attached ns net =
     (if attached then
        (case remove_nodes_from_signature_map E ns net of
           (e, net) \<Rightarrow>
             if is_fault e then (e, net)
             else
               (case gather_provide_port_connector_changes E ns [] net of
                  (result, providers, net) \<Rightarrow>
                    (case (if result = APX_NO_ERROR then gather_require_port_connector_changes E ns [] net
                           else (result, [], net)) of
                       (result, requesters, net) \<Rightarrow>
                         (case andThen (process_disconnected_provider_nodes providers (apx_server_clear_port_connector_changes net))
                                 (process_disconnected_requester_nodes E requesters) of
                            (e, net) \<Rightarrow> (if is_fault e then e else result, net)))))
      else (APX_NULL_PTR_ERROR, net))"

text \<open>
  Losing a connection: the file manager is told, then the nodes are detached. The connection base
  does nothing else here.
\<close>

definition apx_serverConnection_disconnected_notification ::
  "server_env \<Rightarrow> nat \<Rightarrow> bool \<Rightarrow> nat list \<Rightarrow> network \<Rightarrow> apx_error \<times> network" where
  "apx_serverConnection_disconnected_notification E m attached ns net =
     detach_all_nodes E attached ns (set_manager net m (apx_fileManager_disconnected (managers net m)))"

end
