(* ===== verification/RoutingFacts.thy ===== *)
theory RoutingFacts
  imports Disconnect
begin

text \<open>
  What the routing achieves: a write to provide ports ends, and gives every connected require port, in the data of
  its node and in the file of that node, exactly the bytes of its provider.
\<close>

section \<open>What routing leaves alone\<close>

definition without_data :: "apx_nodeInstance \<Rightarrow> apx_nodeInstance" where
  "without_data self = self\<lparr>node_data := None\<rparr>"

definition same_but_data :: "network \<Rightarrow> network \<Rightarrow> bool" where
  "same_but_data net net' \<longleftrightarrow> (\<forall>n. without_data (nodes net' n) = without_data (nodes net n)) \<and>
     handlers net' = handlers net \<and> port_signature_map net' = port_signature_map net \<and> modified_nodes net' = modified_nodes net"

lemma same_but_data_refl [simp]: "same_but_data net net"
  by (simp add: same_but_data_def)

lemma same_but_data_trans: "same_but_data a b \<Longrightarrow> same_but_data b c \<Longrightarrow> same_but_data a c"
  by (simp add: same_but_data_def)

lemma same_but_data_fields:
  assumes "same_but_data net net'"
  shows "provide_ports (nodes net' n) = provide_ports (nodes net n)" "require_ports (nodes net' n) = require_ports (nodes net n)"
    "num_provide_ports (nodes net' n) = num_provide_ports (nodes net n)"
    "num_require_ports (nodes net' n) = num_require_ports (nodes net n)"
    "byte_port_map (nodes net' n) = byte_port_map (nodes net n)" "connector_table (nodes net' n) = connector_table (nodes net n)"
    "require_port_data_file (nodes net' n) = require_port_data_file (nodes net n)" "port_of net' p = port_of net p"
proof -
  have *: "without_data (nodes net' n) = without_data (nodes net n)" for n using assms by (simp add: same_but_data_def)
  have f: "provide_ports (without_data (nodes net' n)) = provide_ports (without_data (nodes net n))"
    "require_ports (without_data (nodes net' n)) = require_ports (without_data (nodes net n))"
    "num_provide_ports (without_data (nodes net' n)) = num_provide_ports (without_data (nodes net n))"
    "num_require_ports (without_data (nodes net' n)) = num_require_ports (without_data (nodes net n))"
    "byte_port_map (without_data (nodes net' n)) = byte_port_map (without_data (nodes net n))"
    "connector_table (without_data (nodes net' n)) = connector_table (without_data (nodes net n))"
    "require_port_data_file (without_data (nodes net' n)) = require_port_data_file (without_data (nodes net n))" for n
    by (simp_all only: *)
  from f [unfolded without_data_def]
  show "provide_ports (nodes net' n) = provide_ports (nodes net n)" "require_ports (nodes net' n) = require_ports (nodes net n)"
    "num_provide_ports (nodes net' n) = num_provide_ports (nodes net n)"
    "num_require_ports (nodes net' n) = num_require_ports (nodes net n)"
    "byte_port_map (nodes net' n) = byte_port_map (nodes net n)" "connector_table (nodes net' n) = connector_table (nodes net n)"
    "require_port_data_file (nodes net' n) = require_port_data_file (nodes net n)"
    by simp_all
  show "port_of net' p = port_of net p"
    using f [unfolded without_data_def]
    by (cases "apx_portInstance_port_type p")
      (simp_all add: port_of_def apx_nodeInstance_get_provide_port_def apx_nodeInstance_get_require_port_def)
qed

lemma write_node_data_same: "same_but_data net (snd (write_node_data f net n offset data k))"
  by (auto simp: write_node_data_def same_but_data_def change_node_def without_data_def split: option.splits prod.splits)

lemma route_to_file_same: "same_but_data net (snd (remote_route_data_to_file E R net file offset data k))"
  by (auto simp: remote_route_data_to_file_def same_but_data_def split: option.splits prod.splits)

lemma remote_route_same: "same_but_data net (snd (remote_route_require_port_data E R net n offset data k))"
proof -
  obtain e net1 where w: "write_node_data apx_nodeData_write_require_port_data net n offset data k = (e, net1)" by fastforce
  have "same_but_data net net1" using write_node_data_same [of net apx_nodeData_write_require_port_data n offset data k] w by simp
  moreover have "same_but_data net1 (snd (case require_port_data_file (nodes net1 n) of
      None \<Rightarrow> (APX_NO_ERROR, net1) | Some file \<Rightarrow> remote_route_data_to_file E R net1 file offset data k))"
    using route_to_file_same by (auto split: option.split)
  ultimately show ?thesis
    using same_but_data_trans by (auto simp: remote_route_require_port_data_def w andThen_def)
qed

lemma route_to_all_same: "same_but_data net (snd (route_to_all E R port rs data retval net))"
proof (induction rs arbitrary: net retval)
  case (Cons r rs)
  obtain e net1 where s: "remote_route_require_port_data E R net (apx_portInstance_parent r)
      (case port_of net r of None \<Rightarrow> 0 | Some q \<Rightarrow> pi_data_offset q) data (pi_data_size port) = (e, net1)" by fastforce
  have "same_but_data net net1"
    using remote_route_same [of net E R "apx_portInstance_parent r" _ data "pi_data_size port"] s by (metis snd_conv)
  with s Cons show ?case
    by (auto split: option.split intro: same_but_data_trans)
qed simp

section \<open>The routing loop ends\<close>

definition map_exact :: "apx_nodeInstance \<Rightarrow> bool" where
  "map_exact self \<longleftrightarrow> (\<exists>m. byte_port_map self = Some m \<and> map_of_ports (provide_ports self) m) \<and>
     num_provide_ports self = length (provide_ports self) \<and> (\<forall>p\<in>set (provide_ports self). pi_data_size p > 0) \<and>
     sizes (provide_ports self) < 0x80000000"

lemma length_sizes: "\<forall>p\<in>set ports. pi_data_size p > 0 \<Longrightarrow> length ports \<le> sizes ports"
proof (induction ports)
  case (Cons p ports)
  then have "0 < unat (pi_data_size p)" by (simp add: word_less_nat_alt)
  with Cons show ?case by (simp add: sizes_def)
qed (simp add: sizes_def)

lemma first_byte_Suc: "j < length ports \<Longrightarrow> first_byte ports (Suc j) = first_byte ports j + unat (pi_data_size (ports ! j))"
  by (simp add: first_byte_def sizes_def take_Suc_conv_app_nth)

text \<open>Every byte has an owner.\<close>

lemma owner_exists: "k < sizes ports \<Longrightarrow> \<exists>j < length ports. first_byte ports j \<le> k \<and> k < first_byte ports (Suc j)"
proof (induction ports arbitrary: k)
  case Nil
  then show ?case by (simp add: sizes_def)
next
  case (Cons p ports)
  let ?n = "unat (pi_data_size p)"
  show ?case
  proof (cases "k < ?n")
    case True
    then show ?thesis by (intro exI [of _ 0]) (simp add: first_byte_def sizes_def)
  next
    case False
    then have "k - ?n < sizes ports" using Cons.prems by (simp add: sizes_def)
    from Cons.IH [OF this] obtain j where "j < length ports" "first_byte ports j \<le> k - ?n" "k - ?n < first_byte ports (Suc j)" by blast
    with False have "?n + first_byte ports j \<le> k" "k < ?n + first_byte ports (Suc j)" "j < length ports" by linarith+
    then show ?thesis by (intro exI [of _ "Suc j"]) (simp add: first_byte_def sizes_def)
  qed
qed

lemma exact_lookup:
  assumes "map_exact self"
  shows "j < length (provide_ports self) \<Longrightarrow> first_byte (provide_ports self) j \<le> unat k \<Longrightarrow>
      unat k < first_byte (provide_ports self) (Suc j) \<Longrightarrow>
      apx_bytePortMap_lookup (byte_port_map self) k = Some (of_nat j) \<and> unat (of_nat j :: u32) = j \<and>
      of_nat j \<noteq> APX_INVALID_PORT_ID"
    and "sizes (provide_ports self) \<le> unat k \<Longrightarrow> apx_bytePortMap_lookup (byte_port_map self) k = Some APX_INVALID_PORT_ID"
proof -
  obtain m where m: "byte_port_map self = Some m" "map_data m = owners 0 (provide_ports self)"
    "unat (map_len m) = sizes (provide_ports self)" using assms by (auto simp: map_exact_def map_of_ports_def)
  have len: "length (provide_ports self) < 0x80000000"
    using assms length_sizes [of "provide_ports self"] by (auto simp: map_exact_def)
  show "sizes (provide_ports self) \<le> unat k \<Longrightarrow> apx_bytePortMap_lookup (byte_port_map self) k = Some APX_INVALID_PORT_ID"
    by (simp add: m apx_bytePortMap_lookup_def word_less_nat_alt)
  assume j: "j < length (provide_ports self)" "first_byte (provide_ports self) j \<le> unat k"
    "unat k < first_byte (provide_ports self) (Suc j)"
  have "unat k < sizes (provide_ports self)" using j(3) first_byte_bound [OF j(1)] by simp
  then have "apx_bytePortMap_lookup (byte_port_map self) k = Some (of_nat j)"
    using owners_nth [OF j, of 0] by (simp add: m apx_bytePortMap_lookup_def word_less_nat_alt length_owners)
  moreover have small: "unat (of_nat j :: u32) = j" using j(1) len by (simp add: unat_of_nat)
  moreover have "of_nat j \<noteq> (APX_INVALID_PORT_ID :: u32)"
  proof
    assume "of_nat j = (APX_INVALID_PORT_ID :: u32)"
    then have "unat (of_nat j :: u32) = 0xFFFFFFFF" by simp
    with small j(1) len show False by simp
  qed
  ultimately show "apx_bytePortMap_lookup (byte_port_map self) k = Some (of_nat j) \<and> unat (of_nat j :: u32) = j \<and>
      of_nat j \<noteq> APX_INVALID_PORT_ID" by blast
qed

lemma exact_port:
  "map_exact self \<Longrightarrow> j < length (provide_ports self) \<Longrightarrow>
     apx_nodeInstance_get_provide_port self j = Some (provide_ports self ! j) \<and> pi_data_size (provide_ports self ! j) > 0 \<and>
     j < num_provide_ports self"
  by (simp add: map_exact_def apx_nodeInstance_get_provide_port_def)

lemma same_map_exact: "same_but_data net net' \<Longrightarrow> map_exact (nodes net' n) = map_exact (nodes net n)"
  by (simp add: map_exact_def same_but_data_fields)

lemma route_loop_returns:
  "map_exact (nodes net n) \<Longrightarrow> \<exists>r. route_loop E R n offset end_offset data retval net = Some r"
proof (induction "unat end_offset - unat offset" arbitrary: net offset data retval rule: less_induct)
  case less
  let ?self = "nodes net n" and ?ports = "provide_ports (nodes net n)"
  show ?case
  proof (cases "offset < end_offset")
    case False
    then show ?thesis by (subst route_loop.simps) simp
  next
    case True
    note run = True
    show ?thesis
    proof (cases "unat offset < sizes ?ports")
      case False
      then show ?thesis using run exact_lookup(2) [OF less.prems] by (subst route_loop.simps) simp
    next
      case True
      then obtain j where j: "j < length ?ports" "first_byte ?ports j \<le> unat offset" "unat offset < first_byte ?ports (Suc j)"
        using owner_exists by blast
      let ?port = "?ports ! j"
      note found = exact_lookup(1) [OF less.prems j] exact_port [OF less.prems j(1)]
      have small: "sizes ?ports < 0x80000000" using less.prems by (simp add: map_exact_def)
      have "unat offset + unat (pi_data_size ?port) < 0x100000000"
        using True small first_byte_bound [OF j(1)] first_byte_Suc [OF j(1)] by linarith
      then have next_offset: "unat (offset + pi_data_size ?port) = unat offset + unat (pi_data_size ?port)"
        by (simp add: unat_word_ariths)
      have "0 < unat (pi_data_size ?port)" using found by (simp add: word_less_nat_alt)
      then have smaller: "unat end_offset - unat (offset + pi_data_size ?port) < unat end_offset - unat offset"
        unfolding next_offset using run by (simp add: word_less_nat_alt)
      obtain e net1 where r: "route_to_all E R ?port (the_default [] (connector_table ?self) ! j) data retval net = (e, net1)" by fastforce
      have "map_exact (nodes net1 n)"
        using route_to_all_same [of net E R ?port _ data retval] r same_map_exact less.prems by (metis snd_conv)
      note less.hyps [OF smaller this]
      with r run found show ?thesis
        by (subst route_loop.simps) (auto split: option.split)
    qed
  qed
qed

text \<open> C24:
  Routing a write to the receivers always returns, whatever the range of the write, the receivers and their files:
  when the byte map of the node is the map of its ports, every turn of the loop passes at least one byte.
\<close>

theorem routing_returns:
  assumes "map_exact (nodes net n)"
  shows "\<exists>e net'. route_provide_port_data_change_to_receivers E R net n offset data k = Some (e, net')"
  using route_loop_returns [OF assms] by (fastforce simp: route_provide_port_data_change_to_receivers_def)

section \<open>Deliveries\<close>

text \<open>Bytes written over others, and what the deliveries \<open>ds\<close> (a require port and its bytes) leave in the data of node \<open>q\<close>.\<close>

definition overlay :: "byte list \<Rightarrow> nat \<Rightarrow> byte list \<Rightarrow> byte list" where
  "overlay bytes offset bs = take offset bytes @ bs @ drop (offset + length bs) bytes"

definition offset_of :: "network \<Rightarrow> port_ptr \<Rightarrow> u32" where
  "offset_of net r = (case port_of net r of None \<Rightarrow> 0 | Some q \<Rightarrow> pi_data_offset q)"

definition stored :: "network \<Rightarrow> nat \<Rightarrow> byte list \<Rightarrow> (port_ptr \<times> byte list) list \<Rightarrow> byte list" where
  "stored net q bytes ds =
     foldl (\<lambda>b d. if apx_portInstance_parent (fst d) = q then overlay b (unat (offset_of net (fst d))) (snd d) else b) bytes ds"

text \<open>The command for the file of the receiving node, if that file is one of manager \<open>m\<close>.\<close>

definition file_command :: "network \<Rightarrow> nat \<Rightarrow> port_ptr \<times> byte list \<Rightarrow> apx_command list" where
  "file_command net m d =
     (case require_port_data_file (nodes net (apx_portInstance_parent (fst d))) of
        None \<Rightarrow> []
      | Some file \<Rightarrow>
          if fst file = m
          then (case file_at net file of
                  None \<Rightarrow> []
                | Some f \<Rightarrow> [apx_build_command_with_ptr APX_CMD_SEND_LOCAL_DATA
                    (apx_file_get_address_without_flags f + offset_of net (fst d)) (of_nat (length (snd d))) (BYTES (snd d))])
          else [])"

definition without_queue :: "apx_fileManager \<Rightarrow> apx_fileManager" where
  "without_queue self = self\<lparr>fm_queue := [], fm_shared := fm_shared self\<lparr>local_file_map :=
     local_file_map (fm_shared self)\<lparr>last_file := None\<rparr>\<rparr>\<rparr>"

definition routed :: "(port_ptr \<times> byte list) list \<Rightarrow> network \<Rightarrow> network \<Rightarrow> bool" where
  "routed ds net net' \<longleftrightarrow> same_but_data net net' \<and>
     (\<forall>q. node_data (nodes net' q) = map_option (\<lambda>nd. nd\<lparr>require_port_data :=
        map_option (\<lambda>bytes. stored net q bytes ds) (require_port_data nd)\<rparr>) (node_data (nodes net q))) \<and>
     (\<forall>m. without_queue (managers net' m) = without_queue (managers net m) \<and>
        fm_queue (managers net' m) = fm_queue (managers net m) @ concat (map (file_command net m) ds))"

definition ready :: "network \<Rightarrow> nat \<Rightarrow> port_ptr \<Rightarrow> bool" where
  "ready net n r \<longleftrightarrow> (\<exists>q nd. port_of net r = Some q \<and> unat (pi_data_size q) = n \<and> 0 < n \<and>
     node_data (nodes net (apx_portInstance_parent r)) = Some nd \<and> nodeData_ok nd \<and>
     unat (pi_data_offset q) + n \<le> unat (require_port_data_size nd) \<and>
     (\<forall>m f. require_port_data_file (nodes net (apx_portInstance_parent r)) = Some (m, f) \<longrightarrow>
        manager_ok (managers net m) \<and>
        (\<exists>file. (f, file) \<in> set (file_list (local_file_map (fm_shared (managers net m)))) \<and> is_file_open file \<and>
           unat (apx_file_get_address_without_flags file) + unat (pi_data_offset q) < behind file \<and> behind file \<le> 0x40000000)))"

lemma without_queue_files:
  assumes "without_queue a = without_queue b"
  shows "file_list (local_file_map (fm_shared a)) = file_list (local_file_map (fm_shared b))" "the_file (fm_shared a) p = the_file (fm_shared b) p"
proof -
  have "file_list (local_file_map (fm_shared (without_queue a))) = file_list (local_file_map (fm_shared (without_queue b)))"
    "file_list (remote_file_map (fm_shared (without_queue a))) = file_list (remote_file_map (fm_shared (without_queue b)))"
    by (simp_all only: assms)
  then show "file_list (local_file_map (fm_shared a)) = file_list (local_file_map (fm_shared b))" "the_file (fm_shared a) p = the_file (fm_shared b) p"
    by (simp_all add: without_queue_def the_file_def split: option.split)
qed

lemma routed_nothing: "routed [] net net"
proof -
  have "map_option (\<lambda>nd. nd\<lparr>require_port_data := map_option (\<lambda>bytes. bytes) (require_port_data nd)\<rparr>) x = x" for x :: "apx_nodeData option"
    by (cases x) (simp_all add: option.map_ident)
  then show ?thesis by (simp add: routed_def stored_def)
qed

lemma routed_append:
  assumes "routed ds a b" and "routed es b c"
  shows "routed (ds @ es) a c"
proof -
  have same: "same_but_data a b" "same_but_data b c" using assms by (simp_all add: routed_def)
  note f = same_but_data_fields [OF same(1)]
  have off: "offset_of b = offset_of a" by (intro ext) (simp add: offset_of_def f)
  have found: "file_at b p = file_at a p" for p
    using assms(1) by (simp add: file_at_def routed_def without_queue_files(2) [of "managers b (fst p)" "managers a (fst p)"])
  have cmd: "file_command b m = file_command a m" for m by (intro ext) (simp add: file_command_def f off found split: option.split)
  have "stored a q bytes (ds @ es) = stored b q (stored a q bytes ds) es" for q bytes
    unfolding stored_def off by simp
  then show ?thesis
    using assms same_but_data_trans [OF same] by (simp add: routed_def option.map_comp o_def cmd)
qed

text \<open>One delivery.\<close>

lemma the_local_file:
  assumes "manager_ok self" and "(p, f) \<in> set (file_list (local_file_map (fm_shared self)))"
  shows "the_file (fm_shared self) p = Some f"
proof -
  have "p \<notin> fst ` set (file_list (remote_file_map (fm_shared self)))" using assms by (force simp: manager_ok_def)
  then have "map_of (file_list (remote_file_map (fm_shared self))) p = None" by (simp add: map_of_eq_None_iff)
  moreover have "map_of (file_list (local_file_map (fm_shared self))) p = Some f"
    using assms by (intro map_of_is_SomeI) (simp_all add: manager_ok_def files_ok_def)
  ultimately show ?thesis by (simp add: the_file_def)
qed

lemma send_local_data_queued:
  assumes "ring_documented R" and ok: "manager_ok self" and f: "(p, f) \<in> set (file_list (local_file_map (fm_shared self)))"
    and "is_file_open f" and range: "unat (apx_file_get_address_without_flags f) + k < behind f" "behind f \<le> 0x40000000" "unat off = k"
  shows "\<exists>self'. apx_fileManager_send_local_data R self (apx_file_get_address_without_flags f + off) data n = (APX_NO_ERROR, self') \<and>
    without_queue self' = without_queue self \<and> manager_ok self' \<and>
    fm_queue self' = fm_queue self @
      [apx_build_command_with_ptr APX_CMD_SEND_LOCAL_DATA (apx_file_get_address_without_flags f + off) n (BYTES data)]"
proof -
  let ?a = "apx_file_get_address_without_flags f + off"
  have a: "unat ?a = unat (apx_file_get_address_without_flags f) + k" using range by (simp add: unat_word_ariths)
  then have "?a < 0x40000000" using range by (simp add: word_less_nat_alt)
  from find_local_file [OF ok this] obtain r m where
    r: "apx_fileManager_find_file_by_address self ?a = (APX_NO_ERROR, r, self\<lparr>fm_shared := fm_shared self\<lparr>local_file_map := m\<rparr>\<rparr>)"
    and m: "files_ok m" "file_list m = file_list (local_file_map (fm_shared self))"
    and found: "\<forall>p. r = Some p \<longleftrightarrow> (\<exists>f. (p, f) \<in> set (file_list (local_file_map (fm_shared self))) \<and>
       start f \<le> unat ?a \<and> unat ?a < behind f)" by auto
  have "start f \<le> unat ?a" "unat ?a < behind f" unfolding a using range by simp_all
  then have rp: "r = Some p" using found f by blast
  let ?self = "self\<lparr>fm_shared := fm_shared self\<lparr>local_file_map := m\<rparr>\<rparr>"
  let ?cmd = "apx_build_command_with_ptr APX_CMD_SEND_LOCAL_DATA ?a n (BYTES data)"
  have remote: "is_remote_map m = is_remote_map (local_file_map (fm_shared self))"
  proof -
    obtain e r' m' where found': "apx_fileManagerShared_find_file_by_address (fm_shared self) ?a = (e, r', m')" by (metis prod_cases3)
    then have "m' = fm_shared self\<lparr>local_file_map := m\<rparr>"
      using r by (auto simp: apx_fileManager_find_file_by_address_def with_shared_def dest: arg_cong [where f = fm_shared])
    moreover have "is_remote_map (local_file_map m') = is_remote_map (local_file_map (fm_shared self))"
      using found' by (auto simp: apx_fileManagerShared_find_file_by_address_def apx_fileMap_find_by_address_def find_file_def Let_def
          split: option.splits prod.splits if_splits)
    ultimately show ?thesis by simp
  qed
  have ok': "manager_ok ?self" using ok m by (simp add: manager_ok_def)
  have "the_file (fm_shared ?self) p = Some f" by (rule the_local_file [OF ok']) (simp add: m f)
  then have "apx_fileManager_send_local_data R self ?a data n = (APX_NO_ERROR, ?self\<lparr>fm_queue := fm_queue ?self @ [?cmd]\<rparr>)"
    using assms(1,4) by (simp add: apx_fileManager_send_local_data_def when_open_def r rp
        apx_fileManagerWorker_prepare_send_local_data_def enqueue_def ring_documented_def
        apx_fileManagerWorker_process_ringbuffer_error_def)
  moreover have "without_queue (?self\<lparr>fm_queue := fm_queue ?self @ [?cmd]\<rparr>) = without_queue self"
    using m(2) remote by (cases m; cases "local_file_map (fm_shared self)") (simp add: without_queue_def)
  moreover have "manager_ok (?self\<lparr>fm_queue := fm_queue ?self @ [?cmd]\<rparr>)" using ok' by (simp add: manager_ok_def)
  ultimately show ?thesis by auto
qed

lemma ready_routed:
  assumes "routed ds net net'" and "ready net n r"
    and "\<And>q nd. node_data (nodes net q) = Some nd \<Longrightarrow> nodeData_ok nd \<Longrightarrow>
      nodeData_ok (nd\<lparr>require_port_data := map_option (\<lambda>bytes. stored net q bytes ds) (require_port_data nd)\<rparr>)"
    and "\<And>m. manager_ok (managers net m) \<Longrightarrow> manager_ok (managers net' m)"
  shows "ready net' n r"
proof -
  have same: "same_but_data net net'" using assms(1) by (simp add: routed_def)
  note f = same_but_data_fields [OF same]
  have files: "file_list (local_file_map (fm_shared (managers net' m))) = file_list (local_file_map (fm_shared (managers net m)))" for m
    using assms(1) by (intro without_queue_files(1)) (simp add: routed_def)
  from assms(2) obtain q nd where *: "port_of net r = Some q" "unat (pi_data_size q) = n" "0 < n"
    "node_data (nodes net (apx_portInstance_parent r)) = Some nd" "nodeData_ok nd"
    "unat (pi_data_offset q) + n \<le> unat (require_port_data_size nd)"
    "\<forall>m f. require_port_data_file (nodes net (apx_portInstance_parent r)) = Some (m, f) \<longrightarrow> manager_ok (managers net m) \<and>
        (\<exists>file. (f, file) \<in> set (file_list (local_file_map (fm_shared (managers net m)))) \<and> is_file_open file \<and>
           unat (apx_file_get_address_without_flags file) + unat (pi_data_offset q) < behind file \<and> behind file \<le> 0x40000000)"
    unfolding ready_def by (elim exE conjE) (rule that)
  moreover have "node_data (nodes net' (apx_portInstance_parent r)) = Some (nd\<lparr>require_port_data :=
      map_option (\<lambda>bytes. stored net (apx_portInstance_parent r) bytes ds) (require_port_data nd)\<rparr>)"
    using assms(1) *(4) by (simp add: routed_def)
  ultimately show ?thesis
    using assms(3) [OF *(4,5)] assms(4) unfolding ready_def f files by auto
qed

lemma overlay_length [simp]: "offset + length bs \<le> length bytes \<Longrightarrow> length (overlay bytes offset bs) = length bytes"
  by (simp add: overlay_def)

lemma delivered:
  assumes "ring_documented R" and "env_mem E" and "ready net n r" and "n \<le> length data" and "unat k = n"
  shows "\<exists>net'. remote_route_require_port_data E R net (apx_portInstance_parent r) (offset_of net r) data k = (APX_NO_ERROR, net') \<and>
    routed [(r, take n data)] net net' \<and> (\<forall>n' r'. ready net n' r' \<longrightarrow> ready net' n' r')"
proof -
  let ?q = "apx_portInstance_parent r" and ?off = "offset_of net r"
  obtain port nd where p: "port_of net r = Some port" "unat (pi_data_size port) = n" "0 < n"
    and nd: "node_data (nodes net ?q) = Some nd" "nodeData_ok nd" "unat (pi_data_offset port) + n \<le> unat (require_port_data_size nd)"
    and receiving: "\<forall>m f. require_port_data_file (nodes net ?q) = Some (m, f) \<longrightarrow> manager_ok (managers net m) \<and>
        (\<exists>file. (f, file) \<in> set (file_list (local_file_map (fm_shared (managers net m)))) \<and> is_file_open file \<and>
           unat (apx_file_get_address_without_flags file) + unat (pi_data_offset port) < behind file \<and> behind file \<le> 0x40000000)"
    using assms(3) unfolding ready_def by (elim exE conjE) (rule that)
  have kn: "of_nat n = k" using assms(5) [symmetric] by simp
  have off: "?off = pi_data_offset port" by (simp add: offset_of_def p)
  have sz: "sized (require_port_data nd) (require_port_data_size nd)" using nd(2) by (simp add: nodeData_ok_def)
  then obtain bytes where bytes: "require_port_data nd = Some bytes" "length bytes = unat (require_port_data_size nd)"
    using nd(3) p(3) by (cases "require_port_data nd") (auto simp: sized_def)
  let ?bytes = "overlay bytes (unat ?off) (take n data)"
  let ?nd = "nd\<lparr>require_port_data := Some ?bytes\<rparr>"
  have write_ok: "apx_nodeData_write_require_port_data nd ?off data k = (APX_NO_ERROR, ?nd)"
    using nd(3) bytes assms(4,5) off
    by (simp add: apx_nodeData_write_require_port_data_def buffer_write_def mem_read_def mem_write_def overlay_def min_def)
  have nd_ok: "nodeData_ok ?nd" using nd bytes assms(4) off by (simp add: nodeData_ok_def sized_def min_def)
  let ?net = "change_node ?q (\<lambda>self. self\<lparr>node_data := Some ?nd\<rparr>) net"
  have data: "write_node_data apx_nodeData_write_require_port_data net ?q ?off data k = (APX_NO_ERROR, ?net)"
    by (simp add: write_node_data_def nd(1) write_ok)
  have same: "same_but_data net ?net" by (simp add: same_but_data_def change_node_def without_data_def)
  have stored: "stored net q bs [(r, take n data)] = (if q = ?q then overlay bs (unat ?off) (take n data) else bs)" for q bs
    by (simp add: stored_def)
  have node: "node_data (nodes ?net q) = map_option (\<lambda>nd. nd\<lparr>require_port_data :=
        map_option (\<lambda>bytes. stored net q bytes [(r, take n data)]) (require_port_data nd)\<rparr>) (node_data (nodes net q))" for q
  proof (cases "q = ?q")
    case False
    then show ?thesis
      by (cases "node_data (nodes net q)") (simp_all add: change_node_def stored option.map_ident)
  next
    case True
    then show ?thesis using nd(1) bytes(1) by (simp add: change_node_def stored)
  qed
  have data_ok: "nodeData_ok (nd'\<lparr>require_port_data := map_option (\<lambda>bytes. stored net q bytes [(r, take n data)]) (require_port_data nd')\<rparr>)"
    if "node_data (nodes net q) = Some nd'" "nodeData_ok nd'" for q nd'
  proof (cases "q = ?q")
    case True
    then have "nd' = nd" using that nd(1) by simp
    then show ?thesis using True nd_ok bytes(1) by (simp add: stored)
  next
    case False
    then show ?thesis using that(2) by (simp add: stored option.map_ident)
  qed
  show ?thesis
  proof (cases "require_port_data_file (nodes net ?q)")
    case None
    then have "remote_route_require_port_data E R net ?q ?off data k = (APX_NO_ERROR, ?net)"
      by (simp add: remote_route_require_port_data_def data same_but_data_fields [OF same])
    moreover have "routed [(r, take n data)] net ?net"
      using same node None by (simp add: routed_def change_node_def file_command_def)
    moreover have "ready ?net n' r'" if "ready net n' r'" for n' r'
      by (rule ready_routed [OF \<open>routed _ net ?net\<close> that data_ok]) (simp_all add: change_node_def)
    ultimately show ?thesis by blast
  next
    case (Some mf)
    then obtain m p where mp: "require_port_data_file (nodes net ?q) = Some (m, p)" by (cases mf) simp
    then obtain f where f: "manager_ok (managers net m)" "(p, f) \<in> set (file_list (local_file_map (fm_shared (managers net m))))"
      "is_file_open f" "unat (apx_file_get_address_without_flags f) + unat ?off < behind f" "behind f \<le> 0x40000000"
      using receiving off by auto
    let ?cmd = "apx_build_command_with_ptr APX_CMD_SEND_LOCAL_DATA (apx_file_get_address_without_flags f + ?off) k (BYTES (take n data))"
    obtain manager where s: "apx_fileManager_send_local_data R (managers net m) (apx_file_get_address_without_flags f + ?off) (take n data) k =
        (APX_NO_ERROR, manager)" "without_queue manager = without_queue (managers net m)" "manager_ok manager"
      "fm_queue manager = fm_queue (managers net m) @ [?cmd]"
      using send_local_data_queued [OF assms(1) f refl, of "take n data" k] by blast
    let ?net' = "?net\<lparr>managers := (managers net)(m := manager)\<rparr>"
    have there: "the_file (fm_shared (managers net m)) p = Some f" by (rule the_local_file [OF f(1,2)])
    have "remote_route_data_to_file E R ?net (m, p) ?off data k = (APX_NO_ERROR, ?net')"
      using there f(3) assms(2,4,5) s(1) by (simp add: remote_route_data_to_file_def change_node_def mem_read_def)
    then have "remote_route_require_port_data E R net ?q ?off data k = (APX_NO_ERROR, ?net')"
      by (simp add: remote_route_require_port_data_def data same_but_data_fields [OF same] mp)
    moreover have "file_command net m' (r, take n data) = (if m' = m then [?cmd] else [])" for m'
      using mp there assms(4) kn by (simp add: file_command_def file_at_def min_def)
    then have "routed [(r, take n data)] net ?net'"
      using same node s(2,4) by (simp add: routed_def change_node_def same_but_data_def)
    moreover have "manager_ok (managers ?net' m')" if "manager_ok (managers net m')" for m' using that s(3) by simp
    then have "ready ?net' n' r'" if "ready net n' r'" for n' r'
      using ready_routed [OF \<open>routed _ net ?net'\<close> that data_ok] by blast
    ultimately show ?thesis by blast
  qed
qed

section \<open>Whole ports\<close>

lemma route_to_all_delivers:
  assumes "ring_documented R" and "env_mem E" and "pi_queue_length port = 0" and "unat (pi_data_size port) = n" and "n \<le> length data"
  shows "\<forall>r\<in>set rs. ready net n r \<Longrightarrow> \<exists>net'. route_to_all E R port rs data APX_NO_ERROR net = (APX_NO_ERROR, net') \<and>
    routed (map (\<lambda>r. (r, take n data)) rs) net net' \<and> (\<forall>n' r'. ready net n' r' \<longrightarrow> ready net' n' r')"
proof (induction rs arbitrary: net)
  case Nil
  then show ?case using routed_nothing by auto
next
  case (Cons r rs)
  then have r: "ready net n r" by simp
  then obtain q where q: "port_of net r = Some q" "unat (pi_data_size q) = n" by (auto simp: ready_def)
  then have same_size: "pi_data_size port = pi_data_size q" using assms(4) by (simp add: word_unat_eq_iff)
  obtain net1 where n1: "remote_route_require_port_data E R net (apx_portInstance_parent r) (offset_of net r) data (pi_data_size port) =
      (APX_NO_ERROR, net1)" "routed [(r, take n data)] net net1" "\<forall>n' r'. ready net n' r' \<longrightarrow> ready net1 n' r'"
    using delivered [OF assms(1,2) r assms(5,4)] by blast
  have "\<forall>r\<in>set rs. ready net1 n r" using Cons.prems n1(3) by simp
  from Cons.IH [OF this] obtain net2 where n2: "route_to_all E R port rs data APX_NO_ERROR net1 = (APX_NO_ERROR, net2)"
    "routed (map (\<lambda>r. (r, take n data)) rs) net1 net2" "\<forall>n' r'. ready net1 n' r' \<longrightarrow> ready net2 n' r'" by blast
  have "route_to_all E R port (r # rs) data APX_NO_ERROR net = (APX_NO_ERROR, net2)"
    using n1(1) n2(1) q same_size assms(3) by (simp add: offset_of_def)
  moreover have "routed (map (\<lambda>r. (r, take n data)) (r # rs)) net net2" using routed_append [OF n1(2) n2(2)] by simp
  ultimately show ?case using n1(3) n2(3) by blast
qed

text \<open>What a write of \<open>k\<close> ports from port \<open>i\<close> on delivers, in order.\<close>

fun deliveries ::
  "apx_portInstance list \<Rightarrow> connector_list list \<Rightarrow> byte list \<Rightarrow> nat \<Rightarrow> nat \<Rightarrow> (port_ptr \<times> byte list) list" where
  "deliveries ports table data i 0 = []"
| "deliveries ports table data i (Suc k) =
     (let n = unat (pi_data_size (ports ! i)) in
      map (\<lambda>r. (r, take n data)) (table ! i) @ deliveries ports table (drop n data) (Suc i) k)"

definition receivers_ready :: "network \<Rightarrow> nat \<Rightarrow> connector_list list \<Rightarrow> nat \<Rightarrow> nat \<Rightarrow> bool" where
  "receivers_ready net n table i k \<longleftrightarrow> (\<forall>j. i \<le> j \<and> j < i + k \<longrightarrow>
     pi_queue_length (provide_ports (nodes net n) ! j) = 0 \<and>
     (\<forall>r\<in>set (table ! j). ready net (unat (pi_data_size (provide_ports (nodes net n) ! j))) r))"

lemma first_byte_mono: "i \<le> j \<Longrightarrow> first_byte ports i \<le> first_byte ports j"
proof -
  assume "i \<le> j"
  then have "take j ports = take i ports @ take (j - i) (drop i ports)" by (metis le_add_diff_inverse take_add)
  then show ?thesis by (simp add: first_byte_def sizes_def)
qed

lemma first_byte_word:
  "map_exact self \<Longrightarrow> i \<le> length (provide_ports self) \<Longrightarrow>
     unat (of_nat (first_byte (provide_ports self) i) :: u32) = first_byte (provide_ports self) i \<and>
     first_byte (provide_ports self) i < 0x80000000"
proof -
  assume "map_exact self" "i \<le> length (provide_ports self)"
  moreover from this(2) have "first_byte (provide_ports self) i \<le> sizes (provide_ports self)"
    using first_byte_mono [of i "length (provide_ports self)" "provide_ports self"] by (simp add: first_byte_def)
  ultimately have "first_byte (provide_ports self) i < 0x80000000" by (simp add: map_exact_def)
  then show ?thesis by (simp add: unat_of_nat)
qed

lemma route_loop_delivers:
  assumes "ring_documented R" and "env_mem E"
  shows "map_exact (nodes net n) \<Longrightarrow> connector_table (nodes net n) = Some table \<Longrightarrow>
    length table = length (provide_ports (nodes net n)) \<Longrightarrow> i + k \<le> length (provide_ports (nodes net n)) \<Longrightarrow>
    receivers_ready net n table i k \<Longrightarrow>
    first_byte (provide_ports (nodes net n)) (i + k) - first_byte (provide_ports (nodes net n)) i \<le> length data \<Longrightarrow>
    \<exists>net'. route_loop E R n (of_nat (first_byte (provide_ports (nodes net n)) i))
        (of_nat (first_byte (provide_ports (nodes net n)) (i + k))) data APX_NO_ERROR net = Some (APX_NO_ERROR, net') \<and>
      routed (deliveries (provide_ports (nodes net n)) table data i k) net net'"
proof (induction k arbitrary: net i data)
  case 0
  then show ?case using routed_nothing by (subst route_loop.simps) auto
next
  case (Suc k)
  let ?ports = "provide_ports (nodes net n)" and ?stop = "of_nat (first_byte (provide_ports (nodes net n)) (i + Suc k)) :: u32"
  let ?port = "?ports ! i" and ?from = "of_nat (first_byte ?ports i) :: u32"
  let ?n = "unat (pi_data_size ?port)"
  have i: "i < length ?ports" "Suc i \<le> length ?ports" "i \<le> length ?ports" using Suc.prems(4) by simp_all
  note words = first_byte_word [OF Suc.prems(1)]
  have step: "first_byte ?ports (Suc i) = first_byte ?ports i + ?n" by (rule first_byte_Suc [OF i(1)])
  have n: "0 < ?n" using exact_port [OF Suc.prems(1) i(1)] by (simp add: word_less_nat_alt)
  have later: "first_byte ?ports (Suc i) \<le> first_byte ?ports (i + Suc k)" by (rule first_byte_mono) simp
  have lt: "?from < ?stop" using words [OF i(3)] words [OF Suc.prems(4)] step later n by (simp add: word_less_nat_alt)
  have found: "apx_bytePortMap_lookup (byte_port_map (nodes net n)) ?from = Some (of_nat i)" "unat (of_nat i :: u32) = i"
    "of_nat i \<noteq> APX_INVALID_PORT_ID"
    using exact_lookup(1) [OF Suc.prems(1) i(1), of ?from] words [OF i(3)] step n by simp_all
  have q: "pi_queue_length ?port = 0" "\<forall>r\<in>set (table ! i). ready net ?n r" using Suc.prems(5) by (auto simp: receivers_ready_def)
  have "?n \<le> length data" using Suc.prems(6) step later by simp
  from route_to_all_delivers [OF assms q(1) refl this q(2)] obtain net1 where
    n1: "route_to_all E R ?port (table ! i) data APX_NO_ERROR net = (APX_NO_ERROR, net1)"
      "routed (map (\<lambda>r. (r, take ?n data)) (table ! i)) net net1" "\<forall>n' r'. ready net n' r' \<longrightarrow> ready net1 n' r'" by blast
  have same: "same_but_data net net1" using n1(2) by (simp add: routed_def)
  note f = same_but_data_fields [OF same]
  have "?from + pi_data_size ?port = of_nat (first_byte ?ports (Suc i))"
    by (simp add: step)
  then have run: "route_loop E R n ?from ?stop data APX_NO_ERROR net =
      route_loop E R n (of_nat (first_byte ?ports (Suc i))) (of_nat (first_byte ?ports (Suc i + k))) (drop ?n data) APX_NO_ERROR net1"
    using lt found exact_port [OF Suc.prems(1) i(1)] n Suc.prems(2,3) i(1) n1(1)
    by (subst route_loop.simps) auto
  have "receivers_ready net1 n table (Suc i) k"
    using Suc.prems(5) n1(3) by (auto simp: receivers_ready_def f)
  moreover have "first_byte ?ports (Suc i + k) - first_byte ?ports (Suc i) \<le> length (drop ?n data)"
    using Suc.prems(6) step by simp
  ultimately obtain net2 where n2: "route_loop E R n (of_nat (first_byte ?ports (Suc i))) (of_nat (first_byte ?ports (Suc i + k)))
      (drop ?n data) APX_NO_ERROR net1 = Some (APX_NO_ERROR, net2)" "routed (deliveries ?ports table (drop ?n data) (Suc i) k) net1 net2"
    using Suc.IH [of net1 "Suc i" "drop ?n data"] Suc.prems(1-4) by (auto simp: f same_map_exact [OF same])
  show ?case using run n2(1) routed_append [OF n1(2) n2(2)] by (simp add: Let_def)
qed

text \<open> C9:
  A write to whole provide ports, from port \<open>i\<close> on \<open>k\<close> ports, is routed completely: every require port that is
  connected to one of them gets, in order, exactly the bytes of its provider, in the data of its node at its own
  offset and as a message queued for the file of its node; the data of other nodes, the files and the connections
  stay as they are, and no error is reported.
\<close>

theorem write_reaches_receivers:
  assumes "ring_documented R" and "env_mem E" and "map_exact (nodes net n)" and "connector_table (nodes net n) = Some table"
    and "length table = length (provide_ports (nodes net n))" and "i + k \<le> length (provide_ports (nodes net n))"
    and "receivers_ready net n table i k"
    and "unat offset = first_byte (provide_ports (nodes net n)) i"
    and "unat m = first_byte (provide_ports (nodes net n)) (i + k) - first_byte (provide_ports (nodes net n)) i"
    and "unat m \<le> length data"
  shows "\<exists>net'. route_provide_port_data_change_to_receivers E R net n offset data m = Some (APX_NO_ERROR, net') \<and>
    routed (deliveries (provide_ports (nodes net n)) table data i k) net net'"
proof -
  let ?ports = "provide_ports (nodes net n)"
  note words = first_byte_word [OF assms(3)]
  have le: "first_byte ?ports i \<le> first_byte ?ports (i + k)" by (rule first_byte_mono) simp
  have "unat offset + unat m = first_byte ?ports (i + k)" using assms(8,9) le by simp
  moreover have "offset + m = of_nat (unat offset + unat m)" by simp
  ultimately have "offset + m = of_nat (first_byte ?ports (i + k))" by simp
  moreover have "offset = of_nat (first_byte ?ports i)" using assms(8) [symmetric] by simp
  moreover have "byte_port_map (nodes net n) \<noteq> None" using assms(3) by (auto simp: map_exact_def)
  ultimately show ?thesis
    using route_loop_delivers [OF assms(1-7), of data] assms(4,9,10)
    by (simp add: route_provide_port_data_change_to_receivers_def)
qed

section \<open>A network with one provider and two receivers\<close>

definition demo_data :: "byte list \<Rightarrow> byte list \<Rightarrow> apx_nodeData" where
  "demo_data provided required = \<lparr>definition_data = None, require_port_data = Some required, provide_port_data = Some provided,
     definition_data_size = 0, require_port_data_size = of_nat (length required), provide_port_data_size = of_nat (length provided),
     nd_num_require_ports = 0, nd_num_provide_ports = 0, require_port_connection_count = None,
     provide_port_connection_count = None, checksum_data = [], checksum_type = 0, is_weak_ref = False\<rparr>"

definition wired_manager :: apx_fileManager where
  "wired_manager = demo_manager\<lparr>fm_shared := (fm_shared demo_manager)\<lparr>local_file_map :=
     \<lparr>is_remote_map = False, file_list = [(5, (demo_file 0x100 64 2)\<lparr>is_file_open := True\<rparr>)], last_file = None\<rparr>\<rparr>\<rparr>"

text \<open>Node 2 has a file for its require port data, node 1 has none.\<close>

definition wired_net :: network where
  "wired_net = demo_net\<lparr>managers := (\<lambda>m. wired_manager), nodes := (\<lambda>n.
     if n = 0 then demo_provider\<lparr>byte_port_map := Some \<lparr>map_data = owners 0 (provide_ports demo_provider), map_len = 4\<rparr>,
       connector_table := Some [[PORT 1 APX_REQUIRE_PORT 0, PORT 2 APX_REQUIRE_PORT 0]], node_data := Some (demo_data [1, 2, 3, 4] [])\<rparr>
     else (demo_requester n)\<lparr>node_data := Some (demo_data [] [0, 0, 0, 0]),
       require_port_data_file := (if n = 2 then Some (0, 5) else None)\<rparr>)\<rparr>"

lemma wired_ports: "provide_ports (nodes wired_net 0) = [demo_port_of 0 APX_PROVIDE_PORT 0 0 4 demo_key]"
  by (simp add: wired_net_def demo_provider_def)

lemma wired_exact: "map_exact (nodes wired_net 0)"
  by (simp add: map_exact_def map_of_ports_def wired_net_def demo_provider_def sizes_def demo_port_of_def)

lemma wired_manager_ok: "manager_ok wired_manager"
  using demo_manager_ok
  by (simp add: manager_ok_def wired_manager_def demo_manager_def files_ok_def demo_file_def apart_def behind_def
      apx_file_get_address_without_flags_def rmf_fileInfo_address_without_flags_def)

lemma wired_ready: "n \<noteq> 0 \<Longrightarrow> ready wired_net 4 (PORT n APX_REQUIRE_PORT 0)"
  using wired_manager_ok
  by (simp add: ready_def port_of_def apx_nodeInstance_get_require_port_def wired_net_def demo_requester_def demo_port_of_def
      demo_data_def nodeData_ok_def sized_def)
    (simp add: wired_manager_def demo_file_def apx_file_get_address_without_flags_def behind_def
      rmf_fileInfo_address_without_flags_def)

theorem routing_returns_witness:
  "\<exists>e net'. route_provide_port_data_change_to_receivers env_ref ring_ref wired_net 0 2 [1, 2] 2 = Some (e, net')"
  by (rule routing_returns [OF wired_exact])

theorem write_reaches_receivers_witness:
  "\<exists>net'. route_provide_port_data_change_to_receivers env_ref ring_ref wired_net 0 0 [1, 2, 3, 4] 4 = Some (APX_NO_ERROR, net') \<and>
    (\<exists>nd. node_data (nodes net' 1) = Some nd \<and> require_port_data nd = Some [1, 2, 3, 4]) \<and>
    fm_queue (managers net' 0) = [apx_build_command_with_ptr APX_CMD_SEND_LOCAL_DATA 0x100 4 (BYTES [1, 2, 3, 4])]"
proof -
  let ?table = "[[PORT 1 APX_REQUIRE_PORT 0, PORT 2 APX_REQUIRE_PORT 0]]"
  have size: "first_byte (provide_ports (nodes wired_net 0)) 0 = 0" "first_byte (provide_ports (nodes wired_net 0)) 1 = 4"
    by (simp_all add: wired_ports first_byte_def sizes_def demo_port_of_def)
  have "receivers_ready wired_net 0 ?table 0 1"
    using wired_ready by (simp add: receivers_ready_def wired_ports demo_port_of_def)
  moreover have "connector_table (nodes wired_net 0) = Some ?table" by (simp add: wired_net_def)
  ultimately obtain net' where r:
    "route_provide_port_data_change_to_receivers env_ref ring_ref wired_net 0 0 [1, 2, 3, 4] 4 = Some (APX_NO_ERROR, net')"
    "routed (deliveries (provide_ports (nodes wired_net 0)) ?table [1, 2, 3, 4] 0 1) wired_net net'"
    using write_reaches_receivers [OF ring_ref_documented _ wired_exact, of env_ref ?table 0 1 0 4 "[1, 2, 3, 4]"] size
    by (auto simp: wired_ports env_ref_def)
  have d: "deliveries (provide_ports (nodes wired_net 0)) ?table [1, 2, 3, 4] 0 1 =
      [(PORT 1 APX_REQUIRE_PORT 0, [1, 2, 3, 4]), (PORT 2 APX_REQUIRE_PORT 0, [1, 2, 3, 4])]"
    by (simp add: wired_ports demo_port_of_def)
  have "offset_of wired_net (PORT 1 APX_REQUIRE_PORT 0) = 0" "offset_of wired_net (PORT 2 APX_REQUIRE_PORT 0) = 0"
    by (simp_all add: offset_of_def port_of_def apx_nodeInstance_get_require_port_def wired_net_def demo_requester_def demo_port_of_def)
  with r(1) r(2) [unfolded d routed_def] show ?thesis
    by (simp add: stored_def overlay_def file_command_def file_at_def wired_net_def demo_data_def)
      (simp add: wired_manager_def demo_manager_def demo_file_def the_file_def apx_file_get_address_without_flags_def
        rmf_fileInfo_address_without_flags_def)
qed

end
