(* ===== verification/Computation.thy ===== *)
theory Computation
  imports Text
begin

text \<open>
  apx/src/computation.c: the value tables and rational scalings that a type declaration attaches to its values. The
  structures share a base by embedding it as their first member; the tag of the base and its table of functions are the
  constructor of \<open>computation\<close>. The limits are unions of 32 bits. Floating point numbers are the type
  parameter \<open>'d\<close>, with the text that sprintf prints for them as the parameter \<open>print\<close>. Memory is taken to be
  available.
\<close>

section \<open>Data\<close>

record apx_computation =
  comp_is_signed_range :: bool
  comp_lower_limit :: u32
  comp_upper_limit :: u32

record apx_valueTable =
  vt_base :: apx_computation
  vt_values :: "byte list list"

record 'd apx_rationalScaling =
  rs_base :: apx_computation
  rs_offset :: 'd
  rs_numerator :: u32
  rs_denominator :: u32
  rs_unit :: "byte list option"

datatype 'd computation = VALUE_TABLE apx_valueTable | RATIONAL_SCALING "'d apx_rationalScaling"

abbreviation (input) APX_INVALID_COMPUTATION_LIST_ID :: u32 where "APX_INVALID_COMPUTATION_LIST_ID \<equiv> 0xFFFFFFFF"

record 'd apx_computationList =
  computation_list_id :: u32
  computations :: "'d computation list"

section \<open>The base\<close>

definition apx_computation_create :: apx_computation where
  "apx_computation_create = \<lparr>comp_is_signed_range = False, comp_lower_limit = 0, comp_upper_limit = 0\<rparr>"

definition apx_computation_set_range_signed :: "apx_computation \<Rightarrow> u32 \<Rightarrow> u32 \<Rightarrow> apx_computation" where
  "apx_computation_set_range_signed self lower_limit upper_limit =
     self\<lparr>comp_lower_limit := lower_limit, comp_upper_limit := upper_limit, comp_is_signed_range := True\<rparr>"

definition apx_computation_set_range_unsigned :: "apx_computation \<Rightarrow> u32 \<Rightarrow> u32 \<Rightarrow> apx_computation" where
  "apx_computation_set_range_unsigned self lower_limit upper_limit =
     self\<lparr>comp_lower_limit := lower_limit, comp_upper_limit := upper_limit, comp_is_signed_range := False\<rparr>"

definition apx_computation_set_upper_limit_signed :: "apx_computation \<Rightarrow> u32 \<Rightarrow> apx_computation" where
  "apx_computation_set_upper_limit_signed self upper_limit =
     (if comp_is_signed_range self then self\<lparr>comp_upper_limit := upper_limit\<rparr> else self)"

definition apx_computation_set_upper_limit_unsigned :: "apx_computation \<Rightarrow> u32 \<Rightarrow> apx_computation" where
  "apx_computation_set_upper_limit_unsigned self upper_limit =
     (if \<not> comp_is_signed_range self then self\<lparr>comp_upper_limit := upper_limit\<rparr> else self)"

definition apx_computation_assign :: "apx_computation \<Rightarrow> apx_computation \<Rightarrow> apx_computation" where
  "apx_computation_assign lhs rhs =
     (if comp_is_signed_range rhs
      then lhs\<lparr>comp_is_signed_range := True, comp_lower_limit := comp_lower_limit rhs, comp_upper_limit := comp_upper_limit rhs\<rparr>
      else lhs\<lparr>comp_is_signed_range := False, comp_lower_limit := comp_lower_limit rhs, comp_upper_limit := comp_upper_limit rhs\<rparr>)"

definition computation_limit_to_string :: "apx_computation \<Rightarrow> byte list" where
  "computation_limit_to_string self =
     (if comp_is_signed_range self
      then signed_decimal (sint (comp_lower_limit self)) @ 44 # signed_decimal (sint (comp_upper_limit self))
      else decimal (unat (comp_lower_limit self)) @ 44 # decimal (unat (comp_upper_limit self)))"

lemma assign_whole: "apx_computation_assign lhs rhs = rhs"
  by (cases lhs; cases rhs) (simp add: apx_computation_assign_def)

section \<open>Value tables\<close>

definition apx_valueTable_create :: apx_valueTable where
  "apx_valueTable_create = \<lparr>vt_base = apx_computation_create, vt_values = []\<rparr>"

definition apx_valueTable_clone :: "apx_valueTable \<Rightarrow> apx_valueTable" where
  "apx_valueTable_clone other =
     (let self = apx_valueTable_create in
      self\<lparr>vt_base := apx_computation_assign (vt_base self) (vt_base other),
           vt_values := foldl (\<lambda>values v. values @ [v]) (vt_values self) (vt_values other)\<rparr>)"

definition apx_valueTable_set_range_signed :: "apx_valueTable \<Rightarrow> u32 \<Rightarrow> u32 \<Rightarrow> apx_valueTable" where
  "apx_valueTable_set_range_signed self lower upper =
     self\<lparr>vt_base := apx_computation_set_range_signed (vt_base self) lower upper\<rparr>"

definition apx_valueTable_set_range_unsigned :: "apx_valueTable \<Rightarrow> u32 \<Rightarrow> u32 \<Rightarrow> apx_valueTable" where
  "apx_valueTable_set_range_unsigned self lower upper =
     self\<lparr>vt_base := apx_computation_set_range_unsigned (vt_base self) lower upper\<rparr>"

definition apx_valueTable_set_upper_limit_signed :: "apx_valueTable \<Rightarrow> u32 \<Rightarrow> apx_valueTable" where
  "apx_valueTable_set_upper_limit_signed self upper =
     self\<lparr>vt_base := apx_computation_set_upper_limit_signed (vt_base self) upper\<rparr>"

definition apx_valueTable_set_upper_limit_unsigned :: "apx_valueTable \<Rightarrow> u32 \<Rightarrow> apx_valueTable" where
  "apx_valueTable_set_upper_limit_unsigned self upper =
     self\<lparr>vt_base := apx_computation_set_upper_limit_unsigned (vt_base self) upper\<rparr>"

text \<open>The values of the other array, which is empty afterwards.\<close>

definition apx_valueTable_move_values :: "apx_valueTable \<Rightarrow> byte list list \<Rightarrow> apx_valueTable \<times> byte list list" where
  "apx_valueTable_move_values self values =
     (if values \<noteq> [] then (self\<lparr>vt_values := values\<rparr>, []) else (self, values))"

fun values_to_string :: "nat \<Rightarrow> byte list list \<Rightarrow> byte list" where
  "values_to_string i [] = []"
| "values_to_string i (v # values) = (if i > 0 then [44] else []) @ 34 # v @ 34 # values_to_string (Suc i) values"

definition apx_valueTable_to_string :: "apx_valueTable \<Rightarrow> byte list" where
  "apx_valueTable_to_string self =
     [86, 84, 40] @ computation_limit_to_string (vt_base self) @ [44] @ values_to_string 0 (vt_values self) @ [41]"

section \<open>Rational scalings\<close>

definition apx_rationalScaling_create :: "'d \<Rightarrow> u32 \<Rightarrow> u32 \<Rightarrow> byte list option \<Rightarrow> 'd apx_rationalScaling" where
  "apx_rationalScaling_create offset numerator denominator unit =
     \<lparr>rs_base = apx_computation_create, rs_offset = offset, rs_numerator = numerator, rs_denominator = denominator,
      rs_unit = unit\<rparr>"

definition apx_rationalScaling_clone :: "'d apx_rationalScaling \<Rightarrow> 'd apx_rationalScaling" where
  "apx_rationalScaling_clone other =
     (let self = apx_rationalScaling_create (rs_offset other) (rs_numerator other) (rs_denominator other) (rs_unit other) in
      self\<lparr>rs_base := apx_computation_assign (rs_base self) (rs_base other)\<rparr>)"

definition apx_rationalScaling_set_range_signed :: "'d apx_rationalScaling \<Rightarrow> u32 \<Rightarrow> u32 \<Rightarrow> 'd apx_rationalScaling" where
  "apx_rationalScaling_set_range_signed self lower upper =
     self\<lparr>rs_base := apx_computation_set_range_signed (rs_base self) lower upper\<rparr>"

definition apx_rationalScaling_set_range_unsigned :: "'d apx_rationalScaling \<Rightarrow> u32 \<Rightarrow> u32 \<Rightarrow> 'd apx_rationalScaling" where
  "apx_rationalScaling_set_range_unsigned self lower upper =
     self\<lparr>rs_base := apx_computation_set_range_unsigned (rs_base self) lower upper\<rparr>"

abbreviation (input) TMP_BUF_SIZE :: nat where "TMP_BUF_SIZE \<equiv> 80"

text \<open>
  The printed offset goes through a buffer of 80 bytes that a large number overruns. A unit that is null appends nothing.
\<close>

definition apx_rationalScaling_to_string :: "('d \<Rightarrow> byte list) \<Rightarrow> 'd apx_rationalScaling \<Rightarrow> fault + byte list" where
  "apx_rationalScaling_to_string print self =
     (let offset = print (rs_offset self) in
      if length offset \<ge> TMP_BUF_SIZE then Inl OUT_OF_BOUNDS
      else Inr ([82, 83, 40] @ computation_limit_to_string (rs_base self) @ [44] @ offset @ [44] @
        signed_decimal (sint (rs_numerator self)) @ 44 # signed_decimal (sint (rs_denominator self)) @ [44] @
        [34] @ the_default [] (rs_unit self) @ [34] @ [41]))"

fun apx_computation_to_string :: "('d \<Rightarrow> byte list) \<Rightarrow> 'd computation \<Rightarrow> fault + byte list" where
  "apx_computation_to_string print (VALUE_TABLE vt) = Inr (apx_valueTable_to_string vt)"
| "apx_computation_to_string print (RATIONAL_SCALING rs) = apx_rationalScaling_to_string print rs"

section \<open>Lists of computations\<close>

definition apx_computationList_create :: "'d apx_computationList" where
  "apx_computationList_create = \<lparr>computation_list_id = APX_INVALID_COMPUTATION_LIST_ID, computations = []\<rparr>"

definition apx_computationList_set_id :: "'d apx_computationList \<Rightarrow> u32 \<Rightarrow> 'd apx_computationList" where
  "apx_computationList_set_id self list_id = self\<lparr>computation_list_id := list_id\<rparr>"

definition apx_computationList_append_clone_of_computation ::
  "'d apx_computationList \<Rightarrow> 'd computation \<Rightarrow> apx_error \<times> 'd apx_computationList" where
  "apx_computationList_append_clone_of_computation self computation =
     (APX_NO_ERROR, self\<lparr>computations := computations self @
        [case computation of
           VALUE_TABLE vt \<Rightarrow> VALUE_TABLE (apx_valueTable_clone vt)
         | RATIONAL_SCALING rs \<Rightarrow> RATIONAL_SCALING (apx_rationalScaling_clone rs)]\<rparr>)"

text \<open>A clone is the computation it was made from.\<close>

lemma append_all: "foldl (\<lambda>values v. values @ [v]) xs ys = xs @ ys"
  by (induction ys arbitrary: xs) auto

lemma appended_clone:
  "apx_computationList_append_clone_of_computation self c = (APX_NO_ERROR, self\<lparr>computations := computations self @ [c]\<rparr>)"
proof -
  have "apx_valueTable_clone vt = vt" for vt
    by (cases vt) (simp add: apx_valueTable_clone_def apx_valueTable_create_def assign_whole append_all)
  moreover have "apx_rationalScaling_clone rs = rs" for rs :: "'a apx_rationalScaling"
    by (cases rs) (simp add: apx_rationalScaling_clone_def apx_rationalScaling_create_def assign_whole)
  ultimately show ?thesis
    by (cases c) (simp_all add: apx_computationList_append_clone_of_computation_def)
qed

end
