(* ===== verification/AttributeParser.thy ===== *)
theory AttributeParser
  imports Dtl Computation SignatureParser
begin

text \<open>
  apx/src/attribute_parser.c: initial values, queue lengths, value tables and rational scalings behind the colon of a
  declaration. The parser works on a text of which it knows the end, but the C library's strtoul and some look-ahead
  do not: \<open>mem\<close> is the memory from the start of the text on, \<open>fin\<close> the position of its end, and
  an access behind \<open>mem\<close> is a fault. Memory is taken to be available.

  The text scanner, the values and the strings of the libraries are in the parameter \<open>L\<close>.
\<close>

section \<open>Libraries\<close>

record ('v, 'd) definition_lib =
  dl_bstr :: bstr
  dl_dtl :: "'v dtl"
  dl_text :: text_lib
  match_cstr :: "byte list \<Rightarrow> byte list \<Rightarrow> pointer"
  search_val :: "byte list \<Rightarrow> byte \<Rightarrow> pointer"
  to_double :: "byte list \<Rightarrow> pointer \<times> 'd"

text \<open>What a function does next when a call before it did not end the program.\<close>

definition safely :: "fault + 'a \<Rightarrow> ('a \<Rightarrow> fault + 'b) \<Rightarrow> fault + 'b" where
  "safely r f = (case r of Inl x \<Rightarrow> Inl x | Inr a \<Rightarrow> f a)"

lemma safely_simps [simp]: "safely (Inl x) f = Inl x" "safely (Inr a) f = f a"
  by (simp_all add: safely_def)

lemma safely_cong [fundef_cong]: "r = r' \<Longrightarrow> (\<And>a. r' = Inr a \<Longrightarrow> f a = g a) \<Longrightarrow> safely r f = safely r' g"
  by (cases r') simp_all

lemma safely_Inr: "safely r f = Inr y \<longleftrightarrow> (\<exists>a. r = Inr a \<and> f a = Inr y)"
  by (cases r) simp_all

definition char_at :: "byte list \<Rightarrow> nat \<Rightarrow> fault + byte" where
  "char_at mem i = (if i < length mem then Inr (mem ! i) else Inl OUT_OF_BOUNDS)"

section \<open>The C library's strtoul with base 0\<close>

text \<open>
  Blanks, a sign, and digits whose base the first of them tell: the number, negated for a minus sign and the largest
  one if it is too large, and the count of bytes read, none if there is no number. The digits must end before the memory does.
\<close>

definition digit_of :: "byte \<Rightarrow> nat" where
  "digit_of c = (if is_digit c then unat c - 48 else if 97 \<le> c \<and> c \<le> 102 then unat c - 87
     else if 65 \<le> c \<and> c \<le> 70 then unat c - 55 else 99)"

definition number_of :: "nat \<Rightarrow> byte list \<Rightarrow> nat" where
  "number_of base ds = foldl (\<lambda>v c. base * v + digit_of c) 0 ds"

definition base_prefix :: "byte list \<Rightarrow> (nat \<times> nat) option" where
  "base_prefix body =
     (case body of
        [] \<Rightarrow> None
      | c # cs \<Rightarrow>
          if c \<noteq> 48 then Some (10, 0)
          else (case cs of
                  [] \<Rightarrow> None
                | x # xs \<Rightarrow>
                    if x = 120 \<or> x = 88
                    then (case xs of [] \<Rightarrow> None | h # hs \<Rightarrow> if digit_of h < 16 then Some (16, 2) else Some (8, 0))
                    else Some (8, 0)))"

definition strtoul :: "byte list \<Rightarrow> fault + (u64 \<times> nat)" where
  "strtoul bs =
     (let blanks = length (takeWhile is_space bs); unsigned_part = drop blanks bs in
      case unsigned_part of
        [] \<Rightarrow> Inl OUT_OF_BOUNDS
      | c # cs \<Rightarrow>
          let has_sign = c = 43 \<or> c = 45; body = (if has_sign then cs else c # cs) in
          (case base_prefix body of
             None \<Rightarrow> Inl OUT_OF_BOUNDS
           | Some (base, skipped) \<Rightarrow>
               let digits = takeWhile (\<lambda>c. digit_of c < base) (drop skipped body);
                   magnitude = number_of base digits in
               if length digits = length (drop skipped body) then Inl OUT_OF_BOUNDS
               else if digits = [] then Inr (0, 0)
               else Inr (if magnitude < 2 ^ 64 then (if c = 45 then - word_of_nat magnitude else word_of_nat magnitude)
                         else 0xFFFFFFFFFFFFFFFF,
                         blanks + (if has_sign then 1 else 0) + skipped + length digits)))"

section \<open>State\<close>

record 'v apx_attributeParseState =
  ps_sv :: "'v option"
  ps_initializer_list :: "'v option"

text \<open>
  The stack, its top first, holds the lists around the current state: the first of them is the parent of the state, and
  a state without parent is one with nothing on the stack. Taking the top off the stack leaves the object alone.
\<close>

record 'v apx_attributeParser =
  ap_stack :: "'v apx_attributeParseState list"
  ap_state :: "'v apx_attributeParseState option"
  ap_last_error :: apx_error
  ap_error_next :: "nat option"

definition apx_attributeParseState_create :: "'v apx_attributeParseState" where
  "apx_attributeParseState_create = \<lparr>ps_sv = None, ps_initializer_list = None\<rparr>"

definition apx_attributeParseState_has_value :: "'v apx_attributeParseState \<Rightarrow> bool" where
  "apx_attributeParseState_has_value self \<longleftrightarrow> ps_sv self \<noteq> None \<or> ps_initializer_list self \<noteq> None"

definition apx_attributeParser_create :: "'v apx_attributeParser" where
  "apx_attributeParser_create = \<lparr>ap_stack = [], ap_state = None, ap_last_error = APX_NO_ERROR, ap_error_next = None\<rparr>"

definition apx_attributeParser_reset :: "'v apx_attributeParser \<Rightarrow> 'v apx_attributeParser" where
  "apx_attributeParser_reset self = \<lparr>ap_stack = [], ap_state = None, ap_last_error = APX_NO_ERROR, ap_error_next = None\<rparr>"

definition apx_attributeParser_set_error :: "'v apx_attributeParser \<Rightarrow> apx_error \<Rightarrow> nat option \<Rightarrow> 'v apx_attributeParser" where
  "apx_attributeParser_set_error self error error_next = self\<lparr>ap_last_error := error, ap_error_next := error_next\<rparr>"

definition apx_attributeParser_get_last_error :: "'v apx_attributeParser \<Rightarrow> apx_error \<times> nat option" where
  "apx_attributeParser_get_last_error self = (ap_last_error self, ap_error_next self)"

definition apx_attributeParser_is_initializer_list :: "'v apx_attributeParser \<Rightarrow> bool" where
  "apx_attributeParser_is_initializer_list self \<longleftrightarrow> ap_stack self \<noteq> []"

definition at_state :: "('v apx_attributeParseState \<Rightarrow> 'v apx_attributeParseState) \<Rightarrow> 'v apx_attributeParser \<Rightarrow> 'v apx_attributeParser" where
  "at_state f self = self\<lparr>ap_state := map_option f (ap_state self)\<rparr>"

section \<open>Scalars\<close>

text \<open>The number of a minus sign and 2147483648 is the least one; larger numbers lose their minus sign.\<close>

definition apx_attributeParser_parse_integer_literal ::
  "('v, 'd) definition_lib \<Rightarrow> byte list \<Rightarrow> nat \<Rightarrow> nat \<Rightarrow> bool \<Rightarrow> 'v option \<Rightarrow> fault + (pointer \<times> 'v option)" where
  "apx_attributeParser_parse_integer_literal L mem next fin unary_minus sv =
     safely (strtoul (drop next mem)) (\<lambda>(v, k).
       if 0 < k \<and> next + k \<le> fin then
         Inr (At (next + k),
           if unary_minus \<and> v = 0x80000000 then sv_set_i32 (dl_dtl L) sv 0x80000000
           else if v > 0x7FFFFFFF then sv_set_u32 (dl_dtl L) sv (ucast v)
           else sv_set_i32 (dl_dtl L) sv (if unary_minus then - ucast v else ucast v))
       else Inr (NULLP, sv))"

definition apx_attributeParser_parse_string_literal ::
  "('v, 'd) definition_lib \<Rightarrow> byte list \<Rightarrow> nat \<Rightarrow> nat \<Rightarrow> 'v option \<Rightarrow> fault + (pointer \<times> 'v option)" where
  "apx_attributeParser_parse_string_literal L mem begin fin sv =
     (if \<not> begin < fin then Inl ASSERT_FAILURE
      else case move begin (match_pair (dl_bstr L) (drop begin (take fin mem)) 34 34 92) of
        At next \<Rightarrow>
          if next > begin then
            (if next < fin then Inr (At (Suc next), sv_set_str (dl_dtl L) sv (between (Suc begin) next mem)) else Inl ASSERT_FAILURE)
          else Inr (At next, sv)
      | result \<Rightarrow> Inr (result, sv))"

text \<open>
  A scalar: digits, a minus sign with digits behind it, or a string. The value is a new one even if nothing can be read into it.
\<close>

definition scalar_read ::
  "nat \<Rightarrow> fault + (pointer \<times> 'v option) \<Rightarrow> 'v apx_attributeParser \<Rightarrow> fault + (pointer \<times> 'v apx_attributeParser)" where
  "scalar_read next r self =
     safely r (\<lambda>(result, sv).
       let self = at_state (\<lambda>st. st\<lparr>ps_sv := sv\<rparr>) self in
       Inr (if beyond result next then result else At next, self))"

definition apx_attributeParser_parse_scalar ::
  "('v, 'd) definition_lib \<Rightarrow> byte list \<Rightarrow> nat \<Rightarrow> nat \<Rightarrow> 'v apx_attributeParser \<Rightarrow> fault + (pointer \<times> 'v apx_attributeParser)" where
  "apx_attributeParser_parse_scalar L mem next fin self =
     safely (char_at mem next) (\<lambda>c.
       if is_digit c then
         scalar_read next (apx_attributeParser_parse_integer_literal L mem next fin False (sv_new (dl_dtl L))) self
       else if c = 45 then
         (if Suc next < fin then
            scalar_read (Suc next) (apx_attributeParser_parse_integer_literal L mem (Suc next) fin True (sv_new (dl_dtl L))) self
          else Inr (NULLP, self))
       else if c = 34 then
         scalar_read next (apx_attributeParser_parse_string_literal L mem next fin (sv_new (dl_dtl L))) self
       else Inr (At next, self))"

section \<open>Initial values\<close>

definition apx_attributeParser_push_value_to_parent ::
  "('v, 'd) definition_lib \<Rightarrow> 'v apx_attributeParser \<Rightarrow> fault + (bool \<times> 'v apx_attributeParser)" where
  "apx_attributeParser_push_value_to_parent L self =
     (case (ap_state self, ap_stack self) of
        (None, _) \<Rightarrow> Inl NULL_ACCESS
      | (Some st, []) \<Rightarrow> Inr (True, self)
      | (Some st, parent # stack) \<Rightarrow>
          if ps_initializer_list parent = None then Inl ASSERT_FAILURE
          else if ps_sv st \<noteq> None then
            Inr (True, self\<lparr>ap_stack := parent\<lparr>ps_initializer_list :=
              av_push (dl_dtl L) (ps_initializer_list parent) (ps_sv st)\<rparr> # stack, ap_state := Some (st\<lparr>ps_sv := None\<rparr>)\<rparr>)
          else if ps_initializer_list st \<noteq> None then
            Inr (True, self\<lparr>ap_stack := parent\<lparr>ps_initializer_list :=
              av_push (dl_dtl L) (ps_initializer_list parent) (ps_initializer_list st)\<rparr> # stack,
              ap_state := Some (st\<lparr>ps_initializer_list := None\<rparr>)\<rparr>)
          else Inr (False, self))"

lemma push_value_keeps_stack:
  "apx_attributeParser_push_value_to_parent L self = Inr (ok, self') \<Longrightarrow> length (ap_stack self') = length (ap_stack self)"
  by (auto simp: apx_attributeParser_push_value_to_parent_def split: option.splits list.splits if_splits)

text \<open>What follows a value: the loop goes on behind a comma, or it is left, or the function returns null.\<close>

datatype after_value = GO_ON nat | LEAVE nat | REFUSE

function post_value_handler ::
  "('v, 'd) definition_lib \<Rightarrow> byte list \<Rightarrow> nat \<Rightarrow> nat \<Rightarrow> 'v apx_attributeParser \<Rightarrow> fault + (after_value \<times> 'v apx_attributeParser)" where
  "post_value_handler L mem next fin self =
     (if apx_attributeParser_is_initializer_list self then
        (let next = skip (dl_bstr L) (take fin mem) next in
         safely (char_at mem next) (\<lambda>c.
         safely (case ap_state self of
                   None \<Rightarrow> Inl NULL_ACCESS
                 | Some st \<Rightarrow>
                     if apx_attributeParseState_has_value st then apx_attributeParser_push_value_to_parent L self
                     else Inr (True, self)) (\<lambda>(ok, self).
           if \<not> ok then Inr (REFUSE, self)
           else if av_length (dl_dtl L) (ps_initializer_list (hd (ap_stack self))) \<noteq> 0 \<and> c = 44 then Inr (GO_ON (Suc next), self)
           else if c = 125 then
             (let self = self\<lparr>ap_state := Some (hd (ap_stack self)), ap_stack := tl (ap_stack self)\<rparr> in
              if ap_stack self = [] then Inr (LEAVE (Suc next), self)
              else post_value_handler L mem (Suc next) fin self)
           else Inr (REFUSE, self))))
      else Inr (LEAVE next, self))"
  by pat_completeness auto

termination
  by (relation "measure (\<lambda>(L, mem, next, fin, self). length (ap_stack self))")
    (auto simp: apx_attributeParser_is_initializer_list_def dest: push_value_keeps_stack split: option.splits if_splits)

declare post_value_handler.simps [simp del]

lemma post_value_forward:
  "post_value_handler L mem next fin self = Inr (GO_ON n, self') \<Longrightarrow> next < n"
proof (induction L mem "next" fin self arbitrary: n self' rule: post_value_handler.induct)
  case (1 L mem "next" fin self)
  show ?case
  proof (cases "apx_attributeParser_is_initializer_list self")
    case False
    with "1.prems" show ?thesis by (subst (asm) post_value_handler.simps) simp
  next
    case True
    let ?next = "skip (dl_bstr L) (take fin mem) next"
    have le: "next \<le> ?next" by (simp add: skip_def)
    note run = "1.prems" [unfolded post_value_handler.simps [of L mem "next" fin self] if_P [OF True] Let_def safely_Inr]
    then obtain c r where r: "char_at mem ?next = Inr c"
      "(case ap_state self of None \<Rightarrow> Inl NULL_ACCESS | Some st \<Rightarrow>
          if apx_attributeParseState_has_value st then apx_attributeParser_push_value_to_parent L self else Inr (True, self)) = Inr r"
      by blast
    obtain ok self1 where ok: "r = (ok, self1)" by (cases r)
    have "next < n" if "ok" "\<not> (av_length (dl_dtl L) (ps_initializer_list (hd (ap_stack self1))) \<noteq> 0 \<and> c = 44)" "c = 125"
      "tl (ap_stack self1) \<noteq> []"
      using "1.IH" [OF True refl r ok [symmetric], where n = n and self' = self'] that run r ok le by fastforce
    with run r ok le show ?thesis by (auto split: if_splits)
  qed
qed

lemma beyond_at: "beyond p n \<Longrightarrow> n < at p"
  by (cases p) simp_all

text \<open>The loop over the values; the result is where it stops.\<close>

function initializer_loop ::
  "('v, 'd) definition_lib \<Rightarrow> byte list \<Rightarrow> nat \<Rightarrow> nat \<Rightarrow> 'v apx_attributeParser \<Rightarrow> fault + (pointer \<times> 'v apx_attributeParser)" where
  "initializer_loop L mem next fin self =
     (if next < fin then
        (let next = skip (dl_bstr L) (take fin mem) next in
         safely (char_at mem next) (\<lambda>c.
           if c = 123 then
             (case ap_state self of
                None \<Rightarrow> Inl NULL_ACCESS
              | Some st \<Rightarrow> initializer_loop L mem (Suc next) fin
                  (self\<lparr>ap_stack := st\<lparr>ps_initializer_list := av_new (dl_dtl L)\<rparr> # ap_stack self,
                        ap_state := Some apx_attributeParseState_create\<rparr>))
           else safely (apx_attributeParser_parse_scalar L mem next fin self) (\<lambda>(result, self).
             if result = NULLP then Inr (NULLP, self)
             else let next = (if beyond result next then at result else next) in
               safely (post_value_handler L mem next fin self) (\<lambda>(after, self).
                 case after of
                   GO_ON n \<Rightarrow> if n > next then initializer_loop L mem n fin self else Inr (NULLP, self)
                 | LEAVE n \<Rightarrow> Inr (At n, self)
                 | REFUSE \<Rightarrow> Inr (NULLP, self)))))
      else Inr (At next, self))"
  by pat_completeness auto

termination
  by (relation "measure (\<lambda>(L, mem, next, fin, self). fin - next)")
    (auto simp: skip_def split: if_splits dest: beyond_at)

declare initializer_loop.simps [simp del]

text \<open>The test of the loop that the handler moves on holds always: it is there for the termination of the definition.\<close>

lemma initializer_loop_step:
  "initializer_loop L mem next fin self =
     (if next < fin then
        (let next = skip (dl_bstr L) (take fin mem) next in
         safely (char_at mem next) (\<lambda>c.
           if c = 123 then
             (case ap_state self of
                None \<Rightarrow> Inl NULL_ACCESS
              | Some st \<Rightarrow> initializer_loop L mem (Suc next) fin
                  (self\<lparr>ap_stack := st\<lparr>ps_initializer_list := av_new (dl_dtl L)\<rparr> # ap_stack self,
                        ap_state := Some apx_attributeParseState_create\<rparr>))
           else safely (apx_attributeParser_parse_scalar L mem next fin self) (\<lambda>(result, self).
             if result = NULLP then Inr (NULLP, self)
             else let next = (if beyond result next then at result else next) in
               safely (post_value_handler L mem next fin self) (\<lambda>(after, self).
                 case after of GO_ON n \<Rightarrow> initializer_loop L mem n fin self
                 | LEAVE n \<Rightarrow> Inr (At n, self) | REFUSE \<Rightarrow> Inr (NULLP, self)))))
      else Inr (At next, self))"
proof -
  have "safely (post_value_handler L mem k fin st) (\<lambda>(after, self).
         case after of GO_ON n \<Rightarrow> if n > k then initializer_loop L mem n fin self else Inr (NULLP, self)
         | LEAVE n \<Rightarrow> Inr (At n, self) | REFUSE \<Rightarrow> Inr (NULLP, self)) =
      safely (post_value_handler L mem k fin st) (\<lambda>(after, self).
         case after of GO_ON n \<Rightarrow> initializer_loop L mem n fin self
         | LEAVE n \<Rightarrow> Inr (At n, self) | REFUSE \<Rightarrow> Inr (NULLP, self))" for k st
    by (rule safely_cong [OF refl]) (auto split: after_value.split dest: post_value_forward)
  then show ?thesis by (subst initializer_loop.simps) (simp only:)
qed

definition apx_attributeParser_parse_initializer_list ::
  "('v, 'd) definition_lib \<Rightarrow> byte list \<Rightarrow> nat \<Rightarrow> nat \<Rightarrow> 'v apx_attributeParser \<Rightarrow> fault + (pointer \<times> 'v apx_attributeParser)" where
  "apx_attributeParser_parse_initializer_list L mem begin fin self =
     safely (initializer_loop L mem begin fin self) (\<lambda>(result, self).
       Inr (case result of At next \<Rightarrow> At (skip (dl_bstr L) (take fin mem) next) | _ \<Rightarrow> result, self))"

text \<open>The value is stored in the caller's variable, which keeps what it holds when there is none.\<close>

definition apx_attributeParser_parse_initializer ::
  "('v, 'd) definition_lib \<Rightarrow> byte list \<Rightarrow> nat \<Rightarrow> nat \<Rightarrow> 'v option \<Rightarrow> 'v apx_attributeParser \<Rightarrow>
     fault + (pointer \<times> 'v option \<times> 'v apx_attributeParser)" where
  "apx_attributeParser_parse_initializer L mem begin fin dv self =
     (if \<not> begin \<le> fin then Inr (NULLP, dv, self)
      else
        safely (apx_attributeParser_parse_initializer_list L mem begin fin
            ((apx_attributeParser_reset self)\<lparr>ap_state := Some apx_attributeParseState_create\<rparr>)) (\<lambda>(result, self).
          case ap_state self of
            None \<Rightarrow> Inl NULL_ACCESS
          | Some st \<Rightarrow>
              if beyond result begin \<and> \<not> at result \<le> fin then Inl ASSERT_FAILURE
              else Inr (result,
                if beyond result begin then
                  (if ps_initializer_list st \<noteq> None then ps_initializer_list st
                   else if ps_sv st \<noteq> None then ps_sv st else dv)
                else dv,
                (if result = NULLP then apx_attributeParser_set_error self APX_PARSE_ERROR (Some begin) else self)
                  \<lparr>ap_state := None\<rparr>)))"

section \<open>Queue lengths\<close>

definition apx_attributeParser_parse_array_length ::
  "('v, 'd) definition_lib \<Rightarrow> byte list \<Rightarrow> nat \<Rightarrow> nat \<Rightarrow> u32 \<Rightarrow> pointer \<times> u32" where
  "apx_attributeParser_parse_array_length L mem begin fin n =
     (let B = dl_bstr L; txt = take fin mem in
      if \<not> begin < fin then (At begin, n)
      else if txt ! begin \<noteq> 91 then (NULLP, n)
      else let next = skip B txt (Suc begin) in
      if \<not> next < fin then (At begin, n)
      else case apx_parserBase_parse_u32 B txt next of (result, m) \<Rightarrow>
        if \<not> beyond result next then (NULLP, n)
        else let n = (if at result \<le> fin then m else n); next = skip B txt (at result) in
        if \<not> next < fin then (At begin, n)
        else if txt ! next = 93 then (At (Suc next), n)
        else (NULLP, n))"

section \<open>Ranges\<close>

record apx_range =
  range_lower :: u32
  range_upper :: u32
  range_is_signed :: bool

definition apx_range_create :: apx_range where
  "apx_range_create = \<lparr>range_lower = 0, range_upper = 0, range_is_signed = False\<rparr>"

text \<open>The number is cut to 32 bits; the negation of the least number of 32 bits is that number itself.\<close>

definition apx_attributeParser_parse_lower_limit ::
  "byte list \<Rightarrow> nat \<Rightarrow> nat \<Rightarrow> bool \<Rightarrow> apx_range \<Rightarrow> fault + (pointer \<times> apx_range)" where
  "apx_attributeParser_parse_lower_limit mem begin fin unary_minus rng =
     safely (strtoul (drop begin mem)) (\<lambda>(v, k).
       let tmp = ucast v :: u32 in
       if 0 < k \<and> begin + k \<le> fin then
         (if unary_minus then
            (if tmp > 0x80000000 then Inr (NULLP, rng)
             else Inr (At (begin + k), rng\<lparr>range_lower := - tmp, range_is_signed := True\<rparr>))
          else Inr (At (begin + k), rng\<lparr>range_lower := tmp\<rparr>))
       else Inr (NULLP, rng))"

definition apx_attributeParser_parse_upper_limit ::
  "byte list \<Rightarrow> nat \<Rightarrow> nat \<Rightarrow> bool \<Rightarrow> apx_range \<Rightarrow> fault + (pointer \<times> apx_range)" where
  "apx_attributeParser_parse_upper_limit mem begin fin unary_minus rng =
     safely (strtoul (drop begin mem)) (\<lambda>(v, k).
       let tmp = ucast v :: u32 in
       if 0 < k \<and> begin + k \<le> fin then
         (if unary_minus then
            (if \<not> range_is_signed rng then Inr (NULLP, rng)
             else if tmp > 0x80000000 then Inr (NULLP, rng)
             else Inr (At (begin + k), rng\<lparr>range_upper := - tmp\<rparr>))
          else if range_is_signed rng then
            (if tmp \<ge> 0x80000000 then Inr (NULLP, rng)
             else Inr (At (begin + k), rng\<lparr>range_upper := tmp\<rparr>))
          else Inr (At (begin + k), rng\<lparr>range_upper := tmp\<rparr>))
       else Inr (NULLP, rng))"

section \<open>Value tables\<close>

record apx_attributeParserValueTableState =
  vts_range :: apx_range
  vts_values :: "byte list list"
  vts_num_count :: int
  vts_last_was_string :: bool

definition apx_attributeParserValueTableState_create :: apx_attributeParserValueTableState where
  "apx_attributeParserValueTableState_create =
     \<lparr>vts_range = apx_range_create, vts_values = [], vts_num_count = 0, vts_last_was_string = False\<rparr>"

definition apx_attributeParserValueTableState_append ::
  "apx_attributeParserValueTableState \<Rightarrow> byte list \<Rightarrow> apx_attributeParserValueTableState" where
  "apx_attributeParserValueTableState_append self str = self\<lparr>vts_values := vts_values self @ [str]\<rparr>"

text \<open>The upper limit follows the number of values when the text names at most one number.\<close>

fun follow_values :: "bool \<Rightarrow> nat \<Rightarrow> u32 \<Rightarrow> apx_computation \<Rightarrow> apx_computation" where
  "follow_values is_signed_range 0 index base = base"
| "follow_values is_signed_range (Suc n) index base =
     follow_values is_signed_range n (index + 1)
       (if is_signed_range
        then (if sint (comp_upper_limit base) < sint index then base\<lparr>comp_upper_limit := index\<rparr> else base)
        else (if comp_upper_limit base < index then base\<lparr>comp_upper_limit := index\<rparr> else base))"

definition apx_attributeParser_create_value_table_from_state :: "apx_attributeParserValueTableState \<Rightarrow> apx_valueTable" where
  "apx_attributeParser_create_value_table_from_state vts =
     (let vt = apx_valueTable_create; rng = vts_range vts;
          auto_upper_limit = \<not> vts_num_count vts > 0 \<or> vts_num_count vts = 1;
          upper = (if vts_num_count vts = 1 then range_lower rng else range_upper rng);
          vt = (if vts_num_count vts > 0 then
                  (if range_is_signed rng then apx_valueTable_set_range_signed vt (range_lower rng) upper
                   else apx_valueTable_set_range_unsigned vt (range_lower rng) upper)
                else vt);
          vt = (if auto_upper_limit
                then vt\<lparr>vt_base := follow_values (range_is_signed rng) (length (vts_values vts)) (comp_lower_limit (vt_base vt)) (vt_base vt)\<rparr>
                else vt)
      in fst (apx_valueTable_move_values vt (vts_values vts)))"

text \<open>
  One argument. The error is noted at the place the parser has reached; behind a minus sign that is its digit.
\<close>

definition value_table_number ::
  "byte list \<Rightarrow> nat \<Rightarrow> nat \<Rightarrow> bool \<Rightarrow> apx_attributeParserValueTableState \<Rightarrow> 'v apx_attributeParser \<Rightarrow>
     fault + (pointer \<times> apx_attributeParserValueTableState \<times> 'v apx_attributeParser)" where
  "value_table_number mem next fin unary_minus vts self =
     safely (if vts_num_count vts = 0 then apx_attributeParser_parse_lower_limit mem next fin unary_minus (vts_range vts)
             else if vts_num_count vts = 1 then apx_attributeParser_parse_upper_limit mem next fin unary_minus (vts_range vts)
             else Inr (NULLP, vts_range vts)) (\<lambda>(result, rng).
       let vts = vts\<lparr>vts_range := rng, vts_num_count := vts_num_count vts + 1\<rparr> in
       if result = NULLP then Inr (NULLP, vts, apx_attributeParser_set_error self APX_PARSE_ERROR (Some next))
       else Inr (if beyond result next then result else At next, vts, self))"

definition value_table_string ::
  "('v, 'd) definition_lib \<Rightarrow> byte list \<Rightarrow> nat \<Rightarrow> nat \<Rightarrow> apx_attributeParserValueTableState \<Rightarrow> 'v apx_attributeParser \<Rightarrow>
     pointer \<times> apx_attributeParserValueTableState \<times> 'v apx_attributeParser" where
  "value_table_string L mem next fin vts self =
     (let result = move next (match_pair (dl_bstr L) (drop next (take fin mem)) 34 34 92);
          vts = vts\<lparr>vts_last_was_string := True\<rparr> in
      if beyond result next then
        (At (Suc (at result)), apx_attributeParserValueTableState_append vts (between (Suc next) (at result) mem), self)
      else if result = NULLP then (NULLP, vts, apx_attributeParser_set_error self APX_PARSE_ERROR (Some next))
      else (At next, vts, self))"

definition apx_attributeParser_parse_value_table_arg ::
  "('v, 'd) definition_lib \<Rightarrow> byte list \<Rightarrow> nat \<Rightarrow> nat \<Rightarrow> apx_attributeParserValueTableState \<Rightarrow> 'v apx_attributeParser \<Rightarrow>
     fault + (pointer \<times> apx_attributeParserValueTableState \<times> 'v apx_attributeParser)" where
  "apx_attributeParser_parse_value_table_arg L mem begin fin vts self =
     (if \<not> begin < fin then Inr (At begin, vts, self)
      else safely (char_at mem begin) (\<lambda>c.
        if c = 34 then Inr (value_table_string L mem begin fin vts self)
        else if vts_last_was_string vts then Inr (NULLP, vts, apx_attributeParser_set_error self APX_PARSE_ERROR None)
        else if c = 45 then value_table_number mem (Suc begin) fin True vts self
        else if is_digit c then value_table_number mem begin fin False vts self
        else Inr (NULLP, vts, apx_attributeParser_set_error self APX_PARSE_ERROR None)))"

text \<open>
  The loop over the arguments, up to the closing bracket; without one the result is the place where the arguments began,
  which the caller takes for a failure. The loop goes on whatever the character behind an argument is.
\<close>

function value_table_args ::
  "('v, 'd) definition_lib \<Rightarrow> byte list \<Rightarrow> nat \<Rightarrow> nat \<Rightarrow> nat \<Rightarrow> apx_attributeParserValueTableState \<Rightarrow> 'v apx_attributeParser \<Rightarrow>
     fault + (pointer \<times> apx_valueTable option \<times> 'v apx_attributeParser)" where
  "value_table_args L mem begin next fin vts self =
     (if next < fin then
        (let next = skip (dl_bstr L) (take fin mem) next in
         safely (apx_attributeParser_parse_value_table_arg L mem next fin vts self) (\<lambda>(result, vts, self).
           if \<not> beyond result next then Inr (At begin, None, self)
           else if \<not> at result \<le> fin then Inl ASSERT_FAILURE
           else let next = skip (dl_bstr L) (take fin mem) (at result) in
             safely (char_at mem next) (\<lambda>c.
               if c = 44 then value_table_args L mem begin (Suc next) fin vts self
               else if c = 41 then Inr (At (Suc next), Some (apx_attributeParser_create_value_table_from_state vts), self)
               else value_table_args L mem begin next fin vts self)))
      else Inr (At begin, None, self))"
  by pat_completeness auto

termination
  by (relation "measure (\<lambda>(L, mem, begin, next, fin, vts, self). fin - next)") (auto simp: skip_def dest!: beyond_at)

declare value_table_args.simps [simp del]

definition apx_attributeParser_parse_value_table ::
  "('v, 'd) definition_lib \<Rightarrow> byte list \<Rightarrow> nat \<Rightarrow> nat \<Rightarrow> 'v apx_attributeParser \<Rightarrow>
     fault + (pointer \<times> apx_valueTable option \<times> 'v apx_attributeParser)" where
  "apx_attributeParser_parse_value_table L mem begin fin self =
     (if \<not> begin < fin then Inr (At begin, None, self)
      else safely (char_at mem begin) (\<lambda>c.
        if c \<noteq> 40 then Inr (NULLP, None, self)
        else value_table_args L mem begin (Suc begin) fin apx_attributeParserValueTableState_create self))"

section \<open>Rational scalings\<close>

record 'd apx_attributeParserRationalScalingState =
  rss_range :: apx_range
  rss_offset :: 'd
  rss_numerator :: u32
  rss_denominator :: u32
  rss_arg_index :: nat
  rss_unit :: "byte list option"

definition apx_attributeParserRationalScalingState_create :: "'d \<Rightarrow> 'd apx_attributeParserRationalScalingState" where
  "apx_attributeParserRationalScalingState_create zero =
     \<lparr>rss_range = apx_range_create, rss_offset = zero, rss_numerator = 0, rss_denominator = 0, rss_arg_index = 0,
      rss_unit = None\<rparr>"

definition apx_attributeParser_create_rational_scaling_from_state ::
  "'d apx_attributeParserRationalScalingState \<Rightarrow> 'd apx_rationalScaling" where
  "apx_attributeParser_create_rational_scaling_from_state rss =
     (let rs = apx_rationalScaling_create (rss_offset rss) (rss_numerator rss) (rss_denominator rss) (rss_unit rss);
          rng = rss_range rss in
      if range_is_signed rng then apx_rationalScaling_set_range_signed rs (range_lower rng) (range_upper rng)
      else apx_rationalScaling_set_range_unsigned rs (range_lower rng) (range_upper rng))"

definition limit_arg ::
  "(byte list \<Rightarrow> nat \<Rightarrow> nat \<Rightarrow> bool \<Rightarrow> apx_range \<Rightarrow> fault + (pointer \<times> apx_range)) \<Rightarrow> byte list \<Rightarrow> nat \<Rightarrow> nat \<Rightarrow>
     'd apx_attributeParserRationalScalingState \<Rightarrow> fault + (pointer \<times> 'd apx_attributeParserRationalScalingState)" where
  "limit_arg parse mem begin fin rss =
     safely (char_at mem begin) (\<lambda>c.
       let unary_minus = c = 45 in
       safely (parse mem (if unary_minus then Suc begin else begin) fin unary_minus (rss_range rss)) (\<lambda>(result, rng).
         Inr (result, rss\<lparr>rss_range := rng\<rparr>)))"

definition apx_attributeParser_parse_rational_scaling_arg ::
  "('v, 'd) definition_lib \<Rightarrow> byte list \<Rightarrow> nat \<Rightarrow> nat \<Rightarrow> 'd apx_attributeParserRationalScalingState \<Rightarrow> 'v apx_attributeParser \<Rightarrow>
     fault + (pointer \<times> 'd apx_attributeParserRationalScalingState \<times> 'v apx_attributeParser)" where
  "apx_attributeParser_parse_rational_scaling_arg L mem begin fin rss self =
     (if \<not> begin < fin then Inr (At begin, rss, self)
      else
        let B = dl_bstr L; txt = take fin mem; i = rss_arg_index rss in
        if i = 5 then
          (let result = move begin (match_pair B (drop begin txt) 34 34 92) in
           if beyond result begin then
             (case make_cstr (dl_text L) (between (Suc begin) (at result) mem) of
                None \<Rightarrow> Inr (NULLP, rss\<lparr>rss_unit := None\<rparr>, apx_attributeParser_set_error self APX_MEM_ERROR (Some begin))
              | Some unit \<Rightarrow> Inr (At (Suc (at result)), rss\<lparr>rss_unit := Some unit, rss_arg_index := Suc i\<rparr>, self))
           else Inr (result, rss\<lparr>rss_arg_index := Suc i\<rparr>, self))
        else
          safely
            (if i = 0 then limit_arg apx_attributeParser_parse_lower_limit mem begin fin rss
             else if i = 1 then limit_arg apx_attributeParser_parse_upper_limit mem begin fin rss
             else if i = 2 then
               (case to_double L (drop begin txt) of (result, d) \<Rightarrow>
                  Inr (move begin result, if beyond (move begin result) begin then rss\<lparr>rss_offset := d\<rparr> else rss))
             else if i = 3 then
               (case apx_parserBase_parse_i32 B txt begin of (result, i32) \<Rightarrow>
                  Inr (result, if beyond result begin then rss\<lparr>rss_numerator := if at result \<le> fin then i32 else 0\<rparr> else rss))
             else if i = 4 then
               (case apx_parserBase_parse_i32 B txt begin of (result, i32) \<Rightarrow>
                  Inr (result, if beyond result begin then rss\<lparr>rss_denominator := if at result \<le> fin then i32 else 0\<rparr> else rss))
             else Inr (NULLP, rss))
            (\<lambda>(result, rss). Inr (result, rss\<lparr>rss_arg_index := Suc i\<rparr>, self)))"

text \<open>The error path notes an error if none has a place yet.\<close>

definition scaling_failed :: "nat \<Rightarrow> pointer \<Rightarrow> 'v apx_attributeParser \<Rightarrow> fault + (pointer \<times> 'd apx_rationalScaling option \<times> 'v apx_attributeParser)" where
  "scaling_failed begin next self =
     Inr (At begin, None,
       if ap_error_next self = None
       then apx_attributeParser_set_error self APX_PARSE_ERROR (case next of At n \<Rightarrow> Some n | _ \<Rightarrow> None) else self)"

function rational_scaling_args ::
  "('v, 'd) definition_lib \<Rightarrow> byte list \<Rightarrow> nat \<Rightarrow> nat \<Rightarrow> nat \<Rightarrow> 'd apx_attributeParserRationalScalingState \<Rightarrow> 'v apx_attributeParser \<Rightarrow>
     fault + (pointer \<times> 'd apx_rationalScaling option \<times> 'v apx_attributeParser)" where
  "rational_scaling_args L mem begin next fin rss self =
     (if next < fin then
        (let next = skip (dl_bstr L) (take fin mem) next in
         safely (apx_attributeParser_parse_rational_scaling_arg L mem next fin rss self) (\<lambda>(result, rss, self).
           if \<not> beyond result next then scaling_failed begin NULLP self
           else if \<not> at result \<le> fin then Inl ASSERT_FAILURE
           else let next = skip (dl_bstr L) (take fin mem) (at result) in
             safely (char_at mem next) (\<lambda>c.
               if c = 44 then rational_scaling_args L mem begin (Suc next) fin rss self
               else if c = 41 then Inr (At (Suc next), Some (apx_attributeParser_create_rational_scaling_from_state rss), self)
               else rational_scaling_args L mem begin next fin rss self)))
      else scaling_failed begin (At next) self)"
  by pat_completeness auto

termination
  by (relation "measure (\<lambda>(L, mem, begin, next, fin, rss, self). fin - next)") (auto simp: skip_def dest!: beyond_at)

declare rational_scaling_args.simps [simp del]

definition apx_attributeParser_parse_rational_scaling ::
  "('v, 'd) definition_lib \<Rightarrow> 'd \<Rightarrow> byte list \<Rightarrow> nat \<Rightarrow> nat \<Rightarrow> 'v apx_attributeParser \<Rightarrow>
     fault + (pointer \<times> 'd apx_rationalScaling option \<times> 'v apx_attributeParser)" where
  "apx_attributeParser_parse_rational_scaling L zero mem begin fin self =
     (if \<not> begin < fin then Inr (At begin, None, self)
      else safely (char_at mem begin) (\<lambda>c.
        if c \<noteq> 40 then Inr (NULLP, None, self)
        else rational_scaling_args L mem begin (Suc begin) fin (apx_attributeParserRationalScalingState_create zero) self))"

section \<open>Attributes\<close>

text \<open>apx/src/port_attribute.c and type_attribute.c: what the attributes are kept in.\<close>

record 'v apx_portAttributes =
  pa_is_parameter :: bool
  pa_queue_length :: u32
  pa_init_value :: "'v option"

definition apx_portAttributes_create :: "'v apx_portAttributes" where
  "apx_portAttributes_create = \<lparr>pa_is_parameter = False, pa_queue_length = 0, pa_init_value = None\<rparr>"

definition apx_portAttributes_set_parameter :: "'v apx_portAttributes \<Rightarrow> 'v apx_portAttributes" where
  "apx_portAttributes_set_parameter self = self\<lparr>pa_is_parameter := True\<rparr>"

definition apx_portAttributes_is_queued :: "'v apx_portAttributes \<Rightarrow> bool" where
  "apx_portAttributes_is_queued self = (pa_queue_length self > 0)"

definition apx_portAttributes_set_queue_length :: "'v apx_portAttributes \<Rightarrow> u32 \<Rightarrow> 'v apx_portAttributes" where
  "apx_portAttributes_set_queue_length self n = self\<lparr>pa_queue_length := n\<rparr>"

definition apx_portAttributes_has_init_value :: "'v apx_portAttributes \<Rightarrow> bool" where
  "apx_portAttributes_has_init_value self \<longleftrightarrow> pa_init_value self \<noteq> None"

text \<open>The setter replaces a value; it does not set a first one.\<close>

definition apx_portAttributes_set_init_value :: "'v apx_portAttributes \<Rightarrow> 'v option \<Rightarrow> 'v apx_portAttributes" where
  "apx_portAttributes_set_init_value self v =
     (if pa_init_value self \<noteq> None then self\<lparr>pa_init_value := v\<rparr> else self)"

type_synonym 'd apx_typeAttributes = "'d computation list"

definition apx_typeAttributes_create :: "'d apx_typeAttributes" where
  "apx_typeAttributes_create = []"

definition apx_typeAttributes_append_computation :: "'d apx_typeAttributes \<Rightarrow> 'd computation \<Rightarrow> 'd apx_typeAttributes" where
  "apx_typeAttributes_append_computation self computation = self @ [computation]"

definition apx_typeAttributes_get_computation :: "'d apx_typeAttributes \<Rightarrow> nat \<Rightarrow> 'd computation option" where
  "apx_typeAttributes_get_computation self index = (if index < length self then Some (self ! index) else None)"

section \<open>Attribute lists\<close>

definition apx_attributeParser_parse_single_port_attribute ::
  "('v, 'd) definition_lib \<Rightarrow> byte list \<Rightarrow> nat \<Rightarrow> nat \<Rightarrow> 'v apx_portAttributes \<times> 'v apx_attributeParser \<Rightarrow>
     fault + (pointer \<times> 'v apx_portAttributes \<times> 'v apx_attributeParser)" where
  "apx_attributeParser_parse_single_port_attribute L mem begin fin s =
     (case s of (attr, self) \<Rightarrow>
        safely (char_at mem begin) (\<lambda>c.
        safely
          (if c = 61 then
             safely (apx_attributeParser_parse_initializer L mem (Suc begin) fin (pa_init_value attr) self) (\<lambda>(result, dv, self).
               Inr (result, attr\<lparr>pa_init_value := dv\<rparr>, self))
           else if c = 80 then Inr (At (Suc begin), attr\<lparr>pa_is_parameter := True\<rparr>, self)
           else if c = 81 then
             (case apx_attributeParser_parse_array_length L mem (Suc begin) fin (pa_queue_length attr) of (result, n) \<Rightarrow>
                Inr (result, attr\<lparr>pa_queue_length := n\<rparr>, self))
           else Inr (NULLP, attr, self)) (\<lambda>(result, attr, self).
          if beyond result begin then Inr (result, attr, self)
          else Inr (NULLP, attr, apx_attributeParser_set_error self APX_PARSE_ERROR (Some begin)))))"

definition apx_attributeParser_parse_single_type_attribute ::
  "('v, 'd) definition_lib \<Rightarrow> 'd \<Rightarrow> byte list \<Rightarrow> nat \<Rightarrow> nat \<Rightarrow> 'd apx_typeAttributes \<times> 'v apx_attributeParser \<Rightarrow>
     fault + (pointer \<times> 'd apx_typeAttributes \<times> 'v apx_attributeParser)" where
  "apx_attributeParser_parse_single_type_attribute L zero mem begin fin s =
     (case s of (attr, self) \<Rightarrow>
        let bs = drop begin (take fin mem); fail = (\<lambda>next self.
              Inr (NULLP, attr, apx_attributeParser_set_error self APX_PARSE_ERROR (Some next)));
            done = (\<lambda>next (result, computation, self).
              if beyond result next then
                (if \<not> at result \<le> fin then Inl ASSERT_FAILURE
                 else Inr (result, case computation of None \<Rightarrow> attr | Some c \<Rightarrow> apx_typeAttributes_append_computation attr c, self))
              else fail next self) in
        if beyond (match_cstr L bs [86, 84]) 0 then
          safely (apx_attributeParser_parse_value_table L mem (begin + 2) fin self) (\<lambda>(result, vt, self).
            done (begin + 2) (result, map_option VALUE_TABLE vt, self))
        else if beyond (match_cstr L bs [82, 83]) 0 then
          safely (apx_attributeParser_parse_rational_scaling L zero mem (begin + 2) fin self) (\<lambda>(result, rs, self).
            done (begin + 2) (result, map_option RATIONAL_SCALING rs, self))
        else fail begin self)"

text \<open>
  The loop over attributes with commas between them. A failing attribute ends it, but what the loop returns
  then is the place where the attribute began, and only a character that is no comma gives null.
\<close>

function attribute_loop ::
  "('v, 'd) definition_lib \<Rightarrow> (nat \<Rightarrow> 'a \<times> 'v apx_attributeParser \<Rightarrow> fault + (pointer \<times> 'a \<times> 'v apx_attributeParser)) \<Rightarrow>
     byte list \<Rightarrow> nat \<Rightarrow> nat \<Rightarrow> 'a \<times> 'v apx_attributeParser \<Rightarrow> fault + (pointer \<times> 'a \<times> 'v apx_attributeParser)" where
  "attribute_loop L single mem next fin s =
     (if next < fin then
        (let next = skip (dl_bstr L) (take fin mem) next in
         if next = fin then Inr (At next, s)
         else safely (single next s) (\<lambda>(result, attr, self).
           if beyond result next then
             (let next = skip (dl_bstr L) (take fin mem) (at result) in
              if next = fin then Inr (At next, attr, self)
              else safely (char_at mem next) (\<lambda>c.
                if c = 44 then attribute_loop L single mem (Suc next) fin (attr, self)
                else Inr (NULLP, attr, apx_attributeParser_set_error self APX_PARSE_ERROR (Some next))))
           else Inr (At next, attr, self)))
      else Inr (At next, s))"
  by pat_completeness auto

termination
  by (relation "measure (\<lambda>(L, single, mem, next, fin, s). fin - next)") (auto simp: skip_def dest!: beyond_at)

declare attribute_loop.simps [simp del]

definition apx_attributeParser_parse_port_attributes ::
  "('v, 'd) definition_lib \<Rightarrow> byte list \<Rightarrow> nat \<Rightarrow> nat \<Rightarrow> 'v apx_portAttributes \<Rightarrow> 'v apx_attributeParser \<Rightarrow>
     fault + (pointer \<times> 'v apx_portAttributes \<times> 'v apx_attributeParser)" where
  "apx_attributeParser_parse_port_attributes L mem begin fin attr self =
     (if fin < begin then Inr (NULLP, attr, apx_attributeParser_set_error self APX_INVALID_ARGUMENT_ERROR None)
      else attribute_loop L (\<lambda>next. apx_attributeParser_parse_single_port_attribute L mem next fin) mem begin fin (attr, self))"

definition apx_attributeParser_parse_type_attributes ::
  "('v, 'd) definition_lib \<Rightarrow> 'd \<Rightarrow> byte list \<Rightarrow> nat \<Rightarrow> nat \<Rightarrow> 'd apx_typeAttributes \<Rightarrow> 'v apx_attributeParser \<Rightarrow>
     fault + (pointer \<times> 'd apx_typeAttributes \<times> 'v apx_attributeParser)" where
  "apx_attributeParser_parse_type_attributes L zero mem begin fin attr self =
     (if fin < begin then Inr (NULLP, attr, apx_attributeParser_set_error self APX_INVALID_ARGUMENT_ERROR (Some begin))
      else attribute_loop L (\<lambda>next. apx_attributeParser_parse_single_type_attribute L zero mem next fin) mem begin fin (attr, self))"

end
