(* ===== verification/AttributeFacts.thy ===== *)
theory AttributeFacts
  imports AttributeParser SignatureRoundtrip
begin

text \<open>
  What the attribute parser reads: the computations of a type as computation.c prints them, and initial values of numbers,
  strings and lists. A number that ends with the memory is read past it.
\<close>

section \<open>Numbers\<close>

text \<open>What may follow a number: nothing that could belong to it in any base.\<close>

definition stops :: "byte \<Rightarrow> bool" where
  "stops c \<longleftrightarrow> 10 \<le> digit_of c \<and> c \<noteq> 120 \<and> c \<noteq> 88"

lemma stops_punctuation [simp]: "stops 44" "stops 41" "stops 125" "stops 32" "stops 10"
  by (simp_all add: stops_def digit_of_def is_digit_def)

lemma digit_of_digit: "is_digit c \<Longrightarrow> digit_of c = unat c - 48 \<and> digit_of c < 10"
  by (auto simp: digit_of_def is_digit_def word_le_nat_alt)

lemma number_of_digits: "\<forall>c\<in>set ds. is_digit c \<Longrightarrow> number_of 10 ds = digits_val ds"
proof (induction ds rule: rev_induct)
  case (snoc d ds)
  then have "number_of 10 ds = digits_val ds" "digit_of d = unat d - 48" using digit_of_digit by auto
  then show ?case by (simp add: number_of_def digits_val_def)
qed (simp add: number_of_def digits_val_def)

lemma digit_byte_zero: "d < 10 \<Longrightarrow> (48 + word_of_nat d = (48 :: byte)) = (d = 0)"
proof
  assume "d < 10" "48 + word_of_nat d = (48 :: byte)"
  moreover from this(2) have "unat (48 + word_of_nat d :: byte) = 48" by simp
  ultimately show "d = 0" using digit_byte [of d] by simp
qed simp

lemma decimal_first: "n > 0 \<Longrightarrow> hd (decimal n) \<noteq> 48"
proof (induction n rule: decimal.induct)
  case (1 n)
  show ?case
  proof (cases "n < 10")
    case True
    with "1.prems" digit_byte_zero [of n] show ?thesis by (subst decimal.simps) simp
  next
    case False
    then have "decimal n = decimal (n div 10) @ [48 + word_of_nat (n mod 10)]" by (subst decimal.simps) simp
    with 1 False show ?thesis by simp
  qed
qed

lemma digit_run_of: "\<forall>c\<in>set ds. is_digit c \<Longrightarrow> stops e \<Longrightarrow> takeWhile (\<lambda>c. digit_of c < 10) (ds @ e # rest) = ds"
proof (induction ds)
  case (Cons d ds)
  then have "digit_of d < 10" using digit_of_digit [of d] by simp
  with Cons show ?case by simp
qed (simp add: stops_def)

lemma strtoul_decimal:
  assumes "stops e" and "m < 2 ^ 64"
  shows "strtoul (decimal m @ e # rest) = Inr (word_of_nat m, length (decimal m))"
proof -
  obtain d ds where d: "decimal m = d # ds" using decimal_nonempty [of m] by (cases "decimal m") auto
  have digits: "\<forall>c\<in>set (decimal m). is_digit c" by (rule decimal_digits)
  with d have first: "is_digit d" "\<not> is_space d" "d \<noteq> 43" "d \<noteq> 45"
    using digit_not_space by (auto simp: is_digit_def word_le_nat_alt)
  show ?thesis
  proof (cases "m = 0")
    case True
    then have "d = 48" "ds = []" using d by (simp_all add: decimal.simps)
    with True assms first d show ?thesis
      by (cases rest) (auto simp: strtoul_def base_prefix_def stops_def digit_of_def is_digit_def number_of_def Let_def)
  next
    case False
    with decimal_first [of m] d have "d \<noteq> 48" by simp
    moreover have "takeWhile (\<lambda>c. digit_of c < 10) (d # ds @ e # rest) = d # ds"
      using digit_run_of [OF digits assms(1), of rest] d by simp
    moreover have "number_of 10 (d # ds) = m"
      using number_of_digits [OF digits] digits_val_decimal [of m] d by simp
    ultimately show ?thesis
      using assms(2) first d by (simp add: strtoul_def base_prefix_def Let_def)
  qed
qed

section \<open>A text in memory\<close>

lemma text_in_memory:
  assumes "here (take fin mem) n bs" and "fin \<le> length mem"
  shows "drop n mem = bs @ drop fin mem" "n + length bs = fin"
proof -
  have n: "n \<le> fin" "drop n (take fin mem) = bs" using assms by (simp_all add: here_def)
  have "mem = take fin mem @ drop fin mem" by simp
  then have "drop n mem = drop n (take fin mem) @ drop fin mem" using n(1) assms(2)
    by (metis append_take_drop_id drop_append diff_is_0_eq drop_0 length_take min.absorb2)
  then show "drop n mem = bs @ drop fin mem" using n(2) by simp
  show "n + length bs = fin" using n assms(2) by auto
qed

lemma char_here:
  "here (take fin mem) n (c # bs) \<Longrightarrow> fin \<le> length mem \<Longrightarrow> char_at mem n = Inr c \<and> n < fin"
  using here_cons(1,2) [of "take fin mem" n c bs] by (simp add: char_at_def)

lemma number_read:
  assumes "here (take fin mem) n (decimal m @ e # rest)" and "fin \<le> length mem" and "stops e" and "m < 2 ^ 64"
  shows "strtoul (drop n mem) = Inr (word_of_nat m, length (decimal m))" "n + length (decimal m) \<le> fin"
    "0 < length (decimal m)"
  using text_in_memory [OF assms(1,2)] strtoul_decimal [OF assms(3,4), of "rest @ drop fin mem"] by simp_all

lemma u32_of_u64: "m < 0x100000000 \<Longrightarrow> (ucast (word_of_nat m :: u64) :: u32) = word_of_nat m"
  by (simp add: word_unat_eq_iff unsigned_ucast_eq unat_of_nat take_bit_nat_eq_self)

lemma lower_limit_read:
  assumes "here (take fin mem) n (decimal m @ e # rest)" and "fin \<le> length mem" and "stops e"
    and "m < 0x100000000" and "neg \<longrightarrow> m \<le> 0x80000000"
  shows "apx_attributeParser_parse_lower_limit mem n fin neg rng =
    Inr (At (n + length (decimal m)), if neg then rng\<lparr>range_lower := - word_of_nat m, range_is_signed := True\<rparr>
      else rng\<lparr>range_lower := word_of_nat m\<rparr>)"
proof -
  have "m < 2 ^ 64" using assms(4) by simp
  note r = number_read [OF assms(1-3) this]
  have "neg \<longrightarrow> \<not> (0x80000000 :: u32) < word_of_nat m"
    using assms(4,5) by (auto simp: word_less_nat_alt unat_of_nat)
  with r show ?thesis
    by (simp add: apx_attributeParser_parse_lower_limit_def u32_of_u64 assms(4) Let_def)
qed

lemma upper_limit_read:
  assumes "here (take fin mem) n (decimal m @ e # rest)" and "fin \<le> length mem" and "stops e"
    and "m < 0x100000000" and "neg \<longrightarrow> m \<le> 0x80000000 \<and> range_is_signed rng"
    and "\<not> neg \<longrightarrow> range_is_signed rng \<longrightarrow> m < 0x80000000"
  shows "apx_attributeParser_parse_upper_limit mem n fin neg rng =
    Inr (At (n + length (decimal m)), rng\<lparr>range_upper := if neg then - word_of_nat m else word_of_nat m\<rparr>)"
proof -
  have "m < 2 ^ 64" using assms(4) by simp
  note r = number_read [OF assms(1-3) this]
  have "neg \<longrightarrow> \<not> (0x80000000 :: u32) < word_of_nat m"
    using assms(4,5) by (auto simp: word_less_nat_alt unat_of_nat)
  moreover have "\<not> neg \<longrightarrow> range_is_signed rng \<longrightarrow> \<not> (0x80000000 :: u32) \<le> word_of_nat m"
    using assms(4,6) by (auto simp: word_le_nat_alt unat_of_nat)
  ultimately show ?thesis
    using r assms(5) by (simp add: apx_attributeParser_parse_upper_limit_def u32_of_u64 assms(4) Let_def)
qed

section \<open>The arguments of a computation\<close>

text \<open>A limit as it is printed, and what reading it stores.\<close>

definition limit_text :: "bool \<Rightarrow> u32 \<Rightarrow> byte list" where
  "limit_text is_signed v = (if is_signed then signed_decimal (sint v) else decimal (unat v))"

lemma limits_text: "computation_limit_to_string base =
    limit_text (comp_is_signed_range base) (comp_lower_limit base) @ 44 #
    limit_text (comp_is_signed_range base) (comp_upper_limit base)"
  by (simp add: computation_limit_to_string_def limit_text_def)

lemma negative_limit:
  fixes v :: u32
  assumes "sint v < 0"
  shows "limit_text True v = 45 # decimal (nat (- sint v))" "nat (- sint v) \<le> 0x80000000" "- word_of_nat (nat (- sint v)) = v"
proof -
  show "limit_text True v = 45 # decimal (nat (- sint v))" using assms by (simp add: limit_text_def signed_decimal_def)
  have "- sint v \<le> 0x80000000" using sint_ge [of v] by simp
  then show "nat (- sint v) \<le> 0x80000000" by simp
  have "(word_of_nat (nat (- sint v)) :: u32) = word_of_int (- sint v)" using assms by simp
  then show "- word_of_nat (nat (- sint v)) = v" by simp
qed

lemma positive_limit:
  fixes v :: u32
  assumes "\<not> is_signed \<or> \<not> sint v < 0"
  shows "limit_text is_signed v = decimal (unat v)" "unat v < 0x100000000" "is_signed \<Longrightarrow> unat v < 0x80000000"
proof -
  show "unat v < 0x100000000" using unsigned_less [of v, where ?'a = nat] by simp
  have s: "sint v = int (unat v) \<and> unat v < 0x80000000" if "\<not> sint v < 0"
  proof -
    have "uint v = sint v mod 0x100000000" using uint_sint [of v] by (simp add: take_bit_eq_mod)
    then have "uint v = sint v" "sint v < 0x80000000" using that sint_lt [of v] by simp_all
    moreover have "int (unat v) = uint v" by simp
    ultimately show ?thesis using that by linarith
  qed
  then show "is_signed \<Longrightarrow> unat v < 0x80000000" using assms by simp
  show "limit_text is_signed v = decimal (unat v)"
    using s assms by (cases is_signed) (auto simp: limit_text_def signed_decimal_def)
qed

lemma limit_visible: "\<exists>c cs. limit_text is_signed v = c # cs \<and> \<not> is_space c"
  using decimal_visible signed_decimal_visible by (simp add: limit_text_def)

lemma decimal_head: "\<exists>c cs. decimal m = c # cs \<and> is_digit c \<and> c \<noteq> 45 \<and> c \<noteq> 34"
  using decimal_digits [of m] decimal_nonempty [of m] by (cases "decimal m") (auto simp: is_digit_def word_le_nat_alt)

text \<open>A limit parser behind an optional minus sign.\<close>

definition signed_limit ::
  "(byte list \<Rightarrow> nat \<Rightarrow> nat \<Rightarrow> bool \<Rightarrow> apx_range \<Rightarrow> fault + (pointer \<times> apx_range)) \<Rightarrow> byte list \<Rightarrow> nat \<Rightarrow> nat \<Rightarrow>
     apx_range \<Rightarrow> fault + (pointer \<times> apx_range)" where
  "signed_limit parse mem n fin rng =
     (let neg = mem ! n = 45 in parse mem (if neg then Suc n else n) fin neg rng)"

lemma lower_text_read:
  assumes h: "here (take fin mem) n (limit_text sg v @ e # rest)" and "fin \<le> length mem" and "stops e"
    and "sg \<longrightarrow> sint v < 0" and "\<not> range_is_signed rng"
  shows "signed_limit apx_attributeParser_parse_lower_limit mem n fin rng =
    Inr (At (n + length (limit_text sg v)), rng\<lparr>range_lower := v, range_is_signed := sg\<rparr>)"
proof (cases sg)
  case True
  then have neg: "sint v < 0" using assms(4) by simp
  note t = negative_limit [OF neg]
  have h1: "here (take fin mem) n (45 # decimal (nat (- sint v)) @ e # rest)" using h True t(1) by simp
  note c = here_cons [OF h1]
  have "nat (- sint v) < 0x100000000" using t(2) by simp
  from lower_limit_read [OF c(3) assms(2,3) this, of True rng] t c(1,2) True show ?thesis
    by (simp add: signed_limit_def)
next
  case False
  note t = positive_limit(1,2) [of sg v]
  have h1: "here (take fin mem) n (decimal (unat v) @ e # rest)" using h False t(1) by simp
  obtain c cs where c: "decimal (unat v) = c # cs" "c \<noteq> 45" using decimal_head by blast
  have "take fin mem ! n = c" "n < fin" using here_cons(1,2) [of "take fin mem" n c "cs @ e # rest"] h1 c by simp_all
  with lower_limit_read [OF h1 assms(2,3), of False rng] t c False assms(5) show ?thesis
    by (cases rng) (simp add: signed_limit_def)
qed

lemma upper_text_read:
  assumes h: "here (take fin mem) n (limit_text sg v @ e # rest)" and "fin \<le> length mem" and "stops e"
    and "range_is_signed rng = sg"
  shows "signed_limit apx_attributeParser_parse_upper_limit mem n fin rng =
    Inr (At (n + length (limit_text sg v)), rng\<lparr>range_upper := v\<rparr>)"
proof (cases "sg \<and> sint v < 0")
  case True
  note t = negative_limit [OF conjunct2 [OF True]]
  have h1: "here (take fin mem) n (45 # decimal (nat (- sint v)) @ e # rest)" using h True t(1) by simp
  note c = here_cons [OF h1]
  have "nat (- sint v) < 0x100000000" using t(2) by simp
  from upper_limit_read [OF c(3) assms(2,3) this, of True rng] t c(1,2) True assms(4) show ?thesis
    by (simp add: signed_limit_def)
next
  case False
  note t = positive_limit [of sg v]
  have h1: "here (take fin mem) n (decimal (unat v) @ e # rest)" using h False t(1) by simp
  obtain c cs where c: "decimal (unat v) = c # cs" "c \<noteq> 45" using decimal_head by blast
  have "take fin mem ! n = c" "n < fin" using here_cons(1,2) [of "take fin mem" n c "cs @ e # rest"] h1 c by simp_all
  with upper_limit_read [OF h1 assms(2,3), of False rng] t c False assms(4) show ?thesis
    by (auto simp: signed_limit_def)
qed

lemma limit_shape:
  obtains c cs where "limit_text sg v = c # cs" "is_digit c" "c \<noteq> 45" "c \<noteq> 34"
  | c cs where "limit_text sg v = 45 # c # cs"
proof (cases "sg \<and> sint v < 0")
  case True
  then have "limit_text sg v = 45 # decimal (nat (- sint v))" by (simp add: limit_text_def signed_decimal_def)
  then show ?thesis using decimal_head [of "nat (- sint v)"] that(2) by auto
next
  case False
  then have "limit_text sg v = decimal (unat v)" using positive_limit(1) by blast
  then show ?thesis using decimal_head [of "unat v"] that(1) by auto
qed

lemma limit_not_string:
  assumes "here (take fin mem) n (limit_text sg v @ e # rest)" and "fin \<le> length mem"
  shows "n < fin \<and> char_at mem n = Inr (mem ! n) \<and> mem ! n \<noteq> 34 \<and> (mem ! n = 45 \<or> is_digit (mem ! n)) \<and>
    0 < length (limit_text sg v) \<and> (mem ! n = 45 \<longrightarrow> 1 < length (limit_text sg v))"
proof (rule limit_shape [of sg v])
  fix c cs
  assume t: "limit_text sg v = c # cs" "is_digit c" "c \<noteq> 45" "c \<noteq> 34"
  then have "here (take fin mem) n (c # cs @ e # rest)" using assms(1) by simp
  from char_here [OF this assms(2)] t show ?thesis by (auto simp: char_at_def split: if_splits)
next
  fix c cs
  assume t: "limit_text sg v = 45 # c # cs"
  then have "here (take fin mem) n (45 # c # cs @ e # rest)" using assms(1) by simp
  from char_here [OF this assms(2)] t show ?thesis by (auto simp: char_at_def split: if_splits)
qed

text \<open>The two places where the code calls it so.\<close>

lemma value_table_number_arg:
  assumes "n < fin" and "char_at mem n = Inr (mem ! n)" and "mem ! n \<noteq> 34" and "mem ! n = 45 \<or> is_digit (mem ! n)"
    and "\<not> vts_last_was_string vts"
    and "vts_num_count vts = 0 \<and> parse = apx_attributeParser_parse_lower_limit \<or>
         vts_num_count vts = 1 \<and> parse = apx_attributeParser_parse_upper_limit"
    and r: "signed_limit parse mem n fin (vts_range vts) = Inr (At k, rng)" and k: "n < k" "mem ! n = 45 \<Longrightarrow> Suc n < k"
  shows "apx_attributeParser_parse_value_table_arg L mem n fin vts self =
    Inr (At k, vts\<lparr>vts_range := rng, vts_num_count := vts_num_count vts + 1\<rparr>, self)"
proof -
  have p: "(if vts_num_count vts = 0 then apx_attributeParser_parse_lower_limit mem i fin neg (vts_range vts)
       else if vts_num_count vts = 1 then apx_attributeParser_parse_upper_limit mem i fin neg (vts_range vts)
       else Inr (NULLP, vts_range vts)) = parse mem i fin neg (vts_range vts)" for i neg
    using assms(6) by auto
  show ?thesis
  proof (cases "mem ! n = 45")
    case True
    with r have "parse mem (Suc n) fin True (vts_range vts) = Inr (At k, rng)" by (simp add: signed_limit_def)
    with True k assms(1-3,5) show ?thesis
      by (simp add: apx_attributeParser_parse_value_table_arg_def value_table_number_def p)
  next
    case False
    with r have "parse mem n fin False (vts_range vts) = Inr (At k, rng)" by (simp add: signed_limit_def)
    with False k assms(1-5) show ?thesis
      by (simp add: apx_attributeParser_parse_value_table_arg_def value_table_number_def p)
  qed
qed

section \<open>Value tables\<close>

lemma quoted_here:
  assumes T: "tokens (dl_bstr L)" and h: "here (take fin mem) n (34 # v @ 34 # rest)" and "plain_name v" and "fin \<le> length mem"
  shows "move n (match_pair (dl_bstr L) (drop n (take fin mem)) 34 34 92) = At (n + Suc (length v))"
    "between (Suc n) (n + Suc (length v)) mem = v" "here (take fin mem) (n + length v + 2) rest" "n + length v + 2 \<le> fin"
proof -
  show "move n (match_pair (dl_bstr L) (drop n (take fin mem)) 34 34 92) = At (n + Suc (length v))"
    using tokens.string_literal [OF T h] assms(3) by (simp add: plain_name_def apx_parserBase_parse_string_literal_def)
  have h1: "here (take fin mem) (Suc n) (v @ 34 # rest)" using here_cons(3) [OF h] .
  from text_in_memory(1) [OF this assms(4)] show "between (Suc n) (n + Suc (length v)) mem = v"
    by (simp add: between_def)
  from here_append [OF h1] have "here (take fin mem) (Suc (n + length v)) (34 # rest)" by simp
  from here_cons(3) [OF this] show h2: "here (take fin mem) (n + length v + 2) rest" by simp
  then show "n + length v + 2 \<le> fin" using assms(4) by (simp add: here_def)
qed

lemma value_table_string_arg:
  assumes "tokens (dl_bstr L)" and h: "here (take fin mem) n (34 # v @ 34 # rest)" and "plain_name v" and "fin \<le> length mem"
  shows "apx_attributeParser_parse_value_table_arg L mem n fin vts self =
    Inr (At (n + length v + 2), vts\<lparr>vts_values := vts_values vts @ [v], vts_last_was_string := True\<rparr>, self)"
  using quoted_here [OF assms] char_here [OF h assms(4)]
  by (simp add: apx_attributeParser_parse_value_table_arg_def value_table_string_def Let_def
      apx_attributeParserValueTableState_append_def)

lemma value_table_step:
  assumes T: "tokens (dl_bstr L)" and "here (take fin mem) n (c # bs)" and "\<not> is_space c" and "fin \<le> length mem"
    and "apx_attributeParser_parse_value_table_arg L mem n fin vts self = Inr (At r, vts', self)" and "n < r"
    and h: "here (take fin mem) r (e # rest)" and "\<not> is_space e"
  shows "value_table_args L mem b n fin vts self =
    (if e = 44 then value_table_args L mem b (Suc r) fin vts' self
     else if e = 41 then Inr (At (Suc r), Some (apx_attributeParser_create_value_table_from_state vts'), self)
     else value_table_args L mem b r fin vts' self)"
  using tokens.skip_none [OF T assms(2,3)] tokens.skip_none [OF T h assms(8)] char_here [OF h assms(4)]
    char_here [OF assms(2,4)] assms(5,6)
  by (subst value_table_args.simps) simp

lemma values_to_string_later: "values_to_string (Suc i) vs = values_to_string (Suc 0) vs"
proof (induction vs arbitrary: i)
  case (Cons v vs)
  show ?case using Cons [of "Suc i"] Cons [of "Suc 0"] by simp
qed simp

lemma values_to_string_from: "values_to_string (Suc i) vs = (if vs = [] then [] else 44 # values_to_string 0 vs)"
  using values_to_string_later by (cases vs) simp_all

lemma values_read:
  assumes T: "tokens (dl_bstr L)" and len: "fin \<le> length mem"
  shows "vs \<noteq> [] \<Longrightarrow> \<forall>v\<in>set vs. plain_name v \<Longrightarrow> here (take fin mem) n (values_to_string 0 vs @ 41 # rest) \<Longrightarrow>
    value_table_args L mem b n fin vts self =
      Inr (At (n + length (values_to_string 0 vs) + 1), Some (apx_attributeParser_create_value_table_from_state
        (vts\<lparr>vts_values := vts_values vts @ vs, vts_last_was_string := True\<rparr>)), self)"
proof (induction vs arbitrary: n vts)
  case (Cons v vs)
  have blank: "\<not> is_space 34" "\<not> is_space 44" "\<not> is_space 41" by (simp_all add: is_space_def)
  let ?more = "values_to_string (Suc 0) vs @ 41 # rest"
  have h: "here (take fin mem) n (34 # v @ 34 # ?more)" using Cons.prems(3) by simp
  have v: "plain_name v" using Cons.prems(2) by simp
  note q = quoted_here(3) [OF T h v len] and a = value_table_string_arg [OF T h v len, of vts self]
  show ?case
  proof (cases vs)
    case Nil
    with q have "here (take fin mem) (n + length v + 2) (41 # rest)" by simp
    from value_table_step [OF T h blank(1) len a _ this blank(3)] Nil show ?thesis by simp
  next
    case (Cons w ws)
    then have more: "?more = 44 # values_to_string 0 vs @ 41 # rest" by (simp add: values_to_string_from)
    with q have q1: "here (take fin mem) (n + length v + 2) (44 # values_to_string 0 vs @ 41 # rest)" by simp
    note step = value_table_step [OF T h blank(1) len a _ q1 blank(2), of b]
    have "here (take fin mem) (Suc (n + length v + 2)) (values_to_string 0 vs @ 41 # rest)" using here_cons(3) [OF q1] .
    from Cons.IH [OF _ _ this, of "vts\<lparr>vts_values := vts_values vts @ [v], vts_last_was_string := True\<rparr>"]
    show ?thesis using step Cons Cons.prems(2) by (simp add: values_to_string_from)
  qed
qed simp

text \<open>A range as the two limits are read: a signed one is known by a negative lower limit.\<close>

definition printable_range :: "apx_computation \<Rightarrow> bool" where
  "printable_range base \<longleftrightarrow> (comp_is_signed_range base \<longrightarrow> sint (comp_lower_limit base) < 0)"

definition range_of :: "apx_computation \<Rightarrow> apx_range" where
  "range_of base = \<lparr>range_lower = comp_lower_limit base, range_upper = comp_upper_limit base,
     range_is_signed = comp_is_signed_range base\<rparr>"

lemma value_table_read:
  assumes T: "tokens (dl_bstr L)" and len: "fin \<le> length mem"
    and "printable_range base" and "vs \<noteq> []" and "\<forall>v\<in>set vs. plain_name v"
    and h: "here (take fin mem) n (40 # computation_limit_to_string base @ 44 # values_to_string 0 vs @ 41 # rest)"
  shows "\<exists>e. apx_attributeParser_parse_value_table L mem n fin self =
      Inr (At e, Some \<lparr>vt_base = base, vt_values = vs\<rparr>, self) \<and> n < e \<and> here (take fin mem) e rest"
proof -
  let ?sg = "comp_is_signed_range base" and ?lo = "comp_lower_limit base" and ?up = "comp_upper_limit base"
  have blank: "\<not> is_space 34" "\<not> is_space 44" "\<not> is_space 41" by (simp_all add: is_space_def)
  have h1: "here (take fin mem) (Suc n) (limit_text ?sg ?lo @ 44 # limit_text ?sg ?up @ 44 # values_to_string 0 vs @ 41 # rest)"
    using here_cons(3) [OF h] by (simp add: limits_text)
  define i where "i = Suc n + length (limit_text ?sg ?lo)"
  have h2: "here (take fin mem) i (44 # limit_text ?sg ?up @ 44 # values_to_string 0 vs @ 41 # rest)"
    using here_append [OF h1] by (simp add: i_def)
  note h3 = here_cons(3) [OF h2]
  define j where "j = Suc i + length (limit_text ?sg ?up)"
  have h4: "here (take fin mem) j (44 # values_to_string 0 vs @ 41 # rest)" using here_append [OF h3] by (simp add: j_def)
  note h5 = here_cons(3) [OF h4]
  define k where "k = Suc j + length (values_to_string 0 vs)"
  have h6: "here (take fin mem) k (41 # rest)" using here_append [OF h5] by (simp add: k_def)
  let ?vts0 = "apx_attributeParserValueTableState_create"
  let ?vts1 = "?vts0\<lparr>vts_range := \<lparr>range_lower = ?lo, range_upper = 0, range_is_signed = ?sg\<rparr>, vts_num_count := 1\<rparr>"
  let ?vts2 = "?vts1\<lparr>vts_range := range_of base, vts_num_count := 2\<rparr>"
  note l1 = limit_not_string [OF h1 len] and l2 = limit_not_string [OF h3 len]
  have "signed_limit apx_attributeParser_parse_lower_limit mem (Suc n) fin (vts_range ?vts0) =
      Inr (At i, \<lparr>range_lower = ?lo, range_upper = 0, range_is_signed = ?sg\<rparr>)"
    using lower_text_read [OF h1 len, of "vts_range ?vts0"] assms(3)
    by (simp add: printable_range_def i_def apx_attributeParserValueTableState_create_def apx_range_create_def)
  then have a1: "apx_attributeParser_parse_value_table_arg L mem (Suc n) fin ?vts0 self = Inr (At i, ?vts1, self)"
    using value_table_number_arg [of "Suc n" fin mem ?vts0 apx_attributeParser_parse_lower_limit i _ L self] l1
    by (simp add: i_def apx_attributeParserValueTableState_create_def)
  have "signed_limit apx_attributeParser_parse_upper_limit mem (Suc i) fin (vts_range ?vts1) = Inr (At j, range_of base)"
    using upper_text_read [OF h3 len, of "vts_range ?vts1"] by (simp add: j_def range_of_def)
  then have a2: "apx_attributeParser_parse_value_table_arg L mem (Suc i) fin ?vts1 self = Inr (At j, ?vts2, self)"
    using value_table_number_arg [of "Suc i" fin mem ?vts1 apx_attributeParser_parse_upper_limit j _ L self] l2
    by (simp add: j_def apx_attributeParserValueTableState_create_def)
  have created: "apx_attributeParser_create_value_table_from_state (?vts2\<lparr>vts_values := vts_values ?vts2 @ vs, vts_last_was_string := True\<rparr>) =
      \<lparr>vt_base = base, vt_values = vs\<rparr>"
    using assms(4)
    by (cases base) (simp add: apx_attributeParser_create_value_table_from_state_def apx_attributeParserValueTableState_create_def
        range_of_def apx_valueTable_move_values_def apx_valueTable_create_def apx_computation_create_def Let_def
        apx_valueTable_set_range_signed_def apx_valueTable_set_range_unsigned_def apx_computation_set_range_signed_def
        apx_computation_set_range_unsigned_def)
  obtain c1 t1 where c1: "limit_text ?sg ?lo = c1 # t1" "\<not> is_space c1" using limit_visible by blast
  obtain c2 t2 where c2: "limit_text ?sg ?up = c2 # t2" "\<not> is_space c2" using limit_visible by blast
  have "value_table_args L mem n (Suc n) fin ?vts0 self = value_table_args L mem n (Suc i) fin ?vts1 self"
    using value_table_step [OF T h1 [unfolded c1 append_Cons] c1(2) len a1 _ h2 blank(2)] l1 by (simp add: i_def)
  also have "\<dots> = value_table_args L mem n (Suc j) fin ?vts2 self"
    using value_table_step [OF T h3 [unfolded c2 append_Cons] c2(2) len a2 _ h4 blank(2)] l2 by (simp add: j_def)
  also have "\<dots> = Inr (At (Suc k), Some \<lparr>vt_base = base, vt_values = vs\<rparr>, self)"
    using values_read [OF T len assms(4,5) h5, of n ?vts2 self] created by (simp add: k_def)
  finally have "apx_attributeParser_parse_value_table L mem n fin self = Inr (At (Suc k), Some \<lparr>vt_base = base, vt_values = vs\<rparr>, self)"
    using char_here [OF h len] by (simp add: apx_attributeParser_parse_value_table_def)
  then show ?thesis using here_cons(3) [OF h6] by (intro exI [of _ "Suc k"]) (simp add: i_def j_def k_def)
qed

section \<open>Rational scalings\<close>

context tokens
begin

lemma read_i32: "here txt n (signed_decimal (sint v) @ rest) \<Longrightarrow> ends_number rest \<Longrightarrow>
    apx_parserBase_parse_i32 B txt n = (At (n + length (signed_decimal (sint v))), v)"
  by (rule i32.reads)

end

lemma scaling_step:
  assumes T: "tokens (dl_bstr L)" and "here (take fin mem) n (c # bs)" and "\<not> is_space c" and "fin \<le> length mem"
    and "apx_attributeParser_parse_rational_scaling_arg L mem n fin rss self = Inr (At r, rss', self)" and "n < r"
    and h: "here (take fin mem) r (e # rest)" and "\<not> is_space e"
  shows "rational_scaling_args L mem b n fin rss self =
    (if e = 44 then rational_scaling_args L mem b (Suc r) fin rss' self
     else if e = 41 then Inr (At (Suc r), Some (apx_attributeParser_create_rational_scaling_from_state rss'), self)
     else rational_scaling_args L mem b r fin rss' self)"
  using tokens.skip_none [OF T assms(2,3)] tokens.skip_none [OF T h assms(8)] char_here [OF h assms(4)]
    char_here [OF assms(2,4)] assms(5,6)
  by (subst rational_scaling_args.simps) simp

lemma scaling_limit_arg:
  assumes "n < fin" and "char_at mem n = Inr (mem ! n)"
    and "rss_arg_index rss = 0 \<and> parse = apx_attributeParser_parse_lower_limit \<or>
         rss_arg_index rss = 1 \<and> parse = apx_attributeParser_parse_upper_limit"
    and "signed_limit parse mem n fin (rss_range rss) = Inr (At k, rng)"
  shows "apx_attributeParser_parse_rational_scaling_arg L mem n fin rss self =
    Inr (At k, rss\<lparr>rss_range := rng, rss_arg_index := Suc (rss_arg_index rss)\<rparr>, self)"
proof -
  have "limit_arg parse mem n fin rss = Inr (At k, rss\<lparr>rss_range := rng\<rparr>)"
    using assms(2,4) by (simp add: limit_arg_def signed_limit_def Let_def)
  with assms(1,3) show ?thesis
    by (auto simp: apx_attributeParser_parse_rational_scaling_arg_def Let_def)
qed

definition reads_back :: "('v, 'd) definition_lib \<Rightarrow> ('d \<Rightarrow> byte list) \<Rightarrow> 'd \<Rightarrow> bool" where
  "reads_back L print d \<longleftrightarrow> (\<forall>rest. to_double L (print d @ 44 # rest) = (At (length (print d)), d)) \<and>
     (\<exists>c cs. print d = c # cs \<and> \<not> is_space c)"

lemma scaling_offset_arg:
  assumes "reads_back L print d" and h: "here (take fin mem) n (print d @ 44 # rest)" and "rss_arg_index rss = 2"
  shows "apx_attributeParser_parse_rational_scaling_arg L mem n fin rss self =
    Inr (At (n + length (print d)), rss\<lparr>rss_offset := d, rss_arg_index := 3\<rparr>, self)"
proof -
  obtain c cs where c: "print d = c # cs" using assms(1) by (auto simp: reads_back_def)
  have "drop n (take fin mem) = print d @ 44 # rest" using h by (simp add: here_def)
  then have "to_double L (drop n (take fin mem)) = (At (length (print d)), d)" using assms(1) by (simp add: reads_back_def)
  moreover have "n < fin" using here_cons(1) [of "take fin mem" n c "cs @ 44 # rest"] h c by simp
  ultimately show ?thesis
    using assms(3) c by (simp add: apx_attributeParser_parse_rational_scaling_arg_def Let_def)
qed

lemma scaling_number_arg:
  assumes T: "tokens (dl_bstr L)" and h: "here (take fin mem) n (signed_decimal (sint v) @ 44 # rest)" and "fin \<le> length mem"
  shows "rss_arg_index rss = 3 \<Longrightarrow> apx_attributeParser_parse_rational_scaling_arg L mem n fin rss self =
      Inr (At (n + length (signed_decimal (sint v))), rss\<lparr>rss_numerator := v, rss_arg_index := 4\<rparr>, self)"
    and "rss_arg_index rss = 4 \<Longrightarrow> apx_attributeParser_parse_rational_scaling_arg L mem n fin rss self =
      Inr (At (n + length (signed_decimal (sint v))), rss\<lparr>rss_denominator := v, rss_arg_index := 5\<rparr>, self)"
    and "\<exists>c cs. signed_decimal (sint v) = c # cs \<and> \<not> is_space c"
proof -
  have "ends_number (44 # rest)" by (simp add: ends_number_def is_digit_def)
  from tokens.read_i32 [OF T h this]
  have r: "apx_parserBase_parse_i32 (dl_bstr L) (take fin mem) n = (At (n + length (signed_decimal (sint v))), v)" .
  obtain c cs where c: "signed_decimal (sint v) = c # cs" "\<not> is_space c" using signed_decimal_visible by blast
  have lt: "n < fin" using here_cons(1) [of "take fin mem" n c "cs @ 44 # rest"] h c by simp
  have le: "n + length (signed_decimal (sint v)) \<le> fin" using text_in_memory(2) [OF h assms(3)] by simp
  show "rss_arg_index rss = 3 \<Longrightarrow> apx_attributeParser_parse_rational_scaling_arg L mem n fin rss self =
      Inr (At (n + length (signed_decimal (sint v))), rss\<lparr>rss_numerator := v, rss_arg_index := 4\<rparr>, self)"
    "rss_arg_index rss = 4 \<Longrightarrow> apx_attributeParser_parse_rational_scaling_arg L mem n fin rss self =
      Inr (At (n + length (signed_decimal (sint v))), rss\<lparr>rss_denominator := v, rss_arg_index := 5\<rparr>, self)"
    using r lt le c by (simp_all add: apx_attributeParser_parse_rational_scaling_arg_def Let_def)
  show "\<exists>c cs. signed_decimal (sint v) = c # cs \<and> \<not> is_space c" by (rule signed_decimal_visible)
qed

lemma scaling_unit_arg:
  assumes T: "tokens (dl_bstr L)" and "measures_text (dl_text L)" and h: "here (take fin mem) n (34 # u @ 34 # rest)"
    and "plain_name u" and "fin \<le> length mem" and "rss_arg_index rss = 5"
  shows "apx_attributeParser_parse_rational_scaling_arg L mem n fin rss self =
    Inr (At (n + length u + 2), rss\<lparr>rss_unit := Some u, rss_arg_index := 6\<rparr>, self)"
proof -
  have "make_cstr (dl_text L) u = Some u" using assms(2,4) by (simp add: measures_text_def plain_name_def)
  with quoted_here [OF T h assms(4,5)] char_here [OF h assms(5)] assms(6) show ?thesis
    by (simp add: apx_attributeParser_parse_rational_scaling_arg_def Let_def)
qed

lemma rational_scaling_read:
  assumes T: "tokens (dl_bstr L)" and M: "measures_text (dl_text L)" and len: "fin \<le> length mem"
    and "printable_range base" and d: "reads_back L print d" and u: "plain_name u"
    and h: "here (take fin mem) n (40 # computation_limit_to_string base @ 44 # print d @ 44 # signed_decimal (sint a) @ 44 #
       signed_decimal (sint b) @ 44 # 34 # u @ 34 # 41 # rest)"
  shows "\<exists>e. apx_attributeParser_parse_rational_scaling L zero mem n fin self =
      Inr (At e, Some \<lparr>rs_base = base, rs_offset = d, rs_numerator = a, rs_denominator = b, rs_unit = Some u\<rparr>, self) \<and>
      n < e \<and> here (take fin mem) e rest"
proof -
  let ?sg = "comp_is_signed_range base" and ?lo = "comp_lower_limit base" and ?up = "comp_upper_limit base"
  let ?stop = "34 # u @ 34 # 41 # rest"
  let ?b = "signed_decimal (sint b) @ 44 # ?stop"
  let ?a = "signed_decimal (sint a) @ 44 # ?b"
  have blank: "\<not> is_space 34" "\<not> is_space 44" "\<not> is_space 41" by (simp_all add: is_space_def)
  have h1: "here (take fin mem) (Suc n) (limit_text ?sg ?lo @ 44 # limit_text ?sg ?up @ 44 # print d @ 44 # ?a)"
    using here_cons(3) [OF h] by (simp add: limits_text)
  define i where "i = Suc n + length (limit_text ?sg ?lo)"
  have h2: "here (take fin mem) i (44 # limit_text ?sg ?up @ 44 # print d @ 44 # ?a)" using here_append [OF h1] by (simp add: i_def)
  note h3 = here_cons(3) [OF h2]
  define j where "j = Suc i + length (limit_text ?sg ?up)"
  have h4: "here (take fin mem) j (44 # print d @ 44 # ?a)" using here_append [OF h3] by (simp add: j_def)
  note h5 = here_cons(3) [OF h4]
  define k where "k = Suc j + length (print d)"
  have h6: "here (take fin mem) k (44 # ?a)" using here_append [OF h5] by (simp add: k_def)
  note h7 = here_cons(3) [OF h6]
  define l where "l = Suc k + length (signed_decimal (sint a))"
  have h8: "here (take fin mem) l (44 # ?b)" using here_append [OF h7] by (simp add: l_def)
  note h9 = here_cons(3) [OF h8]
  define m where "m = Suc l + length (signed_decimal (sint b))"
  have h10: "here (take fin mem) m (44 # ?stop)" using here_append [OF h9] by (simp add: m_def)
  note h11 = here_cons(3) [OF h10]
  note q = quoted_here [OF T h11 u len]
  let ?s0 = "apx_attributeParserRationalScalingState_create zero"
  let ?s1 = "?s0\<lparr>rss_range := \<lparr>range_lower = ?lo, range_upper = 0, range_is_signed = ?sg\<rparr>, rss_arg_index := 1\<rparr>"
  let ?s2 = "?s1\<lparr>rss_range := range_of base, rss_arg_index := 2\<rparr>"
  let ?s3 = "?s2\<lparr>rss_offset := d, rss_arg_index := 3\<rparr>"
  let ?s4 = "?s3\<lparr>rss_numerator := a, rss_arg_index := 4\<rparr>"
  let ?s5 = "?s4\<lparr>rss_denominator := b, rss_arg_index := 5\<rparr>"
  let ?s6 = "?s5\<lparr>rss_unit := Some u, rss_arg_index := 6\<rparr>"
  note l1 = limit_not_string [OF h1 len] and l2 = limit_not_string [OF h3 len]
  have "signed_limit apx_attributeParser_parse_lower_limit mem (Suc n) fin (rss_range ?s0) =
      Inr (At i, \<lparr>range_lower = ?lo, range_upper = 0, range_is_signed = ?sg\<rparr>)"
    using lower_text_read [OF h1 len, of "rss_range ?s0"] assms(4)
    by (simp add: printable_range_def i_def apx_attributeParserRationalScalingState_create_def apx_range_create_def)
  then have a1: "apx_attributeParser_parse_rational_scaling_arg L mem (Suc n) fin ?s0 self = Inr (At i, ?s1, self)"
    using scaling_limit_arg [of "Suc n" fin mem ?s0 apx_attributeParser_parse_lower_limit i _ L self] l1
    by (simp add: apx_attributeParserRationalScalingState_create_def)
  have "signed_limit apx_attributeParser_parse_upper_limit mem (Suc i) fin (rss_range ?s1) = Inr (At j, range_of base)"
    using upper_text_read [OF h3 len, of "rss_range ?s1"] by (simp add: j_def range_of_def)
  then have a2: "apx_attributeParser_parse_rational_scaling_arg L mem (Suc i) fin ?s1 self = Inr (At j, ?s2, self)"
    using scaling_limit_arg [of "Suc i" fin mem ?s1 apx_attributeParser_parse_upper_limit j _ L self] l2
    by (simp add: apx_attributeParserRationalScalingState_create_def)
  have a3: "apx_attributeParser_parse_rational_scaling_arg L mem (Suc j) fin ?s2 self = Inr (At k, ?s3, self)"
    using scaling_offset_arg [OF d h5, of ?s2] by (simp add: k_def)
  note n4 = scaling_number_arg [OF T h7 len] and n5 = scaling_number_arg [OF T h9 len]
  have a4: "apx_attributeParser_parse_rational_scaling_arg L mem (Suc k) fin ?s3 self = Inr (At l, ?s4, self)"
    using n4(1) [of ?s3] by (simp add: l_def)
  have a5: "apx_attributeParser_parse_rational_scaling_arg L mem (Suc l) fin ?s4 self = Inr (At m, ?s5, self)"
    using n5(2) [of ?s4] by (simp add: m_def)
  have a6: "apx_attributeParser_parse_rational_scaling_arg L mem (Suc m) fin ?s5 self = Inr (At (Suc m + length u + 2), ?s6, self)"
    using scaling_unit_arg [OF T M h11 u len, of ?s5] by simp
  have created: "apx_attributeParser_create_rational_scaling_from_state ?s6 =
      \<lparr>rs_base = base, rs_offset = d, rs_numerator = a, rs_denominator = b, rs_unit = Some u\<rparr>"
    by (cases base) (simp add: apx_attributeParser_create_rational_scaling_from_state_def apx_attributeParserRationalScalingState_create_def
        range_of_def apx_rationalScaling_create_def apx_computation_create_def Let_def
        apx_rationalScaling_set_range_signed_def apx_rationalScaling_set_range_unsigned_def apx_computation_set_range_signed_def
        apx_computation_set_range_unsigned_def)
  obtain c1 t1 where c1: "limit_text ?sg ?lo = c1 # t1" "\<not> is_space c1" using limit_visible by blast
  obtain c2 t2 where c2: "limit_text ?sg ?up = c2 # t2" "\<not> is_space c2" using limit_visible by blast
  obtain c3 t3 where c3: "print d = c3 # t3" "\<not> is_space c3" using d by (auto simp: reads_back_def)
  obtain c4 t4 where c4: "signed_decimal (sint a) = c4 # t4" "\<not> is_space c4" using n4(3) by blast
  obtain c5 t5 where c5: "signed_decimal (sint b) = c5 # t5" "\<not> is_space c5" using n5(3) by blast
  have "rational_scaling_args L mem n (Suc n) fin ?s0 self = rational_scaling_args L mem n (Suc i) fin ?s1 self"
    using scaling_step [OF T h1 [unfolded c1 append_Cons] c1(2) len a1 _ h2 blank(2)] l1 by (simp add: i_def)
  also have "\<dots> = rational_scaling_args L mem n (Suc j) fin ?s2 self"
    using scaling_step [OF T h3 [unfolded c2 append_Cons] c2(2) len a2 _ h4 blank(2)] l2 by (simp add: j_def)
  also have "\<dots> = rational_scaling_args L mem n (Suc k) fin ?s3 self"
    using scaling_step [OF T h5 [unfolded c3 append_Cons] c3(2) len a3 _ h6 blank(2)] c3 by (simp add: k_def)
  also have "\<dots> = rational_scaling_args L mem n (Suc l) fin ?s4 self"
    using scaling_step [OF T h7 [unfolded c4 append_Cons] c4(2) len a4 _ h8 blank(2)] c4 by (simp add: l_def)
  also have "\<dots> = rational_scaling_args L mem n (Suc m) fin ?s5 self"
    using scaling_step [OF T h9 [unfolded c5 append_Cons] c5(2) len a5 _ h10 blank(2)] c5 by (simp add: m_def)
  also have "\<dots> = Inr (At (Suc m + length u + 3), Some \<lparr>rs_base = base, rs_offset = d, rs_numerator = a, rs_denominator = b, rs_unit = Some u\<rparr>, self)"
    using scaling_step [OF T h11 blank(1) len a6 _ q(3) blank(3)] created by simp
  finally have "apx_attributeParser_parse_rational_scaling L zero mem n fin self =
      Inr (At (Suc m + length u + 3), Some \<lparr>rs_base = base, rs_offset = d, rs_numerator = a, rs_denominator = b, rs_unit = Some u\<rparr>, self)"
    using char_here [OF h len] by (simp add: apx_attributeParser_parse_rational_scaling_def)
  moreover have plus: "Suc (Suc m + length u + 2) = Suc m + length u + 3" by simp
  have "here (take fin mem) (Suc m + length u + 3) rest" using here_cons(3) [OF q(3)] by (simp only: plus)
  moreover have "n < Suc m + length u + 3" by (simp add: i_def j_def k_def l_def m_def)
  ultimately show ?thesis by blast
qed

section \<open>Attributes of a type\<close>

text \<open>Matching a fixed text: the position behind it, or none beyond the start.\<close>

definition matches_text :: "('v, 'd) definition_lib \<Rightarrow> bool" where
  "matches_text L \<longleftrightarrow> (\<forall>s rest. s \<noteq> [] \<longrightarrow> match_cstr L (s @ rest) s = At (length s)) \<and>
     (\<forall>s bs. take (length s) bs \<noteq> s \<longrightarrow> \<not> beyond (match_cstr L bs s) 0)"

lemma match_here: "matches_text L \<Longrightarrow> bs = s @ rest \<Longrightarrow> s \<noteq> [] \<Longrightarrow> beyond (match_cstr L bs s) 0"
  by (simp add: matches_text_def)

definition computation_text :: "('d \<Rightarrow> byte list) \<Rightarrow> 'd computation \<Rightarrow> byte list" where
  "computation_text print c = (case apx_computation_to_string print c of Inl f \<Rightarrow> [] | Inr s \<Rightarrow> s)"

fun printable_computation :: "('v, 'd) definition_lib \<Rightarrow> ('d \<Rightarrow> byte list) \<Rightarrow> 'd computation \<Rightarrow> bool" where
  "printable_computation L print (VALUE_TABLE vt) \<longleftrightarrow>
     printable_range (vt_base vt) \<and> vt_values vt \<noteq> [] \<and> (\<forall>v\<in>set (vt_values vt). plain_name v)"
| "printable_computation L print (RATIONAL_SCALING rs) \<longleftrightarrow>
     printable_range (rs_base rs) \<and> reads_back L print (rs_offset rs) \<and> length (print (rs_offset rs)) < TMP_BUF_SIZE \<and>
     (case rs_unit rs of None \<Rightarrow> False | Some u \<Rightarrow> plain_name u)"

lemma single_attribute_read:
  assumes T: "tokens (dl_bstr L)" and M: "measures_text (dl_text L)" and X: "matches_text L" and len: "fin \<le> length mem"
    and c: "printable_computation L print c" and h: "here (take fin mem) n (computation_text print c @ rest)"
  shows "\<exists>e. apx_attributeParser_parse_single_type_attribute L zero mem n fin (attr, self) = Inr (At e, attr @ [c], self) \<and>
    n < e \<and> here (take fin mem) e rest"
proof (cases c)
  case (VALUE_TABLE vt)
  let ?args = "40 # computation_limit_to_string (vt_base vt) @ 44 # values_to_string 0 (vt_values vt) @ 41 # rest"
  have t: "computation_text print c @ rest = [86, 84] @ ?args"
    by (simp add: computation_text_def VALUE_TABLE apx_valueTable_to_string_def)
  have "here (take fin mem) (n + 2) ?args" using here_append [of "take fin mem" n "[86, 84]" ?args] h [unfolded t] by simp
  from value_table_read [OF T len _ _ _ this, of self] c obtain e where
    e: "apx_attributeParser_parse_value_table L mem (n + 2) fin self = Inr (At e, Some vt, self)" "n + 2 < e" "here (take fin mem) e rest"
    by (auto simp: VALUE_TABLE)
  have "drop n (take fin mem) = [86, 84] @ ?args" using h t by (simp add: here_def)
  from match_here [OF X this] have "beyond (match_cstr L (drop n (take fin mem)) [86, 84]) 0" by simp
  moreover have "e \<le> fin" using e(3) len by (simp add: here_def)
  ultimately show ?thesis using e
    by (auto simp: apx_attributeParser_parse_single_type_attribute_def apx_typeAttributes_append_computation_def VALUE_TABLE Let_def)
next
  case (RATIONAL_SCALING rs)
  obtain u where u: "rs_unit rs = Some u" "plain_name u" using c by (auto simp: RATIONAL_SCALING split: option.splits)
  let ?args = "40 # computation_limit_to_string (rs_base rs) @ 44 # print (rs_offset rs) @ 44 # signed_decimal (sint (rs_numerator rs)) @
    44 # signed_decimal (sint (rs_denominator rs)) @ 44 # 34 # u @ 34 # 41 # rest"
  have t: "computation_text print c @ rest = [82, 83] @ ?args"
    using c u by (simp add: computation_text_def RATIONAL_SCALING apx_rationalScaling_to_string_def Let_def)
  have "here (take fin mem) (n + 2) ?args" using here_append [of "take fin mem" n "[82, 83]" ?args] h [unfolded t] by simp
  moreover have "printable_range (rs_base rs)" "reads_back L print (rs_offset rs)" using c by (simp_all add: RATIONAL_SCALING)
  ultimately have "\<exists>e. apx_attributeParser_parse_rational_scaling L zero mem (n + 2) fin self = Inr (At e, Some rs, self) \<and>
      n + 2 < e \<and> here (take fin mem) e rest"
    using rational_scaling_read [where L = L and print = print and base = "rs_base rs" and d = "rs_offset rs" and u = u
        and a = "rs_numerator rs" and b = "rs_denominator rs" and n = "n + 2" and rest = rest and zero = zero and self = self, OF T M len]
      u by (cases rs) simp
  then obtain e where
    e: "apx_attributeParser_parse_rational_scaling L zero mem (n + 2) fin self = Inr (At e, Some rs, self)" "n + 2 < e" "here (take fin mem) e rest" by blast
  have d: "drop n (take fin mem) = [82, 83] @ ?args" using h t by (simp add: here_def)
  from match_here [OF X this] have "beyond (match_cstr L (drop n (take fin mem)) [82, 83]) 0" by simp
  moreover have "\<not> beyond (match_cstr L (drop n (take fin mem)) [86, 84]) 0"
    using X d by (simp add: matches_text_def)
  moreover have "e \<le> fin" using e(3) len by (simp add: here_def)
  ultimately show ?thesis using e
    by (auto simp: apx_attributeParser_parse_single_type_attribute_def apx_typeAttributes_append_computation_def RATIONAL_SCALING Let_def)
qed

fun attributes_text :: "('d \<Rightarrow> byte list) \<Rightarrow> 'd computation list \<Rightarrow> byte list" where
  "attributes_text print [] = []"
| "attributes_text print (c # cs) = computation_text print c @ (if cs = [] then [] else 44 # attributes_text print cs)"

lemma computation_text_visible:
  "printable_computation L print c \<Longrightarrow> \<exists>b bs. computation_text print c = b # bs \<and> \<not> is_space b"
  by (cases c) (auto simp: computation_text_def apx_valueTable_to_string_def apx_rationalScaling_to_string_def is_space_def Let_def)

lemma attribute_list_read:
  assumes T: "tokens (dl_bstr L)" and M: "measures_text (dl_text L)" and X: "matches_text L" and len: "fin \<le> length mem"
  shows "\<forall>c\<in>set cs. printable_computation L print c \<Longrightarrow> here (take fin mem) n (attributes_text print cs) \<Longrightarrow>
    attribute_loop L (\<lambda>next. apx_attributeParser_parse_single_type_attribute L zero mem next fin) mem n fin (attr, self) =
      Inr (At fin, attr @ cs, self)"
proof (induction cs arbitrary: n attr)
  case Nil
  then have "n = fin" using text_in_memory(2) [OF _ len, of n "[]"] by simp
  then show ?case by (subst attribute_loop.simps) simp
next
  case (Cons c cs)
  let ?rest = "if cs = [] then [] else 44 # attributes_text print cs"
  have h: "here (take fin mem) n (computation_text print c @ ?rest)" using Cons.prems(2) by simp
  have c: "printable_computation L print c" using Cons.prems(1) by simp
  obtain b bs where b: "computation_text print c = b # bs" "\<not> is_space b" using computation_text_visible [OF c] by blast
  have s: "skip (dl_bstr L) (take fin mem) n = n" using tokens.skip_none [OF T h [unfolded b append_Cons] b(2)] .
  have lt: "n < fin" using char_here [OF h [unfolded b append_Cons] len] by simp
  from single_attribute_read [OF T M X len c h, of zero attr self] obtain e where
    e: "apx_attributeParser_parse_single_type_attribute L zero mem n fin (attr, self) = Inr (At e, attr @ [c], self)" "n < e"
      "here (take fin mem) e ?rest" by blast
  show ?case
  proof (cases "cs = []")
    case True
    then have e_end: "e = fin" using text_in_memory(2) [OF e(3) len] by simp
    have "lstrip (dl_bstr L) [] = 0" using T by (simp add: tokens_def scans_tokens_def)
    then have "skip (dl_bstr L) (take fin mem) fin = fin" by (simp add: skip_def)
    with True e e_end s lt show ?thesis by (subst attribute_loop.simps) simp
  next
    case False
    with e(3) have h1: "here (take fin mem) e (44 # attributes_text print cs)" by simp
    have "skip (dl_bstr L) (take fin mem) e = e" using tokens.skip_none [OF T h1] by (simp add: is_space_def)
    moreover note char_here [OF h1 len]
    moreover have "attribute_loop L (\<lambda>next. apx_attributeParser_parse_single_type_attribute L zero mem next fin) mem (Suc e) fin
        (attr @ [c], self) = Inr (At fin, (attr @ [c]) @ cs, self)"
      using Cons.IH [OF _ here_cons(3) [OF h1], of "attr @ [c]"] Cons.prems(1) by simp
    ultimately show ?thesis using e s lt by (subst attribute_loop.simps) simp
  qed
qed

text \<open> C18:
  The value tables and rational scalings of a type, printed by computation.c and separated by commas, are read back by the
  attribute parser as the same computations in the same order, up to the end of the text and whatever is in memory behind it.
\<close>

theorem type_attributes_roundtrip:
  assumes "scans_tokens (dl_bstr L)" and "measures_text (dl_text L)" and "matches_text L"
    and "\<forall>c\<in>set cs. printable_computation L print c" and "attrs = attributes_text print cs"
  shows "apx_attributeParser_parse_type_attributes L zero (attrs @ behind) 0 (length attrs) apx_typeAttributes_create self =
    Inr (At (length attrs), cs, self)"
proof -
  have "here (take (length attrs) (attrs @ behind)) 0 (attributes_text print cs)" by (simp add: assms(5) here_def)
  from attribute_list_read [OF tokens.intro [OF assms(1)] assms(2,3) _ assms(4) this, of zero "[]" self]
  show ?thesis by (simp add: apx_attributeParser_parse_type_attributes_def apx_typeAttributes_create_def)
qed

end
