(* ===== verification/InitialValues.thy ===== *)
theory InitialValues
  imports AttributeFacts
begin

text \<open>
  Initial values: every number, string and nested list of them is read as the value it stands for. The parser has no
  recursion; a list that closes continues the loop of the list around it. A number that ends with the memory is read
  past its end.
\<close>

section \<open>The language of initial values\<close>

datatype init_value = NUMBER int | STRING "byte list" | LIST "init_value list"

fun init_text :: "init_value \<Rightarrow> byte list" and items_text :: "init_value list \<Rightarrow> byte list" where
  "init_text (NUMBER i) = signed_decimal i"
| "init_text (STRING s) = 34 # s @ [34]"
| "init_text (LIST vs) = 123 # items_text vs @ [125]"
| "items_text [] = []"
| "items_text (v # vs) = init_text v @ (if vs = [] then [] else 44 # items_text vs)"

fun init_dv :: "init_value \<Rightarrow> dv" where
  "init_dv (NUMBER i) = DvInt i"
| "init_dv (STRING s) = DvStr s"
| "init_dv (LIST vs) = DvArray (map init_dv vs)"

fun plain_init :: "init_value \<Rightarrow> bool" where
  "plain_init (NUMBER i) \<longleftrightarrow> - 0x80000000 \<le> i \<and> i < 0x100000000"
| "plain_init (STRING s) \<longleftrightarrow> plain_name s"
| "plain_init (LIST vs) \<longleftrightarrow> (\<forall>v\<in>set vs. plain_init v)"

section \<open>Scalars\<close>

lemma sint_small: "- 0x80000000 \<le> i \<Longrightarrow> i < 0x80000000 \<Longrightarrow> sint (word_of_int i :: u32) = i"
  by (simp add: sint_sbintrunc' signed_take_bit_int_eq_self)

text \<open>A value that was read, in one of the two places of the state.\<close>

definition holds :: "'v apx_attributeParseState \<Rightarrow> 'v \<Rightarrow> bool" where
  "holds st w \<longleftrightarrow> st = \<lparr>ps_sv = Some w, ps_initializer_list = None\<rparr> \<or> st = \<lparr>ps_sv = None, ps_initializer_list = Some w\<rparr>"

definition number_ends :: "byte list \<Rightarrow> nat \<Rightarrow> bool" where
  "number_ends mem e \<longleftrightarrow> e < length mem \<and> stops (mem ! e)"

lemma number_in_memory:
  assumes "here (take fin mem) n (decimal m @ rest)" and "fin \<le> length mem" and "number_ends mem (n + length (decimal m))"
    and "m < 0x100000000"
  shows "strtoul (drop n mem) = Inr (word_of_nat m, length (decimal m))" "n + length (decimal m) \<le> fin" "0 < length (decimal m)"
proof -
  note t = text_in_memory [OF assms(1,2)]
  let ?e = "n + length (decimal m)"
  have "drop ?e mem = rest @ drop fin mem" using t(1) by (metis append_assoc append_eq_conv_conj drop_drop add.commute)
  moreover have "drop ?e mem = mem ! ?e # drop (Suc ?e) mem" using assms(3) by (simp add: number_ends_def Cons_nth_drop_Suc)
  ultimately have "drop n mem = decimal m @ mem ! ?e # drop (Suc ?e) mem" using t(1) by simp
  moreover have "m < 2 ^ 64" using assms(4) by simp
  ultimately show "strtoul (drop n mem) = Inr (word_of_nat m, length (decimal m))"
    using strtoul_decimal assms(3) by (simp add: number_ends_def)
  show "?e \<le> fin" "0 < length (decimal m)" using t(2) by simp_all
qed

lemma integer_literal_read:
  assumes D: "dtl_documented (dl_dtl L) \<alpha>" and "sv_new (dl_dtl L) = Some new"
    and "here (take fin mem) n (decimal m @ rest)" and "fin \<le> length mem" and "number_ends mem (n + length (decimal m))"
    and "if neg then m \<le> 0x80000000 else m < 0x100000000"
  shows "\<exists>w. apx_attributeParser_parse_integer_literal L mem n fin neg (Some new) = Inr (At (n + length (decimal m)), Some w) \<and>
    \<alpha> w = DvInt (if neg then - int m else int m)"
proof -
  have m: "m < 0x100000000" using assms(6) by (auto split: if_splits)
  note r = number_in_memory [OF assms(3-5) m]
  have scalar: "map_option \<alpha> (sv_set_i32 (dl_dtl L) (Some new) x) = Some (DvInt (sint x))"
    "map_option \<alpha> (sv_set_u32 (dl_dtl L) (Some new) x) = Some (DvInt (uint x))" for x
    using D by (auto simp: dtl_documented_def builds_scalars_def)
  have big: "(0x7FFFFFFF < (word_of_nat m :: u64)) = (0x7FFFFFFF < m)"
    "((word_of_nat m :: u64) = 0x80000000) = (m = 0x80000000)"
    using m by (auto simp: word_less_nat_alt unat_of_nat word_unat_eq_iff)
  note low = u32_of_u64 [OF m]
  consider "neg" "m = 0x80000000" | "neg" "m < 0x80000000" | "\<not> neg" "0x7FFFFFFF < m" | "\<not> neg" "m \<le> 0x7FFFFFFF"
    using assms(6) by (cases neg) fastforce+
  then have "\<exists>w. (if neg \<and> (word_of_nat m :: u64) = 0x80000000 then sv_set_i32 (dl_dtl L) (Some new) 0x80000000
      else if (word_of_nat m :: u64) > 0x7FFFFFFF then sv_set_u32 (dl_dtl L) (Some new) (ucast (word_of_nat m :: u64))
      else sv_set_i32 (dl_dtl L) (Some new) (if neg then - ucast (word_of_nat m :: u64) else ucast (word_of_nat m :: u64))) = Some w \<and>
    \<alpha> w = DvInt (if neg then - int m else int m)"
  proof cases
    case 1
    have "sint (0x80000000 :: u32) = - 0x80000000" by simp
    with scalar(1) [of "0x80000000"] 1 show ?thesis by (auto simp: big)
  next
    case 2
    have "sint (- word_of_nat m :: u32) = - int m" using sint_small [of "- int m"] 2 by simp
    with scalar(1) [of "- word_of_nat m"] 2 show ?thesis by (auto simp: big low)
  next
    case 3
    have "uint (word_of_nat m :: u32) = int m" using m by (simp add: unsigned_of_nat take_bit_nat_eq_self)
    with scalar(2) [of "word_of_nat m"] 3 show ?thesis by (auto simp: big low)
  next
    case 4
    have "sint (word_of_nat m :: u32) = int m" using sint_small [of "int m"] 4 by simp
    with scalar(1) [of "word_of_nat m"] 4 show ?thesis by (auto simp: big low)
  qed
  with r show ?thesis by (simp add: apx_attributeParser_parse_integer_literal_def)
qed

definition scalar :: "init_value \<Rightarrow> bool" where
  "scalar v \<longleftrightarrow> (case v of LIST vs \<Rightarrow> False | _ \<Rightarrow> True)"

lemma scalar_value_read:
  assumes D: "dtl_documented (dl_dtl L) \<alpha>" and T: "tokens (dl_bstr L)" and len: "fin \<le> length mem"
    and "scalar v" and "plain_init v" and h: "here (take fin mem) n (init_text v @ rest)"
    and e: "(\<exists>i. v = NUMBER i) \<longrightarrow> number_ends mem (n + length (init_text v))"
    and st: "ap_state self = Some apx_attributeParseState_create"
  shows "\<exists>w. apx_attributeParser_parse_scalar L mem n fin self =
      Inr (At (n + length (init_text v)), self\<lparr>ap_state := Some \<lparr>ps_sv = Some w, ps_initializer_list = None\<rparr>\<rparr>) \<and> \<alpha> w = init_dv v"
proof -
  obtain new where new: "sv_new (dl_dtl L) = Some new" using D by (auto simp: dtl_documented_def builds_scalars_def)
  have at: "at_state (\<lambda>st. st\<lparr>ps_sv := sv\<rparr>) self = self\<lparr>ap_state := Some \<lparr>ps_sv = sv, ps_initializer_list = None\<rparr>\<rparr>" for sv
    using st by (simp add: at_state_def apx_attributeParseState_create_def)
  show ?thesis
  proof (cases v)
    case (STRING s)
    have h1: "here (take fin mem) n (34 # s @ 34 # rest)" using h by (simp add: STRING)
    have "plain_name s" using assms(5) by (simp add: STRING)
    note q = quoted_here [OF T h1 this len] and c = char_here [OF h1 len]
    have "map_option \<alpha> (sv_set_str (dl_dtl L) (Some new) s) = Some (DvStr s)"
      using D by (auto simp: dtl_documented_def builds_scalars_def)
    then obtain w where w: "sv_set_str (dl_dtl L) (Some new) s = Some w" "\<alpha> w = DvStr s" by auto
    from q c w have "apx_attributeParser_parse_string_literal L mem n fin (Some new) = Inr (At (n + length s + 2), Some w)"
      by (simp add: apx_attributeParser_parse_string_literal_def)
    with c w show ?thesis
      by (intro exI [of _ w]) (simp add: apx_attributeParser_parse_scalar_def scalar_read_def new STRING is_digit_def at)
  next
    case (NUMBER i)
    have i: "- 0x80000000 \<le> i" "i < 0x100000000" using assms(5) by (simp_all add: NUMBER)
    show ?thesis
    proof (cases "i < 0")
      case True
      then have t: "init_text v = 45 # decimal (nat (- i))" by (simp add: NUMBER signed_decimal_def)
      have h1: "here (take fin mem) n (45 # decimal (nat (- i)) @ rest)" using h t by simp
      note h2 = here_cons(3) [OF h1] and c = char_here [OF h1 len]
      have "number_ends mem (Suc n + length (decimal (nat (- i))))" using e t by (simp add: NUMBER)
      moreover have "if True then nat (- i) \<le> 0x80000000 else nat (- i) < 0x100000000" using i(1) by simp
      ultimately obtain w where w: "apx_attributeParser_parse_integer_literal L mem (Suc n) fin True (Some new) =
          Inr (At (Suc n + length (decimal (nat (- i)))), Some w)" "\<alpha> w = DvInt i"
        using integer_literal_read [OF D new h2 len, of True] True by auto
      have "Suc n < fin" using text_in_memory(2) [OF h2 len] by (cases "decimal (nat (- i))") auto
      with c w t show ?thesis
        by (intro exI [of _ w]) (simp add: apx_attributeParser_parse_scalar_def scalar_read_def new is_digit_def at NUMBER)
    next
      case False
      then have t: "init_text v = decimal (nat i)" by (simp add: NUMBER signed_decimal_def)
      obtain d ds where d: "decimal (nat i) = d # ds" "is_digit d" using decimal_head by blast
      have h1: "here (take fin mem) n (decimal (nat i) @ rest)" using h t by simp
      have c: "char_at mem n = Inr d" using char_here [of fin mem n d "ds @ rest"] h1 d len by simp
      have "number_ends mem (n + length (decimal (nat i)))" using e t by (simp add: NUMBER)
      moreover have "if False then nat i \<le> 0x80000000 else nat i < 0x100000000" using i(2) by simp
      ultimately obtain w where w: "apx_attributeParser_parse_integer_literal L mem n fin False (Some new) =
          Inr (At (n + length (decimal (nat i))), Some w)" "\<alpha> w = DvInt i"
        using integer_literal_read [OF D new h1 len, of False] False by auto
      with c t d show ?thesis
        by (intro exI [of _ w]) (simp add: apx_attributeParser_parse_scalar_def scalar_read_def new at NUMBER)
    qed
  next
    case (LIST vs)
    with assms(4) show ?thesis by (simp add: scalar_def)
  qed
qed

section \<open>The loop\<close>

abbreviation blank_state :: "'v apx_attributeParseState" where "blank_state \<equiv> apx_attributeParseState_create"

text \<open>What the loop does with the outcome of the handler.\<close>

definition resume :: "('v, 'd) definition_lib \<Rightarrow> byte list \<Rightarrow> nat \<Rightarrow> after_value \<times> 'v apx_attributeParser \<Rightarrow>
    fault + (pointer \<times> 'v apx_attributeParser)" where
  "resume L mem fin r = (case r of (after, self) \<Rightarrow>
     case after of GO_ON n \<Rightarrow> initializer_loop L mem n fin self | LEAVE n \<Rightarrow> Inr (At n, self) | REFUSE \<Rightarrow> Inr (NULLP, self))"

lemma initializer_loop_resume:
  "initializer_loop L mem next fin self =
     (if next < fin then
        (let next = skip (dl_bstr L) (take fin mem) next in
         safely (char_at mem next) (\<lambda>c.
           if c = 123 then
             (case ap_state self of
                None \<Rightarrow> Inl NULL_ACCESS
              | Some st \<Rightarrow> initializer_loop L mem (Suc next) fin
                  (self\<lparr>ap_stack := st\<lparr>ps_initializer_list := av_new (dl_dtl L)\<rparr> # ap_stack self,
                        ap_state := Some apx_attributeParseState_create\<rparr>))
           else safely (apx_attributeParser_parse_scalar L mem next fin self) (\<lambda>(result, self).
             if result = NULLP then Inr (NULLP, self)
             else safely (post_value_handler L mem (if beyond result next then at result else next) fin self) (resume L mem fin))))
      else Inr (At next, self))"
  unfolding resume_def Let_def by (subst initializer_loop_step) (simp only: Let_def)

text \<open>Reading \<open>v\<close> at \<open>n\<close> leads to the handler behind it, with the value in the state.\<close>

definition value_ends :: "byte list \<Rightarrow> nat \<Rightarrow> init_value \<Rightarrow> bool" where
  "value_ends mem n v \<longleftrightarrow> ((\<exists>i. v = NUMBER i) \<longrightarrow> number_ends mem (n + length (init_text v)))"

definition read_as :: "('v, 'd) definition_lib \<Rightarrow> ('v \<Rightarrow> dv) \<Rightarrow> byte list \<Rightarrow> nat \<Rightarrow> init_value \<Rightarrow> bool" where
  "read_as L \<alpha> mem fin v \<longleftrightarrow> (\<forall>n rest self. here (take fin mem) n (init_text v @ rest) \<longrightarrow> value_ends mem n v \<longrightarrow>
     ap_state self = Some blank_state \<longrightarrow>
     (\<exists>st w. holds st w \<and> \<alpha> w = init_dv v \<and> initializer_loop L mem n fin self =
        safely (post_value_handler L mem (n + length (init_text v)) fin (self\<lparr>ap_state := Some st\<rparr>)) (resume L mem fin)))"

lemma read_asD:
  "read_as L \<alpha> mem fin v \<Longrightarrow> here (take fin mem) n (init_text v @ rest) \<Longrightarrow> value_ends mem n v \<Longrightarrow>
     ap_state self = Some blank_state \<Longrightarrow>
     \<exists>st w. holds st w \<and> \<alpha> w = init_dv v \<and> initializer_loop L mem n fin self =
        safely (post_value_handler L mem (n + length (init_text v)) fin (self\<lparr>ap_state := Some st\<rparr>)) (resume L mem fin)"
  unfolding read_as_def by blast

lemma init_text_first:
  "\<exists>c cs. init_text v = c # cs \<and> \<not> is_space c \<and> (c = 123 \<longleftrightarrow> \<not> scalar v)"
proof (cases v)
  case (NUMBER i)
  obtain d ds where "decimal (nat (- i)) = d # ds" "is_digit d" using decimal_head by blast
  moreover obtain f fs where "decimal (nat i) = f # fs" "is_digit f" using decimal_head by blast
  ultimately show ?thesis
    by (auto simp: NUMBER signed_decimal_def scalar_def is_space_def is_digit_def word_le_nat_alt)
qed (simp_all add: scalar_def is_space_def)

lemma scalar_read_as:
  fixes L :: "('v, 'd) definition_lib"
  assumes "dtl_documented (dl_dtl L) \<alpha>" and T: "tokens (dl_bstr L)" and len: "fin \<le> length mem" and "scalar v" and "plain_init v"
  shows "read_as L \<alpha> mem fin v"
  unfolding read_as_def
proof (intro allI impI)
  fix n rest and self :: "'v apx_attributeParser"
  assume h: "here (take fin mem) n (init_text v @ rest)" and e: "value_ends mem n v" and st: "ap_state self = Some blank_state"
  obtain c cs where c: "init_text v = c # cs" "\<not> is_space c" "c \<noteq> 123" using init_text_first assms(4) by blast
  have h1: "here (take fin mem) n (c # cs @ rest)" using h c by simp
  obtain w where w: "apx_attributeParser_parse_scalar L mem n fin self =
      Inr (At (n + length (init_text v)), self\<lparr>ap_state := Some \<lparr>ps_sv = Some w, ps_initializer_list = None\<rparr>\<rparr>)" "\<alpha> w = init_dv v"
    using scalar_value_read [OF assms h _ st] e by (auto simp: value_ends_def)
  have "initializer_loop L mem n fin self =
      safely (post_value_handler L mem (n + length (init_text v)) fin
        (self\<lparr>ap_state := Some \<lparr>ps_sv = Some w, ps_initializer_list = None\<rparr>\<rparr>)) (resume L mem fin)"
    using tokens.skip_none [OF T h1 c(2)] char_here [OF h1 len] c(1,3) w(1)
    by (subst initializer_loop_resume) simp
  then show "\<exists>st w. holds st w \<and> \<alpha> w = init_dv v \<and> initializer_loop L mem n fin self =
      safely (post_value_handler L mem (n + length (init_text v)) fin (self\<lparr>ap_state := Some st\<rparr>)) (resume L mem fin)"
    using w(2) by (intro exI [of _ "\<lparr>ps_sv = Some w, ps_initializer_list = None\<rparr>"] exI [of _ w]) (simp add: holds_def)
qed

section \<open>Lists\<close>

text \<open>A value goes to the list on the stack; then a comma or the closing brace decides.\<close>

lemma handler_pushes:
  assumes D: "dtl_documented (dl_dtl L) \<alpha>" and T: "tokens (dl_bstr L)" and len: "fin \<le> length mem"
    and "holds st w" and "ps_initializer_list p = Some l" and "\<alpha> l = DvArray xs" and "ap_stack self = p # stk"
    and h: "here (take fin mem) n (c # rest)" and "c = 44 \<or> c = 125"
  shows "\<exists>l'. \<alpha> l' = DvArray (xs @ [\<alpha> w]) \<and> post_value_handler L mem n fin (self\<lparr>ap_state := Some st\<rparr>) =
    (if c = 44 then Inr (GO_ON (Suc n), self\<lparr>ap_state := Some blank_state, ap_stack := p\<lparr>ps_initializer_list := Some l'\<rparr> # stk\<rparr>)
     else post_value_handler L mem (Suc n) fin
       (self\<lparr>ap_state := Some (p\<lparr>ps_initializer_list := Some l'\<rparr>), ap_stack := stk\<rparr>))"
proof -
  have "map_option \<alpha> (av_push (dl_dtl L) (Some l) (Some w)) = Some (DvArray (xs @ [\<alpha> w]))"
    using D assms(6) by (auto simp: dtl_documented_def builds_containers_def)
  then obtain l' where l': "av_push (dl_dtl L) (Some l) (Some w) = Some l'" "\<alpha> l' = DvArray (xs @ [\<alpha> w])" by auto
  have push: "apx_attributeParser_push_value_to_parent L (self\<lparr>ap_state := Some st\<rparr>) =
      Inr (True, self\<lparr>ap_state := Some blank_state, ap_stack := p\<lparr>ps_initializer_list := Some l'\<rparr> # stk\<rparr>)"
    using assms(4,5,7) l'(1) by (auto simp: apx_attributeParser_push_value_to_parent_def holds_def apx_attributeParseState_create_def)
  have has: "apx_attributeParseState_has_value st" using assms(4) by (auto simp: holds_def apx_attributeParseState_has_value_def)
  have "av_length (dl_dtl L) (Some l') \<noteq> 0" using dtl_array(1) [OF D l'(2)] by simp
  moreover have "\<not> is_space c" using assms(9) by (auto simp: is_space_def)
  note tokens.skip_none [OF T h this]
  moreover have "post_value_handler L mem (Suc n) fin (self\<lparr>ap_state := Some q, ap_stack := []\<rparr>) =
      Inr (LEAVE (Suc n), self\<lparr>ap_state := Some q, ap_stack := []\<rparr>)" for q
    by (subst post_value_handler.simps) (simp add: apx_attributeParser_is_initializer_list_def)
  ultimately have "post_value_handler L mem n fin (self\<lparr>ap_state := Some st\<rparr>) =
    (if c = 44 then Inr (GO_ON (Suc n), self\<lparr>ap_state := Some blank_state, ap_stack := p\<lparr>ps_initializer_list := Some l'\<rparr> # stk\<rparr>)
     else post_value_handler L mem (Suc n) fin
       (self\<lparr>ap_state := Some (p\<lparr>ps_initializer_list := Some l'\<rparr>), ap_stack := stk\<rparr>))"
    using char_here [OF h len] push has assms(7,9)
    by (subst post_value_handler.simps, cases "stk = []") (auto simp: Let_def apx_attributeParser_is_initializer_list_def)
  with l'(2) show ?thesis by blast
qed

lemma number_ends_before:
  assumes "here (take fin mem) n (bs @ c # rest)" and "fin \<le> length mem" and "stops c"
  shows "number_ends mem (n + length bs)"
  using char_here [OF here_append [OF assms(1)] assms(2)] assms(3) by (auto simp: number_ends_def char_at_def split: if_splits)

lemma items_read:
  fixes L :: "('v, 'd) definition_lib"
  assumes D: "dtl_documented (dl_dtl L) \<alpha>" and T: "tokens (dl_bstr L)" and len: "fin \<le> length mem"
  shows "vs \<noteq> [] \<Longrightarrow> \<forall>v\<in>set vs. read_as L \<alpha> mem fin v \<Longrightarrow> here (take fin mem) n (items_text vs @ 125 # rest) \<Longrightarrow>
    ap_state self = Some blank_state \<Longrightarrow> ap_stack self = p # stk \<Longrightarrow> ps_initializer_list p = Some l \<Longrightarrow> \<alpha> l = DvArray xs \<Longrightarrow>
    \<exists>l'. \<alpha> l' = DvArray (xs @ map init_dv vs) \<and> initializer_loop L mem n fin self =
      safely (post_value_handler L mem (n + length (items_text vs) + 1) fin
        (self\<lparr>ap_state := Some (p\<lparr>ps_initializer_list := Some l'\<rparr>), ap_stack := stk\<rparr>)) (resume L mem fin)"
proof (induction vs arbitrary: n self p l xs)
  case (Cons v vs)
  let ?rest = "(if vs = [] then [] else 44 # items_text vs) @ 125 # rest"
  have h: "here (take fin mem) n (init_text v @ ?rest)" using Cons.prems(3) by simp
  let ?c = "if vs = [] then 125 else 44 :: byte"
  let ?t = "if vs = [] then rest else items_text vs @ 125 # rest"
  have rest: "?rest = ?c # ?t" by simp
  let ?n = "n + length (init_text v)"
  have "value_ends mem n v" using number_ends_before [OF h [unfolded rest] len] by (simp add: value_ends_def)
  moreover have "read_as L \<alpha> mem fin v" using Cons.prems(2) by simp
  ultimately obtain st w where st: "holds st w" "\<alpha> w = init_dv v" "initializer_loop L mem n fin self =
      safely (post_value_handler L mem ?n fin (self\<lparr>ap_state := Some st\<rparr>)) (resume L mem fin)"
    using read_asD [OF _ h _ Cons.prems(4)] by blast
  have h1: "here (take fin mem) ?n (?c # ?t)" using here_append [OF h] rest by simp
  have "?c = 44 \<or> ?c = 125" by simp
  from handler_pushes [OF D T len st(1) Cons.prems(6,7,5) h1 this] obtain l1 where l1: "\<alpha> l1 = DvArray (xs @ [init_dv v])"
    "post_value_handler L mem ?n fin (self\<lparr>ap_state := Some st\<rparr>) =
    (if ?c = 44 then Inr (GO_ON (Suc ?n), self\<lparr>ap_state := Some blank_state, ap_stack := p\<lparr>ps_initializer_list := Some l1\<rparr> # stk\<rparr>)
     else post_value_handler L mem (Suc ?n) fin
       (self\<lparr>ap_state := Some (p\<lparr>ps_initializer_list := Some l1\<rparr>), ap_stack := stk\<rparr>))"
    unfolding st(2) by blast
  show ?case
  proof (cases "vs = []")
    case True
    with st(3) l1 show ?thesis by (intro exI [of _ l1]) simp
  next
    case False
    let ?self = "self\<lparr>ap_state := Some blank_state, ap_stack := p\<lparr>ps_initializer_list := Some l1\<rparr> # stk\<rparr>"
    have run: "initializer_loop L mem n fin self = initializer_loop L mem (Suc ?n) fin ?self"
      using st(3) l1(2) False by (simp add: resume_def)
    have "here (take fin mem) (Suc ?n) (items_text vs @ 125 # rest)" using here_cons(3) [OF h1] False by simp
    from Cons.IH [OF False _ this, of ?self "p\<lparr>ps_initializer_list := Some l1\<rparr>" l1 "xs @ [init_dv v]"] Cons.prems(2) l1(1)
    obtain l' where "\<alpha> l' = DvArray ((xs @ [init_dv v]) @ map init_dv vs)" "initializer_loop L mem (Suc ?n) fin ?self =
      safely (post_value_handler L mem (Suc ?n + length (items_text vs) + 1) fin
        (?self\<lparr>ap_state := Some (p\<lparr>ps_initializer_list := Some l'\<rparr>), ap_stack := stk\<rparr>)) (resume L mem fin)" by auto
    moreover from this(2) run have "initializer_loop L mem n fin self =
      safely (post_value_handler L mem (n + length (items_text (v # vs)) + 1) fin
        (self\<lparr>ap_state := Some (p\<lparr>ps_initializer_list := Some l'\<rparr>), ap_stack := stk\<rparr>)) (resume L mem fin)"
      using False by (simp add: add.assoc)
    ultimately show ?thesis by (intro exI [of _ l']) simp
  qed
qed simp

text \<open>An empty list.\<close>

lemma empty_list_read:
  assumes D: "dtl_documented (dl_dtl L) \<alpha>" and T: "tokens (dl_bstr L)" and len: "fin \<le> length mem"
    and h: "here (take fin mem) n (125 # rest)" and "ap_state self = Some blank_state" and "ap_stack self = p # stk"
    and "ps_initializer_list p = Some l" and "\<alpha> l = DvArray []"
  shows "initializer_loop L mem n fin self =
    safely (post_value_handler L mem (Suc n) fin (self\<lparr>ap_state := Some p, ap_stack := stk\<rparr>)) (resume L mem fin)"
proof -
  have "\<not> is_space 125" by (simp add: is_space_def)
  note s = tokens.skip_none [OF T h this] and c = char_here [OF h len]
  have p: "apx_attributeParser_parse_scalar L mem n fin self = Inr (At n, self)"
    using c by (simp add: apx_attributeParser_parse_scalar_def is_digit_def)
  have leave: "post_value_handler L mem (Suc n) fin (self\<lparr>ap_state := Some q, ap_stack := []\<rparr>) =
      Inr (LEAVE (Suc n), self\<lparr>ap_state := Some q, ap_stack := []\<rparr>)" for q
    by (subst post_value_handler.simps) (simp add: apx_attributeParser_is_initializer_list_def)
  have "post_value_handler L mem n fin self = post_value_handler L mem (Suc n) fin (self\<lparr>ap_state := Some p, ap_stack := stk\<rparr>)"
    using c s assms(5-7) leave dtl_array(1) [OF D assms(8)]
    by (subst post_value_handler.simps, cases "stk = []")
      (simp_all add: Let_def apx_attributeParser_is_initializer_list_def apx_attributeParseState_has_value_def
        apx_attributeParseState_create_def)
  with c s p show ?thesis by (subst initializer_loop_resume) simp
qed

lemma value_read:
  fixes L :: "('v, 'd) definition_lib"
  assumes D: "dtl_documented (dl_dtl L) \<alpha>" and T: "tokens (dl_bstr L)" and len: "fin \<le> length mem"
  shows "plain_init v \<Longrightarrow> read_as L \<alpha> mem fin v"
proof (induction v)
  case (LIST vs)
  show ?case
    unfolding read_as_def
  proof (intro allI impI)
    fix n rest and self :: "'v apx_attributeParser"
    assume h0: "here (take fin mem) n (init_text (LIST vs) @ rest)" and st: "ap_state self = Some blank_state"
    have h: "here (take fin mem) n (123 # items_text vs @ 125 # rest)" using h0 by simp
    note h1 = here_cons(3) [OF h]
    have "map_option \<alpha> (av_new (dl_dtl L)) = Some (DvArray [])" using D by (simp add: dtl_documented_def builds_containers_def)
    then obtain l where l: "av_new (dl_dtl L) = Some l" "\<alpha> l = DvArray []" by auto
    let ?p = "blank_state\<lparr>ps_initializer_list := Some l\<rparr>"
    let ?self = "self\<lparr>ap_stack := ?p # ap_stack self, ap_state := Some blank_state\<rparr>"
    have "\<not> is_space 123" by (simp add: is_space_def)
    then have run: "initializer_loop L mem n fin self = initializer_loop L mem (Suc n) fin ?self"
      using tokens.skip_none [OF T h] char_here [OF h len] st l(1) by (subst initializer_loop_resume) simp
    have "\<exists>l'. \<alpha> l' = DvArray (map init_dv vs) \<and> initializer_loop L mem (Suc n) fin ?self =
      safely (post_value_handler L mem (n + length (init_text (LIST vs))) fin
        (?self\<lparr>ap_state := Some (?p\<lparr>ps_initializer_list := Some l'\<rparr>), ap_stack := ap_stack self\<rparr>)) (resume L mem fin)"
    proof (cases "vs = []")
      case True
      with empty_list_read [OF D T len _ _ _ _ l(2), of "Suc n" rest ?self ?p "ap_stack self"] h1 show ?thesis
        by (intro exI [of _ l]) (simp add: l(2))
    next
      case False
      have "\<forall>v\<in>set vs. read_as L \<alpha> mem fin v" using LIST by simp
      from items_read [OF D T len False this h1, of ?self ?p "ap_stack self" l "[]"] l(2) show ?thesis by simp
    qed
    then obtain l' where l': "\<alpha> l' = DvArray (map init_dv vs)" "initializer_loop L mem (Suc n) fin ?self =
      safely (post_value_handler L mem (n + length (init_text (LIST vs))) fin
        (self\<lparr>ap_state := Some \<lparr>ps_sv = None, ps_initializer_list = Some l'\<rparr>\<rparr>)) (resume L mem fin)"
      by (auto simp: apx_attributeParseState_create_def)
    show "\<exists>st w. holds st w \<and> \<alpha> w = init_dv (LIST vs) \<and> initializer_loop L mem n fin self =
        safely (post_value_handler L mem (n + length (init_text (LIST vs))) fin (self\<lparr>ap_state := Some st\<rparr>)) (resume L mem fin)"
      using run l' by (intro exI [of _ "\<lparr>ps_sv = None, ps_initializer_list = Some l'\<rparr>"] exI [of _ l']) (simp add: holds_def)
  qed
qed (rule scalar_read_as [OF assms], simp_all add: scalar_def)+

section \<open>Properties\<close>

text \<open> C14:
  An initial value of numbers of 32 bits, strings and lists, nested to any depth, is read as the value it stands for, up to
  its last character and past blanks behind it, and the parser is left without an error, with an empty stack. A number as the last thing of the text must be
  followed by some byte in memory that cannot belong to it.
\<close>

theorem initializer_exact:
  assumes "dtl_documented (dl_dtl L) \<alpha>" and "scans_tokens (dl_bstr L)" and "plain_init v"
    and "\<forall>c cs. rest = c # cs \<longrightarrow> \<not> is_space c"
    and "(\<exists>i. v = NUMBER i) \<longrightarrow> (\<exists>c cs. rest @ behind = c # cs \<and> stops c)"
  shows "\<exists>w self'. apx_attributeParser_parse_initializer L (init_text v @ rest @ behind) 0 (length (init_text v @ rest)) dv self =
      Inr (At (length (init_text v)), Some w, self') \<and> \<alpha> w = init_dv v \<and>
    ap_stack self' = [] \<and> ap_state self' = None \<and> apx_attributeParser_get_last_error self' = (APX_NO_ERROR, None)"
proof -
  let ?mem = "init_text v @ rest @ behind" and ?fin = "length (init_text v @ rest)" and ?n = "length (init_text v)"
  let ?self = "(apx_attributeParser_reset self)\<lparr>ap_state := Some blank_state\<rparr>"
  note T = tokens.intro [OF assms(2)]
  have part: "take ?fin ?mem = init_text v @ rest" by simp
  have "number_ends ?mem ?n" if "\<exists>i. v = NUMBER i"
    using assms(5) that by (cases rest) (auto simp: number_ends_def nth_append)
  then have "value_ends ?mem 0 v" by (simp add: value_ends_def)
  moreover have "here (take ?fin ?mem) 0 (init_text v @ rest)" by (simp add: part here_def)
  moreover have "read_as L \<alpha> ?mem ?fin v" by (rule value_read [OF assms(1) T _ assms(3)]) simp
  ultimately obtain st w where w: "holds st w" "\<alpha> w = init_dv v" "initializer_loop L ?mem 0 ?fin ?self =
      safely (post_value_handler L ?mem ?n ?fin (?self\<lparr>ap_state := Some st\<rparr>)) (resume L ?mem ?fin)"
    using read_asD [of L \<alpha> ?mem ?fin v 0 "rest" ?self] by auto
  have "post_value_handler L ?mem ?n ?fin (?self\<lparr>ap_state := Some st\<rparr>) = Inr (LEAVE ?n, ?self\<lparr>ap_state := Some st\<rparr>)"
    by (subst post_value_handler.simps) (simp add: apx_attributeParser_is_initializer_list_def apx_attributeParser_reset_def)
  then have loop: "initializer_loop L ?mem 0 ?fin ?self = Inr (At ?n, ?self\<lparr>ap_state := Some st\<rparr>)"
    using w(3) by (simp add: resume_def)
  have skip: "skip (dl_bstr L) (init_text v @ rest) ?n = ?n"
  proof (cases rest)
    case Nil
    have "lstrip (dl_bstr L) [] = 0" using assms(2) by (simp add: scans_tokens_def)
    with Nil show ?thesis by (simp add: skip_def)
  next
    case (Cons c cs)
    then have "here (init_text v @ rest) ?n (c # cs)" by (simp add: here_def)
    from tokens.skip_none [OF T this] Cons assms(4) show ?thesis by simp
  qed
  obtain c cs where "init_text v = c # cs" using init_text_first by blast
  then have "0 < ?n" by simp
  with loop skip part w(1,2) show ?thesis
    by (auto simp: apx_attributeParser_parse_initializer_def apx_attributeParser_parse_initializer_list_def holds_def
        apx_attributeParser_reset_def apx_attributeParser_get_last_error_def)
qed

text \<open> A text that ends with digits and is also the end of the memory is read past that end, by an initial value as by the
  number of a queue or a range: strtoul looks for the end of the digits.
\<close>

theorem number_at_end_overreads:
  assumes "scans_tokens (dl_bstr L)" and "ds \<noteq> []" and "\<forall>c\<in>set ds. is_digit c" and "hd ds \<noteq> 48"
  shows "apx_attributeParser_parse_initializer L ds 0 (length ds) dv self = Inl OUT_OF_BOUNDS"
proof -
  obtain d cs where ds: "ds = d # cs" using assms(2) by (cases ds) auto
  then have digit: "is_digit d" "d \<noteq> 48" using assms(3,4) by simp_all
  then have d: "ds = d # cs" "is_digit d" "\<not> is_space d" "d \<noteq> 123" "d \<noteq> 43" "d \<noteq> 45" "d \<noteq> 48"
    using ds digit_not_space [of d] by (auto simp: is_digit_def word_le_nat_alt)
  have "\<forall>c\<in>set ds. digit_of c < 10" using assms(3) digit_of_digit by blast
  then have "takeWhile (\<lambda>c. digit_of c < 10) ds = ds" by (simp add: takeWhile_eq_all_conv)
  then have s: "strtoul ds = Inl OUT_OF_BOUNDS"
    using d by (simp add: strtoul_def base_prefix_def Let_def)
  have "here ds 0 (d # cs)" using d(1) by (simp add: here_def)
  from tokens.skip_none [OF tokens.intro [OF assms(1)] this d(3)] have "skip (dl_bstr L) ds 0 = 0" .
  moreover have "apx_attributeParser_parse_scalar L ds 0 (length ds) st = Inl OUT_OF_BOUNDS" for st
    using s d by (simp add: apx_attributeParser_parse_scalar_def char_at_def scalar_read_def apx_attributeParser_parse_integer_literal_def)
  ultimately have "initializer_loop L ds 0 (length ds) st = Inl OUT_OF_BOUNDS" for st
    using d by (subst initializer_loop_resume) (simp add: char_at_def)
  then show ?thesis
    by (simp add: apx_attributeParser_parse_initializer_def apx_attributeParser_parse_initializer_list_def)
qed

section \<open>Concrete libraries\<close>

text \<open>Floating point numbers are whole numbers here, printed and read as such.\<close>

definition definition_lib_ref :: "(dv, int) definition_lib" where
  "definition_lib_ref = \<lparr>dl_bstr = bstr_ref, dl_dtl = dtl_ref, dl_text = text_bytes,
     match_cstr = (\<lambda>bs s. if take (length s) bs = s then At (length s) else NULLP),
     search_val = (\<lambda>bs v. let n = length (takeWhile (\<lambda>b. b \<noteq> v) bs) in if n < length bs then At n else NULLP),
     to_double = (\<lambda>bs. case read_signed bs of (result, w) \<Rightarrow> (result, sint w))\<rparr>"

lemma definition_lib_ref_documented:
  "scans_tokens (dl_bstr definition_lib_ref)" "measures_text (dl_text definition_lib_ref)" "matches_text definition_lib_ref"
  "dtl_documented (dl_dtl definition_lib_ref) (\<lambda>v. v)"
  using bstr_ref_scans text_bytes_measures dtl_ref_documented
  by (simp_all add: definition_lib_ref_def matches_text_def)

text \<open>\<open>VT(-1,1,"L","R"),RS(0,100,5,1,2,"m")\<close>\<close>

definition demo_computations :: "int computation list" where
  "demo_computations =
     [VALUE_TABLE \<lparr>vt_base = \<lparr>comp_is_signed_range = True, comp_lower_limit = -1, comp_upper_limit = 1\<rparr>, vt_values = [[76], [82]]\<rparr>,
      RATIONAL_SCALING \<lparr>rs_base = \<lparr>comp_is_signed_range = False, comp_lower_limit = 0, comp_upper_limit = 100\<rparr>, rs_offset = 5,
        rs_numerator = 1, rs_denominator = 2, rs_unit = Some [109]\<rparr>]"

lemma demo_computations_printable: "\<forall>c\<in>set demo_computations. printable_computation definition_lib_ref signed_decimal c"
  by (simp add: demo_computations_def printable_range_def plain_name_def reads_back_def definition_lib_ref_def
      signed_decimal_def decimal.simps read_signed_def read_unsigned_def is_digit_def is_space_def digits_val_def)

theorem type_attributes_roundtrip_witness:
  "apx_attributeParser_parse_type_attributes definition_lib_ref 0 (attributes_text signed_decimal demo_computations @ [10]) 0
    (length (attributes_text signed_decimal demo_computations)) apx_typeAttributes_create apx_attributeParser_create =
    Inr (At (length (attributes_text signed_decimal demo_computations)), demo_computations, apx_attributeParser_create)"
  by (rule type_attributes_roundtrip [OF definition_lib_ref_documented(1-3) demo_computations_printable refl])

text \<open>\<open>{1,"a",{-2}}\<close> in front of a comma, and a number at the end of its line.\<close>

theorem initializer_exact_witness:
  "\<exists>self'. apx_attributeParser_parse_initializer definition_lib_ref [123, 49, 44, 34, 97, 34, 44, 123, 45, 50, 125, 125, 44] 0 13 None
      apx_attributeParser_create = Inr (At 12, Some (DvArray [DvInt 1, DvStr [97], DvArray [DvInt (-2)]]), self')"
proof -
  let ?v = "LIST [NUMBER 1, STRING [97], LIST [NUMBER (-2)]]"
  have t: "init_text ?v = [123, 49, 44, 34, 97, 34, 44, 123, 45, 50, 125, 125]"
    by (simp add: signed_decimal_def decimal.simps)
  have p: "plain_init ?v" "\<forall>c cs. [44 :: byte] = c # cs \<longrightarrow> \<not> is_space c"
    "(\<exists>i. ?v = NUMBER i) \<longrightarrow> (\<exists>c cs. [44] @ [] = c # cs \<and> stops c)"
    by (simp_all add: plain_name_def is_space_def)
  have v: "init_dv ?v = DvArray [DvInt 1, DvStr [97], DvArray [DvInt (-2)]]" by simp
  have n: "length [123, 49, 44, 34, 97, 34, 44, 123, 45, 50, 125, 125 :: byte] = 12"
    "length ([123, 49, 44, 34, 97, 34, 44, 123, 45, 50, 125, 125, 44 :: byte]) = 13" by simp_all
  from initializer_exact [OF definition_lib_ref_documented(4,1) p, of None apx_attributeParser_create,
      unfolded t v append_Cons append_Nil append_Nil2, unfolded n]
  show ?thesis by blast
qed

theorem number_at_end_overreads_witness:
  "apx_attributeParser_parse_initializer definition_lib_ref [52, 50] 0 (length [52, 50 :: byte]) None apx_attributeParser_create =
    Inl OUT_OF_BOUNDS"
  by (rule number_at_end_overreads [OF definition_lib_ref_documented(1)]) (simp_all add: is_digit_def)

end
