(* ===== verification/ParseTree.thy ===== *)
theory ParseTree
  imports AttributeParser PortConnector
begin

text \<open>
  The parse tree of a definition: apx/src/node.c with port.c, data_type.c, data_signature.c and the parts of
  data_element.c that work on whole trees, which copy an element, replace type references by pointers, and bring initial values into the shape
  of their element.

  A node owns its data types and ports; the model keeps them in lists, and a pointer to one of them is its position.
  A reference to a data type that is resolved holds the data type as it is then: a data type whose own references are
  resolved does not change any more, and it is pointed to only from then on.

  Arrays and hash tables (adt_ary, adt_hash) are not in the repository: the contents of an array are a list, those of a
  hash table a partial function, and the functions that store in and read from them are parameters.
\<close>

section \<open>Libraries\<close>

record 'a ary_lib =
  push_value :: "'a list \<Rightarrow> 'a \<Rightarrow> 'a list"
  value_at :: "'a list \<Rightarrow> int \<Rightarrow> 'a option"

record 'a name_lib =
  name_set :: "(byte list \<Rightarrow> 'a option) \<Rightarrow> byte list \<Rightarrow> 'a \<Rightarrow> byte list \<Rightarrow> 'a option"
  name_value :: "(byte list \<Rightarrow> 'a option) \<Rightarrow> byte list option \<Rightarrow> 'a option"

definition ary_documented :: "'a ary_lib \<Rightarrow> bool" where
  "ary_documented A \<longleftrightarrow> (\<forall>xs x. push_value A xs x = xs @ [x]) \<and>
     (\<forall>xs i. 0 \<le> i \<longrightarrow> value_at A xs i = (if i < int (length xs) then Some (xs ! nat i) else None)) \<and>
     (\<forall>xs. xs \<noteq> [] \<longrightarrow> value_at A xs (-1) = Some (last xs))"

definition names_documented :: "'a name_lib \<Rightarrow> bool" where
  "names_documented N \<longleftrightarrow> (\<forall>m k x. name_set N m k x = m(k \<mapsto> x)) \<and> (\<forall>m k. name_value N m (Some k) = m k)"

definition ary_ref :: "'a ary_lib" where
  "ary_ref = \<lparr>push_value = (\<lambda>xs x. xs @ [x]),
     value_at = (\<lambda>xs i. if i < 0 then (if xs = [] then None else Some (last xs))
                        else if i < int (length xs) then Some (xs ! nat i) else None)\<rparr>"

definition names_ref :: "'a name_lib" where
  "names_ref = \<lparr>name_set = (\<lambda>m k x. m(k \<mapsto> x)), name_value = (\<lambda>m k. case k of None \<Rightarrow> None | Some k \<Rightarrow> m k)\<rparr>"

lemma tree_refs_documented: "ary_documented ary_ref" "names_documented names_ref"
  by (simp_all add: ary_documented_def ary_ref_def names_documented_def names_ref_def)

section \<open>Data\<close>

record apx_dataSignature =
  data_element :: "apx_dataElement option"
  effective_data_element :: "apx_dataElement option"

text \<open>
  A data type of a node: name, identifier and element are in the pointed-to part; its effective element is never set.
\<close>

record 'd data_type =
  pointed_to :: apx_dataType
  dt_attributes :: "'d apx_typeAttributes option"
  dt_line_number :: u32

record 'v port =
  pt_port_type :: apx_portType
  pt_port_id :: u32
  pt_line_number :: u32
  pt_name :: "byte list option"
  pt_data_signature :: apx_dataSignature
  pt_attributes :: "'v apx_portAttributes option"
  pt_proper_init_value :: "'v option"

record ('v, 'd) apx_node =
  nd_data_types :: "'d data_type list"
  nd_require_ports :: "'v port list"
  nd_provide_ports :: "'v port list"
  nd_type_map :: "byte list \<Rightarrow> nat option"
  nd_port_map :: "byte list \<Rightarrow> (apx_portType \<times> nat) option"
  nd_name :: "byte list option"
  nd_is_finalized :: bool
  nd_last_error_line :: u32

record ('v, 'd) tree_lib =
  tl_dtl :: "'v dtl"
  tl_types :: "'d data_type ary_lib"
  tl_ports :: "'v port ary_lib"
  tl_type_names :: "nat name_lib"
  tl_port_names :: "(apx_portType \<times> nat) name_lib"

definition tree_documented :: "('v, 'd) tree_lib \<Rightarrow> ('v \<Rightarrow> dv) \<Rightarrow> bool" where
  "tree_documented T \<alpha> \<longleftrightarrow> dtl_documented (tl_dtl T) \<alpha> \<and> ary_documented (tl_types T) \<and> ary_documented (tl_ports T) \<and>
     names_documented (tl_type_names T) \<and> names_documented (tl_port_names T)"

section \<open>Data signatures\<close>

definition apx_dataSignature_create :: apx_dataSignature where
  "apx_dataSignature_create = \<lparr>data_element = None, effective_data_element = None\<rparr>"

definition apx_dataSignature_set_element :: "apx_dataSignature \<Rightarrow> apx_dataElement option \<Rightarrow> apx_dataSignature" where
  "apx_dataSignature_set_element self de = self\<lparr>data_element := de\<rparr>"

definition apx_dataSignature_set_effective_element ::
  "apx_dataSignature \<Rightarrow> apx_dataElement option \<Rightarrow> apx_error \<times> apx_dataSignature" where
  "apx_dataSignature_set_effective_element self de =
     c_assert (effective_data_element self = None) (APX_NO_ERROR, self\<lparr>effective_data_element := de\<rparr>) self"

section \<open>Copies of data elements\<close>

text \<open>Which limits a copy takes over; those of the other types stay zero.\<close>

definition cloned_limit :: "apx_typeCode \<Rightarrow> u64 \<Rightarrow> u64" where
  "cloned_limit tc limit =
     (if tc \<in> {APX_TYPE_CODE_UINT8, APX_TYPE_CODE_UINT16, APX_TYPE_CODE_UINT32, APX_TYPE_CODE_CHAR8, APX_TYPE_CODE_CHAR16,
               APX_TYPE_CODE_CHAR32, APX_TYPE_CODE_INT8, APX_TYPE_CODE_INT16, APX_TYPE_CODE_INT32, APX_TYPE_CODE_CHAR}
      then low32 0 (ucast limit)
      else if tc \<in> {APX_TYPE_CODE_UINT64, APX_TYPE_CODE_INT64} then limit else 0)"

definition cloned_type_ref :: "apx_dataElement \<Rightarrow> apx_typeRef" where
  "cloned_type_ref self =
     (if de_type_code self \<in> {APX_TYPE_CODE_REF_ID, APX_TYPE_CODE_REF_NAME, APX_TYPE_CODE_REF_PTR} then de_type_ref self
      else TypeRefId APX_INVALID_TYPE_ID)"

fun apx_dataElement_clone :: "apx_dataElement \<Rightarrow> apx_dataElement" where
  "apx_dataElement_clone (DataElement nm es al ei tc dy hl lo up tr) =
     DataElement nm
       (if tc = APX_TYPE_CODE_RECORD then Some (case es of None \<Rightarrow> [] | Some es \<Rightarrow> map apx_dataElement_clone es) else None)
       al ei tc dy hl (if hl then cloned_limit tc lo else 0) (if hl then cloned_limit tc up else 0)
       (cloned_type_ref (DataElement nm es al ei tc dy hl lo up tr))"

section \<open>Type references\<close>

text \<open>
  The recursion of \<open>apx_dataElement_derive_types_on_element\<close> over a tree. Resolving the references of the data type at a position is a parameter
  here; it may not return. The second component of a result is the element, the third the data types.
\<close>

definition resolved :: "apx_dataElement \<Rightarrow> nat \<Rightarrow> (apx_error \<times> 'd data_type list) option \<Rightarrow>
    (apx_error \<times> apx_dataElement \<times> 'd data_type list) option" where
  "resolved self j outcome =
     map_option (\<lambda>(e, ts).
       (e, if e = APX_NO_ERROR then apx_dataElement_set_type_ref_ptr self (if j < length ts then Some (pointed_to (ts ! j)) else None)
           else self, ts)) outcome"

fun apx_dataElement_derive_types_on_element ::
  "('v, 'd) tree_lib \<Rightarrow> (byte list \<Rightarrow> nat option) \<Rightarrow> (nat \<Rightarrow> 'd data_type list \<Rightarrow> (apx_error \<times> 'd data_type list) option) \<Rightarrow>
     apx_dataElement \<Rightarrow> 'd data_type list \<Rightarrow> (apx_error \<times> apx_dataElement \<times> 'd data_type list) option"
and derive_types_on_children ::
  "('v, 'd) tree_lib \<Rightarrow> (byte list \<Rightarrow> nat option) \<Rightarrow> (nat \<Rightarrow> 'd data_type list \<Rightarrow> (apx_error \<times> 'd data_type list) option) \<Rightarrow>
     apx_dataElement list \<Rightarrow> 'd data_type list \<Rightarrow> (apx_error \<times> apx_dataElement list \<times> 'd data_type list) option" where
  "apx_dataElement_derive_types_on_element T type_map follow (DataElement nm es al ei tc dy hl lo up tr) types =
     (let self = DataElement nm es al ei tc dy hl lo up tr in
      if tc = APX_TYPE_CODE_RECORD then
        (case es of
           None \<Rightarrow> Some (APX_NO_ERROR, self, types)
         | Some es \<Rightarrow>
             map_option (\<lambda>(e, es, types). (e, DataElement nm (Some es) al ei tc dy hl lo up tr, types))
               (derive_types_on_children T type_map follow es types))
      else if tc = APX_TYPE_CODE_REF_ID then
        (let type_index = sint (apx_dataElement_get_type_ref_id self) in
         if type_index < 0 \<or> type_index > int (length types) then Some (APX_INVALID_TYPE_REF_ERROR, self, types)
         else if value_at (tl_types T) types type_index = None then Some (APX_NULL_PTR_ERROR, self, types)
         else resolved self (nat type_index) (follow (nat type_index) types))
      else if tc = APX_TYPE_CODE_REF_NAME then
        (case name_value (tl_type_names T) type_map (apx_dataElement_get_type_ref_name self) of
           None \<Rightarrow> Some (APX_INVALID_TYPE_REF_ERROR, self, types)
         | Some j \<Rightarrow> resolved self j (follow j types))
      else Some (APX_NO_ERROR, self, types))"
| "derive_types_on_children T type_map follow [] types = Some (APX_NO_ERROR, [], types)"
| "derive_types_on_children T type_map follow (child # children) types =
     (case apx_dataElement_derive_types_on_element T type_map follow child types of
        None \<Rightarrow> None
      | Some (e, child, types) \<Rightarrow>
          if e \<noteq> APX_NO_ERROR then Some (e, child # children, types)
          else map_option (\<lambda>(e, children, types). (e, child # children, types))
                 (derive_types_on_children T type_map follow children types))"

declare apx_dataElement_derive_types_on_element.simps [simp del]

fun apx_dataType_set_data_element :: "apx_dataType \<Rightarrow> apx_dataElement option \<Rightarrow> apx_dataType" where
  "apx_dataType_set_data_element (DataType nm de i) de' = DataType nm de' i"

text \<open>
  The data type at a position. The fuel bounds how many references are followed one inside another: the code has no such
  bound, so \<open>None\<close> for every fuel is a run that does not return.
\<close>

primrec apx_dataType_derive_types_on_element ::
  "nat \<Rightarrow> ('v, 'd) tree_lib \<Rightarrow> (byte list \<Rightarrow> nat option) \<Rightarrow> nat \<Rightarrow> 'd data_type list \<Rightarrow> (apx_error \<times> 'd data_type list) option" where
  "apx_dataType_derive_types_on_element 0 T type_map j types = None"
| "apx_dataType_derive_types_on_element (Suc fuel) T type_map j types =
     (if j < length types then
        (case dt_data_element (pointed_to (types ! j)) of
           None \<Rightarrow> Some (APX_NULL_PTR_ERROR, types)
         | Some de \<Rightarrow>
             map_option (\<lambda>(e, de, types).
                 (e, types[j := (types ! j)\<lparr>pointed_to := apx_dataType_set_data_element (pointed_to (types ! j)) (Some de)\<rparr>]))
               (apx_dataElement_derive_types_on_element T type_map (apx_dataType_derive_types_on_element fuel T type_map) de types))
      else Some (FAULT NULL_ACCESS, types))"

section \<open>Initial values\<close>

text \<open>
  The value of the initializer is put into the shape of the element: a list becomes the hash of a record, other values are
  taken as they are. In an array of records an item that is no list is left out. The result is the derived value, none if
  there is an error.
\<close>

definition scalar_items :: "'v dtl \<Rightarrow> 'v option \<Rightarrow> 'v option \<Rightarrow> nat list \<Rightarrow> apx_error \<times> 'v option" where
  "scalar_items D parsed_av derived_av is =
     foldl (\<lambda>(e, av) i.
         if e \<noteq> APX_NO_ERROR then (e, av)
         else let child = av_value D parsed_av (int i) in
           if dv_type D child = DTL_DV_SCALAR then (APX_NO_ERROR, av_push D av child) else (APX_VALUE_TYPE_ERROR, None))
       (APX_NO_ERROR, derived_av) is"

definition array_init_value :: "'v dtl \<Rightarrow> apx_dataElement \<Rightarrow> 'v \<Rightarrow> apx_error \<times> 'v option" where
  "array_init_value D self parsed_value =
     (if dv_type D (Some parsed_value) = DTL_DV_ARRAY then
        (let n = av_length D (Some parsed_value) in
         if apx_dataElement_is_dynamic_array self
         then (if n = 0 then (APX_NO_ERROR, av_new D) else (APX_UNSUPPORTED_ERROR, None))
         else if de_array_len self = word_of_int n
         then scalar_items D (Some parsed_value) (av_new D) [0..<unat (de_array_len self)]
         else (APX_VALUE_LENGTH_ERROR, None))
      else if dv_type D (Some parsed_value) = DTL_DV_SCALAR \<and> de_type_code self \<in> {APX_TYPE_CODE_CHAR, APX_TYPE_CODE_CHAR8}
      then (if sv_type D (Some parsed_value) = DTL_SV_STR then (APX_NO_ERROR, Some parsed_value) else (APX_VALUE_TYPE_ERROR, None))
      else (APX_VALUE_TYPE_ERROR, None))"

lemma elements_smaller: "de_elements de = Some es \<Longrightarrow> size_list size es < size de"
  by (cases de) simp

function apx_dataElement_derive_proper_init_value ::
  "'v dtl \<Rightarrow> apx_dataElement \<Rightarrow> 'v option \<Rightarrow> apx_error \<times> 'v option"
and record_items :: "'v dtl \<Rightarrow> apx_dataElement \<Rightarrow> 'v option \<Rightarrow> 'v option \<Rightarrow> nat list \<Rightarrow> apx_error \<times> 'v option"
and derive_hash_init_value :: "'v dtl \<Rightarrow> apx_dataElement \<Rightarrow> 'v option \<Rightarrow> apx_error \<times> 'v option"
and hash_children :: "'v dtl \<Rightarrow> apx_dataElement list \<Rightarrow> nat \<Rightarrow> 'v option \<Rightarrow> 'v option \<Rightarrow> apx_error \<times> 'v option" where
  "apx_dataElement_derive_proper_init_value D self parsed_value =
     (case parsed_value of
        None \<Rightarrow> (APX_INVALID_ARGUMENT_ERROR, None)
      | Some parsed \<Rightarrow>
      if de_type_code self \<in> {APX_TYPE_CODE_NONE, APX_TYPE_CODE_REF_ID, APX_TYPE_CODE_REF_NAME, APX_TYPE_CODE_REF_PTR}
      then (APX_UNSUPPORTED_ERROR, None)
      else if de_type_code self = APX_TYPE_CODE_RECORD then
        (if apx_dataElement_is_array self then
           (if dv_type D parsed_value = DTL_DV_ARRAY then
              (if apx_dataElement_is_dynamic_array self then
                 (if av_length D parsed_value \<noteq> 0 then (APX_NOT_IMPLEMENTED_ERROR, None) else (APX_NO_ERROR, av_new D))
               else if word_of_int (av_length D parsed_value) \<noteq> de_array_len self then (APX_VALUE_LENGTH_ERROR, None)
               else record_items D self parsed_value (av_new D) [0..<unat (de_array_len self)])
            else (APX_VALUE_TYPE_ERROR, None))
         else if dv_type D parsed_value = DTL_DV_ARRAY then derive_hash_init_value D self parsed_value
         else (APX_VALUE_TYPE_ERROR, None))
      else if apx_dataElement_is_array self then array_init_value D self parsed
      else if dv_type D parsed_value = DTL_DV_SCALAR then (APX_NO_ERROR, parsed_value)
      else (APX_VALUE_TYPE_ERROR, None))"
| "record_items D self parsed_av derived_av [] = (APX_NO_ERROR, derived_av)"
| "record_items D self parsed_av derived_av (i # is) =
     (let child = av_value D parsed_av (int i) in
      if dv_type D child = DTL_DV_ARRAY then
        (case derive_hash_init_value D self child of
           (e, hv) \<Rightarrow>
             if e \<noteq> APX_NO_ERROR then (e, None)
             else record_items D self parsed_av (av_push D derived_av hv) is)
      else record_items D self parsed_av derived_av is)"
| "derive_hash_init_value D self parsed_av =
     (if apx_dataElement_get_num_child_elements self \<noteq> av_length D parsed_av then (APX_VALUE_LENGTH_ERROR, None)
      else case de_elements self of
        None \<Rightarrow> (APX_NO_ERROR, hv_new D)
      | Some children \<Rightarrow> hash_children D children 0 parsed_av (hv_new D))"
| "hash_children D [] i parsed_av hv = (APX_NO_ERROR, hv)"
| "hash_children D (child # children) i parsed_av hv =
     (case apx_dataElement_get_name child of
        None \<Rightarrow> (FAULT ASSERT_FAILURE, None)
      | Some child_name \<Rightarrow>
          (case apx_dataElement_derive_data_element child of
             (e, None, parent) \<Rightarrow> (if e \<noteq> APX_NO_ERROR then e else FAULT ASSERT_FAILURE, None)
           | (e, Some derived_element, parent) \<Rightarrow>
               if e \<noteq> APX_NO_ERROR then (e, None)
               else (case apx_dataElement_derive_proper_init_value D derived_element (av_value D parsed_av (int i)) of
                       (e, derived_dv) \<Rightarrow>
                         if e \<noteq> APX_NO_ERROR then (e, None)
                         else hash_children D children (Suc i) parsed_av (hv_set_cstr D hv (c_string child_name) derived_dv))))"
  by pat_completeness auto

termination
  by (relation "measures [\<lambda>x. case x of Inl (Inl (D, de, v)) \<Rightarrow> size de | Inl (Inr (D, de, v, w, is)) \<Rightarrow> size de
        | Inr (Inl (D, de, v)) \<Rightarrow> size de | Inr (Inr (D, es, i, v, w)) \<Rightarrow> size_list size es,
      \<lambda>x. case x of Inl (Inl y) \<Rightarrow> 2 | Inl (Inr y) \<Rightarrow> 1 | Inr y \<Rightarrow> 0,
      \<lambda>x. case x of Inl (Inr (D, de, v, w, is)) \<Rightarrow> length is | _ \<Rightarrow> 0]")
    (auto dest: elements_smaller dest!: derive_data_element_size [OF sym])

declare apx_dataElement_derive_proper_init_value.simps [simp del] derive_hash_init_value.simps [simp del]

section \<open>Ports\<close>

abbreviation (input) APX_INVALID_PORT_ID :: u32 where "APX_INVALID_PORT_ID \<equiv> 0xFFFFFFFF"

definition apx_port_create :: "apx_portType \<Rightarrow> byte list \<Rightarrow> u32 \<Rightarrow> 'v port" where
  "apx_port_create port_type name line_number =
     \<lparr>pt_port_type = port_type, pt_port_id = APX_INVALID_PORT_ID, pt_line_number = line_number, pt_name = Some (c_string name),
      pt_data_signature = apx_dataSignature_create, pt_attributes = None, pt_proper_init_value = None\<rparr>"

definition apx_port_get_data_element :: "'v port \<Rightarrow> apx_dataElement option" where
  "apx_port_get_data_element self = data_element (pt_data_signature self)"

definition apx_port_get_effective_data_element :: "'v port \<Rightarrow> apx_dataElement option" where
  "apx_port_get_effective_data_element self = effective_data_element (pt_data_signature self)"

definition apx_port_init_attributes :: "'v port \<Rightarrow> 'v port" where
  "apx_port_init_attributes self =
     (if pt_attributes self = None then self\<lparr>pt_attributes := Some apx_portAttributes_create\<rparr> else self)"

definition apx_port_is_queued :: "'v port \<Rightarrow> bool" where
  "apx_port_is_queued self = (case pt_attributes self of None \<Rightarrow> False | Some a \<Rightarrow> apx_portAttributes_is_queued a)"

definition apx_port_get_queue_length :: "'v port \<Rightarrow> u32" where
  "apx_port_get_queue_length self = (case pt_attributes self of None \<Rightarrow> 0 | Some a \<Rightarrow> pa_queue_length a)"

definition apx_port_set_id :: "'v port \<Rightarrow> u32 \<Rightarrow> 'v port" where
  "apx_port_set_id self port_id = self\<lparr>pt_port_id := port_id\<rparr>"

text \<open>The data type a port refers to is looked up by its identifier, which is its position.\<close>

definition apx_port_get_referenced_type_attributes :: "'d data_type list \<Rightarrow> 'v port \<Rightarrow> fault + 'd apx_typeAttributes option" where
  "apx_port_get_referenced_type_attributes types self =
     (case apx_port_get_data_element self of
        None \<Rightarrow> Inl ASSERT_FAILURE
      | Some de \<Rightarrow>
          if apx_dataElement_get_type_code (Some de) = APX_TYPE_CODE_REF_PTR then
            (case apx_dataElement_get_type_ref_ptr de of
               None \<Rightarrow> Inl ASSERT_FAILURE
             | Some dt \<Rightarrow> if unat (dt_type_id dt) < length types then Inr (dt_attributes (types ! unat (dt_type_id dt))) else Inl OUT_OF_BOUNDS)
          else Inr None)"

definition port_on_signature :: "(apx_dataSignature \<Rightarrow> apx_dataSignature) \<Rightarrow> 'v port \<Rightarrow> 'v port" where
  "port_on_signature f self = self\<lparr>pt_data_signature := f (pt_data_signature self)\<rparr>"

definition apx_port_derive_types ::
  "nat \<Rightarrow> ('v, 'd) tree_lib \<Rightarrow> (byte list \<Rightarrow> nat option) \<Rightarrow> 'v port \<Rightarrow> 'd data_type list \<Rightarrow>
     (apx_error \<times> 'v port \<times> 'd data_type list) option" where
  "apx_port_derive_types fuel T type_map self types =
     (case apx_port_get_data_element self of
        None \<Rightarrow> Some (APX_NULL_PTR_ERROR, self, types)
      | Some de \<Rightarrow>
          map_option (\<lambda>(e, de, types). (e, port_on_signature (\<lambda>s. apx_dataSignature_set_element s (Some de)) self, types))
            (apx_dataElement_derive_types_on_element T type_map (apx_dataType_derive_types_on_element fuel T type_map) de types))"

definition apx_port_derive_proper_init_value :: "'v dtl \<Rightarrow> 'v port \<Rightarrow> apx_error \<times> 'v port" where
  "apx_port_derive_proper_init_value D self =
     (case apx_port_get_effective_data_element self of
        None \<Rightarrow> (APX_NULL_PTR_ERROR, self)
      | Some de \<Rightarrow>
          (case Option.bind (pt_attributes self) pa_init_value of
             None \<Rightarrow> (APX_NO_ERROR, self)
           | Some parsed_init_value \<Rightarrow>
               (case apx_dataElement_derive_proper_init_value D de (Some parsed_init_value) of
                  (e, derived) \<Rightarrow>
                    if e \<noteq> APX_NO_ERROR then (e, self)
                    else (APX_NO_ERROR, if derived \<noteq> None then self\<lparr>pt_proper_init_value := derived\<rparr> else self))))"

definition derive_data_element :: "'v port \<Rightarrow> apx_error \<times> apx_dataElement option \<times> apx_dataElement option" where
  "derive_data_element self =
     (case apx_port_get_data_element self of
        None \<Rightarrow> (APX_NULL_PTR_ERROR, None, None)
      | Some de \<Rightarrow>
          if apx_dataElement_get_type_code (Some de) = APX_TYPE_CODE_REF_PTR then
            (case apx_dataElement_get_type_ref_ptr de of
               None \<Rightarrow> (APX_NULL_PTR_ERROR, Some de, Some de)
             | Some data_type \<Rightarrow>
                 (case apx_dataType_derive_data_element data_type of
                    (e, None, parent) \<Rightarrow> (if is_fault e then e else APX_NULL_PTR_ERROR, None, if parent = None then Some de else parent)
                  | (e, Some d, parent) \<Rightarrow> (e, Some d, if parent = None then Some de else parent)))
          else (APX_NO_ERROR, Some de, None))"

text \<open>
  The effective element is a copy of the element behind the references. An array of references to something that is no
  array becomes an array of that; an array of references to an array is refused.
\<close>

definition apx_port_flatten_data_element :: "'v port \<Rightarrow> apx_error \<times> 'v port" where
  "apx_port_flatten_data_element self =
     (case derive_data_element self of
        (e, derived_element, parent_element) \<Rightarrow>
          if e \<noteq> APX_NO_ERROR then (e, self)
          else (case derived_element of
            None \<Rightarrow> (APX_NULL_PTR_ERROR, self)
          | Some de \<Rightarrow>
              let cloned_element = apx_dataElement_clone de;
                  parent_is_array = (case parent_element of None \<Rightarrow> False | Some parent \<Rightarrow> apx_dataElement_is_array parent) in
              if parent_is_array \<and> apx_dataElement_is_array cloned_element then (APX_PARSE_ERROR, self)
              else
                (let cloned_element =
                   (if parent_is_array
                    then (let parent = the parent_element;
                              cloned_element = apx_dataElement_set_array_length cloned_element (apx_dataElement_get_array_length parent) in
                          if apx_dataElement_is_dynamic_array parent then apx_dataElement_set_dynamic_array cloned_element else cloned_element)
                    else cloned_element)
                 in case apx_dataSignature_set_effective_element (pt_data_signature self) (Some cloned_element) of
                      (e, signature) \<Rightarrow> (e, self\<lparr>pt_data_signature := signature\<rparr>))))"

section \<open>Data types\<close>

definition apx_dataType_create :: "byte list \<Rightarrow> u32 \<Rightarrow> 'd data_type" where
  "apx_dataType_create name line_number =
     \<lparr>pointed_to = DataType (Some (c_string name)) None 0, dt_attributes = None, dt_line_number = line_number\<rparr>"

definition apx_dataType_init_attributes :: "'d data_type \<Rightarrow> 'd data_type" where
  "apx_dataType_init_attributes self =
     (if dt_attributes self = None then self\<lparr>dt_attributes := Some apx_typeAttributes_create\<rparr> else self)"

definition type_set_element :: "'d data_type \<Rightarrow> apx_dataElement option \<Rightarrow> 'd data_type" where
  "type_set_element self de = self\<lparr>pointed_to := apx_dataType_set_data_element (pointed_to self) de\<rparr>"

fun apx_dataType_set_id :: "apx_dataType \<Rightarrow> u32 \<Rightarrow> apx_dataType" where
  "apx_dataType_set_id (DataType nm de i) type_id = DataType nm de type_id"

section \<open>Nodes\<close>

definition apx_node_create :: "byte list \<Rightarrow> ('v, 'd) apx_node" where
  "apx_node_create name =
     \<lparr>nd_data_types = [], nd_require_ports = [], nd_provide_ports = [], nd_type_map = Map.empty, nd_port_map = Map.empty,
      nd_name = Some (c_string name), nd_is_finalized = False, nd_last_error_line = 0\<rparr>"

definition apx_node_append_data_type ::
  "('v, 'd) tree_lib \<Rightarrow> ('v, 'd) apx_node \<Rightarrow> 'd data_type \<Rightarrow> apx_error \<times> ('v, 'd) apx_node" where
  "apx_node_append_data_type T self t =
     (case dt_name (pointed_to t) of
        None \<Rightarrow> (APX_NAME_MISSING_ERROR, self)
      | Some name \<Rightarrow>
          if name_value (tl_type_names T) (nd_type_map self) (Some name) \<noteq> None then (APX_TYPE_ALREADY_EXIST_ERROR, self)
          else
            (let n = length (nd_data_types self); t = t\<lparr>pointed_to := apx_dataType_set_id (pointed_to t) (word_of_nat n)\<rparr> in
             (APX_NO_ERROR,
              self\<lparr>nd_data_types := push_value (tl_types T) (nd_data_types self) t,
                   nd_type_map := name_set (tl_type_names T) (nd_type_map self) name n\<rparr>)))"

definition apx_node_append_port ::
  "('v, 'd) tree_lib \<Rightarrow> ('v, 'd) apx_node \<Rightarrow> 'v port \<Rightarrow> apx_error \<times> ('v, 'd) apx_node" where
  "apx_node_append_port T self p =
     (case pt_name p of
        None \<Rightarrow> (APX_NAME_MISSING_ERROR, self)
      | Some name \<Rightarrow>
          if name_value (tl_port_names T) (nd_port_map self) (Some name) \<noteq> None then (APX_PORT_ALREADY_EXIST_ERROR, self)
          else if pt_port_type p = APX_PROVIDE_PORT then
            (let n = length (nd_provide_ports self) in
             (APX_NO_ERROR,
              self\<lparr>nd_provide_ports := push_value (tl_ports T) (nd_provide_ports self) (apx_port_set_id p (word_of_nat n)),
                   nd_port_map := name_set (tl_port_names T) (nd_port_map self) name (APX_PROVIDE_PORT, n)\<rparr>))
          else
            (let n = length (nd_require_ports self) in
             (APX_NO_ERROR,
              self\<lparr>nd_require_ports := push_value (tl_ports T) (nd_require_ports self) (apx_port_set_id p (word_of_nat n)),
                   nd_port_map := name_set (tl_port_names T) (nd_port_map self) name (APX_REQUIRE_PORT, n)\<rparr>)))"

text \<open>
  The loops over the ports of one side: they stop at the first port with an error, whose line is noted. The result is the error and
  that line, if there is one.
\<close>

primrec derive_types_on_ports ::
  "nat \<Rightarrow> ('v, 'd) tree_lib \<Rightarrow> (byte list \<Rightarrow> nat option) \<Rightarrow> 'v port list \<Rightarrow> 'd data_type list \<Rightarrow>
     (apx_error \<times> u32 option \<times> 'v port list \<times> 'd data_type list) option" where
  "derive_types_on_ports fuel T type_map [] types = Some (APX_NO_ERROR, None, [], types)"
| "derive_types_on_ports fuel T type_map (p # ps) types =
     (case apx_port_derive_types fuel T type_map p types of
        None \<Rightarrow> None
      | Some (e, p, types) \<Rightarrow>
          if e \<noteq> APX_NO_ERROR then Some (e, Some (pt_line_number p), p # ps, types)
          else map_option (\<lambda>(e, line, ps, types). (e, line, p # ps, types)) (derive_types_on_ports fuel T type_map ps types))"

primrec each_port :: "('v port \<Rightarrow> apx_error \<times> 'v port) \<Rightarrow> 'v port list \<Rightarrow> apx_error \<times> u32 option \<times> 'v port list" where
  "each_port f [] = (APX_NO_ERROR, None, [])"
| "each_port f (p # ps) =
     (case f p of
        (e, p) \<Rightarrow>
          if e \<noteq> APX_NO_ERROR then (e, Some (pt_line_number p), p # ps)
          else (case each_port f ps of (e, line, ps) \<Rightarrow> (e, line, p # ps)))"

definition expand_data_elements_on_ports :: "'v port list \<Rightarrow> apx_error \<times> u32 option \<times> 'v port list" where
  "expand_data_elements_on_ports = each_port apx_port_flatten_data_element"

definition derive_proper_init_values_on_ports :: "'v dtl \<Rightarrow> 'v port list \<Rightarrow> apx_error \<times> u32 option \<times> 'v port list" where
  "derive_proper_init_values_on_ports D = each_port (apx_port_derive_proper_init_value D)"

definition note_line :: "u32 option \<Rightarrow> ('v, 'd) apx_node \<Rightarrow> ('v, 'd) apx_node" where
  "note_line line self = (case line of None \<Rightarrow> self | Some l \<Rightarrow> self\<lparr>nd_last_error_line := l\<rparr>)"

definition on_provide_ports ::
  "('v port list \<Rightarrow> apx_error \<times> u32 option \<times> 'v port list) \<Rightarrow> ('v, 'd) apx_node \<Rightarrow> apx_error \<times> ('v, 'd) apx_node" where
  "on_provide_ports f self = (case f (nd_provide_ports self) of (e, line, ps) \<Rightarrow> (e, note_line line (self\<lparr>nd_provide_ports := ps\<rparr>)))"

definition on_require_ports ::
  "('v port list \<Rightarrow> apx_error \<times> u32 option \<times> 'v port list) \<Rightarrow> ('v, 'd) apx_node \<Rightarrow> apx_error \<times> ('v, 'd) apx_node" where
  "on_require_ports f self = (case f (nd_require_ports self) of (e, line, ps) \<Rightarrow> (e, note_line line (self\<lparr>nd_require_ports := ps\<rparr>)))"

definition derive_types_on_node :: "nat \<Rightarrow> ('v, 'd) tree_lib \<Rightarrow> ('v, 'd) apx_node \<Rightarrow> (apx_error \<times> ('v, 'd) apx_node) option" where
  "derive_types_on_node fuel T self =
     (case derive_types_on_ports fuel T (nd_type_map self) (nd_provide_ports self) (nd_data_types self) of
        None \<Rightarrow> None
      | Some (e, line, ps, types) \<Rightarrow>
          let self = note_line line (self\<lparr>nd_provide_ports := ps, nd_data_types := types\<rparr>) in
          if e \<noteq> APX_NO_ERROR then Some (e, self)
          else (case derive_types_on_ports fuel T (nd_type_map self) (nd_require_ports self) (nd_data_types self) of
                  None \<Rightarrow> None
                | Some (e, line, ps, types) \<Rightarrow> Some (e, note_line line (self\<lparr>nd_require_ports := ps, nd_data_types := types\<rparr>))))"

definition apx_node_finalize :: "nat \<Rightarrow> ('v, 'd) tree_lib \<Rightarrow> ('v, 'd) apx_node \<Rightarrow> (apx_error \<times> ('v, 'd) apx_node) option" where
  "apx_node_finalize fuel T self =
     (if nd_is_finalized self then Some (APX_NO_ERROR, self)
      else
        map_option (\<lambda>r.
            andThen (andThen (andThen (andThen (andThen r
              (on_provide_ports expand_data_elements_on_ports))
              (on_require_ports expand_data_elements_on_ports))
              (on_provide_ports (derive_proper_init_values_on_ports (tl_dtl T))))
              (on_require_ports (derive_proper_init_values_on_ports (tl_dtl T))))
              (\<lambda>self. (APX_NO_ERROR, self\<lparr>nd_is_finalized := True\<rparr>)))
          (derive_types_on_node fuel T (self\<lparr>nd_last_error_line := 0xFFFFFFFF\<rparr>)))"

end
