(* ===== verification/Stream.thy ===== *)
theory Stream
  imports Libs Text
begin

text \<open>
  apx/src/stream.c: a stream cuts what is written to it into lines and hands each line to its handler. The part behind
  the last line end waits in a buffer for the next write or for the end of the stream.

  The handler is a record of functions over a state of its own, the object behind its argument pointer; each may be
  missing. A line is given as the memory from its start on and its length, since a handler can look behind the line, at what is
  in the buffer there. Closing may not return. After a fault no code runs.

  The byte array and the search for a byte are not in the repository and are parameters.
\<close>

section \<open>Libraries\<close>

record stream_lib =
  st_append :: "byte list \<Rightarrow> byte list \<Rightarrow> byte list"
  st_clear :: "byte list \<Rightarrow> byte list"
  st_trim_left :: "byte list \<Rightarrow> nat \<Rightarrow> byte list"
  st_search_val :: "byte list \<Rightarrow> byte \<Rightarrow> pointer"

definition finds_first :: "(byte list \<Rightarrow> byte \<Rightarrow> pointer) \<Rightarrow> bool" where
  "finds_first search \<longleftrightarrow> (\<forall>front v rest. v \<notin> set front \<longrightarrow> search (front @ v # rest) v = At (length front)) \<and>
     (\<forall>bs v. v \<notin> set bs \<longrightarrow> search bs v \<in> {NULLP, At 0})"

definition stream_documented :: "stream_lib \<Rightarrow> bool" where
  "stream_documented S \<longleftrightarrow> (\<forall>b chunk. st_append S b chunk = b @ chunk) \<and> (\<forall>b. st_clear S b = []) \<and>
     (\<forall>b n. n \<le> length b \<longrightarrow> st_trim_left S b n = drop n b) \<and> finds_first (st_search_val S)"

definition search_ref :: "byte list \<Rightarrow> byte \<Rightarrow> pointer" where
  "search_ref bs v = (let n = length (takeWhile (\<lambda>b. b \<noteq> v) bs) in if n < length bs then At n else NULLP)"

definition stream_ref :: stream_lib where
  "stream_ref = \<lparr>st_append = (@), st_clear = (\<lambda>b. []), st_trim_left = (\<lambda>b n. drop n b), st_search_val = search_ref\<rparr>"

lemma search_ref_finds: "finds_first search_ref"
proof -
  have "search_ref (front @ v # rest) v = At (length front)" if "v \<notin> set front" for front rest v
  proof -
    from that have "takeWhile (\<lambda>b. b \<noteq> v) front = front" by (auto simp: takeWhile_eq_all_conv)
    then have "takeWhile (\<lambda>b. b \<noteq> v) (front @ v # rest) = front" by (simp add: takeWhile_append)
    then show ?thesis by (simp add: search_ref_def Let_def)
  qed
  moreover have "search_ref bs v = NULLP" if "v \<notin> set bs" for bs v
  proof -
    from that have "takeWhile (\<lambda>b. b \<noteq> v) bs = bs" by (auto simp: takeWhile_eq_all_conv)
    then have "\<not> length (takeWhile (\<lambda>b. b \<noteq> v) bs) < length bs" by (simp only: less_irrefl not_False_eq_True)
    then show ?thesis by (simp only: search_ref_def Let_def if_False)
  qed
  ultimately show ?thesis by (simp add: finds_first_def)
qed

lemma stream_ref_documented: "stream_documented stream_ref"
  using search_ref_finds by (simp add: stream_documented_def stream_ref_def)

section \<open>State\<close>

record 's apx_istream_handler =
  h_open :: "('s \<Rightarrow> apx_error \<times> 's) option"
  h_close :: "('s \<Rightarrow> (apx_error \<times> 's) option) option"
  h_new_line :: "('s \<Rightarrow> byte list \<Rightarrow> nat \<Rightarrow> apx_error \<times> 's) option"

record 's apx_istream =
  is_handler :: "'s apx_istream_handler"
  is_buf :: "byte list"
  is_last_error :: apx_error

definition no_handler :: "'s apx_istream_handler" where
  "no_handler = \<lparr>h_open = None, h_close = None, h_new_line = None\<rparr>"

definition apx_istream_create :: "'s apx_istream" where
  "apx_istream_create = \<lparr>is_handler = no_handler, is_buf = [], is_last_error = APX_NO_ERROR\<rparr>"

definition apx_istream_set_handler :: "'s apx_istream \<Rightarrow> 's apx_istream_handler \<Rightarrow> 's apx_istream" where
  "apx_istream_set_handler self handler = self\<lparr>is_handler := handler\<rparr>"

definition apx_istream_reset :: "stream_lib \<Rightarrow> 's apx_istream \<Rightarrow> 's apx_istream" where
  "apx_istream_reset S self = self\<lparr>is_buf := st_clear S (is_buf self), is_last_error := APX_NO_ERROR\<rparr>"

section \<open>Operations\<close>

definition apx_istream_handler_open :: "'s apx_istream_handler \<Rightarrow> 's \<Rightarrow> apx_error \<times> 's" where
  "apx_istream_handler_open handler s = (case h_open handler of None \<Rightarrow> (APX_INVALID_ARGUMENT_ERROR, s) | Some f \<Rightarrow> f s)"

definition apx_istream_handler_close :: "'s apx_istream_handler \<Rightarrow> 's \<Rightarrow> (apx_error \<times> 's) option" where
  "apx_istream_handler_close handler s = (case h_close handler of None \<Rightarrow> Some (APX_INVALID_ARGUMENT_ERROR, s) | Some f \<Rightarrow> f s)"

definition apx_istream_handler_new_line :: "'s apx_istream_handler \<Rightarrow> 's \<Rightarrow> byte list \<Rightarrow> nat \<Rightarrow> apx_error \<times> 's" where
  "apx_istream_handler_new_line handler s mem len =
     (case h_new_line handler of None \<Rightarrow> (APX_INVALID_ARGUMENT_ERROR, s) | Some f \<Rightarrow> f s mem len)"

definition apx_istream_open :: "'s apx_istream \<Rightarrow> 's \<Rightarrow> 's apx_istream \<times> 's" where
  "apx_istream_open self s =
     (if is_last_error self = APX_NO_ERROR
      then (case apx_istream_handler_open (is_handler self) s of (e, s) \<Rightarrow> (self\<lparr>is_last_error := e\<rparr>, s))
      else (self, s))"

definition apx_istream_close :: "'s apx_istream \<Rightarrow> 's \<Rightarrow> ('s apx_istream \<times> 's) option" where
  "apx_istream_close self s =
     (if is_last_error self = APX_NO_ERROR then
        (case (if is_buf self \<noteq> [] then apx_istream_handler_new_line (is_handler self) s (is_buf self) (length (is_buf self))
               else (APX_NO_ERROR, s)) of
           (e, s) \<Rightarrow>
             if e \<noteq> APX_NO_ERROR then Some (self\<lparr>is_last_error := e\<rparr>, s)
             else map_option (\<lambda>(e, s). (self\<lparr>is_last_error := e\<rparr>, s)) (apx_istream_handler_close (is_handler self) s))
      else Some (self, s))"

text \<open>
  The loop over the lines in the buffer: whether the handler refused a line, at which the function returns, the error
  last stored, and where the next line begins.
\<close>

function line_loop ::
  "stream_lib \<Rightarrow> 's apx_istream_handler \<Rightarrow> byte list \<Rightarrow> nat \<Rightarrow> apx_error \<Rightarrow> 's \<Rightarrow> bool \<times> apx_error \<times> nat \<times> 's" where
  "line_loop S handler buf line_begin last_error s =
     (if line_begin < length buf then
        (let txt = drop line_begin buf in
         case st_search_val S txt 10 of
           At 0 \<Rightarrow>
             if txt ! 0 = 10 then
               (case apx_istream_handler_new_line handler s txt 0 of
                  (e, s) \<Rightarrow>
                    if e \<noteq> APX_NO_ERROR then (True, e, line_begin, s)
                    else line_loop S handler buf (Suc line_begin) e s)
             else (False, last_error, line_begin, s)
         | At (Suc n) \<Rightarrow>
             (case (if txt ! n = 13 then (n, 2) else (Suc n, 1)) of
                (line_length, eol_size) \<Rightarrow>
                  (case apx_istream_handler_new_line handler s txt line_length of
                     (e, s) \<Rightarrow>
                       if e \<noteq> APX_NO_ERROR then (True, e, line_begin, s)
                       else line_loop S handler buf (line_begin + line_length + eol_size) e s))
         | _ \<Rightarrow> (False, last_error, line_begin, s))
      else (False, last_error, line_begin, s))"
  by pat_completeness auto

termination
  by (relation "measure (\<lambda>(S, handler, buf, line_begin, e, s). length buf - line_begin)") (auto split: if_splits)

declare line_loop.simps [simp del]

definition apx_istream_write :: "stream_lib \<Rightarrow> 's apx_istream \<Rightarrow> 's \<Rightarrow> byte list \<Rightarrow> 's apx_istream \<times> 's" where
  "apx_istream_write S self s chunk =
     (if chunk = [] \<or> is_fault (is_last_error self) then (self, s)
      else
        (let buf = st_append S (is_buf self) chunk in
         case line_loop S (is_handler self) buf 0 (is_last_error self) s of
           (returned, e, line_begin, s) \<Rightarrow>
             let self = self\<lparr>is_buf := buf, is_last_error := e\<rparr> in
             if returned then (self, s)
             else if line_begin > 0 then
               (if line_begin = length buf then (self\<lparr>is_buf := st_clear S buf\<rparr>, s)
                else if \<not> line_begin < length buf then (self\<lparr>is_last_error := FAULT ASSERT_FAILURE\<rparr>, s)
                else (self\<lparr>is_buf := st_trim_left S buf line_begin\<rparr>, s))
             else (self, s)))"

end
