(* ===== verification/DefinitionParser.thy ===== *)
theory DefinitionParser
  imports ParseTree Stream
begin

text \<open>
  apx/src/parser.c: a definition, line by line. The first line that is not empty tells the version, the next one the name of the node, then
  data types and ports follow, a declaration on each line. The lines come from a stream; the end of the stream finalizes the
  node.

  A line is the memory from its first character on and its length \<open>fin\<close>. Positions in it are those of \<open>mem\<close>.
\<close>

section \<open>State\<close>

abbreviation (input) APX_MAX_NAME_LEN :: nat where "APX_MAX_NAME_LEN \<equiv> 256"
abbreviation (input) APX_DEFINITION_SECTION_VERSION :: nat where "APX_DEFINITION_SECTION_VERSION \<equiv> 0"
abbreviation (input) APX_DEFINITION_SECTION_NODE :: nat where "APX_DEFINITION_SECTION_NODE \<equiv> 1"
abbreviation (input) APX_DEFINITION_SECTION_TYPE :: nat where "APX_DEFINITION_SECTION_TYPE \<equiv> 2"
abbreviation (input) APX_DEFINITION_SECTION_PORT :: nat where "APX_DEFINITION_SECTION_PORT \<equiv> 3"

record ('v, 'd) apx_parse_state =
  accept_next :: nat
  major_version :: u32
  minor_version :: u32
  lineno :: u32
  st_node :: "('v, 'd) apx_node option"
  st_data_element :: "apx_dataElement option"
  st_data_type :: "'d data_type option"
  st_port :: "'v port option"

record ('v, 'd) apx_parser =
  dp_last_error :: apx_error
  dp_last_error_line :: u32
  dp_state :: "('v, 'd) apx_parse_state"
  attribute_parser :: "'v apx_attributeParser"
  signature_parser :: apx_signatureParser

text \<open>The libraries, and zero as a floating point number.\<close>

record ('v, 'd) parser_lib =
  pl_definition :: "('v, 'd) definition_lib"
  pl_tree :: "('v, 'd) tree_lib"
  pl_stream :: stream_lib
  pl_zero :: 'd

definition state_init :: "('v, 'd) apx_parse_state" where
  "state_init = \<lparr>accept_next = APX_DEFINITION_SECTION_VERSION, major_version = 0, minor_version = 0, lineno = 0,
     st_node = None, st_data_element = None, st_data_type = None, st_port = None\<rparr>"

definition state_clear :: "('v, 'd) apx_parse_state \<Rightarrow> ('v, 'd) apx_parse_state" where
  "state_clear self = \<lparr>accept_next = APX_DEFINITION_SECTION_VERSION, major_version = 0, minor_version = 0, lineno = 0,
     st_node = None, st_data_element = None, st_data_type = None, st_port = None\<rparr>"

definition parser_clear_error :: "('v, 'd) apx_parser \<Rightarrow> ('v, 'd) apx_parser" where
  "parser_clear_error self = self\<lparr>dp_last_error := APX_NO_ERROR, dp_last_error_line := 0\<rparr>"

definition parser_set_error :: "('v, 'd) apx_parser \<Rightarrow> apx_error \<Rightarrow> u32 \<Rightarrow> ('v, 'd) apx_parser" where
  "parser_set_error self error_code error_line = self\<lparr>dp_last_error := error_code, dp_last_error_line := error_line\<rparr>"

definition parser_reset :: "('v, 'd) apx_parser \<Rightarrow> ('v, 'd) apx_parser" where
  "parser_reset self = (parser_clear_error self)\<lparr>dp_state := state_clear (dp_state self)\<rparr>"

definition on_state :: "(('v, 'd) apx_parse_state \<Rightarrow> apx_error \<times> ('v, 'd) apx_parse_state) \<Rightarrow>
    ('v, 'd) apx_parser \<Rightarrow> apx_error \<times> ('v, 'd) apx_parser" where
  "on_state f self = (case f (dp_state self) of (e, s) \<Rightarrow> (e, self\<lparr>dp_state := s\<rparr>))"

section \<open>What a line makes\<close>

definition state_make_node :: "('v, 'd) apx_parse_state \<Rightarrow> byte list \<Rightarrow> apx_error \<times> ('v, 'd) apx_parse_state" where
  "state_make_node self name =
     (if length name > APX_MAX_NAME_LEN then (APX_NAME_TOO_LONG_ERROR, self)
      else (APX_NO_ERROR, self\<lparr>st_node := Some (apx_node_create name)\<rparr>))"

definition state_make_data_type :: "('v, 'd) apx_parse_state \<Rightarrow> byte list \<Rightarrow> apx_error \<times> ('v, 'd) apx_parse_state" where
  "state_make_data_type self name =
     (if length name > APX_MAX_NAME_LEN then (APX_NAME_TOO_LONG_ERROR, self)
      else (APX_NO_ERROR, self\<lparr>st_data_type := Some (apx_dataType_create name (lineno self))\<rparr>))"

definition state_make_provide_port :: "('v, 'd) apx_parse_state \<Rightarrow> byte list \<Rightarrow> apx_error \<times> ('v, 'd) apx_parse_state" where
  "state_make_provide_port self name =
     (if length name > APX_MAX_NAME_LEN then (APX_NAME_TOO_LONG_ERROR, self)
      else (APX_NO_ERROR, self\<lparr>st_port := Some (apx_port_create APX_PROVIDE_PORT name (lineno self))\<rparr>))"

definition state_make_require_port :: "('v, 'd) apx_parse_state \<Rightarrow> byte list \<Rightarrow> apx_error \<times> ('v, 'd) apx_parse_state" where
  "state_make_require_port self name =
     (if length name > APX_MAX_NAME_LEN then (APX_NAME_TOO_LONG_ERROR, self)
      else (APX_NO_ERROR, self\<lparr>st_port := Some (apx_port_create APX_REQUIRE_PORT name (lineno self))\<rparr>))"

text \<open>
  The data signature from \<open>begin\<close> to \<open>fin\<close>. When the signature parser refuses it without noting an error, the result is
  success.
\<close>

definition state_parse_data_signature ::
  "('v, 'd) parser_lib \<Rightarrow> byte list \<Rightarrow> nat \<Rightarrow> nat \<Rightarrow> ('v, 'd) apx_parser \<Rightarrow> apx_error \<times> ('v, 'd) apx_parser" where
  "state_parse_data_signature P mem begin fin self =
     (let L = pl_definition P in
      case apx_signatureParser_parse_data_signature (dl_bstr L) (dl_text L) (between begin fin mem) (signature_parser self) of
        (result, parser) \<Rightarrow>
          let self = self\<lparr>signature_parser := parser\<rparr> in
          if result = ABORT then (FAULT ASSERT_FAILURE, self)
          else if beyond result 0 then
            (if at result = fin - begin then
               (case apx_signatureParser_take_data_element parser of
                  (de, parser) \<Rightarrow>
                    let self = self\<lparr>signature_parser := parser, dp_state := (dp_state self)\<lparr>st_data_element := de\<rparr>\<rparr> in
                    c_assert (de \<noteq> None) (APX_NO_ERROR, self) self)
             else (APX_STRAY_CHARACTERS_AFTER_PARSE_ERROR, self))
          else (fst (apx_signatureParser_get_last_error parser), self))"

definition state_parse_type_attributes ::
  "('v, 'd) parser_lib \<Rightarrow> byte list \<Rightarrow> nat \<Rightarrow> nat \<Rightarrow> ('v, 'd) apx_parser \<Rightarrow> apx_error \<times> ('v, 'd) apx_parser" where
  "state_parse_type_attributes P mem begin fin self =
     (case st_data_type (dp_state self) of
        None \<Rightarrow> (FAULT ASSERT_FAILURE, self)
      | Some t \<Rightarrow>
          (case dt_attributes t of
             None \<Rightarrow> (FAULT NULL_ACCESS, self)
           | Some attr \<Rightarrow>
               (case apx_attributeParser_parse_type_attributes (pl_definition P) (pl_zero P) mem begin fin attr (attribute_parser self) of
                  Inl f \<Rightarrow> (FAULT f, self)
                | Inr (result, attr, parser) \<Rightarrow>
                    (if beyond result begin then APX_NO_ERROR else fst (apx_attributeParser_get_last_error parser),
                     self\<lparr>attribute_parser := parser, dp_state := (dp_state self)\<lparr>st_data_type := Some (t\<lparr>dt_attributes := Some attr\<rparr>)\<rparr>\<rparr>))))"

definition state_parse_port_attributes ::
  "('v, 'd) parser_lib \<Rightarrow> byte list \<Rightarrow> nat \<Rightarrow> nat \<Rightarrow> ('v, 'd) apx_parser \<Rightarrow> apx_error \<times> ('v, 'd) apx_parser" where
  "state_parse_port_attributes P mem begin fin self =
     (case st_port (dp_state self) of
        None \<Rightarrow> (FAULT ASSERT_FAILURE, self)
      | Some p \<Rightarrow>
          (case pt_attributes p of
             None \<Rightarrow> (FAULT NULL_ACCESS, self)
           | Some attr \<Rightarrow>
               (case apx_attributeParser_parse_port_attributes (pl_definition P) mem begin fin attr (attribute_parser self) of
                  Inl f \<Rightarrow> (FAULT f, self)
                | Inr (result, attr, parser) \<Rightarrow>
                    (if beyond result begin then APX_NO_ERROR else fst (apx_attributeParser_get_last_error parser),
                     self\<lparr>attribute_parser := parser, dp_state := (dp_state self)\<lparr>st_port := Some (p\<lparr>pt_attributes := Some attr\<rparr>)\<rparr>\<rparr>))))"

section \<open>Lines\<close>

definition parser_accept_version_line ::
  "('v, 'd) parser_lib \<Rightarrow> byte list \<Rightarrow> nat \<Rightarrow> ('v, 'd) apx_parser \<Rightarrow> apx_error \<times> ('v, 'd) apx_parser" where
  "parser_accept_version_line P mem fin self =
     (let L = pl_definition P; txt = take fin mem; result = match_cstr L txt [65, 80, 88, 47] in
      if beyond result 0 \<and> at result \<le> fin then
        (let next = at result in
         case apx_parserBase_parse_i32 (dl_bstr L) txt next of
           (result, major) \<Rightarrow>
             let self = self\<lparr>dp_state := (dp_state self)\<lparr>major_version := major\<rparr>\<rparr> in
             if beyond result next \<and> at result < fin then
               (let c = txt ! at result; next = Suc (at result) in
                if c = 46 \<and> next < fin then
                  (case apx_parserBase_parse_i32 (dl_bstr L) txt next of
                     (result, minor) \<Rightarrow>
                       let self = self\<lparr>dp_state := (dp_state self)\<lparr>minor_version := minor\<rparr>\<rparr> in
                       if beyond result next then
                         (if at result = fin
                          then (APX_NO_ERROR, self\<lparr>dp_state := (dp_state self)\<lparr>accept_next := APX_DEFINITION_SECTION_NODE\<rparr>\<rparr>)
                          else (APX_STRAY_CHARACTERS_AFTER_PARSE_ERROR, self))
                       else (APX_PARSE_ERROR, self))
                else (APX_PARSE_ERROR, self))
             else (APX_PARSE_ERROR, self))
      else (APX_PARSE_ERROR, self))"

definition parser_accept_node_declaration ::
  "('v, 'd) parser_lib \<Rightarrow> byte list \<Rightarrow> nat \<Rightarrow> ('v, 'd) apx_parser \<Rightarrow> apx_error \<times> ('v, 'd) apx_parser" where
  "parser_accept_node_declaration P mem fin self =
     (let txt = take fin mem in
      if 1 < fin \<and> txt ! 0 = 78 then
        (let result = apx_parserBase_parse_string_literal (dl_bstr (pl_definition P)) txt 1 in
         if beyond result 1 then
           andThen (on_state (\<lambda>s. state_make_node s (between 2 (at result) txt)) self) (\<lambda>self.
             if Suc (at result) = fin
             then (APX_NO_ERROR, self\<lparr>dp_state := (dp_state self)\<lparr>accept_next := APX_DEFINITION_SECTION_TYPE\<rparr>\<rparr>)
             else (APX_STRAY_CHARACTERS_AFTER_PARSE_ERROR, self))
         else (APX_PARSE_ERROR, self))
      else (APX_PARSE_ERROR, self))"

text \<open>
  The two declarations move the element that was read into the new data type or port. When something goes wrong with a data type,
  the function returns the last error of the signature parser, which can be none; a fault ends the program.
\<close>

definition take_type_element :: "('v, 'd) apx_parse_state \<Rightarrow> ('v, 'd) apx_parse_state" where
  "take_type_element self =
     self\<lparr>st_data_type := map_option (\<lambda>t. type_set_element t (st_data_element self)) (st_data_type self), st_data_element := None\<rparr>"

definition take_port_element :: "('v, 'd) apx_parse_state \<Rightarrow> ('v, 'd) apx_parse_state" where
  "take_port_element self =
     self\<lparr>st_port := map_option (port_on_signature (\<lambda>s. apx_dataSignature_set_element s (st_data_element self))) (st_port self),
          st_data_element := None\<rparr>"

definition signature_error :: "apx_error \<times> ('v, 'd) apx_parser \<Rightarrow> apx_error \<times> ('v, 'd) apx_parser" where
  "signature_error r = (case r of (e, self) \<Rightarrow>
     (if is_fault e then e else fst (apx_signatureParser_get_last_error (signature_parser self)), self))"

definition type_attributes_follow ::
  "('v, 'd) parser_lib \<Rightarrow> byte list \<Rightarrow> nat \<Rightarrow> nat \<Rightarrow> ('v, 'd) apx_parser \<Rightarrow> apx_error \<times> ('v, 'd) apx_parser" where
  "type_attributes_follow P mem next fin self =
     state_parse_type_attributes P mem next fin
       (self\<lparr>dp_state := (dp_state self)\<lparr>st_data_type := map_option apx_dataType_init_attributes (st_data_type (dp_state self))\<rparr>\<rparr>)"

definition append_type :: "('v, 'd) parser_lib \<Rightarrow> ('v, 'd) apx_parser \<Rightarrow> apx_error \<times> ('v, 'd) apx_parser" where
  "append_type P self =
     (let s = dp_state self in
      (APX_NO_ERROR,
       self\<lparr>dp_state := s\<lparr>st_node := (case (st_node s, st_data_type s) of
            (Some node, Some t) \<Rightarrow> Some (snd (apx_node_append_data_type (pl_tree P) node t)) | _ \<Rightarrow> st_node s),
          st_data_type := None\<rparr>\<rparr>))"

definition parser_accept_type_declaration ::
  "('v, 'd) parser_lib \<Rightarrow> byte list \<Rightarrow> nat \<Rightarrow> ('v, 'd) apx_parser \<Rightarrow> apx_error \<times> ('v, 'd) apx_parser" where
  "parser_accept_type_declaration P mem fin self =
     (let txt = take fin mem in
      if \<not> 0 < fin then (APX_PARSE_ERROR, self)
      else if st_node (dp_state self) = None then (FAULT ASSERT_FAILURE, self)
      else if txt ! 0 = 84 \<and> 1 < fin then
        (let result = apx_parserBase_parse_string_literal (dl_bstr (pl_definition P)) txt 1 in
         if beyond result 1 then
           andThen (on_state (\<lambda>s. state_make_data_type s (between 2 (at result) txt)) self) (\<lambda>self.
             let next = Suc (at result); colon = move next (search_val (pl_definition P) (drop next txt) 58) in
             if beyond colon next then
               (case state_parse_data_signature P mem next (at colon) self of
                  (rc, self) \<Rightarrow>
                    if rc \<noteq> APX_NO_ERROR then signature_error (rc, self)
                    else
                      (let self = self\<lparr>dp_state := take_type_element (dp_state self)\<rparr>; next = Suc (at colon) in
                       if next < fin then
                         (case type_attributes_follow P mem next fin self of
                            (rc, self) \<Rightarrow> if rc \<noteq> APX_NO_ERROR then signature_error (rc, self) else append_type P self)
                       else (APX_PARSE_ERROR, self)))
             else
               (case state_parse_data_signature P mem next fin self of
                  (rc, self) \<Rightarrow>
                    if rc \<noteq> APX_NO_ERROR then signature_error (rc, self)
                    else append_type P (self\<lparr>dp_state := take_type_element (dp_state self)\<rparr>)))
         else (APX_PARSE_ERROR, self))
      else (APX_PARSE_ERROR, self))"

definition port_attributes_follow ::
  "('v, 'd) parser_lib \<Rightarrow> byte list \<Rightarrow> nat \<Rightarrow> nat \<Rightarrow> ('v, 'd) apx_parser \<Rightarrow> apx_error \<times> ('v, 'd) apx_parser" where
  "port_attributes_follow P mem next fin self =
     state_parse_port_attributes P mem next fin
       (self\<lparr>dp_state := (dp_state self)\<lparr>st_port := map_option apx_port_init_attributes (st_port (dp_state self))\<rparr>\<rparr>)"

definition append_port :: "('v, 'd) parser_lib \<Rightarrow> ('v, 'd) apx_parser \<Rightarrow> apx_error \<times> ('v, 'd) apx_parser" where
  "append_port P self =
     (let s = dp_state self in
      (APX_NO_ERROR,
       self\<lparr>dp_state := s\<lparr>st_node := (case (st_node s, st_port s) of
            (Some node, Some p) \<Rightarrow> Some (snd (apx_node_append_port (pl_tree P) node p)) | _ \<Rightarrow> st_node s),
          st_port := None\<rparr>\<rparr>))"

definition parser_accept_port_declaration ::
  "('v, 'd) parser_lib \<Rightarrow> byte list \<Rightarrow> nat \<Rightarrow> ('v, 'd) apx_parser \<Rightarrow> apx_error \<times> ('v, 'd) apx_parser" where
  "parser_accept_port_declaration P mem fin self =
     (let txt = take fin mem in
      if 1 < fin \<and> txt ! 0 \<in> {82, 80} then
        (let result = apx_parserBase_parse_string_literal (dl_bstr (pl_definition P)) txt 1 in
         if beyond result 1 then
           andThen (on_state (\<lambda>s. (if txt ! 0 = 80 then state_make_provide_port else state_make_require_port) s
                      (between 2 (at result) txt)) self) (\<lambda>self.
             let next = Suc (at result); colon = move next (search_val (pl_definition P) (drop next txt) 58) in
             if beyond colon next then
               andThen (state_parse_data_signature P mem next (at colon) self) (\<lambda>self.
                 let self = self\<lparr>dp_state := take_port_element (dp_state self)\<rparr>; next = Suc (at colon) in
                 if next < fin then andThen (port_attributes_follow P mem next fin self) (append_port P)
                 else (APX_PARSE_ERROR, self))
             else
               andThen (state_parse_data_signature P mem next fin self) (\<lambda>self.
                 append_port P (self\<lparr>dp_state := take_port_element (dp_state self)\<rparr>)))
         else (APX_PARSE_ERROR, self))
      else (APX_PARSE_ERROR, self))"

definition parser_accept_type_or_port_declaration ::
  "('v, 'd) parser_lib \<Rightarrow> byte list \<Rightarrow> nat \<Rightarrow> ('v, 'd) apx_parser \<Rightarrow> apx_error \<times> ('v, 'd) apx_parser" where
  "parser_accept_type_or_port_declaration P mem fin self =
     (if 1 < fin then
        (if mem ! 0 = 84 then parser_accept_type_declaration P mem fin self
         else andThen (parser_accept_port_declaration P mem fin self) (\<lambda>self.
                (APX_NO_ERROR, self\<lparr>dp_state := (dp_state self)\<lparr>accept_next := APX_DEFINITION_SECTION_PORT\<rparr>\<rparr>)))
      else (APX_PARSE_ERROR, self))"

section \<open>The handler of the stream\<close>

definition parser_on_open :: "('v, 'd) apx_parser \<Rightarrow> apx_error \<times> ('v, 'd) apx_parser" where
  "parser_on_open self = (APX_NO_ERROR, parser_reset self)"

text \<open>With a node the function returns an error in any case.\<close>

definition parser_on_close :: "nat \<Rightarrow> ('v, 'd) parser_lib \<Rightarrow> ('v, 'd) apx_parser \<Rightarrow> (apx_error \<times> ('v, 'd) apx_parser) option" where
  "parser_on_close fuel P self =
     (case st_node (dp_state self) of
        None \<Rightarrow> Some (dp_last_error self, self)
      | Some node \<Rightarrow>
          map_option (\<lambda>(result, node).
              let self = self\<lparr>dp_state := (dp_state self)\<lparr>st_node := Some node\<rparr>\<rparr> in
              (if is_fault result then result else APX_NULL_PTR_ERROR,
               if result \<noteq> APX_NO_ERROR then parser_set_error self result (nd_last_error_line node) else self))
            (apx_node_finalize fuel (pl_tree P) node))"

definition accept_line ::
  "('v, 'd) parser_lib \<Rightarrow> byte list \<Rightarrow> nat \<Rightarrow> ('v, 'd) apx_parser \<Rightarrow> apx_error \<times> ('v, 'd) apx_parser" where
  "accept_line P mem fin self =
     (let section = accept_next (dp_state self) in
      if section = APX_DEFINITION_SECTION_VERSION then parser_accept_version_line P mem fin self
      else if section = APX_DEFINITION_SECTION_NODE then parser_accept_node_declaration P mem fin self
      else if section = APX_DEFINITION_SECTION_TYPE then parser_accept_type_or_port_declaration P mem fin self
      else if section = APX_DEFINITION_SECTION_PORT then parser_accept_port_declaration P mem fin self
      else (APX_PARSE_ERROR, self))"

definition parser_on_new_line ::
  "('v, 'd) parser_lib \<Rightarrow> ('v, 'd) apx_parser \<Rightarrow> byte list \<Rightarrow> nat \<Rightarrow> apx_error \<times> ('v, 'd) apx_parser" where
  "parser_on_new_line P self mem fin =
     (let self = self\<lparr>dp_state := (dp_state self)\<lparr>lineno := lineno (dp_state self) + 1\<rparr>\<rparr> in
      if fin > 0 then
        (case accept_line P mem fin self of
           (e, self) \<Rightarrow> (e, if e \<noteq> APX_NO_ERROR then parser_set_error self e (lineno (dp_state self)) else self))
      else (APX_NO_ERROR, self))"

definition parser_init_handler :: "nat \<Rightarrow> ('v, 'd) parser_lib \<Rightarrow> ('v, 'd) apx_parser apx_istream_handler" where
  "parser_init_handler fuel P =
     \<lparr>h_open = Some parser_on_open, h_close = Some (parser_on_close fuel P), h_new_line = Some (parser_on_new_line P)\<rparr>"

section \<open>The parser\<close>

text \<open>A parser is made for a stream, which gets it as its handler.\<close>

type_synonym ('v, 'd) parser_stream = "('v, 'd) apx_parser apx_istream"

definition apx_parser_create ::
  "nat \<Rightarrow> ('v, 'd) parser_lib \<Rightarrow> ('v, 'd) parser_stream \<Rightarrow> ('v, 'd) parser_stream \<times> ('v, 'd) apx_parser" where
  "apx_parser_create fuel P stream =
     (apx_istream_set_handler stream (parser_init_handler fuel P),
      \<lparr>dp_last_error = APX_NO_ERROR, dp_last_error_line = 0, dp_state = state_init,
       attribute_parser = apx_attributeParser_create, signature_parser = apx_signatureParser_create\<rparr>)"

definition apx_parser_take_last_node :: "('v, 'd) apx_parser \<Rightarrow> ('v, 'd) apx_node option \<times> ('v, 'd) apx_parser" where
  "apx_parser_take_last_node self = (st_node (dp_state self), self\<lparr>dp_state := (dp_state self)\<lparr>st_node := None\<rparr>\<rparr>)"

definition apx_parser_get_last_error :: "('v, 'd) apx_parser \<Rightarrow> apx_error" where
  "apx_parser_get_last_error self = dp_last_error self"

definition apx_parser_parse_bstr ::
  "('v, 'd) parser_lib \<Rightarrow> ('v, 'd) parser_stream \<Rightarrow> ('v, 'd) apx_parser \<Rightarrow> byte list \<Rightarrow>
     (apx_error \<times> ('v, 'd) parser_stream \<times> ('v, 'd) apx_parser) option" where
  "apx_parser_parse_bstr P stream self txt =
     (case apx_istream_open stream (parser_reset self) of
        (stream, self) \<Rightarrow>
          (case apx_istream_write (pl_stream P) stream self txt of
             (stream, self) \<Rightarrow>
               map_option (\<lambda>(stream, self). (apx_parser_get_last_error self, stream, self)) (apx_istream_close stream self)))"

definition apx_parser_parse_cstr ::
  "('v, 'd) parser_lib \<Rightarrow> ('v, 'd) parser_stream \<Rightarrow> ('v, 'd) apx_parser \<Rightarrow> byte list \<Rightarrow>
     (apx_error \<times> ('v, 'd) parser_stream \<times> ('v, 'd) apx_parser) option" where
  "apx_parser_parse_cstr P stream self txt = apx_parser_parse_bstr P stream self (c_string txt)"

end
