(* ===== verification/TreeFacts.thy ===== *)
theory TreeFacts
  imports ParseTree SignatureRoundtrip
begin

text \<open>
  What finalizing a node does: it returns exactly when the data types do not refer to each other in a circle, and the data types then
  no longer have names or numbers for references; the copy of an element is the element, but for the limits of bytes.
\<close>

section \<open>Copies\<close>

text \<open>What a copy loses: the limits of a byte are taken for zero and zero.\<close>

fun forget_byte_limits :: "apx_dataElement \<Rightarrow> apx_dataElement" where
  "forget_byte_limits (DataElement nm es al ei tc dy hl lo up tr) =
     DataElement nm (map_option (map forget_byte_limits) es) al ei tc dy hl
       (if tc = APX_TYPE_CODE_BYTE then 0 else lo) (if tc = APX_TYPE_CODE_BYTE then 0 else up) tr"

lemma cloned_limit_printable:
  "limits_printable tc True lo up \<Longrightarrow>
     cloned_limit tc lo = (if tc = APX_TYPE_CODE_BYTE then 0 else lo) \<and>
     cloned_limit tc up = (if tc = APX_TYPE_CODE_BYTE then 0 else up)"
  by (auto simp: limits_printable_def cloned_limit_def short_limits_def low32_zero)

lemma printable_no_reference: "printable de \<Longrightarrow> cloned_type_ref de = de_type_ref de"
  by (cases de) (auto simp: cloned_type_ref_def)

lemma clone_printable:
  "printable de \<Longrightarrow> apx_dataElement_clone de = forget_byte_limits de"
  "printable_fields des \<Longrightarrow> map apx_dataElement_clone des = map forget_byte_limits des"
proof (induction de and des rule: printable_printable_fields.induct)
  case (1 nm es al ei tc dy hl lo up tr)
  have tr: "cloned_type_ref (DataElement nm es al ei tc dy hl lo up tr) = tr" using printable_no_reference [OF "1.prems"] by simp
  show ?case
  proof (cases "tc = APX_TYPE_CODE_RECORD")
    case True
    with 1 tr show ?thesis by (auto split: option.splits)
  next
    case False
    with "1.prems" tr cloned_limit_printable [of tc lo up] show ?thesis by (auto simp: limits_printable_def)
  qed
qed auto

section \<open>References\<close>

text \<open>An element without open references, in it or in the data types it points to: following them changes nothing.\<close>

fun settled :: "apx_dataElement \<Rightarrow> bool" and settled_type :: "apx_dataType \<Rightarrow> bool" where
  "settled (DataElement nm es al ei tc dy hl lo up tr) \<longleftrightarrow>
     tc \<noteq> APX_TYPE_CODE_REF_ID \<and> tc \<noteq> APX_TYPE_CODE_REF_NAME \<and>
     (tc = APX_TYPE_CODE_RECORD \<longrightarrow> (case es of None \<Rightarrow> True | Some es \<Rightarrow> list_all settled es)) \<and>
     (tc = APX_TYPE_CODE_REF_PTR \<longrightarrow> (case tr of TypeRefPtr (Some dt) \<Rightarrow> settled_type dt | _ \<Rightarrow> True))"
| "settled_type (DataType nm de i) \<longleftrightarrow> (case de of None \<Rightarrow> True | Some de \<Rightarrow> settled de)"

lemma settled_type_element: "settled_type dt \<longleftrightarrow> (\<forall>de. dt_data_element dt = Some de \<longrightarrow> settled de)"
  by (cases dt) (auto split: option.splits)

text \<open>References that are resolved already lead to data types without open ones.\<close>

fun sound :: "apx_dataElement \<Rightarrow> bool" where
  "sound (DataElement nm es al ei tc dy hl lo up tr) \<longleftrightarrow>
     (tc = APX_TYPE_CODE_RECORD \<longrightarrow> (case es of None \<Rightarrow> True | Some es \<Rightarrow> list_all sound es)) \<and>
     (tc = APX_TYPE_CODE_REF_PTR \<longrightarrow> (case tr of TypeRefPtr (Some dt) \<Rightarrow> settled_type dt | _ \<Rightarrow> True))"

definition sound_types :: "'d data_type list \<Rightarrow> bool" where
  "sound_types types \<longleftrightarrow> (\<forall>t\<in>set types. \<forall>de. dt_data_element (pointed_to t) = Some de \<longrightarrow> sound de)"

text \<open>The data type an element refers to by number or name, and all data types that the element and its parts refer to.\<close>

definition target :: "('v, 'd) tree_lib \<Rightarrow> (byte list \<Rightarrow> nat option) \<Rightarrow> apx_dataElement \<Rightarrow> nat option" where
  "target T type_map de =
     (if de_type_code de = APX_TYPE_CODE_REF_ID
      then (let i = sint (apx_dataElement_get_type_ref_id de) in if i < 0 then None else Some (nat i))
      else if de_type_code de = APX_TYPE_CODE_REF_NAME
      then name_value (tl_type_names T) type_map (apx_dataElement_get_type_ref_name de) else None)"

fun targets :: "('v, 'd) tree_lib \<Rightarrow> (byte list \<Rightarrow> nat option) \<Rightarrow> apx_dataElement \<Rightarrow> nat set" where
  "targets T type_map (DataElement nm es al ei tc dy hl lo up tr) =
     set_option (target T type_map (DataElement nm es al ei tc dy hl lo up tr)) \<union>
     (if tc = APX_TYPE_CODE_RECORD then (case es of None \<Rightarrow> {} | Some es \<Rightarrow> \<Union> (targets T type_map ` set es)) else {})"

definition refers :: "('v, 'd) tree_lib \<Rightarrow> (byte list \<Rightarrow> nat option) \<Rightarrow> 'd data_type list \<Rightarrow> (nat \<times> nat) set" where
  "refers T type_map types =
     {(i, j). i < length types \<and> j < length types \<and> (\<exists>de. dt_data_element (pointed_to (types ! i)) = Some de \<and> j \<in> targets T type_map de)}"

definition settled_at :: "'d data_type list \<Rightarrow> nat \<Rightarrow> bool" where
  "settled_at types j \<longleftrightarrow> j < length types \<and> settled_type (pointed_to (types ! j))"

text \<open>What resolving references does to the data types: no new references, and those without open references stay as they are.\<close>

definition later :: "('v, 'd) tree_lib \<Rightarrow> (byte list \<Rightarrow> nat option) \<Rightarrow> 'd data_type list \<Rightarrow> 'd data_type list \<Rightarrow> bool" where
  "later T type_map types types' \<longleftrightarrow> length types' = length types \<and> refers T type_map types' \<subseteq> refers T type_map types \<and>
     (sound_types types \<longrightarrow> sound_types types') \<and> (\<forall>j. settled_at types j \<longrightarrow> types' ! j = types ! j)"

lemma later_refl [simp]: "later T type_map types types"
  by (simp add: later_def)

lemma later_settled: "later T type_map types types' \<Longrightarrow> settled_at types j \<Longrightarrow> settled_at types' j"
  by (simp add: later_def settled_at_def)

lemma later_trans: "later T type_map a b \<Longrightarrow> later T type_map b c \<Longrightarrow> later T type_map a c"
  using later_settled [of T type_map a b] by (auto simp: later_def)

text \<open>
  A function that resolves the references of the data types of rank below \<open>m\<close>, whatever the data types are, as long as references go down
  in rank.
\<close>

definition ranked :: "('v, 'd) tree_lib \<Rightarrow> (byte list \<Rightarrow> nat option) \<Rightarrow> (nat \<Rightarrow> nat) \<Rightarrow> 'd data_type list \<Rightarrow> bool" where
  "ranked T type_map r types \<longleftrightarrow> sound_types types \<and> (\<forall>(i, j)\<in>refers T type_map types. r j < r i)"

lemma ranked_later: "ranked T type_map r types \<Longrightarrow> later T type_map types types' \<Longrightarrow> ranked T type_map r types'"
  by (auto simp: ranked_def later_def)

definition follows :: "('v, 'd) tree_lib \<Rightarrow> (byte list \<Rightarrow> nat option) \<Rightarrow> (nat \<Rightarrow> nat) \<Rightarrow> nat \<Rightarrow>
    (nat \<Rightarrow> 'd data_type list \<Rightarrow> (apx_error \<times> 'd data_type list) option) \<Rightarrow> bool" where
  "follows T type_map r m follow \<longleftrightarrow> (\<forall>j types. ranked T type_map r types \<longrightarrow> (j < length types \<longrightarrow> r j < m) \<longrightarrow>
     (\<exists>e types'. follow j types = Some (e, types') \<and> later T type_map types types' \<and> (e = APX_NO_ERROR \<longrightarrow> settled_at types' j)))"

lemma followsD:
  "follows T type_map r m follow \<Longrightarrow> ranked T type_map r types \<Longrightarrow> (j < length types \<Longrightarrow> r j < m) \<Longrightarrow>
     \<exists>e types'. follow j types = Some (e, types') \<and> later T type_map types types' \<and> (e = APX_NO_ERROR \<longrightarrow> settled_at types' j)"
  unfolding follows_def by blast

lemma settled_ptr [simp]: "settled (apx_dataElement_set_type_ref_ptr de (Some dt)) = settled_type dt"
  "targets T type_map (apx_dataElement_set_type_ref_ptr de p) = {}"
  by (cases de; simp add: target_def)+

lemma sound_ptr [simp]: "sound (apx_dataElement_set_type_ref_ptr de (Some dt)) = settled_type dt"
  by (cases de) simp

lemma reference_resolved:
  assumes "sound de" and "follows T type_map r m follow" and "ranked T type_map r types" and "j < length types \<Longrightarrow> r j < m"
  shows "\<exists>e de' types'. resolved de j (follow j types) = Some (e, de', types') \<and> later T type_map types types' \<and>
    targets T type_map de' \<subseteq> targets T type_map de \<and> sound de' \<and> (e = APX_NO_ERROR \<longrightarrow> settled de')"
proof -
  obtain e types' where f: "follow j types = Some (e, types')" "later T type_map types types'" "e = APX_NO_ERROR \<longrightarrow> settled_at types' j"
    using followsD [OF assms(2-4)] by blast
  with assms(1) show ?thesis by (cases "e = APX_NO_ERROR") (simp_all add: resolved_def settled_at_def)
qed

lemma element_resolved:
  "sound de \<Longrightarrow> follows T type_map r m follow \<Longrightarrow> ranked T type_map r types \<Longrightarrow>
     \<forall>j\<in>targets T type_map de. j < length types \<longrightarrow> r j < m \<Longrightarrow>
     \<exists>e de' types'. apx_dataElement_derive_types_on_element T type_map follow de types = Some (e, de', types') \<and>
       later T type_map types types' \<and> targets T type_map de' \<subseteq> targets T type_map de \<and> sound de' \<and> (e = APX_NO_ERROR \<longrightarrow> settled de')"
  "list_all sound des \<Longrightarrow> follows T type_map r m follow \<Longrightarrow> ranked T type_map r types \<Longrightarrow>
     \<forall>j\<in>\<Union> (targets T type_map ` set des). j < length types \<longrightarrow> r j < m \<Longrightarrow>
     \<exists>e des' types'. derive_types_on_children T type_map follow des types = Some (e, des', types') \<and>
       later T type_map types types' \<and> \<Union> (targets T type_map ` set des') \<subseteq> \<Union> (targets T type_map ` set des) \<and>
       list_all sound des' \<and> (e = APX_NO_ERROR \<longrightarrow> list_all settled des')"
proof (induction T type_map follow de types and T type_map follow des types
    rule: apx_dataElement_derive_types_on_element_derive_types_on_children.induct)
  case (1 T type_map follow nm es al ei tc dy hl lo up tr types)
  let ?de = "DataElement nm es al ei tc dy hl lo up tr"
  consider "tc = APX_TYPE_CODE_RECORD" | "tc = APX_TYPE_CODE_REF_ID" | "tc = APX_TYPE_CODE_REF_NAME"
    | "tc \<notin> {APX_TYPE_CODE_RECORD, APX_TYPE_CODE_REF_ID, APX_TYPE_CODE_REF_NAME}" by blast
  then show ?case
  proof cases
    case 1
    note tc = this
    show ?thesis
    proof (cases es)
      case None
      with tc show ?thesis by (simp add: apx_dataElement_derive_types_on_element.simps)
    next
      case (Some cs)
      have "\<forall>j\<in>\<Union> (targets T type_map ` set cs). j < length types \<longrightarrow> r j < m" using "1.prems"(4) tc Some by auto
      moreover have "list_all sound cs" using "1.prems"(1) tc Some by simp
      ultimately show ?thesis using "1.IH" [OF refl tc Some _ "1.prems"(2,3)] tc Some
        by (auto simp: apx_dataElement_derive_types_on_element.simps target_def)
    qed
  next
    case 2
    let ?i = "sint (apx_dataElement_get_type_ref_id ?de)"
    show ?thesis
    proof (cases "?i < 0")
      case True
      with 2 show ?thesis by (simp add: apx_dataElement_derive_types_on_element.simps)
    next
      case False
      then have "nat ?i \<in> targets T type_map ?de" using 2 by (simp add: target_def)
      then have "nat ?i < length types \<Longrightarrow> r (nat ?i) < m" using "1.prems"(4) by blast
      from reference_resolved [OF "1.prems"(1-3) this] 2 show ?thesis
        by (simp add: apx_dataElement_derive_types_on_element.simps Let_def)
    qed
  next
    case 3
    show ?thesis
    proof (cases "name_value (tl_type_names T) type_map (apx_dataElement_get_type_ref_name ?de)")
      case None
      with 3 show ?thesis by (simp add: apx_dataElement_derive_types_on_element.simps)
    next
      case (Some j)
      then have "j \<in> targets T type_map ?de" using 3 by (simp add: target_def)
      then have "j < length types \<Longrightarrow> r j < m" using "1.prems"(4) by blast
      from reference_resolved [OF "1.prems"(1-3) this] 3 Some show ?thesis
        by (simp add: apx_dataElement_derive_types_on_element.simps)
    qed
  next
    case 4
    with "1.prems"(1) show ?thesis by (simp add: apx_dataElement_derive_types_on_element.simps)
  qed
next
  case (2 T type_map follow types)
  then show ?case by simp
next
  case (3 T type_map follow child children types)
  obtain e c' types1 where c: "apx_dataElement_derive_types_on_element T type_map follow child types = Some (e, c', types1)"
    "later T type_map types types1" "targets T type_map c' \<subseteq> targets T type_map child" "sound c'" "e = APX_NO_ERROR \<longrightarrow> settled c'"
    using "3.IH"(1) [OF _ "3.prems"(2,3)] "3.prems"(1,4) by auto
  show ?case
  proof (cases "e = APX_NO_ERROR")
    case False
    with c "3.prems"(1) show ?thesis by auto
  next
    case True
    have "\<forall>j\<in>\<Union> (targets T type_map ` set children). j < length types1 \<longrightarrow> r j < m"
      using "3.prems"(4) c(2) by (auto simp: later_def)
    moreover have "ranked T type_map r types1" by (rule ranked_later [OF "3.prems"(3) c(2)])
    ultimately have "\<exists>e des' types'. derive_types_on_children T type_map follow children types1 = Some (e, des', types') \<and>
       later T type_map types1 types' \<and> \<Union> (targets T type_map ` set des') \<subseteq> \<Union> (targets T type_map ` set children) \<and>
       list_all sound des' \<and> (e = APX_NO_ERROR \<longrightarrow> list_all settled des')"
      using "3.IH"(2) [OF c(1) refl refl] True "3.prems"(1,2) by simp
    with c True later_trans [OF c(2)] show ?thesis by fastforce
  qed
qed

lemma settled_unchanged:
  "settled de \<Longrightarrow> apx_dataElement_derive_types_on_element T type_map follow de types = Some (APX_NO_ERROR, de, types)"
  "list_all settled des \<Longrightarrow> derive_types_on_children T type_map follow des types = Some (APX_NO_ERROR, des, types)"
  by (induction T type_map follow de types and T type_map follow des types
      rule: apx_dataElement_derive_types_on_element_derive_types_on_children.induct)
    (auto simp: apx_dataElement_derive_types_on_element.simps Let_def split: option.splits)

lemma set_element_simps [simp]:
  "dt_data_element (apx_dataType_set_data_element dt de) = de"
  "dt_data_element dt = de \<Longrightarrow> apx_dataType_set_data_element dt de = dt"
  by (cases dt; simp)+

lemma element_replaced:
  assumes "later T type_map types types'" and "j < length types" and "dt_data_element (pointed_to (types ! j)) = Some de"
    and "targets T type_map de' \<subseteq> targets T type_map de" and "settled de \<Longrightarrow> de' = de" and "sound de'"
  shows "later T type_map types
    (types'[j := (types' ! j)\<lparr>pointed_to := apx_dataType_set_data_element (pointed_to (types' ! j)) (Some de')\<rparr>])"
    (is "later T type_map types ?new")
proof -
  have len: "length types' = length types" using assms(1) by (simp add: later_def)
  have "refers T type_map ?new \<subseteq> refers T type_map types"
  proof
    fix x assume x: "x \<in> refers T type_map ?new"
    show "x \<in> refers T type_map types"
    proof (cases "fst x = j")
      case True
      with x assms(2-4) len show ?thesis by (auto simp: refers_def)
    next
      case False
      with x len have "x \<in> refers T type_map types'" by (auto simp: refers_def)
      with assms(1) show ?thesis by (auto simp: later_def)
    qed
  qed
  moreover have "?new ! k = types ! k" if k: "settled_at types k" for k
  proof -
    have same: "types' ! k = types ! k" using assms(1) k by (simp add: later_def)
    show ?thesis
    proof (cases "k = j")
      case True
      with k assms(3) have "settled de" by (simp add: settled_at_def settled_type_element)
      with True same assms(2,3,5) len show ?thesis by simp
    qed (simp add: same)
  qed
  moreover have "sound_types ?new" if "sound_types types"
  proof -
    have "sound_types types'" using that assms(1) by (simp add: later_def)
    then show ?thesis using assms(6) unfolding sound_types_def
      by (auto dest!: subsetD [OF set_update_subset_insert] simp: nth_mem)
  qed
  ultimately show ?thesis using len by (simp add: later_def)
qed

text \<open>One level of data types, over a function that resolves the levels below.\<close>

lemma level_followed:
  assumes below: "follows T type_map r n (apx_dataType_derive_types_on_element fuel T type_map)"
  shows "follows T type_map r (Suc n) (apx_dataType_derive_types_on_element (Suc fuel) T type_map)"
  unfolding follows_def
proof (intro allI impI)
  fix j and types :: "'b data_type list"
  let ?follow = "apx_dataType_derive_types_on_element fuel T type_map"
  assume r: "ranked T type_map r types" and j: "j < length types \<longrightarrow> r j < Suc n"
  show "\<exists>e types'. apx_dataType_derive_types_on_element (Suc fuel) T type_map j types = Some (e, types') \<and>
      later T type_map types types' \<and> (e = APX_NO_ERROR \<longrightarrow> settled_at types' j)"
  proof (cases "j < length types")
    case False
    then show ?thesis by simp
  next
    case inside: True
    show ?thesis
    proof (cases "dt_data_element (pointed_to (types ! j))")
      case None
      with inside show ?thesis by simp
    next
      case (Some de)
      have "\<forall>k\<in>targets T type_map de. k < length types \<longrightarrow> r k < n"
      proof (intro ballI impI)
        fix k assume "k \<in> targets T type_map de" "k < length types"
        then have "(j, k) \<in> refers T type_map types" using Some inside by (auto simp: refers_def)
        with r j inside show "r k < n" by (auto simp: ranked_def)
      qed
      moreover have "sound de" using r Some inside by (auto simp: ranked_def sound_types_def)
      ultimately obtain e de' types' where d:
        "apx_dataElement_derive_types_on_element T type_map ?follow de types = Some (e, de', types')"
        "later T type_map types types'" "targets T type_map de' \<subseteq> targets T type_map de" "sound de'" "e = APX_NO_ERROR \<longrightarrow> settled de'"
        using element_resolved(1) [OF _ below r] by blast
      have keep: "de' = de" if "settled de" using settled_unchanged(1) [OF that, of T type_map ?follow types] d(1) by simp
      from element_replaced [OF d(2) inside Some d(3) keep d(4)] d inside Some show ?thesis
        by (auto simp: settled_at_def settled_type_element later_def)
    qed
  qed
qed

lemma types_followed: "follows T type_map r n (apx_dataType_derive_types_on_element (Suc n) T type_map)"
proof (induction n)
  case 0
  then show ?case by (auto simp: follows_def)
next
  case (Suc n)
  then show ?case by (rule level_followed)
qed

section \<open>Ranks\<close>

lemma acyclic_ranked:
  assumes "acyclic (refers T type_map types)" and "sound_types types"
  shows "\<exists>r. ranked T type_map r types \<and> (\<forall>j<length types. r j < length types)"
proof -
  let ?R = "refers T type_map types" and ?n = "length types"
  define r where "r j = card {k. (j, k) \<in> ?R\<^sup>+}" for j
  have inside: "{k. (j, k) \<in> ?R\<^sup>+} \<subseteq> {..<?n} - {j}" for j
  proof
    fix k assume "k \<in> {k. (j, k) \<in> ?R\<^sup>+}"
    then have jk: "(j, k) \<in> ?R\<^sup>+" by simp
    then have "k < ?n" by (rule tranclE) (auto simp: refers_def)
    moreover have "k \<noteq> j" using jk assms(1) by (auto simp: acyclic_def)
    ultimately show "k \<in> {..<?n} - {j}" by simp
  qed
  have finite: "finite {k. (j, k) \<in> ?R\<^sup>+}" for j by (rule finite_subset [OF inside]) simp
  have "r j < ?n" if "j < ?n" for j
  proof -
    have "r j \<le> card ({..<?n} - {j})" unfolding r_def by (rule card_mono [OF _ inside]) simp
    also have "\<dots> < ?n" using that by simp
    finally show ?thesis .
  qed
  moreover have "r k < r j" if jk: "(j, k) \<in> ?R" for j k
  proof -
    have "{l. (k, l) \<in> ?R\<^sup>+} \<subset> {l. (j, l) \<in> ?R\<^sup>+}"
    proof
      show "{l. (k, l) \<in> ?R\<^sup>+} \<subseteq> {l. (j, l) \<in> ?R\<^sup>+}" using jk by (auto intro: trancl_into_trancl2)
      have "k \<in> {l. (j, l) \<in> ?R\<^sup>+}" "k \<notin> {l. (k, l) \<in> ?R\<^sup>+}" using jk assms(1) by (auto simp: acyclic_def)
      then show "{l. (k, l) \<in> ?R\<^sup>+} \<noteq> {l. (j, l) \<in> ?R\<^sup>+}" by blast
    qed
    then show ?thesis unfolding r_def by (rule psubset_card_mono [OF finite])
  qed
  ultimately show ?thesis using assms(2) by (auto simp: ranked_def)
qed

section \<open>Ports\<close>

definition settled_port :: "'v port \<Rightarrow> bool" where
  "settled_port p \<longleftrightarrow> (\<forall>de. apx_port_get_data_element p = Some de \<longrightarrow> settled de)"

definition sound_port :: "'v port \<Rightarrow> bool" where
  "sound_port p \<longleftrightarrow> (\<forall>de. apx_port_get_data_element p = Some de \<longrightarrow> sound de)"

text \<open>The two loops over ports, as one statement: the ports keep what is not their element.\<close>

definition same_ports :: "'v port list \<Rightarrow> 'v port list \<Rightarrow> bool" where
  "same_ports ps ps' \<longleftrightarrow> list_all2 (\<lambda>p p'. \<exists>de. p' = port_on_signature (\<lambda>s. apx_dataSignature_set_element s de) p) ps ps'"

lemma same_port [simp]: "\<exists>de. p = port_on_signature (\<lambda>s. apx_dataSignature_set_element s de) p"
  by (rule exI [of _ "data_element (pt_data_signature p)"]) (simp add: port_on_signature_def apx_dataSignature_set_element_def)

lemma same_ports_refl [simp]: "same_ports ps ps"
  by (simp add: same_ports_def list_all2_refl)

lemma ports_resolved:
  assumes "fuel > n"
  shows "list_all sound_port ps \<Longrightarrow> ranked T type_map r types \<Longrightarrow> \<forall>j<length types. r j < n \<Longrightarrow>
    \<exists>e line ps' types'. derive_types_on_ports fuel T type_map ps types = Some (e, line, ps', types') \<and>
      later T type_map types types' \<and> same_ports ps ps' \<and> (e = APX_NO_ERROR \<longrightarrow> list_all settled_port ps')"
proof (induction ps arbitrary: types)
  case Nil
  then show ?case by simp
next
  case (Cons p ps)
  obtain k where k: "fuel = Suc k" "n \<le> k" using assms by (cases fuel) auto
  show ?case
  proof (cases "apx_port_get_data_element p")
    case None
    then show ?thesis by (simp add: apx_port_derive_types_def)
  next
    case (Some de)
    have "\<forall>j\<in>targets T type_map de. j < length types \<longrightarrow> r j < k" using Cons.prems(3) k(2) by auto
    moreover have "sound de" using Cons.prems(1) Some by (simp add: sound_port_def)
    ultimately obtain e de' types1 where d:
      "apx_dataElement_derive_types_on_element T type_map (apx_dataType_derive_types_on_element fuel T type_map) de types = Some (e, de', types1)"
      "later T type_map types types1" "e = APX_NO_ERROR \<longrightarrow> settled de'"
      using element_resolved(1) [OF _ types_followed Cons.prems(2)] unfolding k(1) by blast
    let ?p = "port_on_signature (\<lambda>s. apx_dataSignature_set_element s (Some de')) p"
    have p: "apx_port_derive_types fuel T type_map p types = Some (e, ?p, types1)"
      using Some d(1) by (simp add: apx_port_derive_types_def)
    have settled: "e = APX_NO_ERROR \<longrightarrow> settled_port ?p"
      using d(3) by (auto simp: settled_port_def apx_port_get_data_element_def port_on_signature_def apx_dataSignature_set_element_def)
    have same: "same_ports (p # ps) (?p # ps') \<longleftrightarrow> same_ports ps ps'" for ps' by (auto simp: same_ports_def)
    show ?thesis
    proof (cases "e = APX_NO_ERROR")
      case False
      with p d(2) same show ?thesis by simp
    next
      case True
      have "ranked T type_map r types1" "\<forall>j<length types1. r j < n"
        using ranked_later [OF Cons.prems(2) d(2)] Cons.prems(3) d(2) by (simp_all add: later_def)
      from Cons.IH [OF _ this] Cons.prems(1) p d(2) settled same True show ?thesis by (auto intro: later_trans)
    qed
  qed
qed

section \<open>Effective elements\<close>

definition no_reference :: "apx_dataElement \<Rightarrow> bool" where
  "no_reference de \<longleftrightarrow> settled de \<and> de_type_code de \<noteq> APX_TYPE_CODE_REF_PTR"

lemma settled_code: "settled de \<Longrightarrow> de_type_code de \<noteq> APX_TYPE_CODE_REF_ID \<and> de_type_code de \<noteq> APX_TYPE_CODE_REF_NAME"
  by (cases de) simp

lemma settled_pointer:
  "settled de \<Longrightarrow> apx_dataElement_get_type_ref_ptr de = Some dt \<Longrightarrow> dt_data_element dt = Some d \<Longrightarrow> settled d"
  by (cases de; cases dt) (auto simp: apx_dataElement_get_type_ref_ptr_def split: if_splits apx_typeRef.splits option.splits)

lemma follow_settled:
  "follow_references d parent count = (e, d', parent', count') \<Longrightarrow> (\<forall>de. d = Some de \<longrightarrow> settled de) \<Longrightarrow>
     (\<forall>de. d' = Some de \<longrightarrow> settled de \<and> (e = APX_NO_ERROR \<and> count' \<le> MAX_TYPE_REF_FOLLOW_COUNT \<longrightarrow> no_reference de))"
proof (induction d parent count arbitrary: e d' parent' count' rule: follow_references.induct)
  case (1 parent count)
  then show ?case by simp
next
  case (2 de parent count)
  note r = trans [OF follow_references.simps(2) [symmetric] "2.prems"(1)]
  have de: "settled de" using "2.prems"(2) by simp
  show ?case
  proof (cases "de_type_code de = APX_TYPE_CODE_REF_PTR")
    case False
    with r de settled_code [OF de] show ?thesis by (auto simp: no_reference_def)
  next
    case tc: True
    show ?thesis
    proof (cases "apx_dataElement_get_type_ref_ptr de")
      case None
      with r tc de show ?thesis by auto
    next
      case ptr: (Some dt)
      show ?thesis
      proof (cases "dt_data_element dt")
        case None
        with r tc ptr show ?thesis by auto
      next
        case dd: (Some d)
        note s = settled_pointer [OF de ptr dd]
        show ?thesis
        proof (cases "Suc count \<le> MAX_TYPE_REF_FOLLOW_COUNT")
          case False
          with r tc ptr dd s show ?thesis by auto
        next
          case True
          with r tc ptr dd have "follow_references (Some d) (Some de) (Suc count) = (e, d', parent', count')" by simp
          moreover have "\<not> (de_type_code de = APX_TYPE_CODE_REF_ID \<or> de_type_code de = APX_TYPE_CODE_REF_NAME)" using tc by simp
          ultimately show ?thesis using "2.IH" [OF _ tc ptr dd True] s by blast
        qed
      qed
    qed
  qed
qed

lemma derived_settled:
  assumes "settled_type dt" and "apx_dataType_derive_data_element dt = (APX_NO_ERROR, Some d, parent)"
  shows "no_reference d"
proof -
  obtain e d' p c where f: "follow_references (dt_data_element dt) None 0 = (e, d', p, c)" by (metis prod_cases4)
  then have "\<forall>de. d' = Some de \<longrightarrow> settled de \<and> (e = APX_NO_ERROR \<and> c \<le> MAX_TYPE_REF_FOLLOW_COUNT \<longrightarrow> no_reference de)"
    using assms(1) by (intro follow_settled) (simp_all add: settled_type_element)
  with f assms(2) show ?thesis by (auto simp: apx_dataType_derive_data_element_def split: if_splits)
qed

lemma clone_settled: "settled de \<Longrightarrow> settled (apx_dataElement_clone de)"
  "settled_type dt \<Longrightarrow> True"
proof (induction de and dt rule: settled_settled_type.induct)
  case (1 nm es al ei tc dy hl lo up tr)
  then show ?case by (auto simp: cloned_type_ref_def list_all_iff split: option.splits apx_typeRef.splits)
qed simp

lemma clone_code [simp]: "de_type_code (apx_dataElement_clone de) = de_type_code de"
  by (cases de) simp

lemma array_setters_keep [simp]:
  "settled (apx_dataElement_set_array_length de n) = settled de" "settled (apx_dataElement_set_dynamic_array de) = settled de"
  "de_type_code (apx_dataElement_set_array_length de n) = de_type_code de"
  "de_type_code (apx_dataElement_set_dynamic_array de) = de_type_code de"
  by (cases de; simp)+

lemma port_settled_derived:
  assumes "settled_port p" and "derive_data_element p = (APX_NO_ERROR, Some d, parent)"
  shows "no_reference d"
proof -
  obtain de where de: "apx_port_get_data_element p = Some de" using assms(2) by (auto simp: derive_data_element_def split: option.splits)
  then have s: "settled de" using assms(1) by (simp add: settled_port_def)
  show ?thesis
  proof (cases "de_type_code de = APX_TYPE_CODE_REF_PTR")
    case False
    with assms(2) de s show ?thesis by (simp add: derive_data_element_def apx_dataElement_get_type_code_def no_reference_def)
  next
    case True
    obtain dt where dt: "apx_dataElement_get_type_ref_ptr de = Some dt"
      using assms(2) de True by (cases "apx_dataElement_get_type_ref_ptr de") (auto simp: derive_data_element_def apx_dataElement_get_type_code_def)
    then have "settled_type dt" using s settled_pointer [OF s dt] by (simp add: settled_type_element)
    moreover obtain p' where "apx_dataType_derive_data_element dt = (APX_NO_ERROR, Some d, p')"
      using assms(2) de True dt
      by (auto simp: derive_data_element_def apx_dataElement_get_type_code_def split: prod.splits option.splits if_splits)
    ultimately show ?thesis by (rule derived_settled)
  qed
qed

definition has_effective :: "'v port \<Rightarrow> bool" where
  "has_effective p \<longleftrightarrow> (\<exists>de. apx_port_get_effective_data_element p = Some de \<and> no_reference de)"

lemma flatten_effective:
  assumes "settled_port p" and "apx_port_flatten_data_element p = (APX_NO_ERROR, p')"
  shows "has_effective p'"
proof -
  obtain e d parent where d: "derive_data_element p = (e, d, parent)" by (metis prod_cases3)
  with assms(2) obtain de where de: "e = APX_NO_ERROR" "d = Some de"
    by (auto simp: apx_port_flatten_data_element_def split: if_splits option.splits)
  with assms(1) d have "no_reference de" by (auto intro: port_settled_derived)
  then have "settled (apx_dataElement_clone de)" "de_type_code (apx_dataElement_clone de) \<noteq> APX_TYPE_CODE_REF_PTR"
    using clone_settled(1) by (auto simp: no_reference_def)
  with assms(2) d de show ?thesis
    by (auto simp: apx_port_flatten_data_element_def Let_def apx_dataSignature_set_effective_element_def c_assert_def has_effective_def
        apx_port_get_effective_data_element_def no_reference_def split: if_splits)
qed

lemma each_port_all:
  "each_port f ps = (APX_NO_ERROR, line, ps') \<Longrightarrow> list_all2 (\<lambda>p p'. f p = (APX_NO_ERROR, p')) ps ps'"
  by (induction ps arbitrary: line ps') (auto split: prod.splits if_splits)

lemma each_port_keeps:
  assumes "each_port f ps = (APX_NO_ERROR, line, ps')" and "list_all P ps" and "\<And>p p'. P p \<Longrightarrow> f p = (APX_NO_ERROR, p') \<Longrightarrow> Q p'"
  shows "list_all Q ps'"
  using each_port_all [OF assms(1)] assms(2,3) by (induction rule: list_all2_induct) auto

lemma init_value_keeps_effective:
  "has_effective p \<Longrightarrow> apx_port_derive_proper_init_value D p = (APX_NO_ERROR, p') \<Longrightarrow> has_effective p'"
  by (auto simp: apx_port_derive_proper_init_value_def has_effective_def apx_port_get_effective_data_element_def
      split: option.splits prod.splits if_splits)

end
