(* ===== verification/NodeFacts.thy ===== *)
theory NodeFacts
  imports TreeFacts CompileShape
begin

text \<open>The properties of finalizing a node, with the initial values of its ports.\<close>

section \<open>Circles of references\<close>

text \<open>The first reference that is followed from an element.\<close>

fun first_target :: "('v, 'd) tree_lib \<Rightarrow> (byte list \<Rightarrow> nat option) \<Rightarrow> apx_dataElement \<Rightarrow> nat option"
and first_child_target :: "('v, 'd) tree_lib \<Rightarrow> (byte list \<Rightarrow> nat option) \<Rightarrow> apx_dataElement list \<Rightarrow> nat option" where
  "first_target T type_map (DataElement nm es al ei tc dy hl lo up tr) =
     (if tc = APX_TYPE_CODE_RECORD then (case es of None \<Rightarrow> None | Some es \<Rightarrow> first_child_target T type_map es)
      else target T type_map (DataElement nm es al ei tc dy hl lo up tr))"
| "first_child_target T type_map [] = None"
| "first_child_target T type_map (child # children) =
     (if settled child then first_child_target T type_map children else first_target T type_map child)"

lemma first_target_followed:
  "first_target T type_map de = Some j \<Longrightarrow> j < length types \<Longrightarrow> follow j types = None \<Longrightarrow>
      ary_documented (tl_types T) \<Longrightarrow> apx_dataElement_derive_types_on_element T type_map follow de types = None"
    "first_child_target T type_map des = Some j \<Longrightarrow> j < length types \<Longrightarrow> follow j types = None \<Longrightarrow>
      ary_documented (tl_types T) \<Longrightarrow> derive_types_on_children T type_map follow des types = None"
proof (induction T type_map de and T type_map des rule: first_target_first_child_target.induct)
  case (1 T type_map nm es al ei tc dy hl lo up tr)
  let ?i = "sint (apx_dataElement_get_type_ref_id (DataElement nm es al ei tc dy hl lo up tr))"
  have at: "value_at (tl_types T) types ?i \<noteq> None" if "\<not> ?i < 0" "nat ?i < length types"
    using "1.prems"(4) that by (auto simp: ary_documented_def)
  consider "tc = APX_TYPE_CODE_RECORD" | "tc = APX_TYPE_CODE_REF_ID" | "tc = APX_TYPE_CODE_REF_NAME"
    | "tc \<notin> {APX_TYPE_CODE_RECORD, APX_TYPE_CODE_REF_ID, APX_TYPE_CODE_REF_NAME}" by blast
  then show ?case
  proof cases
    case 1
    with "1.prems" "1.IH" show ?thesis by (cases es) (simp_all add: apx_dataElement_derive_types_on_element.simps)
  next
    case 2
    then have i: "j = nat ?i" "\<not> ?i < 0" using "1.prems"(1) by (auto simp: target_def Let_def split: if_splits)
    with "1.prems"(2) at have "value_at (tl_types T) types ?i \<noteq> None" "\<not> ?i > int (length types)" by auto
    with 2 i "1.prems"(3) show ?thesis by (simp add: apx_dataElement_derive_types_on_element.simps resolved_def Let_def)
  next
    case 3
    with "1.prems" show ?thesis by (simp add: target_def apx_dataElement_derive_types_on_element.simps resolved_def)
  next
    case 4
    with "1.prems" show ?thesis by (simp add: target_def)
  qed
next
  case (2 T type_map)
  then show ?case by simp
next
  case (3 T type_map child children)
  then show ?case by (auto simp: settled_unchanged split: if_splits option.splits)
qed

lemma circle_not_followed:
  assumes "ary_documented (tl_types T)"
    and "\<forall>j\<in>J. j < length types \<and> (\<exists>de k. dt_data_element (pointed_to (types ! j)) = Some de \<and> first_target T type_map de = Some k \<and> k \<in> J)"
  shows "j \<in> J \<Longrightarrow> apx_dataType_derive_types_on_element fuel T type_map j types = None"
proof (induction fuel arbitrary: j)
  case (Suc fuel)
  then obtain de k where "j < length types" "dt_data_element (pointed_to (types ! j)) = Some de" "first_target T type_map de = Some k" "k \<in> J"
    using assms(2) by blast
  moreover from this have "k < length types" using assms(2) by blast
  ultimately show ?case using first_target_followed(1) [OF _ _ _ assms(1)] Suc.IH by simp
qed simp

text \<open>
  A set of data types each of which refers to one of them, by any of its references. Whatever is followed first, none of
  them is ever resolved: a function that follows references keeps the circle, and from within it returns with an error or not at all.
\<close>

definition circle :: "('v, 'd) tree_lib \<Rightarrow> (byte list \<Rightarrow> nat option) \<Rightarrow> nat set \<Rightarrow> 'd data_type list \<Rightarrow> bool" where
  "circle T type_map J types \<longleftrightarrow> (\<forall>j\<in>J. j < length types \<and>
     (\<exists>de. dt_data_element (pointed_to (types ! j)) = Some de \<and> targets T type_map de \<inter> J \<noteq> {}))"

definition stuck :: "('v, 'd) tree_lib \<Rightarrow> (byte list \<Rightarrow> nat option) \<Rightarrow> nat set \<Rightarrow>
    (nat \<Rightarrow> 'd data_type list \<Rightarrow> (apx_error \<times> 'd data_type list) option) \<Rightarrow> bool" where
  "stuck T type_map J follow \<longleftrightarrow> (\<forall>j types e types'. circle T type_map J types \<longrightarrow> follow j types = Some (e, types') \<longrightarrow>
     circle T type_map J types' \<and> (j \<in> J \<longrightarrow> e \<noteq> APX_NO_ERROR))"

lemma reference_stuck:
  assumes "resolved de j (follow j types) = Some (e, de', types')" and "stuck T type_map J follow" and "circle T type_map J types"
    and "targets T type_map de \<subseteq> {j}"
  shows "circle T type_map J types' \<and> targets T type_map de \<inter> J \<subseteq> targets T type_map de' \<and>
    (e = APX_NO_ERROR \<longrightarrow> targets T type_map de \<inter> J = {})"
proof -
  obtain ts where f: "follow j types = Some (e, ts)" "types' = ts" "e \<noteq> APX_NO_ERROR \<longrightarrow> de' = de"
    using assms(1) by (auto simp: resolved_def)
  then have "circle T type_map J types'" "j \<in> J \<longrightarrow> e \<noteq> APX_NO_ERROR" using assms(2,3) unfolding stuck_def by blast+
  with f(3) assms(4) show ?thesis by (cases "e = APX_NO_ERROR") auto
qed

lemma element_stuck:
  "apx_dataElement_derive_types_on_element T type_map follow de types = Some (e, de', types') \<Longrightarrow>
     stuck T type_map J follow \<Longrightarrow> circle T type_map J types \<Longrightarrow>
     circle T type_map J types' \<and> targets T type_map de \<inter> J \<subseteq> targets T type_map de' \<and>
     (e = APX_NO_ERROR \<longrightarrow> targets T type_map de \<inter> J = {})"
  "derive_types_on_children T type_map follow des types = Some (e, des', types') \<Longrightarrow>
     stuck T type_map J follow \<Longrightarrow> circle T type_map J types \<Longrightarrow>
     circle T type_map J types' \<and> \<Union> (targets T type_map ` set des) \<inter> J \<subseteq> \<Union> (targets T type_map ` set des') \<and>
     (e = APX_NO_ERROR \<longrightarrow> \<Union> (targets T type_map ` set des) \<inter> J = {})"
proof (induction T type_map follow de types and T type_map follow des types arbitrary: e de' types' and e des' types'
    rule: apx_dataElement_derive_types_on_element_derive_types_on_children.induct)
  case (1 T type_map follow nm es al ei tc dy hl lo up tr types)
  let ?de = "DataElement nm es al ei tc dy hl lo up tr"
  note run = "1.prems"(1) [unfolded apx_dataElement_derive_types_on_element.simps Let_def]
  consider "tc = APX_TYPE_CODE_RECORD" | "tc = APX_TYPE_CODE_REF_ID" | "tc = APX_TYPE_CODE_REF_NAME"
    | "tc \<notin> {APX_TYPE_CODE_RECORD, APX_TYPE_CODE_REF_ID, APX_TYPE_CODE_REF_NAME}" by blast
  then show ?case
  proof cases
    case 1
    show ?thesis
    proof (cases es)
      case None
      with run 1 "1.prems"(3) show ?thesis by (auto simp: target_def)
    next
      case (Some cs)
      with run 1 obtain cs' where r: "derive_types_on_children T type_map follow cs types = Some (e, cs', types')"
        "de' = DataElement nm (Some cs') al ei tc dy hl lo up tr" by auto
      from "1.IH" [OF refl 1 Some r(1) "1.prems"(2,3)] show ?thesis by (simp add: 1 Some r(2) target_def)
    qed
  next
    case 2
    let ?i = "sint (apx_dataElement_get_type_ref_id ?de)"
    have "targets T type_map ?de \<subseteq> {nat ?i}" using 2 by (auto simp: target_def Let_def split: if_splits)
    note stay = reference_stuck [OF _ "1.prems"(2,3) this]
    show ?thesis
    proof (cases "?i < 0 \<or> ?i > int (length types) \<or> value_at (tl_types T) types ?i = None")
      case True
      with run 2 "1.prems"(3) show ?thesis by (auto simp: Let_def simp del: targets.simps split: if_splits)
    next
      case False
      with run 2 have "resolved ?de (nat ?i) (follow (nat ?i) types) = Some (e, de', types')" by (auto split: if_splits)
      then show ?thesis by (rule stay)
    qed
  next
    case 3
    show ?thesis
    proof (cases "name_value (tl_type_names T) type_map (apx_dataElement_get_type_ref_name ?de)")
      case None
      with run 3 "1.prems"(3) show ?thesis by (auto simp del: targets.simps)
    next
      case (Some j)
      then have "targets T type_map ?de \<subseteq> {j}" using 3 by (auto simp: target_def)
      moreover have "resolved ?de j (follow j types) = Some (e, de', types')" using run 3 Some by simp
      ultimately show ?thesis using reference_stuck [OF _ "1.prems"(2,3)] by blast
    qed
  next
    case 4
    with run "1.prems"(3) show ?thesis by (auto simp: target_def)
  qed
next
  case (2 T type_map follow types)
  then show ?case by simp
next
  case (3 T type_map follow child children types)
  obtain e1 c' types1 where c: "apx_dataElement_derive_types_on_element T type_map follow child types = Some (e1, c', types1)"
    using "3.prems"(1) by (auto split: option.splits)
  note c1 = "3.IH"(1) [OF c "3.prems"(2,3)]
  show ?case
  proof (cases "e1 = APX_NO_ERROR")
    case False
    with c c1 "3.prems"(1) show ?thesis by auto
  next
    case True
    obtain cs' where r: "derive_types_on_children T type_map follow children types1 = Some (e, cs', types')" "des' = c' # cs'"
      using "3.prems"(1) c True by auto
    from "3.IH"(2) [OF c refl refl _ r(1) "3.prems"(2)] c1 True r(2) show ?thesis by auto
  qed
qed

lemma circle_replaced:
  assumes "circle T type_map J types'" and "dt_data_element (pointed_to (types ! j)) = Some de" and "circle T type_map J types"
    and "targets T type_map de \<inter> J \<subseteq> targets T type_map de'"
  shows "circle T type_map J
    (types'[j := (types' ! j)\<lparr>pointed_to := apx_dataType_set_data_element (pointed_to (types' ! j)) (Some de')\<rparr>])"
  unfolding circle_def
proof
  fix k assume k: "k \<in> J"
  let ?new = "types'[j := (types' ! j)\<lparr>pointed_to := apx_dataType_set_data_element (pointed_to (types' ! j)) (Some de')\<rparr>]"
  have "k < length types'" using assms(1) k by (simp add: circle_def)
  show "k < length ?new \<and>
      (\<exists>de. dt_data_element (pointed_to (?new ! k)) = Some de \<and> targets T type_map de \<inter> J \<noteq> {})"
  proof (cases "k = j")
    case True
    have "targets T type_map de \<inter> J \<noteq> {}" using assms(3) [unfolded circle_def, THEN bspec, OF k] assms(2) True by simp
    with assms(4) have "targets T type_map de' \<inter> J \<noteq> {}" by blast
    with True \<open>k < length types'\<close> show ?thesis by simp
  next
    case False
    with assms(1) k show ?thesis by (simp add: circle_def)
  qed
qed

lemma types_stuck: "stuck T type_map J (apx_dataType_derive_types_on_element fuel T type_map)"
proof (induction fuel)
  case 0
  then show ?case by (simp add: stuck_def)
next
  case (Suc fuel)
  show ?case
    unfolding stuck_def
  proof (intro allI impI)
    fix j e and types types' :: "'b data_type list"
    assume c: "circle T type_map J types"
      and run: "apx_dataType_derive_types_on_element (Suc fuel) T type_map j types = Some (e, types')"
    show "circle T type_map J types' \<and> (j \<in> J \<longrightarrow> e \<noteq> APX_NO_ERROR)"
    proof (cases "j < length types")
      case False
      with c run show ?thesis by auto
    next
      case inside: True
      show ?thesis
      proof (cases "dt_data_element (pointed_to (types ! j))")
        case None
        with c run inside show ?thesis by auto
      next
        case (Some de)
        with run inside obtain de' ts where
          d: "apx_dataElement_derive_types_on_element T type_map (apx_dataType_derive_types_on_element fuel T type_map) de types = Some (e, de', ts)"
          "types' = ts[j := (ts ! j)\<lparr>pointed_to := apx_dataType_set_data_element (pointed_to (ts ! j)) (Some de')\<rparr>]" by auto
        note el = element_stuck(1) [OF d(1) Suc c]
        have "targets T type_map de \<inter> J \<noteq> {}" if "j \<in> J"
          using c [unfolded circle_def, THEN bspec, OF that] Some by simp
        with el circle_replaced [OF _ Some c] d(2) show ?thesis by blast
      qed
    qed
  qed
qed

lemma ports_stuck:
  "derive_types_on_ports fuel T type_map ps types = Some (e, line, ps', types') \<Longrightarrow> circle T type_map J types \<Longrightarrow>
     circle T type_map J types' \<and> (e = APX_NO_ERROR \<longrightarrow>
       (\<forall>p\<in>set ps. \<forall>de. apx_port_get_data_element p = Some de \<longrightarrow> targets T type_map de \<inter> J = {}))"
proof (induction ps arbitrary: types e line ps' types')
  case (Cons p ps)
  obtain e1 p1 types1 where d: "apx_port_derive_types fuel T type_map p types = Some (e1, p1, types1)"
    using Cons.prems(1) by (auto split: option.splits)
  have one: "circle T type_map J types1 \<and> (e1 = APX_NO_ERROR \<longrightarrow>
      (\<forall>de. apx_port_get_data_element p = Some de \<longrightarrow> targets T type_map de \<inter> J = {}))"
    using d Cons.prems(2) element_stuck(1) [OF _ types_stuck Cons.prems(2)]
    by (fastforce simp: apx_port_derive_types_def split: option.splits)
  show ?case
  proof (cases "e1 = APX_NO_ERROR")
    case False
    with Cons.prems(1) d one show ?thesis by auto
  next
    case True
    obtain ps1 where "derive_types_on_ports fuel T type_map ps types1 = Some (e, line, ps1, types')"
      using Cons.prems(1) d True by auto
    from Cons.IH [OF this] one True show ?thesis by auto
  qed
qed simp

section \<open>Properties\<close>

definition node_ports :: "('v, 'd) apx_node \<Rightarrow> 'v port list" where
  "node_ports n = nd_provide_ports n @ nd_require_ports n"

lemma note_line_keeps [simp]:
  "nd_provide_ports (note_line l m) = nd_provide_ports m" "nd_require_ports (note_line l m) = nd_require_ports m"
  "nd_type_map (note_line l m) = nd_type_map m" "nd_data_types (note_line l m) = nd_data_types m"
  by (cases l; simp add: note_line_def)+

definition takes_ports :: "('v port \<Rightarrow> bool) \<Rightarrow> ('v port \<Rightarrow> bool) \<Rightarrow> ('v port list \<Rightarrow> apx_error \<times> u32 option \<times> 'v port list) \<Rightarrow> bool" where
  "takes_ports P Q f \<longleftrightarrow> (\<forall>l ps ps'. f ps = (APX_NO_ERROR, l, ps') \<longrightarrow> list_all P ps \<longrightarrow> list_all Q ps')"

lemma on_provide_all:
  assumes "on_provide_ports f m = (APX_NO_ERROR, m')" and "list_all P (nd_provide_ports m)"
    and "takes_ports P Q f"
  shows "list_all Q (nd_provide_ports m')" "nd_require_ports m' = nd_require_ports m"
  using assms by (auto simp: takes_ports_def on_provide_ports_def split: prod.splits)

lemma on_require_all:
  assumes "on_require_ports f m = (APX_NO_ERROR, m')" and "list_all P (nd_require_ports m)"
    and "takes_ports P Q f"
  shows "list_all Q (nd_require_ports m')" "nd_provide_ports m' = nd_provide_ports m"
  using assms by (auto simp: takes_ports_def on_require_ports_def split: prod.splits)

lemma expand_all: "takes_ports settled_port has_effective expand_data_elements_on_ports"
  unfolding takes_ports_def expand_data_elements_on_ports_def by (blast intro: each_port_keeps flatten_effective)

lemma init_all: "takes_ports has_effective has_effective (derive_proper_init_values_on_ports D)"
  unfolding takes_ports_def derive_proper_init_values_on_ports_def by (blast intro: each_port_keeps init_value_keeps_effective)

text \<open> C5: When no data type of a node refers to itself through other types, finalizing the node returns, with as many references
  followed one inside another as there are data types and one more; and if it returns without an error every port has an effective data
  element, in which no reference is left: the element itself is no reference, and what it points to is resolved to the end.
\<close>

theorem acyclic_definition_finalized:
  assumes "acyclic (refers T (nd_type_map n) (nd_data_types n))" and "sound_types (nd_data_types n)"
    and "list_all sound_port (node_ports n)" and "\<not> nd_is_finalized n" and "fuel > length (nd_data_types n)"
  shows "\<exists>e n'. apx_node_finalize fuel T n = Some (e, n') \<and>
    (e = APX_NO_ERROR \<longrightarrow> nd_is_finalized n' \<and> list_all has_effective (node_ports n'))"
proof -
  let ?n0 = "n\<lparr>nd_last_error_line := 0xFFFFFFFF\<rparr>" and ?m = "nd_type_map n"
  obtain r where r: "ranked T ?m r (nd_data_types n)" "\<forall>j<length (nd_data_types n). r j < length (nd_data_types n)"
    using acyclic_ranked [OF assms(1,2)] by blast
  have sound: "list_all sound_port (nd_provide_ports n)" "list_all sound_port (nd_require_ports n)"
    using assms(3) by (simp_all add: node_ports_def)
  obtain e1 l1 ps types1 where d1: "derive_types_on_ports fuel T ?m (nd_provide_ports n) (nd_data_types n) = Some (e1, l1, ps, types1)"
    "later T ?m (nd_data_types n) types1" "e1 = APX_NO_ERROR \<longrightarrow> list_all settled_port ps"
    using ports_resolved [OF assms(5) sound(1) r] by blast
  have "length types1 = length (nd_data_types n)" using d1(2) by (simp add: later_def)
  with r(2) have "\<forall>j<length types1. r j < length (nd_data_types n)" by simp
  from ports_resolved [OF assms(5) sound(2) ranked_later [OF r(1) d1(2)] this]
  obtain e2 l2 rs types2 where d2: "derive_types_on_ports fuel T ?m (nd_require_ports n) types1 = Some (e2, l2, rs, types2)"
    "e2 = APX_NO_ERROR \<longrightarrow> list_all settled_port rs" by blast
  have "\<exists>e n1. derive_types_on_node fuel T ?n0 = Some (e, n1) \<and>
    (e = APX_NO_ERROR \<longrightarrow> list_all settled_port (nd_provide_ports n1) \<and> list_all settled_port (nd_require_ports n1))"
    using d1 d2 by (cases "e1 = APX_NO_ERROR") (simp_all add: derive_types_on_node_def Let_def)
  then obtain e n1 where d: "derive_types_on_node fuel T ?n0 = Some (e, n1)"
    "e = APX_NO_ERROR \<longrightarrow> list_all settled_port (nd_provide_ports n1) \<and> list_all settled_port (nd_require_ports n1)" by blast
  show ?thesis
  proof (cases "e = APX_NO_ERROR")
    case False
    with d assms(4) show ?thesis by (simp add: apx_node_finalize_def andThen_err)
  next
    case True
    have "nd_is_finalized n' \<and> list_all has_effective (node_ports n')"
      if run: "andThen (andThen (andThen (andThen (andThen (APX_NO_ERROR, n1)
              (on_provide_ports expand_data_elements_on_ports))
              (on_require_ports expand_data_elements_on_ports))
              (on_provide_ports (derive_proper_init_values_on_ports (tl_dtl T))))
              (on_require_ports (derive_proper_init_values_on_ports (tl_dtl T))))
              (\<lambda>self. (APX_NO_ERROR, self\<lparr>nd_is_finalized := True\<rparr>)) = (APX_NO_ERROR, n')" for n'
    proof -
      from run obtain n2 n3 n4 n5 where s: "on_provide_ports expand_data_elements_on_ports n1 = (APX_NO_ERROR, n2)"
        "on_require_ports expand_data_elements_on_ports n2 = (APX_NO_ERROR, n3)"
        "on_provide_ports (derive_proper_init_values_on_ports (tl_dtl T)) n3 = (APX_NO_ERROR, n4)"
        "on_require_ports (derive_proper_init_values_on_ports (tl_dtl T)) n4 = (APX_NO_ERROR, n5)" "n' = n5\<lparr>nd_is_finalized := True\<rparr>"
        by (auto simp: andThen_eq_ok)
      have p2: "list_all has_effective (nd_provide_ports n2)" "nd_require_ports n2 = nd_require_ports n1"
        using on_provide_all [OF s(1) _ expand_all] d(2) True by auto
      then have p3: "list_all has_effective (nd_require_ports n3)" "nd_provide_ports n3 = nd_provide_ports n2"
        using on_require_all [OF s(2) _ expand_all] d(2) True by auto
      with p2 have p4: "list_all has_effective (nd_provide_ports n4)" "nd_require_ports n4 = nd_require_ports n3"
        using on_provide_all [OF s(3) _ init_all] by auto
      with p3 have "list_all has_effective (nd_require_ports n5)" "nd_provide_ports n5 = nd_provide_ports n4"
        using on_require_all [OF s(4) _ init_all] by auto
      with p4 s(5) show ?thesis by (simp add: node_ports_def)
    qed
    with d True assms(4) show ?thesis by (simp add: apx_node_finalize_def split: prod.splits) (metis prod.exhaust)
  qed
qed

text \<open>A circle that is entered by the very first reference followed is never left.\<close>

lemma circle_never_left:
  assumes "ary_documented (tl_types T)" and "\<not> nd_is_finalized n"
    and "\<forall>j\<in>J. j < length (nd_data_types n) \<and> (\<exists>de k. dt_data_element (pointed_to (nd_data_types n ! j)) = Some de \<and>
      first_target T (nd_type_map n) de = Some k \<and> k \<in> J)"
    and "nd_provide_ports n = p # ps" and "apx_port_get_data_element p = Some de"
    and "first_target T (nd_type_map n) de = Some k" and "k \<in> J"
  shows "apx_node_finalize fuel T n = None"
proof -
  have "apx_dataType_derive_types_on_element fuel T (nd_type_map n) k (nd_data_types n) = None"
    by (rule circle_not_followed [OF assms(1,3,7)])
  moreover have "k < length (nd_data_types n)" using assms(3,7) by blast
  ultimately have "apx_port_derive_types fuel T (nd_type_map n) p (nd_data_types n) = None"
    using first_target_followed(1) [OF assms(6) _ _ assms(1)] assms(5) by (simp add: apx_port_derive_types_def)
  with assms(2,4) show ?thesis by (simp add: apx_node_finalize_def derive_types_on_node_def)
qed

text \<open> C17: Data types that refer to each other in a circle, or a data type that refers to itself, make it impossible to finalize a
  node with a port, on either side, one of whose references leads into the circle: whatever the bound on references followed inside each other,
  finalizing does not return without an error. There is no error for a circle: if the first provide port leads into it by the
  first reference that is followed, and so on around, then nothing is returned at all, for no bound; the code recurses without end. (A port in front
  that has an error of its own may end the run with that error.)
\<close>

theorem circular_definition_never_finalized:
  assumes "ary_documented (tl_types T)" and "\<not> nd_is_finalized n"
    and "circle T (nd_type_map n) J (nd_data_types n)"
    and "p \<in> set (node_ports n)" and "apx_port_get_data_element p = Some de" and "targets T (nd_type_map n) de \<inter> J \<noteq> {}"
  shows "(\<forall>n'. apx_node_finalize fuel T n \<noteq> Some (APX_NO_ERROR, n')) \<and>
    ((\<exists>ps. nd_provide_ports n = p # ps) \<and> (\<exists>k\<in>J. first_target T (nd_type_map n) de = Some k) \<and>
     (\<forall>j\<in>J. \<exists>de k. dt_data_element (pointed_to (nd_data_types n ! j)) = Some de \<and>
        first_target T (nd_type_map n) de = Some k \<and> k \<in> J) \<longrightarrow>
     apx_node_finalize fuel T n = None)"
proof (intro conjI allI notI impI)
  fix n' assume run: "apx_node_finalize fuel T n = Some (APX_NO_ERROR, n')"
  have "\<exists>e n1. derive_types_on_node fuel T (n\<lparr>nd_last_error_line := 0xFFFFFFFF\<rparr>) = Some (e, n1) \<and> e = APX_NO_ERROR"
    using run assms(2) by (auto simp: apx_node_finalize_def andThen_eq_ok)
  then obtain l1 ps types1 l2 rs types2 where
    d: "derive_types_on_ports fuel T (nd_type_map n) (nd_provide_ports n) (nd_data_types n) = Some (APX_NO_ERROR, l1, ps, types1)"
    "derive_types_on_ports fuel T (nd_type_map n) (nd_require_ports n) types1 = Some (APX_NO_ERROR, l2, rs, types2)"
    by (auto simp: derive_types_on_node_def Let_def split: option.splits if_splits)
  note one = ports_stuck [OF d(1) assms(3)]
  from one ports_stuck [OF d(2), of J] assms(4-6) show False by (auto simp: node_ports_def)
next
  assume first: "(\<exists>ps. nd_provide_ports n = p # ps) \<and> (\<exists>k\<in>J. first_target T (nd_type_map n) de = Some k) \<and>
     (\<forall>j\<in>J. \<exists>de k. dt_data_element (pointed_to (nd_data_types n ! j)) = Some de \<and>
        first_target T (nd_type_map n) de = Some k \<and> k \<in> J)"
  then obtain ps k where "nd_provide_ports n = p # ps" "first_target T (nd_type_map n) de = Some k" "k \<in> J" by blast
  moreover have "\<forall>j\<in>J. j < length (nd_data_types n)" using assms(3) by (simp add: circle_def)
  ultimately show "apx_node_finalize fuel T n = None"
    using first assms(5) by (intro circle_never_left [OF assms(1,2), where J = J]) auto
qed

text \<open> C16: The effective element of a port whose element has no references is a faithful copy of it, at any depth of records, except that the limits of bytes
  become zero and zero.
\<close>

theorem effective_element_copied:
  assumes "printable de" and "apx_port_get_data_element p = Some de" and "apx_port_get_effective_data_element p = None"
  shows "apx_port_flatten_data_element p =
    (APX_NO_ERROR, port_on_signature (\<lambda>s. s\<lparr>effective_data_element := Some (forget_byte_limits de)\<rparr>) p)"
proof -
  have "de_type_code de \<noteq> APX_TYPE_CODE_REF_PTR" using assms(1) by (cases de) (auto simp: type_letter_def split: if_splits)
  then have "derive_data_element p = (APX_NO_ERROR, Some de, None)"
    using assms(2) by (simp add: derive_data_element_def apx_dataElement_get_type_code_def)
  with assms(3) clone_printable(1) [OF assms(1)] show ?thesis
    by (simp add: apx_port_flatten_data_element_def Let_def apx_dataSignature_set_effective_element_def c_assert_def port_on_signature_def
        apx_port_get_effective_data_element_def)
qed

section \<open>Initial values\<close>

text \<open>
  The value a shape asks for, from the value of the initializer: a list with an item for each field becomes a hash, a list of scalars an
  array of the same length, everything else has to be a scalar.
\<close>

definition scalar_list :: "nat \<Rightarrow> bool \<Rightarrow> dv \<Rightarrow> bool" where
  "scalar_list n dynamic v \<longleftrightarrow> (case array_items v of
     None \<Rightarrow> False
   | Some xs \<Rightarrow> if dynamic then xs = [] else length xs = n \<and> (\<forall>x\<in>set xs. dv_kind x = DTL_DV_SCALAR))"

fun shaped :: "shape \<Rightarrow> dv \<Rightarrow> dv option" and shaped_fields :: "(byte list \<times> shape) list \<Rightarrow> dv list \<Rightarrow> (byte list \<times> dv) list option" where
  "shaped (Num tc lim) v = (if dv_kind v = DTL_DV_SCALAR then Some v else None)"
| "shaped (NumArray tc lim n dynamic) v = (if scalar_list n dynamic v then Some v else None)"
| "shaped (Chars tc n dynamic) v = (if scalar_list n dynamic v \<or> (\<exists>s. v = DvStr s) then Some v else None)"
| "shaped (Bytes n dynamic) v = (if n = 0 then (if dv_kind v = DTL_DV_SCALAR then Some v else None)
     else if scalar_list n dynamic v then Some v else None)"
| "shaped (Rec fs) v =
     (case array_items v of
        None \<Rightarrow> None
      | Some xs \<Rightarrow> map_option (\<lambda>kvs. DvHash (foldl (\<lambda>kvs (k, x). AList.update k x kvs) [] kvs)) (shaped_fields fs xs))"
| "shaped_fields [] xs = (if xs = [] then Some [] else None)"
| "shaped_fields ((name, sh) # fs) xs =
     (case xs of
        [] \<Rightarrow> None
      | x # xs \<Rightarrow> (case (shaped sh x, shaped_fields fs xs) of (Some y, Some ys) \<Rightarrow> Some ((name, y) # ys) | _ \<Rightarrow> None))"

lemma dtl_built:
  assumes "dtl_documented D \<alpha>"
  shows "\<exists>w. av_new D = Some w \<and> \<alpha> w = DvArray []" "\<exists>w. hv_new D = Some w \<and> \<alpha> w = DvHash []"
    "\<alpha> a = DvArray xs \<Longrightarrow> \<exists>w. av_push D (Some a) (Some x) = Some w \<and> \<alpha> w = DvArray (xs @ [\<alpha> x])"
    "\<alpha> h = DvHash kvs \<Longrightarrow> \<exists>w. hv_set_cstr D (Some h) k (Some x) = Some w \<and> \<alpha> w = DvHash (AList.update k (\<alpha> x) kvs)"
  using assms by (simp_all add: dtl_documented_def builds_containers_def)

lemma scalar_items_read:
  assumes D: "dtl_documented D \<alpha>" and v: "\<alpha> v = DvArray xs" "\<forall>x\<in>set xs. dv_kind x = DTL_DV_SCALAR" and "n \<le> length xs"
  shows "\<exists>w. scalar_items D (Some v) (av_new D) [0..<n] = (APX_NO_ERROR, Some w) \<and> \<alpha> w = DvArray (take n xs)"
  using assms(4)
proof (induction n)
  case 0
  from dtl_built(1) [OF D] show ?case by (auto simp: scalar_items_def)
next
  case (Suc n)
  then obtain w where w: "scalar_items D (Some v) (av_new D) [0..<n] = (APX_NO_ERROR, Some w)" "\<alpha> w = DvArray (take n xs)" by auto
  obtain x where x: "av_value D (Some v) (int n) = Some x" "\<alpha> x = xs ! n" using dtl_array(2) [OF D v(1), of n] Suc.prems by auto
  then have "dv_type D (Some x) = DTL_DV_SCALAR" using dtl_kind(1) [OF D] v(2) Suc.prems by simp
  moreover obtain z where "av_push D (Some w) (Some x) = Some z" "\<alpha> z = DvArray (take n xs @ [xs ! n])"
    using dtl_built(3) [OF D w(2), of x] x(2) by auto
  ultimately show ?case using w x Suc.prems by (auto simp: scalar_items_def take_Suc_conv_app_nth)
qed

lemma scalar_list_read:
  assumes D: "dtl_documented D \<alpha>" and "scalar_list (unat (de_array_len de)) (de_is_dynamic_array de) (\<alpha> v)"
  shows "\<exists>w. array_init_value D de v = (APX_NO_ERROR, Some w) \<and> \<alpha> w = \<alpha> v"
proof -
  from assms(2) obtain xs where xs: "\<alpha> v = DvArray xs"
    "if de_is_dynamic_array de then xs = [] else length xs = unat (de_array_len de) \<and> (\<forall>x\<in>set xs. dv_kind x = DTL_DV_SCALAR)"
    by (cases "\<alpha> v") (auto simp: scalar_list_def)
  note dtl_built(1) [OF D]
  moreover have "dv_type D (Some v) = DTL_DV_ARRAY" using dtl_kind(1) [OF D] xs(1) by simp
  ultimately show ?thesis
    using xs dtl_array(1) [OF D xs(1)] scalar_items_read [OF D xs(1) _ order.refl]
    by (auto simp: array_init_value_def apx_dataElement_is_dynamic_array_def split: if_splits)
qed

lemma leaf_value_read:
  assumes D: "dtl_documented D \<alpha>" and sh: "leaf_shape de = Some sh" and val: "shaped sh (\<alpha> v) = Some y"
  shows "\<exists>w. apx_dataElement_derive_proper_init_value D de (Some v) = (APX_NO_ERROR, Some w) \<and> \<alpha> w = y"
proof -
  let ?tc = "de_type_code de" and ?n = "unat (de_array_len de)"
  have tc: "?tc \<notin> {APX_TYPE_CODE_NONE, APX_TYPE_CODE_REF_ID, APX_TYPE_CODE_REF_NAME, APX_TYPE_CODE_REF_PTR, APX_TYPE_CODE_RECORD}"
    using sh by (auto simp: leaf_shape_def Let_def split: if_splits)
  note k = dtl_kind [OF D, of v]
  show ?thesis
  proof (cases "apx_dataElement_is_array de")
    case False
    then have "?n = 0" by (simp add: apx_dataElement_is_array_def word_neq_0_conv [symmetric] unat_eq_zero)
    with sh val have "dv_kind (\<alpha> v) = DTL_DV_SCALAR \<and> y = \<alpha> v"
      by (auto simp: leaf_shape_def Let_def split: if_splits)
    with False tc k show ?thesis by (subst apx_dataElement_derive_proper_init_value.simps) auto
  next
    case True
    then have n: "?n > 0" by (simp add: apx_dataElement_is_array_def word_less_nat_alt)
    with sh val have "y = \<alpha> v" "scalar_list ?n (de_is_dynamic_array de) (\<alpha> v) \<or>
        ?tc \<in> {APX_TYPE_CODE_CHAR, APX_TYPE_CODE_CHAR8} \<and> (\<exists>s. \<alpha> v = DvStr s)"
      by (auto simp: leaf_shape_def Let_def split: if_splits)
    moreover have "\<exists>w. array_init_value D de v = (APX_NO_ERROR, Some w) \<and> \<alpha> w = \<alpha> v"
      if "?tc \<in> {APX_TYPE_CODE_CHAR, APX_TYPE_CODE_CHAR8}" "\<alpha> v = DvStr s" for s
      using that k by (simp add: array_init_value_def)
    ultimately have "\<exists>w. array_init_value D de v = (APX_NO_ERROR, Some w) \<and> \<alpha> w = y"
      using scalar_list_read [OF D] by blast
    with True tc show ?thesis by (subst apx_dataElement_derive_proper_init_value.simps) auto
  qed
qed

lemma shape_value_read:
  fixes D :: "'v dtl"
  assumes D: "dtl_documented D \<alpha>"
  shows "shape_of de = Some sh \<Longrightarrow> shaped sh (\<alpha> v) = Some y \<Longrightarrow>
      \<exists>w. apx_dataElement_derive_proper_init_value D de (Some v) = (APX_NO_ERROR, Some w) \<and> \<alpha> w = y"
    "fields_of des = Some fs \<Longrightarrow> \<alpha> v = DvArray (front @ xs) \<Longrightarrow> shaped_fields fs xs = Some ys \<Longrightarrow> \<alpha> h = DvHash kvs \<Longrightarrow>
      \<exists>w. hash_children D des (length front) (Some v) (Some h) = (APX_NO_ERROR, Some w) \<and>
        \<alpha> w = DvHash (foldl (\<lambda>kvs (k, x). AList.update k x kvs) kvs ys)"
proof (induction de and des arbitrary: sh v y and fs v front xs ys h kvs rule: shape_of_fields_of.induct)
  case (1 de)
  show ?case
  proof (cases "de_type_code de = APX_TYPE_CODE_RECORD")
    case False
    with "1.prems"(1) have "leaf_shape de = Some sh" by (simp add: shape_of.simps)
    from leaf_value_read [OF D this "1.prems"(2)] show ?thesis .
  next
    case rec: True
    with "1.prems"(1) obtain children fs where c: "\<not> de_array_len de > 0" "de_elements de = Some children" "children \<noteq> []"
      "fields_of children = Some fs" "sh = Rec fs"
      by (auto simp: shape_of.simps split: if_splits option.splits)
    from "1.prems"(2) c(5) obtain xs ys where xs: "\<alpha> v = DvArray xs" "shaped_fields fs xs = Some ys"
      "y = DvHash (foldl (\<lambda>kvs (k, x). AList.update k x kvs) [] ys)"
      by (cases "\<alpha> v") auto
    obtain h where h: "hv_new D = Some h" "\<alpha> h = DvHash []" using dtl_built(2) [OF D] by blast
    have len: "length fs = length xs"
      using xs(2) by (induction fs arbitrary: xs ys) (auto split: list.splits option.splits if_splits)
    have "length children = length fs"
      using c(4) by (induction children arbitrary: fs) (auto split: option.splits)
    then have num: "apx_dataElement_get_num_child_elements de = av_length D (Some v)"
      using len c(2) dtl_array(1) [OF D xs(1)] by (simp add: apx_dataElement_get_num_child_elements_def)
    have "dv_type D (Some v) = DTL_DV_ARRAY" using dtl_kind(1) [OF D] xs(1) by simp
    moreover have "\<exists>w. derive_hash_init_value D de (Some v) = (APX_NO_ERROR, Some w) \<and> \<alpha> w = y"
      using "1.IH" [OF rec c(1-3) c(4), of v "[]" xs ys h "[]"] xs h num c(2) by (auto simp: derive_hash_init_value.simps)
    ultimately show ?thesis
      using rec c(1) by (subst apx_dataElement_derive_proper_init_value.simps) (simp add: apx_dataElement_is_array_def)
  qed
next
  case 2
  then show ?case by (auto split: if_splits)
next
  case (3 child children)
  from "3.prems"(1) obtain name d shc fs' where f: "field_name child = Some name" "derived child = Some d" "shape_of d = Some shc"
    "fields_of children = Some fs'" "fs = (name, shc) # fs'" by (auto split: option.splits)
  from "3.prems"(3) f(5) obtain x xs' y1 ys' where x: "xs = x # xs'" "shaped shc x = Some y1" "shaped_fields fs' xs' = Some ys'"
    "ys = (name, y1) # ys'" by (auto split: list.splits option.splits)
  have "length front < length (front @ xs)" using x(1) by simp
  from dtl_array(2) [OF D "3.prems"(2) this] x(1) obtain c where c: "av_value D (Some v) (int (length front)) = Some c" "\<alpha> c = x" by auto
  obtain w where w: "apx_dataElement_derive_proper_init_value D d (Some c) = (APX_NO_ERROR, Some w)" "\<alpha> w = y1"
    using "3.IH"(1) [OF refl f(1,2) f(3)] x(2) c(2) by blast
  obtain h' where h': "hv_set_cstr D (Some h) name (Some w) = Some h'" "\<alpha> h' = DvHash (AList.update name y1 kvs)"
    using dtl_built(4) [OF D "3.prems"(4)] w(2) by blast
  have arr: "\<alpha> v = DvArray ((front @ [x]) @ xs')" using "3.prems"(2) x(1) by simp
  obtain z where z: "hash_children D children (length (front @ [x])) (Some v) (Some h') = (APX_NO_ERROR, Some z)"
    "\<alpha> z = DvHash (foldl (\<lambda>kvs (k, x). AList.update k x kvs) (AList.update name y1 kvs) ys')"
    using "3.IH"(2) [OF refl f(1,2) f(4) arr x(3) h'(2)] by blast
  obtain nm where nm: "apx_dataElement_get_name child = Some nm" "c_string nm = name"
    using f(1) by (auto simp: field_name_def apx_dataElement_get_name_def c_string_def)
  obtain parent where "apx_dataElement_derive_data_element child = (APX_NO_ERROR, Some d, parent)"
    using f(2) by (auto simp: derived_def split: prod.splits apx_error.splits option.splits)
  with nm c w h' z x(4) show ?case by simp
qed

text \<open> C15: An initial value that has an item for every field of every record, scalars for numbers, and a string or as many scalars as
  there are places for an array, is put into the shape of the element: it becomes the hash that packing the port expects.
\<close>

theorem initial_value_shaped:
  assumes "dtl_documented D \<alpha>" and "shape_of de = Some sh" and "apx_port_get_effective_data_element p = Some de"
    and "pt_attributes p = Some attr" and "pa_init_value attr = Some v" and "shaped sh (\<alpha> v) = Some y"
  shows "\<exists>w. apx_port_derive_proper_init_value D p = (APX_NO_ERROR, p\<lparr>pt_proper_init_value := Some w\<rparr>) \<and> \<alpha> w = y"
  using shape_value_read(1) [OF assms(1,2,6)] assms(3-5) by (auto simp: apx_port_derive_proper_init_value_def)

section \<open>Examples\<close>

definition tree_ref :: "(dv, int) tree_lib" where
  "tree_ref = \<lparr>tl_dtl = dtl_ref, tl_types = ary_ref, tl_ports = ary_ref, tl_type_names = names_ref, tl_port_names = names_ref\<rparr>"

lemma tree_ref_documented: "tree_documented tree_ref (\<lambda>v. v)"
  by (simp add: tree_documented_def tree_ref_def dtl_ref_documented tree_refs_documented)

definition element_of :: "byte list option \<Rightarrow> apx_typeCode \<Rightarrow> apx_typeRef \<Rightarrow> apx_dataElement" where
  "element_of name tc r = DataElement name None 0 APX_INVALID_ELEMENT_ID tc False False 0 0 r"

definition type_of :: "byte list \<Rightarrow> apx_dataElement \<Rightarrow> u32 \<Rightarrow> int data_type" where
  "type_of name de i = \<lparr>pointed_to = DataType (Some name) (Some de) i, dt_attributes = None, dt_line_number = 3 + i\<rparr>"

definition port_with :: "apx_dataElement option \<Rightarrow> apx_dataElement option \<Rightarrow> dv option \<Rightarrow> dv port" where
  "port_with de effective v =
     \<lparr>pt_port_type = APX_PROVIDE_PORT, pt_port_id = 0, pt_line_number = 5, pt_name = Some [112],
      pt_data_signature = \<lparr>data_element = de, effective_data_element = effective\<rparr>,
      pt_attributes = Some \<lparr>pa_is_parameter = False, pa_queue_length = 0, pa_init_value = v\<rparr>, pt_proper_init_value = None\<rparr>"

text \<open>The types \<open>A\<close>, a byte count, and \<open>B\<close>, a reference to it by number, and a port that refers to \<open>B\<close> by name.\<close>

definition alias_node :: "(dv, int) apx_node" where
  "alias_node = (apx_node_create [110])\<lparr>
     nd_data_types := [type_of [65] (element_of None APX_TYPE_CODE_UINT8 (TypeRefId APX_INVALID_TYPE_ID)) 0,
       type_of [66] (element_of None APX_TYPE_CODE_REF_ID (TypeRefId 0)) 1],
     nd_type_map := [[65] \<mapsto> 0, [66] \<mapsto> 1],
     nd_provide_ports := [port_with (Some (element_of None APX_TYPE_CODE_REF_NAME (TypeRefName (Some [66])))) None None]\<rparr>"

lemma downward_acyclic: "R \<subseteq> {(i, j). j < (i :: nat)} \<Longrightarrow> acyclic R"
proof -
  assume "R \<subseteq> {(i, j). j < (i :: nat)}"
  moreover have "acyclic (less_than\<inverse>)" using wf_acyclic [OF wf_less_than] by simp
  moreover have "less_than\<inverse> = {(i, j). j < (i :: nat)}" by auto
  ultimately show ?thesis using acyclic_subset by metis
qed

lemma alias_node_facts:
  "acyclic (refers tree_ref (nd_type_map alias_node) (nd_data_types alias_node))" "sound_types (nd_data_types alias_node)"
  "list_all sound_port (node_ports alias_node)" "\<not> nd_is_finalized alias_node" "3 > length (nd_data_types alias_node)"
proof -
  have "refers tree_ref (nd_type_map alias_node) (nd_data_types alias_node) \<subseteq> {(i, j). j < i}"
    by (auto simp: refers_def alias_node_def type_of_def element_of_def target_def apx_dataElement_get_type_ref_id_def less_Suc_eq)
  then show "acyclic (refers tree_ref (nd_type_map alias_node) (nd_data_types alias_node))" by (rule downward_acyclic)
qed (simp_all add: alias_node_def sound_types_def type_of_def element_of_def node_ports_def sound_port_def apx_port_get_data_element_def
    port_with_def apx_node_create_def)

theorem acyclic_definition_finalized_witness:
  "\<exists>e n'. apx_node_finalize 3 tree_ref alias_node = Some (e, n') \<and>
    (e = APX_NO_ERROR \<longrightarrow> nd_is_finalized n' \<and> list_all has_effective (node_ports n'))"
  by (rule acyclic_definition_finalized [OF alias_node_facts])

text \<open>\<open>T"A"T[0]\<close> and a port of this type.\<close>

definition self_node :: "(dv, int) apx_node" where
  "self_node = (apx_node_create [110])\<lparr>
     nd_data_types := [type_of [65] (element_of None APX_TYPE_CODE_REF_ID (TypeRefId 0)) 0],
     nd_provide_ports := [port_with (Some (element_of None APX_TYPE_CODE_REF_ID (TypeRefId 0))) None None]\<rparr>"

lemma self_node_circle: "circle tree_ref (nd_type_map self_node) {0} (nd_data_types self_node)"
  by (simp add: circle_def self_node_def apx_node_create_def type_of_def element_of_def target_def apx_dataElement_get_type_ref_id_def)

theorem circular_definition_never_finalized_witness:
  "(\<forall>n'. apx_node_finalize 1000000 tree_ref (self_node\<lparr>nd_require_ports := nd_provide_ports self_node, nd_provide_ports := []\<rparr>) \<noteq>
     Some (APX_NO_ERROR, n')) \<and> apx_node_finalize 1000000 tree_ref self_node = None"
proof -
  let ?de = "element_of None APX_TYPE_CODE_REF_ID (TypeRefId 0)" and ?p = "hd (nd_provide_ports self_node)"
  let ?n = "self_node\<lparr>nd_require_ports := nd_provide_ports self_node, nd_provide_ports := []\<rparr>"
  note defs = self_node_def apx_node_create_def type_of_def element_of_def port_with_def target_def
      apx_dataElement_get_type_ref_id_def apx_port_get_data_element_def node_ports_def
  have lib: "ary_documented (tl_types tree_ref)" by (simp add: tree_ref_def tree_refs_documented)
  have de: "apx_port_get_data_element ?p = Some ?de" "targets T m ?de \<inter> {0} \<noteq> {}" "first_target T m ?de = Some 0" for T :: "(dv, int) tree_lib" and m
    by (simp_all add: defs)
  have n: "\<not> nd_is_finalized self_node" "?p \<in> set (node_ports self_node)" "nd_provide_ports self_node = ?p # []"
    "\<not> nd_is_finalized ?n" "?p \<in> set (node_ports ?n)" "circle tree_ref (nd_type_map ?n) {0} (nd_data_types ?n)"
    using self_node_circle by (simp_all add: defs)
  have round: "\<forall>j\<in>{0}. \<exists>de k. dt_data_element (pointed_to (nd_data_types self_node ! j)) = Some de \<and>
      first_target tree_ref (nd_type_map self_node) de = Some k \<and> k \<in> {0}"
    using de(3) by (simp add: self_node_def type_of_def)
  show ?thesis
    using circular_definition_never_finalized [OF lib n(4,6,5) de(1,2), of 1000000] n(3) de(3) round
      circular_definition_never_finalized [OF lib n(1) self_node_circle n(2) de(1,2), of 1000000] by blast
qed

text \<open>A byte with limits.\<close>

theorem effective_element_copied_witness:
  "snd (apx_port_flatten_data_element (port_with
      (Some (DataElement None None 0 APX_INVALID_ELEMENT_ID APX_TYPE_CODE_BYTE False True 1 7 (TypeRefId APX_INVALID_TYPE_ID))) None None)) =
    port_with (Some (DataElement None None 0 APX_INVALID_ELEMENT_ID APX_TYPE_CODE_BYTE False True 1 7 (TypeRefId APX_INVALID_TYPE_ID)))
      (Some (DataElement None None 0 APX_INVALID_ELEMENT_ID APX_TYPE_CODE_BYTE False True 0 0 (TypeRefId APX_INVALID_TYPE_ID))) None"
  by (subst effective_element_copied
      [where de = "DataElement None None 0 APX_INVALID_ELEMENT_ID APX_TYPE_CODE_BYTE False True 1 7 (TypeRefId APX_INVALID_TYPE_ID)"])
    (simp_all add: port_with_def apx_port_get_data_element_def apx_port_get_effective_data_element_def
      port_on_signature_def limits_printable_def short_limits_def type_letter_def)

text \<open>The record \<open>{"a"C"b"a[3]}\<close> and the initializer \<open>{1,"xy"}\<close>.\<close>

definition pair_element :: apx_dataElement where
  "pair_element = DataElement None (Some [element_of (Some [97]) APX_TYPE_CODE_UINT8 (TypeRefId APX_INVALID_TYPE_ID),
       apx_dataElement_set_array_length (element_of (Some [98]) APX_TYPE_CODE_CHAR (TypeRefId APX_INVALID_TYPE_ID)) 3])
     0 APX_INVALID_ELEMENT_ID APX_TYPE_CODE_RECORD False False 0 0 (TypeRefId APX_INVALID_TYPE_ID)"

theorem initial_value_shaped_witness:
  "\<exists>w. apx_port_derive_proper_init_value dtl_ref (port_with None (Some pair_element) (Some (DvArray [DvInt 1, DvStr [120, 121]]))) =
      (APX_NO_ERROR, (port_with None (Some pair_element) (Some (DvArray [DvInt 1, DvStr [120, 121]])))\<lparr>pt_proper_init_value := Some w\<rparr>) \<and>
    w = DvHash [([97], DvInt 1), ([98], DvStr [120, 121])]"
  by (rule initial_value_shaped [OF dtl_ref_documented])
    (auto simp: pair_element_def element_of_def port_with_def apx_port_get_effective_data_element_def shape_of.simps leaf_shape_def limits_of_def
      field_name_def derived_def apx_dataElement_derive_data_element_def)

end
