(* ===== verification/DefinitionFacts.thy ===== *)
theory DefinitionFacts
  imports DefinitionParser NodeFacts InitialValues
begin

text \<open>
  What the parser of definitions builds: a definition whose declarations can be read one by one gives the node with exactly these data
  types and ports, in their order and with their line numbers, finalized.
\<close>

section \<open>Lines\<close>

primrec lines_text :: "byte list list \<Rightarrow> byte list" where
  "lines_text [] = []"
| "lines_text (l # ls) = l @ 10 # lines_text ls"

text \<open>A handler takes lines one after the other, each without an error.\<close>

primrec fed :: "'s apx_istream_handler \<Rightarrow> byte list list \<Rightarrow> 's \<Rightarrow> 's \<Rightarrow> bool" where
  "fed h [] s s' \<longleftrightarrow> s' = s"
| "fed h (l # ls) s s' \<longleftrightarrow>
     (\<exists>s1. apx_istream_handler_new_line h s (l @ 10 # lines_text ls) (length l) = (APX_NO_ERROR, s1) \<and> fed h ls s1 s')"

definition plain_line :: "byte list \<Rightarrow> bool" where
  "plain_line l \<longleftrightarrow> 10 \<notin> set l \<and> (l \<noteq> [] \<longrightarrow> last l \<noteq> 13)"

lemma lines_fed:
  assumes S: "stream_documented S"
  shows "\<forall>l\<in>set ls. plain_line l \<Longrightarrow> fed h ls s s' \<Longrightarrow>
     line_loop S h (front @ lines_text ls) (length front) APX_NO_ERROR s = (False, APX_NO_ERROR, length (front @ lines_text ls), s')"
proof (induction ls arbitrary: front s)
  case Nil
  then show ?case by (subst line_loop.simps) simp
next
  case (Cons l ls)
  from Cons.prems(2) obtain s1 where s1: "apx_istream_handler_new_line h s (l @ 10 # lines_text ls) (length l) = (APX_NO_ERROR, s1)"
    "fed h ls s1 s'" by auto
  let ?buf = "front @ lines_text (l # ls)"
  have "10 \<notin> set l" using Cons.prems(1) by (simp add: plain_line_def)
  then have search: "st_search_val S (l @ 10 # lines_text ls) 10 = At (length l)"
    using S by (simp add: stream_documented_def finds_first_def)
  have rest: "line_loop S h ?buf (length front + length l + 1) APX_NO_ERROR s1 = (False, APX_NO_ERROR, length ?buf, s')"
    using Cons.IH [of s1 "front @ l @ [10]"] Cons.prems(1) s1(2) by simp
  show ?case
  proof (cases l rule: rev_cases)
    case Nil
    with search s1(1) rest show ?thesis by (subst line_loop.simps) simp
  next
    case (snoc k c)
    then have "c \<noteq> 13" using Cons.prems(1) by (simp add: plain_line_def)
    with snoc search s1(1) rest show ?thesis by (subst line_loop.simps) (simp add: nth_append)
  qed
qed

section \<open>Declarations\<close>

text \<open>
  A signature that the signature parser reads to its end as an element, and attributes that the attribute parser reads at the end of a line; none of
  them holds a line end, and a signature no colon.
\<close>

definition reads_signature :: "('v, 'd) parser_lib \<Rightarrow> byte list \<Rightarrow> apx_dataElement \<Rightarrow> bool" where
  "reads_signature P sig de \<longleftrightarrow> sig \<noteq> [] \<and> {10, 58} \<inter> set sig = {} \<and> last sig \<noteq> 13 \<and>
     (\<forall>self. \<exists>self'. apx_signatureParser_parse_data_signature (dl_bstr (pl_definition P)) (dl_text (pl_definition P)) sig self =
        (At (length sig), self') \<and> sp_data_element self' = Some de)"

definition reads_type_attributes :: "('v, 'd) parser_lib \<Rightarrow> byte list \<Rightarrow> 'd computation list \<Rightarrow> bool" where
  "reads_type_attributes P txt cs \<longleftrightarrow> txt \<noteq> [] \<and> 10 \<notin> set txt \<and> last txt \<noteq> 13 \<and>
     (\<forall>front rest parser. \<exists>r parser'. beyond r (length front) \<and>
        apx_attributeParser_parse_type_attributes (pl_definition P) (pl_zero P) (front @ txt @ 10 # rest) (length front) (length (front @ txt))
          apx_typeAttributes_create parser = Inr (r, cs, parser'))"

definition reads_port_attributes :: "('v, 'd) parser_lib \<Rightarrow> byte list \<Rightarrow> 'v apx_portAttributes \<Rightarrow> bool" where
  "reads_port_attributes P txt attr \<longleftrightarrow> txt \<noteq> [] \<and> 10 \<notin> set txt \<and> last txt \<noteq> 13 \<and>
     (\<forall>front rest parser. \<exists>r parser'. beyond r (length front) \<and>
        apx_attributeParser_parse_port_attributes (pl_definition P) (front @ txt @ 10 # rest) (length front) (length (front @ txt))
          apx_portAttributes_create parser = Inr (r, attr, parser'))"

record 'd type_decl =
  td_name :: "byte list"
  td_signature :: "byte list"
  td_element :: apx_dataElement
  td_attributes :: "(byte list \<times> 'd computation list) option"

record 'v port_decl =
  pd_type :: apx_portType
  pd_name :: "byte list"
  pd_signature :: "byte list"
  pd_element :: apx_dataElement
  pd_attributes :: "(byte list \<times> 'v apx_portAttributes) option"

definition good_name :: "byte list \<Rightarrow> bool" where
  "good_name name \<longleftrightarrow> plain_name name \<and> 10 \<notin> set name \<and> length name \<le> APX_MAX_NAME_LEN"

definition readable_type :: "('v, 'd) parser_lib \<Rightarrow> 'd type_decl \<Rightarrow> bool" where
  "readable_type P d \<longleftrightarrow> good_name (td_name d) \<and> reads_signature P (td_signature d) (td_element d) \<and>
     (case td_attributes d of None \<Rightarrow> True | Some (txt, cs) \<Rightarrow> reads_type_attributes P txt cs)"

definition readable_port :: "('v, 'd) parser_lib \<Rightarrow> 'v port_decl \<Rightarrow> bool" where
  "readable_port P d \<longleftrightarrow> good_name (pd_name d) \<and> reads_signature P (pd_signature d) (pd_element d) \<and>
     (case pd_attributes d of None \<Rightarrow> True | Some (txt, attr) \<Rightarrow> reads_port_attributes P txt attr)"

definition suffix_text :: "(byte list \<times> 'a) option \<Rightarrow> byte list" where
  "suffix_text attrs = (case attrs of None \<Rightarrow> [] | Some (txt, x) \<Rightarrow> 58 # txt)"

lemma suffix_text_simps [simp]: "suffix_text None = []" "suffix_text (Some (txt, x)) = 58 # txt"
  by (simp_all add: suffix_text_def)

definition type_line :: "'d type_decl \<Rightarrow> byte list" where
  "type_line d = 84 # 34 # td_name d @ 34 # td_signature d @ suffix_text (td_attributes d)"

definition port_line :: "'v port_decl \<Rightarrow> byte list" where
  "port_line d = (case pd_type d of APX_PROVIDE_PORT \<Rightarrow> 80 | APX_REQUIRE_PORT \<Rightarrow> 82) #
     34 # pd_name d @ 34 # pd_signature d @ suffix_text (pd_attributes d)"

text \<open>\<open>APX/1.2\<close>, the node, and the declarations.\<close>

definition definition_lines :: "byte list \<Rightarrow> 'd type_decl list \<Rightarrow> 'v port_decl list \<Rightarrow> byte list list" where
  "definition_lines name types ports =
     [65, 80, 88, 47, 49, 46, 50] # (78 # 34 # name @ [34]) # map type_line types @ map port_line ports"

section \<open>The tree of a definition\<close>

definition type_object :: "'d type_decl \<Rightarrow> u32 \<Rightarrow> u32 \<Rightarrow> 'd data_type" where
  "type_object d i line = \<lparr>pointed_to = DataType (Some (td_name d)) (Some (td_element d)) i,
     dt_attributes = map_option snd (td_attributes d), dt_line_number = line\<rparr>"

definition port_object :: "'v port_decl \<Rightarrow> u32 \<Rightarrow> u32 \<Rightarrow> 'v port" where
  "port_object d i line = \<lparr>pt_port_type = pd_type d, pt_port_id = i, pt_line_number = line, pt_name = Some (pd_name d),
     pt_data_signature = \<lparr>data_element = Some (pd_element d), effective_data_element = None\<rparr>,
     pt_attributes = map_option snd (pd_attributes d), pt_proper_init_value = None\<rparr>"

definition add_type :: "('v, 'd) apx_node \<Rightarrow> 'd type_decl \<Rightarrow> ('v, 'd) apx_node" where
  "add_type n d = (let k = length (nd_data_types n) in
     n\<lparr>nd_data_types := nd_data_types n @ [type_object d (word_of_nat k) (word_of_nat (3 + k))],
       nd_type_map := (nd_type_map n)(td_name d \<mapsto> k)\<rparr>)"

definition declared :: "('v, 'd) apx_node \<Rightarrow> nat" where
  "declared n = length (nd_data_types n) + length (nd_provide_ports n) + length (nd_require_ports n)"

definition add_port :: "('v, 'd) apx_node \<Rightarrow> 'v port_decl \<Rightarrow> ('v, 'd) apx_node" where
  "add_port n d =
     (case pd_type d of
        APX_PROVIDE_PORT \<Rightarrow>
          (let k = length (nd_provide_ports n) in
           n\<lparr>nd_provide_ports := nd_provide_ports n @ [port_object d (word_of_nat k) (word_of_nat (3 + declared n))],
             nd_port_map := (nd_port_map n)(pd_name d \<mapsto> (APX_PROVIDE_PORT, k))\<rparr>)
      | APX_REQUIRE_PORT \<Rightarrow>
          (let k = length (nd_require_ports n) in
           n\<lparr>nd_require_ports := nd_require_ports n @ [port_object d (word_of_nat k) (word_of_nat (3 + declared n))],
             nd_port_map := (nd_port_map n)(pd_name d \<mapsto> (APX_REQUIRE_PORT, k))\<rparr>))"

definition definition_tree :: "byte list \<Rightarrow> 'd type_decl list \<Rightarrow> 'v port_decl list \<Rightarrow> ('v, 'd) apx_node" where
  "definition_tree name types ports = foldl add_port (foldl add_type (apx_node_create name) types) ports"

section \<open>Reading a declaration\<close>

definition lib_reads :: "('v, 'd) parser_lib \<Rightarrow> bool" where
  "lib_reads P \<longleftrightarrow> scans_tokens (dl_bstr (pl_definition P)) \<and> finds_first (search_val (pl_definition P)) \<and>
     matches_text (pl_definition P) \<and> stream_documented (pl_stream P) \<and> ary_documented (tl_types (pl_tree P)) \<and>
     ary_documented (tl_ports (pl_tree P)) \<and> names_documented (tl_type_names (pl_tree P)) \<and> names_documented (tl_port_names (pl_tree P))"

text \<open>Where the parser is: the section, the number of the last line, and the node so far.\<close>

definition parsing :: "('v, 'd) apx_parser \<Rightarrow> nat \<Rightarrow> nat \<Rightarrow> ('v, 'd) apx_node option \<Rightarrow> bool" where
  "parsing self section n node \<longleftrightarrow> accept_next (dp_state self) = section \<and> lineno (dp_state self) = word_of_nat n \<and>
     st_node (dp_state self) = node \<and> dp_last_error self = APX_NO_ERROR"

lemma signature_read:
  assumes "reads_signature P sig de" and "between begin fin mem = sig" and "fin - begin = length sig"
  shows "\<exists>self'. state_parse_data_signature P mem begin fin self = (APX_NO_ERROR, self') \<and>
    dp_state self' = (dp_state self)\<lparr>st_data_element := Some de\<rparr> \<and> dp_last_error self' = dp_last_error self"
proof -
  from assms(1) obtain parser where p: "apx_signatureParser_parse_data_signature (dl_bstr (pl_definition P)) (dl_text (pl_definition P)) sig
      (signature_parser self) = (At (length sig), parser)" "sp_data_element parser = Some de"
    unfolding reads_signature_def by blast
  moreover have "0 < length sig" using assms(1) by (simp add: reads_signature_def)
  ultimately show ?thesis
    using assms(2,3) by (simp add: state_parse_data_signature_def apx_signatureParser_take_data_element_def c_assert_def Let_def)
qed

lemma name_read:
  assumes "scans_tokens B" and "good_name name" and "mem = c # 34 # name @ 34 # rest @ behind" and "fin = length name + 3 + length rest"
  shows "take fin mem = c # 34 # name @ 34 # rest" "apx_parserBase_parse_string_literal B (take fin mem) 1 = At (length name + 2)"
    "between 2 (length name + 2) (take fin mem) = name" "drop (length name + 3) (take fin mem) = rest"
    "drop (length name + 3) mem = rest @ behind"
proof -
  show t: "take fin mem = c # 34 # name @ 34 # rest" using assms(3,4) by (simp add: numeral_3_eq_3)
  have "here (take fin mem) 1 (34 # name @ 34 # rest)" by (simp add: t here_def)
  from tokens.string_literal [OF tokens.intro [OF assms(1)] this] assms(2)
  show "apx_parserBase_parse_string_literal B (take fin mem) 1 = At (length name + 2)"
    by (simp add: good_name_def plain_name_def)
  show "between 2 (length name + 2) (take fin mem) = name" by (simp add: t between_def numeral_2_eq_2)
  show "drop (length name + 3) (take fin mem) = rest" by (simp add: t numeral_3_eq_3)
  show "drop (length name + 3) mem = rest @ behind" by (simp add: assms(3) numeral_3_eq_3)
qed

lemma colon_found:
  assumes "finds_first (search_val L)" and "58 \<notin> set sig" and "sig \<noteq> []"
  shows "move next (search_val L (sig @ 58 # txt) 58) = At (next + length sig)"
    "\<not> beyond (move next (search_val L sig 58)) next"
proof -
  show "move next (search_val L (sig @ 58 # txt) 58) = At (next + length sig)"
    using assms(1,2) by (simp add: finds_first_def)
  have "search_val L sig 58 = NULLP \<or> search_val L sig 58 = At 0"
    using assms(1,2) by (simp add: finds_first_def)
  then show "\<not> beyond (move next (search_val L sig 58)) next" by auto
qed

lemma good_name_string: "good_name name \<Longrightarrow> c_string name = name"
  by (simp add: good_name_def plain_name_def)

text \<open>The declaration of a data type, from the section of data types.\<close>

lemma attributes_at:
  assumes "reads_type_attributes P txt cs"
  shows "\<exists>r parser'. beyond r (length front) \<and>
    apx_attributeParser_parse_type_attributes (pl_definition P) (pl_zero P) (front @ txt @ 10 # rest) (length front) (length front + length txt)
      apx_typeAttributes_create parser = Inr (r, cs, parser')"
  using assms unfolding reads_type_attributes_def by (metis length_append)

lemma port_attributes_at:
  assumes "reads_port_attributes P txt attr"
  shows "\<exists>r parser'. beyond r (length front) \<and>
    apx_attributeParser_parse_port_attributes (pl_definition P) (front @ txt @ 10 # rest) (length front) (length front + length txt)
      apx_portAttributes_create parser = Inr (r, attr, parser')"
  using assms unfolding reads_port_attributes_def by (metis length_append)

lemma type_declared:
  assumes L: "lib_reads P" and d: "readable_type P d" and s: "st_node (dp_state self) = Some node" "dp_last_error self = APX_NO_ERROR"
    and new: "nd_type_map node (td_name d) = None"
  shows "\<exists>self'. parser_accept_type_declaration P (type_line d @ 10 # rest) (length (type_line d)) self = (APX_NO_ERROR, self') \<and>
    accept_next (dp_state self') = accept_next (dp_state self) \<and> lineno (dp_state self') = lineno (dp_state self) \<and>
    dp_last_error self' = APX_NO_ERROR \<and>
    st_node (dp_state self') = Some (let k = length (nd_data_types node) in
     node\<lparr>nd_data_types := nd_data_types node @ [type_object d (word_of_nat k) (lineno (dp_state self))],
       nd_type_map := (nd_type_map node)(td_name d \<mapsto> k)\<rparr>)"
proof -
  let ?name = "td_name d" and ?sig = "td_signature d" and ?rest = "td_signature d @ suffix_text (td_attributes d)"
  let ?mem = "type_line d @ 10 # rest" and ?fin = "length (type_line d)" and ?B = "dl_bstr (pl_definition P)" and ?next = "length (td_name d) + 3"
  have B: "scans_tokens ?B" and F: "finds_first (search_val (pl_definition P))" using L by (simp_all add: lib_reads_def)
  have name: "good_name ?name" and sig: "reads_signature P ?sig (td_element d)" using d by (simp_all add: readable_type_def)
  have mem: "?mem = 84 # 34 # ?name @ 34 # ?rest @ 10 # rest" and fin: "?fin = length ?name + 3 + length ?rest"
    by (simp_all add: type_line_def)
  note n = name_read [OF B name mem fin]
  have sig': "58 \<notin> set ?sig" "?sig \<noteq> []" using sig by (simp_all add: reads_signature_def)
  note colon = colon_found [OF F sig', of ?next]
  let ?t = "apx_dataType_create ?name (lineno (dp_state self))"
  let ?self1 = "self\<lparr>dp_state := (dp_state self)\<lparr>st_data_type := Some ?t\<rparr>\<rparr>"
  have head: "take ?fin ?mem ! 0 = 84" "1 < ?fin" "0 < ?fin" using n(1) fin by simp_all
  have append: "snd (apx_node_append_data_type (pl_tree P) node t) = (let k = length (nd_data_types node) in
      node\<lparr>nd_data_types := nd_data_types node @ [t\<lparr>pointed_to := apx_dataType_set_id (pointed_to t) (word_of_nat k)\<rparr>],
        nd_type_map := (nd_type_map node)(?name \<mapsto> k)\<rparr>)" if "dt_name (pointed_to t) = Some ?name" for t
    using that L new by (simp add: apx_node_append_data_type_def lib_reads_def names_documented_def ary_documented_def Let_def)
  have made: "on_state (\<lambda>s. state_make_data_type s ?name) self = (APX_NO_ERROR, ?self1)"
    using name by (simp add: on_state_def state_make_data_type_def good_name_def)
  show ?thesis
  proof (cases "td_attributes d")
    case None
    have sub: "between ?next ?fin ?mem = ?sig" "?fin - ?next = length ?sig"
      using n(5) fin by (simp_all add: between_def None)
    from signature_read [OF sig sub, of ?self1] obtain self2 where self2:
      "state_parse_data_signature P ?mem ?next ?fin ?self1 = (APX_NO_ERROR, self2)"
      "dp_state self2 = (dp_state ?self1)\<lparr>st_data_element := Some (td_element d)\<rparr>" "dp_last_error self2 = dp_last_error ?self1" by blast
    have "parser_accept_type_declaration P ?mem ?fin self = append_type P (self2\<lparr>dp_state := take_type_element (dp_state self2)\<rparr>)"
      using n head s made self2 colon(2) None
      by (simp add: parser_accept_type_declaration_def Let_def eval_nat_numeral)
    with self2 s append show ?thesis
      by (simp add: append_type_def take_type_element_def type_set_element_def apx_dataType_create_def type_object_def None
          good_name_string [OF name] Let_def)
  next
    case (Some a)
    then obtain "txt" cs where a: "td_attributes d = Some (txt, cs)" by (cases a) auto
    let ?colon = "?next + length ?sig"
    have sub: "between ?next ?colon ?mem = ?sig" "?colon - ?next = length ?sig" using n(5) by (simp_all add: between_def)
    from signature_read [OF sig sub, of ?self1] obtain self2 where self2:
      "state_parse_data_signature P ?mem ?next ?colon ?self1 = (APX_NO_ERROR, self2)"
      "dp_state self2 = (dp_state ?self1)\<lparr>st_data_element := Some (td_element d)\<rparr>" "dp_last_error self2 = dp_last_error ?self1" by blast
    let ?self3 = "self2\<lparr>dp_state := take_type_element (dp_state self2)\<rparr>"
    have attrs: "reads_type_attributes P txt cs" using d a by (simp add: readable_type_def)
    let ?front = "84 # 34 # ?name @ 34 # ?sig @ [58]"
    have front: "?mem = ?front @ txt @ 10 # rest" "Suc ?colon = length ?front" "?fin = length ?front + length txt"
      by (simp_all add: type_line_def a)
    from attributes_at [OF attrs, of ?front rest "attribute_parser ?self3"] obtain r parser' where r: "beyond r (Suc ?colon)"
      "apx_attributeParser_parse_type_attributes (pl_definition P) (pl_zero P) ?mem (Suc ?colon) ?fin apx_typeAttributes_create
        (attribute_parser ?self3) = Inr (r, cs, parser')" unfolding front by auto
    have more: "Suc ?colon < ?fin" using front attrs by (cases "txt") (simp_all add: reads_type_attributes_def)
    have t3: "st_data_type (dp_state ?self3) = Some (type_set_element ?t (Some (td_element d)))"
      using self2(2) by (simp add: take_type_element_def)
    let ?self4 = "?self3\<lparr>attribute_parser := parser', dp_state := (dp_state ?self3)\<lparr>st_data_type :=
        Some ((type_set_element ?t (Some (td_element d)))\<lparr>dt_attributes := Some cs\<rparr>)\<rparr>\<rparr>"
    have "type_attributes_follow P ?mem (Suc ?colon) ?fin ?self3 = (APX_NO_ERROR, ?self4)"
      using t3 r by (simp add: type_attributes_follow_def state_parse_type_attributes_def apx_dataType_init_attributes_def type_set_element_def
          apx_dataType_create_def)
    then have "parser_accept_type_declaration P ?mem ?fin self = append_type P ?self4"
      using n head s made self2 colon(1) a more sig'(2)
      by (simp add: parser_accept_type_declaration_def Let_def eval_nat_numeral)
    with self2 s append show ?thesis
      by (simp add: append_type_def take_type_element_def type_set_element_def apx_dataType_create_def type_object_def a
          good_name_string [OF name] Let_def)
  qed
qed

lemma port_declared:
  assumes L: "lib_reads P" and d: "readable_port P d" and s: "st_node (dp_state self) = Some node" "dp_last_error self = APX_NO_ERROR"
    and new: "nd_port_map node (pd_name d) = None" and line: "lineno (dp_state self) = word_of_nat (3 + declared node)"
  shows "\<exists>self'. parser_accept_port_declaration P (port_line d @ 10 # rest) (length (port_line d)) self = (APX_NO_ERROR, self') \<and>
    accept_next (dp_state self') = accept_next (dp_state self) \<and> lineno (dp_state self') = lineno (dp_state self) \<and>
    dp_last_error self' = APX_NO_ERROR \<and> st_node (dp_state self') = Some (add_port node d)"
proof -
  let ?name = "pd_name d" and ?sig = "pd_signature d" and ?rest = "pd_signature d @ suffix_text (pd_attributes d)"
  define c :: byte where "c = (case pd_type d of APX_PROVIDE_PORT \<Rightarrow> 80 | APX_REQUIRE_PORT \<Rightarrow> 82)"
  let ?mem = "port_line d @ 10 # rest" and ?fin = "length (port_line d)" and ?B = "dl_bstr (pl_definition P)" and ?next = "length (pd_name d) + 3"
  have B: "scans_tokens ?B" and F: "finds_first (search_val (pl_definition P))" using L by (simp_all add: lib_reads_def)
  have name: "good_name ?name" and sig: "reads_signature P ?sig (pd_element d)" using d by (simp_all add: readable_port_def)
  have mem: "?mem = c # 34 # ?name @ 34 # ?rest @ 10 # rest" and fin: "?fin = length ?name + 3 + length ?rest"
    by (simp_all add: port_line_def c_def)
  note n = name_read [OF B name mem fin]
  have sig': "58 \<notin> set ?sig" "?sig \<noteq> []" using sig by (simp_all add: reads_signature_def)
  note colon = colon_found [OF F sig', of ?next]
  let ?p = "apx_port_create (pd_type d) ?name (lineno (dp_state self))"
  let ?self1 = "self\<lparr>dp_state := (dp_state self)\<lparr>st_port := Some ?p\<rparr>\<rparr>"
  have head: "take ?fin ?mem ! 0 = c" "1 < ?fin" "c \<in> {82, 80}" using n(1) fin by (simp_all add: c_def split: apx_portType.split)
  have append: "snd (apx_node_append_port (pl_tree P) node
      (?p\<lparr>pt_data_signature := \<lparr>data_element = Some (pd_element d), effective_data_element = None\<rparr>, pt_attributes := attrs\<rparr>)) =
      add_port node d" if "attrs = map_option snd (pd_attributes d)" for attrs
    using that L new line name
    by (simp add: apx_node_append_port_def lib_reads_def names_documented_def ary_documented_def Let_def apx_port_create_def good_name_string
        add_port_def apx_port_set_id_def port_object_def split: apx_portType.split)
  have made: "on_state (\<lambda>s. (if c = 80 then state_make_provide_port else state_make_require_port) s ?name) self = (APX_NO_ERROR, ?self1)"
    using name by (cases "pd_type d") (simp_all add: c_def on_state_def state_make_provide_port_def state_make_require_port_def good_name_def)
  show ?thesis
  proof (cases "pd_attributes d")
    case None
    have sub: "between ?next ?fin ?mem = ?sig" "?fin - ?next = length ?sig"
      using n(5) fin by (simp_all add: between_def None)
    from signature_read [OF sig sub, of ?self1] obtain self2 where self2:
      "state_parse_data_signature P ?mem ?next ?fin ?self1 = (APX_NO_ERROR, self2)"
      "dp_state self2 = (dp_state ?self1)\<lparr>st_data_element := Some (pd_element d)\<rparr>" "dp_last_error self2 = dp_last_error ?self1" by blast
    have "parser_accept_port_declaration P ?mem ?fin self = append_port P (self2\<lparr>dp_state := take_port_element (dp_state self2)\<rparr>)"
      using n head made self2(1) colon(2) None
      by (simp add: parser_accept_port_declaration_def Let_def eval_nat_numeral)
    with self2 s append [of None] show ?thesis
      by (simp add: append_port_def take_port_element_def port_on_signature_def apx_dataSignature_set_element_def apx_port_create_def
          apx_dataSignature_create_def None Let_def)
  next
    case (Some a)
    then obtain "txt" attr where a: "pd_attributes d = Some (txt, attr)" by (cases a) auto
    let ?colon = "?next + length ?sig"
    have sub: "between ?next ?colon ?mem = ?sig" "?colon - ?next = length ?sig" using n(5) by (simp_all add: between_def)
    from signature_read [OF sig sub, of ?self1] obtain self2 where self2:
      "state_parse_data_signature P ?mem ?next ?colon ?self1 = (APX_NO_ERROR, self2)"
      "dp_state self2 = (dp_state ?self1)\<lparr>st_data_element := Some (pd_element d)\<rparr>" "dp_last_error self2 = dp_last_error ?self1" by blast
    let ?self3 = "self2\<lparr>dp_state := take_port_element (dp_state self2)\<rparr>"
    let ?p3 = "port_on_signature (\<lambda>s. apx_dataSignature_set_element s (Some (pd_element d))) ?p"
    have attrs: "reads_port_attributes P txt attr" using d a by (simp add: readable_port_def)
    let ?front = "c # 34 # ?name @ 34 # ?sig @ [58]"
    have front: "?mem = ?front @ txt @ 10 # rest" "Suc ?colon = length ?front" "?fin = length ?front + length txt"
      by (simp_all add: port_line_def a c_def)
    from port_attributes_at [OF attrs, of ?front rest "attribute_parser ?self3"] obtain r parser' where r: "beyond r (Suc ?colon)"
      "apx_attributeParser_parse_port_attributes (pl_definition P) ?mem (Suc ?colon) ?fin apx_portAttributes_create
        (attribute_parser ?self3) = Inr (r, attr, parser')" unfolding front by auto
    have more: "Suc ?colon < ?fin" using front attrs by (cases "txt") (simp_all add: reads_port_attributes_def)
    have t3: "st_port (dp_state ?self3) = Some ?p3" using self2(2) by (simp add: take_port_element_def)
    let ?self4 = "?self3\<lparr>attribute_parser := parser', dp_state := (dp_state ?self3)\<lparr>st_port := Some (?p3\<lparr>pt_attributes := Some attr\<rparr>)\<rparr>\<rparr>"
    have "port_attributes_follow P ?mem (Suc ?colon) ?fin ?self3 = (APX_NO_ERROR, ?self4)"
      using t3 r by (simp add: port_attributes_follow_def state_parse_port_attributes_def apx_port_init_attributes_def port_on_signature_def
          apx_port_create_def)
    then have "parser_accept_port_declaration P ?mem ?fin self = append_port P ?self4"
      using n head made self2(1) colon(1) a more sig'(2)
      by (simp add: parser_accept_port_declaration_def Let_def eval_nat_numeral)
    with self2 s append [of "Some attr"] show ?thesis
      by (simp add: append_port_def take_port_element_def port_on_signature_def apx_dataSignature_set_element_def apx_port_create_def
          apx_dataSignature_create_def a Let_def)
  qed
qed

section \<open>Reading a definition\<close>

text \<open>A line that is accepted in its section moves the parser on.\<close>

lemma line_taken:
  assumes "parsing self section n node" and "0 < fin"
    and "accept_line P mem fin (self\<lparr>dp_state := (dp_state self)\<lparr>lineno := word_of_nat (Suc n)\<rparr>\<rparr>) = (APX_NO_ERROR, self')"
  shows "parser_on_new_line P self mem fin = (APX_NO_ERROR, self')"
  using assms by (simp add: parser_on_new_line_def parsing_def Let_def add.commute)

lemma version_taken:
  assumes L: "lib_reads P" and p: "parsing self APX_DEFINITION_SECTION_VERSION n node"
  shows "\<exists>self'. parser_on_new_line P self ([65, 80, 88, 47, 49, 46, 50] @ 10 # rest) (length [65, 80, 88, 47, 49, 46, 50 :: byte]) = (APX_NO_ERROR, self') \<and>
    parsing self' APX_DEFINITION_SECTION_NODE (Suc n) node"
proof -
  let ?L = "pl_definition P" and ?t = "[65, 80, 88, 47, 49, 46, 50] :: byte list"
  let ?self = "self\<lparr>dp_state := (dp_state self)\<lparr>lineno := word_of_nat (Suc n)\<rparr>\<rparr>"
  have T: "tokens (dl_bstr ?L)" using L by (simp add: lib_reads_def tokens.intro)
  have "match_cstr ?L ([65, 80, 88, 47] @ [49, 46, 50]) [65, 80, 88, 47] = At (length [65, 80, 88, 47 :: byte])"
    using L unfolding lib_reads_def matches_text_def by blast
  then have m: "match_cstr ?L ?t [65, 80, 88, 47] = At 4" by simp
  have one: "signed_decimal 1 = [49]" "signed_decimal 2 = [50]"
    by (simp_all add: signed_decimal_def decimal.simps)
  have "here ?t 4 (signed_decimal (sint (1 :: u32)) @ [46, 50])" "here ?t 6 (signed_decimal (sint (2 :: u32)) @ [])"
    by (simp_all add: one here_def)
  from tokens.read_i32 [OF T this(1)] tokens.read_i32 [OF T this(2)]
  have n: "apx_parserBase_parse_i32 (dl_bstr ?L) ?t 4 = (At 5, 1)" "apx_parserBase_parse_i32 (dl_bstr ?L) ?t 6 = (At 7, 2)"
    by (simp_all add: one ends_number_def is_digit_def)
  have "\<exists>self'. parser_accept_version_line P (?t @ 10 # rest) (length ?t) ?self = (APX_NO_ERROR, self') \<and>
      parsing self' APX_DEFINITION_SECTION_NODE (Suc n) node"
    using m n p by (simp add: parser_accept_version_line_def Let_def parsing_def)
  then show ?thesis
    using line_taken [OF p, of "length ?t" P "?t @ 10 # rest"] p by (auto simp: accept_line_def parsing_def)
qed

lemma node_taken:
  assumes L: "lib_reads P" and p: "parsing self APX_DEFINITION_SECTION_NODE n node" and name: "good_name name"
  shows "\<exists>self'. parser_on_new_line P self ((78 # 34 # name @ [34]) @ 10 # rest) (length (78 # 34 # name @ [34 :: byte])) = (APX_NO_ERROR, self') \<and>
    parsing self' APX_DEFINITION_SECTION_TYPE (Suc n) (Some (apx_node_create name))"
proof -
  let ?mem = "(78 # 34 # name @ [34]) @ 10 # rest" and ?fin = "length (78 # 34 # name @ [34 :: byte])"
  let ?self = "self\<lparr>dp_state := (dp_state self)\<lparr>lineno := word_of_nat (Suc n)\<rparr>\<rparr>"
  have B: "scans_tokens (dl_bstr (pl_definition P))" using L by (simp add: lib_reads_def)
  have "?mem = 78 # 34 # name @ 34 # [] @ 10 # rest" "?fin = length name + 3 + length ([] :: byte list)" by simp_all
  note r = name_read [OF B name this]
  have "take ?fin ?mem ! 0 = 78" "1 < ?fin" "Suc (length name + 2) = ?fin" using r(1) by simp_all
  moreover have "on_state (\<lambda>s. state_make_node s name) ?self =
      (APX_NO_ERROR, ?self\<lparr>dp_state := (dp_state ?self)\<lparr>st_node := Some (apx_node_create name)\<rparr>\<rparr>)"
    using name by (simp add: on_state_def state_make_node_def good_name_def)
  ultimately have "\<exists>self'. parser_accept_node_declaration P ?mem ?fin ?self = (APX_NO_ERROR, self') \<and>
      parsing self' APX_DEFINITION_SECTION_TYPE (Suc n) (Some (apx_node_create name))"
    using r(2,3) p unfolding parser_accept_node_declaration_def Let_def by (simp add: parsing_def eval_nat_numeral)
  then show ?thesis using line_taken [OF p, of ?fin P ?mem] p by (auto simp: accept_line_def parsing_def)
qed

lemma type_taken:
  assumes L: "lib_reads P" and p: "parsing self APX_DEFINITION_SECTION_TYPE n (Some node)" and d: "readable_type P d"
    and new: "nd_type_map node (td_name d) = None" and n: "n = 2 + length (nd_data_types node)"
  shows "\<exists>self'. parser_on_new_line P self (type_line d @ 10 # rest) (length (type_line d)) = (APX_NO_ERROR, self') \<and>
    parsing self' APX_DEFINITION_SECTION_TYPE (Suc n) (Some (add_type node d))"
proof -
  let ?self = "self\<lparr>dp_state := (dp_state self)\<lparr>lineno := word_of_nat (Suc n)\<rparr>\<rparr>"
  have s: "st_node (dp_state ?self) = Some node" "dp_last_error ?self = APX_NO_ERROR" using p by (simp_all add: parsing_def)
  from type_declared [OF L d s new, of rest] obtain self' where t:
    "parser_accept_type_declaration P (type_line d @ 10 # rest) (length (type_line d)) ?self = (APX_NO_ERROR, self')"
    "parsing self' APX_DEFINITION_SECTION_TYPE (Suc n) (Some (add_type node d))"
    using p n by (auto simp: parsing_def add_type_def Let_def)
  have "1 < length (type_line d)" "(type_line d @ 10 # rest) ! 0 = 84" by (simp_all add: type_line_def)
  with t(1) p have "accept_line P (type_line d @ 10 # rest) (length (type_line d)) ?self = (APX_NO_ERROR, self')"
    by (simp add: accept_line_def parser_accept_type_or_port_declaration_def parsing_def)
  from line_taken [OF p _ this] t(2) show ?thesis by (auto simp: type_line_def)
qed

lemma port_taken:
  assumes L: "lib_reads P" and p: "parsing self section n (Some node)" "section \<in> {APX_DEFINITION_SECTION_TYPE, APX_DEFINITION_SECTION_PORT}"
    and d: "readable_port P d" and new: "nd_port_map node (pd_name d) = None" and n: "n = 2 + declared node"
  shows "\<exists>self'. parser_on_new_line P self (port_line d @ 10 # rest) (length (port_line d)) = (APX_NO_ERROR, self') \<and>
    parsing self' APX_DEFINITION_SECTION_PORT (Suc n) (Some (add_port node d))"
proof -
  let ?self = "self\<lparr>dp_state := (dp_state self)\<lparr>lineno := word_of_nat (Suc n)\<rparr>\<rparr>"
  have s: "st_node (dp_state ?self) = Some node" "dp_last_error ?self = APX_NO_ERROR" using p by (simp_all add: parsing_def)
  have "lineno (dp_state ?self) = word_of_nat (3 + declared node)" using n by (simp add: add.commute)
  from port_declared [OF L d s new this, of rest] obtain self1 where t:
    "parser_accept_port_declaration P (port_line d @ 10 # rest) (length (port_line d)) ?self = (APX_NO_ERROR, self1)"
    "parsing self1 section (Suc n) (Some (add_port node d))"
    using p by (auto simp: parsing_def)
  have "1 < length (port_line d)" "(port_line d @ 10 # rest) ! 0 \<noteq> 84" by (simp_all add: port_line_def split: apx_portType.split)
  with t p have "\<exists>self'. accept_line P (port_line d @ 10 # rest) (length (port_line d)) ?self = (APX_NO_ERROR, self') \<and>
      parsing self' APX_DEFINITION_SECTION_PORT (Suc n) (Some (add_port node d))"
    by (auto simp: accept_line_def parser_accept_type_or_port_declaration_def parsing_def)
  with line_taken [OF p(1), of "length (port_line d)"] show ?thesis by (auto simp: port_line_def)
qed

lemma handler_new_line [simp]: "apx_istream_handler_new_line (parser_init_handler fuel P) = parser_on_new_line P"
  by (intro ext) (simp add: apx_istream_handler_new_line_def parser_init_handler_def)

lemma types_taken:
  assumes L: "lib_reads P"
  shows "parsing self APX_DEFINITION_SECTION_TYPE n (Some node) \<Longrightarrow> \<forall>d\<in>set types. readable_type P d \<Longrightarrow> distinct (map td_name types) \<Longrightarrow>
    \<forall>d\<in>set types. nd_type_map node (td_name d) = None \<Longrightarrow> n = 2 + length (nd_data_types node) \<Longrightarrow>
    \<exists>self'. parsing self' APX_DEFINITION_SECTION_TYPE (n + length types) (Some (foldl add_type node types)) \<and>
      (\<forall>s'. fed (parser_init_handler fuel P) ls self' s' \<longrightarrow> fed (parser_init_handler fuel P) (map type_line types @ ls) self s')"
proof (induction types arbitrary: self n node)
  case Nil
  then show ?case by auto
next
  case (Cons d types)
  from Cons.prems have d: "readable_type P d" "nd_type_map node (td_name d) = None" by simp_all
  from type_taken [OF L Cons.prems(1) d Cons.prems(5), of "lines_text (map type_line types @ ls)"] obtain self1 where self1:
    "parser_on_new_line P self (type_line d @ 10 # lines_text (map type_line types @ ls)) (length (type_line d)) = (APX_NO_ERROR, self1)"
    "parsing self1 APX_DEFINITION_SECTION_TYPE (Suc n) (Some (add_type node d))" by blast
  have "\<forall>d'\<in>set types. nd_type_map (add_type node d) (td_name d') = None" "Suc n = 2 + length (nd_data_types (add_type node d))"
    using Cons.prems(3-5) by (auto simp: add_type_def Let_def image_iff)
  from Cons.IH [OF self1(2) _ _ this] Cons.prems(2,3) obtain self' where
    "parsing self' APX_DEFINITION_SECTION_TYPE (Suc n + length types) (Some (foldl add_type (add_type node d) types))"
    "\<forall>s'. fed (parser_init_handler fuel P) ls self' s' \<longrightarrow> fed (parser_init_handler fuel P) (map type_line types @ ls) self1 s'" by auto
  with self1(1) show ?case by auto
qed

lemma ports_taken:
  assumes L: "lib_reads P"
  shows "parsing self sec n (Some node) \<Longrightarrow> sec \<in> {APX_DEFINITION_SECTION_TYPE, APX_DEFINITION_SECTION_PORT} \<Longrightarrow>
    \<forall>d\<in>set ports. readable_port P d \<Longrightarrow> distinct (map pd_name ports) \<Longrightarrow>
    \<forall>d\<in>set ports. nd_port_map node (pd_name d) = None \<Longrightarrow> n = 2 + declared node \<Longrightarrow>
    \<exists>self' sec. parsing self' sec (n + length ports) (Some (foldl add_port node ports)) \<and>
      fed (parser_init_handler fuel P) (map port_line ports) self self'"
proof (induction ports arbitrary: self sec n node)
  case Nil
  then show ?case by auto
next
  case (Cons d ports)
  from Cons.prems have d: "readable_port P d" "nd_port_map node (pd_name d) = None" by simp_all
  from port_taken [OF L Cons.prems(1,2) d Cons.prems(6), of "lines_text (map port_line ports)"] obtain self1 where self1:
    "parser_on_new_line P self (port_line d @ 10 # lines_text (map port_line ports)) (length (port_line d)) = (APX_NO_ERROR, self1)"
    "parsing self1 APX_DEFINITION_SECTION_PORT (Suc n) (Some (add_port node d))" by blast
  have "\<forall>d'\<in>set ports. nd_port_map (add_port node d) (pd_name d') = None" "Suc n = 2 + declared (add_port node d)"
    using Cons.prems(4-6) by (auto simp: add_port_def declared_def Let_def image_iff split: apx_portType.split)
  from Cons.IH [OF self1(2) _ _ _ this] Cons.prems(3,4) obtain self' sec' where
    "parsing self' sec' (Suc n + length ports) (Some (foldl add_port (add_port node d) ports))"
    "fed (parser_init_handler fuel P) (map port_line ports) self1 self'" by auto
  with self1(1) show ?case by auto
qed

lemma typed_node:
  "nd_port_map (foldl add_type node types) = nd_port_map node" "nd_provide_ports (foldl add_type node types) = nd_provide_ports node"
  "nd_require_ports (foldl add_type node types) = nd_require_ports node"
  "length (nd_data_types (foldl add_type node types)) = length (nd_data_types node) + length types"
  by (induction types arbitrary: node) (simp_all add: add_type_def Let_def)

lemma plain_tail: "10 \<notin> set txt \<Longrightarrow> txt \<noteq> [] \<Longrightarrow> last txt \<noteq> 13 \<Longrightarrow> 10 \<notin> set front \<Longrightarrow> plain_line (front @ txt)"
  by (simp add: plain_line_def)

lemma plain_type_line: "readable_type P d \<Longrightarrow> plain_line (type_line d)"
  by (cases "td_attributes d") (auto simp: readable_type_def type_line_def good_name_def reads_signature_def reads_type_attributes_def plain_line_def)

lemma plain_port_line: "readable_port P d \<Longrightarrow> plain_line (port_line d)"
  by (cases "pd_attributes d")
    (auto simp: readable_port_def port_line_def good_name_def reads_signature_def reads_port_attributes_def plain_line_def split: apx_portType.splits)

section \<open>Properties\<close>

text \<open> C4: Parsing a definition of readable declarations with different names gives the node with these data types and ports, in their order, with
  their elements, attributes, positions and line numbers, finalized; the error of the parser is the one of finalizing the node. Whether the parser
  returns is the question whether finalizing does.
\<close>

theorem definition_parsed:
  assumes "lib_reads P" and "good_name name" and "\<forall>d\<in>set types. readable_type P d" and "\<forall>d\<in>set ports. readable_port P d"
    and "distinct (map td_name types)" and "distinct (map pd_name ports)"
    and "(stream, self) = apx_parser_create fuel P apx_istream_create"
  shows "map_option (\<lambda>(e, stream', self'). (e, fst (apx_parser_take_last_node self')))
      (apx_parser_parse_bstr P stream self (lines_text (definition_lines name types ports))) =
    map_option (\<lambda>(e, node). (e, Some node)) (apx_node_finalize fuel (pl_tree P) (definition_tree name types ports))"
proof -
  let ?h = "parser_init_handler fuel P" and ?text = "lines_text (definition_lines name types ports)"
  let ?node = "foldl add_type (apx_node_create name) types" and ?tree = "definition_tree name types ports"
  have fresh: "parsing (parser_reset self') APX_DEFINITION_SECTION_VERSION 0 None" for self' :: "('a, 'b) apx_parser"
    by (simp add: parsing_def parser_reset_def parser_clear_error_def state_clear_def)
  let ?s0 = "parser_reset (parser_reset self)"
  let ?ls1 = "(78 # 34 # name @ [34]) # map type_line types @ map port_line ports"
  from version_taken [OF assms(1) fresh, of "parser_reset self" "lines_text ?ls1"] obtain s1 where s1:
    "parser_on_new_line P ?s0 ([65, 80, 88, 47, 49, 46, 50] @ 10 # lines_text ?ls1) (length [65, 80, 88, 47, 49, 46, 50 :: byte]) = (APX_NO_ERROR, s1)"
    "parsing s1 APX_DEFINITION_SECTION_NODE 1 None" by auto
  let ?ls2 = "map type_line types @ map port_line ports"
  from node_taken [OF assms(1) s1(2) assms(2), of "lines_text ?ls2"] obtain s2 where s2:
    "parser_on_new_line P s1 ((78 # 34 # name @ [34]) @ 10 # lines_text ?ls2) (length (78 # 34 # name @ [34 :: byte])) = (APX_NO_ERROR, s2)"
    "parsing s2 APX_DEFINITION_SECTION_TYPE 2 (Some (apx_node_create name))" by (auto simp: numeral_2_eq_2)
  have new: "\<forall>d\<in>set types. nd_type_map (apx_node_create name) (td_name d) = None" "2 = 2 + length (nd_data_types (apx_node_create name))"
    by (simp_all add: apx_node_create_def)
  from types_taken [OF assms(1) s2(2) assms(3,5) new, of fuel "map port_line ports"] obtain s3 where s3:
    "parsing s3 APX_DEFINITION_SECTION_TYPE (2 + length types) (Some ?node)"
    "\<forall>s'. fed ?h (map port_line ports) s3 s' \<longrightarrow> fed ?h ?ls2 s2 s'" by blast
  have new': "\<forall>d\<in>set ports. nd_port_map ?node (pd_name d) = None" "2 + length types = 2 + declared ?node"
    by (simp_all add: typed_node declared_def) (simp_all add: apx_node_create_def)
  from ports_taken [OF assms(1) s3(1) _ assms(4,6) new', of fuel] obtain s4 sec where s4:
    "parsing s4 sec (2 + length types + length ports) (Some ?tree)" "fed ?h (map port_line ports) s3 s4"
    by (auto simp: definition_tree_def)
  have fed: "fed ?h (definition_lines name types ports) ?s0 s4"
    using s1(1) s2(1) s3(2) s4(2) by (simp add: definition_lines_def)
  have plain: "\<forall>l\<in>set (definition_lines name types ports). plain_line l"
  proof -
    have "\<forall>d\<in>set types. plain_line (type_line d)" "\<forall>d\<in>set ports. plain_line (port_line d)"
      using assms(3,4) plain_type_line [of P] plain_port_line [of P] by blast+
    moreover have "plain_line (78 # 34 # name @ [34])" "plain_line [65, 80, 88, 47, 49, 46, 50]"
      using assms(2) by (simp_all add: plain_line_def good_name_def)
    ultimately show ?thesis by (auto simp: definition_lines_def)
  qed
  have S: "stream_documented (pl_stream P)" using assms(1) by (simp add: lib_reads_def)
  have loop: "line_loop (pl_stream P) ?h ?text 0 APX_NO_ERROR ?s0 = (False, APX_NO_ERROR, length ?text, s4)"
    using lines_fed [OF S plain fed, of "[]"] by simp
  have nonempty: "?text \<noteq> []" by (simp add: definition_lines_def)
  have stream: "stream = \<lparr>is_handler = ?h, is_buf = [], is_last_error = APX_NO_ERROR\<rparr>"
    using assms(7) by (simp add: apx_parser_create_def apx_istream_set_handler_def apx_istream_create_def)
  have opened: "apx_istream_open stream (parser_reset self) = (stream, ?s0)"
    by (simp add: stream apx_istream_open_def apx_istream_handler_open_def parser_init_handler_def parser_on_open_def)
  have written: "apx_istream_write (pl_stream P) stream ?s0 ?text = (stream, s4)"
    using S loop nonempty by (simp add: stream apx_istream_write_def stream_documented_def Let_def)
  have run: "apx_parser_parse_bstr P stream self ?text =
      map_option (\<lambda>(stream, self). (apx_parser_get_last_error self, stream, self)) (apx_istream_close stream s4)"
    by (simp add: apx_parser_parse_bstr_def opened written)
  have close: "apx_istream_close stream s4 =
      map_option (\<lambda>(e, s). (stream\<lparr>is_last_error := e\<rparr>, s)) (parser_on_close fuel P s4)"
    by (simp add: stream apx_istream_close_def apx_istream_handler_close_def parser_init_handler_def)
  have s4': "st_node (dp_state s4) = Some ?tree" "dp_last_error s4 = APX_NO_ERROR"
    using s4(1) by (simp_all add: parsing_def)
  show ?thesis
  proof (cases "apx_node_finalize fuel (pl_tree P) ?tree")
    case None
    then show ?thesis by (simp add: run close parser_on_close_def s4')
  next
    case (Some r)
    then show ?thesis
      by (cases r) (simp add: run close parser_on_close_def s4' apx_parser_get_last_error_def apx_parser_take_last_node_def
          parser_set_error_def Let_def)
  qed
qed

text \<open>A printed signature is readable, in the sense the theorem above asks for.\<close>

lemma printed_signature_readable:
  assumes "scans_tokens (dl_bstr (pl_definition P))" and "measures_text (dl_text (pl_definition P))" and "printable de" and "de_name de = None"
    and "apx_dataElement_to_string de False = Some sig" and "sig \<noteq> []" and "{10, 58} \<inter> set sig = {}" and "last sig \<noteq> 13"
  shows "reads_signature P sig de"
proof -
  have "\<exists>self'. apx_signatureParser_parse_data_signature (dl_bstr (pl_definition P)) (dl_text (pl_definition P)) sig self = (At (length sig), self') \<and>
      sp_data_element self' = Some de" for self
  proof -
    let ?self = "(apx_signatureParser_reset self)\<lparr>sp_is_record := False, sp_data_element := None\<rparr>"
    have "here sig 0 (named (de_name de) (sig @ []))" using assms(4) by (simp add: here_start named_def)
    from tokens.printed_read(1) [OF tokens.intro [OF assms(1)] assms(2) refl assms(3,5) this, of ?self] assms(4)
    obtain e where "here sig e []" "apx_signatureParser_parse_data_element (dl_bstr (pl_definition P)) (dl_text (pl_definition P)) sig 0 ?self =
        (At e, ?self\<lparr>sp_data_element := Some de\<rparr>)" by (auto simp: ends_element_def)
    moreover from this(1) have "e = length sig" by (simp add: here_def)
    ultimately show ?thesis by (simp add: apx_signatureParser_parse_data_signature_def apx_signatureParser_reset_def)
  qed
  with assms(6-8) show ?thesis by (simp add: reads_signature_def)
qed

definition parser_lib_ref :: "(dv, int) parser_lib" where
  "parser_lib_ref = \<lparr>pl_definition = definition_lib_ref, pl_tree = tree_ref, pl_stream = stream_ref, pl_zero = 0\<rparr>"

lemma parser_lib_ref_reads: "lib_reads parser_lib_ref"
  using definition_lib_ref_documented tree_ref_documented stream_ref_documented search_ref_finds
  by (simp add: lib_reads_def parser_lib_ref_def tree_documented_def definition_lib_ref_def search_ref_def [abs_def])

text \<open>\<open>T"B"C\<close>, \<open>P"x"C\<close> and \<open>R"y"T[0]:P\<close>\<close>

definition demo_types :: "int type_decl list" where
  "demo_types = [\<lparr>td_name = [66], td_signature = [67],
     td_element = element_of None APX_TYPE_CODE_UINT8 (TypeRefId APX_INVALID_TYPE_ID), td_attributes = None\<rparr>]"

definition demo_ports :: "dv port_decl list" where
  "demo_ports = [\<lparr>pd_type = APX_PROVIDE_PORT, pd_name = [120], pd_signature = [67],
     pd_element = element_of None APX_TYPE_CODE_UINT8 (TypeRefId APX_INVALID_TYPE_ID), pd_attributes = None\<rparr>,
    \<lparr>pd_type = APX_REQUIRE_PORT, pd_name = [121], pd_signature = [84, 91, 48, 93],
     pd_element = element_of None APX_TYPE_CODE_REF_ID (TypeRefId 0),
     pd_attributes = Some ([80], apx_portAttributes_create\<lparr>pa_is_parameter := True\<rparr>)\<rparr>]"

lemma demo_signature_C: "reads_signature parser_lib_ref [67] (element_of None APX_TYPE_CODE_UINT8 (TypeRefId APX_INVALID_TYPE_ID))"
  by (rule printed_signature_readable; simp add: parser_lib_ref_def definition_lib_ref_documented element_of_def
      type_letter_def limits_printable_def short_limits_def apx_dataElement_is_array_def array_to_string_def)

lemma demo_signature_T: "reads_signature parser_lib_ref [84, 91, 48, 93] (element_of None APX_TYPE_CODE_REF_ID (TypeRefId 0))"
  by (simp add: reads_signature_def parser_lib_ref_def definition_lib_ref_def bstr_ref_def apx_signatureParser_parse_data_signature_def
      apx_signatureParser_parse_data_element.simps signature_letter_def apx_signatureParser_parse_type_reference_def parse_element_limits_def
      optional_part_def parse_suffix_def create_element_def parse_field_name_def is_space_def is_digit_def read_unsigned_def skip_def
      apx_signatureParser_reset_def with_element_def on_element_def between_def element_of_def
      apx_parserBase_parse_u32_def apx_signatureParser_parse_array_def digits_val_def apx_dataElement_create_def Let_def)

lemma demo_attributes: "reads_port_attributes parser_lib_ref [80] (apx_portAttributes_create\<lparr>pa_is_parameter := True\<rparr>)"
proof -
  have "skip (dl_bstr (pl_definition parser_lib_ref)) (take (Suc (length front)) (front @ 80 # 10 # rest)) (length front) = length front"
    "skip (dl_bstr (pl_definition parser_lib_ref)) (take (Suc (length front)) (front @ 80 # 10 # rest)) (Suc (length front)) = Suc (length front)"
    for front rest
    by (simp_all add: skip_def parser_lib_ref_def definition_lib_ref_def bstr_ref_def is_space_def)
  then show ?thesis
    by (simp add: reads_port_attributes_def apx_attributeParser_parse_port_attributes_def attribute_loop.simps
        apx_attributeParser_parse_single_port_attribute_def char_at_def)
qed

theorem definition_parsed_witness:
  "map_option (\<lambda>(e, stream', self'). (e, fst (apx_parser_take_last_node self')))
      (apx_parser_parse_bstr parser_lib_ref (fst (apx_parser_create 2 parser_lib_ref apx_istream_create))
        (snd (apx_parser_create 2 parser_lib_ref apx_istream_create)) (lines_text (definition_lines [110] demo_types demo_ports))) =
    map_option (\<lambda>(e, node). (e, Some node)) (apx_node_finalize 2 tree_ref (definition_tree [110] demo_types demo_ports))"
proof -
  have "\<forall>d\<in>set demo_types. readable_type parser_lib_ref d" "\<forall>d\<in>set demo_ports. readable_port parser_lib_ref d"
    using demo_signature_C demo_signature_T demo_attributes
    by (simp_all add: demo_types_def demo_ports_def readable_type_def readable_port_def good_name_def plain_name_def)
  moreover have "distinct (map td_name demo_types)" "distinct (map pd_name demo_ports)" by (simp_all add: demo_types_def demo_ports_def)
  moreover have "good_name [110]" by (simp add: good_name_def plain_name_def)
  ultimately show ?thesis
    using definition_parsed [OF parser_lib_ref_reads, of "[110]" demo_types demo_ports, where fuel = 2] 
    by (simp add: parser_lib_ref_def)
qed

end
