(* ===== verification/Spec2Isabelle.thy ===== *)
theory Spec2Isabelle
  imports VmSafety VmErrors FileMap SignatureRoundtrip NodeData PortConnector FileReceiver FileManager Transmit Connection PortInstance BytePortMap NodeInstance SignatureMap Matching Routing NodeFiles Disconnect RoutingFacts Computation AttributeParser AttributeFacts InitialValues ParseTree Stream DefinitionParser TreeFacts NodeFacts DefinitionFacts
begin

text \<open>
  Verification of c-apx, an implementation of APX (publish and subscribe for automotive signals)
  in C. The library is under src/apx: a node declares its provide ports and require ports in a
  definition text; each port has a data signature, which is parsed into a tree of data elements
  and compiled to byte code; a virtual machine runs the byte code to pack values into the port's
  bytes and to unpack them. Nodes and the server exchange definition and port data as files of
  the RemoteFile protocol, and the server routes the bytes of provide ports to the require ports of
  the same signature.

  Conventions. A struct is a record with the fields of the struct, an enumeration a datatype, a
  \<open>uint32_t\<close> a \<open>32 word\<close>. A function that returns \<open>apx_error_t\<close> and changes an
  object is a function from the object to the error code and the object it leaves, on the error
  paths too. A failed assertion, an access outside an object and a use of freed memory are the error
  code \<open>FAULT\<close>, so that their absence is a theorem. A pointer into a text or a buffer is a
  position. The libraries that are git submodules of the repository (cutil, adt, dtl_type, bstr)
  have no source there: what the code calls of them is a parameter (theories Libs, Dtl, Text,
  PortConnector), and what it relies on is a named predicate which a concrete instance satisfies.

  Theories, from the bottom to the top.

  \<^item> Prelude: error codes, outcomes, raw memory, byte order. Codec: the contract of a prefix code
    as a locale. Libs: byte packing, byte arrays, strings. Dtl: dynamic values.
  \<^item> NumHeader (numheader.c), RemoteFile (remotefile.c), FileInfo (file_info.c): the wire formats of
    the protocol, with round trips and bounds. FileMap (file.c, file_map.c): the files of a connection,
    sorted by address; creating, removing and finding keep them apart.
  \<^item> VmCommon (vm_common.c), Program (program.c), Decoder (decoder.c), Serializer (serializer.c),
    Deserializer (deserializer.c), Vm (vm.c): the virtual machine, operation by operation. The interpreter
    loop is a partial function, \<open>None\<close> for a run that does not end; \<open>interpreter_returns\<close> proves
    that a run in which no program position is saved, that is a run without arrays of records, does end. Every load from
    the data of the deserializer is checked: one outside of the buffer is a fault, whatever tests the code makes before.
  \<^item> DataElement (data_element.c, data_type.c), Compiler (compiler.c): from data elements to byte
    code.
  \<^item> Layout: the specification of what packing writes, as bytes of a value of a shape.
    CompileShape, PackValues, PackRun, PackCorrect: compiler and pack interpreter implement it.
    UnpackValues, UnpackRun, UnpackLimits, UnpackCorrect: the unpack interpreter reads it.
  \<^item> Loops, VmSafety: what holds of the interpreters on arbitrary byte code: bounds, no
    memory faults, termination. VmErrors: defects of serializer and deserializer.
  \<^item> Text (parser_base.c), SignatureParser (signature_parser.c and the printing part of
    data_element.c), SignatureRoundtrip: the parser reads back what the printer writes.
  \<^item> Computation (computation.c), AttributeParser (attribute_parser.c, port_attribute.c, type_attribute.c),
    AttributeFacts, InitialValues: what follows the colon of a declaration. Printed computations are parsed back;
    an initial value is read as the value it stands for, though the parser keeps its own stack.
  \<^item> ParseTree (node.c, port.c, data_type.c, data_signature.c, the rest of data_element.c): the tree of a
    definition and the passes that finalize it. TreeFacts, NodeFacts: type references without a circle are
    resolved and every port gets its effective element, with a circle the node is never finalized; copies and
    initial values have the shape they should.
  \<^item> Stream (stream.c), DefinitionParser (parser.c), DefinitionFacts: from the lines of a text to the finalized
    tree. \<open>definition_parsed\<close> joins stream, definition parser, signature parser, attribute parser and tree.
  \<^item> NodeData (node_data.c): the buffers of a node. PortConnector (port_connector_*.c): changes of
    connections and the lists that routing follows.
  \<^item> FileReceiver (file_manager_receiver.c), FileManager (file_manager.c, file_manager_shared.c,
    file_manager_worker.c, command.c): fragments become messages, messages become file operations, queued commands become
    messages. Transmit (socket_client_connection.c, extension/socket_server_connection.c) puts them into
    packets, Connection (client_connection.c, server_connection.c) takes the stream of the peer apart. The properties
    join the two sides: the greeting is answered, chunks do not matter, what one side writes the other side reports.
  \<^item> PortInstance (port_instance.c), BytePortMap (byte_port_map.c), NodeInstance (node_instance.c): the nodes
    and their ports, initial data and files.
  \<^item> SignatureMap (port_signature_map.c, port_signature_map_entry.c), Matching: which ports belong together;
    joining matches exactly the ports of the same signature, leaving undoes it but for the preferred
    provider, which is never reset. A pointer to a node is its number
    in a network, a function from numbers to nodes.
  \<^item> Routing (node_instance.c, server.c, server_connection.c), NodeFiles (node_instance.c, file.c), Disconnect
    (server_connection.c), RoutingFacts: the bytes of a provide port reach the connected require ports, files are opened and
    published, connections end. Routing a write returns whatever its range.

  Parameters. \<open>lib_documented\<close> and \<open>bytearray_documented\<close> speak of byte packing and byte arrays,
  \<open>dtl_documented\<close> of dynamic values, \<open>scans_tokens\<close>, \<open>matches_text\<close>, \<open>finds_first\<close> and
  \<open>measures_text\<close> of the scanner of texts, \<open>finds_lines\<close> of the line scanner, \<open>arrays_documented\<close>,
  \<open>ary_documented\<close>, \<open>names_documented\<close> and \<open>hash_documented\<close> of containers, \<open>ring_documented\<close> of
  the queue of commands. \<open>reads_back\<close> says that the number reader of the C library reads a printed number. The
  predicates \<open>env_documented\<close>, \<open>tree_documented\<close>, \<open>stream_documented\<close> and \<open>lib_reads\<close> collect those of a component. Each has a concrete
  instance, and the witnesses of the properties are evaluated on them.

  Recursion and fuel. Structural recursion is \<open>fun\<close>; following resolved type references, parsing
  records, initial values and lines are \<open>function\<close> with a measure; the interpreter loop, the loop of routing and the search for a
  free address are partial (\<open>partial_function (option)\<close>, \<open>while_option\<close>), and their return is proved, not assumed (that of the interpreter
  for runs that save no program position).
  One definition takes fuel, \<open>apx_dataType_derive_types_on_element\<close>: the code follows references from type to type without a bound. As much fuel as there
  are data types and one more is enough when no type refers to itself (\<open>acyclic_definition_finalized\<close>), and
  none makes finalizing succeed when a port leads into a circle (\<open>circular_definition_never_finalized\<close>).

  Left out throughout: the guards against a null \<open>self\<close>, freeing, reference counts, mutexes,
  running out of memory where a parameter does not say otherwise; the host is little endian; the upper
  halves of unions are zero after a 32 bit store.

  Not modelled: threads, sockets, the applications, the log extension, test doubles and the
  AUTOSAR emulation, which are input and output around the platform; event listeners, the list of connections of the server
  and the interface of the client, which hand events on; the pool of the allocator; the node manager, which runs
  the parser, the compiler and the construction of nodes one after the other and keeps tables of printed elements and computations; the embedded
  profile apx-es, a separate implementation with types of its own.
\<close>

end
